(* ===== verification/Sdk_Prelude.thy ===== *)
theory Sdk_Prelude
  imports Main "HOL-Library.Word"
begin

text \<open>
  Shared vocabulary of the development: the result type of code that can leave defined
  behaviour, the services of the environment (allocator, clock, random source), C strings,
  decimal printing, and the locale of invariants of state machines that several components
  interpret.
\<close>

section \<open>Runs of C code\<close>

text \<open>
  A piece of C code that reads memory and loops either returns a value, leaves defined
  behaviour (an access outside an object, a use of freed storage), or is still running when
  the fuel of the model is spent. Theorems keep the three apart.
\<close>

datatype 'a run = Done (result_of: 'a) | Fault | NoFuel

primrec run_bind :: "'a run \<Rightarrow> ('a \<Rightarrow> 'b run) \<Rightarrow> 'b run" where
  "run_bind (Done x) f = f x"
| "run_bind Fault f = Fault"
| "run_bind NoFuel f = NoFuel"

lemma run_bind_cong [fundef_cong]:
  "m = m' \<Longrightarrow> (\<And>x. m' = Done x \<Longrightarrow> f x = g x) \<Longrightarrow> run_bind m f = run_bind m' g"
  by (cases m') auto

lemma run_bind_Done_iff: "run_bind m f = Done y \<longleftrightarrow> (\<exists>x. m = Done x \<and> f x = Done y)"
  by (cases m) auto

lemma run_bind_split:
  "P (run_bind m f) \<longleftrightarrow>
     (\<forall>x. m = Done x \<longrightarrow> P (f x)) \<and> (m = Fault \<longrightarrow> P Fault) \<and> (m = NoFuel \<longrightarrow> P NoFuel)"
  by (cases m) auto

lemma run_bind_Fault_iff:
  "run_bind m f = Fault \<longleftrightarrow> m = Fault \<or> (\<exists>x. m = Done x \<and> f x = Fault)"
  by (cases m) auto

text \<open>
  \<open>run_sat t Q m\<close>: the run stays inside defined behaviour, what it returns satisfies \<open>Q\<close>, and
  if \<open>t\<close> then it returns. One lemma serves for safety (\<open>t\<close> false, any fuel) and for total
  correctness (\<open>t\<close> true, enough fuel).
\<close>

primrec run_sat :: "bool \<Rightarrow> ('a \<Rightarrow> bool) \<Rightarrow> 'a run \<Rightarrow> bool" where
  "run_sat t Q (Done x) = Q x"
| "run_sat t Q Fault = False"
| "run_sat t Q NoFuel = (\<not> t)"

lemma run_sat_bindI:
  "run_sat t P m \<Longrightarrow> (\<And>x. P x \<Longrightarrow> run_sat t Q (f x)) \<Longrightarrow> run_sat t Q (run_bind m f)"
  by (cases m) auto

lemma run_sat_mono: "run_sat t P m \<Longrightarrow> (\<And>x. P x \<Longrightarrow> Q x) \<Longrightarrow> run_sat t Q m"
  by (cases m) auto

lemma run_sat_not_Fault: "run_sat t Q m \<Longrightarrow> m \<noteq> Fault"
  by (cases m) auto

lemma run_sat_Done: "run_sat t Q m \<Longrightarrow> m = Done x \<Longrightarrow> Q x"
  by simp

lemma run_sat_total: "run_sat True Q m \<longleftrightarrow> (\<exists>x. m = Done x \<and> Q x)"
  by (cases m) auto

section \<open>The environment\<close>

text \<open>
  The services the code calls and whose answers it does not control. The environment has a
  state of any type \<open>'e\<close>; each service maps it to an answer and the next state. A false answer
  of \<open>os_malloc\<close> is a NULL from malloc, calloc, realloc or mallocAndStrcpy\_s; an answer of -1
  of \<open>os_time\<close> is INDEFINITE\_TIME. Nothing is assumed of the answers unless a theorem says so.
\<close>

record 'e os =
  os_malloc :: "'e \<Rightarrow> bool \<times> 'e"
  os_time :: "'e \<Rightarrow> int \<times> 'e"
  os_rand :: "'e \<Rightarrow> nat \<times> 'e"

definition INDEFINITE_TIME :: int where
  "INDEFINITE_TIME = - 1"

text \<open>The environment in which memory never runs out.\<close>

definition memory_available :: "('e, 'm) os_scheme \<Rightarrow> bool" where
  "memory_available os \<longleftrightarrow> (\<forall>e. fst (os_malloc os e))"

lemma memory_availableD: "memory_available os \<Longrightarrow> os_malloc os e = (b, e') \<Longrightarrow> b"
  unfolding memory_available_def by (metis fst_conv)

text \<open>
  A scripted environment for closed examples: the n-th allocation succeeds unless n is in the
  first list, the clock answers the second list in order and then repeats its last reading,
  the random source answers the third list and then 0.
\<close>

record script =
  allocs :: nat
  failing :: "nat list"
  clock :: "int list"
  randoms :: "nat list"

definition script_os :: "script os" where
  "script_os = \<lparr>
     os_malloc = (\<lambda>e. (\<not> List.member (failing e) (allocs e), e\<lparr>allocs := Suc (allocs e)\<rparr>)),
     os_time = (\<lambda>e. case clock e of [] \<Rightarrow> (- 1, e)
                    | [t] \<Rightarrow> (t, e)
                    | t # ts \<Rightarrow> (t, e\<lparr>clock := ts\<rparr>)),
     os_rand = (\<lambda>e. case randoms e of [] \<Rightarrow> (0, e) | r # rs \<Rightarrow> (r, e\<lparr>randoms := rs\<rparr>)) \<rparr>"

definition plain_env :: script where
  "plain_env = \<lparr>allocs = 0, failing = [], clock = [0], randoms = []\<rparr>"

definition happy_os :: "unit os" where
  "happy_os = \<lparr>os_malloc = (\<lambda>e. (True, e)), os_time = (\<lambda>e. (0, e)), os_rand = (\<lambda>e. (0, e))\<rparr>"

lemma memory_available_happy [simp]: "memory_available happy_os"
  by (simp add: memory_available_def happy_os_def)

section \<open>Steps that may answer NULL\<close>

text \<open>
  A step that may answer NULL, and what follows when it does not. When it does, the code destroys
  what it has built and answers NULL.
\<close>

definition or_null :: "'a option \<times> 'e \<Rightarrow> ('a \<Rightarrow> 'e \<Rightarrow> 'b option \<times> 'e) \<Rightarrow> 'b option \<times> 'e" where
  "or_null m f = (case m of (None, e) \<Rightarrow> (None, e) | (Some x, e) \<Rightarrow> f x e)"

definition malloc_of :: "('e, 'm) os_scheme \<Rightarrow> 'a \<Rightarrow> 'e \<Rightarrow> 'a option \<times> 'e" where
  "malloc_of os x e = (case os_malloc os e of (ok, e) \<Rightarrow> (if ok then Some x else None, e))"

text \<open>Copying a field: a NULL field stays NULL, else mallocAndStrcpy\_s must succeed.\<close>

definition copy_field ::
  "('e, 'm) os_scheme \<Rightarrow> string option \<Rightarrow> 'e \<Rightarrow> string option option \<times> 'e" where
  "copy_field os src e = (case src of None \<Rightarrow> (Some None, e) | Some s \<Rightarrow> malloc_of os (Some s) e)"

lemma or_null_Some: "or_null m f = (Some y, e') \<longleftrightarrow> (\<exists>x e1. m = (Some x, e1) \<and> f x e1 = (Some y, e'))"
  by (cases m) (auto simp: or_null_def split: option.splits)

lemma malloc_of_Some: "malloc_of os x e = (Some y, e') \<longleftrightarrow> y = x \<and> os_malloc os e = (True, e')"
  by (auto simp: malloc_of_def split: prod.splits)

lemma copy_field_Some: "copy_field os src e = (Some v, e') \<Longrightarrow> v = src"
  by (auto simp: copy_field_def malloc_of_Some split: option.splits)

section \<open>C strings\<close>

abbreviation NUL :: char where "NUL \<equiv> CHR 0x00"

text \<open>The bytes before the first NUL.\<close>

definition c_str :: "char list \<Rightarrow> string" where
  "c_str bs = takeWhile (\<lambda>c. c \<noteq> NUL) bs"

lemma c_str_append [simp]: "NUL \<notin> set s \<Longrightarrow> c_str (s @ NUL # r) = s"
  unfolding c_str_def by (induction s) auto

section \<open>Decimal printing\<close>

definition digit_char :: "nat \<Rightarrow> char" where
  "digit_char d = char_of (48 + d)"

fun nat_str :: "nat \<Rightarrow> string" where
  "nat_str n = (if n < 10 then [digit_char n] else nat_str (n div 10) @ [digit_char (n mod 10)])"

declare nat_str.simps [simp del]

text \<open>The value of a string of digits.\<close>

definition str_nat :: "string \<Rightarrow> nat" where
  "str_nat s = fold (\<lambda>c a. 10 * a + (of_char c - 48)) s 0"

lemma of_char_digit: "d < 10 \<Longrightarrow> of_char (digit_char d) = (48 + d :: nat)"
  by (simp add: digit_char_def)

lemma str_nat_nat_str: "str_nat (nat_str n) = n"
proof (induction n rule: nat_str.induct)
  case (1 n)
  show ?case
  proof (cases "n < 10")
    case True
    then show ?thesis
      by (simp add: nat_str.simps [of n] str_nat_def of_char_digit)
  next
    case False
    with 1 have "str_nat (nat_str (n div 10)) = n div 10" by simp
    with False show ?thesis
      by (simp add: nat_str.simps [of n] str_nat_def of_char_digit)
  qed
qed

lemma nat_str_length: "n < 10 ^ Suc k \<Longrightarrow> length (nat_str n) \<le> Suc k"
proof (induction k arbitrary: n)
  case 0
  then show ?case by (simp add: nat_str.simps [of n])
next
  case (Suc k)
  show ?case
  proof (cases "n < 10")
    case True
    then show ?thesis by (simp add: nat_str.simps [of n])
  next
    case False
    have "n div 10 < 10 ^ Suc k" using Suc.prems by (auto simp: div_less_iff_less_mult)
    with Suc.IH False show ?thesis by (subst nat_str.simps) simp
  qed
qed

lemma nat_str_inj: "nat_str m = nat_str n \<longleftrightarrow> m = n"
  by (metis str_nat_nat_str)

lemma nat_str_nonempty [simp]: "nat_str n \<noteq> []"
  by (subst nat_str.simps) simp

text \<open>The ISDIGIT macro: the ten characters from 0 to 9.\<close>

definition ISDIGIT :: "char \<Rightarrow> bool" where
  "ISDIGIT c \<longleftrightarrow> 48 \<le> (of_char c :: nat) \<and> (of_char c :: nat) \<le> 57"

lemma ISDIGIT_digit_char: "d < 10 \<Longrightarrow> ISDIGIT (digit_char d)"
  by (simp add: ISDIGIT_def of_char_digit)

lemma not_ISDIGIT_NUL [simp]: "\<not> ISDIGIT NUL"
  by (simp add: ISDIGIT_def)

lemma nat_str_digits: "c \<in> set (nat_str n) \<Longrightarrow> ISDIGIT c"
proof (induction n rule: nat_str.induct)
  case (1 n)
  then show ?case
    by (subst (asm) (2) nat_str.simps) (auto simp: ISDIGIT_digit_char split: if_splits)
qed

section \<open>Invariants of state machines\<close>

text \<open>
  A component whose operations are a step function over a type of requests: an invariant kept
  by each step holds after every run, and what one step guarantees of its outputs holds of all
  the outputs of a run. Each stateful component interprets this locale on its own operations.
\<close>

locale stepper =
  fixes step :: "'i \<Rightarrow> 's \<Rightarrow> 'o list \<times> 's"
    and inv :: "'s \<Rightarrow> bool"
    and out_ok :: "'o \<Rightarrow> bool"
  assumes step_inv: "inv s \<Longrightarrow> inv (snd (step i s))"
    and step_out: "inv s \<Longrightarrow> o' \<in> set (fst (step i s)) \<Longrightarrow> out_ok o'"

primrec steps :: "('i \<Rightarrow> 's \<Rightarrow> 'o list \<times> 's) \<Rightarrow> 'i list \<Rightarrow> 's \<Rightarrow> 'o list \<times> 's" where
  "steps f [] s = ([], s)"
| "steps f (i # is) s = (let (os, s') = f i s; (os', s'') = steps f is s' in (os @ os', s''))"

lemma steps_append:
  "steps f (is @ js) s =
     (let (os, s') = steps f is s; (os', s'') = steps f js s' in (os @ os', s''))"
  by (induction "is" arbitrary: s) (auto simp: Let_def split: prod.splits)

context stepper
begin

lemma steps_inv: "inv s \<Longrightarrow> inv (snd (steps step is s))"
proof (induction "is" arbitrary: s)
  case (Cons i "is")
  from Cons.prems have "inv (snd (step i s))" by (rule step_inv)
  then have "inv (snd (steps step is (snd (step i s))))" by (rule Cons.IH)
  then show ?case by (simp add: Let_def case_prod_beta)
qed simp

lemma steps_out: "inv s \<Longrightarrow> o' \<in> set (fst (steps step is s)) \<Longrightarrow> out_ok o'"
proof (induction "is" arbitrary: s)
  case (Cons i "is")
  then show ?case
    using step_out [OF Cons.prems(1)] step_inv [OF Cons.prems(1)]
    by (auto simp: Let_def case_prod_beta)
qed simp

end

end
