(* ===== verification/LinkedList.thy ===== *)
theory LinkedList
  imports Main Sdk_Prelude
begin

text \<open>
  The singly linked list of the shared utility library (azure\_c\_shared\_utility, not part of this
  repository): an argument of the models of its clients, with its documented laws, what follows
  from them, and an implementation of the laws for closed examples.
\<close>

section \<open>The interface\<close>

text \<open>
  singlylinkedlist.h: a list object of type \<open>'l\<close> holding pointers, list items of type \<open>'h\<close>. A
  pointer is a number, 0 being NULL. Reading an item is undefined when it is not in the list.
\<close>

record ('l, 'h, 'e) linked_list =
  singlylinkedlist_create :: "'e \<Rightarrow> 'l option \<times> 'e"
  singlylinkedlist_add :: "'l \<Rightarrow> nat \<Rightarrow> 'e \<Rightarrow> 'h option \<times> 'l \<times> 'e"
  singlylinkedlist_remove :: "'l \<Rightarrow> 'h \<Rightarrow> 'e \<Rightarrow> bool \<times> 'l \<times> 'e"
  singlylinkedlist_get_head_item :: "'l \<Rightarrow> 'h option"
  singlylinkedlist_get_next_item :: "'l \<Rightarrow> 'h \<Rightarrow> 'h option run"
  singlylinkedlist_item_get_value :: "'l \<Rightarrow> 'h \<Rightarrow> nat run"
  singlylinkedlist_find :: "'l \<Rightarrow> (nat \<Rightarrow> bool run) \<Rightarrow> 'h option run"

text \<open>The first item whose value satisfies a predicate that may itself fault.\<close>

fun find_first :: "('h \<times> nat) list \<Rightarrow> (nat \<Rightarrow> bool run) \<Rightarrow> 'h option run" where
  "find_first [] m = Done None"
| "find_first ((h, p) # hs) m =
     run_bind (m p) (\<lambda>b. if b then Done (Some h) else find_first hs m)"

text \<open>
  The documented behaviour, over the items and values a list holds: adding appends or, when
  memory runs out, changes nothing; an item that is in the list can be removed; the items of a
  list are distinct.
\<close>

definition list_laws ::
  "('l, 'h, 'e, 'm) linked_list_scheme \<Rightarrow> ('l \<Rightarrow> ('h \<times> nat) list) \<Rightarrow> bool" where
  "list_laws api contents \<longleftrightarrow>
     (\<forall>e l e'. singlylinkedlist_create api e = (Some l, e') \<longrightarrow> contents l = [])
     \<and> (\<forall>l. distinct (map fst (contents l)))
     \<and> (\<forall>l p e h l' e'. singlylinkedlist_add api l p e = (h, l', e') \<longrightarrow>
           contents l' = contents l @ (case h of None \<Rightarrow> [] | Some h \<Rightarrow> [(h, p)]))
     \<and> (\<forall>l h e ok l' e'. singlylinkedlist_remove api l h e = (ok, l', e') \<longrightarrow>
           h \<in> fst ` set (contents l) \<longrightarrow>
           ok \<and> contents l' = filter (\<lambda>x. fst x \<noteq> h) (contents l))
     \<and> (\<forall>l. singlylinkedlist_get_head_item api l =
           (case contents l of [] \<Rightarrow> None | (h, p) # _ \<Rightarrow> Some h))
     \<and> (\<forall>l xs h p ys. contents l = xs @ (h, p) # ys \<longrightarrow>
           singlylinkedlist_get_next_item api l h =
             Done (case ys of [] \<Rightarrow> None | (h', p') # _ \<Rightarrow> Some h')
           \<and> singlylinkedlist_item_get_value api l h = Done p)
     \<and> (\<forall>l m. singlylinkedlist_find api l m = find_first (contents l) m)"

section \<open>The lists under their laws\<close>

lemmas list_create = list_laws_def [THEN iffD1, THEN conjunct1, rule_format]
lemmas list_distinct = list_laws_def [THEN iffD1, THEN conjunct2, THEN conjunct1, rule_format]
lemmas list_add = list_laws_def [THEN iffD1, THEN conjunct2, THEN conjunct2, THEN conjunct1, rule_format]
lemmas list_remove_law = list_laws_def [THEN iffD1, THEN conjunct2, THEN conjunct2, THEN conjunct2, THEN conjunct1, rule_format]
lemmas list_head = list_laws_def [THEN iffD1, THEN conjunct2, THEN conjunct2, THEN conjunct2, THEN conjunct2, THEN conjunct1, rule_format]
lemmas list_item_law = list_laws_def [THEN iffD1, THEN conjunct2, THEN conjunct2, THEN conjunct2, THEN conjunct2, THEN conjunct2, THEN conjunct1, rule_format]
lemmas list_find = list_laws_def [THEN iffD1, THEN conjunct2, THEN conjunct2, THEN conjunct2, THEN conjunct2, THEN conjunct2, THEN conjunct2, rule_format]

lemma list_item:
  assumes "list_laws api contents" "contents l = xs @ (h, p) # ys"
  shows "singlylinkedlist_get_next_item api l h =
      Done (case ys of [] \<Rightarrow> None | (h', p') # _ \<Rightarrow> Some h')"
    "singlylinkedlist_item_get_value api l h = Done p"
  using list_item_law [OF assms] by auto

lemma list_remove:
  assumes "list_laws api contents" "contents l = xs @ (h, p) # ys"
    "singlylinkedlist_remove api l h e = (ok, l', e')"
  shows "ok" "contents l' = xs @ ys"
proof -
  have d: "distinct (map fst (xs @ (h, p) # ys))"
    using list_distinct [OF assms(1), of l] assms(2) by simp
  have "h \<in> fst ` set (contents l)" using assms(2) by force
  then have r: "ok \<and> contents l' = filter (\<lambda>x. fst x \<noteq> h) (contents l)"
    by (rule list_remove_law [OF assms(1,3)])
  then show ok by simp
  have "filter (\<lambda>x. fst x \<noteq> h) xs = xs" "filter (\<lambda>x. fst x \<noteq> h) ys = ys"
    using d by (auto simp: filter_id_conv)
  with r assms(2) show "contents l' = xs @ ys" by simp
qed

text \<open>The list item a loop is at, given the items it still has to look at.\<close>

definition list_item_at :: "('h \<times> nat) list \<Rightarrow> 'h option" where
  "list_item_at todo = (case todo of [] \<Rightarrow> None | (h, p) # _ \<Rightarrow> Some h)"

definition adds_succeed :: "('l, 'h, 'e, 'm) linked_list_scheme \<Rightarrow> bool" where
  "adds_succeed api \<longleftrightarrow> (\<forall>l p e. fst (singlylinkedlist_add api l p e) \<noteq> None)"

section \<open>A list library for examples\<close>

text \<open>
  An implementation of the laws, for closed examples: slots that are never reused, the index of a
  slot being its handle; an allocation decides whether an addition succeeds.
\<close>

fun live :: "nat \<Rightarrow> nat option list \<Rightarrow> (nat \<times> nat) list" where
  "live k [] = []"
| "live k (None # xs) = live (Suc k) xs"
| "live k (Some p # xs) = (k, p) # live (Suc k) xs"

fun next_live :: "nat \<Rightarrow> (nat \<times> nat) list \<Rightarrow> nat option run" where
  "next_live h [] = Fault"
| "next_live h ((h', p) # xs) = (if h = h' then Done (list_item_at xs) else next_live h xs)"

definition slot_lists :: "('e, 'm) os_scheme \<Rightarrow> (nat option list, nat, 'e) linked_list" where
  "slot_lists os = \<lparr>
     singlylinkedlist_create = (\<lambda>e. case os_malloc os e of (ok, e) \<Rightarrow> (if ok then Some [] else None, e)),
     singlylinkedlist_add = (\<lambda>l p e. case os_malloc os e of
        (ok, e) \<Rightarrow> if ok then (Some (length l), l @ [Some p], e) else (None, l, e)),
     singlylinkedlist_remove = (\<lambda>l h e. if h \<in> fst ` set (live 0 l) then (True, l[h := None], e) else (False, l, e)),
     singlylinkedlist_get_head_item = (\<lambda>l. list_item_at (live 0 l)),
     singlylinkedlist_get_next_item = (\<lambda>l h. next_live h (live 0 l)),
     singlylinkedlist_item_get_value = (\<lambda>l h. case map_of (live 0 l) h of None \<Rightarrow> Fault | Some p \<Rightarrow> Done p),
     singlylinkedlist_find = (\<lambda>l m. find_first (live 0 l) m) \<rparr>"

lemma live_append: "live k (xs @ ys) = live k xs @ live (k + length xs) ys"
  by (induction k xs rule: live.induct) auto

lemma live_bounds: "(h, p) \<in> set (live k xs) \<Longrightarrow> k \<le> h \<and> h < k + length xs"
  by (induction k xs rule: live.induct) fastforce+

lemma live_distinct: "distinct (map fst (live k xs))"
proof (induction k xs rule: live.induct)
  case (3 k p xs)
  then show ?case using live_bounds by fastforce
qed simp_all

lemma live_remove: "live k (xs[h := None]) = filter (\<lambda>x. fst x \<noteq> k + h) (live k xs)"
proof (induction k xs arbitrary: h rule: live.induct)
  case (2 k xs)
  have "filter (\<lambda>x. fst x \<noteq> k) (live (Suc k) xs) = live (Suc k) xs"
    using live_bounds [of _ _ "Suc k" xs] by (fastforce simp: filter_id_conv)
  with 2 show ?case by (cases h) auto
next
  case (3 k p xs)
  have "filter (\<lambda>x. fst x \<noteq> k) (live (Suc k) xs) = live (Suc k) xs"
    using live_bounds [of _ _ "Suc k" xs] by (fastforce simp: filter_id_conv)
  with 3 show ?case by (cases h) auto
qed simp

lemma next_live_law:
  "distinct (map fst xs) \<Longrightarrow> xs = as @ (h, p) # bs \<Longrightarrow> next_live h xs = Done (list_item_at bs) \<and> map_of xs h = Some p"
proof (induction as arbitrary: xs)
  case (Cons a as)
  then show ?case by (cases a) auto
qed simp

lemma slot_lists_laws: "list_laws (slot_lists os) (live 0)"
proof -
  have "next_live h (live 0 l) = Done (list_item_at ys) \<and> map_of (live 0 l) h = Some p"
    if "live 0 l = xs @ (h, p) # ys" for l xs h p ys
    using next_live_law [OF live_distinct that] .
  then show ?thesis
    unfolding list_laws_def
    by (auto simp: slot_lists_def live_distinct live_append live_remove list_item_at_def split: prod.splits if_splits)
qed

lemma slot_lists_add: "memory_available os \<Longrightarrow> adds_succeed (slot_lists os)"
  unfolding adds_succeed_def slot_lists_def
  by (auto split: prod.splits dest: memory_availableD)

end
