(* ===== verification/Message.thy ===== *)
theory Message
  imports Main Sdk_Prelude
begin

text \<open>
  The message object of the client (iothub\_client/src/iothub\_message.c): a content that is either
  bytes or a string, a map of user properties that takes printable ASCII only, and the system
  properties. The property map (azure\_c\_shared\_utility/map.h, not part of this repository) is an
  argument of the model; a field that is NULL in the code is None here.
\<close>

section \<open>Data\<close>

datatype IOTHUB_MESSAGE_RESULT =
  IOTHUB_MESSAGE_OK | IOTHUB_MESSAGE_INVALID_ARG | IOTHUB_MESSAGE_INVALID_TYPE | IOTHUB_MESSAGE_ERROR

datatype IOTHUBMESSAGE_CONTENT_TYPE =
  IOTHUBMESSAGE_BYTEARRAY | IOTHUBMESSAGE_STRING | IOTHUBMESSAGE_UNKNOWN

datatype MAP_RESULT =
  MAP_OK | MAP_ERROR | MAP_INVALIDARG | MAP_KEYEXISTS | MAP_KEYNOTFOUND | MAP_FILTER_REJECT

record ('mp, 'e) map_api =
  Map_Create :: "(string \<Rightarrow> string \<Rightarrow> bool) \<Rightarrow> 'e \<Rightarrow> 'mp option \<times> 'e"
  Map_Clone :: "'mp \<Rightarrow> 'e \<Rightarrow> 'mp option \<times> 'e"
  Map_AddOrUpdate :: "'mp \<Rightarrow> string \<Rightarrow> string \<Rightarrow> 'e \<Rightarrow> MAP_RESULT \<times> 'mp \<times> 'e"
  Map_ContainsKey :: "'mp \<Rightarrow> string \<Rightarrow> MAP_RESULT \<times> bool"
  Map_GetValueFromKey :: "'mp \<Rightarrow> string \<Rightarrow> string option"

text \<open>
  What map.h promises: a new map is empty and keeps its filter, a clone has the same entries and
  filter, an update that succeeds passed the filter and changes that key only, one that does not
  succeeds changes nothing, and it is refused by the filter exactly when the filter says so.
\<close>

definition map_laws ::
  "('mp, 'e, 'm) map_api_scheme \<Rightarrow> ('mp \<Rightarrow> string \<Rightarrow> string option)
     \<Rightarrow> ('mp \<Rightarrow> string \<Rightarrow> string \<Rightarrow> bool) \<Rightarrow> bool" where
  "map_laws api entries filter_of \<longleftrightarrow>
     (\<forall>f e mp e'. Map_Create api f e = (Some mp, e') \<longrightarrow> entries mp = Map.empty \<and> filter_of mp = f)
   \<and> (\<forall>mp e mp' e'. Map_Clone api mp e = (Some mp', e')
        \<longrightarrow> entries mp' = entries mp \<and> filter_of mp' = filter_of mp)
   \<and> (\<forall>mp k v e r mp' e'. Map_AddOrUpdate api mp k v e = (r, mp', e')
        \<longrightarrow> filter_of mp' = filter_of mp
          \<and> entries mp' = (if r = MAP_OK then (entries mp)(k \<mapsto> v) else entries mp)
          \<and> (r = MAP_FILTER_REJECT \<longleftrightarrow> \<not> filter_of mp k v))
   \<and> (\<forall>mp k. Map_ContainsKey api mp k = (MAP_OK, entries mp k \<noteq> None))
   \<and> (\<forall>mp k. Map_GetValueFromKey api mp k = entries mp k)"

record DIAGNOSTIC_PROPERTY_DATA =
  diagnosticId :: "string option"
  diagnosticCreationTimeUtc :: "string option"

text \<open>The union value is the bytes of the buffer or the characters of the string.\<close>

record 'mp IOTHUB_MESSAGE =
  contentType :: IOTHUBMESSAGE_CONTENT_TYPE
  msg_value :: "char list"
  msg_properties :: 'mp
  messageId :: "string option"
  correlationId :: "string option"
  userDefinedContentType :: "string option"
  contentEncoding :: "string option"
  outputName :: "string option"
  inputName :: "string option"
  connectionModuleId :: "string option"
  connectionDeviceId :: "string option"
  diagnosticData :: "DIAGNOSTIC_PROPERTY_DATA option"
  is_security_message :: bool
  creationTimeUtc :: "string option"
  userId :: "string option"

section \<open>Helpers of the code\<close>

fun ContainsValidUsAscii :: "string \<Rightarrow> bool" where
  "ContainsValidUsAscii [] = True"
| "ContainsValidUsAscii (c # cs) =
     (if (of_char c :: nat) < 32 \<or> (of_char c :: nat) > 126 then False else ContainsValidUsAscii cs)"

definition ValidateAsciiCharactersFilter :: "string \<Rightarrow> string \<Rightarrow> bool" where
  "ValidateAsciiCharactersFilter mapKey mapValue =
     (if \<not> ContainsValidUsAscii mapKey \<or> \<not> ContainsValidUsAscii mapValue then False else True)"

definition set_content_encoding ::
  "('e, 'm) os_scheme \<Rightarrow> 'mp IOTHUB_MESSAGE \<Rightarrow> string \<Rightarrow> 'e \<Rightarrow> bool \<times> 'mp IOTHUB_MESSAGE \<times> 'e" where
  "set_content_encoding os msg encoding e =
     (case os_malloc os e of (ok, e) \<Rightarrow>
        if \<not> ok then (False, msg, e) else (True, msg\<lparr>contentEncoding := Some encoding\<rparr>, e))"

definition set_message_creation_time ::
  "('e, 'm) os_scheme \<Rightarrow> 'mp IOTHUB_MESSAGE \<Rightarrow> string \<Rightarrow> 'e \<Rightarrow> bool \<times> 'mp IOTHUB_MESSAGE \<times> 'e" where
  "set_message_creation_time os msg t e =
     (let msg = msg\<lparr>creationTimeUtc := None\<rparr> in
      case os_malloc os e of (ok, e) \<Rightarrow>
        if \<not> ok then (False, msg, e) else (True, msg\<lparr>creationTimeUtc := Some t\<rparr>, e))"

definition set_message_user_id ::
  "('e, 'm) os_scheme \<Rightarrow> 'mp IOTHUB_MESSAGE \<Rightarrow> string \<Rightarrow> 'e \<Rightarrow> bool \<times> 'mp IOTHUB_MESSAGE \<times> 'e" where
  "set_message_user_id os msg u e =
     (let msg = msg\<lparr>userId := None\<rparr> in
      case os_malloc os e of (ok, e) \<Rightarrow>
        if \<not> ok then (False, msg, e) else (True, msg\<lparr>userId := Some u\<rparr>, e))"

definition CloneDiagnosticPropertyData ::
  "('e, 'm) os_scheme \<Rightarrow> DIAGNOSTIC_PROPERTY_DATA option \<Rightarrow> 'e \<Rightarrow> DIAGNOSTIC_PROPERTY_DATA option \<times> 'e" where
  "CloneDiagnosticPropertyData os source e =
     (case source of
        None \<Rightarrow> (None, e)
      | Some d \<Rightarrow>
          or_null (malloc_of os () e) (\<lambda>_ e.
          or_null (copy_field os (diagnosticCreationTimeUtc d) e) (\<lambda>t e.
          or_null (copy_field os (diagnosticId d) e) (\<lambda>i e.
            (Some \<lparr>diagnosticId = i, diagnosticCreationTimeUtc = t\<rparr>, e)))))"

section \<open>Creating and cloning\<close>

definition blank_message :: "IOTHUBMESSAGE_CONTENT_TYPE \<Rightarrow> char list \<Rightarrow> 'mp \<Rightarrow> 'mp IOTHUB_MESSAGE" where
  "blank_message t v mp = \<lparr>contentType = t, msg_value = v, msg_properties = mp, messageId = None,
     correlationId = None, userDefinedContentType = None, contentEncoding = None, outputName = None,
     inputName = None, connectionModuleId = None, connectionDeviceId = None, diagnosticData = None,
     is_security_message = False, creationTimeUtc = None, userId = None\<rparr>"

text \<open>byteArray is given with the bytes it points to; len of them are copied.\<close>

definition IoTHubMessage_CreateFromByteArray ::
  "('e, 'm) os_scheme \<Rightarrow> ('mp, 'e, 'n) map_api_scheme \<Rightarrow> char list option \<Rightarrow> nat \<Rightarrow> 'e
     \<Rightarrow> 'mp IOTHUB_MESSAGE option \<times> 'e" where
  "IoTHubMessage_CreateFromByteArray os api byteArray len e =
     (if byteArray = None \<and> len \<noteq> 0 then (None, e)
      else or_null (malloc_of os () e) (\<lambda>_ e.
        let source = (if len \<noteq> 0 then the byteArray else [NUL]) in
        or_null (malloc_of os (take len source) e) (\<lambda>v e.
        or_null (Map_Create api ValidateAsciiCharactersFilter e) (\<lambda>mp e.
          (Some (blank_message IOTHUBMESSAGE_BYTEARRAY v mp), e)))))"

definition IoTHubMessage_CreateFromString ::
  "('e, 'm) os_scheme \<Rightarrow> ('mp, 'e, 'n) map_api_scheme \<Rightarrow> string option \<Rightarrow> 'e
     \<Rightarrow> 'mp IOTHUB_MESSAGE option \<times> 'e" where
  "IoTHubMessage_CreateFromString os api source e =
     (case source of
        None \<Rightarrow> (None, e)
      | Some s \<Rightarrow>
          or_null (malloc_of os () e) (\<lambda>_ e.
          or_null (malloc_of os s e) (\<lambda>v e.
          or_null (Map_Create api ValidateAsciiCharactersFilter e) (\<lambda>mp e.
            (Some (blank_message IOTHUBMESSAGE_STRING v mp), e)))))"

definition IoTHubMessage_Clone ::
  "('e, 'm) os_scheme \<Rightarrow> ('mp, 'e, 'n) map_api_scheme \<Rightarrow> 'mp IOTHUB_MESSAGE option \<Rightarrow> 'e
     \<Rightarrow> 'mp IOTHUB_MESSAGE option \<times> 'e" where
  "IoTHubMessage_Clone os api handle e =
     (case handle of
        None \<Rightarrow> (None, e)
      | Some src \<Rightarrow>
          or_null (malloc_of os () e) (\<lambda>_ e.
          or_null (copy_field os (messageId src) e) (\<lambda>v_messageId e.
          or_null (copy_field os (correlationId src) e) (\<lambda>v_correlationId e.
          or_null (copy_field os (userDefinedContentType src) e) (\<lambda>v_userDefinedContentType e.
          or_null (copy_field os (contentEncoding src) e) (\<lambda>v_contentEncoding e.
          or_null (case diagnosticData src of None \<Rightarrow> (Some None, e)
                   | Some d \<Rightarrow> or_null (CloneDiagnosticPropertyData os (Some d) e) (\<lambda>d' e. (Some (Some d'), e)))
            (\<lambda>v_diagnosticData e.
          or_null (copy_field os (outputName src) e) (\<lambda>v_outputName e.
          or_null (copy_field os (inputName src) e) (\<lambda>v_inputName e.
          or_null (copy_field os (creationTimeUtc src) e) (\<lambda>v_creationTimeUtc e.
          or_null (copy_field os (userId src) e) (\<lambda>v_userId e.
          or_null (copy_field os (connectionModuleId src) e) (\<lambda>v_connectionModuleId e.
          or_null (copy_field os (connectionDeviceId src) e) (\<lambda>v_connectionDeviceId e.
          or_null (malloc_of os (msg_value src) e) (\<lambda>v e.
          or_null (Map_Clone api (msg_properties src) e) (\<lambda>mp e.
            (Some \<lparr>contentType = contentType src, msg_value = v, msg_properties = mp,
               messageId = v_messageId, correlationId = v_correlationId,
               userDefinedContentType = v_userDefinedContentType, contentEncoding = v_contentEncoding,
               outputName = v_outputName, inputName = v_inputName,
               connectionModuleId = v_connectionModuleId, connectionDeviceId = v_connectionDeviceId,
               diagnosticData = v_diagnosticData, is_security_message = is_security_message src,
               creationTimeUtc = v_creationTimeUtc, userId = v_userId\<rparr>, e))))))))))))))))"
section \<open>Content and properties\<close>

text \<open>The answer, and what is written through buffer and size when both are given.\<close>

definition IoTHubMessage_GetByteArray ::
  "'mp IOTHUB_MESSAGE option \<Rightarrow> bool \<Rightarrow> bool \<Rightarrow> IOTHUB_MESSAGE_RESULT \<times> (char list \<times> nat) option" where
  "IoTHubMessage_GetByteArray handle buffer_given size_given =
     (case handle of
        None \<Rightarrow> (IOTHUB_MESSAGE_INVALID_ARG, None)
      | Some msg \<Rightarrow>
          if \<not> buffer_given \<or> \<not> size_given then (IOTHUB_MESSAGE_INVALID_ARG, None)
          else if contentType msg \<noteq> IOTHUBMESSAGE_BYTEARRAY then (IOTHUB_MESSAGE_INVALID_ARG, None)
          else (IOTHUB_MESSAGE_OK, Some (msg_value msg, length (msg_value msg))))"

definition IoTHubMessage_GetString :: "'mp IOTHUB_MESSAGE option \<Rightarrow> string option" where
  "IoTHubMessage_GetString handle =
     (case handle of
        None \<Rightarrow> None
      | Some msg \<Rightarrow> if contentType msg \<noteq> IOTHUBMESSAGE_STRING then None else Some (msg_value msg))"

definition IoTHubMessage_GetContentType :: "'mp IOTHUB_MESSAGE option \<Rightarrow> IOTHUBMESSAGE_CONTENT_TYPE" where
  "IoTHubMessage_GetContentType handle =
     (case handle of None \<Rightarrow> IOTHUBMESSAGE_UNKNOWN | Some msg \<Rightarrow> contentType msg)"

definition IoTHubMessage_Properties :: "'mp IOTHUB_MESSAGE option \<Rightarrow> 'mp option" where
  "IoTHubMessage_Properties handle = (case handle of None \<Rightarrow> None | Some msg \<Rightarrow> Some (msg_properties msg))"

definition IoTHubMessage_SetProperty ::
  "('mp, 'e, 'n) map_api_scheme \<Rightarrow> 'mp IOTHUB_MESSAGE option \<Rightarrow> string option \<Rightarrow> string option \<Rightarrow> 'e
     \<Rightarrow> IOTHUB_MESSAGE_RESULT \<times> 'mp IOTHUB_MESSAGE option \<times> 'e" where
  "IoTHubMessage_SetProperty api handle key val e =
     (case (handle, key, val) of
        (Some msg, Some k, Some v) \<Rightarrow>
          (case Map_AddOrUpdate api (msg_properties msg) k v e of (map_result, mp, e) \<Rightarrow>
             (if map_result = MAP_FILTER_REJECT then IOTHUB_MESSAGE_INVALID_TYPE
              else if map_result \<noteq> MAP_OK then IOTHUB_MESSAGE_ERROR
              else IOTHUB_MESSAGE_OK,
              Some (msg\<lparr>msg_properties := mp\<rparr>), e))
      | _ \<Rightarrow> (IOTHUB_MESSAGE_INVALID_ARG, handle, e))"

definition IoTHubMessage_GetProperty ::
  "('mp, 'e, 'n) map_api_scheme \<Rightarrow> 'mp IOTHUB_MESSAGE option \<Rightarrow> string option \<Rightarrow> string option" where
  "IoTHubMessage_GetProperty api handle key =
     (case (handle, key) of
        (Some msg, Some k) \<Rightarrow>
          (case Map_ContainsKey api (msg_properties msg) k of (r, key_exists) \<Rightarrow>
             if r = MAP_OK \<and> key_exists then Map_GetValueFromKey api (msg_properties msg) k else None)
      | _ \<Rightarrow> None)"

section \<open>System properties\<close>

definition IoTHubMessage_GetCorrelationId :: "'mp IOTHUB_MESSAGE option \<Rightarrow> string option" where
  "IoTHubMessage_GetCorrelationId handle = (case handle of None \<Rightarrow> None | Some msg \<Rightarrow> correlationId msg)"

definition IoTHubMessage_GetMessageId :: "'mp IOTHUB_MESSAGE option \<Rightarrow> string option" where
  "IoTHubMessage_GetMessageId handle = (case handle of None \<Rightarrow> None | Some msg \<Rightarrow> messageId msg)"

definition IoTHubMessage_GetContentTypeSystemProperty :: "'mp IOTHUB_MESSAGE option \<Rightarrow> string option" where
  "IoTHubMessage_GetContentTypeSystemProperty handle = (case handle of None \<Rightarrow> None | Some msg \<Rightarrow> userDefinedContentType msg)"

definition IoTHubMessage_GetOutputName :: "'mp IOTHUB_MESSAGE option \<Rightarrow> string option" where
  "IoTHubMessage_GetOutputName handle = (case handle of None \<Rightarrow> None | Some msg \<Rightarrow> outputName msg)"

definition IoTHubMessage_GetInputName :: "'mp IOTHUB_MESSAGE option \<Rightarrow> string option" where
  "IoTHubMessage_GetInputName handle = (case handle of None \<Rightarrow> None | Some msg \<Rightarrow> inputName msg)"

definition IoTHubMessage_GetConnectionModuleId :: "'mp IOTHUB_MESSAGE option \<Rightarrow> string option" where
  "IoTHubMessage_GetConnectionModuleId handle = (case handle of None \<Rightarrow> None | Some msg \<Rightarrow> connectionModuleId msg)"

definition IoTHubMessage_GetConnectionDeviceId :: "'mp IOTHUB_MESSAGE option \<Rightarrow> string option" where
  "IoTHubMessage_GetConnectionDeviceId handle = (case handle of None \<Rightarrow> None | Some msg \<Rightarrow> connectionDeviceId msg)"

definition IoTHubMessage_GetContentEncodingSystemProperty :: "'mp IOTHUB_MESSAGE option \<Rightarrow> string option" where
  "IoTHubMessage_GetContentEncodingSystemProperty handle = (case handle of None \<Rightarrow> None | Some msg \<Rightarrow> contentEncoding msg)"

definition IoTHubMessage_GetMessageCreationTimeUtcSystemProperty :: "'mp IOTHUB_MESSAGE option \<Rightarrow> string option" where
  "IoTHubMessage_GetMessageCreationTimeUtcSystemProperty handle = (case handle of None \<Rightarrow> None | Some msg \<Rightarrow> creationTimeUtc msg)"

definition IoTHubMessage_GetMessageUserIdSystemProperty :: "'mp IOTHUB_MESSAGE option \<Rightarrow> string option" where
  "IoTHubMessage_GetMessageUserIdSystemProperty handle = (case handle of None \<Rightarrow> None | Some msg \<Rightarrow> userId msg)"

definition IoTHubMessage_SetCorrelationId ::
  "('e, 'm) os_scheme \<Rightarrow> 'mp IOTHUB_MESSAGE option \<Rightarrow> string option \<Rightarrow> 'e
     \<Rightarrow> IOTHUB_MESSAGE_RESULT \<times> 'mp IOTHUB_MESSAGE option \<times> 'e" where
  "IoTHubMessage_SetCorrelationId os handle v e =
     (case (handle, v) of
        (Some msg, Some s) \<Rightarrow>
          let msg = msg\<lparr>correlationId := None\<rparr> in
          (case os_malloc os e of (ok, e) \<Rightarrow>
             if \<not> ok then (IOTHUB_MESSAGE_ERROR, Some msg, e)
             else (IOTHUB_MESSAGE_OK, Some (msg\<lparr>correlationId := Some s\<rparr>), e))
      | _ \<Rightarrow> (IOTHUB_MESSAGE_INVALID_ARG, handle, e))"

definition IoTHubMessage_SetMessageId ::
  "('e, 'm) os_scheme \<Rightarrow> 'mp IOTHUB_MESSAGE option \<Rightarrow> string option \<Rightarrow> 'e
     \<Rightarrow> IOTHUB_MESSAGE_RESULT \<times> 'mp IOTHUB_MESSAGE option \<times> 'e" where
  "IoTHubMessage_SetMessageId os handle v e =
     (case (handle, v) of
        (Some msg, Some s) \<Rightarrow>
          let msg = msg\<lparr>messageId := None\<rparr> in
          (case os_malloc os e of (ok, e) \<Rightarrow>
             if \<not> ok then (IOTHUB_MESSAGE_ERROR, Some msg, e)
             else (IOTHUB_MESSAGE_OK, Some (msg\<lparr>messageId := Some s\<rparr>), e))
      | _ \<Rightarrow> (IOTHUB_MESSAGE_INVALID_ARG, handle, e))"

definition IoTHubMessage_SetContentTypeSystemProperty ::
  "('e, 'm) os_scheme \<Rightarrow> 'mp IOTHUB_MESSAGE option \<Rightarrow> string option \<Rightarrow> 'e
     \<Rightarrow> IOTHUB_MESSAGE_RESULT \<times> 'mp IOTHUB_MESSAGE option \<times> 'e" where
  "IoTHubMessage_SetContentTypeSystemProperty os handle v e =
     (case (handle, v) of
        (Some msg, Some s) \<Rightarrow>
          let msg = msg\<lparr>userDefinedContentType := None\<rparr> in
          (case os_malloc os e of (ok, e) \<Rightarrow>
             if \<not> ok then (IOTHUB_MESSAGE_ERROR, Some msg, e)
             else (IOTHUB_MESSAGE_OK, Some (msg\<lparr>userDefinedContentType := Some s\<rparr>), e))
      | _ \<Rightarrow> (IOTHUB_MESSAGE_INVALID_ARG, handle, e))"

definition IoTHubMessage_SetOutputName ::
  "('e, 'm) os_scheme \<Rightarrow> 'mp IOTHUB_MESSAGE option \<Rightarrow> string option \<Rightarrow> 'e
     \<Rightarrow> IOTHUB_MESSAGE_RESULT \<times> 'mp IOTHUB_MESSAGE option \<times> 'e" where
  "IoTHubMessage_SetOutputName os handle v e =
     (case (handle, v) of
        (Some msg, Some s) \<Rightarrow>
          let msg = msg\<lparr>outputName := None\<rparr> in
          (case os_malloc os e of (ok, e) \<Rightarrow>
             if \<not> ok then (IOTHUB_MESSAGE_ERROR, Some msg, e)
             else (IOTHUB_MESSAGE_OK, Some (msg\<lparr>outputName := Some s\<rparr>), e))
      | _ \<Rightarrow> (IOTHUB_MESSAGE_INVALID_ARG, handle, e))"

definition IoTHubMessage_SetInputName ::
  "('e, 'm) os_scheme \<Rightarrow> 'mp IOTHUB_MESSAGE option \<Rightarrow> string option \<Rightarrow> 'e
     \<Rightarrow> IOTHUB_MESSAGE_RESULT \<times> 'mp IOTHUB_MESSAGE option \<times> 'e" where
  "IoTHubMessage_SetInputName os handle v e =
     (case (handle, v) of
        (Some msg, Some s) \<Rightarrow>
          let msg = msg\<lparr>inputName := None\<rparr> in
          (case os_malloc os e of (ok, e) \<Rightarrow>
             if \<not> ok then (IOTHUB_MESSAGE_ERROR, Some msg, e)
             else (IOTHUB_MESSAGE_OK, Some (msg\<lparr>inputName := Some s\<rparr>), e))
      | _ \<Rightarrow> (IOTHUB_MESSAGE_INVALID_ARG, handle, e))"

definition IoTHubMessage_SetConnectionModuleId ::
  "('e, 'm) os_scheme \<Rightarrow> 'mp IOTHUB_MESSAGE option \<Rightarrow> string option \<Rightarrow> 'e
     \<Rightarrow> IOTHUB_MESSAGE_RESULT \<times> 'mp IOTHUB_MESSAGE option \<times> 'e" where
  "IoTHubMessage_SetConnectionModuleId os handle v e =
     (case (handle, v) of
        (Some msg, Some s) \<Rightarrow>
          let msg = msg\<lparr>connectionModuleId := None\<rparr> in
          (case os_malloc os e of (ok, e) \<Rightarrow>
             if \<not> ok then (IOTHUB_MESSAGE_ERROR, Some msg, e)
             else (IOTHUB_MESSAGE_OK, Some (msg\<lparr>connectionModuleId := Some s\<rparr>), e))
      | _ \<Rightarrow> (IOTHUB_MESSAGE_INVALID_ARG, handle, e))"

definition IoTHubMessage_SetConnectionDeviceId ::
  "('e, 'm) os_scheme \<Rightarrow> 'mp IOTHUB_MESSAGE option \<Rightarrow> string option \<Rightarrow> 'e
     \<Rightarrow> IOTHUB_MESSAGE_RESULT \<times> 'mp IOTHUB_MESSAGE option \<times> 'e" where
  "IoTHubMessage_SetConnectionDeviceId os handle v e =
     (case (handle, v) of
        (Some msg, Some s) \<Rightarrow>
          let msg = msg\<lparr>connectionDeviceId := None\<rparr> in
          (case os_malloc os e of (ok, e) \<Rightarrow>
             if \<not> ok then (IOTHUB_MESSAGE_ERROR, Some msg, e)
             else (IOTHUB_MESSAGE_OK, Some (msg\<lparr>connectionDeviceId := Some s\<rparr>), e))
      | _ \<Rightarrow> (IOTHUB_MESSAGE_INVALID_ARG, handle, e))"

definition IoTHubMessage_SetContentEncodingSystemProperty ::
  "('e, 'm) os_scheme \<Rightarrow> 'mp IOTHUB_MESSAGE option \<Rightarrow> string option \<Rightarrow> 'e
     \<Rightarrow> IOTHUB_MESSAGE_RESULT \<times> 'mp IOTHUB_MESSAGE option \<times> 'e" where
  "IoTHubMessage_SetContentEncodingSystemProperty os handle v e =
     (case (handle, v) of
        (Some msg, Some s) \<Rightarrow>
          (case set_content_encoding os msg s e of (ok, msg, e) \<Rightarrow>
             (if \<not> ok then IOTHUB_MESSAGE_ERROR else IOTHUB_MESSAGE_OK, Some msg, e))
      | _ \<Rightarrow> (IOTHUB_MESSAGE_INVALID_ARG, handle, e))"

definition IoTHubMessage_SetMessageCreationTimeUtcSystemProperty ::
  "('e, 'm) os_scheme \<Rightarrow> 'mp IOTHUB_MESSAGE option \<Rightarrow> string option \<Rightarrow> 'e
     \<Rightarrow> IOTHUB_MESSAGE_RESULT \<times> 'mp IOTHUB_MESSAGE option \<times> 'e" where
  "IoTHubMessage_SetMessageCreationTimeUtcSystemProperty os handle v e =
     (case (handle, v) of
        (Some msg, Some s) \<Rightarrow>
          (case set_message_creation_time os msg s e of (ok, msg, e) \<Rightarrow>
             (if \<not> ok then IOTHUB_MESSAGE_ERROR else IOTHUB_MESSAGE_OK, Some msg, e))
      | _ \<Rightarrow> (IOTHUB_MESSAGE_INVALID_ARG, handle, e))"

definition IoTHubMessage_SetMessageUserIdSystemProperty ::
  "('e, 'm) os_scheme \<Rightarrow> 'mp IOTHUB_MESSAGE option \<Rightarrow> string option \<Rightarrow> 'e
     \<Rightarrow> IOTHUB_MESSAGE_RESULT \<times> 'mp IOTHUB_MESSAGE option \<times> 'e" where
  "IoTHubMessage_SetMessageUserIdSystemProperty os handle v e =
     (case (handle, v) of
        (Some msg, Some s) \<Rightarrow>
          (case set_message_user_id os msg s e of (ok, msg, e) \<Rightarrow>
             (if \<not> ok then IOTHUB_MESSAGE_ERROR else IOTHUB_MESSAGE_OK, Some msg, e))
      | _ \<Rightarrow> (IOTHUB_MESSAGE_INVALID_ARG, handle, e))"

definition IoTHubMessage_GetDiagnosticPropertyData ::
  "'mp IOTHUB_MESSAGE option \<Rightarrow> DIAGNOSTIC_PROPERTY_DATA option" where
  "IoTHubMessage_GetDiagnosticPropertyData handle =
     (case handle of None \<Rightarrow> None | Some msg \<Rightarrow> diagnosticData msg)"

definition IoTHubMessage_SetDiagnosticPropertyData ::
  "('e, 'm) os_scheme \<Rightarrow> 'mp IOTHUB_MESSAGE option \<Rightarrow> DIAGNOSTIC_PROPERTY_DATA option \<Rightarrow> 'e
     \<Rightarrow> IOTHUB_MESSAGE_RESULT \<times> 'mp IOTHUB_MESSAGE option \<times> 'e" where
  "IoTHubMessage_SetDiagnosticPropertyData os handle diag e =
     (case (handle, diag) of
        (Some msg, Some d) \<Rightarrow>
          if diagnosticCreationTimeUtc d = None \<or> diagnosticId d = None
          then (IOTHUB_MESSAGE_INVALID_ARG, handle, e)
          else (case CloneDiagnosticPropertyData os (Some d) e of (copy, e) \<Rightarrow>
            (if copy = None then IOTHUB_MESSAGE_ERROR else IOTHUB_MESSAGE_OK,
             Some (msg\<lparr>diagnosticData := copy\<rparr>), e))
      | _ \<Rightarrow> (IOTHUB_MESSAGE_INVALID_ARG, handle, e))"

definition SECURITY_CLIENT_JSON_ENCODING :: string where
  "SECURITY_CLIENT_JSON_ENCODING = ''application/json''"

definition IoTHubMessage_SetAsSecurityMessage ::
  "('e, 'm) os_scheme \<Rightarrow> 'mp IOTHUB_MESSAGE option \<Rightarrow> 'e
     \<Rightarrow> IOTHUB_MESSAGE_RESULT \<times> 'mp IOTHUB_MESSAGE option \<times> 'e" where
  "IoTHubMessage_SetAsSecurityMessage os handle e =
     (case handle of
        None \<Rightarrow> (IOTHUB_MESSAGE_INVALID_ARG, handle, e)
      | Some msg \<Rightarrow>
          (case set_content_encoding os msg SECURITY_CLIENT_JSON_ENCODING e of (ok, msg, e) \<Rightarrow>
             if \<not> ok then (IOTHUB_MESSAGE_ERROR, Some msg, e)
             else (IOTHUB_MESSAGE_OK, Some (msg\<lparr>is_security_message := True\<rparr>), e)))"

definition IoTHubMessage_IsSecurityMessage :: "'mp IOTHUB_MESSAGE option \<Rightarrow> bool" where
  "IoTHubMessage_IsSecurityMessage handle =
     (case handle of None \<Rightarrow> False | Some msg \<Rightarrow> is_security_message msg)"

section \<open>Destroying\<close>

text \<open>What is given back to the allocator, in order; free of NULL gives back nothing.\<close>

datatype 'mp freed =
  BufferFreed "char list" | StringFreed string | MapFreed 'mp | CharsFreed string | DiagnosticFreed | MessageFreed

definition free_chars :: "string option \<Rightarrow> 'mp freed list" where
  "free_chars p = (case p of None \<Rightarrow> [] | Some s \<Rightarrow> [CharsFreed s])"

definition DestroyDiagnosticPropertyData :: "DIAGNOSTIC_PROPERTY_DATA option \<Rightarrow> 'mp freed list" where
  "DestroyDiagnosticPropertyData d =
     (case d of
        None \<Rightarrow> []
      | Some d \<Rightarrow> free_chars (diagnosticId d) @ free_chars (diagnosticCreationTimeUtc d) @ [DiagnosticFreed])"

definition DestroyMessageData :: "'mp IOTHUB_MESSAGE \<Rightarrow> 'mp freed list" where
  "DestroyMessageData msg =
     (if contentType msg = IOTHUBMESSAGE_BYTEARRAY then [BufferFreed (msg_value msg)]
      else if contentType msg = IOTHUBMESSAGE_STRING then [StringFreed (msg_value msg)] else [])
     @ [MapFreed (msg_properties msg)]
     @ free_chars (messageId msg) @ free_chars (correlationId msg)
     @ free_chars (userDefinedContentType msg) @ free_chars (contentEncoding msg)
     @ DestroyDiagnosticPropertyData (diagnosticData msg)
     @ free_chars (outputName msg) @ free_chars (inputName msg)
     @ free_chars (connectionModuleId msg) @ free_chars (connectionDeviceId msg)
     @ free_chars (creationTimeUtc msg) @ free_chars (userId msg) @ [MessageFreed]"

definition IoTHubMessage_Destroy :: "'mp IOTHUB_MESSAGE option \<Rightarrow> 'mp freed list" where
  "IoTHubMessage_Destroy handle = (case handle of None \<Rightarrow> [] | Some msg \<Rightarrow> DestroyMessageData msg)"

section \<open>One contract for all system properties\<close>

text \<open>
  The ten string properties follow one contract: set and get agree, nothing else of the message
  changes, and what a failed set leaves is the old value or NULL. Each pair of functions
  interprets the locale; \<open>kept\<close> says which of the two a failed set leaves.
\<close>

locale string_property =
  fixes getp :: "'s option \<Rightarrow> string option"
    and setp :: "('e, 'm) os_scheme \<Rightarrow> 's option \<Rightarrow> string option \<Rightarrow> 'e \<Rightarrow> IOTHUB_MESSAGE_RESULT \<times> 's option \<times> 'e"
    and upd :: "string option \<Rightarrow> 's \<Rightarrow> 's"
    and kept :: bool
  assumes get_null: "getp None = None"
    and get_upd: "getp (Some (upd w s)) = w"
    and upd_get: "upd (getp (Some s)) s = s"
    and upd_upd: "upd w (upd w' s) = upd w s"
    and set_ok: "os_malloc os e = (True, e') \<Longrightarrow>
        setp os (Some s) (Some v) e = (IOTHUB_MESSAGE_OK, Some (upd (Some v) s), e')"
    and set_oom: "os_malloc os e = (False, e') \<Longrightarrow>
        setp os (Some s) (Some v) e = (IOTHUB_MESSAGE_ERROR, Some (if kept then s else upd None s), e')"
    and set_null: "s' = None \<or> v' = None \<Longrightarrow> setp os s' v' e = (IOTHUB_MESSAGE_INVALID_ARG, s', e)"
begin

lemma set_cases:
  "fst (setp os h v e) = IOTHUB_MESSAGE_INVALID_ARG \<and> (h = None \<or> v = None) \<and> fst (snd (setp os h v e)) = h
   \<or> (\<exists>s x. h = Some s \<and> v = Some x \<and>
        (fst (setp os h v e) = IOTHUB_MESSAGE_OK \<and> fst (snd (setp os h v e)) = Some (upd (Some x) s)
       \<or> fst (setp os h v e) = IOTHUB_MESSAGE_ERROR \<and> \<not> fst (os_malloc os e)
           \<and> fst (snd (setp os h v e)) = Some (if kept then s else upd None s)))"
proof (cases "h = None \<or> v = None")
  case True
  then show ?thesis using set_null [OF True, of os e] by simp
next
  case False
  then obtain s x where hv: "h = Some s" "v = Some x" by auto
  obtain b e' where m: "os_malloc os e = (b, e')" by (cases "os_malloc os e")
  show ?thesis
    using set_ok [of os e e' s x] set_oom [of os e e' s x] m hv by (cases b) auto
qed

text \<open>What is read back after a set.\<close>

lemma get_after_set:
  assumes "setp os (Some s) (Some v) e = (r, s', e')"
  shows "getp s' = (if r = IOTHUB_MESSAGE_OK then Some v else if kept then getp (Some s) else None)
    \<and> (r = IOTHUB_MESSAGE_OK \<longleftrightarrow> fst (os_malloc os e))
    \<and> (\<exists>w s1. s' = Some s1 \<and> s1 = upd w s)"
proof -
  obtain b e1 where m: "os_malloc os e = (b, e1)" by (cases "os_malloc os e")
  show ?thesis
  proof (cases b)
    case True
    then show ?thesis using set_ok [of os e e1 s v] m assms by (auto simp: get_upd)
  next
    case False
    then show ?thesis using set_oom [of os e e1 s v] m assms upd_get [of s] by (auto simp: get_upd) metis+
  qed
qed

text \<open>Another property that does not look at this field reads the same.\<close>

lemma frame:
  assumes "\<And>w s. other (Some (upd w s)) = other (Some s)"
  shows "other (fst (snd (setp os h v e))) = other h"
  using set_cases [of os h v e] assms by (cases h) auto

end

interpretation correlationId_property: string_property IoTHubMessage_GetCorrelationId
  IoTHubMessage_SetCorrelationId "\<lambda>v s. s\<lparr>correlationId := v\<rparr>" False
  by unfold_locales (auto simp: IoTHubMessage_GetCorrelationId_def
    IoTHubMessage_SetCorrelationId_def Let_def split: option.splits)

interpretation messageId_property: string_property IoTHubMessage_GetMessageId
  IoTHubMessage_SetMessageId "\<lambda>v s. s\<lparr>messageId := v\<rparr>" False
  by unfold_locales (auto simp: IoTHubMessage_GetMessageId_def
    IoTHubMessage_SetMessageId_def Let_def split: option.splits)

interpretation userDefinedContentType_property: string_property IoTHubMessage_GetContentTypeSystemProperty
  IoTHubMessage_SetContentTypeSystemProperty "\<lambda>v s. s\<lparr>userDefinedContentType := v\<rparr>" False
  by unfold_locales (auto simp: IoTHubMessage_GetContentTypeSystemProperty_def
    IoTHubMessage_SetContentTypeSystemProperty_def Let_def split: option.splits)

interpretation outputName_property: string_property IoTHubMessage_GetOutputName
  IoTHubMessage_SetOutputName "\<lambda>v s. s\<lparr>outputName := v\<rparr>" False
  by unfold_locales (auto simp: IoTHubMessage_GetOutputName_def
    IoTHubMessage_SetOutputName_def Let_def split: option.splits)

interpretation inputName_property: string_property IoTHubMessage_GetInputName
  IoTHubMessage_SetInputName "\<lambda>v s. s\<lparr>inputName := v\<rparr>" False
  by unfold_locales (auto simp: IoTHubMessage_GetInputName_def
    IoTHubMessage_SetInputName_def Let_def split: option.splits)

interpretation connectionModuleId_property: string_property IoTHubMessage_GetConnectionModuleId
  IoTHubMessage_SetConnectionModuleId "\<lambda>v s. s\<lparr>connectionModuleId := v\<rparr>" False
  by unfold_locales (auto simp: IoTHubMessage_GetConnectionModuleId_def
    IoTHubMessage_SetConnectionModuleId_def Let_def split: option.splits)

interpretation connectionDeviceId_property: string_property IoTHubMessage_GetConnectionDeviceId
  IoTHubMessage_SetConnectionDeviceId "\<lambda>v s. s\<lparr>connectionDeviceId := v\<rparr>" False
  by unfold_locales (auto simp: IoTHubMessage_GetConnectionDeviceId_def
    IoTHubMessage_SetConnectionDeviceId_def Let_def split: option.splits)

interpretation contentEncoding_property: string_property IoTHubMessage_GetContentEncodingSystemProperty
  IoTHubMessage_SetContentEncodingSystemProperty "\<lambda>v s. s\<lparr>contentEncoding := v\<rparr>" True
  by unfold_locales (auto simp: IoTHubMessage_GetContentEncodingSystemProperty_def
    IoTHubMessage_SetContentEncodingSystemProperty_def set_content_encoding_def Let_def split: option.splits)

interpretation creationTimeUtc_property: string_property IoTHubMessage_GetMessageCreationTimeUtcSystemProperty
  IoTHubMessage_SetMessageCreationTimeUtcSystemProperty "\<lambda>v s. s\<lparr>creationTimeUtc := v\<rparr>" False
  by unfold_locales (auto simp: IoTHubMessage_GetMessageCreationTimeUtcSystemProperty_def
    IoTHubMessage_SetMessageCreationTimeUtcSystemProperty_def set_message_creation_time_def Let_def split: option.splits)

interpretation userId_property: string_property IoTHubMessage_GetMessageUserIdSystemProperty
  IoTHubMessage_SetMessageUserIdSystemProperty "\<lambda>v s. s\<lparr>userId := v\<rparr>" False
  by unfold_locales (auto simp: IoTHubMessage_GetMessageUserIdSystemProperty_def
    IoTHubMessage_SetMessageUserIdSystemProperty_def set_message_user_id_def Let_def split: option.splits)
section \<open>All system properties at once\<close>

datatype system_property =
  CorrelationId | MessageId | ContentType | OutputName | InputName | ConnectionModuleId
| ConnectionDeviceId | ContentEncoding | CreationTimeUtc | UserId

fun get_of :: "system_property \<Rightarrow> 'mp IOTHUB_MESSAGE option \<Rightarrow> string option" where
  "get_of CorrelationId = IoTHubMessage_GetCorrelationId"
| "get_of MessageId = IoTHubMessage_GetMessageId"
| "get_of ContentType = IoTHubMessage_GetContentTypeSystemProperty"
| "get_of OutputName = IoTHubMessage_GetOutputName"
| "get_of InputName = IoTHubMessage_GetInputName"
| "get_of ConnectionModuleId = IoTHubMessage_GetConnectionModuleId"
| "get_of ConnectionDeviceId = IoTHubMessage_GetConnectionDeviceId"
| "get_of ContentEncoding = IoTHubMessage_GetContentEncodingSystemProperty"
| "get_of CreationTimeUtc = IoTHubMessage_GetMessageCreationTimeUtcSystemProperty"
| "get_of UserId = IoTHubMessage_GetMessageUserIdSystemProperty"

fun set_of :: "system_property \<Rightarrow> ('e, 'm) os_scheme \<Rightarrow> 'mp IOTHUB_MESSAGE option \<Rightarrow> string option \<Rightarrow> 'e
     \<Rightarrow> IOTHUB_MESSAGE_RESULT \<times> 'mp IOTHUB_MESSAGE option \<times> 'e" where
  "set_of CorrelationId = IoTHubMessage_SetCorrelationId"
| "set_of MessageId = IoTHubMessage_SetMessageId"
| "set_of ContentType = IoTHubMessage_SetContentTypeSystemProperty"
| "set_of OutputName = IoTHubMessage_SetOutputName"
| "set_of InputName = IoTHubMessage_SetInputName"
| "set_of ConnectionModuleId = IoTHubMessage_SetConnectionModuleId"
| "set_of ConnectionDeviceId = IoTHubMessage_SetConnectionDeviceId"
| "set_of ContentEncoding = IoTHubMessage_SetContentEncodingSystemProperty"
| "set_of CreationTimeUtc = IoTHubMessage_SetMessageCreationTimeUtcSystemProperty"
| "set_of UserId = IoTHubMessage_SetMessageUserIdSystemProperty"

lemmas get_defs =
  IoTHubMessage_GetCorrelationId_def IoTHubMessage_GetMessageId_def
  IoTHubMessage_GetContentTypeSystemProperty_def IoTHubMessage_GetOutputName_def
  IoTHubMessage_GetInputName_def IoTHubMessage_GetConnectionModuleId_def
  IoTHubMessage_GetConnectionDeviceId_def IoTHubMessage_GetContentEncodingSystemProperty_def
  IoTHubMessage_GetMessageCreationTimeUtcSystemProperty_def
  IoTHubMessage_GetMessageUserIdSystemProperty_def

text \<open>The part of a message that no system property shows.\<close>

definition payload :: "'mp IOTHUB_MESSAGE option
    \<Rightarrow> (IOTHUBMESSAGE_CONTENT_TYPE \<times> char list \<times> 'mp \<times> DIAGNOSTIC_PROPERTY_DATA option \<times> bool) option" where
  "payload h = map_option (\<lambda>msg. (contentType msg, msg_value msg, msg_properties msg,
     diagnosticData msg, is_security_message msg)) h"

fun update_of :: "system_property \<Rightarrow> string option \<Rightarrow> 'mp IOTHUB_MESSAGE \<Rightarrow> 'mp IOTHUB_MESSAGE" where
  "update_of CorrelationId = (\<lambda>v m. m\<lparr>correlationId := v\<rparr>)"
| "update_of MessageId = (\<lambda>v m. m\<lparr>messageId := v\<rparr>)"
| "update_of ContentType = (\<lambda>v m. m\<lparr>userDefinedContentType := v\<rparr>)"
| "update_of OutputName = (\<lambda>v m. m\<lparr>outputName := v\<rparr>)"
| "update_of InputName = (\<lambda>v m. m\<lparr>inputName := v\<rparr>)"
| "update_of ConnectionModuleId = (\<lambda>v m. m\<lparr>connectionModuleId := v\<rparr>)"
| "update_of ConnectionDeviceId = (\<lambda>v m. m\<lparr>connectionDeviceId := v\<rparr>)"
| "update_of ContentEncoding = (\<lambda>v m. m\<lparr>contentEncoding := v\<rparr>)"
| "update_of CreationTimeUtc = (\<lambda>v m. m\<lparr>creationTimeUtc := v\<rparr>)"
| "update_of UserId = (\<lambda>v m. m\<lparr>userId := v\<rparr>)"

lemma get_update_other: "q \<noteq> p \<Longrightarrow> get_of q (Some (update_of p w m)) = get_of q (Some m)"
  by (cases p; cases q; simp add: get_defs)

lemma payload_update: "payload (Some (update_of p w m)) = payload (Some m)"
  by (cases p; simp add: payload_def)

text \<open>The contract holds for every property, and for all of them as one family.\<close>

interpretation any_property: string_property "get_of p" "set_of p" "update_of p" "p = ContentEncoding"
  for p
  by (cases p)
    (simp_all add: correlationId_property.string_property_axioms messageId_property.string_property_axioms
      userDefinedContentType_property.string_property_axioms outputName_property.string_property_axioms
      inputName_property.string_property_axioms connectionModuleId_property.string_property_axioms
      connectionDeviceId_property.string_property_axioms contentEncoding_property.string_property_axioms
      creationTimeUtc_property.string_property_axioms userId_property.string_property_axioms)

section \<open>Copying\<close>

lemma clone_diagnostic_Some: "CloneDiagnosticPropertyData os d e = (Some d', e') \<Longrightarrow> d = Some d'"
  by (auto simp: CloneDiagnosticPropertyData_def or_null_Some split: option.splits dest!: copy_field_Some)

text \<open>With memory available no step answers NULL.\<close>

definition gives :: "'a option \<times> 'e \<Rightarrow> bool" where
  "gives m \<longleftrightarrow> fst m \<noteq> None"

lemma gives_or_null: "gives m \<Longrightarrow> (\<And>x e. gives (f x e)) \<Longrightarrow> gives (or_null m f)"
  by (cases m) (auto simp: gives_def or_null_def split: option.splits)

lemma gives_Some: "gives (Some x, e)"
  by (simp add: gives_def)

lemma gives_malloc: "memory_available os \<Longrightarrow> gives (malloc_of os x e)"
  by (auto simp: gives_def malloc_of_def split: prod.splits dest: memory_availableD)

lemma gives_copy: "memory_available os \<Longrightarrow> gives (copy_field os x e)"
  by (auto simp: copy_field_def gives_malloc gives_Some split: option.splits)

lemma gives_diagnostic: "memory_available os \<Longrightarrow> gives (CloneDiagnosticPropertyData os (Some d) e)"
  by (auto simp: CloneDiagnosticPropertyData_def intro!: gives_or_null gives_malloc gives_copy gives_Some)

lemma clone_gives:
  assumes "memory_available os" "\<And>mp e. gives (Map_Clone api mp e)"
  shows "gives (IoTHubMessage_Clone os api (Some m) e)"
  using assms
  by (auto simp: IoTHubMessage_Clone_def split: option.splits
      intro!: gives_or_null gives_malloc gives_copy gives_Some gives_diagnostic)

lemma copy_diagnostic_Some:
  "(case d of None \<Rightarrow> (Some None, e)
     | Some d \<Rightarrow> or_null (CloneDiagnosticPropertyData os (Some d) e) (\<lambda>d' e. (Some (Some d'), e))) = (Some v, e')
   \<Longrightarrow> v = d"
  by (auto simp: or_null_Some split: option.splits dest!: clone_diagnostic_Some)

lemma clone_Some:
  assumes "IoTHubMessage_Clone os api (Some m) e = (Some m', e')"
  shows "(\<exists>e1 e2. Map_Clone api (msg_properties m) e1 = (Some (msg_properties m'), e2))
    \<and> m' = m\<lparr>msg_properties := msg_properties m'\<rparr>"
  using assms
  by (cases m, auto simp: IoTHubMessage_Clone_def or_null_Some malloc_of_Some
      dest!: copy_field_Some copy_diagnostic_Some, blast)
section \<open>User properties\<close>

lemma valid_ascii_iff: "ContainsValidUsAscii s \<longleftrightarrow> (\<forall>c \<in> set s. 32 \<le> (of_char c :: nat) \<and> (of_char c :: nat) \<le> 126)"
  by (induction s) auto

text \<open>Setting properties one after the other, with the answers.\<close>

fun set_properties ::
  "('mp, 'e, 'n) map_api_scheme \<Rightarrow> (string \<times> string) list \<Rightarrow> 'mp IOTHUB_MESSAGE option \<Rightarrow> 'e
     \<Rightarrow> IOTHUB_MESSAGE_RESULT list \<times> 'mp IOTHUB_MESSAGE option" where
  "set_properties api [] h e = ([], h)"
| "set_properties api ((k, v) # kvs) h e =
     (case IoTHubMessage_SetProperty api h (Some k) (Some v) e of (r, h, e) \<Rightarrow>
      case set_properties api kvs h e of (rs, h) \<Rightarrow> (r # rs, h))"

text \<open>The properties that were accepted, the latest first.\<close>

fun accepted :: "(string \<times> string) list \<Rightarrow> IOTHUB_MESSAGE_RESULT list \<Rightarrow> (string \<times> string) list" where
  "accepted (kv # kvs) (r # rs) = accepted kvs rs @ (if r = IOTHUB_MESSAGE_OK then [kv] else [])"
| "accepted _ _ = []"

lemma map_laws_update:
  assumes "map_laws api entries flt" "Map_AddOrUpdate api mp k v e = (r, mp', e')"
  shows "flt mp' = flt mp" "entries mp' = (if r = MAP_OK then (entries mp)(k \<mapsto> v) else entries mp)"
    "r = MAP_FILTER_REJECT \<longleftrightarrow> \<not> flt mp k v"
  using assms unfolding map_laws_def by blast+

lemma get_property:
  assumes "map_laws api entries flt"
  shows "IoTHubMessage_GetProperty api (Some m) (Some k) = entries (msg_properties m) k"
  using assms by (auto simp: map_laws_def IoTHubMessage_GetProperty_def)

lemma set_property:
  assumes "map_laws api entries flt"
    "IoTHubMessage_SetProperty api (Some m) (Some k) (Some v) e = (r, h, e')"
  shows "\<exists>m'. h = Some m' \<and> flt (msg_properties m') = flt (msg_properties m)
    \<and> entries (msg_properties m') =
        (if r = IOTHUB_MESSAGE_OK then (entries (msg_properties m))(k \<mapsto> v) else entries (msg_properties m))
    \<and> (r = IOTHUB_MESSAGE_INVALID_TYPE \<longleftrightarrow> \<not> flt (msg_properties m) k v)"
proof -
  obtain mr mp e1 where u: "Map_AddOrUpdate api (msg_properties m) k v e = (mr, mp, e1)"
    by (cases "Map_AddOrUpdate api (msg_properties m) k v e") auto
  show ?thesis
    using assms(2) map_laws_update [OF assms(1) u]
    by (auto simp: IoTHubMessage_SetProperty_def u split: if_splits)
qed

lemma set_properties_spec:
  assumes laws: "map_laws api entries flt"
  shows "flt (msg_properties m) = ValidateAsciiCharactersFilter
    \<Longrightarrow> set_properties api kvs (Some m) e = (rs, h)
    \<Longrightarrow> \<exists>m'. h = Some m' \<and> flt (msg_properties m') = ValidateAsciiCharactersFilter
      \<and> entries (msg_properties m') = entries (msg_properties m) ++ map_of (accepted kvs rs)
      \<and> length rs = length kvs
      \<and> (\<forall>j < length kvs. rs ! j = IOTHUB_MESSAGE_INVALID_TYPE
           \<longleftrightarrow> \<not> ValidateAsciiCharactersFilter (fst (kvs ! j)) (snd (kvs ! j)))"
proof (induction kvs arbitrary: m e rs h)
  case Nil
  then show ?case by auto
next
  case (Cons kv kvs)
  obtain k v where kv: "kv = (k, v)" by (cases kv)
  obtain r h1 e1 where s: "IoTHubMessage_SetProperty api (Some m) (Some k) (Some v) e = (r, h1, e1)"
    by (cases "IoTHubMessage_SetProperty api (Some m) (Some k) (Some v) e") auto
  obtain m1 where m1: "h1 = Some m1" "flt (msg_properties m1) = flt (msg_properties m)"
    "entries (msg_properties m1) =
        (if r = IOTHUB_MESSAGE_OK then (entries (msg_properties m))(k \<mapsto> v) else entries (msg_properties m))"
    "r = IOTHUB_MESSAGE_INVALID_TYPE \<longleftrightarrow> \<not> flt (msg_properties m) k v"
    using set_property [OF laws s] by blast
  obtain rs1 h2 where r: "set_properties api kvs (Some m1) e1 = (rs1, h2)"
    by (cases "set_properties api kvs (Some m1) e1")
  have "flt (msg_properties m1) = ValidateAsciiCharactersFilter" using m1 Cons.prems by simp
  from Cons.IH [OF this r] Cons.prems(2) m1 Cons.prems(1) show ?case
    by (auto simp: kv s r nth_Cons' less_Suc_eq_0_disj split: if_splits)
qed

lemma map_laws_create:
  assumes "map_laws api entries flt" "Map_Create api f e = (Some mp, e')"
  shows "entries mp = Map.empty" "flt mp = f"
  using assms unfolding map_laws_def by blast+

lemma map_laws_clone:
  assumes "map_laws api entries flt" "Map_Clone api mp e = (Some mp', e')"
  shows "entries mp' = entries mp" "flt mp' = flt mp"
  using assms unfolding map_laws_def by blast+

lemma create_spec:
  assumes "map_laws api entries flt" "IoTHubMessage_CreateFromString os api src e = (Some m, e')"
  shows "entries (msg_properties m) = Map.empty" "flt (msg_properties m) = ValidateAsciiCharactersFilter"
    "src = Some (msg_value m)"
proof -
  obtain s mp e1 where "src = Some s" "Map_Create api ValidateAsciiCharactersFilter e1 = (Some mp, e')"
    "m = blank_message IOTHUBMESSAGE_STRING s mp"
    using assms(2)
    by (auto simp: IoTHubMessage_CreateFromString_def or_null_Some malloc_of_Some split: option.splits)
  then show "entries (msg_properties m) = Map.empty" "flt (msg_properties m) = ValidateAsciiCharactersFilter"
    "src = Some (msg_value m)"
    using map_laws_create [OF assms(1)] by (simp_all add: blank_message_def)
qed
section \<open>Properties\<close>

text \<open>
  Setting one of the ten string properties of a message succeeds exactly when memory is
  available; then the property reads as the new value. When it fails the property reads NULL, but
  for the content encoding, which keeps its old value. Either way every other property, the
  content, the user properties, the diagnostic data and the security mark stay as they were.
\<close>

theorem system_property_set:
  "case set_of p os (Some msg) (Some v) e of (r, h, e') \<Rightarrow>
     r = (if fst (os_malloc os e) then IOTHUB_MESSAGE_OK else IOTHUB_MESSAGE_ERROR)
     \<and> (\<forall>q. get_of q h =
          (if q \<noteq> p then get_of q (Some msg)
           else if fst (os_malloc os e) then Some v
           else if p = ContentEncoding then get_of p (Some msg) else None))
     \<and> payload h = payload (Some msg)"
proof -
  obtain r h e' where s: "set_of p os (Some msg) (Some v) e = (r, h, e')"
    by (cases "set_of p os (Some msg) (Some v) e") auto
  have frame: "q \<noteq> p \<Longrightarrow> get_of q h = get_of q (Some msg)" for q
    using any_property.frame [where p = p and other = "get_of q" and os = os and h = "Some msg" and v = "Some v" and e = e] s by (simp add: get_update_other)
  have pay: "payload h = payload (Some msg)"
    using any_property.frame [where p = p and other = payload and os = os and h = "Some msg" and v = "Some v" and e = e] s by (simp add: payload_update)
  have r: "r = (if fst (os_malloc os e) then IOTHUB_MESSAGE_OK else IOTHUB_MESSAGE_ERROR)"
    using any_property.get_after_set [OF s] s
      any_property.set_cases [where p = p and os = os and h = "Some msg" and v = "Some v" and e = e]
    by auto
  have "get_of p h = (if r = IOTHUB_MESSAGE_OK then Some v
      else if p = ContentEncoding then get_of p (Some msg) else None)"
    using any_property.get_after_set [OF s] by blast
  with r have "get_of p h = (if fst (os_malloc os e) then Some v
      else if p = ContentEncoding then get_of p (Some msg) else None)" by simp
  then have "\<forall>q. get_of q h = (if q \<noteq> p then get_of q (Some msg)
      else if fst (os_malloc os e) then Some v else if p = ContentEncoding then get_of p (Some msg) else None)"
    using frame by (metis (full_types))
  then show ?thesis unfolding s prod.case using r pay by (intro conjI) assumption+
qed

text \<open>
  A clone, when it is made, has the content, the type, all system properties, the diagnostic
  data and the security mark of the message, and a property map with the same entries that
  filters its updates in the same way; no clone is made only when a malloc or Map\_Clone failed.
\<close>

theorem clone_is_equal:
  assumes "map_laws api entries flt"
  shows "case fst (IoTHubMessage_Clone os api (Some msg) e) of
      Some m \<Rightarrow> m = msg\<lparr>msg_properties := msg_properties m\<rparr>
        \<and> entries (msg_properties m) = entries (msg_properties msg)
        \<and> flt (msg_properties m) = flt (msg_properties msg)
    | None \<Rightarrow> (\<exists>e. \<not> fst (os_malloc os e)) \<or> (\<exists>mp e. fst (Map_Clone api mp e) = None)"
proof (cases "fst (IoTHubMessage_Clone os api (Some msg) e)")
  case None
  then have "\<not> gives (IoTHubMessage_Clone os api (Some msg) e)" by (simp add: gives_def)
  then have "\<not> memory_available os \<or> \<not> (\<forall>mp e. gives (Map_Clone api mp e))"
    using clone_gives [of os api msg e] by auto
  then show ?thesis using None by (auto simp: memory_available_def gives_def)
next
  case (Some m)
  then obtain e' where "IoTHubMessage_Clone os api (Some msg) e = (Some m, e')" by (metis prod.collapse)
  from clone_Some [OF this] show ?thesis using map_laws_clone [OF assms] Some by auto
qed

text \<open>A property map for examples: an association list with the filter it was created with.\<close>

definition list_map_api :: "((string \<Rightarrow> string \<Rightarrow> bool) \<times> (string \<times> string) list, unit) map_api" where
  "list_map_api = \<lparr>
     Map_Create = (\<lambda>f e. (Some (f, []), e)),
     Map_Clone = (\<lambda>mp e. (Some mp, e)),
     Map_AddOrUpdate = (\<lambda>mp k v e. if fst mp k v then (MAP_OK, (fst mp, (k, v) # snd mp), e)
                                   else (MAP_FILTER_REJECT, mp, e)),
     Map_ContainsKey = (\<lambda>mp k. (MAP_OK, map_of (snd mp) k \<noteq> None)),
     Map_GetValueFromKey = (\<lambda>mp k. map_of (snd mp) k)\<rparr>"

lemma list_map_laws: "map_laws list_map_api (\<lambda>mp. map_of (snd mp)) fst"
  by (auto simp: map_laws_def list_map_api_def)

definition example_message :: "((string \<Rightarrow> string \<Rightarrow> bool) \<times> (string \<times> string) list) IOTHUB_MESSAGE" where
  "example_message = (blank_message IOTHUBMESSAGE_STRING ''hi'' (ValidateAsciiCharactersFilter, []))
     \<lparr>messageId := Some ''7'', diagnosticData := Some \<lparr>diagnosticId = Some ''a'', diagnosticCreationTimeUtc = None\<rparr>\<rparr>"

theorem clone_is_equal_witness:
  "\<exists>m. fst (IoTHubMessage_Clone happy_os list_map_api (Some example_message) ()) = Some m
     \<and> messageId m = Some ''7'' \<and> diagnosticData m \<noteq> None"
proof -
  have "\<exists>m. fst (IoTHubMessage_Clone happy_os list_map_api (Some example_message) ()) = Some m"
    by (simp add: IoTHubMessage_Clone_def example_message_def blank_message_def copy_field_def malloc_of_def
        or_null_def CloneDiagnosticPropertyData_def happy_os_def list_map_api_def)
  then obtain m where m: "fst (IoTHubMessage_Clone happy_os list_map_api (Some example_message) ()) = Some m" ..
  have "m = example_message\<lparr>msg_properties := msg_properties m\<rparr>"
    using clone_is_equal [OF list_map_laws, of happy_os example_message "()"] m by simp
  then have "messageId m = messageId example_message" "diagnosticData m = diagnosticData example_message"
    by (metis IOTHUB_MESSAGE.select_convs(4) IOTHUB_MESSAGE.surjective IOTHUB_MESSAGE.update_convs(3),
        metis IOTHUB_MESSAGE.select_convs(12) IOTHUB_MESSAGE.surjective IOTHUB_MESSAGE.update_convs(3))
  with m show ?thesis by (simp add: example_message_def)
qed

text \<open>
  C36: After any sequence of property updates of a new message, each key reads as the value of the
  last update of that key that was accepted, and as NULL when there was none; an update is refused
  as of invalid type exactly when its key or value has a character outside printable ASCII.
\<close>

theorem properties_roundtrip:
  assumes "map_laws api entries flt" "IoTHubMessage_CreateFromString os api src e = (Some msg, e')"
    "set_properties api kvs (Some msg) e' = (rs, h)"
  shows "(\<forall>k. IoTHubMessage_GetProperty api h (Some k) = map_of (accepted kvs rs) k)
    \<and> length rs = length kvs
    \<and> (\<forall>j < length kvs. rs ! j = IOTHUB_MESSAGE_INVALID_TYPE
        \<longleftrightarrow> (\<exists>c \<in> set (fst (kvs ! j)) \<union> set (snd (kvs ! j)). of_char c < (32::nat) \<or> of_char c > (126::nat)))"
proof -
  note new = create_spec [OF assms(1,2)]
  from set_properties_spec [OF assms(1) new(2) assms(3)]
  obtain m' where m': "h = Some m'" "entries (msg_properties m') = entries (msg_properties msg) ++ map_of (accepted kvs rs)"
    "length rs = length kvs"
    "\<forall>j < length kvs. rs ! j = IOTHUB_MESSAGE_INVALID_TYPE
       \<longleftrightarrow> \<not> ValidateAsciiCharactersFilter (fst (kvs ! j)) (snd (kvs ! j))" by blast
  have v: "\<not> ValidateAsciiCharactersFilter k x
      \<longleftrightarrow> (\<exists>c \<in> set k \<union> set x. of_char c < (32::nat) \<or> of_char c > (126::nat))" for k x
    by (auto simp: ValidateAsciiCharactersFilter_def valid_ascii_iff not_le not_less)
  from m' new(1) show ?thesis by (simp add: get_property [OF assms(1)] v)
qed

definition example_updates :: "(string \<times> string) list" where
  "example_updates = [(''a'', ''1''), (''b'', [CHR 0x07]), (''a'', ''2'')]"

theorem properties_roundtrip_witness:
  "IoTHubMessage_GetProperty list_map_api (snd (set_properties list_map_api example_updates
     (fst (IoTHubMessage_CreateFromString happy_os list_map_api (Some ''x'') ())) ())) (Some ''a'') = Some ''2''"
proof -
  have c: "IoTHubMessage_CreateFromString happy_os list_map_api (Some ''x'') () =
      (Some (blank_message IOTHUBMESSAGE_STRING ''x'' (ValidateAsciiCharactersFilter, [])), ())"
    by (simp add: IoTHubMessage_CreateFromString_def or_null_def malloc_of_def happy_os_def list_map_api_def)
  obtain rs h where s: "set_properties list_map_api example_updates
      (Some (blank_message IOTHUBMESSAGE_STRING ''x'' (ValidateAsciiCharactersFilter, []))) () = (rs, h)"
    by (cases "set_properties list_map_api example_updates
      (Some (blank_message IOTHUBMESSAGE_STRING ''x'' (ValidateAsciiCharactersFilter, []))) ()")
  have "rs = [IOTHUB_MESSAGE_OK, IOTHUB_MESSAGE_INVALID_TYPE, IOTHUB_MESSAGE_OK]"
    using s by (auto simp: example_updates_def IoTHubMessage_SetProperty_def list_map_api_def blank_message_def
        ValidateAsciiCharactersFilter_def)
  with properties_roundtrip [OF list_map_laws c s] show ?thesis
    by (simp add: c s) (simp add: example_updates_def)
qed

end
