(* ===== verification/Diagnostic.thy ===== *)
theory Diagnostic
  imports Complex_Main Message
begin

text \<open>
  Sampling of diagnostic information (iothub\_client/src/iothub\_client\_diagnostic.c): a counter of
  messages and a percentage decide which messages get an identifier and a creation time. The
  counter is 32 bits wide and wraps; the decision is taken in doubles, so every result of a double
  operation is given to the rounding function \<open>fl\<close>.
\<close>

section \<open>Data and operations\<close>

record DIAGNOSTIC_SETTING_DATA =
  diagSamplingPercentage :: "32 word"
  currentMessageNumber :: "32 word"

definition BASE_36 :: nat where
  "BASE_36 = 36"

text \<open>None: the time is not known. time\_t has 64 bits.\<close>

definition get_epoch_time :: "('e, 'm) os_scheme \<Rightarrow> 'e \<Rightarrow> string option \<times> 'e" where
  "get_epoch_time os e =
     (case os_time os e of (epochTime, e) \<Rightarrow>
        (if epochTime = INDEFINITE_TIME then None else Some (nat_str (nat (epochTime mod 2 ^ 64))), e))"

definition get_base36_char :: "nat \<Rightarrow> char" where
  "get_base36_char v = (if v \<le> 9 then char_of (48 + v) else char_of (97 + v - 10))"

text \<open>The loop of generate\_eight\_random\_characters, run four times.\<close>

fun random_pairs :: "('e, 'm) os_scheme \<Rightarrow> nat \<Rightarrow> 'e \<Rightarrow> string \<times> 'e" where
  "random_pairs os 0 e = ([], e)"
| "random_pairs os (Suc i) e =
     (case os_rand os e of (rawRandom, e) \<Rightarrow>
      case random_pairs os i e of (rest, e) \<Rightarrow>
        (get_base36_char (rawRandom mod BASE_36) # get_base36_char (rawRandom div BASE_36 mod BASE_36) # rest, e))"

definition generate_eight_random_characters :: "('e, 'm) os_scheme \<Rightarrow> 'e \<Rightarrow> string \<times> 'e" where
  "generate_eight_random_characters os e = random_pairs os 4 e"

definition should_add_diagnostic_info ::
  "(rat \<Rightarrow> rat) \<Rightarrow> DIAGNOSTIC_SETTING_DATA \<Rightarrow> bool \<times> DIAGNOSTIC_SETTING_DATA" where
  "should_add_diagnostic_info fl d =
     (if diagSamplingPercentage d > 0 then
        let d = (if currentMessageNumber d = - 1
                 then d\<lparr>currentMessageNumber := currentMessageNumber d mod (diagSamplingPercentage d * 100)\<rparr>
                 else d);
            d = d\<lparr>currentMessageNumber := currentMessageNumber d + 1\<rparr>;
            number = of_nat (unat (currentMessageNumber d));
            percentage = of_nat (unat (diagSamplingPercentage d))
        in (\<lfloor>fl (fl (fl (number - 2) * percentage) / 100)\<rfloor> < \<lfloor>fl (fl (fl (number - 1) * percentage) / 100)\<rfloor>, d)
      else (False, d))"

definition prepare_message_diagnostic_data ::
  "('e, 'm) os_scheme \<Rightarrow> 'e \<Rightarrow> DIAGNOSTIC_PROPERTY_DATA option \<times> 'e" where
  "prepare_message_diagnostic_data os e =
     or_null (malloc_of os () e) (\<lambda>_ e.
     or_null (malloc_of os () e) (\<lambda>_ e.
       case generate_eight_random_characters os e of (diagId, e) \<Rightarrow>
     or_null (malloc_of os () e) (\<lambda>_ e.
     or_null (get_epoch_time os e) (\<lambda>timeBuffer e.
       (Some \<lparr>diagnosticId = Some diagId, diagnosticCreationTimeUtc = Some timeBuffer\<rparr>, e)))))"

definition IoTHubClient_Diagnostic_AddIfNecessary ::
  "(rat \<Rightarrow> rat) \<Rightarrow> ('e, 'm) os_scheme \<Rightarrow> DIAGNOSTIC_SETTING_DATA option \<Rightarrow> 'mp IOTHUB_MESSAGE option \<Rightarrow> 'e
     \<Rightarrow> bool \<times> DIAGNOSTIC_SETTING_DATA option \<times> 'mp IOTHUB_MESSAGE option \<times> 'e" where
  "IoTHubClient_Diagnostic_AddIfNecessary fl os setting msg e =
     (case (setting, msg) of
        (Some d, Some m) \<Rightarrow>
          (case should_add_diagnostic_info fl d of (add, d) \<Rightarrow>
             if add then
               (case prepare_message_diagnostic_data os e of
                  (None, e) \<Rightarrow> (False, Some d, msg, e)
                | (Some diag, e) \<Rightarrow>
                    (case IoTHubMessage_SetDiagnosticPropertyData os msg (Some diag) e of (r, msg, e) \<Rightarrow>
                       (r = IOTHUB_MESSAGE_OK, Some d, msg, e)))
             else (True, Some d, msg, e))
      | _ \<Rightarrow> (False, setting, msg, e))"

section \<open>The decision in whole numbers\<close>

text \<open>
  What IEEE double arithmetic promises in the range used: whole numbers up to \<open>2 ^ 53\<close> are exact
  and a rounding is off by at most one part in \<open>2 ^ 53\<close>.
\<close>

definition double_rounding :: "(rat \<Rightarrow> rat) \<Rightarrow> bool" where
  "double_rounding fl \<longleftrightarrow>
     (\<forall>z::int. \<bar>z\<bar> \<le> 2 ^ 53 \<longrightarrow> fl (of_int z) = of_int z)
   \<and> (\<forall>x. 1 / 100 \<le> \<bar>x\<bar> \<and> \<bar>x\<bar> \<le> 2 ^ 53 \<longrightarrow> \<bar>fl x - x\<bar> \<le> \<bar>x\<bar> / 2 ^ 53)"

lemma floor_of_rounded:
  assumes fl: "double_rounding fl" and m: "\<bar>m\<bar> \<le> 2 ^ 40"
  shows "\<lfloor>fl (of_int m / 100)\<rfloor> = m div 100"
proof (cases "m mod 100 = 0")
  case True
  then obtain k where k: "m = 100 * k" by auto
  then have "\<bar>k\<bar> \<le> 2 ^ 53" using m by simp
  with fl have "fl (of_int k) = of_int k" by (simp add: double_rounding_def)
  with k show ?thesis by simp
next
  case False
  let ?q = "of_int m / 100 :: rat"
  obtain d r where dr: "m = 100 * d + r" "m div 100 = d" "m mod 100 = r"
    by (rule that [of "m div 100" "m mod 100"]) simp_all
  have r: "1 \<le> r" "r \<le> 99" using False dr(3) pos_mod_sign [of 100 m] pos_mod_bound [of 100 m] by linarith+
  have q: "?q = of_int d + of_int r / 100" unfolding dr(1) by simp
  have lo: "1 / 100 \<le> \<bar>?q\<bar>"
  proof -
    have "1 \<le> \<bar>m\<bar>" using False by (cases "m = 0") auto
    then have "1 \<le> (\<bar>of_int m\<bar> :: rat)" by (metis of_int_1_le_iff of_int_abs)
    then show ?thesis by simp
  qed
  have hi: "\<bar>?q\<bar> \<le> 2 ^ 40 / 100"
  proof -
    have "(\<bar>of_int m\<bar> :: rat) \<le> of_int (2 ^ 40)" using m by (metis of_int_abs of_int_le_iff)
    then show ?thesis by simp
  qed
  have "\<bar>?q\<bar> \<le> 2 ^ 53" using hi by (rule order_trans) simp
  with fl lo have "\<bar>fl ?q - ?q\<bar> \<le> \<bar>?q\<bar> / 2 ^ 53" unfolding double_rounding_def by blast
  also have "\<dots> \<le> (2 ^ 40 / 100) / 2 ^ 53" using hi by (intro divide_right_mono) simp_all
  finally have err: "\<bar>fl ?q - ?q\<bar> < 1 / 100" by simp
  have "of_int r / 100 \<ge> (1 / 100 :: rat)" "of_int r / 100 \<le> (99 / 100 :: rat)"
    using r by (simp_all add: divide_le_cancel)
  with err q have "of_int d \<le> fl ?q" "fl ?q < of_int d + 1" by linarith+
  then have "\<lfloor>fl ?q\<rfloor> = d" by (rule floor_unique)
  then show ?thesis using dr(2) by simp
qed
text \<open>The number of samples among the messages up to \<open>n\<close>, for a percentage \<open>p\<close>.\<close>

definition quota :: "int \<Rightarrow> int \<Rightarrow> int" where
  "quota p n = ((n - 1) * p) div 100"

lemma quota_period: "quota p (n + 100 * a) = quota p n + p * a"
proof -
  have "(n + 100 * a - 1) * p = (n - 1) * p + 100 * (p * a)" by (simp add: algebra_simps)
  then show ?thesis by (simp add: quota_def)
qed

lemma quota_step:
  assumes "0 \<le> p" "p \<le> 100"
  shows "quota p n \<le> quota p (n + 1)" "quota p (n + 1) \<le> quota p n + 1"
proof -
  have e: "(n + 1 - 1) * p = (n - 1) * p + p" by (simp add: algebra_simps)
  show "quota p n \<le> quota p (n + 1)" unfolding quota_def e using assms by (intro zdiv_mono1) simp_all
  have "((n - 1) * p + p) div 100 \<le> ((n - 1) * p + 100) div 100" using assms by (intro zdiv_mono1) simp_all
  then show "quota p (n + 1) \<le> quota p n + 1" unfolding quota_def e by simp
qed

text \<open>The counter after one more message, in whole numbers.\<close>

definition next_number :: "DIAGNOSTIC_SETTING_DATA \<Rightarrow> int" where
  "next_number d = uint (currentMessageNumber (snd (should_add_diagnostic_info (\<lambda>x. x) d)))"

lemma should_add_state:
  "snd (should_add_diagnostic_info fl d) = snd (should_add_diagnostic_info fl' d)"
  by (simp add: should_add_diagnostic_info_def Let_def)

lemma percentage_kept: "diagSamplingPercentage (snd (should_add_diagnostic_info fl d)) = diagSamplingPercentage d"
  by (simp add: should_add_diagnostic_info_def Let_def)

lemma next_number:
  assumes p: "1 \<le> unat (diagSamplingPercentage d)" "unat (diagSamplingPercentage d) \<le> 100"
  shows "next_number d mod 100 = (uint (currentMessageNumber d) + 1) mod 100"
    "1 \<le> next_number d" "next_number d < 2 ^ 32"
proof -
  let ?p = "diagSamplingPercentage d" and ?n = "currentMessageNumber d"
  have "?p \<noteq> 0" using p(1) by auto
  then have pos: "?p > 0" by (simp add: word_gt_0)
  have "uint ?p = int (unat ?p)" by (rule uint_nat)
  then have u: "1 \<le> uint ?p" "uint ?p \<le> 100" using p by linarith+
  then have up: "uint (?p * 100) = uint ?p * 100" "1 \<le> uint ?p"
    using uint_mult_lem [of ?p 100, THEN iffD1] by simp_all
  have "next_number d mod 100 = (uint ?n + 1) mod 100 \<and> 1 \<le> next_number d \<and> next_number d < 2 ^ 32"
  proof (cases "?n = - 1")
    case True
    let ?r = "uint ?n mod (uint ?p * 100)"
    have r: "0 \<le> ?r" "?r < uint ?p * 100" using up(2) by simp_all
    moreover have "uint ?p * 100 \<le> 10000" using u by simp
    ultimately have "?r + 1 < 2 ^ 32" by simp
    have "uint (?n mod (?p * 100) + 1) = ?r + 1"
      using uint_add_lem [of "?n mod (?p * 100)" 1, THEN iffD1] \<open>?r + 1 < 2 ^ 32\<close>
      by (simp add: uint_mod up(1))
    then have "next_number d = ?r + 1"
      using pos True by (simp add: next_number_def should_add_diagnostic_info_def Let_def)
    moreover have "(?r + 1) mod 100 = (uint ?n + 1) mod 100"
      by (metis dvd_triv_right mod_add_left_eq mod_mod_cancel)
    ultimately show ?thesis using r \<open>?r + 1 < 2 ^ 32\<close> by simp
  next
    case False
    have "uint ?n \<noteq> uint (- 1 :: 32 word)" using False by (simp only: word_uint_eq_iff not_False_eq_True)
    then have "uint ?n \<noteq> 2 ^ 32 - 1" by (simp add: unsigned_minus_1_eq_mask mask_eq_exp_minus_1)
    then have "uint ?n + 1 < 2 ^ 32" using uint_lt2p [of ?n] by simp
    then have "uint (?n + 1) = uint ?n + 1" using uint_add_lem [of ?n 1, THEN iffD1] by simp
    then have "next_number d = uint ?n + 1"
      using pos False by (simp add: next_number_def should_add_diagnostic_info_def Let_def)
    then show ?thesis using \<open>uint ?n + 1 < 2 ^ 32\<close> by simp
  qed
  then show "next_number d mod 100 = (uint ?n + 1) mod 100" "1 \<le> next_number d" "next_number d < 2 ^ 32"
    by auto
qed
lemma should_add_iff:
  assumes fl: "double_rounding fl"
    and p: "1 \<le> unat (diagSamplingPercentage d)" "unat (diagSamplingPercentage d) \<le> 100"
  shows "fst (should_add_diagnostic_info fl d) \<longleftrightarrow>
    quota (uint (diagSamplingPercentage d)) (next_number d - 1)
      < quota (uint (diagSamplingPercentage d)) (next_number d)"
proof -
  let ?p = "uint (diagSamplingPercentage d)" and ?n = "next_number d"
  have p': "1 \<le> ?p" "?p \<le> 100"
    using p uint_nat [of "diagSamplingPercentage d"] by linarith+
  have n: "1 \<le> ?n" "?n < 2 ^ 32" using next_number [OF p] by simp_all
  have ex: "fl (of_int z) = of_int z" if "\<bar>z\<bar> \<le> 2 ^ 40" for z
    using fl that by (simp add: double_rounding_def)
  have prod: "\<bar>(?n - k) * ?p\<bar> \<le> 2 ^ 40" if "0 \<le> k" "k \<le> 2" for k
  proof -
    have "\<bar>?n - k\<bar> \<le> 2 ^ 32" using n that by linarith
    then have "\<bar>?n - k\<bar> * \<bar>?p\<bar> \<le> 2 ^ 32 * 100" using p' by (intro mult_mono) simp_all
    then show ?thesis by (simp add: abs_mult)
  qed
  have dec: "\<lfloor>fl (fl (fl (of_int ?n - of_int k) * of_int ?p) / 100)\<rfloor> = ((?n - k) * ?p) div 100"
    if "0 \<le> k" "k \<le> 2" for k
  proof -
    have "\<bar>?n - k\<bar> \<le> 2 ^ 40" using n that by simp
    then have "fl (of_int ?n - of_int k) = of_int (?n - k)" using ex [of "?n - k"] by simp
    moreover have "fl (of_int (?n - k) * of_int ?p) = of_int ((?n - k) * ?p)"
      using ex [OF prod [OF that]] by simp
    ultimately show ?thesis using floor_of_rounded [OF fl prod [OF that]] by simp
  qed
  have "diagSamplingPercentage d > 0" using p(1) by (auto simp: word_gt_0)
  moreover have "of_nat (unat (currentMessageNumber (snd (should_add_diagnostic_info fl d)))) = (of_int ?n :: rat)"
    by (simp add: next_number_def should_add_state [where fl = fl and fl' = "\<lambda>x. x"])
  moreover have "of_nat (unat (diagSamplingPercentage d)) = (of_int ?p :: rat)" by simp
  ultimately show ?thesis
    using dec [of 2] dec [of 1] by (simp add: should_add_diagnostic_info_def Let_def quota_def)
qed

text \<open>The answers for a number of messages, one after the other.\<close>

fun sample_run :: "(rat \<Rightarrow> rat) \<Rightarrow> nat \<Rightarrow> DIAGNOSTIC_SETTING_DATA \<Rightarrow> bool list" where
  "sample_run fl 0 d = []"
| "sample_run fl (Suc k) d =
     (case should_add_diagnostic_info fl d of (add, d) \<Rightarrow> add # sample_run fl k d)"

lemma quota_shift:
  assumes "x mod 100 = y mod 100"
  shows "quota p (x + k) - quota p x = quota p (y + k) - quota p (y::int)"
proof -
  obtain a where "x = y + 100 * a" using assms by (metis mod_eqE mult.commute)
  then have "quota p (x + k) = quota p (y + k) + p * a" "quota p x = quota p y + p * a"
    using quota_period [of p "y + k" a] quota_period [of p y a] by (simp_all add: algebra_simps)
  then show ?thesis by simp
qed

text \<open>The number of samples in a run is a difference of two quotas, also when the counter wraps.\<close>

lemma sample_count:
  assumes fl: "double_rounding fl"
    and p: "1 \<le> unat (diagSamplingPercentage d)" "unat (diagSamplingPercentage d) \<le> 100"
  shows "int (length (filter (\<lambda>a. a) (sample_run fl k d)))
    = quota (uint (diagSamplingPercentage d)) (uint (currentMessageNumber d) + int k)
      - quota (uint (diagSamplingPercentage d)) (uint (currentMessageNumber d))"
  using p
proof (induction k arbitrary: d)
  case 0
  then show ?case by simp
next
  case (Suc k)
  let ?p = "uint (diagSamplingPercentage d)" and ?n = "uint (currentMessageNumber d)" and ?n' = "next_number d"
  obtain add d' where s: "should_add_diagnostic_info fl d = (add, d')" by (cases "should_add_diagnostic_info fl d")
  have pp: "diagSamplingPercentage d' = diagSamplingPercentage d" using percentage_kept [of fl d] s by simp
  have n': "uint (currentMessageNumber d') = ?n'"
    using should_add_state [where fl = fl and d = d and fl' = "\<lambda>x. x"] s by (simp add: next_number_def)
  have IH: "int (length (filter (\<lambda>a. a) (sample_run fl k d'))) = quota ?p (?n' + int k) - quota ?p ?n'"
    using Suc.IH [of d'] Suc.prems by (simp add: pp n')
  have p': "0 \<le> ?p" "?p \<le> 100"
    using Suc.prems uint_nat [of "diagSamplingPercentage d"] by linarith+
  have sh: "(?n' - 1) mod 100 = ?n mod 100"
    using next_number(1) [OF Suc.prems] by (metis add_diff_cancel_right' mod_diff_left_eq)
  have one: "(if add then 1 else 0) = quota ?p ?n' - quota ?p (?n' - 1)"
    using should_add_iff [OF fl Suc.prems] s quota_step [OF p', of "?n' - 1"] by auto
  have "int (length (filter (\<lambda>a. a) (sample_run fl (Suc k) d)))
      = quota ?p ((?n' - 1) + (int k + 1)) - quota ?p (?n' - 1)"
    using IH one s by (auto simp: algebra_simps)
  also have "\<dots> = quota ?p (?n + (int k + 1)) - quota ?p ?n" by (rule quota_shift [OF sh])
  finally show ?case by (simp add: algebra_simps)
qed
section \<open>The identifier\<close>

definition base36_digit :: "char \<Rightarrow> bool" where
  "base36_digit c \<longleftrightarrow> ISDIGIT c \<or> 97 \<le> (of_char c :: nat) \<and> (of_char c :: nat) \<le> 122"

lemma base36_char: "v < 36 \<Longrightarrow> base36_digit (get_base36_char v)"
  by (auto simp: get_base36_char_def base36_digit_def ISDIGIT_def)

lemma random_pairs_ok:
  "random_pairs os i e = (s, e') \<Longrightarrow> length s = 2 * i \<and> (\<forall>c \<in> set s. base36_digit c)"
proof (induction i arbitrary: e s e')
  case (Suc i)
  then show ?case
    by (auto simp: BASE_36_def split: prod.splits intro!: base36_char)
qed simp

lemma prepare_ok:
  assumes "prepare_message_diagnostic_data os e = (Some diag, e')"
  shows "\<exists>i t. diag = \<lparr>diagnosticId = Some i, diagnosticCreationTimeUtc = Some t\<rparr>
    \<and> length i = 8 \<and> (\<forall>c \<in> set i. base36_digit c) \<and> (\<forall>c \<in> set t. ISDIGIT c) \<and> t \<noteq> []"
proof -
  from assms obtain e1 where
    "(case generate_eight_random_characters os e1 of (diagId, e) \<Rightarrow>
       or_null (malloc_of os () e) (\<lambda>_ e. or_null (get_epoch_time os e) (\<lambda>timeBuffer e.
         (Some \<lparr>diagnosticId = Some diagId, diagnosticCreationTimeUtc = Some timeBuffer\<rparr>, e)))) = (Some diag, e')"
    by (auto simp: prepare_message_diagnostic_data_def or_null_Some)
  moreover obtain i e2 where i: "generate_eight_random_characters os e1 = (i, e2)"
    by (cases "generate_eight_random_characters os e1")
  ultimately obtain t e3 where t: "get_epoch_time os e3 = (Some t, e')"
    and diag: "diag = \<lparr>diagnosticId = Some i, diagnosticCreationTimeUtc = Some t\<rparr>"
    by (auto simp: or_null_Some)
  have "t \<noteq> [] \<and> (\<forall>c \<in> set t. ISDIGIT c)"
    using t by (auto simp: get_epoch_time_def nat_str_digits split: prod.splits if_splits)
  moreover have "length i = 8 \<and> (\<forall>c \<in> set i. base36_digit c)"
    using random_pairs_ok [OF i [unfolded generate_eight_random_characters_def]] by simp
  ultimately show ?thesis using diag by blast
qed

section \<open>Properties\<close>

text \<open>
  C35: With a sampling percentage p from 1 to 100, among any k consecutive messages, from any value
  of the counter and across its wrap-around at \<open>2 ^ 32 - 1\<close>, the number that is sampled differs
  from k * p / 100 by less than one: any 100 consecutive messages have exactly p samples.
\<close>

theorem samples_follow_percentage:
  assumes "double_rounding fl"
    "1 \<le> unat (diagSamplingPercentage d)" "unat (diagSamplingPercentage d) \<le> 100"
  shows "\<bar>100 * int (length (filter (\<lambda>a. a) (sample_run fl k d))) - int k * uint (diagSamplingPercentage d)\<bar> < 100"
proof -
  have bound: "\<bar>100 * ((a + b) div 100 - a div 100) - b\<bar> < (100 :: int)" for a b :: int
  proof -
    have "100 * (x div 100) = x - x mod 100" "0 \<le> x mod 100" "x mod 100 < 100" for x :: int
      by (simp_all add: minus_mod_eq_mult_div [symmetric])
    from this [of "a + b"] this [of a] show ?thesis
      unfolding right_diff_distrib abs_less_iff by (intro conjI) linarith+
  qed
  let ?n = "uint (currentMessageNumber d)" and ?p = "uint (diagSamplingPercentage d)"
  have "(?n + int k - 1) * ?p = (?n - 1) * ?p + int k * ?p" by (simp add: algebra_simps)
  then show ?thesis
    using bound [of "(?n - 1) * ?p" "int k * ?p"] by (simp add: sample_count [OF assms] quota_def)
qed

lemma exact_double_rounding: "double_rounding (\<lambda>x. x)"
  by (simp add: double_rounding_def)

theorem samples_follow_percentage_witness:
  "length (filter (\<lambda>a. a) (sample_run (\<lambda>x. x) 100 \<lparr>diagSamplingPercentage = 7, currentMessageNumber = - 3\<rparr>)) = 7"
  using samples_follow_percentage [OF exact_double_rounding,
      of "\<lparr>diagSamplingPercentage = 7, currentMessageNumber = - 3\<rparr>" 100]
  by simp

text \<open>
  Adding diagnostic information touches the diagnostic data of the message only. A message
  that is not sampled is unchanged; one that is sampled and reported as done has an identifier of
  eight base 36 digits and a creation time in decimal digits; after a failure it has the
  diagnostic data it had, or none.
\<close>

theorem add_if_necessary_spec:
  "case IoTHubClient_Diagnostic_AddIfNecessary fl os (Some d) (Some msg) e of (ok, setting, h, e') \<Rightarrow>
     setting = Some (snd (should_add_diagnostic_info fl d))
     \<and> (\<exists>diag. h = Some (msg\<lparr>diagnosticData := diag\<rparr>)
        \<and> (if \<not> fst (should_add_diagnostic_info fl d) then ok \<and> diag = diagnosticData msg
           else if ok then
             (\<exists>i t. diag = Some \<lparr>diagnosticId = Some i, diagnosticCreationTimeUtc = Some t\<rparr>
                \<and> length i = 8 \<and> list_all base36_digit i \<and> t \<noteq> [] \<and> list_all ISDIGIT t)
           else diag \<in> {diagnosticData msg, None}))"
proof -
  obtain add d' where s: "should_add_diagnostic_info fl d = (add, d')" by (cases "should_add_diagnostic_info fl d")
  obtain p e1 where p: "prepare_message_diagnostic_data os e = (p, e1)"
    by (cases "prepare_message_diagnostic_data os e")
  show ?thesis
  proof (cases "add \<and> p \<noteq> None")
    case False
    then have "add \<Longrightarrow> p = None" by simp
    then show ?thesis using s p
      by (cases add) (auto simp: IoTHubClient_Diagnostic_AddIfNecessary_def
          intro: exI [of _ "diagnosticData msg"])
  next
    case True
    then obtain diag where diag: "p = Some diag" by auto
    obtain c e2 where c: "CloneDiagnosticPropertyData os (Some diag) e1 = (c, e2)"
      by (cases "CloneDiagnosticPropertyData os (Some diag) e1")
    have "c = None \<or> c = Some diag" using c clone_diagnostic_Some [of os "Some diag" e1] by (cases c) auto
    moreover note prepare_ok [OF p [unfolded diag]]
    ultimately show ?thesis
      using True s p diag c
      by (auto simp: IoTHubClient_Diagnostic_AddIfNecessary_def IoTHubMessage_SetDiagnosticPropertyData_def
          list_all_iff)
  qed
qed

end
