(* ===== verification/Authorization.thy ===== *)
theory Authorization
  imports Main Sdk_Prelude
begin

text \<open>
  The credentials of a device (iothub\_client/src/iothub\_client\_authorization.c): a key, a SAS token
  given by the user or a handle of the provisioning module, the type that says which one counts,
  and the SAS tokens made from them. SAS tokens and base64 are functions of
  azure\_c\_shared\_utility, which is not part of this repository; the provisioning module is compiled
  in or not, so it is an optional argument.
\<close>

section \<open>Data\<close>

datatype IOTHUB_CREDENTIAL_TYPE =
  IOTHUB_CREDENTIAL_TYPE_UNKNOWN | IOTHUB_CREDENTIAL_TYPE_DEVICE_KEY | IOTHUB_CREDENTIAL_TYPE_X509
| IOTHUB_CREDENTIAL_TYPE_X509_ECC | IOTHUB_CREDENTIAL_TYPE_SAS_TOKEN | IOTHUB_CREDENTIAL_TYPE_DEVICE_AUTH

datatype SAS_TOKEN_STATUS = SAS_TOKEN_STATUS_FAILED | SAS_TOKEN_STATUS_VALID | SAS_TOKEN_STATUS_INVALID

datatype DEVICE_AUTH_TYPE = AUTH_TYPE_UNKNOWN | AUTH_TYPE_SAS | AUTH_TYPE_X509 | AUTH_TYPE_SYMM_KEY

record DEVICE_AUTH_SAS_INFO =
  expiry_seconds :: "64 word"
  token_scope :: "string option"
  sas_key_name :: "string option"

record CREDENTIAL_RESULT =
  cred_sas_token :: string
  x509_cert :: string
  x509_alias_key :: string

text \<open>The provisioning module (USE\_PROV\_MODULE). None is NULL.\<close>

record 'e prov_api =
  iothub_device_auth_create :: "'e \<Rightarrow> nat option \<times> 'e"
  iothub_device_auth_get_type :: "nat \<Rightarrow> 'e \<Rightarrow> DEVICE_AUTH_TYPE"
  iothub_device_auth_generate_credentials :: "nat \<Rightarrow> DEVICE_AUTH_SAS_INFO option \<Rightarrow> 'e \<Rightarrow> CREDENTIAL_RESULT option \<times> 'e"

datatype ecc_option = OPTION_X509_ECC_CERT | OPTION_X509_ECC_KEY

record 'e sas_api =
  Azure_Base64_Decode :: "string \<Rightarrow> 'e \<Rightarrow> char list option \<times> 'e"
  SASToken_CreateString :: "string option \<Rightarrow> string \<Rightarrow> string option \<Rightarrow> 64 word \<Rightarrow> 'e \<Rightarrow> string option \<times> 'e"
  SASToken_Validate :: "string \<Rightarrow> 'e \<Rightarrow> bool \<times> 'e"
  xio_setoption :: "ecc_option \<Rightarrow> string \<Rightarrow> 'e \<Rightarrow> bool \<times> 'e"

record AUTHORIZATION_DATA =
  auth_sas_token :: "string option"
  auth_device_key :: "string option"
  auth_device_id :: string
  auth_module_id :: "string option"
  token_expiry_time_sec :: "64 word"
  auth_cred_type :: IOTHUB_CREDENTIAL_TYPE
  device_auth_handle :: "nat option"

definition DEFAULT_SAS_TOKEN_EXPIRY_TIME_SECS :: "64 word" where
  "DEFAULT_SAS_TOKEN_EXPIRY_TIME_SECS = 3600"

definition MIN_SAS_EXPIRY_TIME :: "64 word" where
  "MIN_SAS_EXPIRY_TIME = 5"

section \<open>Operations\<close>

definition get_seconds_since_epoch :: "('e, 'm) os_scheme \<Rightarrow> 'e \<Rightarrow> (64 word) option \<times> 'e" where
  "get_seconds_since_epoch os e =
     (case os_time os e of (current_time, e) \<Rightarrow>
        (if current_time = INDEFINITE_TIME then None else Some (of_int current_time), e))"

definition initialize_auth_client ::
  "('e, 'm) os_scheme \<Rightarrow> string \<Rightarrow> string option \<Rightarrow> 'e \<Rightarrow> AUTHORIZATION_DATA option \<times> 'e" where
  "initialize_auth_client os dev_id mod_id e =
     or_null (malloc_of os () e) (\<lambda>_ e.
     or_null (malloc_of os dev_id e) (\<lambda>d e.
     or_null (copy_field os mod_id e) (\<lambda>m e.
       (Some \<lparr>auth_sas_token = None, auth_device_key = None, auth_device_id = d, auth_module_id = m,
              token_expiry_time_sec = DEFAULT_SAS_TOKEN_EXPIRY_TIME_SECS,
              auth_cred_type = IOTHUB_CREDENTIAL_TYPE_UNKNOWN, device_auth_handle = None\<rparr>, e))))"

definition IoTHubClient_Auth_Create ::
  "('e, 'm) os_scheme \<Rightarrow> ('e, 'n) sas_api_scheme \<Rightarrow> string option \<Rightarrow> string option \<Rightarrow> string option
     \<Rightarrow> string option \<Rightarrow> 'e \<Rightarrow> AUTHORIZATION_DATA option \<times> 'e" where
  "IoTHubClient_Auth_Create os sas key dev_id token mod_id e =
     (case (case key of
              None \<Rightarrow> (True, e)
            | Some k \<Rightarrow> (case Azure_Base64_Decode sas k e of (b, e) \<Rightarrow> (b \<noteq> None, e))) of (is_key_valid, e) \<Rightarrow>
      (case dev_id of
         None \<Rightarrow> (None, e)
       | Some d \<Rightarrow>
           if \<not> is_key_valid then (None, e)
           else
           or_null (initialize_auth_client os d mod_id e) (\<lambda>a e.
           or_null (copy_field os key e) (\<lambda>k e.
             let a = a\<lparr>auth_device_key := k\<rparr> in
             if key \<noteq> None then (Some (a\<lparr>auth_cred_type := IOTHUB_CREDENTIAL_TYPE_DEVICE_KEY\<rparr>), e)
             else (case token of
               Some t \<Rightarrow>
                 or_null (malloc_of os t e) (\<lambda>t e.
                   (Some (a\<lparr>auth_cred_type := IOTHUB_CREDENTIAL_TYPE_SAS_TOKEN, auth_sas_token := Some t\<rparr>), e))
             | None \<Rightarrow> (Some (a\<lparr>auth_cred_type := IOTHUB_CREDENTIAL_TYPE_UNKNOWN\<rparr>), e))))))"

definition IoTHubClient_Auth_CreateFromDeviceAuth ::
  "('e, 'm) os_scheme \<Rightarrow> ('e, 'p) prov_api_scheme option \<Rightarrow> string option \<Rightarrow> string option \<Rightarrow> 'e
     \<Rightarrow> AUTHORIZATION_DATA option \<times> 'e" where
  "IoTHubClient_Auth_CreateFromDeviceAuth os prov dev_id mod_id e =
     (case (dev_id, prov) of
        (Some d, Some p) \<Rightarrow>
          or_null (initialize_auth_client os d mod_id e) (\<lambda>a e.
          or_null (iothub_device_auth_create p e) (\<lambda>h e.
            let auth_type = iothub_device_auth_get_type p h e in
            (Some (a\<lparr>device_auth_handle := Some h,
                     auth_cred_type := (if auth_type = AUTH_TYPE_SAS \<or> auth_type = AUTH_TYPE_SYMM_KEY
                                   then IOTHUB_CREDENTIAL_TYPE_DEVICE_AUTH
                                   else IOTHUB_CREDENTIAL_TYPE_X509_ECC)\<rparr>), e)))
      | _ \<Rightarrow> (None, e))"

definition IoTHubClient_Auth_Set_x509_Type ::
  "AUTHORIZATION_DATA option \<Rightarrow> bool \<Rightarrow> IOTHUB_CREDENTIAL_TYPE \<times> AUTHORIZATION_DATA option" where
  "IoTHubClient_Auth_Set_x509_Type handle enable_x509 =
     (case handle of
        None \<Rightarrow> (IOTHUB_CREDENTIAL_TYPE_UNKNOWN, None)
      | Some a \<Rightarrow>
          let t = (if enable_x509 then IOTHUB_CREDENTIAL_TYPE_X509
                   else if auth_sas_token a = None then IOTHUB_CREDENTIAL_TYPE_DEVICE_KEY
                   else if auth_device_key a = None then IOTHUB_CREDENTIAL_TYPE_SAS_TOKEN
                   else IOTHUB_CREDENTIAL_TYPE_UNKNOWN)
          in (t, Some (a\<lparr>auth_cred_type := t\<rparr>)))"

text \<open>The second argument is whether xio is not NULL.\<close>

definition IoTHubClient_Auth_Set_xio_Certificate ::
  "('e, 'n) sas_api_scheme \<Rightarrow> ('e, 'p) prov_api_scheme option \<Rightarrow> AUTHORIZATION_DATA option \<Rightarrow> bool \<Rightarrow> 'e
     \<Rightarrow> bool \<times> 'e" where
  "IoTHubClient_Auth_Set_xio_Certificate sas prov handle xio e =
     (case handle of
        None \<Rightarrow> (False, e)
      | Some a \<Rightarrow>
          if \<not> xio then (False, e)
          else if auth_cred_type a \<noteq> IOTHUB_CREDENTIAL_TYPE_X509_ECC then (False, e)
          else (case (prov, device_auth_handle a) of
            (Some p, Some h) \<Rightarrow>
              (case iothub_device_auth_generate_credentials p h None e of
                 (None, e) \<Rightarrow> (False, e)
               | (Some cred, e) \<Rightarrow>
                   (case xio_setoption sas OPTION_X509_ECC_CERT (x509_cert cred) e of (ok, e) \<Rightarrow>
                      if \<not> ok then (False, e)
                      else xio_setoption sas OPTION_X509_ECC_KEY (x509_alias_key cred) e))
          | _ \<Rightarrow> (False, e)))"

definition IoTHubClient_Auth_Get_x509_info ::
  "('e, 'm) os_scheme \<Rightarrow> ('e, 'p) prov_api_scheme option \<Rightarrow> AUTHORIZATION_DATA option \<Rightarrow> bool \<Rightarrow> 'e
     \<Rightarrow> (string \<times> string) option \<times> 'e" where
  "IoTHubClient_Auth_Get_x509_info os prov handle places e =
     (case handle of
        None \<Rightarrow> (None, e)
      | Some a \<Rightarrow>
          if \<not> places then (None, e)
          else if auth_cred_type a \<noteq> IOTHUB_CREDENTIAL_TYPE_X509_ECC then (None, e)
          else (case (prov, device_auth_handle a) of
            (Some p, Some h) \<Rightarrow>
              or_null (iothub_device_auth_generate_credentials p h None e) (\<lambda>cred e.
              or_null (malloc_of os (x509_cert cred) e) (\<lambda>c e.
              or_null (malloc_of os (x509_alias_key cred) e) (\<lambda>k e. (Some (c, k), e))))
          | _ \<Rightarrow> (None, e)))"

definition IoTHubClient_Auth_Get_Credential_Type :: "AUTHORIZATION_DATA option \<Rightarrow> IOTHUB_CREDENTIAL_TYPE" where
  "IoTHubClient_Auth_Get_Credential_Type handle =
     (case handle of None \<Rightarrow> IOTHUB_CREDENTIAL_TYPE_UNKNOWN | Some a \<Rightarrow> auth_cred_type a)"

text \<open>The sum of the time and the expiry wraps at 64 bits, as it does in the code.\<close>

definition IoTHubClient_Auth_Get_SasToken ::
  "('e, 'm) os_scheme \<Rightarrow> ('e, 'n) sas_api_scheme \<Rightarrow> ('e, 'p) prov_api_scheme option
     \<Rightarrow> AUTHORIZATION_DATA option \<Rightarrow> string option \<Rightarrow> string option \<Rightarrow> 'e \<Rightarrow> string option \<times> 'e" where
  "IoTHubClient_Auth_Get_SasToken os sas prov handle scope key e =
     (case handle of
        None \<Rightarrow> (None, e)
      | Some a \<Rightarrow>
          if auth_cred_type a = IOTHUB_CREDENTIAL_TYPE_DEVICE_AUTH then
            (case (prov, device_auth_handle a) of
               (Some p, Some h) \<Rightarrow>
                 or_null (get_seconds_since_epoch os e) (\<lambda>sec_since_epoch e.
                 or_null (iothub_device_auth_generate_credentials p h
                     (Some \<lparr>expiry_seconds = sec_since_epoch + token_expiry_time_sec a,
                            token_scope = scope, sas_key_name = key\<rparr>) e) (\<lambda>cred e.
                   malloc_of os (cred_sas_token cred) e))
             | _ \<Rightarrow> (None, e))
          else if auth_cred_type a = IOTHUB_CREDENTIAL_TYPE_SAS_TOKEN then
            (case auth_sas_token a of None \<Rightarrow> (None, e) | Some t \<Rightarrow> malloc_of os t e)
          else if auth_cred_type a = IOTHUB_CREDENTIAL_TYPE_DEVICE_KEY then
            (case scope of
               None \<Rightarrow> (None, e)
             | Some sc \<Rightarrow>
                 or_null (get_seconds_since_epoch os e) (\<lambda>sec_since_epoch e.
                 or_null (SASToken_CreateString sas (auth_device_key a) sc key
                     (sec_since_epoch + token_expiry_time_sec a) e) (\<lambda>t e. malloc_of os t e)))
          else (None, e))"

definition IoTHubClient_Auth_Get_DeviceId :: "AUTHORIZATION_DATA option \<Rightarrow> string option" where
  "IoTHubClient_Auth_Get_DeviceId handle = map_option auth_device_id handle"

definition IoTHubClient_Auth_Get_ModuleId :: "AUTHORIZATION_DATA option \<Rightarrow> string option" where
  "IoTHubClient_Auth_Get_ModuleId handle = (case handle of None \<Rightarrow> None | Some a \<Rightarrow> auth_module_id a)"

definition IoTHubClient_Auth_Get_DeviceKey :: "AUTHORIZATION_DATA option \<Rightarrow> string option" where
  "IoTHubClient_Auth_Get_DeviceKey handle = (case handle of None \<Rightarrow> None | Some a \<Rightarrow> auth_device_key a)"

definition IoTHubClient_Auth_Is_SasToken_Valid ::
  "('e, 'm) os_scheme \<Rightarrow> ('e, 'n) sas_api_scheme \<Rightarrow> AUTHORIZATION_DATA option \<Rightarrow> 'e \<Rightarrow> SAS_TOKEN_STATUS \<times> 'e" where
  "IoTHubClient_Auth_Is_SasToken_Valid os sas handle e =
     (case handle of
        None \<Rightarrow> (SAS_TOKEN_STATUS_FAILED, e)
      | Some a \<Rightarrow>
          if auth_cred_type a = IOTHUB_CREDENTIAL_TYPE_SAS_TOKEN then
            (case auth_sas_token a of
               None \<Rightarrow> (SAS_TOKEN_STATUS_FAILED, e)
             | Some t \<Rightarrow>
                 (case os_malloc os e of (ok, e) \<Rightarrow>
                    if \<not> ok then (SAS_TOKEN_STATUS_FAILED, e)
                    else (case SASToken_Validate sas t e of (valid, e) \<Rightarrow>
                      (if \<not> valid then SAS_TOKEN_STATUS_INVALID else SAS_TOKEN_STATUS_VALID, e))))
          else (SAS_TOKEN_STATUS_VALID, e))"

definition IoTHubClient_Auth_Set_SasToken_Expiry ::
  "AUTHORIZATION_DATA option \<Rightarrow> 64 word \<Rightarrow> bool \<times> AUTHORIZATION_DATA option" where
  "IoTHubClient_Auth_Set_SasToken_Expiry handle expiry_time_seconds =
     (case handle of
        None \<Rightarrow> (False, handle)
      | Some a \<Rightarrow>
          if expiry_time_seconds < MIN_SAS_EXPIRY_TIME then (False, handle)
          else (True, Some (a\<lparr>token_expiry_time_sec := expiry_time_seconds\<rparr>)))"

definition IoTHubClient_Auth_Get_SasToken_Expiry :: "AUTHORIZATION_DATA option \<Rightarrow> 64 word" where
  "IoTHubClient_Auth_Get_SasToken_Expiry handle = (case handle of None \<Rightarrow> 0 | Some a \<Rightarrow> token_expiry_time_sec a)"

text \<open>The strings that IoTHubClient\_Auth\_Destroy frees, in order.\<close>

definition IoTHubClient_Auth_Destroy :: "AUTHORIZATION_DATA option \<Rightarrow> string list" where
  "IoTHubClient_Auth_Destroy handle =
     (case handle of
        None \<Rightarrow> []
      | Some a \<Rightarrow> concat (map (\<lambda>p. case p of None \<Rightarrow> [] | Some s \<Rightarrow> [s])
          [auth_device_key a, Some (auth_device_id a), auth_module_id a, auth_sas_token a]))"
section \<open>The credentials stay coherent\<close>

text \<open>
  What the fields owe the type: a type that needs the provisioning module has its handle, a SAS
  token type has the token, and the expiry is never below the least one.
\<close>

definition credentials_ok :: "AUTHORIZATION_DATA \<Rightarrow> bool" where
  "credentials_ok a \<longleftrightarrow>
     (auth_cred_type a = IOTHUB_CREDENTIAL_TYPE_SAS_TOKEN \<longrightarrow> auth_sas_token a \<noteq> None)
     \<and> (auth_cred_type a \<in> {IOTHUB_CREDENTIAL_TYPE_X509_ECC, IOTHUB_CREDENTIAL_TYPE_DEVICE_AUTH}
          \<longrightarrow> device_auth_handle a \<noteq> None)
     \<and> (auth_sas_token a = None \<or> auth_device_key a = None)
     \<and> MIN_SAS_EXPIRY_TIME \<le> token_expiry_time_sec a"

text \<open>The calls that change an authorization handle.\<close>

datatype auth_setting = SetX509 bool | SetExpiry "64 word"

fun auth_set :: "auth_setting \<Rightarrow> AUTHORIZATION_DATA option \<Rightarrow> AUTHORIZATION_DATA option" where
  "auth_set (SetX509 b) a = snd (IoTHubClient_Auth_Set_x509_Type a b)"
| "auth_set (SetExpiry t) a = snd (IoTHubClient_Auth_Set_SasToken_Expiry a t)"

lemma initialize_auth_client_Some:
  "initialize_auth_client os d m e = (Some a, e') \<Longrightarrow>
     a = \<lparr>auth_sas_token = None, auth_device_key = None, auth_device_id = d, auth_module_id = m,
          token_expiry_time_sec = DEFAULT_SAS_TOKEN_EXPIRY_TIME_SECS,
          auth_cred_type = IOTHUB_CREDENTIAL_TYPE_UNKNOWN, device_auth_handle = None\<rparr>"
  by (auto simp: initialize_auth_client_def or_null_Some malloc_of_Some dest!: copy_field_Some)

lemma create_credentials_ok:
  assumes "IoTHubClient_Auth_Create os sas key dev_id token mod_id e = (Some a, e')"
  shows "credentials_ok a"
  using assms
  by (auto simp: IoTHubClient_Auth_Create_def or_null_Some malloc_of_Some Let_def credentials_ok_def
      MIN_SAS_EXPIRY_TIME_def DEFAULT_SAS_TOKEN_EXPIRY_TIME_SECS_def
      dest!: initialize_auth_client_Some copy_field_Some split: prod.splits option.splits if_splits)

lemma create_from_device_auth_ok:
  assumes "IoTHubClient_Auth_CreateFromDeviceAuth os prov dev_id mod_id e = (Some a, e')"
  shows "credentials_ok a"
  using assms
  by (auto simp: IoTHubClient_Auth_CreateFromDeviceAuth_def or_null_Some Let_def credentials_ok_def
      MIN_SAS_EXPIRY_TIME_def DEFAULT_SAS_TOKEN_EXPIRY_TIME_SECS_def
      dest!: initialize_auth_client_Some split: option.splits if_splits)

lemma auth_set_ok:
  "credentials_ok a \<Longrightarrow> \<exists>a'. auth_set s (Some a) = Some a' \<and> credentials_ok a'
     \<and> auth_device_id a' = auth_device_id a \<and> auth_module_id a' = auth_module_id a
     \<and> auth_device_key a' = auth_device_key a \<and> auth_sas_token a' = auth_sas_token a"
  by (cases s) (auto simp: IoTHubClient_Auth_Set_x509_Type_def IoTHubClient_Auth_Set_SasToken_Expiry_def
      credentials_ok_def Let_def)

lemma auth_sets_ok:
  "credentials_ok a \<Longrightarrow> \<exists>a'. fold auth_set ss (Some a) = Some a' \<and> credentials_ok a'
     \<and> auth_device_id a' = auth_device_id a \<and> auth_module_id a' = auth_module_id a
     \<and> auth_device_key a' = auth_device_key a \<and> auth_sas_token a' = auth_sas_token a"
proof (induction ss arbitrary: a)
  case (Cons s ss)
  from auth_set_ok [OF Cons.prems, of s] obtain a1 where
    "auth_set s (Some a) = Some a1" "credentials_ok a1" "auth_device_id a1 = auth_device_id a"
    "auth_module_id a1 = auth_module_id a" "auth_device_key a1 = auth_device_key a"
    "auth_sas_token a1 = auth_sas_token a" by blast
  with Cons.IH [of a1] show ?case by simp
qed simp

section \<open>Where a token comes from\<close>

text \<open>
  A token is genuine for a path when it is made of the credentials in the way their type asks:
  the stored token, accepted by SASToken\_Validate; a token signed with the device key for that
  path, or one from the provisioning module for that path, that expires the set time after a
  reading of the clock.
\<close>

definition genuine_token ::
  "('e, 'm) os_scheme \<Rightarrow> ('e, 'n) sas_api_scheme \<Rightarrow> ('e, 'p) prov_api_scheme option \<Rightarrow> AUTHORIZATION_DATA
     \<Rightarrow> string \<Rightarrow> string \<Rightarrow> bool" where
  "genuine_token os sas prov a path k \<longleftrightarrow>
     (case auth_cred_type a of
        IOTHUB_CREDENTIAL_TYPE_SAS_TOKEN \<Rightarrow>
          auth_sas_token a = Some k \<and> (\<exists>e e'. SASToken_Validate sas k e = (True, e'))
      | IOTHUB_CREDENTIAL_TYPE_DEVICE_KEY \<Rightarrow>
          \<exists>now e0 e1 e e'. os_time os e0 = (now, e1) \<and> now \<noteq> INDEFINITE_TIME
            \<and> SASToken_CreateString sas (auth_device_key a) path None
                (of_int now + token_expiry_time_sec a) e = (Some k, e')
      | IOTHUB_CREDENTIAL_TYPE_DEVICE_AUTH \<Rightarrow>
          \<exists>p h c now e0 e1 e e'. prov = Some p \<and> device_auth_handle a = Some h
            \<and> os_time os e0 = (now, e1) \<and> now \<noteq> INDEFINITE_TIME
            \<and> iothub_device_auth_generate_credentials p h
                (Some \<lparr>expiry_seconds = of_int now + token_expiry_time_sec a,
                       token_scope = Some path, sas_key_name = None\<rparr>) e = (Some c, e')
            \<and> k = cred_sas_token c
      | _ \<Rightarrow> False)"

lemma get_seconds_Some:
  "get_seconds_since_epoch os e = (Some s, e') \<Longrightarrow>
     \<exists>now. os_time os e = (now, e') \<and> now \<noteq> INDEFINITE_TIME \<and> s = of_int now"
  by (auto simp: get_seconds_since_epoch_def split: prod.splits if_splits)

lemma Get_SasToken_genuine:
  assumes "IoTHubClient_Auth_Get_SasToken os sas prov (Some a) (Some path) None e = (Some k, e')"
    and "auth_cred_type a \<noteq> IOTHUB_CREDENTIAL_TYPE_SAS_TOKEN"
  shows "genuine_token os sas prov a path k"
proof (cases "auth_cred_type a = IOTHUB_CREDENTIAL_TYPE_DEVICE_AUTH")
  case True
  with assms show ?thesis
    by (auto simp: IoTHubClient_Auth_Get_SasToken_def genuine_token_def or_null_Some malloc_of_Some
        split: option.splits dest!: get_seconds_Some)
next
  case False
  with assms have "auth_cred_type a = IOTHUB_CREDENTIAL_TYPE_DEVICE_KEY"
    by (auto simp: IoTHubClient_Auth_Get_SasToken_def split: if_splits)
  with assms show ?thesis
    by (auto simp: IoTHubClient_Auth_Get_SasToken_def genuine_token_def or_null_Some malloc_of_Some
        dest!: get_seconds_Some)
qed

section \<open>Properties\<close>

text \<open>
  However an authorization handle is created and whatever is set on it, its type never
  promises credentials it does not hold: a SAS token type has a token, a provisioning type has the
  handle of the module, a key and a token are never held together, the expiry is at least
  MIN\_SAS\_EXPIRY\_TIME, and the identity and the secrets are those of its creation.
\<close>

theorem credentials_stay_coherent:
  assumes "IoTHubClient_Auth_Create os sas key dev_id token mod_id e = (Some a, e')
    \<or> IoTHubClient_Auth_CreateFromDeviceAuth os prov dev_id mod_id e = (Some a, e')"
  shows "\<exists>a'. fold auth_set ss (Some a) = Some a' \<and> credentials_ok a'
    \<and> auth_device_id a' = auth_device_id a \<and> auth_module_id a' = auth_module_id a
    \<and> auth_device_key a' = auth_device_key a \<and> auth_sas_token a' = auth_sas_token a"
  using assms by (intro auth_sets_ok) (auto intro: create_credentials_ok create_from_device_auth_ok)

definition example_sas :: "script sas_api" where
  "example_sas = \<lparr>Azure_Base64_Decode = (\<lambda>s e. (Some s, e)),
     SASToken_CreateString = (\<lambda>key scope name t e. (map_option (\<lambda>k. k @ scope) key, e)),
     SASToken_Validate = (\<lambda>t e. (True, e)), xio_setoption = (\<lambda>o1 v e. (True, e))\<rparr>"

definition example_auth :: AUTHORIZATION_DATA where
  "example_auth = \<lparr>auth_sas_token = None, auth_device_key = Some ''key'', auth_device_id = ''d'',
     auth_module_id = None, token_expiry_time_sec = 3600,
     auth_cred_type = IOTHUB_CREDENTIAL_TYPE_DEVICE_KEY, device_auth_handle = None\<rparr>"

lemma example_auth_created:
  "IoTHubClient_Auth_Create script_os example_sas (Some ''key'') (Some ''d'') None None plain_env =
     (Some example_auth, plain_env\<lparr>allocs := 3\<rparr>)"
  by (simp add: IoTHubClient_Auth_Create_def initialize_auth_client_def or_null_def malloc_of_def
      copy_field_def example_sas_def example_auth_def script_os_def plain_env_def Let_def
      DEFAULT_SAS_TOKEN_EXPIRY_TIME_SECS_def)

theorem credentials_stay_coherent_witness:
  "\<exists>a'. fold auth_set [SetX509 True, SetExpiry 3, SetX509 False, SetExpiry 60] (Some example_auth) = Some a'
    \<and> credentials_ok a' \<and> token_expiry_time_sec a' = 60"
proof -
  have "\<exists>a'. fold auth_set [SetX509 True, SetExpiry 3, SetX509 False, SetExpiry 60] (Some example_auth) = Some a'
    \<and> credentials_ok a'"
    using credentials_stay_coherent [OF disjI1 [OF example_auth_created]] by blast
  moreover have "token_expiry_time_sec (the (fold auth_set
      [SetX509 True, SetExpiry 3, SetX509 False, SetExpiry 60] (Some example_auth))) = 60"
    by (simp add: IoTHubClient_Auth_Set_x509_Type_def IoTHubClient_Auth_Set_SasToken_Expiry_def
        example_auth_def MIN_SAS_EXPIRY_TIME_def Let_def)
  ultimately show ?thesis by auto
qed

end
