(* ===== verification/Options.thy ===== *)
theory Options
  imports Sdk_Prelude
begin

text \<open>
  The options interface that several components share. A component saves its settings as named
  values in an OPTIONHANDLER\_HANDLE (azure\_c\_shared\_utility/optionhandler.h, not part of this
  repository, here an argument), and takes them back one by one through its set-option function.
  The locale states what the two functions of a component owe each other; each component that
  saves options interprets it.
\<close>

text \<open>
  The option handler: None of Create is NULL, a false answer of AddOption is a result other than
  OPTIONHANDLER\_OK.
\<close>

record ('oh, 'v, 'e) option_api =
  OptionHandler_Create :: "'e \<Rightarrow> 'oh option \<times> 'e"
  OptionHandler_AddOption :: "'oh \<Rightarrow> string \<Rightarrow> 'v \<Rightarrow> 'e \<Rightarrow> bool \<times> 'oh \<times> 'e"
  OptionHandler_Destroy :: "'oh \<Rightarrow> 'e \<Rightarrow> 'e"

text \<open>Add options one by one; at the first failure destroy the handler and answer NULL.\<close>

fun add_options ::
  "('oh, 'v, 'e, 'm) option_api_scheme \<Rightarrow> (string \<times> 'v) list \<Rightarrow> 'oh \<Rightarrow> 'e \<Rightarrow> 'oh option \<times> 'e" where
  "add_options api [] h e = (Some h, e)"
| "add_options api ((name, v) # opts) h e =
     (case OptionHandler_AddOption api h name v e of
        (ok, h, e) \<Rightarrow>
          if ok then add_options api opts h e else (None, OptionHandler_Destroy api h e))"

definition create_and_add ::
  "('oh, 'v, 'e, 'm) option_api_scheme \<Rightarrow> (string \<times> 'v) list \<Rightarrow> 'e \<Rightarrow> 'oh option \<times> 'e" where
  "create_and_add api opts e =
     (case OptionHandler_Create api e of
        (None, e) \<Rightarrow> (None, e)
      | (Some h, e) \<Rightarrow> add_options api opts h e)"

text \<open>Setting options in order, up to the first one that is refused.\<close>

fun feed :: "('s \<Rightarrow> string \<Rightarrow> 'v \<Rightarrow> bool \<times> 's) \<Rightarrow> (string \<times> 'v) list \<Rightarrow> 's \<Rightarrow> bool \<times> 's" where
  "feed setopt [] s = (True, s)"
| "feed setopt ((name, v) # opts) s =
     (case setopt s name v of (ok, s) \<Rightarrow> if ok then feed setopt opts s else (False, s))"

locale option_owner =
  fixes setopt :: "'s \<Rightarrow> string \<Rightarrow> 'v \<Rightarrow> bool \<times> 's"
    and saved :: "'s \<Rightarrow> (string \<times> 'v) list"
    and names :: "string list"
    and valid :: "'s \<Rightarrow> bool"
  assumes saved_names: "map fst (saved s) = names"
    and distinct_names: "distinct names"
    and set_saved: "valid s \<Longrightarrow> (name, v) \<in> set (saved s) \<Longrightarrow> fst (setopt s' name v)"
    and set_changes: "setopt s' name v = (True, s'') \<Longrightarrow>
        name \<in> set names \<Longrightarrow> map_of (saved s'') = (map_of (saved s'))(name \<mapsto> v)"
    and set_valid: "valid s \<Longrightarrow> valid (snd (setopt s name v))"
begin

lemma saved_eqI:
  assumes "map_of (saved s) = map_of (saved s')"
  shows "saved s = saved s'"
proof (rule nth_equalityI)
  show len: "length (saved s) = length (saved s')"
    using saved_names by (metis length_map)
  fix i assume i: "i < length (saved s)"
  have d: "distinct (map fst (saved s))" "distinct (map fst (saved s'))"
    by (simp_all add: saved_names distinct_names)
  have n: "fst (saved s ! i) = fst (saved s' ! i)"
    using i len saved_names by (metis nth_map)
  have "map_of (saved s) (fst (saved s ! i)) = Some (snd (saved s ! i))"
    using i d(1) by (simp add: map_of_eq_Some_iff)
  moreover have "map_of (saved s') (fst (saved s' ! i)) = Some (snd (saved s' ! i))"
    using i len d(2) by (simp add: map_of_eq_Some_iff)
  ultimately have "snd (saved s ! i) = snd (saved s' ! i)" using assms n by simp
  with n show "saved s ! i = saved s' ! i" by (rule prod_eqI)
qed

lemma feed_changes:
  assumes "valid s" "set opts \<subseteq> set (saved s)" "distinct (map fst opts)"
  shows "fst (feed setopt opts s')
    \<and> map_of (saved (snd (feed setopt opts s'))) = map_of (saved s') ++ map_of opts"
  using assms(2,3)
proof (induction opts arbitrary: s')
  case (Cons o1 opts)
  obtain name v where o1: "o1 = (name, v)" by (cases o1)
  obtain ok s'' where st: "setopt s' name v = (ok, s'')" by (cases "setopt s' name v")
  have mem: "(name, v) \<in> set (saved s)" using Cons.prems(1) o1 by simp
  then have ok using set_saved [OF assms(1) mem, of s'] st by simp
  have "name \<in> set names" using mem saved_names [of s] by (metis fst_conv image_eqI list.set_map)
  with \<open>ok\<close> have ch: "map_of (saved s'') = (map_of (saved s'))(name \<mapsto> v)" using set_changes st by simp
  have "name \<notin> set (map fst opts)" using Cons.prems(2) o1 by simp
  then have "map_of opts name = None" by (simp add: map_of_eq_None_iff)
  then have "(map_of (saved s'))(name \<mapsto> v) ++ map_of opts = map_of (saved s') ++ map_of (o1 # opts)"
    by (intro ext) (simp add: map_add_def o1 split: option.splits)
  with Cons \<open>ok\<close> ch show ?case by (simp add: o1 st del: map_of.simps)
qed simp

text \<open>Feeding the saved options to any instance makes its settings those that were saved.\<close>

lemma feed_saved:
  assumes "valid s"
  shows "fst (feed setopt (saved s) s') \<and> saved (snd (feed setopt (saved s) s')) = saved s"
proof -
  have f: "fst (feed setopt (saved s) s')
      \<and> map_of (saved (snd (feed setopt (saved s) s'))) = map_of (saved s') ++ map_of (saved s)"
    by (rule feed_changes [OF assms]) (simp_all add: saved_names distinct_names)
  have "dom (map_of (saved s')) = dom (map_of (saved s))"
    by (metis dom_map_of_conv_image_fst list.set_map saved_names)
  then have "map_of (saved s') ++ map_of (saved s) = map_of (saved s)"
    by (intro ext) (metis domIff map_add_None map_add_dom_app_simps(1))
  with f show ?thesis using saved_eqI by simp
qed

text \<open>Feeding any options, accepted or not, keeps an instance valid.\<close>

lemma feed_valid: "valid s \<Longrightarrow> valid (snd (feed setopt opts s))"
proof (induction opts arbitrary: s)
  case (Cons o1 opts)
  obtain name v where o1: "o1 = (name, v)" by (cases o1)
  have "valid (snd (setopt s name v))" using Cons.prems by (rule set_valid)
  with Cons.IH show ?case by (simp add: o1 split: prod.split) (metis snd_conv)
qed simp

end

end
