(* ===== verification/RetryControl.thy ===== *)
theory RetryControl
  imports Complex_Main Options
begin

text \<open>
  The retry control of the client (iothub\_client/src/iothub\_client\_retry\_control.c): whether to
  try a connection again now, later or never, and how long to wait. Unsigned ints are 32-bit
  words, times are integers with -1 for INDEFINITE\_TIME. Floating point is exact rational
  arithmetic with a rounding function \<open>fl\<close> applied to each result that can be inexact; a conversion
  to unsigned int that does not fit is \<^const>\<open>Fault\<close>.
\<close>

section \<open>Data\<close>

datatype IOTHUB_CLIENT_RETRY_POLICY =
  IOTHUB_CLIENT_RETRY_NONE | IOTHUB_CLIENT_RETRY_IMMEDIATE | IOTHUB_CLIENT_RETRY_INTERVAL
| IOTHUB_CLIENT_RETRY_LINEAR_BACKOFF | IOTHUB_CLIENT_RETRY_EXPONENTIAL_BACKOFF
| IOTHUB_CLIENT_RETRY_EXPONENTIAL_BACKOFF_WITH_JITTER | IOTHUB_CLIENT_RETRY_RANDOM

datatype RETRY_ACTION =
  RETRY_ACTION_RETRY_NOW | RETRY_ACTION_RETRY_LATER | RETRY_ACTION_STOP_RETRYING

type_synonym uint = "32 word"


record RETRY_CONTROL_INSTANCE =
  policy :: IOTHUB_CLIENT_RETRY_POLICY
  max_retry_time_in_secs :: uint
  initial_wait_time_in_secs :: uint
  max_jitter_percent :: uint
  max_delay_in_secs :: uint
  retry_count :: uint
  first_retry_time :: int
  last_retry_time :: int
  current_wait_time_in_secs :: uint

text \<open>
  The arithmetic of doubles: the rounding and RAND\_MAX. A rounding is monotone and leaves
  integers up to 2 to the 53 alone, and the random source stays within RAND\_MAX.
\<close>

record fp =
  fl :: "rat \<Rightarrow> rat"
  RAND_MAX :: nat



text \<open>The conversion (unsigned int) of a double that is not negative.\<close>

definition to_uint :: "rat \<Rightarrow> uint run" where
  "to_uint x = (if \<lfloor>x\<rfloor> < 2 ^ 32 then Done (of_int \<lfloor>x\<rfloor>) else Fault)"

section \<open>Operations\<close>

text \<open>The first component of a result is whether it is RESULT\_OK.\<close>

definition evaluate_retry_action ::
  "('e, 'm) os_scheme \<Rightarrow> RETRY_CONTROL_INSTANCE \<Rightarrow> 'e \<Rightarrow> bool \<times> RETRY_ACTION option \<times> 'e" where
  "evaluate_retry_action os rc e =
     (if retry_count rc = 0 then (True, Some RETRY_ACTION_RETRY_NOW, e)
      else if last_retry_time rc = INDEFINITE_TIME \<and> policy rc \<noteq> IOTHUB_CLIENT_RETRY_IMMEDIATE
        then (False, None, e)
      else (case os_time os e of (current_time, e) \<Rightarrow>
        if current_time = INDEFINITE_TIME then (False, None, e)
        else if 0 < max_retry_time_in_secs rc
             \<and> current_time - first_retry_time rc \<ge> uint (max_retry_time_in_secs rc)
          then (True, Some RETRY_ACTION_STOP_RETRYING, e)
        else if policy rc = IOTHUB_CLIENT_RETRY_IMMEDIATE then (True, Some RETRY_ACTION_RETRY_NOW, e)
        else if current_time - last_retry_time rc < uint (current_wait_time_in_secs rc)
          then (True, Some RETRY_ACTION_RETRY_LATER, e)
        else (True, Some RETRY_ACTION_RETRY_NOW, e)))"

text \<open>
  pow(2, retry\_count - 1) times the initial wait, and the clamp to the maximal delay. Powers of
  two times a 32-bit integer are exact doubles until they overflow to infinity, and there as here
  the comparison takes the maximal delay.
\<close>

definition exponential_delay :: "RETRY_CONTROL_INSTANCE \<Rightarrow> nat" where
  "exponential_delay rc =
     (let base_delay = 2 ^ unat (retry_count rc - 1) * unat (initial_wait_time_in_secs rc)
      in if base_delay > unat (max_delay_in_secs rc) then unat (max_delay_in_secs rc) else base_delay)"

definition calculate_next_wait_time ::
  "'f fp_scheme \<Rightarrow> ('e, 'm) os_scheme \<Rightarrow> RETRY_CONTROL_INSTANCE \<Rightarrow> 'e \<Rightarrow> (uint \<times> 'e) run" where
  "calculate_next_wait_time c os rc e =
     (case policy rc of
        IOTHUB_CLIENT_RETRY_INTERVAL \<Rightarrow> Done (initial_wait_time_in_secs rc, e)
      | IOTHUB_CLIENT_RETRY_LINEAR_BACKOFF \<Rightarrow>
          let base_delay = initial_wait_time_in_secs rc * retry_count rc
          in Done (if base_delay > max_delay_in_secs rc then max_delay_in_secs rc else base_delay, e)
      | IOTHUB_CLIENT_RETRY_EXPONENTIAL_BACKOFF \<Rightarrow>
          run_bind (to_uint (of_nat (exponential_delay rc))) (\<lambda>w. Done (w, e))
      | IOTHUB_CLIENT_RETRY_EXPONENTIAL_BACKOFF_WITH_JITTER \<Rightarrow>
          (case os_rand os e of (r, e) \<Rightarrow>
           let jitter_percent = fl c (fl c (of_nat (unat (max_jitter_percent rc)) / 100)
                                 * fl c (of_nat r / of_nat (RAND_MAX c)))
           in run_bind (to_uint (fl c (of_nat (exponential_delay rc) * fl c (1 + jitter_percent))))
                (\<lambda>w. Done (w, e)))
      | IOTHUB_CLIENT_RETRY_RANDOM \<Rightarrow>
          (case os_rand os e of (r, e) \<Rightarrow>
           let random_percent = fl c (of_nat r / of_nat (RAND_MAX c))
           in run_bind (to_uint (fl c (of_nat (unat (initial_wait_time_in_secs rc)) * random_percent)))
                (\<lambda>w. Done (w, e)))
      | _ \<Rightarrow> Done (0, e))"

text \<open>The third argument is whether the caller passed a place for the answer.\<close>

definition is_timeout_reached ::
  "('e, 'm) os_scheme \<Rightarrow> int \<Rightarrow> uint \<Rightarrow> bool \<Rightarrow> 'e \<Rightarrow> bool \<times> bool option \<times> 'e" where
  "is_timeout_reached os start_time timeout_in_secs is_timed_out e =
     (if start_time = INDEFINITE_TIME then (False, None, e)
      else if \<not> is_timed_out then (False, None, e)
      else (case os_time os e of (current_time, e) \<Rightarrow>
        if current_time = INDEFINITE_TIME then (False, None, e)
        else (True, Some (current_time - start_time \<ge> uint timeout_in_secs), e)))"



text \<open>Whether retry\_control\_destroy frees its argument.\<close>

definition retry_control_destroy :: "RETRY_CONTROL_INSTANCE option \<Rightarrow> bool" where
  "retry_control_destroy handle \<longleftrightarrow> handle \<noteq> None"

definition retry_control_should_retry ::
  "'f fp_scheme \<Rightarrow> ('e, 'm) os_scheme \<Rightarrow> RETRY_CONTROL_INSTANCE option \<Rightarrow> bool \<Rightarrow> 'e
     \<Rightarrow> (bool \<times> RETRY_ACTION option \<times> RETRY_CONTROL_INSTANCE option \<times> 'e) run" where
  "retry_control_should_retry c os handle retry_action e =
     (case handle of
        None \<Rightarrow> Done (False, None, handle, e)
      | Some rc \<Rightarrow>
          if \<not> retry_action then Done (False, None, handle, e)
          else if policy rc = IOTHUB_CLIENT_RETRY_NONE
            then Done (True, Some RETRY_ACTION_STOP_RETRYING, handle, e)
          else (case (if first_retry_time rc = INDEFINITE_TIME
                      then (case os_time os e of (t, e) \<Rightarrow> (rc\<lparr>first_retry_time := t\<rparr>, e))
                      else (rc, e)) of (rc, e) \<Rightarrow>
            if first_retry_time rc = INDEFINITE_TIME then Done (False, None, Some rc, e)
            else (case evaluate_retry_action os rc e of (ok, action, e) \<Rightarrow>
              if \<not> ok then Done (False, None, Some rc, e)
              else if action = Some RETRY_ACTION_RETRY_NOW then
                let rc = rc\<lparr>retry_count := retry_count rc + 1\<rparr> in
                if policy rc \<noteq> IOTHUB_CLIENT_RETRY_IMMEDIATE then
                  (case os_time os e of (t, e) \<Rightarrow>
                     let rc = rc\<lparr>last_retry_time := t\<rparr> in
                     run_bind (calculate_next_wait_time c os rc e) (\<lambda>(w, e).
                       Done (True, action, Some (rc\<lparr>current_wait_time_in_secs := w\<rparr>), e)))
                else Done (True, action, Some rc, e)
              else Done (True, action, Some rc, e))))"

subsection \<open>Options\<close>

definition RETRY_CONTROL_OPTION_INITIAL_WAIT_TIME_IN_SECS :: string where
  "RETRY_CONTROL_OPTION_INITIAL_WAIT_TIME_IN_SECS = ''initial_wait_time_in_secs''"

definition RETRY_CONTROL_OPTION_MAX_JITTER_PERCENT :: string where
  "RETRY_CONTROL_OPTION_MAX_JITTER_PERCENT = ''max_jitter_percent''"

definition RETRY_CONTROL_OPTION_MAX_DELAY_IN_SECS :: string where
  "RETRY_CONTROL_OPTION_MAX_DELAY_IN_SECS = ''max_delay_in_secs''"

definition RETRY_CONTROL_OPTION_SAVED_OPTIONS :: string where
  "RETRY_CONTROL_OPTION_SAVED_OPTIONS = ''retry_control_saved_options''"

text \<open>
  The value of an option is an unsigned int or, for the saved options, an option handler, which
  feeds the options it stores back through retry\_control\_set\_option; what it stores are unsigned
  ints, the only values retry\_control\_clone\_option copies.
\<close>

datatype option_value = UIntValue uint | HandlerValue "(string \<times> uint) list"

definition rc_clone_option ::
  "('e, 'm) os_scheme \<Rightarrow> string option \<Rightarrow> uint option \<Rightarrow> 'e \<Rightarrow> uint option \<times> 'e" where
  "rc_clone_option os name v e =
     (case (name, v) of
        (Some n, Some x) \<Rightarrow>
          if n = RETRY_CONTROL_OPTION_INITIAL_WAIT_TIME_IN_SECS
             \<or> n = RETRY_CONTROL_OPTION_MAX_JITTER_PERCENT
          then (case os_malloc os e of (ok, e) \<Rightarrow> (if ok then Some x else None, e))
          else (None, e)
      | _ \<Rightarrow> (None, e))"

definition rc_destroy_option :: "string option \<Rightarrow> uint option \<Rightarrow> bool" where
  "rc_destroy_option name v =
     (case (name, v) of
        (Some n, Some x) \<Rightarrow>
          n = RETRY_CONTROL_OPTION_INITIAL_WAIT_TIME_IN_SECS \<or> n = RETRY_CONTROL_OPTION_MAX_JITTER_PERCENT
      | _ \<Rightarrow> False)"

definition rc_set_uint :: "RETRY_CONTROL_INSTANCE \<Rightarrow> string \<Rightarrow> uint \<Rightarrow> bool \<times> RETRY_CONTROL_INSTANCE" where
  "rc_set_uint rc name cast_value =
     (if name = RETRY_CONTROL_OPTION_INITIAL_WAIT_TIME_IN_SECS then
        if cast_value < 1 then (False, rc) else (True, rc\<lparr>initial_wait_time_in_secs := cast_value\<rparr>)
      else if name = RETRY_CONTROL_OPTION_MAX_JITTER_PERCENT then
        if cast_value > 100 then (False, rc) else (True, rc\<lparr>max_jitter_percent := cast_value\<rparr>)
      else if name = RETRY_CONTROL_OPTION_MAX_DELAY_IN_SECS then
        (True, rc\<lparr>max_delay_in_secs := cast_value\<rparr>)
      else (False, rc))"

definition retry_control_set_option ::
  "RETRY_CONTROL_INSTANCE option \<Rightarrow> string option \<Rightarrow> option_value option
     \<Rightarrow> bool \<times> RETRY_CONTROL_INSTANCE option" where
  "retry_control_set_option handle name v =
     (case (handle, name, v) of
        (Some rc, Some n, Some (UIntValue x)) \<Rightarrow>
          (case rc_set_uint rc n x of (ok, rc) \<Rightarrow> (ok, Some rc))
      | (Some rc, Some n, Some (HandlerValue stored)) \<Rightarrow>
          if n = RETRY_CONTROL_OPTION_SAVED_OPTIONS then
            (case feed rc_set_uint stored rc of (ok, rc) \<Rightarrow> (ok, Some rc))
          else (False, handle)
      | _ \<Rightarrow> (False, handle))"

definition rc_saved :: "RETRY_CONTROL_INSTANCE \<Rightarrow> (string \<times> uint) list" where
  "rc_saved rc =
     [(RETRY_CONTROL_OPTION_INITIAL_WAIT_TIME_IN_SECS, initial_wait_time_in_secs rc),
      (RETRY_CONTROL_OPTION_MAX_JITTER_PERCENT, max_jitter_percent rc)]"

definition retry_control_retrieve_options ::
  "('oh, uint, 'e, 'a) option_api_scheme \<Rightarrow> RETRY_CONTROL_INSTANCE option \<Rightarrow> 'e \<Rightarrow> 'oh option \<times> 'e" where
  "retry_control_retrieve_options api handle e =
     (case handle of None \<Rightarrow> (None, e) | Some rc \<Rightarrow> create_and_add api (rc_saved rc) e)"

lemma one_le_word: "(v :: uint) \<noteq> 0 \<Longrightarrow> 1 \<le> v"
  by (simp add: word_le_nat_alt Suc_le_eq unat_gt_0)


text \<open>The settings every operation keeps within range.\<close>

definition rc_valid :: "RETRY_CONTROL_INSTANCE \<Rightarrow> bool" where
  "rc_valid rc \<longleftrightarrow> 1 \<le> initial_wait_time_in_secs rc \<and> max_jitter_percent rc \<le> 100"

lemma rc_option_names_differ [simp]:
  "RETRY_CONTROL_OPTION_INITIAL_WAIT_TIME_IN_SECS \<noteq> RETRY_CONTROL_OPTION_MAX_JITTER_PERCENT"
  "RETRY_CONTROL_OPTION_MAX_JITTER_PERCENT \<noteq> RETRY_CONTROL_OPTION_INITIAL_WAIT_TIME_IN_SECS"
  "RETRY_CONTROL_OPTION_INITIAL_WAIT_TIME_IN_SECS \<noteq> RETRY_CONTROL_OPTION_MAX_DELAY_IN_SECS"
  "RETRY_CONTROL_OPTION_MAX_DELAY_IN_SECS \<noteq> RETRY_CONTROL_OPTION_INITIAL_WAIT_TIME_IN_SECS"
  "RETRY_CONTROL_OPTION_MAX_JITTER_PERCENT \<noteq> RETRY_CONTROL_OPTION_MAX_DELAY_IN_SECS"
  "RETRY_CONTROL_OPTION_MAX_DELAY_IN_SECS \<noteq> RETRY_CONTROL_OPTION_MAX_JITTER_PERCENT"
  by (simp_all add: RETRY_CONTROL_OPTION_INITIAL_WAIT_TIME_IN_SECS_def
      RETRY_CONTROL_OPTION_MAX_JITTER_PERCENT_def RETRY_CONTROL_OPTION_MAX_DELAY_IN_SECS_def)

interpretation rc_options: option_owner rc_set_uint rc_saved
  "[RETRY_CONTROL_OPTION_INITIAL_WAIT_TIME_IN_SECS, RETRY_CONTROL_OPTION_MAX_JITTER_PERCENT]" rc_valid
proof
  fix s s' s'' name v
  show "map fst (rc_saved s) =
      [RETRY_CONTROL_OPTION_INITIAL_WAIT_TIME_IN_SECS, RETRY_CONTROL_OPTION_MAX_JITTER_PERCENT]"
    by (simp add: rc_saved_def)
  show "distinct [RETRY_CONTROL_OPTION_INITIAL_WAIT_TIME_IN_SECS, RETRY_CONTROL_OPTION_MAX_JITTER_PERCENT]"
    by simp
  show "rc_valid s \<Longrightarrow> (name, v) \<in> set (rc_saved s) \<Longrightarrow> fst (rc_set_uint s' name v)"
    by (auto simp: rc_saved_def rc_set_uint_def rc_valid_def not_less not_le)
  show "rc_set_uint s' name v = (True, s'') \<Longrightarrow>
      name \<in> set [RETRY_CONTROL_OPTION_INITIAL_WAIT_TIME_IN_SECS, RETRY_CONTROL_OPTION_MAX_JITTER_PERCENT] \<Longrightarrow>
      map_of (rc_saved s'') = (map_of (rc_saved s'))(name \<mapsto> v)"
    by (auto simp: rc_saved_def rc_set_uint_def fun_eq_iff split: if_splits)
  show "rc_valid s \<Longrightarrow> rc_valid (snd (rc_set_uint s name v))"
    by (auto simp: rc_set_uint_def rc_valid_def not_less not_le one_le_word)
qed

section \<open>The next wait\<close>




lemma exponential_delay_eq:
  "exponential_delay rc =
     min (2 ^ unat (retry_count rc - 1) * unat (initial_wait_time_in_secs rc)) (unat (max_delay_in_secs rc))"
  by (simp add: exponential_delay_def Let_def min_def)






section \<open>Runs of a retry control\<close>

text \<open>
  A retry control used over time: each question comes at a time, the clock answering that time
  during the question; between questions it may be reset. The outputs are the state before each
  question, its time, and the answer.
\<close>

definition at_time :: "('e, 'm) os_scheme \<Rightarrow> int \<Rightarrow> ('e, 'm) os_scheme" where
  "at_time os now = os\<lparr>os_time := (\<lambda>e. (now, e))\<rparr>"









lemma os_time_at_time [simp]: "os_time (at_time os now) e = (now, e)"
  by (simp add: at_time_def)





section \<open>Properties\<close>


text \<open>Doubles without rounding, for examples.\<close>

definition exact_fp :: fp where
  "exact_fp = \<lparr>fl = (\<lambda>x. x), RAND_MAX = 32767\<rparr>"


definition always_max_os :: "unit os" where
  "always_max_os = happy_os\<lparr>os_rand := (\<lambda>e. (32767, e))\<rparr>"



definition example_control :: RETRY_CONTROL_INSTANCE where
  "example_control = \<lparr>policy = IOTHUB_CLIENT_RETRY_EXPONENTIAL_BACKOFF, max_retry_time_in_secs = 100,
     initial_wait_time_in_secs = 1, max_jitter_percent = 5, max_delay_in_secs = 30, retry_count = 0,
     first_retry_time = INDEFINITE_TIME, last_retry_time = INDEFINITE_TIME, current_wait_time_in_secs = 0\<rparr>"





text \<open>
  Options saved from a retry control with settings in range are all accepted by any other and
  give it the same initial wait and jitter.
\<close>

theorem rc_options_roundtrip:
  assumes "rc_valid rc"
  shows "fst (feed rc_set_uint (rc_saved rc) rc')
    \<and> initial_wait_time_in_secs (snd (feed rc_set_uint (rc_saved rc) rc')) = initial_wait_time_in_secs rc
    \<and> max_jitter_percent (snd (feed rc_set_uint (rc_saved rc) rc')) = max_jitter_percent rc"
  using rc_options.feed_saved [OF assms, of rc'] by (simp add: rc_saved_def)

theorem rc_options_roundtrip_witness:
  "fst (feed rc_set_uint (rc_saved (example_control\<lparr>max_jitter_percent := 100\<rparr>)) example_control)"
  using rc_options_roundtrip [of "example_control\<lparr>max_jitter_percent := 100\<rparr>" example_control]
  by (simp add: rc_valid_def example_control_def)

text \<open>
  The maximal delay is not among the saved options: two controls that differ in it save the
  same options, so restoring them loses it.
\<close>

theorem rc_saved_options_lose_max_delay:
  "rc_saved (rc\<lparr>max_delay_in_secs := d\<rparr>) = rc_saved rc
   \<and> max_delay_in_secs (snd (feed rc_set_uint (rc_saved rc) rc')) = max_delay_in_secs rc'"
  by (simp add: rc_saved_def rc_set_uint_def)

text \<open>
  Linear backoff multiplies in 32 bits: with an initial wait of 2 to the 31 the second retry
  waits 0 seconds.
\<close>

theorem linear_backoff_wraps:
  "calculate_next_wait_time exact_fp always_max_os
     (example_control\<lparr>policy := IOTHUB_CLIENT_RETRY_LINEAR_BACKOFF,
        initial_wait_time_in_secs := 2147483648, retry_count := 2\<rparr>) () = Done (0, ())"
  by (simp add: calculate_next_wait_time_def example_control_def Let_def)

text \<open>
  Jitter is added after the clamp: with the default settings the wait can exceed the maximal
  delay of 30 seconds.
\<close>

theorem jitter_exceeds_max_delay:
  "calculate_next_wait_time exact_fp always_max_os
     (example_control\<lparr>policy := IOTHUB_CLIENT_RETRY_EXPONENTIAL_BACKOFF_WITH_JITTER, retry_count := 9\<rparr>) ()
   = Done (31, ())"
proof -
  have "\<lfloor>63 / 2 :: rat\<rfloor> = 31" by (simp add: floor_eq_iff)
  then show ?thesis
    by (simp add: calculate_next_wait_time_def example_control_def Let_def always_max_os_def exact_fp_def
        exponential_delay_eq to_uint_def)
qed

text \<open>
  When the clock fails at the moment a retry is granted, every later question fails until the
  control is reset, although the clock works again; only the immediate policy goes on.
\<close>

theorem lost_clock_blocks_retries:
  assumes "policy rc \<noteq> IOTHUB_CLIENT_RETRY_NONE" "policy rc \<noteq> IOTHUB_CLIENT_RETRY_IMMEDIATE"
    "retry_count rc \<noteq> 0" "first_retry_time rc \<noteq> INDEFINITE_TIME" "last_retry_time rc = INDEFINITE_TIME"
  shows "retry_control_should_retry c os (Some rc) True e = Done (False, None, Some rc, e)"
  using assms by (simp add: retry_control_should_retry_def evaluate_retry_action_def)

theorem lost_clock_blocks_retries_witness:
  "retry_control_should_retry exact_fp happy_os
     (Some (example_control\<lparr>retry_count := 1, first_retry_time := 5\<rparr>)) True () =
   Done (False, None, Some (example_control\<lparr>retry_count := 1, first_retry_time := 5\<rparr>), ())"
  by (rule lost_clock_blocks_retries) (simp_all add: example_control_def INDEFINITE_TIME_def)

end
