(* ===== verification/ClientHandle.thy ===== *)
theory ClientHandle
  imports LinkedList Diagnostic Authorization RetryControl
begin

text \<open>
  The client core, lower layer (iothub\_client/src/iothub\_client\_core\_ll.c): the data of a client
  handle, and what it stands between, the transport below and the user's callbacks above.
  The operations are in ClientInputs, ClientQueues and ClientCore.
\<close>

section \<open>Results, states and reasons\<close>

datatype IOTHUB_CLIENT_RESULT =
  IOTHUB_CLIENT_OK | IOTHUB_CLIENT_INVALID_ARG | IOTHUB_CLIENT_ERROR | IOTHUB_CLIENT_INVALID_SIZE
| IOTHUB_CLIENT_INDEFINITE_TIME

datatype IOTHUB_CLIENT_STATUS = IOTHUB_CLIENT_SEND_STATUS_IDLE | IOTHUB_CLIENT_SEND_STATUS_BUSY

datatype IOTHUB_PROCESS_ITEM_RESULT =
  IOTHUB_PROCESS_OK | IOTHUB_PROCESS_ERROR | IOTHUB_PROCESS_NOT_CONNECTED | IOTHUB_PROCESS_CONTINUE

datatype IOTHUBMESSAGE_DISPOSITION_RESULT =
  IOTHUBMESSAGE_ACCEPTED | IOTHUBMESSAGE_REJECTED | IOTHUBMESSAGE_ABANDONED

datatype IOTHUB_CLIENT_CONFIRMATION_RESULT =
  IOTHUB_CLIENT_CONFIRMATION_OK | IOTHUB_CLIENT_CONFIRMATION_BECAUSE_DESTROY
| IOTHUB_CLIENT_CONFIRMATION_MESSAGE_TIMEOUT | IOTHUB_CLIENT_CONFIRMATION_ERROR

datatype IOTHUB_CLIENT_CONNECTION_STATUS =
  IOTHUB_CLIENT_CONNECTION_AUTHENTICATED | IOTHUB_CLIENT_CONNECTION_UNAUTHENTICATED

datatype IOTHUB_CLIENT_CONNECTION_STATUS_REASON =
  IOTHUB_CLIENT_CONNECTION_EXPIRED_SAS_TOKEN | IOTHUB_CLIENT_CONNECTION_DEVICE_DISABLED
| IOTHUB_CLIENT_CONNECTION_BAD_CREDENTIAL | IOTHUB_CLIENT_CONNECTION_RETRY_EXPIRED
| IOTHUB_CLIENT_CONNECTION_NO_NETWORK | IOTHUB_CLIENT_CONNECTION_COMMUNICATION_ERROR
| IOTHUB_CLIENT_CONNECTION_OK | IOTHUB_CLIENT_CONNECTION_NO_PING_RESPONSE

datatype DEVICE_TWIN_UPDATE_STATE = DEVICE_TWIN_UPDATE_COMPLETE | DEVICE_TWIN_UPDATE_PARTIAL

datatype CALLBACK_TYPE = CALLBACK_TYPE_NONE | CALLBACK_TYPE_SYNC | CALLBACK_TYPE_ASYNC

section \<open>What the handle holds\<close>

text \<open>
  A callback of the user is a number, None being NULL; a context is a number, 0 being NULL.
  Payloads are the bytes they hold.
\<close>

record IOTHUB_METHOD_CALLBACK_DATA =
  method_type :: CALLBACK_TYPE
  method_callbackSync :: "nat option"
  method_callbackAsync :: "nat option"
  method_userContext :: nat

record IOTHUB_MESSAGE_CALLBACK_DATA =
  msg_type :: CALLBACK_TYPE
  msg_callbackSync :: "nat option"
  msg_callbackAsync :: "nat option"
  msg_userContext :: nat

text \<open>A handler of one input. Its extended context is a copy of the bytes the user gave.\<close>

record IOTHUB_EVENT_CALLBACK =
  handler_inputName :: "string option"
  callbackAsync :: "nat option"
  callbackAsyncEx :: "nat option"
  userContextCallback :: nat
  userContextCallbackEx :: "char list option"

record 'mp IOTHUB_MESSAGE_LIST =
  messageHandle :: "'mp IOTHUB_MESSAGE"
  list_callback :: "nat option"
  list_context :: nat
  ms_timesOutAfter :: "64 word"
  message_timeout_value :: "64 word"

text \<open>A reported state on its way; client\_handle always points back to the client.\<close>

record IOTHUB_DEVICE_TWIN =
  item_id :: "32 word"
  twin_ms_timesOutAfter :: "64 word"
  reported_state_callback :: "nat option"
  report_data :: "char list"
  twin_context :: nat
  twin_device_handle :: nat

record 'mp MESSAGE_CALLBACK_INFO =
  info_messageHandle :: "'mp IOTHUB_MESSAGE option"
  transportContext :: nat

text \<open>The calls of the user's callbacks, in order.\<close>

datatype 'mp client_event =
  EventConfirmed nat IOTHUB_CLIENT_CONFIRMATION_RESULT nat
| ReportedStateDone nat int nat
| TwinUpdated nat DEVICE_TWIN_UPDATE_STATE "char list option" nat
| TwinFetched nat DEVICE_TWIN_UPDATE_STATE "char list" nat
| ConnectionStatusChanged nat IOTHUB_CLIENT_CONNECTION_STATUS IOTHUB_CLIENT_CONNECTION_STATUS_REASON nat
| MessageDelivered nat "'mp IOTHUB_MESSAGE" nat
| MessageDeliveredEx nat "'mp MESSAGE_CALLBACK_INFO" nat
| InputDelivered nat "'mp IOTHUB_MESSAGE" nat
| InputDeliveredEx nat "'mp MESSAGE_CALLBACK_INFO" "char list option"
| MethodCalled nat "string option" "char list option" nat
| MethodCalledEx nat "string option" "char list option" nat nat

text \<open>
  The handle, with the state of the transport it owns or shares, the heap of input handlers and
  the next address malloc hands out for one, the environment, and the user's callbacks called so
  far. The three queues are the lists from the head on.
\<close>

record ('mp, 't, 'l, 'e) CLIENT =
  waitingToSend :: "'mp IOTHUB_MESSAGE_LIST list"
  iot_msg_queue :: "IOTHUB_DEVICE_TWIN list"
  iot_ack_queue :: "IOTHUB_DEVICE_TWIN list"
  transportHandle :: 't
  isSharedTransport :: bool
  deviceHandle :: nat
  messageCallback :: IOTHUB_MESSAGE_CALLBACK_DATA
  methodCallback :: IOTHUB_METHOD_CALLBACK_DATA
  conStatusCallback :: "nat option"
  conStatusUserContextCallback :: nat
  lastMessageReceiveTime :: int
  currentMessageTimeout :: "64 word"
  deviceTwinCallback :: "nat option"
  deviceTwinContextCallback :: nat
  retryPolicy :: IOTHUB_CLIENT_RETRY_POLICY
  retryTimeoutLimitInSeconds :: nat
  data_msg_id :: "32 word"
  complete_twin_update_encountered :: bool
  authorization_module :: "AUTHORIZATION_DATA option"
  product_info :: "string option"
  diagnostic_setting :: DIAGNOSTIC_SETTING_DATA
  event_callbacks :: "'l option"
  model_id :: "string option"
  handlers :: "nat \<rightharpoonup> IOTHUB_EVENT_CALLBACK"
  next_handler :: nat
  env :: 'e
  user_calls :: "'mp client_event list"

section \<open>The transport and the user\<close>

text \<open>
  What a transport calls back (TRANSPORT\_CALLBACKS\_INFO, and on\_get\_device\_twin\_completed with the
  callback and context it was given), and the answers it gets.
\<close>

datatype 'mp client_call =
  SendComplete "'mp IOTHUB_MESSAGE_LIST list" IOTHUB_CLIENT_CONFIRMATION_RESULT
| RetrievePropertyComplete DEVICE_TWIN_UPDATE_STATE "char list option"
| ReportedStateComplete "32 word" int
| ConnectionStatusCallBack IOTHUB_CLIENT_CONNECTION_STATUS IOTHUB_CLIENT_CONNECTION_STATUS_REASON
| GetProductInfo
| GetModelId
| MessageCallbackFromInput "'mp MESSAGE_CALLBACK_INFO option"
| MessageCallback "'mp MESSAGE_CALLBACK_INFO option"
| DeviceMethodComplete "string option" "char list option" nat
| GetTwinCompleted "(nat \<times> nat) option" DEVICE_TWIN_UPDATE_STATE "char list option"

datatype answer = Nothing | ABool bool | AInt int | AString "string option"

text \<open>
  A run of a transport function that may call back: it ends with the list of messages that wait
  and its own state, or calls the client from some state of its own and goes on from the answer
  and the state the client left it in.
\<close>

datatype ('mp, 't) work =
  WorkDone "'mp IOTHUB_MESSAGE_LIST list" 't
| CallBack "'mp client_call" 't "answer \<Rightarrow> 't \<Rightarrow> ('mp, 't) work"

datatype option_value =
  TicksValue "64 word" | Uint32Value "32 word" | SizeValue nat | StringValue string | OtherValue nat

text \<open>What a device handle given to the transport really points to: the device, or the client.\<close>

datatype registered = ToDevice nat | ToClient

text \<open>
  The transport (TRANSPORT\_PROVIDER\_FIELDS) on a state of type \<open>'t\<close>, the tick counter, the platform,
  the upload module, the list library, the property map and the user's answers. Where the code only
  tests a result against 0, the answer is whether it is 0. OPTION\_CURL\_VERBOSE and MU\_FAILURE are
  constants of the shared utility library.
\<close>

record ('mp, 't, 'l, 'li, 'e) client_api =
  c_os :: "'e os"
  c_fl :: "rat \<Rightarrow> rat"
  c_map :: "('mp, 'e) map_api"
  c_lists :: "('l, 'li, 'e) linked_list"
  tickcounter_get_current_ms :: "'e \<Rightarrow> (64 word) option \<times> 'e"
  platform_get_platform_info :: "nat \<Rightarrow> 'e \<Rightarrow> string option \<times> 'e"
  IoTHubClient_LL_UploadToBlob_SetOption :: "string \<Rightarrow> option_value \<Rightarrow> 'e \<Rightarrow> IOTHUB_CLIENT_RESULT \<times> 'e"
  OPTION_CURL_VERBOSE :: string
  MU_FAILURE :: int
  IoTHubTransport_SendMessageDisposition ::
    "'mp MESSAGE_CALLBACK_INFO \<Rightarrow> IOTHUBMESSAGE_DISPOSITION_RESULT \<Rightarrow> 't \<Rightarrow> IOTHUB_CLIENT_RESULT \<times> 't"
  IoTHubTransport_Subscribe_DeviceMethod :: "nat \<Rightarrow> 't \<Rightarrow> bool \<times> 't"
  IoTHubTransport_Unsubscribe_DeviceMethod :: "nat \<Rightarrow> 't \<Rightarrow> 't"
  IoTHubTransport_DeviceMethod_Response :: "nat \<Rightarrow> nat \<Rightarrow> char list option \<Rightarrow> int \<Rightarrow> 't \<Rightarrow> int \<times> 't"
  IoTHubTransport_Subscribe_DeviceTwin :: "'t \<Rightarrow> bool \<times> 't"
  IoTHubTransport_Unsubscribe_DeviceTwin :: "'t \<Rightarrow> 't"
  IoTHubTransport_ProcessItem :: "IOTHUB_DEVICE_TWIN \<Rightarrow> 't \<Rightarrow> IOTHUB_PROCESS_ITEM_RESULT \<times> 't"
  IoTHubTransport_SetOption :: "string \<Rightarrow> option_value \<Rightarrow> 't \<Rightarrow> IOTHUB_CLIENT_RESULT \<times> 't"
  IoTHubTransport_Unregister :: "nat \<Rightarrow> 'mp IOTHUB_MESSAGE_LIST list \<Rightarrow> 't \<Rightarrow> ('mp, 't) work"
  IoTHubTransport_Destroy :: "'mp IOTHUB_MESSAGE_LIST list \<Rightarrow> 't \<Rightarrow> ('mp, 't) work"
  IoTHubTransport_Subscribe :: "nat \<Rightarrow> 't \<Rightarrow> bool \<times> 't"
  IoTHubTransport_Unsubscribe :: "nat \<Rightarrow> 't \<Rightarrow> 't"
  IoTHubTransport_DoWork :: "'mp IOTHUB_MESSAGE_LIST list \<Rightarrow> 't \<Rightarrow> ('mp, 't) work"
  IoTHubTransport_SetRetryPolicy :: "IOTHUB_CLIENT_RETRY_POLICY \<Rightarrow> nat \<Rightarrow> 't \<Rightarrow> bool \<times> 't"
  IoTHubTransport_GetSendStatus :: "nat \<Rightarrow> 't \<Rightarrow> IOTHUB_CLIENT_RESULT \<times> IOTHUB_CLIENT_STATUS option \<times> 't"
  IoTHubTransport_Subscribe_InputQueue :: "nat \<Rightarrow> 't \<Rightarrow> bool \<times> 't"
  IoTHubTransport_Unsubscribe_InputQueue :: "registered \<Rightarrow> 't \<Rightarrow> 't"
  IoTHubTransport_GetTwinAsync :: "nat \<Rightarrow> nat \<times> nat \<Rightarrow> 't \<Rightarrow> IOTHUB_CLIENT_RESULT \<times> 't"
  IoTHubTransport_GetSupportedPlatformInfo :: "'t \<Rightarrow> nat option \<times> 't"
  on_message :: "nat \<Rightarrow> 'mp IOTHUB_MESSAGE \<Rightarrow> nat \<Rightarrow> 'e \<Rightarrow> IOTHUBMESSAGE_DISPOSITION_RESULT \<times> 'e"
  on_message_ex :: "nat \<Rightarrow> 'mp MESSAGE_CALLBACK_INFO \<Rightarrow> nat \<Rightarrow> 'e \<Rightarrow> bool \<times> 'e"
  on_input_ex :: "nat \<Rightarrow> 'mp MESSAGE_CALLBACK_INFO \<Rightarrow> char list option \<Rightarrow> 'e \<Rightarrow> bool \<times> 'e"
  on_method :: "nat \<Rightarrow> string option \<Rightarrow> char list option \<Rightarrow> nat \<Rightarrow> 'e \<Rightarrow> (int \<times> char list option) \<times> 'e"
  on_method_ex :: "nat \<Rightarrow> string option \<Rightarrow> char list option \<Rightarrow> nat \<Rightarrow> nat \<Rightarrow> 'e \<Rightarrow> int \<times> 'e"

text \<open>A call of the user's callback, and a call of a function of the transport.\<close>

definition tell :: "'mp client_event \<Rightarrow> ('mp, 't, 'l, 'e, 'm) CLIENT_scheme \<Rightarrow> ('mp, 't, 'l, 'e, 'm) CLIENT_scheme" where
  "tell ev h = h\<lparr>user_calls := user_calls h @ [ev]\<rparr>"

definition on_transport ::
  "('t \<Rightarrow> 'r \<times> 't) \<Rightarrow> ('mp, 't, 'l, 'e, 'm) CLIENT_scheme \<Rightarrow> 'r \<times> ('mp, 't, 'l, 'e, 'm) CLIENT_scheme" where
  "on_transport f h = (case f (transportHandle h) of (r, t) \<Rightarrow> (r, h\<lparr>transportHandle := t\<rparr>))"

definition on_env ::
  "('e \<Rightarrow> 'r \<times> 'e) \<Rightarrow> ('mp, 't, 'l, 'e, 'm) CLIENT_scheme \<Rightarrow> 'r \<times> ('mp, 't, 'l, 'e, 'm) CLIENT_scheme" where
  "on_env f h = (case f (env h) of (r, e) \<Rightarrow> (r, h\<lparr>env := e\<rparr>))"

end
