(* ===== verification/ClientInputs.thy ===== *)
theory ClientInputs
  imports ClientHandle
begin

text \<open>
  Input queues of the client core (iothub\_client\_core\_ll.c): the list of handlers, one for each
  name and one without a name, on a heap of handler objects; how a handler is set, replaced and
  removed, and how a message finds its handler. The list refines a finite map from names to
  handlers.
\<close>

section \<open>Handlers\<close>

definition is_event_equal ::
  "('mp, 't, 'l, 'e, 'm) CLIENT_scheme \<Rightarrow> string option \<Rightarrow> nat \<Rightarrow> bool run" where
  "is_event_equal h input_name event_callback =
     (if event_callback \<noteq> 0 then
        (case handlers h event_callback of
           None \<Rightarrow> Fault
         | Some ev \<Rightarrow>
             (case (handler_inputName ev, input_name) of
                (Some event_input_name, Some name) \<Rightarrow> Done (event_input_name = name)
              | (None, None) \<Rightarrow> Done True
              | _ \<Rightarrow> Done False))
      else Done False)"

text \<open>singlylinkedlist\_find on the list of handlers, which answers NULL for a NULL list.\<close>

definition find_handler ::
  "('mp, 't, 'l, 'li, 'e, 'a) client_api_scheme \<Rightarrow> string option \<Rightarrow> ('mp, 't, 'l, 'e, 'm) CLIENT_scheme
     \<Rightarrow> 'li option run" where
  "find_handler api input_name h =
     (case event_callbacks h of
        None \<Rightarrow> Done None
      | Some l \<Rightarrow> singlylinkedlist_find (c_lists api) l (is_event_equal h input_name))"

definition delete_event ::
  "nat \<Rightarrow> ('mp, 't, 'l, 'e, 'm) CLIENT_scheme \<Rightarrow> ('mp, 't, 'l, 'e, 'm) CLIENT_scheme run" where
  "delete_event p h = (case handlers h p of
     None \<Rightarrow> Fault | Some ev \<Rightarrow> Done (h\<lparr>handlers := (handlers h)(p := None)\<rparr>))"

text \<open>
  The walk of singlylinkedlist\_foreach with delete\_event\_callback, from an item on; the fuel is the
  number of items.
\<close>

primrec delete_event_callbacks ::
  "nat \<Rightarrow> ('mp, 't, 'l, 'li, 'e, 'a) client_api_scheme \<Rightarrow> 'l \<Rightarrow> 'li option
     \<Rightarrow> ('mp, 't, 'l, 'e, 'm) CLIENT_scheme \<Rightarrow> ('mp, 't, 'l, 'e, 'm) CLIENT_scheme run" where
  "delete_event_callbacks 0 api l item h = NoFuel"
| "delete_event_callbacks (Suc n) api l item h =
     (case item of
        None \<Rightarrow> Done h
      | Some i \<Rightarrow>
          run_bind (singlylinkedlist_item_get_value (c_lists api) l i) (\<lambda>p.
          run_bind (delete_event p h) (\<lambda>h.
          run_bind (singlylinkedlist_get_next_item (c_lists api) l i) (\<lambda>next.
            delete_event_callbacks n api l next h))))"

definition delete_event_callback_list ::
  "nat \<Rightarrow> ('mp, 't, 'l, 'li, 'e, 'a) client_api_scheme \<Rightarrow> ('mp, 't, 'l, 'e, 'm) CLIENT_scheme
     \<Rightarrow> ('mp, 't, 'l, 'e, 'm) CLIENT_scheme run" where
  "delete_event_callback_list n api h =
     (case event_callbacks h of
        None \<Rightarrow> Done h
      | Some l \<Rightarrow>
          run_bind (delete_event_callbacks n api l (singlylinkedlist_get_head_item (c_lists api) l) h) (\<lambda>h.
            Done (h\<lparr>event_callbacks := None\<rparr>)))"

definition put_handler ::
  "nat \<Rightarrow> IOTHUB_EVENT_CALLBACK \<Rightarrow> ('mp, 't, 'l, 'e, 'm) CLIENT_scheme \<Rightarrow> ('mp, 't, 'l, 'e, 'm) CLIENT_scheme" where
  "put_handler p ev h = h\<lparr>handlers := (handlers h)(p \<mapsto> ev)\<rparr>"

text \<open>A new handler, zeroed; None when malloc answers NULL.\<close>

definition new_handler ::
  "('mp, 't, 'l, 'li, 'e, 'a) client_api_scheme \<Rightarrow> ('mp, 't, 'l, 'e, 'm) CLIENT_scheme
     \<Rightarrow> nat option \<times> ('mp, 't, 'l, 'e, 'm) CLIENT_scheme" where
  "new_handler api h =
     (case on_env (os_malloc (c_os api)) h of (ok, h) \<Rightarrow>
        if \<not> ok then (None, h)
        else (Some (next_handler h),
              (put_handler (next_handler h) \<lparr>handler_inputName = None, callbackAsync = None, callbackAsyncEx = None,
                 userContextCallback = 0, userContextCallbackEx = None\<rparr> h)\<lparr>next_handler := Suc (next_handler h)\<rparr>))"

text \<open>Three steps of create\_event\_handler\_callback: the name, the space for the context, the list.\<close>

definition name_handler ::
  "('mp, 't, 'l, 'li, 'e, 'a) client_api_scheme \<Rightarrow> string option \<Rightarrow> IOTHUB_EVENT_CALLBACK
     \<Rightarrow> ('mp, 't, 'l, 'e, 'm) CLIENT_scheme \<Rightarrow> string option \<times> ('mp, 't, 'l, 'e, 'm) CLIENT_scheme" where
  "name_handler api input_name ev h =
     (case input_name of
        Some name \<Rightarrow>
          if handler_inputName ev = None then on_env (malloc_of (c_os api) name) h else (handler_inputName ev, h)
      | None \<Rightarrow> (handler_inputName ev, h))"

definition context_space ::
  "('mp, 't, 'l, 'li, 'e, 'a) client_api_scheme \<Rightarrow> char list option
     \<Rightarrow> ('mp, 't, 'l, 'e, 'm) CLIENT_scheme \<Rightarrow> bool \<times> ('mp, 't, 'l, 'e, 'm) CLIENT_scheme" where
  "context_space api ctxEx h = (if ctxEx \<noteq> None then on_env (os_malloc (c_os api)) h else (True, h))"

definition list_handler ::
  "('mp, 't, 'l, 'li, 'e, 'a) client_api_scheme \<Rightarrow> bool \<Rightarrow> 'l \<Rightarrow> nat
     \<Rightarrow> ('mp, 't, 'l, 'e, 'm) CLIENT_scheme \<Rightarrow> bool \<times> ('mp, 't, 'l, 'e, 'm) CLIENT_scheme" where
  "list_handler api add_to_list l p h =
     (if add_to_list then
        (case singlylinkedlist_add (c_lists api) l p (env h) of
           (item, l, e) \<Rightarrow> (item \<noteq> None, h\<lparr>event_callbacks := Some l, env := e\<rparr>))
      else (True, h))"

text \<open>
  What create\_event\_handler\_callback does with the handler it found or allocated: name it, give it
  its callbacks and contexts, and add it to the list when it is new.
\<close>

definition fill_handler ::
  "('mp, 't, 'l, 'li, 'e, 'a) client_api_scheme \<Rightarrow> string option \<Rightarrow> nat option \<Rightarrow> nat option \<Rightarrow> nat
     \<Rightarrow> char list option \<Rightarrow> bool \<Rightarrow> 'l \<Rightarrow> nat \<Rightarrow> ('mp, 't, 'l, 'e, 'm) CLIENT_scheme
     \<Rightarrow> (IOTHUB_CLIENT_RESULT \<times> ('mp, 't, 'l, 'e, 'm) CLIENT_scheme) run" where
  "fill_handler api input_name callbackSync callbackSyncEx ctx ctxEx add_to_list l p h =
     (case handlers h p of
        None \<Rightarrow> Fault
      | Some ev \<Rightarrow>
      case name_handler api input_name ev h of (name, h) \<Rightarrow>
        let ev = ev\<lparr>handler_inputName := name\<rparr> in
        if input_name = None \<or> handler_inputName ev \<noteq> None then
          let ev = ev\<lparr>callbackAsync := callbackSync, callbackAsyncEx := callbackSyncEx,
                      userContextCallbackEx := None\<rparr>;
              ev = (if ctxEx = None then ev\<lparr>userContextCallback := ctx\<rparr> else ev)
          in (case context_space api ctxEx (put_handler p ev h) of (copied, h) \<Rightarrow>
              if \<not> copied then run_bind (delete_event p h) (\<lambda>h. Done (IOTHUB_CLIENT_ERROR, h))
              else
                case list_handler api add_to_list l p h of (added, h) \<Rightarrow>
                if \<not> added then run_bind (delete_event p h) (\<lambda>h. Done (IOTHUB_CLIENT_ERROR, h))
                else Done (IOTHUB_CLIENT_OK, put_handler p (ev\<lparr>userContextCallbackEx := ctxEx\<rparr>) h))
        else run_bind (delete_event p (put_handler p ev h)) (\<lambda>h. Done (IOTHUB_CLIENT_ERROR, h)))"

definition create_event_handler_callback ::
  "('mp, 't, 'l, 'li, 'e, 'a) client_api_scheme \<Rightarrow> string option \<Rightarrow> nat option \<Rightarrow> nat option \<Rightarrow> nat
     \<Rightarrow> char list option \<Rightarrow> ('mp, 't, 'l, 'e, 'm) CLIENT_scheme
     \<Rightarrow> (IOTHUB_CLIENT_RESULT \<times> ('mp, 't, 'l, 'e, 'm) CLIENT_scheme) run" where
  "create_event_handler_callback api input_name callbackSync callbackSyncEx ctx ctxEx h =
     (case (case event_callbacks h of
              Some l \<Rightarrow> h
            | None \<Rightarrow> (case on_env (singlylinkedlist_create (c_lists api)) h of
                         (l, h) \<Rightarrow> h\<lparr>event_callbacks := l\<rparr>)) of h \<Rightarrow>
      case event_callbacks h of
        None \<Rightarrow> Done (IOTHUB_CLIENT_ERROR, h)
      | Some l \<Rightarrow>
          run_bind (find_handler api input_name h) (\<lambda>item_handle.
            case item_handle of
              None \<Rightarrow>
                (case new_handler api h of
                   (None, h) \<Rightarrow> Done (IOTHUB_CLIENT_ERROR, h)
                 | (Some p, h) \<Rightarrow> fill_handler api input_name callbackSync callbackSyncEx ctx ctxEx True l p h)
            | Some i \<Rightarrow>
                run_bind (singlylinkedlist_item_get_value (c_lists api) l i) (\<lambda>p.
                  if p = 0 then Done (IOTHUB_CLIENT_ERROR, h)
                  else fill_handler api input_name callbackSync callbackSyncEx ctx ctxEx False l p h)))"

text \<open>The transport is given the client handle where it expects the handle of the device.\<close>

definition remove_event_unsubscribe_if_needed ::
  "('mp, 't, 'l, 'li, 'e, 'a) client_api_scheme \<Rightarrow> string option \<Rightarrow> ('mp, 't, 'l, 'e, 'm) CLIENT_scheme
     \<Rightarrow> (IOTHUB_CLIENT_RESULT \<times> ('mp, 't, 'l, 'e, 'm) CLIENT_scheme) run" where
  "remove_event_unsubscribe_if_needed api input_name h =
     run_bind (find_handler api input_name h) (\<lambda>item_handle.
       case item_handle of
         None \<Rightarrow> Done (IOTHUB_CLIENT_ERROR, h)
       | Some i \<Rightarrow>
           (let l = the (event_callbacks h) in
            run_bind (singlylinkedlist_item_get_value (c_lists api) l i) (\<lambda>p.
              if p = 0 then Done (IOTHUB_CLIENT_ERROR, h)
              else run_bind (delete_event p h) (\<lambda>h.
                case singlylinkedlist_remove (c_lists api) l i (env h) of (removed, l, e) \<Rightarrow>
                  let h = h\<lparr>event_callbacks := Some l, env := e\<rparr> in
                  if \<not> removed then Done (IOTHUB_CLIENT_ERROR, h)
                  else Done (IOTHUB_CLIENT_OK,
                    if singlylinkedlist_get_head_item (c_lists api) l = None
                    then h\<lparr>transportHandle := IoTHubTransport_Unsubscribe_InputQueue api ToClient (transportHandle h)\<rparr>
                    else h)))))"

definition IoTHubClientCore_LL_SetInputMessageCallbackImpl ::
  "nat \<Rightarrow> ('mp, 't, 'l, 'li, 'e, 'a) client_api_scheme \<Rightarrow> string option \<Rightarrow> nat option \<Rightarrow> nat option \<Rightarrow> nat
     \<Rightarrow> char list option \<Rightarrow> ('mp, 't, 'l, 'e, 'm) CLIENT_scheme option
     \<Rightarrow> (IOTHUB_CLIENT_RESULT \<times> ('mp, 't, 'l, 'e, 'm) CLIENT_scheme option) run" where
  "IoTHubClientCore_LL_SetInputMessageCallbackImpl n api input_name cb cbEx ctx ctxEx iotHubClientHandle =
     (case iotHubClientHandle of
        None \<Rightarrow> Done (IOTHUB_CLIENT_INVALID_ARG, None)
      | Some h \<Rightarrow>
          if cb = None \<and> cbEx = None then
            run_bind (remove_event_unsubscribe_if_needed api input_name h) (\<lambda>(result, h). Done (result, Some h))
          else
            (let registered_with_transport_handler =
               (case event_callbacks h of
                  None \<Rightarrow> False
                | Some l \<Rightarrow> singlylinkedlist_get_head_item (c_lists api) l \<noteq> None) in
             run_bind (create_event_handler_callback api input_name cb cbEx ctx ctxEx h) (\<lambda>(result, h).
               if result \<noteq> IOTHUB_CLIENT_OK then Done (result, Some h)
               else if registered_with_transport_handler then Done (IOTHUB_CLIENT_OK, Some h)
               else (case on_transport (IoTHubTransport_Subscribe_InputQueue api (deviceHandle h)) h of (ok, h) \<Rightarrow>
                 if \<not> ok then
                   run_bind (delete_event_callback_list n api h) (\<lambda>h. Done (IOTHUB_CLIENT_ERROR, Some h))
                 else Done (IOTHUB_CLIENT_OK, Some h)))))"

definition IoTHubClientCore_LL_SetInputMessageCallbackEx ::
  "nat \<Rightarrow> ('mp, 't, 'l, 'li, 'e, 'a) client_api_scheme \<Rightarrow> string option \<Rightarrow> nat option \<Rightarrow> char list option
     \<Rightarrow> ('mp, 't, 'l, 'e, 'm) CLIENT_scheme option
     \<Rightarrow> (IOTHUB_CLIENT_RESULT \<times> ('mp, 't, 'l, 'e, 'm) CLIENT_scheme option) run" where
  "IoTHubClientCore_LL_SetInputMessageCallbackEx n api input_name cbEx ctxEx ho =
     IoTHubClientCore_LL_SetInputMessageCallbackImpl n api input_name None cbEx 0 ctxEx ho"

definition IoTHubClientCore_LL_SetInputMessageCallback ::
  "nat \<Rightarrow> ('mp, 't, 'l, 'li, 'e, 'a) client_api_scheme \<Rightarrow> string option \<Rightarrow> nat option \<Rightarrow> nat
     \<Rightarrow> ('mp, 't, 'l, 'e, 'm) CLIENT_scheme option
     \<Rightarrow> (IOTHUB_CLIENT_RESULT \<times> ('mp, 't, 'l, 'e, 'm) CLIENT_scheme option) run" where
  "IoTHubClientCore_LL_SetInputMessageCallback n api input_name cb ctx ho =
     IoTHubClientCore_LL_SetInputMessageCallbackImpl n api input_name cb None ctx None ho"

section \<open>Delivery\<close>

definition IoTHubClientCore_LL_MessageCallbackFromInput ::
  "('mp, 't, 'l, 'li, 'e, 'a) client_api_scheme \<Rightarrow> 'mp MESSAGE_CALLBACK_INFO option
     \<Rightarrow> ('mp, 't, 'l, 'e, 'm) CLIENT_scheme option \<Rightarrow> (bool \<times> ('mp, 't, 'l, 'e, 'm) CLIENT_scheme option) run" where
  "IoTHubClientCore_LL_MessageCallbackFromInput api messageData ctx =
     (case (ctx, messageData) of
        (Some h, Some info) \<Rightarrow>
          (case (info_messageHandle info, event_callbacks h) of
             (Some msg, Some l) \<Rightarrow>
               (let input_name = IoTHubMessage_GetInputName (Some msg) in
                run_bind (find_handler api input_name h) (\<lambda>found.
                run_bind (if found = None then find_handler api None h else Done found) (\<lambda>item_handle.
                  case item_handle of
                    None \<Rightarrow> Done (False, ctx)
                  | Some i \<Rightarrow>
                      run_bind (singlylinkedlist_item_get_value (c_lists api) l i) (\<lambda>p.
                        if p = 0 then Done (False, ctx)
                        else (case handlers h p of
                          None \<Rightarrow> Fault
                        | Some ev \<Rightarrow>
                            (case on_env (os_time (c_os api)) h of (now, h) \<Rightarrow>
                             let h = h\<lparr>lastMessageReceiveTime := now\<rparr> in
                             case callbackAsyncEx ev of
                               Some cb \<Rightarrow>
                                 (case on_env (on_input_ex api cb info (userContextCallbackEx ev))
                                         (tell (InputDeliveredEx cb info (userContextCallbackEx ev)) h) of
                                    (result, h) \<Rightarrow> Done (result, Some h))
                             | None \<Rightarrow>
                                 (case callbackAsync ev of
                                    None \<Rightarrow> Fault
                                  | Some cb \<Rightarrow>
                                      (case on_env (on_message api cb msg (userContextCallback ev))
                                              (tell (InputDelivered cb msg (userContextCallback ev)) h) of
                                         (cb_result, h) \<Rightarrow>
                                       case on_transport (IoTHubTransport_SendMessageDisposition api info cb_result) h of
                                         (_, h) \<Rightarrow> Done (True, Some h)))))))))
           | _ \<Rightarrow> Done (False, ctx))
      | _ \<Rightarrow> Done (False, ctx))"

section \<open>The map of handlers\<close>

text \<open>
  The list holds distinct live handlers and all of them, at most one for each name, each with a
  callback: nothing dangles, nothing leaks. The map it stands for is \<open>inputs\<close>.
\<close>

definition handler_ptrs :: "('l \<Rightarrow> ('li \<times> nat) list) \<Rightarrow> ('mp, 't, 'l, 'e, 'm) CLIENT_scheme \<Rightarrow> nat list" where
  "handler_ptrs contents h = (case event_callbacks h of None \<Rightarrow> [] | Some l \<Rightarrow> map snd (contents l))"

definition named :: "(nat \<rightharpoonup> IOTHUB_EVENT_CALLBACK) \<Rightarrow> nat list \<Rightarrow> (string option \<times> IOTHUB_EVENT_CALLBACK) list" where
  "named hs ps = map (\<lambda>p. (handler_inputName (the (hs p)), the (hs p))) ps"

definition inputs ::
  "('l \<Rightarrow> ('li \<times> nat) list) \<Rightarrow> ('mp, 't, 'l, 'e, 'm) CLIENT_scheme \<Rightarrow> string option \<rightharpoonup> IOTHUB_EVENT_CALLBACK" where
  "inputs contents h = map_of (named (handlers h) (handler_ptrs contents h))"

definition inputs_inv :: "('l \<Rightarrow> ('li \<times> nat) list) \<Rightarrow> ('mp, 't, 'l, 'e, 'm) CLIENT_scheme \<Rightarrow> bool" where
  "inputs_inv contents h \<longleftrightarrow>
     distinct (handler_ptrs contents h) \<and> set (handler_ptrs contents h) = dom (handlers h)
   \<and> (\<forall>p \<in> dom (handlers h). 0 < p \<and> p < next_handler h) \<and> 0 < next_handler h
   \<and> distinct (map fst (named (handlers h) (handler_ptrs contents h)))
   \<and> (\<forall>ev \<in> ran (handlers h). callbackAsync ev \<noteq> None \<or> callbackAsyncEx ev \<noteq> None)"

lemma named_simps [simp]:
  "named hs [] = []" "named hs (p # ps) = (handler_inputName (the (hs p)), the (hs p)) # named hs ps"
  "named hs (ps @ qs) = named hs ps @ named hs qs"
  by (simp_all add: named_def)

lemma named_cong: "p \<notin> set ps \<Longrightarrow> named (hs(p := v)) ps = named hs ps"
  by (auto simp: named_def)

lemma map_of_middle:
  assumes "n \<notin> fst ` set xs"
  shows "map_of (xs @ (n, v') # ys) = (map_of (xs @ (n, v) # ys))(n \<mapsto> v')"
    "n \<notin> fst ` set ys \<Longrightarrow> map_of (xs @ ys) = (map_of (xs @ (n, v) # ys))(n := None)"
  using assms by (induction xs) (auto simp: fun_eq_iff map_of_eq_None_iff)

lemma map_of_snoc: "n \<notin> fst ` set xs \<Longrightarrow> map_of (xs @ [(n, v)]) = (map_of xs)(n \<mapsto> v)"
  by (induction xs) auto

text \<open>What a search finds.\<close>

lemma find_handler_cases:
  assumes laws: "list_laws (c_lists api) contents" and inv: "inputs_inv contents h"
  obtains
    (absent) "find_handler api n h = Done None" "inputs contents h n = None"
      "n \<notin> fst ` set (named (handlers h) (handler_ptrs contents h))"
  | (found) l xs i p ys ev where "event_callbacks h = Some l" "contents l = xs @ (i, p) # ys"
      "handlers h p = Some ev" "handler_inputName ev = n" "p \<noteq> 0"
      "n \<notin> fst ` set (named (handlers h) (map snd xs))" "n \<notin> fst ` set (named (handlers h) (map snd ys))"
      "p \<notin> set (map snd (xs @ ys))"
      "find_handler api n h = Done (Some i)" "inputs contents h n = Some ev"
      "singlylinkedlist_item_get_value (c_lists api) l i = Done p"
proof (cases "event_callbacks h")
  case None
  then show ?thesis by (intro absent) (simp_all add: find_handler_def inputs_def handler_ptrs_def)
next
  case (Some l)
  have live: "handlers h p \<noteq> None" "p \<noteq> 0" if "p \<in> snd ` set (contents l)" for p
    using inv that Some by (auto simp: inputs_inv_def handler_ptrs_def)
  have eq: "is_event_equal h n p = Done (handler_inputName (the (handlers h p)) = n)"
    if "p \<in> snd ` set (contents l)" for p
    using live [OF that] by (auto simp: is_event_equal_def split: option.splits)
  have ff: "set zs \<subseteq> set (contents l) \<Longrightarrow>
      find_first zs (is_event_equal h n) = Done (list_item_at (dropWhile (\<lambda>z. handler_inputName (the (handlers h (snd z))) \<noteq> n) zs))" for zs
  proof (induction zs)
    case (Cons z zs)
    obtain i p where z: "z = (i, p)" by (cases z)
    have "p \<in> snd ` set (contents l)" using Cons.prems z by force
    from eq [OF this] Cons show ?case by (simp add: z list_item_at_def)
  qed (simp add: list_item_at_def)
  let ?rest = "dropWhile (\<lambda>z. handler_inputName (the (handlers h (snd z))) \<noteq> n) (contents l)"
  have f: "find_handler api n h = Done (list_item_at ?rest)"
    using ff [of "contents l"] by (simp add: find_handler_def Some list_find [OF laws])
  show ?thesis
  proof (cases ?rest)
    case Nil
    then have "n \<notin> fst ` set (named (handlers h) (map snd (contents l)))"
      by (auto simp: named_def dropWhile_eq_Nil_conv)
    with f Nil Some show ?thesis
      by (intro absent) (simp_all add: list_item_at_def inputs_def handler_ptrs_def map_of_eq_None_iff)
  next
    case (Cons z ys)
    obtain i p where z: "z = (i, p)" by (cases z)
    define xs where "xs = takeWhile (\<lambda>z. handler_inputName (the (handlers h (snd z))) \<noteq> n) (contents l)"
    have c: "contents l = xs @ (i, p) # ys"
      unfolding xs_def using Cons z takeWhile_dropWhile_id by metis
    have name: "handler_inputName (the (handlers h p)) = n"
      using Cons hd_dropWhile [of "\<lambda>z. handler_inputName (the (handlers h (snd z))) \<noteq> n" "contents l"] z by simp
    have "p \<in> snd ` set (contents l)" using c by force
    from live [OF this] obtain ev where ev: "handlers h p = Some ev" "p \<noteq> 0" by auto
    have d: "distinct (map fst (named (handlers h) (map snd (contents l))))" "distinct (map snd (contents l))"
      using inv Some by (simp_all add: inputs_inv_def handler_ptrs_def)
    have n: "n \<notin> fst ` set (named (handlers h) (map snd xs))" "n \<notin> fst ` set (named (handlers h) (map snd ys))"
      using d(1) name unfolding c by auto
    have "map_of (named (handlers h) (map snd xs)) n = None" using n by (simp add: map_of_eq_None_iff)
    then have "inputs contents h n = Some ev"
      using ev name by (simp add: inputs_def handler_ptrs_def Some c map_add_def)
    note i = this
    have "find_handler api n h = Done (Some i)" using f Cons z by (simp add: list_item_at_def)
    moreover have "handler_inputName ev = n" "p \<notin> set (map snd (xs @ ys))" using d(2) ev name unfolding c by auto
    ultimately show ?thesis
      using found [OF Some c ev(1) _ ev(2) n] i list_item(2) [OF laws c] by blast
  qed
qed

text \<open>Replacing, adding and removing a handler.\<close>

lemma replace_handler:
  assumes inv: "inputs_inv contents h" and l: "event_callbacks h = Some l" "contents l = xs @ (i, p) # ys"
    and p: "handlers h p = Some ev" "handler_inputName ev = n" "handler_inputName ev' = n"
      "n \<notin> fst ` set (named (handlers h) (map snd xs))" "p \<notin> set (map snd (xs @ ys))"
    and cb: "callbackAsync ev' \<noteq> None \<or> callbackAsyncEx ev' \<noteq> None"
    and h': "event_callbacks h' = Some l" "handlers h' = (handlers h)(p \<mapsto> ev')" "next_handler h' = next_handler h"
  shows "inputs_inv contents h' \<and> inputs contents h' = (inputs contents h)(n \<mapsto> ev')"
proof -
  have m: "named ((handlers h)(p \<mapsto> ev')) (map snd zs) = named (handlers h) (map snd zs)"
    if "zs = xs \<or> zs = ys" for zs
    using p(5) that by (intro named_cong) auto
  have "inputs contents h' = map_of (named (handlers h) (map snd xs) @ (n, ev') # named (handlers h) (map snd ys))"
    using m p by (simp add: inputs_def handler_ptrs_def h' l)
  also have "\<dots> = (inputs contents h)(n \<mapsto> ev')"
    unfolding map_of_middle(1) [OF p(4), of ev' "named (handlers h) (map snd ys)" ev]
    using p by (simp add: inputs_def handler_ptrs_def l)
  finally have i: "inputs contents h' = (inputs contents h)(n \<mapsto> ev')" .
  have "distinct (map fst (named (handlers h') (handler_ptrs contents h')))"
    using inv m p by (simp add: inputs_inv_def handler_ptrs_def h' l)
  moreover have "callbackAsync e \<noteq> None \<or> callbackAsyncEx e \<noteq> None" if "e \<in> ran (handlers h')" for e
    using that inv cb unfolding h' inputs_inv_def by (auto simp: ran_def split: if_splits)
  ultimately show ?thesis using i inv p by (auto simp: inputs_inv_def handler_ptrs_def h' l)
qed

lemma add_handler:
  assumes inv: "inputs_inv contents h" and l: "event_callbacks h = Some l" "contents l' = contents l @ [(i, p)]"
    and p: "p = next_handler h" "handler_inputName ev' = n"
      "n \<notin> fst ` set (named (handlers h) (handler_ptrs contents h))"
    and cb: "callbackAsync ev' \<noteq> None \<or> callbackAsyncEx ev' \<noteq> None"
    and h': "event_callbacks h' = Some l'" "handlers h' = (handlers h)(p \<mapsto> ev')" "next_handler h' = Suc p"
  shows "inputs_inv contents h' \<and> inputs contents h' = (inputs contents h)(n \<mapsto> ev')"
proof -
  have fresh: "p \<notin> dom (handlers h)" "p \<notin> set (map snd (contents l))"
    using inv p(1) l by (auto simp: inputs_inv_def handler_ptrs_def)
  have m: "named ((handlers h)(p \<mapsto> ev')) (map snd (contents l)) = named (handlers h) (map snd (contents l))"
    by (rule named_cong [OF fresh(2)])
  have n: "n \<notin> fst ` set (named (handlers h) (map snd (contents l)))" using p(3) by (simp add: handler_ptrs_def l)
  have i: "inputs contents h' = (inputs contents h)(n \<mapsto> ev')"
    using m p(2) map_of_snoc [OF n] by (simp add: inputs_def handler_ptrs_def h' l)
  have "distinct (map fst (named (handlers h') (handler_ptrs contents h')))"
    using inv m n p by (simp add: inputs_inv_def handler_ptrs_def h' l)
  moreover have "callbackAsync e \<noteq> None \<or> callbackAsyncEx e \<noteq> None" if "e \<in> ran (handlers h')" for e
    using that inv cb unfolding h' inputs_inv_def by (auto simp: ran_def split: if_splits)
  moreover have "\<forall>q \<in> dom (handlers h'). 0 < q \<and> q < next_handler h'"
    using inv p(1) unfolding h' inputs_inv_def by (auto intro: less_SucI)
  moreover have "set (handler_ptrs contents h') = dom (handlers h')" "distinct (handler_ptrs contents h')"
    using inv fresh unfolding inputs_inv_def by (auto simp: handler_ptrs_def h' l)
  ultimately show ?thesis using i by (simp add: inputs_inv_def h'(3))
qed

lemma remove_handler:
  assumes inv: "inputs_inv contents h" and l: "event_callbacks h = Some l" "contents l = xs @ (i, p) # ys"
    and p: "handlers h p = Some ev" "handler_inputName ev = n"
      "n \<notin> fst ` set (named (handlers h) (map snd xs))" "n \<notin> fst ` set (named (handlers h) (map snd ys))"
      "p \<notin> set (map snd (xs @ ys))"
    and h': "event_callbacks h' = Some l'" "contents l' = xs @ ys" "handlers h' = (handlers h)(p := None)"
      "next_handler h' = next_handler h"
  shows "inputs_inv contents h' \<and> inputs contents h' = (inputs contents h)(n := None)"
proof -
  have m: "named ((handlers h)(p := None)) (map snd zs) = named (handlers h) (map snd zs)"
    if "zs = xs \<or> zs = ys" for zs
    using p(5) that by (intro named_cong) auto
  have "inputs contents h' = map_of (named (handlers h) (map snd xs) @ named (handlers h) (map snd ys))"
    using m by (simp add: inputs_def handler_ptrs_def h' l)
  also have "\<dots> = (inputs contents h)(n := None)"
    unfolding map_of_middle(2) [OF p(3,4), of ev]
    using p by (simp add: inputs_def handler_ptrs_def l)
  finally have i: "inputs contents h' = (inputs contents h)(n := None)" .
  have "distinct (map fst (named (handlers h') (handler_ptrs contents h')))"
    using inv m by (auto simp: inputs_inv_def handler_ptrs_def h' l)
  moreover have "callbackAsync e \<noteq> None \<or> callbackAsyncEx e \<noteq> None" if "e \<in> ran (handlers h')" for e
    using that inv unfolding h' inputs_inv_def by (auto simp: ran_def split: if_splits)
  moreover have "set (handler_ptrs contents h') = dom (handlers h')" "distinct (handler_ptrs contents h')"
    using inv p(5) unfolding inputs_inv_def by (auto simp: handler_ptrs_def h' l)
  ultimately show ?thesis using i inv by (auto simp: inputs_inv_def h')
qed
lemma inputs_frame:
  assumes "inputs_inv contents h" "handler_ptrs contents h' = handler_ptrs contents h"
    "handlers h' = handlers h" "next_handler h \<le> next_handler h'"
  shows "inputs_inv contents h' \<and> inputs contents h' = inputs contents h"
  using assms unfolding inputs_inv_def inputs_def by (auto intro: less_le_trans)

text \<open>
  What a set-operation owes: it does not fault, keeps the invariant, and changes the map only when
  it answers OK.
\<close>

definition set_ok ::
  "('l \<Rightarrow> ('li \<times> nat) list) \<Rightarrow> (string option \<rightharpoonup> IOTHUB_EVENT_CALLBACK) \<Rightarrow> (string option \<rightharpoonup> IOTHUB_EVENT_CALLBACK)
     \<Rightarrow> (IOTHUB_CLIENT_RESULT \<times> ('mp, 't, 'l, 'e, 'm) CLIENT_scheme) run \<Rightarrow> bool" where
  "set_ok contents m m' run \<longleftrightarrow>
     (\<exists>r h'. run = Done (r, h') \<and> inputs_inv contents h' \<and> (r = IOTHUB_CLIENT_OK \<or> r = IOTHUB_CLIENT_ERROR)
        \<and> inputs contents h' = (if r = IOTHUB_CLIENT_OK then m' else m)
        \<and> (r = IOTHUB_CLIENT_OK \<longrightarrow> event_callbacks h' \<noteq> None))"

lemma set_okI:
  "inputs_inv contents h' \<and> inputs contents h' = m' \<Longrightarrow> event_callbacks h' \<noteq> None
     \<Longrightarrow> set_ok contents m m' (Done (IOTHUB_CLIENT_OK, h'))"
  "inputs_inv contents h' \<and> inputs contents h' = m \<Longrightarrow> set_ok contents m m' (Done (IOTHUB_CLIENT_ERROR, h'))"
  by (simp_all add: set_ok_def)

text \<open>The handler a successful call leaves under a name.\<close>

definition new_event ::
  "string option \<Rightarrow> nat option \<Rightarrow> nat option \<Rightarrow> nat \<Rightarrow> char list option \<Rightarrow> IOTHUB_EVENT_CALLBACK option
     \<Rightarrow> IOTHUB_EVENT_CALLBACK" where
  "new_event n cb cbEx ctx ctxEx old = \<lparr>handler_inputName = n, callbackAsync = cb, callbackAsyncEx = cbEx,
     userContextCallback = (if ctxEx = None then ctx else case old of None \<Rightarrow> 0 | Some ev \<Rightarrow> userContextCallback ev),
     userContextCallbackEx = ctxEx\<rparr>"

lemma on_env_eq: "on_env f h = (r, h') \<longleftrightarrow> (\<exists>e. f (env h) = (r, e) \<and> h' = h\<lparr>env := e\<rparr>)"
  by (auto simp: on_env_def split: prod.splits)

lemma same_handlers:
  assumes "name_handler api n ev h = (name, h1) \<or> context_space api ctxEx h = (b, h1)"
  shows "event_callbacks h1 = event_callbacks h" "handlers h1 = handlers h" "next_handler h1 = next_handler h"
  using assms by (auto simp: name_handler_def context_space_def on_env_eq split: option.splits if_splits)

lemma fill_existing:
  assumes inv: "inputs_inv contents h" and l: "event_callbacks h = Some l" "contents l = xs @ (i, p) # ys"
    and p: "handlers h p = Some ev" "handler_inputName ev = n"
      "n \<notin> fst ` set (named (handlers h) (map snd xs))" "p \<notin> set (map snd (xs @ ys))"
    and cb: "cb \<noteq> None \<or> cbEx \<noteq> None" and mem: "ctxEx = None \<or> memory_available (c_os api)"
  shows "set_ok contents m ((inputs contents h)(n \<mapsto> new_event n cb cbEx ctx ctxEx (Some ev)))
    (fill_handler api n cb cbEx ctx ctxEx False l p h)"
proof -
  have n: "name_handler api n ev h = (n, h)" using p(2) by (auto simp: name_handler_def split: option.splits)
  have list: "list_handler api False l p g = (True, g)" for g by (simp add: list_handler_def)
  let ?ev = "ev\<lparr>handler_inputName := n, callbackAsync := cb, callbackAsyncEx := cbEx, userContextCallbackEx := None\<rparr>"
  let ?ev' = "if ctxEx = None then ?ev\<lparr>userContextCallback := ctx\<rparr> else ?ev"
  obtain b h1 where c: "context_space api ctxEx (put_handler p ?ev' h) = (b, h1)" by fastforce
  then have b using mem by (auto simp: context_space_def on_env_eq dest: memory_availableD split: if_splits)
  have ev': "?ev'\<lparr>userContextCallbackEx := ctxEx\<rparr> = new_event n cb cbEx ctx ctxEx (Some ev)"
    by (simp add: new_event_def)
  have "n = None \<or> handler_inputName (ev\<lparr>handler_inputName := n\<rparr>) \<noteq> None" by (cases n) simp_all
  then have "fill_handler api n cb cbEx ctx ctxEx False l p h =
      Done (IOTHUB_CLIENT_OK, put_handler p (new_event n cb cbEx ctx ctxEx (Some ev)) h1)"
    unfolding fill_handler_def p(1) option.case n prod.case Let_def
    using c \<open>b\<close> ev' by (simp add: list)
  moreover have "inputs_inv contents (put_handler p (new_event n cb cbEx ctx ctxEx (Some ev)) h1)
      \<and> inputs contents (put_handler p (new_event n cb cbEx ctx ctxEx (Some ev)) h1)
        = (inputs contents h)(n \<mapsto> new_event n cb cbEx ctx ctxEx (Some ev))"
    using cb same_handlers [OF disjI2, OF c]
    by (intro replace_handler [OF inv l p(1,2) _ p(3,4)]) (simp_all add: new_event_def put_handler_def l(1))
  ultimately show ?thesis
    using same_handlers(1) [OF disjI2, OF c] by (simp add: set_okI(1) put_handler_def l(1))
qed

text \<open>A new handler: when a step fails it is freed again and the list is as it was.\<close>

lemma fill_new:
  assumes laws: "list_laws (c_lists api) contents" and inv: "inputs_inv contents h"
    and l: "event_callbacks h = Some l"
    and n: "n \<notin> fst ` set (named (handlers h) (handler_ptrs contents h))"
    and cb: "cb \<noteq> None \<or> cbEx \<noteq> None" and g: "new_handler api h = (Some p, g)"
  shows "set_ok contents (inputs contents h) ((inputs contents h)(n \<mapsto> new_event n cb cbEx ctx ctxEx None))
    (fill_handler api n cb cbEx ctx ctxEx True l p g)"
proof -
  let ?ev = "\<lparr>handler_inputName = None, callbackAsync = None, callbackAsyncEx = None,
    userContextCallback = 0, userContextCallbackEx = None\<rparr>"
  have p: "p = next_handler h" "handlers g = (handlers h)(p \<mapsto> ?ev)" "next_handler g = Suc p"
    "event_callbacks g = Some l"
    using g l by (auto simp: new_handler_def on_env_eq put_handler_def split: prod.splits if_splits)
  have dead: "handlers h p = None" using inv p(1) by (auto simp: inputs_inv_def)
  have drop: "set_ok contents (inputs contents h) m (run_bind (delete_event p h1) (\<lambda>h. Done (IOTHUB_CLIENT_ERROR, h)))"
    if "handlers h1 = (handlers h)(p \<mapsto> ev)" "next_handler h1 = Suc p" "event_callbacks h1 = Some l1"
      "contents l1 = contents l" for h1 ev l1 m
  proof -
    have "handlers (h1\<lparr>handlers := (handlers h1)(p := None)\<rparr>) = handlers h" using that(1) dead by (auto simp: fun_eq_iff)
    then have "inputs_inv contents (h1\<lparr>handlers := (handlers h1)(p := None)\<rparr>)
        \<and> inputs contents (h1\<lparr>handlers := (handlers h1)(p := None)\<rparr>) = inputs contents h"
      using that p(1) l by (intro inputs_frame [OF inv]) (simp_all add: handler_ptrs_def)
    then show ?thesis using that(1) by (simp add: delete_event_def set_okI(2))
  qed
  obtain name h1 where nh: "name_handler api n ?ev g = (name, h1)" by fastforce
  note s1 = same_handlers [OF disjI1, OF nh]
  have name: "name = n" if "n = None \<or> name \<noteq> None"
    using nh that by (auto simp: name_handler_def on_env_eq malloc_of_Some split: option.splits)
  let ?ev1 = "\<lparr>handler_inputName = n, callbackAsync = cb, callbackAsyncEx = cbEx,
    userContextCallback = (if ctxEx = None then ctx else 0), userContextCallbackEx = None\<rparr>"
  obtain b h2 where c: "context_space api ctxEx (put_handler p ?ev1 h1) = (b, h2)" by fastforce
  note s2 = same_handlers [OF disjI2, OF c]
  have h2: "handlers h2 = (handlers h)(p \<mapsto> ?ev1)" "next_handler h2 = Suc p" "event_callbacks h2 = Some l"
    using s1 s2 p by (simp_all add: put_handler_def)
  obtain item l1 e1 where a: "singlylinkedlist_add (c_lists api) l p (env h2) = (item, l1, e1)"
    by (metis prod_cases3)
  have la: "list_handler api True l p h2 = (item \<noteq> None, h2\<lparr>event_callbacks := Some l1, env := e1\<rparr>)"
    by (simp add: list_handler_def a)
  have fill: "fill_handler api n cb cbEx ctx ctxEx True l p g =
     (if n = None \<or> name \<noteq> None then
        if \<not> b then run_bind (delete_event p h2) (\<lambda>h. Done (IOTHUB_CLIENT_ERROR, h))
        else if item = None then run_bind (delete_event p (h2\<lparr>event_callbacks := Some l1, env := e1\<rparr>)) (\<lambda>h. Done (IOTHUB_CLIENT_ERROR, h))
        else Done (IOTHUB_CLIENT_OK, put_handler p (new_event n cb cbEx ctx ctxEx None) (h2\<lparr>event_callbacks := Some l1, env := e1\<rparr>))
      else run_bind (delete_event p (put_handler p (?ev\<lparr>handler_inputName := name\<rparr>) h1)) (\<lambda>h. Done (IOTHUB_CLIENT_ERROR, h)))"
    using p(2) nh c la name
    by (cases "ctxEx = None") (auto simp: fill_handler_def Let_def new_event_def split: option.splits)
  have dropped: "set_ok contents (inputs contents h) m (run_bind (delete_event p h2) (\<lambda>h. Done (IOTHUB_CLIENT_ERROR, h)))" for m
    by (rule drop [OF h2 refl])
  have added: "contents l1 = contents l @ (case item of None \<Rightarrow> [] | Some i \<Rightarrow> [(i, p)])" by (rule list_add [OF laws a])
  let ?h3 = "h2\<lparr>event_callbacks := Some l1, env := e1\<rparr>"
  have refused: "set_ok contents (inputs contents h) m (run_bind (delete_event p ?h3) (\<lambda>h. Done (IOTHUB_CLIENT_ERROR, h)))"
    if "item = None" for m
    using added that h2 by (intro drop [of _ ?ev1 l1]) simp_all
  have unnamed: "set_ok contents (inputs contents h) m
      (run_bind (delete_event p (put_handler p (?ev\<lparr>handler_inputName := name\<rparr>) h1)) (\<lambda>h. Done (IOTHUB_CLIENT_ERROR, h)))" for m
    using s1 p by (intro drop [of _ "?ev\<lparr>handler_inputName := name\<rparr>" l]) (simp_all add: put_handler_def)
  have finished: "set_ok contents m ((inputs contents h)(n \<mapsto> new_event n cb cbEx ctx ctxEx None))
      (Done (IOTHUB_CLIENT_OK, put_handler p (new_event n cb cbEx ctx ctxEx None) ?h3))" if "item = Some i" for m i
  proof (rule set_okI(1))
    show "inputs_inv contents (put_handler p (new_event n cb cbEx ctx ctxEx None) ?h3)
        \<and> inputs contents (put_handler p (new_event n cb cbEx ctx ctxEx None) ?h3)
          = (inputs contents h)(n \<mapsto> new_event n cb cbEx ctx ctxEx None)"
      using cb added that h2
      by (intro add_handler [OF inv l _ p(1) _ n, of l1 i]) (simp_all add: new_event_def put_handler_def)
  qed (simp add: put_handler_def)
  show ?thesis
  proof (cases "n = None \<or> name \<noteq> None")
    case False
    show ?thesis unfolding fill by (simp only: False if_False unnamed)
  next
    case named: True
    show ?thesis
    proof (cases "\<not> b")
      case True
      show ?thesis unfolding fill by (simp only: named True not_False_eq_True if_True dropped)
    next
      case ok: False
      show ?thesis
      proof (cases item)
        case None
        show ?thesis unfolding fill by (simp only: named ok None refl not_False_eq_True not_True_eq_False if_True if_False refused [OF None])
      next
        case (Some i)
        show ?thesis unfolding fill by (simp only: named ok Some not_False_eq_True not_True_eq_False if_True if_False option.distinct finished [OF Some])
      qed
    qed
  qed
qed

section \<open>Setting and removing\<close>

lemma create_event_set:
  assumes laws: "list_laws (c_lists api) contents" and inv: "inputs_inv contents h"
    and cb: "cb \<noteq> None \<or> cbEx \<noteq> None"
    and mem: "ctxEx = None \<or> inputs contents h n = None \<or> memory_available (c_os api)"
  shows "set_ok contents (inputs contents h)
      ((inputs contents h)(n \<mapsto> new_event n cb cbEx ctx ctxEx (inputs contents h n)))
    (create_event_handler_callback api n cb cbEx ctx ctxEx h)"
proof -
  obtain h0 where h0: "h0 = (case event_callbacks h of Some l \<Rightarrow> h
      | None \<Rightarrow> (case on_env (singlylinkedlist_create (c_lists api)) h of (l, h) \<Rightarrow> h\<lparr>event_callbacks := l\<rparr>))"
    by blast
  have ptrs: "handler_ptrs contents h0 = handler_ptrs contents h" "handlers h0 = handlers h" "next_handler h0 = next_handler h"
    using list_create [OF laws] unfolding h0
    by (auto simp: handler_ptrs_def on_env_eq split: option.splits prod.splits)
  have frame: "inputs_inv contents h0 \<and> inputs contents h0 = inputs contents h"
    by (rule inputs_frame [OF inv ptrs(1,2)]) (simp add: ptrs(3))
  then have inv0: "inputs_inv contents h0" and eq: "inputs contents h0 = inputs contents h" by simp_all
  show ?thesis
  proof (cases "event_callbacks h0")
    case None
    then show ?thesis
      unfolding create_event_handler_callback_def h0 [symmetric] Let_def
      using frame by (simp add: set_okI(2))
  next
    case (Some l)
    show ?thesis
    proof (rule find_handler_cases [OF laws inv0, of n], goal_cases absent found)
      case absent
      show ?thesis
      proof (cases "new_handler api h0")
        case (Pair po g)
        show ?thesis
        proof (cases po)
          case None
          with Pair have "handlers g = handlers h0" "next_handler g = next_handler h0" "event_callbacks g = event_callbacks h0"
            by (auto simp: new_handler_def on_env_eq split: prod.splits if_splits)
          then have "inputs_inv contents g \<and> inputs contents g = inputs contents h0"
            by (intro inputs_frame [OF inv0]) (simp_all add: handler_ptrs_def)
          then show ?thesis
            unfolding create_event_handler_callback_def h0 [symmetric] Let_def
            using Some absent None Pair eq by (simp add: set_okI(2))
        next
          case (Some p)
          with Pair have "new_handler api h0 = (Some p, g)" by simp
          from fill_new [OF laws inv0 \<open>event_callbacks h0 = Some l\<close> absent(3) cb this] show ?thesis
            unfolding create_event_handler_callback_def h0 [symmetric] Let_def
            using \<open>event_callbacks h0 = Some l\<close> absent(1,2) Some Pair eq by simp
        qed
      qed
    next
      case (found l' xs i p ys ev)
      have mem': "ctxEx = None \<or> memory_available (c_os api)" using mem found(10) eq by auto
      have l: "l' = l" using found(1) Some by simp
      note fill_existing [OF inv0 found(1,2,3,4,6,8) cb mem', of "inputs contents h" ctx]
      then show ?thesis
        unfolding create_event_handler_callback_def h0 [symmetric] Let_def
        using found l eq by simp
    qed
  qed
qed

lemma remove_event_set:
  assumes laws: "list_laws (c_lists api) contents" and inv: "inputs_inv contents h"
  shows "set_ok contents (inputs contents h) ((inputs contents h)(n := None)) (remove_event_unsubscribe_if_needed api n h)
    \<and> (fst (result_of (remove_event_unsubscribe_if_needed api n h)) = IOTHUB_CLIENT_OK \<longleftrightarrow> inputs contents h n \<noteq> None)"
proof (rule find_handler_cases [OF laws inv, of n], goal_cases absent found)
  case absent
  then show ?thesis using inv by (simp add: remove_event_unsubscribe_if_needed_def set_okI(2))
next
  case (found l xs i p ys ev)
  let ?h = "h\<lparr>handlers := (handlers h)(p := None)\<rparr>"
  obtain ok l' e where r: "singlylinkedlist_remove (c_lists api) l i (env ?h) = (ok, l', e)" by (metis prod_cases3)
  note rm = list_remove [OF laws found(2) r]
  let ?g = "?h\<lparr>event_callbacks := Some l', env := e\<rparr>"
  let ?g' = "if singlylinkedlist_get_head_item (c_lists api) l' = None
    then ?g\<lparr>transportHandle := IoTHubTransport_Unsubscribe_InputQueue api ToClient (transportHandle ?g)\<rparr> else ?g"
  have "remove_event_unsubscribe_if_needed api n h = Done (IOTHUB_CLIENT_OK, ?g')"
    using found rm(1) r by (simp add: remove_event_unsubscribe_if_needed_def delete_event_def Let_def)
  moreover have "inputs_inv contents ?g' \<and> inputs contents ?g' = (inputs contents h)(n := None)"
    using rm by (intro remove_handler [OF inv found(1,2,3,4,6,7,8)]) simp_all
  ultimately show ?thesis using found(10) by (simp add: set_okI(1))
qed

text \<open>Deleting the whole list.\<close>

lemma delete_all:
  assumes laws: "list_laws (c_lists api) contents" and l: "contents l = seen @ todo"
    and n: "length todo < n" and d: "distinct (map snd todo)" "set (map snd todo) \<subseteq> dom (handlers h)"
  shows "delete_event_callbacks n api l (list_item_at todo) h = Done (h\<lparr>handlers := handlers h |` (- set (map snd todo))\<rparr>)"
  using l n d
proof (induction todo arbitrary: seen n h)
  case Nil
  then show ?case by (cases n) (simp_all add: list_item_at_def)
next
  case (Cons x todo)
  obtain i p where x: "x = (i, p)" by (cases x)
  obtain m where m: "n = Suc m" "length todo < m" using Cons.prems(2) by (cases n) auto
  have c: "contents l = seen @ (i, p) # todo" using Cons.prems(1) x by simp
  note li = list_item [OF laws c]
  let ?h = "h\<lparr>handlers := (handlers h)(p := None)\<rparr>"
  have "p \<notin> set (map snd todo)" "set (map snd todo) \<subseteq> dom (handlers h)" "distinct (map snd todo)"
    using Cons.prems(3,4) x by auto
  then have d: "set (map snd todo) \<subseteq> dom (handlers ?h)" "distinct (map snd todo)" by auto
  have IH: "delete_event_callbacks m api l (list_item_at todo) ?h = Done (?h\<lparr>handlers := handlers ?h |` (- set (map snd todo))\<rparr>)"
    by (rule Cons.IH [of "seen @ [(i, p)]"]) (use c m(2) d in \<open>simp_all del: dom_fun_upd fun_upd_apply\<close>)
  obtain ev where ev: "handlers h p = Some ev" using Cons.prems(4) x by auto
  have "(handlers h)(p := None) |` (- set (map snd todo)) = handlers h |` (- set (map snd (x # todo)))"
    using x by (auto simp: fun_eq_iff restrict_map_def)
  then show ?case
    using IH li ev by (simp add: m(1) x list_item_at_def delete_event_def)
qed

lemma delete_handlers:
  assumes laws: "list_laws (c_lists api) contents" and inv: "inputs_inv contents h"
    and n: "length (handler_ptrs contents h) < n"
  shows "\<exists>h'. delete_event_callback_list n api h = Done h' \<and> inputs_inv contents h' \<and> handlers h' = Map.empty
    \<and> event_callbacks h' = None \<and> h' = h\<lparr>handlers := handlers h', event_callbacks := None\<rparr>"
proof (cases "event_callbacks h")
  case None
  then have "dom (handlers h) = {}" using inv by (simp add: inputs_inv_def handler_ptrs_def)
  then have "handlers h = Map.empty" by simp
  with None inv show ?thesis by (intro exI [of _ h]) (simp add: delete_event_callback_list_def)
next
  case (Some l)
  have p: "handler_ptrs contents h = map snd (contents l)" by (simp add: handler_ptrs_def Some)
  have "delete_event_callbacks n api l (list_item_at (contents l)) h =
      Done (h\<lparr>handlers := handlers h |` (- set (map snd (contents l)))\<rparr>)"
    using inv n unfolding inputs_inv_def p by (intro delete_all [OF laws, of _ "[]"]) simp_all
  moreover have "handlers h |` (- set (map snd (contents l))) = Map.empty"
    using inv unfolding inputs_inv_def p by (auto simp: restrict_map_def fun_eq_iff)
  moreover have "singlylinkedlist_get_head_item (c_lists api) l = list_item_at (contents l)"
    by (simp add: list_head [OF laws] list_item_at_def)
  ultimately show ?thesis
    using Some inv by (simp add: delete_event_callback_list_def inputs_inv_def handler_ptrs_def)
qed

lemma inputs_empty_iff:
  "inputs_inv contents h \<Longrightarrow> handlers h = Map.empty \<Longrightarrow> inputs contents h = Map.empty"
  by (simp add: inputs_inv_def inputs_def)

lemma set_input_spec:
  assumes laws: "list_laws (c_lists api) contents" and inv: "inputs_inv contents h"
    and fuel: "Suc (card (dom (handlers h))) < n"
    and cb: "cb \<noteq> None \<or> cbEx \<noteq> None"
    and mem: "ctxEx = None \<or> inputs contents h name = None \<or> memory_available (c_os api)"
  shows "\<exists>r h'. IoTHubClientCore_LL_SetInputMessageCallbackImpl n api name cb cbEx ctx ctxEx (Some h) = Done (r, Some h')
    \<and> inputs_inv contents h' \<and> (r = IOTHUB_CLIENT_OK \<or> r = IOTHUB_CLIENT_ERROR)
    \<and> inputs contents h' = (if r = IOTHUB_CLIENT_OK
        then (inputs contents h)(name \<mapsto> new_event name cb cbEx ctx ctxEx (inputs contents h name))
        else inputs contents h)"
proof -
  let ?m = "(inputs contents h)(name \<mapsto> new_event name cb cbEx ctx ctxEx (inputs contents h name))"
  define reg where "reg = (case event_callbacks h of None \<Rightarrow> False
    | Some l \<Rightarrow> singlylinkedlist_get_head_item (c_lists api) l \<noteq> None)"
  obtain r h1 where c: "create_event_handler_callback api name cb cbEx ctx ctxEx h = Done (r, h1)"
      "inputs_inv contents h1" "r = IOTHUB_CLIENT_OK \<or> r = IOTHUB_CLIENT_ERROR"
      "inputs contents h1 = (if r = IOTHUB_CLIENT_OK then ?m else inputs contents h)"
    using create_event_set [OF laws inv cb mem, of ctx] unfolding set_ok_def by blast
  have unreg: "inputs contents h = Map.empty" if "\<not> reg"
    using that by (auto simp: reg_def inputs_def handler_ptrs_def list_head [OF laws] split: option.splits list.splits prod.splits)
  obtain ok t where t: "IoTHubTransport_Subscribe_InputQueue api (deviceHandle h1) (transportHandle h1) = (ok, t)" by fastforce
  let ?h2 = "h1\<lparr>transportHandle := t\<rparr>"
  have inv2: "inputs_inv contents ?h2 \<and> inputs contents ?h2 = inputs contents h1"
    by (rule inputs_frame [OF c(2)]) (simp_all add: handler_ptrs_def)
  have run: "IoTHubClientCore_LL_SetInputMessageCallbackImpl n api name cb cbEx ctx ctxEx (Some h) =
      (if r \<noteq> IOTHUB_CLIENT_OK then Done (r, Some h1)
       else if reg then Done (IOTHUB_CLIENT_OK, Some h1)
       else if \<not> ok then run_bind (delete_event_callback_list n api ?h2) (\<lambda>h. Done (IOTHUB_CLIENT_ERROR, Some h))
       else Done (IOTHUB_CLIENT_OK, Some ?h2))"
    unfolding IoTHubClientCore_LL_SetInputMessageCallbackImpl_def option.case reg_def [symmetric] Let_def c(1)
    using cb by (auto simp: on_transport_def t)
  show ?thesis
  proof (cases "r = IOTHUB_CLIENT_OK \<and> \<not> reg \<and> \<not> ok")
    case False
    show ?thesis
    proof (cases "r = IOTHUB_CLIENT_OK \<and> \<not> reg")
      case True
      with False show ?thesis using inv2 c(4) by (simp add: run)
    next
      case False
      then have r: "IoTHubClientCore_LL_SetInputMessageCallbackImpl n api name cb cbEx ctx ctxEx (Some h) = Done (r, Some h1)"
        using c(3) by (simp add: run)
      show ?thesis by (intro exI [of _ r] exI [of _ h1] conjI) (rule r, rule c(2), rule c(3), rule c(4))
    qed
  next
    case True
    have names: "fst ` set (named (handlers h1) (handler_ptrs contents h1)) = dom (inputs contents h1)"
      by (simp add: inputs_def dom_map_of_conv_image_fst)
    have "distinct (map fst (named (handlers h1) (handler_ptrs contents h1)))" using c(2) by (simp add: inputs_inv_def)
    from distinct_card [OF this]
    have "length (handler_ptrs contents h1) = card (fst ` set (named (handlers h1) (handler_ptrs contents h1)))"
      by (simp add: named_def image_comp comp_def)
    also have "\<dots> = 1" unfolding names using True c(4) unreg by simp
    finally have "length (handler_ptrs contents ?h2) < n" using fuel by (simp add: handler_ptrs_def)
    from delete_handlers [OF laws conjunct1 [OF inv2] this]
    obtain h3 where h3: "delete_event_callback_list n api ?h2 = Done h3" "inputs_inv contents h3" "handlers h3 = Map.empty" by blast
    show ?thesis
      using True h3 unreg inputs_empty_iff [OF h3(2,3)] by (simp add: run)
  qed
qed

lemma remove_input_spec:
  assumes laws: "list_laws (c_lists api) contents" and inv: "inputs_inv contents h"
  shows "\<exists>h'. IoTHubClientCore_LL_SetInputMessageCallbackImpl n api name None None ctx ctxEx (Some h)
      = Done (if inputs contents h name = None then IOTHUB_CLIENT_ERROR else IOTHUB_CLIENT_OK, Some h')
    \<and> inputs_inv contents h' \<and> inputs contents h' = (inputs contents h)(name := None)"
proof -
  obtain r h' where c: "remove_event_unsubscribe_if_needed api name h = Done (r, h')" "inputs_inv contents h'"
      "r = IOTHUB_CLIENT_OK \<or> r = IOTHUB_CLIENT_ERROR"
      "inputs contents h' = (if r = IOTHUB_CLIENT_OK then (inputs contents h)(name := None) else inputs contents h)"
    using remove_event_set [OF laws inv, of name] unfolding set_ok_def by blast
  moreover have "r = IOTHUB_CLIENT_OK \<longleftrightarrow> inputs contents h name \<noteq> None"
    using remove_event_set [OF laws inv, of name] c(1) by simp
  ultimately show ?thesis
    by (auto simp: IoTHubClientCore_LL_SetInputMessageCallbackImpl_def fun_eq_iff)
qed

section \<open>Delivery finds the handler of the map\<close>

definition input_handler :: "(string option \<rightharpoonup> IOTHUB_EVENT_CALLBACK) \<Rightarrow> string option \<Rightarrow> IOTHUB_EVENT_CALLBACK option" where
  "input_handler m name = (case m name of None \<Rightarrow> m None | Some ev \<Rightarrow> Some ev)"

text \<open>What a delivery may change.\<close>

definition delivery_frame :: "('mp, 't, 'l, 'e, 'm) CLIENT_scheme \<Rightarrow> ('mp, 't, 'l, 'e, 'm) CLIENT_scheme \<Rightarrow> bool" where
  "delivery_frame h h' \<longleftrightarrow> h' = h\<lparr>lastMessageReceiveTime := lastMessageReceiveTime h', env := env h',
     user_calls := user_calls h', transportHandle := transportHandle h'\<rparr>"

lemma delivery_frame_refl: "delivery_frame h h"
  unfolding delivery_frame_def by (rule CLIENT.equality) simp_all

lemma delivery_frameI: "delivery_frame h (h\<lparr>env := e, lastMessageReceiveTime := t, user_calls := u, env := e'\<rparr>)"
  "delivery_frame h (h\<lparr>env := e, lastMessageReceiveTime := t, user_calls := u, env := e', transportHandle := th\<rparr>)"
  unfolding delivery_frame_def by (rule_tac [!] CLIENT.equality) simp_all

lemma message_from_input_spec:
  assumes laws: "list_laws (c_lists api) contents" and inv: "inputs_inv contents h"
    and msg: "info_messageHandle info = Some msg"
  shows "\<exists>b h'. IoTHubClientCore_LL_MessageCallbackFromInput api (Some info) (Some h) = Done (b, Some h')
    \<and> inputs_inv contents h' \<and> inputs contents h' = inputs contents h \<and> delivery_frame h h'
    \<and> (case input_handler (inputs contents h) (inputName msg) of
          None \<Rightarrow> \<not> b \<and> h' = h
        | Some ev \<Rightarrow>
            (case callbackAsyncEx ev of
               Some cb \<Rightarrow> user_calls h' = user_calls h @ [InputDeliveredEx cb info (userContextCallbackEx ev)]
                 \<and> transportHandle h' = transportHandle h
             | None \<Rightarrow> b \<and> user_calls h' = user_calls h @ [InputDelivered (the (callbackAsync ev)) msg (userContextCallback ev)]
                 \<and> (\<exists>d. transportHandle h' = snd (IoTHubTransport_SendMessageDisposition api info d (transportHandle h)))))"
proof (cases "event_callbacks h")
  case None
  then have "inputs contents h = Map.empty" by (simp add: inputs_def handler_ptrs_def)
  with None msg inv show ?thesis
    by (intro exI [of _ False] exI [of _ h])
      (simp add: IoTHubClientCore_LL_MessageCallbackFromInput_def input_handler_def delivery_frame_refl)
next
  case (Some l)
  let ?name = "inputName msg"
  have absent: "find_handler api k h = Done None" if "inputs contents h k = None" for k
    using that by (rule_tac find_handler_cases [OF laws inv, of k]) auto
  have found: "\<exists>i p. find_handler api k h = Done (Some i) \<and> p \<noteq> 0 \<and> handlers h p = Some ev
      \<and> singlylinkedlist_item_get_value (c_lists api) l i = Done p"
    if "inputs contents h k = Some ev" for k ev
    using that Some by (rule_tac find_handler_cases [OF laws inv, of k]) auto
  have name: "IoTHubMessage_GetInputName (Some msg) = ?name" by (simp add: IoTHubMessage_GetInputName_def)
  show ?thesis
  proof (cases "input_handler (inputs contents h) ?name")
    case None
    then have "find_handler api ?name h = Done None" "find_handler api None h = Done None"
      using absent by (auto simp: input_handler_def split: option.splits)
    with None Some msg inv name show ?thesis
      by (intro exI [of _ False] exI [of _ h])
        (simp add: IoTHubClientCore_LL_MessageCallbackFromInput_def delivery_frame_refl)
  next
    case (Some ev)
    obtain i p where f: "run_bind (find_handler api ?name h) (\<lambda>found. if found = None then find_handler api None h else Done found)
        = Done (Some i)" "p \<noteq> 0" "handlers h p = Some ev" "singlylinkedlist_item_get_value (c_lists api) l i = Done p"
      using Some absent [of ?name] found [of ?name ev] found [of None ev]
      by (cases "inputs contents h ?name") (auto simp: input_handler_def)
    then obtain fo where fo: "find_handler api ?name h = Done fo" "(if fo = None then find_handler api None h else Done fo) = Done (Some i)"
      by (auto simp: run_bind_Done_iff)
    have cb: "callbackAsync ev \<noteq> None \<or> callbackAsyncEx ev \<noteq> None" using inv f(3) by (auto simp: inputs_inv_def ran_def)
    have frame: "inputs_inv contents g \<and> inputs contents g = inputs contents h"
      if "event_callbacks g = event_callbacks h" "handlers g = handlers h" "next_handler g = next_handler h" for g
      using that by (intro inputs_frame [OF inv]) (simp_all add: handler_ptrs_def)
    obtain now e where now: "os_time (c_os api) (env h) = (now, e)" by fastforce
    let ?h = "h\<lparr>env := e, lastMessageReceiveTime := now\<rparr>"
    show ?thesis
    proof (cases "callbackAsyncEx ev")
      case (Some cb)
      obtain b e' where u: "on_input_ex api cb info (userContextCallbackEx ev) e = (b, e')" by fastforce
      let ?g = "?h\<lparr>user_calls := user_calls h @ [InputDeliveredEx cb info (userContextCallbackEx ev)], env := e'\<rparr>"
      have run: "IoTHubClientCore_LL_MessageCallbackFromInput api (Some info) (Some h) = Done (b, Some ?g)"
        using \<open>event_callbacks h = Some l\<close> msg name f(2-4) fo now Some u
        by (simp add: IoTHubClientCore_LL_MessageCallbackFromInput_def on_env_def tell_def Let_def)
      show ?thesis
        by (intro exI conjI, rule run) (use frame [of ?g] \<open>input_handler _ _ = Some ev\<close> Some delivery_frameI in simp_all)
    next
      case None
      then obtain cb where cb: "callbackAsync ev = Some cb" using cb by auto
      obtain d e' where u: "on_message api cb msg (userContextCallback ev) e = (d, e')" by fastforce
      obtain r t where t: "IoTHubTransport_SendMessageDisposition api info d (transportHandle h) = (r, t)" by fastforce
      let ?g = "?h\<lparr>user_calls := user_calls h @ [InputDelivered cb msg (userContextCallback ev)],
        env := e', transportHandle := t\<rparr>"
      have run: "IoTHubClientCore_LL_MessageCallbackFromInput api (Some info) (Some h) = Done (True, Some ?g)"
        using \<open>event_callbacks h = Some l\<close> msg name f(2-4) fo now None cb u t
        by (simp add: IoTHubClientCore_LL_MessageCallbackFromInput_def on_env_def on_transport_def tell_def Let_def)
      have t: "\<exists>d. t = snd (IoTHubTransport_SendMessageDisposition api info d (transportHandle h))"
        by (rule exI [of _ d]) (simp add: t)
      show ?thesis
        by (intro exI conjI, rule run) (use frame [of ?g] \<open>input_handler _ _ = Some ev\<close> None cb t delivery_frameI in simp_all)
    qed
  qed
qed

end
