(* ===== verification/ClientQueues.thy ===== *)
theory ClientQueues
  imports ClientInputs
begin

text \<open>
  The queues of the client core (iothub\_client\_core\_ll.c): events that wait to be sent, their
  timeouts and confirmations, reported states on their way and acknowledged, the callbacks of
  messages, twins and methods, and the options.
\<close>

section \<open>Events\<close>

text \<open>The two times a new entry gets; None when the tick counter fails.\<close>

definition attach_ms_timesOutAfter ::
  "('mp, 't, 'l, 'li, 'e, 'a) client_api_scheme \<Rightarrow> ('mp, 't, 'l, 'e, 'm) CLIENT_scheme
     \<Rightarrow> (64 word \<times> 64 word) option \<times> ('mp, 't, 'l, 'e, 'm) CLIENT_scheme" where
  "attach_ms_timesOutAfter api h =
     (if currentMessageTimeout h = 0 then (Some (0, 0), h)
      else (case on_env (tickcounter_get_current_ms api) h of
              (None, h) \<Rightarrow> (None, h)
            | (Some ms, h) \<Rightarrow> (Some (ms, currentMessageTimeout h), h)))"

definition IoTHubClientCore_LL_SendEventAsync ::
  "('mp, 't, 'l, 'li, 'e, 'a) client_api_scheme \<Rightarrow> 'mp IOTHUB_MESSAGE option \<Rightarrow> nat option \<Rightarrow> nat
     \<Rightarrow> ('mp, 't, 'l, 'e, 'm) CLIENT_scheme option
     \<Rightarrow> IOTHUB_CLIENT_RESULT \<times> ('mp, 't, 'l, 'e, 'm) CLIENT_scheme option" where
  "IoTHubClientCore_LL_SendEventAsync api eventMessage cb ctx ho =
     (case ho of
        None \<Rightarrow> (IOTHUB_CLIENT_INVALID_ARG, None)
      | Some h \<Rightarrow>
          if eventMessage = None \<or> (cb = None \<and> ctx \<noteq> 0) then (IOTHUB_CLIENT_INVALID_ARG, Some h)
          else (case on_env (os_malloc (c_os api)) h of (ok, h) \<Rightarrow>
            if \<not> ok then (IOTHUB_CLIENT_ERROR, Some h)
            else (case attach_ms_timesOutAfter api h of
              (None, h) \<Rightarrow> (IOTHUB_CLIENT_ERROR, Some h)
            | (Some (timesOutAfter, timeout_value), h) \<Rightarrow>
              (case on_env (IoTHubMessage_Clone (c_os api) (c_map api) eventMessage) h of
                (None, h) \<Rightarrow> (IOTHUB_CLIENT_ERROR, Some h)
              | (Some msg, h) \<Rightarrow>
                (case IoTHubClient_Diagnostic_AddIfNecessary (c_fl api) (c_os api) (Some (diagnostic_setting h)) (Some msg) (env h) of
                   (added, setting, msg', e) \<Rightarrow>
                   let h = h\<lparr>diagnostic_setting := the setting, env := e\<rparr> in
                   if \<not> added then (IOTHUB_CLIENT_ERROR, Some h)
                   else (IOTHUB_CLIENT_OK, Some (h\<lparr>waitingToSend := waitingToSend h @
                     [\<lparr>messageHandle = the msg', list_callback = cb, list_context = ctx,
                       ms_timesOutAfter = timesOutAfter, message_timeout_value = timeout_value\<rparr>]\<rparr>)))))))"

text \<open>The caller's message gets the name of the output, also when sending then fails.\<close>

definition IoTHubClientCore_LL_SendEventToOutputAsync ::
  "('mp, 't, 'l, 'li, 'e, 'a) client_api_scheme \<Rightarrow> 'mp IOTHUB_MESSAGE option \<Rightarrow> string option \<Rightarrow> nat option \<Rightarrow> nat
     \<Rightarrow> ('mp, 't, 'l, 'e, 'm) CLIENT_scheme option
     \<Rightarrow> IOTHUB_CLIENT_RESULT \<times> 'mp IOTHUB_MESSAGE option \<times> ('mp, 't, 'l, 'e, 'm) CLIENT_scheme option" where
  "IoTHubClientCore_LL_SendEventToOutputAsync api eventMessage output_name cb ctx ho =
     (case ho of
        None \<Rightarrow> (IOTHUB_CLIENT_INVALID_ARG, eventMessage, None)
      | Some h \<Rightarrow>
          if output_name = None \<or> eventMessage = None \<or> (cb = None \<and> ctx \<noteq> 0)
          then (IOTHUB_CLIENT_INVALID_ARG, eventMessage, Some h)
          else (case IoTHubMessage_SetOutputName (c_os api) eventMessage output_name (env h) of (r, msg, e) \<Rightarrow>
            let h = h\<lparr>env := e\<rparr> in
            if r \<noteq> IOTHUB_MESSAGE_OK then (IOTHUB_CLIENT_ERROR, msg, Some h)
            else (case IoTHubClientCore_LL_SendEventAsync api msg cb ctx (Some h) of (result, ho) \<Rightarrow> (result, msg, ho))))"

text \<open>A confirmation, when the entry has a callback; the entry and its message are then freed.\<close>

definition confirm ::
  "IOTHUB_CLIENT_CONFIRMATION_RESULT \<Rightarrow> 'mp IOTHUB_MESSAGE_LIST \<Rightarrow> ('mp, 't, 'l, 'e, 'm) CLIENT_scheme
     \<Rightarrow> ('mp, 't, 'l, 'e, 'm) CLIENT_scheme" where
  "confirm result x h =
     (case list_callback x of None \<Rightarrow> h | Some cb \<Rightarrow> tell (EventConfirmed cb result (list_context x)) h)"

text \<open>The loop of DoTimeouts, over the entries that are left and those it has kept.\<close>

definition timed_out_at :: "64 word \<Rightarrow> 'mp IOTHUB_MESSAGE_LIST \<Rightarrow> bool" where
  "timed_out_at nowTick x \<longleftrightarrow>
     ms_timesOutAfter x \<noteq> 0 \<and> nowTick - ms_timesOutAfter x > message_timeout_value x"

primrec timeouts_walk ::
  "64 word \<Rightarrow> 'mp IOTHUB_MESSAGE_LIST list \<Rightarrow> 'mp IOTHUB_MESSAGE_LIST list
     \<Rightarrow> ('mp, 't, 'l, 'e, 'm) CLIENT_scheme \<Rightarrow> ('mp, 't, 'l, 'e, 'm) CLIENT_scheme" where
  "timeouts_walk nowTick [] kept h = h\<lparr>waitingToSend := kept\<rparr>"
| "timeouts_walk nowTick (x # xs) kept h =
     (if timed_out_at nowTick x
      then timeouts_walk nowTick xs kept (confirm IOTHUB_CLIENT_CONFIRMATION_MESSAGE_TIMEOUT x (h\<lparr>waitingToSend := kept @ xs\<rparr>))
      else timeouts_walk nowTick xs (kept @ [x]) h)"

definition DoTimeouts ::
  "('mp, 't, 'l, 'li, 'e, 'a) client_api_scheme \<Rightarrow> ('mp, 't, 'l, 'e, 'm) CLIENT_scheme
     \<Rightarrow> ('mp, 't, 'l, 'e, 'm) CLIENT_scheme" where
  "DoTimeouts api h =
     (case on_env (tickcounter_get_current_ms api) h of
        (None, h) \<Rightarrow> h
      | (Some nowTick, h) \<Rightarrow> timeouts_walk nowTick (waitingToSend h) [] h)"

text \<open>The loop of IoTHubClientCore\_LL\_SendComplete and those of IoTHubClientCore\_LL\_Destroy.\<close>

primrec confirm_all ::
  "IOTHUB_CLIENT_CONFIRMATION_RESULT \<Rightarrow> 'mp IOTHUB_MESSAGE_LIST list \<Rightarrow> ('mp, 't, 'l, 'e, 'm) CLIENT_scheme
     \<Rightarrow> ('mp, 't, 'l, 'e, 'm) CLIENT_scheme" where
  "confirm_all result [] h = h"
| "confirm_all result (x # xs) h = confirm_all result xs (confirm result x h)"

definition IoTHubClientCore_LL_SendComplete ::
  "'mp IOTHUB_MESSAGE_LIST list option \<Rightarrow> IOTHUB_CLIENT_CONFIRMATION_RESULT
     \<Rightarrow> ('mp, 't, 'l, 'e, 'm) CLIENT_scheme option \<Rightarrow> ('mp, 't, 'l, 'e, 'm) CLIENT_scheme option" where
  "IoTHubClientCore_LL_SendComplete completed result ctx =
     (case (ctx, completed) of (Some h, Some xs) \<Rightarrow> Some (confirm_all result xs h) | _ \<Rightarrow> ctx)"

section \<open>Reported states\<close>

definition get_next_item_id ::
  "('mp, 't, 'l, 'e, 'm) CLIENT_scheme \<Rightarrow> 32 word \<times> ('mp, 't, 'l, 'e, 'm) CLIENT_scheme" where
  "get_next_item_id h =
     (let i = (if data_msg_id h + 1 \<ge> - 1 then 1 else data_msg_id h + 1) in (i, h\<lparr>data_msg_id := i\<rparr>))"

definition dev_twin_data_create ::
  "('mp, 't, 'l, 'li, 'e, 'a) client_api_scheme \<Rightarrow> 32 word \<Rightarrow> char list \<Rightarrow> nat option \<Rightarrow> nat
     \<Rightarrow> ('mp, 't, 'l, 'e, 'm) CLIENT_scheme \<Rightarrow> IOTHUB_DEVICE_TWIN option \<times> ('mp, 't, 'l, 'e, 'm) CLIENT_scheme" where
  "dev_twin_data_create api i reportedState cb ctx h =
     (case on_env (os_malloc (c_os api)) h of (ok, h) \<Rightarrow>
        if \<not> ok then (None, h)
        else (case on_env (os_malloc (c_os api)) h of (ok, h) \<Rightarrow>
          if \<not> ok then (None, h)
          else (Some \<lparr>item_id = i, twin_ms_timesOutAfter = 0, reported_state_callback = cb,
                  report_data = reportedState, twin_context = ctx, twin_device_handle = deviceHandle h\<rparr>, h)))"

text \<open>reportedState is given with its bytes; size is their number.\<close>

definition IoTHubClientCore_LL_SendReportedState ::
  "('mp, 't, 'l, 'li, 'e, 'a) client_api_scheme \<Rightarrow> char list option \<Rightarrow> nat option \<Rightarrow> nat
     \<Rightarrow> ('mp, 't, 'l, 'e, 'm) CLIENT_scheme option
     \<Rightarrow> IOTHUB_CLIENT_RESULT \<times> ('mp, 't, 'l, 'e, 'm) CLIENT_scheme option" where
  "IoTHubClientCore_LL_SendReportedState api reportedState cb ctx ho =
     (case (ho, reportedState) of
        (None, _) \<Rightarrow> (IOTHUB_CLIENT_INVALID_ARG, None)
      | (Some h, None) \<Rightarrow> (IOTHUB_CLIENT_INVALID_ARG, Some h)
      | (Some h, Some bytes) \<Rightarrow>
          if bytes = [] then (IOTHUB_CLIENT_INVALID_ARG, Some h)
          else (case get_next_item_id h of (i, h) \<Rightarrow>
            (case dev_twin_data_create api i bytes cb ctx h of
               (None, h) \<Rightarrow> (IOTHUB_CLIENT_ERROR, Some h)
             | (Some twin, h) \<Rightarrow>
                 (case on_transport (IoTHubTransport_Subscribe_DeviceTwin api) h of (ok, h) \<Rightarrow>
                    if \<not> ok then (IOTHUB_CLIENT_ERROR, Some h)
                    else (IOTHUB_CLIENT_OK, Some (h\<lparr>iot_msg_queue := iot_msg_queue h @ [twin]\<rparr>))))))"

definition report_done ::
  "int \<Rightarrow> IOTHUB_DEVICE_TWIN \<Rightarrow> ('mp, 't, 'l, 'e, 'm) CLIENT_scheme \<Rightarrow> ('mp, 't, 'l, 'e, 'm) CLIENT_scheme" where
  "report_done status_code x h =
     (case reported_state_callback x of
        None \<Rightarrow> h | Some cb \<Rightarrow> tell (ReportedStateDone cb status_code (twin_context x)) h)"

text \<open>The walk through iot\_ack\_queue, after the items already passed.\<close>

primrec ack_walk ::
  "32 word \<Rightarrow> int \<Rightarrow> IOTHUB_DEVICE_TWIN list \<Rightarrow> IOTHUB_DEVICE_TWIN list
     \<Rightarrow> ('mp, 't, 'l, 'e, 'm) CLIENT_scheme \<Rightarrow> ('mp, 't, 'l, 'e, 'm) CLIENT_scheme" where
  "ack_walk i status_code passed [] h = h"
| "ack_walk i status_code passed (x # xs) h =
     (if item_id x = i then (report_done status_code x h)\<lparr>iot_ack_queue := passed @ xs\<rparr>
      else ack_walk i status_code (passed @ [x]) xs h)"

definition IoTHubClientCore_LL_ReportedStateComplete ::
  "32 word \<Rightarrow> int \<Rightarrow> ('mp, 't, 'l, 'e, 'm) CLIENT_scheme option \<Rightarrow> ('mp, 't, 'l, 'e, 'm) CLIENT_scheme option" where
  "IoTHubClientCore_LL_ReportedStateComplete i status_code ctx =
     (case ctx of None \<Rightarrow> None | Some h \<Rightarrow> Some (ack_walk i status_code [] (iot_ack_queue h) h))"

text \<open>The loop of IoTHubClientCore\_LL\_DoWork over iot\_msg\_queue.\<close>

primrec process_items ::
  "('mp, 't, 'l, 'li, 'e, 'a) client_api_scheme \<Rightarrow> IOTHUB_DEVICE_TWIN list
     \<Rightarrow> ('mp, 't, 'l, 'e, 'm) CLIENT_scheme \<Rightarrow> ('mp, 't, 'l, 'e, 'm) CLIENT_scheme" where
  "process_items api [] h = h\<lparr>iot_msg_queue := []\<rparr>"
| "process_items api (x # xs) h =
     (case on_transport (IoTHubTransport_ProcessItem api x) h of (process_results, h) \<Rightarrow>
        if process_results = IOTHUB_PROCESS_CONTINUE \<or> process_results = IOTHUB_PROCESS_NOT_CONNECTED
        then h\<lparr>iot_msg_queue := x # xs\<rparr>
        else if process_results = IOTHUB_PROCESS_OK
        then process_items api xs (h\<lparr>iot_ack_queue := iot_ack_queue h @ [x]\<rparr>)
        else process_items api xs h)"

primrec report_all ::
  "int \<Rightarrow> IOTHUB_DEVICE_TWIN list \<Rightarrow> ('mp, 't, 'l, 'e, 'm) CLIENT_scheme \<Rightarrow> ('mp, 't, 'l, 'e, 'm) CLIENT_scheme" where
  "report_all status_code [] h = h"
| "report_all status_code (x # xs) h = report_all status_code xs (report_done status_code x h)"

end
