(* ===== verification/ClientSettings.thy ===== *)
theory ClientSettings
  imports ClientQueues
begin

text \<open>
  The settings of the client core (iothub\_client\_core\_ll.c): who gets messages, twins, methods and
  changes of the connection, the retry policy and the options. Messages and methods each have two
  kinds of callback, and who subscribed with one kind has to unsubscribe with it before the other
  can be used.
\<close>

section \<open>Messages\<close>

definition no_message_callback :: IOTHUB_MESSAGE_CALLBACK_DATA where
  "no_message_callback = \<lparr>msg_type = CALLBACK_TYPE_NONE, msg_callbackSync = None, msg_callbackAsync = None,
     msg_userContext = 0\<rparr>"

text \<open>What both functions do when they unsubscribe, and when subscribing fails.\<close>

definition unsubscribe_messages ::
  "('mp, 't, 'l, 'li, 'e, 'a) client_api_scheme \<Rightarrow> ('mp, 't, 'l, 'e, 'm) CLIENT_scheme
     \<Rightarrow> ('mp, 't, 'l, 'e, 'm) CLIENT_scheme" where
  "unsubscribe_messages api h =
     h\<lparr>transportHandle := IoTHubTransport_Unsubscribe api (deviceHandle h) (transportHandle h),
       messageCallback := no_message_callback\<rparr>"

definition IoTHubClientCore_LL_SetMessageCallback ::
  "('mp, 't, 'l, 'li, 'e, 'a) client_api_scheme \<Rightarrow> nat option \<Rightarrow> nat \<Rightarrow> ('mp, 't, 'l, 'e, 'm) CLIENT_scheme option
     \<Rightarrow> IOTHUB_CLIENT_RESULT \<times> ('mp, 't, 'l, 'e, 'm) CLIENT_scheme option" where
  "IoTHubClientCore_LL_SetMessageCallback api messageCb ctx ho =
     (case ho of
        None \<Rightarrow> (IOTHUB_CLIENT_INVALID_ARG, None)
      | Some h \<Rightarrow>
          (case messageCb of
             None \<Rightarrow>
               if msg_type (messageCallback h) = CALLBACK_TYPE_NONE then (IOTHUB_CLIENT_ERROR, Some h)
               else if msg_type (messageCallback h) = CALLBACK_TYPE_ASYNC then (IOTHUB_CLIENT_ERROR, Some h)
               else (IOTHUB_CLIENT_OK, Some (unsubscribe_messages api h))
           | Some cb \<Rightarrow>
               if msg_type (messageCallback h) = CALLBACK_TYPE_ASYNC then (IOTHUB_CLIENT_ERROR, Some h)
               else (case on_transport (IoTHubTransport_Subscribe api (deviceHandle h)) h of (ok, h) \<Rightarrow>
                 if ok then
                   (IOTHUB_CLIENT_OK, Some (h\<lparr>messageCallback := (messageCallback h)\<lparr>msg_type := CALLBACK_TYPE_SYNC,
                      msg_callbackSync := Some cb, msg_userContext := ctx\<rparr>\<rparr>))
                 else (IOTHUB_CLIENT_ERROR, Some (h\<lparr>messageCallback := no_message_callback\<rparr>)))))"

definition IoTHubClientCore_LL_SetMessageCallback_Ex ::
  "('mp, 't, 'l, 'li, 'e, 'a) client_api_scheme \<Rightarrow> nat option \<Rightarrow> nat \<Rightarrow> ('mp, 't, 'l, 'e, 'm) CLIENT_scheme option
     \<Rightarrow> IOTHUB_CLIENT_RESULT \<times> ('mp, 't, 'l, 'e, 'm) CLIENT_scheme option" where
  "IoTHubClientCore_LL_SetMessageCallback_Ex api messageCb ctx ho =
     (case ho of
        None \<Rightarrow> (IOTHUB_CLIENT_INVALID_ARG, None)
      | Some h \<Rightarrow>
          (case messageCb of
             None \<Rightarrow>
               if msg_type (messageCallback h) = CALLBACK_TYPE_NONE then (IOTHUB_CLIENT_ERROR, Some h)
               else if msg_type (messageCallback h) = CALLBACK_TYPE_SYNC then (IOTHUB_CLIENT_ERROR, Some h)
               else (IOTHUB_CLIENT_OK, Some (unsubscribe_messages api h))
           | Some cb \<Rightarrow>
               if msg_type (messageCallback h) = CALLBACK_TYPE_SYNC then (IOTHUB_CLIENT_ERROR, Some h)
               else (case on_transport (IoTHubTransport_Subscribe api (deviceHandle h)) h of (ok, h) \<Rightarrow>
                 if ok then
                   (IOTHUB_CLIENT_OK, Some (h\<lparr>messageCallback := (messageCallback h)\<lparr>msg_type := CALLBACK_TYPE_ASYNC,
                      msg_callbackAsync := Some cb, msg_userContext := ctx\<rparr>\<rparr>))
                 else (IOTHUB_CLIENT_ERROR, Some (h\<lparr>messageCallback := no_message_callback\<rparr>)))))"

definition IoTHubClientCore_LL_SendMessageDisposition ::
  "('mp, 't, 'l, 'li, 'e, 'a) client_api_scheme \<Rightarrow> 'mp MESSAGE_CALLBACK_INFO option
     \<Rightarrow> IOTHUBMESSAGE_DISPOSITION_RESULT \<Rightarrow> ('mp, 't, 'l, 'e, 'm) CLIENT_scheme option
     \<Rightarrow> IOTHUB_CLIENT_RESULT \<times> ('mp, 't, 'l, 'e, 'm) CLIENT_scheme option" where
  "IoTHubClientCore_LL_SendMessageDisposition api message_data disposition ho =
     (case (ho, message_data) of
        (Some h, Some info) \<Rightarrow>
          (case on_transport (IoTHubTransport_SendMessageDisposition api info disposition) h of (r, h) \<Rightarrow> (r, Some h))
      | _ \<Rightarrow> (IOTHUB_CLIENT_INVALID_ARG, ho))"

section \<open>Twins\<close>

definition IoTHubClientCore_LL_SetDeviceTwinCallback ::
  "('mp, 't, 'l, 'li, 'e, 'a) client_api_scheme \<Rightarrow> nat option \<Rightarrow> nat \<Rightarrow> ('mp, 't, 'l, 'e, 'm) CLIENT_scheme option
     \<Rightarrow> IOTHUB_CLIENT_RESULT \<times> ('mp, 't, 'l, 'e, 'm) CLIENT_scheme option" where
  "IoTHubClientCore_LL_SetDeviceTwinCallback api twinCb ctx ho =
     (case ho of
        None \<Rightarrow> (IOTHUB_CLIENT_INVALID_ARG, None)
      | Some h \<Rightarrow>
          (case twinCb of
             None \<Rightarrow>
               (IOTHUB_CLIENT_OK, Some (h\<lparr>transportHandle := IoTHubTransport_Unsubscribe_DeviceTwin api (transportHandle h),
                  deviceTwinCallback := None\<rparr>))
           | Some cb \<Rightarrow>
               (case on_transport (IoTHubTransport_Subscribe_DeviceTwin api) h of (ok, h) \<Rightarrow>
                  if ok then
                    (IOTHUB_CLIENT_OK, Some (h\<lparr>deviceTwinCallback := Some cb, deviceTwinContextCallback := ctx\<rparr>))
                  else (IOTHUB_CLIENT_ERROR, Some h))))"

definition IoTHubClientCore_LL_GetTwinAsync ::
  "('mp, 't, 'l, 'li, 'e, 'a) client_api_scheme \<Rightarrow> nat option \<Rightarrow> nat \<Rightarrow> ('mp, 't, 'l, 'e, 'm) CLIENT_scheme option
     \<Rightarrow> IOTHUB_CLIENT_RESULT \<times> ('mp, 't, 'l, 'e, 'm) CLIENT_scheme option" where
  "IoTHubClientCore_LL_GetTwinAsync api twinCb ctx ho =
     (case (ho, twinCb) of
        (Some h, Some cb) \<Rightarrow>
          (case on_transport (IoTHubTransport_Subscribe_DeviceTwin api) h of (ok, h) \<Rightarrow>
             if \<not> ok then (IOTHUB_CLIENT_ERROR, Some h)
             else (case on_env (os_malloc (c_os api)) h of (ok, h) \<Rightarrow>
               if \<not> ok then (IOTHUB_CLIENT_ERROR, Some h)
               else (case on_transport (IoTHubTransport_GetTwinAsync api (deviceHandle h) (cb, ctx)) h of (r, h) \<Rightarrow>
                 if r \<noteq> IOTHUB_CLIENT_OK then (IOTHUB_CLIENT_ERROR, Some h)
                 else (IOTHUB_CLIENT_OK, Some (h\<lparr>complete_twin_update_encountered := True\<rparr>)))))
      | _ \<Rightarrow> (IOTHUB_CLIENT_INVALID_ARG, ho))"

section \<open>Methods\<close>

definition ResetMethodCallbackData ::
  "('mp, 't, 'l, 'e, 'm) CLIENT_scheme \<Rightarrow> ('mp, 't, 'l, 'e, 'm) CLIENT_scheme" where
  "ResetMethodCallbackData h = h\<lparr>methodCallback := \<lparr>method_type = CALLBACK_TYPE_NONE, method_callbackSync = None,
     method_callbackAsync = None, method_userContext = 0\<rparr>\<rparr>"

definition VerifyMethodCallbackType ::
  "('mp, 't, 'l, 'e, 'm) CLIENT_scheme \<Rightarrow> CALLBACK_TYPE \<Rightarrow> bool \<Rightarrow> IOTHUB_CLIENT_RESULT" where
  "VerifyMethodCallbackType h desiredCallbackType unsubscribing =
     (if unsubscribing then
        if method_type (methodCallback h) = CALLBACK_TYPE_NONE then IOTHUB_CLIENT_ERROR
        else if method_type (methodCallback h) \<noteq> desiredCallbackType then IOTHUB_CLIENT_ERROR
        else IOTHUB_CLIENT_OK
      else
        if method_type (methodCallback h) \<noteq> CALLBACK_TYPE_NONE \<and> method_type (methodCallback h) \<noteq> desiredCallbackType
        then IOTHUB_CLIENT_ERROR
        else IOTHUB_CLIENT_OK)"

definition IoTHubClientCore_LL_SetDeviceMethodCallback ::
  "('mp, 't, 'l, 'li, 'e, 'a) client_api_scheme \<Rightarrow> nat option \<Rightarrow> nat \<Rightarrow> ('mp, 't, 'l, 'e, 'm) CLIENT_scheme option
     \<Rightarrow> IOTHUB_CLIENT_RESULT \<times> ('mp, 't, 'l, 'e, 'm) CLIENT_scheme option" where
  "IoTHubClientCore_LL_SetDeviceMethodCallback api methodCb ctx ho =
     (case ho of
        None \<Rightarrow> (IOTHUB_CLIENT_INVALID_ARG, None)
      | Some h \<Rightarrow>
          let unsubscribing = (methodCb = None);
              result = VerifyMethodCallbackType h CALLBACK_TYPE_SYNC unsubscribing
          in if result \<noteq> IOTHUB_CLIENT_OK then (result, Some h)
             else if unsubscribing then
               (IOTHUB_CLIENT_OK, Some (ResetMethodCallbackData
                  (h\<lparr>transportHandle := IoTHubTransport_Unsubscribe_DeviceMethod api (deviceHandle h) (transportHandle h)\<rparr>)))
             else (case on_transport (IoTHubTransport_Subscribe_DeviceMethod api (deviceHandle h)) h of (ok, h) \<Rightarrow>
               if ok then
                 (IOTHUB_CLIENT_OK, Some (h\<lparr>methodCallback := (methodCallback h)\<lparr>method_type := CALLBACK_TYPE_SYNC,
                    method_callbackSync := methodCb, method_userContext := ctx\<rparr>\<rparr>))
               else (IOTHUB_CLIENT_ERROR, Some (ResetMethodCallbackData h))))"

definition IoTHubClientCore_LL_SetDeviceMethodCallback_Ex ::
  "('mp, 't, 'l, 'li, 'e, 'a) client_api_scheme \<Rightarrow> nat option \<Rightarrow> nat \<Rightarrow> ('mp, 't, 'l, 'e, 'm) CLIENT_scheme option
     \<Rightarrow> IOTHUB_CLIENT_RESULT \<times> ('mp, 't, 'l, 'e, 'm) CLIENT_scheme option" where
  "IoTHubClientCore_LL_SetDeviceMethodCallback_Ex api methodCb ctx ho =
     (case ho of
        None \<Rightarrow> (IOTHUB_CLIENT_INVALID_ARG, None)
      | Some h \<Rightarrow>
          let unsubscribing = (methodCb = None);
              result = VerifyMethodCallbackType h CALLBACK_TYPE_ASYNC unsubscribing
          in if result \<noteq> IOTHUB_CLIENT_OK then (result, Some h)
             else if unsubscribing then
               (IOTHUB_CLIENT_OK, Some (ResetMethodCallbackData
                  (h\<lparr>transportHandle := IoTHubTransport_Unsubscribe_DeviceMethod api (deviceHandle h) (transportHandle h)\<rparr>)))
             else (case on_transport (IoTHubTransport_Subscribe_DeviceMethod api (deviceHandle h)) h of (ok, h) \<Rightarrow>
               if ok then
                 (IOTHUB_CLIENT_OK, Some (h\<lparr>methodCallback := (methodCallback h)\<lparr>method_type := CALLBACK_TYPE_ASYNC,
                    method_callbackAsync := methodCb, method_userContext := ctx\<rparr>\<rparr>))
               else (IOTHUB_CLIENT_ERROR, Some (ResetMethodCallbackData h))))"

text \<open>methodId 0 is NULL.\<close>

definition IoTHubClientCore_LL_DeviceMethodResponse ::
  "('mp, 't, 'l, 'li, 'e, 'a) client_api_scheme \<Rightarrow> nat \<Rightarrow> char list option \<Rightarrow> int
     \<Rightarrow> ('mp, 't, 'l, 'e, 'm) CLIENT_scheme option
     \<Rightarrow> IOTHUB_CLIENT_RESULT \<times> ('mp, 't, 'l, 'e, 'm) CLIENT_scheme option" where
  "IoTHubClientCore_LL_DeviceMethodResponse api methodId response status_response ho =
     (case ho of
        None \<Rightarrow> (IOTHUB_CLIENT_INVALID_ARG, None)
      | Some h \<Rightarrow>
          if methodId = 0 then (IOTHUB_CLIENT_INVALID_ARG, Some h)
          else (case on_transport (IoTHubTransport_DeviceMethod_Response api (deviceHandle h) methodId response
                  status_response) h of (r, h) \<Rightarrow>
            (if r \<noteq> 0 then IOTHUB_CLIENT_ERROR else IOTHUB_CLIENT_OK, Some h)))"

section \<open>Status, connection and retry policy\<close>

text \<open>The second argument says whether the pointer the answer goes to is not NULL.\<close>

definition IoTHubClientCore_LL_GetSendStatus ::
  "('mp, 't, 'l, 'li, 'e, 'a) client_api_scheme \<Rightarrow> bool \<Rightarrow> ('mp, 't, 'l, 'e, 'm) CLIENT_scheme option
     \<Rightarrow> IOTHUB_CLIENT_RESULT \<times> IOTHUB_CLIENT_STATUS option \<times> ('mp, 't, 'l, 'e, 'm) CLIENT_scheme option" where
  "IoTHubClientCore_LL_GetSendStatus api iotHubClientStatus ho =
     (case ho of
        None \<Rightarrow> (IOTHUB_CLIENT_INVALID_ARG, None, None)
      | Some h \<Rightarrow>
          if \<not> iotHubClientStatus then (IOTHUB_CLIENT_INVALID_ARG, None, Some h)
          else (case IoTHubTransport_GetSendStatus api (deviceHandle h) (transportHandle h) of (r, status, t) \<Rightarrow>
            (r, status, Some (h\<lparr>transportHandle := t\<rparr>))))"

definition IoTHubClientCore_LL_SetConnectionStatusCallback ::
  "nat option \<Rightarrow> nat \<Rightarrow> ('mp, 't, 'l, 'e, 'm) CLIENT_scheme option
     \<Rightarrow> IOTHUB_CLIENT_RESULT \<times> ('mp, 't, 'l, 'e, 'm) CLIENT_scheme option" where
  "IoTHubClientCore_LL_SetConnectionStatusCallback cb ctx ho =
     (case ho of
        None \<Rightarrow> (IOTHUB_CLIENT_INVALID_ARG, None)
      | Some h \<Rightarrow> (IOTHUB_CLIENT_OK, Some (h\<lparr>conStatusCallback := cb, conStatusUserContextCallback := ctx\<rparr>)))"

text \<open>The transport handle of a client that was created is not NULL.\<close>

definition IoTHubClientCore_LL_SetRetryPolicy ::
  "('mp, 't, 'l, 'li, 'e, 'a) client_api_scheme \<Rightarrow> IOTHUB_CLIENT_RETRY_POLICY \<Rightarrow> nat
     \<Rightarrow> ('mp, 't, 'l, 'e, 'm) CLIENT_scheme option
     \<Rightarrow> IOTHUB_CLIENT_RESULT \<times> ('mp, 't, 'l, 'e, 'm) CLIENT_scheme option" where
  "IoTHubClientCore_LL_SetRetryPolicy api policy' limit ho =
     (case ho of
        None \<Rightarrow> (IOTHUB_CLIENT_INVALID_ARG, None)
      | Some h \<Rightarrow>
          (case on_transport (IoTHubTransport_SetRetryPolicy api policy' limit) h of (ok, h) \<Rightarrow>
             if \<not> ok then (IOTHUB_CLIENT_ERROR, Some h)
             else (IOTHUB_CLIENT_OK, Some (h\<lparr>retryPolicy := policy', retryTimeoutLimitInSeconds := limit\<rparr>))))"

definition IoTHubClientCore_LL_GetRetryPolicy ::
  "bool \<Rightarrow> bool \<Rightarrow> ('mp, 't, 'l, 'e, 'm) CLIENT_scheme option
     \<Rightarrow> IOTHUB_CLIENT_RESULT \<times> (IOTHUB_CLIENT_RETRY_POLICY \<times> nat) option" where
  "IoTHubClientCore_LL_GetRetryPolicy has_policy has_limit ho =
     (case ho of
        None \<Rightarrow> (IOTHUB_CLIENT_INVALID_ARG, None)
      | Some h \<Rightarrow>
          if \<not> has_policy \<or> \<not> has_limit then (IOTHUB_CLIENT_INVALID_ARG, None)
          else (IOTHUB_CLIENT_OK, Some (retryPolicy h, retryTimeoutLimitInSeconds h)))"

definition IoTHubClientCore_LL_GetLastMessageReceiveTime ::
  "bool \<Rightarrow> ('mp, 't, 'l, 'e, 'm) CLIENT_scheme option \<Rightarrow> IOTHUB_CLIENT_RESULT \<times> int option" where
  "IoTHubClientCore_LL_GetLastMessageReceiveTime has_time ho =
     (case ho of
        None \<Rightarrow> (IOTHUB_CLIENT_INVALID_ARG, None)
      | Some h \<Rightarrow>
          if \<not> has_time then (IOTHUB_CLIENT_INVALID_ARG, None)
          else if lastMessageReceiveTime h = INDEFINITE_TIME then (IOTHUB_CLIENT_INDEFINITE_TIME, None)
          else (IOTHUB_CLIENT_OK, Some (lastMessageReceiveTime h)))"

section \<open>Options\<close>

definition OPTION_MESSAGE_TIMEOUT :: string where
  "OPTION_MESSAGE_TIMEOUT = ''messageTimeout''"

definition OPTION_PRODUCT_INFO :: string where
  "OPTION_PRODUCT_INFO = ''product_info''"

definition OPTION_DIAGNOSTIC_SAMPLING_PERCENTAGE :: string where
  "OPTION_DIAGNOSTIC_SAMPLING_PERCENTAGE = ''diag_sampling_percentage''"

definition OPTION_BLOB_UPLOAD_TIMEOUT_SECS :: string where
  "OPTION_BLOB_UPLOAD_TIMEOUT_SECS = ''blob_upload_timeout_secs''"

definition OPTION_NETWORK_INTERFACE_UPLOAD_TO_BLOB :: string where
  "OPTION_NETWORK_INTERFACE_UPLOAD_TO_BLOB = ''network_interface_upload_to_blob''"

definition OPTION_SAS_TOKEN_REFRESH_TIME :: string where
  "OPTION_SAS_TOKEN_REFRESH_TIME = ''sas_token_refresh_time''"

definition OPTION_SAS_TOKEN_LIFETIME :: string where
  "OPTION_SAS_TOKEN_LIFETIME = ''sas_token_lifetime''"

definition OPTION_MODEL_ID :: string where
  "OPTION_MODEL_ID = ''model_id''"

definition SDK_PREFIX_AND_VERSION :: string where
  "SDK_PREFIX_AND_VERSION = ''iothubclient'' @ ''/'' @ ''1.6.0''"

definition make_product_info ::
  "('mp, 't, 'l, 'li, 'e, 'a) client_api_scheme \<Rightarrow> string option \<Rightarrow> nat \<Rightarrow> 'e \<Rightarrow> string option \<times> 'e" where
  "make_product_info api product opt e =
     or_null (platform_get_platform_info api opt e) (\<lambda>pfi e.
       malloc_of (c_os api) (case product of
           None \<Rightarrow> SDK_PREFIX_AND_VERSION @ '' '' @ pfi
         | Some p \<Rightarrow> p @ '' '' @ SDK_PREFIX_AND_VERSION @ '' '' @ pfi) e)"

text \<open>
  A value of another type than the option expects is read as if it had it, which is undefined. The
  answer of the transport is not OK, or the upload module is told too, and its answer ignored.
\<close>

definition set_client_option ::
  "('mp, 't, 'l, 'li, 'e, 'a) client_api_scheme \<Rightarrow> string \<Rightarrow> option_value \<Rightarrow> ('mp, 't, 'l, 'e, 'm) CLIENT_scheme
     \<Rightarrow> (IOTHUB_CLIENT_RESULT \<times> ('mp, 't, 'l, 'e, 'm) CLIENT_scheme) run" where
  "set_client_option api optionName v h =
     (if optionName = OPTION_MESSAGE_TIMEOUT then
        (case v of TicksValue t \<Rightarrow> Done (IOTHUB_CLIENT_OK, h\<lparr>currentMessageTimeout := t\<rparr>) | _ \<Rightarrow> Fault)
      else if optionName = OPTION_PRODUCT_INFO then
        (case on_transport (IoTHubTransport_GetSupportedPlatformInfo api) (h\<lparr>product_info := None\<rparr>) of
           (None, h) \<Rightarrow> Done (IOTHUB_CLIENT_ERROR, h)
         | (Some supportedPlatformInfo, h) \<Rightarrow>
             (case v of
                StringValue s \<Rightarrow>
                  (case on_env (make_product_info api (Some s) supportedPlatformInfo) h of (info, h) \<Rightarrow>
                     Done (if info = None then IOTHUB_CLIENT_ERROR else IOTHUB_CLIENT_OK, h\<lparr>product_info := info\<rparr>))
              | _ \<Rightarrow> Fault))
      else if optionName = OPTION_DIAGNOSTIC_SAMPLING_PERCENTAGE then
        (case v of
           Uint32Value percentage \<Rightarrow>
             if percentage > 100 then Done (IOTHUB_CLIENT_ERROR, h)
             else Done (IOTHUB_CLIENT_OK, h\<lparr>diagnostic_setting :=
               \<lparr>diagSamplingPercentage = percentage, currentMessageNumber = 0\<rparr>\<rparr>)
         | _ \<Rightarrow> Fault)
      else if optionName = OPTION_BLOB_UPLOAD_TIMEOUT_SECS \<or> optionName = OPTION_CURL_VERBOSE api
           \<or> optionName = OPTION_NETWORK_INTERFACE_UPLOAD_TO_BLOB then
        Done (on_env (IoTHubClient_LL_UploadToBlob_SetOption api optionName v) h)
      else if optionName = OPTION_SAS_TOKEN_REFRESH_TIME \<or> optionName = OPTION_SAS_TOKEN_LIFETIME then
        (case v of
           SizeValue secs \<Rightarrow>
             (case IoTHubClient_Auth_Set_SasToken_Expiry (authorization_module h) (of_nat secs) of (ok, auth) \<Rightarrow>
                Done (if \<not> ok then IOTHUB_CLIENT_ERROR else IOTHUB_CLIENT_OK, h\<lparr>authorization_module := auth\<rparr>))
         | _ \<Rightarrow> Fault)
      else if optionName = OPTION_MODEL_ID then
        (if model_id h \<noteq> None then Done (IOTHUB_CLIENT_ERROR, h)
         else (case v of
            StringValue s \<Rightarrow>
              (case on_env (malloc_of (c_os api) s) h of (m, h) \<Rightarrow>
                 Done (if m = None then IOTHUB_CLIENT_ERROR else IOTHUB_CLIENT_OK, h\<lparr>model_id := m\<rparr>))
          | _ \<Rightarrow> Fault))
      else
        (case on_transport (IoTHubTransport_SetOption api optionName v) h of (result, h) \<Rightarrow>
           if result \<noteq> IOTHUB_CLIENT_OK then Done (result, h)
           else Done (result, snd (on_env (IoTHubClient_LL_UploadToBlob_SetOption api optionName v) h))))"

definition IoTHubClientCore_LL_SetOption ::
  "('mp, 't, 'l, 'li, 'e, 'a) client_api_scheme \<Rightarrow> string option \<Rightarrow> option_value option
     \<Rightarrow> ('mp, 't, 'l, 'e, 'm) CLIENT_scheme option
     \<Rightarrow> (IOTHUB_CLIENT_RESULT \<times> ('mp, 't, 'l, 'e, 'm) CLIENT_scheme option) run" where
  "IoTHubClientCore_LL_SetOption api optionName v ho =
     (case (ho, optionName, v) of
        (Some h, Some name, Some v) \<Rightarrow>
          run_bind (set_client_option api name v h) (\<lambda>(r, h). Done (r, Some h))
      | _ \<Rightarrow> Done (IOTHUB_CLIENT_INVALID_ARG, ho))"

end
