(* ===== verification/ClientCore.thy ===== *)
theory ClientCore
  imports ClientSettings
begin

text \<open>
  The client core, lower layer, as a whole (iothub\_client\_core\_ll.c): what the transport calls back,
  the user's callbacks for messages, twins, methods and the connection, the options, the turn of
  IoTHubClientCore\_LL\_DoWork and IoTHubClientCore\_LL\_Destroy.

  User callbacks do not call back into the client here: what they do before they return is their
  answer.
\<close>

section \<open>What the transport calls back\<close>

definition IoTHubClientCore_LL_RetrievePropertyComplete ::
  "DEVICE_TWIN_UPDATE_STATE \<Rightarrow> char list option \<Rightarrow> ('mp, 't, 'l, 'e, 'm) CLIENT_scheme option
     \<Rightarrow> ('mp, 't, 'l, 'e, 'm) CLIENT_scheme option" where
  "IoTHubClientCore_LL_RetrievePropertyComplete update_state payLoad ctx =
     (case ctx of
        None \<Rightarrow> None
      | Some h \<Rightarrow>
          (case deviceTwinCallback h of
             None \<Rightarrow> Some h
           | Some cb \<Rightarrow>
               (let h = (if update_state = DEVICE_TWIN_UPDATE_COMPLETE
                         then h\<lparr>complete_twin_update_encountered := True\<rparr> else h) in
                Some (if complete_twin_update_encountered h
                      then tell (TwinUpdated cb update_state payLoad (deviceTwinContextCallback h)) h
                      else h))))"

definition IoTHubClientCore_LL_ConnectionStatusCallBack ::
  "IOTHUB_CLIENT_CONNECTION_STATUS \<Rightarrow> IOTHUB_CLIENT_CONNECTION_STATUS_REASON
     \<Rightarrow> ('mp, 't, 'l, 'e, 'm) CLIENT_scheme option \<Rightarrow> ('mp, 't, 'l, 'e, 'm) CLIENT_scheme option" where
  "IoTHubClientCore_LL_ConnectionStatusCallBack status reason ctx =
     (case ctx of
        None \<Rightarrow> None
      | Some h \<Rightarrow>
          Some (case conStatusCallback h of
                  None \<Rightarrow> h
                | Some cb \<Rightarrow> tell (ConnectionStatusChanged cb status reason (conStatusUserContextCallback h)) h))"

definition IoTHubClientCore_LL_GetProductInfo :: "('mp, 't, 'l, 'e, 'm) CLIENT_scheme option \<Rightarrow> string option" where
  "IoTHubClientCore_LL_GetProductInfo ctx = (case ctx of None \<Rightarrow> None | Some h \<Rightarrow> product_info h)"

definition IoTHubClientCore_LL_GetModelId :: "('mp, 't, 'l, 'e, 'm) CLIENT_scheme option \<Rightarrow> string option" where
  "IoTHubClientCore_LL_GetModelId ctx = (case ctx of None \<Rightarrow> None | Some h \<Rightarrow> model_id h)"

text \<open>A callback that is NULL where the code calls it leaves defined behaviour.\<close>

definition invoke_message_callback ::
  "('mp, 't, 'l, 'li, 'e, 'a) client_api_scheme \<Rightarrow> 'mp MESSAGE_CALLBACK_INFO \<Rightarrow> 'mp IOTHUB_MESSAGE
     \<Rightarrow> ('mp, 't, 'l, 'e, 'm) CLIENT_scheme \<Rightarrow> (bool \<times> ('mp, 't, 'l, 'e, 'm) CLIENT_scheme) run" where
  "invoke_message_callback api info msg h =
     (case on_env (os_time (c_os api)) h of (now, h) \<Rightarrow>
        let h = h\<lparr>lastMessageReceiveTime := now\<rparr>; c = messageCallback h in
        case msg_type c of
          CALLBACK_TYPE_NONE \<Rightarrow> Done (False, h)
        | CALLBACK_TYPE_SYNC \<Rightarrow>
            (case msg_callbackSync c of
               None \<Rightarrow> Fault
             | Some cb \<Rightarrow>
                 (case on_env (on_message api cb msg (msg_userContext c))
                         (tell (MessageDelivered cb msg (msg_userContext c)) h) of (cb_result, h) \<Rightarrow>
                  case on_transport (IoTHubTransport_SendMessageDisposition api info cb_result) h of (_, h) \<Rightarrow>
                    Done (True, h)))
        | CALLBACK_TYPE_ASYNC \<Rightarrow>
            (case msg_callbackAsync c of
               None \<Rightarrow> Fault
             | Some cb \<Rightarrow>
                 Done (on_env (on_message_ex api cb info (msg_userContext c))
                         (tell (MessageDeliveredEx cb info (msg_userContext c)) h))))"

definition IoTHubClientCore_LL_MessageCallback ::
  "('mp, 't, 'l, 'li, 'e, 'a) client_api_scheme \<Rightarrow> 'mp MESSAGE_CALLBACK_INFO option
     \<Rightarrow> ('mp, 't, 'l, 'e, 'm) CLIENT_scheme option \<Rightarrow> (bool \<times> ('mp, 't, 'l, 'e, 'm) CLIENT_scheme option) run" where
  "IoTHubClientCore_LL_MessageCallback api messageData ctx =
     (case (ctx, messageData) of
        (Some h, Some info) \<Rightarrow>
          (case info_messageHandle info of
             None \<Rightarrow> Done (False, ctx)
           | Some msg \<Rightarrow> run_bind (invoke_message_callback api info msg h) (\<lambda>(r, h). Done (r, Some h)))
      | _ \<Rightarrow> Done (False, ctx))"

definition IoTHubClientCore_LL_DeviceMethodComplete ::
  "('mp, 't, 'l, 'li, 'e, 'a) client_api_scheme \<Rightarrow> string option \<Rightarrow> char list option \<Rightarrow> nat
     \<Rightarrow> ('mp, 't, 'l, 'e, 'm) CLIENT_scheme option \<Rightarrow> (int \<times> ('mp, 't, 'l, 'e, 'm) CLIENT_scheme option) run" where
  "IoTHubClientCore_LL_DeviceMethodComplete api method_name payLoad response_id ctx =
     (case ctx of
        None \<Rightarrow> Done (MU_FAILURE api, None)
      | Some h \<Rightarrow>
          (let c = methodCallback h in
           case method_type c of
             CALLBACK_TYPE_SYNC \<Rightarrow>
               (case method_callbackSync c of
                  None \<Rightarrow> Fault
                | Some cb \<Rightarrow>
                    (case on_env (on_method api cb method_name payLoad (method_userContext c))
                            (tell (MethodCalled cb method_name payLoad (method_userContext c)) h) of
                       ((status, payload_resp), h) \<Rightarrow>
                       if payload_resp \<noteq> None \<and> payload_resp \<noteq> Some [] then
                         (case on_transport (IoTHubTransport_DeviceMethod_Response api (deviceHandle h) response_id
                                 payload_resp status) h of (r, h) \<Rightarrow> Done (r, Some h))
                       else Done (MU_FAILURE api, Some h)))
           | CALLBACK_TYPE_ASYNC \<Rightarrow>
               (case method_callbackAsync c of
                  None \<Rightarrow> Fault
                | Some cb \<Rightarrow>
                    (case on_env (on_method_ex api cb method_name payLoad response_id (method_userContext c))
                            (tell (MethodCalledEx cb method_name payLoad response_id (method_userContext c)) h) of
                       (r, h) \<Rightarrow> Done (r, Some h)))
           | CALLBACK_TYPE_NONE \<Rightarrow> Done (0, Some h)))"

definition on_get_device_twin_completed ::
  "DEVICE_TWIN_UPDATE_STATE \<Rightarrow> char list option \<Rightarrow> (nat \<times> nat) option
     \<Rightarrow> ('mp, 't, 'l, 'e, 'm) CLIENT_scheme \<Rightarrow> ('mp, 't, 'l, 'e, 'm) CLIENT_scheme" where
  "on_get_device_twin_completed update_state payLoad getTwinCtx h =
     (case (getTwinCtx, payLoad) of
        (Some (cb, context'), Some bytes) \<Rightarrow> tell (TwinFetched cb update_state bytes context') h
      | _ \<Rightarrow> h)"

text \<open>
  IoTHubClientCore\_LL\_GetTransportCallbacks: which function of the client each call of the transport
  reaches, on a client that is not NULL.
\<close>

definition client_callback ::
  "('mp, 't, 'l, 'li, 'e, 'a) client_api_scheme \<Rightarrow> 'mp client_call \<Rightarrow> ('mp, 't, 'l, 'e, 'm) CLIENT_scheme
     \<Rightarrow> (answer \<times> ('mp, 't, 'l, 'e, 'm) CLIENT_scheme) run" where
  "client_callback api c h =
     (case c of
        SendComplete completed result \<Rightarrow>
          Done (Nothing, the (IoTHubClientCore_LL_SendComplete (Some completed) result (Some h)))
      | RetrievePropertyComplete state payLoad \<Rightarrow>
          Done (Nothing, the (IoTHubClientCore_LL_RetrievePropertyComplete state payLoad (Some h)))
      | ReportedStateComplete i status_code \<Rightarrow>
          Done (Nothing, the (IoTHubClientCore_LL_ReportedStateComplete i status_code (Some h)))
      | ConnectionStatusCallBack status reason \<Rightarrow>
          Done (Nothing, the (IoTHubClientCore_LL_ConnectionStatusCallBack status reason (Some h)))
      | GetProductInfo \<Rightarrow> Done (AString (IoTHubClientCore_LL_GetProductInfo (Some h)), h)
      | GetModelId \<Rightarrow> Done (AString (IoTHubClientCore_LL_GetModelId (Some h)), h)
      | MessageCallbackFromInput info \<Rightarrow>
          run_bind (IoTHubClientCore_LL_MessageCallbackFromInput api info (Some h)) (\<lambda>(r, ho). Done (ABool r, the ho))
      | MessageCallback info \<Rightarrow>
          run_bind (IoTHubClientCore_LL_MessageCallback api info (Some h)) (\<lambda>(r, ho). Done (ABool r, the ho))
      | DeviceMethodComplete name payLoad response_id \<Rightarrow>
          run_bind (IoTHubClientCore_LL_DeviceMethodComplete api name payLoad response_id (Some h))
            (\<lambda>(r, ho). Done (AInt r, the ho))
      | GetTwinCompleted getTwinCtx state payLoad \<Rightarrow>
          Done (Nothing, on_get_device_twin_completed state payLoad getTwinCtx h))"

primrec run_work ::
  "('mp, 't, 'l, 'li, 'e, 'a) client_api_scheme \<Rightarrow> ('mp, 't) work \<Rightarrow> ('mp, 't, 'l, 'e, 'm) CLIENT_scheme
     \<Rightarrow> ('mp, 't, 'l, 'e, 'm) CLIENT_scheme run" where
  "run_work api (WorkDone waiting t) h = Done (h\<lparr>waitingToSend := waiting, transportHandle := t\<rparr>)"
| "run_work api (CallBack c t k) h =
     run_bind (client_callback api c (h\<lparr>transportHandle := t\<rparr>)) (\<lambda>(a, h). run_work api (k a (transportHandle h)) h)"

section \<open>The turn of the client, and its end\<close>

definition IoTHubClientCore_LL_DoWork ::
  "('mp, 't, 'l, 'li, 'e, 'a) client_api_scheme \<Rightarrow> ('mp, 't, 'l, 'e, 'm) CLIENT_scheme option
     \<Rightarrow> ('mp, 't, 'l, 'e, 'm) CLIENT_scheme option run" where
  "IoTHubClientCore_LL_DoWork api ho =
     (case ho of
        None \<Rightarrow> Done None
      | Some h \<Rightarrow>
          (let h = DoTimeouts api h;
               h = process_items api (iot_msg_queue h) h
           in run_bind (run_work api (IoTHubTransport_DoWork api (waitingToSend h) (transportHandle h)) h)
                (\<lambda>h. Done (Some h))))"

definition ERROR_CODE_BECAUSE_DESTROY :: int where
  "ERROR_CODE_BECAUSE_DESTROY = 0"

text \<open>
  The handle as it is when it is freed, its queues empty, and the calls the user has got by then.
\<close>

definition IoTHubClientCore_LL_Destroy ::
  "nat \<Rightarrow> ('mp, 't, 'l, 'li, 'e, 'a) client_api_scheme \<Rightarrow> ('mp, 't, 'l, 'e, 'm) CLIENT_scheme option
     \<Rightarrow> ('mp, 't, 'l, 'e, 'm) CLIENT_scheme option run" where
  "IoTHubClientCore_LL_Destroy n api ho =
     (case ho of
        None \<Rightarrow> Done None
      | Some h \<Rightarrow>
          run_bind (run_work api (IoTHubTransport_Unregister api (deviceHandle h) (waitingToSend h) (transportHandle h)) h) (\<lambda>h.
          run_bind (if \<not> isSharedTransport h
                    then run_work api (IoTHubTransport_Destroy api (waitingToSend h) (transportHandle h)) h
                    else Done h) (\<lambda>h.
          let h = (confirm_all IOTHUB_CLIENT_CONFIRMATION_BECAUSE_DESTROY (waitingToSend h) h)\<lparr>waitingToSend := []\<rparr>;
              h = (report_all ERROR_CODE_BECAUSE_DESTROY (iot_msg_queue h) h)\<lparr>iot_msg_queue := []\<rparr>;
              h = (report_all ERROR_CODE_BECAUSE_DESTROY (iot_ack_queue h) h)\<lparr>iot_ack_queue := []\<rparr>
          in run_bind (delete_event_callback_list n api h) (\<lambda>h.
             Done (Some (h\<lparr>authorization_module := None, product_info := None, model_id := None\<rparr>))))))"

end
