(* ===== verification/ClientLedger.thy ===== *)
theory ClientLedger
  imports ClientCore "HOL-Library.Multiset"
begin

text \<open>
  What the client core owes the user (iothub\_client\_core\_ll.c): the walks over its queues in one
  piece, the multisets of callbacks that are owed, of callbacks made, and what a transport
  owes in turn; then what a call of the transport and a turn of IoTHubClientCore\_LL\_DoWork keep.
\<close>

section \<open>The walks in one piece\<close>

definition confirmation ::
  "IOTHUB_CLIENT_CONFIRMATION_RESULT \<Rightarrow> 'mp IOTHUB_MESSAGE_LIST \<Rightarrow> 'mp client_event list" where
  "confirmation result x = (case list_callback x of None \<Rightarrow> [] | Some cb \<Rightarrow> [EventConfirmed cb result (list_context x)])"

definition report :: "int \<Rightarrow> IOTHUB_DEVICE_TWIN \<Rightarrow> 'mp client_event list" where
  "report status x = (case reported_state_callback x of None \<Rightarrow> [] | Some cb \<Rightarrow> [ReportedStateDone cb status (twin_context x)])"

lemma confirm_eq: "confirm r x h = h\<lparr>user_calls := user_calls h @ confirmation r x\<rparr>"
  by (simp add: confirm_def confirmation_def tell_def split: option.split)

lemma report_done_eq: "report_done s x h = h\<lparr>user_calls := user_calls h @ report s x\<rparr>"
  by (simp add: report_done_def report_def tell_def split: option.split)

lemma confirm_all_eq: "confirm_all r xs h = h\<lparr>user_calls := user_calls h @ concat (map (confirmation r) xs)\<rparr>"
  by (induction xs arbitrary: h) (simp_all add: confirm_eq)

lemma report_all_eq: "report_all s xs h = h\<lparr>user_calls := user_calls h @ concat (map (report s) xs)\<rparr>"
  by (induction xs arbitrary: h) (simp_all add: report_done_eq)

lemma timeouts_walk_eq:
  "timeouts_walk now xs kept h = h\<lparr>waitingToSend := kept @ filter (\<lambda>x. \<not> timed_out_at now x) xs,
     user_calls := user_calls h
       @ concat (map (confirmation IOTHUB_CLIENT_CONFIRMATION_MESSAGE_TIMEOUT) (filter (timed_out_at now) xs))\<rparr>"
  by (induction xs arbitrary: kept h) (simp_all add: confirm_eq)

lemma ack_walk_eq:
  "ack_walk i s passed xs h =
     (case dropWhile (\<lambda>x. item_id x \<noteq> i) xs of
        [] \<Rightarrow> h
      | x # rest \<Rightarrow> h\<lparr>user_calls := user_calls h @ report s x,
           iot_ack_queue := passed @ takeWhile (\<lambda>x. item_id x \<noteq> i) xs @ rest\<rparr>)"
proof (induction xs arbitrary: passed)
  case (Cons x xs)
  then show ?case by (cases "item_id x = i") (simp_all add: report_done_eq cong: list.case_cong)
qed simp

text \<open>How many items a turn hands to the transport, and which of them it takes.\<close>

primrec item_answers ::
  "('mp, 't, 'l, 'li, 'e, 'a) client_api_scheme \<Rightarrow> IOTHUB_DEVICE_TWIN list \<Rightarrow> 't
     \<Rightarrow> (IOTHUB_DEVICE_TWIN \<times> IOTHUB_PROCESS_ITEM_RESULT) list \<times> 't" where
  "item_answers api [] t = ([], t)"
| "item_answers api (x # xs) t =
     (case IoTHubTransport_ProcessItem api x t of (r, t) \<Rightarrow>
        if r = IOTHUB_PROCESS_CONTINUE \<or> r = IOTHUB_PROCESS_NOT_CONNECTED then ([], t)
        else (case item_answers api xs t of (rs, t) \<Rightarrow> ((x, r) # rs, t)))"

lemma process_items_eq:
  "process_items api xs h =
     (let answers = fst (item_answers api xs (transportHandle h)) in
      h\<lparr>transportHandle := snd (item_answers api xs (transportHandle h)),
        iot_ack_queue := iot_ack_queue h @ map fst (filter (\<lambda>(x, r). r = IOTHUB_PROCESS_OK) answers),
        iot_msg_queue := drop (length answers) xs\<rparr>)"
proof (induction xs arbitrary: h)
  case (Cons x xs)
  obtain r t where r: "IoTHubTransport_ProcessItem api x (transportHandle h) = (r, t)" by fastforce
  show ?case
    by (cases "item_answers api xs t", cases r, rule_tac [!] CLIENT.equality)
      (simp_all add: on_transport_def Let_def r Cons.IH)
qed (simp add: Let_def)

lemma item_answers_take: "map fst (fst (item_answers api xs t)) = take (length (fst (item_answers api xs t))) xs"
  by (induction xs arbitrary: t) (simp_all split: prod.splits, metis fst_conv)

section \<open>The ledger of events\<close>

definition owed :: "'mp IOTHUB_MESSAGE_LIST multiset \<Rightarrow> (nat \<times> nat) multiset" where
  "owed M = image_mset (\<lambda>x. (the (list_callback x), list_context x)) (filter_mset (\<lambda>x. list_callback x \<noteq> None) M)"

fun confirmed_by :: "'mp client_event \<Rightarrow> (nat \<times> nat) list" where
  "confirmed_by (EventConfirmed cb r ctx) = [(cb, ctx)]"
| "confirmed_by ev = []"

definition confirmed :: "'mp client_event list \<Rightarrow> (nat \<times> nat) multiset" where
  "confirmed evs = mset (concat (map confirmed_by evs))"

lemma owed_simps [simp]:
  "owed {#} = {#}" "owed (M + N) = owed M + owed N"
  "owed (add_mset x M) = (case list_callback x of None \<Rightarrow> {#} | Some cb \<Rightarrow> {#(cb, list_context x)#}) + owed M"
  by (simp_all add: owed_def split: option.split)

lemma owed_diff: "N \<subseteq># M \<Longrightarrow> owed (M - N) + owed N = owed M"
  by (metis owed_simps(2) subset_mset.diff_add)

lemma confirmed_simps [simp]:
  "confirmed [] = {#}" "confirmed (ev # evs) = mset (confirmed_by ev) + confirmed evs"
  "confirmed (evs @ evs') = confirmed evs + confirmed evs'"
  by (simp_all add: confirmed_def)

lemma confirmed_confirmation [simp]: "confirmed (confirmation r x) = owed {#x#}"
  by (simp add: confirmation_def split: option.split)

lemma confirmed_confirmations [simp]: "confirmed (concat (map (confirmation r) xs)) = owed (mset xs)"
  by (induction xs) (simp_all add: confirmation_def split: option.split)

lemma confirmed_report [simp]: "confirmed (report s x) = {#}" "confirmed (concat (map (report s) xs)) = {#}"
proof -
  show one: "confirmed (report s x) = ({#} :: (nat \<times> nat) multiset)" for x :: IOTHUB_DEVICE_TWIN
    by (simp add: report_def split: option.split)
  show "confirmed (concat (map (report s) xs)) = {#}" by (induction xs) (simp_all add: one)
qed

lemma owed_partition: "owed (mset (filter (\<lambda>x. \<not> P x) xs)) + owed (mset (filter P xs)) = owed (mset xs)"
  by (induction xs) (simp_all add: ac_simps)

section \<open>The ledger of reported states, and the order of twin updates\<close>

fun reported_by :: "'mp client_event \<Rightarrow> (nat \<times> nat) list" where
  "reported_by (ReportedStateDone cb s ctx) = [(cb, ctx)]"
| "reported_by ev = []"

definition reported :: "'mp client_event list \<Rightarrow> (nat \<times> nat) multiset" where
  "reported evs = mset (concat (map reported_by evs))"

definition reports_owed :: "IOTHUB_DEVICE_TWIN multiset \<Rightarrow> (nat \<times> nat) multiset" where
  "reports_owed M = image_mset (\<lambda>x. (the (reported_state_callback x), twin_context x))
     (filter_mset (\<lambda>x. reported_state_callback x \<noteq> None) M)"

text \<open>Reported states that are queued, sent or done.\<close>

definition reports :: "('mp, 't, 'l, 'e, 'm) CLIENT_scheme \<Rightarrow> (nat \<times> nat) multiset" where
  "reports h = reports_owed (mset (iot_msg_queue h) + mset (iot_ack_queue h)) + reported (user_calls h)"

fun twin_states :: "'mp client_event \<Rightarrow> DEVICE_TWIN_UPDATE_STATE list" where
  "twin_states (TwinUpdated cb s p ctx) = [s]"
| "twin_states ev = []"

definition twins :: "'mp client_event list \<Rightarrow> DEVICE_TWIN_UPDATE_STATE list" where
  "twins evs = concat (map twin_states evs)"

text \<open>The first update the user got, if any, was a complete one.\<close>

definition twin_ordered :: "('mp, 't, 'l, 'e, 'm) CLIENT_scheme \<Rightarrow> bool" where
  "twin_ordered h \<longleftrightarrow>
     (if twins (user_calls h) = [] then \<not> complete_twin_update_encountered h
      else hd (twins (user_calls h)) = DEVICE_TWIN_UPDATE_COMPLETE)"

lemma reports_owed_simps [simp]:
  "reports_owed {#} = {#}" "reports_owed (M + N) = reports_owed M + reports_owed N"
  "reports_owed (add_mset x M) =
     (case reported_state_callback x of None \<Rightarrow> {#} | Some cb \<Rightarrow> {#(cb, twin_context x)#}) + reports_owed M"
  by (simp_all add: reports_owed_def split: option.split)

lemma reported_simps [simp]:
  "reported [] = {#}" "reported (ev # evs) = mset (reported_by ev) + reported evs"
  "reported (evs @ evs') = reported evs + reported evs'"
  by (simp_all add: reported_def)

lemma twins_simps [simp]:
  "twins [] = []" "twins (ev # evs) = twin_states ev @ twins evs" "twins (evs @ evs') = twins evs @ twins evs'"
  by (simp_all add: twins_def)

lemma confirmation_silent [simp]:
  "reported (concat (map (confirmation r) xs)) = {#}" "twins (concat (map (confirmation r) xs)) = []"
  by (induction xs) (simp_all add: confirmation_def split: option.split)

lemma reported_report [simp]: "reported (report s x) = reports_owed {#x#}" "twins (report s x) = []"
  by (simp_all add: report_def split: option.split)

lemma reported_reports [simp]:
  "reported (concat (map (report s) xs)) = reports_owed (mset xs)" "twins (concat (map (report s) xs)) = []"
  by (induction xs) (simp_all add: report_def split: option.split)

section \<open>What a transport owes\<close>

definition completed_by :: "'mp client_call \<Rightarrow> 'mp IOTHUB_MESSAGE_LIST list" where
  "completed_by c = (case c of SendComplete xs r \<Rightarrow> xs | _ \<Rightarrow> [])"

text \<open>
  A run accounts for the entries it may dispose of: what it completes was among them, and in the
  end it holds the others or leaves them waiting. The calls it makes do not take entries from it.
\<close>

primrec accounts ::
  "('t \<Rightarrow> 'mp IOTHUB_MESSAGE_LIST multiset) \<Rightarrow> ('mp, 't) work \<Rightarrow> 'mp IOTHUB_MESSAGE_LIST multiset \<Rightarrow> bool" where
  "accounts held (WorkDone waiting t) M \<longleftrightarrow> M = held t + mset waiting"
| "accounts held (CallBack c t k) M \<longleftrightarrow>
     mset (completed_by c) \<subseteq># M
   \<and> (\<forall>a t'. held t' = held t \<longrightarrow> accounts held (k a t') (M - mset (completed_by c)))"

primrec releases :: "('t \<Rightarrow> 'mp IOTHUB_MESSAGE_LIST multiset) \<Rightarrow> ('mp, 't) work \<Rightarrow> bool" where
  "releases held (WorkDone waiting t) \<longleftrightarrow> held t = {#}"
| "releases held (CallBack c t k) \<longleftrightarrow> (\<forall>a t'. held t' = held t \<longrightarrow> releases held (k a t'))"

text \<open>
  The contract: turns, unregistering and destroying account for the entries, the other functions
  keep what the transport holds, and once it is destroyed it holds nothing. A transport that clients
  share must hold nothing of a device once the device is unregistered.
\<close>

definition transport_laws ::
  "('mp, 't, 'l, 'li, 'e, 'a) client_api_scheme \<Rightarrow> ('t \<Rightarrow> 'mp IOTHUB_MESSAGE_LIST multiset) \<Rightarrow> bool" where
  "transport_laws api held \<longleftrightarrow>
     (\<forall>w t. accounts held (IoTHubTransport_DoWork api w t) (held t + mset w))
   \<and> (\<forall>d w t. accounts held (IoTHubTransport_Unregister api d w t) (held t + mset w))
   \<and> (\<forall>w t. accounts held (IoTHubTransport_Destroy api w t) (held t + mset w))
   \<and> (\<forall>w t. releases held (IoTHubTransport_Destroy api w t))
   \<and> (\<forall>i d t. held (snd (IoTHubTransport_SendMessageDisposition api i d t)) = held t)
   \<and> (\<forall>d t. held (snd (IoTHubTransport_Subscribe_DeviceMethod api d t)) = held t)
   \<and> (\<forall>d t. held (IoTHubTransport_Unsubscribe_DeviceMethod api d t) = held t)
   \<and> (\<forall>d m r s t. held (snd (IoTHubTransport_DeviceMethod_Response api d m r s t)) = held t)
   \<and> (\<forall>t. held (snd (IoTHubTransport_Subscribe_DeviceTwin api t)) = held t)
   \<and> (\<forall>t. held (IoTHubTransport_Unsubscribe_DeviceTwin api t) = held t)
   \<and> (\<forall>x t. held (snd (IoTHubTransport_ProcessItem api x t)) = held t)
   \<and> (\<forall>n v t. held (snd (IoTHubTransport_SetOption api n v t)) = held t)
   \<and> (\<forall>d t. held (snd (IoTHubTransport_Subscribe api d t)) = held t)
   \<and> (\<forall>d t. held (IoTHubTransport_Unsubscribe api d t) = held t)
   \<and> (\<forall>p n t. held (snd (IoTHubTransport_SetRetryPolicy api p n t)) = held t)
   \<and> (\<forall>d t. held (snd (snd (IoTHubTransport_GetSendStatus api d t))) = held t)
   \<and> (\<forall>d t. held (snd (IoTHubTransport_Subscribe_InputQueue api d t)) = held t)
   \<and> (\<forall>d t. held (IoTHubTransport_Unsubscribe_InputQueue api d t) = held t)
   \<and> (\<forall>d c t. held (snd (IoTHubTransport_GetTwinAsync api d c t)) = held t)
   \<and> (\<forall>t. held (snd (IoTHubTransport_GetSupportedPlatformInfo api t)) = held t)"

definition unregister_releases ::
  "('mp, 't, 'l, 'li, 'e, 'a) client_api_scheme \<Rightarrow> ('t \<Rightarrow> 'mp IOTHUB_MESSAGE_LIST multiset) \<Rightarrow> bool" where
  "unregister_releases api held \<longleftrightarrow> (\<forall>d w t. releases held (IoTHubTransport_Unregister api d w t))"

section \<open>The invariant of the handle\<close>

text \<open>The handlers of inputs are well formed, and a callback that would be called is there.\<close>

definition client_inv :: "('l \<Rightarrow> ('li \<times> nat) list) \<Rightarrow> ('mp, 't, 'l, 'e, 'm) CLIENT_scheme \<Rightarrow> bool" where
  "client_inv contents h \<longleftrightarrow> inputs_inv contents h
   \<and> (msg_type (messageCallback h) = CALLBACK_TYPE_SYNC \<longrightarrow> msg_callbackSync (messageCallback h) \<noteq> None)
   \<and> (msg_type (messageCallback h) = CALLBACK_TYPE_ASYNC \<longrightarrow> msg_callbackAsync (messageCallback h) \<noteq> None)
   \<and> (method_type (methodCallback h) = CALLBACK_TYPE_SYNC \<longrightarrow> method_callbackSync (methodCallback h) \<noteq> None)
   \<and> (method_type (methodCallback h) = CALLBACK_TYPE_ASYNC \<longrightarrow> method_callbackAsync (methodCallback h) \<noteq> None)"

lemma inputs_inv_cong:
  "event_callbacks h' = event_callbacks h \<Longrightarrow> handlers h' = handlers h \<Longrightarrow> next_handler h' = next_handler h
     \<Longrightarrow> inputs_inv contents h' = inputs_inv contents h"
  by (simp add: inputs_inv_def handler_ptrs_def)

lemma client_inv_cong:
  "event_callbacks h' = event_callbacks h \<Longrightarrow> handlers h' = handlers h \<Longrightarrow> next_handler h' = next_handler h
     \<Longrightarrow> messageCallback h' = messageCallback h \<Longrightarrow> methodCallback h' = methodCallback h
     \<Longrightarrow> client_inv contents h' = client_inv contents h"
  by (simp add: client_inv_def inputs_inv_cong [of h' h])

text \<open>What a step of the client owes the ledger: \<open>acc\<close> is what it took on.\<close>

definition outstanding ::
  "('t \<Rightarrow> 'mp IOTHUB_MESSAGE_LIST multiset) \<Rightarrow> ('mp, 't, 'l, 'e, 'm) CLIENT_scheme \<Rightarrow> (nat \<times> nat) multiset" where
  "outstanding held h = owed (mset (waitingToSend h) + held (transportHandle h))"

definition balanced ::
  "('t \<Rightarrow> 'mp IOTHUB_MESSAGE_LIST multiset) \<Rightarrow> (nat \<times> nat) multiset \<Rightarrow> ('mp, 't, 'l, 'e, 'm) CLIENT_scheme
     \<Rightarrow> ('mp, 't, 'l, 'e, 'm) CLIENT_scheme \<Rightarrow> bool" where
  "balanced held acc h h' \<longleftrightarrow>
     acc + outstanding held h + confirmed (user_calls h) = outstanding held h' + confirmed (user_calls h')"

lemma balancedI:
  "waitingToSend h' = waitingToSend h \<Longrightarrow> held (transportHandle h') = held (transportHandle h)
     \<Longrightarrow> confirmed (user_calls h') = confirmed (user_calls h) \<Longrightarrow> balanced held {#} h h'"
  by (simp add: balanced_def outstanding_def)

lemma balanced_trans: "balanced held a h h1 \<Longrightarrow> balanced held b h1 h' \<Longrightarrow> balanced held (a + b) h h'"
  by (simp add: balanced_def ac_simps) (metis add.assoc add.commute)

section \<open>A call from the transport\<close>

text \<open>
  A step that keeps the invariant, leaves the queue of events and what the transport holds alone,
  loses no reported state, keeps the order of twin updates, and has confirmed \<open>finished\<close>.
\<close>

definition harmless ::
  "('l \<Rightarrow> ('li \<times> nat) list) \<Rightarrow> ('t \<Rightarrow> 'mp IOTHUB_MESSAGE_LIST multiset) \<Rightarrow> (nat \<times> nat) multiset
     \<Rightarrow> ('mp, 't, 'l, 'e, 'm) CLIENT_scheme \<Rightarrow> ('mp, 't, 'l, 'e, 'm) CLIENT_scheme \<Rightarrow> bool" where
  "harmless contents held finished h h' \<longleftrightarrow>
     client_inv contents h' \<and> waitingToSend h' = waitingToSend h \<and> held (transportHandle h') = held (transportHandle h)
   \<and> isSharedTransport h' = isSharedTransport h \<and> next_handler h' = next_handler h
   \<and> confirmed (user_calls h') = confirmed (user_calls h) + finished
   \<and> reports h' = reports h \<and> (twin_ordered h \<longrightarrow> twin_ordered h')"

lemma harmlessI:
  assumes "client_inv contents h" "event_callbacks h' = event_callbacks h" "handlers h' = handlers h"
    "next_handler h' = next_handler h" "messageCallback h' = messageCallback h" "methodCallback h' = methodCallback h"
    "waitingToSend h' = waitingToSend h" "held (transportHandle h') = held (transportHandle h)"
    "isSharedTransport h' = isSharedTransport h" "confirmed (user_calls h') = confirmed (user_calls h) + M"
    "reports h' = reports h" "twin_ordered h \<Longrightarrow> twin_ordered h'"
  shows "harmless contents held M h h'"
  using assms client_inv_cong [of h' h contents] by (simp add: harmless_def)

text \<open>Most calls touch neither reported states nor twins.\<close>

lemma harmlessI':
  assumes "client_inv contents h" "event_callbacks h' = event_callbacks h" "handlers h' = handlers h"
    "next_handler h' = next_handler h" "messageCallback h' = messageCallback h" "methodCallback h' = methodCallback h"
    "waitingToSend h' = waitingToSend h" "held (transportHandle h') = held (transportHandle h)"
    "isSharedTransport h' = isSharedTransport h" "confirmed (user_calls h') = confirmed (user_calls h) + M"
    "reported (user_calls h') = reported (user_calls h)" "twins (user_calls h') = twins (user_calls h)"
    "iot_msg_queue h' = iot_msg_queue h" "iot_ack_queue h' = iot_ack_queue h"
    "complete_twin_update_encountered h' = complete_twin_update_encountered h"
  shows "harmless contents held M h h'"
  using assms by (intro harmlessI) (simp_all add: reports_def twin_ordered_def)

lemma input_call_harmless:
  assumes laws: "list_laws (c_lists api) contents" and t: "transport_laws api held" and inv: "client_inv contents h"
  shows "\<exists>b h'. IoTHubClientCore_LL_MessageCallbackFromInput api info (Some h) = Done (b, Some h')
    \<and> harmless contents held {#} h h'"
proof (cases "\<exists>i msg. info = Some i \<and> info_messageHandle i = Some msg")
  case False
  then have "IoTHubClientCore_LL_MessageCallbackFromInput api info (Some h) = Done (False, Some h)"
    by (auto simp: IoTHubClientCore_LL_MessageCallbackFromInput_def split: option.split)
  moreover have "harmless contents held {#} h h" using inv by (simp add: harmless_def)
  ultimately show ?thesis by blast
next
  case True
  then obtain i msg where i: "info = Some i" "info_messageHandle i = Some msg" by blast
  have ii: "inputs_inv contents h" using inv by (simp add: client_inv_def)
  have sd: "held (snd (IoTHubTransport_SendMessageDisposition api i d t)) = held t" for d t
    using t by (simp add: transport_laws_def)
  obtain b h' where r: "IoTHubClientCore_LL_MessageCallbackFromInput api (Some i) (Some h) = Done (b, Some h')"
      "inputs_inv contents h'" "delivery_frame h h'"
    and c: "case input_handler (inputs contents h) (inputName msg) of
          None \<Rightarrow> \<not> b \<and> h' = h
        | Some ev \<Rightarrow>
            (case callbackAsyncEx ev of
               Some cb \<Rightarrow> user_calls h' = user_calls h @ [InputDeliveredEx cb i (userContextCallbackEx ev)]
                 \<and> transportHandle h' = transportHandle h
             | None \<Rightarrow> b \<and> user_calls h' = user_calls h @ [InputDelivered (the (callbackAsync ev)) msg (userContextCallback ev)]
                 \<and> (\<exists>d. transportHandle h' = snd (IoTHubTransport_SendMessageDisposition api i d (transportHandle h))))"
    using message_from_input_spec [OF laws ii i(2)] by blast
  from c have "confirmed (user_calls h') = confirmed (user_calls h) \<and> reported (user_calls h') = reported (user_calls h)
      \<and> twins (user_calls h') = twins (user_calls h) \<and> held (transportHandle h') = held (transportHandle h)"
    by (auto simp: sd split: option.splits)
  then have "harmless contents held {#} h (h\<lparr>lastMessageReceiveTime := lastMessageReceiveTime h', env := env h',
     user_calls := user_calls h', transportHandle := transportHandle h'\<rparr>)"
    by (intro harmlessI' [OF inv]) simp_all
  then have "harmless contents held {#} h h'" using r(3) unfolding delivery_frame_def by simp
  with r i(1) show ?thesis by blast
qed

lemma message_call_harmless:
  assumes t: "transport_laws api held" and inv: "client_inv contents h"
  shows "\<exists>b h'. IoTHubClientCore_LL_MessageCallback api info (Some h) = Done (b, Some h')
    \<and> harmless contents held {#} h h'"
proof (cases "\<exists>i msg. info = Some i \<and> info_messageHandle i = Some msg")
  case False
  then have "IoTHubClientCore_LL_MessageCallback api info (Some h) = Done (False, Some h)"
    by (auto simp: IoTHubClientCore_LL_MessageCallback_def split: option.split)
  moreover have "harmless contents held {#} h h" using inv by (simp add: harmless_def)
  ultimately show ?thesis by blast
next
  case True
  then obtain i msg where i: "info = Some i" "info_messageHandle i = Some msg" by blast
  obtain now e where now: "os_time (c_os api) (env h) = (now, e)" by fastforce
  have sd: "held (snd (IoTHubTransport_SendMessageDisposition api i d t)) = held t" for d t
    using t by (simp add: transport_laws_def)
  note run = IoTHubClientCore_LL_MessageCallback_def invoke_message_callback_def on_env_def on_transport_def tell_def Let_def now i
  show ?thesis
  proof (cases "msg_type (messageCallback h)")
    case CALLBACK_TYPE_NONE
    then show ?thesis by (intro exI [of _ False]) (simp add: run harmlessI' [OF inv])
  next
    case CALLBACK_TYPE_SYNC
    then obtain cb where cb: "msg_callbackSync (messageCallback h) = Some cb" using inv by (auto simp: client_inv_def)
    obtain d e' where u: "on_message api cb msg (msg_userContext (messageCallback h)) e = (d, e')" by fastforce
    obtain r t' where t': "IoTHubTransport_SendMessageDisposition api i d (transportHandle h) = (r, t')" by fastforce
    with sd [of d "transportHandle h"] have "held t' = held (transportHandle h)" by simp
    with CALLBACK_TYPE_SYNC cb u t' show ?thesis
      by (intro exI [of _ True]) (simp add: run harmlessI' [OF inv])
  next
    case CALLBACK_TYPE_ASYNC
    then obtain cb where cb: "msg_callbackAsync (messageCallback h) = Some cb" using inv by (auto simp: client_inv_def)
    obtain d e' where u: "on_message_ex api cb i (msg_userContext (messageCallback h)) e = (d, e')" by fastforce
    with CALLBACK_TYPE_ASYNC cb show ?thesis by (simp add: run harmlessI' [OF inv])
  qed
qed

lemma method_call_harmless:
  assumes t: "transport_laws api held" and inv: "client_inv contents h"
  shows "\<exists>b h'. IoTHubClientCore_LL_DeviceMethodComplete api name payLoad i (Some h) = Done (b, Some h')
    \<and> harmless contents held {#} h h'"
proof -
  have mr: "held (snd (IoTHubTransport_DeviceMethod_Response api d m r s t)) = held t" for d m r s t
    using t by (simp add: transport_laws_def)
  note run = IoTHubClientCore_LL_DeviceMethodComplete_def on_env_def on_transport_def tell_def Let_def
  show ?thesis
  proof (cases "method_type (methodCallback h)")
    case CALLBACK_TYPE_NONE
    then show ?thesis by (simp add: run harmlessI' [OF inv])
  next
    case CALLBACK_TYPE_SYNC
    then obtain cb where cb: "method_callbackSync (methodCallback h) = Some cb" using inv by (auto simp: client_inv_def)
    obtain s p e where u: "on_method api cb name payLoad (method_userContext (methodCallback h)) (env h) = ((s, p), e)"
      by (metis prod.exhaust)
    obtain r t' where t': "IoTHubTransport_DeviceMethod_Response api (deviceHandle h) i p s (transportHandle h) = (r, t')" by fastforce
    with mr [of "deviceHandle h" i p s "transportHandle h"] have "held t' = held (transportHandle h)" by simp
    with CALLBACK_TYPE_SYNC cb u t' show ?thesis by (auto simp: run intro!: harmlessI' [OF inv])
  next
    case CALLBACK_TYPE_ASYNC
    then obtain cb where cb: "method_callbackAsync (methodCallback h) = Some cb" using inv by (auto simp: client_inv_def)
    obtain r e where u: "on_method_ex api cb name payLoad i (method_userContext (methodCallback h)) (env h) = (r, e)" by fastforce
    with CALLBACK_TYPE_ASYNC cb show ?thesis by (simp add: run harmlessI' [OF inv])
  qed
qed

lemma ack_walk_harmless:
  assumes inv: "client_inv contents h"
  shows "harmless contents held {#} h (ack_walk i s [] (iot_ack_queue h) h)"
proof (cases "dropWhile (\<lambda>x. item_id x \<noteq> i) (iot_ack_queue h)")
  case Nil
  with inv show ?thesis by (simp add: ack_walk_eq harmless_def del: dropWhile_eq_Nil_conv)
next
  case (Cons x rest)
  have "mset (iot_ack_queue h) = mset (takeWhile (\<lambda>x. item_id x \<noteq> i) (iot_ack_queue h)) + mset (x # rest)"
    by (metis Cons mset_append takeWhile_dropWhile_id)
  with Cons show ?thesis
    by (intro harmlessI [OF inv]) (simp_all add: ack_walk_eq reports_def twin_ordered_def)
qed

text \<open>Every call of the transport is harmless, and confirms just what it completes.\<close>

lemma callback_harmless:
  assumes laws: "list_laws (c_lists api) contents" and t: "transport_laws api held" and inv: "client_inv contents h"
  shows "\<exists>a h'. client_callback api c h = Done (a, h') \<and> harmless contents held (owed (mset (completed_by c))) h h'"
proof (cases c)
  case (MessageCallbackFromInput i)
  then show ?thesis using input_call_harmless [OF laws t inv, of i] by (auto simp: client_callback_def completed_by_def)
next
  case (MessageCallback i)
  then show ?thesis using message_call_harmless [OF t inv, of i] by (auto simp: client_callback_def completed_by_def)
next
  case (DeviceMethodComplete n p i)
  then show ?thesis using method_call_harmless [OF t inv, of n p i] by (auto simp: client_callback_def completed_by_def)
next
  case (RetrievePropertyComplete s p)
  have "harmless contents held {#} h (the (IoTHubClientCore_LL_RetrievePropertyComplete s p (Some h)))"
    by (cases "deviceTwinCallback h"; cases s; intro harmlessI [OF inv])
      (auto simp: tell_def Let_def IoTHubClientCore_LL_RetrievePropertyComplete_def reports_def twin_ordered_def hd_append
        split: if_splits)
  with RetrievePropertyComplete show ?thesis by (simp add: client_callback_def completed_by_def)
next
  case (ReportedStateComplete i s)
  show ?thesis
    by (simp add: ReportedStateComplete client_callback_def completed_by_def
        IoTHubClientCore_LL_ReportedStateComplete_def ack_walk_harmless [OF inv])
next
  case (ConnectionStatusCallBack s r)
  then show ?thesis
    by (cases "conStatusCallback h") (simp_all add: client_callback_def completed_by_def tell_def
      IoTHubClientCore_LL_ConnectionStatusCallBack_def harmlessI' [OF inv])
next
  case (GetTwinCompleted x s p)
  then show ?thesis
    by (cases x; cases p) (simp_all add: client_callback_def completed_by_def tell_def
      on_get_device_twin_completed_def harmlessI' [OF inv] split: prod.split)
qed (simp_all add: client_callback_def completed_by_def IoTHubClientCore_LL_SendComplete_def confirm_all_eq harmlessI' [OF inv])

section \<open>Runs of the transport\<close>

lemma run_work_spec:
  assumes laws: "list_laws (c_lists api) contents" and t: "transport_laws api held"
  shows "client_inv contents h \<Longrightarrow> accounts held wk M \<Longrightarrow>
    \<exists>h'. run_work api wk h = Done h' \<and> client_inv contents h'
      \<and> outstanding held h' + confirmed (user_calls h') = owed M + confirmed (user_calls h)
      \<and> isSharedTransport h' = isSharedTransport h \<and> next_handler h' = next_handler h
      \<and> reports h' = reports h \<and> (twin_ordered h \<longrightarrow> twin_ordered h')
      \<and> (releases held wk \<longrightarrow> held (transportHandle h') = {#})"
proof (induction wk arbitrary: h M)
  case (WorkDone w t)
  then show ?case
    using client_inv_cong [of "h\<lparr>waitingToSend := w, transportHandle := t\<rparr>" h contents]
    by (simp add: outstanding_def add.commute reports_def twin_ordered_def)
next
  case (CallBack c t k)
  let ?h = "h\<lparr>transportHandle := t\<rparr>"
  have inv: "client_inv contents ?h"
    using client_inv_cong [of ?h h contents] CallBack.prems(1) by simp
  obtain a h1 where c: "client_callback api c ?h = Done (a, h1)" "harmless contents held (owed (mset (completed_by c))) ?h h1"
    using callback_harmless [OF laws \<open>transport_laws api held\<close> inv, of c] by blast
  let ?M = "M - mset (completed_by c)"
  have sub: "mset (completed_by c) \<subseteq># M" using CallBack.prems(2) by simp
  have "accounts held (k a (transportHandle h1)) ?M" using CallBack.prems(2) c(2) by (simp add: harmless_def)
  moreover have "client_inv contents h1" using c(2) by (simp add: harmless_def)
  ultimately obtain h' where h': "run_work api (k a (transportHandle h1)) h1 = Done h'" "client_inv contents h'"
      "outstanding held h' + confirmed (user_calls h') = owed ?M + confirmed (user_calls h1)"
      "isSharedTransport h' = isSharedTransport h1" "next_handler h' = next_handler h1"
      "reports h' = reports h1" "twin_ordered h1 \<longrightarrow> twin_ordered h'"
      "releases held (k a (transportHandle h1)) \<longrightarrow> held (transportHandle h') = {#}"
    using CallBack.IH [OF rangeI rangeI] by blast
  have "owed ?M + confirmed (user_calls h1) = (owed ?M + owed (mset (completed_by c))) + confirmed (user_calls h)"
    using c(2) by (simp add: harmless_def ac_simps)
  also have "\<dots> = owed M + confirmed (user_calls h)" by (simp only: owed_diff [OF sub])
  finally show ?case
    using c h' by (auto simp: harmless_def reports_def twin_ordered_def)
qed

lemma timeouts_balanced:
  shows "balanced held {#} h (DoTimeouts api h)" "client_inv contents (DoTimeouts api h) = client_inv contents h"
    "isSharedTransport (DoTimeouts api h) = isSharedTransport h" "next_handler (DoTimeouts api h) = next_handler h"
    "reports (DoTimeouts api h) = reports h" "twin_ordered (DoTimeouts api h) = twin_ordered h"
proof -
  obtain r e where r: "tickcounter_get_current_ms api (env h) = (r, e)" by fastforce
  note d = DoTimeouts_def on_env_def r timeouts_walk_eq
  show "balanced held {#} h (DoTimeouts api h)"
  proof (cases r)
    case (Some now)
    have "owed (mset (waitingToSend h)) = owed (mset (filter (\<lambda>x. \<not> timed_out_at now x) (waitingToSend h)))
        + owed (mset (filter (timed_out_at now) (waitingToSend h)))"
      by (simp only: owed_partition)
    with Some show ?thesis by (simp add: d balanced_def outstanding_def ac_simps del: mset_filter)
  qed (simp add: d balanced_def outstanding_def)
  show "client_inv contents (DoTimeouts api h) = client_inv contents h"
    by (rule client_inv_cong) (simp_all add: d split: option.split)
  show "isSharedTransport (DoTimeouts api h) = isSharedTransport h" "next_handler (DoTimeouts api h) = next_handler h"
    "reports (DoTimeouts api h) = reports h" "twin_ordered (DoTimeouts api h) = twin_ordered h"
    by (simp_all add: d reports_def twin_ordered_def split: option.split)
qed

lemma item_answers_held: "transport_laws api held \<Longrightarrow> held (snd (item_answers api xs t)) = held t"
proof (induction xs arbitrary: t)
  case (Cons x xs)
  obtain r t' where r: "IoTHubTransport_ProcessItem api x t = (r, t')" by fastforce
  have "held (snd (IoTHubTransport_ProcessItem api x t)) = held t" using Cons.prems by (simp add: transport_laws_def)
  with r Cons show ?case by (simp split: prod.split) (metis snd_conv)
qed simp

text \<open>An item the transport answers ERROR for is dropped without a word.\<close>

lemma process_items_spec:
  assumes t: "transport_laws api held" and inv: "client_inv contents h"
  shows "client_inv contents (process_items api (iot_msg_queue h) h)"
    "waitingToSend (process_items api (iot_msg_queue h) h) = waitingToSend h"
    "held (transportHandle (process_items api (iot_msg_queue h) h)) = held (transportHandle h)"
    "isSharedTransport (process_items api (iot_msg_queue h) h) = isSharedTransport h"
    "next_handler (process_items api (iot_msg_queue h) h) = next_handler h"
    "user_calls (process_items api (iot_msg_queue h) h) = user_calls h"
    "twin_ordered (process_items api (iot_msg_queue h) h) = twin_ordered h"
    "\<exists>dropped. reports (process_items api (iot_msg_queue h) h) + dropped = reports h
       \<and> ((\<forall>x t. fst (IoTHubTransport_ProcessItem api x t) \<noteq> IOTHUB_PROCESS_ERROR) \<longrightarrow> dropped = {#})"
proof -
  let ?q = "iot_msg_queue h" and ?a = "fst (item_answers api (iot_msg_queue h) (transportHandle h))"
  let ?ok = "\<lambda>(x, r). r = IOTHUB_PROCESS_OK"
  note d = process_items_eq Let_def
  show "client_inv contents (process_items api ?q h)"
    using client_inv_cong [of "process_items api ?q h" h contents] inv by (simp add: d)
  show "waitingToSend (process_items api ?q h) = waitingToSend h"
    "held (transportHandle (process_items api ?q h)) = held (transportHandle h)"
    "isSharedTransport (process_items api ?q h) = isSharedTransport h"
    "next_handler (process_items api ?q h) = next_handler h"
    "user_calls (process_items api ?q h) = user_calls h"
    "twin_ordered (process_items api ?q h) = twin_ordered h"
    using item_answers_held [OF t, of ?q "transportHandle h"] by (simp_all add: d twin_ordered_def)
  let ?dropped = "reports_owed (mset (map fst (filter (\<lambda>z. \<not> ?ok z) ?a)))"
  have "mset (map fst ?a) = mset (map fst (filter ?ok ?a)) + mset (map fst (filter (\<lambda>z. \<not> ?ok z) ?a))"
    unfolding mset_map mset_filter by (metis image_mset_union multiset_partition)
  moreover have "mset ?q = mset (map fst ?a) + mset (drop (length ?a) ?q)"
    unfolding item_answers_take by (metis append_take_drop_id mset_append)
  ultimately have "reports (process_items api ?q h) + ?dropped = reports h"
    by (simp add: d reports_def ac_simps del: mset_map mset_filter)
  moreover have "?dropped = {#}" if *: "\<forall>x t. fst (IoTHubTransport_ProcessItem api x t) \<noteq> IOTHUB_PROCESS_ERROR"
  proof -
    have "z \<in> set (fst (item_answers api xs t)) \<Longrightarrow> ?ok z" for z xs t
    proof (induction xs arbitrary: t)
      case (Cons x xs)
      obtain r t' where r: "IoTHubTransport_ProcessItem api x t = (r, t')" by fastforce
      obtain rs t'' where rs: "item_answers api xs t' = (rs, t'')" by fastforce
      have "r \<noteq> IOTHUB_PROCESS_ERROR" using * r by (metis fst_conv)
      with Cons.prems Cons.IH [of t'] show ?case
        by (cases r) (auto simp: r rs)
    qed simp
    then have "filter (\<lambda>z. \<not> ?ok z) ?a = []" by (simp add: filter_empty_conv)
    then show ?thesis by (simp only: list.map mset.simps reports_owed_simps)
  qed
  ultimately show "\<exists>dropped. reports (process_items api ?q h) + dropped = reports h
      \<and> ((\<forall>x t. fst (IoTHubTransport_ProcessItem api x t) \<noteq> IOTHUB_PROCESS_ERROR) \<longrightarrow> dropped = {#})"
    by blast
qed

section \<open>A turn\<close>

text \<open>
  What a step of the client guarantees: the ledger of events balances with the events it accepted,
  reported states are not invented (and not lost either, unless the transport refuses one with
  ERROR), and twin updates stay in order.
\<close>

definition refuses_items :: "('mp, 't, 'l, 'li, 'e, 'a) client_api_scheme \<Rightarrow> bool" where
  "refuses_items api \<longleftrightarrow> (\<exists>x t. fst (IoTHubTransport_ProcessItem api x t) = IOTHUB_PROCESS_ERROR)"

definition good_step ::
  "('mp, 't, 'l, 'li, 'e, 'a) client_api_scheme \<Rightarrow> ('l \<Rightarrow> ('li \<times> nat) list) \<Rightarrow> ('t \<Rightarrow> 'mp IOTHUB_MESSAGE_LIST multiset)
     \<Rightarrow> (nat \<times> nat) multiset \<Rightarrow> (nat \<times> nat) multiset \<Rightarrow> ('mp, 't, 'l, 'e, 'm) CLIENT_scheme
     \<Rightarrow> ('mp, 't, 'l, 'e, 'm) CLIENT_scheme \<Rightarrow> bool" where
  "good_step api contents held acc taken h h' \<longleftrightarrow>
     client_inv contents h' \<and> balanced held acc h h'
   \<and> reports h' \<subseteq># taken + reports h \<and> (\<not> refuses_items api \<longrightarrow> reports h' = taken + reports h)"

lemma harmless_good_step: "harmless contents held {#} h h' \<Longrightarrow> good_step api contents held {#} {#} h h'"
  by (simp add: good_step_def harmless_def balanced_def outstanding_def)

lemma good_step_trans:
  assumes "good_step api contents held a r h h1" "good_step api contents held b q h1 h'"
  shows "good_step api contents held (a + b) (r + q) h h'"
proof -
  have "reports h' \<subseteq># q + (r + reports h)"
    using assms by (meson good_step_def subset_mset.add_left_mono subset_mset.order_trans)
  then show ?thesis
    using assms balanced_trans [of held a h h1 b h'] by (simp add: good_step_def ac_simps)
qed

lemma do_work_good:
  assumes laws: "list_laws (c_lists api) contents" and t: "transport_laws api held" and inv: "client_inv contents h"
  shows "\<exists>h'. IoTHubClientCore_LL_DoWork api (Some h) = Done (Some h') \<and> good_step api contents held {#} {#} h h'
    \<and> (twin_ordered h \<longrightarrow> twin_ordered h')"
proof -
  let ?h1 = "DoTimeouts api h"
  let ?h2 = "process_items api (iot_msg_queue ?h1) ?h1"
  have inv1: "client_inv contents ?h1" using inv timeouts_balanced(2) by blast
  note h2 = process_items_spec [OF t inv1]
  have "accounts held (IoTHubTransport_DoWork api (waitingToSend ?h2) (transportHandle ?h2))
      (held (transportHandle ?h2) + mset (waitingToSend ?h2))"
    using t by (simp add: transport_laws_def)
  from run_work_spec [OF laws t h2(1) this] obtain h' where h':
      "run_work api (IoTHubTransport_DoWork api (waitingToSend ?h2) (transportHandle ?h2)) ?h2 = Done h'"
      "client_inv contents h'"
      "outstanding held h' + confirmed (user_calls h') = owed (held (transportHandle ?h2) + mset (waitingToSend ?h2)) + confirmed (user_calls ?h2)"
      "reports h' = reports ?h2" "twin_ordered ?h2 \<longrightarrow> twin_ordered h'"
    by blast
  have "balanced held {#} ?h1 h'"
    using h'(3) unfolding h2(2,3,6) by (simp add: balanced_def outstanding_def ac_simps)
  then have "balanced held {#} h h'" using balanced_trans [OF timeouts_balanced(1)] by fastforce
  moreover obtain dropped where d: "reports ?h2 + dropped = reports ?h1"
      "(\<forall>x t. fst (IoTHubTransport_ProcessItem api x t) \<noteq> IOTHUB_PROCESS_ERROR) \<longrightarrow> dropped = {#}"
    using h2(8) by blast
  have "reports h' + dropped = reports h" using d(1) h'(4) timeouts_balanced(5) [of api h] by simp
  then have "reports h' \<subseteq># reports h" "\<not> refuses_items api \<longrightarrow> reports h' = reports h"
    using d(2) by (auto simp: refuses_items_def) (metis mset_subset_eq_add_left)
  ultimately show ?thesis
    using h' h2(7) timeouts_balanced(6) [of api h]
    by (simp add: IoTHubClientCore_LL_DoWork_def Let_def good_step_def)
qed

end
