(* ===== verification/Accounts.thy ===== *)
theory Accounts
  imports Sdk_Prelude "HOL-Library.Multiset"
begin

text \<open>
  Accounts: operations that take things on, and a total that is never wrong by more than what they took on:
  an interface every ledger provides.
\<close>

primrec run_ops :: "('op \<Rightarrow> 's \<Rightarrow> ('r \<times> 's) run) \<Rightarrow> 'op list \<Rightarrow> 's \<Rightarrow> ('r list \<times> 's) run" where
  "run_ops step [] s = Done ([], s)"
| "run_ops step (op # ops) s =
     run_bind (step op s) (\<lambda>(r, s). run_bind (run_ops step ops s) (\<lambda>(rs, s). Done (r # rs, s)))"

locale account =
  fixes step :: "'op \<Rightarrow> 's \<Rightarrow> ('r \<times> 's) run"
    and ok :: "'op \<Rightarrow> bool"
    and inv :: "'s \<Rightarrow> bool"
    and total :: "'s \<Rightarrow> 'b multiset"
    and taken :: "'op \<Rightarrow> 'r \<Rightarrow> 'b multiset"
  assumes step_accounted: "inv s \<Longrightarrow> ok op \<Longrightarrow>
      \<exists>r s'. step op s = Done (r, s') \<and> inv s' \<and> total s' = taken op r + total s"
begin

lemma run_accounted:
  "inv s \<Longrightarrow> \<forall>op\<in>set ops. ok op \<Longrightarrow>
     \<exists>rs s'. run_ops step ops s = Done (rs, s') \<and> inv s' \<and> length rs = length ops
       \<and> total s' = sum_list (map2 taken ops rs) + total s"
proof (induction ops arbitrary: s)
  case (Cons op ops)
  have "ok op" "\<forall>op\<in>set ops. ok op" using Cons.prems(2) by simp_all
  from step_accounted [OF Cons.prems(1) this(1)]
  obtain r s1 where s1: "step op s = Done (r, s1)" "inv s1" "total s1 = taken op r + total s" by blast
  from Cons.IH [OF s1(2) \<open>\<forall>op\<in>set ops. ok op\<close>]
  obtain rs s' where s': "run_ops step ops s1 = Done (rs, s')" "inv s'" "length rs = length ops"
      "total s' = sum_list (map2 taken ops rs) + total s1" by blast
  have "total s' = sum_list (map2 taken (op # ops) (r # rs)) + total s" by (simp add: s'(4) s1(3) ac_simps)
  moreover have "run_ops step (op # ops) s = Done (r # rs, s')" by (simp add: s1(1) s'(1))
  ultimately show ?case using s'(2,3) by (intro exI [of _ "r # rs"] exI [of _ s']) simp
qed simp

end

end
