(* ===== verification/ClientSteps.thy ===== *)
theory ClientSteps
  imports ClientLedger Accounts
begin

text \<open>
  Every operation of the client core as one step function, and the ledger over any sequence
  of operations, up to the end of the client. The locale of accounts is interpreted on the steps.
\<close>

section \<open>The other operations\<close>

lemma on_env_same:
  "on_env f h = (r, h') \<Longrightarrow> \<exists>e. h' = h\<lparr>env := e\<rparr>"
  by (auto simp: on_env_eq)

lemma good_stepI:
  assumes "client_inv contents h'" "held (transportHandle h') = held (transportHandle h)"
    "waitingToSend h' = waitingToSend h" "user_calls h' = user_calls h"
    "reports h' = reports h"
  shows "good_step api contents held {#} {#} h h'"
  using assms by (simp add: good_step_def balanced_def outstanding_def)

text \<open>What sending an event comes to.\<close>

lemma send_event_cases:
  assumes "IoTHubClientCore_LL_SendEventAsync api m cb ctx (Some h) = (r, ho)"
  obtains (refused) e d where "r \<noteq> IOTHUB_CLIENT_OK" "ho = Some (h\<lparr>env := e, diagnostic_setting := d\<rparr>)"
  | (queued) e d x where "r = IOTHUB_CLIENT_OK" "cb = None \<longrightarrow> ctx = 0" "list_callback x = cb" "list_context x = ctx"
      "ho = Some (h\<lparr>env := e, diagnostic_setting := d, waitingToSend := waitingToSend h @ [x]\<rparr>)"
proof -
  have self: "g = h\<lparr>env := env g, diagnostic_setting := diagnostic_setting h\<rparr>" if "g = h\<lparr>env := e\<rparr>" for g e
    using that by (intro CLIENT.equality) simp_all
  show ?thesis
  proof (cases "m = None \<or> (cb = None \<and> ctx \<noteq> 0)")
    case True
    have "h = h\<lparr>env := env h, diagnostic_setting := diagnostic_setting h\<rparr>" by (rule self [of h "env h"]) simp
    with True assms refused [where e = "env h" and d = "diagnostic_setting h"] show ?thesis
      by (auto simp: IoTHubClientCore_LL_SendEventAsync_def)
  next
    case ok: False
    obtain b h1 where h1: "on_env (os_malloc (c_os api)) h = (b, h1)" by fastforce
    obtain tt h2 where h2: "attach_ms_timesOutAfter api h1 = (tt, h2)" by fastforce
    obtain mo h3 where h3: "on_env (IoTHubMessage_Clone (c_os api) (c_map api) m) h2 = (mo, h3)" by fastforce
    obtain a se mg e where ad: "IoTHubClient_Diagnostic_AddIfNecessary (c_fl api) (c_os api) (Some (diagnostic_setting h3)) mo (env h3)
        = (a, se, mg, e)" by (metis prod.exhaust)
    have e1: "\<exists>e. h1 = h\<lparr>env := e\<rparr>" using on_env_same [OF h1] .
    then have e2: "\<exists>e. h2 = h\<lparr>env := e\<rparr>"
      using h2 by (auto simp: attach_ms_timesOutAfter_def split: if_splits prod.splits option.splits dest!: on_env_same)
    then have e3: "\<exists>e. h3 = h\<lparr>env := e\<rparr>" using on_env_same [OF h3] by auto
    note run = assms [unfolded IoTHubClientCore_LL_SendEventAsync_def option.case if_not_P [OF ok] h1 prod.case]
    show ?thesis
    proof (cases "\<not> b \<or> tt = None \<or> mo = None")
      case True
      then have "r = IOTHUB_CLIENT_ERROR \<and> (ho = Some h1 \<or> ho = Some h2 \<or> ho = Some h3)"
        using run h2 h3 by (auto split: if_splits option.splits)
      then obtain g e where "r = IOTHUB_CLIENT_ERROR" "ho = Some g" "g = h\<lparr>env := e\<rparr>" using e1 e2 e3 by blast
      with self [of g e] refused [where e = "env g" and d = "diagnostic_setting h"] show ?thesis by simp
    next
      case False
      then obtain t1 t2 msg where s: "tt = Some (t1, t2)" "mo = Some msg" b by auto
      let ?g = "h3\<lparr>diagnostic_setting := the se, env := e\<rparr>"
      have g: "?g = h\<lparr>env := e, diagnostic_setting := the se\<rparr>" using e3 by (auto intro: CLIENT.equality)
      have run: "(r, ho) = (if \<not> a then (IOTHUB_CLIENT_ERROR, Some ?g)
         else (IOTHUB_CLIENT_OK, Some (?g\<lparr>waitingToSend := waitingToSend ?g @
            [\<lparr>messageHandle = the mg, list_callback = cb, list_context = ctx,
              ms_timesOutAfter = t1, message_timeout_value = t2\<rparr>]\<rparr>)))"
        using run h2 h3 s ad by (cases a) (simp_all add: Let_def)
      show ?thesis
      proof (cases a)
        case False
        with run g refused [where e = e and d = "the se"] show ?thesis by simp
      next
        case True
        have "cb = None \<longrightarrow> ctx = 0" using ok by auto
        with True run g show ?thesis by (intro queued [where e = e and d = "the se"]) simp_all
      qed
    qed
  qed
qed

lemma send_event_good:
  assumes inv: "client_inv contents h" and run: "IoTHubClientCore_LL_SendEventAsync api m cb ctx (Some h) = (r, ho)"
  shows "\<exists>h'. ho = Some h' \<and> (twin_ordered h \<longrightarrow> twin_ordered h') \<and> good_step api contents held
    (if r = IOTHUB_CLIENT_OK then (case cb of None \<Rightarrow> {#} | Some f \<Rightarrow> {#(f, ctx)#}) else {#}) {#} h h'"
  using run
proof (cases rule: send_event_cases)
  case (refused e d)
  let ?g = "h\<lparr>env := e, diagnostic_setting := d\<rparr>"
  have "client_inv contents ?g" using client_inv_cong [of ?g h contents] inv by simp
  with refused show ?thesis by (auto simp: reports_def twin_ordered_def intro!: good_stepI)
next
  case (queued e d x)
  let ?g = "h\<lparr>env := e, diagnostic_setting := d, waitingToSend := waitingToSend h @ [x]\<rparr>"
  have "client_inv contents ?g" using client_inv_cong [of ?g h contents] inv by simp
  with queued show ?thesis
    by (cases cb) (simp_all add: good_step_def balanced_def outstanding_def reports_def twin_ordered_def)
qed

lemma send_reported_good:
  assumes inv: "client_inv contents h" and t: "transport_laws api held"
    and run: "IoTHubClientCore_LL_SendReportedState api bytes cb ctx (Some h) = (r, ho)"
  shows "\<exists>h'. ho = Some h' \<and> (twin_ordered h \<longrightarrow> twin_ordered h') \<and> good_step api contents held {#}
    (if r = IOTHUB_CLIENT_OK then (case cb of None \<Rightarrow> {#} | Some f \<Rightarrow> {#(f, ctx)#}) else {#}) h h'"
proof (cases "bytes = None \<or> bytes = Some []")
  case True
  with run inv show ?thesis by (auto simp: IoTHubClientCore_LL_SendReportedState_def intro!: good_stepI)
next
  case False
  then obtain bs where bs: "bytes = Some bs" "bs \<noteq> []" by auto
  obtain i h1 where h1: "get_next_item_id h = (i, h1)" by fastforce
  obtain tw h2 where h2: "dev_twin_data_create api i bs cb ctx h1 = (tw, h2)" by fastforce
  obtain ok t' where su: "IoTHubTransport_Subscribe_DeviceTwin api (transportHandle h2) = (ok, t')" by fastforce
  have sd: "held (snd (IoTHubTransport_Subscribe_DeviceTwin api s)) = held s" for s
    using t by (simp add: transport_laws_def)
  have held: "held t' = held (transportHandle h2)" using sd [of "transportHandle h2"] su by simp
  obtain n where e1: "h1 = h\<lparr>data_msg_id := n\<rparr>" using h1 by (auto simp: get_next_item_id_def Let_def)
  obtain e where e2: "h2 = h\<lparr>data_msg_id := n, env := e\<rparr>"
    using h2 e1 by (auto simp: dev_twin_data_create_def on_env_eq split: prod.splits if_splits)
  have tw: "reported_state_callback x = cb \<and> twin_context x = ctx" if "tw = Some x" for x
    using h2 that by (auto simp: dev_twin_data_create_def split: prod.splits if_splits)
  have run: "(r, ho) = (case tw of None \<Rightarrow> (IOTHUB_CLIENT_ERROR, Some h2)
      | Some x \<Rightarrow> if \<not> ok then (IOTHUB_CLIENT_ERROR, Some (h2\<lparr>transportHandle := t'\<rparr>))
         else (IOTHUB_CLIENT_OK, Some (h2\<lparr>transportHandle := t', iot_msg_queue := iot_msg_queue h2 @ [x]\<rparr>)))"
    using run bs h1 h2 su
    by (cases tw; cases ok) (auto simp: IoTHubClientCore_LL_SendReportedState_def on_transport_def)
  have inv': "client_inv contents (h2\<lparr>transportHandle := s, iot_msg_queue := q\<rparr>)" "client_inv contents h2"
    "client_inv contents (h2\<lparr>transportHandle := s\<rparr>)" for s q
    using client_inv_cong [of "h2\<lparr>transportHandle := s, iot_msg_queue := q\<rparr>" h contents]
      client_inv_cong [of h2 h contents] client_inv_cong [of "h2\<lparr>transportHandle := s\<rparr>" h contents] inv
    by (simp_all add: e2)
  show ?thesis
  proof (cases tw)
    case None
    with run inv'(2) show ?thesis by (auto simp: e2 reports_def twin_ordered_def intro!: good_stepI)
  next
    case (Some x)
    with run tw [OF Some] held inv' show ?thesis
      by (cases ok; cases cb) (simp_all add: e2 good_step_def balanced_def outstanding_def reports_def twin_ordered_def)
  qed
qed

text \<open>The settings: they touch neither queue nor log.\<close>

datatype 'mp client_op =
  OpSendEvent "'mp IOTHUB_MESSAGE option" "nat option" nat
| OpSendEventToOutput "'mp IOTHUB_MESSAGE option" "string option" "nat option" nat
| OpSendReportedState "char list option" "nat option" nat
| OpDoWork
| OpSetMessageCallback bool "nat option" nat
| OpSetMethodCallback bool "nat option" nat
| OpMethodResponse nat "char list option" int
| OpSetTwinCallback "nat option" nat
| OpGetTwin "nat option" nat
| OpSetInput "string option" "nat option" "nat option" nat "char list option"
| OpSetConnectionCallback "nat option" nat
| OpSetRetryPolicy IOTHUB_CLIENT_RETRY_POLICY nat
| OpSetOption "string option" "option_value option"
| OpSendDisposition "'mp MESSAGE_CALLBACK_INFO option" IOTHUBMESSAGE_DISPOSITION_RESULT
| OpGetSendStatus bool

text \<open>One call of the api. The fuel of the walks over the handlers is larger than their number.\<close>

definition handler_fuel :: "('mp, 't, 'l, 'e, 'm) CLIENT_scheme \<Rightarrow> nat" where
  "handler_fuel h = Suc (Suc (next_handler h))"

fun client_step ::
  "('mp, 't, 'l, 'li, 'e, 'a) client_api_scheme \<Rightarrow> 'mp client_op \<Rightarrow> ('mp, 't, 'l, 'e, 'm) CLIENT_scheme
     \<Rightarrow> (IOTHUB_CLIENT_RESULT \<times> ('mp, 't, 'l, 'e, 'm) CLIENT_scheme option) run" where
  "client_step api (OpSendEvent m cb ctx) h = Done (IoTHubClientCore_LL_SendEventAsync api m cb ctx (Some h))"
| "client_step api (OpSendEventToOutput m n cb ctx) h =
     (case IoTHubClientCore_LL_SendEventToOutputAsync api m n cb ctx (Some h) of (r, _, h) \<Rightarrow> Done (r, h))"
| "client_step api (OpSendReportedState b cb ctx) h = Done (IoTHubClientCore_LL_SendReportedState api b cb ctx (Some h))"
| "client_step api OpDoWork h = run_bind (IoTHubClientCore_LL_DoWork api (Some h)) (\<lambda>h. Done (IOTHUB_CLIENT_OK, h))"
| "client_step api (OpSetMessageCallback ex cb ctx) h =
     Done (if ex then IoTHubClientCore_LL_SetMessageCallback_Ex api cb ctx (Some h)
           else IoTHubClientCore_LL_SetMessageCallback api cb ctx (Some h))"
| "client_step api (OpSetMethodCallback ex cb ctx) h =
     Done (if ex then IoTHubClientCore_LL_SetDeviceMethodCallback_Ex api cb ctx (Some h)
           else IoTHubClientCore_LL_SetDeviceMethodCallback api cb ctx (Some h))"
| "client_step api (OpMethodResponse i b s) h = Done (IoTHubClientCore_LL_DeviceMethodResponse api i b s (Some h))"
| "client_step api (OpSetTwinCallback cb ctx) h = Done (IoTHubClientCore_LL_SetDeviceTwinCallback api cb ctx (Some h))"
| "client_step api (OpGetTwin cb ctx) h = Done (IoTHubClientCore_LL_GetTwinAsync api cb ctx (Some h))"
| "client_step api (OpSetInput n cb cbEx ctx ctxEx) h =
     IoTHubClientCore_LL_SetInputMessageCallbackImpl (handler_fuel h) api n cb cbEx ctx ctxEx (Some h)"
| "client_step api (OpSetConnectionCallback cb ctx) h = Done (IoTHubClientCore_LL_SetConnectionStatusCallback cb ctx (Some h))"
| "client_step api (OpSetRetryPolicy p l) h = Done (IoTHubClientCore_LL_SetRetryPolicy api p l (Some h))"
| "client_step api (OpSetOption n v) h = IoTHubClientCore_LL_SetOption api n v (Some h)"
| "client_step api (OpSendDisposition i d) h = Done (IoTHubClientCore_LL_SendMessageDisposition api i d (Some h))"
| "client_step api (OpGetSendStatus p) h =
     (case IoTHubClientCore_LL_GetSendStatus api p (Some h) of (r, _, h) \<Rightarrow> Done (r, h))"

text \<open>
  What a caller owes: the value of an option has the type of the option. And what the environment
  owes: memory for the context of an input handler.
\<close>

definition option_typed :: "string \<Rightarrow> option_value \<Rightarrow> bool" where
  "option_typed name v \<longleftrightarrow>
     (if name = OPTION_MESSAGE_TIMEOUT then case v of TicksValue _ \<Rightarrow> True | _ \<Rightarrow> False
      else if name = OPTION_PRODUCT_INFO \<or> name = OPTION_MODEL_ID then case v of StringValue _ \<Rightarrow> True | _ \<Rightarrow> False
      else if name = OPTION_DIAGNOSTIC_SAMPLING_PERCENTAGE then case v of Uint32Value _ \<Rightarrow> True | _ \<Rightarrow> False
      else if name = OPTION_SAS_TOKEN_REFRESH_TIME \<or> name = OPTION_SAS_TOKEN_LIFETIME
      then case v of SizeValue _ \<Rightarrow> True | _ \<Rightarrow> False
      else True)"

fun op_ok :: "('mp, 't, 'l, 'li, 'e, 'a) client_api_scheme \<Rightarrow> 'mp client_op \<Rightarrow> bool" where
  "op_ok api (OpSetInput n cb cbEx ctx ctxEx) = (ctxEx = None \<or> memory_available (c_os api))"
| "op_ok api (OpSetOption (Some n) (Some v)) = option_typed n v"
| "op_ok api op = True"

definition owed_to :: "nat option \<Rightarrow> nat \<Rightarrow> IOTHUB_CLIENT_RESULT \<Rightarrow> (nat \<times> nat) multiset" where
  "owed_to cb ctx r =
     (if r = IOTHUB_CLIENT_OK then (case cb of None \<Rightarrow> {#} | Some f \<Rightarrow> {#(f, ctx)#}) else {#})"

text \<open>The callbacks an accepted event, or an accepted reported state, is owed.\<close>

fun accepted_event :: "'mp client_op \<Rightarrow> IOTHUB_CLIENT_RESULT \<Rightarrow> (nat \<times> nat) multiset" where
  "accepted_event (OpSendEvent m cb ctx) r = owed_to cb ctx r"
| "accepted_event (OpSendEventToOutput m n cb ctx) r = owed_to cb ctx r"
| "accepted_event op r = {#}"

fun accepted_report :: "'mp client_op \<Rightarrow> IOTHUB_CLIENT_RESULT \<Rightarrow> (nat \<times> nat) multiset" where
  "accepted_report (OpSendReportedState b cb ctx) r = owed_to cb ctx r"
| "accepted_report op r = {#}"

lemma settings_good:
  assumes "client_inv contents h" "event_callbacks h' = event_callbacks h" "handlers h' = handlers h"
    "next_handler h' = next_handler h" "messageCallback h' = messageCallback h" "methodCallback h' = methodCallback h"
    "waitingToSend h' = waitingToSend h" "held (transportHandle h') = held (transportHandle h)"
    "user_calls h' = user_calls h" "iot_msg_queue h' = iot_msg_queue h" "iot_ack_queue h' = iot_ack_queue h"
  shows "good_step api contents held {#} {#} h h'"
  using assms client_inv_cong [of h' h contents] by (intro good_stepI) (simp_all add: reports_def)

lemma on_transport_pair: "on_transport f h = (fst (f (transportHandle h)), h\<lparr>transportHandle := snd (f (transportHandle h))\<rparr>)"
  by (simp add: on_transport_def split: prod.split)

lemma on_env_pair: "on_env f h = (fst (f (env h)), h\<lparr>env := snd (f (env h))\<rparr>)"
  by (simp add: on_env_def split: prod.split)

text \<open>What an operation owes, given its result.\<close>

definition step_ok ::
  "('mp, 't, 'l, 'li, 'e, 'a) client_api_scheme \<Rightarrow> ('l \<Rightarrow> ('li \<times> nat) list) \<Rightarrow> ('t \<Rightarrow> 'mp IOTHUB_MESSAGE_LIST multiset)
     \<Rightarrow> 'mp client_op \<Rightarrow> ('mp, 't, 'l, 'e, 'm) CLIENT_scheme
     \<Rightarrow> (IOTHUB_CLIENT_RESULT \<times> ('mp, 't, 'l, 'e, 'm) CLIENT_scheme option) run \<Rightarrow> bool" where
  "step_ok api contents held op h run \<longleftrightarrow>
     (\<exists>r h'. run = Done (r, Some h') \<and> good_step api contents held (accepted_event op r) (accepted_report op r) h h'
        \<and> (twin_ordered h \<longrightarrow> (\<forall>cb ctx. op \<noteq> OpGetTwin cb ctx) \<longrightarrow> twin_ordered h'))"

lemma op_stepI:
  assumes "good_step api contents held (accepted_event op r) (accepted_report op r) h h'"
    "twin_ordered h \<Longrightarrow> (\<forall>cb ctx. op \<noteq> OpGetTwin cb ctx) \<Longrightarrow> twin_ordered h'"
  shows "step_ok api contents held op h (Done (r, Some h'))"
  using assms by (simp add: step_ok_def)

text \<open>An operation without debts that keeps queues and log.\<close>

lemma quiet_step:
  assumes "\<And>r. accepted_event op r = {#}" "\<And>r. accepted_report op r = {#}"
    and "client_inv contents h'" "held (transportHandle h') = held (transportHandle h)"
    "waitingToSend h' = waitingToSend h" "user_calls h' = user_calls h"
    "iot_msg_queue h' = iot_msg_queue h" "iot_ack_queue h' = iot_ack_queue h"
    "(\<forall>cb ctx. op \<noteq> OpGetTwin cb ctx) \<Longrightarrow> complete_twin_update_encountered h' = complete_twin_update_encountered h"
  shows "step_ok api contents held op h (Done (r, Some h'))"
  using assms by (intro op_stepI) (auto simp: reports_def twin_ordered_def intro!: good_stepI)

lemma message_callback_ok:
  assumes inv: "client_inv contents h" and t: "transport_laws api held"
  shows "step_ok api contents held (OpSetMessageCallback ex cb ctx) h (client_step api (OpSetMessageCallback ex cb ctx) h)"
proof -
  have su: "held (snd (IoTHubTransport_Subscribe api d s)) = held s" "held (IoTHubTransport_Unsubscribe api d s) = held s" for d s
    using t by (simp_all add: transport_laws_def)
  have inv': "client_inv contents (h\<lparr>transportHandle := s, messageCallback := c\<rparr>)"
    if "msg_type c = CALLBACK_TYPE_SYNC \<longrightarrow> msg_callbackSync c \<noteq> None" "msg_type c = CALLBACK_TYPE_ASYNC \<longrightarrow> msg_callbackAsync c \<noteq> None"
    for s c
    using inv that by (simp add: client_inv_def inputs_inv_def handler_ptrs_def)
  show ?thesis
  proof (cases cb)
    case None
    then show ?thesis
      using inv
      by (cases "msg_type (messageCallback h)") (auto simp: IoTHubClientCore_LL_SetMessageCallback_def su
        IoTHubClientCore_LL_SetMessageCallback_Ex_def unsubscribe_messages_def no_message_callback_def intro!: quiet_step inv')
  next
    case (Some f)
    then show ?thesis
      using inv
      by (cases "msg_type (messageCallback h)") (auto simp: IoTHubClientCore_LL_SetMessageCallback_def su on_transport_pair
        IoTHubClientCore_LL_SetMessageCallback_Ex_def no_message_callback_def intro!: quiet_step inv')
  qed
qed

lemma method_callback_ok:
  assumes inv: "client_inv contents h" and t: "transport_laws api held"
  shows "step_ok api contents held (OpSetMethodCallback ex cb ctx) h (client_step api (OpSetMethodCallback ex cb ctx) h)"
proof -
  have su: "held (snd (IoTHubTransport_Subscribe_DeviceMethod api d s)) = held s"
    "held (IoTHubTransport_Unsubscribe_DeviceMethod api d s) = held s" for d s
    using t by (simp_all add: transport_laws_def)
  have inv': "client_inv contents (h\<lparr>transportHandle := s, methodCallback := c\<rparr>)"
    if "method_type c = CALLBACK_TYPE_SYNC \<longrightarrow> method_callbackSync c \<noteq> None" "method_type c = CALLBACK_TYPE_ASYNC \<longrightarrow> method_callbackAsync c \<noteq> None"
    for s c
    using inv that by (simp add: client_inv_def inputs_inv_def handler_ptrs_def)
  show ?thesis
    using inv
    by (cases cb; cases "method_type (methodCallback h)") (auto simp: IoTHubClientCore_LL_SetDeviceMethodCallback_def su on_transport_pair
        IoTHubClientCore_LL_SetDeviceMethodCallback_Ex_def VerifyMethodCallbackType_def ResetMethodCallbackData_def Let_def
        intro!: quiet_step inv')
qed

text \<open>Setting an input handler leaves everything but the handlers alone.\<close>

definition quiet ::
  "('t \<Rightarrow> 'mp IOTHUB_MESSAGE_LIST multiset) \<Rightarrow> ('mp, 't, 'l, 'e, 'm) CLIENT_scheme
     \<Rightarrow> ('mp, 't, 'l, 'e, 'm) CLIENT_scheme \<Rightarrow> bool" where
  "quiet held h h' \<longleftrightarrow>
     messageCallback h' = messageCallback h \<and> methodCallback h' = methodCallback h
   \<and> waitingToSend h' = waitingToSend h \<and> user_calls h' = user_calls h \<and> iot_msg_queue h' = iot_msg_queue h
   \<and> iot_ack_queue h' = iot_ack_queue h \<and> held (transportHandle h') = held (transportHandle h)
   \<and> complete_twin_update_encountered h' = complete_twin_update_encountered h"

lemma quiet_refl [simp]: "quiet held h h"
  by (simp add: quiet_def)

lemma quiet_trans: "quiet held h h1 \<Longrightarrow> quiet held h1 h' \<Longrightarrow> quiet held h h'"
  by (simp add: quiet_def)

lemma quiet_updates [simp]:
  "quiet held h (h\<lparr>handlers := a\<rparr>)" "quiet held h (h\<lparr>event_callbacks := b\<rparr>)" "quiet held h (h\<lparr>env := e\<rparr>)"
  "quiet held h (h\<lparr>next_handler := n\<rparr>)" "quiet held h (put_handler p ev h)"
  by (simp_all add: quiet_def put_handler_def)

lemma quiet_steps:
  "delete_event p h = Done h' \<Longrightarrow> quiet held h h'" "on_env f h = (r, h') \<Longrightarrow> quiet held h h'"
  "name_handler api n ev h = (nm, h') \<Longrightarrow> quiet held h h'" "context_space api c h = (b, h') \<Longrightarrow> quiet held h h'"
  "list_handler api a l p h = (b, h') \<Longrightarrow> quiet held h h'" "new_handler api h = (po, h') \<Longrightarrow> quiet held h h'"
  by (auto simp: quiet_def delete_event_def on_env_eq name_handler_def context_space_def list_handler_def new_handler_def put_handler_def
      split: option.splits if_splits prod.splits)

lemma delete_event_callbacks_quiet: "delete_event_callbacks n api l i h = Done h' \<Longrightarrow> quiet held h h'"
proof (induction n arbitrary: i h)
  case (Suc n)
  then show ?case
    by (cases i) (auto simp: run_bind_Done_iff intro: quiet_trans [OF quiet_steps(1)])
qed simp

lemma delete_list_quiet: "delete_event_callback_list n api h = Done h' \<Longrightarrow> quiet held h h'"
  unfolding delete_event_callback_list_def
  by (cases "event_callbacks h") (auto simp: run_bind_Done_iff intro: quiet_trans [OF delete_event_callbacks_quiet])

lemma fill_handler_quiet:
  assumes run: "fill_handler api n cb cbEx ctx ctxEx a l p h = Done (r, h')"
  shows "quiet held h h'"
proof -
  obtain ev where ev: "handlers h p = Some ev" using run by (auto simp: fill_handler_def split: option.splits)
  obtain nm h1 where h1: "name_handler api n ev h = (nm, h1)" by fastforce
  have q1: "quiet held h h1" by (rule quiet_steps(3) [OF h1])
  have drop: "quiet held h g'" if "quiet held h g" "run_bind (delete_event p g) (\<lambda>h. Done (IOTHUB_CLIENT_ERROR, h)) = Done (r, g')" for g g'
    using that by (auto simp: run_bind_Done_iff intro: quiet_trans quiet_steps(1))
  define ev' where "ev' = (if ctxEx = None then ev\<lparr>handler_inputName := nm, callbackAsync := cb, callbackAsyncEx := cbEx,
      userContextCallbackEx := None, userContextCallback := ctx\<rparr>
    else ev\<lparr>handler_inputName := nm, callbackAsync := cb, callbackAsyncEx := cbEx, userContextCallbackEx := None\<rparr>)"
  obtain b h2 where h2: "context_space api ctxEx (put_handler p ev' h1) = (b, h2)" by fastforce
  have q2: "quiet held h h2" by (rule quiet_trans [OF quiet_trans [OF q1 quiet_updates(5)] quiet_steps(4) [OF h2]])
  obtain c h3 where h3: "list_handler api a l p h2 = (c, h3)" by fastforce
  have q3: "quiet held h h3" by (rule quiet_trans [OF q2 quiet_steps(5) [OF h3]])
  have "fill_handler api n cb cbEx ctx ctxEx a l p h =
     (if n = None \<or> nm \<noteq> None then
        if \<not> b then run_bind (delete_event p h2) (\<lambda>h. Done (IOTHUB_CLIENT_ERROR, h))
        else if \<not> c then run_bind (delete_event p h3) (\<lambda>h. Done (IOTHUB_CLIENT_ERROR, h))
        else Done (IOTHUB_CLIENT_OK, put_handler p (ev'\<lparr>userContextCallbackEx := ctxEx\<rparr>) h3)
      else run_bind (delete_event p (put_handler p (ev\<lparr>handler_inputName := nm\<rparr>) h1)) (\<lambda>h. Done (IOTHUB_CLIENT_ERROR, h)))"
    using h2 h3 unfolding ev'_def by (simp add: fill_handler_def ev h1 Let_def)
  with run have "(if n = None \<or> nm \<noteq> None then
        if \<not> b then run_bind (delete_event p h2) (\<lambda>h. Done (IOTHUB_CLIENT_ERROR, h))
        else if \<not> c then run_bind (delete_event p h3) (\<lambda>h. Done (IOTHUB_CLIENT_ERROR, h))
        else Done (IOTHUB_CLIENT_OK, put_handler p (ev'\<lparr>userContextCallbackEx := ctxEx\<rparr>) h3)
      else run_bind (delete_event p (put_handler p (ev\<lparr>handler_inputName := nm\<rparr>) h1)) (\<lambda>h. Done (IOTHUB_CLIENT_ERROR, h)))
    = Done (r, h')" by simp
  then show ?thesis
    by (auto split: if_splits dest: drop [OF q2] drop [OF q3] drop [OF quiet_trans [OF q1 quiet_updates(5)]]
        intro: quiet_trans [OF q3 quiet_updates(5)])
qed

lemma create_event_quiet:
  assumes run: "create_event_handler_callback api n cb cbEx ctx ctxEx h = Done (r, h')"
  shows "quiet held h h'"
proof -
  obtain h0 where h0: "h0 = (case event_callbacks h of Some l \<Rightarrow> h
      | None \<Rightarrow> (case on_env (singlylinkedlist_create (c_lists api)) h of (l, h) \<Rightarrow> h\<lparr>event_callbacks := l\<rparr>))"
    by blast
  have q0: "quiet held h h0"
    unfolding h0 by (auto simp: on_env_pair quiet_def split: option.split)
  note run' = run [unfolded create_event_handler_callback_def h0 [symmetric] Let_def]
  show ?thesis
  proof (cases "event_callbacks h0")
    case None
    with run' q0 show ?thesis by simp
  next
    case (Some l)
    with run' obtain i where i: "find_handler api n h0 = Done i" by (auto simp: run_bind_Done_iff)
    show ?thesis
    proof (cases i)
      case None
      obtain po g where g: "new_handler api h0 = (po, g)" by fastforce
      have q: "quiet held h g" by (rule quiet_trans [OF q0 quiet_steps(6) [OF g]])
      show ?thesis
        using run' Some i None g q by (cases po) (auto intro: quiet_trans [OF q fill_handler_quiet])
    next
      case (Some it)
      with run' \<open>event_callbacks h0 = Some l\<close> i obtain p where
        "(if p = 0 then Done (IOTHUB_CLIENT_ERROR, h0)
          else fill_handler api n cb cbEx ctx ctxEx False l p h0) = Done (r, h')"
        by (auto simp: run_bind_Done_iff)
      with q0 show ?thesis by (cases "p = 0") (auto intro: quiet_trans [OF q0 fill_handler_quiet])
    qed
  qed
qed

lemma remove_event_quiet:
  assumes t: "transport_laws api held" and run: "remove_event_unsubscribe_if_needed api n h = Done (r, h')"
  shows "quiet held h h'"
proof -
  have su: "held (IoTHubTransport_Unsubscribe_InputQueue api d s) = held s" for d s
    using t by (simp add: transport_laws_def)
  from run obtain i where i: "find_handler api n h = Done i"
    by (auto simp: remove_event_unsubscribe_if_needed_def run_bind_Done_iff)
  show ?thesis
  proof (cases i)
    case None
    with run i show ?thesis by (simp add: remove_event_unsubscribe_if_needed_def)
  next
    case (Some it)
    let ?l = "the (event_callbacks h)"
    from run i Some obtain p where p: "singlylinkedlist_item_get_value (c_lists api) ?l it = Done p"
      by (auto simp: remove_event_unsubscribe_if_needed_def run_bind_Done_iff Let_def)
    show ?thesis
    proof (cases "p = 0")
      case True
      with run i Some p show ?thesis by (simp add: remove_event_unsubscribe_if_needed_def Let_def)
    next
      case False
      with run i Some p obtain g where g: "delete_event p h = Done g"
        by (auto simp: remove_event_unsubscribe_if_needed_def run_bind_Done_iff Let_def)
      obtain ok l e where r: "singlylinkedlist_remove (c_lists api) ?l it (env g) = (ok, l, e)" by (metis prod_cases3)
      have "quiet held h g" by (rule quiet_steps(1) [OF g])
      with run i Some p False g r show ?thesis
        by (auto simp: remove_event_unsubscribe_if_needed_def Let_def quiet_def su split: if_splits)
    qed
  qed
qed

lemma set_input_quiet:
  assumes t: "transport_laws api held"
    and run: "IoTHubClientCore_LL_SetInputMessageCallbackImpl f api n cb cbEx ctx ctxEx (Some h) = Done (r, Some h')"
  shows "quiet held h h'"
proof -
  have su: "held (snd (IoTHubTransport_Subscribe_InputQueue api d s)) = held s" for d s
    using t by (simp add: transport_laws_def)
  have tq: "quiet held h (h\<lparr>transportHandle := s\<rparr>)" if "held s = held (transportHandle h)" for h s
    using that by (simp add: quiet_def)
  show ?thesis
  proof (cases "cb = None \<and> cbEx = None")
    case True
    with run remove_event_quiet [OF t] show ?thesis
      by (auto simp: IoTHubClientCore_LL_SetInputMessageCallbackImpl_def run_bind_Done_iff)
  next
    case False
    then obtain r1 h1 where h1: "create_event_handler_callback api n cb cbEx ctx ctxEx h = Done (r1, h1)"
      using run by (auto simp: IoTHubClientCore_LL_SetInputMessageCallbackImpl_def run_bind_Done_iff Let_def)
    note q1 = create_event_quiet [OF h1]
    have q2: "quiet held h (h1\<lparr>transportHandle := snd (IoTHubTransport_Subscribe_InputQueue api (deviceHandle h1) (transportHandle h1))\<rparr>)"
      by (rule quiet_trans [OF q1 tq]) (rule su)
    show ?thesis
      using run False q1 q2
      by (auto simp: IoTHubClientCore_LL_SetInputMessageCallbackImpl_def h1 Let_def on_transport_pair run_bind_Done_iff
          split: if_splits option.splits intro: quiet_trans [OF q2 delete_list_quiet])
  qed
qed

lemma set_input_ok:
  assumes inv: "client_inv contents h" and laws: "list_laws (c_lists api) contents" and t: "transport_laws api held"
    and ok: "op_ok api (OpSetInput n cb cbEx ctx ctxEx)"
  shows "step_ok api contents held (OpSetInput n cb cbEx ctx ctxEx) h (client_step api (OpSetInput n cb cbEx ctx ctxEx) h)"
proof -
  have ii: "inputs_inv contents h" using inv by (simp add: client_inv_def)
  have "dom (handlers h) \<subseteq> {0..<next_handler h}" using ii by (auto simp: inputs_inv_def)
  then have "card (dom (handlers h)) \<le> next_handler h" using card_mono [of "{0..<next_handler h}"] by fastforce
  then have fuel: "Suc (card (dom (handlers h))) < handler_fuel h" by (simp add: handler_fuel_def)
  obtain r h' where run: "IoTHubClientCore_LL_SetInputMessageCallbackImpl (handler_fuel h) api n cb cbEx ctx ctxEx (Some h) = Done (r, Some h')"
      and ii': "inputs_inv contents h'"
  proof (cases "cb = None \<and> cbEx = None")
    case True
    with remove_input_spec [OF laws ii] that show ?thesis by blast
  next
    case False
    then have cb: "cb \<noteq> None \<or> cbEx \<noteq> None" by auto
    have "ctxEx = None \<or> inputs contents h n = None \<or> memory_available (c_os api)" using ok by auto
    from set_input_spec [OF laws ii fuel cb this] that show ?thesis by blast
  qed
  have q: "quiet held h h'" by (rule set_input_quiet [OF t run])
  then have "client_inv contents h'" using inv ii' by (simp add: client_inv_def quiet_def)
  with q run show ?thesis by (auto simp: quiet_def intro!: quiet_step)
qed

definition same_handlers_in :: "('mp, 't, 'l, 'e, 'm) CLIENT_scheme \<Rightarrow> ('mp, 't, 'l, 'e, 'm) CLIENT_scheme \<Rightarrow> bool" where
  "same_handlers_in h h' \<longleftrightarrow>
     event_callbacks h' = event_callbacks h \<and> handlers h' = handlers h \<and> next_handler h' = next_handler h"

lemma option_names:
  "OPTION_SAS_TOKEN_REFRESH_TIME \<noteq> OPTION_MESSAGE_TIMEOUT" "OPTION_SAS_TOKEN_LIFETIME \<noteq> OPTION_MESSAGE_TIMEOUT"
  "OPTION_MODEL_ID \<noteq> OPTION_MESSAGE_TIMEOUT" "OPTION_DIAGNOSTIC_SAMPLING_PERCENTAGE \<noteq> OPTION_MESSAGE_TIMEOUT"
  "OPTION_MODEL_ID \<noteq> OPTION_DIAGNOSTIC_SAMPLING_PERCENTAGE"
  "OPTION_DIAGNOSTIC_SAMPLING_PERCENTAGE \<noteq> OPTION_MODEL_ID" "OPTION_DIAGNOSTIC_SAMPLING_PERCENTAGE \<noteq> OPTION_PRODUCT_INFO"
  "OPTION_SAS_TOKEN_REFRESH_TIME \<noteq> OPTION_PRODUCT_INFO" "OPTION_SAS_TOKEN_LIFETIME \<noteq> OPTION_PRODUCT_INFO"
  "OPTION_SAS_TOKEN_REFRESH_TIME \<noteq> OPTION_MODEL_ID" "OPTION_SAS_TOKEN_LIFETIME \<noteq> OPTION_MODEL_ID"
  "OPTION_SAS_TOKEN_REFRESH_TIME \<noteq> OPTION_DIAGNOSTIC_SAMPLING_PERCENTAGE"
  "OPTION_SAS_TOKEN_LIFETIME \<noteq> OPTION_DIAGNOSTIC_SAMPLING_PERCENTAGE"
  "OPTION_MODEL_ID \<noteq> OPTION_PRODUCT_INFO" "OPTION_PRODUCT_INFO \<noteq> OPTION_MESSAGE_TIMEOUT"
  "OPTION_MODEL_ID \<noteq> OPTION_SAS_TOKEN_REFRESH_TIME" "OPTION_MODEL_ID \<noteq> OPTION_SAS_TOKEN_LIFETIME"
  by (simp_all add: OPTION_MESSAGE_TIMEOUT_def OPTION_PRODUCT_INFO_def OPTION_DIAGNOSTIC_SAMPLING_PERCENTAGE_def
      OPTION_SAS_TOKEN_REFRESH_TIME_def OPTION_SAS_TOKEN_LIFETIME_def OPTION_MODEL_ID_def)

lemma set_option_quiet:
  assumes t: "transport_laws api held" and typed: "option_typed n v"
  shows "\<exists>r h'. set_client_option api n v h = Done (r, h') \<and> quiet held h h' \<and> same_handlers_in h h'"
proof -
  have su: "held (snd (IoTHubTransport_SetOption api n w u)) = held u"
    "held (snd (IoTHubTransport_GetSupportedPlatformInfo api u)) = held u" for u w
    using t by (simp_all add: transport_laws_def)
  note frames = quiet_def same_handlers_in_def su
  note def = set_client_option_def on_env_pair on_transport_pair
  consider "n = OPTION_MESSAGE_TIMEOUT" | "n \<noteq> OPTION_MESSAGE_TIMEOUT" "n = OPTION_PRODUCT_INFO"
    | "n \<noteq> OPTION_MESSAGE_TIMEOUT" "n \<noteq> OPTION_PRODUCT_INFO" by blast
  then show ?thesis
  proof cases
    case 1
    with typed show ?thesis by (cases v) (simp_all add: def frames option_typed_def)
  next
    case 2
    with typed show ?thesis
      by (cases v; cases "fst (IoTHubTransport_GetSupportedPlatformInfo api (transportHandle h))")
        (simp_all add: def frames option_typed_def)
  next
    case 3
    with typed show ?thesis
      by (cases v) (auto simp: def frames option_typed_def option_names option_names [THEN not_sym] IoTHubClient_Auth_Set_SasToken_Expiry_def
          split: option.split if_splits)
  qed
qed

lemma client_step_ok:
  assumes inv: "client_inv contents h" and laws: "list_laws (c_lists api) contents" and t: "transport_laws api held"
    and ok: "op_ok api op"
  shows "step_ok api contents held op h (client_step api op h)"
proof (cases op)
  case (OpSendEvent m cb ctx)
  obtain r ho where run: "IoTHubClientCore_LL_SendEventAsync api m cb ctx (Some h) = (r, ho)" by fastforce
  from send_event_good [OF inv run, of held] show ?thesis
    by (auto simp: OpSendEvent run step_ok_def owed_to_def)
next
  case (OpSendEventToOutput m n cb ctx)
  have idle: "step_ok api contents held op h (Done (IOTHUB_CLIENT_INVALID_ARG, Some h))"
    by (rule op_stepI) (simp_all add: OpSendEventToOutput owed_to_def inv good_stepI)
  show ?thesis
  proof (cases "n = None \<or> m = None \<or> (cb = None \<and> ctx \<noteq> 0)")
    case True
    then have "client_step api op h = Done (IOTHUB_CLIENT_INVALID_ARG, Some h)"
      by (simp add: OpSendEventToOutput IoTHubClientCore_LL_SendEventToOutputAsync_def)
    with idle show ?thesis by simp
  next
    case False
    obtain mr msg e where o: "IoTHubMessage_SetOutputName (c_os api) m n (env h) = (mr, msg, e)" by (metis prod_cases3)
    let ?h = "h\<lparr>env := e\<rparr>"
    have inv': "client_inv contents ?h" using client_inv_cong [of ?h h contents] inv by simp
    obtain r ho where run: "IoTHubClientCore_LL_SendEventAsync api msg cb ctx (Some ?h) = (r, ho)" by fastforce
    have step: "client_step api op h = (if mr \<noteq> IOTHUB_MESSAGE_OK then Done (IOTHUB_CLIENT_ERROR, Some ?h) else Done (r, ho))"
      unfolding OpSendEventToOutput client_step.simps IoTHubClientCore_LL_SendEventToOutputAsync_def option.case if_not_P [OF False] o prod.case
      by (simp add: Let_def run)
    have same: "outstanding held ?h = outstanding held h" "reports ?h = reports h" "twin_ordered ?h = twin_ordered h"
      by (simp_all add: outstanding_def reports_def twin_ordered_def)
    from send_event_good [OF inv' run, of held] inv' show ?thesis
      unfolding step using same
      by (auto simp: OpSendEventToOutput step_ok_def owed_to_def good_step_def balanced_def)
  qed
next
  case (OpSendReportedState b cb ctx)
  obtain r ho where run: "IoTHubClientCore_LL_SendReportedState api b cb ctx (Some h) = (r, ho)" by fastforce
  from send_reported_good [OF inv t run] show ?thesis
    by (auto simp: OpSendReportedState run step_ok_def owed_to_def)
next
  case OpDoWork
  from do_work_good [OF laws t inv] show ?thesis by (auto simp: OpDoWork step_ok_def)
next
  case (OpSetMessageCallback ex cb ctx)
  with message_callback_ok [OF inv t] show ?thesis by simp
next
  case (OpSetMethodCallback ex cb ctx)
  with method_callback_ok [OF inv t] show ?thesis by simp
next
  case (OpSetInput n cb cbEx ctx ctxEx)
  with set_input_ok [OF inv laws t] ok show ?thesis by simp
next
  case (OpMethodResponse i b s)
  have "held (snd (IoTHubTransport_DeviceMethod_Response api d i b s u)) = held u" for d u
    using t by (simp add: transport_laws_def)
  then show ?thesis
    using inv client_inv_cong [of "h\<lparr>transportHandle := u\<rparr>" h contents for u]
    by (auto simp: OpMethodResponse IoTHubClientCore_LL_DeviceMethodResponse_def on_transport_pair intro!: quiet_step)
next
  case (OpSetTwinCallback cb ctx)
  have "held (snd (IoTHubTransport_Subscribe_DeviceTwin api u)) = held u"
    "held (IoTHubTransport_Unsubscribe_DeviceTwin api u) = held u" for u
    using t by (simp_all add: transport_laws_def)
  then show ?thesis
    using inv client_inv_cong [of "h\<lparr>transportHandle := u\<rparr>" h contents for u]
      client_inv_cong [of "h\<lparr>transportHandle := u, deviceTwinCallback := c\<rparr>" h contents for u c]
      client_inv_cong [of "h\<lparr>transportHandle := u, deviceTwinCallback := c, deviceTwinContextCallback := x\<rparr>" h contents for u c x]
    by (cases cb) (auto simp: OpSetTwinCallback IoTHubClientCore_LL_SetDeviceTwinCallback_def on_transport_pair intro!: quiet_step)
next
  case (OpGetTwin cb ctx)
  have "held (snd (IoTHubTransport_Subscribe_DeviceTwin api u)) = held u"
    "held (snd (IoTHubTransport_GetTwinAsync api d (a, b) u)) = held u" for u d a b
    using t by (simp_all add: transport_laws_def)
  then show ?thesis
    using inv client_inv_cong [of "h\<lparr>transportHandle := u\<rparr>" h contents for u]
      client_inv_cong [of "h\<lparr>transportHandle := u, env := e\<rparr>" h contents for u e]
      client_inv_cong [of "h\<lparr>transportHandle := u, env := e, transportHandle := v\<rparr>" h contents for u e v]
      client_inv_cong [of "h\<lparr>transportHandle := u, env := e, transportHandle := v, complete_twin_update_encountered := True\<rparr>" h contents for u e v]
    by (cases cb) (auto simp: OpGetTwin IoTHubClientCore_LL_GetTwinAsync_def on_transport_pair on_env_pair intro!: quiet_step)
next
  case (OpSetConnectionCallback cb ctx)
  then show ?thesis
    using inv client_inv_cong [of "h\<lparr>conStatusCallback := c, conStatusUserContextCallback := x\<rparr>" h contents for c x]
    by (auto simp: IoTHubClientCore_LL_SetConnectionStatusCallback_def intro!: quiet_step)
next
  case (OpSetRetryPolicy p l)
  have "held (snd (IoTHubTransport_SetRetryPolicy api p l u)) = held u" for u
    using t by (simp add: transport_laws_def)
  then show ?thesis
    using inv client_inv_cong [of "h\<lparr>transportHandle := u\<rparr>" h contents for u]
      client_inv_cong [of "h\<lparr>transportHandle := u, retryPolicy := p, retryTimeoutLimitInSeconds := l\<rparr>" h contents for u]
    by (auto simp: OpSetRetryPolicy IoTHubClientCore_LL_SetRetryPolicy_def on_transport_pair intro!: quiet_step)
next
  case (OpSetOption n v)
  show ?thesis
  proof (cases "n = None \<or> v = None")
    case True
    then have "client_step api op h = Done (IOTHUB_CLIENT_INVALID_ARG, Some h)"
      by (auto simp: OpSetOption IoTHubClientCore_LL_SetOption_def split: option.split)
    with inv show ?thesis by (auto simp: OpSetOption intro!: quiet_step)
  next
    case False
    then obtain n' v' where nv: "n = Some n'" "v = Some v'" by auto
    then have "option_typed n' v'" using ok by (simp add: OpSetOption)
    from set_option_quiet [OF t this, of h] obtain r h' where
      "set_client_option api n' v' h = Done (r, h')" "quiet held h h'" "same_handlers_in h h'" by blast
    with inv client_inv_cong [of h' h contents] show ?thesis
      by (auto simp: OpSetOption nv IoTHubClientCore_LL_SetOption_def quiet_def same_handlers_in_def intro!: quiet_step)
  qed
next
  case (OpSendDisposition i d)
  have "held (snd (IoTHubTransport_SendMessageDisposition api i d u)) = held u" for i d u
    using t by (simp add: transport_laws_def)
  then show ?thesis
    using inv client_inv_cong [of "h\<lparr>transportHandle := u\<rparr>" h contents for u]
    by (cases i) (auto simp: OpSendDisposition IoTHubClientCore_LL_SendMessageDisposition_def on_transport_pair intro!: quiet_step)
next
  case (OpGetSendStatus p)
  have "held (snd (snd (IoTHubTransport_GetSendStatus api d u))) = held u" for d u
    using t by (simp add: transport_laws_def)
  then have "held w = held u" if "IoTHubTransport_GetSendStatus api d u = (r, s, w)" for d u r s w
    using that by (metis snd_conv)
  then show ?thesis
    using inv client_inv_cong [of "h\<lparr>transportHandle := u\<rparr>" h contents for u]
    by (auto simp: OpGetSendStatus IoTHubClientCore_LL_GetSendStatus_def split: prod.split intro!: quiet_step)
qed

section \<open>The accounts of the client\<close>

text \<open>The client: a step on the handle, which no operation frees.\<close>

definition client_do ::
  "('mp, 't, 'l, 'li, 'e, 'a) client_api_scheme \<Rightarrow> 'mp client_op \<Rightarrow> ('mp, 't, 'l, 'e, 'm) CLIENT_scheme
     \<Rightarrow> (IOTHUB_CLIENT_RESULT \<times> ('mp, 't, 'l, 'e, 'm) CLIENT_scheme) run" where
  "client_do api op h = run_bind (client_step api op h) (\<lambda>(r, ho). Done (r, the ho))"

definition lawful ::
  "('mp, 't, 'l, 'li, 'e, 'a) client_api_scheme \<Rightarrow> ('l \<Rightarrow> ('li \<times> nat) list) \<Rightarrow> ('t \<Rightarrow> 'mp IOTHUB_MESSAGE_LIST multiset) \<Rightarrow> bool" where
  "lawful api contents held \<longleftrightarrow> list_laws (c_lists api) contents \<and> transport_laws api held"

fun fetches_twin :: "'mp client_op \<Rightarrow> bool" where
  "fetches_twin (OpGetTwin cb ctx) = True"
| "fetches_twin op = False"

lemma client_do_ok:
  assumes "lawful api contents held" "client_inv contents h" "op_ok api op"
  shows "\<exists>r h'. client_do api op h = Done (r, h') \<and> good_step api contents held (accepted_event op r) (accepted_report op r) h h'
    \<and> (twin_ordered h \<longrightarrow> \<not> fetches_twin op \<longrightarrow> twin_ordered h')"
proof -
  have "step_ok api contents held op h (client_step api op h)"
    using assms by (auto simp: lawful_def intro: client_step_ok)
  then obtain r h' where run: "client_step api op h = Done (r, Some h')"
      and g: "good_step api contents held (accepted_event op r) (accepted_report op r) h h'"
      and tw: "twin_ordered h \<longrightarrow> (\<forall>cb ctx. op \<noteq> OpGetTwin cb ctx) \<longrightarrow> twin_ordered h'"
    unfolding step_ok_def by blast
  have "client_do api op h = Done (r, h')" by (simp add: client_do_def run)
  moreover have "\<forall>cb ctx. op \<noteq> OpGetTwin cb ctx" if "\<not> fetches_twin op" using that by auto
  ultimately show ?thesis using g tw by blast
qed

lemma event_accounts:
  assumes "lawful api contents held \<and> client_inv contents h" "op_ok api op"
  shows "\<exists>r h'. client_do api op h = Done (r, h') \<and> (lawful api contents held \<and> client_inv contents h')
      \<and> outstanding held h' + confirmed (user_calls h') = accepted_event op r + (outstanding held h + confirmed (user_calls h))"
proof -
  obtain r h' where "client_do api op h = Done (r, h')"
      and g: "good_step api contents held (accepted_event op r) (accepted_report op r) h h'"
    using client_do_ok assms by blast
  moreover have "outstanding held h' + confirmed (user_calls h') = accepted_event op r + (outstanding held h + confirmed (user_calls h))"
    using g by (simp add: good_step_def balanced_def add.assoc)
  ultimately show ?thesis using assms(1) g unfolding good_step_def by blast
qed

lemma report_accounts:
  assumes "lawful api contents held \<and> client_inv contents h \<and> \<not> refuses_items api" "op_ok api op"
  shows "\<exists>r h'. client_do api op h = Done (r, h') \<and> (lawful api contents held \<and> client_inv contents h' \<and> \<not> refuses_items api)
      \<and> reports h' = accepted_report op r + reports h"
  using client_do_ok [of api contents held h op] assms unfolding good_step_def by blast

lemma twins_in_order:
  assumes "lawful api contents held \<and> client_inv contents h \<and> twin_ordered h" "op_ok api op \<and> \<not> fetches_twin op"
  shows "\<exists>r h'. client_do api op h = Done (r, h') \<and> (lawful api contents held \<and> client_inv contents h' \<and> twin_ordered h')
      \<and> ({#} :: unit multiset) = {#} + {#}"
  using client_do_ok [of api contents held h op] assms unfolding good_step_def by auto

interpretation events: account "client_do api" "op_ok api" "\<lambda>h. lawful api contents held \<and> client_inv contents h"
  "\<lambda>h. outstanding held h + confirmed (user_calls h)" accepted_event for api contents held
  by unfold_locales (rule event_accounts)

interpretation reported_states: account "client_do api" "op_ok api"
  "\<lambda>h. lawful api contents held \<and> client_inv contents h \<and> \<not> refuses_items api" reports accepted_report for api contents held
  by unfold_locales (rule report_accounts)

interpretation twin_order: account "client_do api" "\<lambda>op. op_ok api op \<and> \<not> fetches_twin op"
  "\<lambda>h. lawful api contents held \<and> client_inv contents h \<and> twin_ordered h" "\<lambda>h. {#} :: unit multiset" "\<lambda>op r. {#}" for api contents held
  by unfold_locales (rule twins_in_order)

end
