(* ===== verification/ClientRuns.thy ===== *)
theory ClientRuns
  imports ClientSteps
begin

text \<open>
  What the client core guarantees of whole runs (iothub\_client\_core\_ll.c): every event confirmed
  once, reported states accounted for, twin updates in order, what is left when the client is
  destroyed, and the map its input handlers refine; with a small transport for closed examples.
\<close>

section \<open>The end of the client\<close>




section \<open>Properties\<close>



text \<open>
  C17: Reported states are accounted for in the same way, as long as the transport never answers
  ERROR for one: through any calls, those that are queued, sent or done are those that were there
  before and those that were accepted.
\<close>

theorem reported_states_accounted:
  assumes "lawful api contents held" "client_inv contents h" "\<not> refuses_items api" "\<forall>op\<in>set ops. op_ok api op"
  shows "\<exists>rs h'. run_ops (client_do api) ops h = Done (rs, h') \<and> length rs = length ops
    \<and> reports_owed (mset (iot_msg_queue h') + mset (iot_ack_queue h')) + reported (user_calls h')
        = sum_list (map2 accepted_report ops rs) + reports h"
  using reported_states.run_accounted [of api contents held h ops] assms unfolding reports_def by blast

text \<open>
  C16: The first twin update the user sees is a complete one: through any calls but
  IoTHubClientCore\_LL\_GetTwinAsync, and whatever the transport delivers, a patch is never passed on
  before the document it patches.
\<close>

theorem twin_updates_start_complete:
  assumes "lawful api contents held" "client_inv contents h" "twins (user_calls h) = []" "\<not> complete_twin_update_encountered h"
    and "\<forall>op\<in>set ops. op_ok api op \<and> \<not> fetches_twin op"
  shows "\<exists>rs h'. run_ops (client_do api) ops h = Done (rs, h')
    \<and> (twins (user_calls h') = [] \<or> hd (twins (user_calls h')) = DEVICE_TWIN_UPDATE_COMPLETE)"
proof -
  have "twin_ordered h" using assms(3,4) by (simp add: twin_ordered_def)
  then obtain rs h' where "run_ops (client_do api) ops h = Done (rs, h')" "twin_ordered h'"
    using twin_order.run_accounted [of api contents held h ops] assms(1,2,5) by blast
  then show ?thesis by (auto simp: twin_ordered_def split: if_splits)
qed

text \<open>
  A turn first expires events: those whose time is up leave the queue and are confirmed with
  MESSAGE\_TIMEOUT in the order they waited, the others keep their order. The time since an event
  was queued is measured modulo \<open>2 ^ 64\<close>, and an event queued at tick 0 never expires.
\<close>

theorem do_timeouts_spec:
  assumes "tickcounter_get_current_ms api (env h) = (Some now, e)"
  shows "DoTimeouts api h = h\<lparr>env := e, waitingToSend := filter (\<lambda>x. \<not> timed_out_at now x) (waitingToSend h),
      user_calls := user_calls h
        @ concat (map (confirmation IOTHUB_CLIENT_CONFIRMATION_MESSAGE_TIMEOUT) (filter (timed_out_at now) (waitingToSend h)))\<rparr>
    \<and> (timed_out_at now x \<longleftrightarrow> unat (ms_timesOutAfter x) \<noteq> 0
        \<and> unat (message_timeout_value x) < nat ((int (unat now) - int (unat (ms_timesOutAfter x))) mod 2 ^ 64))"
proof (intro conjI)
  have "int (unat (now - ms_timesOutAfter x)) = (int (unat now) - int (unat (ms_timesOutAfter x))) mod 2 ^ 64"
    using uint_word_ariths(2) [of now "ms_timesOutAfter x"] by simp
  then have "unat (now - ms_timesOutAfter x) = nat ((int (unat now) - int (unat (ms_timesOutAfter x))) mod 2 ^ 64)"
    by (metis nat_int)
  then show "timed_out_at now x \<longleftrightarrow> unat (ms_timesOutAfter x) \<noteq> 0
      \<and> unat (message_timeout_value x) < nat ((int (unat now) - int (unat (ms_timesOutAfter x))) mod 2 ^ 64)"
    unfolding timed_out_at_def word_less_nat_alt by (simp only: unat_eq_zero)
qed (simp add: assms DoTimeouts_def on_env_def timeouts_walk_eq)

text \<open>
  C11: The list of input handlers is a finite map: setting a handler for a name replaces the one it
  had or adds one, setting none removes it, a name that is not there cannot be removed, and when
  a call does not answer OK the map is unchanged. The hypothesis on memory excludes the one case
  that breaks the list, a failed allocation for the context of a handler that is already there.
\<close>

theorem input_handlers_refine_a_map:
  assumes laws: "list_laws (c_lists api) contents" and inv: "inputs_inv contents h"
    and mem: "ctxEx = None \<or> inputs contents h name = None \<or> memory_available (c_os api)"
  shows "\<exists>r h'. IoTHubClientCore_LL_SetInputMessageCallbackImpl (handler_fuel h) api name cb cbEx ctx ctxEx (Some h) = Done (r, Some h')
    \<and> inputs_inv contents h'
    \<and> inputs contents h' =
        (if r \<noteq> IOTHUB_CLIENT_OK then inputs contents h
         else if cb = None \<and> cbEx = None then (inputs contents h)(name := None)
         else (inputs contents h)(name \<mapsto> new_event name cb cbEx ctx ctxEx (inputs contents h name)))
    \<and> (cb = None \<and> cbEx = None \<longrightarrow> (r = IOTHUB_CLIENT_OK \<longleftrightarrow> inputs contents h name \<noteq> None))"
proof (cases "cb = None \<and> cbEx = None")
  case True
  obtain h' where h': "IoTHubClientCore_LL_SetInputMessageCallbackImpl (handler_fuel h) api name None None ctx ctxEx (Some h)
      = Done (if inputs contents h name = None then IOTHUB_CLIENT_ERROR else IOTHUB_CLIENT_OK, Some h')"
      "inputs_inv contents h'" "inputs contents h' = (inputs contents h)(name := None)"
    using remove_input_spec [OF laws inv] by blast
  with True show ?thesis by (cases "inputs contents h name") (auto simp: fun_eq_iff)
next
  case False
  then have cb: "cb \<noteq> None \<or> cbEx \<noteq> None" by auto
  have "dom (handlers h) \<subseteq> {0..<next_handler h}" using inv by (auto simp: inputs_inv_def)
  then have "card (dom (handlers h)) \<le> next_handler h" using card_mono [of "{0..<next_handler h}"] by fastforce
  then have "Suc (card (dom (handlers h))) < handler_fuel h" by (simp add: handler_fuel_def)
  from set_input_spec [OF laws inv this cb mem] obtain r h' where
    "IoTHubClientCore_LL_SetInputMessageCallbackImpl (handler_fuel h) api name cb cbEx ctx ctxEx (Some h) = Done (r, Some h')"
    "inputs_inv contents h'" "inputs contents h' = (if r = IOTHUB_CLIENT_OK
        then (inputs contents h)(name \<mapsto> new_event name cb cbEx ctx ctxEx (inputs contents h name)) else inputs contents h)"
    by blast
  with False show ?thesis by auto
qed

text \<open>
  A message from an input reaches the handler the map has for its input name, or else the
  one without a name: the extended callback with its context when there is one, and otherwise the
  plain callback, whose disposition goes to the transport. With no handler nothing changes and the
  transport is told so. Delivery does not touch the handlers.
\<close>

theorem input_messages_reach_their_handler:
  assumes laws: "list_laws (c_lists api) contents" and inv: "inputs_inv contents h"
    and msg: "info_messageHandle info = Some msg"
  shows "\<exists>b h'. IoTHubClientCore_LL_MessageCallbackFromInput api (Some info) (Some h) = Done (b, Some h')
    \<and> inputs contents h' = inputs contents h
    \<and> (case input_handler (inputs contents h) (inputName msg) of
          None \<Rightarrow> \<not> b \<and> h' = h
        | Some ev \<Rightarrow>
            (case callbackAsyncEx ev of
               Some cb \<Rightarrow> user_calls h' = user_calls h @ [InputDeliveredEx cb info (userContextCallbackEx ev)]
                 \<and> transportHandle h' = transportHandle h
             | None \<Rightarrow> b \<and> user_calls h' = user_calls h @ [InputDelivered (the (callbackAsync ev)) msg (userContextCallback ev)]
                 \<and> (\<exists>d. transportHandle h' = snd (IoTHubTransport_SendMessageDisposition api info d (transportHandle h)))))"
  using message_from_input_spec [OF laws inv msg] by blast

section \<open>Item numbers\<close>

primrec drawn_ids :: "nat \<Rightarrow> ('mp, 't, 'l, 'e, 'm) CLIENT_scheme \<Rightarrow> 32 word list" where
  "drawn_ids 0 h = []"
| "drawn_ids (Suc n) h = (case get_next_item_id h of (i, h) \<Rightarrow> i # drawn_ids n h)"

definition id_cycle :: nat where
  "id_cycle = 4294967294"

lemma next_id:
  assumes "data_msg_id h \<noteq> - 1" "get_next_item_id h = (i, h')"
  shows "unat i = unat (data_msg_id h) mod id_cycle + 1" "data_msg_id h' = i"
proof -
  let ?d = "data_msg_id h"
  have max: "unat (- 1 :: 32 word) = 4294967295" by (simp add: unsigned_minus_1_eq_mask mask_eq_exp_minus_1)
  have "unat ?d \<noteq> 4294967295" using assms(1) max by (metis word_unat_eq_iff)
  moreover have "unat ?d < 2 ^ LENGTH(32)" by (rule unsigned_less)
  ultimately have d: "unat ?d < 4294967295" by simp
  then have suc: "unat (?d + 1) = unat ?d + 1" by (simp add: unat_word_ariths)
  show "data_msg_id h' = i" using assms(2) by (auto simp: get_next_item_id_def Let_def)
  have i: "i = (if ?d + 1 \<ge> - 1 then 1 else ?d + 1)" using assms(2) by (simp add: get_next_item_id_def Let_def)
  show "unat i = unat ?d mod id_cycle + 1"
  proof (cases "unat ?d = id_cycle")
    case True
    then have "?d + 1 \<ge> - 1" unfolding word_le_nat_alt max suc by (simp add: id_cycle_def)
    with i True show ?thesis by simp
  next
    case False
    with d have k: "unat ?d < id_cycle" by (simp add: id_cycle_def)
    then have "\<not> ?d + 1 \<ge> - 1" unfolding word_le_nat_alt max suc by (simp add: id_cycle_def)
    with i suc k show ?thesis by simp
  qed
qed

lemma drawn_ids_nth:
  "data_msg_id h \<noteq> - 1 \<Longrightarrow> j < n \<Longrightarrow> unat (drawn_ids n h ! j) = (unat (data_msg_id h) + j) mod id_cycle + 1"
proof (induction n arbitrary: h j)
  case (Suc n)
  obtain i h' where g: "get_next_item_id h = (i, h')" by fastforce
  note next' = next_id [OF Suc.prems(1) g]
  have "unat i \<le> id_cycle" unfolding next'(1) using mod_less_divisor [of id_cycle] by (simp add: id_cycle_def Suc_le_eq)
  then have "i \<noteq> - 1" by (auto simp: unsigned_minus_1_eq_mask mask_eq_exp_minus_1 id_cycle_def)
  then have ok: "data_msg_id h' \<noteq> - 1" by (simp add: next'(2))
  show ?case
  proof (cases j)
    case 0
    with next'(1) g show ?thesis by simp
  next
    case (Suc k)
    with Suc.prems Suc.IH [OF ok, of k] have "unat (drawn_ids (Suc n) h ! j) = (unat i + k) mod id_cycle + 1"
      by (simp add: g next'(2))
    also have "(unat i + k) mod id_cycle = (unat (data_msg_id h) + j) mod id_cycle"
      unfolding next'(1) Suc by (metis add_Suc_right add_Suc add.commute Suc_eq_plus1 mod_add_left_eq)
    finally show ?thesis .
  qed
qed simp

lemma drawn_ids_length [simp]: "length (drawn_ids n h) = n"
  by (induction n arbitrary: h) (simp_all split: prod.split)

text \<open>
  The numbers given to reported states are never 0 nor the largest 32-bit number, and the
  same number does not come back before 4294967294 others were drawn: an acknowledgement by number
  cannot meet the wrong item as long as fewer are waiting.
\<close>

theorem item_ids_distinct:
  assumes "data_msg_id h \<noteq> - 1" "n \<le> 4294967294"
  shows "distinct (drawn_ids n h) \<and> (\<forall>i\<in>set (drawn_ids n h). 0 < unat i \<and> unat i < 4294967295)"
proof -
  have nth: "unat (drawn_ids n h ! j) = (unat (data_msg_id h) + j) mod id_cycle + 1" if "j < n" for j
    using drawn_ids_nth [OF assms(1) that] .
  have "drawn_ids n h ! j \<noteq> drawn_ids n h ! k" if jk: "j < k" "k < n" for j k
  proof
    assume "drawn_ids n h ! j = drawn_ids n h ! k"
    then have "(unat (data_msg_id h) + j) mod id_cycle = (unat (data_msg_id h) + k) mod id_cycle"
      using nth [of j] nth [of k] jk by simp
    then have "id_cycle dvd (unat (data_msg_id h) + k) - (unat (data_msg_id h) + j)"
      using jk(1) by (metis mod_eq_dvd_iff_nat nat_add_left_cancel_le less_imp_le)
    moreover have "0 < k - j" "k - j < id_cycle" using jk assms(2) by (auto simp: id_cycle_def)
    ultimately show False by (metis diff_cancel2 add.commute nat_dvd_not_less)
  qed
  then have "distinct (drawn_ids n h)"
    unfolding distinct_conv_nth by (metis drawn_ids_length linorder_neqE_nat)
  moreover have "0 < unat i \<and> unat i < 4294967295" if "i \<in> set (drawn_ids n h)" for i
  proof -
    from that obtain j where j: "j < n" "i = drawn_ids n h ! j" by (auto simp: in_set_conv_nth)
    have "(unat (data_msg_id h) + j) mod id_cycle < 4294967294"
      using mod_less_divisor [of id_cycle "unat (data_msg_id h) + j"] by (simp add: id_cycle_def)
    then show ?thesis unfolding j(2) nth [OF j(1)] by linarith
  qed
  ultimately show ?thesis by blast
qed

section \<open>A small transport\<close>

text \<open>
  A transport for closed examples: a turn reports what it has sent, then takes all that waits;
  unregistering does nothing and destroying reports what was still on its way.
\<close>

type_synonym example_properties = "(string \<Rightarrow> string \<Rightarrow> bool) \<times> (string \<times> string) list"

definition example_api ::
  "unit os \<Rightarrow> (example_properties, example_properties IOTHUB_MESSAGE_LIST list, nat option list, nat, unit) client_api" where
  "example_api os = \<lparr>c_os = os, c_fl = (\<lambda>x. x), c_map = list_map_api, c_lists = slot_lists os,
     tickcounter_get_current_ms = (\<lambda>e. (Some 5000, e)), platform_get_platform_info = (\<lambda>_ e. (Some ''os'', e)),
     IoTHubClient_LL_UploadToBlob_SetOption = (\<lambda>_ _ e. (IOTHUB_CLIENT_OK, e)),
     OPTION_CURL_VERBOSE = ''CURLOPT_VERBOSE'', MU_FAILURE = 1,
     IoTHubTransport_SendMessageDisposition = (\<lambda>_ _ t. (IOTHUB_CLIENT_OK, t)),
     IoTHubTransport_Subscribe_DeviceMethod = (\<lambda>_ t. (True, t)), IoTHubTransport_Unsubscribe_DeviceMethod = (\<lambda>_ t. t),
     IoTHubTransport_DeviceMethod_Response = (\<lambda>_ _ _ _ t. (0, t)),
     IoTHubTransport_Subscribe_DeviceTwin = (\<lambda>t. (True, t)), IoTHubTransport_Unsubscribe_DeviceTwin = (\<lambda>t. t),
     IoTHubTransport_ProcessItem = (\<lambda>_ t. (IOTHUB_PROCESS_OK, t)),
     IoTHubTransport_SetOption = (\<lambda>_ _ t. (IOTHUB_CLIENT_OK, t)),
     IoTHubTransport_Unregister = (\<lambda>_ w t. WorkDone w t),
     IoTHubTransport_Destroy = (\<lambda>w t. CallBack (SendComplete t IOTHUB_CLIENT_CONFIRMATION_BECAUSE_DESTROY) []
        (\<lambda>_ t'. WorkDone w t')),
     IoTHubTransport_Subscribe = (\<lambda>_ t. (True, t)), IoTHubTransport_Unsubscribe = (\<lambda>_ t. t),
     IoTHubTransport_DoWork = (\<lambda>w t. CallBack (SendComplete t IOTHUB_CLIENT_CONFIRMATION_OK) []
        (\<lambda>_ t'. CallBack (RetrievePropertyComplete DEVICE_TWIN_UPDATE_PARTIAL (Some ''p'')) t'
        (\<lambda>_ t'. CallBack (RetrievePropertyComplete DEVICE_TWIN_UPDATE_COMPLETE (Some ''d'')) t'
        (\<lambda>_ t'. WorkDone [] (t' @ w))))),
     IoTHubTransport_SetRetryPolicy = (\<lambda>_ _ t. (True, t)),
     IoTHubTransport_GetSendStatus = (\<lambda>_ t. (IOTHUB_CLIENT_OK, None, t)),
     IoTHubTransport_Subscribe_InputQueue = (\<lambda>_ t. (True, t)), IoTHubTransport_Unsubscribe_InputQueue = (\<lambda>_ t. t),
     IoTHubTransport_GetTwinAsync = (\<lambda>_ _ t. (IOTHUB_CLIENT_OK, t)),
     IoTHubTransport_GetSupportedPlatformInfo = (\<lambda>t. (Some 0, t)),
     on_message = (\<lambda>_ _ _ e. (IOTHUBMESSAGE_ACCEPTED, e)), on_message_ex = (\<lambda>_ _ _ e. (True, e)),
     on_input_ex = (\<lambda>_ _ _ e. (True, e)), on_method = (\<lambda>_ _ _ _ e. ((0, None), e)),
     on_method_ex = (\<lambda>_ _ _ _ _ e. (0, e)) \<rparr>"

lemma example_lawful: "lawful (example_api os) (live 0) mset"
  unfolding lawful_def transport_laws_def
  by (simp add: example_api_def slot_lists_laws completed_by_def)

lemma example_accepts: "\<not> refuses_items (example_api os)"
  by (simp add: refuses_items_def example_api_def)

text \<open>A client with a handler for the input a, and a timeout that nothing reaches.\<close>

definition example_handler :: IOTHUB_EVENT_CALLBACK where
  "example_handler = \<lparr>handler_inputName = Some ''a'', callbackAsync = Some 3, callbackAsyncEx = None,
     userContextCallback = 4, userContextCallbackEx = None\<rparr>"

definition example_client ::
  "(example_properties, example_properties IOTHUB_MESSAGE_LIST list, nat option list, unit) CLIENT" where
  "example_client = \<lparr>waitingToSend = [], iot_msg_queue = [], iot_ack_queue = [], transportHandle = [],
     isSharedTransport = False, deviceHandle = 1, messageCallback = no_message_callback,
     methodCallback = \<lparr>method_type = CALLBACK_TYPE_NONE, method_callbackSync = None, method_callbackAsync = None,
       method_userContext = 0\<rparr>,
     conStatusCallback = None, conStatusUserContextCallback = 0, lastMessageReceiveTime = INDEFINITE_TIME,
     currentMessageTimeout = 0, deviceTwinCallback = Some 6, deviceTwinContextCallback = 9,
     retryPolicy = IOTHUB_CLIENT_RETRY_EXPONENTIAL_BACKOFF_WITH_JITTER, retryTimeoutLimitInSeconds = 0,
     data_msg_id = 0, complete_twin_update_encountered = False, authorization_module = None, product_info = None,
     diagnostic_setting = \<lparr>diagSamplingPercentage = 0, currentMessageNumber = 0\<rparr>,
     event_callbacks = Some [Some 1], model_id = None, handlers = [1 \<mapsto> example_handler], next_handler = 2,
     env = (), user_calls = []\<rparr>"

lemma example_client_inv: "client_inv (live 0) example_client"
  by (simp add: client_inv_def inputs_inv_def handler_ptrs_def named_def example_client_def example_handler_def
      no_message_callback_def)

definition example_ops :: "example_properties client_op list" where
  "example_ops = [OpSendEvent (Some example_message) (Some 11) 7, OpSendReportedState (Some ''r'') (Some 5) 9, OpDoWork,
     OpSendEvent None (Some 2) 8]"

lemma example_ops_ok: "\<forall>op\<in>set example_ops. op_ok (example_api os) op \<and> \<not> fetches_twin op"
  by (simp add: example_ops_def)

lemma example_clone: "\<exists>m. IoTHubMessage_Clone happy_os list_map_api (Some example_message) () = (Some m, ())"
  by (simp add: IoTHubMessage_Clone_def example_message_def blank_message_def copy_field_def malloc_of_def
      or_null_def happy_os_def list_map_api_def CloneDiagnosticPropertyData_def)

lemma example_send:
  assumes "diagSamplingPercentage (diagnostic_setting h) = 0" "currentMessageTimeout h = 0"
  shows "\<exists>x. IoTHubClientCore_LL_SendEventAsync (example_api happy_os) (Some example_message) (Some cb) ctx (Some h)
      = (IOTHUB_CLIENT_OK, Some (h\<lparr>waitingToSend := waitingToSend h @ [x]\<rparr>)) \<and> list_callback x = Some cb \<and> list_context x = ctx"
proof -
  obtain m where m: "IoTHubMessage_Clone happy_os list_map_api (Some example_message) () = (Some m, ())"
    using example_clone by blast
  have env: "h\<lparr>env := (), waitingToSend := w\<rparr> = h\<lparr>waitingToSend := w\<rparr>" for w
    by (rule CLIENT.equality) simp_all
  show ?thesis
    using m [unfolded happy_os_def] assms
    by (intro exI [of _ "\<lparr>messageHandle = m, list_callback = Some cb, list_context = ctx, ms_timesOutAfter = 0,
        message_timeout_value = 0\<rparr>"]) (simp add: env IoTHubClientCore_LL_SendEventAsync_def example_api_def on_env_def attach_ms_timesOutAfter_def
        IoTHubClient_Diagnostic_AddIfNecessary_def should_add_diagnostic_info_def happy_os_def)
qed

lemma example_fields [simp]:
  "c_os (example_api os) = os" "c_map (example_api os) = list_map_api" "c_lists (example_api os) = slot_lists os"
  "tickcounter_get_current_ms (example_api os) = (\<lambda>e. (Some 5000, e))"
  "IoTHubTransport_Subscribe_DeviceTwin (example_api os) = (\<lambda>t. (True, t))"
  "IoTHubTransport_ProcessItem (example_api os) = (\<lambda>_ t. (IOTHUB_PROCESS_OK, t))"
  "IoTHubTransport_DoWork (example_api os) = (\<lambda>w t. CallBack (SendComplete t IOTHUB_CLIENT_CONFIRMATION_OK) []
        (\<lambda>_ t'. CallBack (RetrievePropertyComplete DEVICE_TWIN_UPDATE_PARTIAL (Some ''p'')) t'
        (\<lambda>_ t'. CallBack (RetrievePropertyComplete DEVICE_TWIN_UPDATE_COMPLETE (Some ''d'')) t'
        (\<lambda>_ t'. WorkDone [] (t' @ w)))))"
  by (simp_all add: example_api_def)

text \<open>The answers of the run: two acceptances, the turn, and a refused event.\<close>

lemma example_run:
  "\<exists>h. run_ops (client_do (example_api happy_os)) example_ops example_client
     = Done ([IOTHUB_CLIENT_OK, IOTHUB_CLIENT_OK, IOTHUB_CLIENT_OK, IOTHUB_CLIENT_INVALID_ARG], h)"
proof -
  let ?api = "example_api happy_os"
  obtain x where x: "IoTHubClientCore_LL_SendEventAsync ?api (Some example_message) (Some 11) 7 (Some example_client)
      = (IOTHUB_CLIENT_OK, Some (example_client\<lparr>waitingToSend := waitingToSend example_client @ [x]\<rparr>))"
    using example_send [of example_client 11 7] by (auto simp: example_client_def)
  have report: "\<exists>h'. client_do ?api (OpSendReportedState (Some ''r'') (Some 5) 9) h = Done (IOTHUB_CLIENT_OK, h')" for h
    by (simp add: client_do_def IoTHubClientCore_LL_SendReportedState_def get_next_item_id_def Let_def
        dev_twin_data_create_def on_env_def on_transport_def happy_os_def)
  have work: "\<exists>h'. client_do ?api OpDoWork h = Done (IOTHUB_CLIENT_OK, h')" for h
    by (simp add: client_do_def IoTHubClientCore_LL_DoWork_def Let_def client_callback_def)
  have none: "client_do ?api (OpSendEvent None (Some 2) 8) h = Done (IOTHUB_CLIENT_INVALID_ARG, h)" for h
    by (simp add: client_do_def IoTHubClientCore_LL_SendEventAsync_def)
  have "client_do ?api (OpSendEvent (Some example_message) (Some 11) 7) example_client
      = Done (IOTHUB_CLIENT_OK, example_client\<lparr>waitingToSend := waitingToSend example_client @ [x]\<rparr>)"
    by (simp add: client_do_def x)
  moreover obtain h2 where "client_do ?api (OpSendReportedState (Some ''r'') (Some 5) 9)
      (example_client\<lparr>waitingToSend := waitingToSend example_client @ [x]\<rparr>) = Done (IOTHUB_CLIENT_OK, h2)"
    using report by blast
  moreover obtain h3 where "client_do ?api OpDoWork h2 = Done (IOTHUB_CLIENT_OK, h3)" using work by blast
  ultimately show ?thesis by (simp add: example_ops_def none)
qed

lemma example_start: "outstanding mset example_client = {#}" "reports example_client = {#}"
  "user_calls example_client = []" "twins (user_calls example_client) = []"
  "\<not> complete_twin_update_encountered example_client" "\<not> isSharedTransport example_client"
  by (simp_all add: example_client_def outstanding_def reports_def)


theorem reported_states_accounted_witness:
  "\<exists>rs h. run_ops (client_do (example_api happy_os)) example_ops example_client = Done (rs, h)
     \<and> reports_owed (mset (iot_msg_queue h) + mset (iot_ack_queue h)) + reported (user_calls h) = {#(5, 9)#}"
proof -
  have "\<forall>op\<in>set example_ops. op_ok (example_api happy_os) op" using example_ops_ok by blast
  from reported_states_accounted [OF example_lawful example_client_inv example_accepts this] example_run
  show ?thesis by (auto simp: example_start example_ops_def owed_to_def)
qed

theorem twin_updates_start_complete_witness:
  "\<exists>rs h. run_ops (client_do (example_api happy_os)) example_ops example_client = Done (rs, h)
     \<and> (twins (user_calls h) = [] \<or> hd (twins (user_calls h)) = DEVICE_TWIN_UPDATE_COMPLETE)"
  by (rule twin_updates_start_complete [OF example_lawful example_client_inv example_start(4,5) example_ops_ok])

text \<open>A client with one event on its way and one that waits is destroyed.\<close>

definition example_entry :: "nat \<Rightarrow> nat \<Rightarrow> example_properties IOTHUB_MESSAGE_LIST" where
  "example_entry cb ctx = \<lparr>messageHandle = example_message, list_callback = Some cb, list_context = ctx,
     ms_timesOutAfter = 1000, message_timeout_value = 3000\<rparr>"

definition example_busy ::
  "(example_properties, example_properties IOTHUB_MESSAGE_LIST list, nat option list, unit) CLIENT" where
  "example_busy = example_client\<lparr>waitingToSend := [example_entry 11 7], transportHandle := [example_entry 2 8]\<rparr>"



theorem do_timeouts_spec_witness:
  "map list_context (waitingToSend (DoTimeouts (example_api happy_os) (example_busy\<lparr>waitingToSend :=
       [example_entry 11 7, (example_entry 2 8)\<lparr>ms_timesOutAfter := 4000\<rparr>]\<rparr>))) = [8]
   \<and> timed_out_at 5000 (example_entry 11 7)"
  using do_timeouts_spec [where api = "example_api happy_os" and now = 5000 and e = "()" and x = "example_entry 11 7"
    and h = "example_busy\<lparr>waitingToSend := [example_entry 11 7, (example_entry 2 8)\<lparr>ms_timesOutAfter := 4000\<rparr>]\<rparr>"]
  by (simp add: timed_out_at_def example_entry_def)

lemma example_inputs: "inputs (live 0) example_client = [Some ''a'' \<mapsto> example_handler]"
  by (simp add: inputs_def handler_ptrs_def named_def example_client_def example_handler_def)

lemma example_inputs_inv: "inputs_inv (live 0) example_client"
  using example_client_inv by (simp add: client_inv_def)

theorem input_handlers_refine_a_map_witness:
  "\<exists>r h'. IoTHubClientCore_LL_SetInputMessageCallbackImpl 4 (example_api happy_os) (Some ''b'') (Some 5) None 6 (Some ''x'')
       (Some example_client) = Done (r, Some h')
     \<and> dom (inputs (live 0) h') = (if r = IOTHUB_CLIENT_OK then {Some ''a'', Some ''b''} else {Some ''a''})"
proof -
  have "handler_fuel example_client = 4" by (simp add: handler_fuel_def example_client_def)
  then show ?thesis
    using input_handlers_refine_a_map [of "example_api happy_os" "live 0" example_client "Some ''x''" "Some ''b''" "Some 5" None 6]
    by (auto simp: example_inputs example_inputs_inv slot_lists_laws)
qed

theorem input_messages_reach_their_handler_witness:
  "\<exists>b h'. IoTHubClientCore_LL_MessageCallbackFromInput (example_api happy_os)
       (Some \<lparr>info_messageHandle = Some (example_message\<lparr>inputName := Some ''a''\<rparr>), transportContext = 0\<rparr>) (Some example_client)
       = Done (b, Some h') \<and> b
     \<and> user_calls h' = [InputDelivered 3 (example_message\<lparr>inputName := Some ''a''\<rparr>) 4]"
  using input_messages_reach_their_handler [of "example_api happy_os" "live 0" example_client
    "\<lparr>info_messageHandle = Some (example_message\<lparr>inputName := Some ''a''\<rparr>), transportContext = 0\<rparr>"
    "example_message\<lparr>inputName := Some ''a''\<rparr>"]
  by (auto simp: slot_lists_laws example_inputs example_inputs_inv input_handler_def example_handler_def example_start)

theorem item_ids_distinct_witness:
  "distinct (drawn_ids 3 (example_client\<lparr>data_msg_id := 4294967293\<rparr>))
     \<and> drawn_ids 3 (example_client\<lparr>data_msg_id := 4294967293\<rparr>) = [4294967294, 1, 2]"
proof (rule conjI)
  show "distinct (drawn_ids 3 (example_client\<lparr>data_msg_id := 4294967293\<rparr>))"
    using item_ids_distinct [of "example_client\<lparr>data_msg_id := 4294967293\<rparr>" 3] by simp
qed code_simp

section \<open>A failure that breaks the list\<close>

definition broken_os :: "unit os" where
  "broken_os = happy_os\<lparr>os_malloc := (\<lambda>e. (False, e))\<rparr>"

text \<open>
  When there is no memory for the extended context of a handler that is already in the list,
  the handler is freed but stays in the list: the next message for that input reads freed memory.
\<close>

theorem failed_context_leaves_a_freed_handler:
  "\<exists>h'. IoTHubClientCore_LL_SetInputMessageCallbackEx 4 (example_api broken_os) (Some ''a'') (Some 5) (Some ''ctx'')
       (Some example_client) = Done (IOTHUB_CLIENT_ERROR, Some h')
   \<and> IoTHubClientCore_LL_MessageCallbackFromInput (example_api happy_os)
       (Some \<lparr>info_messageHandle = Some (example_message\<lparr>inputName := Some ''a''\<rparr>), transportContext = 0\<rparr>) (Some h') = Fault"
  by (simp add: IoTHubClientCore_LL_SetInputMessageCallbackEx_def IoTHubClientCore_LL_SetInputMessageCallbackImpl_def
      create_event_handler_callback_def find_handler_def slot_lists_def is_event_equal_def example_client_def
      example_handler_def fill_handler_def name_handler_def context_space_def put_handler_def broken_os_def on_env_def
      delete_event_def IoTHubClientCore_LL_MessageCallbackFromInput_def list_item_at_def IoTHubMessage_GetInputName_def)

end
