(* ===== verification/MultiTree.thy ===== *)
theory MultiTree
  imports Sdk_Prelude
begin

text \<open>
  The multi tree of the serializer (serializer/src/multitree.c): a tree of named nodes, each
  with an optional value. The data model and every operation of the file, each with its
  argument checks and its allocation failures; then the invariant that siblings have distinct
  non-empty names, the refinement of MultiTree\_AddLeaf to an update of a map from paths to
  values, and what MultiTree\_GetLeafValue finds.
\<close>

section \<open>Data\<close>

text \<open>
  MULTITREE\_HANDLE\_DATA. The children array and nChildren are a list. The clone and free
  functions, which every node copies from its parent, are arguments of the operations. A node
  is owned by its parent alone, so a handle to a node is its position in the list of children,
  and an operation on a child returns the changed child.
\<close>

datatype 'v mtree = MTree (mt_name: "string option") (mt_value: "'v option") (children: "'v mtree list")

datatype MULTITREE_RESULT =
  MULTITREE_OK | MULTITREE_INVALID_ARG | MULTITREE_ALREADY_HAS_A_VALUE
| MULTITREE_EMPTY_CHILD_NAME | MULTITREE_EMPTY_VALUE | MULTITREE_OUT_OF_RANGE_INDEX
| MULTITREE_ERROR | MULTITREE_CHILD_NOT_FOUND

datatype CREATELEAF_RESULT =
  CREATELEAF_OK | CREATELEAF_ALREADY_EXISTS | CREATELEAF_EMPTY_NAME | CREATELEAF_ERROR

text \<open>MULTITREE\_CLONE\_FUNCTION: None is a non-zero return.\<close>

type_synonym ('v, 'e) clone_fun = "'v \<Rightarrow> 'e \<Rightarrow> 'v option \<times> 'e"

definition INNER_NODE_NAME_SIZE :: nat where
  "INNER_NODE_NAME_SIZE = 128"

definition set_children :: "'v mtree \<Rightarrow> 'v mtree list \<Rightarrow> 'v mtree" where
  "set_children t cs = MTree (mt_name t) (mt_value t) cs"

lemma set_children_sel [simp]:
  "mt_name (set_children t cs) = mt_name t"
  "mt_value (set_children t cs) = mt_value t"
  "children (set_children t cs) = cs"
  by (simp_all add: set_children_def)

lemma set_children_same [simp]: "set_children t (children t) = t"
  by (cases t) (simp add: set_children_def)

section \<open>Operations\<close>

definition MultiTree_Create ::
  "('e, 'm) os_scheme \<Rightarrow> ('v, 'e) clone_fun option \<Rightarrow> ('v \<Rightarrow> 'e \<Rightarrow> 'e) option \<Rightarrow> 'e
     \<Rightarrow> 'v mtree option \<times> 'e" where
  "MultiTree_Create os cloneFunction freeFunction e =
     (if cloneFunction = None \<or> freeFunction = None then (None, e)
      else let (ok, e) = os_malloc os e
           in if ok then (Some (MTree None None []), e) else (None, e))"

text \<open>The index of the first child of that name; None is NULL.\<close>

fun find_child :: "string \<Rightarrow> 'v mtree list \<Rightarrow> nat option" where
  "find_child name [] = None"
| "find_child name (c # cs) =
     (if mt_name c = Some name then Some 0 else map_option Suc (find_child name cs))"

definition getChildByName :: "'v mtree \<Rightarrow> string \<Rightarrow> nat option" where
  "getChildByName node name = find_child name (children node)"

text \<open>
  Three allocations: the node, its name and the grown array of children; between the second
  and the third the value is cloned. On success the new node is the last child.
\<close>

definition createLeaf ::
  "('e, 'm) os_scheme \<Rightarrow> ('v, 'e) clone_fun \<Rightarrow> 'v mtree \<Rightarrow> string \<Rightarrow> 'v option \<Rightarrow> 'e
     \<Rightarrow> CREATELEAF_RESULT \<times> 'v mtree \<times> 'e" where
  "createLeaf os clone node name v e =
     (if length name = 0 then (CREATELEAF_EMPTY_NAME, node, e)
      else if getChildByName node name \<noteq> None then (CREATELEAF_ALREADY_EXISTS, node, e)
      else let (ok, e) = os_malloc os e in
        if \<not> ok then (CREATELEAF_ERROR, node, e)
        else let (ok, e) = os_malloc os e in
          if \<not> ok then (CREATELEAF_ERROR, node, e)
          else let (newValue, ok, e) =
                 (case v of
                    None \<Rightarrow> (None, True, e)
                  | Some x \<Rightarrow> (case clone x e of
                                (None, e) \<Rightarrow> (None, False, e)
                              | (Some y, e) \<Rightarrow> (Some y, True, e))) in
            if \<not> ok then (CREATELEAF_ERROR, node, e)
            else let (ok, e) = os_malloc os e in
              if \<not> ok then (CREATELEAF_ERROR, node, e)
              else (CREATELEAF_OK,
                    set_children node (children node @ [MTree (Some name) newValue []]), e))"

definition leading_slash :: "string \<Rightarrow> string" where
  "leading_slash p = (if p \<noteq> [] \<and> hd p = CHR ''/'' then tl p else p)"

text \<open>
  The recursive part of MultiTree\_AddLeaf, after the checks for NULL. The path is non-empty in
  every recursive call, which passes the rest of the path from its first delimiter on.
\<close>

function AddLeaf_path ::
  "('e, 'm) os_scheme \<Rightarrow> ('v, 'e) clone_fun \<Rightarrow> 'v mtree \<Rightarrow> string \<Rightarrow> 'v \<Rightarrow> 'e
     \<Rightarrow> MULTITREE_RESULT \<times> 'v mtree \<times> 'e" where
  "AddLeaf_path os clone node destinationPath v e =
     (if length destinationPath = 0 then (MULTITREE_EMPTY_CHILD_NAME, node, e)
      else let dest = leading_slash destinationPath in
        if CHR ''/'' \<notin> set dest then
          (case createLeaf os clone node dest (Some v) e of
             (CREATELEAF_ALREADY_EXISTS, node, e) \<Rightarrow> (MULTITREE_ALREADY_HAS_A_VALUE, node, e)
           | (CREATELEAF_OK, node, e) \<Rightarrow> (MULTITREE_OK, node, e)
           | (CREATELEAF_EMPTY_NAME, node, e) \<Rightarrow> (MULTITREE_EMPTY_CHILD_NAME, node, e)
           | (CREATELEAF_ERROR, node, e) \<Rightarrow> (MULTITREE_ERROR, node, e))
        else
          let first = takeWhile (\<lambda>c. c \<noteq> CHR ''/'') dest;
              whereIsDelimiter = dropWhile (\<lambda>c. c \<noteq> CHR ''/'') dest in
          if INNER_NODE_NAME_SIZE \<le> length first then (MULTITREE_ERROR, node, e)
          else (case getChildByName node first of
                  None \<Rightarrow>
                    (case createLeaf os clone node first None e of
                       (CREATELEAF_OK, node, e) \<Rightarrow>
                         (case getChildByName node first of
                            None \<Rightarrow> (MULTITREE_INVALID_ARG, node, e)
                          | Some i \<Rightarrow>
                              (case AddLeaf_path os clone (children node ! i) whereIsDelimiter v e of
                                 (result, child, e) \<Rightarrow>
                                   (result, set_children node ((children node)[i := child]), e)))
                     | (CREATELEAF_EMPTY_NAME, node, e) \<Rightarrow> (MULTITREE_EMPTY_CHILD_NAME, node, e)
                     | (CREATELEAF_ALREADY_EXISTS, node, e) \<Rightarrow> (MULTITREE_ERROR, node, e)
                     | (CREATELEAF_ERROR, node, e) \<Rightarrow> (MULTITREE_ERROR, node, e))
                | Some i \<Rightarrow>
                    (case AddLeaf_path os clone (children node ! i) whereIsDelimiter v e of
                       (result, child, e) \<Rightarrow>
                         (result, set_children node ((children node)[i := child]), e))))"
  by pat_completeness auto

text \<open>The rest of the path from the first delimiter is shorter than the path.\<close>

lemma delimiter_shorter:
  assumes "p \<noteq> []" "CHR ''/'' \<in> set (leading_slash p)"
  shows "length (dropWhile (\<lambda>c. c \<noteq> CHR ''/'') (leading_slash p)) < length p"
proof (cases "hd p = CHR ''/''")
  case True
  with assms(1) have "length (leading_slash p) < length p"
    by (cases p) (simp_all add: leading_slash_def)
  then show ?thesis using length_dropWhile_le le_less_trans by blast
next
  case False
  then obtain c q where p: "p = c # q" "c \<noteq> CHR ''/''"
    using assms(1) by (cases p) auto
  have "length (dropWhile (\<lambda>c. c \<noteq> CHR ''/'') q) \<le> length q" by (rule length_dropWhile_le)
  then show ?thesis using p by (simp add: leading_slash_def)
qed

termination AddLeaf_path
  by (relation "measure (\<lambda>(os, clone, node, p, v, e). length p)")
    (auto simp: delimiter_shorter)

declare AddLeaf_path.simps [simp del]

definition MultiTree_AddLeaf ::
  "('e, 'm) os_scheme \<Rightarrow> ('v, 'e) clone_fun \<Rightarrow> 'v mtree option \<Rightarrow> string option \<Rightarrow> 'v option \<Rightarrow> 'e
     \<Rightarrow> MULTITREE_RESULT \<times> 'v mtree option \<times> 'e" where
  "MultiTree_AddLeaf os clone treeHandle destinationPath v e =
     (case (treeHandle, destinationPath, v) of
        (Some node, Some path, Some x) \<Rightarrow>
          (case AddLeaf_path os clone node path x e of (r, node, e) \<Rightarrow> (r, Some node, e))
      | _ \<Rightarrow> (MULTITREE_INVALID_ARG, treeHandle, e))"

text \<open>
  The third component of the result is *childHandle: the index of the new child. The argument
  \<open>childHandle\<close> says whether the caller passed a place for it.
\<close>

definition MultiTree_AddChild ::
  "('e, 'm) os_scheme \<Rightarrow> ('v, 'e) clone_fun \<Rightarrow> 'v mtree option \<Rightarrow> string option \<Rightarrow> bool \<Rightarrow> 'e
     \<Rightarrow> MULTITREE_RESULT \<times> 'v mtree option \<times> nat option \<times> 'e" where
  "MultiTree_AddChild os clone treeHandle childName childHandle e =
     (case (treeHandle, childName, childHandle) of
        (Some node, Some name, True) \<Rightarrow>
          (case createLeaf os clone node name None e of
             (CREATELEAF_ALREADY_EXISTS, node, e) \<Rightarrow>
               (MULTITREE_ALREADY_HAS_A_VALUE, Some node, None, e)
           | (CREATELEAF_OK, node, e) \<Rightarrow>
               (MULTITREE_OK, Some node, Some (length (children node) - 1), e)
           | (CREATELEAF_EMPTY_NAME, node, e) \<Rightarrow> (MULTITREE_EMPTY_CHILD_NAME, Some node, None, e)
           | (CREATELEAF_ERROR, node, e) \<Rightarrow> (MULTITREE_ERROR, Some node, None, e))
      | _ \<Rightarrow> (MULTITREE_INVALID_ARG, treeHandle, None, e))"

definition MultiTree_GetChildCount :: "'v mtree option \<Rightarrow> bool \<Rightarrow> MULTITREE_RESULT \<times> nat option" where
  "MultiTree_GetChildCount treeHandle count =
     (case treeHandle of
        None \<Rightarrow> (MULTITREE_INVALID_ARG, None)
      | Some node \<Rightarrow> if \<not> count then (MULTITREE_INVALID_ARG, None)
                    else (MULTITREE_OK, Some (length (children node))))"

definition MultiTree_GetChild ::
  "'v mtree option \<Rightarrow> nat \<Rightarrow> bool \<Rightarrow> MULTITREE_RESULT \<times> 'v mtree option" where
  "MultiTree_GetChild treeHandle index childHandle =
     (case treeHandle of
        None \<Rightarrow> (MULTITREE_INVALID_ARG, None)
      | Some node \<Rightarrow>
          if \<not> childHandle then (MULTITREE_INVALID_ARG, None)
          else if length (children node) \<le> index then (MULTITREE_INVALID_ARG, None)
          else (MULTITREE_OK, Some (children node ! index)))"

text \<open>
  The operations of STRING\_HANDLE (azure\_c\_shared\_utility/strings.h, not part of this
  repository) are an argument of the code that uses them: None is a NULL handle or a non-zero
  return.
\<close>

record ('st, 'e) string_api =
  STRING_new :: "'e \<Rightarrow> 'st option \<times> 'e"
  STRING_construct :: "string \<Rightarrow> 'e \<Rightarrow> 'st option \<times> 'e"
  STRING_concat :: "'st \<Rightarrow> string \<Rightarrow> 'e \<Rightarrow> 'st option \<times> 'e"
  STRING_concat_with_STRING :: "'st \<Rightarrow> 'st \<Rightarrow> 'e \<Rightarrow> 'st option \<times> 'e"
  STRING_c_str :: "'st \<Rightarrow> string"

definition MultiTree_GetName ::
  "('st, 'e, 'm) string_api_scheme \<Rightarrow> 'v mtree option \<Rightarrow> 'st option \<Rightarrow> 'e
     \<Rightarrow> MULTITREE_RESULT \<times> 'st option \<times> 'e" where
  "MultiTree_GetName api treeHandle destination e =
     (case (treeHandle, destination) of
        (Some node, Some st) \<Rightarrow>
          (case mt_name node of
             None \<Rightarrow> (MULTITREE_EMPTY_CHILD_NAME, destination, e)
           | Some name \<Rightarrow>
               (case STRING_concat api st name e of
                  (None, e) \<Rightarrow> (MULTITREE_ERROR, destination, e)
                | (Some st, e) \<Rightarrow> (MULTITREE_OK, Some st, e)))
      | _ \<Rightarrow> (MULTITREE_INVALID_ARG, destination, e))"

definition MultiTree_GetChildByName ::
  "'v mtree option \<Rightarrow> string option \<Rightarrow> bool \<Rightarrow> MULTITREE_RESULT \<times> 'v mtree option" where
  "MultiTree_GetChildByName treeHandle childName childHandle =
     (case (treeHandle, childName, childHandle) of
        (Some node, Some name, True) \<Rightarrow>
          (case find_child name (children node) of
             None \<Rightarrow> (MULTITREE_CHILD_NOT_FOUND, None)
           | Some i \<Rightarrow> (MULTITREE_OK, Some (children node ! i)))
      | _ \<Rightarrow> (MULTITREE_INVALID_ARG, None))"

definition MultiTree_GetValue :: "'v mtree option \<Rightarrow> bool \<Rightarrow> MULTITREE_RESULT \<times> 'v option" where
  "MultiTree_GetValue treeHandle destination =
     (case treeHandle of
        None \<Rightarrow> (MULTITREE_INVALID_ARG, None)
      | Some node \<Rightarrow>
          if \<not> destination then (MULTITREE_INVALID_ARG, None)
          else (case mt_value node of
                  None \<Rightarrow> (MULTITREE_EMPTY_VALUE, None)
                | Some v \<Rightarrow> (MULTITREE_OK, Some v)))"

definition MultiTree_SetValue ::
  "('v, 'e) clone_fun \<Rightarrow> 'v mtree option \<Rightarrow> 'v option \<Rightarrow> 'e
     \<Rightarrow> MULTITREE_RESULT \<times> 'v mtree option \<times> 'e" where
  "MultiTree_SetValue clone treeHandle v e =
     (case (treeHandle, v) of
        (Some node, Some x) \<Rightarrow>
          (if mt_value node \<noteq> None then (MULTITREE_ALREADY_HAS_A_VALUE, treeHandle, e)
           else (case clone x e of
                   (None, e) \<Rightarrow> (MULTITREE_ERROR, treeHandle, e)
                 | (Some y, e) \<Rightarrow>
                     (MULTITREE_OK, Some (MTree (mt_name node) (Some y) (children node)), e)))
      | _ \<Rightarrow> (MULTITREE_INVALID_ARG, treeHandle, e))"

text \<open>What MultiTree\_Destroy releases, in its order: values go to the free function.\<close>

datatype 'v release = FreeName string | FreeValue 'v | FreeNode

fun MultiTree_Destroy :: "'v mtree \<Rightarrow> 'v release list" where
  "MultiTree_Destroy (MTree name v cs) =
     concat (map MultiTree_Destroy cs)
     @ (case name of None \<Rightarrow> [] | Some n \<Rightarrow> [FreeName n])
     @ (case v of None \<Rightarrow> [] | Some x \<Rightarrow> [FreeValue x])
     @ [FreeNode]"

text \<open>
  The loop of MultiTree\_GetLeafValue over the segments of the path. A child matches a segment
  when strncmp over the length of the segment is 0: the segment is a prefix of its name.
\<close>

fun find_prefix_child :: "string \<Rightarrow> 'v mtree list \<Rightarrow> 'v mtree option" where
  "find_prefix_child seg [] = None"
| "find_prefix_child seg (c # cs) =
     (case mt_name c of
        None \<Rightarrow> find_prefix_child seg cs
      | Some n \<Rightarrow> if take (length seg) n = seg then Some c else find_prefix_child seg cs)"

function GetLeafValue_loop :: "'v mtree \<Rightarrow> string \<Rightarrow> MULTITREE_RESULT \<times> 'v option" where
  "GetLeafValue_loop node pos =
     (if pos = [] then
        (case mt_value node of
           None \<Rightarrow> (MULTITREE_EMPTY_VALUE, None)
         | Some v \<Rightarrow> (MULTITREE_OK, Some v))
      else
        let seg = takeWhile (\<lambda>c. c \<noteq> CHR ''/'') pos;
            whereIsDelimiter = dropWhile (\<lambda>c. c \<noteq> CHR ''/'') pos in
        if seg = [] then (MULTITREE_EMPTY_CHILD_NAME, None)
        else if length (children node) = 0 then (MULTITREE_CHILD_NOT_FOUND, None)
        else (case find_prefix_child seg (children node) of
                None \<Rightarrow> (MULTITREE_CHILD_NOT_FOUND, None)
              | Some child \<Rightarrow>
                  GetLeafValue_loop child
                    (if whereIsDelimiter \<noteq> [] then tl whereIsDelimiter else [])))"
  by pat_completeness auto

lemma after_delimiter_shorter:
  assumes "takeWhile P (p :: string) \<noteq> []"
  shows "length (tl (dropWhile P p)) < length p" "length (dropWhile P p) < length p"
proof -
  have "length (dropWhile P p) + length (takeWhile P p) = length p"
    by (metis add.commute length_append takeWhile_dropWhile_id)
  with assms show "length (dropWhile P p) < length p" by (cases "takeWhile P p") auto
  then show "length (tl (dropWhile P p)) < length p" by simp
qed

termination GetLeafValue_loop
  by (relation "measure (\<lambda>(t, p). length p)")
    (auto simp: after_delimiter_shorter simp del: length_tl)

declare GetLeafValue_loop.simps [simp del]

definition MultiTree_GetLeafValue ::
  "'v mtree option \<Rightarrow> string option \<Rightarrow> bool \<Rightarrow> MULTITREE_RESULT \<times> 'v option" where
  "MultiTree_GetLeafValue treeHandle leafPath destination =
     (case (treeHandle, leafPath, destination) of
        (Some node, Some path, True) \<Rightarrow>
          if length path = 0 then (MULTITREE_EMPTY_CHILD_NAME, None)
          else if leading_slash path = [] then (MULTITREE_EMPTY_CHILD_NAME, None)
          else GetLeafValue_loop node (leading_slash path)
      | _ \<Rightarrow> (MULTITREE_INVALID_ARG, None))"

definition MultiTree_DeleteChild ::
  "'v mtree option \<Rightarrow> string option \<Rightarrow> MULTITREE_RESULT \<times> 'v mtree option \<times> 'v release list" where
  "MultiTree_DeleteChild treeHandle childName =
     (case (treeHandle, childName) of
        (Some node, Some name) \<Rightarrow>
          (case find_child name (children node) of
             None \<Rightarrow> (MULTITREE_CHILD_NOT_FOUND, treeHandle, [])
           | Some i \<Rightarrow>
               (MULTITREE_OK,
                Some (set_children node (take i (children node) @ drop (Suc i) (children node))),
                MultiTree_Destroy (children node ! i)))
      | _ \<Rightarrow> (MULTITREE_INVALID_ARG, treeHandle, []))"


section \<open>Children by name\<close>

lemma find_child_Some:
  "find_child n cs = Some i \<Longrightarrow> i < length cs \<and> mt_name (cs ! i) = Some n"
  by (induction cs arbitrary: i) (auto split: if_splits)

lemma find_child_None: "find_child n cs = None \<longleftrightarrow> (\<forall>c \<in> set cs. mt_name c \<noteq> Some n)"
  by (induction cs) auto

lemma find_child_append:
  "find_child n (cs @ ds) =
     (case find_child n cs of
        Some i \<Rightarrow> Some i
      | None \<Rightarrow> map_option ((+) (length cs)) (find_child n ds))"
  by (induction cs; cases "find_child n ds") (auto split: option.splits)

lemma find_child_update:
  "i < length cs \<Longrightarrow> mt_name c = mt_name (cs ! i) \<Longrightarrow> find_child n (cs[i := c]) = find_child n cs"
  by (induction cs arbitrary: i) (auto split: nat.splits simp: nth_Cons')

lemma find_child_distinct:
  "distinct (map mt_name cs) \<Longrightarrow> i < length cs \<Longrightarrow> mt_name (cs ! i) = Some n
     \<Longrightarrow> find_child n cs = Some i"
proof (induction cs arbitrary: i)
  case (Cons c cs)
  then show ?case by (cases i) (auto simp: image_iff dest!: nth_mem)
qed simp

section \<open>Leaf creation\<close>

definition clones :: "('v, 'e) clone_fun \<Rightarrow> 'v \<Rightarrow> 'v \<Rightarrow> bool" where
  "clones clone x y \<longleftrightarrow> (\<exists>e e'. clone x e = (Some y, e'))"

definition clone_total :: "('v, 'e) clone_fun \<Rightarrow> bool" where
  "clone_total clone \<longleftrightarrow> (\<forall>x e. fst (clone x e) \<noteq> None)"

lemma createLeaf_cases:
  assumes "createLeaf os clone node name v e = (r, node', e')"
  obtains (ok) y where "r = CREATELEAF_OK" "name \<noteq> []" "getChildByName node name = None"
      "node' = set_children node (children node @ [MTree (Some name) y []])"
      "v = None \<Longrightarrow> y = None" "\<And>x. v = Some x \<Longrightarrow> \<exists>z. y = Some z \<and> clones clone x z"
  | (fail) "r \<noteq> CREATELEAF_OK" "node' = node"
proof (cases "r = CREATELEAF_OK")
  case True
  with assms show ?thesis
    by (auto simp: createLeaf_def Let_def clones_def split: if_splits prod.splits option.splits
        intro!: ok) blast
next
  case False
  with assms have "node' = node"
    by (auto simp: createLeaf_def Let_def split: if_splits prod.splits option.splits)
  with False show ?thesis by (rule fail)
qed

lemma createLeaf_available:
  assumes "memory_available os" "clone_total clone" "name \<noteq> []" "getChildByName node name = None"
  shows "\<exists>node' e'. createLeaf os clone node name v e = (CREATELEAF_OK, node', e')"
proof -
  have m: "\<And>e. \<exists>e'. os_malloc os e = (True, e')"
    using assms(1) unfolding memory_available_def by (metis (full_types) prod.collapse)
  have c: "\<And>x e. \<exists>y e'. clone x e = (Some y, e')"
    using assms(2) unfolding clone_total_def by (metis not_None_eq prod.collapse)
  obtain e1 where e1: "os_malloc os e = (True, e1)" using m by blast
  obtain e2 where e2: "os_malloc os e1 = (True, e2)" using m by blast
  have "\<exists>w e3. (case v of None \<Rightarrow> (None, True, e2)
           | Some x \<Rightarrow> (case clone x e2 of (None, e) \<Rightarrow> (None, False, e)
                       | (Some y, e) \<Rightarrow> (Some y, True, e))) = (w, True, e3)"
  proof (cases v)
    case (Some x)
    from c [of x e2] obtain y e' where "clone x e2 = (Some y, e')" by blast
    with Some show ?thesis by simp
  qed simp
  then obtain w e3 where w: "(case v of None \<Rightarrow> (None, True, e2)
           | Some x \<Rightarrow> (case clone x e2 of (None, e) \<Rightarrow> (None, False, e)
                       | (Some y, e) \<Rightarrow> (Some y, True, e))) = (w, True, e3)" by blast
  obtain e4 where e4: "os_malloc os e3 = (True, e4)" using m by blast
  show ?thesis using assms(3,4) by (simp add: createLeaf_def e1 e2 w e4 Let_def)
qed

lemma createLeaf_fail_reason:
  assumes "memory_available os" "clone_total clone"
    and "createLeaf os clone node name v e = (r, node', e')"
  shows "r = (if name = [] then CREATELEAF_EMPTY_NAME
              else if getChildByName node name \<noteq> None then CREATELEAF_ALREADY_EXISTS
              else CREATELEAF_OK)"
proof (cases "name = [] \<or> getChildByName node name \<noteq> None")
  case True
  with assms(3) show ?thesis by (auto simp: createLeaf_def split: if_splits)
next
  case False
  then obtain n' e'' where "createLeaf os clone node name v e = (CREATELEAF_OK, n', e'')"
    using createLeaf_available [OF assms(1,2)] by blast
  with False assms(3) show ?thesis by simp
qed

section \<open>The invariant: siblings have distinct, non-empty names\<close>

fun mt_wf :: "'v mtree \<Rightarrow> bool" where
  "mt_wf (MTree n v cs) \<longleftrightarrow>
     distinct (map mt_name cs)
     \<and> (\<forall>c \<in> set cs. mt_name c \<noteq> None \<and> mt_name c \<noteq> Some [] \<and> mt_wf c)"

lemma mt_wf_iff:
  "mt_wf t \<longleftrightarrow> distinct (map mt_name (children t))
     \<and> (\<forall>c \<in> set (children t). mt_name c \<noteq> None \<and> mt_name c \<noteq> Some [] \<and> mt_wf c)"
  by (cases t) simp

lemma mt_wf_child: "mt_wf t \<Longrightarrow> i < length (children t) \<Longrightarrow> mt_wf (children t ! i)"
  by (subst (asm) mt_wf_iff) simp

lemma mt_wf_leaf [simp]: "mt_wf (MTree n v [])"
  by simp

lemma mt_wf_add:
  assumes "mt_wf t" "name \<noteq> []" "find_child name (children t) = None"
  shows "mt_wf (set_children t (children t @ [MTree (Some name) v []]))"
  using assms by (subst mt_wf_iff, subst (asm) mt_wf_iff) (auto simp: find_child_None)

lemma mt_wf_update:
  assumes "mt_wf t" "i < length (children t)" "mt_wf c" "mt_name c = mt_name (children t ! i)"
  shows "mt_wf (set_children t ((children t)[i := c]))"
proof -
  have "map mt_name ((children t)[i := c]) = map mt_name (children t)"
    using assms(2,4) by (metis length_map list_update_id map_update nth_map)
  moreover have "\<forall>d \<in> set ((children t)[i := c]). mt_name d \<noteq> None \<and> mt_name d \<noteq> Some [] \<and> mt_wf d"
  proof
    fix d assume "d \<in> set ((children t)[i := c])"
    then have "d = c \<or> d \<in> set (children t)" by (meson in_mono insertE set_update_subset_insert)
    then show "mt_name d \<noteq> None \<and> mt_name d \<noteq> Some [] \<and> mt_wf d"
      using assms mt_wf_iff [of t] by auto
  qed
  ultimately show ?thesis using assms(1) by (subst mt_wf_iff, subst (asm) mt_wf_iff) simp
qed

lemma mt_wf_delete:
  assumes "mt_wf t"
  shows "mt_wf (set_children t (take i (children t) @ drop (Suc i) (children t)))"
proof -
  have d: "distinct (map mt_name (children t))" using assms by (subst (asm) mt_wf_iff) simp
  have "distinct (map mt_name (take i (children t) @ drop (Suc i) (children t)))"
    using distinct_take [OF d, of i] distinct_drop [OF d, of "Suc i"]
      set_take_disj_set_drop_if_distinct [OF d, of i "Suc i"]
    by (simp add: take_map drop_map)
  then show ?thesis using assms
    by (subst mt_wf_iff, subst (asm) mt_wf_iff) (auto dest: in_set_takeD in_set_dropD)
qed

lemma createLeaf_wf:
  assumes "createLeaf os clone node name v e = (r, node', e')" "mt_wf node"
  shows "mt_wf node' \<and> mt_name node' = mt_name node"
  using assms by (cases rule: createLeaf_cases) (auto simp: getChildByName_def mt_wf_add)

lemma createLeaf_OK_find:
  assumes "createLeaf os clone node name v e = (CREATELEAF_OK, node', e')"
  shows "find_child m (children node') =
    (if m = name then Some (length (children node)) else find_child m (children node))"
    "children node' ! length (children node) =
      MTree (Some name) (mt_value (children node' ! length (children node))) []"
    "i < length (children node) \<Longrightarrow> children node' ! i = children node ! i"
    "length (children node') = Suc (length (children node))"
    "mt_value node' = mt_value node" "mt_name node' = mt_name node"
  using assms
  by (cases rule: createLeaf_cases;
      auto simp: getChildByName_def find_child_append nth_append split: option.splits)+

section \<open>Paths\<close>

text \<open>The names of a path: its segments between delimiters.\<close>

primrec segs :: "string \<Rightarrow> string list" where
  "segs [] = [[]]"
| "segs (c # s) =
     (if c = CHR ''/'' then [] # segs s
      else (case segs s of [] \<Rightarrow> [[c]] | n # ns \<Rightarrow> (c # n) # ns))"

lemma segs_nonempty [simp]: "segs s \<noteq> []"
  by (induction s) (auto split: list.splits)

lemma segs_single: "CHR ''/'' \<notin> set s \<Longrightarrow> segs s = [s]"
  by (induction s) auto

lemma segs_delimited:
  "CHR ''/'' \<in> set s \<Longrightarrow>
     segs s = takeWhile (\<lambda>c. c \<noteq> CHR ''/'') s # segs (tl (dropWhile (\<lambda>c. c \<noteq> CHR ''/'') s))"
  by (induction s) auto

lemma dropWhile_delimiter:
  "CHR ''/'' \<in> set s \<Longrightarrow> \<exists>r. dropWhile (\<lambda>c. c \<noteq> CHR ''/'') s = CHR ''/'' # r"
  by (induction s) auto

lemma leading_slash_Cons [simp]: "leading_slash (CHR ''/'' # s) = s"
  by (simp add: leading_slash_def)

text \<open>The node at a list of names, and its value: the map a tree stands for.\<close>

fun mt_find :: "'v mtree \<Rightarrow> string list \<Rightarrow> 'v mtree option" where
  "mt_find t [] = Some t"
| "mt_find t (n # ns) =
     (case find_child n (children t) of
        None \<Rightarrow> None
      | Some i \<Rightarrow> mt_find (children t ! i) ns)"

definition value_at :: "'v mtree \<Rightarrow> string list \<Rightarrow> 'v option" where
  "value_at t ns = (case mt_find t ns of None \<Rightarrow> None | Some n \<Rightarrow> mt_value n)"

lemma value_at_Nil [simp]: "value_at t [] = mt_value t"
  by (simp add: value_at_def)

lemma value_at_Cons [simp]:
  "value_at t (n # ns) =
     (case find_child n (children t) of None \<Rightarrow> None | Some i \<Rightarrow> value_at (children t ! i) ns)"
  by (simp add: value_at_def split: option.splits)

lemma value_at_leaf: "value_at (MTree n v []) ns = (if ns = [] then v else None)"
  by (cases ns) simp_all

lemma value_at_update:
  assumes "find_child n (children t) = Some i" "mt_name c = mt_name (children t ! i)"
  shows "value_at (set_children t ((children t)[i := c])) ms =
    (case ms of [] \<Rightarrow> mt_value t
     | m # ms' \<Rightarrow> if m = n then value_at c ms' else value_at t ms)"
proof -
  have "i < length (children t)" "mt_name (children t ! i) = Some n"
    using find_child_Some [OF assms(1)] by auto
  then show ?thesis using assms
    by (auto simp: find_child_update nth_list_update dest: find_child_Some
        split: list.splits option.splits)
qed

lemma createLeaf_value_at:
  assumes "createLeaf os clone node name v e = (r, node', e')"
  shows "(r \<noteq> CREATELEAF_OK \<longrightarrow> node' = node)
     \<and> (r = CREATELEAF_OK \<and> v = None \<longrightarrow> value_at node' = value_at node)
     \<and> (\<forall>x. r = CREATELEAF_OK \<and> v = Some x \<longrightarrow>
          (\<exists>y. clones clone x y \<and> value_at node' = (value_at node)([name] \<mapsto> y)))"
  using assms
proof (cases rule: createLeaf_cases)
  case (ok y)
  have old: "find_child name (children node) = None" using ok by (simp add: getChildByName_def)
  have "value_at node' ns = (if ns = [name] then y else value_at node ns)" for ns
    using ok old
    by (cases ns)
      (auto simp: find_child_append nth_append value_at_leaf dest: find_child_Some
        split: option.splits)
  moreover have "value_at node [name] = None" using old by simp
  ultimately show ?thesis using ok(1,5,6) by (cases v) (auto simp: fun_eq_iff)
qed simp

section \<open>MultiTree\_AddLeaf refines the update of a map\<close>

text \<open>
  The recursion of MultiTree\_AddLeaf over the names of the path instead of its characters:
  the proofs go by induction on the names, and one lemma carries them to the code.
\<close>

definition leaf_result :: "CREATELEAF_RESULT \<Rightarrow> MULTITREE_RESULT" where
  "leaf_result r = (case r of CREATELEAF_OK \<Rightarrow> MULTITREE_OK
     | CREATELEAF_ALREADY_EXISTS \<Rightarrow> MULTITREE_ALREADY_HAS_A_VALUE
     | CREATELEAF_EMPTY_NAME \<Rightarrow> MULTITREE_EMPTY_CHILD_NAME
     | CREATELEAF_ERROR \<Rightarrow> MULTITREE_ERROR)"

lemma leaf_result_OK [simp]: "leaf_result r = MULTITREE_OK \<longleftrightarrow> r = CREATELEAF_OK"
  by (cases r) (simp_all add: leaf_result_def)

text \<open>The inner node of that name, created when it is missing, and its index.\<close>

definition inner_child ::
  "('e, 'm) os_scheme \<Rightarrow> ('v, 'e) clone_fun \<Rightarrow> 'v mtree \<Rightarrow> string \<Rightarrow> 'e
     \<Rightarrow> (MULTITREE_RESULT + nat) \<times> 'v mtree \<times> 'e" where
  "inner_child os clone node n e =
     (case getChildByName node n of
        Some i \<Rightarrow> (Inr i, node, e)
      | None \<Rightarrow> (case createLeaf os clone node n None e of
                  (r, node', e') \<Rightarrow>
                    (if r = CREATELEAF_OK then (Inr (length (children node)), node', e')
                     else (Inl (if r = CREATELEAF_EMPTY_NAME then MULTITREE_EMPTY_CHILD_NAME
                                else MULTITREE_ERROR), node', e'))))"

fun add_names ::
  "('e, 'm) os_scheme \<Rightarrow> ('v, 'e) clone_fun \<Rightarrow> 'v mtree \<Rightarrow> string list \<Rightarrow> 'v \<Rightarrow> 'e
     \<Rightarrow> MULTITREE_RESULT \<times> 'v mtree \<times> 'e" where
  "add_names os clone node [] v e = (MULTITREE_EMPTY_CHILD_NAME, node, e)"
| "add_names os clone node [n] v e =
     (case createLeaf os clone node n (Some v) e of (r, node, e) \<Rightarrow> (leaf_result r, node, e))"
| "add_names os clone node (n # m # ns) v e =
     (if INNER_NODE_NAME_SIZE \<le> length n then (MULTITREE_ERROR, node, e)
      else (case inner_child os clone node n e of
              (Inl r, node, e) \<Rightarrow> (r, node, e)
            | (Inr i, node, e) \<Rightarrow>
                (case add_names os clone (children node ! i) (m # ns) v e of
                   (r, c, e) \<Rightarrow> (r, set_children node ((children node)[i := c]), e))))"

lemma AddLeaf_path_names:
  "p \<noteq> [] \<Longrightarrow> AddLeaf_path os clone node p v e
     = add_names os clone node (segs (leading_slash p)) v e"
proof (induction os clone node p v e rule: AddLeaf_path.induct)
  case (1 os clone node p v e)
  let ?d = "leading_slash p"
  let ?first = "takeWhile (\<lambda>c. c \<noteq> CHR ''/'') ?d"
  let ?rest = "dropWhile (\<lambda>c. c \<noteq> CHR ''/'') ?d"
  show ?case
  proof (cases "CHR ''/'' \<in> set ?d")
    case False
    with 1(3) show ?thesis
      by (auto simp: AddLeaf_path.simps [of os clone node p] segs_single leaf_result_def Let_def
          split: prod.splits CREATELEAF_RESULT.splits)
  next
    case d: True
    obtain q where "?rest = CHR ''/'' # q" using dropWhile_delimiter [OF d] by blast
    then have rest: "?rest \<noteq> []" "leading_slash ?rest = tl ?rest" by simp_all
    obtain m ns where ns: "segs (leading_slash ?rest) = m # ns" by (metis list.exhaust segs_nonempty)
    have seg: "segs ?d = ?first # m # ns" using segs_delimited [OF d] rest(2) ns by (simp only:)
    have g: "\<not> length p = 0" "\<not> CHR ''/'' \<notin> set ?d" using 1(3) d by auto
    show ?thesis
    proof (cases "INNER_NODE_NAME_SIZE \<le> length ?first")
      case True
      with g seg show ?thesis by (simp add: AddLeaf_path.simps [of os clone node p] Let_def)
    next
      case small: False
      show ?thesis
      proof (cases "getChildByName node ?first")
        case (Some i)
        note IH = 1(2) [OF g(1) refl g(2) refl refl small Some rest(1), unfolded ns]
        show ?thesis
          unfolding AddLeaf_path.simps [of os clone node p] seg
          using g small Some by (simp add: Let_def inner_child_def IH)
      next
        case None
        obtain rc n1 e1 where c: "createLeaf os clone node ?first None e = (rc, n1, e1)"
          by (metis prod_cases3)
        show ?thesis
        proof (cases "rc = CREATELEAF_OK")
          case True
          note ok = c [unfolded True]
          have h: "getChildByName n1 ?first = Some (length (children node))"
            unfolding getChildByName_def createLeaf_OK_find(1) [OF ok] by simp
          note IH = 1(1) [OF g(1) refl g(2) refl refl small None ok [symmetric] refl refl h rest(1),
              unfolded ns]
          show ?thesis
            unfolding AddLeaf_path.simps [of os clone node p] seg
            using g small None ok h by (simp add: Let_def inner_child_def IH)
        next
          case False
          then show ?thesis
            unfolding AddLeaf_path.simps [of os clone node p] seg
            using g small None c by (cases rc) (simp_all add: Let_def inner_child_def)
        qed
      qed
    qed
  qed
qed

lemma inner_child_value_at:
  assumes "inner_child os clone node n e = (x, node', e')"
  shows "value_at node' = value_at node \<and> mt_name node' = mt_name node
    \<and> (\<forall>i. x = Inr i \<longrightarrow> find_child n (children node') = Some i) \<and> x \<noteq> Inl MULTITREE_OK
    \<and> (mt_wf node \<longrightarrow> mt_wf node')"
proof (cases "getChildByName node n")
  case None
  obtain rc n1 e1 where c: "createLeaf os clone node n None e = (rc, n1, e1)"
    by (metis prod_cases3)
  with assms None show ?thesis
    using createLeaf_value_at [OF c] createLeaf_wf [OF c]
    by (cases rc)
      (auto simp: inner_child_def createLeaf_OK_find elim: createLeaf_cases)
qed (use assms in \<open>auto simp: inner_child_def getChildByName_def\<close>)

lemma add_names_name: "add_names os clone node ns v e = (r, node', e') \<Longrightarrow> mt_name node' = mt_name node"
  by (cases "(os, clone, node, ns, v, e)" rule: add_names.cases)
    (auto split: if_splits prod.splits sum.splits dest: inner_child_value_at elim!: createLeaf_cases)

lemma add_names_value_at:
  "add_names os clone node ns v e = (r, node', e') \<Longrightarrow>
     (r = MULTITREE_OK \<longrightarrow>
        (\<exists>y. clones clone v y \<and> value_at node' = (value_at node)(ns \<mapsto> y)))
     \<and> (r \<noteq> MULTITREE_OK \<longrightarrow> value_at node' = value_at node)"
proof (induction os clone node ns v e arbitrary: r node' e' rule: add_names.induct)
  case (2 os clone node n v e)
  obtain rc n1 e1 where c: "createLeaf os clone node n (Some v) e = (rc, n1, e1)"
    by (metis prod_cases3)
  with 2 createLeaf_value_at [OF c] show ?case by (auto simp: fun_upd_def)
next
  case (3 os clone node n m ns v e)
  obtain x n1 e1 where c: "inner_child os clone node n e = (x, n1, e1)" by (metis prod_cases3)
  note ic = inner_child_value_at [OF c]
  show ?case
  proof (cases "INNER_NODE_NAME_SIZE \<le> length n")
    case small: False
    show ?thesis
    proof (cases x)
      case (Inl a)
      with 3(2) c small ic show ?thesis by auto
    next
      case (Inr i)
      obtain r' ch e2 where ch: "add_names os clone (children n1 ! i) (m # ns) v e1 = (r', ch, e2)"
        by (metis prod_cases3)
      have res: "r = r'" "node' = set_children n1 ((children n1)[i := ch])"
        using 3(2) c small Inr ch by simp_all
      have fc: "find_child n (children n1) = Some i" using ic Inr by blast
      have v1: "value_at n1 = value_at node" using ic by blast
      have sub: "value_at (children n1 ! i) ms = value_at node (n # ms)" for ms
        using fc unfolding v1 [symmetric] by simp
      have upd: "value_at node' ms = (case ms of [] \<Rightarrow> value_at node []
          | k # ms' \<Rightarrow> if k = n then value_at ch ms' else value_at node ms)" for ms
        unfolding res v1 [symmetric]
        by (simp only: value_at_update [OF fc add_names_name [OF ch]] value_at_Nil)
      have IH: "r' = MULTITREE_OK \<Longrightarrow> \<exists>y. clones clone v y
            \<and> value_at ch = (value_at (children n1 ! i))(m # ns \<mapsto> y)"
        "r' \<noteq> MULTITREE_OK \<Longrightarrow> value_at ch = value_at (children n1 ! i)"
        using 3(1) [OF small c [symmetric] Inr refl ch] by blast+
      show ?thesis
      proof (intro conjI impI)
        assume "r = MULTITREE_OK"
        then obtain y where y: "clones clone v y"
          "value_at ch = (value_at (children n1 ! i))(m # ns \<mapsto> y)"
          using IH(1) res(1) by blast
        have "value_at node' ms = ((value_at node)(n # m # ns \<mapsto> y)) ms" for ms
          unfolding upd y(2) by (auto simp: sub simp del: value_at_Cons split: list.splits)
        with y(1) show "\<exists>y. clones clone v y \<and> value_at node' = (value_at node)(n # m # ns \<mapsto> y)"
          by blast
      next
        assume "r \<noteq> MULTITREE_OK"
        then have "value_at ch = value_at (children n1 ! i)" using IH(2) res(1) by blast
        then have "value_at node' ms = value_at node ms" for ms
          unfolding upd by (auto simp: sub simp del: value_at_Cons split: list.splits)
        then show "value_at node' = value_at node" by blast
      qed
    qed
  qed (use 3 in simp)
qed simp

lemma add_names_wf:
  "add_names os clone node ns v e = (r, node', e') \<Longrightarrow> mt_wf node \<Longrightarrow> mt_wf node'"
proof (induction os clone node ns v e arbitrary: r node' e' rule: add_names.induct)
  case (2 os clone node n v e)
  then show ?case using createLeaf_wf [of os clone node n "Some v" e] by (auto split: prod.splits)
next
  case (3 os clone node n m ns v e)
  obtain x n1 e1 where c: "inner_child os clone node n e = (x, n1, e1)" by (metis prod_cases3)
  note ic = inner_child_value_at [OF c]
  show ?case
  proof (cases "INNER_NODE_NAME_SIZE \<le> length n \<or> (\<exists>a. x = Inl a)")
    case True
    then show ?thesis using 3 c ic by (auto split: if_splits)
  next
    case False
    then obtain i where i: "x = Inr i" and small: "\<not> INNER_NODE_NAME_SIZE \<le> length n"
      by (cases x) auto
    obtain r' ch e2 where ch: "add_names os clone (children n1 ! i) (m # ns) v e1 = (r', ch, e2)"
      by (metis prod_cases3)
    have res: "node' = set_children n1 ((children n1)[i := ch])"
      using 3(2) c small i ch by simp
    have il: "i < length (children n1)" using ic i find_child_Some by blast
    have wf1: "mt_wf n1" using ic 3(3) by blast
    show ?thesis unfolding res
      using 3(1) [OF small c [symmetric] i refl ch mt_wf_child [OF wf1 il]] wf1 il
        add_names_name [OF ch] by (intro mt_wf_update) auto
  qed
qed simp

text \<open>When memory does not run out, exactly which paths can be added.\<close>

definition addable :: "'v mtree \<Rightarrow> string list \<Rightarrow> bool" where
  "addable t ns \<longleftrightarrow> (\<forall>n \<in> set ns. n \<noteq> [])
     \<and> (\<forall>n \<in> set (butlast ns). length n < INNER_NODE_NAME_SIZE) \<and> mt_find t ns = None"

lemma addable_Cons:
  "addable t (n # m # ns) \<longleftrightarrow> n \<noteq> [] \<and> length n < INNER_NODE_NAME_SIZE
     \<and> (case find_child n (children t) of
          None \<Rightarrow> (\<forall>n \<in> set (m # ns). n \<noteq> [])
            \<and> (\<forall>n \<in> set (butlast (m # ns)). length n < INNER_NODE_NAME_SIZE)
        | Some i \<Rightarrow> addable (children t ! i) (m # ns))"
  by (auto simp: addable_def split: option.splits)

lemma mt_find_leaf: "mt_find (MTree n v []) ns = (if ns = [] then Some (MTree n v []) else None)"
  by (cases ns) simp_all

lemma find_child_empty_name: "mt_wf t \<Longrightarrow> find_child [] (children t) = None"
  by (subst (asm) mt_wf_iff) (auto simp: find_child_None)

lemma inner_child_available:
  assumes "memory_available os" "clone_total clone" "mt_wf node"
    and "inner_child os clone node n e = (x, node', e')"
  shows "(n = [] \<longrightarrow> (\<exists>r. x = Inl r)) \<and> (n \<noteq> [] \<longrightarrow>
     (case find_child n (children node) of
        Some i \<Rightarrow> x = Inr i \<and> node' = node
      | None \<Rightarrow> x = Inr (length (children node))
          \<and> (\<exists>w. children node' ! length (children node) = MTree (Some n) w [])))"
proof (cases "find_child n (children node)")
  case None
  obtain rc n1 e1 where c: "createLeaf os clone node n None e = (rc, n1, e1)"
    by (metis prod_cases3)
  note why = createLeaf_fail_reason [OF assms(1,2) c]
  show ?thesis
  proof (cases "n = []")
    case True
    with why None c assms(4) show ?thesis by (auto simp: inner_child_def getChildByName_def)
  next
    case False
    with why None have "rc = CREATELEAF_OK" by (simp add: getChildByName_def)
    note ok = c [unfolded this]
    from False None assms(4) ok createLeaf_OK_find(2) [OF ok] show ?thesis
      by (auto simp: inner_child_def getChildByName_def)
  qed
next
  case (Some i)
  with assms(3) have "n \<noteq> []" using find_child_empty_name by fastforce
  with Some assms(4) show ?thesis by (simp add: inner_child_def getChildByName_def)
qed

lemma add_names_OK_iff:
  "memory_available os \<Longrightarrow> clone_total clone \<Longrightarrow> mt_wf node \<Longrightarrow> ns \<noteq> []
     \<Longrightarrow> add_names os clone node ns v e = (r, node', e')
     \<Longrightarrow> r = MULTITREE_OK \<longleftrightarrow> addable node ns"
proof (induction os clone node ns v e arbitrary: r node' e' rule: add_names.induct)
  case (2 os clone node n v e)
  then show ?case using createLeaf_fail_reason [of os clone node n "Some v" e]
    by (auto simp: addable_def getChildByName_def split: prod.splits if_splits option.splits)
next
  case (3 os clone node n m ns v e)
  obtain x n1 e1 where c: "inner_child os clone node n e = (x, n1, e1)" by (metis prod_cases3)
  note ic = inner_child_value_at [OF c] and av = inner_child_available [OF 3(2-4) c]
  show ?case
  proof (cases "INNER_NODE_NAME_SIZE \<le> length n \<or> n = []")
    case True
    then show ?thesis using 3(6) c ic av by (auto simp: addable_Cons split: if_splits)
  next
    case False
    then obtain i where i: "x = Inr i" and small: "\<not> INNER_NODE_NAME_SIZE \<le> length n"
      using av by (auto split: option.splits)
    obtain r' ch e2 where ch: "add_names os clone (children n1 ! i) (m # ns) v e1 = (r', ch, e2)"
      by (metis prod_cases3)
    have res: "r = r'" using 3(6) c small i ch by simp
    have il: "i < length (children n1)" using ic i find_child_Some by blast
    have wf1: "mt_wf n1" using ic 3(4) by blast
    note IH = 3(1) [OF small c [symmetric] i refl 3(2,3) mt_wf_child [OF wf1 il] _ ch]
    show ?thesis
      using IH res False av i
      by (cases "find_child n (children node)")
        (auto simp: addable_Cons, auto simp: addable_def mt_find_leaf)
  qed
qed simp

section \<open>MultiTree\_GetLeafValue\<close>

text \<open>
  No name of a child is a proper prefix of the name of a sibling. On such trees the comparison
  by strncmp over the length of the segment is a comparison of names.
\<close>

fun prefix_free :: "'v mtree \<Rightarrow> bool" where
  "prefix_free (MTree n v cs) \<longleftrightarrow>
     (\<forall>c \<in> set cs. \<forall>d \<in> set cs.
        (case (mt_name c, mt_name d) of
           (Some a, Some b) \<Rightarrow> take (length a) b = a \<longrightarrow> a = b
         | _ \<Rightarrow> True))
     \<and> (\<forall>c \<in> set cs. prefix_free c)"

lemma prefix_free_iff:
  "prefix_free t \<longleftrightarrow>
     (\<forall>c \<in> set (children t). \<forall>d \<in> set (children t). \<forall>a b.
        mt_name c = Some a \<longrightarrow> mt_name d = Some b \<longrightarrow> take (length a) b = a \<longrightarrow> a = b)
     \<and> (\<forall>c \<in> set (children t). prefix_free c)"
  by (cases t) (auto split: option.splits)

lemma prefix_free_child: "prefix_free t \<Longrightarrow> i < length (children t) \<Longrightarrow> prefix_free (children t ! i)"
  by (cases t) simp

lemma find_prefix_child_exact:
  assumes "find_child seg cs = Some i"
    and "\<And>d b. d \<in> set cs \<Longrightarrow> mt_name d = Some b \<Longrightarrow> take (length seg) b = seg \<Longrightarrow> seg = b"
  shows "find_prefix_child seg cs = Some (cs ! i)"
  using assms
proof (induction cs arbitrary: i)
  case (Cons c cs)
  show ?case
  proof (cases "mt_name c = Some seg")
    case False
    with Cons.prems(1) obtain j where j: "find_child seg cs = Some j" "i = Suc j"
      by auto
    have "find_prefix_child seg cs = Some (cs ! j)"
      by (rule Cons.IH [OF j(1)]) (rule Cons.prems(2), auto)
    with False j Cons.prems(2) [of c] show ?thesis by (auto split: option.splits)
  qed (use Cons.prems in simp)
qed simp

lemma GetLeafValue_loop_value:
  "mt_wf t \<Longrightarrow> prefix_free t \<Longrightarrow> value_at t (segs p) = Some w
     \<Longrightarrow> GetLeafValue_loop t p = (MULTITREE_OK, Some w)"
proof (induction t p rule: GetLeafValue_loop.induct)
  case (1 t p)
  let ?seg = "takeWhile (\<lambda>c. c \<noteq> CHR ''/'') p"
  let ?del = "dropWhile (\<lambda>c. c \<noteq> CHR ''/'') p"
  obtain ns where ns: "segs p = ?seg # ns"
    "if ?del = [] then ns = [] else ns = segs (tl ?del)"
  proof (cases "CHR ''/'' \<in> set p")
    case True
    then have "?del \<noteq> []" using dropWhile_delimiter by fastforce
    with segs_delimited [OF True] show ?thesis by (intro that [of "segs (tl ?del)"]) auto
  next
    case False
    then have "?seg = p" "?del = []" by (auto simp: takeWhile_eq_all_conv)
    with False that show ?thesis by (auto simp: segs_single)
  qed
  obtain i where i: "find_child ?seg (children t) = Some i" "value_at (children t ! i) ns = Some w"
    using 1(4) ns(1) by (auto split: option.splits)
  have ne: "?seg \<noteq> []" using find_child_empty_name [OF 1(2)] i(1) by auto
  then have p: "p \<noteq> []" by auto
  have il: "i < length (children t)" "mt_name (children t ! i) = Some ?seg"
    using find_child_Some [OF i(1)] by auto
  then have lc: "length (children t) \<noteq> 0" by auto
  have fp: "find_prefix_child ?seg (children t) = Some (children t ! i)"
  proof (rule find_prefix_child_exact [OF i(1)])
    fix d b
    assume d: "d \<in> set (children t)" "mt_name d = Some b" "take (length ?seg) b = ?seg"
    from 1(3) [unfolded prefix_free_iff [of t]] nth_mem [OF il(1)] il(2) d
    show "?seg = b" by blast
  qed
  have wf: "mt_wf (children t ! i)" "prefix_free (children t ! i)"
    using mt_wf_child [OF 1(2) il(1)] prefix_free_child [OF 1(3) il(1)] by simp_all
  have unfold: "GetLeafValue_loop t p
      = GetLeafValue_loop (children t ! i) (if ?del \<noteq> [] then tl ?del else [])"
    using p ne lc fp by (simp add: GetLeafValue_loop.simps [of t p] Let_def)
  show ?case
  proof (cases "?del = []")
    case True
    with i ns unfold show ?thesis by (simp add: GetLeafValue_loop.simps [of _ "[]"])
  next
    case False
    have "GetLeafValue_loop (children t ! i) (if ?del \<noteq> [] then tl ?del else []) = (MULTITREE_OK, Some w)"
      by (rule 1(1) [OF p refl refl ne lc fp wf]) (use i ns False in simp)
    with unfold show ?thesis by simp
  qed
qed

lemma GetLeafValue_value:
  assumes "mt_wf t" "prefix_free t" "value_at t (segs (leading_slash p)) = Some w"
  shows "MultiTree_GetLeafValue (Some t) (Some p) True = (MULTITREE_OK, Some w)"
proof -
  have "leading_slash p \<noteq> []"
    using assms find_child_empty_name [OF assms(1)] by (auto split: option.splits)
  moreover from this have "p \<noteq> []" by (auto simp: leading_slash_def)
  ultimately show ?thesis
    using GetLeafValue_loop_value [OF assms] by (simp add: MultiTree_GetLeafValue_def)
qed

section \<open>Properties\<close>

lemma MultiTree_AddLeaf_Some:
  assumes "MultiTree_AddLeaf os clone (Some t) (Some p) (Some v) e = (r, Some t', e')"
  shows "AddLeaf_path os clone t p v e = (r, t', e')"
  using assms by (auto simp: MultiTree_AddLeaf_def split: prod.splits)

lemma AddLeaf_empty_path: "AddLeaf_path os clone t [] v e = (MULTITREE_EMPTY_CHILD_NAME, t, e)"
  by (simp add: AddLeaf_path.simps)

text \<open>C4: MultiTree\_AddLeaf refines the update of a map from paths to values. When it returns
  MULTITREE\_OK the value at the path is the clone of the argument and no other path has
  changed its value; when it returns anything else, for lack of memory in particular, no value
  has changed.\<close>

theorem AddLeaf_refines_update:
  assumes "MultiTree_AddLeaf os clone (Some t) (Some p) (Some v) e = (r, Some t', e')"
  shows "(r = MULTITREE_OK \<longrightarrow>
            (\<exists>y. clones clone v y \<and> value_at t' = (value_at t)(segs (leading_slash p) \<mapsto> y)))
       \<and> (r \<noteq> MULTITREE_OK \<longrightarrow> value_at t' = value_at t)"
proof (cases "p = []")
  case True
  with MultiTree_AddLeaf_Some [OF assms] show ?thesis by (simp add: AddLeaf_empty_path)
next
  case False
  with MultiTree_AddLeaf_Some [OF assms] show ?thesis
    using add_names_value_at [of os clone t] by (simp add: AddLeaf_path_names)
qed

definition idclone :: "('v, 'e) clone_fun" where
  "idclone v e = (Some v, e)"

lemma clone_total_idclone [simp]: "clone_total idclone"
  by (simp add: clone_total_def idclone_def)

lemma clones_idclone [simp]: "clones idclone x y \<longleftrightarrow> x = y"
  by (auto simp: clones_def idclone_def)

definition sample_tree :: "nat mtree" where
  "sample_tree = MTree None None [MTree (Some ''a'') None [MTree (Some ''b'') (Some 1) []]]"

theorem AddLeaf_refines_update_witness:
  "\<exists>t' e'. MultiTree_AddLeaf happy_os idclone (Some sample_tree) (Some ''/a/c'') (Some (7::nat)) ()
      = (MULTITREE_OK, Some t', e') \<and> value_at t' [''a'', ''c''] = Some 7"
proof -
  obtain t' e' where run: "MultiTree_AddLeaf happy_os idclone (Some sample_tree) (Some ''/a/c'')
      (Some (7::nat)) () = (MULTITREE_OK, Some t', e')"
    by (simp add: MultiTree_AddLeaf_def AddLeaf_path_names leading_slash_def sample_tree_def
        inner_child_def getChildByName_def INNER_NODE_NAME_SIZE_def createLeaf_def happy_os_def
        idclone_def leaf_result_def)
  from AddLeaf_refines_update [OF run] have "value_at t' (segs (leading_slash ''/a/c'')) = Some 7"
    by auto
  then have "value_at t' [''a'', ''c''] = Some 7" by (simp add: leading_slash_def del: value_at_Cons)
  with run show ?thesis by blast
qed

text \<open>When memory does not run out and the clone function does not fail, MultiTree\_AddLeaf on
  a well-formed tree succeeds exactly when every name of the path is non-empty, every inner name
  fits the buffer of INNER\_NODE\_NAME\_SIZE characters, and the last node does not exist yet.\<close>

theorem AddLeaf_succeeds_iff:
  assumes "memory_available os" "clone_total clone" "mt_wf t"
    and "MultiTree_AddLeaf os clone (Some t) (Some p) (Some v) e = (r, Some t', e')"
  shows "r = MULTITREE_OK \<longleftrightarrow> addable t (segs (leading_slash p))"
proof (cases "p = []")
  case True
  with MultiTree_AddLeaf_Some [OF assms(4)] show ?thesis
    by (simp add: AddLeaf_empty_path leading_slash_def addable_def)
next
  case False
  with MultiTree_AddLeaf_Some [OF assms(4)] show ?thesis
    using add_names_OK_iff [OF assms(1-3)] by (simp add: AddLeaf_path_names)
qed

theorem AddLeaf_succeeds_iff_witness:
  "\<exists>r t' e'. MultiTree_AddLeaf happy_os idclone (Some sample_tree) (Some ''a/b'') (Some (7::nat)) ()
      = (r, Some t', e') \<and> r \<noteq> MULTITREE_OK"
proof -
  have wf: "mt_wf sample_tree" by (simp add: sample_tree_def)
  obtain r t' e' where "AddLeaf_path happy_os idclone sample_tree ''a/b'' (7::nat) () = (r, t', e')"
    by (metis prod_cases3)
  then have run: "MultiTree_AddLeaf happy_os idclone (Some sample_tree) (Some ''a/b'')
      (Some (7::nat)) () = (r, Some t', e')"
    by (simp add: MultiTree_AddLeaf_def)
  have "\<not> addable sample_tree (segs (leading_slash ''a/b''))"
    by (simp add: addable_def sample_tree_def leading_slash_def)
  with AddLeaf_succeeds_iff [OF memory_available_happy clone_total_idclone wf run] run
  show ?thesis by blast
qed

lemma operations_wf:
  assumes "mt_wf t"
  shows "\<And>p v r t' e'. MultiTree_AddLeaf os clone (Some t) p v e = (r, Some t', e') \<Longrightarrow> mt_wf t'"
    and "\<And>n h r t' i e'. MultiTree_AddChild os clone (Some t) n h e = (r, Some t', i, e') \<Longrightarrow> mt_wf t'"
    and "\<And>v r t' e'. MultiTree_SetValue clone (Some t) v e = (r, Some t', e') \<Longrightarrow> mt_wf t'"
    and "\<And>n r t' fs. MultiTree_DeleteChild (Some t) n = (r, Some t', fs) \<Longrightarrow> mt_wf t'"
proof -
  fix p v r t' e'
  assume run: "MultiTree_AddLeaf os clone (Some t) p v e = (r, Some t', e')"
  show "mt_wf t'"
  proof (cases "p = None \<or> v = None \<or> p = Some []")
    case True
    with run assms show ?thesis
      by (auto simp: MultiTree_AddLeaf_def AddLeaf_empty_path split: option.splits)
  next
    case False
    then obtain q w where "p = Some q" "v = Some w" "q \<noteq> []" by auto
    with run assms show ?thesis
      using MultiTree_AddLeaf_Some add_names_wf by (metis AddLeaf_path_names)
  qed
next
  fix n h r t' i e'
  assume "MultiTree_AddChild os clone (Some t) n h e = (r, Some t', i, e')"
  then show "mt_wf t'" using assms
    by (auto simp: MultiTree_AddChild_def split: option.splits bool.splits prod.splits
        CREATELEAF_RESULT.splits dest: createLeaf_wf)
next
  fix v r t' e'
  assume "MultiTree_SetValue clone (Some t) v e = (r, Some t', e')"
  then show "mt_wf t'" using assms
    by (cases t) (auto simp: MultiTree_SetValue_def split: option.splits if_splits prod.splits)
next
  fix n r t' fs
  assume "MultiTree_DeleteChild (Some t) n = (r, Some t', fs)"
  then show "mt_wf t'" using assms mt_wf_delete [OF assms]
    by (auto simp: MultiTree_DeleteChild_def split: option.splits)
qed

text \<open>Every operation that changes a tree keeps the invariant that siblings have distinct
  non-empty names, whatever the outcome of the allocations and of the clone function: adding a
  leaf, adding a child, setting a value and deleting a child.\<close>

theorem multitree_operations_keep_names:
  assumes "mt_wf t"
  shows "(\<forall>p v r t' e'. MultiTree_AddLeaf os clone (Some t) p v e = (r, Some t', e') \<longrightarrow> mt_wf t')
     \<and> (\<forall>n h r t' i e'. MultiTree_AddChild os clone (Some t) n h e = (r, Some t', i, e') \<longrightarrow> mt_wf t')
     \<and> (\<forall>v r t' e'. MultiTree_SetValue clone (Some t) v e = (r, Some t', e') \<longrightarrow> mt_wf t')
     \<and> (\<forall>n r t' fs. MultiTree_DeleteChild (Some t) n = (r, Some t', fs) \<longrightarrow> mt_wf t')"
  by (intro conjI allI impI) (erule operations_wf [OF assms])+

theorem multitree_operations_keep_names_witness:
  "mt_wf sample_tree
   \<and> (\<exists>t' fs. MultiTree_DeleteChild (Some sample_tree) (Some ''a'') = (MULTITREE_OK, Some t', fs)
        \<and> mt_wf t' \<and> children t' = [])"
proof -
  have wf: "mt_wf sample_tree" by (simp add: sample_tree_def)
  obtain t' fs where run:
    "MultiTree_DeleteChild (Some sample_tree) (Some ''a'') = (MULTITREE_OK, Some t', fs)"
    and empty: "children t' = []"
    by (simp add: MultiTree_DeleteChild_def sample_tree_def)
  from multitree_operations_keep_names [OF wf, of happy_os idclone "()"] run
  have "mt_wf t'" by blast
  with wf run empty show ?thesis by blast
qed

text \<open>C32: Reading back what was stored: after MultiTree\_AddLeaf has succeeded, if no name in the
  tree is a proper prefix of a sibling's, MultiTree\_GetLeafValue returns the stored value at that
  path and the old value at every other path that had one.\<close>

theorem leaf_roundtrip:
  assumes "mt_wf t"
    and "MultiTree_AddLeaf os clone (Some t) (Some p) (Some v) e = (MULTITREE_OK, Some t', e')"
    and "prefix_free t'"
  shows "(\<exists>y. clones clone v y
            \<and> MultiTree_GetLeafValue (Some t') (Some p) True = (MULTITREE_OK, Some y))
     \<and> (\<forall>q w. segs (leading_slash q) \<noteq> segs (leading_slash p) \<longrightarrow>
            value_at t (segs (leading_slash q)) = Some w \<longrightarrow>
            MultiTree_GetLeafValue (Some t') (Some q) True = (MULTITREE_OK, Some w))"
proof -
  have path: "AddLeaf_path os clone t p v e = (MULTITREE_OK, t', e')"
    using MultiTree_AddLeaf_Some [OF assms(2)] .
  then have p: "p \<noteq> []" by (auto simp: AddLeaf_empty_path)
  have wf: "mt_wf t'"
    using path assms(1) unfolding AddLeaf_path_names [OF p] by (rule add_names_wf)
  obtain y where y: "clones clone v y" "value_at t' = (value_at t)(segs (leading_slash p) \<mapsto> y)"
    using add_names_value_at [OF path [unfolded AddLeaf_path_names [OF p]]] by blast
  show ?thesis
    using y GetLeafValue_value [OF wf assms(3)] by auto
qed

theorem leaf_roundtrip_witness:
  "\<exists>t' e'. MultiTree_AddLeaf happy_os idclone (Some sample_tree) (Some ''/a/c'') (Some (7::nat)) ()
      = (MULTITREE_OK, Some t', e')
    \<and> MultiTree_GetLeafValue (Some t') (Some ''a/c'') True = (MULTITREE_OK, Some 7)
    \<and> MultiTree_GetLeafValue (Some t') (Some ''a/b'') True = (MULTITREE_OK, Some 1)"
proof -
  have wf: "mt_wf sample_tree" by (simp add: sample_tree_def)
  obtain t' e' where run: "MultiTree_AddLeaf happy_os idclone (Some sample_tree) (Some ''a/c'')
      (Some (7::nat)) () = (MULTITREE_OK, Some t', e')"
    and same: "MultiTree_AddLeaf happy_os idclone (Some sample_tree) (Some ''/a/c'')
      (Some (7::nat)) () = (MULTITREE_OK, Some t', e')"
    and pf: "prefix_free t'"
    by (simp add: MultiTree_AddLeaf_def AddLeaf_path_names leading_slash_def sample_tree_def
        inner_child_def getChildByName_def INNER_NODE_NAME_SIZE_def createLeaf_def happy_os_def
        idclone_def leaf_result_def set_children_def)
  have old: "value_at sample_tree (segs (leading_slash ''a/b'')) = Some 1"
    by (simp add: sample_tree_def leading_slash_def)
  have "segs (leading_slash ''a/b'') \<noteq> segs (leading_slash ''a/c'')"
    by (simp add: leading_slash_def)
  with leaf_roundtrip [OF wf run pf] same old show ?thesis by auto
qed

text \<open>Without that condition MultiTree\_GetLeafValue answers for another node: in a tree with
  the leaves temperatureMax and temperature, both stored by MultiTree\_AddLeaf, asking for
  temperature returns the value of temperatureMax, and asking for temp, which does not exist,
  returns a value too.\<close>

theorem GetLeafValue_answers_for_a_longer_name:
  "\<exists>t1 t2 e1 e2.
     MultiTree_AddLeaf happy_os idclone (Some (MTree None None [])) (Some ''temperatureMax'')
       (Some (99::nat)) () = (MULTITREE_OK, Some t1, e1)
   \<and> MultiTree_AddLeaf happy_os idclone (Some t1) (Some ''temperature'') (Some 21) e1
       = (MULTITREE_OK, Some t2, e2)
   \<and> value_at t2 [''temperature''] = Some 21
   \<and> MultiTree_GetLeafValue (Some t2) (Some ''temperature'') True = (MULTITREE_OK, Some 99)
   \<and> value_at t2 [''temp''] = None
   \<and> MultiTree_GetLeafValue (Some t2) (Some ''temp'') True = (MULTITREE_OK, Some 99)"
  by (simp add: MultiTree_AddLeaf_def AddLeaf_path_names leading_slash_def
      getChildByName_def createLeaf_def happy_os_def set_children_def
      idclone_def leaf_result_def MultiTree_GetLeafValue_def GetLeafValue_loop.simps)

end
