(* ===== verification/JsonDecoder.thy ===== *)
theory JsonDecoder
  imports MultiTree
begin

text \<open>
  The JSON decoder of the serializer (serializer/src/jsondecoder.c). It parses a NUL-terminated
  buffer in place: names and values are not copied but cut out of the buffer by writing NUL
  characters into it, and the leaves of the multi tree hold pointers into the buffer. The model
  keeps the buffer as a list of characters, pointers as positions in it, and every read and
  write of the code, an access outside the buffer being \<^const>\<open>Fault\<close>.
\<close>

section \<open>Data\<close>

datatype JSON_DECODER_RESULT =
  JSON_DECODER_OK | JSON_DECODER_INVALID_ARG | JSON_DECODER_PARSE_ERROR
| JSON_DECODER_MULTITREE_FAILED | JSON_DECODER_ERROR

text \<open>PARSER\_STATE, whose field is the pointer \<open>json\<close>, with the buffer it points into.\<close>

record PARSER_STATE =
  json :: nat
  buffer :: "char list"

definition read :: "PARSER_STATE \<Rightarrow> nat \<Rightarrow> char run" where
  "read ps i = (if i < length (buffer ps) then Done (buffer ps ! i) else Fault)"

definition write_nul :: "PARSER_STATE \<Rightarrow> nat \<Rightarrow> PARSER_STATE run" where
  "write_nul ps i =
     (if i < length (buffer ps) then Done (ps\<lparr>buffer := (buffer ps)[i := NUL]\<rparr>) else Fault)"

definition bump :: "PARSER_STATE \<Rightarrow> PARSER_STATE" where
  "bump ps = ps\<lparr>json := Suc (json ps)\<rparr>"

definition advance :: "nat \<Rightarrow> PARSER_STATE \<Rightarrow> PARSER_STATE" where
  "advance k ps = ps\<lparr>json := json ps + k\<rparr>"

text \<open>The C string at a position; reading it needs a NUL before the end of the buffer.\<close>

definition string_at :: "PARSER_STATE \<Rightarrow> nat \<Rightarrow> string run" where
  "string_at ps i =
     (if NUL \<in> set (drop i (buffer ps)) then Done (c_str (drop i (buffer ps))) else Fault)"

text \<open>strncmp of the text at a position with a literal and its length, compared to 0.\<close>

fun strncmp_eq :: "PARSER_STATE \<Rightarrow> nat \<Rightarrow> string \<Rightarrow> bool run" where
  "strncmp_eq ps i [] = Done True"
| "strncmp_eq ps i (c # cs) =
     run_bind (read ps i) (\<lambda>d. if d = c then strncmp_eq ps (Suc i) cs else Done False)"

definition IsWhiteSpace :: "char \<Rightarrow> bool" where
  "IsWhiteSpace c \<longleftrightarrow> c = CHR 0x20 \<or> c = CHR 0x09 \<or> c = CHR 0x0A \<or> c = CHR 0x0D"

text \<open>NOPCloneFunction: the clone of a pointer is the pointer.\<close>

definition NOPCloneFunction :: "(nat, 'e) clone_fun" where
  "NOPCloneFunction source e = (Some source, e)"

definition NoFreeFunction :: "nat \<Rightarrow> 'e \<Rightarrow> 'e" where
  "NoFreeFunction v e = e"

section \<open>Lexical elements\<close>

function SkipWhiteSpaces :: "PARSER_STATE \<Rightarrow> PARSER_STATE run" where
  "SkipWhiteSpaces ps =
     run_bind (read ps (json ps)) (\<lambda>c.
       if c \<noteq> NUL \<and> IsWhiteSpace c then SkipWhiteSpaces (bump ps) else Done ps)"
  by pat_completeness auto
termination
  by (relation "measure (\<lambda>ps. length (buffer ps) - json ps)")
    (auto simp: read_def bump_def split: if_splits)

declare SkipWhiteSpaces.simps [simp del]

text \<open>
  The loop of ParseString over the characters before the closing quote: it stops at a quote, at
  the end of the text or at an escape that is not one of the eight.
\<close>

function ParseString_loop :: "PARSER_STATE \<Rightarrow> (JSON_DECODER_RESULT \<times> PARSER_STATE) run" where
  "ParseString_loop ps =
     run_bind (read ps (json ps)) (\<lambda>c.
       if c \<noteq> CHR 0x22 \<and> c \<noteq> NUL then
         if c = CHR 0x5C then
           let ps = bump ps in
           run_bind (read ps (json ps)) (\<lambda>d.
             if d = CHR 0x5C \<or> d = CHR 0x22 \<or> d = CHR ''/'' \<or> d = CHR ''b'' \<or> d = CHR ''f''
                \<or> d = CHR ''n'' \<or> d = CHR ''r'' \<or> d = CHR ''t''
             then ParseString_loop (bump ps)
             else Done (JSON_DECODER_PARSE_ERROR, ps))
         else ParseString_loop (bump ps)
       else Done (JSON_DECODER_OK, ps))"
  by pat_completeness auto
termination
  by (relation "measure (\<lambda>ps. length (buffer ps) - json ps)")
    (auto simp: read_def bump_def split: if_splits)

declare ParseString_loop.simps [simp del]

text \<open>The second component is *stringBegin: the position of the opening quote.\<close>

definition ParseString :: "PARSER_STATE \<Rightarrow> (JSON_DECODER_RESULT \<times> nat \<times> PARSER_STATE) run" where
  "ParseString ps =
     (let stringBegin = json ps in
      run_bind (read ps (json ps)) (\<lambda>c.
        if c \<noteq> CHR 0x22 then Done (JSON_DECODER_PARSE_ERROR, stringBegin, ps)
        else run_bind (ParseString_loop (bump ps)) (\<lambda>(result, ps).
          if result = JSON_DECODER_OK then
            run_bind (read ps (json ps)) (\<lambda>c.
              if c \<noteq> CHR 0x22 then Done (JSON_DECODER_PARSE_ERROR, stringBegin, ps)
              else Done (JSON_DECODER_OK, stringBegin, bump ps))
          else Done (result, stringBegin, ps))))"

text \<open>The loop over digits, which ParseNumber has three times; it counts them.\<close>

function digits_loop :: "PARSER_STATE \<Rightarrow> nat \<Rightarrow> (nat \<times> PARSER_STATE) run" where
  "digits_loop ps digitCount =
     run_bind (read ps (json ps)) (\<lambda>c.
       if c \<noteq> NUL \<and> ISDIGIT c then digits_loop (bump ps) (Suc digitCount)
       else Done (digitCount, ps))"
  by pat_completeness auto
termination
  by (relation "measure (\<lambda>(ps, n). length (buffer ps) - json ps)")
    (auto simp: read_def bump_def split: if_splits)

declare digits_loop.simps [simp del]

text \<open>The optional fraction part of ParseNumber.\<close>

definition ParseNumber_fraction :: "PARSER_STATE \<Rightarrow> (JSON_DECODER_RESULT \<times> PARSER_STATE) run" where
  "ParseNumber_fraction ps =
     run_bind (read ps (json ps)) (\<lambda>c.
       if c = CHR ''.'' then
         run_bind (digits_loop (bump ps) 0) (\<lambda>(digitCount, ps).
           Done (if digitCount = 0 then JSON_DECODER_PARSE_ERROR else JSON_DECODER_OK, ps))
       else Done (JSON_DECODER_OK, ps))"

text \<open>The optional exponent part; \<open>result\<close> is the result so far.\<close>

definition ParseNumber_exponent ::
  "JSON_DECODER_RESULT \<Rightarrow> PARSER_STATE \<Rightarrow> (JSON_DECODER_RESULT \<times> PARSER_STATE) run" where
  "ParseNumber_exponent result ps =
     run_bind (read ps (json ps)) (\<lambda>c.
       if c = CHR ''e'' \<or> c = CHR ''E'' then
         run_bind (read (bump ps) (json (bump ps))) (\<lambda>c.
         run_bind (digits_loop (if c = CHR ''-'' \<or> c = CHR ''+'' then bump (bump ps) else bump ps) 0)
           (\<lambda>(digitCount, ps).
             Done (if digitCount = 0 then JSON_DECODER_PARSE_ERROR else result, ps)))
       else Done (result, ps))"

text \<open>The test on the digits of the integer part: none, or a leading zero before others.\<close>

definition bad_integer :: "nat \<Rightarrow> PARSER_STATE \<Rightarrow> bool run" where
  "bad_integer digitCount ps =
     (if digitCount = 0 then Done True
      else if 1 < digitCount
        then run_bind (read ps (json ps - digitCount)) (\<lambda>c. Done (c = CHR ''0''))
      else Done False)"

definition ParseNumber :: "PARSER_STATE \<Rightarrow> (JSON_DECODER_RESULT \<times> PARSER_STATE) run" where
  "ParseNumber ps =
     run_bind (read ps (json ps)) (\<lambda>c.
     run_bind (digits_loop (if c = CHR ''-'' then bump ps else ps) 0) (\<lambda>(digitCount, ps).
     run_bind (bad_integer digitCount ps) (\<lambda>bad.
       if bad then Done (JSON_DECODER_PARSE_ERROR, ps)
       else run_bind (ParseNumber_fraction ps) (\<lambda>(result, ps). ParseNumber_exponent result ps))))"

definition ParseColon :: "PARSER_STATE \<Rightarrow> (JSON_DECODER_RESULT \<times> PARSER_STATE) run" where
  "ParseColon ps =
     run_bind (SkipWhiteSpaces ps) (\<lambda>ps.
     run_bind (read ps (json ps)) (\<lambda>c.
       if c \<noteq> CHR '':'' then Done (JSON_DECODER_PARSE_ERROR, ps)
       else Done (JSON_DECODER_OK, bump ps)))"

definition ParseOpenCurly :: "PARSER_STATE \<Rightarrow> (JSON_DECODER_RESULT \<times> PARSER_STATE) run" where
  "ParseOpenCurly ps =
     run_bind (SkipWhiteSpaces ps) (\<lambda>ps.
     run_bind (read ps (json ps)) (\<lambda>c.
       if c \<noteq> CHR ''{'' then Done (JSON_DECODER_PARSE_ERROR, ps)
       else Done (JSON_DECODER_OK, bump ps)))"

section \<open>Values, objects and arrays\<close>

text \<open>
  ParseValue calls ParseObject and ParseArray, which call it back for each member or element.
  The model ties this knot last: ParseNameValuePair, ParseObject and ParseArray with their loops
  take the parser of values as an argument, and ParseValue, by recursion on its fuel, passes
  itself with one unit less. A loop of ParseObject or ParseArray spends one unit per iteration.
  Each parser returns the result, the tree node it was given (changed), the parser state and the
  environment; the parser of values also *stringBegin, where None is NULL.
\<close>

type_synonym 'e value_parser =
  "PARSER_STATE \<Rightarrow> nat mtree \<Rightarrow> 'e
     \<Rightarrow> (JSON_DECODER_RESULT \<times> nat option \<times> nat mtree \<times> PARSER_STATE \<times> 'e) run"

text \<open>The multi tree operations as the decoder calls them, on a node it holds.\<close>

definition add_child ::
  "('e, 'm) os_scheme \<Rightarrow> nat mtree \<Rightarrow> string \<Rightarrow> 'e \<Rightarrow> MULTITREE_RESULT \<times> nat mtree \<times> nat \<times> 'e" where
  "add_child os node name e =
     (case MultiTree_AddChild os NOPCloneFunction (Some node) (Some name) True e of
        (r, t, i, e) \<Rightarrow> (r, the t, (case i of None \<Rightarrow> 0 | Some i \<Rightarrow> i), e))"

definition set_value ::
  "nat mtree \<Rightarrow> nat \<Rightarrow> 'e \<Rightarrow> MULTITREE_RESULT \<times> nat mtree \<times> 'e" where
  "set_value node v e =
     (case MultiTree_SetValue NOPCloneFunction (Some node) (Some v) e of (r, t, e) \<Rightarrow> (r, the t, e))"

definition put_child :: "nat mtree \<Rightarrow> nat \<Rightarrow> nat mtree \<Rightarrow> nat mtree" where
  "put_child node i c = set_children node ((children node)[i := c])"

text \<open>
  What ParseNameValuePair and the loop of ParseArray do with the child they have added: parse
  its value and, when that is a token of the text, store the pointer to it.
\<close>

definition ParseChildValue ::
  "'e value_parser \<Rightarrow> nat mtree \<Rightarrow> nat \<Rightarrow> PARSER_STATE \<Rightarrow> 'e
     \<Rightarrow> (JSON_DECODER_RESULT \<times> nat mtree \<times> PARSER_STATE \<times> 'e) run" where
  "ParseChildValue parse_value t i ps e =
     run_bind (parse_value ps (children t ! i) e) (\<lambda>(result, valueBegin, childNode, ps, e).
       case valueBegin of
         Some v \<Rightarrow>
           if result = JSON_DECODER_OK then
             (case set_value childNode v e of (r, childNode, e) \<Rightarrow>
                Done (if r \<noteq> MULTITREE_OK then JSON_DECODER_MULTITREE_FAILED else result,
                      put_child t i childNode, ps, e))
           else Done (result, put_child t i childNode, ps, e)
       | None \<Rightarrow> Done (result, put_child t i childNode, ps, e))"

text \<open>
  What both loops do after a value: skip white space, look at the next character, and only then
  cut the value off, since valueEnd may be the place of that character.
\<close>

definition EndValue :: "PARSER_STATE \<Rightarrow> (char \<times> PARSER_STATE) run" where
  "EndValue ps =
     (let valueEnd = json ps in
     run_bind (SkipWhiteSpaces ps) (\<lambda>ps.
     run_bind (read ps (json ps)) (\<lambda>jsonChar.
     run_bind (write_nul ps valueEnd) (\<lambda>ps. Done (jsonChar, ps)))))"

definition ParseNamedValue ::
  "('e, 'm) os_scheme \<Rightarrow> 'e value_parser \<Rightarrow> string \<Rightarrow> PARSER_STATE \<Rightarrow> nat mtree \<Rightarrow> 'e
     \<Rightarrow> (JSON_DECODER_RESULT \<times> nat mtree \<times> PARSER_STATE \<times> 'e) run" where
  "ParseNamedValue os parse_value name ps currentNode e =
     (case add_child os currentNode name e of (r, t, i, e) \<Rightarrow>
       if r \<noteq> MULTITREE_OK then Done (JSON_DECODER_MULTITREE_FAILED, t, ps, e)
       else ParseChildValue parse_value t i ps e)"

definition ParseNameValuePair ::
  "('e, 'm) os_scheme \<Rightarrow> 'e value_parser \<Rightarrow> PARSER_STATE \<Rightarrow> nat mtree \<Rightarrow> 'e
     \<Rightarrow> (JSON_DECODER_RESULT \<times> nat mtree \<times> PARSER_STATE \<times> 'e) run" where
  "ParseNameValuePair os parse_value ps currentNode e =
     run_bind (SkipWhiteSpaces ps) (\<lambda>ps.
     run_bind (ParseString ps) (\<lambda>(result, memberNameBegin, ps).
       if result \<noteq> JSON_DECODER_OK then Done (result, currentNode, ps, e)
       else
     run_bind (write_nul ps (json ps - 1)) (\<lambda>ps.
     run_bind (ParseColon ps) (\<lambda>(result, ps).
       if result \<noteq> JSON_DECODER_OK then Done (result, currentNode, ps, e)
       else
     run_bind (string_at ps (memberNameBegin + 1)) (\<lambda>name.
       ParseNamedValue os parse_value name ps currentNode e)))))"

text \<open>
  The loop carries jsonChar and result as the code does: it goes on until it sees a closing
  brace or the end of the text, and a comma between members is consumed when there is one.
\<close>

primrec ParseObject_loop ::
  "nat \<Rightarrow> ('e, 'm) os_scheme \<Rightarrow> 'e value_parser
     \<Rightarrow> char \<Rightarrow> JSON_DECODER_RESULT \<Rightarrow> PARSER_STATE \<Rightarrow> nat mtree \<Rightarrow> 'e
     \<Rightarrow> (JSON_DECODER_RESULT \<times> char \<times> nat mtree \<times> PARSER_STATE \<times> 'e) run" where
  "ParseObject_loop 0 os parse_value jsonChar result ps currentNode e = NoFuel"
| "ParseObject_loop (Suc n) os parse_value jsonChar result ps currentNode e =
     (if jsonChar = CHR ''}'' \<or> jsonChar = NUL then Done (result, jsonChar, currentNode, ps, e)
      else
     run_bind (ParseNameValuePair os parse_value ps currentNode e) (\<lambda>(result, t, ps, e).
       if result \<noteq> JSON_DECODER_OK then Done (result, jsonChar, t, ps, e)
       else
     run_bind (EndValue ps) (\<lambda>(jsonChar, ps).
       ParseObject_loop n os parse_value jsonChar result
         (if jsonChar = CHR '','' then bump ps else ps) t e)))"

definition ParseObject ::
  "nat \<Rightarrow> ('e, 'm) os_scheme \<Rightarrow> 'e value_parser \<Rightarrow> PARSER_STATE \<Rightarrow> nat mtree \<Rightarrow> 'e
     \<Rightarrow> (JSON_DECODER_RESULT \<times> nat mtree \<times> PARSER_STATE \<times> 'e) run" where
  "ParseObject n os parse_value ps currentNode e =
     run_bind (ParseOpenCurly ps) (\<lambda>(result, ps).
       if result \<noteq> JSON_DECODER_OK then Done (result, currentNode, ps, e)
       else
     run_bind (SkipWhiteSpaces ps) (\<lambda>ps.
     run_bind (read ps (json ps)) (\<lambda>jsonChar.
     run_bind (ParseObject_loop n os parse_value jsonChar result ps currentNode e)
       (\<lambda>(result, jsonChar, t, ps, e).
         if result \<noteq> JSON_DECODER_OK then Done (result, t, ps, e)
         else if jsonChar \<noteq> CHR ''}'' then Done (JSON_DECODER_PARSE_ERROR, t, ps, e)
         else Done (result, t, bump ps, e)))))"

text \<open>
  When MultiTree\_AddChild fails the loop has no break: it goes round again with the next index
  and the same jsonChar.
\<close>

primrec ParseArray_loop ::
  "nat \<Rightarrow> ('e, 'm) os_scheme \<Rightarrow> 'e value_parser
     \<Rightarrow> nat \<Rightarrow> char \<Rightarrow> JSON_DECODER_RESULT \<Rightarrow> PARSER_STATE \<Rightarrow> nat mtree \<Rightarrow> 'e
     \<Rightarrow> (JSON_DECODER_RESULT \<times> char \<times> nat mtree \<times> PARSER_STATE \<times> 'e) run" where
  "ParseArray_loop 0 os parse_value arrayIndex jsonChar result ps currentNode e = NoFuel"
| "ParseArray_loop (Suc n) os parse_value arrayIndex jsonChar result ps currentNode e =
     (if jsonChar = CHR '']'' \<or> jsonChar = NUL then Done (result, jsonChar, currentNode, ps, e)
      else
     (case add_child os currentNode (nat_str arrayIndex) e of (r, t, i, e) \<Rightarrow>
       if r \<noteq> MULTITREE_OK then
         ParseArray_loop n os parse_value (Suc arrayIndex) jsonChar JSON_DECODER_MULTITREE_FAILED
           ps t e
       else
     run_bind (ParseChildValue parse_value t i ps e) (\<lambda>(result, t, ps, e).
       if result \<noteq> JSON_DECODER_OK then Done (result, jsonChar, t, ps, e)
       else
     run_bind (EndValue ps) (\<lambda>(jsonChar, ps).
       if jsonChar = CHR '','' then
         ParseArray_loop n os parse_value (Suc arrayIndex) jsonChar result (bump ps) t e
       else if jsonChar = CHR '']'' then Done (result, jsonChar, t, ps, e)
       else Done (JSON_DECODER_PARSE_ERROR, jsonChar, t, ps, e)))))"

definition ParseArray ::
  "nat \<Rightarrow> ('e, 'm) os_scheme \<Rightarrow> 'e value_parser \<Rightarrow> PARSER_STATE \<Rightarrow> nat mtree \<Rightarrow> 'e
     \<Rightarrow> (JSON_DECODER_RESULT \<times> nat mtree \<times> PARSER_STATE \<times> 'e) run" where
  "ParseArray n os parse_value ps currentNode e =
     run_bind (SkipWhiteSpaces ps) (\<lambda>ps.
     run_bind (read ps (json ps)) (\<lambda>c.
       if c \<noteq> CHR ''['' then Done (JSON_DECODER_PARSE_ERROR, currentNode, ps, e)
       else
     run_bind (SkipWhiteSpaces (bump ps)) (\<lambda>ps.
     run_bind (read ps (json ps)) (\<lambda>jsonChar.
     run_bind (ParseArray_loop n os parse_value 0 jsonChar JSON_DECODER_OK ps currentNode e)
       (\<lambda>(result, jsonChar, t, ps, e).
         if result \<noteq> JSON_DECODER_OK then Done (result, t, ps, e)
         else if jsonChar \<noteq> CHR '']'' then Done (JSON_DECODER_PARSE_ERROR, t, ps, e)
         else run_bind (SkipWhiteSpaces (bump ps)) (\<lambda>ps. Done (result, t, ps, e)))))))"

primrec ParseValue :: "nat \<Rightarrow> ('e, 'm) os_scheme \<Rightarrow> 'e value_parser" where
  "ParseValue 0 os ps currentNode e = NoFuel"
| "ParseValue (Suc n) os ps currentNode e =
     run_bind (SkipWhiteSpaces ps) (\<lambda>ps.
     run_bind (read ps (json ps)) (\<lambda>c.
       if c = CHR 0x22 then
         run_bind (ParseString ps) (\<lambda>(r, b, ps). Done (r, Some b, currentNode, ps, e))
       else
     run_bind (strncmp_eq ps (json ps) ''false'') (\<lambda>is_false.
       if is_false then Done (JSON_DECODER_OK, Some (json ps), currentNode, advance 5 ps, e)
       else
     run_bind (strncmp_eq ps (json ps) ''true'') (\<lambda>is_true.
       if is_true then Done (JSON_DECODER_OK, Some (json ps), currentNode, advance 4 ps, e)
       else
     run_bind (strncmp_eq ps (json ps) ''null'') (\<lambda>is_null.
       if is_null then Done (JSON_DECODER_OK, Some (json ps), currentNode, advance 4 ps, e)
       else if c = CHR ''['' then
         run_bind (ParseArray n os (ParseValue n os) ps currentNode e)
           (\<lambda>(r, t, ps, e). Done (r, None, t, ps, e))
       else if c = CHR ''{'' then
         run_bind (ParseObject n os (ParseValue n os) ps currentNode e)
           (\<lambda>(r, t, ps, e). Done (r, None, t, ps, e))
       else if ISDIGIT c \<or> c = CHR ''-'' then
         run_bind (ParseNumber ps) (\<lambda>(r, ps'). Done (r, Some (json ps), currentNode, ps', e))
       else Done (JSON_DECODER_PARSE_ERROR, None, currentNode, ps, e))))))"

definition ParseObjectOrArray ::
  "nat \<Rightarrow> ('e, 'm) os_scheme \<Rightarrow> PARSER_STATE \<Rightarrow> nat mtree \<Rightarrow> 'e
     \<Rightarrow> (JSON_DECODER_RESULT \<times> nat mtree \<times> PARSER_STATE \<times> 'e) run" where
  "ParseObjectOrArray n os ps currentNode e =
     run_bind (SkipWhiteSpaces ps) (\<lambda>ps.
     run_bind (read ps (json ps)) (\<lambda>c.
     run_bind
       (if c = CHR ''{'' then
          run_bind (ParseObject n os (ParseValue n os) ps currentNode e) (\<lambda>(r, t, ps, e).
          run_bind (SkipWhiteSpaces ps) (\<lambda>ps. Done (r, t, ps, e)))
        else if c = CHR ''['' then
          run_bind (ParseArray n os (ParseValue n os) ps currentNode e) (\<lambda>(r, t, ps, e).
          run_bind (SkipWhiteSpaces ps) (\<lambda>ps. Done (r, t, ps, e)))
        else Done (JSON_DECODER_PARSE_ERROR, currentNode, ps, e))
       (\<lambda>(result, t, ps, e).
          if result = JSON_DECODER_OK then
            run_bind (read ps (json ps)) (\<lambda>c.
              if c \<noteq> NUL then Done (JSON_DECODER_PARSE_ERROR, t, ps, e)
              else Done (result, t, ps, e))
          else Done (result, t, ps, e))))"

definition ParseJSON ::
  "nat \<Rightarrow> ('e, 'm) os_scheme \<Rightarrow> char list \<Rightarrow> nat mtree \<Rightarrow> 'e
     \<Rightarrow> (JSON_DECODER_RESULT \<times> nat mtree \<times> PARSER_STATE \<times> 'e) run" where
  "ParseJSON n os text currentNode e =
     ParseObjectOrArray n os \<lparr>json = 0, buffer = text\<rparr> currentNode e"

text \<open>
  The buffer is an argument and, changed, a result; the tree is a result when it is handed to
  the caller, that is, when the call succeeds: on failure it is destroyed.
\<close>

definition JSONDecoder_JSON_To_MultiTree ::
  "nat \<Rightarrow> ('e, 'm) os_scheme \<Rightarrow> char list option \<Rightarrow> bool \<Rightarrow> 'e
     \<Rightarrow> (JSON_DECODER_RESULT \<times> nat mtree option \<times> char list \<times> 'e) run" where
  "JSONDecoder_JSON_To_MultiTree n os text multiTreeHandle e =
     (case text of
        None \<Rightarrow> Done (JSON_DECODER_INVALID_ARG, None, [], e)
      | Some bs \<Rightarrow>
          if \<not> multiTreeHandle then Done (JSON_DECODER_INVALID_ARG, None, bs, e)
          else
     run_bind (read \<lparr>json = 0, buffer = bs\<rparr> 0) (\<lambda>c.
       if c = NUL then Done (JSON_DECODER_PARSE_ERROR, None, bs, e)
       else
         (case MultiTree_Create os (Some NOPCloneFunction) (Some NoFreeFunction) e of
            (None, e) \<Rightarrow> Done (JSON_DECODER_MULTITREE_FAILED, None, bs, e)
          | (Some root, e) \<Rightarrow>
              run_bind (ParseJSON n os bs root e) (\<lambda>(result, t, ps, e).
                Done (result, if result = JSON_DECODER_OK then Some t else None, buffer ps, e)))))"

section \<open>Safety and termination\<close>

text \<open>
  The invariant of the parser state: the buffer ends in a NUL and the position is inside it.
  The code only ever writes NUL characters, and moves on only past characters it has seen not
  to be NUL.
\<close>

definition in_text :: "PARSER_STATE \<Rightarrow> bool" where
  "in_text ps \<longleftrightarrow> json ps < length (buffer ps) \<and> last (buffer ps) = NUL"

definition goes_to :: "PARSER_STATE \<Rightarrow> PARSER_STATE \<Rightarrow> bool" where
  "goes_to ps ps' \<longleftrightarrow> in_text ps' \<and> length (buffer ps') = length (buffer ps) \<and> json ps \<le> json ps'"

definition rest_length :: "PARSER_STATE \<Rightarrow> nat" where
  "rest_length ps = length (buffer ps) - json ps"

lemma goes_to_refl: "in_text ps \<Longrightarrow> goes_to ps ps"
  by (simp add: goes_to_def)

lemma goes_to_trans: "goes_to a b \<Longrightarrow> goes_to b c \<Longrightarrow> goes_to a c"
  by (simp add: goes_to_def)

lemma goes_to_in_text: "goes_to a b \<Longrightarrow> in_text b"
  by (simp add: goes_to_def)

lemma read_sat:
  "in_text ps \<Longrightarrow> i < length (buffer ps) \<Longrightarrow> run_sat t (\<lambda>c. c = buffer ps ! i) (read ps i)"
  by (simp add: read_def)

lemma in_text_less: "in_text ps \<Longrightarrow> json ps < length (buffer ps)"
  by (simp add: in_text_def)

lemma in_text_bump:
  assumes "in_text ps" "buffer ps ! json ps \<noteq> NUL"
  shows "in_text (bump ps)"
proof -
  have "json ps \<noteq> length (buffer ps) - 1"
    using assms by (metis in_text_def last_conv_nth length_greater_0_conv less_zeroE list.size(3))
  then have "Suc (json ps) < length (buffer ps)" using assms(1) unfolding in_text_def by linarith
  then show ?thesis using assms(1) by (simp add: in_text_def bump_def)
qed

lemma bump_sel [simp]: "json (bump ps) = Suc (json ps)" "buffer (bump ps) = buffer ps"
  by (simp_all add: bump_def)

lemma advance_sel [simp]:
  "json (advance k ps) = json ps + k" "buffer (advance k ps) = buffer ps"
  by (simp_all add: advance_def)

lemma goes_to_bump:
  "in_text ps \<Longrightarrow> buffer ps ! json ps \<noteq> NUL \<Longrightarrow> goes_to ps (bump ps)"
  using in_text_bump by (simp add: goes_to_def)

lemma write_nul_sat:
  assumes "in_text ps" "i < length (buffer ps)"
  shows "run_sat t (\<lambda>ps'. goes_to ps ps' \<and> json ps' = json ps) (write_nul ps i)"
proof -
  have "last ((buffer ps)[i := NUL]) = NUL"
  proof -
    have ne: "buffer ps \<noteq> []" using assms by (auto simp: in_text_def)
    then have "buffer ps ! (length (buffer ps) - 1) = NUL"
      using assms(1) last_conv_nth [OF ne] by (simp add: in_text_def)
    then show ?thesis
      using ne assms(2) last_conv_nth [of "(buffer ps)[i := NUL]"] by (simp add: nth_list_update)
  qed
  then show ?thesis using assms by (simp add: write_nul_def goes_to_def in_text_def)
qed

lemma string_at_sat:
  assumes "in_text ps" "i < length (buffer ps)"
  shows "run_sat t (\<lambda>s. True) (string_at ps i)"
proof -
  have "drop i (buffer ps) \<noteq> []" using assms by simp
  then have "last (drop i (buffer ps)) \<in> set (drop i (buffer ps))" by (rule last_in_set)
  moreover have "last (drop i (buffer ps)) = NUL" using assms by (simp add: in_text_def)
  ultimately show ?thesis by (simp add: string_at_def)
qed

text \<open>What the lexical parsers do to the state: they move forward and leave the buffer alone.\<close>

definition scans_to :: "PARSER_STATE \<Rightarrow> PARSER_STATE \<Rightarrow> bool" where
  "scans_to ps ps' \<longleftrightarrow> goes_to ps ps' \<and> buffer ps' = buffer ps"

lemma scans_to_refl: "in_text ps \<Longrightarrow> scans_to ps ps"
  by (simp add: scans_to_def goes_to_refl)

lemma scans_to_trans: "scans_to a b \<Longrightarrow> scans_to b c \<Longrightarrow> scans_to a c"
  by (auto simp: scans_to_def intro: goes_to_trans)

lemma scans_to_bump:
  "in_text ps \<Longrightarrow> buffer ps ! json ps \<noteq> NUL \<Longrightarrow> scans_to ps (bump ps)"
  by (simp add: scans_to_def goes_to_bump)

lemma scans_to_in_text: "scans_to a b \<Longrightarrow> in_text b"
  by (simp add: scans_to_def goes_to_def)

lemma SkipWhiteSpaces_sat:
  "in_text ps \<Longrightarrow> run_sat t (scans_to ps) (SkipWhiteSpaces ps)"
proof (induction ps rule: SkipWhiteSpaces.induct)
  case (1 ps)
  have rd: "read ps (json ps) = Done (buffer ps ! json ps)"
    using 1(2) by (simp add: read_def in_text_less)
  show ?case
  proof (cases "buffer ps ! json ps \<noteq> NUL \<and> IsWhiteSpace (buffer ps ! json ps)")
    case True
    then have "run_sat t (scans_to (bump ps)) (SkipWhiteSpaces (bump ps))"
      using 1 rd in_text_bump by blast
    moreover have "scans_to ps (bump ps)" using 1(2) True scans_to_bump by blast
    ultimately show ?thesis
      using True rd by (subst SkipWhiteSpaces.simps) (auto elim: run_sat_mono intro: scans_to_trans)
  next
    case False
    with 1(2) rd show ?thesis by (subst SkipWhiteSpaces.simps) (auto simp: scans_to_refl)
  qed
qed

lemma ParseString_loop_sat:
  "in_text ps \<Longrightarrow> run_sat t (\<lambda>(r, ps'). scans_to ps ps') (ParseString_loop ps)"
proof (induction ps rule: ParseString_loop.induct)
  case (1 ps)
  have rd: "\<And>ps. in_text ps \<Longrightarrow> read ps (json ps) = Done (buffer ps ! json ps)"
    by (simp add: read_def in_text_less)
  let ?c = "buffer ps ! json ps" and ?ps1 = "bump ps"
  show ?case
  proof (cases "?c \<noteq> CHR 0x22 \<and> ?c \<noteq> NUL")
    case False
    with 1(3) rd show ?thesis by (subst ParseString_loop.simps) (auto simp: scans_to_refl)
  next
    case True
    then have s1: "scans_to ps ?ps1" and i1: "in_text ?ps1"
      using 1(3) scans_to_bump in_text_bump by blast+
    show ?thesis
    proof (cases "?c = CHR 0x5C")
      case False
      have "run_sat t (\<lambda>(r, ps'). scans_to ?ps1 ps') (ParseString_loop ?ps1)"
        using 1(2) [OF rd [OF 1(3)] True False i1] .
      then show ?thesis
        using True False rd [OF 1(3)] s1
        by (subst ParseString_loop.simps) (auto elim!: run_sat_mono intro: scans_to_trans)
    next
      case esc: True
      let ?d = "buffer ps ! Suc (json ps)"
      let ?E = "?d = CHR 0x5C \<or> ?d = CHR 0x22 \<or> ?d = CHR ''/'' \<or> ?d = CHR ''b'' \<or> ?d = CHR ''f''
          \<or> ?d = CHR ''n'' \<or> ?d = CHR ''r'' \<or> ?d = CHR ''t''"
      have rd1: "read ?ps1 (json ?ps1) = Done ?d" using rd [OF i1] by simp
      show ?thesis
      proof (cases ?E)
        case ed: True
        then have "?d \<noteq> NUL" by auto
        then have s2: "scans_to ?ps1 (bump ?ps1)" and i2: "in_text (bump ?ps1)"
          using i1 scans_to_bump [OF i1] in_text_bump [OF i1] by simp_all
        have "run_sat t (\<lambda>(r, ps'). scans_to (bump ?ps1) ps') (ParseString_loop (bump ?ps1))"
          using 1(1) [OF rd [OF 1(3)] True esc refl rd1 ed i2] .
        then show ?thesis
          using True esc rd [OF 1(3)] rd1 ed s1 s2
          by (subst ParseString_loop.simps)
            (auto simp: Let_def elim!: run_sat_mono intro: scans_to_trans)
      next
        case ed: False
        then show ?thesis
          using True esc rd [OF 1(3)] rd1 s1
          by (subst ParseString_loop.simps) (auto simp: Let_def)
      qed
    qed
  qed
qed

lemma ParseString_sat:
  assumes "in_text ps"
  shows "run_sat t (\<lambda>(r, b, ps'). scans_to ps ps' \<and> b = json ps
           \<and> (r = JSON_DECODER_OK \<longrightarrow> json ps + 2 \<le> json ps')) (ParseString ps)"
proof -
  have rd: "\<And>ps. in_text ps \<Longrightarrow> read ps (json ps) = Done (buffer ps ! json ps)"
    by (simp add: read_def in_text_less)
  show ?thesis
  proof (cases "buffer ps ! json ps = CHR 0x22")
    case True
    then have s1: "scans_to ps (bump ps)" and i1: "in_text (bump ps)"
      using assms scans_to_bump in_text_bump by simp_all
    show ?thesis
      unfolding ParseString_def Let_def
      using True rd [OF assms]
      apply simp
      apply (rule run_sat_bindI [OF ParseString_loop_sat [OF i1]])
      subgoal for x
        using s1 rd [of "snd x"] scans_to_bump [of "snd x"]
        by (cases x)
          (auto dest: scans_to_in_text scans_to_trans [OF s1] simp: scans_to_def goes_to_def
            intro: in_text_bump)
      done
  next
    case False
    with rd [OF assms] assms show ?thesis by (simp add: ParseString_def scans_to_refl)
  qed
qed

lemma digits_loop_sat:
  "in_text ps \<Longrightarrow> run_sat t (\<lambda>(k, ps'). scans_to ps ps' \<and> n \<le> k \<and> json ps' = json ps + (k - n))
     (digits_loop ps n)"
proof (induction ps n rule: digits_loop.induct)
  case (1 ps n)
  have rd: "read ps (json ps) = Done (buffer ps ! json ps)"
    using 1(2) by (simp add: read_def in_text_less)
  show ?case
  proof (cases "buffer ps ! json ps \<noteq> NUL \<and> ISDIGIT (buffer ps ! json ps)")
    case True
    have "run_sat t (\<lambda>(k, ps'). scans_to (bump ps) ps' \<and> Suc n \<le> k
        \<and> json ps' = json (bump ps) + (k - Suc n)) (digits_loop (bump ps) (Suc n))"
      using 1(1) [OF rd True] 1(2) True in_text_bump by blast
    moreover have "scans_to ps (bump ps)" using 1(2) True scans_to_bump by blast
    ultimately show ?thesis
      using True rd by (subst digits_loop.simps) (auto elim!: run_sat_mono intro: scans_to_trans)
  next
    case False
    with 1(2) rd show ?thesis by (subst digits_loop.simps) (auto simp: scans_to_refl)
  qed
qed

lemma read_json: "in_text ps \<Longrightarrow> read ps (json ps) = Done (buffer ps ! json ps)"
  by (simp add: read_def in_text_less)

lemma digits_loop_progress:
  assumes "in_text ps"
  shows "run_sat t (\<lambda>(k, ps'). scans_to ps ps' \<and> json ps' = json ps + k) (digits_loop ps 0)"
  by (rule run_sat_mono [OF digits_loop_sat [OF assms]]) auto

lemma ParseNumber_fraction_sat:
  assumes "in_text ps"
  shows "run_sat t (\<lambda>(r, ps'). scans_to ps ps') (ParseNumber_fraction ps)"
proof (cases "buffer ps ! json ps = CHR ''.''")
  case True
  then have s: "scans_to ps (bump ps)" and i: "in_text (bump ps)"
    using assms scans_to_bump in_text_bump by simp_all
  show ?thesis
    unfolding ParseNumber_fraction_def read_json [OF assms] run_bind.simps if_P [OF True]
    by (rule run_sat_bindI [OF digits_loop_progress [OF i]]) (auto intro: scans_to_trans [OF s])
qed (simp add: ParseNumber_fraction_def read_json [OF assms] scans_to_refl assms)

lemma ParseNumber_exponent_sat:
  assumes "in_text ps"
  shows "run_sat t (\<lambda>(r, ps'). scans_to ps ps') (ParseNumber_exponent result ps)"
proof (cases "buffer ps ! json ps = CHR ''e'' \<or> buffer ps ! json ps = CHR ''E''")
  case True
  then have s1: "scans_to ps (bump ps)" and i1: "in_text (bump ps)"
    using assms scans_to_bump in_text_bump by auto
  let ?sign = "buffer (bump ps) ! json (bump ps) = CHR ''-'' \<or> buffer (bump ps) ! json (bump ps) = CHR ''+''"
  obtain q where q: "q = (if ?sign then bump (bump ps) else bump ps)" by blast
  have s2: "scans_to ps q" and i2: "in_text q"
    using s1 i1 scans_to_bump [OF i1] in_text_bump [OF i1] unfolding q by (auto intro: scans_to_trans)
  show ?thesis
    unfolding ParseNumber_exponent_def read_json [OF assms] read_json [OF i1] run_bind.simps
      if_P [OF True] q [symmetric]
    by (rule run_sat_bindI [OF digits_loop_progress [OF i2]]) (auto intro: scans_to_trans [OF s2])
qed (simp add: ParseNumber_exponent_def read_json [OF assms] scans_to_refl assms)

lemma bad_integer_sat:
  "in_text ps \<Longrightarrow> run_sat t (\<lambda>bad. \<not> bad \<longrightarrow> 0 < k) (bad_integer k ps)"
  using in_text_less [of ps] diff_le_self [of "json ps" k] le_less_trans
  by (auto simp: bad_integer_def read_def)

lemma ParseNumber_sat:
  assumes "in_text ps"
  shows "run_sat t (\<lambda>(r, ps'). scans_to ps ps' \<and> (r = JSON_DECODER_OK \<longrightarrow> json ps < json ps'))
     (ParseNumber ps)"
proof -
  let ?q = "if buffer ps ! json ps = CHR ''-'' then bump ps else ps"
  have q: "scans_to ps ?q" "in_text ?q"
    using assms scans_to_bump in_text_bump by (auto simp: scans_to_refl)
  have parts: "run_sat t (\<lambda>(r, ps'). scans_to ps1 ps')
      (run_bind (ParseNumber_fraction ps1) (\<lambda>(result, ps). ParseNumber_exponent result ps))"
    if "in_text ps1" for ps1
    by (rule run_sat_bindI [OF ParseNumber_fraction_sat [OF that]])
      (auto intro!: run_sat_mono [OF ParseNumber_exponent_sat]
        dest: scans_to_in_text intro: scans_to_trans)
  show ?thesis
    unfolding ParseNumber_def read_json [OF assms] run_bind.simps
  proof (rule run_sat_bindI [OF digits_loop_progress [OF q(2)]], clarify)
    fix k ps1 assume s1: "scans_to ?q ps1" and j1: "json ps1 = json ?q + k"
    have i1: "in_text ps1" and s1': "scans_to ps ps1" and jl: "json ps + k \<le> json ps1"
      using s1 scans_to_in_text scans_to_trans [OF q(1) s1] j1 by auto
    show "run_sat t (\<lambda>(r, ps'). scans_to ps ps' \<and> (r = JSON_DECODER_OK \<longrightarrow> json ps < json ps'))
      (run_bind (bad_integer k ps1) (\<lambda>bad.
         if bad then Done (JSON_DECODER_PARSE_ERROR, ps1)
         else run_bind (ParseNumber_fraction ps1) (\<lambda>(result, ps). ParseNumber_exponent result ps)))"
    proof (rule run_sat_bindI [OF bad_integer_sat [OF i1]])
      fix bad assume bad: "\<not> bad \<longrightarrow> 0 < k"
      show "run_sat t (\<lambda>(r, ps'). scans_to ps ps' \<and> (r = JSON_DECODER_OK \<longrightarrow> json ps < json ps'))
        (if bad then Done (JSON_DECODER_PARSE_ERROR, ps1)
         else run_bind (ParseNumber_fraction ps1) (\<lambda>(result, ps). ParseNumber_exponent result ps))"
      proof (cases bad)
        case False
        with bad have "0 < k" by simp
        then show ?thesis using False jl s1'
          by (auto intro!: run_sat_mono [OF parts [OF i1]] intro: scans_to_trans [OF s1']
              simp: scans_to_def goes_to_def)
      qed (use s1' in simp)
    qed
  qed
qed

lemma strncmp_eq_sat:
  assumes "in_text ps" "NUL \<notin> set lit" "i < length (buffer ps)"
  shows "run_sat t (\<lambda>b. b \<longrightarrow> i + length lit < length (buffer ps)
           \<and> (\<forall>k < length lit. buffer ps ! (i + k) = lit ! k)) (strncmp_eq ps i lit)"
  using assms(2,3)
proof (induction lit arbitrary: i)
  case (Cons c cs)
  have rd: "read ps i = Done (buffer ps ! i)" using Cons.prems by (simp add: read_def)
  show ?case
  proof (cases "buffer ps ! i = c")
    case True
    have "i \<noteq> length (buffer ps) - 1"
      using Cons.prems True assms(1) last_conv_nth [of "buffer ps"]
      by (cases "buffer ps = []") (auto simp: in_text_def)
    with Cons.prems have "Suc i < length (buffer ps)" by linarith
    from Cons.IH [OF _ this] Cons.prems True show ?thesis
      by (auto simp: rd nth_Cons elim!: run_sat_mono split: nat.splits)
  qed (simp add: rd)
qed simp

lemma advance_literal:
  assumes "in_text ps" "json ps + k < length (buffer ps)"
  shows "scans_to ps (advance k ps)"
  using assms by (simp add: scans_to_def goes_to_def in_text_def)

lemma ParseColon_sat:
  assumes "in_text ps"
  shows "run_sat t (\<lambda>(r, ps'). scans_to ps ps') (ParseColon ps)"
  unfolding ParseColon_def
  by (rule run_sat_bindI [OF SkipWhiteSpaces_sat [OF assms]])
    (auto simp: read_json [OF scans_to_in_text] intro: scans_to_trans [OF _ scans_to_bump]
      dest: scans_to_in_text)

lemma ParseOpenCurly_sat:
  assumes "in_text ps"
  shows "run_sat t (\<lambda>(r, ps'). scans_to ps ps' \<and> (r = JSON_DECODER_OK \<longrightarrow> json ps < json ps'))
     (ParseOpenCurly ps)"
  unfolding ParseOpenCurly_def
  by (rule run_sat_bindI [OF SkipWhiteSpaces_sat [OF assms]])
    (auto simp: read_json [OF scans_to_in_text] intro: scans_to_trans [OF _ scans_to_bump]
      dest: scans_to_in_text, auto simp: scans_to_def goes_to_def)

subsection \<open>The tree under construction\<close>

text \<open>
  Every pointer the tree holds lies in the buffer, a node with a value has no children, and
  siblings have distinct non-empty names.
\<close>

fun ptrs_below :: "nat \<Rightarrow> nat mtree \<Rightarrow> bool" where
  "ptrs_below n (MTree name v cs) \<longleftrightarrow>
     (case v of None \<Rightarrow> True | Some p \<Rightarrow> p < n \<and> cs = []) \<and> (\<forall>c \<in> set cs. ptrs_below n c)"

definition tree_ok :: "nat \<Rightarrow> nat mtree \<Rightarrow> bool" where
  "tree_ok n t \<longleftrightarrow> mt_wf t \<and> ptrs_below n t"

text \<open>A node the decoder is filling with children; a node it has just added.\<close>

definition node_ok :: "nat \<Rightarrow> nat mtree \<Rightarrow> bool" where
  "node_ok n t \<longleftrightarrow> tree_ok n t \<and> mt_value t = None"

definition fresh :: "nat mtree \<Rightarrow> bool" where
  "fresh t \<longleftrightarrow> mt_value t = None \<and> children t = []"

lemma fresh_node_ok: "fresh t \<Longrightarrow> node_ok n t"
  by (cases t) (simp add: fresh_def node_ok_def tree_ok_def)

lemma ptrs_below_iff:
  "ptrs_below n t \<longleftrightarrow> (case mt_value t of None \<Rightarrow> True | Some p \<Rightarrow> p < n \<and> children t = [])
     \<and> (\<forall>c \<in> set (children t). ptrs_below n c)"
  by (cases t) (simp split: option.splits)

lemma add_child_cases:
  assumes "add_child os node name e = (r, t, i, e')"
  obtains (ok) "r = MULTITREE_OK" "name \<noteq> []" "find_child name (children node) = None"
      "t = set_children node (children node @ [MTree (Some name) None []])"
      "i = length (children node)"
  | (fail) "r \<noteq> MULTITREE_OK" "t = node"
proof -
  obtain r0 t0 e0 where c: "createLeaf os NOPCloneFunction node name None e = (r0, t0, e0)"
    by (cases "createLeaf os NOPCloneFunction node name None e") auto
  from c show ?thesis
  proof (cases rule: createLeaf_cases)
    case (ok y)
    then show ?thesis
      using assms c that(1) by (simp add: add_child_def MultiTree_AddChild_def getChildByName_def)
  next
    case fail
    then show ?thesis
      using assms c that(2)
      by (cases r0) (simp_all add: add_child_def MultiTree_AddChild_def)
  qed
qed

lemma add_child_available:
  assumes "memory_available os" "name \<noteq> []" "find_child name (children node) = None"
  shows "\<exists>e'. add_child os node name e =
    (MULTITREE_OK, set_children node (children node @ [MTree (Some name) None []]),
     length (children node), e')"
proof -
  have "clone_total NOPCloneFunction" by (simp add: clone_total_def NOPCloneFunction_def)
  from createLeaf_available [OF assms(1) this assms(2), of node None e] assms(3)
  obtain t0 e0 where c: "createLeaf os NOPCloneFunction node name None e = (CREATELEAF_OK, t0, e0)"
    by (auto simp: getChildByName_def)
  then have "fst (add_child os node name e) = MULTITREE_OK"
    by (simp add: add_child_def MultiTree_AddChild_def)
  then obtain t i e' where a: "add_child os node name e = (MULTITREE_OK, t, i, e')"
    by (cases "add_child os node name e") auto
  from a show ?thesis by (cases rule: add_child_cases) (simp_all add: a)
qed

lemma node_ok_add:
  assumes "node_ok n node" "name \<noteq> []" "find_child name (children node) = None"
  shows "node_ok n (set_children node (children node @ [MTree (Some name) None []]))"
proof -
  let ?t = "set_children node (children node @ [MTree (Some name) None []])"
  have "ptrs_below n ?t"
    using assms(1) unfolding node_ok_def tree_ok_def ptrs_below_iff [of n node]
      ptrs_below_iff [of n ?t] by auto
  then show ?thesis
    using assms(1) mt_wf_add [OF _ assms(2,3), of None] by (simp add: node_ok_def tree_ok_def)
qed

lemma put_child_sel [simp]:
  "mt_name (put_child t i c) = mt_name t" "mt_value (put_child t i c) = mt_value t"
  "children (put_child t i c) = (children t)[i := c]"
  by (simp_all add: put_child_def)

lemma node_ok_put_child:
  assumes "node_ok n t" "i < length (children t)" "tree_ok n c" "mt_name c = mt_name (children t ! i)"
  shows "node_ok n (put_child t i c)"
proof -
  have "mt_wf (put_child t i c)"
    unfolding put_child_def using assms by (intro mt_wf_update) (auto simp: node_ok_def tree_ok_def)
  moreover have "ptrs_below n (put_child t i c)"
    using assms set_update_subset_insert [of "children t" i c]
    unfolding node_ok_def tree_ok_def ptrs_below_iff [of n t] ptrs_below_iff [of n "put_child t i c"]
    by auto
  ultimately show ?thesis using assms(1) by (simp add: node_ok_def tree_ok_def)
qed

lemma set_value_fresh:
  "fresh c \<Longrightarrow> set_value c v e = (MULTITREE_OK, MTree (mt_name c) (Some v) [], e)"
  by (simp add: set_value_def MultiTree_SetValue_def NOPCloneFunction_def fresh_def)

subsection \<open>The grammar rules\<close>

text \<open>
  What a rule that fills a node guarantees: the position moves on inside the text, the node
  keeps its name and stays well formed. What the parser of values guarantees besides: it moves
  on when it succeeds, and when it hands out a pointer it has not touched the node.
\<close>

definition node_post ::
  "PARSER_STATE \<Rightarrow> nat mtree \<Rightarrow> nat mtree \<Rightarrow> PARSER_STATE \<Rightarrow> bool" where
  "node_post ps node node' ps' \<longleftrightarrow>
     goes_to ps ps' \<and> node_ok (length (buffer ps)) node' \<and> mt_name node' = mt_name node"

definition value_post ::
  "PARSER_STATE \<Rightarrow> nat mtree
     \<Rightarrow> JSON_DECODER_RESULT \<times> nat option \<times> nat mtree \<times> PARSER_STATE \<times> 'e \<Rightarrow> bool" where
  "value_post ps node = (\<lambda>(r, b, node', ps', e').
     node_post ps node node' ps'
     \<and> (r = JSON_DECODER_OK \<longrightarrow> json ps < json ps')
     \<and> (\<forall>v. b = Some v \<longrightarrow> v < length (buffer ps) \<and> node' = node))"

lemma node_post_trans:
  "node_post a x y b \<Longrightarrow> node_post b y z c \<Longrightarrow> node_post a x z c"
  by (auto simp: node_post_def goes_to_def)

lemma node_post_moved:
  "node_post a x y b \<Longrightarrow> goes_to b c \<Longrightarrow> node_post a x y c"
  by (auto simp: node_post_def goes_to_def)

lemma moved_node_post:
  "goes_to a b \<Longrightarrow> node_post b x y c \<Longrightarrow> node_post a x y c"
  by (auto simp: node_post_def goes_to_def)

lemma scans_goes: "scans_to a b \<Longrightarrow> goes_to a b"
  by (simp add: scans_to_def)

lemma EndValue_sat:
  assumes "in_text ps"
  shows "run_sat t (\<lambda>(c, ps'). goes_to ps ps'
           \<and> (c \<noteq> NUL \<longrightarrow> json ps' + 1 < length (buffer ps))) (EndValue ps)"
  unfolding EndValue_def Let_def
proof (rule run_sat_bindI [OF SkipWhiteSpaces_sat [OF assms]])
  fix ps1 assume s: "scans_to ps ps1"
  then have i: "in_text ps1" by (rule scans_to_in_text)
  have len: "json ps < length (buffer ps1)" and bf: "buffer ps1 = buffer ps"
    using s assms by (auto simp: scans_to_def in_text_def)
  have nz: "json ps1 + 1 < length (buffer ps)" if "buffer ps1 ! json ps1 \<noteq> NUL"
    using in_text_bump [OF i that] bf by (simp add: in_text_def)
  show "run_sat t (\<lambda>(c, ps'). goes_to ps ps' \<and> (c \<noteq> NUL \<longrightarrow> json ps' + 1 < length (buffer ps)))
     (run_bind (read ps1 (json ps1)) (\<lambda>jsonChar.
      run_bind (write_nul ps1 (json ps)) (\<lambda>ps. Done (jsonChar, ps))))"
    unfolding read_json [OF i] run_bind.simps
    by (rule run_sat_bindI [OF write_nul_sat [OF i len]])
      (use s nz in \<open>auto intro: goes_to_trans dest: scans_goes\<close>)
qed


text \<open>What a rule that may fail guarantees: it moves on when it succeeds.\<close>

definition rule_post ::
  "PARSER_STATE \<Rightarrow> nat mtree \<Rightarrow> JSON_DECODER_RESULT \<times> nat mtree \<times> PARSER_STATE \<times> 'e \<Rightarrow> bool" where
  "rule_post ps node = (\<lambda>(r, node', ps', e').
     node_post ps node node' ps' \<and> (r = JSON_DECODER_OK \<longrightarrow> json ps < json ps'))"

lemma rule_post_moved: "goes_to ps ps1 \<Longrightarrow> rule_post ps1 node x \<Longrightarrow> rule_post ps node x"
  by (cases x) (auto simp: rule_post_def node_post_def goes_to_def)

lemma rule_post_fail:
  "goes_to ps ps1 \<Longrightarrow> node_ok (length (buffer ps)) node \<Longrightarrow> r \<noteq> JSON_DECODER_OK
     \<Longrightarrow> rule_post ps node (r, node, ps1, e)"
  by (simp add: rule_post_def node_post_def)

definition child_post ::
  "PARSER_STATE \<Rightarrow> nat mtree \<Rightarrow> JSON_DECODER_RESULT \<times> nat mtree \<times> PARSER_STATE \<times> 'e \<Rightarrow> bool" where
  "child_post ps t = (\<lambda>(r, t', ps', e').
     rule_post ps t (r, t', ps', e') \<and> map mt_name (children t') = map mt_name (children t))"

text \<open>
  The loops, where \<open>c\<close> is the character jsonChar: a closing one is at the position, so that the
  caller can step over it. The names an array has given so far are its indices.
\<close>

definition loop_post ::
  "char \<Rightarrow> PARSER_STATE \<Rightarrow> nat mtree
     \<Rightarrow> JSON_DECODER_RESULT \<times> char \<times> nat mtree \<times> PARSER_STATE \<times> 'e \<Rightarrow> bool" where
  "loop_post close ps node = (\<lambda>(r, c, t, ps', e').
     node_post ps node t ps' \<and> (c = close \<longrightarrow> r = JSON_DECODER_OK \<longrightarrow> json ps' + 1 < length (buffer ps)))"

definition array_pre :: "bool \<Rightarrow> nat \<Rightarrow> nat \<Rightarrow> nat \<Rightarrow> char \<Rightarrow> PARSER_STATE \<Rightarrow> nat mtree \<Rightarrow> bool" where
  "array_pre total_run k n arrayIndex c ps node \<longleftrightarrow>
     in_text ps \<and> node_ok (length (buffer ps)) node
     \<and> (total_run \<longrightarrow> rest_length ps < k \<and> rest_length ps < n
          \<and> map mt_name (children node) = map (Some \<circ> nat_str) [0..<arrayIndex])
     \<and> (c = CHR '']'' \<longrightarrow> json ps + 1 < length (buffer ps))"

definition object_pre :: "bool \<Rightarrow> nat \<Rightarrow> nat \<Rightarrow> char \<Rightarrow> PARSER_STATE \<Rightarrow> nat mtree \<Rightarrow> bool" where
  "object_pre total_run k n c ps node \<longleftrightarrow>
     in_text ps \<and> node_ok (length (buffer ps)) node
     \<and> (total_run \<longrightarrow> rest_length ps < k \<and> rest_length ps < n)
     \<and> (c = CHR ''}'' \<longrightarrow> json ps + 1 < length (buffer ps))"

text \<open>
  The interface between the grammar rules and the parser of values they are given. Both uses
  are covered: for safety alone \<open>total\<close> is false and nothing is asked of the environment; for
  termination \<open>total\<close> is true, memory is available, and the parser of values has fuel for
  texts shorter than \<open>k\<close>.
\<close>

locale value_parsing =
  fixes total :: bool
    and os :: "('e, 'm) os_scheme"
    and k :: nat
    and parse_value :: "'e value_parser"
  assumes available: "total \<Longrightarrow> memory_available os"
    and value_sat: "in_text ps \<Longrightarrow> fresh node \<Longrightarrow> (total \<Longrightarrow> rest_length ps < k)
        \<Longrightarrow> run_sat total (value_post ps node) (parse_value ps node e)"
begin


lemma child_post_put:
  assumes "node_ok (length (buffer ps)) t" "i < length (children t)"
    and "tree_ok (length (buffer ps)) d" "mt_name d = mt_name (children t ! i)"
    and "goes_to ps ps'" "q = JSON_DECODER_OK \<longrightarrow> json ps < json ps'"
  shows "child_post ps t (q, put_child t i d, ps', e')"
proof -
  have "map mt_name ((children t)[i := d]) = map mt_name (children t)"
    using assms(2,4) by (metis length_map list_update_id map_update nth_map)
  then show ?thesis
    using node_ok_put_child [OF assms(1-4)] assms(5,6)
    by (simp add: child_post_def rule_post_def node_post_def)
qed

lemma child_value_sat:
  assumes "in_text ps" "node_ok (length (buffer ps)) t" "i < length (children t)"
    "fresh (children t ! i)" "total \<Longrightarrow> rest_length ps < k"
  shows "run_sat total (child_post ps t) (ParseChildValue parse_value t i ps e)"
  unfolding ParseChildValue_def
proof (rule run_sat_bindI [OF value_sat [OF assms(1,4,5)]], assumption, goal_cases)
  case (1 x)
  obtain r b c ps' e' where x: "x = (r, b, c, ps', e')" by (cases x)
  from 1 x have g: "goes_to ps ps'" and p: "r = JSON_DECODER_OK \<longrightarrow> json ps < json ps'"
    and v: "\<And>v. b = Some v \<Longrightarrow> v < length (buffer ps) \<and> c = children t ! i"
    and c: "tree_ok (length (buffer ps)) c" "mt_name c = mt_name (children t ! i)"
    by (auto simp: value_post_def node_post_def node_ok_def)
  note put = child_post_put [OF assms(2,3) _ _ g p]
  show ?case
  proof (cases b)
    case None
    then show ?thesis using put [OF c] by (simp add: x)
  next
    case (Some p)
    have leaf: "tree_ok (length (buffer ps)) (MTree (mt_name c) (Some p) [])"
      using v [OF Some] by (simp add: tree_ok_def)
    show ?thesis
      using Some put [OF c] put [OF leaf] v [OF Some] assms(4)
      by (cases "r = JSON_DECODER_OK") (simp_all add: set_value_fresh x)
  qed
qed

lemma named_value_sat:
  assumes "in_text ps" "node_ok (length (buffer ps)) node" "total \<Longrightarrow> rest_length ps < k"
  shows "run_sat total (rule_post ps node) (ParseNamedValue os parse_value name ps node e)"
proof -
  obtain r t i e1 where a: "add_child os node name e = (r, t, i, e1)"
    by (cases "add_child os node name e") auto
  from a show ?thesis
  proof (cases rule: add_child_cases)
    case ok
    have t: "node_ok (length (buffer ps)) t" "fresh (children t ! i)" "i < length (children t)"
      using ok node_ok_add [OF assms(2)] by (simp_all add: fresh_def)
    have "mt_name t = mt_name node" using ok by simp
    then have "rule_post ps node x" if "child_post ps t x"
      for x :: "JSON_DECODER_RESULT \<times> nat mtree \<times> PARSER_STATE \<times> 'e"
      using that by (cases x) (simp add: child_post_def rule_post_def node_post_def)
    then show ?thesis
      using run_sat_mono [OF child_value_sat [OF assms(1) t(1,3,2) assms(3)]] ok(1)
      by (simp add: ParseNamedValue_def a)
  next
    case fail
    with assms(1,2) show ?thesis
      by (simp add: ParseNamedValue_def a rule_post_fail goes_to_refl)
  qed
qed

lemma name_value_sat:
  assumes "in_text ps" "node_ok (length (buffer ps)) node" "total \<Longrightarrow> rest_length ps < k"
  shows "run_sat total (rule_post ps node) (ParseNameValuePair os parse_value ps node e)"
  unfolding ParseNameValuePair_def
  apply (rule run_sat_bindI [OF SkipWhiteSpaces_sat [OF assms(1)]])
  apply (rule run_sat_bindI [OF ParseString_sat], erule scans_to_in_text)
  apply clarsimp
  apply (intro conjI impI)
  subgoal for ps1 r ps2
    using assms(2) scans_to_trans [of ps ps1 ps2] by (auto intro!: rule_post_fail scans_goes)
  subgoal for ps1 r ps2
    apply (rule run_sat_bindI [OF write_nul_sat])
    subgoal by (auto dest: scans_to_in_text)
    subgoal by (auto simp: scans_to_def goes_to_def in_text_def)
    subgoal for ps3
      apply (rule run_sat_bindI [OF ParseColon_sat])
      subgoal by (auto dest: goes_to_in_text)
      apply (clarsimp split del: if_split)
      subgoal for r' ps4
        apply (subgoal_tac "goes_to ps ps4 \<and> Suc (json ps1) < length (buffer ps4) \<and> in_text ps4")
         prefer 2
        subgoal by (auto simp: scans_to_def goes_to_def in_text_def)
        apply (cases "r' = JSON_DECODER_OK")
        subgoal
          apply (simp split del: if_split)
          apply (rule run_sat_bindI [OF string_at_sat], blast, blast)
          apply (rule run_sat_mono [OF named_value_sat], blast)
            apply (use assms in \<open>auto simp: goes_to_def rest_length_def\<close>)[2]
          apply (auto intro: rule_post_moved)
          done
        subgoal using assms(2) by (simp add: rule_post_fail)
        done
      done
    done
  done

lemma loop_post_moved:
  "goes_to ps ps1 \<Longrightarrow> mt_name t = mt_name node \<Longrightarrow> loop_post close ps1 t x \<Longrightarrow> loop_post close ps node x"
  by (cases x) (auto simp: loop_post_def node_post_def goes_to_def)

lemma object_next_sat:
  assumes IH: "\<And>c r ps node e. object_pre total k n c ps node
      \<Longrightarrow> run_sat total (loop_post CHR ''}'' ps node)
            (ParseObject_loop n os parse_value c r ps node e)"
    and pre: "object_pre total k (Suc n) c ps node"
    and m: "rule_post ps node (JSON_DECODER_OK, t, ps1, e)"
  shows "run_sat total (loop_post CHR ''}'' ps1 t)
    (run_bind (EndValue ps1) (\<lambda>(jsonChar, ps).
       ParseObject_loop n os parse_value jsonChar JSON_DECODER_OK
         (if jsonChar = CHR '','' then bump ps else ps) t e))"
proof (rule run_sat_bindI [OF EndValue_sat], goal_cases)
  case 1
  then show ?case using m by (auto simp: rule_post_def node_post_def goes_to_def)
next
  case (2 x)
  obtain d ps2 where x: "x = (d, ps2)" by (cases x)
  obtain ps3 where ps3: "ps3 = (if d = CHR '','' then bump ps2 else ps2)" by blast
  have g: "goes_to ps1 ps3" and d: "d \<noteq> NUL \<longrightarrow> json ps2 + 1 < length (buffer ps2)"
    using 2 x ps3 by (auto simp: goes_to_def in_text_def)
  have "run_sat total (loop_post CHR ''}'' ps3 t)
      (ParseObject_loop n os parse_value d JSON_DECODER_OK ps3 t e)"
    using m g d pre ps3
    by (intro IH)
      (auto simp: object_pre_def rule_post_def node_post_def goes_to_def rest_length_def in_text_def)
  then show ?case unfolding x prod.case ps3 [symmetric]
    by (rule run_sat_mono) (rule loop_post_moved [OF g refl])
qed

lemma object_loop_sat:
  "object_pre total k n c ps node \<Longrightarrow> run_sat total (loop_post CHR ''}'' ps node)
    (ParseObject_loop n os parse_value c r ps node e)"
proof (induction n arbitrary: c r ps node e)
  case 0
  then show ?case by (auto simp: object_pre_def)
next
  case (Suc n)
  have ps: "in_text ps" "node_ok (length (buffer ps)) node" "total \<Longrightarrow> rest_length ps < k"
    using Suc.prems unfolding object_pre_def by auto
  show ?case
  proof (cases "c = CHR ''}'' \<or> c = NUL")
    case True
    then show ?thesis using Suc.prems
      by (auto simp: object_pre_def loop_post_def node_post_def goes_to_refl)
  next
    case False
    show ?thesis
      using False
      apply (simp split del: if_split)
      apply (rule run_sat_bindI [OF name_value_sat [OF ps]], assumption)
      apply (clarsimp split del: if_split)
      subgoal for r1 t ps1 e1
        apply (cases "r1 = JSON_DECODER_OK")
        subgoal
          apply (simp split del: if_split)
          apply (rule run_sat_mono [OF object_next_sat [OF Suc.IH Suc.prems]], assumption+)
          apply (rule loop_post_moved [of ps ps1 t])
            apply (auto simp: rule_post_def node_post_def)
          done
        subgoal by (auto simp: loop_post_def rule_post_def node_post_def)
        done
      done
  qed
qed

lemma object_sat:
  assumes "in_text ps" "node_ok (length (buffer ps)) node"
    "total \<Longrightarrow> rest_length ps \<le> k \<and> rest_length ps \<le> n"
  shows "run_sat total (rule_post ps node) (ParseObject n os parse_value ps node e)"
  unfolding ParseObject_def
proof (rule run_sat_bindI [OF ParseOpenCurly_sat [OF assms(1)]], goal_cases)
  case (1 x)
  obtain r ps1 where x: "x = (r, ps1)" by (cases x)
  show ?case
  proof (cases "r = JSON_DECODER_OK")
    case True
    with 1 x have s1: "scans_to ps ps1" "json ps < json ps1" by auto
    show ?thesis
      unfolding x using True
      apply simp
      apply (rule run_sat_bindI [OF SkipWhiteSpaces_sat], rule scans_to_in_text [OF s1(1)])
      subgoal for ps2
        using s1 in_text_bump [of ps2] assms
        apply (simp add: read_json scans_to_in_text)
        apply (rule run_sat_bindI [OF object_loop_sat])
        subgoal by (auto simp: object_pre_def scans_to_def goes_to_def rest_length_def in_text_def)
        apply (auto simp: loop_post_def rule_post_def node_post_def scans_to_def goes_to_def in_text_def)
        done
      done
  next
    case False
    with 1 x assms(2) show ?thesis by (auto intro: rule_post_fail scans_goes)
  qed
qed

lemma array_next_sat:
  assumes IH: "\<And>c r ps node e. array_pre total k n (Suc arrayIndex) c ps node
      \<Longrightarrow> run_sat total (loop_post CHR '']'' ps node)
            (ParseArray_loop n os parse_value (Suc arrayIndex) c r ps node e)"
    and pre: "array_pre total k (Suc n) arrayIndex c ps node"
    and names: "map mt_name (children t) = map mt_name (children node) @ [Some (nat_str arrayIndex)]"
    and m: "child_post ps t (JSON_DECODER_OK, u, ps1, e)"
  shows "run_sat total (loop_post CHR '']'' ps1 u)
    (run_bind (EndValue ps1) (\<lambda>(jsonChar, ps).
       if jsonChar = CHR '','' then
         ParseArray_loop n os parse_value (Suc arrayIndex) jsonChar JSON_DECODER_OK (bump ps) u e
       else if jsonChar = CHR '']'' then Done (JSON_DECODER_OK, jsonChar, u, ps, e)
       else Done (JSON_DECODER_PARSE_ERROR, jsonChar, u, ps, e)))"
proof (rule run_sat_bindI [OF EndValue_sat], goal_cases)
  case 1
  then show ?case using m by (auto simp: child_post_def rule_post_def node_post_def goes_to_def)
next
  case (2 x)
  obtain d ps2 where x: "x = (d, ps2)" by (cases x)
  have g: "goes_to ps1 ps2" and d: "d \<noteq> NUL \<longrightarrow> json ps2 + 1 < length (buffer ps2)"
    using 2 x by (auto simp: goes_to_def)
  have mm: "node_ok (length (buffer ps1)) u" "json ps < json ps1" "in_text ps1"
    "length (buffer ps1) = length (buffer ps)"
    "map mt_name (children u) = map mt_name (children node) @ [Some (nat_str arrayIndex)]"
    using m names by (auto simp: child_post_def rule_post_def node_post_def goes_to_def)
  show ?case
  proof (cases "d = CHR '',''")
    case True
    then have gb: "goes_to ps1 (bump ps2)" using g d by (simp add: goes_to_def in_text_def)
    have "run_sat total (loop_post CHR '']'' (bump ps2) u)
        (ParseArray_loop n os parse_value (Suc arrayIndex) d JSON_DECODER_OK (bump ps2) u e)"
      by (rule IH)
        (use mm g gb pre True in \<open>auto simp: array_pre_def goes_to_def rest_length_def in_text_def\<close>)
    then show ?thesis using True
      by (simp add: x) (auto elim!: run_sat_mono intro: loop_post_moved [OF gb refl])
  next
    case False
    then show ?thesis using g d mm by (auto simp: x loop_post_def node_post_def goes_to_def)
  qed
qed

lemma index_is_new:
  assumes total "map mt_name (children node) = map (Some \<circ> nat_str) [0..<arrayIndex]"
  shows "fst (add_child os node (nat_str arrayIndex) e) = MULTITREE_OK"
proof -
  have "mt_name ch \<noteq> Some (nat_str arrayIndex)" if "ch \<in> set (children node)" for ch
  proof -
    have "mt_name ch \<in> set (map mt_name (children node))" using that by simp
    then show ?thesis using assms(2) by (auto simp: nat_str_inj)
  qed
  then have "find_child (nat_str arrayIndex) (children node) = None"
    by (simp add: find_child_None)
  from add_child_available [OF available [OF assms(1)] nat_str_nonempty this, of e]
  show ?thesis by auto
qed

lemma array_loop_sat:
  "array_pre total k n arrayIndex c ps node \<Longrightarrow> run_sat total (loop_post CHR '']'' ps node)
    (ParseArray_loop n os parse_value arrayIndex c r ps node e)"
proof (induction n arbitrary: arrayIndex c r ps node e)
  case 0
  then show ?case by (auto simp: array_pre_def)
next
  case (Suc n)
  have ps: "in_text ps" "node_ok (length (buffer ps)) node" "total \<Longrightarrow> rest_length ps < k"
    and idx: "total \<Longrightarrow> map mt_name (children node) = map (Some \<circ> nat_str) [0..<arrayIndex]"
    using Suc.prems unfolding array_pre_def by auto
  obtain q t i e1 where a: "add_child os node (nat_str arrayIndex) e = (q, t, i, e1)"
    by (cases "add_child os node (nat_str arrayIndex) e") auto
  show ?case
  proof (cases "c = CHR '']'' \<or> c = NUL")
    case True
    then show ?thesis using Suc.prems
      by (auto simp: array_pre_def loop_post_def node_post_def goes_to_refl)
  next
    case False
    from a show ?thesis
    proof (cases rule: add_child_cases)
      case fail
      have "\<not> total" using index_is_new [OF _ idx, of e] fail(1) by (auto simp: a)
      then have "run_sat total (loop_post CHR '']'' ps node)
          (ParseArray_loop n os parse_value (Suc arrayIndex) c JSON_DECODER_MULTITREE_FAILED ps t e1)"
        unfolding fail(2) by (intro Suc.IH) (use Suc.prems in \<open>auto simp: array_pre_def\<close>)
      then show ?thesis using False fail(1) by (simp add: a)
    next
      case ok
      have t: "node_ok (length (buffer ps)) t" "fresh (children t ! i)" "i < length (children t)"
        using ok node_ok_add [OF ps(2)] by (simp_all add: fresh_def)
      have nm: "map mt_name (children t) = map mt_name (children node) @ [Some (nat_str arrayIndex)]"
        "mt_name t = mt_name node" using ok by simp_all
      show ?thesis
        using False ok(1)
        apply (simp add: a split del: if_split)
        apply (rule run_sat_bindI [OF child_value_sat [OF ps(1) t(1,3,2) ps(3)]], assumption)
        apply (clarsimp split del: if_split)
        subgoal for r1 u ps1 e1
          apply (cases "r1 = JSON_DECODER_OK")
          subgoal
            apply (simp split del: if_split cong del: if_weak_cong)
            apply (rule run_sat_mono [OF array_next_sat [OF Suc.IH Suc.prems nm(1)]], assumption+)
            apply (rule loop_post_moved [of ps ps1 u])
              apply (auto simp: child_post_def rule_post_def node_post_def nm)
            done
          subgoal by (auto simp: loop_post_def child_post_def rule_post_def node_post_def nm)
          done
        done
    qed
  qed
qed

lemma array_sat:
  assumes "in_text ps" "node_ok (length (buffer ps)) node"
    "total \<Longrightarrow> rest_length ps \<le> k \<and> rest_length ps \<le> n \<and> children node = []"
  shows "run_sat total (rule_post ps node) (ParseArray n os parse_value ps node e)"
  unfolding ParseArray_def
proof (rule run_sat_bindI [OF SkipWhiteSpaces_sat [OF assms(1)]], goal_cases)
  case (1 ps1)
  then have i1: "in_text ps1" by (rule scans_to_in_text)
  show ?case
  proof (cases "buffer ps1 ! json ps1 = CHR ''[''")
    case True
    then have i2: "in_text (bump ps1)" using in_text_bump [OF i1] by simp
    show ?thesis
      unfolding read_json [OF i1] run_bind.simps using True 1
      apply simp
      apply (rule run_sat_bindI [OF SkipWhiteSpaces_sat [OF i2]])
      subgoal for ps2
        using in_text_bump [of ps2] assms
        apply (simp add: read_json scans_to_in_text)
        apply (rule run_sat_bindI [OF array_loop_sat])
        subgoal by (auto simp: array_pre_def scans_to_def goes_to_def rest_length_def in_text_def)
        apply (clarsimp split del: if_split)
        subgoal for r c t ps3 e3
          apply (cases "r = JSON_DECODER_OK \<and> c = CHR '']''")
          subgoal
            apply simp
            apply (rule run_sat_bindI [OF SkipWhiteSpaces_sat])
             apply (auto simp: loop_post_def rule_post_def node_post_def scans_to_def goes_to_def in_text_def)
            done
          apply (auto simp: loop_post_def rule_post_def node_post_def scans_to_def goes_to_def in_text_def)
          done
        done
      done
  next
    case False
    with 1 assms(2) i1 show ?thesis by (auto simp: read_json intro: rule_post_fail scans_goes)
  qed
qed

end

lemma value_post_token:
  assumes "goes_to ps ps'" "fresh node" "r = JSON_DECODER_OK \<longrightarrow> json ps < json ps'"
    "b < length (buffer ps)"
  shows "value_post ps node (r, Some b, node, ps', e)"
  using assms fresh_node_ok by (simp add: value_post_def node_post_def)

lemma ParseValue_Suc_sat:
  assumes p: "value_parsing t os n (ParseValue n os)"
    and ps0: "in_text ps0" "fresh node" "t \<Longrightarrow> rest_length ps0 < Suc n"
  shows "run_sat t (value_post ps0 node) (ParseValue (Suc n) os ps0 node e)"
  unfolding ParseValue.simps
proof (rule run_sat_bindI [OF SkipWhiteSpaces_sat [OF ps0(1)]], goal_cases)
  case (1 ps)
  have i: "in_text ps" and g: "goes_to ps0 ps" and len: "length (buffer ps) = length (buffer ps0)"
    and j: "json ps0 \<le> json ps" "json ps < length (buffer ps0)"
    using 1 by (auto simp: scans_to_def goes_to_def in_text_def)
  have rest: "t \<Longrightarrow> rest_length ps \<le> n" using ps0(3) j len by (auto simp: rest_length_def)
  have tok: "value_post ps0 node (r, Some (json ps), node, ps', e')"
    if "scans_to ps ps'" "r = JSON_DECODER_OK \<longrightarrow> json ps < json ps'" for r ps' and e' :: 'a
    using that j by (intro value_post_token goes_to_trans [OF g] scans_goes ps0(2)) auto
  have inner: "value_post ps0 node (r, None, node', ps', e')"
    if "rule_post ps node (r, node', ps', e')" for r node' ps' and e' :: 'a
    using rule_post_moved [OF g that] j len
    by (auto simp: value_post_def rule_post_def)
  have lit: "run_sat t (value_post ps0 node) (run_bind (strncmp_eq ps (json ps) lit) (\<lambda>b.
       if b then Done (JSON_DECODER_OK, Some (json ps), node, advance k ps, e) else m))"
    if "run_sat t (value_post ps0 node) m" "NUL \<notin> set lit" "lit \<noteq> []" "k = length lit" for lit m k
    using that tok advance_literal [OF i]
    by (intro run_sat_bindI [OF strncmp_eq_sat [OF i that(2) in_text_less [OF i]]]) auto
  note node = fresh_node_ok [OF ps0(2)]
  show ?case
    unfolding read_json [OF i] run_bind.simps
    apply (split if_split, intro conjI impI)
    subgoal
      by (rule run_sat_bindI [OF ParseString_sat [OF i]]) (auto intro!: tok)
    apply (rule lit, rule lit, rule lit)
              defer
              apply (simp_all) [9]
    apply (split if_split, intro conjI impI)
    subgoal
      apply (rule run_sat_bindI [OF value_parsing.array_sat [OF p i node]])
      using rest ps0(2) inner by (auto simp: fresh_def)
    apply (split if_split, intro conjI impI)
    subgoal
      apply (rule run_sat_bindI [OF value_parsing.object_sat [OF p i node]])
      using rest inner by auto
    apply (split if_split, intro conjI impI)
    subgoal
      by (rule run_sat_bindI [OF ParseNumber_sat [OF i]]) (auto intro!: tok)
    subgoal using node g len by (simp add: value_post_def node_post_def)
    done
qed

lemma ParseValue_parses:
  "(t \<Longrightarrow> memory_available os) \<Longrightarrow> value_parsing t os n (ParseValue n os)"
proof (induction n)
  case 0
  then show ?case by unfold_locales auto
next
  case (Suc n)
  show ?case
    by (intro value_parsing.intro ParseValue_Suc_sat [OF Suc.IH]) (use Suc.prems in auto)
qed

text \<open>
  The two uses of the interface: whatever the environment and the fuel, and with memory
  available and fuel for the text.
\<close>

interpretation safe: value_parsing False os n "ParseValue n os" for os n
  by (rule ParseValue_parses) simp

interpretation terminating: value_parsing "memory_available os" os n "ParseValue n os" for os n
  by (rule ParseValue_parses) simp

lemma ParseObjectOrArray_sat:
  assumes "in_text ps" "fresh node" "t \<Longrightarrow> memory_available os" "t \<Longrightarrow> rest_length ps \<le> n"
  shows "run_sat t (\<lambda>(r, node', ps', e'). node_post ps node node' ps')
    (ParseObjectOrArray n os ps node e)"
  unfolding ParseObjectOrArray_def
proof (rule run_sat_bindI [OF SkipWhiteSpaces_sat [OF assms(1)]], goal_cases)
  case (1 ps1)
  have i: "in_text ps1" and g: "goes_to ps ps1" and len: "length (buffer ps1) = length (buffer ps)"
    using 1 by (auto simp: scans_to_def goes_to_def)
  have rest: "t \<Longrightarrow> rest_length ps1 \<le> n"
    using assms(4) g by (auto simp: rest_length_def goes_to_def)
  note p = ParseValue_parses [of t os n, OF assms(3)]
  have ws: "run_sat t (\<lambda>(r, node', ps', e'). node_post ps node node' ps')
      (run_bind (SkipWhiteSpaces ps') (\<lambda>ps. Done (r, node', ps, e')))"
    if "rule_post ps1 node (r, node', ps', e')" for r node' ps' and e' :: 'a
  proof (rule run_sat_bindI [OF SkipWhiteSpaces_sat])
    show "in_text ps'" using that by (auto simp: rule_post_def node_post_def goes_to_def)
  next
    fix q assume "scans_to ps' q"
    then show "run_sat t (\<lambda>(r, node', ps', e'). node_post ps node node' ps') (Done (r, node', q, e'))"
      using that moved_node_post [OF g] node_post_moved scans_goes by (fastforce simp: rule_post_def)
  qed
  show ?case
    unfolding read_json [OF i] run_bind.simps
    apply (rule run_sat_bindI [where P = "\<lambda>(r, node', ps', e'). node_post ps node node' ps'"])
     apply (split if_split, intro conjI impI)
    subgoal
      apply (rule run_sat_bindI [OF value_parsing.object_sat [OF p i fresh_node_ok [OF assms(2)]]])
      using rest ws by auto
     apply (split if_split, intro conjI impI)
    subgoal
      apply (rule run_sat_bindI [OF value_parsing.array_sat [OF p i fresh_node_ok [OF assms(2)]]])
      using rest ws assms(2) by (auto simp: fresh_def)
    subgoal using g assms(2) fresh_node_ok by (simp add: node_post_def)
    subgoal for x
      by (cases x) (auto simp: node_post_def goes_to_def read_json)
    done
qed

lemma JSONDecoder_sat:
  assumes "last bs = NUL" "bs \<noteq> []" "t \<Longrightarrow> memory_available os" "t \<Longrightarrow> length bs \<le> n"
  shows "run_sat t (\<lambda>(r, tree, bs', e').
       length bs' = length bs
       \<and> (case tree of Some root \<Rightarrow> r = JSON_DECODER_OK \<and> tree_ok (length bs) root
                     | None \<Rightarrow> r \<noteq> JSON_DECODER_OK))
     (JSONDecoder_JSON_To_MultiTree n os (Some bs) mt e)"
proof -
  have i: "in_text \<lparr>json = 0, buffer = bs\<rparr>" using assms by (simp add: in_text_def)
  show ?thesis
  proof (cases "\<not> mt \<or> bs ! 0 = NUL")
    case True
    then show ?thesis using assms(2)
      by (auto simp: JSONDecoder_JSON_To_MultiTree_def read_def)
  next
    case False
    obtain m e1 where c: "MultiTree_Create os (Some NOPCloneFunction) (Some NoFreeFunction) e = (m, e1)"
      by (cases "MultiTree_Create os (Some NOPCloneFunction) (Some NoFreeFunction) e") auto
    show ?thesis
    proof (cases m)
      case None
      then show ?thesis using False assms(2) c
        by (auto simp: JSONDecoder_JSON_To_MultiTree_def read_def)
    next
      case (Some root)
      then have "fresh root" using c
        by (auto simp: MultiTree_Create_def fresh_def Let_def split: prod.splits if_splits)
      from ParseObjectOrArray_sat [where t = t and n = n and e = e1 and os = os, OF i this assms(3)] assms(4) False c Some assms(2)
      show ?thesis
        by (auto simp: JSONDecoder_JSON_To_MultiTree_def read_def ParseJSON_def rest_length_def
            node_post_def goes_to_def node_ok_def elim!: run_sat_bindI)
    qed
  qed
qed

section \<open>Properties\<close>

text \<open>
  C1: On a buffer that ends in a NUL the decoder never reads or writes outside it, whatever the
  text, however memory allocation behaves and however long it runs.
\<close>

theorem JSONDecoder_memory_safe:
  assumes "bs \<noteq> []" "last bs = NUL"
  shows "JSONDecoder_JSON_To_MultiTree n os (Some bs) mt e \<noteq> Fault"
  by (rule run_sat_not_Fault [OF JSONDecoder_sat [where t = False]]) (use assms in auto)

theorem JSONDecoder_memory_safe_witness:
  "JSONDecoder_JSON_To_MultiTree 3 script_os (Some (''[1'' @ [NUL])) True
     (plain_env\<lparr>failing := [1]\<rparr>) \<noteq> Fault"
  by (rule JSONDecoder_memory_safe) simp_all

text \<open>
  C2: When allocation succeeds, the decoder returns: fuel as long as the buffer is enough.
\<close>

theorem JSONDecoder_terminates:
  assumes "bs \<noteq> []" "last bs = NUL" "memory_available os" "length bs \<le> n"
  shows "\<exists>r. JSONDecoder_JSON_To_MultiTree n os (Some bs) mt e = Done r"
  using JSONDecoder_sat [of bs True os n mt e] assms by (auto simp: run_sat_total)

theorem JSONDecoder_terminates_witness:
  "\<exists>r. JSONDecoder_JSON_To_MultiTree 7 happy_os (Some (''[[1,]]'' @ [NUL])) True () = Done r"
  by (rule JSONDecoder_terminates) simp_all

text \<open>
  C3: A tree is returned exactly when the result is OK. In it siblings have distinct non-empty
  names, a node with a value has no children, and every value points into the buffer, which has
  kept its length.
\<close>

theorem JSONDecoder_result_tree:
  assumes "bs \<noteq> []" "last bs = NUL"
    "JSONDecoder_JSON_To_MultiTree n os (Some bs) mt e = Done (r, tree, bs', e')"
  shows "length bs' = length bs
    \<and> (case tree of Some root \<Rightarrow> r = JSON_DECODER_OK \<and> mt_wf root \<and> ptrs_below (length bs) root
                  | None \<Rightarrow> r \<noteq> JSON_DECODER_OK)"
proof -
  have s: "run_sat False (\<lambda>(r, tree, bs', e'). length bs' = length bs
       \<and> (case tree of Some root \<Rightarrow> r = JSON_DECODER_OK \<and> tree_ok (length bs) root
                     | None \<Rightarrow> r \<noteq> JSON_DECODER_OK))
     (JSONDecoder_JSON_To_MultiTree n os (Some bs) mt e)"
    by (rule JSONDecoder_sat) (use assms in auto)
  show ?thesis using s assms(3) by (cases tree) (simp_all add: tree_ok_def)
qed

text \<open>The decoder on a small object, evaluated.\<close>

lemma decode_example:
  "JSONDecoder_JSON_To_MultiTree 12 happy_os (Some (''{'' @ [CHR 0x22] @ ''a'' @ [CHR 0x22] @ '':7}'' @ [NUL])) True ()
     = Done (JSON_DECODER_OK, Some (MTree None None [MTree (Some ''a'') (Some 5) []]),
        ''{'' @ [CHR 0x22] @ ''a'' @ [NUL] @ '':7'' @ [NUL, NUL], ())"
  by code_simp

theorem JSONDecoder_result_tree_witness:
  "length (''{'' @ [CHR 0x22] @ ''a'' @ [NUL] @ '':7'' @ [NUL, NUL])
     = length (''{'' @ [CHR 0x22] @ ''a'' @ [CHR 0x22] @ '':7}'' @ [NUL])
   \<and> mt_wf (MTree None None [MTree (Some ''a'') (Some (5 :: nat)) []])
   \<and> ptrs_below 8 (MTree None None [MTree (Some ''a'') (Some (5 :: nat)) []])"
  using JSONDecoder_result_tree [OF _ _ decode_example] by simp

text \<open>
  An allocation failure inside an array is forgotten: when adding the node of the first
  element fails, the loop goes round again with the next index, and a two-element array is
  decoded, with result OK, to children named 1 and 2.
\<close>

theorem ParseArray_forgets_a_failure:
  "case JSONDecoder_JSON_To_MultiTree 12 script_os (Some (''[7,8]'' @ [NUL])) True
      (plain_env\<lparr>failing := [1]\<rparr>) of
     Done (r, Some t, bs, e) \<Rightarrow>
       r = JSON_DECODER_OK \<and> map mt_name (children t) = [Some ''1'', Some ''2'']
       \<and> map mt_value (children t) = [Some 1, Some 3]
   | _ \<Rightarrow> False"
  by code_simp

text \<open>
  A comma between the members of an object is optional: two members separated by white space
  are decoded like two members separated by a comma.
\<close>

theorem ParseObject_needs_no_comma:
  "case JSONDecoder_JSON_To_MultiTree 20 happy_os
      (Some (''{'' @ [CHR 0x22] @ ''a'' @ [CHR 0x22] @ '':1 '' @ [CHR 0x22] @ ''b'' @ [CHR 0x22] @ '':2}''
         @ [NUL])) True () of
     Done (r, Some t, bs, e) \<Rightarrow>
       r = JSON_DECODER_OK \<and> map mt_name (children t) = [Some ''a'', Some ''b'']
       \<and> map mt_value (children t) = [Some 5, Some 11]
   | _ \<Rightarrow> False"
  by code_simp

end
