(* ===== verification/JsonEncoder.thy ===== *)
theory JsonEncoder
  imports MultiTree
begin

text \<open>
  The JSON encoder of the serializer (serializer/src/jsonencoder.c): it prints a multi tree into
  a STRING\_HANDLE, the values by a function of the caller. The strings are those of the shared
  utility library, an argument of the model (\<^typ>\<open>('st, 'e) string_api\<close>) with their documented
  behaviour as the hypothesis \<open>string_laws\<close>. The text of a tree is defined independently of
  the code, and the code is shown to append it, or to fail for a stated reason.
\<close>

section \<open>Data\<close>

datatype JSON_ENCODER_RESULT =
  JSON_ENCODER_OK | JSON_ENCODER_INVALID_ARG | JSON_ENCODER_ALREADY_EXISTS
| JSON_ENCODER_MULTITREE_ERROR | JSON_ENCODER_TOSTRING_FUNCTION_ERROR | JSON_ENCODER_ERROR

datatype JSON_ENCODER_TOSTRING_RESULT =
  JSON_ENCODER_TOSTRING_OK | JSON_ENCODER_TOSTRING_INVALID_ARG | JSON_ENCODER_TOSTRING_ERROR

type_synonym ('st, 'v, 'e) tostring_func =
  "'st \<Rightarrow> 'v \<Rightarrow> 'e \<Rightarrow> JSON_ENCODER_TOSTRING_RESULT \<times> 'st \<times> 'e"

text \<open>STRING\_concat and STRING\_concat\_with\_STRING, keeping the string when they fail.\<close>

definition concat_to ::
  "('st, 'e, 'm) string_api_scheme \<Rightarrow> 'st \<Rightarrow> string \<Rightarrow> 'e \<Rightarrow> bool \<times> 'st \<times> 'e" where
  "concat_to api s x e =
     (case STRING_concat api s x e of (None, e) \<Rightarrow> (False, s, e) | (Some s, e) \<Rightarrow> (True, s, e))"

definition concat_string_to ::
  "('st, 'e, 'm) string_api_scheme \<Rightarrow> 'st \<Rightarrow> 'st \<Rightarrow> 'e \<Rightarrow> bool \<times> 'st \<times> 'e" where
  "concat_string_to api s x e =
     (case STRING_concat_with_STRING api s x e of
        (None, e) \<Rightarrow> (False, s, e) | (Some s, e) \<Rightarrow> (True, s, e))"

section \<open>Operations\<close>

text \<open>
  The first half of the loop body: the separator, the quoted name and the colon. It fetches the
  child on the way.
\<close>

definition EncodeName ::
  "('st, 'e, 'm) string_api_scheme \<Rightarrow> 'v mtree \<Rightarrow> nat \<Rightarrow> 'st \<Rightarrow> 'e
     \<Rightarrow> JSON_ENCODER_RESULT \<times> 'v mtree option \<times> 'st \<times> 'e" where
  "EncodeName api t i dest e =
     (case (if 0 < i then concat_to api dest '', '' e else (True, dest, e)) of (ok, dest, e) \<Rightarrow>
      if \<not> ok then (JSON_ENCODER_ERROR, None, dest, e)
      else (case concat_to api dest [CHR 0x22] e of (ok, dest, e) \<Rightarrow>
      if \<not> ok then (JSON_ENCODER_ERROR, None, dest, e)
      else (case STRING_new api e of
        (None, e) \<Rightarrow> (JSON_ENCODER_ERROR, None, dest, e)
      | (Some name, e) \<Rightarrow>
          (case MultiTree_GetChild (Some t) i True of (r, child) \<Rightarrow>
           if r \<noteq> MULTITREE_OK then (JSON_ENCODER_MULTITREE_ERROR, None, dest, e)
           else (case MultiTree_GetName api child (Some name) e of
             (r, name, e) \<Rightarrow>
           if r \<noteq> MULTITREE_OK then (JSON_ENCODER_MULTITREE_ERROR, None, dest, e)
           else (case concat_string_to api dest (the name) e of (ok, dest, e) \<Rightarrow>
           if \<not> ok then (JSON_ENCODER_ERROR, None, dest, e)
           else (case concat_to api dest [CHR 0x22, CHR '':''] e of (ok, dest, e) \<Rightarrow>
           if \<not> ok then (JSON_ENCODER_ERROR, None, dest, e)
           else (JSON_ENCODER_OK, child, dest, e))))))))"

text \<open>The second half for a child without children: its value.\<close>

definition EncodeValue ::
  "('st, 'e, 'm) string_api_scheme \<Rightarrow> ('st, 'v, 'e) tostring_func \<Rightarrow> 'v mtree \<Rightarrow> 'st \<Rightarrow> 'e
     \<Rightarrow> JSON_ENCODER_RESULT \<times> 'st \<times> 'e" where
  "EncodeValue api toStringFunc child dest e =
     (case MultiTree_GetValue (Some child) True of (r, v) \<Rightarrow>
      if r \<noteq> MULTITREE_OK then (JSON_ENCODER_MULTITREE_ERROR, dest, e)
      else (case STRING_new api e of
        (None, e) \<Rightarrow> (JSON_ENCODER_ERROR, dest, e)
      | (Some childValue, e) \<Rightarrow>
          (case toStringFunc childValue (the v) e of (r, childValue, e) \<Rightarrow>
           if r \<noteq> JSON_ENCODER_TOSTRING_OK then (JSON_ENCODER_TOSTRING_FUNCTION_ERROR, dest, e)
           else (case concat_string_to api dest childValue e of (ok, dest, e) \<Rightarrow>
           if \<not> ok then (JSON_ENCODER_ERROR, dest, e)
           else (JSON_ENCODER_OK, dest, e)))))"

lemma EncodeName_child:
  "EncodeName api t i dest e = (JSON_ENCODER_OK, c, dest', e') \<Longrightarrow>
     i < length (children t) \<and> c = Some (children t ! i)"
  by (auto simp: EncodeName_def MultiTree_GetChild_def split: prod.splits option.splits if_splits)

lemma mtree_child_size: "c \<in> set (children t) \<Longrightarrow> size c < size t"
  by (cases t) (auto simp: less_Suc_eq_le intro: size_list_estimation' le_SucI trans_le_add2)

text \<open>
  JSONEncoder\_EncodeTree on a tree that is not NULL, and its loop over the children from index
  \<open>i\<close>; a child with children goes through a recursive call into a new string.
\<close>

function (sequential) EncodeNode ::
  "('st, 'e, 'm) string_api_scheme \<Rightarrow> ('st, 'v, 'e) tostring_func \<Rightarrow> 'v mtree \<Rightarrow> 'st \<Rightarrow> 'e
     \<Rightarrow> JSON_ENCODER_RESULT \<times> 'st \<times> 'e"
  and EncodeLoop ::
  "('st, 'e, 'm) string_api_scheme \<Rightarrow> ('st, 'v, 'e) tostring_func \<Rightarrow> 'v mtree \<Rightarrow> nat \<Rightarrow> 'st \<Rightarrow> 'e
     \<Rightarrow> JSON_ENCODER_RESULT \<times> 'st \<times> 'e" where
  "EncodeNode api toStringFunc t dest e =
     (case MultiTree_GetChildCount (Some t) True of (r, childCount) \<Rightarrow>
      if r \<noteq> MULTITREE_OK then (JSON_ENCODER_MULTITREE_ERROR, dest, e)
      else (case concat_to api dest ''{'' e of (ok, dest, e) \<Rightarrow>
      if \<not> ok then (JSON_ENCODER_ERROR, dest, e)
      else (case EncodeLoop api toStringFunc t 0 dest e of (result, dest, e) \<Rightarrow>
      if result = JSON_ENCODER_OK then
        (case concat_to api dest ''}'' e of (ok, dest, e) \<Rightarrow>
           (if \<not> ok then JSON_ENCODER_ERROR else JSON_ENCODER_OK, dest, e))
      else (result, dest, e))))"
| "EncodeLoop api toStringFunc t i dest e =
     (if i < length (children t) then
        (case EncodeName api t i dest e of (result, child, dest, e) \<Rightarrow>
         if result \<noteq> JSON_ENCODER_OK then (result, dest, e)
         else (case MultiTree_GetChildCount child True of (r, innerChildCount) \<Rightarrow>
         if r \<noteq> MULTITREE_OK then (JSON_ENCODER_MULTITREE_ERROR, dest, e)
         else
           (case (if 0 < the innerChildCount then
                    (case STRING_new api e of
                       (None, e) \<Rightarrow> (JSON_ENCODER_ERROR, dest, e)
                     | (Some s, e) \<Rightarrow>
                         (case EncodeNode api toStringFunc (the child) s e of (result, s, e) \<Rightarrow>
                          if result \<noteq> JSON_ENCODER_OK then (result, dest, e)
                          else (case concat_string_to api dest s e of (ok, dest, e) \<Rightarrow>
                                  (if \<not> ok then JSON_ENCODER_ERROR else result, dest, e))))
                  else EncodeValue api toStringFunc (the child) dest e) of (result, dest, e) \<Rightarrow>
            if result \<noteq> JSON_ENCODER_OK then (result, dest, e)
            else EncodeLoop api toStringFunc t (Suc i) dest e)))
      else (JSON_ENCODER_OK, dest, e))"
  by pat_completeness auto

termination
proof (relation "inv_image (less_than <*lex*> less_than)
    (\<lambda>x. case x of Inl (api, f, t, d, e) \<Rightarrow> (size t, Suc (length (children t)))
                | Inr (api, f, t, i, d, e) \<Rightarrow> (size t, length (children t) - i))", goal_cases)
  case 3
  then show ?case by (auto dest!: EncodeName_child [OF sym] intro!: mtree_child_size)
qed auto

definition JSONEncoder_EncodeTree ::
  "('st, 'e, 'm) string_api_scheme \<Rightarrow> 'v mtree option \<Rightarrow> 'st option
     \<Rightarrow> ('st, 'v, 'e) tostring_func option \<Rightarrow> 'e \<Rightarrow> JSON_ENCODER_RESULT \<times> 'st option \<times> 'e" where
  "JSONEncoder_EncodeTree api treeHandle destination toStringFunc e =
     (case (treeHandle, destination, toStringFunc) of
        (Some t, Some dest, Some f) \<Rightarrow>
          (case EncodeNode api f t dest e of (result, dest, e) \<Rightarrow> (result, Some dest, e))
      | _ \<Rightarrow> (JSON_ENCODER_INVALID_ARG, destination, e))"

definition JSONEncoder_CharPtr_ToString ::
  "('st, 'e, 'm) string_api_scheme \<Rightarrow> 'st option \<Rightarrow> string option \<Rightarrow> 'e
     \<Rightarrow> JSON_ENCODER_TOSTRING_RESULT \<times> 'st option \<times> 'e" where
  "JSONEncoder_CharPtr_ToString api destination v e =
     (case (destination, v) of
        (Some dest, Some s) \<Rightarrow>
          (case STRING_concat api dest s e of
             (None, e) \<Rightarrow> (JSON_ENCODER_TOSTRING_ERROR, destination, e)
           | (Some dest, e) \<Rightarrow> (JSON_ENCODER_TOSTRING_OK, Some dest, e))
      | _ \<Rightarrow> (JSON_ENCODER_TOSTRING_INVALID_ARG, destination, e))"

text \<open>The conversion function for trees of C strings, as the code's callers pass it.\<close>

definition charptr_tostring ::
  "('st, 'e, 'm) string_api_scheme \<Rightarrow> ('st, string, 'e) tostring_func" where
  "charptr_tostring api dest v e =
     (case JSONEncoder_CharPtr_ToString api (Some dest) (Some v) e of (r, d, e) \<Rightarrow> (r, the d, e))"


declare EncodeNode.simps [simp del] EncodeLoop.simps [simp del]

section \<open>The text of a tree\<close>

text \<open>
  Independently of the code: the children in order, each as its quoted name, a colon and its
  text, which is the value for a leaf. A name is printed as it is, without escapes.
\<close>

fun tree_text :: "('v \<Rightarrow> string) \<Rightarrow> 'v mtree \<Rightarrow> string"
  and child_text :: "('v \<Rightarrow> string) \<Rightarrow> 'v mtree \<Rightarrow> string"
  and children_text :: "('v \<Rightarrow> string) \<Rightarrow> bool \<Rightarrow> 'v mtree list \<Rightarrow> string" where
  "tree_text p (MTree n v cs) = ''{'' @ children_text p True cs @ ''}''"
| "child_text p (MTree n v cs) =
     [CHR 0x22] @ the n @ [CHR 0x22, CHR '':'']
     @ (if cs = [] then p (the v) else ''{'' @ children_text p True cs @ ''}'')"
| "children_text p first [] = []"
| "children_text p first (c # cs) =
     (if first then [] else '', '') @ child_text p c @ children_text p False cs"

text \<open>The trees that have a text: every child has a name, and a value when it is a leaf.\<close>

fun encodable_child :: "'v mtree \<Rightarrow> bool" where
  "encodable_child (MTree n v cs) \<longleftrightarrow>
     n \<noteq> None \<and> (cs = [] \<longrightarrow> v \<noteq> None) \<and> (\<forall>c \<in> set cs. encodable_child c)"

definition encodable :: "'v mtree \<Rightarrow> bool" where
  "encodable t \<longleftrightarrow> (\<forall>c \<in> set (children t). encodable_child c)"

text \<open>
  The documented behaviour of the strings of the shared utility library, and of the function
  that prints a value; \<open>never_fails\<close> says that none of them runs out of memory.
\<close>

definition string_laws :: "('st, 'e, 'm) string_api_scheme \<Rightarrow> bool" where
  "string_laws api \<longleftrightarrow>
     (\<forall>e s e'. STRING_new api e = (Some s, e') \<longrightarrow> STRING_c_str api s = [])
     \<and> (\<forall>s x e s' e'. STRING_concat api s x e = (Some s', e')
           \<longrightarrow> STRING_c_str api s' = STRING_c_str api s @ x)
     \<and> (\<forall>s x e s' e'. STRING_concat_with_STRING api s x e = (Some s', e')
           \<longrightarrow> STRING_c_str api s' = STRING_c_str api s @ STRING_c_str api x)"

definition prints ::
  "('st, 'e, 'm) string_api_scheme \<Rightarrow> ('st, 'v, 'e) tostring_func \<Rightarrow> ('v \<Rightarrow> string) \<Rightarrow> bool" where
  "prints api f p \<longleftrightarrow>
     (\<forall>s v e s' e'. f s v e = (JSON_ENCODER_TOSTRING_OK, s', e')
        \<longrightarrow> STRING_c_str api s' = STRING_c_str api s @ p v)"

definition never_fails ::
  "('st, 'e, 'm) string_api_scheme \<Rightarrow> ('st, 'v, 'e) tostring_func \<Rightarrow> bool" where
  "never_fails api f \<longleftrightarrow>
     (\<forall>e. fst (STRING_new api e) \<noteq> None) \<and> (\<forall>s x e. fst (STRING_concat api s x e) \<noteq> None)
     \<and> (\<forall>s x e. fst (STRING_concat_with_STRING api s x e) \<noteq> None)
     \<and> (\<forall>s v e. fst (f s v e) = JSON_ENCODER_TOSTRING_OK)"

lemma STRING_new_OK:
  "string_laws api \<Longrightarrow> STRING_new api e = (Some s, e') \<Longrightarrow> STRING_c_str api s = []"
  unfolding string_laws_def by blast

lemma STRING_concat_OK:
  "string_laws api \<Longrightarrow> STRING_concat api s x e = (Some s', e')
     \<Longrightarrow> STRING_c_str api s' = STRING_c_str api s @ x"
  unfolding string_laws_def by blast

lemma STRING_concat_with_STRING_OK:
  "string_laws api \<Longrightarrow> STRING_concat_with_STRING api s x e = (Some s', e')
     \<Longrightarrow> STRING_c_str api s' = STRING_c_str api s @ STRING_c_str api x"
  unfolding string_laws_def by blast

lemma concat_to_OK:
  "string_laws api \<Longrightarrow> concat_to api s x e = (True, s', e')
     \<Longrightarrow> STRING_c_str api s' = STRING_c_str api s @ x"
  by (auto simp: concat_to_def STRING_concat_OK split: prod.splits option.splits)

lemma concat_string_to_OK:
  "string_laws api \<Longrightarrow> concat_string_to api s x e = (True, s', e')
     \<Longrightarrow> STRING_c_str api s' = STRING_c_str api s @ STRING_c_str api x"
  by (auto simp: concat_string_to_def STRING_concat_with_STRING_OK split: prod.splits option.splits)

lemma GetName_OK:
  assumes "string_laws api" "MultiTree_GetName api (Some c) (Some s) e = (MULTITREE_OK, s', e')"
  shows "mt_name c \<noteq> None \<and> STRING_c_str api (the s') = STRING_c_str api s @ the (mt_name c)"
  using assms by (auto simp: MultiTree_GetName_def STRING_concat_OK split: prod.splits option.splits)

lemma EncodeName_OK:
  assumes "string_laws api" "EncodeName api t i dest e = (JSON_ENCODER_OK, c, dest', e')"
  shows "i < length (children t)" "c = Some (children t ! i)"
    "mt_name (children t ! i) \<noteq> None"
    "STRING_c_str api dest' = STRING_c_str api dest @ (if i = 0 then [] else '', '')
       @ [CHR 0x22] @ the (mt_name (children t ! i)) @ [CHR 0x22, CHR '':'']"
proof -
  show i: "i < length (children t)" and c: "c = Some (children t ! i)"
    using EncodeName_child [OF assms(2)] by auto
  show "mt_name (children t ! i) \<noteq> None"
    using assms(2) by (auto simp: EncodeName_def MultiTree_GetChild_def MultiTree_GetName_def
        split: prod.splits option.splits if_splits)
  show "STRING_c_str api dest' = STRING_c_str api dest @ (if i = 0 then [] else '', '')
       @ [CHR 0x22] @ the (mt_name (children t ! i)) @ [CHR 0x22, CHR '':'']"
    using assms(2) i
    by (auto simp: EncodeName_def MultiTree_GetChild_def
        split: prod.splits option.splits if_splits
        dest!: concat_to_OK [OF assms(1)] concat_string_to_OK [OF assms(1)]
          STRING_new_OK [OF assms(1)] GetName_OK [OF assms(1)])
qed

lemma prints_OK:
  "prints api f p \<Longrightarrow> f s v e = (JSON_ENCODER_TOSTRING_OK, s', e')
     \<Longrightarrow> STRING_c_str api s' = STRING_c_str api s @ p v"
  unfolding prints_def by blast

lemma EncodeValue_OK:
  assumes "string_laws api" "prints api f p" "EncodeValue api f c dest e = (JSON_ENCODER_OK, dest', e')"
  shows "mt_value c \<noteq> None \<and> STRING_c_str api dest' = STRING_c_str api dest @ p (the (mt_value c))"
  using assms(3)
  by (auto simp: EncodeValue_def MultiTree_GetValue_def
      split: prod.splits option.splits if_splits
      dest!: concat_string_to_OK [OF assms(1)] STRING_new_OK [OF assms(1)] prints_OK [OF assms(2)])

lemma tree_text_children: "tree_text p t = ''{'' @ children_text p True (children t) @ ''}''"
  by (cases t) simp

lemma child_text_eq:
  "child_text p c = [CHR 0x22] @ the (mt_name c) @ [CHR 0x22, CHR '':'']
     @ (if children c = [] then p (the (mt_value c)) else tree_text p c)"
  by (cases c) simp

lemma encodable_child_iff:
  "encodable_child c \<longleftrightarrow> mt_name c \<noteq> None \<and> (children c = [] \<longrightarrow> mt_value c \<noteq> None) \<and> encodable c"
  by (cases c) (auto simp: encodable_def)


text \<open>The loop body after the name, as one step, so that the two recursions can be read apart.\<close>

definition encode_child ::
  "('st, 'e, 'm) string_api_scheme \<Rightarrow> ('st, 'v, 'e) tostring_func \<Rightarrow> 'v mtree \<Rightarrow> 'st \<Rightarrow> 'e
     \<Rightarrow> JSON_ENCODER_RESULT \<times> 'st \<times> 'e" where
  "encode_child api f c dest e =
     (if children c \<noteq> [] then
        (case STRING_new api e of
           (None, e) \<Rightarrow> (JSON_ENCODER_ERROR, dest, e)
         | (Some s, e) \<Rightarrow>
             (case EncodeNode api f c s e of (result, s, e) \<Rightarrow>
              if result \<noteq> JSON_ENCODER_OK then (result, dest, e)
              else (case concat_string_to api dest s e of (ok, dest, e) \<Rightarrow>
                      (if \<not> ok then JSON_ENCODER_ERROR else result, dest, e))))
      else EncodeValue api f c dest e)"

lemma EncodeLoop_step:
  assumes "i < length (children t)"
  shows "EncodeLoop api f t i dest e =
     (case EncodeName api t i dest e of (result, child, dest, e) \<Rightarrow>
      if result \<noteq> JSON_ENCODER_OK then (result, dest, e)
      else (case encode_child api f (children t ! i) dest e of (result, dest, e) \<Rightarrow>
            if result \<noteq> JSON_ENCODER_OK then (result, dest, e)
            else EncodeLoop api f t (Suc i) dest e))"
proof -
  obtain r c d1 e1 where n: "EncodeName api t i dest e = (r, c, d1, e1)"
    by (cases "EncodeName api t i dest e") auto
  show ?thesis
  proof (cases "r = JSON_ENCODER_OK")
    case True
    then have "c = Some (children t ! i)" using n EncodeName_child by fastforce
    with True n assms show ?thesis
      by (subst EncodeLoop.simps)
        (simp add: encode_child_def MultiTree_GetChildCount_def
          cong del: option.case_cong_weak prod.case_cong_weak if_weak_cong)
  next
    case False
    with n assms show ?thesis by (subst EncodeLoop.simps) simp
  qed
qed

lemma EncodeLoop_end: "\<not> i < length (children t) \<Longrightarrow> EncodeLoop api f t i dest e = (JSON_ENCODER_OK, dest, e)"
  by (subst EncodeLoop.simps) simp

lemma EncodeNode_eq:
  "EncodeNode api f t dest e =
     (case concat_to api dest ''{'' e of (ok, dest, e) \<Rightarrow>
      if \<not> ok then (JSON_ENCODER_ERROR, dest, e)
      else (case EncodeLoop api f t 0 dest e of (result, dest, e) \<Rightarrow>
      if result = JSON_ENCODER_OK then
        (case concat_to api dest ''}'' e of (ok, dest, e) \<Rightarrow>
           (if \<not> ok then JSON_ENCODER_ERROR else JSON_ENCODER_OK, dest, e))
      else (result, dest, e)))"
  by (subst EncodeNode.simps) (simp add: MultiTree_GetChildCount_def)

text \<open>A property of nodes follows from the same property of what the loop does from any index.\<close>

lemma encode_induct [case_names node loop]:
  assumes node: "\<And>t. (\<And>i. P_loop t i) \<Longrightarrow> P t"
    and loop: "\<And>t i. (i < length (children t) \<Longrightarrow> P (children t ! i) \<and> P_loop t (Suc i)) \<Longrightarrow> P_loop t i"
  shows "P t"
proof (induction t rule: measure_induct_rule [of size])
  case (less t)
  have "P_loop t (length (children t) - k)" for k
  proof (induction k)
    case 0
    then show ?case by (intro loop) simp
  next
    case (Suc k)
    show ?case
    proof (cases "k < length (children t)")
      case True
      then have "Suc (length (children t) - Suc k) = length (children t) - k" by simp
      with Suc show ?thesis
        by (intro loop) (simp add: less mtree_child_size)
    next
      case False
      then have "length (children t) - Suc k = length (children t) - k" by simp
      with Suc show ?thesis by (simp only:)
    qed
  qed
  moreover have "P_loop t i" if "length (children t) < i" for i
    by (intro loop) (use that in simp)
  ultimately have "P_loop t i" for i
    by (metis diff_diff_cancel not_less)
  then show ?case by (rule node)
qed

lemma encode_child_OK:
  assumes "string_laws api" "prints api f p"
    and IH: "\<And>s e s' e'. EncodeNode api f c s e = (JSON_ENCODER_OK, s', e')
        \<Longrightarrow> encodable c \<and> STRING_c_str api s' = STRING_c_str api s @ tree_text p c"
    and "encode_child api f c dest e = (JSON_ENCODER_OK, dest', e')"
  shows "(children c = [] \<longrightarrow> mt_value c \<noteq> None) \<and> encodable c
    \<and> STRING_c_str api dest' = STRING_c_str api dest
        @ (if children c = [] then p (the (mt_value c)) else tree_text p c)"
proof (cases "children c = []")
  case True
  with assms(4) EncodeValue_OK [OF assms(1,2)] show ?thesis
    by (auto simp: encode_child_def encodable_def)
next
  case False
  with assms(4) show ?thesis
    by (auto simp: encode_child_def split: prod.splits option.splits if_splits
        dest!: IH concat_string_to_OK [OF assms(1)] STRING_new_OK [OF assms(1)])
qed

lemma EncodeNode_text:
  assumes "string_laws api" "prints api f p"
  shows "EncodeNode api f t dest e = (JSON_ENCODER_OK, dest', e')
    \<Longrightarrow> encodable t \<and> STRING_c_str api dest' = STRING_c_str api dest @ tree_text p t"
proof (induction t arbitrary: dest e dest' e' rule: encode_induct
    [where P_loop = "\<lambda>t i. \<forall>dest e dest' e'. EncodeLoop api f t i dest e = (JSON_ENCODER_OK, dest', e')
       \<longrightarrow> (\<forall>c \<in> set (drop i (children t)). encodable_child c)
         \<and> STRING_c_str api dest' = STRING_c_str api dest @ children_text p (i = 0) (drop i (children t))"])
  case (node t)
  have L: "encodable t \<and> STRING_c_str api d2 = STRING_c_str api d1 @ children_text p True (children t)"
    if "EncodeLoop api f t 0 d1 e1 = (JSON_ENCODER_OK, d2, e2)" for d1 e1 d2 e2
    using node(1) [of 0] that unfolding encodable_def by auto
  from node(2) show ?case
    by (auto simp: EncodeNode_eq tree_text_children
        split: prod.splits if_splits dest!: L concat_to_OK [OF assms(1)])
next
  case (loop t i)
  show ?case
  proof (intro allI impI, cases "i < length (children t)")
    fix dest e dest' e'
    assume run: "EncodeLoop api f t i dest e = (JSON_ENCODER_OK, dest', e')" and i: "i < length (children t)"
    have d: "drop i (children t) = children t ! i # drop (Suc i) (children t)"
      using i by (simp add: Cons_nth_drop_Suc)
    obtain r c d1 e1 where n: "EncodeName api t i dest e = (r, c, d1, e1)"
      by (cases "EncodeName api t i dest e") auto
    with run have r: "r = JSON_ENCODER_OK" by (auto simp: EncodeLoop_step [OF i] split: if_splits)
    obtain r2 d2 e2 where v: "encode_child api f (children t ! i) d1 e1 = (r2, d2, e2)"
      by (cases "encode_child api f (children t ! i) d1 e1") auto
    with run n r have r2: "r2 = JSON_ENCODER_OK"
      and rest: "EncodeLoop api f t (Suc i) d2 e2 = (JSON_ENCODER_OK, dest', e')"
      by (auto simp: EncodeLoop_step [OF i] split: if_splits)
    note N = EncodeName_OK [OF assms(1) n [unfolded r]]
    have IHc: "encodable (children t ! i)
        \<and> STRING_c_str api s' = STRING_c_str api s @ tree_text p (children t ! i)"
      if "EncodeNode api f (children t ! i) s e = (JSON_ENCODER_OK, s', e')" for s e s' e'
      using loop i that by blast
    have IHl: "(\<forall>c \<in> set (drop (Suc i) (children t)). encodable_child c)
        \<and> STRING_c_str api dest' = STRING_c_str api d2 @ children_text p False (drop (Suc i) (children t))"
      using loop [OF i, THEN conjunct2, THEN spec, THEN spec, THEN spec, THEN spec, THEN mp, OF rest]
      by simp
    obtain k where k: "k = children t ! i" by blast
    have V: "(children k = [] \<longrightarrow> mt_value k \<noteq> None) \<and> encodable k
        \<and> STRING_c_str api d2 = STRING_c_str api d1
            @ (if children k = [] then p (the (mt_value k)) else tree_text p k)"
      using encode_child_OK [OF assms IHc v [unfolded r2]] unfolding k .
    have N': "mt_name k \<noteq> None" "STRING_c_str api d1 = STRING_c_str api dest
        @ (if i = 0 then [] else '', '') @ [CHR 0x22] @ the (mt_name k) @ [CHR 0x22, CHR '':'']"
      using N(3,4) unfolding k by auto
    have T: "STRING_c_str api dest' = STRING_c_str api dest @ children_text p (i = 0) (drop i (children t))"
      unfolding d k [symmetric] using V N' IHl by (simp add: child_text_eq)
    have E: "encodable_child k" using V N'(1) encodable_child_iff by blast
    from T E IHl show "(\<forall>c \<in> set (drop i (children t)). encodable_child c)
        \<and> STRING_c_str api dest' = STRING_c_str api dest @ children_text p (i = 0) (drop i (children t))"
      by (auto simp: d k)
  qed (auto simp: EncodeLoop_end)
qed

subsection \<open>When nothing runs out of memory\<close>

lemma never_failsD:
  assumes "never_fails api f"
  shows "\<exists>s e'. STRING_new api e = (Some s, e')"
    "\<exists>s' e'. concat_to api s x e = (True, s', e')"
    "\<exists>s' e'. concat_string_to api s y e = (True, s', e')"
    "\<exists>s' e'. STRING_concat api s x e = (Some s', e')"
    "\<exists>s' e'. f s v e = (JSON_ENCODER_TOSTRING_OK, s', e')"
proof -
  have n: "fst (STRING_new api e) \<noteq> None" "fst (STRING_concat api s x e) \<noteq> None"
    "fst (STRING_concat_with_STRING api s y e) \<noteq> None" "fst (f s v e) = JSON_ENCODER_TOSTRING_OK"
    using assms by (simp_all add: never_fails_def)
  show "\<exists>s e'. STRING_new api e = (Some s, e')" using n(1) by (cases "STRING_new api e") auto
  show c: "\<exists>s' e'. STRING_concat api s x e = (Some s', e')"
    using n(2) by (cases "STRING_concat api s x e") auto
  then show "\<exists>s' e'. concat_to api s x e = (True, s', e')" by (auto simp: concat_to_def)
  show "\<exists>s' e'. concat_string_to api s y e = (True, s', e')"
    using n(3) by (cases "STRING_concat_with_STRING api s y e") (auto simp: concat_string_to_def)
  show "\<exists>s' e'. f s v e = (JSON_ENCODER_TOSTRING_OK, s', e')"
    using n(4) by (cases "f s v e") auto
qed

lemma EncodeName_never_fails:
  assumes "never_fails api f" "i < length (children t)"
  shows "fst (EncodeName api t i dest e) =
    (if mt_name (children t ! i) = None then JSON_ENCODER_MULTITREE_ERROR else JSON_ENCODER_OK)"
proof -
  note nf = never_failsD [OF assms(1)]
  obtain d1 e1 where 1: "(if 0 < i then concat_to api dest '', '' e else (True, dest, e)) = (True, d1, e1)"
    using nf(2) [of dest "'', ''" e] by (cases "0 < i") auto
  obtain d2 e2 where 2: "concat_to api d1 [CHR 0x22] e1 = (True, d2, e2)" using nf(2) by blast
  obtain s e3 where 3: "STRING_new api e2 = (Some s, e3)" using nf(1) by blast
  show ?thesis
  proof (cases "mt_name (children t ! i)")
    case None
    then show ?thesis using assms(2) 1 2 3
      by (simp add: EncodeName_def MultiTree_GetChild_def MultiTree_GetName_def)
  next
    case (Some n)
    obtain s' e4 where 4: "STRING_concat api s n e3 = (Some s', e4)" using nf(4) by blast
    obtain d3 e5 where 5: "concat_string_to api d2 s' e4 = (True, d3, e5)" using nf(3) by blast
    obtain d4 e6 where 6: "concat_to api d3 [CHR 0x22, CHR '':''] e5 = (True, d4, e6)" using nf(2) by blast
    show ?thesis using Some assms(2) 1 2 3 4 5 6
      by (simp add: EncodeName_def MultiTree_GetChild_def MultiTree_GetName_def)
  qed
qed

lemma EncodeValue_never_fails:
  assumes "never_fails api f"
  shows "fst (EncodeValue api f c dest e) =
    (if mt_value c = None then JSON_ENCODER_MULTITREE_ERROR else JSON_ENCODER_OK)"
proof (cases "mt_value c")
  case None
  then show ?thesis by (simp add: EncodeValue_def MultiTree_GetValue_def)
next
  case (Some v)
  note nf = never_failsD [OF assms]
  obtain s e1 where 1: "STRING_new api e = (Some s, e1)" using nf(1) by blast
  obtain s' e2 where 2: "f s v e1 = (JSON_ENCODER_TOSTRING_OK, s', e2)" using nf(5) by blast
  obtain d e3 where 3: "concat_string_to api dest s' e2 = (True, d, e3)" using nf(3) by blast
  show ?thesis using Some 1 2 3 by (simp add: EncodeValue_def MultiTree_GetValue_def)
qed

lemma encode_child_never_fails:
  assumes "never_fails api f"
    and IH: "\<And>s e. fst (EncodeNode api f c s e) =
      (if encodable c then JSON_ENCODER_OK else JSON_ENCODER_MULTITREE_ERROR)"
  shows "fst (encode_child api f c dest e) =
    (if (children c = [] \<longrightarrow> mt_value c \<noteq> None) \<and> encodable c
     then JSON_ENCODER_OK else JSON_ENCODER_MULTITREE_ERROR)"
proof (cases "children c = []")
  case True
  then show ?thesis by (simp add: encode_child_def EncodeValue_never_fails [OF assms(1)] encodable_def)
next
  case False
  note nf = never_failsD [OF assms(1)]
  obtain s e1 where 1: "STRING_new api e = (Some s, e1)" using nf(1) by blast
  obtain r s' e2 where 2: "EncodeNode api f c s e1 = (r, s', e2)" by (cases "EncodeNode api f c s e1") auto
  obtain d e3 where 3: "concat_string_to api dest s' e2 = (True, d, e3)" using nf(3) by blast
  show ?thesis using False 1 2 3 IH [of s e1] by (simp add: encode_child_def)
qed

lemma EncodeNode_never_fails:
  assumes "never_fails api f"
  shows "fst (EncodeNode api f t dest e) =
    (if encodable t then JSON_ENCODER_OK else JSON_ENCODER_MULTITREE_ERROR)"
proof (induction t arbitrary: dest e rule: encode_induct
    [where P_loop = "\<lambda>t i. \<forall>dest e. fst (EncodeLoop api f t i dest e) =
       (if (\<forall>c \<in> set (drop i (children t)). encodable_child c)
        then JSON_ENCODER_OK else JSON_ENCODER_MULTITREE_ERROR)"])
  case (node t)
  note nf = never_failsD [OF assms]
  obtain d1 e1 where 1: "concat_to api dest ''{'' e = (True, d1, e1)" using nf(2) by blast
  obtain r d2 e2 where 2: "EncodeLoop api f t 0 d1 e1 = (r, d2, e2)"
    by (cases "EncodeLoop api f t 0 d1 e1") auto
  obtain d3 e3 where 3: "concat_to api d2 ''}'' e2 = (True, d3, e3)" using nf(2) by blast
  have "r = (if encodable t then JSON_ENCODER_OK else JSON_ENCODER_MULTITREE_ERROR)"
    using node [of 0, rule_format, of d1 e1] 2 by (simp add: encodable_def)
  then show ?case by (simp add: EncodeNode_eq 1 2 3)
next
  case (loop t i)
  show ?case
  proof (intro allI, cases "i < length (children t)")
    fix dest e assume i: "i < length (children t)"
    have d: "drop i (children t) = children t ! i # drop (Suc i) (children t)"
      using i by (simp add: Cons_nth_drop_Suc)
    obtain r c d1 e1 where n: "EncodeName api t i dest e = (r, c, d1, e1)"
      by (cases "EncodeName api t i dest e") auto
    obtain r2 d2 e2 where v: "encode_child api f (children t ! i) d1 e1 = (r2, d2, e2)"
      by (cases "encode_child api f (children t ! i) d1 e1") auto
    have IHc: "\<And>s e. fst (EncodeNode api f (children t ! i) s e) =
        (if encodable (children t ! i) then JSON_ENCODER_OK else JSON_ENCODER_MULTITREE_ERROR)"
      using loop [OF i] by blast
    have IHl: "fst (EncodeLoop api f t (Suc i) d2 e2) =
       (if (\<forall>c \<in> set (drop (Suc i) (children t)). encodable_child c)
        then JSON_ENCODER_OK else JSON_ENCODER_MULTITREE_ERROR)"
      using loop [OF i, THEN conjunct2, THEN spec, THEN spec] .
    show "fst (EncodeLoop api f t i dest e) =
       (if (\<forall>c \<in> set (drop i (children t)). encodable_child c)
        then JSON_ENCODER_OK else JSON_ENCODER_MULTITREE_ERROR)"
      using EncodeName_never_fails [OF assms i, of dest e] n
        encode_child_never_fails [OF assms IHc, of d1 e1] v IHl
      by (cases "mt_name (children t ! i) = None")
        (auto simp: EncodeLoop_step [OF i] d encodable_child_iff [of "children t ! i"] split: if_splits)
  qed (auto simp: EncodeLoop_end)
qed

section \<open>Properties\<close>

text \<open>
  C31: When the encoder answers OK it has appended to the destination exactly the text of the
  tree, for every tree, provided strings behave as documented and the caller's function prints
  the values. In particular such a tree has a name on every child and a value on every leaf.
\<close>

theorem EncodeTree_appends_the_text:
  assumes "string_laws api" "prints api f p"
    "JSONEncoder_EncodeTree api (Some t) (Some dest) (Some f) e = (JSON_ENCODER_OK, dest', e')"
  shows "encodable t \<and> (\<exists>d. dest' = Some d
    \<and> STRING_c_str api d = STRING_c_str api dest @ tree_text p t)"
  using assms(3) EncodeNode_text [OF assms(1,2)]
  by (auto simp: JSONEncoder_EncodeTree_def split: prod.splits)

text \<open>Strings as lists of characters, for examples.\<close>

definition list_strings :: "(string, unit) string_api" where
  "list_strings = \<lparr>STRING_new = (\<lambda>e. (Some [], e)), STRING_construct = (\<lambda>x e. (Some x, e)),
     STRING_concat = (\<lambda>s x e. (Some (s @ x), e)),
     STRING_concat_with_STRING = (\<lambda>s x e. (Some (s @ x), e)), STRING_c_str = (\<lambda>s. s)\<rparr>"

lemma list_strings_laws: "string_laws list_strings"
  by (simp add: string_laws_def list_strings_def)

lemma charptr_tostring_prints:
  "string_laws api \<Longrightarrow> prints api (charptr_tostring api) (\<lambda>s. s)"
  by (auto simp: prints_def charptr_tostring_def JSONEncoder_CharPtr_ToString_def
      STRING_concat_OK split: prod.splits option.splits)

definition example_tree :: "string mtree" where
  "example_tree = MTree None None
     [MTree (Some ''a'') (Some ''1'') [],
      MTree (Some ''b'') None [MTree (Some ''c'') (Some ''true'') []]]"

lemma encode_example:
  "JSONEncoder_EncodeTree list_strings (Some example_tree) (Some ''x'')
     (Some (charptr_tostring list_strings)) () =
   (JSON_ENCODER_OK, Some (''x'' @ tree_text (\<lambda>s. s) example_tree), ())"
  by code_simp

theorem EncodeTree_appends_the_text_witness:
  "encodable example_tree \<and> (\<exists>d. Some (''x'' @ tree_text (\<lambda>s. s) example_tree) = Some d
     \<and> STRING_c_str list_strings d = STRING_c_str list_strings ''x'' @ tree_text (\<lambda>s. s) example_tree)"
  by (rule EncodeTree_appends_the_text [OF list_strings_laws
        charptr_tostring_prints [OF list_strings_laws] encode_example])

text \<open>
  When nothing runs out of memory, the encoder succeeds on exactly the trees that have a
  text, and otherwise answers MULTITREE\_ERROR.
\<close>

theorem EncodeTree_succeeds_iff_encodable:
  assumes "never_fails api f"
  shows "fst (JSONEncoder_EncodeTree api (Some t) (Some dest) (Some f) e) =
    (if encodable t then JSON_ENCODER_OK else JSON_ENCODER_MULTITREE_ERROR)"
  using EncodeNode_never_fails [OF assms, of t dest e]
  by (cases "EncodeNode api f t dest e") (simp add: JSONEncoder_EncodeTree_def)

lemma list_strings_never_fail: "never_fails list_strings (charptr_tostring list_strings)"
  by (simp add: never_fails_def list_strings_def charptr_tostring_def JSONEncoder_CharPtr_ToString_def)

theorem EncodeTree_succeeds_iff_encodable_witness:
  "fst (JSONEncoder_EncodeTree list_strings (Some (MTree None None [MTree (Some ''a'') None []]))
     (Some []) (Some (charptr_tostring list_strings)) ()) = JSON_ENCODER_MULTITREE_ERROR"
  using EncodeTree_succeeds_iff_encodable [OF list_strings_never_fail,
      of "MTree None None [MTree (Some ''a'') None []]" "[]" "()"]
  by (simp add: encodable_def)

end
