(* ===== verification/MessageQueue.thy ===== *)
theory MessageQueue
  imports Options LinkedList "HOL-Library.Multiset"
begin

text \<open>
  The message queue of the client (iothub\_client/src/message\_queue.c): messages wait in a pending
  list, move to the in-progress list when they are handed to the owner's process callback, and
  leave when the owner reports their completion, when they time out, or when they are cancelled;
  a retryable failure puts a message back at the end of the pending list.

  The items are heap objects the two lists point to, so that a use of a freed item is visible
  (\<^const>\<open>Fault\<close>). The lists are those of the theory LinkedList. Calls out of the module are events, in order; what the owner's
  process callback does before it returns, namely report completions, is an argument.
\<close>

section \<open>Data\<close>

datatype MESSAGE_QUEUE_RESULT =
  MESSAGE_QUEUE_SUCCESS | MESSAGE_QUEUE_ERROR | MESSAGE_QUEUE_RETRYABLE_ERROR
| MESSAGE_QUEUE_TIMEOUT | MESSAGE_QUEUE_CANCELLED

record MESSAGE_QUEUE_ITEM =
  message :: nat
  on_message_processing_completed_callback :: "nat option"
  user_context :: nat
  enqueue_time :: int
  processing_start_time :: int
  number_of_attempts :: nat

text \<open>Calls out of the module: a user's completion callback, the owner's process callback.\<close>

datatype mq_event =
  MessageCompleted (ev_callback: nat) (ev_message: nat) MESSAGE_QUEUE_RESULT "nat option" nat
| ProcessMessage (ev_message: nat) nat

text \<open>
  MESSAGE\_QUEUE, with the heap of items it owns, the next address malloc hands out, and the
  events so far.
\<close>

record 'l MESSAGE_QUEUE =
  max_message_enqueued_time_secs :: nat
  max_message_processing_time_secs :: nat
  max_retry_count :: nat
  pending :: 'l
  in_progress :: 'l
  items :: "nat \<rightharpoonup> MESSAGE_QUEUE_ITEM"
  next_item :: nat
  events :: "mq_event list"

text \<open>The two lists of a queue.\<close>

datatype which_list = Pending | InProgress

fun get_list :: "which_list \<Rightarrow> ('l, 'm) MESSAGE_QUEUE_scheme \<Rightarrow> 'l" where
  "get_list Pending q = pending q"
| "get_list InProgress q = in_progress q"

fun put_list :: "which_list \<Rightarrow> 'l \<Rightarrow> ('l, 'm) MESSAGE_QUEUE_scheme \<Rightarrow> ('l, 'm) MESSAGE_QUEUE_scheme" where
  "put_list Pending l q = q\<lparr>pending := l\<rparr>"
| "put_list InProgress l q = q\<lparr>in_progress := l\<rparr>"

definition read_item :: "('l, 'm) MESSAGE_QUEUE_scheme \<Rightarrow> nat \<Rightarrow> MESSAGE_QUEUE_ITEM run" where
  "read_item q p = (case items q p of None \<Rightarrow> Fault | Some i \<Rightarrow> Done i)"

definition write_item ::
  "nat \<Rightarrow> MESSAGE_QUEUE_ITEM \<Rightarrow> ('l, 'm) MESSAGE_QUEUE_scheme \<Rightarrow> ('l, 'm) MESSAGE_QUEUE_scheme" where
  "write_item p i q = q\<lparr>items := (items q)(p \<mapsto> i)\<rparr>"

definition free_item ::
  "nat \<Rightarrow> ('l, 'm) MESSAGE_QUEUE_scheme \<Rightarrow> ('l, 'm) MESSAGE_QUEUE_scheme run" where
  "free_item p q = (case items q p of None \<Rightarrow> Fault | Some i \<Rightarrow> Done (q\<lparr>items := (items q)(p := None)\<rparr>))"

definition emit :: "mq_event \<Rightarrow> ('l, 'm) MESSAGE_QUEUE_scheme \<Rightarrow> ('l, 'm) MESSAGE_QUEUE_scheme" where
  "emit ev q = q\<lparr>events := events q @ [ev]\<rparr>"

section \<open>Operations\<close>

definition find_item_by_message_ptr :: "('l, 'm) MESSAGE_QUEUE_scheme \<Rightarrow> nat \<Rightarrow> nat \<Rightarrow> bool run" where
  "find_item_by_message_ptr q target p =
     (if p = 0 then Done False
      else run_bind (read_item q p) (\<lambda>i. Done (message i = target)))"

text \<open>The call of the user's callback when there is one.\<close>

definition call_user ::
  "MESSAGE_QUEUE_ITEM \<Rightarrow> MESSAGE_QUEUE_RESULT \<Rightarrow> nat option \<Rightarrow> ('l, 'm) MESSAGE_QUEUE_scheme
     \<Rightarrow> ('l, 'm) MESSAGE_QUEUE_scheme" where
  "call_user i result reason q =
     (case on_message_processing_completed_callback i of
        None \<Rightarrow> q
      | Some cb \<Rightarrow> emit (MessageCompleted cb (message i) result reason (user_context i)) q)"

definition fire_message_callback ::
  "nat \<Rightarrow> MESSAGE_QUEUE_RESULT \<Rightarrow> nat option \<Rightarrow> ('l, 'm) MESSAGE_QUEUE_scheme
     \<Rightarrow> ('l, 'm) MESSAGE_QUEUE_scheme run" where
  "fire_message_callback p result reason q =
     run_bind (read_item q p) (\<lambda>i.
       Done (call_user i
         (if result = MESSAGE_QUEUE_RETRYABLE_ERROR then MESSAGE_QUEUE_ERROR else result) reason q))"

definition should_retry_sending ::
  "('l, 'm) MESSAGE_QUEUE_scheme \<Rightarrow> MESSAGE_QUEUE_ITEM \<Rightarrow> MESSAGE_QUEUE_RESULT \<Rightarrow> bool" where
  "should_retry_sending q i result \<longleftrightarrow>
     result = MESSAGE_QUEUE_RETRYABLE_ERROR \<and> number_of_attempts i \<le> max_retry_count q"

definition retry_sending_message ::
  "('l, 'h, 'e, 'a) linked_list_scheme \<Rightarrow> 'h \<Rightarrow> ('l, 'm) MESSAGE_QUEUE_scheme \<Rightarrow> 'e
     \<Rightarrow> (bool \<times> ('l, 'm) MESSAGE_QUEUE_scheme \<times> 'e) run" where
  "retry_sending_message api list_item q e =
     run_bind (singlylinkedlist_item_get_value api (in_progress q) list_item) (\<lambda>p.
     case singlylinkedlist_remove api (in_progress q) list_item e of (ok, l, e) \<Rightarrow>
       let q = q\<lparr>in_progress := l\<rparr> in
       if \<not> ok then Done (False, q, e)
       else (case singlylinkedlist_add api (pending q) p e of (h, l, e) \<Rightarrow>
               let q = q\<lparr>pending := l\<rparr> in
               if h = None then Done (False, q, e) else Done (True, q, e)))"

definition dequeue_message_and_fire_callback ::
  "('l, 'h, 'e, 'a) linked_list_scheme \<Rightarrow> which_list \<Rightarrow> 'h \<Rightarrow> MESSAGE_QUEUE_RESULT \<Rightarrow> nat option
     \<Rightarrow> ('l, 'm) MESSAGE_QUEUE_scheme \<Rightarrow> 'e \<Rightarrow> (('l, 'm) MESSAGE_QUEUE_scheme \<times> 'e) run" where
  "dequeue_message_and_fire_callback api w list_item result reason q e =
     run_bind (singlylinkedlist_item_get_value api (get_list w q) list_item) (\<lambda>p.
     case singlylinkedlist_remove api (get_list w q) list_item e of (ok, l, e) \<Rightarrow>
     run_bind (fire_message_callback p result reason (put_list w l q)) (\<lambda>q.
     run_bind (free_item p q) (\<lambda>q. Done (q, e))))"

text \<open>
  The completion callback handed to the owner. \<open>msg\<close> None is a NULL message; the handle of the
  queue is not NULL where the module passes it.
\<close>

definition on_process_message_completed_callback ::
  "('l, 'h, 'e, 'a) linked_list_scheme \<Rightarrow> nat option \<Rightarrow> MESSAGE_QUEUE_RESULT \<Rightarrow> nat option
     \<Rightarrow> ('l, 'm) MESSAGE_QUEUE_scheme \<Rightarrow> 'e \<Rightarrow> (('l, 'm) MESSAGE_QUEUE_scheme \<times> 'e) run" where
  "on_process_message_completed_callback api msg result reason q e =
     (case msg of
        None \<Rightarrow> Done (q, e)
      | Some m \<Rightarrow>
          run_bind (singlylinkedlist_find api (in_progress q) (find_item_by_message_ptr q m)) (\<lambda>found.
            case found of
              None \<Rightarrow> Done (q, e)
            | Some list_item \<Rightarrow>
                run_bind (singlylinkedlist_item_get_value api (in_progress q) list_item) (\<lambda>p.
                run_bind (read_item q p) (\<lambda>i.
                run_bind
                  (if should_retry_sending q i result then retry_sending_message api list_item q e
                   else Done (False, q, e))
                  (\<lambda>(retried, q, e).
                    if retried then Done (q, e)
                    else dequeue_message_and_fire_callback api InProgress list_item result reason q e)))))"

text \<open>
  The three loops of process\_timeouts walk a list from an item on: they read the next item before
  they may remove the current one. \<open>started\<close> is the time field they test, \<open>stops\<close> says whether the
  first item that has not expired ends the loop.
\<close>

primrec timeouts_loop ::
  "nat \<Rightarrow> ('l, 'h, 'e, 'a) linked_list_scheme \<Rightarrow> which_list \<Rightarrow> (MESSAGE_QUEUE_ITEM \<Rightarrow> int) \<Rightarrow> nat
     \<Rightarrow> bool \<Rightarrow> int \<Rightarrow> 'h option \<Rightarrow> ('l, 'm) MESSAGE_QUEUE_scheme \<Rightarrow> 'e
     \<Rightarrow> (('l, 'm) MESSAGE_QUEUE_scheme \<times> 'e) run" where
  "timeouts_loop 0 api w started limit stops current_time list_item q e = NoFuel"
| "timeouts_loop (Suc n) api w started limit stops current_time list_item q e =
     (case list_item of
        None \<Rightarrow> Done (q, e)
      | Some current \<Rightarrow>
          run_bind (singlylinkedlist_item_get_value api (get_list w q) current) (\<lambda>p.
          run_bind (singlylinkedlist_get_next_item api (get_list w q) current) (\<lambda>next_one.
            if p = 0 then timeouts_loop n api w started limit stops current_time next_one q e
            else
          run_bind (read_item q p) (\<lambda>i.
            if current_time - started i \<ge> int limit then
              run_bind (dequeue_message_and_fire_callback api w current MESSAGE_QUEUE_TIMEOUT None q e)
                (\<lambda>(q, e). timeouts_loop n api w started limit stops current_time next_one q e)
            else if stops then Done (q, e)
            else timeouts_loop n api w started limit stops current_time next_one q e))))"

definition process_timeouts ::
  "nat \<Rightarrow> ('e, 'o) os_scheme \<Rightarrow> ('l, 'h, 'e, 'a) linked_list_scheme \<Rightarrow> ('l, 'm) MESSAGE_QUEUE_scheme \<Rightarrow> 'e
     \<Rightarrow> (('l, 'm) MESSAGE_QUEUE_scheme \<times> 'e) run" where
  "process_timeouts n os api q e =
     (case os_time os e of (current_time, e) \<Rightarrow>
      if current_time = INDEFINITE_TIME then Done (q, e)
      else
     run_bind
       (if 0 < max_message_enqueued_time_secs q then
          run_bind (timeouts_loop n api Pending enqueue_time (max_message_enqueued_time_secs q) True
                      current_time (singlylinkedlist_get_head_item api (pending q)) q e) (\<lambda>(q, e).
          timeouts_loop n api InProgress enqueue_time (max_message_enqueued_time_secs q) False
            current_time (singlylinkedlist_get_head_item api (in_progress q)) q e)
        else Done (q, e))
       (\<lambda>(q, e).
          if 0 < max_message_processing_time_secs q then
            timeouts_loop n api InProgress processing_start_time (max_message_processing_time_secs q) True
              current_time (singlylinkedlist_get_head_item api (in_progress q)) q e
          else Done (q, e)))"

text \<open>
  What the owner's process callback does before it returns: a list of completions it reports.
\<close>

type_synonym 'e process_callback =
  "nat \<Rightarrow> nat \<Rightarrow> 'e \<Rightarrow> (nat option \<times> MESSAGE_QUEUE_RESULT \<times> nat option) list \<times> 'e"

primrec report_completions ::
  "('l, 'h, 'e, 'a) linked_list_scheme \<Rightarrow> (nat option \<times> MESSAGE_QUEUE_RESULT \<times> nat option) list
     \<Rightarrow> ('l, 'm) MESSAGE_QUEUE_scheme \<Rightarrow> 'e \<Rightarrow> (('l, 'm) MESSAGE_QUEUE_scheme \<times> 'e) run" where
  "report_completions api [] q e = Done (q, e)"
| "report_completions api (c # cs) q e =
     (case c of (msg, result, reason) \<Rightarrow>
        run_bind (on_process_message_completed_callback api msg result reason q e)
          (\<lambda>(q, e). report_completions api cs q e))"

primrec process_pending_messages ::
  "nat \<Rightarrow> ('e, 'o) os_scheme \<Rightarrow> ('l, 'h, 'e, 'a) linked_list_scheme \<Rightarrow> 'e process_callback
     \<Rightarrow> ('l, 'm) MESSAGE_QUEUE_scheme \<Rightarrow> 'e \<Rightarrow> (('l, 'm) MESSAGE_QUEUE_scheme \<times> 'e) run" where
  "process_pending_messages 0 os api on_process q e = NoFuel"
| "process_pending_messages (Suc n) os api on_process q e =
     (case singlylinkedlist_get_head_item api (pending q) of
        None \<Rightarrow> Done (q, e)
      | Some list_item \<Rightarrow>
          run_bind (singlylinkedlist_item_get_value api (pending q) list_item) (\<lambda>p.
            if p = 0 then Done (q, e)
            else
          (case singlylinkedlist_remove api (pending q) list_item e of (ok, l, e) \<Rightarrow>
             let q = q\<lparr>pending := l\<rparr> in
          run_bind (read_item q p) (\<lambda>i.
             if \<not> ok then Done (call_user i MESSAGE_QUEUE_ERROR None q, e)
             else
          (case os_time os e of (now, e) \<Rightarrow>
             let i = i\<lparr>processing_start_time := now\<rparr>; q = write_item p i q in
             if now = INDEFINITE_TIME then
               run_bind (free_item p (call_user i MESSAGE_QUEUE_ERROR None q)) (\<lambda>q.
                 process_pending_messages n os api on_process q e)
             else
          (case singlylinkedlist_add api (in_progress q) p e of (h, l, e) \<Rightarrow>
             let q = q\<lparr>in_progress := l\<rparr> in
             if h = None then
               run_bind (free_item p (call_user i MESSAGE_QUEUE_ERROR None q)) (\<lambda>q.
                 process_pending_messages n os api on_process q e)
             else
               let i = i\<lparr>number_of_attempts := Suc (number_of_attempts i)\<rparr>;
                   q = emit (ProcessMessage (message i) (user_context i)) (write_item p i q) in
               (case on_process (message i) (user_context i) e of (cs, e) \<Rightarrow>
                  run_bind (report_completions api cs q e) (\<lambda>(q, e).
                    process_pending_messages n os api on_process q e))))))))"

text \<open>The two loops of message\_queue\_remove\_all.\<close>

primrec cancel_loop ::
  "nat \<Rightarrow> ('l, 'h, 'e, 'a) linked_list_scheme \<Rightarrow> which_list \<Rightarrow> ('l, 'm) MESSAGE_QUEUE_scheme \<Rightarrow> 'e
     \<Rightarrow> (('l, 'm) MESSAGE_QUEUE_scheme \<times> 'e) run" where
  "cancel_loop 0 api w q e = NoFuel"
| "cancel_loop (Suc n) api w q e =
     (case singlylinkedlist_get_head_item api (get_list w q) of
        None \<Rightarrow> Done (q, e)
      | Some list_item \<Rightarrow>
          run_bind (dequeue_message_and_fire_callback api w list_item MESSAGE_QUEUE_CANCELLED None q e)
            (\<lambda>(q, e). cancel_loop n api w q e))"

definition message_queue_remove_all ::
  "nat \<Rightarrow> ('l, 'h, 'e, 'a) linked_list_scheme \<Rightarrow> ('l, 'm) MESSAGE_QUEUE_scheme \<Rightarrow> 'e
     \<Rightarrow> (('l, 'm) MESSAGE_QUEUE_scheme \<times> 'e) run" where
  "message_queue_remove_all n api q e =
     run_bind (cancel_loop n api InProgress q e) (\<lambda>(q, e). cancel_loop n api Pending q e)"

text \<open>
  move\_messages\_between\_lists; true is RESULT\_OK. A message that cannot be added to the target
  list is cancelled and freed.
\<close>

primrec move_messages_between_lists ::
  "nat \<Rightarrow> ('l, 'h, 'e, 'a) linked_list_scheme \<Rightarrow> which_list \<Rightarrow> which_list \<Rightarrow> ('l, 'm) MESSAGE_QUEUE_scheme \<Rightarrow> 'e
     \<Rightarrow> (bool \<times> ('l, 'm) MESSAGE_QUEUE_scheme \<times> 'e) run" where
  "move_messages_between_lists 0 api from to q e = NoFuel"
| "move_messages_between_lists (Suc n) api from to q e =
     (case singlylinkedlist_get_head_item api (get_list from q) of
        None \<Rightarrow> Done (True, q, e)
      | Some list_item \<Rightarrow>
          run_bind (singlylinkedlist_item_get_value api (get_list from q) list_item) (\<lambda>p.
          case singlylinkedlist_remove api (get_list from q) list_item e of (ok, l, e) \<Rightarrow>
            let q = put_list from l q in
            if \<not> ok then Done (False, q, e)
            else if p = 0 then Done (False, q, e)
            else
          (case singlylinkedlist_add api (get_list to q) p e of (h, l, e) \<Rightarrow>
            let q = put_list to l q in
            if h = None then
              run_bind (fire_message_callback p MESSAGE_QUEUE_CANCELLED None q) (\<lambda>q.
              run_bind (free_item p q) (\<lambda>q. Done (False, q, e)))
            else move_messages_between_lists n api from to q e)))"

definition message_queue_move_all_back_to_pending ::
  "nat \<Rightarrow> ('l, 'h, 'e, 'a) linked_list_scheme \<Rightarrow> ('l, 'm) MESSAGE_QUEUE_scheme \<Rightarrow> 'e
     \<Rightarrow> (bool \<times> ('l, 'm) MESSAGE_QUEUE_scheme \<times> 'e) run" where
  "message_queue_move_all_back_to_pending n api q e =
     run_bind (move_messages_between_lists n api Pending InProgress q e) (\<lambda>(ok, q, e).
     run_bind (if \<not> ok then Done (False, q, e)
               else move_messages_between_lists n api InProgress Pending q e) (\<lambda>(ok, q, e).
       if \<not> ok then run_bind (message_queue_remove_all n api q e) (\<lambda>(q, e). Done (False, q, e))
       else Done (True, q, e)))"

text \<open>
  message\_queue\_destroy: what remains is the list of events; the lists and the queue are gone.
\<close>

definition message_queue_destroy ::
  "nat \<Rightarrow> ('l, 'h, 'e, 'a) linked_list_scheme \<Rightarrow> ('l, 'm) MESSAGE_QUEUE_scheme \<Rightarrow> 'e
     \<Rightarrow> (mq_event list \<times> 'e) run" where
  "message_queue_destroy n api q e =
     run_bind (message_queue_remove_all n api q e) (\<lambda>(q, e). Done (events q, e))"

record MESSAGE_QUEUE_CONFIG =
  cfg_on_process :: bool
  cfg_max_enqueued :: nat
  cfg_max_processing :: nat
  cfg_max_retry :: nat

definition message_queue_create ::
  "('e, 'o) os_scheme \<Rightarrow> ('l, 'h, 'e, 'a) linked_list_scheme \<Rightarrow> MESSAGE_QUEUE_CONFIG option \<Rightarrow> 'e
     \<Rightarrow> 'l MESSAGE_QUEUE option \<times> 'e" where
  "message_queue_create os api config e =
     (case config of
        None \<Rightarrow> (None, e)
      | Some c \<Rightarrow>
          if \<not> cfg_on_process c then (None, e)
          else (case os_malloc os e of (ok, e) \<Rightarrow>
            if \<not> ok then (None, e)
            else (case singlylinkedlist_create api e of
                (None, e) \<Rightarrow> (None, e)
              | (Some p, e) \<Rightarrow> (case singlylinkedlist_create api e of
                    (None, e) \<Rightarrow> (None, e)
                  | (Some i, e) \<Rightarrow>
                      (Some \<lparr>max_message_enqueued_time_secs = cfg_max_enqueued c,
                             max_message_processing_time_secs = cfg_max_processing c,
                             max_retry_count = cfg_max_retry c,
                             pending = p, in_progress = i, items = Map.empty, next_item = 1,
                             events = []\<rparr>, e)))))"

text \<open>
  message\_queue\_add; true is RESULT\_OK. The item is zero but for its enqueue time when it enters
  the list, and is filled in afterwards.
\<close>

definition zero_item :: MESSAGE_QUEUE_ITEM where
  "zero_item = \<lparr>message = 0, on_message_processing_completed_callback = None, user_context = 0,
     enqueue_time = 0, processing_start_time = 0, number_of_attempts = 0\<rparr>"

definition message_queue_add ::
  "('e, 'o) os_scheme \<Rightarrow> ('l, 'h, 'e, 'a) linked_list_scheme \<Rightarrow> ('l, 'm) MESSAGE_QUEUE_scheme option
     \<Rightarrow> nat option \<Rightarrow> nat option \<Rightarrow> nat \<Rightarrow> 'e
     \<Rightarrow> (bool \<times> ('l, 'm) MESSAGE_QUEUE_scheme option \<times> 'e) run" where
  "message_queue_add os api message_queue msg callback context e =
     (case (message_queue, msg) of
        (Some q, Some m) \<Rightarrow>
          (case os_malloc os e of (ok, e) \<Rightarrow>
           if \<not> ok then Done (False, Some q, e)
           else let p = next_item q; q = write_item p zero_item (q\<lparr>next_item := Suc p\<rparr>) in
          (case os_time os e of (now, e) \<Rightarrow>
           let q = write_item p (zero_item\<lparr>enqueue_time := now\<rparr>) q in
           if now = INDEFINITE_TIME then
             run_bind (free_item p q) (\<lambda>q. Done (False, Some q, e))
           else
          (case singlylinkedlist_add api (pending q) p e of (h, l, e) \<Rightarrow>
           let q = q\<lparr>pending := l\<rparr> in
           if h = None then run_bind (free_item p q) (\<lambda>q. Done (False, Some q, e))
           else Done (True, Some (write_item p
             (zero_item\<lparr>enqueue_time := now, message := m,
                on_message_processing_completed_callback := callback, user_context := context,
                processing_start_time := INDEFINITE_TIME\<rparr>) q), e))))
      | _ \<Rightarrow> Done (False, message_queue, e))"

definition message_queue_is_empty ::
  "('l, 'h, 'e, 'a) linked_list_scheme \<Rightarrow> ('l, 'm) MESSAGE_QUEUE_scheme option \<Rightarrow> bool
     \<Rightarrow> bool \<times> bool option" where
  "message_queue_is_empty api message_queue is_empty =
     (case message_queue of
        None \<Rightarrow> (False, None)
      | Some q \<Rightarrow>
          if \<not> is_empty then (False, None)
          else (True, Some (singlylinkedlist_get_head_item api (pending q) = None
                            \<and> singlylinkedlist_get_head_item api (in_progress q) = None)))"

definition message_queue_do_work ::
  "nat \<Rightarrow> ('e, 'o) os_scheme \<Rightarrow> ('l, 'h, 'e, 'a) linked_list_scheme \<Rightarrow> 'e process_callback
     \<Rightarrow> ('l, 'm) MESSAGE_QUEUE_scheme \<Rightarrow> 'e \<Rightarrow> (('l, 'm) MESSAGE_QUEUE_scheme \<times> 'e) run" where
  "message_queue_do_work n os api on_process q e =
     run_bind (process_timeouts n os api q e) (\<lambda>(q, e).
       process_pending_messages n os api on_process q e)"

definition message_queue_set_max_message_enqueued_time_secs ::
  "('l, 'm) MESSAGE_QUEUE_scheme option \<Rightarrow> nat \<Rightarrow> bool \<times> ('l, 'm) MESSAGE_QUEUE_scheme option" where
  "message_queue_set_max_message_enqueued_time_secs message_queue seconds =
     (case message_queue of
        None \<Rightarrow> (False, None)
      | Some q \<Rightarrow> (True, Some (q\<lparr>max_message_enqueued_time_secs := seconds\<rparr>)))"

definition message_queue_set_max_message_processing_time_secs ::
  "('l, 'm) MESSAGE_QUEUE_scheme option \<Rightarrow> nat \<Rightarrow> bool \<times> ('l, 'm) MESSAGE_QUEUE_scheme option" where
  "message_queue_set_max_message_processing_time_secs message_queue seconds =
     (case message_queue of
        None \<Rightarrow> (False, None)
      | Some q \<Rightarrow> (True, Some (q\<lparr>max_message_processing_time_secs := seconds\<rparr>)))"

definition message_queue_set_max_retry_count ::
  "('l, 'm) MESSAGE_QUEUE_scheme option \<Rightarrow> nat \<Rightarrow> bool \<times> ('l, 'm) MESSAGE_QUEUE_scheme option" where
  "message_queue_set_max_retry_count message_queue max_retry =
     (case message_queue of
        None \<Rightarrow> (False, None)
      | Some q \<Rightarrow> (True, Some (q\<lparr>max_retry_count := max_retry\<rparr>)))"

subsection \<open>Options\<close>

definition SAVED_OPTION_MAX_RETRY_COUNT :: string where
  "SAVED_OPTION_MAX_RETRY_COUNT = ''SAVED_OPTION_MAX_RETRY_COUNT''"

definition SAVED_OPTION_MAX_ENQUEUE_TIME_SECS :: string where
  "SAVED_OPTION_MAX_ENQUEUE_TIME_SECS = ''SAVED_OPTION_MAX_ENQUEUE_TIME_SECS''"

definition SAVED_OPTION_MAX_PROCESSING_TIME_SECS :: string where
  "SAVED_OPTION_MAX_PROCESSING_TIME_SECS = ''SAVED_OPTION_MAX_PROCESSING_TIME_SECS''"

lemma mq_option_names_differ [simp]:
  "SAVED_OPTION_MAX_RETRY_COUNT \<noteq> SAVED_OPTION_MAX_ENQUEUE_TIME_SECS"
  "SAVED_OPTION_MAX_ENQUEUE_TIME_SECS \<noteq> SAVED_OPTION_MAX_RETRY_COUNT"
  "SAVED_OPTION_MAX_RETRY_COUNT \<noteq> SAVED_OPTION_MAX_PROCESSING_TIME_SECS"
  "SAVED_OPTION_MAX_PROCESSING_TIME_SECS \<noteq> SAVED_OPTION_MAX_RETRY_COUNT"
  "SAVED_OPTION_MAX_ENQUEUE_TIME_SECS \<noteq> SAVED_OPTION_MAX_PROCESSING_TIME_SECS"
  "SAVED_OPTION_MAX_PROCESSING_TIME_SECS \<noteq> SAVED_OPTION_MAX_ENQUEUE_TIME_SECS"
  by (simp_all add: SAVED_OPTION_MAX_RETRY_COUNT_def SAVED_OPTION_MAX_ENQUEUE_TIME_SECS_def
      SAVED_OPTION_MAX_PROCESSING_TIME_SECS_def)

definition mq_option_names :: "string list" where
  "mq_option_names =
     [SAVED_OPTION_MAX_ENQUEUE_TIME_SECS, SAVED_OPTION_MAX_PROCESSING_TIME_SECS,
      SAVED_OPTION_MAX_RETRY_COUNT]"

definition mq_cloneOption ::
  "('e, 'o) os_scheme \<Rightarrow> string option \<Rightarrow> nat option \<Rightarrow> 'e \<Rightarrow> nat option \<times> 'e" where
  "mq_cloneOption os name v e =
     (case (name, v) of
        (Some n, Some x) \<Rightarrow>
          if n \<in> set mq_option_names then
            (case os_malloc os e of (ok, e) \<Rightarrow> (if ok then Some x else None, e))
          else (None, e)
      | _ \<Rightarrow> (None, e))"

text \<open>Whether destroyOption frees the value it is given.\<close>

definition mq_destroyOption :: "string option \<Rightarrow> nat option \<Rightarrow> bool" where
  "mq_destroyOption name v =
     (case (name, v) of (Some n, Some x) \<Rightarrow> n \<in> set mq_option_names | _ \<Rightarrow> False)"

definition mq_setOption ::
  "('l, 'm) MESSAGE_QUEUE_scheme option \<Rightarrow> string option \<Rightarrow> nat option
     \<Rightarrow> bool \<times> ('l, 'm) MESSAGE_QUEUE_scheme option" where
  "mq_setOption handle name v =
     (case (handle, name, v) of
        (Some q, Some n, Some x) \<Rightarrow>
          if n = SAVED_OPTION_MAX_ENQUEUE_TIME_SECS then
            message_queue_set_max_message_enqueued_time_secs handle x
          else if n = SAVED_OPTION_MAX_PROCESSING_TIME_SECS then
            message_queue_set_max_message_processing_time_secs handle x
          else if n = SAVED_OPTION_MAX_RETRY_COUNT then
            message_queue_set_max_retry_count handle x
          else (False, handle)
      | _ \<Rightarrow> (False, handle))"

definition mq_saved :: "('l, 'm) MESSAGE_QUEUE_scheme \<Rightarrow> (string \<times> nat) list" where
  "mq_saved q =
     [(SAVED_OPTION_MAX_ENQUEUE_TIME_SECS, max_message_enqueued_time_secs q),
      (SAVED_OPTION_MAX_PROCESSING_TIME_SECS, max_message_processing_time_secs q),
      (SAVED_OPTION_MAX_RETRY_COUNT, max_retry_count q)]"

definition message_queue_retrieve_options ::
  "('oh, nat, 'e, 'a) option_api_scheme \<Rightarrow> ('l, 'm) MESSAGE_QUEUE_scheme option \<Rightarrow> 'e
     \<Rightarrow> 'oh option \<times> 'e" where
  "message_queue_retrieve_options api message_queue e =
     (case message_queue of
        None \<Rightarrow> (None, e)
      | Some q \<Rightarrow> create_and_add api (mq_saved q) e)"

definition mq_setopt ::
  "('l, 'm) MESSAGE_QUEUE_scheme \<Rightarrow> string \<Rightarrow> nat \<Rightarrow> bool \<times> ('l, 'm) MESSAGE_QUEUE_scheme" where
  "mq_setopt q name v = (case mq_setOption (Some q) (Some name) (Some v) of (ok, q) \<Rightarrow> (ok, the q))"

interpretation mq_options: option_owner mq_setopt mq_saved mq_option_names "\<lambda>q. True"
proof
  fix s s' s'' :: "('l, 'm) MESSAGE_QUEUE_scheme" and name v
  show "map fst (mq_saved s) = mq_option_names" by (simp add: mq_saved_def mq_option_names_def)
  show "distinct mq_option_names" by (simp add: mq_option_names_def)
  show "(name, v) \<in> set (mq_saved s) \<Longrightarrow> fst (mq_setopt s' name v)"
    by (auto simp: mq_saved_def mq_setopt_def mq_setOption_def
        message_queue_set_max_message_enqueued_time_secs_def
        message_queue_set_max_message_processing_time_secs_def
        message_queue_set_max_retry_count_def)
  show "mq_setopt s' name v = (True, s'') \<Longrightarrow> map_of (mq_saved s'') = (map_of (mq_saved s'))(name \<mapsto> v)"
    by (auto simp: mq_saved_def mq_setopt_def mq_setOption_def fun_eq_iff
        message_queue_set_max_message_enqueued_time_secs_def
        message_queue_set_max_message_processing_time_secs_def
        message_queue_set_max_retry_count_def split: if_splits)
qed

section \<open>The invariant and the abstract queue\<close>

text \<open>
  The two lists point to distinct live items and to all of them: nothing dangles, nothing leaks.
\<close>

definition ptrs :: "('l \<Rightarrow> ('h \<times> nat) list) \<Rightarrow> which_list \<Rightarrow> ('l, 'm) MESSAGE_QUEUE_scheme \<Rightarrow> nat list" where
  "ptrs contents w q = map snd (contents (get_list w q))"

definition mq_inv :: "('l \<Rightarrow> ('h \<times> nat) list) \<Rightarrow> ('l, 'm) MESSAGE_QUEUE_scheme \<Rightarrow> bool" where
  "mq_inv contents q \<longleftrightarrow>
     distinct (ptrs contents Pending q @ ptrs contents InProgress q)
     \<and> set (ptrs contents Pending q) \<union> set (ptrs contents InProgress q) = dom (items q)
     \<and> (\<forall>p \<in> dom (items q). 0 < p \<and> p < next_item q) \<and> 0 < next_item q"

text \<open>
  What a queue stands for: two lists of items, three limits and the events so far. Addresses,
  list items and the allocator are gone.
\<close>

record abstract_queue =
  a_max_enqueued :: nat
  a_max_processing :: nat
  a_max_retry :: nat
  a_pending :: "MESSAGE_QUEUE_ITEM list"
  a_in_progress :: "MESSAGE_QUEUE_ITEM list"
  a_events :: "mq_event list"

definition held ::
  "('l \<Rightarrow> ('h \<times> nat) list) \<Rightarrow> which_list \<Rightarrow> ('l, 'm) MESSAGE_QUEUE_scheme \<Rightarrow> MESSAGE_QUEUE_ITEM list" where
  "held contents w q = map (\<lambda>p. the (items q p)) (ptrs contents w q)"

definition mq_abs ::
  "('l \<Rightarrow> ('h \<times> nat) list) \<Rightarrow> ('l, 'm) MESSAGE_QUEUE_scheme \<Rightarrow> abstract_queue" where
  "mq_abs contents q =
     \<lparr>a_max_enqueued = max_message_enqueued_time_secs q,
      a_max_processing = max_message_processing_time_secs q,
      a_max_retry = max_retry_count q,
      a_pending = held contents Pending q, a_in_progress = held contents InProgress q,
      a_events = events q\<rparr>"

fun a_get :: "which_list \<Rightarrow> abstract_queue \<Rightarrow> MESSAGE_QUEUE_ITEM list" where
  "a_get Pending a = a_pending a"
| "a_get InProgress a = a_in_progress a"

fun a_put :: "which_list \<Rightarrow> MESSAGE_QUEUE_ITEM list \<Rightarrow> abstract_queue \<Rightarrow> abstract_queue" where
  "a_put Pending is a = a\<lparr>a_pending := is\<rparr>"
| "a_put InProgress is a = a\<lparr>a_in_progress := is\<rparr>"

definition completion ::
  "MESSAGE_QUEUE_RESULT \<Rightarrow> nat option \<Rightarrow> MESSAGE_QUEUE_ITEM \<Rightarrow> mq_event list" where
  "completion result reason i =
     (case on_message_processing_completed_callback i of
        None \<Rightarrow> []
      | Some cb \<Rightarrow> [MessageCompleted cb (message i) result reason (user_context i)])"

definition a_emit :: "mq_event list \<Rightarrow> abstract_queue \<Rightarrow> abstract_queue" where
  "a_emit evs a = a\<lparr>a_events := a_events a @ evs\<rparr>"

text \<open>The abstract operations.\<close>

definition final_result :: "MESSAGE_QUEUE_RESULT \<Rightarrow> MESSAGE_QUEUE_RESULT" where
  "final_result r = (if r = MESSAGE_QUEUE_RETRYABLE_ERROR then MESSAGE_QUEUE_ERROR else r)"

definition a_complete ::
  "nat \<Rightarrow> MESSAGE_QUEUE_RESULT \<Rightarrow> nat option \<Rightarrow> abstract_queue \<Rightarrow> abstract_queue" where
  "a_complete m result reason a =
     (case dropWhile (\<lambda>i. message i \<noteq> m) (a_in_progress a) of
        [] \<Rightarrow> a
      | i # rest \<Rightarrow>
          let others = takeWhile (\<lambda>i. message i \<noteq> m) (a_in_progress a) @ rest in
          if result = MESSAGE_QUEUE_RETRYABLE_ERROR \<and> number_of_attempts i \<le> a_max_retry a
          then a\<lparr>a_in_progress := others, a_pending := a_pending a @ [i]\<rparr>
          else a_emit (completion (final_result result) reason i) (a\<lparr>a_in_progress := others\<rparr>))"

definition expired :: "(MESSAGE_QUEUE_ITEM \<Rightarrow> int) \<Rightarrow> nat \<Rightarrow> int \<Rightarrow> MESSAGE_QUEUE_ITEM \<Rightarrow> bool" where
  "expired started limit now i \<longleftrightarrow> int limit \<le> now - started i"

definition timed_out :: "MESSAGE_QUEUE_ITEM list \<Rightarrow> mq_event list" where
  "timed_out is = concat (map (completion MESSAGE_QUEUE_TIMEOUT None) is)"

definition a_timeouts :: "int \<Rightarrow> abstract_queue \<Rightarrow> abstract_queue" where
  "a_timeouts now a =
     (let late = expired enqueue_time (a_max_enqueued a) now;
          slow = expired processing_start_time (a_max_processing a) now;
          a = (if 0 < a_max_enqueued a then
                 a_emit (timed_out (takeWhile late (a_pending a)) @ timed_out (filter late (a_in_progress a)))
                   (a\<lparr>a_pending := dropWhile late (a_pending a),
                      a_in_progress := filter (Not \<circ> late) (a_in_progress a)\<rparr>)
               else a)
      in if 0 < a_max_processing a then
           a_emit (timed_out (takeWhile slow (a_in_progress a)))
             (a\<lparr>a_in_progress := dropWhile slow (a_in_progress a)\<rparr>)
         else a)"

definition a_cancel_all :: "abstract_queue \<Rightarrow> abstract_queue" where
  "a_cancel_all a =
     a_emit (concat (map (completion MESSAGE_QUEUE_CANCELLED None) (a_in_progress a @ a_pending a)))
       (a\<lparr>a_in_progress := [], a_pending := []\<rparr>)"

lemma a_get_abs [simp]: "a_get w (mq_abs contents q) = held contents w q"
  by (cases w) (simp_all add: mq_abs_def)

subsection \<open>Removing, adding and updating an item\<close>

lemma get_put [simp]:
  "get_list w (put_list w l q) = l" "w \<noteq> v \<Longrightarrow> get_list v (put_list w l q) = get_list v q"
  "items (put_list w l q) = items q" "events (put_list w l q) = events q"
  "next_item (put_list w l q) = next_item q"
  "max_retry_count (put_list w l q) = max_retry_count q"
  "max_message_enqueued_time_secs (put_list w l q) = max_message_enqueued_time_secs q"
  "max_message_processing_time_secs (put_list w l q) = max_message_processing_time_secs q"
  by (cases w; cases v; simp)+

lemma dequeue_refines:
  assumes laws: "list_laws api contents" and inv: "mq_inv contents q"
    and c: "contents (get_list w q) = xs @ (h, p) # ys"
  obtains q' e' where
    "dequeue_message_and_fire_callback api w h result reason q e = Done (q', e')"
    "mq_inv contents q'" "contents (get_list w q') = xs @ ys"
    "\<And>r. r \<noteq> p \<Longrightarrow> items q' r = items q r"
    "\<And>v. v \<noteq> w \<Longrightarrow> contents (get_list v q') = contents (get_list v q)"
    "mq_abs contents q' = a_emit (completion (final_result result) reason (the (items q p)))
       (a_put w (map (\<lambda>p. the (items q p)) (map snd (xs @ ys))) (mq_abs contents q))"
proof -
  obtain ok l e1 where r: "singlylinkedlist_remove api (get_list w q) h e = (ok, l, e1)"
    by (cases "singlylinkedlist_remove api (get_list w q) h e") auto
  note rem = list_remove [OF laws c r]
  note val = list_item(2) [OF laws c]
  have pdom: "p \<in> dom (items q)"
  proof -
    have "p \<in> set (ptrs contents w q)" using c by (simp add: ptrs_def)
    then show ?thesis using inv by (cases w) (auto simp: mq_inv_def)
  qed
  then obtain i where i: "items q p = Some i" by blast
  let ?q1 = "call_user i (final_result result) reason (put_list w l q)"
  obtain q2 where q2: "q2 = ?q1\<lparr>items := (items ?q1)(p := None)\<rparr>" by blast
  have gl: "get_list v q2 = (if v = w then l else get_list v q)" for v
    unfolding q2 by (cases v; cases w) (auto simp: call_user_def emit_def split: option.splits)
  have it: "items q2 = (items q)(p := None)"
    unfolding q2 by (auto simp: call_user_def emit_def split: option.splits)
  have ev: "events q2 = events q @ completion (final_result result) reason i"
    unfolding q2 by (auto simp: call_user_def emit_def completion_def split: option.splits)
  have nx: "next_item q2 = next_item q" "max_retry_count q2 = max_retry_count q"
    "max_message_enqueued_time_secs q2 = max_message_enqueued_time_secs q"
    "max_message_processing_time_secs q2 = max_message_processing_time_secs q"
    unfolding q2 by (auto simp: call_user_def emit_def split: option.splits)
  have run: "dequeue_message_and_fire_callback api w h result reason q e = Done (q2, e1)"
    unfolding q2
    using i by (simp add: dequeue_message_and_fire_callback_def val r fire_message_callback_def
        read_item_def free_item_def final_result_def call_user_def emit_def split: option.splits)
  have pw: "ptrs contents w q2 = map snd (xs @ ys)" "ptrs contents w q = map snd xs @ p # map snd ys"
    using rem c by (simp_all add: ptrs_def gl)
  have pv: "ptrs contents v q2 = ptrs contents v q" if "v \<noteq> w" for v
    using that by (simp add: ptrs_def gl)
  have inv': "mq_inv contents q2"
  proof (cases w)
    case Pending
    then show ?thesis using inv pw pv [of InProgress] unfolding mq_inv_def it nx by auto
  next
    case InProgress
    then show ?thesis using inv pw pv [of Pending] unfolding mq_inv_def it nx by auto
  qed
  have pn: "p \<notin> set (ptrs contents v q)" if "v \<noteq> w" for v
    using inv pw that by (cases w; cases v) (auto simp: mq_inv_def)
  have pnw: "p \<notin> snd ` set xs" "p \<notin> snd ` set ys"
    using inv pw by (cases w; auto simp: mq_inv_def)+
  have hw: "held contents w q2 = map (\<lambda>p. the (items q p)) (map snd (xs @ ys))"
    using pnw by (auto simp: held_def pw it)
  have hv: "held contents v q2 = held contents v q" if "v \<noteq> w" for v
    using pn [OF that] that by (auto simp: held_def pv it)
  have "mq_abs contents q2 = a_emit (completion (final_result result) reason (the (items q p)))
       (a_put w (map (\<lambda>p. the (items q p)) (map snd (xs @ ys))) (mq_abs contents q))"
    using hw hv ev nx by (cases w) (simp_all add: mq_abs_def a_emit_def i)
  with run inv' show thesis
    by (intro that) (use rem it in \<open>auto simp: gl\<close>)
qed

subsection \<open>The loops of process_timeouts\<close>

definition yields ::
  "('l \<Rightarrow> ('h \<times> nat) list) \<Rightarrow> abstract_queue \<Rightarrow> (('l, 'm) MESSAGE_QUEUE_scheme \<times> 'e) run \<Rightarrow> bool" where
  "yields contents a m \<longleftrightarrow> (\<exists>q e. m = Done (q, e) \<and> mq_inv contents q \<and> mq_abs contents q = a)"

definition view :: "('l, 'm) MESSAGE_QUEUE_scheme \<Rightarrow> ('h \<times> nat) list \<Rightarrow> MESSAGE_QUEUE_ITEM list" where
  "view q xs = map (\<lambda>x. the (items q (snd x))) xs"

lemma view_simps [simp]:
  "view q [] = []" "view q (x # xs) = the (items q (snd x)) # view q xs"
  "view q (xs @ ys) = view q xs @ view q ys"
  by (simp_all add: view_def)

lemma held_view: "contents (get_list w q) = xs \<Longrightarrow> held contents w q = view q xs"
  by (simp add: held_def ptrs_def view_def)

lemma head_of: "list_laws api contents \<Longrightarrow> contents l = (h, p) # xs \<Longrightarrow> singlylinkedlist_get_head_item api l = Some h"
  by (simp add: list_head)

lemma inv_item:
  assumes "mq_inv contents q" "(h, p) \<in> set (contents (get_list w q))"
  shows "0 < p" "read_item q p = Done (the (items q p))" "p \<in> dom (items q)"
proof -
  have "p \<in> set (ptrs contents w q)" using assms(2) by (force simp: ptrs_def)
  then have d: "p \<in> dom (items q)" using assms(1) by (cases w) (auto simp: mq_inv_def)
  then show "p \<in> dom (items q)" .
  show "0 < p" using assms(1) d by (auto simp: mq_inv_def)
  show "read_item q p = Done (the (items q p))" using d by (auto simp: read_item_def)
qed

lemma inv_distinct:
  "mq_inv contents q \<Longrightarrow> distinct (map snd (contents (get_list w q)))"
  by (cases w) (auto simp: mq_inv_def ptrs_def)

lemma view_cong:
  "(\<And>x. x \<in> set xs \<Longrightarrow> items q' (snd x) = items q (snd x)) \<Longrightarrow> view q' xs = view q xs"
  by (simp add: view_def)

lemma a_emit_append: "a_emit ys (a_emit xs a) = a_emit (xs @ ys) a"
  by (simp add: a_emit_def)

lemma a_emit_Nil [simp]: "a_emit [] a = a"
  by (simp add: a_emit_def)

lemma a_put_emit [simp]: "a_put w is (a_emit xs a) = a_emit xs (a_put w is a)"
  by (cases w) (simp_all add: a_emit_def)

lemma a_put_put [simp]: "a_put w is (a_put w js a) = a_put w is a"
  by (cases w) simp_all

lemma a_put_same: "a_put w (held contents w q) (mq_abs contents q) = mq_abs contents q"
  by (cases w) (simp_all add: mq_abs_def)

lemma timed_out_Cons [simp]:
  "timed_out [] = []" "timed_out (i # is) = completion MESSAGE_QUEUE_TIMEOUT None i @ timed_out is"
  by (simp_all add: timed_out_def)

lemma timeouts_loop_refines:
  assumes laws: "list_laws api contents"
  shows "mq_inv contents q \<Longrightarrow> contents (get_list w q) = seen @ todo \<Longrightarrow> length todo < n
    \<Longrightarrow> yields contents
      (a_emit (timed_out (if stops then takeWhile (expired started limit now) (view q todo)
                          else filter (expired started limit now) (view q todo)))
        (a_put w (view q seen @ (if stops then dropWhile (expired started limit now) (view q todo)
                                 else filter (Not \<circ> expired started limit now) (view q todo)))
          (mq_abs contents q)))
      (timeouts_loop n api w started limit stops now (list_item_at todo) q e)"
proof (induction todo arbitrary: seen q e n)
  case Nil
  then have "a_put w (view q seen) (mq_abs contents q) = mq_abs contents q"
    using a_put_same held_view by (metis append_Nil2)
  with Nil show ?case by (cases n) (auto simp: yields_def list_item_at_def)
next
  case (Cons x todo)
  obtain h p where x: "x = (h, p)" by (cases x)
  obtain m where n: "n = Suc m" using Cons.prems(3) by (cases n) auto
  have c: "contents (get_list w q) = seen @ (h, p) # todo" using Cons.prems(2) x by simp
  have mem: "(h, p) \<in> set (contents (get_list w q))" using c by simp
  note item = inv_item [OF Cons.prems(1) mem]
  have li: "singlylinkedlist_get_next_item api (get_list w q) h = Done (list_item_at todo)"
    "singlylinkedlist_item_get_value api (get_list w q) h = Done p"
    using list_item [OF laws c] by (simp_all add: list_item_at_def)
  have at': "list_item_at ((h, p) # todo) = Some h" by (simp add: list_item_at_def)
  let ?i = "the (items q p)"
  show ?case
  proof (cases "expired started limit now ?i")
    case True
    obtain q' e' where d: "dequeue_message_and_fire_callback api w h MESSAGE_QUEUE_TIMEOUT None q e = Done (q', e')"
        "mq_inv contents q'" "contents (get_list w q') = seen @ todo"
        "\<And>r. r \<noteq> p \<Longrightarrow> items q' r = items q r"
        "mq_abs contents q' = a_emit (completion (final_result MESSAGE_QUEUE_TIMEOUT) None ?i)
           (a_put w (map (\<lambda>p. the (items q p)) (map snd (seen @ todo))) (mq_abs contents q))"
      using dequeue_refines [OF laws Cons.prems(1) c] by metis
    have "p \<notin> snd ` set seen" "p \<notin> snd ` set todo"
      using inv_distinct [OF Cons.prems(1), of w] c by auto
    then have v: "view q' seen = view q seen" "view q' todo = view q todo"
      by (auto intro!: view_cong d(4))
    have "length todo < m" using Cons.prems(3) n by simp
    have ab: "mq_abs contents q' = a_emit (completion MESSAGE_QUEUE_TIMEOUT None ?i)
        (a_put w (view q (seen @ todo)) (mq_abs contents q))"
      using d(5) by (simp add: final_result_def view_def comp_def)
    have run: "timeouts_loop n api w started limit stops now (list_item_at (x # todo)) q e =
        timeouts_loop m api w started limit stops now (list_item_at todo) q' e'"
      using True item by (simp add: n x at' li d(1) expired_def)
    show ?thesis
      using Cons.IH [OF d(2,3) \<open>length todo < m\<close>] True
      unfolding run ab v by (cases stops) (simp_all add: x a_emit_append)
  next
    case False
    show ?thesis
    proof (cases stops)
      case True
      have "a_put w (view q seen @ ?i # view q todo) (mq_abs contents q) = mq_abs contents q"
        using held_view [of contents w q, OF c] a_put_same [of w contents q] by simp
      with True False Cons.prems(1) item show ?thesis
        by (simp add: n x at' li expired_def yields_def)
    next
      case nostop: False
      have c': "contents (get_list w q) = (seen @ [x]) @ todo" using Cons.prems(2) by simp
      have "length todo < m" using Cons.prems(3) n by simp
      from Cons.IH [OF Cons.prems(1) c' this, of e] False nostop item show ?thesis
        by (simp add: n x at' li expired_def)
    qed
  qed
qed

lemma yields_bind:
  assumes "yields contents a m"
    and "\<And>q e. mq_inv contents q \<Longrightarrow> mq_abs contents q = a \<Longrightarrow> yields contents b (f (q, e))"
  shows "yields contents b (run_bind m f)"
  using assms by (fastforce simp: yields_def)

lemma yields_Done: "mq_inv contents q \<Longrightarrow> mq_abs contents q = a \<Longrightarrow> yields contents a (Done (q, e))"
  by (auto simp: yields_def)

text \<open>One loop over a whole list.\<close>

lemma timeouts_list_refines:
  assumes "list_laws api contents" "mq_inv contents q" "length (a_get w (mq_abs contents q)) < n"
  shows "yields contents
      (a_emit (timed_out ((if stops then takeWhile else filter) (expired started limit now) (a_get w (mq_abs contents q))))
        (a_put w (if stops then dropWhile (expired started limit now) (a_get w (mq_abs contents q))
                  else filter (Not \<circ> expired started limit now) (a_get w (mq_abs contents q)))
          (mq_abs contents q)))
      (timeouts_loop n api w started limit stops now
         (singlylinkedlist_get_head_item api (get_list w q)) q e)"
proof -
  have h: "singlylinkedlist_get_head_item api (get_list w q) = list_item_at (contents (get_list w q))"
    by (simp add: list_head [OF assms(1)] list_item_at_def)
  have len: "length (contents (get_list w q)) < n"
    using assms(3) by (simp add: held_def ptrs_def)
  have v: "view q (contents (get_list w q)) = held contents w q" by (simp add: held_view)
  show ?thesis
    using timeouts_loop_refines [OF assms(1,2), of w "[]", OF _ len, of stops started limit now e]
    by (simp add: h v split: if_splits)
qed

lemma abs_limits [simp]:
  "a_max_enqueued (mq_abs contents q) = max_message_enqueued_time_secs q"
  "a_max_processing (mq_abs contents q) = max_message_processing_time_secs q"
  "a_max_retry (mq_abs contents q) = max_retry_count q"
  "a_pending (mq_abs contents q) = held contents Pending q"
  "a_in_progress (mq_abs contents q) = held contents InProgress q"
  "a_events (mq_abs contents q) = events q"
  by (simp_all add: mq_abs_def)

lemma a_emit_sel [simp]:
  "a_max_enqueued (a_emit evs a) = a_max_enqueued a"
  "a_max_processing (a_emit evs a) = a_max_processing a"
  "a_max_retry (a_emit evs a) = a_max_retry a"
  "a_pending (a_emit evs a) = a_pending a"
  "a_in_progress (a_emit evs a) = a_in_progress a"
  "a_events (a_emit evs a) = a_events a @ evs"
  by (simp_all add: a_emit_def)

lemma a_get_emit [simp]: "a_get w (a_emit evs a) = a_get w a"
  by (cases w) simp_all

lemma a_get_put [simp]: "a_get w (a_put w is a) = is"
  by (cases w) simp_all

definition a_size :: "abstract_queue \<Rightarrow> nat" where
  "a_size a = length (a_pending a) + length (a_in_progress a)"

lemma process_timeouts_refines:
  assumes laws: "list_laws api contents" and inv: "mq_inv contents q"
    and n: "a_size (mq_abs contents q) < n" and time: "os_time os e = (now, e1)"
  shows "yields contents
    (if now = INDEFINITE_TIME then mq_abs contents q else a_timeouts now (mq_abs contents q))
    (process_timeouts n os api q e)"
proof (cases "now = INDEFINITE_TIME")
  case True
  then show ?thesis by (simp add: process_timeouts_def time yields_Done inv)
next
  case False
  let ?a = "mq_abs contents q"
  let ?late = "expired enqueue_time (a_max_enqueued ?a) now"
  let ?slow = "expired processing_start_time (a_max_processing ?a) now"
  let ?b = "if 0 < a_max_enqueued ?a then
       a_emit (timed_out (takeWhile ?late (a_pending ?a)) @ timed_out (filter ?late (a_in_progress ?a)))
         (?a\<lparr>a_pending := dropWhile ?late (a_pending ?a),
              a_in_progress := filter (Not \<circ> ?late) (a_in_progress ?a)\<rparr>)
     else ?a"
  have len: "length (held contents Pending q) < n" "length (held contents InProgress q) < n"
    using n by (simp_all add: a_size_def)
  have first: "yields contents ?b
      (if 0 < max_message_enqueued_time_secs q then
          run_bind (timeouts_loop n api Pending enqueue_time (max_message_enqueued_time_secs q) True
                      now (singlylinkedlist_get_head_item api (pending q)) q e1) (\<lambda>(q, e).
          timeouts_loop n api InProgress enqueue_time (max_message_enqueued_time_secs q) False
            now (singlylinkedlist_get_head_item api (in_progress q)) q e)
        else Done (q, e1))"
  proof (cases "0 < max_message_enqueued_time_secs q")
    case True
    have 1: "yields contents
        (a_emit (timed_out (takeWhile ?late (a_pending ?a))) (?a\<lparr>a_pending := dropWhile ?late (a_pending ?a)\<rparr>))
        (timeouts_loop n api Pending enqueue_time (max_message_enqueued_time_secs q) True
                      now (singlylinkedlist_get_head_item api (pending q)) q e1)"
      using timeouts_list_refines [OF laws inv, of Pending n True enqueue_time
          "max_message_enqueued_time_secs q" now e1] len by simp
    have 2: "yields contents ?b
        (timeouts_loop n api InProgress enqueue_time (max_message_enqueued_time_secs q1) False
            now (singlylinkedlist_get_head_item api (in_progress q1)) q1 e2)"
      if "mq_inv contents q1" "mq_abs contents q1 = a_emit (timed_out (takeWhile ?late (a_pending ?a)))
          (?a\<lparr>a_pending := dropWhile ?late (a_pending ?a)\<rparr>)" for q1 and e2
    proof -
      have l: "max_message_enqueued_time_secs q1 = max_message_enqueued_time_secs q"
        using that(2) abs_limits(1) [of contents q1] by simp
      have g: "a_get InProgress (mq_abs contents q1) = a_in_progress ?a"
        unfolding that(2) by simp
      have p: "0 < a_max_enqueued ?a" using True by simp
      have "length (a_get InProgress (mq_abs contents q1)) < n" unfolding g using len by simp
      from timeouts_list_refines [OF laws that(1) this, of False enqueue_time
          "max_message_enqueued_time_secs q1" now e2]
      show ?thesis unfolding g if_P [OF p] that(2) l by (simp add: a_emit_append)
    qed
    show ?thesis unfolding if_P [OF True] by (rule yields_bind [OF 1]) (simp only: prod.case 2)
  next
    case False
    then show ?thesis by (simp add: yields_Done inv)
  qed
  have second: "yields contents (a_timeouts now ?a)
      (if 0 < max_message_processing_time_secs q1 then
            timeouts_loop n api InProgress processing_start_time (max_message_processing_time_secs q1) True
              now (singlylinkedlist_get_head_item api (in_progress q1)) q1 e2
       else Done (q1, e2))"
    if "mq_inv contents q1" "mq_abs contents q1 = ?b" for q1 and e2
  proof -
    have l: "max_message_processing_time_secs q1 = max_message_processing_time_secs q"
      using that(2) abs_limits(2) [of contents q1] by (simp split: if_splits)
    have "length (a_in_progress ?b) \<le> length (a_in_progress ?a)" by simp
    then have len': "length (a_get InProgress (mq_abs contents q1)) < n"
      using len(2) unfolding a_get.simps that(2) by simp
    show ?thesis
    proof (cases "0 < max_message_processing_time_secs q")
      case True
      from timeouts_list_refines [OF laws that(1) len', of True processing_start_time
          "max_message_processing_time_secs q" now e2]
      show ?thesis using True l
        unfolding a_timeouts_def Let_def a_get.simps that(2) a_put.simps by simp
    next
      case False
      then show ?thesis using l that
        unfolding a_timeouts_def Let_def by (simp add: yields_Done)
    qed
  qed
  show ?thesis
    unfolding process_timeouts_def time prod.case if_not_P [OF False]
    by (rule yields_bind [OF first]) (simp only: prod.case second)
qed

lemma dequeue_head_yields:
  assumes "list_laws api contents" "mq_inv contents q" "contents (get_list w q) = (h, p) # xs"
  shows "\<exists>q' e'. dequeue_message_and_fire_callback api w h result reason q e = Done (q', e')
    \<and> mq_inv contents q' \<and> contents (get_list w q') = xs
    \<and> mq_abs contents q' = a_emit (completion (final_result result) reason (hd (a_get w (mq_abs contents q))))
         (a_put w (tl (a_get w (mq_abs contents q))) (mq_abs contents q))"
proof -
  have c: "contents (get_list w q) = [] @ (h, p) # xs" using assms(3) by simp
  have held: "hd (a_get w (mq_abs contents q)) = the (items q p)"
    "tl (a_get w (mq_abs contents q)) = map (\<lambda>p. the (items q p)) (map snd ([] @ xs))"
    using assms(3) by (simp_all add: held_def ptrs_def)
  show ?thesis
    unfolding held by (rule dequeue_refines [OF assms(1,2) c, of result reason e]) auto
qed

lemma cancel_loop_refines:
  assumes laws: "list_laws api contents"
  shows "mq_inv contents q \<Longrightarrow> length (a_get w (mq_abs contents q)) < n
    \<Longrightarrow> yields contents
      (a_emit (concat (map (completion MESSAGE_QUEUE_CANCELLED None) (a_get w (mq_abs contents q))))
        (a_put w [] (mq_abs contents q)))
      (cancel_loop n api w q e)"
proof (induction n arbitrary: q e)
  case (Suc n)
  show ?case
  proof (cases "contents (get_list w q)")
    case Nil
    then have "held contents w q = []" by (simp add: held_def ptrs_def)
    with a_put_same [of w contents q] Nil Suc.prems show ?thesis
      by (simp add: list_head [OF laws] yields_Done)
  next
    case (Cons x xs)
    obtain h p where x: "x = (h, p)" by (cases x)
    let ?is = "a_get w (mq_abs contents q)"
    obtain q' e' where d: "dequeue_message_and_fire_callback api w h MESSAGE_QUEUE_CANCELLED None q e = Done (q', e')"
        "mq_inv contents q'"
        "mq_abs contents q' = a_emit (completion MESSAGE_QUEUE_CANCELLED None (hd ?is)) (a_put w (tl ?is) (mq_abs contents q))"
      using dequeue_head_yields [OF laws Suc.prems(1) Cons [unfolded x],
          of MESSAGE_QUEUE_CANCELLED None e] by (auto simp: final_result_def)
    have L: "?is = hd ?is # tl ?is" using Cons by (simp add: held_def ptrs_def)
    have g: "a_get w (mq_abs contents q') = tl ?is" unfolding d(3) by (cases w) simp_all
    have "length (a_get w (mq_abs contents q')) < n" unfolding g using Suc.prems(2) by (subst (asm) L) simp
    from Suc.IH [OF d(2) this, of e'] show ?thesis
      unfolding g d(3)
      by (subst L) (simp add: list_head [OF laws] Cons x d(1) a_emit_append)
  qed
qed simp

lemma remove_all_refines:
  assumes laws: "list_laws api contents" and inv: "mq_inv contents q"
    and n: "a_size (mq_abs contents q) < n"
  shows "yields contents (a_cancel_all (mq_abs contents q)) (message_queue_remove_all n api q e)"
  unfolding message_queue_remove_all_def
proof (rule yields_bind [OF cancel_loop_refines [OF laws inv]])
  let ?a = "mq_abs contents q"
  show "length (a_get InProgress ?a) < n" using n by (simp add: a_size_def)
  fix q1 e1
  assume q1: "mq_inv contents q1" "mq_abs contents q1 =
    a_emit (concat (map (completion MESSAGE_QUEUE_CANCELLED None) (a_get InProgress ?a))) (a_put InProgress [] ?a)"
  have g: "a_get Pending (mq_abs contents q1) = a_pending ?a" unfolding q1(2) by simp
  have len: "length (a_get Pending (mq_abs contents q1)) < n" unfolding g using n by (simp add: a_size_def)
  show "yields contents (a_cancel_all ?a) (case (q1, e1) of (q, e) \<Rightarrow> cancel_loop n api Pending q e)"
    using cancel_loop_refines [OF laws q1(1) len, of e1]
    unfolding g q1(2) a_cancel_all_def by (simp add: a_emit_append)
qed

subsection \<open>Completions\<close>

lemma find_first_inv:
  assumes "mq_inv contents q" "set xs \<subseteq> set (contents (get_list w q))"
  shows "find_first xs (find_item_by_message_ptr q m) =
    Done (list_item_at (dropWhile (\<lambda>x. message (the (items q (snd x))) \<noteq> m) xs))"
  using assms(2)
proof (induction xs)
  case (Cons x xs)
  obtain h p where x: "x = (h, p)" by (cases x)
  have "(h, p) \<in> set (contents (get_list w q))" using Cons.prems x by auto
  note item = inv_item [OF assms(1) this]
  show ?case using Cons item x by (simp add: find_item_by_message_ptr_def list_item_at_def)
qed (simp add: list_item_at_def)

lemma view_takeWhile: "view q (takeWhile (\<lambda>x. P (the (items q (snd x)))) xs) = takeWhile P (view q xs)"
  by (simp add: view_def takeWhile_map comp_def)

lemma view_dropWhile: "view q (dropWhile (\<lambda>x. P (the (items q (snd x)))) xs) = dropWhile P (view q xs)"
  by (simp add: view_def dropWhile_map comp_def)

lemma retry_refines:
  assumes laws: "list_laws api contents" and adds: "adds_succeed api" and inv: "mq_inv contents q"
    and c: "contents (in_progress q) = xs @ (h, p) # ys"
  shows "\<exists>q' e'. retry_sending_message api h q e = Done (True, q', e') \<and> mq_inv contents q'
    \<and> mq_abs contents q' = (mq_abs contents q)\<lparr>a_in_progress := view q (xs @ ys),
        a_pending := a_pending (mq_abs contents q) @ [the (items q p)]\<rparr>"
proof -
  obtain ok l e1 where r: "singlylinkedlist_remove api (in_progress q) h e = (ok, l, e1)"
    by (cases "singlylinkedlist_remove api (in_progress q) h e") auto
  note rem = list_remove [OF laws c r]
  obtain h' l' e2 where a: "singlylinkedlist_add api (pending q) p e1 = (Some h', l', e2)"
  proof (cases "singlylinkedlist_add api (pending q) p e1")
    case (fields a b c)
    then have "a \<noteq> None" using adds unfolding adds_succeed_def by (metis fst_conv)
    then show thesis using that fields by auto
  qed
  have cl': "contents l' = contents (pending q) @ [(h', p)]" using list_add [OF laws a] by simp
  obtain q' where q': "q' = q\<lparr>in_progress := l, pending := l'\<rparr>" by blast
  have run: "retry_sending_message api h q e = Done (True, q', e2)"
    using rem(1) by (simp add: retry_sending_message_def list_item(2) [OF laws c] r a q')
  have P: "ptrs contents Pending q' = ptrs contents Pending q @ [p]"
    "ptrs contents InProgress q' = map snd (xs @ ys)"
    "ptrs contents InProgress q = map snd xs @ p # map snd ys"
    using c rem(2) cl' by (simp_all add: ptrs_def q')
  have "mq_inv contents q'"
    using inv unfolding mq_inv_def P by (auto simp: q')
  moreover have "mq_abs contents q' = (mq_abs contents q)\<lparr>a_in_progress := view q (xs @ ys),
        a_pending := a_pending (mq_abs contents q) @ [the (items q p)]\<rparr>"
    by (simp add: mq_abs_def held_def P) (simp add: q' view_def)
  ultimately show ?thesis using run by blast
qed

lemma completed_refines:
  assumes laws: "list_laws api contents" and inv: "mq_inv contents q"
    and adds: "result = MESSAGE_QUEUE_RETRYABLE_ERROR \<Longrightarrow> adds_succeed api"
  shows "yields contents (a_complete m result reason (mq_abs contents q))
    (on_process_message_completed_callback api (Some m) result reason q e)"
proof -
  let ?P = "\<lambda>i. message i \<noteq> m"
  let ?c = "contents (in_progress q)"
  let ?todo = "dropWhile (\<lambda>x. ?P (the (items q (snd x)))) ?c"
  let ?xs = "takeWhile (\<lambda>x. ?P (the (items q (snd x)))) ?c"
  have find: "singlylinkedlist_find api (in_progress q) (find_item_by_message_ptr q m) = Done (list_item_at ?todo)"
    using find_first_inv [OF inv, of ?c InProgress] by (simp add: list_find [OF laws])
  have hv: "held contents InProgress q = view q ?c" by (simp add: held_view)
  show ?thesis
  proof (cases ?todo)
    case Nil
    then have "dropWhile ?P (view q ?c) = []"
      unfolding view_dropWhile [symmetric] by (simp only: view_simps)
    then have "a_complete m result reason (mq_abs contents q) = mq_abs contents q"
      unfolding a_complete_def abs_limits hv by (simp only: list.case)
    moreover have "on_process_message_completed_callback api (Some m) result reason q e = Done (q, e)"
      unfolding on_process_message_completed_callback_def option.case find Nil by (simp add: list_item_at_def)
    ultimately show ?thesis by (simp add: yields_Done inv)
  next
    case (Cons x ys)
    obtain h p where x: "x = (h, p)" by (cases x)
    have c: "?c = ?xs @ (h, p) # ys" using Cons x takeWhile_dropWhile_id by metis
    let ?i = "the (items q p)"
    have dv: "dropWhile ?P (view q ?c) = ?i # view q ys" "takeWhile ?P (view q ?c) = view q ?xs"
      using view_dropWhile [of q ?P ?c] view_takeWhile [of q ?P ?c] Cons x by simp_all
    have abs: "a_complete m result reason (mq_abs contents q) =
       (if result = MESSAGE_QUEUE_RETRYABLE_ERROR \<and> number_of_attempts ?i \<le> max_retry_count q
        then (mq_abs contents q)\<lparr>a_in_progress := view q (?xs @ ys),
               a_pending := a_pending (mq_abs contents q) @ [?i]\<rparr>
        else a_emit (completion (final_result result) reason ?i)
               ((mq_abs contents q)\<lparr>a_in_progress := view q (?xs @ ys)\<rparr>))"
      by (auto simp: a_complete_def hv dv Let_def)
    have "(h, p) \<in> set (contents (get_list InProgress q))" by (subst get_list.simps, subst c) simp
    note item = inv_item [OF inv this]
    have start: "on_process_message_completed_callback api (Some m) result reason q e =
       run_bind (if should_retry_sending q ?i result then retry_sending_message api h q e
                 else Done (False, q, e))
         (\<lambda>(retried, q, e). if retried then Done (q, e)
            else dequeue_message_and_fire_callback api InProgress h result reason q e)"
      using Cons x item(2)
      by (simp add: on_process_message_completed_callback_def find list_item_at_def list_item(2) [OF laws c])
    show ?thesis
    proof (cases "should_retry_sending q ?i result")
      case True
      then have "adds_succeed api" using adds by (simp add: should_retry_sending_def)
      from retry_refines [OF laws this inv c, of e] True show ?thesis
        unfolding start abs by (auto simp: yields_def should_retry_sending_def)
    next
      case False
      have cp: "contents (get_list InProgress q) = ?xs @ (h, p) # ys" using c by simp
      obtain q' e' where d: "dequeue_message_and_fire_callback api InProgress h result reason q e = Done (q', e')"
          "mq_inv contents q'"
          "mq_abs contents q' = a_emit (completion (final_result result) reason ?i)
             (a_put InProgress (map (\<lambda>p. the (items q p)) (map snd (?xs @ ys))) (mq_abs contents q))"
        by (rule dequeue_refines [OF laws inv cp, of result reason e]) auto
      have "a_complete m result reason (mq_abs contents q) =
          a_emit (completion (final_result result) reason ?i)
            ((mq_abs contents q)\<lparr>a_in_progress := view q (?xs @ ys)\<rparr>)"
        unfolding abs using False by (auto simp: should_retry_sending_def)
      with d False show ?thesis
        unfolding start by (simp add: yields_def view_def comp_def)
    qed
  qed
qed

text \<open>A completion without a message is ignored.\<close>

definition a_report ::
  "nat option \<times> MESSAGE_QUEUE_RESULT \<times> nat option \<Rightarrow> abstract_queue \<Rightarrow> abstract_queue" where
  "a_report c a = (case c of (None, _, _) \<Rightarrow> a | (Some m, result, reason) \<Rightarrow> a_complete m result reason a)"

lemma report_completions_refines:
  assumes laws: "list_laws api contents"
    and adds: "adds_succeed api \<or> (\<forall>c \<in> set cs. fst (snd c) \<noteq> MESSAGE_QUEUE_RETRYABLE_ERROR)"
  shows "mq_inv contents q
    \<Longrightarrow> yields contents (fold a_report cs (mq_abs contents q)) (report_completions api cs q e)"
  using adds
proof (induction cs arbitrary: q e)
  case (Cons c cs)
  obtain msg result reason where c: "c = (msg, result, reason)" by (cases c)
  have adds: "result = MESSAGE_QUEUE_RETRYABLE_ERROR \<Longrightarrow> adds_succeed api"
    using Cons.prems(2) c by auto
  have one: "yields contents (a_report c (mq_abs contents q))
      (on_process_message_completed_callback api msg result reason q e)"
    using completed_refines [OF laws Cons.prems(1) adds] Cons.prems(1)
    by (cases msg) (simp_all add: c a_report_def on_process_message_completed_callback_def yields_Done)
  have "yields contents (fold a_report (c # cs) (mq_abs contents q))
      (run_bind (on_process_message_completed_callback api msg result reason q e)
        (\<lambda>(q, e). report_completions api cs q e))"
  proof (rule yields_bind [OF one], goal_cases)
    case (1 q1 e1)
    have "adds_succeed api \<or> (\<forall>c \<in> set cs. fst (snd c) \<noteq> MESSAGE_QUEUE_RETRYABLE_ERROR)"
      using Cons.prems(2) by auto
    from Cons.IH [OF 1(1) this, of e1] show ?case by (simp add: 1(2))
  qed
  then show ?case by (simp add: c)
qed (simp add: yields_Done)

subsection \<open>The account of messages\<close>

text \<open>
  The ticket of an item is what its completion tells the user. The account of a queue is the
  tickets it holds and those it has given back: no operation but message\_queue\_add changes it,
  so a message is completed exactly once, or still held.
\<close>

definition item_tickets :: "MESSAGE_QUEUE_ITEM list \<Rightarrow> (nat \<times> nat \<times> nat) list" where
  "item_tickets is = concat (map (\<lambda>i. case on_message_processing_completed_callback i of
      None \<Rightarrow> [] | Some cb \<Rightarrow> [(cb, message i, user_context i)]) is)"

definition event_tickets :: "mq_event list \<Rightarrow> (nat \<times> nat \<times> nat) list" where
  "event_tickets evs = concat (map (\<lambda>ev. case ev of
      MessageCompleted cb m r reason ctx \<Rightarrow> [(cb, m, ctx)] | ProcessMessage m ctx \<Rightarrow> []) evs)"

definition account :: "abstract_queue \<Rightarrow> (nat \<times> nat \<times> nat) multiset" where
  "account a = mset (item_tickets (a_pending a)) + mset (item_tickets (a_in_progress a))
     + mset (event_tickets (a_events a))"

lemma tickets_simps [simp]:
  "item_tickets [] = []" "item_tickets (is @ js) = item_tickets is @ item_tickets js"
  "event_tickets [] = []" "event_tickets (es @ fs) = event_tickets es @ event_tickets fs"
  "event_tickets [ProcessMessage m ctx] = []"
  "event_tickets (completion r reason i) = item_tickets [i]"
  by (simp_all add: item_tickets_def event_tickets_def completion_def split: option.splits)

lemma item_tickets_Cons: "item_tickets (i # is) = item_tickets [i] @ item_tickets is"
  by (simp add: item_tickets_def)

lemma event_tickets_completions:
  "event_tickets (concat (map (completion r reason) is)) = item_tickets is"
proof (induction "is")
  case (Cons i "is")
  then show ?case by (simp add: item_tickets_Cons [of i "is"])
qed simp

lemma event_tickets_timed_out [simp]: "event_tickets (timed_out is) = item_tickets is"
  by (simp add: timed_out_def event_tickets_completions)

lemma mset_tickets_filter:
  "mset (item_tickets (filter P is)) + mset (item_tickets (filter (Not \<circ> P) is)) = mset (item_tickets is)"
proof (induction "is")
  case (Cons i "is")
  then show ?case
    by (cases "P i") (simp_all add: item_tickets_Cons [of i "is"] item_tickets_Cons [of i "filter P is"]
        item_tickets_Cons [of i "filter (\<lambda>a. \<not> P a) is"] union_assoc [symmetric] union_commute)
qed simp

lemma mset_tickets_while:
  "mset (item_tickets (takeWhile P is)) + mset (item_tickets (dropWhile P is)) = mset (item_tickets is)"
  by (metis mset_append takeWhile_dropWhile_id tickets_simps(2))

definition limits :: "abstract_queue \<Rightarrow> nat \<times> nat \<times> nat" where
  "limits a = (a_max_enqueued a, a_max_processing a, a_max_retry a)"

lemma a_complete_cases:
  obtains (none) "a_complete m result reason a = a"
  | (found) xs i rest where "a_in_progress a = xs @ i # rest"
      "a_complete m result reason a =
        (if result = MESSAGE_QUEUE_RETRYABLE_ERROR \<and> number_of_attempts i \<le> a_max_retry a
         then a\<lparr>a_in_progress := xs @ rest, a_pending := a_pending a @ [i]\<rparr>
         else a_emit (completion (final_result result) reason i) (a\<lparr>a_in_progress := xs @ rest\<rparr>))"
proof (cases "dropWhile (\<lambda>i. message i \<noteq> m) (a_in_progress a)")
  case Nil
  then have "a_complete m result reason a = a" unfolding a_complete_def by (simp only: list.case)
  then show thesis by (rule none)
next
  case (Cons i rest)
  have "a_in_progress a = takeWhile (\<lambda>i. message i \<noteq> m) (a_in_progress a) @ i # rest"
    by (metis Cons takeWhile_dropWhile_id)
  then show thesis
    by (rule found) (unfold a_complete_def Cons Let_def list.case, rule refl)
qed

lemma a_complete_account: "account (a_complete m result reason a) = account a"
proof (cases rule: a_complete_cases [of m result reason a])
  case (found xs i rest)
  have "item_tickets (a_in_progress a) = item_tickets xs @ item_tickets [i] @ item_tickets rest"
    unfolding found(1) by (simp add: item_tickets_Cons [of i rest])
  then show ?thesis unfolding found(2) by (simp add: account_def)
qed simp

lemma a_timeouts_account: "account (a_timeouts now a) = account a"
proof -
  have 1: "account (a_emit (timed_out (takeWhile P (a_pending b)) @ timed_out (filter P (a_in_progress b)))
      (b\<lparr>a_pending := dropWhile P (a_pending b), a_in_progress := filter (Not \<circ> P) (a_in_progress b)\<rparr>)) = account b"
    for P b
    by (simp add: account_def mset_tickets_while [of P "a_pending b", symmetric]
        mset_tickets_filter [of P "a_in_progress b", symmetric] union_ac)
  have 2: "account (a_emit (timed_out (takeWhile P (a_in_progress b)))
      (b\<lparr>a_in_progress := dropWhile P (a_in_progress b)\<rparr>)) = account b" for P b
    by (simp add: account_def mset_tickets_while [of P "a_in_progress b", symmetric] union_ac)
  show ?thesis unfolding a_timeouts_def Let_def by (simp only: 1 2 split: if_split) simp
qed

lemma a_cancel_all_account: "account (a_cancel_all a) = account a"
  by (simp add: a_cancel_all_def account_def event_tickets_completions add.commute)

lemma a_complete_limits: "limits (a_complete m result reason a) = limits a"
  by (cases rule: a_complete_cases [of m result reason a]) (simp_all add: limits_def)

lemma a_timeouts_limits: "limits (a_timeouts now a) = limits a"
  by (simp add: a_timeouts_def limits_def Let_def)

lemma a_timeouts_size: "a_size (a_timeouts now a) \<le> a_size a"
proof -
  have "length (dropWhile P xs) \<le> length xs" "length (filter P xs) \<le> length xs"
    for P and xs :: "MESSAGE_QUEUE_ITEM list" by (simp_all add: length_dropWhile_le)
  then show ?thesis
    unfolding a_size_def a_timeouts_def Let_def
    by (auto intro!: add_mono le_trans [OF length_dropWhile_le])
qed

subsection \<open>Handing out pending messages\<close>

text \<open>
  The attempts a queue can still make. Every turn of the loop of process\_pending\_messages uses
  one up, also when the owner reports retryable failures at once.
\<close>

definition pending_turns :: "nat \<Rightarrow> MESSAGE_QUEUE_ITEM \<Rightarrow> nat" where
  "pending_turns max_retry i = Suc (Suc max_retry - number_of_attempts i)"

definition progress_turns :: "nat \<Rightarrow> MESSAGE_QUEUE_ITEM \<Rightarrow> nat" where
  "progress_turns max_retry i =
     (if number_of_attempts i \<le> max_retry then Suc (Suc max_retry - number_of_attempts i) else 0)"

definition turns :: "abstract_queue \<Rightarrow> nat" where
  "turns a = sum_list (map (pending_turns (a_max_retry a)) (a_pending a))
     + sum_list (map (progress_turns (a_max_retry a)) (a_in_progress a))"

lemma turns_emit [simp]: "turns (a_emit evs a) = turns a"
  by (simp add: turns_def)

lemma a_complete_turns: "turns (a_complete m result reason a) \<le> turns a"
proof (cases rule: a_complete_cases [of m result reason a])
  case (found xs i rest)
  have w: "number_of_attempts i \<le> a_max_retry a \<Longrightarrow>
      pending_turns (a_max_retry a) i = progress_turns (a_max_retry a) i"
    by (simp add: pending_turns_def progress_turns_def)
  have t: "turns a = sum_list (map (pending_turns (a_max_retry a)) (a_pending a))
     + (sum_list (map (progress_turns (a_max_retry a)) xs) + progress_turns (a_max_retry a) i
        + sum_list (map (progress_turns (a_max_retry a)) rest))"
    unfolding turns_def found(1) by simp
  show ?thesis unfolding found(2) t by (simp add: turns_def w)
qed simp

lemma fold_report:
  "account (fold a_report cs a) = account a \<and> limits (fold a_report cs a) = limits a
   \<and> turns (fold a_report cs a) \<le> turns a"
proof (induction cs arbitrary: a)
  case (Cons c cs)
  have "account (a_report c a) = account a \<and> limits (a_report c a) = limits a \<and> turns (a_report c a) \<le> turns a"
    by (cases c; cases "fst c")
      (simp_all add: a_report_def a_complete_account a_complete_limits a_complete_turns)
  with Cons [of "a_report c a"] show ?case by (auto intro: le_trans)
qed simp

text \<open>One turn of the loop: the first pending item is handed out, or is completed with an error.\<close>

definition handed_out :: "int \<Rightarrow> MESSAGE_QUEUE_ITEM \<Rightarrow> MESSAGE_QUEUE_ITEM" where
  "handed_out now i = i\<lparr>processing_start_time := now, number_of_attempts := Suc (number_of_attempts i)\<rparr>"

definition a_hand_out :: "int \<Rightarrow> abstract_queue \<Rightarrow> abstract_queue" where
  "a_hand_out now a =
     (let i = hd (a_pending a) in
      a_emit [ProcessMessage (message i) (user_context i)]
        (a\<lparr>a_pending := tl (a_pending a), a_in_progress := a_in_progress a @ [handed_out now i]\<rparr>))"

definition a_drop_first :: "abstract_queue \<Rightarrow> abstract_queue" where
  "a_drop_first a =
     a_emit (completion MESSAGE_QUEUE_ERROR None (hd (a_pending a))) (a\<lparr>a_pending := tl (a_pending a)\<rparr>)"

lemma pending_turn:
  fixes q :: "('l, 'm) MESSAGE_QUEUE_scheme" and contents :: "'l \<Rightarrow> ('h \<times> nat) list"
  assumes laws: "list_laws api contents" and inv: "mq_inv contents q"
    and ne: "a_pending (mq_abs contents q) \<noteq> []"
  obtains (out) q' e1 e2 cs where
    "process_pending_messages (Suc n) os api on_process q e =
       run_bind (report_completions api cs q' e2) (\<lambda>(q, e). process_pending_messages n os api on_process q e)"
    "mq_inv contents q'" "mq_abs contents q' = a_hand_out (fst (os_time os e1)) (mq_abs contents q)"
    "\<exists>m ctx e3. cs = fst (on_process m ctx e3)" "fst (os_time os e1) \<noteq> INDEFINITE_TIME"
  | (drop) q' e1 e2 where
    "process_pending_messages (Suc n) os api on_process q e = process_pending_messages n os api on_process q' e2"
    "mq_inv contents q'" "mq_abs contents q' = a_drop_first (mq_abs contents q)"
    "fst (os_time os e1) = INDEFINITE_TIME \<or> \<not> adds_succeed api"
proof -
  obtain h p xs where c: "contents (pending q) = (h, p) # xs"
    using ne by (cases "contents (pending q)") (auto simp: held_def ptrs_def)
  have c1: "contents (pending q) = [] @ (h, p) # xs" using c by simp
  have "(h, p) \<in> set (contents (get_list Pending q))" using c by simp
  note item = inv_item [OF inv this]
  obtain i where i: "items q p = Some i" using item(3) by blast
  obtain ok l e1 where r: "singlylinkedlist_remove api (pending q) h e = (ok, l, e1)"
    by (cases "singlylinkedlist_remove api (pending q) h e") auto
  note rem = list_remove [OF laws c1 r]
  obtain now e2 where t: "os_time os e1 = (now, e2)" by (cases "os_time os e1") auto
  have P: "ptrs contents Pending q = p # map snd xs" using c by (simp add: ptrs_def)
  have pn: "p \<notin> snd ` set xs" "p \<notin> set (ptrs contents InProgress q)" "0 < p"
    using inv item(1) by (auto simp: mq_inv_def P)
  have hi: "hd (a_pending (mq_abs contents q)) = i" "tl (a_pending (mq_abs contents q)) = view q xs"
    by (simp_all add: held_def P i view_def comp_def)
  have vx: "view q' xs = view q xs" if "\<And>r. r \<noteq> p \<Longrightarrow> items q' r = items q r" for q' :: "('l, 'm) MESSAGE_QUEUE_scheme"
    using pn(1) by (auto intro!: view_cong that)
  have dropped: "mq_inv contents q' \<and> mq_abs contents q' = a_drop_first (mq_abs contents q)"
    if q': "items q' = (items q)(p := None)" "contents (pending q') = xs" "contents (in_progress q') = contents (in_progress q)"
      "next_item q' = next_item q" "events q' = events q @ completion MESSAGE_QUEUE_ERROR None i"
      "max_retry_count q' = max_retry_count q"
      "max_message_enqueued_time_secs q' = max_message_enqueued_time_secs q"
      "max_message_processing_time_secs q' = max_message_processing_time_secs q"
    for q' :: "('l, 'm) MESSAGE_QUEUE_scheme"
  proof -
    have P': "ptrs contents Pending q' = map snd xs" "ptrs contents InProgress q' = ptrs contents InProgress q"
      by (simp_all add: ptrs_def q')
    have hp: "held contents InProgress q' = held contents InProgress q"
      using pn(2) by (auto simp: held_def P' q')
    have hv: "held contents Pending q' = view q xs"
      using vx [of q'] by (simp add: held_view [of contents Pending q' xs] q')
    show ?thesis
      using inv unfolding mq_inv_def P P' a_drop_first_def hi
      by (auto simp: mq_abs_def a_emit_def q' hp hv)
  qed
  let ?i1 = "i\<lparr>processing_start_time := now\<rparr>"
  let ?q1 = "write_item p ?i1 (q\<lparr>pending := l\<rparr>)"
  show thesis
  proof (cases "now = INDEFINITE_TIME")
    case True
    let ?q2 = "(call_user ?i1 MESSAGE_QUEUE_ERROR None ?q1)\<lparr>items := (items ?q1)(p := None)\<rparr>"
    have "process_pending_messages (Suc n) os api on_process q e =
        process_pending_messages n os api on_process ?q2 e2"
      using True rem(1) pn(3) i
      by (simp add: list_head [OF laws] c list_item(2) [OF laws c1] r read_item_def t Let_def
          free_item_def call_user_def emit_def write_item_def split: option.splits)
    moreover have "mq_inv contents ?q2 \<and> mq_abs contents ?q2 = a_drop_first (mq_abs contents q)"
      by (rule dropped) (use rem(2) in \<open>auto simp: call_user_def emit_def write_item_def completion_def split: option.splits\<close>)
    ultimately show thesis using drop [of ?q2 e2 e1] True t by simp
  next
    case False
    obtain h' l' e3 where a: "singlylinkedlist_add api (in_progress q) p e2 = (h', l', e3)"
      by (cases "singlylinkedlist_add api (in_progress q) p e2") auto
    note al = list_add [OF laws a]
    show thesis
    proof (cases h')
      case None
      let ?q1' = "?q1\<lparr>in_progress := l'\<rparr>"
      let ?q2 = "(call_user ?i1 MESSAGE_QUEUE_ERROR None ?q1')\<lparr>items := (items ?q1')(p := None)\<rparr>"
      have "process_pending_messages (Suc n) os api on_process q e =
          process_pending_messages n os api on_process ?q2 e3"
        using False rem(1) pn(3) i None a
        by (simp add: list_head [OF laws] c list_item(2) [OF laws c1] r read_item_def t Let_def
            free_item_def call_user_def emit_def write_item_def split: option.splits)
      moreover have "mq_inv contents ?q2 \<and> mq_abs contents ?q2 = a_drop_first (mq_abs contents q)"
        by (rule dropped)
          (use rem(2) al None in \<open>auto simp: call_user_def emit_def write_item_def completion_def split: option.splits\<close>)
      moreover have "\<not> adds_succeed api" using a None unfolding adds_succeed_def by (metis fst_conv)
      ultimately show thesis using drop [of ?q2 e3 e1] by simp
    next
      case (Some h2)
      let ?i2 = "handed_out now i"
      let ?q2 = "emit (ProcessMessage (message i) (user_context i)) (write_item p ?i2 (?q1\<lparr>in_progress := l'\<rparr>))"
      obtain cs e4 where cs: "on_process (message i) (user_context i) e3 = (cs, e4)"
        by (cases "on_process (message i) (user_context i) e3") auto
      have run: "process_pending_messages (Suc n) os api on_process q e =
          run_bind (report_completions api cs ?q2 e4) (\<lambda>(q, e). process_pending_messages n os api on_process q e)"
        using False rem(1) pn(3) i Some a cs
        by (simp add: list_head [OF laws] c list_item(2) [OF laws c1] r read_item_def t Let_def
            handed_out_def write_item_def)
      have P': "ptrs contents Pending ?q2 = map snd xs"
        "ptrs contents InProgress ?q2 = ptrs contents InProgress q @ [p]"
        using rem(2) al Some by (simp_all add: ptrs_def emit_def write_item_def)
      have it: "items ?q2 = (items q)(p \<mapsto> ?i2)" by (simp add: emit_def write_item_def)
      have hp: "held contents InProgress ?q2 = held contents InProgress q @ [?i2]"
        using pn(2) by (auto simp: held_def P' it)
      have hv: "held contents Pending ?q2 = view q xs"
        using pn(1) by (auto simp: held_def P' it view_def)
      have "mq_inv contents ?q2"
        using inv i unfolding mq_inv_def P P' it by (auto simp: emit_def write_item_def)
      moreover have "mq_abs contents ?q2 = a_hand_out now (mq_abs contents q)"
        unfolding a_hand_out_def Let_def hi
        by (simp add: mq_abs_def hp hv a_emit_def) (simp add: emit_def write_item_def)
      ultimately show thesis using out [OF run] False t cs by (metis fst_conv)
    qed
  qed
qed

lemma turns_hand_out: "a_pending a \<noteq> [] \<Longrightarrow> turns (a_hand_out now a) < turns a"
proof -
  assume ne: "a_pending a \<noteq> []"
  then obtain i rest where p: "a_pending a = i # rest" by (cases "a_pending a") auto
  have "progress_turns (a_max_retry a) (handed_out now i) < pending_turns (a_max_retry a) i"
    by (auto simp: progress_turns_def pending_turns_def handed_out_def)
  then show ?thesis by (simp add: a_hand_out_def Let_def p turns_def)
qed

lemma turns_drop_first: "a_pending a \<noteq> [] \<Longrightarrow> turns (a_drop_first a) < turns a"
  by (cases "a_pending a") (simp_all add: a_drop_first_def turns_def pending_turns_def)

lemma account_hand_out: "a_pending a \<noteq> [] \<Longrightarrow> account (a_hand_out now a) = account a"
proof -
  assume ne: "a_pending a \<noteq> []"
  then obtain i rest where p: "a_pending a = i # rest" by (cases "a_pending a") auto
  have "item_tickets [handed_out now i] = item_tickets [i]"
    by (simp add: item_tickets_def handed_out_def split: option.split)
  then show ?thesis
    by (simp add: a_hand_out_def Let_def p account_def item_tickets_Cons [of i rest] union_ac)
qed

lemma account_drop_first: "a_pending a \<noteq> [] \<Longrightarrow> account (a_drop_first a) = account a"
proof -
  assume ne: "a_pending a \<noteq> []"
  then obtain i rest where p: "a_pending a = i # rest" by (cases "a_pending a") auto
  show ?thesis by (simp add: a_drop_first_def p account_def item_tickets_Cons [of i rest] union_ac)
qed

lemma limits_turn [simp]:
  "limits (a_hand_out now a) = limits a" "limits (a_drop_first a) = limits a"
  by (simp_all add: a_hand_out_def a_drop_first_def limits_def Let_def)

text \<open>
  The owner may report a retryable failure only if the lists can be grown: see
  \<open>retry_can_use_a_freed_item\<close> below for why.
\<close>

definition can_retry ::
  "('l, 'h, 'e, 'm) linked_list_scheme \<Rightarrow> 'e process_callback \<Rightarrow> bool" where
  "can_retry api on_process \<longleftrightarrow>
     adds_succeed api
     \<or> (\<forall>m ctx e. \<forall>c \<in> set (fst (on_process m ctx e)). fst (snd c) \<noteq> MESSAGE_QUEUE_RETRYABLE_ERROR)"

definition handed_out_from :: "abstract_queue \<Rightarrow> abstract_queue \<Rightarrow> bool" where
  "handed_out_from a a' \<longleftrightarrow> account a' = account a \<and> limits a' = limits a \<and> a_pending a' = []"

lemma process_pending_total:
  assumes laws: "list_laws api contents" and retry: "can_retry api on_process"
  shows "mq_inv contents q \<Longrightarrow> turns (mq_abs contents q) < n
    \<Longrightarrow> \<exists>q' e'. process_pending_messages n os api on_process q e = Done (q', e')
      \<and> mq_inv contents q' \<and> handed_out_from (mq_abs contents q) (mq_abs contents q')"
proof (induction n arbitrary: q e)
  case (Suc n)
  let ?a = "mq_abs contents q"
  show ?case
  proof (cases "a_pending ?a = []")
    case True
    then have "contents (pending q) = []" by (simp add: held_def ptrs_def)
    then show ?thesis using Suc.prems True
      by (simp add: list_head [OF laws] handed_out_from_def)
  next
    case False
    show ?thesis
    proof (rule pending_turn [OF laws Suc.prems(1) False, of n os on_process e], goal_cases)
      case out: (1 q1 e1 e2 cs)
      have "adds_succeed api \<or> (\<forall>c \<in> set cs. fst (snd c) \<noteq> MESSAGE_QUEUE_RETRYABLE_ERROR)"
        using retry out(4) by (auto simp: can_retry_def)
      from report_completions_refines [OF laws this out(2), of e2]
      obtain q2 e3 where r: "report_completions api cs q1 e2 = Done (q2, e3)" "mq_inv contents q2"
          "mq_abs contents q2 = fold a_report cs (mq_abs contents q1)"
        by (auto simp: yields_def)
      have f: "account (mq_abs contents q2) = account ?a" "limits (mq_abs contents q2) = limits ?a"
        "turns (mq_abs contents q2) < turns ?a"
        using fold_report [of cs "mq_abs contents q1"] turns_hand_out [OF False]
          account_hand_out [OF False] unfolding r(3) out(3) by (auto intro: le_less_trans)
      then have "turns (mq_abs contents q2) < n" using Suc.prems(2) by linarith
      from Suc.IH [OF r(2) this, of e3] show ?thesis
        unfolding out(1) r(1) handed_out_from_def using f by simp
    next
      case drop: (2 q1 e1 e2)
      have f: "account (mq_abs contents q1) = account ?a" "limits (mq_abs contents q1) = limits ?a"
        "turns (mq_abs contents q1) < turns ?a"
        using account_drop_first [OF False] turns_drop_first [OF False] unfolding drop(3) by simp_all
      then have "turns (mq_abs contents q1) < n" using Suc.prems(2) by linarith
      from Suc.IH [OF drop(2) this, of e2] show ?thesis
        unfolding drop(1) handed_out_from_def using f by simp
    qed
  qed
qed simp

lemma sum_list_parts_le:
  "sum_list (map f (dropWhile P xs)) \<le> (sum_list (map f xs) :: nat)"
  "sum_list (map f (filter P xs)) \<le> (sum_list (map f xs) :: nat)"
  by (induction xs) auto

lemma turns_timeouts: "turns (a_timeouts now a) \<le> turns a"
proof -
  have 1: "turns (a_emit evs (b\<lparr>a_pending := dropWhile P (a_pending b),
      a_in_progress := filter (Not \<circ> P) (a_in_progress b)\<rparr>)) \<le> turns b" for evs b P
    by (simp add: turns_def add_mono sum_list_parts_le)
  have 2: "turns (a_emit evs (b\<lparr>a_in_progress := dropWhile P (a_in_progress b)\<rparr>)) \<le> turns b" for evs b P
    by (simp add: turns_def sum_list_parts_le)
  show ?thesis
    unfolding a_timeouts_def Let_def
    by (simp only: split: if_split) (intro conjI impI 1 2 order_refl le_trans [OF 2 1])
qed

lemma do_work_total:
  assumes laws: "list_laws api contents" and retry: "can_retry api on_process"
    and inv: "mq_inv contents q" and n: "a_size (mq_abs contents q) + turns (mq_abs contents q) < n"
  shows "\<exists>q' e'. message_queue_do_work n os api on_process q e = Done (q', e')
      \<and> mq_inv contents q' \<and> handed_out_from (mq_abs contents q) (mq_abs contents q')"
proof -
  let ?a = "mq_abs contents q"
  obtain now e1 where t: "os_time os e = (now, e1)" by (cases "os_time os e") auto
  have "a_size ?a < n" using n by simp
  from process_timeouts_refines [OF laws inv this t]
  obtain q1 e2 where q1: "process_timeouts n os api q e = Done (q1, e2)" "mq_inv contents q1"
      "mq_abs contents q1 = (if now = INDEFINITE_TIME then ?a else a_timeouts now ?a)"
    by (auto simp: yields_def)
  have a1: "account (mq_abs contents q1) = account ?a" "limits (mq_abs contents q1) = limits ?a"
    "turns (mq_abs contents q1) \<le> turns ?a"
    unfolding q1(3) by (auto simp: a_timeouts_account a_timeouts_limits turns_timeouts)
  then have "turns (mq_abs contents q1) < n" using n by linarith
  from process_pending_total [OF laws retry q1(2) this, of os e2] show ?thesis
    unfolding message_queue_do_work_def q1(1) using a1 by (auto simp: handed_out_from_def)
qed

text \<open>With nothing to report, a constant clock and lists that grow: first in, first out.\<close>

definition a_hand_out_all :: "int \<Rightarrow> abstract_queue \<Rightarrow> abstract_queue" where
  "a_hand_out_all now a =
     a_emit (map (\<lambda>i. ProcessMessage (message i) (user_context i)) (a_pending a))
       (a\<lparr>a_pending := [], a_in_progress := a_in_progress a @ map (handed_out now) (a_pending a)\<rparr>)"

lemma hand_out_all_step:
  "a_pending a \<noteq> [] \<Longrightarrow> a_hand_out_all now (a_hand_out now a) = a_hand_out_all now a"
  by (cases "a_pending a") (simp_all add: a_hand_out_all_def a_hand_out_def Let_def a_emit_def)

lemma process_pending_in_order:
  assumes laws: "list_laws api contents" and adds: "adds_succeed api"
    and quiet: "\<And>m ctx e. fst (on_process m ctx e) = []"
    and clock: "\<And>e. fst (os_time os e) = now" "now \<noteq> INDEFINITE_TIME"
  shows "mq_inv contents q \<Longrightarrow> length (a_pending (mq_abs contents q)) < n
    \<Longrightarrow> yields contents (a_hand_out_all now (mq_abs contents q))
          (process_pending_messages n os api on_process q e)"
proof (induction n arbitrary: q e)
  case (Suc n)
  let ?a = "mq_abs contents q"
  show ?case
  proof (cases "a_pending ?a = []")
    case True
    then have "contents (pending q) = []" by (simp add: held_def ptrs_def)
    moreover have "a_hand_out_all now ?a = ?a" using True by (simp add: a_hand_out_all_def)
    ultimately show ?thesis using Suc.prems by (simp add: list_head [OF laws] yields_Done)
  next
    case False
    show ?thesis
    proof (rule pending_turn [OF laws Suc.prems(1) False, of n os on_process e], goal_cases)
      case out: (1 q1 e1 e2 cs)
      have "cs = []" using out(4) quiet by auto
      have "length (a_pending (mq_abs contents q1)) < n"
        using Suc.prems(2) False unfolding out(3) a_hand_out_def Let_def
        by (cases "held contents Pending q") simp_all
      from Suc.IH [OF out(2) this, of e2] show ?thesis
        unfolding out(1,3) clock(1) hand_out_all_step [OF False] by (simp add: \<open>cs = []\<close>)
    next
      case drop: (2 q1 e1 e2)
      then show ?thesis using clock adds by simp
    qed
  qed
qed simp

subsection \<open>Moving everything back, adding, creating\<close>

lemma move_refines:
  assumes laws: "list_laws api contents" and adds: "adds_succeed api" and w: "from \<noteq> to"
  shows "mq_inv contents q \<Longrightarrow> length (a_get from (mq_abs contents q)) < n
    \<Longrightarrow> \<exists>q' e'. move_messages_between_lists n api from to q e = Done (True, q', e') \<and> mq_inv contents q'
      \<and> mq_abs contents q' = a_put from [] (a_put to
          (a_get to (mq_abs contents q) @ a_get from (mq_abs contents q)) (mq_abs contents q))"
proof (induction n arbitrary: q e)
  case (Suc n)
  let ?a = "mq_abs contents q"
  show ?case
  proof (cases "contents (get_list from q)")
    case Nil
    then have "held contents from q = []" by (simp add: held_def ptrs_def)
    then have "a_put from [] (a_put to (a_get to ?a @ a_get from ?a) ?a) = ?a"
      using a_put_same [of to contents q] a_put_same [of "from" contents q] by simp
    with Nil Suc.prems show ?thesis by (simp add: list_head [OF laws])
  next
    case (Cons x xs)
    obtain h p where x: "x = (h, p)" by (cases x)
    have c: "contents (get_list from q) = [] @ (h, p) # xs" using Cons x by simp
    have "(h, p) \<in> set (contents (get_list from q))" using c by simp
    note item = inv_item [OF Suc.prems(1) this]
    obtain ok l e1 where r: "singlylinkedlist_remove api (get_list from q) h e = (ok, l, e1)"
      by (cases "singlylinkedlist_remove api (get_list from q) h e") auto
    note rem = list_remove [OF laws c r]
    obtain h' l' e2 where a: "singlylinkedlist_add api (get_list to q) p e1 = (Some h', l', e2)"
    proof (cases "singlylinkedlist_add api (get_list to q) p e1")
      case (fields a b c)
      then have "a \<noteq> None" using adds unfolding adds_succeed_def by (metis fst_conv)
      then show thesis using that fields by auto
    qed
    have cl': "contents l' = contents (get_list to q) @ [(h', p)]" using list_add [OF laws a] by simp
    obtain q' where q': "q' = put_list to l' (put_list from l q)" by blast
    have g: "get_list from q' = l" "get_list to q' = l'" "items q' = items q" "next_item q' = next_item q"
      using w by (cases "from"; cases to; simp add: q')+
    have run: "move_messages_between_lists (Suc n) api from to q e =
        move_messages_between_lists n api from to q' e2"
      using rem(1) item(1) a w
      by (simp add: list_head [OF laws] c list_item(2) [OF laws c] r q')
    have P: "ptrs contents from q' = map snd xs" "ptrs contents to q' = ptrs contents to q @ [p]"
      "ptrs contents from q = p # map snd xs"
      using rem(2) cl' c by (simp_all add: ptrs_def g)
    have inv': "mq_inv contents q'"
      using Suc.prems(1) P w unfolding mq_inv_def g by (cases "from"; cases to) auto
    have H: "held contents from q = the (items q p) # held contents from q'"
      "held contents to q' = held contents to q @ [the (items q p)]"
      by (simp_all add: held_def P g)
    have abs: "mq_abs contents q' = a_put from (held contents from q')
        (a_put to (held contents to q @ [the (items q p)]) ?a)"
      using w H by (cases "from"; cases to) (simp_all add: mq_abs_def q')
    have len: "length (a_get from (mq_abs contents q')) < n"
      using Suc.prems(2) H(1) by simp
    have fin: "a_put from [] (a_put to (a_get to (mq_abs contents q') @ a_get from (mq_abs contents q')) (mq_abs contents q'))
        = a_put from [] (a_put to (a_get to ?a @ a_get from ?a) ?a)"
      unfolding a_get_abs H unfolding abs using w by (cases "from"; cases to) simp_all
    from Suc.IH [OF inv' len, of e2] show ?thesis unfolding run fin .
  qed
qed simp

lemma move_all_refines:
  assumes laws: "list_laws api contents" and adds: "adds_succeed api" and inv: "mq_inv contents q"
    and n: "a_size (mq_abs contents q) < n"
  shows "\<exists>q' e'. message_queue_move_all_back_to_pending n api q e = Done (True, q', e')
    \<and> mq_inv contents q'
    \<and> mq_abs contents q' = (mq_abs contents q)\<lparr>
        a_pending := a_in_progress (mq_abs contents q) @ a_pending (mq_abs contents q),
        a_in_progress := []\<rparr>"
proof -
  let ?a = "mq_abs contents q"
  have "length (a_get Pending ?a) < n" using n by (simp add: a_size_def)
  from move_refines [OF laws adds _ inv this, of InProgress e]
  obtain q1 e1 where q1: "move_messages_between_lists n api Pending InProgress q e = Done (True, q1, e1)"
      "mq_inv contents q1"
      "mq_abs contents q1 = ?a\<lparr>a_in_progress := a_in_progress ?a @ a_pending ?a, a_pending := []\<rparr>"
    by auto
  have g: "a_get InProgress (mq_abs contents q1) = a_in_progress ?a @ a_pending ?a"
    "a_get Pending (mq_abs contents q1) = []"
    unfolding a_get.simps q1(3) by simp_all
  have "length (a_get InProgress (mq_abs contents q1)) < n" unfolding g using n by (simp add: a_size_def)
  from move_refines [OF laws adds _ q1(2) this, of Pending e1]
  obtain q2 e2 where q2: "move_messages_between_lists n api InProgress Pending q1 e1 = Done (True, q2, e2)"
      "mq_inv contents q2"
      "mq_abs contents q2 = a_put InProgress [] (a_put Pending (a_in_progress ?a @ a_pending ?a) (mq_abs contents q1))"
    unfolding g by auto
  have "mq_abs contents q2 = ?a\<lparr>a_pending := a_in_progress ?a @ a_pending ?a, a_in_progress := []\<rparr>"
    unfolding q2(3) unfolding q1(3) by simp
  then show ?thesis using q1(1) q2(1,2) by (simp add: message_queue_move_all_back_to_pending_def)
qed

definition new_item :: "nat \<Rightarrow> nat option \<Rightarrow> nat \<Rightarrow> int \<Rightarrow> MESSAGE_QUEUE_ITEM" where
  "new_item m callback context now =
     \<lparr>message = m, on_message_processing_completed_callback = callback, user_context = context,
      enqueue_time = now, processing_start_time = INDEFINITE_TIME, number_of_attempts = 0\<rparr>"

lemma add_refines:
  assumes laws: "list_laws api contents" and inv: "mq_inv contents q"
  shows "\<exists>ok q' e' now. message_queue_add os api (Some q) (Some m) callback context e = Done (ok, Some q', e')
    \<and> mq_inv contents q'
    \<and> mq_abs contents q' = (if ok then (mq_abs contents q)\<lparr>a_pending :=
           a_pending (mq_abs contents q) @ [new_item m callback context now]\<rparr> else mq_abs contents q)"
proof -
  let ?p = "next_item q"
  obtain ok e1 where m: "os_malloc os e = (ok, e1)" by (cases "os_malloc os e")
  obtain now e2 where t: "os_time os e1 = (now, e2)" by (cases "os_time os e1")
  obtain h l e3 where a: "singlylinkedlist_add api (pending q) ?p e2 = (h, l, e3)"
    by (cases "singlylinkedlist_add api (pending q) ?p e2") auto
  note al = list_add [OF laws a]
  have new: "?p \<notin> dom (items q)" using inv by (auto simp: mq_inv_def)
  then have pn: "?p \<notin> set (ptrs contents Pending q)" "?p \<notin> set (ptrs contents InProgress q)"
    using inv by (auto simp: mq_inv_def)
  have same: "mq_inv contents q' \<and> mq_abs contents q' = mq_abs contents q"
    if "q' = q\<lparr>next_item := Suc ?p, pending := l'\<rparr>" "contents l' = contents (pending q)" for q' l'
    using inv that by (auto simp: mq_inv_def mq_abs_def held_def ptrs_def less_SucI)
  have upd: "(items q)(?p := None) = items q" using new by auto
  show ?thesis
  proof (cases "ok \<and> now \<noteq> INDEFINITE_TIME \<and> h \<noteq> None")
    case True
    then obtain h' where h: "h = Some h'" by auto
    let ?i = "new_item m callback context now"
    let ?q' = "q\<lparr>next_item := Suc ?p, pending := l, items := (items q)(?p \<mapsto> ?i)\<rparr>"
    have run: "message_queue_add os api (Some q) (Some m) callback context e = Done (True, Some ?q', e3)"
      using True m t a h
      by (simp add: message_queue_add_def write_item_def zero_item_def new_item_def Let_def)
    have P: "ptrs contents Pending ?q' = ptrs contents Pending q @ [?p]"
      "ptrs contents InProgress ?q' = ptrs contents InProgress q"
      using al h by (simp_all add: ptrs_def)
    have "mq_inv contents ?q'"
      using inv pn unfolding mq_inv_def P by (auto simp: less_SucI)
    moreover have "mq_abs contents ?q' = (mq_abs contents q)\<lparr>a_pending := a_pending (mq_abs contents q) @ [?i]\<rparr>"
      using pn by (auto simp: mq_abs_def held_def P)
    ultimately show ?thesis using run by auto
  next
    case False
    show ?thesis
    proof (cases "ok")
      case no: False
      then have "message_queue_add os api (Some q) (Some m) callback context e = Done (False, Some q, e1)"
        using m by (simp add: message_queue_add_def)
      then show ?thesis using inv by auto
    next
      case yes: True
      show ?thesis
      proof (cases "now = INDEFINITE_TIME")
        case True
        have "message_queue_add os api (Some q) (Some m) callback context e =
            Done (False, Some (q\<lparr>next_item := Suc ?p, pending := pending q\<rparr>), e2)"
          using True yes m t upd
          by (simp add: message_queue_add_def write_item_def free_item_def Let_def)
        then show ?thesis using same [OF refl refl] by auto
      next
        case now: False
        then have h: "h = None" using False yes by simp
        have "message_queue_add os api (Some q) (Some m) callback context e =
            Done (False, Some (q\<lparr>next_item := Suc ?p, pending := l\<rparr>), e3)"
          using now yes m t a h upd
          by (simp add: message_queue_add_def write_item_def free_item_def Let_def)
        then show ?thesis using same [OF refl, of l] al h by auto
      qed
    qed
  qed
qed

lemma create_refines:
  assumes laws: "list_laws api contents" and "message_queue_create os api config e = (Some q, e')"
  shows "\<exists>c. config = Some c \<and> mq_inv contents q
    \<and> mq_abs contents q = \<lparr>a_max_enqueued = cfg_max_enqueued c, a_max_processing = cfg_max_processing c,
        a_max_retry = cfg_max_retry c, a_pending = [], a_in_progress = [], a_events = []\<rparr>"
  using assms(2) list_create [OF laws]
  by (auto simp: message_queue_create_def mq_inv_def mq_abs_def ptrs_def held_def
      split: option.splits prod.splits if_splits)

section \<open>Examples\<close>

definition example_item :: "nat \<Rightarrow> int \<Rightarrow> MESSAGE_QUEUE_ITEM" where
  "example_item m t = \<lparr>message = m, on_message_processing_completed_callback = Some 7, user_context = 9,
     enqueue_time = t, processing_start_time = INDEFINITE_TIME, number_of_attempts = 0\<rparr>"

text \<open>One message in progress and two pending.\<close>

definition example_queue :: "nat option list MESSAGE_QUEUE" where
  "example_queue = \<lparr>max_message_enqueued_time_secs = 60, max_message_processing_time_secs = 0,
     max_retry_count = 2, pending = [Some 2, Some 3], in_progress = [Some 1],
     items = [1 \<mapsto> example_item 11 0, 2 \<mapsto> example_item 12 30, 3 \<mapsto> example_item 13 90],
     next_item = 4, events = []\<rparr>"

lemma example_queue_inv: "mq_inv (live 0) example_queue"
  by (auto simp: mq_inv_def ptrs_def example_queue_def)

lemma example_queue_abs: "mq_abs (live 0) example_queue =
  \<lparr>a_max_enqueued = 60, a_max_processing = 0, a_max_retry = 2,
   a_pending = [example_item 12 30, example_item 13 90], a_in_progress = [example_item 11 0], a_events = []\<rparr>"
  by (simp add: mq_abs_def held_def ptrs_def example_queue_def)

definition quiet_owner :: "'e process_callback" where
  "quiet_owner m ctx e = ([], e)"

text \<open>An owner that reports a retryable failure at once.\<close>

definition failing_owner :: "'e process_callback" where
  "failing_owner m ctx e = ([(Some m, MESSAGE_QUEUE_RETRYABLE_ERROR, None)], e)"

section \<open>Properties\<close>

text \<open>
  C18: A turn of message\_queue\_do\_work returns, also when the owner reports every message as a
  retryable failure at once, and leaves nothing pending: every message the queue held has been
  completed exactly once or is in progress, no item dangles or leaks, the settings are unchanged.
  The list library must be able to grow a list when the owner asks for a retry.
\<close>

theorem do_work_completes_or_holds:
  assumes "list_laws api contents" "can_retry api on_process" "mq_inv contents q"
    "a_size (mq_abs contents q) + turns (mq_abs contents q) < n"
  shows "\<exists>q' e'. message_queue_do_work n os api on_process q e = Done (q', e') \<and> mq_inv contents q'
    \<and> handed_out_from (mq_abs contents q) (mq_abs contents q')"
  by (rule do_work_total [OF assms])

theorem do_work_completes_or_holds_witness:
  "\<exists>q' e'. message_queue_do_work 40 happy_os (slot_lists happy_os) failing_owner example_queue () = Done (q', e')
    \<and> mq_inv (live 0) q' \<and> handed_out_from (mq_abs (live 0) example_queue) (mq_abs (live 0) q')"
proof (rule do_work_completes_or_holds [OF slot_lists_laws _ example_queue_inv])
  show "can_retry (slot_lists happy_os) failing_owner" by (simp add: can_retry_def slot_lists_add)
  show "a_size (mq_abs (live 0) example_queue) + turns (mq_abs (live 0) example_queue) < 40"
    by (simp add: example_queue_abs a_size_def turns_def example_item_def pending_turns_def progress_turns_def)
qed

text \<open>
  What the timeout control does at a time \<open>now\<close>: from the front of the pending list it removes
  the messages that have waited too long, up to the first that has not; from the in-progress list
  it removes all that have waited too long in total, and then those at the front that have been in
  progress too long. Each is completed with TIMEOUT, in this order; a limit of 0 turns a control off.
\<close>

theorem process_timeouts_spec:
  assumes "list_laws api contents" "mq_inv contents q" "a_size (mq_abs contents q) < n"
    "os_time os e = (now, e1)"
  shows "\<exists>q' e'. process_timeouts n os api q e = Done (q', e') \<and> mq_inv contents q'
    \<and> mq_abs contents q' =
        (if now = INDEFINITE_TIME then mq_abs contents q else a_timeouts now (mq_abs contents q))"
  using process_timeouts_refines [OF assms] by (auto simp: yields_def)

theorem process_timeouts_spec_witness:
  "\<exists>q' e'. process_timeouts 9 script_os (slot_lists script_os) example_queue (plain_env\<lparr>clock := [90]\<rparr>) = Done (q', e')
    \<and> mq_inv (live 0) q' \<and> mq_abs (live 0) q' =
      \<lparr>a_max_enqueued = 60, a_max_processing = 0, a_max_retry = 2,
       a_pending = [example_item 13 90], a_in_progress = [],
       a_events = [MessageCompleted 7 12 MESSAGE_QUEUE_TIMEOUT None 9,
                   MessageCompleted 7 11 MESSAGE_QUEUE_TIMEOUT None 9]\<rparr>"
proof -
  have t: "os_time script_os (plain_env\<lparr>clock := [90]\<rparr>) = (90, plain_env\<lparr>clock := [90]\<rparr>)"
    by (simp add: script_os_def)
  have s: "a_size (mq_abs (live 0) example_queue) < 9" by (simp add: example_queue_abs a_size_def)
  show ?thesis
    using process_timeouts_spec [OF slot_lists_laws example_queue_inv s t, of script_os]
    by (simp add: example_queue_abs a_timeouts_def Let_def a_emit_def expired_def example_item_def
        INDEFINITE_TIME_def timed_out_def completion_def)
qed

text \<open>
  Messages are handed to the owner first in, first out, and move to the end of the in-progress
  list in that order, each with its attempts counted and its start time set.
\<close>

theorem pending_messages_in_order:
  assumes "list_laws api contents" "adds_succeed api" "\<And>m ctx e. fst (on_process m ctx e) = []"
    "\<And>e. fst (os_time os e) = now" "now \<noteq> INDEFINITE_TIME"
    "mq_inv contents q" "length (a_pending (mq_abs contents q)) < n"
  shows "\<exists>q' e'. process_pending_messages n os api on_process q e = Done (q', e') \<and> mq_inv contents q'
    \<and> mq_abs contents q' = a_hand_out_all now (mq_abs contents q)"
  using process_pending_in_order [OF assms] by (simp add: yields_def)

theorem pending_messages_in_order_witness:
  "\<exists>q' e'. process_pending_messages 9 happy_os (slot_lists happy_os) quiet_owner example_queue () = Done (q', e')
    \<and> mq_inv (live 0) q' \<and> mq_abs (live 0) q' = a_hand_out_all 0 (mq_abs (live 0) example_queue)"
proof (rule pending_messages_in_order [OF slot_lists_laws slot_lists_add])
  show "fst (os_time happy_os e) = 0" for e by (simp add: happy_os_def)
qed (simp_all add: quiet_owner_def INDEFINITE_TIME_def example_queue_inv example_queue_abs)



text \<open>
  message\_queue\_move\_all\_back\_to\_pending puts the messages in progress before the pending
  ones, both in their order, and completes nobody.
\<close>

theorem move_all_back_order:
  assumes "list_laws api contents" "adds_succeed api" "mq_inv contents q" "a_size (mq_abs contents q) < n"
  shows "\<exists>q' e'. message_queue_move_all_back_to_pending n api q e = Done (True, q', e') \<and> mq_inv contents q'
    \<and> mq_abs contents q' = (mq_abs contents q)\<lparr>
        a_pending := a_in_progress (mq_abs contents q) @ a_pending (mq_abs contents q), a_in_progress := []\<rparr>"
  by (rule move_all_refines [OF assms])

theorem move_all_back_order_witness:
  "\<exists>q' e'. message_queue_move_all_back_to_pending 9 (slot_lists happy_os) example_queue () = Done (True, q', e')
    \<and> mq_inv (live 0) q' \<and> mq_abs (live 0) q' =
      \<lparr>a_max_enqueued = 60, a_max_processing = 0, a_max_retry = 2,
       a_pending = [example_item 11 0, example_item 12 30, example_item 13 90], a_in_progress = [], a_events = []\<rparr>"
  using move_all_back_order [OF slot_lists_laws slot_lists_add [OF memory_available_happy] example_queue_inv, where n = 9 and e = "()"]
  by (simp add: example_queue_abs a_size_def)

text \<open>
  Destroying a queue returns and completes every message it holds as cancelled, those in
  progress first, and reports nothing else.
\<close>

theorem destroy_cancels_everything:
  assumes "list_laws api contents" "mq_inv contents q" "a_size (mq_abs contents q) < n"
  shows "\<exists>e'. message_queue_destroy n api q e = Done (events q @ concat (map
    (completion MESSAGE_QUEUE_CANCELLED None) (held contents InProgress q @ held contents Pending q)), e')"
proof -
  obtain q' e' where q': "message_queue_remove_all n api q e = Done (q', e')"
      "mq_abs contents q' = a_cancel_all (mq_abs contents q)"
    using remove_all_refines [OF assms, of e] by (auto simp: yields_def)
  have "events q' = a_events (mq_abs contents q')" by simp
  then show ?thesis unfolding q'(2) by (simp add: message_queue_destroy_def q'(1) a_cancel_all_def)
qed

theorem destroy_cancels_everything_witness:
  "\<exists>e'. message_queue_destroy 9 (slot_lists happy_os) example_queue () = Done
     (map (\<lambda>m. MessageCompleted 7 m MESSAGE_QUEUE_CANCELLED None 9) [11, 12, 13], e')"
  using destroy_cancels_everything [OF slot_lists_laws [of happy_os] example_queue_inv,
    where n = 9 and e = "()"]
  by (simp add: example_queue_abs a_size_def held_def ptrs_def)
    (simp add: example_queue_def example_item_def completion_def)

text \<open>
  Adding a message returns and, when it succeeds, appends one new item to the pending list;
  when it fails the queue holds what it held.
\<close>

theorem add_appends:
  assumes "list_laws api contents" "mq_inv contents q"
  shows "\<exists>ok q' e' now. message_queue_add os api (Some q) (Some m) callback context e = Done (ok, Some q', e')
    \<and> mq_inv contents q'
    \<and> mq_abs contents q' = (if ok then (mq_abs contents q)\<lparr>a_pending :=
           a_pending (mq_abs contents q) @ [new_item m callback context now]\<rparr> else mq_abs contents q)"
  by (rule add_refines [OF assms])

theorem add_appends_witness:
  "\<exists>ok q' e' now. message_queue_add script_os (slot_lists script_os) (Some example_queue) (Some 14) None 5
      (plain_env\<lparr>failing := [1]\<rparr>) = Done (ok, Some q', e')
    \<and> mq_inv (live 0) q'
    \<and> mq_abs (live 0) q' = (if ok then (mq_abs (live 0) example_queue)\<lparr>a_pending :=
           a_pending (mq_abs (live 0) example_queue) @ [new_item 14 None 5 now]\<rparr> else mq_abs (live 0) example_queue)"
  by (rule add_appends [OF slot_lists_laws example_queue_inv])

text \<open>
  Options saved from one queue and fed to another are all accepted and give it the three
  limits of the first.
\<close>

theorem mq_options_roundtrip:
  fixes q q' :: "('l, 'm) MESSAGE_QUEUE_scheme"
  shows "fst (feed mq_setopt (mq_saved q) q') \<and> mq_saved (snd (feed mq_setopt (mq_saved q) q')) = mq_saved q"
  by (rule mq_options.feed_saved) simp

text \<open>
  When a message is to be retried and the pending list cannot be grown, the item has already
  left the in-progress list, and its list item is then read after it has been freed.
\<close>

theorem retry_can_use_a_freed_item:
  "on_process_message_completed_callback (slot_lists script_os) (Some 11) MESSAGE_QUEUE_RETRYABLE_ERROR None
     example_queue (plain_env\<lparr>failing := [0]\<rparr>) = Fault"
proof -
  have "case on_process_message_completed_callback (slot_lists script_os) (Some 11)
      MESSAGE_QUEUE_RETRYABLE_ERROR None example_queue (plain_env\<lparr>failing := [0]\<rparr>) of
      Fault \<Rightarrow> True | _ \<Rightarrow> False"
    by code_simp
  then show ?thesis by (simp split: run.splits)
qed

text \<open>
  The pending list is not ordered by enqueue time after a retry, and the timeout control stops
  at the first message that has not expired: a message queued at time 0 with a limit of 60 seconds
  that has been put back behind one queued at 30 is still held at time 80.
\<close>

theorem retried_message_outlives_its_timeout:
  "case on_process_message_completed_callback (slot_lists script_os) (Some 11) MESSAGE_QUEUE_RETRYABLE_ERROR None
      example_queue (plain_env\<lparr>clock := [80]\<rparr>) of
     Done (q, e) \<Rightarrow>
       (case process_timeouts 9 script_os (slot_lists script_os) q e of
          Done (q, e) \<Rightarrow> map message (held (live 0) Pending q) = [12, 13, 11] \<and> events q = []
            \<and> enqueue_time (held (live 0) Pending q ! 2) = 0
        | _ \<Rightarrow> False)
   | _ \<Rightarrow> False"
  by code_simp

end
