(* ===== verification/CbsAuth.thy ===== *)
theory CbsAuth
  imports Complex_Main Options Authorization
begin

text \<open>
  CBS authentication of the AMQP transport (iothub\_client/src/iothubtransport\_amqp\_cbs\_auth.c): a
  state machine that puts SAS tokens to the service over a CBS link, watches for the answer, for
  its timeout and for the time to refresh, and tells its owner about states and errors. The
  authorization module, the CBS link and strings are arguments of the model; calls to the owner
  and to the link are kept in order in the field \<open>reports\<close>.
\<close>

section \<open>Data\<close>

datatype AUTHENTICATION_STATE =
  AUTHENTICATION_STATE_STOPPED | AUTHENTICATION_STATE_STARTING
| AUTHENTICATION_STATE_STARTED | AUTHENTICATION_STATE_ERROR

datatype AUTHENTICATION_ERROR_CODE =
  AUTHENTICATION_ERROR_AUTH_TIMEOUT | AUTHENTICATION_ERROR_AUTH_FAILED
| AUTHENTICATION_ERROR_SAS_REFRESH_TIMEOUT | AUTHENTICATION_ERROR_SAS_REFRESH_FAILED

datatype report =
  StateChanged AUTHENTICATION_STATE AUTHENTICATION_STATE
| ErrorNotified AUTHENTICATION_ERROR_CODE
| PutToken "nat option" string string string
| PutCancelled nat

text \<open>
  What the module calls: the functions of the authorization module, cbs\_put\_token\_async, and the
  rounding of doubles. None is NULL.
\<close>

record 'e auth_services =
  Auth_Get_Credential_Type :: "'e \<Rightarrow> IOTHUB_CREDENTIAL_TYPE \<times> 'e"
  Auth_Get_SasToken :: "string option \<Rightarrow> 'e \<Rightarrow> string option \<times> 'e"
  Auth_Is_SasToken_Valid :: "'e \<Rightarrow> SAS_TOKEN_STATUS \<times> 'e"
  Auth_Get_SasToken_Expiry :: "'e \<Rightarrow> nat \<times> 'e"
  Auth_Get_DeviceId :: "'e \<Rightarrow> string option \<times> 'e"
  Auth_Get_ModuleId :: "'e \<Rightarrow> string option \<times> 'e"
  cbs_put_token_async :: "nat option \<Rightarrow> string \<Rightarrow> string \<Rightarrow> string \<Rightarrow> 'e \<Rightarrow> nat option \<times> 'e"
  round_double :: "rat \<Rightarrow> rat"

record AUTHENTICATION_INSTANCE =
  device_id :: string
  module_id :: "string option"
  iothub_host_fqdn :: string
  has_error_callback :: bool
  cbs_request_timeout_secs :: nat
  state :: AUTHENTICATION_STATE
  cbs_handle :: "nat option"
  is_cbs_put_token_in_progress :: bool
  is_sas_token_refresh_in_progress :: bool
  current_sas_token_put_time :: int
  cbs_put_token_async_context :: "nat option"
  reports :: "report list"

definition SAS_TOKEN_TYPE :: string where
  "SAS_TOKEN_TYPE = ''servicebus.windows.net:sastoken''"

definition DEFAULT_CBS_REQUEST_TIMEOUT_SECS :: nat where
  "DEFAULT_CBS_REQUEST_TIMEOUT_SECS = 2 ^ 32 - 1"

section \<open>Operations\<close>

definition report :: "report \<Rightarrow> AUTHENTICATION_INSTANCE \<Rightarrow> AUTHENTICATION_INSTANCE" where
  "report r i = i\<lparr>reports := reports i @ [r]\<rparr>"

definition update_state :: "AUTHENTICATION_STATE \<Rightarrow> AUTHENTICATION_INSTANCE \<Rightarrow> AUTHENTICATION_INSTANCE" where
  "update_state new_state i =
     (if new_state \<noteq> state i
      then report (StateChanged (state i) new_state) (i\<lparr>state := new_state\<rparr>)
      else i)"

definition notify_error :: "AUTHENTICATION_ERROR_CODE \<Rightarrow> AUTHENTICATION_INSTANCE \<Rightarrow> AUTHENTICATION_INSTANCE" where
  "notify_error code i = (if has_error_callback i then report (ErrorNotified code) i else i)"

text \<open>The conversion (uint64\_t) of a time difference is undefined when it is negative.\<close>

definition elapsed :: "int \<Rightarrow> int \<Rightarrow> nat run" where
  "elapsed stop start = (if stop < start then Fault else Done (nat (stop - start)))"

text \<open>None: the function fails. Otherwise the answer is *is\_timed\_out.\<close>

definition verify_cbs_put_token_timeout ::
  "('e, 'm) os_scheme \<Rightarrow> AUTHENTICATION_INSTANCE \<Rightarrow> 'e \<Rightarrow> (bool option \<times> 'e) run" where
  "verify_cbs_put_token_timeout os i e =
     (if current_sas_token_put_time i = INDEFINITE_TIME then Done (None, e)
      else (case os_time os e of (current_time, e) \<Rightarrow>
        if current_time = INDEFINITE_TIME then Done (None, e)
        else run_bind (elapsed current_time (current_sas_token_put_time i)) (\<lambda>d.
          Done (Some (d \<ge> cbs_request_timeout_secs i), e))))"

definition verify_sas_token_refresh_timeout ::
  "('e, 'm) os_scheme \<Rightarrow> ('e, 'n) auth_services_scheme \<Rightarrow> AUTHENTICATION_INSTANCE \<Rightarrow> 'e
     \<Rightarrow> (bool option \<times> 'e) run" where
  "verify_sas_token_refresh_timeout os sv i e =
     (if current_sas_token_put_time i = INDEFINITE_TIME then Done (None, e)
      else (case Auth_Get_SasToken_Expiry sv e of (sas_token_expiry, e) \<Rightarrow>
        if sas_token_expiry = 0 then Done (None, e)
        else (case os_time os e of (current_time, e) \<Rightarrow>
          if current_time = INDEFINITE_TIME then Done (None, e)
          else run_bind (elapsed current_time (current_sas_token_put_time i)) (\<lambda>d.
            Done (Some (round_double sv (of_nat d)
              \<ge> round_double sv (round_double sv (of_nat sas_token_expiry) * round_double sv (8 / 10))), e)))))"

definition create_device_and_module_path ::
  "('e, 'm) os_scheme \<Rightarrow> string \<Rightarrow> string \<Rightarrow> string option \<Rightarrow> 'e \<Rightarrow> string option \<times> 'e" where
  "create_device_and_module_path os fqdn dev_id mod_id e =
     (case os_malloc os e of (ok, e) \<Rightarrow>
        (if \<not> ok then None
         else Some (case mod_id of
            None \<Rightarrow> fqdn @ ''/devices/'' @ dev_id
          | Some m \<Rightarrow> fqdn @ ''/devices/'' @ dev_id @ ''/modules/'' @ m), e))"

text \<open>The answer of the CBS link; true is CBS\_OPERATION\_RESULT\_OK.\<close>

definition on_cbs_put_token_complete_callback :: "bool \<Rightarrow> AUTHENTICATION_INSTANCE \<Rightarrow> AUTHENTICATION_INSTANCE" where
  "on_cbs_put_token_complete_callback operation_ok i =
     (let i = i\<lparr>cbs_put_token_async_context := None, is_cbs_put_token_in_progress := False\<rparr>;
          i = (if operation_ok then update_state AUTHENTICATION_STATE_STARTED i
               else let i = update_state AUTHENTICATION_STATE_ERROR i in
                 notify_error (if is_sas_token_refresh_in_progress i
                               then AUTHENTICATION_ERROR_SAS_REFRESH_FAILED
                               else AUTHENTICATION_ERROR_AUTH_FAILED) i)
      in i\<lparr>is_sas_token_refresh_in_progress := False\<rparr>)"

definition put_SAS_token_to_cbs ::
  "('e, 'm) os_scheme \<Rightarrow> ('e, 'n) auth_services_scheme \<Rightarrow> string \<Rightarrow> string
     \<Rightarrow> AUTHENTICATION_INSTANCE \<Rightarrow> 'e \<Rightarrow> bool \<times> AUTHENTICATION_INSTANCE \<times> 'e" where
  "put_SAS_token_to_cbs os sv cbs_audience sas_token i e =
     (let i = i\<lparr>is_cbs_put_token_in_progress := True\<rparr> in
      case cbs_put_token_async sv (cbs_handle i) SAS_TOKEN_TYPE cbs_audience sas_token e of (ctx, e) \<Rightarrow>
      let i = report (PutToken (cbs_handle i) SAS_TOKEN_TYPE cbs_audience sas_token)
                (i\<lparr>cbs_put_token_async_context := ctx\<rparr>) in
      case ctx of
        None \<Rightarrow> (False, i\<lparr>is_cbs_put_token_in_progress := False\<rparr>, e)
      | Some c \<Rightarrow>
          (case os_time os e of (current_time, e) \<Rightarrow>
             (True, i\<lparr>current_sas_token_put_time := current_time\<rparr>, e)))"

text \<open>The token to put, if any, by the type of the credentials; true is RESULT\_OK.\<close>

definition choose_token ::
  "('e, 'n) auth_services_scheme \<Rightarrow> string \<Rightarrow> 'e \<Rightarrow> bool \<times> string option \<times> 'e" where
  "choose_token sv device_and_module_path e =
     (case Auth_Get_Credential_Type sv e of (cred_type, e) \<Rightarrow>
      if cred_type = IOTHUB_CREDENTIAL_TYPE_DEVICE_KEY \<or> cred_type = IOTHUB_CREDENTIAL_TYPE_DEVICE_AUTH then
        (case Auth_Get_SasToken sv (Some device_and_module_path) e of (t, e) \<Rightarrow> (t \<noteq> None, t, e))
      else if cred_type = IOTHUB_CREDENTIAL_TYPE_SAS_TOKEN then
        (case Auth_Is_SasToken_Valid sv e of (token_status, e) \<Rightarrow>
         if token_status = SAS_TOKEN_STATUS_INVALID then (False, None, e)
         else if token_status = SAS_TOKEN_STATUS_FAILED then (False, None, e)
         else (case Auth_Get_SasToken sv None e of (t, e) \<Rightarrow> (t \<noteq> None, t, e)))
      else if cred_type = IOTHUB_CREDENTIAL_TYPE_X509 \<or> cred_type = IOTHUB_CREDENTIAL_TYPE_X509_ECC
        then (True, None, e)
      else (False, None, e))"

definition create_and_put_SAS_token_to_cbs ::
  "('e, 'm) os_scheme \<Rightarrow> ('e, 'n) auth_services_scheme \<Rightarrow> AUTHENTICATION_INSTANCE \<Rightarrow> 'e
     \<Rightarrow> bool \<times> AUTHENTICATION_INSTANCE \<times> 'e" where
  "create_and_put_SAS_token_to_cbs os sv i e =
     (case create_device_and_module_path os (iothub_host_fqdn i) (device_id i) (module_id i) e of
        (None, e) \<Rightarrow> (False, i, e)
      | (Some path, e) \<Rightarrow>
          (case choose_token sv path e of (result, sas_token, e) \<Rightarrow>
             (case sas_token of
                None \<Rightarrow> (result, i, e)
              | Some t \<Rightarrow> put_SAS_token_to_cbs os sv path t i e)))"

definition authentication_start ::
  "AUTHENTICATION_INSTANCE option \<Rightarrow> nat option \<Rightarrow> bool \<times> AUTHENTICATION_INSTANCE option" where
  "authentication_start handle cbs =
     (case (handle, cbs) of
        (Some i, Some c) \<Rightarrow>
          if state i \<noteq> AUTHENTICATION_STATE_STOPPED then (False, handle)
          else (True, Some (update_state AUTHENTICATION_STATE_STARTING (i\<lparr>cbs_handle := Some c\<rparr>)))
      | _ \<Rightarrow> (False, handle))"

definition authentication_stop ::
  "AUTHENTICATION_INSTANCE option \<Rightarrow> bool \<times> AUTHENTICATION_INSTANCE option" where
  "authentication_stop handle =
     (case handle of
        None \<Rightarrow> (False, handle)
      | Some i \<Rightarrow>
          if state i = AUTHENTICATION_STATE_STOPPED then (False, handle)
          else (True, Some (update_state AUTHENTICATION_STATE_STOPPED (i\<lparr>cbs_handle := None\<rparr>))))"

text \<open>What authentication\_destroy reports before the instance is gone.\<close>

definition authentication_destroy :: "AUTHENTICATION_INSTANCE option \<Rightarrow> report list" where
  "authentication_destroy handle =
     (case handle of
        None \<Rightarrow> []
      | Some i \<Rightarrow>
          let i = (if state i \<noteq> AUTHENTICATION_STATE_STOPPED then the (snd (authentication_stop handle)) else i)
          in (case cbs_put_token_async_context i of
                None \<Rightarrow> reports i
              | Some c \<Rightarrow> reports (report (PutCancelled c) i)))"

record AUTHENTICATION_CONFIG =
  cfg_fqdn :: "string option"
  cfg_on_state_changed :: bool
  cfg_on_error :: bool
  cfg_authorization_module :: bool

definition authentication_create ::
  "('e, 'm) os_scheme \<Rightarrow> ('e, 'n) auth_services_scheme \<Rightarrow> AUTHENTICATION_CONFIG option \<Rightarrow> 'e
     \<Rightarrow> AUTHENTICATION_INSTANCE option \<times> 'e" where
  "authentication_create os sv config e =
     (case config of
        None \<Rightarrow> (None, e)
      | Some c \<Rightarrow>
          if \<not> cfg_authorization_module c then (None, e)
          else (case cfg_fqdn c of
            None \<Rightarrow> (None, e)
          | Some fqdn \<Rightarrow>
              if \<not> cfg_on_state_changed c then (None, e)
              else (case os_malloc os e of (ok, e) \<Rightarrow>
                if \<not> ok then (None, e)
                else (case Auth_Get_DeviceId sv e of
                  (None, e) \<Rightarrow> (None, e)
                | (Some dev_id, e) \<Rightarrow>
                    (case os_malloc os e of (ok, e) \<Rightarrow>
                     if \<not> ok then (None, e)
                     else (case Auth_Get_ModuleId sv e of (mod_id, e) \<Rightarrow>
                       (Some \<lparr>device_id = dev_id, module_id = mod_id, iothub_host_fqdn = fqdn,
                              has_error_callback = cfg_on_error c,
                              cbs_request_timeout_secs = DEFAULT_CBS_REQUEST_TIMEOUT_SECS,
                              state = AUTHENTICATION_STATE_STOPPED, cbs_handle = None,
                              is_cbs_put_token_in_progress = False,
                              is_sas_token_refresh_in_progress = False,
                              current_sas_token_put_time = 0,
                              cbs_put_token_async_context = None, reports = []\<rparr>, e)))))))"

text \<open>The three cases of authentication\_do\_work.\<close>

definition do_work_in_progress ::
  "('e, 'm) os_scheme \<Rightarrow> AUTHENTICATION_INSTANCE \<Rightarrow> 'e \<Rightarrow> (AUTHENTICATION_INSTANCE \<times> 'e) run" where
  "do_work_in_progress os i e =
     run_bind (verify_cbs_put_token_timeout os i e) (\<lambda>(timed_out, e).
       if timed_out = Some True then
         let i = update_state AUTHENTICATION_STATE_ERROR (i\<lparr>is_cbs_put_token_in_progress := False\<rparr>);
             i = notify_error (if is_sas_token_refresh_in_progress i
                               then AUTHENTICATION_ERROR_SAS_REFRESH_TIMEOUT
                               else AUTHENTICATION_ERROR_AUTH_TIMEOUT) i
         in Done (i\<lparr>is_sas_token_refresh_in_progress := False\<rparr>, e)
       else Done (i, e))"

definition do_work_started ::
  "('e, 'm) os_scheme \<Rightarrow> ('e, 'n) auth_services_scheme \<Rightarrow> AUTHENTICATION_INSTANCE \<Rightarrow> 'e
     \<Rightarrow> (AUTHENTICATION_INSTANCE \<times> 'e) run" where
  "do_work_started os sv i e =
     (case Auth_Get_Credential_Type sv e of (cred_type, e) \<Rightarrow>
      if cred_type = IOTHUB_CREDENTIAL_TYPE_DEVICE_KEY \<or> cred_type = IOTHUB_CREDENTIAL_TYPE_DEVICE_AUTH then
        run_bind (verify_sas_token_refresh_timeout os sv i e) (\<lambda>(timed_out, e).
          if timed_out = Some True then
            (case create_and_put_SAS_token_to_cbs os sv (i\<lparr>is_sas_token_refresh_in_progress := True\<rparr>) e of
               (ok, i, e) \<Rightarrow>
                 if \<not> is_cbs_put_token_in_progress i then
                   Done (notify_error AUTHENTICATION_ERROR_SAS_REFRESH_FAILED
                     (update_state AUTHENTICATION_STATE_ERROR (i\<lparr>is_sas_token_refresh_in_progress := False\<rparr>)), e)
                 else Done (i, e))
          else Done (i, e))
      else Done (i, e))"

definition do_work_starting ::
  "('e, 'm) os_scheme \<Rightarrow> ('e, 'n) auth_services_scheme \<Rightarrow> AUTHENTICATION_INSTANCE \<Rightarrow> 'e
     \<Rightarrow> AUTHENTICATION_INSTANCE \<times> 'e" where
  "do_work_starting os sv i e =
     (case create_and_put_SAS_token_to_cbs os sv i e of (ok, i, e) \<Rightarrow>
        if \<not> is_cbs_put_token_in_progress i then
          (notify_error AUTHENTICATION_ERROR_AUTH_FAILED (update_state AUTHENTICATION_STATE_ERROR i), e)
        else (i, e))"

definition authentication_do_work ::
  "('e, 'm) os_scheme \<Rightarrow> ('e, 'n) auth_services_scheme \<Rightarrow> AUTHENTICATION_INSTANCE option \<Rightarrow> 'e
     \<Rightarrow> (AUTHENTICATION_INSTANCE option \<times> 'e) run" where
  "authentication_do_work os sv handle e =
     (case handle of
        None \<Rightarrow> Done (None, e)
      | Some i \<Rightarrow>
          run_bind
            (if is_cbs_put_token_in_progress i then do_work_in_progress os i e
             else if state i = AUTHENTICATION_STATE_STARTED then do_work_started os sv i e
             else if state i = AUTHENTICATION_STATE_STARTING then Done (do_work_starting os sv i e)
             else Done (i, e))
            (\<lambda>(i, e). Done (Some i, e)))"

subsection \<open>Options\<close>

definition AUTHENTICATION_OPTION_CBS_REQUEST_TIMEOUT_SECS :: string where
  "AUTHENTICATION_OPTION_CBS_REQUEST_TIMEOUT_SECS = ''cbs_request_timeout_secs''"

definition AUTHENTICATION_OPTION_SAVED_OPTIONS :: string where
  "AUTHENTICATION_OPTION_SAVED_OPTIONS = ''saved_authentication_options''"

text \<open>authentication\_clone\_option copies no value: its result is the pointer it is given.\<close>

definition authentication_clone_option :: "string option \<Rightarrow> nat option \<Rightarrow> nat option" where
  "authentication_clone_option name p =
     (case (name, p) of
        (Some n, Some q) \<Rightarrow>
          if n = AUTHENTICATION_OPTION_CBS_REQUEST_TIMEOUT_SECS \<or> n = AUTHENTICATION_OPTION_SAVED_OPTIONS
          then Some q else None
      | _ \<Rightarrow> None)"

text \<open>Whether authentication\_destroy\_option destroys the option handler it is given.\<close>

definition authentication_destroy_option :: "string option \<Rightarrow> nat option \<Rightarrow> bool" where
  "authentication_destroy_option name p =
     (case (name, p) of (Some n, Some q) \<Rightarrow> n = AUTHENTICATION_OPTION_SAVED_OPTIONS | _ \<Rightarrow> False)"

datatype auth_option_value = Secs nat | SavedOptions "(string \<times> nat) list"

definition auth_set_secs ::
  "AUTHENTICATION_INSTANCE \<Rightarrow> string \<Rightarrow> nat \<Rightarrow> bool \<times> AUTHENTICATION_INSTANCE" where
  "auth_set_secs i name v =
     (if name = AUTHENTICATION_OPTION_CBS_REQUEST_TIMEOUT_SECS
      then (True, i\<lparr>cbs_request_timeout_secs := v\<rparr>) else (False, i))"

definition authentication_set_option ::
  "AUTHENTICATION_INSTANCE option \<Rightarrow> string option \<Rightarrow> auth_option_value option
     \<Rightarrow> bool \<times> AUTHENTICATION_INSTANCE option" where
  "authentication_set_option handle name v =
     (case (handle, name, v) of
        (Some i, Some n, Some (Secs x)) \<Rightarrow> (case auth_set_secs i n x of (ok, i) \<Rightarrow> (ok, Some i))
      | (Some i, Some n, Some (SavedOptions stored)) \<Rightarrow>
          if n = AUTHENTICATION_OPTION_SAVED_OPTIONS
          then (case feed auth_set_secs stored i of (ok, i) \<Rightarrow> (ok, Some i))
          else (False, handle)
      | _ \<Rightarrow> (False, handle))"

definition auth_saved :: "AUTHENTICATION_INSTANCE \<Rightarrow> (string \<times> nat) list" where
  "auth_saved i = [(AUTHENTICATION_OPTION_CBS_REQUEST_TIMEOUT_SECS, cbs_request_timeout_secs i)]"

definition authentication_retrieve_options ::
  "('oh, nat, 'e, 'a) option_api_scheme \<Rightarrow> AUTHENTICATION_INSTANCE option \<Rightarrow> 'e \<Rightarrow> 'oh option \<times> 'e" where
  "authentication_retrieve_options api handle e =
     (case handle of None \<Rightarrow> (None, e) | Some i \<Rightarrow> create_and_add api (auth_saved i) e)"

interpretation auth_options: option_owner auth_set_secs auth_saved
  "[AUTHENTICATION_OPTION_CBS_REQUEST_TIMEOUT_SECS]" "\<lambda>i. True"
  by unfold_locales (auto simp: auth_saved_def auth_set_secs_def split: if_splits)

section \<open>What the owner sees\<close>

text \<open>
  The state an observer of the reports believes in, starting from a state: each change must leave
  from the believed state to another one.
\<close>

fun follow :: "AUTHENTICATION_STATE \<Rightarrow> report list \<Rightarrow> AUTHENTICATION_STATE option" where
  "follow s [] = Some s"
| "follow s (StateChanged p n # rs) = (if p = s \<and> n \<noteq> s then follow n rs else None)"
| "follow s (ErrorNotified c # rs) = follow s rs"
| "follow s (PutToken h t a k # rs) = follow s rs"
| "follow s (PutCancelled c # rs) = follow s rs"

lemma follow_append: "follow s (rs @ rs') = (case follow s rs of None \<Rightarrow> None | Some s' \<Rightarrow> follow s' rs')"
  by (induction s rs rule: follow.induct) auto

definition auth_ok :: "AUTHENTICATION_INSTANCE \<Rightarrow> bool" where
  "auth_ok i \<longleftrightarrow>
     follow AUTHENTICATION_STATE_STOPPED (reports i) = Some (state i)
     \<and> (is_sas_token_refresh_in_progress i \<longrightarrow> is_cbs_put_token_in_progress i)
     \<and> (is_cbs_put_token_in_progress i \<longrightarrow> cbs_put_token_async_context i \<noteq> None)"

text \<open>The calls to the CBS link among reports, and the errors.\<close>

definition puts :: "report list \<Rightarrow> (nat option \<times> string \<times> string \<times> string) list" where
  "puts rs = concat (map (\<lambda>r. case r of PutToken h t a k \<Rightarrow> [(h, t, a, k)] | _ \<Rightarrow> []) rs)"

definition errors :: "report list \<Rightarrow> AUTHENTICATION_ERROR_CODE list" where
  "errors rs = concat (map (\<lambda>r. case r of ErrorNotified c \<Rightarrow> [c] | _ \<Rightarrow> []) rs)"

lemma puts_simps [simp]:
  "puts [] = []" "puts (xs @ ys) = puts xs @ puts ys" "puts [StateChanged p n] = []"
  "puts [ErrorNotified c] = []" "puts [PutToken h t a k] = [(h, t, a, k)]"
  "puts (StateChanged p n # xs) = puts xs" "puts (ErrorNotified c # xs) = puts xs"
  by (simp_all add: puts_def)

lemma errors_simps [simp]:
  "errors [] = []" "errors (xs @ ys) = errors xs @ errors ys" "errors [StateChanged p n] = []"
  "errors [ErrorNotified c] = [c]" "errors [PutToken h t a k] = []"
  "errors (StateChanged p n # xs) = errors xs" "errors (PutToken h t a k # xs) = errors xs"
  by (simp_all add: errors_def)

definition device_path :: "AUTHENTICATION_INSTANCE \<Rightarrow> string" where
  "device_path i = iothub_host_fqdn i @ ''/devices/'' @ device_id i
     @ (case module_id i of None \<Rightarrow> [] | Some m \<Rightarrow> ''/modules/'' @ m)"

text \<open>
  A good transition: what one operation may report. It puts at most one token, only when none is
  in flight, on the current CBS handle, for the path of the device; and when it notifies an error
  the state is ERROR and nothing is in flight.
\<close>

definition good_transition :: "AUTHENTICATION_INSTANCE \<times> AUTHENTICATION_INSTANCE \<Rightarrow> bool" where
  "good_transition = (\<lambda>(i, i'). \<exists>new. reports i' = reports i @ new
     \<and> (puts new = [] \<or> (\<exists>token. puts new = [(cbs_handle i, SAS_TOKEN_TYPE, device_path i, token)])
          \<and> \<not> is_cbs_put_token_in_progress i
          \<and> state i \<in> {AUTHENTICATION_STATE_STARTING, AUTHENTICATION_STATE_STARTED})
     \<and> (errors new \<noteq> [] \<longrightarrow> length (errors new) = 1 \<and> state i' = AUTHENTICATION_STATE_ERROR
          \<and> \<not> is_cbs_put_token_in_progress i'))"

subsection \<open>Each operation\<close>

lemma update_state_sel [simp]:
  "state (update_state s i) = s" "cbs_handle (update_state s i) = cbs_handle i"
  "is_cbs_put_token_in_progress (update_state s i) = is_cbs_put_token_in_progress i"
  "is_sas_token_refresh_in_progress (update_state s i) = is_sas_token_refresh_in_progress i"
  "cbs_put_token_async_context (update_state s i) = cbs_put_token_async_context i"
  "reports (update_state s i) = reports i @ (if s \<noteq> state i then [StateChanged (state i) s] else [])"
  by (simp_all add: update_state_def report_def)

lemma notify_error_sel [simp]:
  "state (notify_error c i) = state i" "cbs_handle (notify_error c i) = cbs_handle i"
  "is_cbs_put_token_in_progress (notify_error c i) = is_cbs_put_token_in_progress i"
  "is_sas_token_refresh_in_progress (notify_error c i) = is_sas_token_refresh_in_progress i"
  "cbs_put_token_async_context (notify_error c i) = cbs_put_token_async_context i"
  "reports (notify_error c i) = reports i @ (if has_error_callback i then [ErrorNotified c] else [])"
  by (simp_all add: notify_error_def report_def)

definition step_ok :: "AUTHENTICATION_INSTANCE \<Rightarrow> AUTHENTICATION_INSTANCE \<Rightarrow> bool" where
  "step_ok i i' \<longleftrightarrow> auth_ok i' \<and> good_transition (i, i')"

lemma step_okI:
  assumes "auth_ok i" "reports i' = reports i @ new" "follow (state i) new = Some (state i')"
    "is_sas_token_refresh_in_progress i' \<longrightarrow> is_cbs_put_token_in_progress i'"
    "is_cbs_put_token_in_progress i' \<longrightarrow> cbs_put_token_async_context i' \<noteq> None"
    "puts new = [] \<or> (\<exists>token. puts new = [(cbs_handle i, SAS_TOKEN_TYPE, device_path i, token)])
          \<and> \<not> is_cbs_put_token_in_progress i
          \<and> state i \<in> {AUTHENTICATION_STATE_STARTING, AUTHENTICATION_STATE_STARTED}"
    "errors new \<noteq> [] \<longrightarrow> length (errors new) = 1 \<and> state i' = AUTHENTICATION_STATE_ERROR
          \<and> \<not> is_cbs_put_token_in_progress i'"
  shows "step_ok i i'"
  using assms by (auto simp: step_ok_def auth_ok_def good_transition_def follow_append)

lemma step_ok_refl: "auth_ok i \<Longrightarrow> step_ok i i"
  by (rule step_okI [where new = "[]"]) (auto simp: auth_ok_def)

lemma start_ok: "auth_ok i \<Longrightarrow> authentication_start (Some i) cbs = (ok, Some i') \<Longrightarrow> step_ok i i'"
  by (auto simp: authentication_start_def auth_ok_def step_ok_refl split: option.splits if_splits
      intro!: step_okI [where new = "[StateChanged AUTHENTICATION_STATE_STOPPED AUTHENTICATION_STATE_STARTING]"])

lemma stop_ok: "auth_ok i \<Longrightarrow> authentication_stop (Some i) = (ok, Some i') \<Longrightarrow> step_ok i i'"
  by (auto simp: authentication_stop_def auth_ok_def step_ok_refl split: if_splits
      intro!: step_okI [where new = "[StateChanged (state i) AUTHENTICATION_STATE_STOPPED]"])

lemma complete_ok: "auth_ok i \<Longrightarrow> step_ok i (on_cbs_put_token_complete_callback ok i)"
proof -
  assume i: "auth_ok i"
  let ?new = "(if ok then if state i \<noteq> AUTHENTICATION_STATE_STARTED
        then [StateChanged (state i) AUTHENTICATION_STATE_STARTED] else []
      else (if state i \<noteq> AUTHENTICATION_STATE_ERROR then [StateChanged (state i) AUTHENTICATION_STATE_ERROR] else [])
        @ (if has_error_callback i then [ErrorNotified (if is_sas_token_refresh_in_progress i
              then AUTHENTICATION_ERROR_SAS_REFRESH_FAILED else AUTHENTICATION_ERROR_AUTH_FAILED)] else []))"
  have h: "has_error_callback (update_state s j) = has_error_callback j" for s j
    by (simp add: update_state_def report_def)
  show ?thesis
    by (rule step_okI [OF i, where new = ?new])
      (auto simp: on_cbs_put_token_complete_callback_def Let_def h)
qed

text \<open>Putting a token: nothing happens, or one token is put and is then in flight or refused.\<close>

lemma create_and_put_cases:
  assumes "create_and_put_SAS_token_to_cbs os sv i e = (ok, i', e')"
  obtains (none) "i' = i"
  | (refused) token where
      "i' = i\<lparr>cbs_put_token_async_context := None,
         reports := reports i @ [PutToken (cbs_handle i) SAS_TOKEN_TYPE (device_path i) token],
         is_cbs_put_token_in_progress := False\<rparr>"
  | (put) token c t where
      "i' = i\<lparr>is_cbs_put_token_in_progress := True, cbs_put_token_async_context := Some c,
         reports := reports i @ [PutToken (cbs_handle i) SAS_TOKEN_TYPE (device_path i) token],
         current_sas_token_put_time := t\<rparr>"
proof -
  obtain path e1 where p: "create_device_and_module_path os (iothub_host_fqdn i) (device_id i) (module_id i) e = (path, e1)"
    by (cases "create_device_and_module_path os (iothub_host_fqdn i) (device_id i) (module_id i) e") auto
  show thesis
  proof (cases path)
    case None
    with p assms show thesis by (intro none) (simp add: create_and_put_SAS_token_to_cbs_def)
  next
    case (Some pth)
    have path: "pth = device_path i"
      using p Some by (auto simp: create_device_and_module_path_def device_path_def
          split: prod.splits if_splits option.splits)
    obtain r tok e2 where c: "choose_token sv pth e1 = (r, tok, e2)" by (cases "choose_token sv pth e1") auto
    show thesis
    proof (cases tok)
      case None
      with p Some c assms show thesis by (intro none) (simp add: create_and_put_SAS_token_to_cbs_def)
    next
      case tk: (Some token)
      have put: "put_SAS_token_to_cbs os sv (device_path i) token i e2 = (ok, i', e')"
        using p Some c tk assms path by (simp add: create_and_put_SAS_token_to_cbs_def)
      obtain ctx e3 where a: "cbs_put_token_async sv (cbs_handle i) SAS_TOKEN_TYPE (device_path i) token e2 = (ctx, e3)"
        by (cases "cbs_put_token_async sv (cbs_handle i) SAS_TOKEN_TYPE (device_path i) token e2") auto
      obtain t e4 where t: "os_time os e3 = (t, e4)" by (cases "os_time os e3")
      show thesis
      proof (cases ctx)
        case None
        then show thesis
          using put a by (intro refused [of token]) (simp add: put_SAS_token_to_cbs_def Let_def report_def)
      next
        case (Some x)
        then show thesis
          using put a t by (auto simp: put_SAS_token_to_cbs_def Let_def report_def intro: that(3))
      qed
    qed
  qed
qed

lemma starting_ok:
  assumes i: "auth_ok i" "\<not> is_cbs_put_token_in_progress i" "state i = AUTHENTICATION_STATE_STARTING"
    and d: "do_work_starting os sv i e = (i', e')"
  shows "step_ok i i'"
proof -
  obtain ok i1 e1 where c: "create_and_put_SAS_token_to_cbs os sv i e = (ok, i1, e1)"
    by (cases "create_and_put_SAS_token_to_cbs os sv i e") auto
  have r: "\<not> is_sas_token_refresh_in_progress i" using i by (auto simp: auth_ok_def)
  let ?err = "[StateChanged AUTHENTICATION_STATE_STARTING AUTHENTICATION_STATE_ERROR]
      @ (if has_error_callback i then [ErrorNotified AUTHENTICATION_ERROR_AUTH_FAILED] else [])"
  have h: "has_error_callback (update_state s j) = has_error_callback j" for s j
    by (simp add: update_state_def report_def)
  from c show ?thesis
  proof (cases rule: create_and_put_cases)
    case none
    then have "i' = notify_error AUTHENTICATION_ERROR_AUTH_FAILED (update_state AUTHENTICATION_STATE_ERROR i)"
      using d c i by (simp add: do_work_starting_def)
    then show ?thesis using i r
      by (intro step_okI [OF i(1), where new = ?err]) (auto simp: h)
  next
    case (refused token)
    let ?put = "PutToken (cbs_handle i) SAS_TOKEN_TYPE (device_path i) token"
    have "i' = notify_error AUTHENTICATION_ERROR_AUTH_FAILED (update_state AUTHENTICATION_STATE_ERROR i1)"
      using d c refused by (simp add: do_work_starting_def)
    then show ?thesis using i r refused
      by (intro step_okI [OF i(1), where new = "?put # ?err"]) (auto simp: h puts_def errors_def)
  next
    case (put token c0 t)
    let ?put = "PutToken (cbs_handle i) SAS_TOKEN_TYPE (device_path i) token"
    have "i' = i1" using d c put by (simp add: do_work_starting_def)
    then show ?thesis using i r put
      by (intro step_okI [OF i(1), where new = "[?put]"]) auto
  qed
qed

lemma do_work_started_cases:
  assumes d: "do_work_started os sv i e = Done (i', e')"
  obtains (idle) "i' = i"
  | (refreshed) e1 ok i1 e2 where
      "create_and_put_SAS_token_to_cbs os sv (i\<lparr>is_sas_token_refresh_in_progress := True\<rparr>) e1 = (ok, i1, e2)"
      "i' = (if \<not> is_cbs_put_token_in_progress i1
             then notify_error AUTHENTICATION_ERROR_SAS_REFRESH_FAILED
                    (update_state AUTHENTICATION_STATE_ERROR (i1\<lparr>is_sas_token_refresh_in_progress := False\<rparr>))
             else i1)"
proof -
  obtain ct e0 where ct: "Auth_Get_Credential_Type sv e = (ct, e0)" by (cases "Auth_Get_Credential_Type sv e")
  show thesis
  proof (cases "ct = IOTHUB_CREDENTIAL_TYPE_DEVICE_KEY \<or> ct = IOTHUB_CREDENTIAL_TYPE_DEVICE_AUTH")
    case True
    then obtain b e1 where v: "verify_sas_token_refresh_timeout os sv i e0 = Done (b, e1)"
      using d ct by (auto simp: do_work_started_def run_bind_Done_iff)
    obtain ok i1 e2 where c: "create_and_put_SAS_token_to_cbs os sv
        (i\<lparr>is_sas_token_refresh_in_progress := True\<rparr>) e1 = (ok, i1, e2)"
      by (cases "create_and_put_SAS_token_to_cbs os sv (i\<lparr>is_sas_token_refresh_in_progress := True\<rparr>) e1") auto
    show thesis
      using d ct True v c that by (cases "b = Some True") (auto simp: do_work_started_def split: if_splits)
  next
    case False
    then show thesis using d ct that by (auto simp: do_work_started_def)
  qed
qed

lemma started_ok:
  assumes i: "auth_ok i" "\<not> is_cbs_put_token_in_progress i" "state i = AUTHENTICATION_STATE_STARTED"
    and d: "do_work_started os sv i e = Done (i', e')"
  shows "step_ok i i'"
proof -
  let ?i = "i\<lparr>is_sas_token_refresh_in_progress := True\<rparr>"
  have same: "cbs_handle ?i = cbs_handle i" "device_path ?i = device_path i"
    by (simp_all add: device_path_def)
  from d consider "i' = i"
    | e1 ok i1 e2 where "create_and_put_SAS_token_to_cbs os sv ?i e1 = (ok, i1, e2)"
      "i' = (if \<not> is_cbs_put_token_in_progress i1
             then notify_error AUTHENTICATION_ERROR_SAS_REFRESH_FAILED
                    (update_state AUTHENTICATION_STATE_ERROR (i1\<lparr>is_sas_token_refresh_in_progress := False\<rparr>))
             else i1)"
    by (rule do_work_started_cases) blast+
  then show ?thesis
  proof cases
    case 1
    then show ?thesis using i by (simp add: step_ok_refl)
  next
    case 2
    have r: "\<not> is_sas_token_refresh_in_progress i" using i by (auto simp: auth_ok_def)
    let ?err = "[StateChanged AUTHENTICATION_STATE_STARTED AUTHENTICATION_STATE_ERROR]
      @ (if has_error_callback i then [ErrorNotified AUTHENTICATION_ERROR_SAS_REFRESH_FAILED] else [])"
    have h: "has_error_callback (update_state s j) = has_error_callback j" for s j
      by (simp add: update_state_def report_def)
    from 2(1) show ?thesis
    proof (cases rule: create_and_put_cases)
      case none
      then show ?thesis using i r 2(2)
        by (intro step_okI [OF i(1), where new = ?err]) (auto simp: h)
    next
      case (refused token)
      let ?put = "PutToken (cbs_handle i) SAS_TOKEN_TYPE (device_path i) token"
      show ?thesis using i r refused 2(2)
        by (intro step_okI [OF i(1), where new = "?put # ?err"]) (auto simp: h puts_def errors_def same)
    next
      case (put token c t)
      let ?put = "PutToken (cbs_handle i) SAS_TOKEN_TYPE (device_path i) token"
      show ?thesis using i r put 2(2)
        by (intro step_okI [OF i(1), where new = "[?put]"]) (auto simp: same)
    qed
  qed
qed

lemma in_progress_ok:
  assumes i: "auth_ok i" "is_cbs_put_token_in_progress i" and d: "do_work_in_progress os i e = Done (i', e')"
  shows "step_ok i i'"
proof -
  let ?code = "if is_sas_token_refresh_in_progress i then AUTHENTICATION_ERROR_SAS_REFRESH_TIMEOUT
      else AUTHENTICATION_ERROR_AUTH_TIMEOUT"
  let ?new = "(if state i \<noteq> AUTHENTICATION_STATE_ERROR then [StateChanged (state i) AUTHENTICATION_STATE_ERROR] else [])
      @ (if has_error_callback i then [ErrorNotified ?code] else [])"
  have h: "has_error_callback (update_state s j) = has_error_callback j" for s j
    by (simp add: update_state_def report_def)
  from d consider "i' = i"
    | "i' = (notify_error ?code (update_state AUTHENTICATION_STATE_ERROR
          (i\<lparr>is_cbs_put_token_in_progress := False\<rparr>)))\<lparr>is_sas_token_refresh_in_progress := False\<rparr>"
    by (auto simp: do_work_in_progress_def run_bind_Done_iff Let_def split: if_splits)
  then show ?thesis
  proof cases
    case 1
    then show ?thesis using i by (simp add: step_ok_refl)
  next
    case 2
    then show ?thesis by (intro step_okI [OF i(1), where new = ?new]) (auto simp: h)
  qed
qed

section \<open>Runs\<close>

text \<open>
  The calls an instance gets: from its owner, and from the CBS link, at any time. An output is a
  transition, with the instance before and after.
\<close>

datatype auth_request = Start nat | Stop | DoWork | PutCompleted bool | SetTimeout nat

fun auth_call ::
  "('e, 'm) os_scheme \<Rightarrow> ('e, 'n) auth_services_scheme \<Rightarrow> auth_request \<Rightarrow> AUTHENTICATION_INSTANCE \<Rightarrow> 'e
     \<Rightarrow> (AUTHENTICATION_INSTANCE option \<times> 'e) run" where
  "auth_call os sv (Start c) i e = Done (snd (authentication_start (Some i) (Some c)), e)"
| "auth_call os sv Stop i e = Done (snd (authentication_stop (Some i)), e)"
| "auth_call os sv DoWork i e = authentication_do_work os sv (Some i) e"
| "auth_call os sv (PutCompleted ok) i e = Done (Some (on_cbs_put_token_complete_callback ok i), e)"
| "auth_call os sv (SetTimeout n) i e =
     Done (snd (authentication_set_option (Some i) (Some AUTHENTICATION_OPTION_CBS_REQUEST_TIMEOUT_SECS)
       (Some (Secs n))), e)"

definition auth_step ::
  "('e, 'm) os_scheme \<Rightarrow> ('e, 'n) auth_services_scheme \<Rightarrow> auth_request
     \<Rightarrow> (AUTHENTICATION_INSTANCE \<times> 'e) run
     \<Rightarrow> (AUTHENTICATION_INSTANCE \<times> AUTHENTICATION_INSTANCE) list \<times> (AUTHENTICATION_INSTANCE \<times> 'e) run" where
  "auth_step os sv r s =
     (case s of
        Done (i, e) \<Rightarrow>
          (case auth_call os sv r i e of
             Done (i', e') \<Rightarrow> ([(i, the i')], Done (the i', e'))
           | Fault \<Rightarrow> ([], Fault) | NoFuel \<Rightarrow> ([], NoFuel))
      | Fault \<Rightarrow> ([], Fault) | NoFuel \<Rightarrow> ([], NoFuel))"

definition auth_inv :: "(AUTHENTICATION_INSTANCE \<times> 'e) run \<Rightarrow> bool" where
  "auth_inv s \<longleftrightarrow> (\<forall>i e. s = Done (i, e) \<longrightarrow> auth_ok i)"

lemma run_bind_Some:
  "run_bind m (\<lambda>(i, e). Done (Some i, e)) = Done (i', e') \<Longrightarrow> \<exists>j. m = Done (j, e') \<and> i' = Some j"
  by (cases m) auto

lemma do_work_ok:
  assumes i: "auth_ok i" and d: "authentication_do_work os sv (Some i) e = Done (i', e')"
  shows "\<exists>j. i' = Some j \<and> step_ok i j"
proof -
  consider "is_cbs_put_token_in_progress i"
    | "\<not> is_cbs_put_token_in_progress i" "state i = AUTHENTICATION_STATE_STARTED"
    | "\<not> is_cbs_put_token_in_progress i" "state i = AUTHENTICATION_STATE_STARTING"
    | "\<not> is_cbs_put_token_in_progress i" "state i \<noteq> AUTHENTICATION_STATE_STARTED"
      "state i \<noteq> AUTHENTICATION_STATE_STARTING" by blast
  then show ?thesis
  proof cases
    case 1
    then have "run_bind (do_work_in_progress os i e) (\<lambda>(i, e). Done (Some i, e)) = Done (i', e')"
      using d by (simp add: authentication_do_work_def)
    from run_bind_Some [OF this] obtain j where j: "do_work_in_progress os i e = Done (j, e')" "i' = Some j"
      by (elim exE conjE)
    have "step_ok i j" by (rule in_progress_ok [OF i 1 j(1)])
    with j(2) show ?thesis by simp
  next
    case 2
    then have "run_bind (do_work_started os sv i e) (\<lambda>(i, e). Done (Some i, e)) = Done (i', e')"
      using d by (simp add: authentication_do_work_def)
    from run_bind_Some [OF this] obtain j where j: "do_work_started os sv i e = Done (j, e')" "i' = Some j"
      by (elim exE conjE)
    have "step_ok i j" by (rule started_ok [OF i 2 j(1)])
    with j(2) show ?thesis by simp
  next
    case 3
    obtain j e1 where j: "do_work_starting os sv i e = (j, e1)" by (cases "do_work_starting os sv i e")
    then have "i' = Some j" using d 3 by (simp add: authentication_do_work_def)
    then show ?thesis using starting_ok [OF i 3 j] by blast
  next
    case 4
    then have "i' = Some i" using d by (simp add: authentication_do_work_def)
    then show ?thesis using step_ok_refl [OF i] by blast
  qed
qed

lemma set_timeout_ok:
  assumes "auth_ok i"
  shows "step_ok i (i\<lparr>cbs_request_timeout_secs := n\<rparr>)"
  using assms by (intro step_okI [where new = "[]"]) (simp_all add: auth_ok_def)

lemma handle_kept:
  "\<exists>j. snd (authentication_start (Some i) (Some c)) = Some j"
  "\<exists>j. snd (authentication_stop (Some i)) = Some j"
  by (simp_all add: authentication_start_def authentication_stop_def)

lemma auth_call_ok:
  assumes i: "auth_ok i" and d: "auth_call os sv r i e = Done (i', e')"
  shows "\<exists>j. i' = Some j \<and> step_ok i j"
proof (cases r)
  case (Start c)
  obtain j where j: "snd (authentication_start (Some i) (Some c)) = Some j" using handle_kept(1) by blast
  have "step_ok i j" by (rule start_ok [OF i]) (use j in \<open>simp add: prod_eq_iff\<close>)
  moreover have "i' = Some j" using d Start j by simp
  ultimately show ?thesis by blast
next
  case Stop
  obtain j where j: "snd (authentication_stop (Some i)) = Some j" using handle_kept(2) by blast
  have "step_ok i j" by (rule stop_ok [OF i]) (use j in \<open>simp add: prod_eq_iff\<close>)
  moreover have "i' = Some j" using d Stop j by simp
  ultimately show ?thesis by blast
next
  case (PutCompleted ok)
  with d complete_ok [OF i, of ok] show ?thesis by auto
next
  case (SetTimeout n)
  with d set_timeout_ok [OF i, of n] show ?thesis
    by (auto simp: authentication_set_option_def auth_set_secs_def)
next
  case DoWork
  with d have "authentication_do_work os sv (Some i) e = Done (i', e')" by simp
  then show ?thesis by (rule do_work_ok [OF i])
qed

lemma auth_step_ok:
  assumes inv: "auth_inv s"
  shows "auth_inv (snd (auth_step os sv r s))"
    and "o' \<in> set (fst (auth_step os sv r s)) \<Longrightarrow> good_transition o'"
proof -
  have "auth_inv (snd (auth_step os sv r s))
    \<and> (\<forall>o' \<in> set (fst (auth_step os sv r s)). good_transition o')"
  proof (cases s)
    case (Done x)
    obtain i e where x: "x = (i, e)" by (cases x)
    then have ok: "auth_ok i" using inv Done by (simp add: auth_inv_def)
    show ?thesis
    proof (cases "auth_call os sv r i e")
      case d: (Done y)
      obtain i' e' where y: "y = (i', e')" by (cases y)
      from auth_call_ok [OF ok d [unfolded y]] obtain j where "i' = Some j" "step_ok i j" by blast
      then show ?thesis by (simp add: auth_step_def Done x d y auth_inv_def step_ok_def)
    qed (simp_all add: auth_step_def Done x auth_inv_def)
  qed (simp_all add: auth_step_def auth_inv_def)
  then show "auth_inv (snd (auth_step os sv r s))"
    "o' \<in> set (fst (auth_step os sv r s)) \<Longrightarrow> good_transition o'" by auto
qed

interpretation auth_runs: stepper "auth_step os sv" auth_inv good_transition for os sv
  by unfold_locales (fact auth_step_ok)+

section \<open>Properties\<close>

lemma auth_create_ok: "authentication_create os sv config e = (Some i, e') \<Longrightarrow> auth_ok i"
  by (auto simp: authentication_create_def auth_ok_def split: option.splits prod.splits if_splits)

text \<open>
  C23: Through any calls from its owner and any completions from the CBS link, the state changes an
  instance reports to its owner form an unbroken chain from STOPPED to the state it is in, a
  refresh is only marked when a token is in flight, and a token in flight has its operation handle.
\<close>

theorem auth_reports_track_state:
  assumes "authentication_create os sv config e = (Some i, e')"
    "snd (steps (auth_step os sv) rs (Done (i, e'))) = Done (i2, e2)"
  shows "follow AUTHENTICATION_STATE_STOPPED (reports i2) = Some (state i2)
    \<and> (is_sas_token_refresh_in_progress i2 \<longrightarrow> is_cbs_put_token_in_progress i2)
    \<and> (is_cbs_put_token_in_progress i2 \<longrightarrow> cbs_put_token_async_context i2 \<noteq> None)"
proof -
  have "auth_inv (Done (i, e'))" using auth_create_ok [OF assms(1)] by (simp add: auth_inv_def)
  from auth_runs.steps_inv [OF this, of os sv rs] assms(2) show ?thesis
    by (simp add: auth_inv_def auth_ok_def)
qed

text \<open>Services for examples: a device key, tokens, a link that accepts, an expiry of 100 seconds.\<close>

definition example_services :: "script auth_services" where
  "example_services = \<lparr>
     Auth_Get_Credential_Type = (\<lambda>e. (IOTHUB_CREDENTIAL_TYPE_DEVICE_KEY, e)),
     Auth_Get_SasToken = (\<lambda>p e. (Some ''sas'', e)),
     Auth_Is_SasToken_Valid = (\<lambda>e. (SAS_TOKEN_STATUS_VALID, e)),
     Auth_Get_SasToken_Expiry = (\<lambda>e. (100, e)),
     Auth_Get_DeviceId = (\<lambda>e. (Some ''d'', e)), Auth_Get_ModuleId = (\<lambda>e. (None, e)),
     cbs_put_token_async = (\<lambda>h t a k e. (Some 5, e)), round_double = (\<lambda>x. x)\<rparr>"

definition example_config :: AUTHENTICATION_CONFIG where
  "example_config = \<lparr>cfg_fqdn = Some ''h'', cfg_on_state_changed = True, cfg_on_error = True,
     cfg_authorization_module = True\<rparr>"

definition example_instance :: AUTHENTICATION_INSTANCE where
  "example_instance = \<lparr>device_id = ''d'', module_id = None, iothub_host_fqdn = ''h'',
     has_error_callback = True, cbs_request_timeout_secs = DEFAULT_CBS_REQUEST_TIMEOUT_SECS,
     state = AUTHENTICATION_STATE_STOPPED, cbs_handle = None, is_cbs_put_token_in_progress = False,
     is_sas_token_refresh_in_progress = False, current_sas_token_put_time = 0,
     cbs_put_token_async_context = None, reports = []\<rparr>"

lemma example_created:
  "authentication_create script_os example_services (Some example_config) (plain_env\<lparr>clock := [10, 20, 30]\<rparr>) =
     (Some example_instance, plain_env\<lparr>allocs := 2, clock := [10, 20, 30]\<rparr>)"
  by (simp add: authentication_create_def example_config_def example_services_def example_instance_def
      script_os_def plain_env_def)

definition example_run :: "(AUTHENTICATION_INSTANCE \<times> AUTHENTICATION_INSTANCE) list \<times> (AUTHENTICATION_INSTANCE \<times> script) run" where
  "example_run = steps (auth_step script_os example_services)
     [Start 3, SetTimeout 5, DoWork, DoWork, PutCompleted True]
     (Done (example_instance, plain_env\<lparr>allocs := 2, clock := [10, 20, 30]\<rparr>))"

lemmas example_run_simps =
  example_instance_def example_services_def script_os_def plain_env_def auth_step_def
  authentication_start_def authentication_stop_def authentication_do_work_def do_work_starting_def
  do_work_in_progress_def create_and_put_SAS_token_to_cbs_def put_SAS_token_to_cbs_def
  create_device_and_module_path_def choose_token_def verify_cbs_put_token_timeout_def elapsed_def
  on_cbs_put_token_complete_callback_def authentication_set_option_def auth_set_secs_def
  update_state_def notify_error_def report_def INDEFINITE_TIME_def puts_def errors_def

lemma example_run_end:
  "\<exists>i e. snd example_run = Done (i, e) \<and> reports i =
     [StateChanged AUTHENTICATION_STATE_STOPPED AUTHENTICATION_STATE_STARTING,
      PutToken (Some 3) SAS_TOKEN_TYPE ''h/devices/d'' ''sas'',
      StateChanged AUTHENTICATION_STATE_STARTING AUTHENTICATION_STATE_ERROR,
      ErrorNotified AUTHENTICATION_ERROR_AUTH_TIMEOUT,
      StateChanged AUTHENTICATION_STATE_ERROR AUTHENTICATION_STATE_STARTED]"
proof -
  have "case snd example_run of Done (i, e) \<Rightarrow> reports i =
     [StateChanged AUTHENTICATION_STATE_STOPPED AUTHENTICATION_STATE_STARTING,
      PutToken (Some 3) SAS_TOKEN_TYPE ''h/devices/d'' ''sas'',
      StateChanged AUTHENTICATION_STATE_STARTING AUTHENTICATION_STATE_ERROR,
      ErrorNotified AUTHENTICATION_ERROR_AUTH_TIMEOUT,
      StateChanged AUTHENTICATION_STATE_ERROR AUTHENTICATION_STATE_STARTED] | _ \<Rightarrow> False"
    by (simp add: example_run_def example_run_simps)
  then show ?thesis by (cases "snd example_run") auto
qed

theorem auth_reports_track_state_witness:
  "\<exists>i e. snd example_run = Done (i, e) \<and> follow AUTHENTICATION_STATE_STOPPED (reports i) = Some (state i)"
proof -
  obtain i e where r: "snd example_run = Done (i, e)" using example_run_end by blast
  from auth_reports_track_state [OF example_created r [unfolded example_run_def]] r show ?thesis by blast
qed

text \<open>
  C24: In every run each operation puts at most one token to the CBS link, only when none is in
  flight and the state is STARTING or STARTED, on the current CBS handle and for the path of the
  device; and it notifies at most one error, the state then being ERROR with nothing in flight.
\<close>

theorem auth_one_token_at_a_time:
  assumes "authentication_create os sv config e = (Some i, e')"
    "(i1, i2) \<in> set (fst (steps (auth_step os sv) rs (Done (i, e'))))"
  shows "good_transition (i1, i2)"
proof -
  have "auth_inv (Done (i, e'))" using auth_create_ok [OF assms(1)] by (simp add: auth_inv_def)
  from auth_runs.steps_out [OF this assms(2)] show ?thesis .
qed

theorem auth_one_token_at_a_time_witness:
  "length (fst example_run) = 5 \<and> good_transition (fst example_run ! 2)"
proof -
  have len: "length (fst example_run) = 5" by (simp add: example_run_def example_run_simps)
  moreover obtain i1 i2 where t: "fst example_run ! 2 = (i1, i2)" by (cases "fst example_run ! 2")
  ultimately have "(i1, i2) \<in> set (fst example_run)"
    using nth_mem [of 2 "fst example_run"] by simp
  from auth_one_token_at_a_time [OF example_created this [unfolded example_run_def]] len t
  show ?thesis by simp
qed



text \<open>
  While a token is in flight and its put time is known, the next turn of work changes nothing
  before the request timeout, and at or after it takes the instance to ERROR, ends the request and
  tells the owner a timeout: of the refresh if one was under way, else of the authentication.
\<close>

theorem put_token_timeout:
  assumes "is_cbs_put_token_in_progress i" "current_sas_token_put_time i \<noteq> INDEFINITE_TIME"
    "os_time os e = (now, e1)" "now \<noteq> INDEFINITE_TIME" "current_sas_token_put_time i \<le> now"
    "has_error_callback i"
  shows "\<exists>i'. authentication_do_work os sv (Some i) e = Done (Some i', e1)
    \<and> (if now - current_sas_token_put_time i < int (cbs_request_timeout_secs i) then i' = i
       else state i' = AUTHENTICATION_STATE_ERROR \<and> \<not> is_cbs_put_token_in_progress i'
         \<and> \<not> is_sas_token_refresh_in_progress i'
         \<and> last (reports i') = ErrorNotified (if is_sas_token_refresh_in_progress i
              then AUTHENTICATION_ERROR_SAS_REFRESH_TIMEOUT else AUTHENTICATION_ERROR_AUTH_TIMEOUT))"
proof -
  have h: "has_error_callback (update_state s j) = has_error_callback j" for s j
    by (simp add: update_state_def report_def)
  show ?thesis
    using assms
    by (auto simp: authentication_do_work_def do_work_in_progress_def verify_cbs_put_token_timeout_def
        elapsed_def Let_def h)
qed

theorem put_token_timeout_witness:
  "\<exists>i'. authentication_do_work script_os example_services
      (Some (example_instance\<lparr>is_cbs_put_token_in_progress := True, cbs_request_timeout_secs := 5,
         is_sas_token_refresh_in_progress := True\<rparr>)) (plain_env\<lparr>clock := [7]\<rparr>) = Done (Some i', plain_env\<lparr>clock := [7]\<rparr>)
    \<and> last (reports i') = ErrorNotified AUTHENTICATION_ERROR_SAS_REFRESH_TIMEOUT"
proof -
  have t: "os_time script_os (plain_env\<lparr>clock := [7]\<rparr>) = (7, plain_env\<lparr>clock := [7]\<rparr>)"
    by (simp add: script_os_def)
  show ?thesis
    using put_token_timeout [OF _ _ t, of "example_instance\<lparr>is_cbs_put_token_in_progress := True,
        cbs_request_timeout_secs := 5, is_sas_token_refresh_in_progress := True\<rparr>" example_services]
    by (auto simp: example_instance_def INDEFINITE_TIME_def)
qed

text \<open>
  A request that has timed out is not cancelled: its completion, when it still comes, takes the
  instance from ERROR to STARTED after the owner has been told that the authentication timed out.
\<close>

theorem late_completion_leaves_error:
  "\<exists>i e. snd example_run = Done (i, e) \<and> state i = AUTHENTICATION_STATE_STARTED
     \<and> errors (reports i) = [AUTHENTICATION_ERROR_AUTH_TIMEOUT]"
proof -
  have "case snd example_run of Done (i, e) \<Rightarrow> state i = AUTHENTICATION_STATE_STARTED
     \<and> errors (reports i) = [AUTHENTICATION_ERROR_AUTH_TIMEOUT] | _ \<Rightarrow> False"
    by (simp add: example_run_def example_run_simps)
  then show ?thesis by (cases "snd example_run") auto
qed

text \<open>
  authentication\_stop leaves the mark of a token in flight: after a stop and a start on a new
  CBS handle, work puts no token on it, and the completion of the old request makes the instance
  STARTED although nothing was ever sent on the new handle.
\<close>

theorem restart_trusts_the_old_request:
  "case snd (steps (auth_step script_os example_services)
      [Start 3, DoWork, Stop, Start 4, DoWork, PutCompleted True]
      (Done (example_instance, plain_env\<lparr>clock := [10]\<rparr>))) of
     Done (i, e) \<Rightarrow> state i = AUTHENTICATION_STATE_STARTED \<and> cbs_handle i = Some 4
       \<and> map fst (puts (reports i)) = [Some 3]
   | _ \<Rightarrow> False"
  by (simp add: example_run_def example_run_simps)

end
