(* ===== verification/Blob.thy ===== *)
theory Blob
  imports Main Sdk_Prelude
begin

text \<open>
  Upload of a blob in blocks (iothub\_client/src/blob.c): the owner's callback gives the blocks one
  by one, each is put to the storage under an identifier of its number, and when the owner says it
  is done and every block was accepted the list of identifiers is put, which makes the blob. The
  HTTP library and the base64 encoding (azure\_c\_shared\_utility, not part of this repository) are
  arguments; the requests are kept in order in the field \<open>requests\<close>, with the status each got.
\<close>

section \<open>Data\<close>

datatype BLOB_RESULT =
  BLOB_OK | BLOB_ERROR | BLOB_NOT_IMPLEMENTED | BLOB_HTTP_ERROR | BLOB_INVALID_ARG | BLOB_ABORTED

datatype GET_DATA_RESULT =
  IOTHUB_CLIENT_FILE_UPLOAD_GET_DATA_OK | IOTHUB_CLIENT_FILE_UPLOAD_GET_DATA_ABORT

definition BLOCK_SIZE :: nat where "BLOCK_SIZE = 4 * 1024 * 1024"

definition MAX_BLOCK_COUNT :: nat where "MAX_BLOCK_COUNT = 50000"

datatype http_option = TrustedCerts string | HttpProxy string | CurlInterface string

text \<open>
  None of HTTPAPIEX\_Create is NULL, a false answer of HTTPAPIEX\_SetOption is HTTPAPIEX\_ERROR, and
  HTTPAPIEX\_ExecuteRequest answers None for anything but HTTPAPIEX\_OK and else the HTTP status.
\<close>

record 'e http_api =
  HTTPAPIEX_Create :: "string \<Rightarrow> 'e \<Rightarrow> nat option \<times> 'e"
  HTTPAPIEX_SetOption :: "nat \<Rightarrow> http_option \<Rightarrow> 'e \<Rightarrow> bool \<times> 'e"
  HTTPAPIEX_ExecuteRequest :: "nat \<Rightarrow> string \<Rightarrow> char list \<Rightarrow> 'e \<Rightarrow> nat option \<times> 'e"
  Azure_Base64_Encode_Bytes :: "char list \<Rightarrow> 'e \<Rightarrow> string option \<times> 'e"

text \<open>
  The callback of the owner: it finds in its arguments what it left there the call before, the
  block (None is NULL, a block of size 0 is empty), and has its own context.
\<close>

type_synonym 'c get_data = "char list option \<Rightarrow> 'c \<Rightarrow> GET_DATA_RESULT \<times> char list option \<times> 'c"

text \<open>What an upload changes: the XML of identifiers, *httpStatus (None before it is written).\<close>

record upload =
  blockIDList :: string
  httpStatus :: "nat option"
  requests :: "(string \<times> char list \<times> nat option) list"

definition blockListXmlBegin :: string where
  "blockListXmlBegin = ''<?xml version='' @ [CHR 0x22] @ ''1.0'' @ [CHR 0x22] @ '' encoding='' @ [CHR 0x22]
     @ ''utf-8'' @ [CHR 0x22] @ ''?>'' @ [CHR 0x0D, CHR 0x0A] @ ''<BlockList>''"

definition blockListXmlEnd :: string where
  "blockListXmlEnd = ''</BlockList>''"

definition blockListUriMarker :: string where
  "blockListUriMarker = ''&comp=blocklist''"

section \<open>Operations\<close>

text \<open>sprintf with the format %6u.\<close>

definition block_number :: "nat \<Rightarrow> string" where
  "block_number n = replicate (6 - length (nat_str n)) (CHR 0x20) @ nat_str n"

text \<open>A false answer of os\_malloc is a failure of a STRING or BUFFER function.\<close>

fun concat_all :: "('e, 'm) os_scheme \<Rightarrow> string list \<Rightarrow> string \<Rightarrow> 'e \<Rightarrow> bool \<times> string \<times> 'e" where
  "concat_all os [] s e = (True, s, e)"
| "concat_all os (t # ts) s e =
     (case os_malloc os e of (ok, e) \<Rightarrow> if ok then concat_all os ts (s @ t) e else (False, s, e))"

definition execute ::
  "('e, 'n) http_api_scheme \<Rightarrow> nat \<Rightarrow> string \<Rightarrow> char list \<Rightarrow> upload \<Rightarrow> 'e \<Rightarrow> BLOB_RESULT \<times> upload \<times> 'e" where
  "execute api h path content u e =
     (case HTTPAPIEX_ExecuteRequest api h path content e of (st, e) \<Rightarrow>
      let u = u\<lparr>requests := requests u @ [(path, content, st)]\<rparr> in
      case st of None \<Rightarrow> (BLOB_HTTP_ERROR, u, e) | Some s \<Rightarrow> (BLOB_OK, u\<lparr>httpStatus := Some s\<rparr>, e))"

text \<open>The argument \<open>places\<close> is whether httpStatus and httpResponse are not NULL.\<close>

definition Blob_UploadBlock ::
  "('e, 'm) os_scheme \<Rightarrow> ('e, 'n) http_api_scheme \<Rightarrow> nat option \<Rightarrow> string option \<Rightarrow> char list option \<Rightarrow> nat
     \<Rightarrow> bool \<Rightarrow> upload \<Rightarrow> 'e \<Rightarrow> BLOB_RESULT \<times> upload \<times> 'e" where
  "Blob_UploadBlock os api handle relativePath requestContent blockID places u e =
     (case (handle, relativePath, requestContent) of
        (Some h, Some path, Some content) \<Rightarrow>
          if \<not> places then (BLOB_ERROR, u, e)
          else if blockID > 49999 then (BLOB_ERROR, u, e)
          else if length (block_number blockID) \<noteq> 6 then (BLOB_ERROR, u, e)
          else (case Azure_Base64_Encode_Bytes api (block_number blockID) e of
            (None, e) \<Rightarrow> (BLOB_ERROR, u, e)
          | (Some blockIdString, e) \<Rightarrow>
              (case concat_all os [''<Latest>'', blockIdString, ''</Latest>''] (blockIDList u) e of (ok, xml, e) \<Rightarrow>
               let u = u\<lparr>blockIDList := xml\<rparr> in
               if \<not> ok then (BLOB_ERROR, u, e)
               else (case os_malloc os e of (ok, e) \<Rightarrow>
                 if \<not> ok then (BLOB_ERROR, u, e)
                 else (case concat_all os [''&comp=block&blockid='', blockIdString] path e of (ok, newRelativePath, e) \<Rightarrow>
                   if \<not> ok then (BLOB_ERROR, u, e)
                   else execute api h newRelativePath content u e))))
      | _ \<Rightarrow> (BLOB_ERROR, u, e))"

text \<open>
  The loop of InvokeUserCallbackAndSendBlobs. It reads *httpStatus only after a block was sent;
  reading it before it is written would be an access to an indeterminate value.
\<close>

function send_blocks ::
  "('e, 'm) os_scheme \<Rightarrow> ('e, 'n) http_api_scheme \<Rightarrow> 'c get_data \<Rightarrow> nat \<Rightarrow> string \<Rightarrow> bool
     \<Rightarrow> char list option \<Rightarrow> nat \<Rightarrow> upload \<Rightarrow> 'c \<Rightarrow> 'e \<Rightarrow> (BLOB_RESULT \<times> upload \<times> 'c \<times> 'e) run" where
  "send_blocks os api getData h path places source blockID u c e =
     (case getData source c of (ret, source, c) \<Rightarrow>
        if ret = IOTHUB_CLIENT_FILE_UPLOAD_GET_DATA_ABORT then Done (BLOB_ABORTED, u, c, e)
        else (case source of
          None \<Rightarrow> Done (BLOB_OK, u, c, e)
        | Some block \<Rightarrow>
            if length block = 0 then Done (BLOB_OK, u, c, e)
            else if length block > BLOCK_SIZE then Done (BLOB_INVALID_ARG, u, c, e)
            else if blockID \<ge> MAX_BLOCK_COUNT then Done (BLOB_INVALID_ARG, u, c, e)
            else (case os_malloc os e of (ok, e) \<Rightarrow>
              if \<not> ok then Done (BLOB_ERROR, u, c, e)
              else (case Blob_UploadBlock os api (Some h) (Some path) (Some block) blockID places u e of
                (result, u, e) \<Rightarrow>
                  if result \<noteq> BLOB_OK then Done (result, u, c, e)
                  else (case httpStatus u of
                    None \<Rightarrow> Fault
                  | Some status \<Rightarrow>
                      if status \<ge> 300 then Done (result, u, c, e)
                      else send_blocks os api getData h path places source (Suc blockID) u c e)))))"
  by pat_completeness auto

termination
  by (relation "measure (\<lambda>(os, api, getData, h, path, places, source, blockID, u, c, e). MAX_BLOCK_COUNT - blockID)")
    auto

declare send_blocks.simps [simp del]

definition InvokeUserCallbackAndSendBlobs ::
  "('e, 'm) os_scheme \<Rightarrow> ('e, 'n) http_api_scheme \<Rightarrow> 'c get_data \<Rightarrow> nat \<Rightarrow> string \<Rightarrow> bool
     \<Rightarrow> upload \<Rightarrow> 'c \<Rightarrow> 'e \<Rightarrow> (BLOB_RESULT \<times> upload \<times> 'c \<times> 'e) run" where
  "InvokeUserCallbackAndSendBlobs os api getData h path places u c e =
     send_blocks os api getData h path places None 0 u c e"

definition SendBlockIdList ::
  "('e, 'm) os_scheme \<Rightarrow> ('e, 'n) http_api_scheme \<Rightarrow> nat \<Rightarrow> string \<Rightarrow> upload \<Rightarrow> 'e \<Rightarrow> BLOB_RESULT \<times> upload \<times> 'e" where
  "SendBlockIdList os api h relativePath u e =
     (case concat_all os [blockListXmlEnd] (blockIDList u) e of (ok, xml, e) \<Rightarrow>
      let u = u\<lparr>blockIDList := xml\<rparr> in
      if \<not> ok then (BLOB_ERROR, u, e)
      else (case os_malloc os e of (ok, e) \<Rightarrow>
        if \<not> ok then (BLOB_ERROR, u, e)
        else (case concat_all os [blockListUriMarker] relativePath e of (ok, newRelativePath, e) \<Rightarrow>
          if \<not> ok then (BLOB_ERROR, u, e)
          else (case os_malloc os e of (ok, e) \<Rightarrow>
            if \<not> ok then (BLOB_ERROR, u, e)
            else execute api h newRelativePath (blockIDList u) u e))))"

text \<open>The text behind the first occurrence of ://, as strstr finds it.\<close>

fun after_scheme :: "string \<Rightarrow> string option" where
  "after_scheme [] = None"
| "after_scheme (c # cs) =
     (if take 3 (c # cs) = ''://'' then Some (drop 3 (c # cs)) else after_scheme cs)"

text \<open>Passing an option when it is given; true when that did not fail.\<close>

definition set_given ::
  "('e, 'n) http_api_scheme \<Rightarrow> nat \<Rightarrow> http_option option \<Rightarrow> 'e \<Rightarrow> bool \<times> 'e" where
  "set_given api h opt e = (case opt of None \<Rightarrow> (True, e) | Some v \<Rightarrow> HTTPAPIEX_SetOption api h v e)"

record upload_options =
  certificates :: "string option"
  proxy_host :: "string option"
  networkInterface :: "string option"

definition Blob_UploadMultipleBlocksFromSasUri ::
  "('e, 'm) os_scheme \<Rightarrow> ('e, 'n) http_api_scheme \<Rightarrow> string option \<Rightarrow> 'c get_data option \<Rightarrow> upload_options
     \<Rightarrow> bool \<Rightarrow> nat option \<Rightarrow> 'c \<Rightarrow> 'e \<Rightarrow> (BLOB_RESULT \<times> upload \<times> 'c \<times> 'e) run" where
  "Blob_UploadMultipleBlocksFromSasUri os api SASURI getDataCallbackEx opts places status c e =
     (let u = \<lparr>blockIDList = [], httpStatus = status, requests = []\<rparr> in
      case (SASURI, getDataCallbackEx) of
        (Some uri, Some getData) \<Rightarrow>
          (case after_scheme uri of
             None \<Rightarrow> Done (BLOB_INVALID_ARG, u, c, e)
           | Some hostnameBegin \<Rightarrow>
               if CHR ''/'' \<notin> set hostnameBegin then Done (BLOB_INVALID_ARG, u, c, e)
               else
               let hostname = takeWhile (\<lambda>x. x \<noteq> CHR ''/'') hostnameBegin;
                   relativePath = dropWhile (\<lambda>x. x \<noteq> CHR ''/'') hostnameBegin in
               (case os_malloc os e of (ok, e) \<Rightarrow>
                if \<not> ok then Done (BLOB_ERROR, u, c, e)
                else (case HTTPAPIEX_Create api hostname e of
                  (None, e) \<Rightarrow> Done (BLOB_ERROR, u, c, e)
                | (Some h, e) \<Rightarrow>
                    (case set_given api h (map_option TrustedCerts (certificates opts)) e of (ok, e) \<Rightarrow>
                     if \<not> ok then Done (BLOB_ERROR, u, c, e)
                     else (case set_given api h (map_option HttpProxy (proxy_host opts)) e of (ok, e) \<Rightarrow>
                     if \<not> ok then Done (BLOB_ERROR, u, c, e)
                     else (case set_given api h (map_option CurlInterface (networkInterface opts)) e of (ok, e) \<Rightarrow>
                     if \<not> ok then Done (BLOB_ERROR, u, c, e)
                     else (case os_malloc os e of (ok, e) \<Rightarrow>
                     if \<not> ok then Done (BLOB_HTTP_ERROR, u, c, e)
                     else
                       run_bind (InvokeUserCallbackAndSendBlobs os api getData h relativePath places
                           (u\<lparr>blockIDList := blockListXmlBegin\<rparr>) c e)
                         (\<lambda>(result, u, c, e).
                           if result \<noteq> BLOB_OK then Done (result, u, c, e)
                           else (case httpStatus u of
                             None \<Rightarrow> Fault
                           | Some st \<Rightarrow>
                               if st < 300 then
                                 (case SendBlockIdList os api h relativePath u e of (result, u, e) \<Rightarrow>
                                    Done (result, u, c, e))
                               else Done (result, u, c, e)))))))))) 
      | _ \<Rightarrow> Done (BLOB_INVALID_ARG, u, c, e))"
section \<open>What an upload sends\<close>

text \<open>
  Base64 as azure\_c\_shared\_utility documents it: the encoder answers NULL or the encoding of the
  bytes, and different bytes have different encodings.
\<close>

definition encodes :: "('e, 'n) http_api_scheme \<Rightarrow> (char list \<Rightarrow> string) \<Rightarrow> bool" where
  "encodes api enc \<longleftrightarrow> inj enc
     \<and> (\<forall>bs e. fst (Azure_Base64_Encode_Bytes api bs e) \<in> {None, Some (enc bs)})"

definition block_id :: "(char list \<Rightarrow> string) \<Rightarrow> nat \<Rightarrow> string" where
  "block_id enc k = enc (block_number k)"

definition block_path :: "(char list \<Rightarrow> string) \<Rightarrow> string \<Rightarrow> nat \<Rightarrow> string" where
  "block_path enc path k = path @ ''&comp=block&blockid='' @ block_id enc k"

definition block_xml :: "(char list \<Rightarrow> string) \<Rightarrow> nat \<Rightarrow> string" where
  "block_xml enc k = ''<Latest>'' @ block_id enc k @ ''</Latest>''"

text \<open>The first \<open>n\<close> blocks the callback gives, and whether it then says that it is done.\<close>

fun given :: "'c get_data \<Rightarrow> char list option \<Rightarrow> 'c \<Rightarrow> nat \<Rightarrow> char list list" where
  "given getData source c 0 = []"
| "given getData source c (Suc n) =
     (case getData source c of (r, source, c) \<Rightarrow>
        (case source of None \<Rightarrow> [] | Some b \<Rightarrow> b) # given getData source c n)"

fun ended :: "'c get_data \<Rightarrow> char list option \<Rightarrow> 'c \<Rightarrow> nat \<Rightarrow> bool" where
  "ended getData source c 0 =
     (case getData source c of (r, source, c) \<Rightarrow>
        r \<noteq> IOTHUB_CLIENT_FILE_UPLOAD_GET_DATA_ABORT \<and> (source = None \<or> source = Some []))"
| "ended getData source c (Suc n) = (case getData source c of (r, source, c) \<Rightarrow> ended getData source c n)"

lemma given_length [simp]: "length (given getData source c n) = n"
  by (induction n arbitrary: source c) (auto split: prod.split)

text \<open>The requests that put blocks, from number \<open>k\<close> on, with the statuses they got.\<close>

fun block_requests ::
  "(char list \<Rightarrow> string) \<Rightarrow> string \<Rightarrow> nat \<Rightarrow> char list list \<Rightarrow> nat option list
     \<Rightarrow> (string \<times> char list \<times> nat option) list" where
  "block_requests enc path k (x # xs) (st # sts) = (block_path enc path k, x, st) # block_requests enc path (Suc k) xs sts"
| "block_requests enc path k _ _ = []"

definition accepted :: "nat option list \<Rightarrow> bool" where
  "accepted sts = list_all (\<lambda>st. case st of None \<Rightarrow> False | Some s \<Rightarrow> s < 300) sts"

lemma accepted_simps [simp]:
  "accepted []" "accepted (st # sts) \<longleftrightarrow> (\<exists>s. st = Some s \<and> s < 300) \<and> accepted sts"
  by (auto simp: accepted_def split: option.splits)

text \<open>What the loop does from block \<open>k\<close> on: the outcome of a run.\<close>

definition loop_spec ::
  "(char list \<Rightarrow> string) \<Rightarrow> 'c get_data \<Rightarrow> string \<Rightarrow> char list option \<Rightarrow> nat \<Rightarrow> upload \<Rightarrow> 'c
     \<Rightarrow> BLOB_RESULT \<Rightarrow> upload \<Rightarrow> nat option list \<Rightarrow> bool" where
  "loop_spec enc getData path source k u c r u' sts \<longleftrightarrow>
     requests u' = requests u @ block_requests enc path k (given getData source c (length sts)) sts
     \<and> k + length sts \<le> max k MAX_BLOCK_COUNT
     \<and> list_all (\<lambda>b. 0 < length b \<and> length b \<le> BLOCK_SIZE) (given getData source c (length sts))
     \<and> accepted (butlast sts)
     \<and> (sts = [] \<longrightarrow> httpStatus u' = httpStatus u)
     \<and> (r = BLOB_OK \<and> sts \<noteq> [] \<longrightarrow> httpStatus u' = last sts \<and> last sts \<noteq> None)
     \<and> (r = BLOB_OK \<and> accepted sts \<longrightarrow>
          ended getData source c (length sts)
          \<and> blockIDList u' = blockIDList u @ concat (map (block_xml enc) [k..<k + length sts]))"

lemma concat_all_spec: "concat_all os ts s e = (True, s', e') \<Longrightarrow> s' = s @ concat ts"
  by (induction ts arbitrary: s e) (fastforce split: prod.splits if_splits)+

declare concat_all.simps [simp del]

lemma Base64_cases:
  assumes "encodes api enc" "Azure_Base64_Encode_Bytes api bs e = (Some s, e')"
  shows "s = enc bs"
  using assms unfolding encodes_def by (metis fst_conv insertE option.distinct(1) option.inject singletonD)

text \<open>One block: a request with its number and content, or an error before any request.\<close>

lemma upload_block:
  assumes enc: "encodes api enc"
    and b: "Blob_UploadBlock os api (Some h) (Some path) (Some content) k places u e = (r, u', e')"
  shows "(r \<noteq> BLOB_OK \<and> requests u' = requests u \<and> httpStatus u' = httpStatus u)
    \<or> (\<exists>st. requests u' = requests u @ [(block_path enc path k, content, st)]
         \<and> k < MAX_BLOCK_COUNT
         \<and> blockIDList u' = blockIDList u @ block_xml enc k
         \<and> (if st = None then r = BLOB_HTTP_ERROR \<and> httpStatus u' = httpStatus u
            else r = BLOB_OK \<and> httpStatus u' = st))"
proof -
  have fail: ?thesis if "r = BLOB_ERROR" "requests u' = requests u" "httpStatus u' = httpStatus u"
    using that by simp
  show ?thesis
  proof (cases "places \<and> k \<le> 49999 \<and> length (block_number k) = 6")
    case False
    then show ?thesis using b by (intro fail) (auto simp: Blob_UploadBlock_def Let_def split: if_splits)
  next
    case True
    obtain s e1 where s: "Azure_Base64_Encode_Bytes api (block_number k) e = (s, e1)"
      by (cases "Azure_Base64_Encode_Bytes api (block_number k) e")
    show ?thesis
    proof (cases s)
      case None
      then show ?thesis using b True s by (intro fail) (auto simp: Blob_UploadBlock_def)
    next
      case (Some t)
      then have t: "t = block_id enc k" using Base64_cases [OF enc] s by (simp add: block_id_def)
      obtain ok1 xml e2 where x: "concat_all os [''<Latest>'', t, ''</Latest>''] (blockIDList u) e1 = (ok1, xml, e2)"
        by (metis prod_cases3)
      obtain ok2 e3 where m: "os_malloc os e2 = (ok2, e3)" by (cases "os_malloc os e2")
      obtain ok3 p e4 where p: "concat_all os [''&comp=block&blockid='', t] path e3 = (ok3, p, e4)"
        by (metis prod_cases3)
      show ?thesis
      proof (cases "ok1 \<and> ok2 \<and> ok3")
        case False
        then show ?thesis using b True s Some x m p
          by (intro fail) (auto simp: Blob_UploadBlock_def Let_def split: if_splits)
      next
        case ok: True
        have "xml = blockIDList u @ block_xml enc k" "p = block_path enc path k"
          using concat_all_spec x p ok t by (fastforce simp: block_xml_def block_path_def)+
        moreover have "execute api h p content (u\<lparr>blockIDList := xml\<rparr>) e4 = (r, u', e')"
          using b True s Some x m p ok by (simp add: Blob_UploadBlock_def Let_def)
        ultimately show ?thesis using True
          by (auto simp: execute_def MAX_BLOCK_COUNT_def Let_def split: prod.splits option.splits)
      qed
    qed
  qed
qed
lemma loop_stop:
  assumes "getData source c = (ret, source', c')"
    "r \<noteq> BLOB_OK \<or> ret \<noteq> IOTHUB_CLIENT_FILE_UPLOAD_GET_DATA_ABORT \<and> (source' = None \<or> source' = Some [])"
    "requests u' = requests u" "blockIDList u' = blockIDList u \<or> r \<noteq> BLOB_OK" "httpStatus u' = httpStatus u"
  shows "loop_spec enc getData path source k u c r u' []"
  using assms by (auto simp: loop_spec_def)

text \<open>One more block in front of what the rest of the loop does.\<close>

lemma loop_step:
  assumes g: "getData source c = (ret, Some block, c1)"
    and b: "0 < length block" "length block \<le> BLOCK_SIZE" "k < MAX_BLOCK_COUNT"
    and u1: "requests u1 = requests u @ [(block_path enc path k, block, Some s)]" "s < 300"
      "blockIDList u1 = blockIDList u @ block_xml enc k" "httpStatus u1 = Some s"
    and rest: "loop_spec enc getData path (Some block) (Suc k) u1 c1 r u' sts"
  shows "loop_spec enc getData path source k u c r u' (Some s # sts)"
proof -
  have xml: "concat (map (block_xml enc) [k..<k + length (Some s # sts)])
      = block_xml enc k @ concat (map (block_xml enc) [Suc k..<Suc k + length sts])"
    by (simp add: upt_conv_Cons del: upt_Suc)
  have "k + length (Some s # sts) \<le> max k MAX_BLOCK_COUNT"
    using rest b(3) by (simp add: loop_spec_def)
  then show ?thesis
    using rest g b u1 unfolding loop_spec_def xml
    by (cases sts) (simp_all add: loop_spec_def)
qed

lemma loop_last:
  assumes g: "getData source c = (ret, Some block, c1)"
    and b: "0 < length block" "length block \<le> BLOCK_SIZE" "k < MAX_BLOCK_COUNT"
    and u1: "requests u' = requests u @ [(block_path enc path k, block, st)]" "\<not> accepted [st]"
      "r = BLOB_OK \<longrightarrow> st \<noteq> None \<and> httpStatus u' = st"
  shows "loop_spec enc getData path source k u c r u' [st]"
  using assms by (auto simp: loop_spec_def)

lemma send_blocks_spec:
  assumes enc: "encodes api enc"
  shows "send_blocks os api getData h path places source k u c e = Done (r, u', c', e')
    \<Longrightarrow> \<exists>sts. loop_spec enc getData path source k u c r u' sts"
proof (induction "MAX_BLOCK_COUNT - k" arbitrary: source k u c e rule: less_induct)
  case less
  obtain ret source' c1 where g: "getData source c = (ret, source', c1)" by (metis prod_cases3)
  note run = less.prems [unfolded send_blocks.simps [of os api getData h path places source] g prod.case]
  have stop: "\<exists>sts. loop_spec enc getData path source k u c r u' sts"
    if "r \<noteq> BLOB_OK \<or> ret \<noteq> IOTHUB_CLIENT_FILE_UPLOAD_GET_DATA_ABORT \<and> (source' = None \<or> source' = Some [])"
      "requests u' = requests u" "blockIDList u' = blockIDList u \<or> r \<noteq> BLOB_OK" "httpStatus u' = httpStatus u"
    using loop_stop [of getData source c ret source' c1 r u' u enc path k] g that by blast
  show ?case
  proof (cases "ret = IOTHUB_CLIENT_FILE_UPLOAD_GET_DATA_ABORT \<or> source' = None \<or> source' = Some []")
    case True
    then show ?thesis using run by (intro stop) (auto split: if_splits)
  next
    case False
    then obtain block where bl: "source' = Some block" "block \<noteq> []" by auto
    obtain ok e1 where m: "os_malloc os e = (ok, e1)" by (cases "os_malloc os e")
    show ?thesis
    proof (cases "length block > BLOCK_SIZE \<or> k \<ge> MAX_BLOCK_COUNT \<or> \<not> ok")
      case True
      then show ?thesis using run False bl m by (intro stop) (auto split: if_splits)
    next
      case go: False
      obtain r1 u1 e2 where b: "Blob_UploadBlock os api (Some h) (Some path) (Some block) k places u e1 = (r1, u1, e2)"
        by (metis prod_cases3)
      from go have lim: "0 < length block" "length block \<le> BLOCK_SIZE" "k < MAX_BLOCK_COUNT" using bl by auto
      have rest: "(if r1 \<noteq> BLOB_OK then Done (r1, u1, c1, e2)
          else (case httpStatus u1 of None \<Rightarrow> Fault
            | Some status \<Rightarrow> if status \<ge> 300 then Done (r1, u1, c1, e2)
                else send_blocks os api getData h path places source' (Suc k) u1 c1 e2)) = Done (r, u', c', e')"
        using run False bl m b go by simp
      from upload_block [OF enc b] show ?thesis
      proof (elim disjE exE conjE)
        assume "r1 \<noteq> BLOB_OK" "requests u1 = requests u" "httpStatus u1 = httpStatus u"
        then show ?thesis using rest by (intro stop) auto
      next
        fix st assume st: "requests u1 = requests u @ [(block_path enc path k, block, st)]" "k < MAX_BLOCK_COUNT"
          "blockIDList u1 = blockIDList u @ block_xml enc k"
          "if st = None then r1 = BLOB_HTTP_ERROR \<and> httpStatus u1 = httpStatus u
            else r1 = BLOB_OK \<and> httpStatus u1 = st"
        show ?thesis
        proof (cases "accepted [st]")
          case False
          then have "r = r1" "u' = u1" "r = BLOB_OK \<longrightarrow> st \<noteq> None \<and> httpStatus u' = st"
            using rest st(4) by (cases st; auto split: if_splits)+
          then show ?thesis using loop_last [of getData source c ret block c1 k u' u enc path st r] g bl lim st False by blast
        next
          case True
          then obtain s where s: "st = Some s" "s < 300" by auto
          then have run1: "send_blocks os api getData h path places (Some block) (Suc k) u1 c1 e2 = Done (r, u', c', e')"
            using rest st(4) bl by simp
          have "MAX_BLOCK_COUNT - Suc k < MAX_BLOCK_COUNT - k" using lim(3) by simp
          from less.hyps [OF this run1]
          obtain sts where "loop_spec enc getData path (Some block) (Suc k) u1 c1 r u' sts" ..
          moreover have "httpStatus u1 = Some s" using st(4) s by simp
          ultimately show ?thesis
            using loop_step [of getData source c ret block c1 k u1 u enc path s r u' sts] g bl lim st s by blast
        qed
      qed
    qed
  qed
qed
text \<open>The commit: at most one request, with the whole list.\<close>

lemma send_list_spec:
  assumes "SendBlockIdList os api h path u e = (r, u', e')"
  shows "(requests u' = requests u \<and> r = BLOB_ERROR)
    \<or> (\<exists>st. requests u' = requests u @ [(path @ blockListUriMarker, blockIDList u @ blockListXmlEnd, st)]
         \<and> (r = BLOB_OK \<longleftrightarrow> st \<noteq> None))"
proof -
  obtain ok1 xml e1 where x: "concat_all os [blockListXmlEnd] (blockIDList u) e = (ok1, xml, e1)"
    by (metis prod_cases3)
  obtain ok2 e2 where m: "os_malloc os e1 = (ok2, e2)" by (cases "os_malloc os e1")
  obtain ok3 p e3 where p: "concat_all os [blockListUriMarker] path e2 = (ok3, p, e3)" by (metis prod_cases3)
  obtain ok4 e4 where m2: "os_malloc os e3 = (ok4, e4)" by (cases "os_malloc os e3")
  show ?thesis
  proof (cases "ok1 \<and> ok2 \<and> ok3 \<and> ok4")
    case True
    then have "xml = blockIDList u @ blockListXmlEnd" "p = path @ blockListUriMarker"
      using concat_all_spec x p by fastforce+
    then show ?thesis using assms True x m p m2
      by (auto simp: SendBlockIdList_def execute_def Let_def split: prod.splits option.splits)
  next
    case False
    then show ?thesis using assms x m p m2
      by (auto simp: SendBlockIdList_def Let_def split: if_splits)
  qed
qed

lemma after_scheme_spec: "after_scheme s = Some t \<Longrightarrow> \<exists>p. s = p @ ''://'' @ t"
proof (induction s)
  case (Cons c cs)
  show ?case
  proof (cases "take 3 (c # cs) = ''://''")
    case True
    then have "c # cs = ''://'' @ t" using Cons.prems append_take_drop_id [of 3 "c # cs"] by simp
    then show ?thesis by (metis append_Nil)
  next
    case False
    then obtain p where "cs = p @ ''://'' @ t" using Cons by auto
    then show ?thesis by (metis append_Cons)
  qed
qed simp

text \<open>The requests of a whole upload: the blocks, then perhaps the list.\<close>

definition upload_spec ::
  "(char list \<Rightarrow> string) \<Rightarrow> 'c get_data \<Rightarrow> string \<Rightarrow> 'c \<Rightarrow> BLOB_RESULT
     \<Rightarrow> (string \<times> char list \<times> nat option) list \<Rightarrow> nat option list \<Rightarrow> bool" where
  "upload_spec enc getData path c r reqs sts \<longleftrightarrow>
     (let n = length sts; blocks = given getData None c n in
      n \<le> MAX_BLOCK_COUNT
      \<and> list_all (\<lambda>b. 0 < length b \<and> length b \<le> BLOCK_SIZE) blocks
      \<and> accepted (butlast sts)
      \<and> (reqs = block_requests enc path 0 blocks sts \<and> (r = BLOB_OK \<longrightarrow> \<not> accepted sts \<or> sts = [])
         \<or> (\<exists>st. reqs = block_requests enc path 0 blocks sts @
                [(path @ blockListUriMarker,
                  blockListXmlBegin @ concat (map (block_xml enc) [0..<n]) @ blockListXmlEnd, st)]
              \<and> accepted sts \<and> ended getData None c n \<and> (r = BLOB_OK \<longleftrightarrow> st \<noteq> None))))"

text \<open>The URI: what comes before, the host between :// and the next /, the path from there on.\<close>

definition uri_parts :: "string \<Rightarrow> string \<Rightarrow> string \<Rightarrow> bool" where
  "uri_parts uri host path \<longleftrightarrow>
     (\<exists>p. uri = p @ ''://'' @ host @ path) \<and> CHR ''/'' \<notin> set host \<and> path \<noteq> [] \<and> hd path = CHR ''/''"

lemma uri_partsI:
  assumes "after_scheme uri = Some b" "CHR ''/'' \<in> set b"
  shows "uri_parts uri (takeWhile (\<lambda>x. x \<noteq> CHR ''/'') b) (dropWhile (\<lambda>x. x \<noteq> CHR ''/'') b)"
proof -
  obtain p where p: "uri = p @ ''://'' @ b" using after_scheme_spec [OF assms(1)] by blast
  have "dropWhile (\<lambda>x. x \<noteq> CHR ''/'') b \<noteq> []" using assms(2) by simp
  moreover from this have "hd (dropWhile (\<lambda>x. x \<noteq> CHR ''/'') b) = CHR ''/''" using hd_dropWhile by blast
  moreover have "CHR ''/'' \<notin> set (takeWhile (\<lambda>x. x \<noteq> CHR ''/'') b)" by (auto dest: set_takeWhileD)
  ultimately show ?thesis using p by (auto simp: uri_parts_def)
qed
lemma accepted_append [simp]: "accepted (xs @ ys) \<longleftrightarrow> accepted xs \<and> accepted ys"
  by (simp add: accepted_def)

lemma commit_step:
  assumes sts: "loop_spec enc getData path None 0 u c r1 u1 sts"
    and rest: "(if r1 \<noteq> BLOB_OK then Done (r1, u1, c1, e6)
        else (case httpStatus u1 of None \<Rightarrow> Fault
          | Some st \<Rightarrow> if st < 300 then
               (case SendBlockIdList os api h path u1 e6 of (result, u, e) \<Rightarrow> Done (result, u, c1, e))
             else Done (r1, u1, c1, e6))) = Done (r, u', c', e')"
    and u: "requests u = []" "blockIDList u = blockListXmlBegin"
  shows "upload_spec enc getData path c r (requests u') sts"
proof -
  have base: "length sts \<le> MAX_BLOCK_COUNT" "accepted (butlast sts)"
    "list_all (\<lambda>b. 0 < length b \<and> length b \<le> BLOCK_SIZE) (given getData None c (length sts))"
    "requests u1 = block_requests enc path 0 (given getData None c (length sts)) sts"
    using sts u by (simp_all add: loop_spec_def)
  have nocommit: ?thesis if "r = BLOB_OK \<longrightarrow> \<not> accepted sts \<or> sts = []" "requests u' = requests u1"
    using base that by (simp add: upload_spec_def Let_def)
  show ?thesis
  proof (cases "r1 = BLOB_OK")
    case False
    then show ?thesis using rest by (intro nocommit) auto
  next
    case True
    then obtain st where st: "httpStatus u1 = Some st" using rest by (auto split: option.splits)
    have acc: "accepted sts \<longleftrightarrow> sts = [] \<or> st < 300"
    proof (cases sts rule: rev_exhaust)
      case (snoc ys y)
      then have "y = Some st" "accepted ys" using sts st True by (simp_all add: loop_spec_def)
      then show ?thesis using snoc by simp
    qed simp
    show ?thesis
    proof (cases "st < 300")
      case False
      then show ?thesis using rest True st acc by (intro nocommit) auto
    next
      case lt: True
      then obtain e7 where "SendBlockIdList os api h path u1 e6 = (r, u', e7)"
        using rest True st by (auto split: prod.splits)
      from send_list_spec [OF this] show ?thesis
      proof (elim disjE exE conjE)
        assume "requests u' = requests u1" "r = BLOB_ERROR"
        then show ?thesis by (intro nocommit) auto
      next
        fix s assume s: "requests u' = requests u1 @ [(path @ blockListUriMarker, blockIDList u1 @ blockListXmlEnd, s)]"
          "(r = BLOB_OK) = (s \<noteq> None)"
        have "accepted sts" using acc lt by simp
        then have "ended getData None c (length sts)"
          "blockIDList u1 = blockListXmlBegin @ concat (map (block_xml enc) [0..<length sts])"
          using sts True u by (simp_all add: loop_spec_def)
        then show ?thesis using base s \<open>accepted sts\<close> by (simp add: upload_spec_def Let_def)
      qed
    qed
  qed
qed
lemma upload_run:
  assumes enc: "encodes api enc"
    and run: "Blob_UploadMultipleBlocksFromSasUri os api (Some uri) (Some getData) opts places status c e
      = Done (r, u', c', e')"
  shows "requests u' = [] \<and> r \<noteq> BLOB_OK
    \<or> (\<exists>host path sts. uri_parts uri host path \<and> upload_spec enc getData path c r (requests u') sts)"
proof -
  let ?u = "\<lparr>blockIDList = [], httpStatus = status, requests = []\<rparr> :: upload"
  have stop: ?thesis if "r \<noteq> BLOB_OK" "u' = ?u" using that by simp
  show ?thesis
  proof (cases "\<exists>b. after_scheme uri = Some b \<and> CHR ''/'' \<in> set b")
    case False
    then show ?thesis using run
      by (intro stop) (auto simp: Blob_UploadMultipleBlocksFromSasUri_def Let_def split: option.splits if_splits)
  next
    case True
    then obtain b where b: "after_scheme uri = Some b" "CHR ''/'' \<in> set b" by blast
    let ?path = "dropWhile (\<lambda>x. x \<noteq> CHR ''/'') b" and ?host = "takeWhile (\<lambda>x. x \<noteq> CHR ''/'') b"
    obtain ok0 e0 where m0: "os_malloc os e = (ok0, e0)" by (cases "os_malloc os e")
    obtain h0 e1 where h0: "HTTPAPIEX_Create api ?host e0 = (h0, e1)" by (cases "HTTPAPIEX_Create api ?host e0")
    show ?thesis
    proof (cases "ok0 \<and> h0 \<noteq> None")
      case False
      then show ?thesis using run b m0 h0
        by (intro stop) (auto simp: Blob_UploadMultipleBlocksFromSasUri_def Let_def split: option.splits if_splits)
    next
      case True
      then obtain h where h: "h0 = Some h" by auto
      obtain ok1 e2 where s1: "set_given api h (map_option TrustedCerts (certificates opts)) e1 = (ok1, e2)"
        by (cases "set_given api h (map_option TrustedCerts (certificates opts)) e1")
      obtain ok2 e3 where s2: "set_given api h (map_option HttpProxy (proxy_host opts)) e2 = (ok2, e3)"
        by (cases "set_given api h (map_option HttpProxy (proxy_host opts)) e2")
      obtain ok3 e4 where s3: "set_given api h (map_option CurlInterface (networkInterface opts)) e3 = (ok3, e4)"
        by (cases "set_given api h (map_option CurlInterface (networkInterface opts)) e3")
      obtain ok4 e5 where m4: "os_malloc os e4 = (ok4, e5)" by (cases "os_malloc os e4")
      show ?thesis
      proof (cases "ok1 \<and> ok2 \<and> ok3 \<and> ok4")
        case False
        then show ?thesis using run b m0 h0 h True s1 s2 s3 m4
          by (intro stop) (auto simp: Blob_UploadMultipleBlocksFromSasUri_def Let_def split: if_splits)
      next
        case oks: True
        have "run_bind (send_blocks os api getData h ?path places None 0 (?u\<lparr>blockIDList := blockListXmlBegin\<rparr>) c e5)
           (\<lambda>(result, u, c, e). if result \<noteq> BLOB_OK then Done (result, u, c, e)
              else (case httpStatus u of None \<Rightarrow> Fault
                | Some st \<Rightarrow> if st < 300 then
                     (case SendBlockIdList os api h ?path u e of (result, u, e) \<Rightarrow> Done (result, u, c, e))
                   else Done (result, u, c, e))) = Done (r, u', c', e')"
          using run b m0 h0 h True s1 s2 s3 m4 oks
          by (simp add: Blob_UploadMultipleBlocksFromSasUri_def InvokeUserCallbackAndSendBlobs_def Let_def)
        then obtain r1 u1 c1 e6 where
          sb: "send_blocks os api getData h ?path places None 0 (?u\<lparr>blockIDList := blockListXmlBegin\<rparr>) c e5 = Done (r1, u1, c1, e6)"
          and rest: "(if r1 \<noteq> BLOB_OK then Done (r1, u1, c1, e6)
              else (case httpStatus u1 of None \<Rightarrow> Fault
                | Some st \<Rightarrow> if st < 300 then
                     (case SendBlockIdList os api h ?path u1 e6 of (result, u, e) \<Rightarrow> Done (result, u, c1, e))
                   else Done (r1, u1, c1, e6))) = Done (r, u', c', e')"
          by (auto simp: run_bind_Done_iff)
        from send_blocks_spec [OF enc sb] obtain sts where
          sts: "loop_spec enc getData ?path None 0 (?u\<lparr>blockIDList := blockListXmlBegin\<rparr>) c r1 u1 sts" ..
        have "upload_spec enc getData ?path c r (requests u') sts"
          using commit_step [OF sts rest] by simp
        then show ?thesis using uri_partsI [OF b] by blast
      qed
    qed
  qed
qed
section \<open>Identifiers\<close>

lemma nat_str_no_space: "CHR 0x20 \<notin> set (nat_str n)"
  using nat_str_digits [of "CHR 0x20" n] by (auto simp: ISDIGIT_def)

lemma block_number_inj: "block_number m = block_number n \<Longrightarrow> m = n"
proof -
  have d: "dropWhile (\<lambda>c. c = CHR 0x20) (block_number k) = nat_str k" for k
  proof -
    have "dropWhile (\<lambda>c. c = CHR 0x20) (nat_str k) = nat_str k"
      using nat_str_no_space [of k] by (metis dropWhile_eq_self_iff hd_in_set)
    then show ?thesis by (simp add: block_number_def dropWhile_append)
  qed
  assume "block_number m = block_number n"
  then have "nat_str m = nat_str n" using d by metis
  then show "m = n" by (simp add: nat_str_inj)
qed

lemma block_path_inj: "inj enc \<Longrightarrow> block_path enc path j = block_path enc path k \<longleftrightarrow> j = k"
  by (auto simp: block_path_def block_id_def dest: injD block_number_inj)

lemma block_path_not_list: "block_path enc path k \<noteq> path @ blockListUriMarker"
  by (simp add: block_path_def blockListUriMarker_def)

lemma block_requests_paths:
  "length xs = length sts \<Longrightarrow>
     map fst (block_requests enc path k xs sts) = map (block_path enc path) [k..<k + length sts]"
  by (induction xs sts arbitrary: k rule: list_induct2) (simp_all add: upt_conv_Cons del: upt_Suc)

lemma upload_spec_distinct:
  assumes "inj enc" "upload_spec enc getData path c r reqs sts"
  shows "distinct (map fst reqs)"
proof -
  let ?bs = "block_requests enc path 0 (given getData None c (length sts)) sts"
  have p: "map fst ?bs = map (block_path enc path) [0..<length sts]" by (simp add: block_requests_paths)
  have "distinct (map (block_path enc path) [0..<length sts])"
    by (simp add: distinct_map inj_on_def block_path_inj [OF assms(1)])
  moreover have "path @ blockListUriMarker \<notin> set (map (block_path enc path) [0..<length sts])"
    by (auto simp: block_path_not_list [symmetric])
  moreover have "reqs = ?bs \<or> (\<exists>x st. reqs = ?bs @ [(path @ blockListUriMarker, x, st)])"
    using assms(2) by (auto simp: upload_spec_def Let_def)
  ultimately show ?thesis
    unfolding p [symmetric] by (elim disjE exE) simp_all
qed

section \<open>Success\<close>


text \<open>Services that never fail: the encoder, the library and a storage that accepts.\<close>

definition services_work :: "('e, 'n) http_api_scheme \<Rightarrow> (char list \<Rightarrow> string) \<Rightarrow> bool" where
  "services_work api enc \<longleftrightarrow>
     (\<forall>n e. fst (HTTPAPIEX_Create api n e) \<noteq> None)
   \<and> (\<forall>h opt e. fst (HTTPAPIEX_SetOption api h opt e))
   \<and> (\<forall>h p x e. \<exists>s < 300. fst (HTTPAPIEX_ExecuteRequest api h p x e) = Some s)
   \<and> (\<forall>bs e. fst (Azure_Base64_Encode_Bytes api bs e) = Some (enc bs))"








section \<open>Properties\<close>

text \<open>
  C30: Whatever the owner, the storage and memory do, an upload sends the blocks the owner gave, in
  order, each under its own identifier and within the limits of 50000 blocks and 4 MB; it stops at
  the first block that is not accepted; and it commits at most once, as the last request, with the
  list of exactly these identifiers, only after every block was accepted and the owner ended.
\<close>

theorem upload_commits_only_accepted_blocks:
  assumes "encodes api enc"
    "Blob_UploadMultipleBlocksFromSasUri os api (Some uri) (Some getData) opts places status c e
      = Done (r, u', c', e')"
  shows "(requests u' = [] \<and> r \<noteq> BLOB_OK
    \<or> (\<exists>host path sts. uri_parts uri host path \<and> upload_spec enc getData path c r (requests u') sts))
    \<and> distinct (map fst (requests u'))"
proof -
  have "inj enc" using assms(1) by (simp add: encodes_def)
  with upload_run [OF assms] upload_spec_distinct show ?thesis by fastforce
qed


text \<open>For examples: an encoder, a storage that always answers 201, and an owner with a list of blocks.\<close>

definition example_http :: "unit http_api" where
  "example_http = \<lparr>HTTPAPIEX_Create = (\<lambda>n e. (Some 1, e)), HTTPAPIEX_SetOption = (\<lambda>h opt e. (True, e)),
     HTTPAPIEX_ExecuteRequest = (\<lambda>h p x e. (Some 201, e)), Azure_Base64_Encode_Bytes = (\<lambda>bs e. (Some bs, e))\<rparr>"

definition list_owner :: "char list list get_data" where
  "list_owner source c = (case c of
     [] \<Rightarrow> (IOTHUB_CLIENT_FILE_UPLOAD_GET_DATA_OK, None, [])
   | b # bs \<Rightarrow> (IOTHUB_CLIENT_FILE_UPLOAD_GET_DATA_OK, Some b, bs))"

lemma example_http_ok: "encodes example_http (\<lambda>x. x)" "services_work example_http (\<lambda>x. x)"
  by (auto simp: encodes_def services_work_def example_http_def)

definition no_options :: upload_options where
  "no_options = \<lparr>certificates = None, proxy_host = None, networkInterface = None\<rparr>"


theorem upload_commits_only_accepted_blocks_witness:
  "\<exists>u' c' e'. Blob_UploadMultipleBlocksFromSasUri happy_os example_http (Some ''s://h/p'') (Some list_owner)
      no_options True None [''a''] () = Done (BLOB_OK, u', c', e') \<and> distinct (map fst (requests u'))"
proof -
  have "\<exists>u' c' e'. Blob_UploadMultipleBlocksFromSasUri happy_os example_http (Some ''s://h/p'') (Some list_owner)
      no_options True None [''a''] () = Done (BLOB_OK, u', c', e')"
    by (simp add: Blob_UploadMultipleBlocksFromSasUri_def InvokeUserCallbackAndSendBlobs_def set_given_def
        no_options_def example_http_def happy_os_def send_blocks.simps list_owner_def Blob_UploadBlock_def
        block_number_def nat_str.simps concat_all.simps execute_def SendBlockIdList_def BLOCK_SIZE_def MAX_BLOCK_COUNT_def)
  then obtain u' c' e' where r: "Blob_UploadMultipleBlocksFromSasUri happy_os example_http (Some ''s://h/p'')
      (Some list_owner) no_options True None [''a''] () = Done (BLOB_OK, u', c', e')" by blast
  from upload_commits_only_accepted_blocks [OF example_http_ok(1) r] r show ?thesis by blast
qed

text \<open>
  An owner who ends before the first block makes the code read the HTTP status that nobody has
  written, when the caller passes a variable without a value, as IoTHubClient\_LL\_UploadMultipleBlocksToBlob does.
\<close>

theorem empty_upload_reads_an_unset_status:
  "Blob_UploadMultipleBlocksFromSasUri happy_os example_http (Some ''s://h/p'') (Some list_owner)
     no_options True None [] () = Fault"
  by (simp add: Blob_UploadMultipleBlocksFromSasUri_def InvokeUserCallbackAndSendBlobs_def set_given_def
      no_options_def example_http_def happy_os_def send_blocks.simps list_owner_def)

end
