(* ===== verification/CbsCredentials.thy ===== *)
theory CbsCredentials
  imports CbsAuth
begin

text \<open>
  CBS authentication on the authorization module of the client: the functions that
  iothubtransport\_amqp\_cbs\_auth.c calls are those of iothub\_client\_authorization.c. The locale
  states what the state machine asks of its source of tokens; the authorization module is
  interpreted as one.
\<close>

text \<open>
  The link and the rounding of doubles remain arguments. The instance reads the handle and never
  changes it, so the handle is a parameter of the services.
\<close>

definition authorization_services ::
  "('e, 'm) os_scheme \<Rightarrow> ('e, 'n) sas_api_scheme \<Rightarrow> ('e, 'p) prov_api_scheme option
     \<Rightarrow> (nat option \<Rightarrow> string \<Rightarrow> string \<Rightarrow> string \<Rightarrow> 'e \<Rightarrow> nat option \<times> 'e) \<Rightarrow> (rat \<Rightarrow> rat)
     \<Rightarrow> AUTHORIZATION_DATA option \<Rightarrow> 'e auth_services" where
  "authorization_services os sas prov put rnd a = \<lparr>
     Auth_Get_Credential_Type = (\<lambda>e. (IoTHubClient_Auth_Get_Credential_Type a, e)),
     Auth_Get_SasToken = (\<lambda>scope e. IoTHubClient_Auth_Get_SasToken os sas prov a scope None e),
     Auth_Is_SasToken_Valid = (\<lambda>e. IoTHubClient_Auth_Is_SasToken_Valid os sas a e),
     Auth_Get_SasToken_Expiry = (\<lambda>e. (unat (IoTHubClient_Auth_Get_SasToken_Expiry a), e)),
     Auth_Get_DeviceId = (\<lambda>e. (IoTHubClient_Auth_Get_DeviceId a, e)),
     Auth_Get_ModuleId = (\<lambda>e. (IoTHubClient_Auth_Get_ModuleId a, e)),
     cbs_put_token_async = put, round_double = rnd\<rparr>"

section \<open>The state machine on a source of tokens\<close>

text \<open>
  The instance is for the device with path \<open>P\<close>, and every token it has put was for that path and
  genuine.
\<close>

definition puts_genuine :: "string \<Rightarrow> (string \<Rightarrow> string \<Rightarrow> bool) \<Rightarrow> AUTHENTICATION_INSTANCE \<Rightarrow> bool" where
  "puts_genuine P genuine i \<longleftrightarrow> device_path i = P
     \<and> (\<forall>(h, ty, path, k) \<in> set (puts (reports i)). ty = SAS_TOKEN_TYPE \<and> path = P \<and> genuine path k)"

lemma puts_genuine_frame [simp]:
  "puts_genuine P genuine (update_state s i) = puts_genuine P genuine i"
  "puts_genuine P genuine (notify_error c i) = puts_genuine P genuine i"
  "puts_genuine P genuine (i\<lparr>is_sas_token_refresh_in_progress := b\<rparr>) = puts_genuine P genuine i"
  "puts_genuine P genuine (i\<lparr>is_cbs_put_token_in_progress := b\<rparr>) = puts_genuine P genuine i"
  "puts_genuine P genuine (i\<lparr>cbs_put_token_async_context := c'\<rparr>) = puts_genuine P genuine i"
  "puts_genuine P genuine (i\<lparr>cbs_handle := h\<rparr>) = puts_genuine P genuine i"
  "puts_genuine P genuine (i\<lparr>cbs_request_timeout_secs := n\<rparr>) = puts_genuine P genuine i"
  by (simp_all add: puts_genuine_def device_path_def update_state_def notify_error_def report_def)

locale token_source =
  fixes os :: "('e, 'm) os_scheme"
    and sv :: "('e, 'n) auth_services_scheme"
    and genuine :: "string \<Rightarrow> string \<Rightarrow> bool"
  assumes chosen_genuine: "choose_token sv path e = (ok, Some k, e') \<Longrightarrow> genuine path k"
begin

lemma create_and_put_genuine:
  assumes "puts_genuine P genuine i" "create_and_put_SAS_token_to_cbs os sv i e = (ok, i', e')"
  shows "puts_genuine P genuine i'"
proof -
  obtain path e1 where p: "create_device_and_module_path os (iothub_host_fqdn i) (device_id i) (module_id i) e = (path, e1)"
    by (cases "create_device_and_module_path os (iothub_host_fqdn i) (device_id i) (module_id i) e") auto
  show ?thesis
  proof (cases path)
    case None
    with p assms show ?thesis by (simp add: create_and_put_SAS_token_to_cbs_def)
  next
    case (Some pth)
    have path: "pth = device_path i"
      using p Some by (auto simp: create_device_and_module_path_def device_path_def
          split: prod.splits if_splits option.splits)
    obtain r tok e2 where c: "choose_token sv pth e1 = (r, tok, e2)" by (cases "choose_token sv pth e1") auto
    show ?thesis
    proof (cases tok)
      case None
      with p Some c assms show ?thesis by (simp add: create_and_put_SAS_token_to_cbs_def)
    next
      case tk: (Some k)
      have "genuine (device_path i) k" using chosen_genuine c tk path by simp
      moreover have "puts (reports i') = puts (reports i) @ [(cbs_handle i, SAS_TOKEN_TYPE, device_path i, k)]"
        "device_path i' = device_path i"
        using p Some c tk assms(2) path
        by (auto simp: create_and_put_SAS_token_to_cbs_def put_SAS_token_to_cbs_def Let_def report_def
            device_path_def split: prod.splits option.splits)
      ultimately show ?thesis using assms(1) by (auto simp: puts_genuine_def)
    qed
  qed
qed

lemma do_work_started_genuine:
  assumes "puts_genuine P genuine i" "do_work_started os sv i e = Done (i', e')"
  shows "puts_genuine P genuine i'"
  using assms(2)
proof (cases rule: do_work_started_cases)
  case (refreshed e1 ok i1 e2)
  have "puts_genuine P genuine i1" by (rule create_and_put_genuine [OF _ refreshed(1)]) (simp add: assms(1))
  then show ?thesis unfolding refreshed(2) by (auto split: if_splits)
qed (simp add: assms(1))

lemma do_work_genuine:
  assumes i: "puts_genuine P genuine i" and d: "authentication_do_work os sv (Some i) e = Done (i', e')"
  shows "\<exists>j. i' = Some j \<and> puts_genuine P genuine j"
proof -
  let ?m = "if is_cbs_put_token_in_progress i then do_work_in_progress os i e
             else if state i = AUTHENTICATION_STATE_STARTED then do_work_started os sv i e
             else if state i = AUTHENTICATION_STATE_STARTING then Done (do_work_starting os sv i e)
             else Done (i, e)"
  have "run_bind ?m (\<lambda>(i, e). Done (Some i, e)) = Done (i', e')"
    using d by (simp only: authentication_do_work_def option.case)
  from run_bind_Some [OF this] obtain j where m: "?m = Done (j, e')" and j: "i' = Some j" by (elim exE conjE)
  have "puts_genuine P genuine j"
  proof (cases "is_cbs_put_token_in_progress i")
    case True
    with m i show ?thesis
      by (auto simp: do_work_in_progress_def run_bind_Done_iff Let_def split: if_splits)
  next
    case False
    obtain ok i1 e1 where c: "create_and_put_SAS_token_to_cbs os sv i e = (ok, i1, e1)"
      by (cases "create_and_put_SAS_token_to_cbs os sv i e") auto
    from False m i create_and_put_genuine [OF i c] show ?thesis
      by (auto simp: do_work_starting_def c split: if_splits dest: do_work_started_genuine [OF i])
  qed
  with j show ?thesis by simp
qed

text \<open>Whatever the owner and the link call, and in whatever order.\<close>

lemma auth_step_genuine:
  assumes "\<forall>i e. s = Done (i, e) \<longrightarrow> puts_genuine P genuine i" "snd (auth_step os sv r s) = Done (i', e')"
  shows "puts_genuine P genuine i'"
proof (cases s)
  case (Done p)
  obtain i e where p: "p = (i, e)" by (cases p)
  with assms Done have i: "puts_genuine P genuine i" by simp
  from assms(2) Done p obtain j where j: "auth_call os sv r i e = Done (j, e')" "i' = the j"
    by (auto simp: auth_step_def split: run.splits)
  show ?thesis
  proof (cases r)
    case DoWork
    then show ?thesis using j do_work_genuine [OF i] by fastforce
  qed (use i j in \<open>auto simp: authentication_start_def authentication_stop_def authentication_set_option_def
      auth_set_secs_def on_cbs_put_token_complete_callback_def Let_def\<close>)
qed (use assms in \<open>auto simp: auth_step_def\<close>)

end

sublocale token_source \<subseteq> genuine_runs: stepper "auth_step os sv"
  "\<lambda>s. \<forall>i e. s = Done (i, e) \<longrightarrow> puts_genuine P genuine i" "\<lambda>_. True"
proof unfold_locales
  fix s :: "(AUTHENTICATION_INSTANCE \<times> 'e) run" and r
  assume "\<forall>i e. s = Done (i, e) \<longrightarrow> puts_genuine P genuine i"
  then show "\<forall>i e. snd (auth_step os sv r s) = Done (i, e) \<longrightarrow> puts_genuine P genuine i"
    using auth_step_genuine by blast
qed simp

context token_source
begin

lemma run_genuine:
  assumes "puts_genuine P genuine i" "snd (steps (auth_step os sv) rs (Done (i, e))) = Done (i', e')"
  shows "puts_genuine P genuine i'"
  using genuine_runs.steps_inv [of "Done (i, e)" P rs] assms by simp

end

section \<open>The authorization module is a source of tokens\<close>

lemma SasToken_Valid_Some:
  "IoTHubClient_Auth_Is_SasToken_Valid os sas (Some a) e = (SAS_TOKEN_STATUS_VALID, e')
     \<Longrightarrow> auth_cred_type a = IOTHUB_CREDENTIAL_TYPE_SAS_TOKEN
     \<Longrightarrow> \<exists>t e1. auth_sas_token a = Some t \<and> SASToken_Validate sas t e1 = (True, e')"
  by (auto simp: IoTHubClient_Auth_Is_SasToken_Valid_def split: option.splits prod.splits if_splits)

lemma authorization_chosen_genuine:
  assumes "choose_token (authorization_services os sas prov put rnd (Some a)) path e = (ok, Some k, e')"
  shows "genuine_token os sas prov a path k"
proof (cases "auth_cred_type a = IOTHUB_CREDENTIAL_TYPE_SAS_TOKEN")
  case True
  obtain st e1 where v: "IoTHubClient_Auth_Is_SasToken_Valid os sas (Some a) e = (st, e1)"
    by (cases "IoTHubClient_Auth_Is_SasToken_Valid os sas (Some a) e")
  with True assms have "st = SAS_TOKEN_STATUS_VALID"
    and g: "IoTHubClient_Auth_Get_SasToken os sas prov (Some a) None None e1 = (Some k, e')"
    by (cases st; auto simp: choose_token_def authorization_services_def
        IoTHubClient_Auth_Get_Credential_Type_def split: prod.splits)+
  with v have "IoTHubClient_Auth_Is_SasToken_Valid os sas (Some a) e = (SAS_TOKEN_STATUS_VALID, e1)" by simp
  from SasToken_Valid_Some [OF this True] obtain t e2
    where t: "auth_sas_token a = Some t" "SASToken_Validate sas t e2 = (True, e1)" by blast
  moreover from g True t(1) have "k = t"
    by (simp add: IoTHubClient_Auth_Get_SasToken_def malloc_of_Some)
  ultimately show ?thesis using True by (auto simp: genuine_token_def)
next
  case False
  with assms show ?thesis
    by (auto simp: choose_token_def authorization_services_def IoTHubClient_Auth_Get_Credential_Type_def
        split: prod.splits if_splits intro: Get_SasToken_genuine)
qed

interpretation authorization_tokens:
  token_source os "authorization_services os sas prov put rnd (Some a)" "genuine_token os sas prov a"
  for os sas prov put rnd a
  by unfold_locales (fact authorization_chosen_genuine)

section \<open>Properties\<close>

lemma created_genuine:
  assumes "authentication_create os (authorization_services os sas prov put rnd (Some a))
      (Some config) e = (Some i, e')"
  shows "\<exists>fqdn. cfg_fqdn config = Some fqdn
    \<and> puts_genuine (fqdn @ ''/devices/'' @ auth_device_id a
        @ (case auth_module_id a of None \<Rightarrow> [] | Some m \<Rightarrow> ''/modules/'' @ m)) genuine i"
  using assms
  by (auto simp: authentication_create_def puts_genuine_def device_path_def authorization_services_def
      IoTHubClient_Auth_Get_DeviceId_def IoTHubClient_Auth_Get_ModuleId_def
      split: option.splits prod.splits if_splits)

text \<open>
  C25: With the authorization module of the client as its source of tokens, and through any calls
  and completions, every token that CBS authentication puts to the service is genuine and is put
  for the path of the device and module the authorization handle was created for: a user's SAS
  token is put as it was stored and only after it was validated, and a token made of a key or of
  the provisioning module is made for that path, to expire the set time after a reading of the clock.
\<close>

theorem cbs_tokens_are_genuine:
  assumes "authentication_create os (authorization_services os sas prov put rnd (Some a)) (Some config) e
      = (Some i, e1)"
    and "snd (steps (auth_step os (authorization_services os sas prov put rnd (Some a))) rs (Done (i, e1)))
      = Done (i', e')"
    and "(h, ty, path, k) \<in> set (puts (reports i'))"
  shows "genuine_token os sas prov a path k \<and> ty = SAS_TOKEN_TYPE
    \<and> path = the (cfg_fqdn config) @ ''/devices/'' @ auth_device_id a
        @ (case auth_module_id a of None \<Rightarrow> [] | Some m \<Rightarrow> ''/modules/'' @ m)"
proof -
  from created_genuine [OF assms(1), of "genuine_token os sas prov a"]
  have "puts_genuine (the (cfg_fqdn config) @ ''/devices/'' @ auth_device_id a
        @ (case auth_module_id a of None \<Rightarrow> [] | Some m \<Rightarrow> ''/modules/'' @ m))
      (genuine_token os sas prov a) i'"
    using authorization_tokens.run_genuine [OF _ assms(2)] by auto
  with assms(3) show ?thesis unfolding puts_genuine_def by auto
qed

definition example_authorized :: "script auth_services" where
  "example_authorized = authorization_services script_os example_sas (None :: script prov_api option)
     (\<lambda>h t a k e. (Some 5, e)) (\<lambda>x. x) (Some example_auth)"

lemma example_authorized_created:
  "authentication_create script_os example_authorized (Some example_config) (plain_env\<lparr>clock := [10, 20]\<rparr>) =
     (Some example_instance, plain_env\<lparr>allocs := 2, clock := [10, 20]\<rparr>)"
  by (simp add: authentication_create_def example_config_def example_authorized_def example_instance_def
      script_os_def plain_env_def authorization_services_def IoTHubClient_Auth_Get_DeviceId_def
      IoTHubClient_Auth_Get_ModuleId_def example_auth_def)

definition example_authorized_end :: "(AUTHENTICATION_INSTANCE \<times> script) run" where
  "example_authorized_end = snd (steps (auth_step script_os example_authorized) [Start 3, DoWork]
     (Done (example_instance, plain_env\<lparr>allocs := 2, clock := [10, 20]\<rparr>)))"

lemma example_authorized_run:
  "\<exists>i e. example_authorized_end = Done (i, e) \<and> puts (reports i) = [(Some 3, SAS_TOKEN_TYPE, ''h/devices/d'', ''keyh/devices/d'')]"
proof -
  have c: "case example_authorized_end of Done (i, e) \<Rightarrow>
     puts (reports i) = [(Some 3, SAS_TOKEN_TYPE, ''h/devices/d'', ''keyh/devices/d'')] | _ \<Rightarrow> False"
    by (simp add: example_authorized_end_def example_run_simps example_authorized_def
        authorization_services_def IoTHubClient_Auth_Get_Credential_Type_def example_auth_def
        IoTHubClient_Auth_Get_SasToken_def example_sas_def or_null_def malloc_of_def
        get_seconds_since_epoch_def)
  show ?thesis
  proof (cases example_authorized_end)
    case (Done p)
    show ?thesis using c unfolding Done by (cases p) simp
  qed (use c in simp_all)
qed

theorem cbs_tokens_are_genuine_witness:
  "genuine_token script_os example_sas (None :: script prov_api option) example_auth
     ''h/devices/d'' ''keyh/devices/d''"
proof -
  from example_authorized_run obtain i e where r: "example_authorized_end = Done (i, e)"
    "puts (reports i) = [(Some 3, SAS_TOKEN_TYPE, ''h/devices/d'', ''keyh/devices/d'')]" by blast
  show ?thesis
    using cbs_tokens_are_genuine [OF example_authorized_created [unfolded example_authorized_def]
        r(1) [unfolded example_authorized_end_def example_authorized_def]] r(2)
    by (simp add: example_config_def example_auth_def)
qed

end
