(* ===== verification/AmqpDevice.thy ===== *)
theory AmqpDevice
  imports CbsAuth
begin

text \<open>
  The AMQP device (iothub\_client/src/iothubtransport\_amqp\_device.c): the state machine that starts
  authentication, then the two messengers, watches them, and stops them, at once or after a delay.
  Authentication is the model of CbsAuth, embedded; the messengers, the tick counter and the option
  handler are arguments. What a module calls back while it is called is the list of state
  changes it answers, delivered in order.
\<close>

section \<open>Data\<close>

datatype DEVICE_STATE =
  DEVICE_STATE_STOPPED | DEVICE_STATE_STOPPING | DEVICE_STATE_STARTING | DEVICE_STATE_STARTED
| DEVICE_STATE_ERROR_AUTH | DEVICE_STATE_ERROR_AUTH_TIMEOUT | DEVICE_STATE_ERROR_MSG

datatype DEVICE_AUTH_MODE = DEVICE_AUTH_MODE_CBS | DEVICE_AUTH_MODE_X509

datatype DEVICE_SEND_STATUS = DEVICE_SEND_STATUS_IDLE | DEVICE_SEND_STATUS_BUSY

datatype D2C_EVENT_SEND_RESULT =
  D2C_EVENT_SEND_COMPLETE_RESULT_OK | D2C_EVENT_SEND_COMPLETE_RESULT_ERROR_CANNOT_PARSE
| D2C_EVENT_SEND_COMPLETE_RESULT_ERROR_FAIL_SENDING | D2C_EVENT_SEND_COMPLETE_RESULT_ERROR_TIMEOUT
| D2C_EVENT_SEND_COMPLETE_RESULT_DEVICE_DESTROYED | D2C_EVENT_SEND_COMPLETE_RESULT_ERROR_UNKNOWN

datatype DEVICE_MESSAGE_DISPOSITION_RESULT =
  DEVICE_MESSAGE_DISPOSITION_RESULT_NONE | DEVICE_MESSAGE_DISPOSITION_RESULT_ACCEPTED
| DEVICE_MESSAGE_DISPOSITION_RESULT_REJECTED | DEVICE_MESSAGE_DISPOSITION_RESULT_RELEASED

datatype DEVICE_TWIN_UPDATE_RESULT = DEVICE_TWIN_UPDATE_RESULT_OK | DEVICE_TWIN_UPDATE_RESULT_ERROR

datatype DEVICE_TWIN_UPDATE_TYPE = DEVICE_TWIN_UPDATE_TYPE_PARTIAL | DEVICE_TWIN_UPDATE_TYPE_COMPLETE

datatype TELEMETRY_MESSENGER_SEND_STATUS =
  TELEMETRY_MESSENGER_SEND_STATUS_IDLE | TELEMETRY_MESSENGER_SEND_STATUS_BUSY

datatype TELEMETRY_MESSENGER_EVENT_SEND_COMPLETE_RESULT =
  TELEMETRY_MESSENGER_EVENT_SEND_COMPLETE_RESULT_OK
| TELEMETRY_MESSENGER_EVENT_SEND_COMPLETE_RESULT_ERROR_CANNOT_PARSE
| TELEMETRY_MESSENGER_EVENT_SEND_COMPLETE_RESULT_ERROR_FAIL_SENDING
| TELEMETRY_MESSENGER_EVENT_SEND_COMPLETE_RESULT_ERROR_TIMEOUT
| TELEMETRY_MESSENGER_EVENT_SEND_COMPLETE_RESULT_MESSENGER_DESTROYED

datatype TELEMETRY_MESSENGER_DISPOSITION_RESULT =
  TELEMETRY_MESSENGER_DISPOSITION_RESULT_NONE | TELEMETRY_MESSENGER_DISPOSITION_RESULT_ACCEPTED
| TELEMETRY_MESSENGER_DISPOSITION_RESULT_REJECTED | TELEMETRY_MESSENGER_DISPOSITION_RESULT_RELEASED

datatype TELEMETRY_MESSENGER_STATE =
  TELEMETRY_MESSENGER_STATE_STARTING | TELEMETRY_MESSENGER_STATE_STARTED
| TELEMETRY_MESSENGER_STATE_STOPPING | TELEMETRY_MESSENGER_STATE_STOPPED
| TELEMETRY_MESSENGER_STATE_ERROR

datatype TWIN_MESSENGER_STATE =
  TWIN_MESSENGER_STATE_STARTING | TWIN_MESSENGER_STATE_STARTED | TWIN_MESSENGER_STATE_STOPPING
| TWIN_MESSENGER_STATE_STOPPED | TWIN_MESSENGER_STATE_ERROR

datatype TWIN_REPORT_STATE_RESULT =
  TWIN_REPORT_STATE_RESULT_SUCCESS | TWIN_REPORT_STATE_RESULT_ERROR | TWIN_REPORT_STATE_RESULT_CANCELLED

datatype TWIN_UPDATE_TYPE = TWIN_UPDATE_TYPE_PARTIAL | TWIN_UPDATE_TYPE_COMPLETE

text \<open>
  Callbacks of the owner and their contexts are numbers, None is NULL. A disposition of a message
  is its number and its source, for the messenger as for the device.
\<close>

record DEVICE_MESSAGE_DISPOSITION_INFO =
  message_id :: nat
  source :: "string option"

record DEVICE_CALL =
  user_callback :: "nat option"
  user_context :: nat

text \<open>What the device does that others see: its state changes and the calls of the owner's callbacks.\<close>

datatype device_report =
  DeviceStateChanged DEVICE_STATE DEVICE_STATE
| EventSendComplete nat nat D2C_EVENT_SEND_RESULT nat
| TwinUpdateComplete nat DEVICE_TWIN_UPDATE_RESULT int nat
| TwinReceived nat DEVICE_TWIN_UPDATE_TYPE "string option" nat
| MessengerStart nat
| TwinMessengerStart nat

record DEVICE_INSTANCE =
  authentication_mode :: DEVICE_AUTH_MODE
  dev_fqdn :: string
  dev_state :: DEVICE_STATE
  session_handle :: "nat option"
  dev_cbs_handle :: "nat option"
  authentication :: "AUTHENTICATION_INSTANCE option"
  auth_state :: AUTHENTICATION_STATE
  auth_error_code :: AUTHENTICATION_ERROR_CODE
  auth_state_last_changed_time :: int
  auth_state_change_timeout_secs :: nat
  messenger_handle :: nat
  msgr_state :: TELEMETRY_MESSENGER_STATE
  msgr_state_last_changed_time :: int
  msgr_state_change_timeout_secs :: nat
  on_message_received :: DEVICE_CALL
  twin_messenger_handle :: nat
  twin_msgr_state :: TWIN_MESSENGER_STATE
  twin_msgr_state_last_changed_time :: int
  twin_msgr_state_change_timeout_secs :: nat
  on_device_twin_update_received :: DEVICE_CALL
  last_stop_request_time :: "64 word"
  stop_delay_ms :: "64 word"
  dev_reports :: "device_report list"

text \<open>
  The messengers and the tick counter. Create answers None for NULL, the other functions answer
  whether they answered 0. Start, stop, do-work and destroy also answer the state changes
  they called back. The conversion of a message number to a delivery\_number is that of the type of
  uAMQP. The last argument of send, report and get-twin is the task of the device.
\<close>

record ('mo, 'e) messenger_api =
  telemetry_messenger_create :: "string option \<Rightarrow> string option \<Rightarrow> string \<Rightarrow> 'e \<Rightarrow> nat option \<times> 'e"
  telemetry_messenger_start ::
    "nat \<Rightarrow> nat option \<Rightarrow> 'e \<Rightarrow> bool \<times> (TELEMETRY_MESSENGER_STATE \<times> TELEMETRY_MESSENGER_STATE) list \<times> 'e"
  telemetry_messenger_stop ::
    "nat \<Rightarrow> 'e \<Rightarrow> bool \<times> (TELEMETRY_MESSENGER_STATE \<times> TELEMETRY_MESSENGER_STATE) list \<times> 'e"
  telemetry_messenger_do_work ::
    "nat \<Rightarrow> 'e \<Rightarrow> (TELEMETRY_MESSENGER_STATE \<times> TELEMETRY_MESSENGER_STATE) list \<times> 'e"
  telemetry_messenger_destroy ::
    "nat \<Rightarrow> 'e \<Rightarrow> (TELEMETRY_MESSENGER_STATE \<times> TELEMETRY_MESSENGER_STATE) list \<times> 'e"
  telemetry_messenger_send_async :: "nat \<Rightarrow> nat \<Rightarrow> DEVICE_CALL \<Rightarrow> 'e \<Rightarrow> bool \<times> 'e"
  telemetry_messenger_get_send_status :: "nat \<Rightarrow> 'e \<Rightarrow> TELEMETRY_MESSENGER_SEND_STATUS option \<times> 'e"
  telemetry_messenger_subscribe_for_messages :: "nat \<Rightarrow> 'e \<Rightarrow> bool \<times> 'e"
  telemetry_messenger_unsubscribe_for_messages :: "nat \<Rightarrow> 'e \<Rightarrow> bool \<times> 'e"
  telemetry_messenger_send_message_disposition ::
    "nat \<Rightarrow> DEVICE_MESSAGE_DISPOSITION_INFO \<Rightarrow> TELEMETRY_MESSENGER_DISPOSITION_RESULT \<Rightarrow> 'e \<Rightarrow> bool \<times> 'e"
  telemetry_messenger_set_timeout :: "nat \<Rightarrow> nat \<Rightarrow> 'e \<Rightarrow> bool \<times> 'e"
  telemetry_messenger_feed_options :: "nat \<Rightarrow> 'mo \<Rightarrow> 'e \<Rightarrow> bool \<times> 'e"
  telemetry_messenger_retrieve_options :: "nat \<Rightarrow> 'e \<Rightarrow> 'mo option \<times> 'e"
  twin_messenger_create :: "string option \<Rightarrow> string option \<Rightarrow> string \<Rightarrow> 'e \<Rightarrow> nat option \<times> 'e"
  twin_messenger_start ::
    "nat \<Rightarrow> nat option \<Rightarrow> 'e \<Rightarrow> bool \<times> (TWIN_MESSENGER_STATE \<times> TWIN_MESSENGER_STATE) list \<times> 'e"
  twin_messenger_stop :: "nat \<Rightarrow> 'e \<Rightarrow> bool \<times> (TWIN_MESSENGER_STATE \<times> TWIN_MESSENGER_STATE) list \<times> 'e"
  twin_messenger_do_work :: "nat \<Rightarrow> 'e \<Rightarrow> (TWIN_MESSENGER_STATE \<times> TWIN_MESSENGER_STATE) list \<times> 'e"
  twin_messenger_destroy :: "nat \<Rightarrow> 'e \<Rightarrow> (TWIN_MESSENGER_STATE \<times> TWIN_MESSENGER_STATE) list \<times> 'e"
  twin_messenger_report_state_async :: "nat \<Rightarrow> char list \<Rightarrow> DEVICE_CALL \<Rightarrow> 'e \<Rightarrow> bool \<times> 'e"
  twin_messenger_subscribe :: "nat \<Rightarrow> 'e \<Rightarrow> bool \<times> 'e"
  twin_messenger_unsubscribe :: "nat \<Rightarrow> 'e \<Rightarrow> bool \<times> 'e"
  twin_messenger_get_twin_async :: "nat \<Rightarrow> DEVICE_CALL \<Rightarrow> 'e \<Rightarrow> bool \<times> 'e"
  delivery_number :: "nat \<Rightarrow> nat"
  tickcounter_create :: "'e \<Rightarrow> bool \<times> 'e"
  tickcounter_get_current_ms :: "'e \<Rightarrow> (64 word) option \<times> 'e"

definition DEFAULT_AUTH_STATE_CHANGED_TIMEOUT_SECS :: nat where
  "DEFAULT_AUTH_STATE_CHANGED_TIMEOUT_SECS = 60"

definition DEFAULT_MSGR_STATE_CHANGED_TIMEOUT_SECS :: nat where
  "DEFAULT_MSGR_STATE_CHANGED_TIMEOUT_SECS = 60"

section \<open>States and timeouts\<close>

definition dev_report :: "device_report \<Rightarrow> DEVICE_INSTANCE \<Rightarrow> DEVICE_INSTANCE" where
  "dev_report r d = d\<lparr>dev_reports := dev_reports d @ [r]\<rparr>"

definition dev_update_state :: "DEVICE_STATE \<Rightarrow> DEVICE_INSTANCE \<Rightarrow> DEVICE_INSTANCE" where
  "dev_update_state new_state d =
     (if new_state \<noteq> dev_state d
      then dev_report (DeviceStateChanged (dev_state d) new_state) (d\<lparr>dev_state := new_state\<rparr>)
      else d)"

text \<open>None: the function fails. Otherwise the answer is *is\_timed\_out.\<close>

definition is_timeout_reached :: "('e, 'm) os_scheme \<Rightarrow> int \<Rightarrow> nat \<Rightarrow> 'e \<Rightarrow> bool option \<times> 'e" where
  "is_timeout_reached os start_time timeout_in_secs e =
     (if start_time = INDEFINITE_TIME then (None, e)
      else (case os_time os e of (current_time, e) \<Rightarrow>
        if current_time = INDEFINITE_TIME then (None, e)
        else (Some (current_time - start_time \<ge> int timeout_in_secs), e)))"

section \<open>Callbacks\<close>

fun get_d2c_event_send_result_from ::
  "TELEMETRY_MESSENGER_EVENT_SEND_COMPLETE_RESULT \<Rightarrow> D2C_EVENT_SEND_RESULT" where
  "get_d2c_event_send_result_from TELEMETRY_MESSENGER_EVENT_SEND_COMPLETE_RESULT_OK =
     D2C_EVENT_SEND_COMPLETE_RESULT_OK"
| "get_d2c_event_send_result_from TELEMETRY_MESSENGER_EVENT_SEND_COMPLETE_RESULT_ERROR_CANNOT_PARSE =
     D2C_EVENT_SEND_COMPLETE_RESULT_ERROR_CANNOT_PARSE"
| "get_d2c_event_send_result_from TELEMETRY_MESSENGER_EVENT_SEND_COMPLETE_RESULT_ERROR_FAIL_SENDING =
     D2C_EVENT_SEND_COMPLETE_RESULT_ERROR_FAIL_SENDING"
| "get_d2c_event_send_result_from TELEMETRY_MESSENGER_EVENT_SEND_COMPLETE_RESULT_ERROR_TIMEOUT =
     D2C_EVENT_SEND_COMPLETE_RESULT_ERROR_TIMEOUT"
| "get_d2c_event_send_result_from TELEMETRY_MESSENGER_EVENT_SEND_COMPLETE_RESULT_MESSENGER_DESTROYED =
     D2C_EVENT_SEND_COMPLETE_RESULT_DEVICE_DESTROYED"

text \<open>The callbacks answer what they call of the owner.\<close>

definition on_event_send_complete_messenger_callback ::
  "nat option \<Rightarrow> TELEMETRY_MESSENGER_EVENT_SEND_COMPLETE_RESULT \<Rightarrow> DEVICE_CALL option \<Rightarrow> device_report list" where
  "on_event_send_complete_messenger_callback message result task =
     (case (message, task) of
        (Some m, Some t) \<Rightarrow>
          (case user_callback t of
             None \<Rightarrow> []
           | Some cb \<Rightarrow> [EventSendComplete cb m (get_d2c_event_send_result_from result) (user_context t)])
      | _ \<Rightarrow> [])"

definition on_authentication_error_callback ::
  "AUTHENTICATION_ERROR_CODE \<Rightarrow> DEVICE_INSTANCE \<Rightarrow> DEVICE_INSTANCE" where
  "on_authentication_error_callback code d = d\<lparr>auth_error_code := code\<rparr>"

definition on_authentication_state_changed_callback ::
  "('e, 'm) os_scheme \<Rightarrow> AUTHENTICATION_STATE \<Rightarrow> AUTHENTICATION_STATE \<Rightarrow> DEVICE_INSTANCE \<Rightarrow> 'e
     \<Rightarrow> DEVICE_INSTANCE \<times> 'e" where
  "on_authentication_state_changed_callback os previous_state new_state d e =
     (if new_state \<noteq> previous_state then
        (case os_time os e of (t, e) \<Rightarrow>
           (d\<lparr>auth_state := new_state, auth_state_last_changed_time := t\<rparr>, e))
      else (d, e))"

definition on_messenger_state_changed_callback ::
  "('e, 'm) os_scheme \<Rightarrow> TELEMETRY_MESSENGER_STATE \<Rightarrow> TELEMETRY_MESSENGER_STATE \<Rightarrow> DEVICE_INSTANCE \<Rightarrow> 'e
     \<Rightarrow> DEVICE_INSTANCE \<times> 'e" where
  "on_messenger_state_changed_callback os previous_state new_state d e =
     (if new_state \<noteq> previous_state then
        (case os_time os e of (t, e) \<Rightarrow>
           (d\<lparr>msgr_state := new_state, msgr_state_last_changed_time := t\<rparr>, e))
      else (d, e))"

fun get_device_twin_update_result_from :: "TWIN_REPORT_STATE_RESULT \<Rightarrow> DEVICE_TWIN_UPDATE_RESULT" where
  "get_device_twin_update_result_from TWIN_REPORT_STATE_RESULT_SUCCESS = DEVICE_TWIN_UPDATE_RESULT_OK"
| "get_device_twin_update_result_from TWIN_REPORT_STATE_RESULT_ERROR = DEVICE_TWIN_UPDATE_RESULT_ERROR"
| "get_device_twin_update_result_from TWIN_REPORT_STATE_RESULT_CANCELLED = DEVICE_TWIN_UPDATE_RESULT_ERROR"

definition on_report_state_complete_callback ::
  "TWIN_REPORT_STATE_RESULT \<Rightarrow> int \<Rightarrow> DEVICE_CALL option \<Rightarrow> device_report list" where
  "on_report_state_complete_callback result status_code task =
     (case task of
        None \<Rightarrow> []
      | Some t \<Rightarrow>
          (case user_callback t of
             None \<Rightarrow> []
           | Some cb \<Rightarrow> [TwinUpdateComplete cb (get_device_twin_update_result_from result) status_code
                           (user_context t)]))"

text \<open>
  on\_twin\_state\_update\_callback calls the pointer of the instance without a check: Fault when it is
  NULL, as it is after amqp\_device\_unsubscribe\_for\_twin\_updates.
\<close>

definition on_twin_state_update_callback ::
  "TWIN_UPDATE_TYPE \<Rightarrow> string option \<Rightarrow> DEVICE_INSTANCE \<Rightarrow> device_report list run" where
  "on_twin_state_update_callback update_type payload d =
     (case payload of
        None \<Rightarrow> Done []
      | Some p \<Rightarrow>
          let device_update_type = (if update_type = TWIN_UPDATE_TYPE_COMPLETE
                                    then DEVICE_TWIN_UPDATE_TYPE_COMPLETE
                                    else DEVICE_TWIN_UPDATE_TYPE_PARTIAL) in
          (case user_callback (on_device_twin_update_received d) of
             None \<Rightarrow> Fault
           | Some cb \<Rightarrow> Done [TwinReceived cb device_update_type (Some p)
                               (user_context (on_device_twin_update_received d))]))"

definition on_twin_messenger_state_changed_callback ::
  "('e, 'm) os_scheme \<Rightarrow> TWIN_MESSENGER_STATE \<Rightarrow> TWIN_MESSENGER_STATE \<Rightarrow> DEVICE_INSTANCE \<Rightarrow> 'e
     \<Rightarrow> DEVICE_INSTANCE \<times> 'e" where
  "on_twin_messenger_state_changed_callback os previous_state new_state d e =
     (if new_state \<noteq> previous_state then
        (case os_time os e of (t, e) \<Rightarrow>
           (d\<lparr>twin_msgr_state := new_state, twin_msgr_state_last_changed_time := t\<rparr>, e))
      else (d, e))"

text \<open>The callback of a get-twin request is never NULL: amqp\_device\_get\_twin\_async checks it.\<close>

definition on_get_twin_completed :: "string option \<Rightarrow> DEVICE_CALL option \<Rightarrow> device_report list run" where
  "on_get_twin_completed payload task =
     (case task of
        None \<Rightarrow> Done []
      | Some t \<Rightarrow>
          (case user_callback t of
             None \<Rightarrow> Fault
           | Some cb \<Rightarrow> Done [TwinReceived cb DEVICE_TWIN_UPDATE_TYPE_COMPLETE payload (user_context t)]))"

subsection \<open>Message dispositions\<close>

definition create_device_message_disposition_info_from ::
  "('e, 'm) os_scheme \<Rightarrow> DEVICE_MESSAGE_DISPOSITION_INFO \<Rightarrow> 'e \<Rightarrow> DEVICE_MESSAGE_DISPOSITION_INFO option \<times> 'e" where
  "create_device_message_disposition_info_from os info e =
     or_null (malloc_of os () e) (\<lambda>_ e.
     (case source info of
        None \<Rightarrow> (None, e)
      | Some s \<Rightarrow> or_null (malloc_of os s e) (\<lambda>s e. (Some \<lparr>message_id = message_id info, source = Some s\<rparr>, e))))"

definition create_messenger_disposition_info ::
  "('e, 'm) os_scheme \<Rightarrow> ('mo, 'e, 'n) messenger_api_scheme \<Rightarrow> DEVICE_MESSAGE_DISPOSITION_INFO \<Rightarrow> 'e
     \<Rightarrow> DEVICE_MESSAGE_DISPOSITION_INFO option \<times> 'e" where
  "create_messenger_disposition_info os ms info e =
     or_null (malloc_of os () e) (\<lambda>_ e.
     (case source info of
        None \<Rightarrow> (None, e)
      | Some s \<Rightarrow> or_null (malloc_of os s e) (\<lambda>s e.
          (Some \<lparr>message_id = delivery_number ms (message_id info), source = Some s\<rparr>, e))))"

fun get_messenger_message_disposition_result_from ::
  "DEVICE_MESSAGE_DISPOSITION_RESULT \<Rightarrow> TELEMETRY_MESSENGER_DISPOSITION_RESULT" where
  "get_messenger_message_disposition_result_from DEVICE_MESSAGE_DISPOSITION_RESULT_NONE =
     TELEMETRY_MESSENGER_DISPOSITION_RESULT_NONE"
| "get_messenger_message_disposition_result_from DEVICE_MESSAGE_DISPOSITION_RESULT_ACCEPTED =
     TELEMETRY_MESSENGER_DISPOSITION_RESULT_ACCEPTED"
| "get_messenger_message_disposition_result_from DEVICE_MESSAGE_DISPOSITION_RESULT_REJECTED =
     TELEMETRY_MESSENGER_DISPOSITION_RESULT_REJECTED"
| "get_messenger_message_disposition_result_from DEVICE_MESSAGE_DISPOSITION_RESULT_RELEASED =
     TELEMETRY_MESSENGER_DISPOSITION_RESULT_RELEASED"

text \<open>The callback of the owner decides about the message; it is an argument, by its number.\<close>

definition on_messenger_message_received_callback ::
  "('e, 'm) os_scheme
     \<Rightarrow> (nat \<Rightarrow> nat \<Rightarrow> DEVICE_MESSAGE_DISPOSITION_INFO \<Rightarrow> nat \<Rightarrow> 'e \<Rightarrow> DEVICE_MESSAGE_DISPOSITION_RESULT \<times> 'e)
     \<Rightarrow> nat option \<Rightarrow> DEVICE_MESSAGE_DISPOSITION_INFO \<Rightarrow> DEVICE_INSTANCE option \<Rightarrow> 'e
     \<Rightarrow> TELEMETRY_MESSENGER_DISPOSITION_RESULT \<times> 'e" where
  "on_messenger_message_received_callback os user message info context e =
     (case (message, context) of
        (Some m, Some d) \<Rightarrow>
          (case user_callback (on_message_received d) of
             None \<Rightarrow> (TELEMETRY_MESSENGER_DISPOSITION_RESULT_RELEASED, e)
           | Some cb \<Rightarrow>
               (case create_device_message_disposition_info_from os info e of
                  (None, e) \<Rightarrow> (TELEMETRY_MESSENGER_DISPOSITION_RESULT_RELEASED, e)
                | (Some di, e) \<Rightarrow>
                    (case user cb m di (user_context (on_message_received d)) e of (r, e) \<Rightarrow>
                       (get_messenger_message_disposition_result_from r, e))))
      | _ \<Rightarrow> (TELEMETRY_MESSENGER_DISPOSITION_RESULT_RELEASED, e))"
subsection \<open>Delivering what a module calls back\<close>

fun deliver ::
  "('s \<Rightarrow> 's \<Rightarrow> DEVICE_INSTANCE \<Rightarrow> 'e \<Rightarrow> DEVICE_INSTANCE \<times> 'e) \<Rightarrow> ('s \<times> 's) list \<Rightarrow> DEVICE_INSTANCE \<Rightarrow> 'e
     \<Rightarrow> DEVICE_INSTANCE \<times> 'e" where
  "deliver callback [] d e = (d, e)"
| "deliver callback ((p, n) # cs) d e = (case callback p n d e of (d, e) \<Rightarrow> deliver callback cs d e)"

text \<open>
  The authentication module calls the device back with state changes and errors; the device makes
  no call of it from there, so the callbacks can follow the call.
\<close>

fun deliver_auth ::
  "('e, 'm) os_scheme \<Rightarrow> report list \<Rightarrow> DEVICE_INSTANCE \<Rightarrow> 'e \<Rightarrow> DEVICE_INSTANCE \<times> 'e" where
  "deliver_auth os [] d e = (d, e)"
| "deliver_auth os (StateChanged p n # rs) d e =
     (case on_authentication_state_changed_callback os p n d e of (d, e) \<Rightarrow> deliver_auth os rs d e)"
| "deliver_auth os (ErrorNotified c # rs) d e = deliver_auth os rs (on_authentication_error_callback c d) e"
| "deliver_auth os (PutToken h t p k # rs) d e = deliver_auth os rs d e"
| "deliver_auth os (PutCancelled c # rs) d e = deliver_auth os rs d e"

definition auth_called ::
  "('e, 'm) os_scheme \<Rightarrow> AUTHENTICATION_INSTANCE \<Rightarrow> AUTHENTICATION_INSTANCE \<Rightarrow> DEVICE_INSTANCE \<Rightarrow> 'e
     \<Rightarrow> DEVICE_INSTANCE \<times> 'e" where
  "auth_called os a a' d e =
     deliver_auth os (drop (length (reports a)) (reports a')) (d\<lparr>authentication := Some a'\<rparr>) e"

section \<open>Creating and destroying\<close>

record AMQP_DEVICE_CONFIG =
  cfg_iothub_host_fqdn :: "string option"
  cfg_authentication_mode :: DEVICE_AUTH_MODE
  cfg_on_state_changed_callback :: bool
  cfg_has_authorization :: bool

definition clone_device_config ::
  "('e, 'm) os_scheme \<Rightarrow> ('e, 'n) auth_services_scheme \<Rightarrow> string \<Rightarrow> 'e
     \<Rightarrow> (string \<times> string option \<times> string option) option \<times> 'e" where
  "clone_device_config os sv fqdn e =
     or_null (malloc_of os () e) (\<lambda>_ e.
     or_null (malloc_of os fqdn e) (\<lambda>fqdn e.
       (case Auth_Get_DeviceId sv e of (dev_id, e) \<Rightarrow>
         (case Auth_Get_ModuleId sv e of (mod_id, e) \<Rightarrow> (Some (fqdn, dev_id, mod_id), e)))))"

definition create_authentication_instance ::
  "('e, 'm) os_scheme \<Rightarrow> ('e, 'n) auth_services_scheme \<Rightarrow> string \<Rightarrow> 'e \<Rightarrow> AUTHENTICATION_INSTANCE option \<times> 'e" where
  "create_authentication_instance os sv fqdn e =
     authentication_create os sv (Some \<lparr>cfg_fqdn = Some fqdn, cfg_on_state_changed = True,
       cfg_on_error = True, cfg_authorization_module = True\<rparr>) e"

text \<open>
  What internal\_destroy\_device does to the modules: the messengers that were created, then the
  authentication instance, whose last reports are answered.
\<close>

definition internal_destroy_device ::
  "('e, 'm) os_scheme \<Rightarrow> ('mo, 'e, 'n) messenger_api_scheme \<Rightarrow> nat option \<Rightarrow> nat option
     \<Rightarrow> AUTHENTICATION_INSTANCE option \<Rightarrow> 'e \<Rightarrow> report list \<times> 'e" where
  "internal_destroy_device os ms messenger twin auth e =
     (let e = (case messenger of None \<Rightarrow> e | Some h \<Rightarrow> snd (telemetry_messenger_destroy ms h e));
          e = (case twin of None \<Rightarrow> e | Some h \<Rightarrow> snd (twin_messenger_destroy ms h e))
      in (authentication_destroy auth, e))"

text \<open>The modules of a device, from the tick counter on, and the fields it starts with.\<close>

definition create_modules ::
  "('e, 'm) os_scheme \<Rightarrow> ('e, 'n) auth_services_scheme \<Rightarrow> ('mo, 'e, 'k) messenger_api_scheme
     \<Rightarrow> AMQP_DEVICE_CONFIG \<Rightarrow> string \<times> string option \<times> string option \<Rightarrow> 'e \<Rightarrow> DEVICE_INSTANCE option \<times> 'e" where
  "create_modules os sv ms c = (\<lambda>(fqdn, dev_id, mod_id) e.
     (case tickcounter_create ms e of (ok, e) \<Rightarrow>
      if \<not> ok then (None, e)
      else (case (if cfg_authentication_mode c = DEVICE_AUTH_MODE_CBS
                  then (case create_authentication_instance os sv fqdn e of (a, e) \<Rightarrow> (a \<noteq> None, a, e))
                  else (True, None, e)) of (ok, auth, e) \<Rightarrow>
      if \<not> ok then (None, e)
      else (case telemetry_messenger_create ms dev_id mod_id fqdn e of
         (None, e) \<Rightarrow> (None, snd (internal_destroy_device os ms None None auth e))
       | (Some mh, e) \<Rightarrow>
         (case twin_messenger_create ms dev_id mod_id fqdn e of
            (None, e) \<Rightarrow> (None, snd (internal_destroy_device os ms (Some mh) None auth e))
          | (Some th, e) \<Rightarrow>
              (Some \<lparr>authentication_mode = cfg_authentication_mode c, dev_fqdn = fqdn,
                 dev_state = DEVICE_STATE_STOPPED, session_handle = None, dev_cbs_handle = None,
                 authentication = auth, auth_state = AUTHENTICATION_STATE_STOPPED,
                 auth_error_code = AUTHENTICATION_ERROR_AUTH_TIMEOUT,
                 auth_state_last_changed_time = INDEFINITE_TIME,
                 auth_state_change_timeout_secs = DEFAULT_AUTH_STATE_CHANGED_TIMEOUT_SECS,
                 messenger_handle = mh, msgr_state = TELEMETRY_MESSENGER_STATE_STOPPED,
                 msgr_state_last_changed_time = INDEFINITE_TIME,
                 msgr_state_change_timeout_secs = DEFAULT_MSGR_STATE_CHANGED_TIMEOUT_SECS,
                 on_message_received = \<lparr>user_callback = None, user_context = 0\<rparr>,
                 twin_messenger_handle = th, twin_msgr_state = TWIN_MESSENGER_STATE_STOPPED,
                 twin_msgr_state_last_changed_time = INDEFINITE_TIME,
                 twin_msgr_state_change_timeout_secs = DEFAULT_MSGR_STATE_CHANGED_TIMEOUT_SECS,
                 on_device_twin_update_received = \<lparr>user_callback = None, user_context = 0\<rparr>,
                 last_stop_request_time = 0, stop_delay_ms = 0, dev_reports = []\<rparr>, e))))))"

definition amqp_device_create ::
  "('e, 'm) os_scheme \<Rightarrow> ('e, 'n) auth_services_scheme \<Rightarrow> ('mo, 'e, 'k) messenger_api_scheme
     \<Rightarrow> AMQP_DEVICE_CONFIG option \<Rightarrow> 'e \<Rightarrow> DEVICE_INSTANCE option \<times> 'e" where
  "amqp_device_create os sv ms config e =
     (case config of
        None \<Rightarrow> (None, e)
      | Some c \<Rightarrow>
        (case cfg_iothub_host_fqdn c of
           None \<Rightarrow> (None, e)
         | Some fqdn \<Rightarrow>
           if \<not> cfg_on_state_changed_callback c then (None, e)
           else if \<not> cfg_has_authorization c then (None, e)
           else
           or_null (malloc_of os () e) (\<lambda>_ e.
           or_null (clone_device_config os sv fqdn e) (create_modules os sv ms c))))"

section \<open>Starting and stopping\<close>

definition amqp_device_start_async ::
  "DEVICE_INSTANCE option \<Rightarrow> nat option \<Rightarrow> nat option \<Rightarrow> bool \<times> DEVICE_INSTANCE option" where
  "amqp_device_start_async handle session cbs =
     (case handle of
        None \<Rightarrow> (False, handle)
      | Some d \<Rightarrow>
          if dev_state d \<noteq> DEVICE_STATE_STOPPED then (False, handle)
          else if session = None then (False, handle)
          else if authentication_mode d = DEVICE_AUTH_MODE_CBS \<and> cbs = None then (False, handle)
          else (True, Some (dev_update_state DEVICE_STATE_STARTING
                 (d\<lparr>session_handle := session, dev_cbs_handle := cbs, stop_delay_ms := 0\<rparr>))))"

text \<open>The three calls of internal\_device\_stop: true when the module is stopped or need not be.\<close>

definition stop_messenger ::
  "('e, 'm) os_scheme \<Rightarrow> ('mo, 'e, 'k) messenger_api_scheme \<Rightarrow> DEVICE_INSTANCE \<Rightarrow> 'e
     \<Rightarrow> bool \<times> DEVICE_INSTANCE \<times> 'e" where
  "stop_messenger os ms d e =
     (if msgr_state d \<noteq> TELEMETRY_MESSENGER_STATE_STOPPED \<and> msgr_state d \<noteq> TELEMETRY_MESSENGER_STATE_STOPPING
      then (case telemetry_messenger_stop ms (messenger_handle d) e of (ok, changes, e) \<Rightarrow>
              (ok, deliver (on_messenger_state_changed_callback os) changes d e))
      else (True, d, e))"

definition stop_twin_messenger ::
  "('e, 'm) os_scheme \<Rightarrow> ('mo, 'e, 'k) messenger_api_scheme \<Rightarrow> DEVICE_INSTANCE \<Rightarrow> 'e
     \<Rightarrow> bool \<times> DEVICE_INSTANCE \<times> 'e" where
  "stop_twin_messenger os ms d e =
     (if twin_msgr_state d \<noteq> TWIN_MESSENGER_STATE_STOPPED \<and> twin_msgr_state d \<noteq> TWIN_MESSENGER_STATE_STOPPING
      then (case twin_messenger_stop ms (twin_messenger_handle d) e of (ok, changes, e) \<Rightarrow>
              (ok, deliver (on_twin_messenger_state_changed_callback os) changes d e))
      else (True, d, e))"

definition stop_authentication ::
  "('e, 'm) os_scheme \<Rightarrow> DEVICE_INSTANCE \<Rightarrow> 'e \<Rightarrow> bool \<times> DEVICE_INSTANCE \<times> 'e" where
  "stop_authentication os d e =
     (if authentication_mode d = DEVICE_AUTH_MODE_CBS \<and> auth_state d \<noteq> AUTHENTICATION_STATE_STOPPED
      then (case authentication d of
              None \<Rightarrow> (fst (authentication_stop None), d, e)
            | Some a \<Rightarrow>
                (case authentication_stop (Some a) of (ok, a') \<Rightarrow> (ok, auth_called os a (the a') d e)))
      else (True, d, e))"

definition internal_device_stop ::
  "('e, 'm) os_scheme \<Rightarrow> ('mo, 'e, 'k) messenger_api_scheme \<Rightarrow> DEVICE_INSTANCE \<Rightarrow> 'e
     \<Rightarrow> bool \<times> DEVICE_INSTANCE \<times> 'e" where
  "internal_device_stop os ms d e =
     (case stop_messenger os ms d e of (ok, d, e) \<Rightarrow>
      if \<not> ok then (False, dev_update_state DEVICE_STATE_ERROR_MSG d, e)
      else (case stop_twin_messenger os ms d e of (ok, d, e) \<Rightarrow>
      if \<not> ok then (False, dev_update_state DEVICE_STATE_ERROR_MSG d, e)
      else (case stop_authentication os d e of (ok, d, e) \<Rightarrow>
      if \<not> ok then (False, dev_update_state DEVICE_STATE_ERROR_AUTH d, e)
      else (True, dev_update_state DEVICE_STATE_STOPPED d, e))))"

definition amqp_device_stop ::
  "('e, 'm) os_scheme \<Rightarrow> ('mo, 'e, 'k) messenger_api_scheme \<Rightarrow> DEVICE_INSTANCE option \<Rightarrow> 'e
     \<Rightarrow> bool \<times> DEVICE_INSTANCE option \<times> 'e" where
  "amqp_device_stop os ms handle e =
     (case handle of
        None \<Rightarrow> (False, handle, e)
      | Some d \<Rightarrow>
          if dev_state d = DEVICE_STATE_STOPPED \<or> dev_state d = DEVICE_STATE_STOPPING \<and> stop_delay_ms d = 0
          then (False, handle, e)
          else (case internal_device_stop os ms (dev_update_state DEVICE_STATE_STOPPING d) e of
                  (ok, d, e) \<Rightarrow> (ok, Some d, e)))"

text \<open>The product with 1000 is a size\_t and wraps.\<close>

definition amqp_device_delayed_stop ::
  "('mo, 'e, 'k) messenger_api_scheme \<Rightarrow> DEVICE_INSTANCE option \<Rightarrow> 64 word \<Rightarrow> 'e
     \<Rightarrow> bool \<times> DEVICE_INSTANCE option \<times> 'e" where
  "amqp_device_delayed_stop ms handle delay_secs e =
     (case handle of
        None \<Rightarrow> (False, handle, e)
      | Some d \<Rightarrow>
          if dev_state d = DEVICE_STATE_STOPPED \<or> dev_state d = DEVICE_STATE_STOPPING
          then (False, handle, e)
          else (case tickcounter_get_current_ms ms e of
             (None, e) \<Rightarrow> (False, handle, e)
           | (Some t, e) \<Rightarrow>
               (True, Some ((dev_update_state DEVICE_STATE_STOPPING (d\<lparr>last_stop_request_time := t\<rparr>))
                  \<lparr>stop_delay_ms := delay_secs * 1000\<rparr>), e)))"

definition amqp_device_destroy ::
  "('e, 'm) os_scheme \<Rightarrow> ('mo, 'e, 'k) messenger_api_scheme \<Rightarrow> DEVICE_INSTANCE option \<Rightarrow> 'e
     \<Rightarrow> DEVICE_INSTANCE option \<times> report list \<times> 'e" where
  "amqp_device_destroy os ms handle e =
     (case handle of
        None \<Rightarrow> (None, [], e)
      | Some d \<Rightarrow>
          (case (if dev_state d = DEVICE_STATE_STARTED \<or> dev_state d = DEVICE_STATE_STARTING
                 then (case amqp_device_stop os ms (Some d) e of (_, d', e) \<Rightarrow> (the d', e))
                 else (d, e)) of (d, e) \<Rightarrow>
           (case internal_destroy_device os ms (Some (messenger_handle d)) (Some (twin_messenger_handle d))
                (authentication d) e of (rs, e) \<Rightarrow> (Some d, rs, e))))"
section \<open>Work\<close>

definition work_stopping ::
  "('e, 'm) os_scheme \<Rightarrow> ('mo, 'e, 'k) messenger_api_scheme \<Rightarrow> DEVICE_INSTANCE \<Rightarrow> 'e \<Rightarrow> DEVICE_INSTANCE \<times> 'e" where
  "work_stopping os ms d e =
     (case tickcounter_get_current_ms ms e of
        (None, e) \<Rightarrow> (dev_update_state DEVICE_STATE_ERROR_MSG d, e)
      | (Some current_time_ms, e) \<Rightarrow>
          if current_time_ms - last_stop_request_time d > stop_delay_ms d then
            (case internal_device_stop os ms d e of (ok, d, e) \<Rightarrow>
               (if \<not> ok then dev_update_state DEVICE_STATE_ERROR_MSG d else d, e))
          else (d, e))"

definition work_starting_auth ::
  "('e, 'm) os_scheme \<Rightarrow> DEVICE_INSTANCE \<Rightarrow> 'e \<Rightarrow> DEVICE_INSTANCE \<times> 'e" where
  "work_starting_auth os d e =
     (if auth_state d = AUTHENTICATION_STATE_STOPPED then
        (case authentication d of
           None \<Rightarrow> (dev_update_state DEVICE_STATE_ERROR_AUTH d, e)
         | Some a \<Rightarrow>
             (case authentication_start (Some a) (dev_cbs_handle d) of (ok, a') \<Rightarrow>
              (case auth_called os a (the a') d e of (d, e) \<Rightarrow>
                (if \<not> ok then dev_update_state DEVICE_STATE_ERROR_AUTH d else d, e))))
      else if auth_state d = AUTHENTICATION_STATE_STARTING then
        (case is_timeout_reached os (auth_state_last_changed_time d) (auth_state_change_timeout_secs d) e of
           (None, e) \<Rightarrow> (dev_update_state DEVICE_STATE_ERROR_AUTH d, e)
         | (Some is_timed_out, e) \<Rightarrow>
             (if is_timed_out then dev_update_state DEVICE_STATE_ERROR_AUTH_TIMEOUT d else d, e))
      else if auth_state d = AUTHENTICATION_STATE_ERROR then
        (if auth_error_code d = AUTHENTICATION_ERROR_AUTH_FAILED
         then dev_update_state DEVICE_STATE_ERROR_AUTH d
         else dev_update_state DEVICE_STATE_ERROR_AUTH_TIMEOUT d, e)
      else (d, e))"

text \<open>The two messengers; the first component counts the one that is started.\<close>

definition work_starting_messenger ::
  "('e, 'm) os_scheme \<Rightarrow> ('mo, 'e, 'k) messenger_api_scheme \<Rightarrow> DEVICE_INSTANCE \<Rightarrow> 'e
     \<Rightarrow> nat \<times> DEVICE_INSTANCE \<times> 'e" where
  "work_starting_messenger os ms d e =
     (if msgr_state d = TELEMETRY_MESSENGER_STATE_STOPPED then
        (case telemetry_messenger_start ms (messenger_handle d) (session_handle d) e of (ok, changes, e) \<Rightarrow>
         (case deliver (on_messenger_state_changed_callback os) changes
                 (dev_report (MessengerStart (messenger_handle d)) d) e of (d, e) \<Rightarrow>
           (0, if \<not> ok then dev_update_state DEVICE_STATE_ERROR_MSG d else d, e)))
      else if msgr_state d = TELEMETRY_MESSENGER_STATE_STARTING then
        (case is_timeout_reached os (msgr_state_last_changed_time d) (msgr_state_change_timeout_secs d) e of
           (None, e) \<Rightarrow> (0, dev_update_state DEVICE_STATE_ERROR_MSG d, e)
         | (Some is_timed_out, e) \<Rightarrow>
             (0, if is_timed_out then dev_update_state DEVICE_STATE_ERROR_MSG d else d, e))
      else if msgr_state d = TELEMETRY_MESSENGER_STATE_ERROR then
        (0, dev_update_state DEVICE_STATE_ERROR_MSG d, e)
      else if msgr_state d = TELEMETRY_MESSENGER_STATE_STARTED then (1, d, e)
      else (0, d, e))"

definition work_starting_twin_messenger ::
  "('e, 'm) os_scheme \<Rightarrow> ('mo, 'e, 'k) messenger_api_scheme \<Rightarrow> DEVICE_INSTANCE \<Rightarrow> 'e
     \<Rightarrow> nat \<times> DEVICE_INSTANCE \<times> 'e" where
  "work_starting_twin_messenger os ms d e =
     (if twin_msgr_state d = TWIN_MESSENGER_STATE_STOPPED then
        (case twin_messenger_start ms (twin_messenger_handle d) (session_handle d) e of (ok, changes, e) \<Rightarrow>
         (case deliver (on_twin_messenger_state_changed_callback os) changes
                 (dev_report (TwinMessengerStart (twin_messenger_handle d)) d) e of (d, e) \<Rightarrow>
           (0, if \<not> ok then dev_update_state DEVICE_STATE_ERROR_MSG d else d, e)))
      else if twin_msgr_state d = TWIN_MESSENGER_STATE_STARTING then
        (case is_timeout_reached os (twin_msgr_state_last_changed_time d)
                (twin_msgr_state_change_timeout_secs d) e of
           (None, e) \<Rightarrow> (0, dev_update_state DEVICE_STATE_ERROR_MSG d, e)
         | (Some is_timed_out, e) \<Rightarrow>
             (0, if is_timed_out then dev_update_state DEVICE_STATE_ERROR_MSG d else d, e))
      else if twin_msgr_state d = TWIN_MESSENGER_STATE_ERROR then
        (0, dev_update_state DEVICE_STATE_ERROR_MSG d, e)
      else if twin_msgr_state d = TWIN_MESSENGER_STATE_STARTED then (1, d, e)
      else (0, d, e))"

definition work_starting ::
  "('e, 'm) os_scheme \<Rightarrow> ('mo, 'e, 'k) messenger_api_scheme \<Rightarrow> DEVICE_INSTANCE \<Rightarrow> 'e \<Rightarrow> DEVICE_INSTANCE \<times> 'e" where
  "work_starting os ms d e =
     (case (if authentication_mode d = DEVICE_AUTH_MODE_CBS then work_starting_auth os d e else (d, e)) of (d, e) \<Rightarrow>
      if authentication_mode d = DEVICE_AUTH_MODE_X509 \<or> auth_state d = AUTHENTICATION_STATE_STARTED then
        (case work_starting_messenger os ms d e of (n, d, e) \<Rightarrow>
        (case work_starting_twin_messenger os ms d e of (n', d, e) \<Rightarrow>
           (if n + n' = 2 then dev_update_state DEVICE_STATE_STARTED d else d, e)))
      else (d, e))"

definition work_started :: "DEVICE_INSTANCE \<Rightarrow> DEVICE_INSTANCE" where
  "work_started d =
     (if authentication_mode d = DEVICE_AUTH_MODE_CBS \<and> auth_state d \<noteq> AUTHENTICATION_STATE_STARTED then
        (if auth_state d \<noteq> AUTHENTICATION_STATE_ERROR then
           (if auth_error_code d = AUTHENTICATION_ERROR_AUTH_FAILED
            then dev_update_state DEVICE_STATE_ERROR_AUTH d
            else dev_update_state DEVICE_STATE_ERROR_AUTH_TIMEOUT d)
         else dev_update_state DEVICE_STATE_ERROR_AUTH d)
      else
        (let d = (if msgr_state d \<noteq> TELEMETRY_MESSENGER_STATE_STARTED
                  then dev_update_state DEVICE_STATE_ERROR_MSG d else d)
         in if twin_msgr_state d \<noteq> TWIN_MESSENGER_STATE_STARTED
            then dev_update_state DEVICE_STATE_ERROR_MSG d else d))"

text \<open>The do\_works of the modules.\<close>

definition work_authentication ::
  "('e, 'm) os_scheme \<Rightarrow> ('e, 'n) auth_services_scheme \<Rightarrow> DEVICE_INSTANCE \<Rightarrow> 'e \<Rightarrow> (DEVICE_INSTANCE \<times> 'e) run" where
  "work_authentication os sv d e =
     (if authentication_mode d = DEVICE_AUTH_MODE_CBS
         \<and> auth_state d \<noteq> AUTHENTICATION_STATE_STOPPED \<and> auth_state d \<noteq> AUTHENTICATION_STATE_ERROR
      then (case authentication d of
              None \<Rightarrow> Done (d, e)
            | Some a \<Rightarrow>
                run_bind (authentication_do_work os sv (Some a) e) (\<lambda>(a', e).
                  Done (auth_called os a (the a') d e)))
      else Done (d, e))"

definition work_messenger ::
  "('e, 'm) os_scheme \<Rightarrow> ('mo, 'e, 'k) messenger_api_scheme \<Rightarrow> DEVICE_INSTANCE \<Rightarrow> 'e \<Rightarrow> DEVICE_INSTANCE \<times> 'e" where
  "work_messenger os ms d e =
     (if msgr_state d \<noteq> TELEMETRY_MESSENGER_STATE_STOPPED \<and> msgr_state d \<noteq> TELEMETRY_MESSENGER_STATE_ERROR
      then (case telemetry_messenger_do_work ms (messenger_handle d) e of (changes, e) \<Rightarrow>
              deliver (on_messenger_state_changed_callback os) changes d e)
      else (d, e))"

definition work_twin_messenger ::
  "('e, 'm) os_scheme \<Rightarrow> ('mo, 'e, 'k) messenger_api_scheme \<Rightarrow> DEVICE_INSTANCE \<Rightarrow> 'e \<Rightarrow> DEVICE_INSTANCE \<times> 'e" where
  "work_twin_messenger os ms d e =
     (if twin_msgr_state d \<noteq> TWIN_MESSENGER_STATE_STOPPED \<and> twin_msgr_state d \<noteq> TWIN_MESSENGER_STATE_ERROR
      then (case twin_messenger_do_work ms (twin_messenger_handle d) e of (changes, e) \<Rightarrow>
              deliver (on_twin_messenger_state_changed_callback os) changes d e)
      else (d, e))"

definition amqp_device_do_work ::
  "('e, 'm) os_scheme \<Rightarrow> ('e, 'n) auth_services_scheme \<Rightarrow> ('mo, 'e, 'k) messenger_api_scheme
     \<Rightarrow> DEVICE_INSTANCE option \<Rightarrow> 'e \<Rightarrow> (DEVICE_INSTANCE option \<times> 'e) run" where
  "amqp_device_do_work os sv ms handle e =
     (case handle of
        None \<Rightarrow> Done (None, e)
      | Some d \<Rightarrow>
          (case (if dev_state d = DEVICE_STATE_STOPPING then work_stopping os ms d e
                 else if dev_state d = DEVICE_STATE_STARTING then work_starting os ms d e
                 else if dev_state d = DEVICE_STATE_STARTED then (work_started d, e)
                 else (d, e)) of (d, e) \<Rightarrow>
           run_bind (work_authentication os sv d e) (\<lambda>(d, e).
             (case work_messenger os ms d e of (d, e) \<Rightarrow>
              (case work_twin_messenger os ms d e of (d, e) \<Rightarrow> Done (Some d, e))))))"

section \<open>Messages and twins\<close>

definition amqp_device_send_event_async ::
  "('e, 'm) os_scheme \<Rightarrow> ('mo, 'e, 'k) messenger_api_scheme \<Rightarrow> DEVICE_INSTANCE option \<Rightarrow> nat option
     \<Rightarrow> nat option \<Rightarrow> nat \<Rightarrow> 'e \<Rightarrow> bool \<times> 'e" where
  "amqp_device_send_event_async os ms handle message callback context e =
     (case (handle, message) of
        (Some d, Some m) \<Rightarrow>
          (case os_malloc os e of (ok, e) \<Rightarrow>
             if \<not> ok then (False, e)
             else telemetry_messenger_send_async ms (messenger_handle d) m
                    \<lparr>user_callback = callback, user_context = context\<rparr> e)
      | _ \<Rightarrow> (False, e))"

text \<open>None: a non-zero result. The argument is whether send\_status is not NULL.\<close>

definition amqp_device_get_send_status ::
  "('mo, 'e, 'k) messenger_api_scheme \<Rightarrow> DEVICE_INSTANCE option \<Rightarrow> bool \<Rightarrow> 'e \<Rightarrow> DEVICE_SEND_STATUS option \<times> 'e" where
  "amqp_device_get_send_status ms handle send_status e =
     (case handle of
        None \<Rightarrow> (None, e)
      | Some d \<Rightarrow>
          if \<not> send_status then (None, e)
          else (case telemetry_messenger_get_send_status ms (messenger_handle d) e of
             (None, e) \<Rightarrow> (None, e)
           | (Some s, e) \<Rightarrow>
               (Some (if s = TELEMETRY_MESSENGER_SEND_STATUS_IDLE then DEVICE_SEND_STATUS_IDLE
                      else DEVICE_SEND_STATUS_BUSY), e)))"

text \<open>Here the context must not be NULL; None is NULL.\<close>

definition amqp_device_subscribe_message ::
  "('mo, 'e, 'k) messenger_api_scheme \<Rightarrow> DEVICE_INSTANCE option \<Rightarrow> nat option \<Rightarrow> nat option \<Rightarrow> 'e
     \<Rightarrow> bool \<times> DEVICE_INSTANCE option \<times> 'e" where
  "amqp_device_subscribe_message ms handle callback context e =
     (case (handle, callback, context) of
        (Some d, Some cb, Some c) \<Rightarrow>
          (case telemetry_messenger_subscribe_for_messages ms (messenger_handle d) e of (ok, e) \<Rightarrow>
             if \<not> ok then (False, handle, e)
             else (True, Some (d\<lparr>on_message_received := \<lparr>user_callback = Some cb, user_context = c\<rparr>\<rparr>), e))
      | _ \<Rightarrow> (False, handle, e))"

definition amqp_device_unsubscribe_message ::
  "('mo, 'e, 'k) messenger_api_scheme \<Rightarrow> DEVICE_INSTANCE option \<Rightarrow> 'e \<Rightarrow> bool \<times> 'e" where
  "amqp_device_unsubscribe_message ms handle e =
     (case handle of
        None \<Rightarrow> (False, e)
      | Some d \<Rightarrow> telemetry_messenger_unsubscribe_for_messages ms (messenger_handle d) e)"

definition amqp_device_send_message_disposition ::
  "('e, 'm) os_scheme \<Rightarrow> ('mo, 'e, 'k) messenger_api_scheme \<Rightarrow> DEVICE_INSTANCE option
     \<Rightarrow> DEVICE_MESSAGE_DISPOSITION_INFO option \<Rightarrow> DEVICE_MESSAGE_DISPOSITION_RESULT \<Rightarrow> 'e \<Rightarrow> bool \<times> 'e" where
  "amqp_device_send_message_disposition os ms handle info result e =
     (case (handle, info) of
        (Some d, Some i) \<Rightarrow>
          if source i = None then (False, e)
          else (case create_messenger_disposition_info os ms i e of
             (None, e) \<Rightarrow> (False, e)
           | (Some mi, e) \<Rightarrow>
               telemetry_messenger_send_message_disposition ms (messenger_handle d) mi
                 (get_messenger_message_disposition_result_from result) e)
      | _ \<Rightarrow> (False, e))"

definition amqp_device_set_retry_policy :: "DEVICE_INSTANCE option \<Rightarrow> bool" where
  "amqp_device_set_retry_policy handle = False"

definition amqp_device_send_twin_update_async ::
  "('e, 'm) os_scheme \<Rightarrow> ('mo, 'e, 'k) messenger_api_scheme \<Rightarrow> DEVICE_INSTANCE option \<Rightarrow> char list option
     \<Rightarrow> nat option \<Rightarrow> nat \<Rightarrow> 'e \<Rightarrow> bool \<times> 'e" where
  "amqp_device_send_twin_update_async os ms handle data callback context e =
     (case (handle, data) of
        (Some d, Some b) \<Rightarrow>
          (case os_malloc os e of (ok, e) \<Rightarrow>
             if \<not> ok then (False, e)
             else twin_messenger_report_state_async ms (twin_messenger_handle d) b
                    \<lparr>user_callback = callback, user_context = context\<rparr> e)
      | _ \<Rightarrow> (False, e))"

definition amqp_device_subscribe_for_twin_updates ::
  "('mo, 'e, 'k) messenger_api_scheme \<Rightarrow> DEVICE_INSTANCE option \<Rightarrow> nat option \<Rightarrow> nat \<Rightarrow> 'e
     \<Rightarrow> bool \<times> DEVICE_INSTANCE option \<times> 'e" where
  "amqp_device_subscribe_for_twin_updates ms handle callback context e =
     (case (handle, callback) of
        (Some d, Some cb) \<Rightarrow>
          let previous = on_device_twin_update_received d;
              d = d\<lparr>on_device_twin_update_received := \<lparr>user_callback = Some cb, user_context = context\<rparr>\<rparr> in
          (case twin_messenger_subscribe ms (twin_messenger_handle d) e of (ok, e) \<Rightarrow>
             if \<not> ok then (False, Some (d\<lparr>on_device_twin_update_received := previous\<rparr>), e)
             else (True, Some d, e))
      | _ \<Rightarrow> (False, handle, e))"

definition amqp_device_unsubscribe_for_twin_updates ::
  "('mo, 'e, 'k) messenger_api_scheme \<Rightarrow> DEVICE_INSTANCE option \<Rightarrow> 'e \<Rightarrow> bool \<times> DEVICE_INSTANCE option \<times> 'e" where
  "amqp_device_unsubscribe_for_twin_updates ms handle e =
     (case handle of
        None \<Rightarrow> (False, handle, e)
      | Some d \<Rightarrow>
          (case twin_messenger_unsubscribe ms (twin_messenger_handle d) e of (ok, e) \<Rightarrow>
             if \<not> ok then (False, handle, e)
             else (True, Some (d\<lparr>on_device_twin_update_received := \<lparr>user_callback = None, user_context = 0\<rparr>\<rparr>), e)))"

definition amqp_device_get_twin_async ::
  "('e, 'm) os_scheme \<Rightarrow> ('mo, 'e, 'k) messenger_api_scheme \<Rightarrow> DEVICE_INSTANCE option \<Rightarrow> nat option \<Rightarrow> nat
     \<Rightarrow> 'e \<Rightarrow> bool \<times> 'e" where
  "amqp_device_get_twin_async os ms handle callback context e =
     (case (handle, callback) of
        (Some d, Some cb) \<Rightarrow>
          (case os_malloc os e of (ok, e) \<Rightarrow>
             if \<not> ok then (False, e)
             else twin_messenger_get_twin_async ms (twin_messenger_handle d)
                    \<lparr>user_callback = Some cb, user_context = context\<rparr> e)
      | _ \<Rightarrow> (False, e))"

section \<open>Options\<close>

definition DEVICE_OPTION_SAVED_AUTH_OPTIONS :: string where
  "DEVICE_OPTION_SAVED_AUTH_OPTIONS = ''saved_device_auth_options''"

definition DEVICE_OPTION_SAVED_MESSENGER_OPTIONS :: string where
  "DEVICE_OPTION_SAVED_MESSENGER_OPTIONS = ''saved_device_messenger_options''"

definition DEVICE_OPTION_SAVED_OPTIONS :: string where
  "DEVICE_OPTION_SAVED_OPTIONS = ''saved_device_options''"

definition DEVICE_OPTION_EVENT_SEND_TIMEOUT_SECS :: string where
  "DEVICE_OPTION_EVENT_SEND_TIMEOUT_SECS = ''event_send_timeout_secs''"

definition DEVICE_OPTION_CBS_REQUEST_TIMEOUT_SECS :: string where
  "DEVICE_OPTION_CBS_REQUEST_TIMEOUT_SECS = ''cbs_request_timeout_secs''"

definition DEVICE_OPTION_SAS_TOKEN_REFRESH_TIME_SECS :: string where
  "DEVICE_OPTION_SAS_TOKEN_REFRESH_TIME_SECS = ''sas_token_refresh_time_secs''"

definition DEVICE_OPTION_SAS_TOKEN_LIFETIME_SECS :: string where
  "DEVICE_OPTION_SAS_TOKEN_LIFETIME_SECS = ''sas_token_lifetime_secs''"

text \<open>
  A value of an option: a number, the saved options of authentication, those of the messenger, or
  those of a device. The code trusts that the value is of the type of its name.
\<close>

datatype 'mo device_option =
  Number nat
| AuthOptions "(string \<times> nat) list"
| MessengerOptions 'mo
| DeviceOptions "(string \<times> 'mo device_option) list"

definition device_clone_option ::
  "('mo device_option \<Rightarrow> 'e \<Rightarrow> 'mo device_option option \<times> 'e) \<Rightarrow> string option \<Rightarrow> 'mo device_option option \<Rightarrow> 'e
     \<Rightarrow> 'mo device_option option \<times> 'e" where
  "device_clone_option OptionHandler_Clone name v e =
     (case (name, v) of
        (Some n, Some x) \<Rightarrow>
          if n = DEVICE_OPTION_SAVED_AUTH_OPTIONS \<or> n = DEVICE_OPTION_SAVED_MESSENGER_OPTIONS
          then OptionHandler_Clone x e else (None, e)
      | _ \<Rightarrow> (None, e))"

text \<open>True when the option handler is destroyed.\<close>

definition device_destroy_option :: "string option \<Rightarrow> 'mo device_option option \<Rightarrow> bool" where
  "device_destroy_option name v =
     (case (name, v) of
        (Some n, Some x) \<Rightarrow> n = DEVICE_OPTION_SAVED_AUTH_OPTIONS \<or> n = DEVICE_OPTION_SAVED_MESSENGER_OPTIONS
      | _ \<Rightarrow> False)"

text \<open>
  A value of another type than its name asks for is a Fault. OptionHandler\_FeedOptions sets the
  stored options in order, up to the first that is refused; for a device it calls back this function.
\<close>

function amqp_device_set_option ::
  "('mo, 'e, 'k) messenger_api_scheme \<Rightarrow> DEVICE_INSTANCE \<Rightarrow> string \<Rightarrow> 'mo device_option \<Rightarrow> 'e
     \<Rightarrow> (bool \<times> DEVICE_INSTANCE \<times> 'e) run"
  and FeedOptions ::
  "('mo, 'e, 'k) messenger_api_scheme \<Rightarrow> (string \<times> 'mo device_option) list \<Rightarrow> DEVICE_INSTANCE \<Rightarrow> 'e
     \<Rightarrow> (bool \<times> DEVICE_INSTANCE \<times> 'e) run" where
  "amqp_device_set_option ms d name v e =
     (if name = DEVICE_OPTION_CBS_REQUEST_TIMEOUT_SECS \<or> name = DEVICE_OPTION_SAS_TOKEN_REFRESH_TIME_SECS
         \<or> name = DEVICE_OPTION_SAS_TOKEN_LIFETIME_SECS then
        (case authentication d of
           None \<Rightarrow> Done (False, d, e)
         | Some a \<Rightarrow>
             (case v of
                Number n \<Rightarrow>
                  (case authentication_set_option (Some a) (Some name) (Some (Secs n)) of (ok, a') \<Rightarrow>
                     Done (ok, d\<lparr>authentication := a'\<rparr>, e))
              | _ \<Rightarrow> Fault))
      else if name = DEVICE_OPTION_EVENT_SEND_TIMEOUT_SECS then
        (case v of
           Number n \<Rightarrow> (case telemetry_messenger_set_timeout ms (messenger_handle d) n e of (ok, e) \<Rightarrow> Done (ok, d, e))
         | _ \<Rightarrow> Fault)
      else if name = DEVICE_OPTION_SAVED_AUTH_OPTIONS then
        (case authentication d of
           None \<Rightarrow> Done (False, d, e)
         | Some a \<Rightarrow>
             (case v of
                AuthOptions stored \<Rightarrow>
                  (case feed auth_set_secs stored a of (ok, a') \<Rightarrow> Done (ok, d\<lparr>authentication := Some a'\<rparr>, e))
              | _ \<Rightarrow> Fault))
      else if name = DEVICE_OPTION_SAVED_MESSENGER_OPTIONS then
        (case v of
           MessengerOptions mo \<Rightarrow>
             (case telemetry_messenger_feed_options ms (messenger_handle d) mo e of (ok, e) \<Rightarrow> Done (ok, d, e))
         | _ \<Rightarrow> Fault)
      else if name = DEVICE_OPTION_SAVED_OPTIONS then
        (case v of DeviceOptions stored \<Rightarrow> FeedOptions ms stored d e | _ \<Rightarrow> Fault)
      else Done (False, d, e))"
| "FeedOptions ms [] d e = Done (True, d, e)"
| "FeedOptions ms ((name, v) # stored) d e =
     run_bind (amqp_device_set_option ms d name v e) (\<lambda>(ok, d, e).
       if ok then FeedOptions ms stored d e else Done (False, d, e))"
  by pat_completeness auto

termination
  by (relation "measure (\<lambda>x. case x of Inl (ms, d, name, v, e) \<Rightarrow> 2 * size v
        | Inr (ms, stored, d, e) \<Rightarrow> Suc (2 * size_list (size_prod (\<lambda>_. 0) size) stored))")
    auto

definition amqp_device_retrieve_options ::
  "('oh, 'mo device_option, 'e, 'a) option_api_scheme \<Rightarrow> ((string \<times> nat) list, nat, 'e, 'b) option_api_scheme
     \<Rightarrow> ('mo, 'e, 'k) messenger_api_scheme \<Rightarrow> DEVICE_INSTANCE option \<Rightarrow> 'e \<Rightarrow> 'oh option \<times> 'e" where
  "amqp_device_retrieve_options api auth_api ms handle e =
     (case handle of
        None \<Rightarrow> (None, e)
      | Some d \<Rightarrow>
          (case OptionHandler_Create api e of
             (None, e) \<Rightarrow> (None, e)
           | (Some options, e) \<Rightarrow>
               (case (if authentication d \<noteq> None then
                        (case authentication_retrieve_options auth_api (authentication d) e of
                           (None, e) \<Rightarrow> (False, options, e)
                         | (Some stored, e) \<Rightarrow>
                             OptionHandler_AddOption api options DEVICE_OPTION_SAVED_AUTH_OPTIONS (AuthOptions stored) e)
                      else (True, options, e)) of (ok, options, e) \<Rightarrow>
                if \<not> ok then (None, OptionHandler_Destroy api options e)
                else (case telemetry_messenger_retrieve_options ms (messenger_handle d) e of
                   (None, e) \<Rightarrow> (None, OptionHandler_Destroy api options e)
                 | (Some mo, e) \<Rightarrow>
                     (case OptionHandler_AddOption api options DEVICE_OPTION_SAVED_MESSENGER_OPTIONS
                             (MessengerOptions mo) e of (ok, options, e) \<Rightarrow>
                      if ok then (Some options, e) else (None, OptionHandler_Destroy api options e))))))"
section \<open>What the owner sees\<close>

text \<open>The changes of state a device may report.\<close>

fun device_edge :: "DEVICE_STATE \<Rightarrow> DEVICE_STATE \<Rightarrow> bool" where
  "device_edge DEVICE_STATE_STOPPED n = (n = DEVICE_STATE_STARTING)"
| "device_edge DEVICE_STATE_STARTING n = (n \<notin> {DEVICE_STATE_STOPPED, DEVICE_STATE_STARTING})"
| "device_edge DEVICE_STATE_STARTED n =
     (n \<notin> {DEVICE_STATE_STOPPED, DEVICE_STATE_STARTING, DEVICE_STATE_STARTED})"
| "device_edge DEVICE_STATE_STOPPING n =
     (n \<in> {DEVICE_STATE_STOPPED, DEVICE_STATE_ERROR_MSG, DEVICE_STATE_ERROR_AUTH})"
| "device_edge DEVICE_STATE_ERROR_AUTH n = (n \<in> {DEVICE_STATE_STOPPING, DEVICE_STATE_ERROR_MSG})"
| "device_edge DEVICE_STATE_ERROR_AUTH_TIMEOUT n = (n = DEVICE_STATE_STOPPING)"
| "device_edge DEVICE_STATE_ERROR_MSG n = (n = DEVICE_STATE_STOPPING)"

fun device_path_of :: "DEVICE_STATE \<Rightarrow> device_report list \<Rightarrow> DEVICE_STATE option" where
  "device_path_of s [] = Some s"
| "device_path_of s (DeviceStateChanged p n # rs) =
     (if p = s \<and> device_edge p n then device_path_of n rs else None)"
| "device_path_of s (_ # rs) = device_path_of s rs"

lemma device_path_of_append:
  "device_path_of s (xs @ ys) =
     (case device_path_of s xs of None \<Rightarrow> None | Some s' \<Rightarrow> device_path_of s' ys)"
  by (induction s xs rule: device_path_of.induct) auto

text \<open>
  The fields that mirror the authentication instance: it exists when CBS is used, and the state the
  device believes in is the state it is in.
\<close>

definition mirror :: "DEVICE_INSTANCE \<Rightarrow> bool" where
  "mirror d \<longleftrightarrow> (authentication_mode d = DEVICE_AUTH_MODE_CBS \<longleftrightarrow> authentication d \<noteq> None)
     \<and> (case authentication d of
          None \<Rightarrow> auth_state d = AUTHENTICATION_STATE_STOPPED
        | Some a \<Rightarrow> auth_ok a \<and> auth_state d = state a)"

definition authenticated :: "DEVICE_INSTANCE \<Rightarrow> bool" where
  "authenticated d \<longleftrightarrow> authentication_mode d = DEVICE_AUTH_MODE_X509 \<or> auth_state d = AUTHENTICATION_STATE_STARTED"

definition all_started :: "DEVICE_INSTANCE \<Rightarrow> bool" where
  "all_started d \<longleftrightarrow> authenticated d \<and> msgr_state d = TELEMETRY_MESSENGER_STATE_STARTED
     \<and> twin_msgr_state d = TWIN_MESSENGER_STATE_STARTED"

text \<open>What an operation on \<open>d\<close> may report.\<close>

fun permitted :: "DEVICE_INSTANCE \<Rightarrow> device_report \<Rightarrow> bool" where
  "permitted d (DeviceStateChanged p n) = (n = DEVICE_STATE_STARTED \<longrightarrow> all_started d)"
| "permitted d (MessengerStart h) = (authenticated d \<and> h = messenger_handle d)"
| "permitted d (TwinMessengerStart h) = (authenticated d \<and> h = twin_messenger_handle d)"
| "permitted d _ = True"

text \<open>From \<open>d\<close> to \<open>d'\<close> with reports that satisfy \<open>K\<close>, keeping the mirror.\<close>

definition dev_rel :: "(device_report \<Rightarrow> bool) \<Rightarrow> DEVICE_INSTANCE \<Rightarrow> DEVICE_INSTANCE \<Rightarrow> bool" where
  "dev_rel K d d' \<longleftrightarrow>
     (\<exists>new. dev_reports d' = dev_reports d @ new \<and> device_path_of (dev_state d) new = Some (dev_state d')
        \<and> list_all K new)
     \<and> (mirror d \<longrightarrow> mirror d')"

definition quiet :: "device_report \<Rightarrow> bool" where
  "quiet r \<longleftrightarrow> (case r of DeviceStateChanged p n \<Rightarrow> n \<noteq> DEVICE_STATE_STARTED
     | MessengerStart h \<Rightarrow> False | TwinMessengerStart h \<Rightarrow> False | _ \<Rightarrow> True)"

lemma quiet_permitted: "quiet r \<Longrightarrow> permitted d r"
  by (cases r) (auto simp: quiet_def)

lemma dev_rel_refl [simp]: "dev_rel K d d"
  by (auto simp: dev_rel_def)

lemma dev_rel_trans: "dev_rel K d d1 \<Longrightarrow> dev_rel K d1 d2 \<Longrightarrow> dev_rel K d d2"
proof -
  assume a: "dev_rel K d d1" "dev_rel K d1 d2"
  from a(1) obtain n1 where n1: "dev_reports d1 = dev_reports d @ n1"
    "device_path_of (dev_state d) n1 = Some (dev_state d1)" "list_all K n1" by (auto simp: dev_rel_def)
  from a(2) obtain n2 where n2: "dev_reports d2 = dev_reports d1 @ n2"
    "device_path_of (dev_state d1) n2 = Some (dev_state d2)" "list_all K n2" by (auto simp: dev_rel_def)
  have "dev_reports d2 = dev_reports d @ (n1 @ n2)"
    "device_path_of (dev_state d) (n1 @ n2) = Some (dev_state d2)" "list_all K (n1 @ n2)"
    using n1 n2 by (simp_all add: device_path_of_append)
  moreover have "mirror d \<longrightarrow> mirror d2" using a by (simp add: dev_rel_def)
  ultimately show ?thesis by (auto simp: dev_rel_def)
qed

lemma dev_rel_mono: "dev_rel K d d' \<Longrightarrow> (\<And>r. K r \<Longrightarrow> K' r) \<Longrightarrow> dev_rel K' d d'"
  unfolding dev_rel_def by (metis (mono_tags, lifting) list.pred_mono_strong)

text \<open>Changes of other fields.\<close>

lemma dev_rel_frame:
  "dev_reports d' = dev_reports d \<Longrightarrow> dev_state d' = dev_state d
     \<Longrightarrow> authentication_mode d' = authentication_mode d \<Longrightarrow> authentication d' = authentication d
     \<Longrightarrow> auth_state d' = auth_state d \<Longrightarrow> dev_rel K d d'"
  by (auto simp: dev_rel_def mirror_def)

lemma dev_report_sel [simp]:
  "dev_state (dev_report r d) = dev_state d" "authentication (dev_report r d) = authentication d"
  "auth_state (dev_report r d) = auth_state d" "auth_error_code (dev_report r d) = auth_error_code d"
  "authentication_mode (dev_report r d) = authentication_mode d"
  "msgr_state (dev_report r d) = msgr_state d" "twin_msgr_state (dev_report r d) = twin_msgr_state d"
  "messenger_handle (dev_report r d) = messenger_handle d"
  "twin_messenger_handle (dev_report r d) = twin_messenger_handle d"
  "stop_delay_ms (dev_report r d) = stop_delay_ms d"
  "dev_reports (dev_report r d) = dev_reports d @ [r]"
  by (simp_all add: dev_report_def)

lemma dev_update_state_sel [simp]:
  "dev_state (dev_update_state s d) = s" "authentication (dev_update_state s d) = authentication d"
  "auth_state (dev_update_state s d) = auth_state d"
  "auth_error_code (dev_update_state s d) = auth_error_code d"
  "authentication_mode (dev_update_state s d) = authentication_mode d"
  "msgr_state (dev_update_state s d) = msgr_state d"
  "twin_msgr_state (dev_update_state s d) = twin_msgr_state d"
  "messenger_handle (dev_update_state s d) = messenger_handle d"
  "twin_messenger_handle (dev_update_state s d) = twin_messenger_handle d"
  "stop_delay_ms (dev_update_state s d) = stop_delay_ms d"
  "dev_reports (dev_update_state s d) =
     dev_reports d @ (if s \<noteq> dev_state d then [DeviceStateChanged (dev_state d) s] else [])"
  by (simp_all add: dev_update_state_def)

lemma mirror_update_state [simp]: "mirror (dev_update_state s d) = mirror d"
  by (cases "authentication d") (simp_all add: mirror_def)

lemma dev_rel_update:
  "s = dev_state d \<or> device_edge (dev_state d) s \<and> K (DeviceStateChanged (dev_state d) s)
     \<Longrightarrow> dev_rel K d (dev_update_state s d)"
  unfolding dev_rel_def by auto

lemma deliver_msgr:
  "deliver (on_messenger_state_changed_callback os) cs d e = (d', e') \<Longrightarrow>
     \<exists>s t. d' = d\<lparr>msgr_state := s, msgr_state_last_changed_time := t\<rparr>"
proof (induction cs arbitrary: d e)
  case Nil
  then have "d' = d\<lparr>msgr_state := msgr_state d, msgr_state_last_changed_time := msgr_state_last_changed_time d\<rparr>"
    by simp
  then show ?case by blast
next
  case (Cons c cs)
  obtain d1 e1 where c: "on_messenger_state_changed_callback os (fst c) (snd c) d e = (d1, e1)"
    by (cases "on_messenger_state_changed_callback os (fst c) (snd c) d e")
  with Cons.prems have "deliver (on_messenger_state_changed_callback os) cs d1 e1 = (d', e')"
    by (cases c) simp
  from Cons.IH [OF this] obtain s t
    where d': "d' = d1\<lparr>msgr_state := s, msgr_state_last_changed_time := t\<rparr>" by blast
  from c have "d1 = d \<or> (\<exists>n t. d1 = d\<lparr>msgr_state := n, msgr_state_last_changed_time := t\<rparr>)"
    by (auto simp: on_messenger_state_changed_callback_def split: prod.splits if_splits)
  then have "d' = d\<lparr>msgr_state := s, msgr_state_last_changed_time := t\<rparr>"
    unfolding d' by auto
  then show ?case by blast
qed

lemma deliver_twin:
  "deliver (on_twin_messenger_state_changed_callback os) cs d e = (d', e') \<Longrightarrow>
     \<exists>s t. d' = d\<lparr>twin_msgr_state := s, twin_msgr_state_last_changed_time := t\<rparr>"
proof (induction cs arbitrary: d e)
  case Nil
  then have "d' = d\<lparr>twin_msgr_state := twin_msgr_state d,
      twin_msgr_state_last_changed_time := twin_msgr_state_last_changed_time d\<rparr>"
    by simp
  then show ?case by blast
next
  case (Cons c cs)
  obtain d1 e1 where c: "on_twin_messenger_state_changed_callback os (fst c) (snd c) d e = (d1, e1)"
    by (cases "on_twin_messenger_state_changed_callback os (fst c) (snd c) d e")
  with Cons.prems have "deliver (on_twin_messenger_state_changed_callback os) cs d1 e1 = (d', e')"
    by (cases c) simp
  from Cons.IH [OF this] obtain s t
    where d': "d' = d1\<lparr>twin_msgr_state := s, twin_msgr_state_last_changed_time := t\<rparr>" by blast
  from c have "d1 = d \<or> (\<exists>n t. d1 = d\<lparr>twin_msgr_state := n, twin_msgr_state_last_changed_time := t\<rparr>)"
    by (auto simp: on_twin_messenger_state_changed_callback_def split: prod.splits if_splits)
  then have "d' = d\<lparr>twin_msgr_state := s, twin_msgr_state_last_changed_time := t\<rparr>"
    unfolding d' by auto
  then show ?case by blast
qed

lemma deliver_auth_shape:
  "deliver_auth os rs d e = (d', e') \<Longrightarrow> follow (auth_state d) rs = Some s \<Longrightarrow>
     \<exists>c t. d' = d\<lparr>auth_state := s, auth_error_code := c, auth_state_last_changed_time := t\<rparr>"
proof (induction os rs d e rule: deliver_auth.induct)
  case (1 os d e)
  then have "d' = d\<lparr>auth_state := s, auth_error_code := auth_error_code d,
      auth_state_last_changed_time := auth_state_last_changed_time d\<rparr>" by simp
  then show ?case by blast
qed (fastforce simp: on_authentication_state_changed_callback_def on_authentication_error_callback_def
    split: prod.splits if_splits)+

lemma auth_called_shape:
  assumes "mirror d" "authentication d = Some a" "step_ok a a'" "auth_called os a a' d e = (d', e')"
  obtains c t where "d' = d\<lparr>authentication := Some a', auth_state := state a', auth_error_code := c,
      auth_state_last_changed_time := t\<rparr>" "auth_ok a'"
proof -
  from assms(3) obtain new where n: "auth_ok a'" "reports a' = reports a @ new"
    by (auto simp: step_ok_def good_transition_def)
  from assms(1,2) have a: "auth_ok a" "auth_state d = state a" by (simp_all add: mirror_def)
  from a(1) n have "follow (state a) new = Some (state a')" by (simp add: auth_ok_def follow_append)
  with deliver_auth_shape [of os new "d\<lparr>authentication := Some a'\<rparr>" e d' e' "state a'"] assms(4) a n that
  show thesis by (auto simp: auth_called_def)
qed

lemma auth_called_rel:
  assumes "mirror d" "authentication d = Some a" "step_ok a a'" "auth_called os a a' d e = (d', e')"
  shows "dev_rel K d d' \<and> mirror d' \<and> auth_state d' = state a' \<and> dev_state d' = dev_state d"
proof -
  from auth_called_shape [OF assms] obtain c t where s: "d' = d\<lparr>authentication := Some a', auth_state := state a',
      auth_error_code := c, auth_state_last_changed_time := t\<rparr>" "auth_ok a'" .
  then have "mirror d'" using assms(1,2) by (auto simp: mirror_def)
  then show ?thesis using s by (simp add: dev_rel_def)
qed
subsection \<open>Each operation\<close>

lemma dev_rel_mirror: "dev_rel K d d' \<Longrightarrow> mirror d \<Longrightarrow> mirror d'"
  by (simp add: dev_rel_def)

lemma deliver_msgr_rel:
  assumes "deliver (on_messenger_state_changed_callback os) cs d e = (d', e')"
  shows "dev_rel K d d' \<and> dev_state d' = dev_state d \<and> auth_state d' = auth_state d
    \<and> authentication_mode d' = authentication_mode d \<and> twin_msgr_state d' = twin_msgr_state d
    \<and> twin_messenger_handle d' = twin_messenger_handle d"
  using deliver_msgr [OF assms] by (auto intro: dev_rel_frame)

lemma deliver_twin_rel:
  assumes "deliver (on_twin_messenger_state_changed_callback os) cs d e = (d', e')"
  shows "dev_rel K d d' \<and> dev_state d' = dev_state d \<and> auth_state d' = auth_state d
    \<and> authentication_mode d' = authentication_mode d"
  using deliver_twin [OF assms] by (auto intro: dev_rel_frame)

lemma stop_messenger_rel:
  "stop_messenger os ms d e = (ok, d', e') \<Longrightarrow> dev_rel K d d' \<and> dev_state d' = dev_state d"
  by (auto simp: stop_messenger_def split: if_splits prod.splits dest!: deliver_msgr_rel [where K = K])

lemma stop_twin_messenger_rel:
  "stop_twin_messenger os ms d e = (ok, d', e') \<Longrightarrow> dev_rel K d d' \<and> dev_state d' = dev_state d"
  by (auto simp: stop_twin_messenger_def split: if_splits prod.splits dest!: deliver_twin_rel [where K = K])

lemma stop_authentication_rel:
  assumes m: "mirror d" and s: "stop_authentication os d e = (ok, d', e')"
  shows "dev_rel K d d' \<and> dev_state d' = dev_state d \<and> ok \<and> auth_state d' = AUTHENTICATION_STATE_STOPPED"
proof (cases "authentication_mode d = DEVICE_AUTH_MODE_CBS \<and> auth_state d \<noteq> AUTHENTICATION_STATE_STOPPED")
  case True
  with m obtain a where a: "authentication d = Some a" "auth_ok a" "auth_state d = state a"
    by (auto simp: mirror_def)
  obtain ok1 a1 where st: "authentication_stop (Some a) = (ok1, a1)" by (cases "authentication_stop (Some a)")
  with a True obtain a' where a': "a1 = Some a'" "ok1" "state a' = AUTHENTICATION_STATE_STOPPED"
    by (auto simp: authentication_stop_def)
  have so: "step_ok a a'" using stop_ok a(2) st a' by blast
  have c: "auth_called os a a' d e = (d', e')" and ok: "ok"
    using s True a st a' by (auto simp: stop_authentication_def)
  from auth_called_rel [OF m a(1) so c, of K] ok a'(3) show ?thesis by simp
next
  case False
  with m s show ?thesis
    by (cases "authentication_mode d"; cases "authentication d")
      (auto simp: stop_authentication_def mirror_def)
qed

lemma internal_device_stop_rel:
  assumes m: "mirror d" and st: "dev_state d = DEVICE_STATE_STOPPING"
    and s: "internal_device_stop os ms d e = (ok, d', e')"
  shows "dev_rel quiet d d' \<and> (ok \<longrightarrow> dev_state d' = DEVICE_STATE_STOPPED
      \<and> auth_state d' = AUTHENTICATION_STATE_STOPPED)
    \<and> (\<not> ok \<longrightarrow> dev_state d' = DEVICE_STATE_ERROR_MSG)"
proof -
  obtain ok1 d1 e1 where 1: "stop_messenger os ms d e = (ok1, d1, e1)" by (cases "stop_messenger os ms d e") auto
  note r1 = stop_messenger_rel [OF 1, of quiet]
  show ?thesis
  proof (cases ok1)
    case False
    with s 1 r1 st show ?thesis
      by (auto simp: internal_device_stop_def quiet_def intro!: dev_rel_trans [of quiet d d1] dev_rel_update)
  next
    case True
    obtain ok2 d2 e2 where 2: "stop_twin_messenger os ms d1 e1 = (ok2, d2, e2)"
      by (cases "stop_twin_messenger os ms d1 e1") auto
    note r2 = stop_twin_messenger_rel [OF 2, of quiet]
    have r12: "dev_rel quiet d d2" using r1 r2 dev_rel_trans by blast
    show ?thesis
    proof (cases ok2)
      case False
      with s 1 2 True r1 r2 r12 st show ?thesis
        by (auto simp: internal_device_stop_def quiet_def intro!: dev_rel_trans [of quiet d d2] dev_rel_update)
    next
      case ok2: True
      obtain ok3 d3 e3 where 3: "stop_authentication os d2 e2 = (ok3, d3, e3)"
        by (cases "stop_authentication os d2 e2") auto
      have r3: "dev_rel quiet d2 d3 \<and> dev_state d3 = dev_state d2 \<and> ok3 \<and> auth_state d3 = AUTHENTICATION_STATE_STOPPED"
        by (rule stop_authentication_rel [OF dev_rel_mirror [OF r12 m] 3])
      then have r13: "dev_rel quiet d d3" using r12 dev_rel_trans by blast
      with s 1 2 3 True ok2 r1 r2 r3 st show ?thesis
        by (auto simp: internal_device_stop_def quiet_def intro!: dev_rel_trans [of quiet d d3] dev_rel_update)
    qed
  qed
qed

lemma amqp_device_stop_rel:
  assumes m: "mirror d" and s: "amqp_device_stop os ms (Some d) e = (ok, Some d', e')"
  shows "dev_rel quiet d d'
    \<and> (ok \<longrightarrow> dev_state d' = DEVICE_STATE_STOPPED \<and> auth_state d' = AUTHENTICATION_STATE_STOPPED)
    \<and> (\<not> ok \<longrightarrow> dev_state d' = DEVICE_STATE_ERROR_MSG
         \<or> d' = d \<and> dev_state d \<in> {DEVICE_STATE_STOPPED, DEVICE_STATE_STOPPING})"
proof (cases "dev_state d = DEVICE_STATE_STOPPED \<or> dev_state d = DEVICE_STATE_STOPPING \<and> stop_delay_ms d = 0")
  case True
  with s show ?thesis by (auto simp: amqp_device_stop_def)
next
  case False
  let ?d = "dev_update_state DEVICE_STATE_STOPPING d"
  from False s have "internal_device_stop os ms ?d e = (ok, d', e')"
    by (auto simp: amqp_device_stop_def split: prod.splits)
  from internal_device_stop_rel [OF _ _ this] m have r: "dev_rel quiet ?d d'
    \<and> (ok \<longrightarrow> dev_state d' = DEVICE_STATE_STOPPED \<and> auth_state d' = AUTHENTICATION_STATE_STOPPED)
    \<and> (\<not> ok \<longrightarrow> dev_state d' = DEVICE_STATE_ERROR_MSG)" by simp
  have "dev_rel quiet d ?d"
    using False by (intro dev_rel_update) (cases "dev_state d"; auto simp: quiet_def)
  with r dev_rel_trans show ?thesis by blast
qed

lemma work_stopping_rel:
  assumes m: "mirror d" and st: "dev_state d = DEVICE_STATE_STOPPING" and w: "work_stopping os ms d e = (d', e')"
  shows "dev_rel quiet d d'"
proof -
  obtain t e1 where t: "tickcounter_get_current_ms ms e = (t, e1)" by (cases "tickcounter_get_current_ms ms e")
  show ?thesis
  proof (cases t)
    case None
    with w t st show ?thesis by (auto simp: work_stopping_def quiet_def intro: dev_rel_update)
  next
    case (Some now)
    obtain ok d1 e2 where i: "internal_device_stop os ms d e1 = (ok, d1, e2)"
      by (cases "internal_device_stop os ms d e1") auto
    have "dev_rel quiet d d1 \<and> (ok \<longrightarrow> dev_state d1 = DEVICE_STATE_STOPPED)
      \<and> (\<not> ok \<longrightarrow> dev_state d1 = DEVICE_STATE_ERROR_MSG)"
      using internal_device_stop_rel [OF m st i] by blast
    with w t Some i show ?thesis
      by (auto simp: work_stopping_def dev_update_state_def split: if_splits)
  qed
qed

lemma dev_rel_error:
  assumes "dev_state d \<in> {DEVICE_STATE_STARTING, DEVICE_STATE_STARTED}"
    "s \<in> {DEVICE_STATE_ERROR_AUTH, DEVICE_STATE_ERROR_AUTH_TIMEOUT, DEVICE_STATE_ERROR_MSG}"
  shows "dev_rel quiet d (dev_update_state s d)"
  using assms by (intro dev_rel_update) (auto simp: quiet_def)

lemma work_starting_auth_rel:
  assumes m: "mirror d" and st: "dev_state d = DEVICE_STATE_STARTING"
    and cbs: "authentication_mode d = DEVICE_AUTH_MODE_CBS" and w: "work_starting_auth os d e = (d', e')"
  shows "dev_rel quiet d d' \<and> authentication_mode d' = authentication_mode d
    \<and> (auth_state d' = AUTHENTICATION_STATE_STARTED \<longrightarrow> d' = d)"
proof (cases "auth_state d = AUTHENTICATION_STATE_STOPPED")
  case True
  from m cbs obtain a where a: "authentication d = Some a" "auth_ok a" "auth_state d = state a"
    by (auto simp: mirror_def)
  obtain ok a1 where s: "authentication_start (Some a) (dev_cbs_handle d) = (ok, a1)"
    by (cases "authentication_start (Some a) (dev_cbs_handle d)")
  then obtain a' where a': "a1 = Some a'" "state a' \<noteq> AUTHENTICATION_STATE_STARTED"
    using True a(3) by (auto simp: authentication_start_def split: option.splits if_splits)
  have so: "step_ok a a'" using start_ok a(2) s a'(1) by blast
  obtain d1 e1 where c: "auth_called os a a' d e = (d1, e1)" by (cases "auth_called os a a' d e")
  have mode: "authentication_mode d1 = authentication_mode d"
    by (rule auth_called_shape [OF m a(1) so c]) simp
  have r: "dev_rel quiet d d1 \<and> auth_state d1 = state a' \<and> dev_state d1 = dev_state d"
    using auth_called_rel [OF m a(1) so c] by blast
  have "d' = (if ok then d1 else dev_update_state DEVICE_STATE_ERROR_AUTH d1)"
    using w True a s a' c by (auto simp: work_starting_auth_def)
  moreover have "dev_rel quiet d1 (dev_update_state DEVICE_STATE_ERROR_AUTH d1)"
    using r st by (intro dev_rel_error) auto
  ultimately show ?thesis using r a' mode dev_rel_trans [of quiet d d1] by auto
next
  case False
  with w consider "d' = d" | s where "d' = dev_update_state s d" "auth_state d \<noteq> AUTHENTICATION_STATE_STARTED"
      "s \<in> {DEVICE_STATE_ERROR_AUTH, DEVICE_STATE_ERROR_AUTH_TIMEOUT, DEVICE_STATE_ERROR_MSG}"
    by (auto simp: work_starting_auth_def split: if_splits prod.splits option.splits)
  then show ?thesis
  proof cases
    case 2
    then show ?thesis using st by (auto intro: dev_rel_error)
  qed simp
qed

lemma dev_update_state_twice [simp]: "dev_update_state s (dev_update_state s d) = dev_update_state s d"
  by (simp add: dev_update_state_def)

lemma work_started_cases:
  "work_started d \<in> {d, dev_update_state DEVICE_STATE_ERROR_AUTH d,
     dev_update_state DEVICE_STATE_ERROR_AUTH_TIMEOUT d, dev_update_state DEVICE_STATE_ERROR_MSG d}"
  by (simp add: work_started_def Let_def)

lemma work_started_rel: "dev_state d = DEVICE_STATE_STARTED \<Longrightarrow> dev_rel quiet d (work_started d)"
  using work_started_cases [of d] by (auto intro: dev_rel_error)
text \<open>
  Starting a messenger: it is asked to start only when it is stopped, and it counts as started
  only when nothing changed.
\<close>

lemma work_starting_messenger_rel:
  assumes st: "dev_state d = DEVICE_STATE_STARTING" and w: "work_starting_messenger os ms d e = (n, d', e')"
    and K: "\<And>r. quiet r \<Longrightarrow> K r" "K (MessengerStart (messenger_handle d))"
  shows "dev_rel K d d' \<and> auth_state d' = auth_state d \<and> authentication_mode d' = authentication_mode d
    \<and> twin_msgr_state d' = twin_msgr_state d \<and> twin_messenger_handle d' = twin_messenger_handle d
    \<and> dev_state d' \<in> {DEVICE_STATE_STARTING, DEVICE_STATE_ERROR_MSG}
    \<and> n \<le> 1 \<and> (n = 1 \<longrightarrow> msgr_state d = TELEMETRY_MESSENGER_STATE_STARTED \<and> d' = d)"
proof (cases "msgr_state d = TELEMETRY_MESSENGER_STATE_STOPPED")
  case True
  obtain ok cs e1 where s: "telemetry_messenger_start ms (messenger_handle d) (session_handle d) e = (ok, cs, e1)"
    by (cases "telemetry_messenger_start ms (messenger_handle d) (session_handle d) e") auto
  let ?d = "dev_report (MessengerStart (messenger_handle d)) d"
  obtain d1 e2 where c: "deliver (on_messenger_state_changed_callback os) cs ?d e1 = (d1, e2)"
    by (cases "deliver (on_messenger_state_changed_callback os) cs ?d e1")
  note r = deliver_msgr_rel [OF c, of K]
  have "dev_rel K d ?d" using K by (auto simp: dev_rel_def mirror_def split: option.splits)
  with r have d1: "dev_rel K d d1" using dev_rel_trans by blast
  have "dev_rel K d1 (dev_update_state DEVICE_STATE_ERROR_MSG d1)"
    using r st K(1) by (intro dev_rel_mono [OF dev_rel_error]) auto
  with d1 have "dev_rel K d (dev_update_state DEVICE_STATE_ERROR_MSG d1)" using dev_rel_trans by blast
  moreover have "n = 0 \<and> d' = (if ok then d1 else dev_update_state DEVICE_STATE_ERROR_MSG d1)"
    using w True s c by (auto simp: work_starting_messenger_def)
  ultimately show ?thesis using r d1 st by auto
next
  case False
  with w consider "d' = d" "n = 1 \<and> msgr_state d = TELEMETRY_MESSENGER_STATE_STARTED \<or> n = 0"
    | "d' = dev_update_state DEVICE_STATE_ERROR_MSG d" "n = 0"
    by (auto simp: work_starting_messenger_def split: if_splits prod.splits option.splits)
  then show ?thesis
  proof cases
    case 2
    have "dev_rel K d (dev_update_state DEVICE_STATE_ERROR_MSG d)"
      using st K(1) by (intro dev_rel_mono [OF dev_rel_error]) auto
    with 2 show ?thesis by simp
  qed (use st in auto)
qed

lemma work_starting_twin_messenger_rel:
  assumes st: "dev_state d \<in> {DEVICE_STATE_STARTING, DEVICE_STATE_ERROR_MSG}"
    and w: "work_starting_twin_messenger os ms d e = (n, d', e')"
    and K: "\<And>r. quiet r \<Longrightarrow> K r" "K (TwinMessengerStart (twin_messenger_handle d))"
  shows "dev_rel K d d' \<and> n \<le> 1 \<and> (n = 1 \<longrightarrow> twin_msgr_state d = TWIN_MESSENGER_STATE_STARTED \<and> d' = d)"
proof -
  have err: "dev_rel K d1 (dev_update_state DEVICE_STATE_ERROR_MSG d1)" if "dev_state d1 = dev_state d" for d1
  proof (cases "dev_state d = DEVICE_STATE_STARTING")
    case True
    then show ?thesis using that K(1) by (intro dev_rel_mono [OF dev_rel_error]) auto
  next
    case False
    then show ?thesis using that st by (simp add: dev_update_state_def)
  qed
  show ?thesis
  proof (cases "twin_msgr_state d = TWIN_MESSENGER_STATE_STOPPED")
    case True
    obtain ok cs e1 where s: "twin_messenger_start ms (twin_messenger_handle d) (session_handle d) e = (ok, cs, e1)"
      by (cases "twin_messenger_start ms (twin_messenger_handle d) (session_handle d) e") auto
    let ?d = "dev_report (TwinMessengerStart (twin_messenger_handle d)) d"
    obtain d1 e2 where c: "deliver (on_twin_messenger_state_changed_callback os) cs ?d e1 = (d1, e2)"
      by (cases "deliver (on_twin_messenger_state_changed_callback os) cs ?d e1")
    note r = deliver_twin_rel [OF c, of K]
    have "dev_rel K d ?d" using K by (auto simp: dev_rel_def mirror_def split: option.splits)
    with r have d1: "dev_rel K d d1" using dev_rel_trans by blast
    with err [of d1] r have "dev_rel K d (dev_update_state DEVICE_STATE_ERROR_MSG d1)"
      using dev_rel_trans by simp
    moreover have "n = 0 \<and> d' = (if ok then d1 else dev_update_state DEVICE_STATE_ERROR_MSG d1)"
      using w True s c by (auto simp: work_starting_twin_messenger_def)
    ultimately show ?thesis using d1 by auto
  next
    case False
    with w consider "d' = d" "n = 1 \<and> twin_msgr_state d = TWIN_MESSENGER_STATE_STARTED \<or> n = 0"
      | "d' = dev_update_state DEVICE_STATE_ERROR_MSG d" "n = 0"
      by (auto simp: work_starting_twin_messenger_def split: if_splits prod.splits option.splits)
    then show ?thesis using err [of d] by cases auto
  qed
qed

lemma work_starting_rel:
  assumes m: "mirror d" and st: "dev_state d = DEVICE_STATE_STARTING"
    and w: "work_starting os ms d e = (d', e')"
  shows "dev_rel (permitted d) d d'"
proof -
  obtain d1 e1 where 1: "(if authentication_mode d = DEVICE_AUTH_MODE_CBS then work_starting_auth os d e else (d, e)) = (d1, e1)"
    by (cases "if authentication_mode d = DEVICE_AUTH_MODE_CBS then work_starting_auth os d e else (d, e)")
  have r1: "dev_rel quiet d d1 \<and> authentication_mode d1 = authentication_mode d
      \<and> (auth_state d1 = AUTHENTICATION_STATE_STARTED \<longrightarrow> d1 = d)"
  proof (cases "authentication_mode d = DEVICE_AUTH_MODE_CBS")
    case True
    with 1 show ?thesis by (intro work_starting_auth_rel [OF m st]) simp_all
  next
    case False
    with 1 show ?thesis by simp
  qed
  show ?thesis
  proof (cases "authenticated d1")
    case False
    with w 1 have "d' = d1" by (auto simp: work_starting_def authenticated_def)
    with r1 dev_rel_mono quiet_permitted show ?thesis by blast
  next
    case True
    with r1 1 have d1: "d1 = d" by (auto simp: authenticated_def)
    with True have au: "authenticated d" by simp
    obtain n d2 e2 where 2: "work_starting_messenger os ms d e1 = (n, d2, e2)"
      by (cases "work_starting_messenger os ms d e1") auto
    obtain n' d3 e3 where 3: "work_starting_twin_messenger os ms d2 e2 = (n', d3, e3)"
      by (cases "work_starting_twin_messenger os ms d2 e2") auto
    note r2 = work_starting_messenger_rel [OF st 2, of "permitted d", OF quiet_permitted]
    from au have K2: "permitted d (MessengerStart (messenger_handle d))" by simp
    note r2 = r2 [OF _ K2]
    have K3: "permitted d (TwinMessengerStart (twin_messenger_handle d2))" using au r2 by simp
    have r3: "dev_rel (permitted d) d2 d3 \<and> n' \<le> 1 \<and> (n' = 1 \<longrightarrow> twin_msgr_state d2 = TWIN_MESSENGER_STATE_STARTED \<and> d3 = d2)"
      by (rule work_starting_twin_messenger_rel [OF _ 3, of "permitted d"])
        (use r2 K3 in \<open>auto intro: quiet_permitted\<close>)
    have r23: "dev_rel (permitted d) d d3" using r2 r3 dev_rel_trans by blast
    have d': "d' = (if n + n' = 2 then dev_update_state DEVICE_STATE_STARTED d3 else d3)"
      using w 1 d1 2 3 True by (auto simp: work_starting_def authenticated_def)
    show ?thesis
    proof (cases "n + n' = 2")
      case False
      with d' r23 show ?thesis by simp
    next
      case True
      with r2 r3 have "n = 1" "n' = 1" by linarith+
      with r2 r3 au have "d3 = d" "all_started d" by (auto simp: all_started_def)
      with True d' st show ?thesis by (auto intro: dev_rel_update)
    qed
  qed
qed

lemma work_authentication_rel:
  assumes m: "mirror d" and w: "work_authentication os sv d e = Done (d', e')"
  shows "dev_rel K d d'"
proof (cases "authentication_mode d = DEVICE_AUTH_MODE_CBS
    \<and> auth_state d \<noteq> AUTHENTICATION_STATE_STOPPED \<and> auth_state d \<noteq> AUTHENTICATION_STATE_ERROR")
  case True
  with m obtain a where a: "authentication d = Some a" "auth_ok a" by (auto simp: mirror_def)
  with True w obtain a1 e1 where s: "authentication_do_work os sv (Some a) e = Done (a1, e1)"
    and c: "auth_called os a (the a1) d e1 = (d', e')"
    by (auto simp: work_authentication_def run_bind_Done_iff)
  from do_work_ok [OF a(2) s] obtain a' where a': "a1 = Some a'" "step_ok a a'" by blast
  from auth_called_rel [OF m a(1) a'(2), of os e1 d' e' K] c a'(1) show ?thesis by simp
next
  case False
  with w show ?thesis by (auto simp: work_authentication_def)
qed

lemma amqp_device_do_work_rel:
  assumes m: "mirror d" and w: "amqp_device_do_work os sv ms (Some d) e = Done (d', e')"
  shows "\<exists>j. d' = Some j \<and> dev_rel (permitted d) d j"
proof -
  let ?m = "if dev_state d = DEVICE_STATE_STOPPING then work_stopping os ms d e
                 else if dev_state d = DEVICE_STATE_STARTING then work_starting os ms d e
                 else if dev_state d = DEVICE_STATE_STARTED then (work_started d, e)
                 else (d, e)"
  obtain d1 e1 where 1: "?m = (d1, e1)" by (cases ?m)
  have r1: "dev_rel (permitted d) d d1"
  proof -
    consider "dev_state d = DEVICE_STATE_STOPPING" "work_stopping os ms d e = (d1, e1)"
      | "dev_state d = DEVICE_STATE_STARTING" "work_starting os ms d e = (d1, e1)"
      | "dev_state d = DEVICE_STATE_STARTED" "d1 = work_started d" | "d1 = d"
      using 1 by (auto split: if_splits)
    then show ?thesis
    proof cases
      case 1
      from work_stopping_rel [OF m 1] show ?thesis by (rule dev_rel_mono) (rule quiet_permitted)
    next
      case 2
      show ?thesis by (rule work_starting_rel [OF m 2])
    next
      case 3
      from work_started_rel [OF 3(1)] show ?thesis unfolding 3(2) by (rule dev_rel_mono) (rule quiet_permitted)
    qed simp
  qed
  note m1 = dev_rel_mirror [OF r1 m]
  from w 1 obtain d2 e2 where 2: "work_authentication os sv d1 e1 = Done (d2, e2)"
    by (auto simp: amqp_device_do_work_def run_bind_Done_iff)
  obtain d3 e3 where 3: "work_messenger os ms d2 e2 = (d3, e3)" by (cases "work_messenger os ms d2 e2")
  obtain d4 e4 where 4: "work_twin_messenger os ms d3 e3 = (d4, e4)" by (cases "work_twin_messenger os ms d3 e3")
  have "dev_rel (permitted d) d1 d2" by (rule work_authentication_rel [OF m1 2])
  moreover have "dev_rel (permitted d) d2 d3"
    using 3 by (auto simp: work_messenger_def split: if_splits prod.splits
        dest!: deliver_msgr_rel [where K = "permitted d"])
  moreover have "dev_rel (permitted d) d3 d4"
    using 4 by (auto simp: work_twin_messenger_def split: if_splits prod.splits
        dest!: deliver_twin_rel [where K = "permitted d"])
  moreover have "d' = Some d4"
    using w 1 2 3 4 by (auto simp: amqp_device_do_work_def)
  ultimately show ?thesis using r1 dev_rel_trans by blast
qed
lemma auth_set_secs_same:
  "auth_set_secs a name n = (ok, a') \<Longrightarrow> auth_ok a \<Longrightarrow> auth_ok a' \<and> state a' = state a"
  by (auto simp: auth_set_secs_def auth_ok_def split: if_splits)

lemma feed_same:
  "feed auth_set_secs stored a = (ok, a') \<Longrightarrow> auth_ok a \<Longrightarrow> auth_ok a' \<and> state a' = state a"
proof (induction auth_set_secs stored a rule: feed.induct)
  case (2 name v opts s)
  obtain ok1 s1 where s1: "auth_set_secs s name v = (ok1, s1)" by (cases "auth_set_secs s name v")
  with 2 auth_set_secs_same [OF s1] show ?case by (auto split: if_splits)
qed simp

lemma dev_rel_authentication:
  assumes "authentication d = Some a" "mirror d \<Longrightarrow> auth_ok a' \<and> state a' = state a"
  shows "dev_rel K d (d\<lparr>authentication := Some a'\<rparr>)"
  using assms by (auto simp: dev_rel_def mirror_def)

lemma set_option_rel:
  "amqp_device_set_option ms d name v e = Done (ok, d', e') \<Longrightarrow> dev_rel K d d'"
  "FeedOptions ms stored d e = Done (ok, d', e') \<Longrightarrow> dev_rel K d d'"
proof (induction ms d name v e and ms stored d e arbitrary: ok d' e' and ok d' e'
    rule: amqp_device_set_option_FeedOptions.induct)
  case (1 ms d name v e)
  show ?case
  proof (cases "name = DEVICE_OPTION_SAVED_OPTIONS")
    case True
    then obtain stored where "v = DeviceOptions stored" "FeedOptions ms stored d e = Done (ok, d', e')"
      using 1(2) by (auto simp: DEVICE_OPTION_SAVED_OPTIONS_def DEVICE_OPTION_CBS_REQUEST_TIMEOUT_SECS_def
          DEVICE_OPTION_SAS_TOKEN_REFRESH_TIME_SECS_def DEVICE_OPTION_SAS_TOKEN_LIFETIME_SECS_def
          DEVICE_OPTION_EVENT_SEND_TIMEOUT_SECS_def DEVICE_OPTION_SAVED_AUTH_OPTIONS_def
          DEVICE_OPTION_SAVED_MESSENGER_OPTIONS_def split: device_option.splits)
    then show ?thesis
      using 1(1) True by (auto simp: DEVICE_OPTION_SAVED_OPTIONS_def DEVICE_OPTION_CBS_REQUEST_TIMEOUT_SECS_def
          DEVICE_OPTION_SAS_TOKEN_REFRESH_TIME_SECS_def DEVICE_OPTION_SAS_TOKEN_LIFETIME_SECS_def
          DEVICE_OPTION_EVENT_SEND_TIMEOUT_SECS_def DEVICE_OPTION_SAVED_AUTH_OPTIONS_def
          DEVICE_OPTION_SAVED_MESSENGER_OPTIONS_def)
  next
    case False
    then consider "d' = d"
      | a n a' where "authentication d = Some a"
          "authentication_set_option (Some a) (Some name) (Some (Secs n)) = (ok, a')" "d' = d\<lparr>authentication := a'\<rparr>"
      | a stored a' where "authentication d = Some a" "feed auth_set_secs stored a = (ok, a')"
          "d' = d\<lparr>authentication := Some a'\<rparr>"
      using 1(2) by (fastforce split: if_splits option.splits device_option.splits prod.splits)
    then show ?thesis
    proof cases
      case 2
      then obtain a1 where a1: "auth_set_secs a name n = (ok, a1)" "a' = Some a1"
        by (auto simp: authentication_set_option_def split: prod.splits)
      have "auth_ok a1 \<and> state a1 = state a" if "mirror d"
        by (rule auth_set_secs_same [OF a1(1)]) (use that 2(1) in \<open>simp add: mirror_def\<close>)
      with dev_rel_authentication [OF 2(1), of a1 K] 2(3) a1(2) show ?thesis by simp
    next
      case 3
      have "auth_ok a' \<and> state a' = state a" if "mirror d"
        by (rule feed_same [OF 3(2)]) (use that 3(1) in \<open>simp add: mirror_def\<close>)
      with dev_rel_authentication [OF 3(1), of a' K] 3(3) show ?thesis by simp
    qed simp
  qed
next
  case (3 ms name v stored d e)
  from 3(3) obtain ok1 d1 e1 where s: "amqp_device_set_option ms d name v e = Done (ok1, d1, e1)"
    by (auto simp: run_bind_Done_iff)
  from 3(1) [OF s] have r: "dev_rel K d d1" .
  show ?case
  proof (cases ok1)
    case True
    with 3(3) s have "FeedOptions ms stored d1 e1 = Done (ok, d', e')" by simp
    with 3(2) [OF s _ _ True] r dev_rel_trans show ?thesis by blast
  next
    case False
    with 3(3) s r show ?thesis by simp
  qed
qed simp

section \<open>Runs\<close>

text \<open>
  What happens to a device: its owner calls it, the CBS link answers a token, a messenger reports a
  state change. A step outputs the device before and after.
\<close>

datatype 'mo device_request =
  DeviceStart "nat option" "nat option" | DeviceStop | DeviceDelayedStop "64 word" | DeviceWork
| TokenCompleted bool
| MessengerChanged TELEMETRY_MESSENGER_STATE TELEMETRY_MESSENGER_STATE
| TwinMessengerChanged TWIN_MESSENGER_STATE TWIN_MESSENGER_STATE
| SubscribeMessages nat nat | SubscribeTwin nat nat | UnsubscribeTwin
| DeviceOption string "'mo device_option"

fun device_call ::
  "('e, 'm) os_scheme \<Rightarrow> ('e, 'n) auth_services_scheme \<Rightarrow> ('mo, 'e, 'k) messenger_api_scheme
     \<Rightarrow> 'mo device_request \<Rightarrow> DEVICE_INSTANCE \<Rightarrow> 'e \<Rightarrow> (DEVICE_INSTANCE option \<times> 'e) run" where
  "device_call os sv ms (DeviceStart s c) d e = Done (snd (amqp_device_start_async (Some d) s c), e)"
| "device_call os sv ms DeviceStop d e = (case amqp_device_stop os ms (Some d) e of (ok, d', e) \<Rightarrow> Done (d', e))"
| "device_call os sv ms (DeviceDelayedStop t) d e =
     (case amqp_device_delayed_stop ms (Some d) t e of (ok, d', e) \<Rightarrow> Done (d', e))"
| "device_call os sv ms DeviceWork d e = amqp_device_do_work os sv ms (Some d) e"
| "device_call os sv ms (TokenCompleted b) d e =
     (case authentication d of
        None \<Rightarrow> Done (Some d, e)
      | Some a \<Rightarrow> (case auth_called os a (on_cbs_put_token_complete_callback b a) d e of (d, e) \<Rightarrow> Done (Some d, e)))"
| "device_call os sv ms (MessengerChanged p n) d e =
     (case on_messenger_state_changed_callback os p n d e of (d, e) \<Rightarrow> Done (Some d, e))"
| "device_call os sv ms (TwinMessengerChanged p n) d e =
     (case on_twin_messenger_state_changed_callback os p n d e of (d, e) \<Rightarrow> Done (Some d, e))"
| "device_call os sv ms (SubscribeMessages cb c) d e =
     (case amqp_device_subscribe_message ms (Some d) (Some cb) (Some c) e of (ok, d', e) \<Rightarrow> Done (d', e))"
| "device_call os sv ms (SubscribeTwin cb c) d e =
     (case amqp_device_subscribe_for_twin_updates ms (Some d) (Some cb) c e of (ok, d', e) \<Rightarrow> Done (d', e))"
| "device_call os sv ms UnsubscribeTwin d e =
     (case amqp_device_unsubscribe_for_twin_updates ms (Some d) e of (ok, d', e) \<Rightarrow> Done (d', e))"
| "device_call os sv ms (DeviceOption name v) d e =
     run_bind (amqp_device_set_option ms d name v e) (\<lambda>(ok, d', e). Done (Some d', e))"

definition device_step ::
  "('e, 'm) os_scheme \<Rightarrow> ('e, 'n) auth_services_scheme \<Rightarrow> ('mo, 'e, 'k) messenger_api_scheme
     \<Rightarrow> 'mo device_request \<Rightarrow> (DEVICE_INSTANCE \<times> 'e) run
     \<Rightarrow> (DEVICE_INSTANCE \<times> DEVICE_INSTANCE) list \<times> (DEVICE_INSTANCE \<times> 'e) run" where
  "device_step os sv ms r s =
     (case s of
        Done (d, e) \<Rightarrow>
          (case device_call os sv ms r d e of
             Done (d', e') \<Rightarrow> ([(d, the d')], Done (the d', e'))
           | Fault \<Rightarrow> ([], Fault) | NoFuel \<Rightarrow> ([], NoFuel))
      | Fault \<Rightarrow> ([], Fault) | NoFuel \<Rightarrow> ([], NoFuel))"

definition device_ok :: "DEVICE_INSTANCE \<Rightarrow> bool" where
  "device_ok d \<longleftrightarrow> device_path_of DEVICE_STATE_STOPPED (dev_reports d) = Some (dev_state d) \<and> mirror d"

definition device_inv :: "(DEVICE_INSTANCE \<times> 'e) run \<Rightarrow> bool" where
  "device_inv s \<longleftrightarrow> (\<forall>d e. s = Done (d, e) \<longrightarrow> device_ok d)"

definition good_device :: "DEVICE_INSTANCE \<times> DEVICE_INSTANCE \<Rightarrow> bool" where
  "good_device = (\<lambda>(d, d'). dev_rel (permitted d) d d')"

lemma stop_gives_device: "amqp_device_stop os ms (Some d) e = (ok, d', e') \<Longrightarrow> \<exists>j. d' = Some j"
  by (auto simp: amqp_device_stop_def split: if_splits prod.splits)

lemma device_call_rel:
  assumes m: "mirror d" and c: "device_call os sv ms r d e = Done (d', e')"
  shows "\<exists>j. d' = Some j \<and> dev_rel (permitted d) d j"
proof (cases r)
  case (DeviceStart s c')
  let ?d1 = "d\<lparr>session_handle := s, dev_cbs_handle := c', stop_delay_ms := 0\<rparr>"
  from DeviceStart c consider "d' = Some d"
    | "dev_state d = DEVICE_STATE_STOPPED" "d' = Some (dev_update_state DEVICE_STATE_STARTING ?d1)"
    by (auto simp: amqp_device_start_async_def split: if_splits)
  then show ?thesis
  proof cases
    case 2
    have "dev_rel (permitted d) d ?d1" by (rule dev_rel_frame) simp_all
    moreover have "dev_rel (permitted d) ?d1 (dev_update_state DEVICE_STATE_STARTING ?d1)"
      using 2 by (intro dev_rel_update) simp
    ultimately show ?thesis using 2(2) dev_rel_trans by blast
  qed simp
next
  case DeviceStop
  with c obtain ok where s: "amqp_device_stop os ms (Some d) e = (ok, d', e')" by (auto split: prod.splits)
  from stop_gives_device [OF s] obtain j where j: "d' = Some j" by blast
  from amqp_device_stop_rel [OF m s [unfolded j]] have "dev_rel quiet d j" by (rule conjunct1)
  then have "dev_rel (permitted d) d j" by (rule dev_rel_mono) (rule quiet_permitted)
  with j show ?thesis by simp
next
  case (DeviceDelayedStop t)
  with c consider "d' = Some d"
    | now where "dev_state d \<noteq> DEVICE_STATE_STOPPED" "dev_state d \<noteq> DEVICE_STATE_STOPPING"
        "d' = Some ((dev_update_state DEVICE_STATE_STOPPING (d\<lparr>last_stop_request_time := now\<rparr>))
                  \<lparr>stop_delay_ms := t * 1000\<rparr>)"
    by (auto simp: amqp_device_delayed_stop_def split: if_splits prod.splits option.splits)
  then show ?thesis
  proof cases
    case 2
    let ?d1 = "d\<lparr>last_stop_request_time := now\<rparr>" and ?d2 = "dev_update_state DEVICE_STATE_STOPPING (d\<lparr>last_stop_request_time := now\<rparr>)"
    have "dev_rel (permitted d) d ?d1" by (rule dev_rel_frame) simp_all
    moreover have "dev_rel (permitted d) ?d1 ?d2"
      using 2 by (intro dev_rel_update) (cases "dev_state d"; simp)
    moreover have "dev_rel (permitted d) ?d2 (?d2\<lparr>stop_delay_ms := t * 1000\<rparr>)"
      by (rule dev_rel_frame) simp_all
    ultimately show ?thesis using 2(3) dev_rel_trans by blast
  qed simp
next
  case DeviceWork
  with c amqp_device_do_work_rel [OF m] show ?thesis by simp
next
  case (TokenCompleted b)
  show ?thesis
  proof (cases "authentication d")
    case (Some a)
    with m have a: "auth_ok a" by (simp add: mirror_def)
    from TokenCompleted Some c obtain j where j: "d' = Some j"
      "auth_called os a (on_cbs_put_token_complete_callback b a) d e = (j, e')" by (auto split: prod.splits)
    from auth_called_rel [OF m Some complete_ok [OF a] j(2)] j(1) show ?thesis by blast
  qed (use c TokenCompleted in auto)
next
  case (DeviceOption name v)
  with c obtain ok j where j: "d' = Some j" "amqp_device_set_option ms d name v e = Done (ok, j, e')"
    by (auto simp: run_bind_Done_iff simp del: amqp_device_set_option.simps)
  from set_option_rel(1) [OF j(2)] j(1) show ?thesis by blast
qed (use c in \<open>auto simp: on_messenger_state_changed_callback_def on_twin_messenger_state_changed_callback_def
      amqp_device_subscribe_message_def amqp_device_subscribe_for_twin_updates_def Let_def
      amqp_device_unsubscribe_for_twin_updates_def split: prod.splits if_splits intro!: dev_rel_frame\<close>)

lemma device_step_ok:
  assumes "device_inv s"
  shows "device_inv (snd (device_step os sv ms r s))"
    and "o' \<in> set (fst (device_step os sv ms r s)) \<Longrightarrow> good_device o'"
proof -
  have "device_inv (snd (device_step os sv ms r s)) \<and> (o' \<in> set (fst (device_step os sv ms r s)) \<longrightarrow> good_device o')"
  proof (cases s)
    case (Done p)
    obtain d e where p: "p = (d, e)" by (cases p)
    with assms Done have ok: "device_ok d" by (simp add: device_inv_def)
    then have m: "mirror d" by (simp add: device_ok_def)
    show ?thesis
    proof (cases "device_call os sv ms r d e")
      case c: (Done q)
      obtain d' e' where q: "q = (d', e')" by (cases q)
      from device_call_rel [OF m c [unfolded q]] obtain j where j: "d' = Some j" "dev_rel (permitted d) d j" by blast
      then have "device_ok j" using ok by (auto simp: device_ok_def dev_rel_def device_path_of_append)
      with j Done p c q show ?thesis by (simp add: device_step_def device_inv_def good_device_def)
    qed (use Done p in \<open>simp_all add: device_step_def device_inv_def\<close>)
  qed (simp_all add: device_step_def device_inv_def)
  then show "device_inv (snd (device_step os sv ms r s))"
    "o' \<in> set (fst (device_step os sv ms r s)) \<Longrightarrow> good_device o'" by auto
qed

interpretation device_runs: stepper "device_step os sv ms" device_inv good_device for os sv ms
  by unfold_locales (fact device_step_ok)+
section \<open>Properties\<close>

lemma created_authentication_ok:
  "create_authentication_instance os sv f e = (Some a, e') \<Longrightarrow> auth_ok a \<and> state a = AUTHENTICATION_STATE_STOPPED"
  by (auto simp: create_authentication_instance_def authentication_create_def auth_ok_def
      split: option.splits prod.splits if_splits)

lemma create_modules_ok:
  assumes "create_modules os sv ms c (f, i, m) e = (Some d, e')"
  shows "device_ok d"
proof (cases "cfg_authentication_mode c = DEVICE_AUTH_MODE_CBS")
  case True
  with assms show ?thesis
    by (auto simp: create_modules_def device_ok_def mirror_def
        split: option.split_asm prod.split_asm if_split_asm dest: created_authentication_ok)
next
  case False
  with assms show ?thesis
    by (auto simp: create_modules_def device_ok_def mirror_def
        split: option.split_asm prod.split_asm if_split_asm)
qed

lemma create_device_ok: "amqp_device_create os sv ms config e = (Some d, e') \<Longrightarrow> device_ok d"
  by (auto simp: amqp_device_create_def or_null_Some dest: create_modules_ok
      split: option.split_asm if_split_asm)

text \<open>
  C21: Through any calls of its owner, any answers of the CBS link and any state changes of the
  messengers, the states a device reports form an unbroken path from STOPPED to the state it is
  in, along the changes a device may make, and with CBS the state of authentication
  it believes in is the state its authentication instance is in.
\<close>

theorem device_reports_track_state:
  assumes "amqp_device_create os sv ms config e = (Some d, e')"
    and "snd (steps (device_step os sv ms) rs (Done (d, e'))) = Done (d2, e2)"
  shows "device_path_of DEVICE_STATE_STOPPED (dev_reports d2) = Some (dev_state d2)
    \<and> (authentication_mode d2 = DEVICE_AUTH_MODE_CBS \<longrightarrow>
        (\<exists>a. authentication d2 = Some a \<and> auth_state d2 = state a))"
proof -
  have "device_inv (Done (d, e'))" using create_device_ok [OF assms(1)] by (simp add: device_inv_def)
  from device_runs.steps_inv [OF this, of os sv ms rs] assms(2) have "device_ok d2" by (simp add: device_inv_def)
  then show ?thesis by (auto simp: device_ok_def mirror_def)
qed

text \<open>
  C22: A device reports STARTED only in a step that begins with authentication done (or X.509) and
  both messengers started, and it asks a messenger to start only when authentication is done.
\<close>

theorem device_starts_after_its_parts:
  assumes "amqp_device_create os sv ms config e = (Some d, e')"
    and "(d1, d2) \<in> set (fst (steps (device_step os sv ms) rs (Done (d, e'))))"
    and "r \<in> set (drop (length (dev_reports d1)) (dev_reports d2))"
  shows "(\<forall>p. r = DeviceStateChanged p DEVICE_STATE_STARTED \<longrightarrow>
       msgr_state d1 = TELEMETRY_MESSENGER_STATE_STARTED \<and> twin_msgr_state d1 = TWIN_MESSENGER_STATE_STARTED)
    \<and> ((\<exists>p. r = DeviceStateChanged p DEVICE_STATE_STARTED) \<or> (\<exists>h. r = MessengerStart h)
         \<or> (\<exists>h. r = TwinMessengerStart h) \<longrightarrow>
       authentication_mode d1 = DEVICE_AUTH_MODE_X509 \<or> auth_state d1 = AUTHENTICATION_STATE_STARTED)"
proof -
  have "device_inv (Done (d, e'))" using create_device_ok [OF assms(1)] by (simp add: device_inv_def)
  from device_runs.steps_out [OF this assms(2)] have "dev_rel (permitted d1) d1 d2" by (simp add: good_device_def)
  then obtain new where "dev_reports d2 = dev_reports d1 @ new" "list_all (permitted d1) new"
    by (auto simp: dev_rel_def)
  with assms(3) have "permitted d1 r" by (auto simp: list_all_iff)
  then show ?thesis by (auto simp: all_started_def authenticated_def)
qed

text \<open>
  Stopping a device that runs, at once, ends with the device STOPPED and its authentication
  stopped, or fails and leaves it in ERROR\_MSG; it is never left STOPPING.
\<close>

theorem device_stop_resolves:
  assumes "device_ok d"
    and "dev_state d \<notin> {DEVICE_STATE_STOPPED, DEVICE_STATE_STOPPING}"
    and "amqp_device_stop os ms (Some d) e = (ok, Some d', e')"
  shows "if ok then dev_state d' = DEVICE_STATE_STOPPED
           \<and> (\<forall>a. authentication d' = Some a \<longrightarrow> state a = AUTHENTICATION_STATE_STOPPED)
         else dev_state d' = DEVICE_STATE_ERROR_MSG"
proof -
  have m: "mirror d" using assms(1) by (simp add: device_ok_def)
  note r = amqp_device_stop_rel [OF m assms(3)]
  have "mirror d'" using r m dev_rel_mirror by blast
  then show ?thesis using r assms(2) by (auto simp: mirror_def)
qed

text \<open>
  A delayed stop keeps the device STOPPING, and its parts untouched, until more than the delay
  has passed on the tick counter, when the delay in milliseconds and the passage of time are
  within 64 bits; then the next work stops it.
\<close>

theorem delayed_stop_waits:
  assumes "device_ok d"
    and "amqp_device_delayed_stop ms (Some d) delay_secs e = (True, Some d1, e1)"
    and "unat delay_secs * 1000 < 2 ^ 64"
    and "tickcounter_get_current_ms ms e = (Some t0, e1)"
    and "tickcounter_get_current_ms ms e2 = (Some t, e3)" and "t0 \<le> t"
  shows "if unat t - unat t0 \<le> unat delay_secs * 1000
         then work_stopping os ms d1 e2 = (d1, e3) \<and> dev_state d1 = DEVICE_STATE_STOPPING
         else dev_state (fst (work_stopping os ms d1 e2)) \<in> {DEVICE_STATE_STOPPED, DEVICE_STATE_ERROR_MSG}"
proof -
  have d1: "d1 = (dev_update_state DEVICE_STATE_STOPPING (d\<lparr>last_stop_request_time := t0\<rparr>))
      \<lparr>stop_delay_ms := delay_secs * 1000\<rparr>"
    using assms(2,4) by (auto simp: amqp_device_delayed_stop_def split: if_splits)
  have u: "unat (delay_secs * 1000) = unat delay_secs * 1000"
    using assms(3) by (subst unat_mult_lem [THEN iffD1]) simp_all
  have s: "unat (t - t0) = unat t - unat t0" using assms(6) by (rule unat_sub)
  have last: "last_stop_request_time d1 = t0" "stop_delay_ms d1 = delay_secs * 1000"
    "dev_state d1 = DEVICE_STATE_STOPPING"
    by (simp_all add: d1 dev_update_state_def dev_report_def)
  have cmp: "t - t0 > stop_delay_ms d1 \<longleftrightarrow> unat t - unat t0 > unat delay_secs * 1000"
    by (simp add: last word_less_nat_alt u s)
  show ?thesis
  proof (cases "unat t - unat t0 \<le> unat delay_secs * 1000")
    case True
    with cmp last assms(5) show ?thesis by (simp add: work_stopping_def)
  next
    case False
    have m: "mirror d1"
      using assms(1) unfolding d1 device_ok_def
      by (auto simp: mirror_def dev_update_state_def dev_report_def split: option.splits)
    obtain ok d2 e4 where i: "internal_device_stop os ms d1 e3 = (ok, d2, e4)"
      by (cases "internal_device_stop os ms d1 e3") auto
    from internal_device_stop_rel [OF m last(3) i] False cmp last(1) assms(5) i show ?thesis
      by (auto simp: work_stopping_def)
  qed
qed
text \<open>The work of the parts, behind that of the state machine, does not change the device's state.\<close>

lemma amqp_device_do_work_state:
  assumes ok: "device_ok d" and st: "dev_state d = DEVICE_STATE_STARTING"
    and w: "amqp_device_do_work os sv ms (Some d) e = Done (Some d', e')"
  shows "dev_state d' = dev_state (fst (work_starting os ms d e))"
proof -
  from ok have m: "mirror d" by (simp add: device_ok_def)
  obtain d1 e1 where 1: "work_starting os ms d e = (d1, e1)" by (cases "work_starting os ms d e")
  note m1 = dev_rel_mirror [OF work_starting_rel [OF m st 1] m]
  from w 1 st obtain d2 e2 where 2: "work_authentication os sv d1 e1 = Done (d2, e2)"
    by (auto simp: amqp_device_do_work_def run_bind_Done_iff)
  obtain d3 e3 where 3: "work_messenger os ms d2 e2 = (d3, e3)" by (cases "work_messenger os ms d2 e2")
  obtain d4 e4 where 4: "work_twin_messenger os ms d3 e3 = (d4, e4)" by (cases "work_twin_messenger os ms d3 e3")
  have "dev_state d2 = dev_state d1"
  proof (cases "authentication_mode d1 = DEVICE_AUTH_MODE_CBS
      \<and> auth_state d1 \<noteq> AUTHENTICATION_STATE_STOPPED \<and> auth_state d1 \<noteq> AUTHENTICATION_STATE_ERROR")
    case True
    with m1 obtain a where a: "authentication d1 = Some a" "auth_ok a" by (auto simp: mirror_def)
    with True 2 obtain a1 e5 where s: "authentication_do_work os sv (Some a) e1 = Done (a1, e5)"
      and c: "auth_called os a (the a1) d1 e5 = (d2, e2)"
      by (auto simp: work_authentication_def run_bind_Done_iff)
    from do_work_ok [OF a(2) s] obtain a' where a': "a1 = Some a'" "step_ok a a'" by blast
    from auth_called_rel [OF m1 a(1) a'(2), of os e5 d2 e2] c a'(1) show ?thesis by simp
  next
    case False
    with 2 show ?thesis by (auto simp: work_authentication_def)
  qed
  moreover have "dev_state d3 = dev_state d2"
    using 3 by (auto simp: work_messenger_def split: if_splits prod.splits dest: deliver_msgr_rel)
  moreover have "dev_state d4 = dev_state d3"
    using 4 by (auto simp: work_twin_messenger_def split: if_splits prod.splits dest: deliver_twin_rel)
  moreover have "d' = d4" using w 1 2 3 4 st by (auto simp: amqp_device_do_work_def)
  ultimately show ?thesis using 1 by simp
qed

lemma error_stays:
  assumes "dev_state d = DEVICE_STATE_ERROR_MSG" "work_starting_twin_messenger os ms d e = (n, d', e')"
  shows "dev_state d' = DEVICE_STATE_ERROR_MSG"
  using assms by (auto simp: work_starting_twin_messenger_def split: if_splits prod.splits option.splits
      dest: deliver_twin_rel)

text \<open>
  C40: A start that does not come off ends. When authentication has been STARTING for its timeout,
  the next work leaves STARTING for ERROR\_AUTH\_TIMEOUT; when authentication is done and the telemetry
  messenger has been STARTING for its timeout, the next work leaves it for ERROR\_MSG.
\<close>

theorem start_times_out:
  assumes "device_ok d" and "dev_state d = DEVICE_STATE_STARTING"
    and "os_time os e = (t, e1)" and "t \<noteq> INDEFINITE_TIME"
    and "amqp_device_do_work os sv ms (Some d) e = Done (Some d', e')"
  shows "(authentication_mode d = DEVICE_AUTH_MODE_CBS \<and> auth_state d = AUTHENTICATION_STATE_STARTING
      \<and> auth_state_last_changed_time d \<noteq> INDEFINITE_TIME
      \<and> int (auth_state_change_timeout_secs d) \<le> t - auth_state_last_changed_time d
      \<longrightarrow> dev_state d' = DEVICE_STATE_ERROR_AUTH_TIMEOUT)
    \<and> ((authentication_mode d = DEVICE_AUTH_MODE_X509 \<or> auth_state d = AUTHENTICATION_STATE_STARTED)
      \<and> msgr_state d = TELEMETRY_MESSENGER_STATE_STARTING
      \<and> msgr_state_last_changed_time d \<noteq> INDEFINITE_TIME
      \<and> int (msgr_state_change_timeout_secs d) \<le> t - msgr_state_last_changed_time d
      \<longrightarrow> dev_state d' = DEVICE_STATE_ERROR_MSG)"
    (is "(?A \<longrightarrow> _) \<and> (?M \<longrightarrow> _)")
proof
  note w = amqp_device_do_work_state [OF assms(1,2,5)]
  show "?A \<longrightarrow> dev_state d' = DEVICE_STATE_ERROR_AUTH_TIMEOUT"
    using assms(3,4) by (simp add: w work_starting_def work_starting_auth_def is_timeout_reached_def)
  show "?M \<longrightarrow> dev_state d' = DEVICE_STATE_ERROR_MSG"
  proof
    assume M: ?M
    have au: "(if authentication_mode d = DEVICE_AUTH_MODE_CBS then work_starting_auth os d e else (d, e)) = (d, e)"
      using M by (cases "authentication_mode d") (auto simp: work_starting_auth_def)
    have mg: "work_starting_messenger os ms d e = (0, dev_update_state DEVICE_STATE_ERROR_MSG d, e1)"
      using M assms(3,4) by (simp add: work_starting_messenger_def is_timeout_reached_def)
    obtain n' d2 e2 where tw: "work_starting_twin_messenger os ms (dev_update_state DEVICE_STATE_ERROR_MSG d) e1 = (n', d2, e2)"
      by (cases "work_starting_twin_messenger os ms (dev_update_state DEVICE_STATE_ERROR_MSG d) e1") auto
    have n: "n' \<le> 1"
      using tw by (auto simp: work_starting_twin_messenger_def split: if_splits prod.splits option.splits)
    have "work_starting os ms d e = (d2, e2)"
      unfolding work_starting_def au prod.case mg tw using M n by (auto simp: authenticated_def)
    with error_stays [OF _ tw] w show "dev_state d' = DEVICE_STATE_ERROR_MSG" by simp
  qed
qed

subsection \<open>Examples\<close>

text \<open>Messengers that start and stop at once, a tick counter that stands at 7 seconds.\<close>

definition example_messengers :: "(nat, script) messenger_api" where
  "example_messengers = \<lparr>
     telemetry_messenger_create = (\<lambda>i m h e. (Some 11, e)),
     telemetry_messenger_start = (\<lambda>h s e. (True, [(TELEMETRY_MESSENGER_STATE_STOPPED, TELEMETRY_MESSENGER_STATE_STARTED)], e)),
     telemetry_messenger_stop = (\<lambda>h e. (True, [(TELEMETRY_MESSENGER_STATE_STARTED, TELEMETRY_MESSENGER_STATE_STOPPED)], e)),
     telemetry_messenger_do_work = (\<lambda>h e. ([], e)), telemetry_messenger_destroy = (\<lambda>h e. ([], e)),
     telemetry_messenger_send_async = (\<lambda>h m c e. (True, e)),
     telemetry_messenger_get_send_status = (\<lambda>h e. (Some TELEMETRY_MESSENGER_SEND_STATUS_IDLE, e)),
     telemetry_messenger_subscribe_for_messages = (\<lambda>h e. (True, e)),
     telemetry_messenger_unsubscribe_for_messages = (\<lambda>h e. (True, e)),
     telemetry_messenger_send_message_disposition = (\<lambda>h i r e. (True, e)),
     telemetry_messenger_set_timeout = (\<lambda>h n e. (True, e)),
     telemetry_messenger_feed_options = (\<lambda>h mo e. (True, e)),
     telemetry_messenger_retrieve_options = (\<lambda>h e. (Some 0, e)),
     twin_messenger_create = (\<lambda>i m h e. (Some 12, e)),
     twin_messenger_start = (\<lambda>h s e. (True, [(TWIN_MESSENGER_STATE_STOPPED, TWIN_MESSENGER_STATE_STARTED)], e)),
     twin_messenger_stop = (\<lambda>h e. (True, [(TWIN_MESSENGER_STATE_STARTED, TWIN_MESSENGER_STATE_STOPPED)], e)),
     twin_messenger_do_work = (\<lambda>h e. ([], e)), twin_messenger_destroy = (\<lambda>h e. ([], e)),
     twin_messenger_report_state_async = (\<lambda>h b c e. (True, e)),
     twin_messenger_subscribe = (\<lambda>h e. (True, e)), twin_messenger_unsubscribe = (\<lambda>h e. (True, e)),
     twin_messenger_get_twin_async = (\<lambda>h c e. (True, e)),
     delivery_number = (\<lambda>n. n), tickcounter_create = (\<lambda>e. (True, e)),
     tickcounter_get_current_ms = (\<lambda>e. (Some 7000, e))\<rparr>"

definition example_device_config :: AMQP_DEVICE_CONFIG where
  "example_device_config = \<lparr>cfg_iothub_host_fqdn = Some ''h'', cfg_authentication_mode = DEVICE_AUTH_MODE_CBS,
     cfg_on_state_changed_callback = True, cfg_has_authorization = True\<rparr>"

definition example_device :: DEVICE_INSTANCE where
  "example_device = the (fst (amqp_device_create script_os example_services example_messengers
     (Some example_device_config) (plain_env\<lparr>clock := [10, 20]\<rparr>)))"

lemmas example_device_simps =
  example_device_def amqp_device_create_def create_modules_def example_device_config_def clone_device_config_def
  create_authentication_instance_def authentication_create_def example_services_def example_messengers_def
  script_os_def plain_env_def or_null_def malloc_of_def INDEFINITE_TIME_def

lemma example_device_created:
  "amqp_device_create script_os example_services example_messengers (Some example_device_config)
     (plain_env\<lparr>clock := [10, 20]\<rparr>) = (Some example_device, plain_env\<lparr>allocs := 5, clock := [10, 20]\<rparr>)"
  by (simp add: example_device_simps)

definition example_device_run :: "(DEVICE_INSTANCE \<times> DEVICE_INSTANCE) list \<times> (DEVICE_INSTANCE \<times> script) run" where
  "example_device_run = steps (device_step script_os example_services example_messengers)
     [DeviceStart (Some 1) (Some 2), DeviceWork, TokenCompleted True, DeviceWork, DeviceWork]
     (Done (example_device, plain_env\<lparr>allocs := 5, clock := [10, 20]\<rparr>))"
lemmas example_device_work =
  example_device_run_def example_device_simps example_run_simps device_step_def
  amqp_device_start_async_def amqp_device_do_work_def work_starting_def work_starting_auth_def
  work_starting_messenger_def work_starting_twin_messenger_def work_authentication_def
  work_messenger_def work_twin_messenger_def auth_called_def dev_update_state_def dev_report_def
  on_authentication_state_changed_callback_def on_messenger_state_changed_callback_def
  on_twin_messenger_state_changed_callback_def is_timeout_reached_def
  do_work_started_def verify_sas_token_refresh_timeout_def

definition started_transition :: "DEVICE_INSTANCE \<times> DEVICE_INSTANCE \<Rightarrow> bool" where
  "started_transition p \<longleftrightarrow> dev_state (fst p) = DEVICE_STATE_STARTING
     \<and> drop (length (dev_reports (fst p))) (dev_reports (snd p)) =
         [DeviceStateChanged DEVICE_STATE_STARTING DEVICE_STATE_STARTED]"

lemma example_device_run_end:
  "(case snd example_device_run of Done (d, e) \<Rightarrow> dev_reports d =
     [DeviceStateChanged DEVICE_STATE_STOPPED DEVICE_STATE_STARTING, MessengerStart 11,
      TwinMessengerStart 12, DeviceStateChanged DEVICE_STATE_STARTING DEVICE_STATE_STARTED]
     | _ \<Rightarrow> False)
   \<and> started_transition (last (fst example_device_run)) \<and> fst example_device_run \<noteq> []"
  by (simp add: example_device_work started_transition_def)
text \<open>A device that has been asked to start, and one whose authentication has been started at 10.\<close>

definition example_starting :: DEVICE_INSTANCE where
  "example_starting = dev_update_state DEVICE_STATE_STARTING example_device"

definition example_waiting_run :: "(DEVICE_INSTANCE \<times> DEVICE_INSTANCE) list \<times> (DEVICE_INSTANCE \<times> script) run" where
  "example_waiting_run = steps (device_step script_os example_services example_messengers)
     [DeviceStart (Some 1) (Some 2), DeviceWork] (Done (example_device, plain_env\<lparr>allocs := 5, clock := [10]\<rparr>))"

definition example_waiting :: DEVICE_INSTANCE where
  "example_waiting = fst (result_of (snd example_waiting_run))"

lemma example_device_ok: "device_ok example_device"
  by (rule create_device_ok [OF example_device_created])

lemma example_starting_ok: "device_ok example_starting"
  using example_device_ok by (simp add: example_starting_def device_ok_def device_path_of_append example_device_simps)

lemma example_waiting_Done: "\<exists>e. snd example_waiting_run = Done (example_waiting, e)"
  by (simp add: example_waiting_def example_waiting_run_def example_device_work)

lemma example_waiting_ok: "device_ok example_waiting"
proof -
  have "device_inv (Done (example_device, plain_env\<lparr>allocs := 5, clock := [10]\<rparr>))"
    using example_device_ok by (simp add: device_inv_def)
  from device_runs.steps_inv [OF this, of script_os example_services example_messengers
      "[DeviceStart (Some 1) (Some 2), DeviceWork]"] example_waiting_Done
  show ?thesis by (auto simp: device_inv_def example_waiting_run_def)
qed

lemma example_waiting_fields:
  "dev_state example_waiting = DEVICE_STATE_STARTING
   \<and> authentication_mode example_waiting = DEVICE_AUTH_MODE_CBS
   \<and> auth_state example_waiting = AUTHENTICATION_STATE_STARTING
   \<and> auth_state_last_changed_time example_waiting = 10 \<and> auth_state_change_timeout_secs example_waiting = 60
   \<and> (\<exists>d e. amqp_device_do_work script_os example_services example_messengers (Some example_waiting)
        (plain_env\<lparr>clock := [80]\<rparr>) = Done (Some d, e))"
  by (simp add: example_waiting_def example_waiting_run_def example_device_work
      DEFAULT_AUTH_STATE_CHANGED_TIMEOUT_SECS_def DEFAULT_CBS_REQUEST_TIMEOUT_SECS_def)

theorem device_reports_track_state_witness:
  "\<exists>d e. snd example_device_run = Done (d, e)
     \<and> device_path_of DEVICE_STATE_STOPPED (dev_reports d) = Some (dev_state d)
     \<and> last (dev_reports d) = DeviceStateChanged DEVICE_STATE_STARTING DEVICE_STATE_STARTED"
proof (cases "snd example_device_run")
  case (Done p)
  obtain d e where p: "p = (d, e)" by (cases p)
  have "last (dev_reports d) = DeviceStateChanged DEVICE_STATE_STARTING DEVICE_STATE_STARTED"
    using example_device_run_end unfolding Done p by simp
  moreover from device_reports_track_state [OF example_device_created] Done p
  have "device_path_of DEVICE_STATE_STOPPED (dev_reports d) = Some (dev_state d)"
    unfolding example_device_run_def by blast
  ultimately show ?thesis using Done p by blast
qed (use example_device_run_end in simp_all)

theorem device_starts_after_its_parts_witness:
  "msgr_state (fst (last (fst example_device_run))) = TELEMETRY_MESSENGER_STATE_STARTED
   \<and> twin_msgr_state (fst (last (fst example_device_run))) = TWIN_MESSENGER_STATE_STARTED"
proof -
  let ?p = "last (fst example_device_run)"
  have "(fst ?p, snd ?p) \<in> set (fst example_device_run)" using example_device_run_end by simp
  moreover have "DeviceStateChanged DEVICE_STATE_STARTING DEVICE_STATE_STARTED
      \<in> set (drop (length (dev_reports (fst ?p))) (dev_reports (snd ?p)))"
    using example_device_run_end by (simp add: started_transition_def)
  ultimately show ?thesis
    using device_starts_after_its_parts [OF example_device_created] unfolding example_device_run_def by blast
qed

theorem device_stop_resolves_witness:
  "\<exists>d e. amqp_device_stop script_os example_messengers (Some example_starting) plain_env = (True, Some d, e)
     \<and> dev_state d = DEVICE_STATE_STOPPED"
proof -
  have "\<exists>d e. amqp_device_stop script_os example_messengers (Some example_starting) plain_env = (True, Some d, e)"
    by (simp add: amqp_device_stop_def internal_device_stop_def stop_messenger_def stop_twin_messenger_def
        stop_authentication_def example_starting_def example_device_simps)
  then obtain d e where s: "amqp_device_stop script_os example_messengers (Some example_starting) plain_env = (True, Some d, e)"
    by blast
  from device_stop_resolves [OF example_starting_ok _ s] s show ?thesis by (auto simp: example_starting_def)
qed

theorem delayed_stop_waits_witness:
  "\<exists>d e. amqp_device_delayed_stop example_messengers (Some example_starting) 5 plain_env = (True, Some d, e)
     \<and> work_stopping script_os example_messengers d plain_env = (d, plain_env)"
proof -
  have "\<exists>d. amqp_device_delayed_stop example_messengers (Some example_starting) 5 plain_env = (True, Some d, plain_env)"
    by (simp add: amqp_device_delayed_stop_def example_messengers_def example_starting_def)
  then obtain d where s: "amqp_device_delayed_stop example_messengers (Some example_starting) 5 plain_env
      = (True, Some d, plain_env)" by blast
  have t: "tickcounter_get_current_ms example_messengers plain_env = (Some 7000, plain_env)"
    by (simp add: example_messengers_def)
  from delayed_stop_waits [OF example_starting_ok s _ t t] s show ?thesis by auto
qed

theorem start_times_out_witness:
  "\<exists>d e. amqp_device_do_work script_os example_services example_messengers (Some example_waiting)
     (plain_env\<lparr>clock := [80]\<rparr>) = Done (Some d, e) \<and> dev_state d = DEVICE_STATE_ERROR_AUTH_TIMEOUT"
proof -
  from example_waiting_fields obtain d e where w: "amqp_device_do_work script_os example_services example_messengers
      (Some example_waiting) (plain_env\<lparr>clock := [80]\<rparr>) = Done (Some d, e)" by blast
  have "os_time script_os (plain_env\<lparr>clock := [80]\<rparr>) = (80, plain_env\<lparr>clock := [80]\<rparr>)"
    by (simp add: script_os_def plain_env_def)
  from start_times_out [OF example_waiting_ok _ this _ w] example_waiting_fields w show ?thesis
    by (auto simp: INDEFINITE_TIME_def)
qed

end
