(* ===== verification/EdmTypes.thy ===== *)
theory EdmTypes
  imports MultiTree "HOL-Library.Signed_Division"
begin

text \<open>
  The type system of the serializer, data and constructors (serializer/src/agenttypesystem.c): the
  primitive types of EDM and complex types built of named members, one constructor of the datatype
  for each member of the union; the Create functions with their checks, copies, and what is
  released when a value is destroyed. A Create function that fails leaves in its destination what no
  caller reads, so the model answers the error alone.
\<close>

section \<open>Data\<close>

datatype AGENT_DATA_TYPES_RESULT =
  AGENT_DATA_TYPES_OK | AGENT_DATA_TYPES_ERROR | AGENT_DATA_TYPES_INVALID_ARG
| AGENT_DATA_TYPES_NOT_IMPLEMENTED | AGENT_DATA_TYPES_JSON_ENCODER_ERRROR

datatype AGENT_DATA_TYPE_TYPE =
  EDM_NO_TYPE | EDM_BINARY_TYPE | EDM_BOOLEAN_TYPE | EDM_BYTE_TYPE | EDM_DATE_TYPE
| EDM_DATE_TIME_OFFSET_TYPE | EDM_DECIMAL_TYPE | EDM_DOUBLE_TYPE | EDM_DURATION_TYPE
| EDM_GUID_TYPE | EDM_INT16_TYPE | EDM_INT32_TYPE | EDM_INT64_TYPE | EDM_SBYTE_TYPE
| EDM_SINGLE_TYPE | EDM_STREAM | EDM_STRING_TYPE | EDM_TIME_OF_DAY_TYPE | EDM_GEOGRAPHY_TYPE
| EDM_GEOGRAPHY_POINT_TYPE | EDM_GEOGRAPHY_LINE_STRING_TYPE | EDM_GEOGRAPHY_POLYGON_TYPE
| EDM_GEOGRAPHY_MULTI_POINT_TYPE | EDM_GEOGRAPHY_MULTI_LINE_STRING_TYPE
| EDM_GEOGRAPHY_MULTI_POLYGON_TYPE | EDM_GEOGRAPHY_COLLECTION_TYPE | EDM_GEOMETRY_TYPE
| EDM_GEOMETRY_POINT_TYPE | EDM_GEOMETRY_LINE_STRING_TYPE | EDM_GEOMETRY_POLYGON_TYPE
| EDM_GEOMETRY_MULTI_POINT_TYPE | EDM_GEOMETRY_MULTI_LINE_STRING_TYPE
| EDM_GEOMETRY_MULTI_POLYGON_TYPE | EDM_GEOMETRY_COLLECTION_TYPE | EDM_COMPLEX_TYPE_TYPE
| EDM_NULL_TYPE | EDM_ENTITY_TYPE_TYPE | EDM_STRING_NO_QUOTES_TYPE

datatype EDM_BOOLEANS = EDM_TRUE | EDM_FALSE

record EDM_DATE =
  date_year :: "16 word"
  date_month :: "8 word"
  date_day :: "8 word"

record tm =
  tm_sec :: "32 word"
  tm_min :: "32 word"
  tm_hour :: "32 word"
  tm_mday :: "32 word"
  tm_mon :: "32 word"
  tm_year :: "32 word"
  tm_wday :: "32 word"
  tm_yday :: "32 word"
  tm_isdst :: "32 word"

record EDM_DATE_TIME_OFFSET =
  dateTime :: tm
  hasFractionalSecond :: bool
  fractionalSecond :: "64 word"
  hasTimeZone :: bool
  timeZoneHour :: "8 word"
  timeZoneMinute :: "8 word"

text \<open>
  A float or a double: not a number, an infinity with its sign bit, or a sign bit, a mantissa
  and a binary exponent.
\<close>

datatype c_float = FNaN | FInf bool | FFinite bool nat int

text \<open>
  A value with its type. The three types that are unions of nothing but their tag are
  \<open>edmNoType\<close>, \<open>edmNull\<close>, and \<open>edmOther\<close> for a type that no function of the file creates. EDM\_GUID is
  its 16 bytes, EDM\_BINARY its bytes (no data when there are none), EDM\_STRING its characters, a
  complex type its fields in order.
\<close>

datatype 'st AGENT_DATA_TYPE =
  edmNoType
| edmNull
| edmBoolean EDM_BOOLEANS
| edmByte "8 word"
| edmDate EDM_DATE
| edmDateTimeOffset EDM_DATE_TIME_OFFSET
| edmDecimal 'st
| edmDouble c_float
| edmGuid "8 word list"
| edmBinary "8 word list"
| edmInt16 "16 word"
| edmInt32 "32 word"
| edmInt64 "64 word"
| edmSbyte "8 word"
| edmSingle c_float
| edmString string
| edmStringNoQuotes string
| edmComplexType "(string \<times> 'st AGENT_DATA_TYPE) list"
| edmOther AGENT_DATA_TYPE_TYPE

text \<open>
  What the type system uses of the string library besides the operations of \<open>string_api\<close>, and of the
  platform: the width of long, the constant DECIMAL\_DIG, and the conversions strtod and strtof,
  whose rounding the language leaves to the implementation. They answer the value, whether
  anything was converted, and whether errno is set afterwards.
\<close>

record ('st, 'e) edm_api = "('st, 'e) string_api" +
  STRING_construct_n :: "string \<Rightarrow> nat \<Rightarrow> 'e \<Rightarrow> 'st option \<times> 'e"
  STRING_clone :: "'st \<Rightarrow> 'e \<Rightarrow> 'st option \<times> 'e"
  LONG_BITS :: nat
  DECIMAL_DIG :: nat
  strtod :: "string \<Rightarrow> c_float \<times> bool \<times> bool"
  strtof :: "string \<Rightarrow> c_float \<times> bool \<times> bool"

section \<open>Values from values\<close>

text \<open>
  The Create functions answer a value or an error; the flag \<open>agentData\<close> says that the
  destination is not NULL.
\<close>

type_synonym 'st created = "AGENT_DATA_TYPES_RESULT + 'st AGENT_DATA_TYPE"

definition Create_EDM_BOOLEAN_from_int :: "bool \<Rightarrow> 32 word \<Rightarrow> 'st created" where
  "Create_EDM_BOOLEAN_from_int agentData v =
     (if \<not> agentData then Inl AGENT_DATA_TYPES_INVALID_ARG
      else Inr (edmBoolean (if v \<noteq> 0 then EDM_TRUE else EDM_FALSE)))"

definition Create_AGENT_DATA_TYPE_from_UINT8 :: "bool \<Rightarrow> 8 word \<Rightarrow> 'st created" where
  "Create_AGENT_DATA_TYPE_from_UINT8 agentData v =
     (if \<not> agentData then Inl AGENT_DATA_TYPES_INVALID_ARG else Inr (edmByte v))"

definition Create_AGENT_DATA_TYPE_from_DOUBLE :: "bool \<Rightarrow> c_float \<Rightarrow> 'st created" where
  "Create_AGENT_DATA_TYPE_from_DOUBLE agentData v =
     (if \<not> agentData then Inl AGENT_DATA_TYPES_INVALID_ARG else Inr (edmDouble v))"

definition Create_AGENT_DATA_TYPE_from_FLOAT :: "bool \<Rightarrow> c_float \<Rightarrow> 'st created" where
  "Create_AGENT_DATA_TYPE_from_FLOAT agentData v =
     (if \<not> agentData then Inl AGENT_DATA_TYPES_INVALID_ARG else Inr (edmSingle v))"

definition Create_AGENT_DATA_TYPE_from_SINT16 :: "bool \<Rightarrow> 16 word \<Rightarrow> 'st created" where
  "Create_AGENT_DATA_TYPE_from_SINT16 agentData v =
     (if \<not> agentData then Inl AGENT_DATA_TYPES_INVALID_ARG else Inr (edmInt16 v))"

definition Create_AGENT_DATA_TYPE_from_SINT32 :: "bool \<Rightarrow> 32 word \<Rightarrow> 'st created" where
  "Create_AGENT_DATA_TYPE_from_SINT32 agentData v =
     (if \<not> agentData then Inl AGENT_DATA_TYPES_INVALID_ARG else Inr (edmInt32 v))"

definition Create_AGENT_DATA_TYPE_from_SINT64 :: "bool \<Rightarrow> 64 word \<Rightarrow> 'st created" where
  "Create_AGENT_DATA_TYPE_from_SINT64 agentData v =
     (if \<not> agentData then Inl AGENT_DATA_TYPES_INVALID_ARG else Inr (edmInt64 v))"

definition Create_AGENT_DATA_TYPE_from_SINT8 :: "bool \<Rightarrow> 8 word \<Rightarrow> 'st created" where
  "Create_AGENT_DATA_TYPE_from_SINT8 agentData v =
     (if \<not> agentData then Inl AGENT_DATA_TYPES_INVALID_ARG else Inr (edmSbyte v))"

definition Create_NULL_AGENT_DATA_TYPE :: "bool \<Rightarrow> 'st created" where
  "Create_NULL_AGENT_DATA_TYPE agentData =
     (if \<not> agentData then Inl AGENT_DATA_TYPES_INVALID_ARG else Inr edmNull)"

definition Create_AGENT_DATA_TYPE_from_EDM_GUID :: "bool \<Rightarrow> 8 word list \<Rightarrow> 'st created" where
  "Create_AGENT_DATA_TYPE_from_EDM_GUID agentData v =
     (if \<not> agentData then Inl AGENT_DATA_TYPES_INVALID_ARG else Inr (edmGuid (take 16 v)))"

text \<open>An EDM\_BINARY argument is its data, which may be NULL, and its size.\<close>

definition Create_AGENT_DATA_TYPE_from_EDM_BINARY ::
  "('e, 'm) os_scheme \<Rightarrow> bool \<Rightarrow> 8 word list option \<Rightarrow> nat \<Rightarrow> 'e \<Rightarrow> 'st created \<times> 'e" where
  "Create_AGENT_DATA_TYPE_from_EDM_BINARY os agentData v_data v_size e =
     (if \<not> agentData then (Inl AGENT_DATA_TYPES_INVALID_ARG, e)
      else case v_data of
        None \<Rightarrow>
          if v_size \<noteq> 0 then (Inl AGENT_DATA_TYPES_INVALID_ARG, e) else (Inr (edmBinary []), e)
      | Some bytes \<Rightarrow>
          if v_size \<noteq> 0 then
            (case os_malloc os e of (ok, e) \<Rightarrow>
               if \<not> ok then (Inl AGENT_DATA_TYPES_ERROR, e)
               else (Inr (edmBinary (take v_size bytes)), e))
          else (Inl AGENT_DATA_TYPES_INVALID_ARG, e))"

definition Create_AGENT_DATA_TYPE_from_charz ::
  "('e, 'm) os_scheme \<Rightarrow> bool \<Rightarrow> string option \<Rightarrow> 'e \<Rightarrow> 'st created \<times> 'e" where
  "Create_AGENT_DATA_TYPE_from_charz os agentData v e =
     (case (agentData, v) of
        (True, Some s) \<Rightarrow>
          (case os_malloc os e of (ok, e) \<Rightarrow>
             if \<not> ok then (Inl AGENT_DATA_TYPES_ERROR, e) else (Inr (edmString s), e))
      | _ \<Rightarrow> (Inl AGENT_DATA_TYPES_INVALID_ARG, e))"

definition Create_AGENT_DATA_TYPE_from_charz_no_quotes ::
  "('e, 'm) os_scheme \<Rightarrow> bool \<Rightarrow> string option \<Rightarrow> 'e \<Rightarrow> 'st created \<times> 'e" where
  "Create_AGENT_DATA_TYPE_from_charz_no_quotes os agentData v e =
     (case (agentData, v) of
        (True, Some s) \<Rightarrow>
          (case os_malloc os e of (ok, e) \<Rightarrow>
             if \<not> ok then (Inl AGENT_DATA_TYPES_ERROR, e) else (Inr (edmStringNoQuotes s), e))
      | _ \<Rightarrow> (Inl AGENT_DATA_TYPES_INVALID_ARG, e))"

section \<open>Dates\<close>

text \<open>ValidateDate answers 0 for a valid date; % is the remainder of C, which has the sign of its
  left operand.\<close>

definition ValidateDate :: "int \<Rightarrow> int \<Rightarrow> int \<Rightarrow> int" where
  "ValidateDate year month day =
     (if year \<le> -10000 \<or> 10000 \<le> year then 1
      else if day \<le> 0 then 1
      else if month = 1 \<or> month = 3 \<or> month = 5 \<or> month = 7 \<or> month = 8 \<or> month = 10 \<or> month = 12 then
        if day \<le> 31 then 0 else 1
      else if month = 4 \<or> month = 6 \<or> month = 9 \<or> month = 11 then
        if day \<le> 30 then 0 else -1
      else if month = 2 then
        if year smod 400 = 0 then (if day \<le> 29 then 0 else 1)
        else if year smod 100 = 0 then (if day \<le> 28 then 0 else 1)
        else if year smod 4 = 0 then (if day \<le> 29 then 0 else 1)
        else (if day \<le> 28 then 0 else 1)
      else 1)"

definition Create_AGENT_DATA_TYPE_from_date ::
  "bool \<Rightarrow> 16 word \<Rightarrow> 8 word \<Rightarrow> 8 word \<Rightarrow> 'st created" where
  "Create_AGENT_DATA_TYPE_from_date agentData y m d =
     (if \<not> agentData then Inl AGENT_DATA_TYPES_INVALID_ARG
      else if ValidateDate (sint y) (uint m) (uint d) \<noteq> 0 then Inl AGENT_DATA_TYPES_INVALID_ARG
      else Inr (edmDate \<lparr>date_year = y, date_month = m, date_day = d\<rparr>))"

text \<open>The additions to the fields of struct tm are 32-bit additions.\<close>

definition Create_AGENT_DATA_TYPE_from_EDM_DATE_TIME_OFFSET ::
  "bool \<Rightarrow> EDM_DATE_TIME_OFFSET \<Rightarrow> 'st created" where
  "Create_AGENT_DATA_TYPE_from_EDM_DATE_TIME_OFFSET agentData v =
     (if \<not> agentData then Inl AGENT_DATA_TYPES_INVALID_ARG
      else if ValidateDate (sint (tm_year (dateTime v) + 1900)) (sint (tm_mon (dateTime v) + 1))
                (sint (tm_mday (dateTime v))) \<noteq> 0 then Inl AGENT_DATA_TYPES_INVALID_ARG
      else if 23 < sint (tm_hour (dateTime v)) \<or> sint (tm_hour (dateTime v)) < 0
            \<or> 59 < sint (tm_min (dateTime v)) \<or> sint (tm_min (dateTime v)) < 0
            \<or> 59 < sint (tm_sec (dateTime v)) \<or> sint (tm_sec (dateTime v)) < 0 then
        Inl AGENT_DATA_TYPES_INVALID_ARG
      else if hasFractionalSecond v \<and> 999999999999 < uint (fractionalSecond v) then
        Inl AGENT_DATA_TYPES_INVALID_ARG
      else if hasTimeZone v \<and> (sint (timeZoneHour v) < -23 \<or> 23 < sint (timeZoneHour v)
            \<or> 59 < uint (timeZoneMinute v)) then Inl AGENT_DATA_TYPES_INVALID_ARG
      else Inr (edmDateTimeOffset v))"

section \<open>Decimals\<close>

text \<open>
  The scanners take the text, its size and a position, and answer the new position. Positions
  below the size are inside the text.
\<close>

definition scanOptionalSign :: "string \<Rightarrow> nat \<Rightarrow> nat \<Rightarrow> int \<Rightarrow> nat \<times> int" where
  "scanOptionalSign source sourceSize position sign =
     (if position < sourceSize then
        if source ! position = CHR ''-'' then (Suc position, -1)
        else if source ! position = CHR ''+'' then (Suc position, 1)
        else (position, 1)
      else (position, sign))"

text \<open>The answer 0 of the code is True here.\<close>

definition scanMandatoryOneDigit :: "string \<Rightarrow> nat \<Rightarrow> nat \<Rightarrow> bool \<times> nat" where
  "scanMandatoryOneDigit source sourceSize position =
     (if position < sourceSize \<and> ISDIGIT (source ! position) then (True, Suc position)
      else (False, position))"

function scanOptionalNDigits :: "string \<Rightarrow> nat \<Rightarrow> nat \<Rightarrow> nat" where
  "scanOptionalNDigits source sourceSize position =
     (if position < sourceSize then
        if ISDIGIT (source ! position) then scanOptionalNDigits source sourceSize (Suc position)
        else position
      else position)"
  by pat_completeness auto
termination by (relation "measure (\<lambda>(s, n, p). n - p)") auto

declare scanOptionalNDigits.simps [simp del]

definition scanOptionalDotAndDigits :: "string \<Rightarrow> nat \<Rightarrow> nat \<Rightarrow> bool \<times> nat" where
  "scanOptionalDotAndDigits source sourceSize position =
     (if position < sourceSize \<and> source ! position = CHR ''.'' then
        (case scanMandatoryOneDigit source sourceSize (Suc position) of
           (ok, position) \<Rightarrow> if \<not> ok then (False, position)
                            else (True, scanOptionalNDigits source sourceSize position))
      else (True, position))"

definition ValidateDecimal :: "string \<Rightarrow> nat \<Rightarrow> bool" where
  "ValidateDecimal v vlen =
     (case scanOptionalSign v vlen 0 0 of (p, sign) \<Rightarrow>
      case scanMandatoryOneDigit v vlen p of (ok, p) \<Rightarrow>
      if \<not> ok then False
      else case scanOptionalDotAndDigits v vlen (scanOptionalNDigits v vlen p) of (ok, p) \<Rightarrow>
      if \<not> ok then False
      else if p \<noteq> vlen then False
      else True)"

definition Create_EDM_DECIMAL_from_charz ::
  "('st, 'e, 'm) edm_api_scheme \<Rightarrow> bool \<Rightarrow> string option \<Rightarrow> 'e \<Rightarrow> 'st created \<times> 'e" where
  "Create_EDM_DECIMAL_from_charz api agentData v e =
     (case (agentData, v) of
        (True, Some s) \<Rightarrow>
          if length s = 0 then (Inl AGENT_DATA_TYPES_INVALID_ARG, e)
          else if \<not> ValidateDecimal s (length s) then (Inl AGENT_DATA_TYPES_INVALID_ARG, e)
          else (case STRING_construct api s e of
                  (None, e) \<Rightarrow> (Inl AGENT_DATA_TYPES_ERROR, e)
                | (Some st, e) \<Rightarrow> (Inr (edmDecimal st), e))
      | _ \<Rightarrow> (Inl AGENT_DATA_TYPES_INVALID_ARG, e))"

section \<open>Copies and complex types\<close>

text \<open>
  The loop over the fields of a complex type: the name is copied, the value allocated, then
  copied. Each field comes with the copying of its value.
\<close>

fun copy_fields ::
  "('e, 'm) os_scheme \<Rightarrow> (string \<times> ('e \<Rightarrow> 'st created \<times> 'e)) list \<Rightarrow> 'e
     \<Rightarrow> (string \<times> 'st AGENT_DATA_TYPE) list option \<times> 'e" where
  "copy_fields os [] e = (Some [], e)"
| "copy_fields os ((fieldName, copy) # rest) e =
     (case os_malloc os e of (ok, e) \<Rightarrow>
      if \<not> ok then (None, e)
      else case os_malloc os e of (ok, e) \<Rightarrow>
      if \<not> ok then (None, e)
      else case copy e of
        (Inl r, e) \<Rightarrow> (None, e)
      | (Inr v, e) \<Rightarrow>
          (case copy_fields os rest e of
             (None, e) \<Rightarrow> (None, e)
           | (Some fs, e) \<Rightarrow> (Some ((fieldName, v) # fs), e)))"

text \<open>The copy of a complex value: the array of fields, then the fields.\<close>

definition copy_complex ::
  "('e, 'm) os_scheme \<Rightarrow> (string \<times> ('e \<Rightarrow> 'st created \<times> 'e)) list \<Rightarrow> 'e \<Rightarrow> 'st created \<times> 'e" where
  "copy_complex os fs e =
     (if length fs = 0 then (Inl AGENT_DATA_TYPES_INVALID_ARG, e)
      else case os_malloc os e of (ok, e) \<Rightarrow>
      if \<not> ok then (Inl AGENT_DATA_TYPES_ERROR, e)
      else case copy_fields os fs e of
        (None, e) \<Rightarrow> (Inl AGENT_DATA_TYPES_ERROR, e)
      | (Some gs, e) \<Rightarrow> (Inr (edmComplexType gs), e))"

definition copy_binary :: "('e, 'm) os_scheme \<Rightarrow> 8 word list \<Rightarrow> 'e \<Rightarrow> 'st created \<times> 'e" where
  "copy_binary os bytes e =
     (if length bytes = 0 then (Inr (edmBinary []), e)
      else case os_malloc os e of (ok, e) \<Rightarrow>
      if \<not> ok then (Inl AGENT_DATA_TYPES_ERROR, e) else (Inr (edmBinary bytes), e))"

text \<open>
  Create\_AGENT\_DATA\_TYPE\_from\_AGENT\_DATA\_TYPE on arguments that are not NULL. The recursive
  call on the value of a field is what \<open>copy_complex\<close> runs when it reaches the field.
\<close>

primrec copy_value ::
  "('st, 'e, 'n) edm_api_scheme \<Rightarrow> ('e, 'm) os_scheme \<Rightarrow> 'st AGENT_DATA_TYPE \<Rightarrow> 'e
     \<Rightarrow> 'st created \<times> 'e" where
  "copy_value api os edmNoType = (\<lambda>e. (Inr edmNoType, e))"
| "copy_value api os edmNull = (\<lambda>e. (Inr edmNull, e))"
| "copy_value api os (edmBoolean b) = (\<lambda>e. (Inr (edmBoolean b), e))"
| "copy_value api os (edmByte v) = (\<lambda>e. (Inr (edmByte v), e))"
| "copy_value api os (edmDate v) = (\<lambda>e. (Inr (edmDate v), e))"
| "copy_value api os (edmDateTimeOffset v) = (\<lambda>e. (Inr (edmDateTimeOffset v), e))"
| "copy_value api os (edmDecimal st) = (\<lambda>e.
     case STRING_clone api st e of
       (None, e) \<Rightarrow> (Inl AGENT_DATA_TYPES_ERROR, e)
     | (Some st, e) \<Rightarrow> (Inr (edmDecimal st), e))"
| "copy_value api os (edmDouble v) = (\<lambda>e. (Inr (edmDouble v), e))"
| "copy_value api os (edmGuid v) = (\<lambda>e. (Inr (edmGuid v), e))"
| "copy_value api os (edmBinary v) = copy_binary os v"
| "copy_value api os (edmInt16 v) = (\<lambda>e. (Inr (edmInt16 v), e))"
| "copy_value api os (edmInt32 v) = (\<lambda>e. (Inr (edmInt32 v), e))"
| "copy_value api os (edmInt64 v) = (\<lambda>e. (Inr (edmInt64 v), e))"
| "copy_value api os (edmSbyte v) = (\<lambda>e. (Inr (edmSbyte v), e))"
| "copy_value api os (edmSingle v) = (\<lambda>e. (Inr (edmSingle v), e))"
| "copy_value api os (edmString s) = (\<lambda>e.
     case os_malloc os e of (ok, e) \<Rightarrow>
       if \<not> ok then (Inl AGENT_DATA_TYPES_ERROR, e) else (Inr (edmString s), e))"
| "copy_value api os (edmStringNoQuotes s) = (\<lambda>e.
     case os_malloc os e of (ok, e) \<Rightarrow>
       if \<not> ok then (Inl AGENT_DATA_TYPES_ERROR, e) else (Inr (edmStringNoQuotes s), e))"
| "copy_value api os (edmComplexType fs) =
     copy_complex os (map (map_prod id (copy_value api os)) fs)"
| "copy_value api os (edmOther t) = (\<lambda>e. (Inl AGENT_DATA_TYPES_NOT_IMPLEMENTED, e))"

definition Create_AGENT_DATA_TYPE_from_AGENT_DATA_TYPE ::
  "('st, 'e, 'n) edm_api_scheme \<Rightarrow> ('e, 'm) os_scheme \<Rightarrow> bool \<Rightarrow> 'st AGENT_DATA_TYPE option \<Rightarrow> 'e
     \<Rightarrow> 'st created \<times> 'e" where
  "Create_AGENT_DATA_TYPE_from_AGENT_DATA_TYPE api os dest src e =
     (case (dest, src) of
        (True, Some v) \<Rightarrow> copy_value api os v e
      | _ \<Rightarrow> (Inl AGENT_DATA_TYPES_INVALID_ARG, e))"

fun isOneNameNULL :: "string option list \<Rightarrow> bool" where
  "isOneNameNULL [] = False"
| "isOneNameNULL (n # ns) = (if n = None then True else isOneNameNULL ns)"

text \<open>The outer loop; the inner one looks for the name among those that follow.\<close>

fun areThereTwoSameNames :: "string list \<Rightarrow> bool" where
  "areThereTwoSameNames [] = False"
| "areThereTwoSameNames (n # ns) = (if n \<in> set ns then True else areThereTwoSameNames ns)"

text \<open>The arrays of names and values are lists of the length nMembers, or NULL.\<close>

definition Create_AGENT_DATA_TYPE_from_Members ::
  "('st, 'e, 'n) edm_api_scheme \<Rightarrow> ('e, 'm) os_scheme \<Rightarrow> bool \<Rightarrow> string option \<Rightarrow> nat
     \<Rightarrow> string option list option \<Rightarrow> 'st AGENT_DATA_TYPE list option \<Rightarrow> 'e \<Rightarrow> 'st created \<times> 'e" where
  "Create_AGENT_DATA_TYPE_from_Members api os agentData typeName nMembers memberNames memberValues e =
     (if \<not> agentData then (Inl AGENT_DATA_TYPES_INVALID_ARG, e)
      else if typeName = None then (Inl AGENT_DATA_TYPES_INVALID_ARG, e)
      else if nMembers = 0 then (Inl AGENT_DATA_TYPES_INVALID_ARG, e)
      else case memberNames of None \<Rightarrow> (Inl AGENT_DATA_TYPES_INVALID_ARG, e)
      | Some names \<Rightarrow>
          if isOneNameNULL (take nMembers names) then (Inl AGENT_DATA_TYPES_INVALID_ARG, e)
          else (case memberValues of None \<Rightarrow> (Inl AGENT_DATA_TYPES_INVALID_ARG, e)
          | Some values \<Rightarrow>
              if areThereTwoSameNames (map the (take nMembers names)) then
                (Inl AGENT_DATA_TYPES_INVALID_ARG, e)
              else (case os_malloc os e of (ok, e) \<Rightarrow>
              if \<not> ok then (Inl AGENT_DATA_TYPES_ERROR, e)
              else (case copy_fields os (zip (map the (take nMembers names))
                           (map (copy_value api os) (take nMembers values))) e of
                (None, e) \<Rightarrow> (Inl AGENT_DATA_TYPES_ERROR, e)
              | (Some fs, e) \<Rightarrow> (Inr (edmComplexType fs), e)))))"

text \<open>The loop that copies the values behind the pointers, up to the first failure.\<close>

fun copy_pointers ::
  "('st, 'e, 'n) edm_api_scheme \<Rightarrow> ('e, 'm) os_scheme \<Rightarrow> 'st AGENT_DATA_TYPE option list \<Rightarrow> 'e
     \<Rightarrow> 'st AGENT_DATA_TYPE list option \<times> 'e" where
  "copy_pointers api os [] e = (Some [], e)"
| "copy_pointers api os (p # ps) e =
     (case Create_AGENT_DATA_TYPE_from_AGENT_DATA_TYPE api os True p e of
        (Inl r, e) \<Rightarrow> (None, e)
      | (Inr v, e) \<Rightarrow>
          (case copy_pointers api os ps e of
             (None, e) \<Rightarrow> (None, e) | (Some vs, e) \<Rightarrow> (Some (v # vs), e)))"

definition Create_AGENT_DATA_TYPE_from_MemberPointers ::
  "('st, 'e, 'n) edm_api_scheme \<Rightarrow> ('e, 'm) os_scheme \<Rightarrow> bool \<Rightarrow> string option \<Rightarrow> nat
     \<Rightarrow> string option list option \<Rightarrow> 'st AGENT_DATA_TYPE option list option \<Rightarrow> 'e \<Rightarrow> 'st created \<times> 'e" where
  "Create_AGENT_DATA_TYPE_from_MemberPointers api os agentData typeName nMembers memberNames
     memberPointerValues e =
     (case memberPointerValues of None \<Rightarrow> (Inl AGENT_DATA_TYPES_INVALID_ARG, e)
      | Some pointers \<Rightarrow>
          (case os_malloc os e of (ok, e) \<Rightarrow>
           if \<not> ok then (Inl AGENT_DATA_TYPES_ERROR, e)
           else (case copy_pointers api os (take nMembers pointers) e of
             (None, e) \<Rightarrow> (Inl AGENT_DATA_TYPES_ERROR, e)
           | (Some values, e) \<Rightarrow>
               Create_AGENT_DATA_TYPE_from_Members api os agentData typeName nMembers memberNames
                 (Some values) e)))"

text \<open>The field at an index, or NULL.\<close>

definition AgentDataType_GetComplexTypeField ::
  "('e, 'm) os_scheme \<Rightarrow> 'st AGENT_DATA_TYPE option \<Rightarrow> nat \<Rightarrow> 'e
     \<Rightarrow> (string \<times> 'st AGENT_DATA_TYPE) option \<times> 'e" where
  "AgentDataType_GetComplexTypeField os agentData index e =
     (case agentData of
        Some (edmComplexType fs) \<Rightarrow>
          if length fs \<le> index then (None, e)
          else (case os_malloc os e of (ok, e) \<Rightarrow> (if ok then Some (fs ! index) else None, e))
      | _ \<Rightarrow> (None, e))"

section \<open>Destruction\<close>

text \<open>What is handed back, in order: blocks with what they hold, and strings.\<close>

datatype 'st freed =
  FreedBytes "8 word list" | FreedChars string | FreedString 'st | FreedName string | FreedValue
| FreedFields

primrec Destroy_AGENT_DATA_TYPE :: "'st AGENT_DATA_TYPE \<Rightarrow> 'st freed list" where
  "Destroy_AGENT_DATA_TYPE edmNoType = []"
| "Destroy_AGENT_DATA_TYPE edmNull = []"
| "Destroy_AGENT_DATA_TYPE (edmBoolean b) = []"
| "Destroy_AGENT_DATA_TYPE (edmByte v) = []"
| "Destroy_AGENT_DATA_TYPE (edmDate v) = []"
| "Destroy_AGENT_DATA_TYPE (edmDateTimeOffset v) = []"
| "Destroy_AGENT_DATA_TYPE (edmDecimal st) = [FreedString st]"
| "Destroy_AGENT_DATA_TYPE (edmDouble v) = []"
| "Destroy_AGENT_DATA_TYPE (edmGuid v) = []"
| "Destroy_AGENT_DATA_TYPE (edmBinary v) = (if v = [] then [] else [FreedBytes v])"
| "Destroy_AGENT_DATA_TYPE (edmInt16 v) = []"
| "Destroy_AGENT_DATA_TYPE (edmInt32 v) = []"
| "Destroy_AGENT_DATA_TYPE (edmInt64 v) = []"
| "Destroy_AGENT_DATA_TYPE (edmSbyte v) = []"
| "Destroy_AGENT_DATA_TYPE (edmSingle v) = []"
| "Destroy_AGENT_DATA_TYPE (edmString s) = [FreedChars s]"
| "Destroy_AGENT_DATA_TYPE (edmStringNoQuotes s) = [FreedChars s]"
| "Destroy_AGENT_DATA_TYPE (edmComplexType fs) =
     concat (map (\<lambda>(n, released). FreedName n # released @ [FreedValue])
       (map (map_prod id Destroy_AGENT_DATA_TYPE) fs)) @ [FreedFields]"
| "Destroy_AGENT_DATA_TYPE (edmOther t) = []"

section \<open>The calendar\<close>

definition leap_year :: "int \<Rightarrow> bool" where
  "leap_year y \<longleftrightarrow> 400 dvd y \<or> 4 dvd y \<and> \<not> 100 dvd y"

definition days_in_month :: "int \<Rightarrow> int \<Rightarrow> int" where
  "days_in_month y m =
     (if m = 2 then if leap_year y then 29 else 28 else if m \<in> {4, 6, 9, 11} then 30 else 31)"

definition calendar_date :: "int \<Rightarrow> int \<Rightarrow> int \<Rightarrow> bool" where
  "calendar_date y m d \<longleftrightarrow>
     -10000 < y \<and> y < 10000 \<and> 1 \<le> m \<and> m \<le> 12 \<and> 1 \<le> d \<and> d \<le> days_in_month y m"

lemma smod_eq_0_iff: "a smod b = 0 \<longleftrightarrow> b dvd (a :: int)"
proof
  assume "a smod b = 0"
  then have "a = (a sdiv b) * b"
    using sdiv_mult_smod_eq [of a b] by simp
  then show "b dvd a" by (metis dvd_triv_right)
next
  assume "b dvd a"
  then show "a smod b = 0"
    by (auto simp: signed_modulo_int_def)
qed

lemma ValidateDate_spec: "ValidateDate y m d = 0 \<longleftrightarrow> calendar_date y m d"
proof -
  have "m = 1 \<or> m = 2 \<or> m = 3 \<or> m = 4 \<or> m = 5 \<or> m = 6 \<or> m = 7 \<or> m = 8 \<or> m = 9
      \<or> m = 10 \<or> m = 11 \<or> m = 12 \<or> m < 1 \<or> 12 < m"
    by presburger
  moreover have "400 dvd y \<Longrightarrow> 4 dvd y" and "400 dvd y \<Longrightarrow> 100 dvd y"
    by (auto elim!: dvd_trans [rotated])
  ultimately show ?thesis
    by (elim disjE)
      (auto simp: ValidateDate_def calendar_date_def days_in_month_def leap_year_def smod_eq_0_iff)
qed

section \<open>Decimals in the grammar\<close>

text \<open>decimalValue = [SIGN] 1*DIGIT ["." 1*DIGIT], as the comments of the code quote it.\<close>

definition digits :: "string \<Rightarrow> bool" where
  "digits s \<longleftrightarrow> s \<noteq> [] \<and> (\<forall>c \<in> set s. ISDIGIT c)"

definition unsigned_text :: "string \<Rightarrow> bool" where
  "unsigned_text t \<longleftrightarrow>
     (\<exists>ds fr. t = ds @ fr \<and> digits ds \<and> (fr = [] \<or> (\<exists>f. fr = CHR ''.'' # f \<and> digits f)))"

definition decimal_text :: "string \<Rightarrow> bool" where
  "decimal_text s \<longleftrightarrow>
     unsigned_text s \<or> (\<exists>u. (s = CHR ''-'' # u \<or> s = CHR ''+'' # u) \<and> unsigned_text u)"

text \<open>The scanners on the text that follows the position.\<close>

lemma scanOptionalNDigits_drop:
  assumes "p \<le> length s"
  shows "scanOptionalNDigits s (length s) p = p + length (takeWhile ISDIGIT (drop p s))"
  using assms
proof (induction "length s - p" arbitrary: p)
  case 0
  then show ?case by (simp add: scanOptionalNDigits.simps)
next
  case (Suc n)
  then have lt: "p < length s" by simp
  from Suc.hyps(2) have "n = length s - Suc p" by simp
  with Suc.hyps(1) lt have IH: "scanOptionalNDigits s (length s) (Suc p) =
      Suc p + length (takeWhile ISDIGIT (drop (Suc p) s))" by simp
  from lt have "drop p s = s ! p # drop (Suc p) s" by (simp add: Cons_nth_drop_Suc)
  with lt IH show ?case by (subst scanOptionalNDigits.simps) simp
qed

lemma takeWhile_all_iff: "length (takeWhile P xs) = length xs \<longleftrightarrow> (\<forall>x \<in> set xs. P x)"
  by (induction xs) auto

lemma unsigned_text_split:
  "unsigned_text t \<longleftrightarrow>
     (case t of [] \<Rightarrow> False
      | c # u \<Rightarrow> ISDIGIT c \<and> (case dropWhile ISDIGIT u of [] \<Rightarrow> True
                               | d # f \<Rightarrow> d = CHR ''.'' \<and> digits f))" (is "?L \<longleftrightarrow> ?R")
proof
  assume ?L
  then obtain ds fr where t: "t = ds @ fr" "digits ds" "fr = [] \<or> (\<exists>f. fr = CHR ''.'' # f \<and> digits f)"
    unfolding unsigned_text_def by blast
  then obtain c ds' where ds: "ds = c # ds'" by (cases ds) (auto simp: digits_def)
  have "\<forall>c \<in> set ds'. ISDIGIT c" and c: "ISDIGIT c" using t(2) ds by (auto simp: digits_def)
  then have "dropWhile ISDIGIT (ds' @ fr) = dropWhile ISDIGIT fr" by (induction ds') auto
  moreover have "dropWhile ISDIGIT fr = fr" using t(3) by (auto simp: ISDIGIT_def)
  ultimately show ?R using t ds c by (auto split: list.split)
next
  assume ?R
  then obtain c u where t: "t = c # u" "ISDIGIT c" and
    rest: "dropWhile ISDIGIT u = [] \<or> (\<exists>f. dropWhile ISDIGIT u = CHR ''.'' # f \<and> digits f)"
    by (auto split: list.splits)
  have "t = (c # takeWhile ISDIGIT u) @ dropWhile ISDIGIT u" using t by simp
  moreover have "digits (c # takeWhile ISDIGIT u)"
    using t(2) by (auto simp: digits_def dest: set_takeWhileD)
  ultimately show ?L using rest unfolding unsigned_text_def by blast
qed

lemma scanOptionalDotAndDigits_drop:
  assumes "p \<le> length s"
  shows "(case scanOptionalDotAndDigits s (length s) p of (ok, q) \<Rightarrow> ok \<and> q = length s) \<longleftrightarrow>
     (case drop p s of [] \<Rightarrow> True | d # f \<Rightarrow> d = CHR ''.'' \<and> digits f)"
proof (cases "drop p s")
  case Nil
  with assms show ?thesis by (simp add: scanOptionalDotAndDigits_def)
next
  case (Cons d f)
  then have lt: "p < length s" by (metis drop_all list.distinct(1) not_less)
  with Cons have d: "s ! p = d" and f: "drop (Suc p) s = f"
    by (auto simp: Cons_nth_drop_Suc [symmetric])
  show ?thesis
  proof (cases "f")
    case Nil
    with f lt have "length s = Suc p" by simp
    with Cons d Nil lt show ?thesis
      by (simp add: scanOptionalDotAndDigits_def scanMandatoryOneDigit_def digits_def)
  next
    case (Cons x g)
    with f have lt': "Suc p < length s" by (metis drop_all list.distinct(1) not_less)
    with f Cons have x: "s ! Suc p = x" and g: "drop (Suc (Suc p)) s = g"
      by (auto simp: Cons_nth_drop_Suc [symmetric])
    have len: "length s = Suc (Suc p) + length g" using g lt' by auto
    have "scanOptionalNDigits s (length s) (Suc (Suc p)) = Suc (Suc p) + length (takeWhile ISDIGIT g)"
      using lt' g by (simp add: scanOptionalNDigits_drop)
    then have "scanOptionalNDigits s (length s) (Suc (Suc p)) = length s \<longleftrightarrow> (\<forall>c \<in> set g. ISDIGIT c)"
      using len by (simp add: takeWhile_all_iff)
    with \<open>drop p s = d # f\<close> Cons d x lt lt' len show ?thesis
      by (auto simp: scanOptionalDotAndDigits_def scanMandatoryOneDigit_def digits_def)
  qed
qed

lemma scan_after_sign:
  assumes "p \<le> length s"
  shows "(case scanMandatoryOneDigit s (length s) p of (ok, q) \<Rightarrow> ok \<and>
       (case scanOptionalDotAndDigits s (length s) (scanOptionalNDigits s (length s) q) of
          (ok, q) \<Rightarrow> ok \<and> q = length s)) \<longleftrightarrow> unsigned_text (drop p s)"
proof (cases "drop p s")
  case Nil
  with assms show ?thesis by (simp add: scanMandatoryOneDigit_def unsigned_text_split)
next
  case (Cons c u)
  then have lt: "p < length s" by (metis drop_all list.distinct(1) not_less)
  with Cons have c: "s ! p = c" and u: "drop (Suc p) s = u"
    by (auto simp: Cons_nth_drop_Suc [symmetric])
  let ?q = "scanOptionalNDigits s (length s) (Suc p)"
  have q: "?q = Suc p + length (takeWhile ISDIGIT u)" using lt u by (simp add: scanOptionalNDigits_drop)
  have "drop ?q s = drop (length (takeWhile ISDIGIT u)) u"
    by (simp add: q u [symmetric] add.commute)
  then have "drop ?q s = dropWhile ISDIGIT u" by (simp add: dropWhile_eq_drop)
  moreover have "?q \<le> length s"
    using q lt u length_takeWhile_le [of ISDIGIT u] by auto
  ultimately show ?thesis
    using Cons c lt scanOptionalDotAndDigits_drop [of ?q s]
    by (auto simp: scanMandatoryOneDigit_def unsigned_text_split split: prod.splits)
qed

lemma ValidateDecimal_spec: "ValidateDecimal s (length s) \<longleftrightarrow> decimal_text s"
proof -
  obtain p sg where p: "scanOptionalSign s (length s) 0 0 = (p, sg)" by fastforce
  have "p \<le> length s" using p by (auto simp: scanOptionalSign_def Suc_le_eq split: if_splits)
  have "decimal_text s \<longleftrightarrow> unsigned_text (drop p s)"
  proof (cases s)
    case Nil
    with p show ?thesis by (auto simp: decimal_text_def scanOptionalSign_def)
  next
    case (Cons c u)
    have no_sign: "\<not> unsigned_text (CHR ''-'' # u)" "\<not> unsigned_text (CHR ''+'' # u)" for u
      by (auto simp: unsigned_text_split ISDIGIT_def)
    show ?thesis
    proof (cases "c = CHR ''-'' \<or> c = CHR ''+''")
      case True
      with p Cons have "drop p s = u" by (auto simp: scanOptionalSign_def split: if_splits)
      with True Cons no_sign show ?thesis
        by (auto simp: decimal_text_def)
    next
      case False
      with p Cons have "p = 0" by (auto simp: scanOptionalSign_def split: if_splits)
      with False Cons show ?thesis by (auto simp: decimal_text_def)
    qed
  qed
  with p scan_after_sign [OF \<open>p \<le> length s\<close>] show ?thesis
    unfolding ValidateDecimal_def by (auto split: prod.splits if_splits)
qed

end
