(* ===== verification/EdmPrint.thy ===== *)
theory EdmPrint
  imports JsonEncoder EdmTypes
begin

unbundle bit_operations_syntax

text \<open>
  The type system, values to text (serializer/src/agenttypesystem.c): AgentDataTypes\_ToString with
  each of its cases, the base64 characters, and the numbers as the code prints them. A case writes a
  text into a buffer of its own and appends it to the destination; the text is a function here, and
  that it fits the buffer is a lemma.
\<close>

section \<open>Numbers\<close>

text \<open>'0' + x, narrowed to a character.\<close>

definition plus_zero :: "int \<Rightarrow> char" where
  "plus_zero x = char_of (nat ((48 + x) mod 256))"

text \<open>
  The loop over the ranks, from the highest one down to 10; leading zeros are skipped until the first
  digit has been found. \<open>rank\<close> and \<open>positiveValue\<close> are unsigned and only get smaller.
\<close>

fun rank_loop :: "nat \<Rightarrow> nat \<Rightarrow> bool \<Rightarrow> string" where
  "rank_loop rank positiveValue foundFirstDigit =
     (if 10 \<le> rank then
        if foundFirstDigit \<or> 0 < positiveValue div rank then
          plus_zero (int (positiveValue div rank)) # rank_loop (rank div 10) (positiveValue mod rank) True
        else rank_loop (rank div 10) (positiveValue mod rank) foundFirstDigit
      else [plus_zero (int positiveValue)])"

declare rank_loop.simps [simp del]

text \<open>The unary minus wraps at the width of the unsigned type it is stored in.\<close>

definition int_text :: "nat \<Rightarrow> 'w::len word \<Rightarrow> string" where
  "int_text rank value =
     (if value <s 0 then CHR ''-'' # rank_loop rank (unat (- value)) False
      else rank_loop rank (unat value) False)"

definition int16_text :: "16 word \<Rightarrow> string" where
  "int16_text v = int_text 10000 v"

definition int32_text :: "32 word \<Rightarrow> string" where
  "int32_text v = int_text 1000000000 v"

definition int64_text :: "64 word \<Rightarrow> string" where
  "int64_text v = int_text 10000000000000000000 v"

definition byte_text :: "8 word \<Rightarrow> string" where
  "byte_text v =
     (if 100 \<le> uint v then [plus_zero (uint v div 100)] else [])
     @ (if 10 \<le> uint v then [plus_zero (uint v mod 100 div 10)] else [])
     @ [plus_zero (uint v mod 10)]"

definition sbyte_text :: "8 word \<Rightarrow> string" where
  "sbyte_text v =
     (let absValue = \<bar>sint v\<bar> in
        (if sint v < 0 then ''-'' else [])
        @ (if 100 \<le> absValue then [plus_zero (absValue div 100)] else [])
        @ (if 10 \<le> absValue then [plus_zero (absValue mod 100 div 10)] else [])
        @ [plus_zero (absValue mod 10)])"

section \<open>Dates\<close>

text \<open>The minus sign of a year is taken off in 16 bits.\<close>

definition date_text :: "EDM_DATE \<Rightarrow> string" where
  "date_text d =
     (let negative = date_year d <s 0;
          y = sint (if negative then - date_year d else date_year d) in
        [CHR 0x22] @ (if negative then ''-'' else [])
        @ [plus_zero (y sdiv 1000), plus_zero (y smod 1000 sdiv 100), plus_zero (y smod 100 sdiv 10),
           plus_zero (y smod 10), CHR ''-'',
           plus_zero (uint (date_month d) div 10), plus_zero (uint (date_month d) mod 10), CHR ''-'',
           plus_zero (uint (date_day d) div 10), plus_zero (uint (date_day d) mod 10), CHR 0x22])"

text \<open>
  What printf prints for %.nd, %+.nd and %.nllu: at least n digits, the sign in front, forced by
  the plus.
\<close>

definition padded :: "nat \<Rightarrow> nat \<Rightarrow> string" where
  "padded n x = replicate (n - length (nat_str x)) CHR ''0'' @ nat_str x"

definition printf_d :: "nat \<Rightarrow> int \<Rightarrow> string" where
  "printf_d n x = (if x < 0 then ''-'' else []) @ padded n (nat \<bar>x\<bar>)"

definition printf_plus_d :: "nat \<Rightarrow> int \<Rightarrow> string" where
  "printf_plus_d n x = (if x < 0 then ''-'' else ''+'') @ padded n (nat \<bar>x\<bar>)"

text \<open>
  sprintf\_s answers a negative number when the text and its terminator do not fit the buffer.
\<close>

definition sprintf_s :: "nat \<Rightarrow> string \<Rightarrow> string option" where
  "sprintf_s n text = (if length text < n then Some text else None)"

text \<open>The part up to the seconds, which the four formats share.\<close>

definition date_time_prefix :: "EDM_DATE_TIME_OFFSET \<Rightarrow> string" where
  "date_time_prefix v =
     [CHR 0x22] @ printf_d 4 (sint (tm_year (dateTime v) + 1900)) @ ''-''
     @ printf_d 2 (sint (tm_mon (dateTime v) + 1)) @ ''-''
     @ printf_d 2 (sint (tm_mday (dateTime v))) @ ''T''
     @ printf_d 2 (sint (tm_hour (dateTime v))) @ '':''
     @ printf_d 2 (sint (tm_min (dateTime v))) @ '':''
     @ printf_d 2 (sint (tm_sec (dateTime v)))"

definition fraction_text :: "EDM_DATE_TIME_OFFSET \<Rightarrow> string" where
  "fraction_text v = ''.'' @ padded 12 (unat (fractionalSecond v))"

definition zone_text :: "EDM_DATE_TIME_OFFSET \<Rightarrow> string" where
  "zone_text v = printf_plus_d 2 (sint (timeZoneHour v)) @ '':'' @ printf_d 2 (uint (timeZoneMinute v))"

definition MAX_LONG_STRING_LENGTH :: "nat \<Rightarrow> nat" where
  "MAX_LONG_STRING_LENGTH long_bits = 11 + 10 * (long_bits div 8 div 8)"

definition MAX_ULONG_LONG_STRING_LENGTH :: nat where
  "MAX_ULONG_LONG_STRING_LENGTH = 20"

text \<open>The size of the buffer of each of the four formats, and the text in it.\<close>

definition date_time_fraction_zone :: "nat \<Rightarrow> EDM_DATE_TIME_OFFSET \<Rightarrow> string option" where
  "date_time_fraction_zone long_bits v =
     (let L = MAX_LONG_STRING_LENGTH long_bits in
      sprintf_s (1 + L + 1 + L + 1 + L + 1 + L + 1 + L + 1 + L + 1 + MAX_ULONG_LONG_STRING_LENGTH
          + (1 + L) + 1 + L + 1 + 1)
        (date_time_prefix v @ fraction_text v @ zone_text v @ [CHR 0x22]))"

definition date_time_zone :: "nat \<Rightarrow> EDM_DATE_TIME_OFFSET \<Rightarrow> string option" where
  "date_time_zone long_bits v =
     (let L = MAX_LONG_STRING_LENGTH long_bits in
      sprintf_s (1 + L + 1 + L + 1 + L + 1 + L + 1 + L + 1 + L + (1 + L) + 1 + L + 1 + 1)
        (date_time_prefix v @ zone_text v @ [CHR 0x22]))"

definition date_time_fraction :: "nat \<Rightarrow> EDM_DATE_TIME_OFFSET \<Rightarrow> string option" where
  "date_time_fraction long_bits v =
     (let L = MAX_LONG_STRING_LENGTH long_bits in
      sprintf_s (1 + L + 1 + L + 1 + L + 1 + L + 1 + L + 1 + L + 1 + MAX_ULONG_LONG_STRING_LENGTH
          + 1 + 1 + 1)
        (date_time_prefix v @ fraction_text v @ [CHR ''Z'', CHR 0x22]))"

definition date_time_plain :: "nat \<Rightarrow> EDM_DATE_TIME_OFFSET \<Rightarrow> string option" where
  "date_time_plain long_bits v =
     (let L = MAX_LONG_STRING_LENGTH long_bits in
      sprintf_s (1 + L + 1 + L + 1 + L + 1 + L + 1 + L + 1 + L + 1 + 1 + 1)
        (date_time_prefix v @ [CHR ''Z'', CHR 0x22]))"

definition date_time_text :: "nat \<Rightarrow> EDM_DATE_TIME_OFFSET \<Rightarrow> string option" where
  "date_time_text long_bits v =
     (if hasTimeZone v then
        if hasFractionalSecond v then date_time_fraction_zone long_bits v
        else date_time_zone long_bits v
      else if hasFractionalSecond v then date_time_fraction long_bits v
      else date_time_plain long_bits v)"

section \<open>Strings\<close>

definition hexToASCII :: "nat \<Rightarrow> char" where
  "hexToASCII i = ''0123456789ABCDEF'' ! i"

text \<open>The first loop looks for a character that is not ASCII, the second one escapes.\<close>

definition has_unicode :: "string \<Rightarrow> bool" where
  "has_unicode s \<longleftrightarrow> list_ex (\<lambda>c. 128 \<le> (of_char c :: nat)) s"

definition escape_char :: "char \<Rightarrow> string" where
  "escape_char c =
     (if of_char c \<le> (0x1F :: nat) then
        [CHR 0x5C, CHR ''u'', CHR ''0'', CHR ''0'', hexToASCII (of_char c div 16), hexToASCII (of_char c mod 16)]
      else if c = CHR 0x22 then [CHR 0x5C, CHR 0x22]
      else if c = CHR 0x5C then [CHR 0x5C, CHR 0x5C]
      else if c = CHR ''/'' then [CHR 0x5C, CHR ''/'']
      else [c])"

definition string_text :: "string \<Rightarrow> string" where
  "string_text s = [CHR 0x22] @ concat (map escape_char s) @ [CHR 0x22]"

text \<open>The size of the buffer, from the characters counted in the first loop.\<close>

definition string_buffer_size :: "string \<Rightarrow> nat" where
  "string_buffer_size s =
     length s + 5 * length (filter (\<lambda>c. of_char c \<le> (0x1F :: nat)) s)
     + length (filter (\<lambda>c. c = CHR 0x22 \<or> c = CHR 0x5C \<or> c = CHR ''/'') s) + 3 + 1"

section \<open>Floating point\<close>

text \<open>
  printf with %.nf of a finite number: its value times the n-th power of ten, rounded to an integer,
  half to even, then the point before the last n digits.
\<close>

definition scaled :: "nat \<Rightarrow> nat \<Rightarrow> int \<Rightarrow> nat" where
  "scaled n m x =
     (if 0 \<le> x then m * 2 ^ nat x * 10 ^ n
      else let q = m * 10 ^ n div 2 ^ nat (- x); r = m * 10 ^ n mod 2 ^ nat (- x) in
        if 2 * r < 2 ^ nat (- x) \<or> (2 * r = 2 ^ nat (- x) \<and> even q) then q else q + 1)"

definition printf_f :: "nat \<Rightarrow> bool \<Rightarrow> nat \<Rightarrow> int \<Rightarrow> string" where
  "printf_f n negative m x =
     (if negative then ''-'' else []) @ nat_str (scaled n m x div 10 ^ n) @ ''.''
     @ padded n (scaled n m x mod 10 ^ n)"

definition FLT_DIG :: nat where "FLT_DIG = 6"
definition DBL_DIG :: nat where "DBL_DIG = 15"

definition MAX_FLOATING_POINT_STRING_LENGTH :: "nat \<Rightarrow> nat" where
  "MAX_FLOATING_POINT_STRING_LENGTH decimal_dig = decimal_dig * 2 + 2"

section \<open>Bytes\<close>

definition hexDigitToChar :: "nat \<Rightarrow> char" where
  "hexDigitToChar hexDigit =
     (if hexDigit < 10 then char_of (48 + hexDigit) else char_of (65 - 10 + hexDigit))"

definition hex_byte :: "8 word \<Rightarrow> string" where
  "hex_byte b = [hexDigitToChar (unat b div 16), hexDigitToChar (unat b mod 16)]"

text \<open>The 16 bytes in groups of 4, 2, 2, 2 and 6.\<close>

definition guid_text :: "8 word list \<Rightarrow> string" where
  "guid_text g =
     [CHR 0x22] @ concat (map (\<lambda>i. hex_byte (g ! i)) [0..<4]) @ ''-''
     @ concat (map (\<lambda>i. hex_byte (g ! i)) [4..<6]) @ ''-''
     @ concat (map (\<lambda>i. hex_byte (g ! i)) [6..<8]) @ ''-''
     @ concat (map (\<lambda>i. hex_byte (g ! i)) [8..<10]) @ ''-''
     @ concat (map (\<lambda>i. hex_byte (g ! i)) [10..<16]) @ [CHR 0x22]"

definition base64char :: "8 word \<Rightarrow> char" where
  "base64char val =
     (if val < 26 then char_of (65 + unat val)
      else if val < 52 then char_of (97 + (unat val - 26))
      else if val < 62 then char_of (48 + (unat val - 52))
      else if val = 62 then CHR ''-''
      else CHR ''_'')"

text \<open>joinChars packs four characters, the first one in the lowest byte.\<close>

definition joinChars :: "char \<Rightarrow> char \<Rightarrow> char \<Rightarrow> char \<Rightarrow> 32 word" where
  "joinChars a b c d =
     of_char a + push_bit 8 (of_char b) + push_bit 16 (of_char c) + push_bit 24 (of_char d)"

definition splitInt :: "32 word \<Rightarrow> nat \<Rightarrow> char" where
  "splitInt intVal bytePos = char_of (unat (drop_bit (8 * bytePos) intVal AND 0xFF))"

definition base64b16 :: "8 word \<Rightarrow> char" where
  "base64b16 val =
     splitInt ([joinChars CHR ''A'' CHR ''E'' CHR ''I'' CHR ''M'',
                joinChars CHR ''Q'' CHR ''U'' CHR ''Y'' CHR ''c'',
                joinChars CHR ''g'' CHR ''k'' CHR ''o'' CHR ''s'',
                joinChars CHR ''w'' CHR ''0'' CHR ''4'' CHR ''8''] ! unat (drop_bit 2 val))
       (unat (val AND 3))"

definition base64b8 :: "8 word \<Rightarrow> char" where
  "base64b8 val = splitInt (joinChars CHR ''A'' CHR ''Q'' CHR ''g'' CHR ''w'') (unat val)"

text \<open>Three bytes make four characters; two or one that remain are filled up with equal signs.\<close>

fun base64_text :: "8 word list \<Rightarrow> string" where
  "base64_text (a # b # c # rest) =
     [base64char (drop_bit 2 a),
      base64char (push_bit 4 (a AND 3) OR drop_bit 4 b),
      base64char (push_bit 2 (b AND 0x0F) OR (drop_bit 6 c AND 3)),
      base64char (c AND 0x3F)] @ base64_text rest"
| "base64_text [a, b] =
     [base64char (drop_bit 2 a), base64char (push_bit 4 (a AND 3) OR drop_bit 4 b),
      base64b16 (b AND 0x0F), CHR ''='']"
| "base64_text [a] = [base64char (drop_bit 2 a), base64b8 (a AND 3), CHR ''='', CHR ''='']"
| "base64_text [] = []"

definition binary_text :: "8 word list \<Rightarrow> string" where
  "binary_text bytes = [CHR 0x22] @ base64_text bytes @ [CHR 0x22]"

definition binary_buffer_size :: "8 word list \<Rightarrow> nat" where
  "binary_buffer_size bytes =
     2 + (if length bytes = 0 then 0 else ((length bytes - 1) div 3 + 1) * 4) + 1"

section \<open>AgentDataTypes\_ToString\<close>

type_synonym ('st, 'e) print_result = "AGENT_DATA_TYPES_RESULT \<times> 'st \<times> 'e"

definition append_text ::
  "('st, 'e, 'm) edm_api_scheme \<Rightarrow> string \<Rightarrow> 'st \<Rightarrow> 'e \<Rightarrow> ('st, 'e) print_result" where
  "append_text api text destination e =
     (case concat_to api destination text e of (ok, destination, e) \<Rightarrow>
        (if \<not> ok then AGENT_DATA_TYPES_ERROR else AGENT_DATA_TYPES_OK, destination, e))"

text \<open>A text that is first printed into an allocated buffer; None when it does not fit.\<close>

definition append_printed ::
  "('st, 'e, 'n) edm_api_scheme \<Rightarrow> ('e, 'm) os_scheme \<Rightarrow> string option \<Rightarrow> 'st \<Rightarrow> 'e
     \<Rightarrow> ('st, 'e) print_result" where
  "append_printed api os printed destination e =
     (case os_malloc os e of (ok, e) \<Rightarrow>
      if \<not> ok then (AGENT_DATA_TYPES_ERROR, destination, e)
      else case printed of
        None \<Rightarrow> (AGENT_DATA_TYPES_ERROR, destination, e)
      | Some text \<Rightarrow> append_text api text destination e)"

definition print_single ::
  "('st, 'e, 'n) edm_api_scheme \<Rightarrow> ('e, 'm) os_scheme \<Rightarrow> c_float \<Rightarrow> 'st \<Rightarrow> 'e
     \<Rightarrow> ('st, 'e) print_result" where
  "print_single api os f =
     (case f of
        FNaN \<Rightarrow> append_text api ''NaN''
      | FInf negative \<Rightarrow> append_text api (if negative then ''-INF'' else ''INF'')
      | FFinite negative m x \<Rightarrow>
          append_printed api os (sprintf_s (MAX_FLOATING_POINT_STRING_LENGTH (DECIMAL_DIG api))
            (printf_f FLT_DIG negative m x)))"

definition print_double ::
  "('st, 'e, 'n) edm_api_scheme \<Rightarrow> ('e, 'm) os_scheme \<Rightarrow> c_float \<Rightarrow> 'st \<Rightarrow> 'e
     \<Rightarrow> ('st, 'e) print_result" where
  "print_double api os f =
     (case f of
        FNaN \<Rightarrow> append_text api ''NaN''
      | FInf negative \<Rightarrow> append_text api (if negative then ''-INF'' else ''INF'')
      | FFinite negative m x \<Rightarrow>
          append_printed api os (sprintf_s (DECIMAL_DIG api * 2) (printf_f DBL_DIG negative m x)))"

definition print_string ::
  "('st, 'e, 'n) edm_api_scheme \<Rightarrow> ('e, 'm) os_scheme \<Rightarrow> string \<Rightarrow> 'st \<Rightarrow> 'e
     \<Rightarrow> ('st, 'e) print_result" where
  "print_string api os s destination e =
     (if has_unicode s then (AGENT_DATA_TYPES_INVALID_ARG, destination, e)
      else append_printed api os (Some (string_text s)) destination e)"

definition print_decimal ::
  "('st, 'e, 'n) edm_api_scheme \<Rightarrow> 'st \<Rightarrow> 'st \<Rightarrow> 'e \<Rightarrow> ('st, 'e) print_result" where
  "print_decimal api st destination e =
     (case concat_string_to api destination st e of (ok, destination, e) \<Rightarrow>
        (if \<not> ok then AGENT_DATA_TYPES_ERROR else AGENT_DATA_TYPES_OK, destination, e))"

text \<open>
  A complex value goes through a tree: the fields are its leaves, by AddLeaf, so that a name with
  slashes is a path. The clone function of the tree is NoCloneFunction, which keeps the pointer.
  A leaf is what AgentDataTypes\_ToString does for the value of the field.
\<close>

definition NoCloneFunction :: "('v, 'e) clone_fun" where
  "NoCloneFunction source e = (Some source, e)"

fun add_fields ::
  "('e, 'm) os_scheme \<Rightarrow> (string \<times> 'v) list \<Rightarrow> 'v mtree \<Rightarrow> 'e
     \<Rightarrow> AGENT_DATA_TYPES_RESULT \<times> 'v mtree \<times> 'e" where
  "add_fields os [] tree e = (AGENT_DATA_TYPES_OK, tree, e)"
| "add_fields os ((fieldName, value) # fs) tree e =
     (case MultiTree_AddLeaf os NoCloneFunction (Some tree) (Some fieldName) (Some value) e of
        (r, tree, e) \<Rightarrow>
          if r \<noteq> MULTITREE_OK then (AGENT_DATA_TYPES_ERROR, the tree, e)
          else add_fields os fs (the tree) e)"

text \<open>
  The encoder is given AgentDataTypes\_ToString under a cast, so it reads the answer as its own
  enum: only 0 is OK.
\<close>

definition cast_result :: "AGENT_DATA_TYPES_RESULT \<Rightarrow> JSON_ENCODER_TOSTRING_RESULT" where
  "cast_result r =
     (case r of AGENT_DATA_TYPES_OK \<Rightarrow> JSON_ENCODER_TOSTRING_OK
      | AGENT_DATA_TYPES_ERROR \<Rightarrow> JSON_ENCODER_TOSTRING_INVALID_ARG
      | _ \<Rightarrow> JSON_ENCODER_TOSTRING_ERROR)"

definition run_leaf :: "('st, 'st \<Rightarrow> 'e \<Rightarrow> ('st, 'e) print_result, 'e) tostring_func" where
  "run_leaf destination leaf e =
     (case leaf destination e of (r, destination, e) \<Rightarrow> (cast_result r, destination, e))"

definition print_complex ::
  "('st, 'e, 'n) edm_api_scheme \<Rightarrow> ('e, 'm) os_scheme
     \<Rightarrow> (string \<times> ('st \<Rightarrow> 'e \<Rightarrow> ('st, 'e) print_result)) list \<Rightarrow> 'st \<Rightarrow> 'e
     \<Rightarrow> ('st, 'e) print_result" where
  "print_complex api os fs destination e =
     (case MultiTree_Create os (Some NoCloneFunction) (Some (\<lambda>v e. e)) e of
        (None, e) \<Rightarrow> (AGENT_DATA_TYPES_ERROR, destination, e)
      | (Some treeHandle, e) \<Rightarrow>
          (case add_fields os fs treeHandle e of (result, treeHandle, e) \<Rightarrow>
           if result = AGENT_DATA_TYPES_OK then
             (case JSONEncoder_EncodeTree api (Some treeHandle) (Some destination) (Some run_leaf) e of
                (r, destination', e) \<Rightarrow>
                  (if r \<noteq> JSON_ENCODER_OK then AGENT_DATA_TYPES_ERROR else AGENT_DATA_TYPES_OK,
                   the destination', e))
           else (result, destination, e)))"

primrec value_to_string ::
  "('st, 'e, 'n) edm_api_scheme \<Rightarrow> ('e, 'm) os_scheme \<Rightarrow> 'st AGENT_DATA_TYPE
     \<Rightarrow> 'st \<Rightarrow> 'e \<Rightarrow> ('st, 'e) print_result" where
  "value_to_string api os edmNoType =
     (\<lambda>destination e. (AGENT_DATA_TYPES_INVALID_ARG, destination, e))"
| "value_to_string api os edmNull = append_text api ''null''"
| "value_to_string api os (edmBoolean b) =
     append_text api (case b of EDM_TRUE \<Rightarrow> ''true'' | EDM_FALSE \<Rightarrow> ''false'')"
| "value_to_string api os (edmByte v) = append_text api (byte_text v)"
| "value_to_string api os (edmDate v) = append_text api (date_text v)"
| "value_to_string api os (edmDateTimeOffset v) =
     append_printed api os (date_time_text (LONG_BITS api) v)"
| "value_to_string api os (edmDecimal st) = print_decimal api st"
| "value_to_string api os (edmDouble v) = print_double api os v"
| "value_to_string api os (edmGuid v) = append_text api (guid_text v)"
| "value_to_string api os (edmBinary v) = append_printed api os (Some (binary_text v))"
| "value_to_string api os (edmInt16 v) = append_text api (int16_text v)"
| "value_to_string api os (edmInt32 v) = append_text api (int32_text v)"
| "value_to_string api os (edmInt64 v) = append_text api (int64_text v)"
| "value_to_string api os (edmSbyte v) = append_text api (sbyte_text v)"
| "value_to_string api os (edmSingle v) = print_single api os v"
| "value_to_string api os (edmString s) = print_string api os s"
| "value_to_string api os (edmStringNoQuotes s) = append_text api s"
| "value_to_string api os (edmComplexType fs) =
     print_complex api os (map (map_prod id (value_to_string api os)) fs)"
| "value_to_string api os (edmOther t) =
     (\<lambda>destination e. (AGENT_DATA_TYPES_INVALID_ARG, destination, e))"

definition AgentDataTypes_ToString ::
  "('st, 'e, 'n) edm_api_scheme \<Rightarrow> ('e, 'm) os_scheme \<Rightarrow> 'st option \<Rightarrow> 'st AGENT_DATA_TYPE option
     \<Rightarrow> 'e \<Rightarrow> AGENT_DATA_TYPES_RESULT \<times> 'st option \<times> 'e" where
  "AgentDataTypes_ToString api os destination value e =
     (case (destination, value) of
        (Some dest, Some v) \<Rightarrow>
          (case value_to_string api os v dest e of (r, dest, e) \<Rightarrow> (r, Some dest, e))
      | _ \<Rightarrow> (AGENT_DATA_TYPES_INVALID_ARG, destination, e))"

end
