(* ===== verification/EdmParse.thy ===== *)
theory EdmParse
  imports EdmPrint
begin

unbundle bit_operations_syntax

text \<open>
  The type system, text to values (serializer/src/agenttypesystem.c): CreateAgentDataType\_From\_String
  with each of its cases and the scanners they are made of. A text is a C string that may be read up
  to its terminating NUL and no further; a buffer may be written up to its size.
\<close>

section \<open>Reading a C string\<close>

definition read_at :: "string \<Rightarrow> nat \<Rightarrow> char run" where
  "read_at s i = (if i < length s then Done (s ! i) else if i = length s then Done NUL else Fault)"

text \<open>A pointer into the string; what a function of the C library finds there.\<close>

definition text_at :: "string \<Rightarrow> nat \<Rightarrow> string run" where
  "text_at s i = (if i \<le> length s then Done (drop i s) else Fault)"

text \<open>Conditions joined by || or &&: the rest runs only when the first part has succeeded.\<close>

definition and_then :: "'a option run \<Rightarrow> ('a \<Rightarrow> 'b option run) \<Rightarrow> 'b option run" where
  "and_then m f = run_bind m (\<lambda>x. case x of None \<Rightarrow> Done None | Some y \<Rightarrow> f y)"

text \<open>source[pos++] == c.\<close>

definition expect_char :: "string \<Rightarrow> nat \<Rightarrow> char \<Rightarrow> nat option run" where
  "expect_char source pos c =
     run_bind (read_at source pos) (\<lambda>x. Done (if x = c then Some (Suc pos) else None))"

text \<open>
  Exactly N digits: the loop reads one digit more when there is one, and that is an error. It
  answers whether it succeeded, the value and the position.
\<close>

fun digits_N :: "string \<Rightarrow> nat \<Rightarrow> int \<Rightarrow> nat \<Rightarrow> (nat \<times> int \<times> nat) run" where
  "digits_N source position value 0 =
     run_bind (read_at source position) (\<lambda>c. Done (0, value, position))"
| "digits_N source position value (Suc N) =
     run_bind (read_at source position) (\<lambda>c.
       if ISDIGIT c then digits_N source (Suc position) (value * 10 + (of_char c - 48)) N
       else Done (Suc N, value, position))"

definition scanAndReadNDigitsInt :: "string \<Rightarrow> nat \<Rightarrow> nat \<Rightarrow> (bool \<times> int \<times> nat) run" where
  "scanAndReadNDigitsInt source position N =
     run_bind (digits_N source position 0 (Suc N)) (\<lambda>(n, value, position). Done (n = 1, value, position))"

definition scan_number_N :: "string \<Rightarrow> nat \<Rightarrow> nat \<Rightarrow> (int \<times> nat) option run" where
  "scan_number_N source pos N =
     run_bind (scanAndReadNDigitsInt source pos N)
       (\<lambda>(ok, value, pos). Done (if ok then Some (value, pos) else None))"

definition scanOptionalMinusSign :: "string \<Rightarrow> nat \<Rightarrow> nat \<Rightarrow> (int \<times> nat) run" where
  "scanOptionalMinusSign source sourceSize position =
     (if position < sourceSize then
        run_bind (read_at source position)
          (\<lambda>c. Done (if c = CHR ''-'' then (-1, Suc position) else (1, position)))
      else Done (1, position))"

section \<open>Numbers of the C library\<close>

text \<open>
  strtol, strtoul and strtoull in base 10: white space, a sign, digits. The answer is whether
  anything was converted, the value clamped to the type, and errno, here as a flag that says it is
  not zero. An unsigned conversion of a negative number wraps.
\<close>

definition isspace :: "char \<Rightarrow> bool" where
  "isspace c \<longleftrightarrow> c = CHR '' '' \<or> 9 \<le> (of_char c :: nat) \<and> of_char c \<le> (13 :: nat)"

definition scan_number :: "string \<Rightarrow> (bool \<times> nat \<times> string) option" where
  "scan_number s =
     (let t = dropWhile isspace s;
          (neg, u) = (case t of [] \<Rightarrow> (False, [])
                      | c # r \<Rightarrow> if c = CHR ''-'' then (True, r)
                                else if c = CHR ''+'' then (False, r) else (False, t));
          ds = takeWhile ISDIGIT u
      in if ds = [] then None else Some (neg, str_nat ds, dropWhile ISDIGIT u))"

definition strtol :: "nat \<Rightarrow> string \<Rightarrow> bool \<Rightarrow> (int \<times> bool) option" where
  "strtol bits s errno =
     (case scan_number s of None \<Rightarrow> None
      | Some (neg, n, next) \<Rightarrow>
          (let v = (if neg then - int n else int n) in
             if v < - (2 ^ (bits - 1)) then Some (- (2 ^ (bits - 1)), True)
             else if 2 ^ (bits - 1) \<le> v then Some (2 ^ (bits - 1) - 1, True)
             else Some (v, errno)))"

definition strtoul :: "nat \<Rightarrow> string \<Rightarrow> bool \<Rightarrow> (nat \<times> string \<times> bool) option" where
  "strtoul bits s errno =
     (case scan_number s of None \<Rightarrow> None
      | Some (neg, n, next) \<Rightarrow>
          if 2 ^ bits \<le> n then Some (2 ^ bits - 1, next, True)
          else Some (if neg then (2 ^ bits - n) mod 2 ^ bits else n, next, errno))"

text \<open>None is EOF; the conversion to int and to uint32\_t keeps the low 32 bits.\<close>

definition sscanfd :: "nat \<Rightarrow> string \<Rightarrow> bool \<Rightarrow> int option" where
  "sscanfd long_bits src errno =
     (case strtol long_bits src errno of None \<Rightarrow> None
      | Some (temp, errno) \<Rightarrow>
          if (temp = 2 ^ (long_bits - 1) - 1 \<or> temp = - (2 ^ (long_bits - 1))) \<and> errno then None
          else Some (sint (word_of_int temp :: 32 word)))"

definition sscanfllu :: "string \<Rightarrow> bool \<Rightarrow> (nat \<times> string) option" where
  "sscanfllu src errno =
     (case strtoul 64 src errno of None \<Rightarrow> None
      | Some (dst, next, errno) \<Rightarrow> if dst = 2 ^ 64 - 1 \<and> errno then None else Some (dst, next))"

definition sscanfdotllu :: "string \<Rightarrow> bool \<Rightarrow> nat option" where
  "sscanfdotllu src errno =
     (case src of [] \<Rightarrow> None
      | c # r \<Rightarrow> if c \<noteq> CHR ''.'' then None else map_option fst (sscanfllu r errno))"

definition sscanfu :: "nat \<Rightarrow> string \<Rightarrow> bool \<Rightarrow> nat option" where
  "sscanfu long_bits src errno =
     (case strtoul long_bits src errno of None \<Rightarrow> None
      | Some (temp, next, errno) \<Rightarrow>
          if temp = 2 ^ long_bits - 1 \<and> errno then None else Some (temp mod 2 ^ 32))"

definition sscanff :: "('st, 'e, 'm) edm_api_scheme \<Rightarrow> string \<Rightarrow> bool \<Rightarrow> c_float option" where
  "sscanff api src errno =
     (case strtof api src of (dst, converted, erange) \<Rightarrow>
        if \<not> converted \<or> (dst = FInf False \<and> (errno \<or> erange)) then None else Some dst)"

definition sscanflf :: "('st, 'e, 'm) edm_api_scheme \<Rightarrow> string \<Rightarrow> bool \<Rightarrow> c_float option" where
  "sscanflf api src errno =
     (case strtod api src of (dst, converted, erange) \<Rightarrow>
        if \<not> converted \<or> (dst = FInf False \<and> (errno \<or> erange)) then None else Some dst)"

section \<open>Numbers\<close>

definition quoted :: "string \<Rightarrow> bool" where
  "quoted source \<longleftrightarrow> 2 \<le> length source \<and> source ! 0 = CHR 0x22 \<and> source ! (length source - 1) = CHR 0x22"

definition parse_sbyte :: "nat \<Rightarrow> string \<Rightarrow> bool \<Rightarrow> 'st created" where
  "parse_sbyte long_bits source errno =
     (case sscanfd long_bits source errno of None \<Rightarrow> Inl AGENT_DATA_TYPES_INVALID_ARG
      | Some v \<Rightarrow> if v < -128 \<or> 127 < v then Inl AGENT_DATA_TYPES_INVALID_ARG
                 else Inr (edmSbyte (word_of_int v)))"

definition parse_byte :: "nat \<Rightarrow> string \<Rightarrow> bool \<Rightarrow> 'st created" where
  "parse_byte long_bits source errno =
     (case sscanfd long_bits source errno of None \<Rightarrow> Inl AGENT_DATA_TYPES_INVALID_ARG
      | Some v \<Rightarrow> if v < 0 \<or> 255 < v then Inl AGENT_DATA_TYPES_INVALID_ARG
                 else Inr (edmByte (word_of_int v)))"

definition parse_int16 :: "nat \<Rightarrow> string \<Rightarrow> bool \<Rightarrow> 'st created" where
  "parse_int16 long_bits source errno =
     (case sscanfd long_bits source errno of None \<Rightarrow> Inl AGENT_DATA_TYPES_INVALID_ARG
      | Some v \<Rightarrow> if v < -32768 \<or> 32767 < v then Inl AGENT_DATA_TYPES_INVALID_ARG
                 else Inr (edmInt16 (word_of_int v)))"

text \<open>A minus sign of the text is skipped first; what follows is read as an unsigned number.\<close>

definition after_minus :: "string \<Rightarrow> bool \<times> string" where
  "after_minus source =
     (if source \<noteq> [] \<and> source ! 0 = CHR ''-'' then (True, drop 1 source) else (False, source))"

definition parse_int32 :: "nat \<Rightarrow> string \<Rightarrow> bool \<Rightarrow> 'st created" where
  "parse_int32 long_bits source errno =
     (case after_minus source of (isNegative, pos) \<Rightarrow>
      case sscanfu long_bits pos errno of None \<Rightarrow> Inl AGENT_DATA_TYPES_INVALID_ARG
      | Some v \<Rightarrow>
          if 11 < length source \<or> (2147483648 < v \<and> isNegative) \<or> (2147483647 < v \<and> \<not> isNegative) then
            Inl AGENT_DATA_TYPES_INVALID_ARG
          else if isNegative then
            if v = 2147483648 then Inr (edmInt32 (- 2147483647 - 1))
            else Inr (edmInt32 (- of_nat v))
          else Inr (edmInt32 (of_nat v)))"

definition parse_int64 :: "string \<Rightarrow> bool \<Rightarrow> 'st created" where
  "parse_int64 source errno =
     (case after_minus source of (isNegative, pos) \<Rightarrow>
      case sscanfllu pos errno of None \<Rightarrow> Inl AGENT_DATA_TYPES_INVALID_ARG
      | Some (v, next) \<Rightarrow>
          if 20 < length source \<or> (9223372036854775808 < v \<and> isNegative)
              \<or> (9223372036854775807 < v \<and> \<not> isNegative) then
            Inl AGENT_DATA_TYPES_INVALID_ARG
          else if isNegative then
            if v = 9223372036854775808 then Inr (edmInt64 (- 9223372036854775807 - 1))
            else Inr (edmInt64 (- of_nat v))
          else Inr (edmInt64 (of_nat v)))"

definition parse_double :: "('st, 'e, 'm) edm_api_scheme \<Rightarrow> string \<Rightarrow> bool \<Rightarrow> 'st created" where
  "parse_double api source errno =
     (if source = [CHR 0x22] @ ''NaN'' @ [CHR 0x22] then Inr (edmDouble FNaN)
      else if source = [CHR 0x22] @ ''INF'' @ [CHR 0x22] then Inr (edmDouble (FInf False))
      else if source = [CHR 0x22] @ ''-INF'' @ [CHR 0x22] then Inr (edmDouble (FInf True))
      else case sscanflf api source errno of None \<Rightarrow> Inl AGENT_DATA_TYPES_INVALID_ARG
      | Some v \<Rightarrow> Inr (edmDouble v))"

definition parse_single :: "('st, 'e, 'm) edm_api_scheme \<Rightarrow> string \<Rightarrow> bool \<Rightarrow> 'st created" where
  "parse_single api source errno =
     (if source = [CHR 0x22] @ ''NaN'' @ [CHR 0x22] then Inr (edmSingle FNaN)
      else if source = [CHR 0x22] @ ''INF'' @ [CHR 0x22] then Inr (edmSingle (FInf False))
      else if source = [CHR 0x22] @ ''-INF'' @ [CHR 0x22] then Inr (edmSingle (FInf True))
      else case sscanff api source errno of None \<Rightarrow> Inl AGENT_DATA_TYPES_INVALID_ARG
      | Some v \<Rightarrow> Inr (edmSingle v))"

definition parse_decimal ::
  "('st, 'e, 'm) edm_api_scheme \<Rightarrow> string \<Rightarrow> 'e \<Rightarrow> 'st created \<times> 'e" where
  "parse_decimal api source e =
     (if \<not> quoted source \<or> \<not> ValidateDecimal (drop 1 source) (length source - 2) then
        (Inl AGENT_DATA_TYPES_INVALID_ARG, e)
      else case STRING_construct_n api (drop 1 source) (length source - 2) e of
        (None, e) \<Rightarrow> (Inl AGENT_DATA_TYPES_ERROR, e)
      | (Some st, e) \<Rightarrow> (Inr (edmDecimal st), e))"

section \<open>Dates and times\<close>

text \<open>The year with its sign, the month and the day, and the position after them.\<close>

definition scan_date :: "string \<Rightarrow> (int \<times> int \<times> int \<times> nat) option run" where
  "scan_date source =
     run_bind (scanOptionalMinusSign source 2 1) (\<lambda>(sign, pos).
       and_then (scan_number_N source pos 4) (\<lambda>(year, pos).
       and_then (expect_char source pos CHR ''-'') (\<lambda>pos.
       and_then (scan_number_N source pos 2) (\<lambda>(month, pos).
       and_then (expect_char source pos CHR ''-'') (\<lambda>pos.
       and_then (scan_number_N source pos 2) (\<lambda>(day, pos).
         Done (Some (sign * year, month, day, pos))))))))"

definition parse_date :: "string \<Rightarrow> 'st created run" where
  "parse_date source =
     (if \<not> quoted source then Done (Inl AGENT_DATA_TYPES_INVALID_ARG)
      else run_bind (scan_date source) (\<lambda>r.
        case r of None \<Rightarrow> Done (Inl AGENT_DATA_TYPES_INVALID_ARG)
        | Some (year, month, day, pos) \<Rightarrow>
            (case Create_AGENT_DATA_TYPE_from_date True (word_of_int year) (word_of_int month)
                    (word_of_int day) of
               Inl r \<Rightarrow> Done (Inl AGENT_DATA_TYPES_INVALID_ARG)
             | Inr v \<Rightarrow> Done (Inr v))))"

text \<open>The loop adds up the months before the given one, 0 is January.\<close>

fun daysInAllPreviousMonths :: "nat \<Rightarrow> int" where
  "daysInAllPreviousMonths 0 = 0"
| "daysInAllPreviousMonths (Suc i) =
     daysInAllPreviousMonths i
     + (if i = 0 \<or> i = 2 \<or> i = 4 \<or> i = 6 \<or> i = 7 \<or> i = 9 then 31 else if i = 1 then 28 else 30)"

definition isLeapYear :: "int \<Rightarrow> bool" where
  "isLeapYear y \<longleftrightarrow> y smod 400 = 0 \<or> (y smod 4 = 0 \<and> \<not> y smod 100 = 0)"

definition fill_tm_yday_and_tm_wday :: "tm \<Rightarrow> tm" where
  "fill_tm_yday_and_tm_wday source =
     (let year = sint (tm_year source) + 1900 + 10000;
          leaps = (year - 1) sdiv 4 - (year - 1) sdiv 100 + (year - 1) sdiv 400;
          yday = daysInAllPreviousMonths (nat (sint (tm_mon source))) + (sint (tm_mday source) - 1)
                 + (if 1 < sint (tm_mon source) \<and> isLeapYear year then 1 else 0)
      in source\<lparr>tm_yday := word_of_int yday, tm_wday := word_of_int ((365 * year + leaps + yday) smod 7)\<rparr>)"

text \<open>The hour, and the minute up to which the first test goes.\<close>

definition scan_time :: "string \<Rightarrow> nat \<Rightarrow> (int \<times> int) option run" where
  "scan_time source pos =
     and_then (expect_char source pos CHR ''T'') (\<lambda>pos.
     and_then (scan_number_N source pos 2) (\<lambda>(hour, pos).
     and_then (expect_char source pos CHR '':'') (\<lambda>pos.
     and_then (scan_number_N source pos 2) (\<lambda>(minute, pos).
       Done (Some (hour, minute))))))"

text \<open>sscanf2d: a colon and two digits. strchr: the first colon.\<close>

definition sscanf2d :: "string \<Rightarrow> nat \<Rightarrow> int option run" where
  "sscanf2d source pos2 =
     run_bind (read_at source pos2) (\<lambda>c.
       if c = CHR '':'' then
         run_bind (scan_number_N source (Suc pos2) 2) (\<lambda>r. Done (map_option fst r))
       else Done None)"

definition find_colon :: "string \<Rightarrow> nat option" where
  "find_colon source =
     (if CHR '':'' \<in> set source then Some (length (takeWhile (\<lambda>c. c \<noteq> CHR '':'') source)) else None)"

text \<open>The optional seconds: the seconds and the position after them, or NULL.\<close>

definition scan_seconds :: "string \<Rightarrow> nat \<Rightarrow> (int \<times> nat) option run" where
  "scan_seconds source pos2 =
     run_bind (read_at source pos2) (\<lambda>c.
       if c = CHR '':'' then
         run_bind (sscanf2d source pos2) (\<lambda>r. Done (map_option (\<lambda>sec. (sec, pos2 + 3)) r))
       else Done (Some (0, pos2)))"

function skip_digits :: "string \<Rightarrow> nat \<Rightarrow> nat run" where
  "skip_digits source pos2 =
     run_bind (read_at source pos2) (\<lambda>c.
       if ISDIGIT c then skip_digits source (Suc pos2) else Done pos2)"
  by pat_completeness auto
termination
  by (relation "measure (\<lambda>(s, p). Suc (length s) - p)") (auto simp: read_at_def split: if_splits)

declare skip_digits.simps [simp del]

text \<open>The optional fraction: whether there is one, its digits as a number, and the position.\<close>

definition scan_fraction :: "string \<Rightarrow> nat \<Rightarrow> bool \<Rightarrow> (bool \<times> nat \<times> nat) option run" where
  "scan_fraction source pos2 errno =
     run_bind (read_at source pos2) (\<lambda>c.
       if c = CHR ''.'' then
         run_bind (text_at source pos2) (\<lambda>src.
           case sscanfdotllu src errno of None \<Rightarrow> Done None
           | Some fractionalSeconds \<Rightarrow>
               run_bind (skip_digits source (Suc pos2)) (\<lambda>pos2.
               run_bind (read_at source pos2) (\<lambda>c.
                 Done (if c = NUL then None else Some (True, fractionalSeconds, pos2)))))
       else Done (Some (False, 0, pos2)))"

text \<open>sscanf3d2d: whether an offset was read, its hours with their sign, and its minutes.\<close>

definition sscanf3d2d :: "string \<Rightarrow> nat \<Rightarrow> (bool \<times> int \<times> int) run" where
  "sscanf3d2d source pos2 =
     run_bind (read_at source pos2) (\<lambda>c.
       let isNegative = (c = CHR ''-''); sign = (if c = CHR ''+'' \<or> c = CHR ''-'' then 1 else 0) in
       run_bind (scanAndReadNDigitsInt source (pos2 + sign) (3 - sign)) (\<lambda>(ok, hourOffset, p).
       let hour = (if isNegative then hourOffset * -1 else hourOffset) in
       if \<not> ok then Done (False, hour, 0)
       else run_bind (expect_char source p CHR '':'') (\<lambda>r.
         case r of None \<Rightarrow> Done (False, hour, 0)
         | Some p \<Rightarrow> run_bind (scanAndReadNDigitsInt source p 2) (\<lambda>(ok, minOffset, p).
             Done (ok, hour, minOffset)))))"

text \<open>The value, once all its parts are read.\<close>

definition make_date_time ::
  "int \<Rightarrow> int \<Rightarrow> int \<Rightarrow> int \<Rightarrow> int \<Rightarrow> int \<Rightarrow> bool \<Rightarrow> nat \<Rightarrow> bool \<Rightarrow> int \<Rightarrow> int \<Rightarrow> 'st created" where
  "make_date_time year month day hour minute sec hasFraction fractionalSeconds hasZone hourOffset minOffset =
     (if ValidateDate year month day \<noteq> 0 \<or> hour < 0 \<or> 23 < hour \<or> minute < 0 \<or> 59 < minute
          \<or> sec < 0 \<or> 59 < sec \<or> 999999999999 < fractionalSeconds \<or> hourOffset < -23 \<or> 23 < hourOffset
          \<or> minOffset < 0 \<or> 59 < minOffset then Inl AGENT_DATA_TYPES_INVALID_ARG
      else Inr (edmDateTimeOffset
        \<lparr>dateTime = fill_tm_yday_and_tm_wday
           \<lparr>tm_sec = word_of_int sec, tm_min = word_of_int minute, tm_hour = word_of_int hour,
            tm_mday = word_of_int day, tm_mon = word_of_int (month - 1),
            tm_year = word_of_int (year - 1900), tm_wday = 0, tm_yday = 0, tm_isdst = -1\<rparr>,
         hasFractionalSecond = hasFraction, fractionalSecond = of_nat fractionalSeconds,
         hasTimeZone = hasZone, timeZoneHour = word_of_int hourOffset,
         timeZoneMinute = word_of_int minOffset\<rparr>))"

text \<open>From the seconds on.\<close>

definition parse_time_rest ::
  "string \<Rightarrow> bool \<Rightarrow> int \<Rightarrow> int \<Rightarrow> int \<Rightarrow> int \<Rightarrow> int \<Rightarrow> nat \<Rightarrow> 'st created run" where
  "parse_time_rest source errno year month day hour minute pos2 =
     run_bind (and_then (scan_seconds source pos2) (\<lambda>(sec, pos2).
       and_then (scan_fraction source pos2 errno) (\<lambda>(hasFraction, fractionalSeconds, pos2).
         Done (Some (sec, hasFraction, fractionalSeconds, pos2)))))
     (\<lambda>r. case r of None \<Rightarrow> Done (Inl AGENT_DATA_TYPES_INVALID_ARG)
      | Some (sec, hasFraction, fractionalSeconds, pos2) \<Rightarrow>
          run_bind (sscanf3d2d source pos2) (\<lambda>(hasZone, hourOffset, minOffset).
          run_bind (text_at source pos2) (\<lambda>rest.
            Done (if rest = [CHR ''Z'', CHR 0x22] \<or> hasZone then
                    make_date_time year month day hour minute sec hasFraction fractionalSeconds
                      hasZone hourOffset minOffset
                  else Inl AGENT_DATA_TYPES_INVALID_ARG))))"

definition parse_date_time :: "string \<Rightarrow> bool \<Rightarrow> 'st created run" where
  "parse_date_time source errno =
     (if \<not> quoted source then Done (Inl AGENT_DATA_TYPES_INVALID_ARG)
      else run_bind
        (and_then (scan_date source) (\<lambda>(year, month, day, pos).
         and_then (scan_time source pos) (\<lambda>(hour, minute). Done (Some (year, month, day, hour, minute)))))
        (\<lambda>r. case r of None \<Rightarrow> Done (Inl AGENT_DATA_TYPES_INVALID_ARG)
         | Some (year, month, day, hour, minute) \<Rightarrow>
             (case find_colon source of None \<Rightarrow> Done (Inl AGENT_DATA_TYPES_INVALID_ARG)
              | Some i \<Rightarrow> parse_time_rest source errno year month day hour minute (i + 3))))"

section \<open>Strings, GUIDs and bytes\<close>

definition parse_string :: "('e, 'm) os_scheme \<Rightarrow> string \<Rightarrow> 'e \<Rightarrow> 'st created \<times> 'e" where
  "parse_string os source e =
     (if \<not> quoted source then (Inl AGENT_DATA_TYPES_INVALID_ARG, e)
      else case os_malloc os e of (ok, e) \<Rightarrow>
        if \<not> ok then (Inl AGENT_DATA_TYPES_ERROR, e)
        else (Inr (edmString (take (length source - 2) (drop 1 source))), e))"

definition parse_string_no_quotes :: "('e, 'm) os_scheme \<Rightarrow> string \<Rightarrow> 'e \<Rightarrow> 'st created \<times> 'e" where
  "parse_string_no_quotes os source e =
     (case os_malloc os e of (ok, e) \<Rightarrow>
        if \<not> ok then (Inl AGENT_DATA_TYPES_ERROR, e) else (Inr (edmStringNoQuotes source), e))"

definition scanMandatory1CapitalHexDigit :: "char \<Rightarrow> nat option" where
  "scanMandatory1CapitalHexDigit c =
     (if 48 \<le> (of_char c :: nat) \<and> of_char c \<le> (57 :: nat) then Some (of_char c - 48)
      else if 65 \<le> (of_char c :: nat) \<and> of_char c \<le> (70 :: nat) then Some (of_char c - 65 + 10)
      else None)"

definition scanMandatory2CapitalHexDigits :: "string \<Rightarrow> nat \<Rightarrow> 8 word option run" where
  "scanMandatory2CapitalHexDigits source p =
     and_then (run_bind (read_at source p) (\<lambda>c. Done (scanMandatory1CapitalHexDigit c))) (\<lambda>high.
     and_then (run_bind (read_at source (p + 1)) (\<lambda>c. Done (scanMandatory1CapitalHexDigit c))) (\<lambda>low.
       Done (Some (of_nat high * 16 + of_nat low))))"

text \<open>The chain of tests: two hex digits at a position, or one of the fixed characters.\<close>

definition guid_layout :: "(nat \<times> char option) list" where
  "guid_layout = [(0, Some CHR 0x22), (1, None), (3, None), (5, None), (7, None), (9, Some CHR ''-''),
     (10, None), (12, None), (14, Some CHR ''-''), (15, None), (17, None), (19, Some CHR ''-''),
     (20, None), (22, None), (24, Some CHR ''-''), (25, None), (27, None), (29, None), (31, None),
     (33, None), (35, None), (37, Some CHR 0x22)]"

fun scan_layout :: "string \<Rightarrow> (nat \<times> char option) list \<Rightarrow> 8 word list option run" where
  "scan_layout source [] = Done (Some [])"
| "scan_layout source ((p, Some c) # rest) =
     and_then (expect_char source p c) (\<lambda>_. scan_layout source rest)"
| "scan_layout source ((p, None) # rest) =
     and_then (scanMandatory2CapitalHexDigits source p) (\<lambda>b.
     and_then (scan_layout source rest) (\<lambda>bs. Done (Some (b # bs))))"

definition GUID_STRING_LENGTH :: nat where "GUID_STRING_LENGTH = 38"

definition parse_guid :: "string \<Rightarrow> 'st created run" where
  "parse_guid source =
     (if length source \<noteq> GUID_STRING_LENGTH then Done (Inl AGENT_DATA_TYPES_INVALID_ARG)
      else run_bind (scan_layout source guid_layout) (\<lambda>r.
        Done (case r of None \<Rightarrow> Inl AGENT_DATA_TYPES_INVALID_ARG | Some g \<Rightarrow> Inr (edmGuid g))))"

definition base64toValue :: "char \<Rightarrow> 8 word option" where
  "base64toValue c =
     (let x = of_char c :: nat in
      if 65 \<le> x \<and> x \<le> 90 then Some (of_nat (x - 65))
      else if 97 \<le> x \<and> x \<le> 122 then Some (of_nat (90 - 65 + 1 + (x - 97)))
      else if 48 \<le> x \<and> x \<le> 57 then Some (of_nat (90 - 65 + 1 + (122 - 97) + 1 + (x - 48)))
      else if c = CHR ''-'' then Some 62
      else if c = CHR ''_'' then Some 63
      else None)"

text \<open>The loops over the values 0 to 15 and 0 to 3.\<close>

definition base64b16toValue :: "char \<Rightarrow> 8 word option" where
  "base64b16toValue c = find (\<lambda>i. base64b16 i = c) (map of_nat [0..<16])"

definition base64b8toValue :: "char \<Rightarrow> 8 word option" where
  "base64b8toValue c = find (\<lambda>i. base64b8 i = c) (map of_nat [0..<4])"

definition value_at_pos :: "(char \<Rightarrow> 8 word option) \<Rightarrow> string \<Rightarrow> nat \<Rightarrow> 8 word option run" where
  "value_at_pos f source p = run_bind (read_at source p) (\<lambda>c. Done (f c))"

definition three_bytes :: "8 word \<Rightarrow> 8 word \<Rightarrow> 8 word \<Rightarrow> 8 word \<Rightarrow> 8 word list" where
  "three_bytes b0 b1 b2 b3 =
     [push_bit 2 b0 OR drop_bit 4 (b1 AND 0x30), push_bit 4 (b1 AND 0x0F) OR drop_bit 2 (b2 AND 0x3C),
      push_bit 6 (b2 AND 0x03) OR b3]"

definition two_bytes :: "8 word \<Rightarrow> 8 word \<Rightarrow> 8 word \<Rightarrow> 8 word list" where
  "two_bytes c0 c1 c2 =
     [push_bit 2 c0 OR drop_bit 4 (c1 AND 0x30), push_bit 4 (c1 AND 0x0F) OR c2]"

definition one_byte :: "8 word \<Rightarrow> 8 word \<Rightarrow> 8 word list" where
  "one_byte c0 c1 = [push_bit 2 c0 OR (c1 AND 3)]"

definition scan4base64char :: "string \<Rightarrow> nat \<Rightarrow> nat \<Rightarrow> 8 word list option run" where
  "scan4base64char source p sourceSize =
     (if sourceSize < 4 then Done None
      else
        and_then (value_at_pos base64toValue source p) (\<lambda>b0.
        and_then (value_at_pos base64toValue source (p + 1)) (\<lambda>b1.
        and_then (value_at_pos base64toValue source (p + 2)) (\<lambda>b2.
        and_then (value_at_pos base64toValue source (p + 3)) (\<lambda>b3.
          Done (Some (three_bytes b0 b1 b2 b3)))))))"

text \<open>Both answer how many characters they consumed, with the equal signs, and the bytes.\<close>

definition scanbase64b16 :: "string \<Rightarrow> nat \<Rightarrow> nat \<Rightarrow> (nat \<times> 8 word list) option run" where
  "scanbase64b16 source p sourceSize =
     (if sourceSize < 3 then Done None
      else
        and_then (value_at_pos base64toValue source p) (\<lambda>c0.
        and_then (value_at_pos base64toValue source (p + 1)) (\<lambda>c1.
        and_then (value_at_pos base64b16toValue source (p + 2)) (\<lambda>c2.
        run_bind (read_at source (p + 3)) (\<lambda>c.
          Done (Some (3 + (if c = CHR ''='' then 1 else 0),
                      two_bytes c0 c1 c2)))))))"

definition scanbase64b8 :: "string \<Rightarrow> nat \<Rightarrow> nat \<Rightarrow> (nat \<times> 8 word list) option run" where
  "scanbase64b8 source p sourceSize =
     (if sourceSize < 2 then Done None
      else
        and_then (value_at_pos base64toValue source p) (\<lambda>c0.
        and_then (value_at_pos base64b8toValue source (p + 1)) (\<lambda>c1.
        run_bind
          (if 4 \<le> sourceSize then
             run_bind (read_at source (p + 2)) (\<lambda>c.
               if c = CHR ''='' then
                 run_bind (read_at source (p + 3)) (\<lambda>d. Done (d = CHR ''=''))
               else Done False)
           else Done False)
          (\<lambda>equal_signs.
             Done (Some (2 + (if equal_signs then 2 else 0), one_byte c0 c1))))))"

text \<open>Writing into the buffer behind what it already holds.\<close>

definition store :: "nat \<Rightarrow> 8 word list \<Rightarrow> 8 word list \<Rightarrow> 8 word list run" where
  "store cap out bytes = (if length out + length bytes \<le> cap then Done (out @ bytes) else Fault)"

lemma scan4base64char_size: "scan4base64char source p n = Done (Some bs) \<Longrightarrow> 4 \<le> n"
  by (auto simp: scan4base64char_def split: if_splits)

text \<open>The loop over the groups of four; what is left is in the last groups.\<close>

function binary_loop :: "string \<Rightarrow> nat \<Rightarrow> nat \<Rightarrow> 8 word list \<Rightarrow> (nat \<times> 8 word list) run" where
  "binary_loop source cap p out =
     run_bind (scan4base64char source p (length source - p)) (\<lambda>r.
       case r of None \<Rightarrow> Done (p, out)
       | Some bytes \<Rightarrow> run_bind (store cap out bytes) (\<lambda>out. binary_loop source cap (p + 4) out))"
  by pat_completeness auto
termination
  by (relation "measure (\<lambda>(s, c, p, b). length s - p)") (auto dest!: scan4base64char_size)

declare binary_loop.simps [simp del]

definition binary_rest :: "string \<Rightarrow> nat \<Rightarrow> nat \<Rightarrow> 8 word list \<Rightarrow> (nat \<times> 8 word list) run" where
  "binary_rest source cap p out =
     run_bind (scanbase64b16 source p (length source - p)) (\<lambda>r.
       case r of
         Some (consumed, bytes) \<Rightarrow> run_bind (store cap out bytes) (\<lambda>out. Done (p + consumed, out))
       | None \<Rightarrow>
           run_bind (scanbase64b8 source p (length source - p)) (\<lambda>r.
             case r of
               Some (consumed, bytes) \<Rightarrow> run_bind (store cap out bytes) (\<lambda>out. Done (p + consumed, out))
             | None \<Rightarrow> Done (p, out)))"

definition parse_binary :: "('e, 'm) os_scheme \<Rightarrow> string \<Rightarrow> 'e \<Rightarrow> ('st created \<times> 'e) run" where
  "parse_binary os source e =
     (let sourceLength = length source in
      if sourceLength < 2 then Done (Inl AGENT_DATA_TYPES_INVALID_ARG, e)
      else if sourceLength = 2 then Done (Inr (edmBinary []), e)
      else run_bind (read_at source 0) (\<lambda>c.
        if c \<noteq> CHR 0x22 then Done (Inl AGENT_DATA_TYPES_INVALID_ARG, e)
        else case os_malloc os e of (ok, e) \<Rightarrow>
          if \<not> ok then Done (Inl AGENT_DATA_TYPES_ERROR, e)
          else
            let cap = (sourceLength - 2 + 4) div 4 * 3 in
            run_bind (binary_loop source cap 1 []) (\<lambda>(p, out).
            run_bind (binary_rest source cap p out) (\<lambda>(p, out).
            run_bind (read_at source p) (\<lambda>c.
              if c \<noteq> CHR 0x22 then Done (Inl AGENT_DATA_TYPES_INVALID_ARG, e)
              else if Suc p \<noteq> sourceLength then Done (Inl AGENT_DATA_TYPES_INVALID_ARG, e)
              else case os_malloc os e of (ok, e) \<Rightarrow>
                Done (if \<not> ok then Inl AGENT_DATA_TYPES_ERROR else Inr (edmBinary out), e))))))"

section \<open>CreateAgentDataType\_From\_String\<close>

text \<open>
  \<open>errno\<close> says that errno is not zero when the function is called; the code never resets it.
\<close>

definition CreateAgentDataType_From_String ::
  "('st, 'e, 'n) edm_api_scheme \<Rightarrow> ('e, 'm) os_scheme \<Rightarrow> bool \<Rightarrow> string option \<Rightarrow> AGENT_DATA_TYPE_TYPE
     \<Rightarrow> bool \<Rightarrow> 'e \<Rightarrow> ('st created \<times> 'e) run" where
  "CreateAgentDataType_From_String api os errno source type agentData e =
     (case source of
        None \<Rightarrow> Done (Inl AGENT_DATA_TYPES_INVALID_ARG, e)
      | Some s \<Rightarrow>
          if \<not> agentData then Done (Inl AGENT_DATA_TYPES_INVALID_ARG, e)
          else (case type of
            EDM_BOOLEAN_TYPE \<Rightarrow>
              Done (if s = ''true'' then Inr (edmBoolean EDM_TRUE)
                    else if s = ''false'' then Inr (edmBoolean EDM_FALSE)
                    else Inl AGENT_DATA_TYPES_INVALID_ARG, e)
          | EDM_NULL_TYPE \<Rightarrow>
              Done (if s = ''null'' then Inr edmNull else Inl AGENT_DATA_TYPES_INVALID_ARG, e)
          | EDM_SBYTE_TYPE \<Rightarrow> Done (parse_sbyte (LONG_BITS api) s errno, e)
          | EDM_BYTE_TYPE \<Rightarrow> Done (parse_byte (LONG_BITS api) s errno, e)
          | EDM_INT16_TYPE \<Rightarrow> Done (parse_int16 (LONG_BITS api) s errno, e)
          | EDM_INT32_TYPE \<Rightarrow> Done (parse_int32 (LONG_BITS api) s errno, e)
          | EDM_INT64_TYPE \<Rightarrow> Done (parse_int64 s errno, e)
          | EDM_DATE_TYPE \<Rightarrow> run_bind (parse_date s) (\<lambda>r. Done (r, e))
          | EDM_DATE_TIME_OFFSET_TYPE \<Rightarrow> run_bind (parse_date_time s errno) (\<lambda>r. Done (r, e))
          | EDM_DOUBLE_TYPE \<Rightarrow> Done (parse_double api s errno, e)
          | EDM_SINGLE_TYPE \<Rightarrow> Done (parse_single api s errno, e)
          | EDM_DECIMAL_TYPE \<Rightarrow> Done (parse_decimal api s e)
          | EDM_STRING_TYPE \<Rightarrow> Done (parse_string os s e)
          | EDM_STRING_NO_QUOTES_TYPE \<Rightarrow> Done (parse_string_no_quotes os s e)
          | EDM_GUID_TYPE \<Rightarrow> run_bind (parse_guid s) (\<lambda>r. Done (r, e))
          | EDM_BINARY_TYPE \<Rightarrow> parse_binary os s e
          | _ \<Rightarrow> Done (Inl AGENT_DATA_TYPES_NOT_IMPLEMENTED, e)))"

end
