(* ===== verification/EdmNumbers.thy ===== *)
theory EdmNumbers
  imports EdmParse
begin

text \<open>
  Numbers of the type system as text (serializer/src/agenttypesystem.c): what the printing loops
  print is the decimal numeral, it fits the buffers, and reading it back gives the number again,
  for every value of each integer type, whatever errno was before.
\<close>

section \<open>Digits\<close>

lemma digit_char_0: "digit_char 0 = CHR ''0''"
  by code_simp

text \<open>The last k digits of a number, with leading zeros.\<close>

primrec last_digits :: "nat \<Rightarrow> nat \<Rightarrow> string" where
  "last_digits 0 n = []"
| "last_digits (Suc k) n = last_digits k (n div 10) @ [digit_char (n mod 10)]"

lemma length_last_digits [simp]: "length (last_digits k n) = k"
  by (induction k arbitrary: n) simp_all

lemma last_digits_ISDIGIT: "c \<in> set (last_digits k n) \<Longrightarrow> ISDIGIT c"
  by (induction k arbitrary: n) (auto simp: ISDIGIT_digit_char)

lemma str_nat_snoc: "d < 10 \<Longrightarrow> str_nat (s @ [digit_char d]) = 10 * str_nat s + d"
  by (simp add: str_nat_def of_char_digit)

lemma str_nat_last_digits: "str_nat (last_digits k n) = n mod 10 ^ k"
proof (induction k arbitrary: n)
  case (Suc k)
  have "n mod 10 ^ Suc k = 10 * (n div 10 mod 10 ^ k) + n mod 10"
    by (simp add: mod_mult2_eq)
  with Suc show ?case by (simp add: str_nat_snoc)
qed (simp add: str_nat_def)

lemma last_digits_Cons:
  "last_digits (Suc k) n = digit_char (n div 10 ^ k mod 10) # last_digits k n"
proof (induction k arbitrary: n)
  case (Suc k)
  have "last_digits (Suc (Suc k)) n = last_digits (Suc k) (n div 10) @ [digit_char (n mod 10)]"
    by simp
  also have "\<dots> = digit_char (n div 10 div 10 ^ k mod 10) # last_digits (Suc k) n"
    by (subst Suc) simp
  finally show ?case by (simp add: div_mult2_eq)
qed simp

lemma last_digits_mod: "last_digits k (n mod 10 ^ k) = last_digits k n"
proof (induction k arbitrary: n)
  case (Suc k)
  have "n mod 10 ^ Suc k div 10 = n div 10 mod 10 ^ k" "n mod 10 ^ Suc k mod 10 = n mod 10"
    by (simp_all add: mod_mult2_eq)
  then show ?case using Suc [of "n div 10"] by simp
qed simp

lemma nat_str_last_digits:
  "10 ^ k \<le> n \<or> k = 0 \<Longrightarrow> n < 10 ^ Suc k \<Longrightarrow> nat_str n = last_digits (Suc k) n"
proof (induction k arbitrary: n)
  case 0
  then show ?case by (simp add: nat_str.simps [of n])
next
  case (Suc k)
  then have "(10 :: nat) ^ Suc k \<le> n" by simp
  moreover have "(10 :: nat) \<le> 10 ^ Suc k" by simp
  ultimately have "10 \<le> n" by (rule order_trans [rotated])
  then have n: "10 ^ k \<le> n div 10" "n div 10 < 10 ^ Suc k" "10 \<le> n"
    using Suc.prems by (auto simp: less_eq_div_iff_mult_less_eq div_less_iff_less_mult)
  from Suc.IH [of "n div 10"] n show ?case
    by (subst nat_str.simps) (simp add: not_less)
qed

lemma padded_last_digits: "n < 10 ^ k \<Longrightarrow> 0 < k \<Longrightarrow> padded k n = last_digits k n"
proof (induction k arbitrary: n)
  case (Suc k)
  show ?case
  proof (cases "n < 10 ^ k \<and> 0 < k")
    case True
    then have "length (nat_str n) \<le> k" using nat_str_length [of n "k - 1"] by (cases k) auto
    then have "padded (Suc k) n = CHR ''0'' # padded k n" by (simp add: padded_def Suc_diff_le)
    also have "\<dots> = digit_char 0 # last_digits k n" using Suc True by (simp add: digit_char_0)
    finally show ?thesis using True by (subst last_digits_Cons) simp
  next
    case False
    then have "nat_str n = last_digits (Suc k) n"
      using Suc.prems by (intro nat_str_last_digits) auto
    then show ?thesis by (simp add: padded_def)
  qed
qed simp

section \<open>The printing loops\<close>

lemma plus_zero_digit [simp]: "plus_zero (int d) = digit_char d" if "d < 10"
  using that by (simp add: plus_zero_def digit_char_def nat_add_distrib nat_mod_distrib)

lemma ten_power: "(10 :: nat) \<le> 10 ^ Suc k" "10 ^ Suc k div 10 = (10 :: nat) ^ k"
  by simp_all

lemma rank_loop_True: "n < 10 ^ Suc k \<Longrightarrow> rank_loop (10 ^ k) n True = last_digits (Suc k) n"
proof (induction k arbitrary: n)
  case 0
  then show ?case by (simp add: rank_loop.simps)
next
  case (Suc k)
  have d: "n div 10 ^ Suc k < 10" using Suc.prems by (simp add: div_less_iff_less_mult mult.commute)
  have "rank_loop (10 ^ Suc k) n True = digit_char (n div 10 ^ Suc k) # rank_loop (10 ^ k) (n mod 10 ^ Suc k) True"
    using d by (subst rank_loop.simps) (simp del: power_Suc add: ten_power)
  also have "rank_loop (10 ^ k) (n mod 10 ^ Suc k) True = last_digits (Suc k) n"
    using Suc.IH [of "n mod 10 ^ Suc k"] by (simp only: last_digits_mod) simp
  finally show ?case using d by (subst last_digits_Cons) simp
qed

lemma rank_loop_numeral: "n < 10 ^ Suc k \<Longrightarrow> rank_loop (10 ^ k) n False = nat_str n"
proof (induction k)
  case 0
  then show ?case by (simp add: rank_loop.simps nat_str.simps [of n])
next
  case (Suc k)
  have d: "n div 10 ^ Suc k < 10" using Suc.prems by (simp add: div_less_iff_less_mult mult.commute)
  show ?case
  proof (cases "n < 10 ^ Suc k")
    case True
    then have "rank_loop (10 ^ Suc k) n False = rank_loop (10 ^ k) n False"
      by (subst rank_loop.simps) (simp del: power_Suc add: ten_power)
    with Suc True show ?thesis by simp
  next
    case False
    then have "0 < n div 10 ^ Suc k" by (simp add: div_greater_zero_iff)
    then have "rank_loop (10 ^ Suc k) n False = digit_char (n div 10 ^ Suc k) # rank_loop (10 ^ k) (n mod 10 ^ Suc k) True"
      using d by (subst rank_loop.simps) (simp del: power_Suc add: ten_power)
    also have "rank_loop (10 ^ k) (n mod 10 ^ Suc k) True = last_digits (Suc k) n"
      using rank_loop_True [of "n mod 10 ^ Suc k" k] by (simp only: last_digits_mod) simp
    also have "digit_char (n div 10 ^ Suc k) # last_digits (Suc k) n = last_digits (Suc (Suc k)) n"
      using d by (subst last_digits_Cons) simp
    also have "\<dots> = nat_str n"
      using False Suc.prems by (intro nat_str_last_digits [symmetric]) simp_all
    finally show ?thesis .
  qed
qed

text \<open>The numeral of an integer.\<close>

definition int_str :: "int \<Rightarrow> string" where
  "int_str i = (if i < 0 then CHR ''-'' # nat_str (nat (- i)) else nat_str (nat i))"

lemma uint_sint_mod: "uint w = sint w mod 2 ^ LENGTH('w)" for w :: "'w::len word"
proof -
  have "uint (word_of_int (sint w) :: 'w word) = sint w mod 2 ^ LENGTH('w)" by (rule uint_word_of_int)
  then show ?thesis by simp
qed

lemma uint_minus_mod: "uint (- w) = (- sint w) mod 2 ^ LENGTH('w)" for w :: "'w::len word"
proof -
  have "uint (word_of_int (- sint w) :: 'w word) = (- sint w) mod 2 ^ LENGTH('w)"
    by (rule uint_word_of_int)
  then show ?thesis by simp
qed

lemma uint_sint_nonneg: "0 \<le> sint w \<Longrightarrow> uint w = sint w" for w :: "'w::len word"
proof -
  assume pos: "0 \<le> sint w"
  have "sint w < 2 ^ (LENGTH('w) - 1)" by (rule sint_lt)
  also have "(2::int) ^ (LENGTH('w) - 1) \<le> 2 ^ LENGTH('w)" by (rule power_increasing) simp_all
  finally show ?thesis using pos by (simp add: uint_sint_mod)
qed

lemma unat_uminus: "w <s 0 \<Longrightarrow> unat (- w) = nat (- sint w)" for w :: "'w::len word"
proof -
  assume "w <s 0"
  then have neg: "sint w < 0" by (simp add: word_sless_alt)
  have "uint (- w) = (- sint w) mod 2 ^ LENGTH('w)"
    by (rule uint_minus_mod)
  also have "\<dots> = - sint w"
  proof (rule mod_pos_pos_trivial)
    have "- (2 ^ (LENGTH('w) - 1)) \<le> sint w" by (rule sint_ge)
    moreover have "(2::int) ^ (LENGTH('w) - 1) < 2 ^ LENGTH('w)"
      by (rule power_strict_increasing) simp_all
    ultimately show "- sint w < 2 ^ LENGTH('w)" by linarith
  qed (use neg in simp)
  finally show ?thesis by (metis nat_uint_eq)
qed

lemma int_text_numeral:
  assumes "2 ^ (LENGTH('w) - 1) < (10::nat) ^ Suc k"
  shows "int_text (10 ^ k) (w :: 'w::len word) = int_str (sint w)"
proof (cases "w <s 0")
  case True
  then have neg: "sint w < 0" by (simp add: word_sless_alt)
  have "- (2 ^ (LENGTH('w) - 1)) \<le> sint w" by (rule sint_ge)
  then have "nat (- sint w) \<le> 2 ^ (LENGTH('w) - 1)" by (simp add: nat_le_iff)
  also note assms
  finally have "rank_loop (10 ^ k) (nat (- sint w)) False = nat_str (nat (- sint w))"
    by (rule rank_loop_numeral)
  with True neg show ?thesis by (simp add: int_text_def int_str_def unat_uminus)
next
  case False
  then have pos: "0 \<le> sint w" by (simp add: word_sless_alt)
  then have eq: "unat w = nat (sint w)"
    by (metis nat_uint_eq uint_sint_nonneg)
  have "sint w < 2 ^ (LENGTH('w) - 1)" by (rule sint_lt)
  then have "nat (sint w) < 2 ^ (LENGTH('w) - 1)" using pos by (simp add: nat_less_iff)
  also note assms
  finally have "rank_loop (10 ^ k) (nat (sint w)) False = nat_str (nat (sint w))"
    by (rule rank_loop_numeral)
  with False pos eq show ?thesis by (simp add: int_text_def int_str_def)
qed


lemma int_numerals:
  "int16_text v = int_str (sint v)" "int32_text w = int_str (sint w)" "int64_text x = int_str (sint x)"
  using int_text_numeral [where 'w = 16 and k = 4 and w = v]
    int_text_numeral [where 'w = 32 and k = 9 and w = w] int_text_numeral [where 'w = 64 and k = 19 and w = x]
  by (simp_all add: int16_text_def int32_text_def int64_text_def)

text \<open>A byte has at most three digits, printed by three tests.\<close>

lemma three_digits:
  assumes "0 \<le> i" "i < 1000"
  shows "(if 100 \<le> i then [plus_zero (i div 100)] else [])
     @ (if 10 \<le> i then [plus_zero (i mod 100 div 10)] else []) @ [plus_zero (i mod 10)] = nat_str (nat i)"
proof -
  define n where "n = nat i"
  have i: "i = int n" and n: "n < 1000" using assms by (auto simp: n_def)
  have z: "plus_zero (int n div 100) = digit_char (n div 100)"
    "plus_zero (int n mod 100 div 10) = digit_char (n mod 100 div 10)"
    "plus_zero (int n mod 10) = digit_char (n mod 10)"
    using n plus_zero_digit [of "n div 100"] plus_zero_digit [of "n mod 100 div 10"] plus_zero_digit [of "n mod 10"]
    by (simp_all add: zdiv_int zmod_int)
  have "n mod 100 div 10 = n div 10 mod 10" by (simp add: mod_mult2_eq [of n 10 10, simplified])
  moreover have "nat_str n =
      (if 100 \<le> n then [digit_char (n div 10 div 10)] else [])
      @ (if 10 \<le> n then [digit_char (n div 10 mod 10)] else []) @ [digit_char (n mod 10)]"
    using n by (auto simp: nat_str.simps [of n] nat_str.simps [of "n div 10"] nat_str.simps [of "n div 10 div 10"]
        div_less_iff_less_mult)
  ultimately show ?thesis using z by (simp add: i div_mult2_eq [of n 10 10, simplified])
qed

lemma byte_numeral: "byte_text v = nat_str (unat v)"
  using three_digits [of "uint v"] uint_lt2p [of v]
  by (simp add: byte_text_def)

lemma sbyte_numeral: "sbyte_text v = int_str (sint v)"
  using three_digits [of "\<bar>sint v\<bar>"] sint_ge [of v] sint_lt [of v]
  by (auto simp: sbyte_text_def int_str_def Let_def)

section \<open>Reading numbers\<close>

lemma takeWhile_digits: "\<forall>c \<in> set s. ISDIGIT c \<Longrightarrow> takeWhile ISDIGIT s = s"
  by (simp add: takeWhile_eq_all_conv)

lemma digit_not_space: "ISDIGIT c \<Longrightarrow> \<not> isspace c \<and> c \<noteq> CHR ''-'' \<and> c \<noteq> CHR ''+''"
  by (auto simp: ISDIGIT_def isspace_def)

lemma scan_number_numeral [simp]: "scan_number (nat_str n) = Some (False, n, [])"
proof -
  obtain c u where cu: "nat_str n = c # u" by (cases "nat_str n") auto
  have "\<forall>c \<in> set (nat_str n). ISDIGIT c" by (auto dest: nat_str_digits)
  with cu digit_not_space [of c] show ?thesis
    using str_nat_nat_str [of n]
    by (auto simp: scan_number_def Let_def takeWhile_digits)
qed

lemma scan_number_minus_numeral [simp]: "scan_number (CHR ''-'' # nat_str n) = Some (True, n, [])"
proof -
  have "\<forall>c \<in> set (nat_str n). ISDIGIT c" by (auto dest: nat_str_digits)
  then show ?thesis
    using str_nat_nat_str [of n] by (simp add: scan_number_def Let_def isspace_def takeWhile_digits)
qed

lemma scan_int_str: "scan_number (int_str i) = Some (i < 0, nat \<bar>i\<bar>, [])"
  by (simp add: int_str_def)

lemma sscanfd_int_str:
  assumes "32 \<le> long_bits" "- 32768 \<le> i" "i \<le> 32767"
  shows "sscanfd long_bits (int_str i) errno = Some i"
proof -
  have "(2 :: int) ^ 31 \<le> 2 ^ (long_bits - 1)" using assms(1) by (intro power_increasing) simp_all
  then have big: "(2147483648 :: int) \<le> 2 ^ (long_bits - 1)" by simp
  have "strtol long_bits (int_str i) errno = Some (i, errno)"
    using big assms by (auto simp: strtol_def scan_int_str Let_def)
  moreover have "sint (word_of_int i :: 32 word) = i"
    using assms by (subst sint_sbintrunc') (simp add: signed_take_bit_int_eq_self)
  ultimately show ?thesis using big assms(2,3) by (auto simp: sscanfd_def)
qed


lemma sint_of_int_range: "- (2 ^ (LENGTH('w) - 1)) \<le> sint w \<and> sint w < 2 ^ (LENGTH('w) - 1)"
  for w :: "'w::len word"
  using sint_ge sint_lt by blast

lemma parse_sbyte_text: "32 \<le> long_bits \<Longrightarrow> parse_sbyte long_bits (sbyte_text v) errno = Inr (edmSbyte v)"
  using sint_of_int_range [of v] by (simp add: parse_sbyte_def sbyte_numeral sscanfd_int_str)

lemma parse_byte_text: "32 \<le> long_bits \<Longrightarrow> parse_byte long_bits (byte_text v) errno = Inr (edmByte v)"
proof -
  assume "32 \<le> long_bits"
  moreover have "uint v < 256" using uint_lt2p [of v] by simp
  moreover have "byte_text v = int_str (uint v)" by (simp add: byte_numeral int_str_def)
  moreover have "- 32768 \<le> uint v" by (rule order_trans [OF _ uint_ge_0]) simp
  ultimately show ?thesis by (simp add: parse_byte_def sscanfd_int_str)
qed

lemma parse_int16_text: "32 \<le> long_bits \<Longrightarrow> parse_int16 long_bits (int16_text v) errno = Inr (edmInt16 v)"
  using sint_of_int_range [of v] by (simp add: parse_int16_def int_numerals sscanfd_int_str)

lemma after_minus_int_str:
  "after_minus (int_str i) = (i < 0, nat_str (nat \<bar>i\<bar>))"
proof -
  have "nat_str n ! 0 \<noteq> CHR ''-''" for n
    using digit_not_space [of "nat_str n ! 0"] nat_str_digits [of "nat_str n ! 0" n] nat_str_nonempty [of n]
    by (cases "nat_str n") auto
  then show ?thesis by (simp add: after_minus_def int_str_def)
qed

lemma int_str_length:
  assumes "\<bar>i\<bar> < 10 ^ Suc k"
  shows "length (int_str i) \<le> Suc (Suc k)"
proof -
  have "nat \<bar>i\<bar> < 10 ^ Suc k" using assms by (simp add: nat_less_iff del: power_Suc)
  then have "length (nat_str (nat \<bar>i\<bar>)) \<le> Suc k" by (rule nat_str_length)
  moreover have "length (int_str i) \<le> Suc (length (nat_str (nat \<bar>i\<bar>)))"
    by (simp add: int_str_def)
  ultimately show ?thesis by simp
qed

lemma word_of_abs:
  fixes w :: "'w::len word"
  shows "sint w < 0 \<Longrightarrow> - of_nat (nat (- sint w)) = w" "0 \<le> sint w \<Longrightarrow> of_nat (nat (sint w)) = w"
  by simp_all

lemma sscanfu_numeral:
  assumes "32 \<le> long_bits" "n \<le> 2147483648"
  shows "sscanfu long_bits (nat_str n) errno = Some n"
proof -
  have "(2 :: nat) ^ 32 \<le> 2 ^ long_bits" using assms by (intro power_increasing) simp_all
  with assms(2) show ?thesis by (auto simp: sscanfu_def strtoul_def)
qed

lemma sscanfllu_numeral: "n < 2 ^ 64 - 1 \<Longrightarrow> sscanfllu (nat_str n) errno = Some (n, [])"
  by (auto simp: sscanfllu_def strtoul_def)

lemma parse_int32_text:
  assumes "32 \<le> long_bits"
  shows "parse_int32 long_bits (int32_text v) errno = Inr (edmInt32 v)"
proof -
  have i: "- 2147483648 \<le> sint v" "sint v < 2147483648" using sint_of_int_range [of v] by simp_all
  have "sscanfu long_bits (nat_str (nat \<bar>sint v\<bar>)) errno = Some (nat \<bar>sint v\<bar>)"
    using assms i by (intro sscanfu_numeral) linarith+
  moreover have "length (int_str (sint v)) \<le> 11" using i int_str_length [of "sint v" 9] by simp
  moreover have "sint v = - 2147483648 \<Longrightarrow> v = - 2147483647 - 1"
    using word_of_abs(1) [of v] by simp
  ultimately show ?thesis
    using i word_of_abs [of v]
    by (auto simp: parse_int32_def int_numerals after_minus_int_str nat_eq_iff)
qed

lemma parse_int64_text: "parse_int64 (int64_text v) errno = Inr (edmInt64 v)"
proof -
  have i: "- 9223372036854775808 \<le> sint v" "sint v < 9223372036854775808"
    using sint_of_int_range [of v] by simp_all
  have "nat \<bar>sint v\<bar> < 2 ^ 64 - 1" using i by simp
  then have "sscanfllu (nat_str (nat \<bar>sint v\<bar>)) errno = Some (nat \<bar>sint v\<bar>, [])"
    by (rule sscanfllu_numeral)
  moreover have "length (int_str (sint v)) \<le> 20" using i int_str_length [of "sint v" 18] by simp
  moreover have "sint v = - 9223372036854775808 \<Longrightarrow> v = - 9223372036854775807 - 1"
    using word_of_abs(1) [of v] by simp
  ultimately show ?thesis
    using i word_of_abs [of v]
    by (auto simp: parse_int64_def int_numerals after_minus_int_str nat_eq_iff)
qed

end
