(* ===== verification/EdmBuffers.thy ===== *)
theory EdmBuffers
  imports EdmNumbers
begin

text \<open>
  The buffers of AgentDataTypes\_ToString (serializer/src/agenttypesystem.c): every text fits the
  buffer that its case has for it, so that no value is too long to be printed, floating point
  excepted.
\<close>

lemma int_str_bounds:
  "length (int16_text v) \<le> 6" "length (int32_text w) \<le> 11" "length (int64_text x) \<le> 20"
proof -
  have "\<bar>sint v\<bar> < 10 ^ Suc 4" using sint_of_int_range [of v] by auto
  then show "length (int16_text v) \<le> 6" unfolding int_numerals by (drule_tac int_str_length) simp
  have "\<bar>sint w\<bar> < 10 ^ Suc 9" using sint_of_int_range [of w] by auto
  then show "length (int32_text w) \<le> 11" unfolding int_numerals by (drule_tac int_str_length) simp
  have "\<bar>sint x\<bar> < 10 ^ Suc 18" using sint_of_int_range [of x] by auto
  then show "length (int64_text x) \<le> 20" unfolding int_numerals by (drule_tac int_str_length) simp
qed

lemma byte_bounds: "length (byte_text v) \<le> 3" "length (sbyte_text v) \<le> 4"
  by (simp_all add: byte_text_def sbyte_text_def Let_def)

lemma date_bound: "length (date_text d) \<le> 13"
  by (simp add: date_text_def Let_def)

lemma guid_ranges:
  "[0..<4] = [0, 1, 2, 3 :: nat]" "[4..<6] = [4, 5 :: nat]" "[6..<8] = [6, 7 :: nat]"
  "[8..<10] = [8, 9 :: nat]" "[10..<16] = [10, 11, 12, 13, 14, 15 :: nat]"
  by (simp_all add: upt_rec)

lemma guid_bound: "length (guid_text g) = 38"
  by (simp add: guid_text_def guid_ranges hex_byte_def)

lemma escape_length:
  "length (concat (map escape_char s)) =
     length s + 5 * length (filter (\<lambda>c. of_char c \<le> (0x1F :: nat)) s)
     + length (filter (\<lambda>c. c = CHR 0x22 \<or> c = CHR 0x5C \<or> c = CHR ''/'') s)"
  by (induction s) (auto simp: escape_char_def)

lemma string_bound: "length (string_text s) + 2 = string_buffer_size s"
  by (simp add: string_text_def string_buffer_size_def escape_length)

lemma base64_length: "length (base64_text bs) = (length bs + 2) div 3 * 4"
proof (induction bs rule: base64_text.induct)
  case (1 a b c rest)
  have "(length rest + 2 + 3) div 3 = (length rest + 2) div 3 + 1" by presburger
  with 1 show ?case by (simp add: add.commute)
qed simp_all

lemma binary_bound: "length (binary_text bs) + 1 = binary_buffer_size bs"
proof (cases "bs")
  case (Cons b bs')
  have "(length bs' + 3) div 3 = length bs' div 3 + 1" by presburger
  with Cons show ?thesis by (simp add: binary_text_def binary_buffer_size_def base64_length add.commute)
qed (simp add: binary_text_def binary_buffer_size_def)

lemma padded_length: "x < 10 ^ Suc k \<Longrightarrow> length (padded n x) \<le> max n (Suc k)"
  using nat_str_length [of x k] by (auto simp: padded_def)

lemma printf_d_length:
  assumes "- 2147483648 \<le> x" "x < 2147483648" "n \<le> 10"
  shows "length (printf_d n x) \<le> 11" "length (printf_plus_d n x) \<le> 11"
proof -
  have "nat \<bar>x\<bar> < 10 ^ Suc 9" using assms by simp
  from padded_length [OF this, of n] have "length (padded n (nat \<bar>x\<bar>)) \<le> 10" using assms(3) by simp
  then show "length (printf_d n x) \<le> 11" "length (printf_plus_d n x) \<le> 11"
    by (auto simp: printf_d_def printf_plus_d_def)
qed

lemma prefix_length: "length (date_time_prefix v) \<le> 72"
proof -
  have "length (printf_d n (sint w)) \<le> 11" if "n \<le> 10" for n and w :: "32 word"
    using printf_d_length(1) [of "sint w" n] sint_of_int_range [of w] that by simp
  from this [of 4 "tm_year (dateTime v) + 1900"] this [of 2 "tm_mon (dateTime v) + 1"]
    this [of 2 "tm_mday (dateTime v)"] this [of 2 "tm_hour (dateTime v)"]
    this [of 2 "tm_min (dateTime v)"] this [of 2 "tm_sec (dateTime v)"]
  show ?thesis by (simp add: date_time_prefix_def)
qed

lemma zone_length: "length (zone_text v) \<le> 23"
proof -
  have "length (printf_plus_d 2 (sint (timeZoneHour v))) \<le> 11"
    using printf_d_length(2) [of "sint (timeZoneHour v)" 2] sint_of_int_range [of "timeZoneHour v"] by simp
  moreover have "uint (timeZoneMinute v) < 256" using uint_lt2p [of "timeZoneMinute v"] by simp
  then have "length (printf_d 2 (uint (timeZoneMinute v))) \<le> 11"
    by (intro printf_d_length(1)) (auto intro: order_trans [OF _ uint_ge_0])
  ultimately show ?thesis by (simp add: zone_text_def)
qed

lemma fraction_length: "length (fraction_text v) \<le> 21"
proof -
  have "unat (fractionalSecond v) < 2 ^ 64" using unsigned_less [of "fractionalSecond v"] by simp
  then have "unat (fractionalSecond v) < 10 ^ Suc 19" by simp
  from padded_length [OF this, of 12] show ?thesis by (simp add: fraction_text_def)
qed

lemma date_time_texts_fit:
  "date_time_text long_bits v = Some (date_time_prefix v
     @ (if hasFractionalSecond v then fraction_text v else [])
     @ (if hasTimeZone v then zone_text v else ''Z'') @ [CHR 0x22])"
  using prefix_length [of v] zone_length [of v] fraction_length [of v]
  by (simp add: date_time_text_def date_time_fraction_zone_def date_time_zone_def date_time_fraction_def
      date_time_plain_def Let_def sprintf_s_def MAX_LONG_STRING_LENGTH_def MAX_ULONG_LONG_STRING_LENGTH_def)

text \<open>
  C33: Every text AgentDataTypes\_ToString prints fits, with its terminator, the buffer its case
  has for it, for every value of the type: the arrays of fixed size for numbers, dates and GUIDs, the
  sizes computed for strings and for base64, and the sizes of the four formats of date and time,
  so that these never fail.
\<close>

theorem texts_fit_their_buffers:
  "length (byte_text b) < 4 \<and> length (sbyte_text b) < 5 \<and> length (int16_text i) < 7
   \<and> length (int32_text j) < 12 \<and> length (int64_text k) < 21
   \<and> length (date_text d) < 14 \<and> length (guid_text g) < 39
   \<and> length (string_text s) < string_buffer_size s \<and> length (binary_text bs) < binary_buffer_size bs
   \<and> date_time_text long_bits t \<noteq> None"
  using int_str_bounds(1) [of i] int_str_bounds(2) [of j] int_str_bounds(3) [of k] byte_bounds(1) [of b] byte_bounds(2) [of b] date_bound [of d] guid_bound [of g]
    string_bound [of s] binary_bound [of bs]
  by (simp add: date_time_texts_fit)

end
