(* ===== verification/EdmCopies.thy ===== *)
theory EdmCopies
  imports EdmTypes
begin

text \<open>
  What the Create functions of the type system guarantee (serializer/src/agenttypesystem.c): the
  values they answer are well formed, and a copy is equal to its source.
\<close>

section \<open>Values as the caller sees them\<close>

text \<open>Strings are seen by their characters.\<close>

definition view :: "('st, 'e, 'm) edm_api_scheme \<Rightarrow> 'st AGENT_DATA_TYPE \<Rightarrow> string AGENT_DATA_TYPE" where
  "view api = map_AGENT_DATA_TYPE (STRING_c_str api)"

text \<open>The documented behaviour of the strings that the type system makes.\<close>

definition edm_string_laws :: "('st, 'e, 'm) edm_api_scheme \<Rightarrow> bool" where
  "edm_string_laws api \<longleftrightarrow>
     (\<forall>x e s e'. STRING_construct api x e = (Some s, e') \<longrightarrow> STRING_c_str api s = x)
     \<and> (\<forall>x n e s e'. STRING_construct_n api x n e = (Some s, e') \<longrightarrow> STRING_c_str api s = take n x)
     \<and> (\<forall>x e s e'. STRING_clone api x e = (Some s, e') \<longrightarrow> STRING_c_str api s = STRING_c_str api x)"

definition edm_strings_available :: "('st, 'e, 'm) edm_api_scheme \<Rightarrow> bool" where
  "edm_strings_available api \<longleftrightarrow>
     (\<forall>x e. fst (STRING_construct api x e) \<noteq> None) \<and> (\<forall>x n e. fst (STRING_construct_n api x n e) \<noteq> None)
     \<and> (\<forall>x e. fst (STRING_clone api x e) \<noteq> None)"

text \<open>Dates and times in range.\<close>

definition date_time_ok :: "EDM_DATE_TIME_OFFSET \<Rightarrow> bool" where
  "date_time_ok v \<longleftrightarrow>
     calendar_date (sint (tm_year (dateTime v) + 1900)) (sint (tm_mon (dateTime v) + 1))
       (sint (tm_mday (dateTime v)))
     \<and> 0 \<le> sint (tm_hour (dateTime v)) \<and> sint (tm_hour (dateTime v)) \<le> 23
     \<and> 0 \<le> sint (tm_min (dateTime v)) \<and> sint (tm_min (dateTime v)) \<le> 59
     \<and> 0 \<le> sint (tm_sec (dateTime v)) \<and> sint (tm_sec (dateTime v)) \<le> 59
     \<and> (hasFractionalSecond v \<longrightarrow> uint (fractionalSecond v) \<le> 999999999999)
     \<and> (hasTimeZone v \<longrightarrow> -23 \<le> sint (timeZoneHour v) \<and> sint (timeZoneHour v) \<le> 23
          \<and> uint (timeZoneMinute v) \<le> 59)"

text \<open>
  A well-formed value: what its type promises, and for a complex type at least one field, names
  that are C strings and distinct, and well-formed values in them.
\<close>

primrec edm_wf :: "string AGENT_DATA_TYPE \<Rightarrow> bool" where
  "edm_wf edmNoType = True"
| "edm_wf edmNull = True"
| "edm_wf (edmBoolean b) = True"
| "edm_wf (edmByte v) = True"
| "edm_wf (edmDate v) =
     calendar_date (sint (date_year v)) (uint (date_month v)) (uint (date_day v))"
| "edm_wf (edmDateTimeOffset v) = date_time_ok v"
| "edm_wf (edmDecimal s) = decimal_text s"
| "edm_wf (edmDouble v) = True"
| "edm_wf (edmGuid v) = (length v = 16)"
| "edm_wf (edmBinary v) = True"
| "edm_wf (edmInt16 v) = True"
| "edm_wf (edmInt32 v) = True"
| "edm_wf (edmInt64 v) = True"
| "edm_wf (edmSbyte v) = True"
| "edm_wf (edmSingle v) = True"
| "edm_wf (edmString s) = (NUL \<notin> set s)"
| "edm_wf (edmStringNoQuotes s) = (NUL \<notin> set s)"
| "edm_wf (edmComplexType fs) =
     (fs \<noteq> [] \<and> distinct (map fst fs)
      \<and> list_all (\<lambda>(n, ok). NUL \<notin> set n \<and> ok) (map (map_prod id edm_wf) fs))"
| "edm_wf (edmOther t) = False"

lemma edm_view_simps [simp]:
  "view api edmNoType = edmNoType" "view api edmNull = edmNull"
  "view api (edmBoolean b) = edmBoolean b" "view api (edmByte w) = edmByte w"
  "view api (edmDate d) = edmDate d" "view api (edmDateTimeOffset t) = edmDateTimeOffset t"
  "view api (edmDecimal st) = edmDecimal (STRING_c_str api st)"
  "view api (edmDouble f) = edmDouble f" "view api (edmGuid g) = edmGuid g"
  "view api (edmBinary bs) = edmBinary bs" "view api (edmInt16 i) = edmInt16 i"
  "view api (edmInt32 j) = edmInt32 j" "view api (edmInt64 k) = edmInt64 k"
  "view api (edmSbyte w) = edmSbyte w" "view api (edmSingle f) = edmSingle f"
  "view api (edmString s) = edmString s" "view api (edmStringNoQuotes s) = edmStringNoQuotes s"
  "view api (edmComplexType fs) = edmComplexType (map (apsnd (view api)) fs)"
  "view api (edmOther ty) = edmOther ty"
  by (simp_all add: view_def apsnd_def)

section \<open>Copies\<close>

lemma map_prod_id_apsnd: "map_prod id f = apsnd f"
  by (simp add: apsnd_def)

lemma copy_value_complex [simp]:
  "copy_value api os (edmComplexType fs) = copy_complex os (map (apsnd (copy_value api os)) fs)"
  by (simp add: map_prod_id_apsnd)

declare copy_value.simps(18) [simp del]

lemma copy_fields_Some:
  assumes "copy_fields os (map (apsnd copy) fs) e = (Some gs, e')"
    and "\<And>n v e v' e'. (n, v) \<in> set fs \<Longrightarrow> copy v e = (Inr v', e') \<Longrightarrow> f v' = f v"
  shows "map (apsnd f) gs = map (apsnd f) fs"
  using assms
proof (induction fs arbitrary: e gs)
  case (Cons p fs)
  obtain n v where p: "p = (n, v)" by (cases p)
  from Cons.prems(1) p obtain e1 v' e2 gs' where copies:
    "copy v e1 = (Inr v', e2)" "copy_fields os (map (apsnd copy) fs) e2 = (Some gs', e')"
    "gs = (n, v') # gs'"
    by (auto split: prod.splits if_splits sum.splits option.splits)
  have "f v' = f v" by (rule Cons.prems(2) [of n, OF _ copies(1)]) (simp add: p)
  moreover have "map (apsnd f) gs' = map (apsnd f) fs"
    by (rule Cons.IH [OF copies(2)]) (metis Cons.prems(2) list.set_intros(2))
  ultimately show ?case using p copies(3) by simp
qed simp

lemma copy_value_view:
  assumes "edm_string_laws api"
  shows "copy_value api os v e = (Inr v', e') \<Longrightarrow> view api v' = view api v"
proof (induction v arbitrary: e v' e')
  case (edmDecimal st)
  with assms show ?case by (fastforce simp: edm_string_laws_def split: prod.splits option.splits)
next
  case (edmComplexType fs)
  from edmComplexType.prems obtain e1 gs where
    "copy_fields os (map (apsnd (copy_value api os)) fs) e1 = (Some gs, e')"
    "v' = edmComplexType gs"
    by (auto simp: copy_complex_def split: prod.splits option.splits if_splits)
  with copy_fields_Some [OF this(1), of "view api"] edmComplexType.IH show ?case
    by (fastforce simp: snds.simps)
qed (auto simp: copy_binary_def split: prod.splits if_splits)

text \<open>What can be copied: no type that the file does not create, no complex value without fields.\<close>

primrec copyable :: "string AGENT_DATA_TYPE \<Rightarrow> bool" where
  "copyable edmNoType = True"
| "copyable edmNull = True"
| "copyable (edmBoolean b) = True"
| "copyable (edmByte v) = True"
| "copyable (edmDate v) = True"
| "copyable (edmDateTimeOffset v) = True"
| "copyable (edmDecimal s) = True"
| "copyable (edmDouble v) = True"
| "copyable (edmGuid v) = True"
| "copyable (edmBinary v) = True"
| "copyable (edmInt16 v) = True"
| "copyable (edmInt32 v) = True"
| "copyable (edmInt64 v) = True"
| "copyable (edmSbyte v) = True"
| "copyable (edmSingle v) = True"
| "copyable (edmString s) = True"
| "copyable (edmStringNoQuotes s) = True"
| "copyable (edmComplexType fs) = (fs \<noteq> [] \<and> list_all snd (map (map_prod id copyable) fs))"
| "copyable (edmOther t) = False"

lemma copy_fields_available:
  assumes "memory_available os"
    and "\<And>n v e. (n, v) \<in> set fs \<Longrightarrow> isl (fst (copy v e)) = (\<not> ok v)"
  shows "(fst (copy_fields os (map (apsnd copy) fs) e) \<noteq> None) = list_all (\<lambda>p. ok (snd p)) fs"
  using assms(2)
proof (induction fs arbitrary: e)
  case (Cons p fs)
  obtain n v where p: "p = (n, v)" by (cases p)
  have IH: "(fst (copy_fields os (map (apsnd copy) fs) e) \<noteq> None) = list_all (\<lambda>p. ok (snd p)) fs" for e
    by (rule Cons.IH) (metis Cons.prems list.set_intros(2))
  have mem: "\<And>e. \<exists>e'. os_malloc os e = (True, e')"
    by (metis (full_types) assms(1) memory_availableD surj_pair)
  from mem obtain e1 where e1: "os_malloc os e = (True, e1)" by blast
  from mem obtain e2 where e2: "os_malloc os e1 = (True, e2)" by blast
  show ?case
    using Cons.prems [of n v e2] IH [of "snd (copy v e2)"] p e1 e2
    by (cases "copy v e2") (auto split: sum.splits option.splits prod.splits simp: isl_def)
qed simp


lemma copy_value_available:
  assumes "memory_available os" "edm_strings_available api"
  shows "isl (fst (copy_value api os v e)) = (\<not> copyable (view api v))"
proof (induction v arbitrary: e)
  case (edmDecimal st)
  have "fst (STRING_clone api st e) \<noteq> None"
    using assms(2) unfolding edm_strings_available_def by blast
  then show ?case by (cases "STRING_clone api st e") auto
next
  case (edmComplexType fs)
  have fields: "(fst (copy_fields os (map (apsnd (copy_value api os)) fs) e) \<noteq> None) =
      list_all (\<lambda>p. copyable (view api (snd p))) fs" for e
    by (rule copy_fields_available [OF assms(1)]) (rule edmComplexType.IH, auto simp: snds.simps)
  obtain e1 where "os_malloc os e = (True, e1)"
    by (metis (full_types) assms(1) memory_availableD surj_pair)
  with fields [of e1] show ?case
    by (cases "copy_fields os (map (apsnd (copy_value api os)) fs) e1")
      (auto simp: copy_complex_def list_all_iff split: option.splits)
qed (use assms(1) in \<open>auto simp: copy_binary_def split: prod.splits dest: memory_availableD\<close>)

lemma edm_wf_copyable: "edm_wf v \<Longrightarrow> copyable v"
proof (induction v)
  case (edmComplexType fs)
  then show ?case by (auto simp: list_all_iff snds.simps)
qed simp_all

section \<open>Complex types\<close>

lemma areThereTwoSameNames_iff: "areThereTwoSameNames ns \<longleftrightarrow> \<not> distinct ns"
  by (induction ns) auto

lemma isOneNameNULL_iff: "isOneNameNULL ns \<longleftrightarrow> None \<in> set ns"
  by (induction ns) auto

lemma copy_pointers_Some:
  assumes "edm_string_laws api"
  shows "copy_pointers api os ps e = (Some vs, e') \<Longrightarrow>
    map (\<lambda>v. Some (view api v)) vs = map (map_option (view api)) ps"
proof (induction ps arbitrary: e vs)
  case (Cons p ps)
  then show ?case
    by (cases p) (auto simp: Create_AGENT_DATA_TYPE_from_AGENT_DATA_TYPE_def
        dest: copy_value_view [OF assms] split: prod.splits sum.splits option.splits)
qed auto

end
