(* ===== verification/EdmDates.thy ===== *)
theory EdmDates
  imports EdmBuffers EdmCopies
begin

text \<open>
  Dates of the type system as text (serializer/src/agenttypesystem.c): dates and times read back as
  they were printed, and the day of the year and of the week that are filled in are those of the
  calendar.
\<close>

section \<open>Scanning what was printed\<close>

text \<open>The text from a position on.\<close>

definition suffix_at :: "string \<Rightarrow> nat \<Rightarrow> string \<Rightarrow> bool" where
  "suffix_at s p t \<longleftrightarrow> p \<le> length s \<and> drop p s = t"

lemma suffix_at_whole: "suffix_at s 0 s"
  by (simp add: suffix_at_def)

lemma suffix_at_append: "suffix_at s p (a @ t) \<Longrightarrow> suffix_at s (p + length a) t"
proof -
  assume a: "suffix_at s p (a @ t)"
  have "drop (p + length a) s = drop (length a) (drop p s)" by (simp add: add.commute)
  with a have "drop (p + length a) s = t" by (simp add: suffix_at_def)
  moreover have "length s - p = length a + length t"
    using a by (metis length_append length_drop suffix_at_def)
  moreover have "p \<le> length s" using a by (simp add: suffix_at_def)
  ultimately show ?thesis unfolding suffix_at_def by linarith
qed

lemma suffix_at_Cons: "suffix_at s p (c # t) \<Longrightarrow> read_at s p = Done c \<and> suffix_at s (Suc p) t"
  using suffix_at_append [of s p "[c]" t]
  by (auto simp: suffix_at_def read_at_def nth_via_drop dest: arg_cong [of _ _ length])

lemma suffix_at_Nil: "suffix_at s p [] \<Longrightarrow> read_at s p = Done NUL"
  by (auto simp: suffix_at_def read_at_def)

lemma suffix_at_read: "suffix_at s p t \<Longrightarrow> \<exists>c. read_at s p = Done c"
  by (cases t) (auto dest: suffix_at_Cons suffix_at_Nil)

lemma suffix_at_text: "suffix_at s p t \<Longrightarrow> text_at s p = Done t"
  by (simp add: suffix_at_def text_at_def)

lemma expect_char_at:
  "suffix_at s p (c # t) \<Longrightarrow> expect_char s p c = Done (Some (Suc p))"
  by (drule suffix_at_Cons) (simp add: expect_char_def)

definition stops :: "string \<Rightarrow> bool" where
  "stops r \<longleftrightarrow> r = [] \<or> \<not> ISDIGIT (hd r)"

lemma stops_simps [simp]:
  "stops []" "stops (CHR ''-'' # r)" "stops (CHR '':'' # r)" "stops (CHR ''T'' # r)"
  "stops (CHR ''.'' # r)" "stops (CHR ''+'' # r)" "stops (CHR ''Z'' # r)" "stops (CHR 0x22 # r)"
  by (simp_all add: stops_def ISDIGIT_def)

lemma stops_read: "suffix_at s p r \<Longrightarrow> stops r \<Longrightarrow> \<exists>c. read_at s p = Done c \<and> \<not> ISDIGIT c"
  by (cases r) (auto simp: stops_def dest: suffix_at_Cons suffix_at_Nil)

lemma digits_N_at:
  assumes "suffix_at s p (ds @ r)" "\<forall>c \<in> set ds. ISDIGIT c" "stops r" "length ds \<le> N"
  shows "digits_N s p v N =
    Done (N - length ds, fold (\<lambda>c a. a * 10 + (of_char c - 48)) ds v, p + length ds)"
  using assms
proof (induction ds arbitrary: p v N)
  case Nil
  then obtain c where "read_at s p = Done c" "\<not> ISDIGIT c" using stops_read by fastforce
  then show ?case by (cases N) simp_all
next
  case (Cons d ds)
  from Cons.prems(4) obtain M where N: "N = Suc M" "length ds \<le> M" by (cases N) auto
  from suffix_at_Cons [of s p d "ds @ r"] Cons.prems(1)
  have "read_at s p = Done d" "suffix_at s (Suc p) (ds @ r)" by simp_all
  with Cons N show ?case by simp
qed

lemma fold_str_nat:
  "\<forall>c \<in> set ds. ISDIGIT c \<Longrightarrow>
     fold (\<lambda>c a. a * 10 + (of_char c - 48)) ds (int v) = int (fold (\<lambda>c a. 10 * a + (of_char c - 48)) ds v)"
proof (induction ds arbitrary: v)
  case (Cons d ds)
  have "(of_char d :: int) = int (of_char d)" by (metis of_nat_of_char)
  then have "(of_char d :: int) - 48 = int (of_char d - 48)"
    using Cons.prems by (simp add: ISDIGIT_def of_nat_diff)
  then have "int v * 10 + (of_char d - 48) = int (10 * v + (of_char d - 48))" by simp
  with Cons.IH [of "10 * v + (of_char d - 48)"] Cons.prems show ?case by (simp add: mult.commute)
qed simp

lemma scan_digits_at:
  assumes "suffix_at s p (last_digits N n @ r)" "n < 10 ^ N" "stops r"
  shows "scanAndReadNDigitsInt s p N = Done (True, int n, p + N)"
    "scan_number_N s p N = Done (Some (int n, p + N))"
proof -
  have d: "\<forall>c \<in> set (last_digits N n). ISDIGIT c" by (auto dest: last_digits_ISDIGIT)
  have "fold (\<lambda>c a. a * 10 + (of_char c - 48)) (last_digits N n) 0 = int n"
    using fold_str_nat [OF d, of 0] str_nat_last_digits [of N n] assms(2) by (simp add: str_nat_def)
  then show "scanAndReadNDigitsInt s p N = Done (True, int n, p + N)"
    using digits_N_at [OF assms(1) d assms(3), of "Suc N" 0] by (simp add: scanAndReadNDigitsInt_def)
  then show "scan_number_N s p N = Done (Some (int n, p + N))" by (simp add: scan_number_N_def)
qed

lemma and_then_Some [simp]: "and_then (Done (Some x)) f = f x"
  by (simp add: and_then_def)

lemma printf_d_digits:
  assumes "0 < n" "nat \<bar>x\<bar> < 10 ^ n"
  shows "printf_d n x = (if x < 0 then ''-'' else []) @ last_digits n (nat \<bar>x\<bar>)"
    "printf_plus_d n x = (if x < 0 then ''-'' else ''+'') @ last_digits n (nat \<bar>x\<bar>)"
  using padded_last_digits [OF assms(2,1)] by (simp_all add: printf_d_def printf_plus_d_def)

text \<open>A year, a month and a day as they are printed, and then something else.\<close>

definition ymd :: "int \<Rightarrow> int \<Rightarrow> int \<Rightarrow> string" where
  "ymd y m d = printf_d 4 y @ ''-'' @ printf_d 2 m @ ''-'' @ printf_d 2 d"

lemma scan_date_at:
  assumes s: "s = CHR 0x22 # ymd y m d @ r" and "stops r"
    and b: "\<bar>y\<bar> < 10000" "0 \<le> m" "m < 100" "0 \<le> d" "d < 100"
  shows "\<exists>p. scan_date s = Done (Some (y, m, d, p)) \<and> suffix_at s p r"
proof -
  have nats: "nat \<bar>y\<bar> < 10 ^ 4" "nat m < 10 ^ 2" "nat d < 10 ^ 2" using b by simp_all
  have ymd: "ymd y m d = (if y < 0 then ''-'' else []) @ last_digits 4 (nat \<bar>y\<bar>) @ CHR ''-'' #
      last_digits 2 (nat m) @ CHR ''-'' # last_digits 2 (nat d)"
    using b nats by (simp add: ymd_def printf_d_digits)
  define q where "q = (if y < 0 then 2 else 1 :: nat)"
  have s1: "suffix_at s 1 (ymd y m d @ r)" using s by (simp add: suffix_at_def)
  have first: "read_at s 1 = Done CHR ''-'' \<longleftrightarrow> y < 0" and
    y: "suffix_at s q (last_digits 4 (nat \<bar>y\<bar>) @ CHR ''-'' # last_digits 2 (nat m) @
        CHR ''-'' # last_digits 2 (nat d) @ r)"
  proof -
    obtain c u where cu: "last_digits 4 (nat \<bar>y\<bar>) = c # u"
      by (metis Zero_not_Suc length_0_conv length_last_digits neq_Nil_conv numeral_eq_Suc)
    then have "ISDIGIT c" by (metis last_digits_ISDIGIT list.set_intros(1))
    then have "c \<noteq> CHR ''-''" using digit_not_space by blast
    then show "read_at s 1 = Done CHR ''-'' \<longleftrightarrow> y < 0"
      using s1 cu by (auto simp: ymd dest!: suffix_at_Cons split: if_splits)
    show "suffix_at s q (last_digits 4 (nat \<bar>y\<bar>) @ CHR ''-'' # last_digits 2 (nat m) @
        CHR ''-'' # last_digits 2 (nat d) @ r)"
      using s1 suffix_at_Cons [of s 1] by (auto simp: ymd q_def numeral_2_eq_2 split: if_splits)
  qed
  obtain c where c: "read_at s 1 = Done c" using suffix_at_read [OF s1] by blast
  have sign: "scanOptionalMinusSign s 2 1 = Done (if y < 0 then -1 else 1, q)"
    using first c by (auto simp: scanOptionalMinusSign_def q_def)
  note y1 = suffix_at_append [OF y] note y2 = suffix_at_Cons [OF y1, THEN conjunct2]
  note m1 = suffix_at_append [OF y2] note m2 = suffix_at_Cons [OF m1, THEN conjunct2]
  note d1 = suffix_at_append [OF m2]
  note scans = sign scan_digits_at(2) [OF y nats(1) stops_simps(2)] expect_char_at [OF y1 [unfolded length_last_digits]]
    scan_digits_at(2) [OF y2 [unfolded length_last_digits] nats(2) stops_simps(2)]
    expect_char_at [OF m1 [unfolded length_last_digits]]
    scan_digits_at(2) [OF m2 [unfolded length_last_digits] nats(3) assms(2)]
  show ?thesis unfolding scan_date_def using scans d1 b by (auto simp: abs_if)
qed


section \<open>Dates\<close>

lemma four_digits: "n < 10000 \<Longrightarrow> last_digits 4 n =
    [digit_char (n div 1000), digit_char (n mod 1000 div 100), digit_char (n mod 100 div 10), digit_char (n mod 10)]"
proof -
  assume n: "n < 10000"
  have "n div 10 div 10 div 10 = n div 1000" by (simp add: div_mult2_eq [symmetric])
  moreover have "n div 10 div 10 mod 10 = n mod 1000 div 100"
    using mod_mult2_eq [of n 100 10] by (simp add: div_mult2_eq [symmetric])
  moreover have "n div 10 mod 10 = n mod 100 div 10" using mod_mult2_eq [of n 10 10] by simp
  moreover have "n div 1000 mod 10 = n div 1000" using n by simp
  moreover have "(4 :: nat) = Suc (Suc (Suc (Suc 0)))" by simp
  ultimately show ?thesis by (simp only: last_digits.simps append.simps)
qed

lemma two_digits: "n < 100 \<Longrightarrow> last_digits 2 n = [digit_char (n div 10), digit_char (n mod 10)]"
  by (simp add: numeral_2_eq_2)

lemma plus_zero_int: "0 \<le> i \<Longrightarrow> i < 10 \<Longrightarrow> plus_zero i = digit_char (nat i)"
  using plus_zero_digit [of "nat i"] by simp

lemma sdiv_pos: "0 \<le> a \<Longrightarrow> 0 < b \<Longrightarrow> a sdiv b = a div b" "0 \<le> a \<Longrightarrow> 0 < b \<Longrightarrow> a smod b = a mod b"
  for a b :: int
  by (auto simp: signed_divide_int_def signed_modulo_int_def sgn_if)

lemma calendar_bounds:
  "calendar_date y m d \<Longrightarrow> \<bar>y\<bar> < 10000 \<and> 1 \<le> m \<and> m \<le> 12 \<and> 1 \<le> d \<and> d \<le> 31"
  by (auto simp: calendar_date_def days_in_month_def split: if_splits)

lemma date_text_ymd:
  assumes "calendar_date (sint (date_year v)) (uint (date_month v)) (uint (date_day v))"
  shows "date_text v = CHR 0x22 # ymd (sint (date_year v)) (uint (date_month v)) (uint (date_day v)) @ [CHR 0x22]"
proof -
  define y where "y = sint (date_year v)"
  define m where "m = unat (date_month v)"
  define d where "d = unat (date_day v)"
  have b: "\<bar>y\<bar> < 10000" "m < 100" "d < 100"
    using calendar_bounds [OF assms] unfolding y_def m_def d_def nat_uint_eq [symmetric] by arith+
  have neg: "date_year v <s 0 \<longleftrightarrow> y < 0" by (simp add: y_def word_sless_alt)
  have abs: "sint (if date_year v <s 0 then - date_year v else date_year v) = \<bar>y\<bar>"
  proof (cases "y < 0")
    case True
    have "int (unat (- date_year v)) = - y"
      using unat_uminus [of "date_year v"] neg True y_def by (simp only: int_nat_eq) simp
    then have "uint (- date_year v) = - y" by simp
    moreover have "sint (word_of_int (- y) :: 16 word) = - y"
      using b True by (subst sint_sbintrunc') (simp add: signed_take_bit_int_eq_self)
    ultimately have "sint (- date_year v) = - y" by (metis word_of_int_uint)
    with True neg show ?thesis by simp
  qed (use neg in \<open>simp add: y_def\<close>)
  define n where "n = nat \<bar>y\<bar>"
  have n: "\<bar>y\<bar> = int n" "n < 10000" using b by (auto simp: n_def)
  have years: "int n sdiv 1000 = int (n div 1000)" "int n smod 1000 sdiv 100 = int (n mod 1000 div 100)"
    "int n smod 100 sdiv 10 = int (n mod 100 div 10)" "int n smod 10 = int (n mod 10)"
    by (simp_all only: sdiv_pos zdiv_int zmod_int of_nat_numeral of_nat_0_le_iff zero_less_numeral
        pos_mod_sign)
  have bytes: "uint w div 10 = int (unat w div 10)" "uint w mod 10 = int (unat w mod 10)" for w :: "8 word"
    by (simp_all only: zdiv_int zmod_int of_nat_numeral) simp_all
  have digits: "n div 1000 < 10" "n mod 1000 div 100 < 10" "n mod 100 div 10 < 10" "m div 10 < 10" "d div 10 < 10"
    using b n(2) by auto
  have "nat \<bar>y\<bar> = n" "nat \<bar>uint (date_month v)\<bar> = m" "nat \<bar>uint (date_day v)\<bar> = d"
    by (simp_all add: n_def m_def d_def)
  then have "ymd y (uint (date_month v)) (uint (date_day v)) = (if y < 0 then ''-'' else [])
      @ last_digits 4 n @ ''-'' @ last_digits 2 m @ ''-'' @ last_digits 2 d"
    using b n by (simp add: ymd_def printf_d_digits)
  then show ?thesis
    using digits unfolding date_text_def Let_def abs
    unfolding neg n(1) years bytes m_def [symmetric] d_def [symmetric]
      y_def [symmetric] four_digits [OF n(2)] two_digits [OF b(2)] two_digits [OF b(3)]
    by (simp add: plus_zero_digit)
qed

lemma quoted_text: "quoted (CHR 0x22 # t @ [CHR 0x22])"
  by (simp add: quoted_def nth_append)

lemma parse_date_text:
  assumes "calendar_date (sint (date_year v)) (uint (date_month v)) (uint (date_day v))"
  shows "parse_date (date_text v) = Done (Inr (edmDate v))"
proof -
  let ?y = "sint (date_year v)" and ?m = "uint (date_month v)" and ?d = "uint (date_day v)"
  have b: "\<bar>?y\<bar> < 10000" "0 \<le> ?m" "?m < 100" "0 \<le> ?d" "?d < 100"
    using calendar_bounds [OF assms] by auto
  obtain p where "scan_date (date_text v) = Done (Some (?y, ?m, ?d, p))"
    using scan_date_at [OF date_text_ymd [OF assms] stops_simps(8) b] by blast
  moreover have "quoted (date_text v)" unfolding date_text_ymd [OF assms] by (rule quoted_text)
  moreover have "ValidateDate ?y ?m ?d = 0" using assms by (simp add: ValidateDate_spec)
  ultimately show ?thesis by (simp add: parse_date_def Create_AGENT_DATA_TYPE_from_date_def)
qed


section \<open>Dates and times\<close>

text \<open>
  What is read back: no fraction and no offset when there is none, the day of the week and of
  the year filled in, and no word on daylight saving.
\<close>

definition canonical_date_time :: "EDM_DATE_TIME_OFFSET \<Rightarrow> EDM_DATE_TIME_OFFSET" where
  "canonical_date_time v =
     \<lparr>dateTime = fill_tm_yday_and_tm_wday ((dateTime v)\<lparr>tm_wday := 0, tm_yday := 0, tm_isdst := -1\<rparr>),
      hasFractionalSecond = hasFractionalSecond v,
      fractionalSecond = (if hasFractionalSecond v then fractionalSecond v else 0),
      hasTimeZone = hasTimeZone v,
      timeZoneHour = (if hasTimeZone v then timeZoneHour v else 0),
      timeZoneMinute = (if hasTimeZone v then timeZoneMinute v else 0)\<rparr>"

lemma scan_time_at:
  assumes "suffix_at s p (''T'' @ printf_d 2 h @ '':'' @ printf_d 2 m @ r)" "stops r"
    "0 \<le> h" "h < 100" "0 \<le> m" "m < 100"
  shows "scan_time s p = Done (Some (h, m))" "suffix_at s (p + 6) r"
proof -
  have n: "nat h < 10 ^ 2" "nat m < 10 ^ 2" using assms by simp_all
  have a0: "suffix_at s p (CHR ''T'' # last_digits 2 (nat h) @ CHR '':'' # last_digits 2 (nat m) @ r)"
    using assms n by (simp add: printf_d_digits)
  note a1 = suffix_at_Cons [OF a0, THEN conjunct2]
  note a2 = suffix_at_append [OF a1, unfolded length_last_digits]
  note a3 = suffix_at_Cons [OF a2, THEN conjunct2]
  note a4 = suffix_at_append [OF a3, unfolded length_last_digits]
  show "scan_time s p = Done (Some (h, m))"
    unfolding scan_time_def
    using expect_char_at [OF a0] scan_digits_at(2) [OF a1 n(1) stops_simps(3)] expect_char_at [OF a2]
      scan_digits_at(2) [OF a3 n(2) assms(2)] assms by simp
  show "suffix_at s (p + 6) r" using a4 by (simp add: eval_nat_numeral)
qed

lemma scan_seconds_at:
  assumes "suffix_at s p (CHR '':'' # last_digits 2 n @ r)" "n < 100" "stops r"
  shows "scan_seconds s p = Done (Some (int n, p + 3))" "suffix_at s (p + 3) r"
proof -
  note a0 = suffix_at_Cons [OF assms(1)]
  note a1 = suffix_at_append [OF a0 [THEN conjunct2], unfolded length_last_digits]
  have "scan_number_N s (Suc p) 2 = Done (Some (int n, Suc p + 2))"
    by (rule scan_digits_at(2)) (use a0 assms in auto)
  with a0 show "scan_seconds s p = Done (Some (int n, p + 3))"
    by (simp add: scan_seconds_def sscanf2d_def)
  show "suffix_at s (p + 3) r" using a1 by (simp add: eval_nat_numeral)
qed

lemma skip_digits_at:
  "suffix_at s p (ds @ r) \<Longrightarrow> \<forall>c \<in> set ds. ISDIGIT c \<Longrightarrow> stops r \<Longrightarrow> skip_digits s p = Done (p + length ds)"
proof (induction ds arbitrary: p)
  case Nil
  then obtain c where "read_at s p = Done c" "\<not> ISDIGIT c" using stops_read by fastforce
  then show ?case by (subst skip_digits.simps) simp
next
  case (Cons d ds)
  then have "read_at s p = Done d" "suffix_at s (Suc p) (ds @ r)"
    using suffix_at_Cons [of s p d "ds @ r"] by simp_all
  with Cons show ?case by (subst skip_digits.simps) simp
qed

lemma scan_number_digits:
  assumes "n < 10 ^ k" "0 < k" "stops r"
  shows "scan_number (last_digits k n @ r) = Some (False, n, r)"
proof -
  obtain c u where cu: "last_digits k n = c # u"
    by (metis assms(2) length_0_conv length_last_digits less_irrefl neq_Nil_conv)
  have all: "\<forall>c \<in> set (last_digits k n). ISDIGIT c" by (auto dest: last_digits_ISDIGIT)
  then have c: "\<not> isspace c" "c \<noteq> CHR ''-''" "c \<noteq> CHR ''+''" using cu digit_not_space [of c] by auto
  have r: "takeWhile ISDIGIT r = []" "dropWhile ISDIGIT r = r"
    using assms(3) by (cases r; simp add: stops_def)+
  have "takeWhile ISDIGIT (last_digits k n @ r) = last_digits k n"
    using all r by (simp add: takeWhile_append2)
  moreover have "dropWhile ISDIGIT (last_digits k n @ r) = r"
    using all r by (simp add: dropWhile_append2)
  ultimately show ?thesis
    using cu c assms(1) str_nat_last_digits [of k n] by (auto simp: scan_number_def Let_def)
qed

lemma scan_fraction_at:
  assumes "suffix_at s p (CHR ''.'' # last_digits 12 n @ c # r)" "n < 10 ^ 12" "\<not> ISDIGIT c" "c \<noteq> NUL"
  shows "scan_fraction s p errno = Done (Some (True, n, p + 13))" "suffix_at s (p + 13) (c # r)"
proof -
  have st: "stops (c # r)" using assms(3) by (simp add: stops_def)
  note a0 = suffix_at_Cons [OF assms(1)]
  note a1 = suffix_at_append [OF a0 [THEN conjunct2], unfolded length_last_digits]
  have skip: "skip_digits s (Suc p) = Done (Suc p + 12)"
    using skip_digits_at [OF a0 [THEN conjunct2] _ st] last_digits_ISDIGIT by auto
  have "strtoul 64 (last_digits 12 n @ c # r) errno = Some (n, c # r, errno)"
    using assms(2) by (simp add: strtoul_def scan_number_digits [OF assms(2) _ st])
  then have "sscanfdotllu (CHR ''.'' # last_digits 12 n @ c # r) errno = Some n"
    using assms(2) by (simp add: sscanfdotllu_def sscanfllu_def)
  with a0 suffix_at_Cons [OF a1] skip suffix_at_text [OF assms(1)] assms(4)
  show "scan_fraction s p errno = Done (Some (True, n, p + 13))"
    by (simp add: scan_fraction_def)
  show "suffix_at s (p + 13) (c # r)" using a1 by (simp add: eval_nat_numeral)
qed

lemma scan_no_fraction:
  "suffix_at s p (c # r) \<Longrightarrow> c \<noteq> CHR ''.'' \<Longrightarrow> scan_fraction s p errno = Done (Some (False, 0, p))"
  by (drule suffix_at_Cons) (simp add: scan_fraction_def)

lemma scan_zone_at:
  assumes "suffix_at s p (printf_plus_d 2 h @ CHR '':'' # last_digits 2 n @ r)" "\<bar>h\<bar> < 100" "n < 100" "stops r"
  shows "sscanf3d2d s p = Done (True, h, int n)"
proof -
  have h: "nat \<bar>h\<bar> < 10 ^ 2" using assms(2) by simp
  obtain c where c: "c = (if h < 0 then CHR ''-'' else CHR ''+'')" by blast
  have a: "suffix_at s p (c # last_digits 2 (nat \<bar>h\<bar>) @ CHR '':'' # last_digits 2 n @ r)"
    using assms(1) h by (simp add: printf_d_digits c split: if_splits)
  note a0 = suffix_at_Cons [OF a]
  note a1 = suffix_at_append [OF a0 [THEN conjunct2], unfolded length_last_digits]
  note a2 = suffix_at_Cons [OF a1, THEN conjunct2]
  have "scanAndReadNDigitsInt s (Suc p) 2 = Done (True, \<bar>h\<bar>, Suc p + 2)"
    using scan_digits_at(1) [OF a0 [THEN conjunct2] h stops_simps(3)] by simp
  moreover have "scanAndReadNDigitsInt s (Suc (Suc p + 2)) 2 = Done (True, int n, Suc (Suc p + 2) + 2)"
    using scan_digits_at(1) [OF a2 _ assms(4)] assms(3) by simp
  ultimately show ?thesis
    using a0 expect_char_at [OF a1] c by (cases "h < 0") (simp_all add: sscanf3d2d_def Let_def)
qed

lemma scan_no_zone:
  assumes "suffix_at s p (CHR ''Z'' # r)"
  shows "sscanf3d2d s p = Done (False, 0, 0)"
proof -
  have "scanAndReadNDigitsInt s p 3 = Done (False, 0, p)"
  proof -
    have "digits_N s p 0 (Suc 3) = Done (Suc 3, 0, p)"
      using digits_N_at [of s p "[]" "CHR ''Z'' # r" "Suc 3" 0] assms by (simp del: digits_N.simps)
    then show ?thesis by (simp add: scanAndReadNDigitsInt_def del: digits_N.simps)
  qed
  with suffix_at_Cons [OF assms] show ?thesis by (simp add: sscanf3d2d_def Let_def)
qed


lemma date_time_sources:
  assumes "date_time_ok v"
  defines "t \<equiv> dateTime v"
  shows "calendar_date (sint (tm_year t + 1900)) (sint (tm_mon t + 1)) (sint (tm_mday t))"
    "0 \<le> sint (tm_hour t)" "sint (tm_hour t) \<le> 23" "0 \<le> sint (tm_min t)" "sint (tm_min t) \<le> 59"
    "0 \<le> sint (tm_sec t)" "sint (tm_sec t) \<le> 59"
  using assms(1) by (auto simp: date_time_ok_def t_def)

lemma no_colon_digits: "CHR '':'' \<notin> set (last_digits k n)"
  by (auto dest: last_digits_ISDIGIT simp: ISDIGIT_def)

lemma find_colon_append: "CHR '':'' \<notin> set a \<Longrightarrow> find_colon (a @ CHR '':'' # b) = Some (length a)"
  by (induction a) (auto simp: find_colon_def split: if_splits)

lemma word_sub_add:
  fixes w c :: "'w::len word"
  shows "word_of_int (sint (w + c) - k) = w + c - word_of_int k"
  by (simp add: wi_hom_sub [symmetric])

lemma make_canonical:
  assumes "date_time_ok v"
  defines "t \<equiv> dateTime v"
  shows "make_date_time (sint (tm_year t + 1900)) (sint (tm_mon t + 1)) (sint (tm_mday t)) (sint (tm_hour t))
      (sint (tm_min t)) (sint (tm_sec t)) (hasFractionalSecond v)
      (if hasFractionalSecond v then unat (fractionalSecond v) else 0) (hasTimeZone v)
      (if hasTimeZone v then sint (timeZoneHour v) else 0) (if hasTimeZone v then uint (timeZoneMinute v) else 0) =
    Inr (edmDateTimeOffset (canonical_date_time v))"
proof -
  have "hasFractionalSecond v \<Longrightarrow> int (unat (fractionalSecond v)) \<le> int 999999999999"
    using assms(1) by (simp add: date_time_ok_def)
  then have "hasFractionalSecond v \<Longrightarrow> unat (fractionalSecond v) \<le> 999999999999"
    by (simp only: of_nat_le_iff)
  then have ok: "hasFractionalSecond v \<Longrightarrow> unat (fractionalSecond v) \<le> 999999999999"
    "hasTimeZone v \<Longrightarrow> -23 \<le> sint (timeZoneHour v) \<and> sint (timeZoneHour v) \<le> 23 \<and> uint (timeZoneMinute v) \<le> 59"
    using assms(1) by (simp_all add: date_time_ok_def)
  have fields: "\<lparr>tm_sec = tm_sec t, tm_min = tm_min t, tm_hour = tm_hour t, tm_mday = tm_mday t,
      tm_mon = tm_mon t, tm_year = tm_year t, tm_wday = 0, tm_yday = 0, tm_isdst = -1\<rparr> =
      t\<lparr>tm_wday := 0, tm_yday := 0, tm_isdst := -1\<rparr>" by simp
  have w: "word_of_int (sint (tm_year t + 1900) - 1900) = tm_year t"
    "word_of_int (sint (tm_mon t + 1) - 1) = tm_mon t"
    by (simp_all add: word_sub_add)
  define f where "f = (if hasFractionalSecond v then unat (fractionalSecond v) else 0)"
  define h where "h = (if hasTimeZone v then sint (timeZoneHour v) else 0)"
  define m where "m = (if hasTimeZone v then uint (timeZoneMinute v) else 0)"
  have b: "\<not> 999999999999 < f" "\<not> h < -23" "\<not> 23 < h" "\<not> m < 0" "\<not> 59 < m"
    using ok by (auto simp: f_def h_def m_def not_less)
  have "of_nat f = (if hasFractionalSecond v then fractionalSecond v else 0)"
    "word_of_int h = (if hasTimeZone v then timeZoneHour v else 0)"
    "word_of_int m = (if hasTimeZone v then timeZoneMinute v else 0)"
    by (simp_all add: f_def h_def m_def)
  with b w date_time_sources [OF assms(1), folded t_def] show ?thesis
    unfolding f_def [symmetric] h_def [symmetric] m_def [symmetric]
    by (simp add: make_date_time_def ValidateDate_spec canonical_date_time_def t_def [symmetric] fields not_less)
qed

lemma parse_date_time_text:
  assumes ok: "date_time_ok v" and printed: "date_time_text long_bits v = Some s"
  shows "parse_date_time s errno = Done (Inr (edmDateTimeOffset (canonical_date_time v)))"
proof -
  define t where "t = dateTime v"
  note src = date_time_sources [OF ok, folded t_def]
  let ?y = "sint (tm_year t + 1900)" and ?mo = "sint (tm_mon t + 1)" and ?d = "sint (tm_mday t)"
    and ?h = "sint (tm_hour t)" and ?mi = "sint (tm_min t)" and ?se = "sint (tm_sec t)"
  define tail where "tail = (if hasTimeZone v then zone_text v else ''Z'') @ [CHR 0x22]"
  define fr where "fr = (if hasFractionalSecond v then fraction_text v else []) @ tail"
  define sr where "sr = CHR '':'' # last_digits 2 (nat ?se) @ fr"
  define tr where "tr = ''T'' @ printf_d 2 ?h @ '':'' @ printf_d 2 ?mi @ sr"
  have sec: "printf_d 2 ?se = last_digits 2 (nat ?se)" using src by (simp add: printf_d_digits)
  have s: "s = CHR 0x22 # ymd ?y ?mo ?d @ tr"
    using printed unfolding date_time_texts_fit date_time_prefix_def t_def [symmetric] ymd_def tr_def sr_def fr_def
      tail_def sec by simp
  have q: "quoted s"
  proof -
    obtain u where "s = CHR 0x22 # u @ [CHR 0x22]"
      by (rule that [of "ymd ?y ?mo ?d @ ''T'' @ printf_d 2 ?h @ '':'' @ printf_d 2 ?mi @ '':''
          @ last_digits 2 (nat ?se) @ (if hasFractionalSecond v then fraction_text v else [])
          @ (if hasTimeZone v then zone_text v else ''Z'')"])
        (simp add: s tr_def sr_def fr_def tail_def)
    then show ?thesis by (simp only: quoted_text)
  qed
  have st: "stops tr" "stops sr" by (simp_all add: tr_def sr_def)
  obtain p where date: "scan_date s = Done (Some (?y, ?mo, ?d, p))" and p: "suffix_at s p tr"
    using scan_date_at [OF s st(1)] calendar_bounds [OF src(1)] by auto
  have time: "scan_time s p = Done (Some (?h, ?mi))" and p6: "suffix_at s (p + 6) sr"
    using scan_time_at [OF p [unfolded tr_def] st(2)] src by auto
  have colon: "find_colon s = Some (p + 3)"
  proof -
    define a where "a = CHR 0x22 # ymd ?y ?mo ?d @ ''T'' @ last_digits 2 (nat ?h)"
    have h: "printf_d 2 ?h = last_digits 2 (nat ?h)" using src by (simp add: printf_d_digits)
    have sa: "s = a @ CHR '':'' # printf_d 2 ?mi @ sr" by (simp add: s tr_def a_def h)
    have "length s - p = length tr" "p \<le> length s" using p by (auto simp: suffix_at_def)
    then have "length a = p + 3" by (simp add: s a_def)
    moreover have "CHR '':'' \<notin> set a"
      using calendar_bounds [OF src(1)] no_colon_digits by (auto simp: a_def ymd_def printf_d_digits)
    ultimately show ?thesis unfolding sa using find_colon_append [of a] by simp
  qed
  have st_fr: "stops fr" by (simp add: fr_def tail_def fraction_text_def zone_text_def printf_plus_d_def)
  have secs: "scan_seconds s (p + 6) = Done (Some (?se, p + 9))" and p9: "suffix_at s (p + 9) fr"
    using scan_seconds_at [OF p6 [unfolded sr_def] _ st_fr] src by (simp_all add: add.commute)
  obtain c r where tail: "tail = c # r" and c: "\<not> ISDIGIT c" "c \<noteq> NUL" "c \<noteq> CHR ''.''"
  proof (cases "hasTimeZone v")
    case True
    then show thesis
      by (cases "sint (timeZoneHour v) < 0")
        (auto simp: tail_def zone_text_def printf_plus_d_def ISDIGIT_def intro!: that)
  qed (auto simp: tail_def ISDIGIT_def intro!: that)
  define f where "f = (if hasFractionalSecond v then unat (fractionalSecond v) else 0)"
  obtain q where frac: "scan_fraction s (p + 9) errno = Done (Some (hasFractionalSecond v, f, q))"
    and q_tail: "suffix_at s q tail"
  proof (cases "hasFractionalSecond v")
    case True
    then have "int (unat (fractionalSecond v)) < int (10 ^ 12)" using ok by (simp add: date_time_ok_def)
    then have n: "unat (fractionalSecond v) < 10 ^ 12" by (simp only: of_nat_less_iff)
    have "fr = CHR ''.'' # last_digits 12 (unat (fractionalSecond v)) @ c # r"
      using True padded_last_digits [OF n] by (simp add: fr_def fraction_text_def tail)
    from scan_fraction_at [OF p9 [unfolded this] n c(1,2)] True show thesis
      by (intro that [of "p + 9 + 13"]) (simp_all add: f_def tail)
  next
    case False
    from scan_no_fraction [of s "p + 9" c r errno] p9 False c(3) show thesis
      by (intro that [of "p + 9"]) (simp_all add: f_def fr_def tail)
  qed
  define h where "h = (if hasTimeZone v then sint (timeZoneHour v) else 0)"
  define m where "m = (if hasTimeZone v then uint (timeZoneMinute v) else 0)"
  have zone: "sscanf3d2d s q = Done (hasTimeZone v, h, m)"
  proof (cases "hasTimeZone v")
    case True
    with ok have b: "\<bar>h\<bar> < 100" "unat (timeZoneMinute v) < 100"
      by (auto simp: h_def date_time_ok_def simp flip: nat_uint_eq)
    have "printf_d 2 (uint (timeZoneMinute v)) = last_digits 2 (unat (timeZoneMinute v))"
      using b(2) by (simp add: printf_d_digits)
    then have "tail = printf_plus_d 2 h @ CHR '':'' # last_digits 2 (unat (timeZoneMinute v)) @ [CHR 0x22]"
      using True by (simp add: tail_def zone_text_def h_def)
    from scan_zone_at [OF q_tail [unfolded this] b] True show ?thesis by (simp add: m_def)
  next
    case False
    then have "tail = CHR ''Z'' # [CHR 0x22]" by (simp add: tail_def)
    from scan_no_zone [OF q_tail [unfolded this]] False show ?thesis by (simp add: h_def m_def)
  qed
  have "text_at s q = Done tail" using q_tail by (rule suffix_at_text)
  moreover have "tail = [CHR ''Z'', CHR 0x22] \<or> hasTimeZone v" by (simp add: tail_def)
  ultimately show ?thesis
    using q date time colon secs frac zone make_canonical [OF ok, folded t_def f_def h_def m_def]
    by (simp add: parse_date_time_def parse_time_rest_def add.commute [of p])
qed


section \<open>The calendar\<close>

text \<open>
  The day after a date, and the day of the week and of the year of a date, by the code's formula.
\<close>

definition next_day :: "int \<times> int \<times> int \<Rightarrow> int \<times> int \<times> int" where
  "next_day = (\<lambda>(y, m, d). if d < days_in_month y m then (y, m, d + 1)
     else if m < 12 then (y, m + 1, 1) else (y + 1, 1, 1))"

definition tm_of_date :: "int \<times> int \<times> int \<Rightarrow> tm" where
  "tm_of_date = (\<lambda>(y, m, d). \<lparr>tm_sec = 0, tm_min = 0, tm_hour = 0, tm_mday = word_of_int d,
     tm_mon = word_of_int (m - 1), tm_year = word_of_int (y - 1900), tm_wday = 0, tm_yday = 0, tm_isdst = 0\<rparr>)"

definition weekday :: "int \<times> int \<times> int \<Rightarrow> int" where
  "weekday date = sint (tm_wday (fill_tm_yday_and_tm_wday (tm_of_date date)))"

definition yearday :: "int \<times> int \<times> int \<Rightarrow> int" where
  "yearday date = sint (tm_yday (fill_tm_yday_and_tm_wday (tm_of_date date)))"

lemma sint_small: "\<bar>i\<bar> < 2147483648 \<Longrightarrow> sint (word_of_int i :: 32 word) = i"
  by (subst sint_sbintrunc') (simp add: signed_take_bit_int_eq_self)

definition yday_of :: "int \<Rightarrow> int \<Rightarrow> int \<Rightarrow> int" where
  "yday_of y m d = daysInAllPreviousMonths (nat (m - 1)) + (d - 1) + (if 2 < m \<and> leap_year y then 1 else 0)"

definition wday_of :: "int \<Rightarrow> int \<Rightarrow> int \<Rightarrow> int" where
  "wday_of y m d = (let Y = y + 10000 in
     (365 * Y + ((Y - 1) div 4 - (Y - 1) div 100 + (Y - 1) div 400) + yday_of y m d) mod 7)"

lemma previous_months [simp]:
  "daysInAllPreviousMonths 1 = 31" "daysInAllPreviousMonths 2 = 59" "daysInAllPreviousMonths 3 = 90"
  "daysInAllPreviousMonths 4 = 120" "daysInAllPreviousMonths 5 = 151" "daysInAllPreviousMonths 6 = 181"
  "daysInAllPreviousMonths 7 = 212" "daysInAllPreviousMonths 8 = 243" "daysInAllPreviousMonths 9 = 273"
  "daysInAllPreviousMonths 10 = 304" "daysInAllPreviousMonths 11 = 334"
  by (simp_all add: eval_nat_numeral)

lemma twelve_months:
  "1 \<le> m \<Longrightarrow> m \<le> 12 \<Longrightarrow> m = 1 \<or> m = 2 \<or> m = 3 \<or> m = 4 \<or> m = 5 \<or> m = 6 \<or> m = 7 \<or> m = 8 \<or> m = 9
     \<or> m = 10 \<or> m = 11 \<or> m = 12" for m :: int
  by presburger

lemma isLeapYear_iff: "isLeapYear (y + 10000) \<longleftrightarrow> leap_year y"
proof -
  have "(400 :: int) dvd 10000" "(4 :: int) dvd 10000" "(100 :: int) dvd 10000" by simp_all
  then show ?thesis
    by (simp add: isLeapYear_def leap_year_def smod_eq_0_iff dvd_add_left_iff)
qed

lemma leaps_nonneg: "0 \<le> Z div 4 - Z div 100 + Z div 400" if "0 \<le> Z" for Z :: int
proof -
  have "Z div 100 \<le> Z div 4" using that by (intro zdiv_mono2) simp_all
  moreover have "0 \<le> Z div 400" using that by (simp add: pos_imp_zdiv_nonneg_iff)
  ultimately show ?thesis by simp
qed

lemma fill_date:
  assumes "calendar_date y m d"
  shows "yearday (y, m, d) = yday_of y m d" "weekday (y, m, d) = wday_of y m d"
proof -
  note b = calendar_bounds [OF assms]
  define t where "t = tm_of_date (y, m, d)"
  have year: "\<bar>y - 1900\<bar> < 2147483648" using b by linarith
  have f: "sint (tm_year t) + 1900 + 10000 = y + 10000" "sint (tm_mon t) = m - 1" "sint (tm_mday t) = d"
    using b sint_small [of "y - 1900"] sint_small [of "m - 1"] sint_small [of d] year
    by (simp_all add: t_def tm_of_date_def del: of_int_diff)
  have yd: "daysInAllPreviousMonths (nat (m - 1)) + (d - 1) + (if 1 < m - 1 \<and> isLeapYear (y + 10000) then 1 else 0)
      = yday_of y m d"
    by (simp add: yday_of_def isLeapYear_iff)
  have r: "0 \<le> yday_of y m d" "yday_of y m d \<le> 366"
    using b twelve_months [of m] by (auto simp: yday_of_def)
  have Y: "0 \<le> y + 10000 - 1" using b by linarith
  have pos: "0 \<le> 365 * (y + 10000) + ((y + 10000 - 1) div 4 - (y + 10000 - 1) div 100
      + (y + 10000 - 1) div 400) + yday_of y m d"
    by (intro add_nonneg_nonneg leaps_nonneg r(1) Y) (use Y in simp)
  have wd: "(365 * (y + 10000) + ((y + 10000 - 1) sdiv 4 - (y + 10000 - 1) sdiv 100 + (y + 10000 - 1) sdiv 400)
      + yday_of y m d) smod 7 = wday_of y m d"
    using Y pos by (simp only: sdiv_pos(1) zero_less_numeral sdiv_pos(2) wday_of_def Let_def)
  show "yearday (y, m, d) = yday_of y m d" "weekday (y, m, d) = wday_of y m d"
    unfolding yearday_def weekday_def t_def [symmetric] fill_tm_yday_and_tm_wday_def Let_def f yd wd
    using r by (simp_all add: sint_small wday_of_def Let_def)
qed


lemma year_step:
  fixes Y :: int
  shows "Y div 4 - Y div 100 + Y div 400 =
    (Y - 1) div 4 - (Y - 1) div 100 + (Y - 1) div 400 + (if leap_year Y then 1 else 0)"
proof -
  have step: "Y div k = (Y - 1) div k + (if k dvd Y then 1 else 0)" if "0 < k" for k :: int
  proof (cases "k dvd Y")
    case True
    then obtain j where j: "Y = k * j" by blast
    have "(k * j - 1) div k = j - 1"
      using that by (intro int_div_pos_eq [of _ _ _ "k - 1"]) (simp_all add: algebra_simps)
    with True j that show ?thesis by simp
  next
    case False
    have "Y - 1 = k * (Y div k) + (Y mod k - 1)" by simp
    moreover have "0 \<le> Y mod k - 1" "Y mod k - 1 < k"
    proof -
      have "0 \<le> Y mod k" "Y mod k < k" "Y mod k \<noteq> 0" using that False by (simp_all add: dvd_eq_mod_eq_0)
      then show "0 \<le> Y mod k - 1" "Y mod k - 1 < k" by linarith+
    qed
    ultimately have "(Y - 1) div k = Y div k" by (rule int_div_pos_eq)
    with False show ?thesis by simp
  qed
  have "400 dvd Y \<Longrightarrow> 100 dvd Y" "100 dvd Y \<Longrightarrow> 4 dvd Y" by (auto elim!: dvd_trans [rotated])
  with step [of 4] step [of 100] step [of 400] show ?thesis by (auto simp: leap_year_def)
qed

lemma leap_year_shift: "leap_year (y + 10000) = leap_year y"
  by (auto simp: leap_year_def dvd_add_left_iff)

lemma same_year:
  "yday_of y m' d' = yday_of y m d + 1 \<Longrightarrow> wday_of y m' d' = (wday_of y m d + 1) mod 7"
  by (simp add: wday_of_def Let_def mod_simps add.assoc)

text \<open>
  C34: The day of the week and the day of the year that are filled in advance with the calendar
  from one date to the next, from the years of four digits before the era to those after, the day
  of the year restarts at 0 each January, and 1 January 2000 was a Saturday.
\<close>

theorem weekdays_follow_the_calendar:
  assumes "calendar_date y m d" "calendar_date y' m' d'" "next_day (y, m, d) = (y', m', d')"
  shows "weekday (y', m', d') = (weekday (y, m, d) + 1) mod 7
    \<and> yearday (y', m', d') = (if y' = y then yearday (y, m, d) + 1 else 0)
    \<and> weekday (2000, 1, 1) = 6"
proof -
  have base: "calendar_date 2000 1 1" by (simp add: calendar_date_def days_in_month_def)
  have "wday_of 2000 1 1 = 6"
    by (simp add: wday_of_def yday_of_def)
  moreover have "wday_of y' m' d' = (wday_of y m d + 1) mod 7
      \<and> yday_of y' m' d' = (if y' = y then yday_of y m d + 1 else 0)"
  proof (cases "d < days_in_month y m")
    case True
    with assms(3) have "y' = y" "m' = m" "d' = d + 1" by (auto simp: next_day_def)
    then have yd: "y' = y" "yday_of y' m' d' = yday_of y m d + 1" by (simp_all add: yday_of_def)
    then show ?thesis by (simp add: same_year)
  next
    case False
    with assms(1) have d: "d = days_in_month y m" "1 \<le> m" "m \<le> 12" by (auto simp: calendar_date_def)
    show ?thesis
    proof (cases "m < 12")
      case True
      with False assms(3) have next_month: "y' = y" "m' = m + 1" "d' = 1" by (auto simp: next_day_def)
      have "m = 1 \<or> m = 2 \<or> m = 3 \<or> m = 4 \<or> m = 5 \<or> m = 6 \<or> m = 7 \<or> m = 8 \<or> m = 9 \<or> m = 10 \<or> m = 11"
        using True d by presburger
      then have "yday_of y (m + 1) 1 = yday_of y m d + 1"
        unfolding d(1) yday_of_def
        by (elim disjE) (simp_all add: days_in_month_def)
      then show ?thesis by (simp add: next_month same_year)
    next
      case december: False
      with False assms(3) d have new_year: "y' = y + 1" "m' = 1" "d' = 1" "m = 12" "d = 31"
        by (auto simp: next_day_def days_in_month_def)
      define A where "A = 365 * (y + 10000) + ((y + 10000 - 1) div 4 - (y + 10000 - 1) div 100
          + (y + 10000 - 1) div 400) + yday_of y 12 31"
      have "365 * (y + 1 + 10000) + ((y + 1 + 10000 - 1) div 4 - (y + 1 + 10000 - 1) div 100
          + (y + 1 + 10000 - 1) div 400) + yday_of (y + 1) 1 1 = A + 1"
        using year_step [of "y + 10000"] leap_year_shift [of y] unfolding A_def
        by (simp add: yday_of_def algebra_simps)
      then have "wday_of (y + 1) 1 1 = (A + 1) mod 7" by (simp only: wday_of_def Let_def)
      also have "\<dots> = (wday_of y 12 31 + 1) mod 7"
        by (simp only: wday_of_def Let_def A_def mod_add_left_eq)
      finally show ?thesis by (simp add: new_year yday_of_def)
    qed
  qed
  ultimately show ?thesis using assms base by (simp add: fill_date)
qed

theorem weekdays_follow_the_calendar_witness:
  "weekday (2024, 1, 1) = (weekday (2023, 12, 31) + 1) mod 7 \<and> yearday (2024, 1, 1) = 0 \<and> weekday (2000, 1, 1) = 6"
  using weekdays_follow_the_calendar [of 2023 12 31 2024 1 1]
  by (simp add: calendar_date_def days_in_month_def next_day_def)

end
