(* ===== verification/EdmBytes.thy ===== *)
theory EdmBytes
  imports EdmDates
begin

unbundle bit_operations_syntax

text \<open>
  Bytes and GUIDs of the type system as text (serializer/src/agenttypesystem.c): base64 and GUIDs read
  back as they were printed; and reading any text, of any type, stays inside the text and inside the
  buffer for the bytes, and ends.
\<close>

section \<open>Base64 characters\<close>

lemma base64_inverse: "base64toValue (base64char v) = Some v" if "v < 64" for v :: "8 word"
proof -
  have n: "unat v < 64" using that by (simp add: word_less_nat_alt)
  have "v = of_nat (unat v)" by simp
  then have "unat v = 62 \<Longrightarrow> v = 62" "unat v = 63 \<Longrightarrow> v = 63" by (metis of_nat_numeral)+
  with n have "v = 62 \<or> v = 63 \<or> unat v < 62" by linarith
  then show ?thesis
    by (auto simp: base64char_def base64toValue_def Let_def word_less_nat_alt)
qed

lemma base64_special [simp]: "base64toValue CHR 0x22 = None" "base64toValue CHR ''='' = None" "base64toValue NUL = None"
  by (simp_all add: base64toValue_def)

lemma chars_of_codes:
  "char_of (48 :: nat) = CHR ''0''" "char_of (52 :: nat) = CHR ''4''" "char_of (56 :: nat) = CHR ''8''"
  "char_of (65 :: nat) = CHR ''A''" "char_of (69 :: nat) = CHR ''E''" "char_of (73 :: nat) = CHR ''I''"
  "char_of (77 :: nat) = CHR ''M''" "char_of (81 :: nat) = CHR ''Q''" "char_of (85 :: nat) = CHR ''U''"
  "char_of (89 :: nat) = CHR ''Y''" "char_of (99 :: nat) = CHR ''c''" "char_of (103 :: nat) = CHR ''g''"
  "char_of (107 :: nat) = CHR ''k''" "char_of (111 :: nat) = CHR ''o''" "char_of (115 :: nat) = CHR ''s''"
  "char_of (119 :: nat) = CHR ''w''"
  by code_simp+

lemma sixteen: "map of_nat [0..<16] = [0, 1, 2, 3, 4, 5, 6, 7, 8, 9, 10, 11, 12, 13, 14, 15 :: 8 word]"
  by (simp add: upt_rec)

lemma base64b16_values:
  "base64b16 0 = CHR ''A''" "base64b16 1 = CHR ''E''" "base64b16 2 = CHR ''I''" "base64b16 3 = CHR ''M''"
  "base64b16 4 = CHR ''Q''" "base64b16 5 = CHR ''U''" "base64b16 6 = CHR ''Y''" "base64b16 7 = CHR ''c''"
  "base64b16 8 = CHR ''g''" "base64b16 9 = CHR ''k''" "base64b16 10 = CHR ''o''" "base64b16 11 = CHR ''s''"
  "base64b16 12 = CHR ''w''" "base64b16 13 = CHR ''0''" "base64b16 14 = CHR ''4''" "base64b16 15 = CHR ''8''"
  by (simp_all add: base64b16_def joinChars_def splitInt_def chars_of_codes)

lemma base64b8_values:
  "base64b8 0 = CHR ''A''" "base64b8 1 = CHR ''Q''" "base64b8 2 = CHR ''g''" "base64b8 3 = CHR ''w''"
  by (simp_all add: base64b8_def joinChars_def splitInt_def chars_of_codes)

lemma word_from_nat: "v < of_nat n \<Longrightarrow> n < 256 \<Longrightarrow> \<exists>i < n. v = of_nat i" for v :: "8 word"
  by (intro exI [of _ "unat v"]) (simp add: word_less_nat_alt unat_of_nat)

lemma base64b16_inverse: "base64b16toValue (base64b16 v) = Some v" if "v < 16"
proof -
  obtain i where "i < 16" "v = of_nat i" using word_from_nat [of v 16] \<open>v < 16\<close> by auto
  then have "i \<in> set [0..<16]" by simp
  then show ?thesis unfolding \<open>v = of_nat i\<close>
    by (simp add: upt_rec) (elim disjE; simp add: base64b16toValue_def sixteen base64b16_values)
qed

lemma base64b8_inverse: "base64b8toValue (base64b8 v) = Some v" if "v < 4"
proof -
  obtain i where "i < 4" "v = of_nat i" using word_from_nat [of v 4] \<open>v < 4\<close> by auto
  then have "i \<in> set [0..<4]" by simp
  then show ?thesis unfolding \<open>v = of_nat i\<close>
    by (simp add: upt_rec) (elim disjE; simp add: base64b8toValue_def upt_rec base64b8_values)
qed

lemma take_bit_less: "take_bit n w = w \<Longrightarrow> n < 8 \<Longrightarrow> w < 2 ^ n" for w :: "8 word"
proof -
  assume w: "take_bit n w = w" and n: "n < 8"
  have "unat w = take_bit n (unat w)" by (metis w unsigned_take_bit_eq)
  also have "\<dots> < 2 ^ n" by (rule take_bit_nat_less_exp)
  finally have "unat w < 2 ^ n" .
  moreover have "unat (2 ^ n :: 8 word) = 2 ^ n"
  proof -
    have "(2::nat) ^ n < 2 ^ 8" using n by (intro power_strict_increasing) simp_all
    then show ?thesis using unat_of_nat [of "2 ^ n", where 'a = 8] by simp
  qed
  ultimately show ?thesis by (simp add: word_less_nat_alt)
qed
lemma base64_fields:
  fixes a b c :: "8 word"
  shows "take_bit 6 (drop_bit 2 a) = drop_bit 2 a"
    "take_bit 6 (push_bit 4 (a AND 3) OR drop_bit 4 b) = push_bit 4 (a AND 3) OR drop_bit 4 b"
    "take_bit 6 (push_bit 2 (b AND 0x0F) OR (drop_bit 6 c AND 3)) = push_bit 2 (b AND 0x0F) OR (drop_bit 6 c AND 3)"
    "take_bit 6 (c AND 0x3F) = c AND 0x3F" "take_bit 4 (b AND 0x0F) = b AND 0x0F" "take_bit 2 (a AND 3) = a AND 3"
  by (rule bit_word_eqI; simp add: bit_simps; auto simp: less_Suc_eq numeral_eq_Suc dest: bit_imp_le_length)+

lemma base64_six_bits:
  fixes a b c :: "8 word"
  shows "drop_bit 2 a < 64" "push_bit 4 (a AND 3) OR drop_bit 4 b < 64"
    "push_bit 2 (b AND 0x0F) OR (drop_bit 6 c AND 3) < 64" "c AND 0x3F < 64" "b AND 0x0F < 16" "a AND 3 < 4"
  using take_bit_less [OF base64_fields(1)] take_bit_less [OF base64_fields(2)] take_bit_less [OF base64_fields(3)]
    take_bit_less [OF base64_fields(4)] take_bit_less [OF base64_fields(5)] take_bit_less [OF base64_fields(6)]
  by simp_all

lemma base64_join:
  fixes a b c :: "8 word"
  shows "push_bit 2 (drop_bit 2 a) OR drop_bit 4 ((push_bit 4 (a AND 3) OR drop_bit 4 b) AND 0x30) = a"
    "push_bit 4 ((push_bit 4 (a AND 3) OR drop_bit 4 b) AND 0x0F)
       OR drop_bit 2 ((push_bit 2 (b AND 0x0F) OR (drop_bit 6 c AND 3)) AND 0x3C) = b"
    "push_bit 6 ((push_bit 2 (b AND 0x0F) OR (drop_bit 6 c AND 3)) AND 0x03) OR (c AND 0x3F) = c"
    "push_bit 4 ((push_bit 4 (a AND 3) OR drop_bit 4 b) AND 0x0F) OR (b AND 0x0F) = b"
    "push_bit 2 (drop_bit 2 a) OR ((a AND 3) AND 3) = a"
  by (rule bit_word_eqI; simp add: bit_simps; auto simp: less_Suc_eq numeral_eq_Suc)+


text \<open>The six-bit fields of three bytes, as names, so that the simplifier leaves them alone.\<close>

definition field1 :: "8 word \<Rightarrow> 8 word" where "field1 a = drop_bit 2 a"
definition field2 :: "8 word \<Rightarrow> 8 word \<Rightarrow> 8 word" where "field2 a b = push_bit 4 (a AND 3) OR drop_bit 4 b"
definition field3 :: "8 word \<Rightarrow> 8 word \<Rightarrow> 8 word" where
  "field3 b c = push_bit 2 (b AND 0x0F) OR (drop_bit 6 c AND 3)"
definition field4 :: "8 word \<Rightarrow> 8 word" where "field4 c = c AND 0x3F"
definition last2 :: "8 word \<Rightarrow> 8 word" where "last2 b = b AND 0x0F"
definition last1 :: "8 word \<Rightarrow> 8 word" where "last1 a = a AND 3"

lemmas field_defs = field1_def field2_def field3_def field4_def last2_def last1_def

lemma base64_text_fields:
  "base64_text (a # b # c # rest) = base64char (field1 a) # base64char (field2 a b) # base64char (field3 b c)
     # base64char (field4 c) # base64_text rest"
  "base64_text [a, b] = [base64char (field1 a), base64char (field2 a b), base64b16 (last2 b), CHR ''='']"
  "base64_text [a] = [base64char (field1 a), base64b8 (last1 a), CHR ''='', CHR ''='']"
  "base64_text [] = []"
  by (simp_all only: field_defs base64_text.simps append.simps)

lemma field_inverse [simp]:
  "base64toValue (base64char (field1 a)) = Some (field1 a)"
  "base64toValue (base64char (field2 a b)) = Some (field2 a b)"
  "base64toValue (base64char (field3 b c)) = Some (field3 b c)"
  "base64toValue (base64char (field4 c)) = Some (field4 c)"
  "base64b16toValue (base64b16 (last2 b)) = Some (last2 b)"
  "base64b8toValue (base64b8 (last1 a)) = Some (last1 a)"
  unfolding field_defs by (rule base64_inverse base64b16_inverse base64b8_inverse, rule base64_six_bits)+

lemma field_join [simp]:
  "three_bytes (field1 a) (field2 a b) (field3 b c) (field4 c) = [a, b, c]"
  "two_bytes (field1 a) (field2 a b) (last2 b) = [a, b]" "one_byte (field1 a) (last1 a) = [a]"
  unfolding field_defs three_bytes_def two_bytes_def one_byte_def base64_join by (rule refl)+

lemma lengths [simp]: "length (three_bytes v w x y) = 3" "length (two_bytes v w x) = 2" "length (one_byte v w) = 1"
  by (simp_all add: three_bytes_def two_bytes_def one_byte_def)

declare base64_text.simps [simp del]

section \<open>Base64 reads back\<close>

lemma value_at_pos_at:
  "suffix_at s p (c # t) \<Longrightarrow> value_at_pos f s p = Done (f c) \<and> suffix_at s (Suc p) t"
  by (drule suffix_at_Cons) (simp add: value_at_pos_def)

lemma plus_3: "p + 3 = Suc (Suc (Suc p))"
  by simp

lemma suffix_at_length: "suffix_at s p t \<Longrightarrow> length s - p = length t"
  by (auto simp: suffix_at_def)

text \<open>One group of three bytes.\<close>

lemma scan4_at:
  assumes "suffix_at s p (base64char (field1 a) # base64char (field2 a b) # base64char (field3 b c) # base64char (field4 c) # t)"
  shows "scan4base64char s p (length s - p) = Done (Some [a, b, c])" "suffix_at s (p + 4) t"
proof -
  note s0 = value_at_pos_at [OF assms, where f = base64toValue]
  note s1 = value_at_pos_at [OF s0 [THEN conjunct2], where f = base64toValue]
  note s2 = value_at_pos_at [OF s1 [THEN conjunct2], where f = base64toValue]
  note s3 = value_at_pos_at [OF s2 [THEN conjunct2], where f = base64toValue]
  have "4 \<le> length s - p" using suffix_at_length [OF assms] by simp
  then show "scan4base64char s p (length s - p) = Done (Some [a, b, c])"
    using s0 s1 s2 s3 by (simp add: scan4base64char_def plus_3)
  show "suffix_at s (p + 4) t" using s3 by (simp add: eval_nat_numeral)
qed

text \<open>The loop stops at the first group that is not of four base64 characters.\<close>

lemma scan4_stops:
  assumes "suffix_at s p (base64_text bs @ [CHR 0x22])" "length bs < 3"
  shows "scan4base64char s p (length s - p) = Done None"
proof -
  consider "bs = []" | a where "bs = [a]" | a b where "bs = [a, b]"
    using assms(2) by (cases bs rule: base64_text.cases) auto
  then show ?thesis
  proof cases
    case 1
    then show ?thesis using suffix_at_length [OF assms(1)] by (simp add: scan4base64char_def base64_text_fields)
  next
    case (2 a)
    then have s: "suffix_at s p (base64char (field1 a) # base64b8 (last1 a) # CHR ''='' # CHR ''='' # [CHR 0x22])"
      using assms(1) by (simp add: base64_text_fields)
    note s0 = value_at_pos_at [OF s, where f = base64toValue]
    note s1 = value_at_pos_at [OF s0 [THEN conjunct2], where f = base64toValue]
    note s2 = value_at_pos_at [OF s1 [THEN conjunct2], where f = base64toValue]
    show ?thesis using s0 s1 s2 by (auto simp: scan4base64char_def plus_3 and_then_def split: option.split)
  next
    case (3 a b)
    then have s: "suffix_at s p (base64char (field1 a) # base64char (field2 a b)
        # base64b16 (last2 b) # CHR ''='' # [CHR 0x22])"
      using assms(1) by (simp add: base64_text_fields)
    note s0 = value_at_pos_at [OF s, where f = base64toValue]
    note s1 = value_at_pos_at [OF s0 [THEN conjunct2], where f = base64toValue]
    note s2 = value_at_pos_at [OF s1 [THEN conjunct2], where f = base64toValue]
    note s3 = value_at_pos_at [OF s2 [THEN conjunct2], where f = base64toValue]
    show ?thesis using s0 s1 s2 s3 by (auto simp: scan4base64char_def plus_3 and_then_def split: option.split)
  qed
qed

lemma binary_loop_at:
  assumes "suffix_at s p (base64_text bs @ [CHR 0x22])" "length out + (length bs + 2) div 3 * 3 \<le> cap"
  shows "\<exists>q rest done. bs = done @ rest \<and> length rest < 3 \<and> binary_loop s cap p out = Done (q, out @ done)
    \<and> suffix_at s q (base64_text rest @ [CHR 0x22])"
  using assms
proof (induction bs arbitrary: p out rule: base64_text.induct)
  case (1 a b c rest)
  have s: "suffix_at s p (base64char (field1 a) # base64char (field2 a b) # base64char (field3 b c)
      # base64char (field4 c) # base64_text rest @ [CHR 0x22])"
    using 1(2) by (simp add: base64_text_fields)
  note g = scan4_at [OF s]
  have "(length rest + 2 + 3) div 3 = (length rest + 2) div 3 + 1" by presburger
  then have cap: "length (out @ [a, b, c]) + (length rest + 2) div 3 * 3 \<le> cap"
    using 1(3) by (simp add: add.commute)
  from 1(1) [OF g(2) this] obtain q r d where
    "rest = d @ r" "length r < 3" "binary_loop s cap (p + 4) (out @ [a, b, c]) = Done (q, (out @ [a, b, c]) @ d)"
    "suffix_at s q (base64_text r @ [CHR 0x22])" by blast
  moreover have "store cap out [a, b, c] = Done (out @ [a, b, c])" using cap by (simp add: store_def)
  ultimately have "binary_loop s cap p out = Done (q, out @ [a, b, c] @ d)"
    by (subst binary_loop.simps) (simp add: g(1))
  then show ?case
    using \<open>rest = d @ r\<close> \<open>length r < 3\<close> \<open>suffix_at s q _\<close>
    by (intro exI [of _ q] exI [of _ r] exI [of _ "a # b # c # d"]) simp
next
  case (2 a b)
  then show ?case using scan4_stops [of s p "[a, b]"]
    by (intro exI [of _ p] exI [of _ "[a, b]"] exI [of _ "[]"]) (simp add: binary_loop.simps [of s])
next
  case (3 a)
  then show ?case using scan4_stops [of s p "[a]"]
    by (intro exI [of _ p] exI [of _ "[a]"] exI [of _ "[]"]) (simp add: binary_loop.simps [of s])
next
  case 4
  then show ?case using scan4_stops [of s p "[]"]
    by (intro exI [of _ p] exI [of _ "[]"] exI [of _ "[]"]) (simp add: binary_loop.simps [of s])
qed


lemma b16_equals [simp]: "base64b16toValue CHR ''='' = None" "base64b8toValue CHR 0x22 = None"
  "base64b16toValue CHR 0x22 = None"
  by (simp_all add: base64b16toValue_def base64b8toValue_def sixteen upt_rec base64b16_values base64b8_values)

lemma binary_rest_at:
  assumes "suffix_at s q (base64_text rest @ [CHR 0x22])" "length rest < 3" "length out + length rest \<le> cap"
  shows "\<exists>p. binary_rest s cap q out = Done (p, out @ rest) \<and> suffix_at s p [CHR 0x22]"
proof -
  consider "rest = []" | a where "rest = [a]" | a b where "rest = [a, b]"
    using assms(2) by (cases rest rule: base64_text.cases) auto
  then show ?thesis
  proof cases
    case 1
    with assms(1) have "suffix_at s q [CHR 0x22]" by (simp add: base64_text_fields)
    with 1 suffix_at_length [OF this] show ?thesis
      by (simp add: binary_rest_def scanbase64b16_def scanbase64b8_def)
  next
    case (2 a)
    then have s: "suffix_at s q (base64char (field1 a) # base64b8 (last1 a) # CHR ''='' # CHR ''='' # [CHR 0x22])"
      using assms(1) by (simp add: base64_text_fields)
    have size: "length s - q = 5" using suffix_at_length [OF s] by simp
    note s0 = value_at_pos_at [OF s, where f = base64toValue]
    note s1 = value_at_pos_at [OF s0 [THEN conjunct2], where f = base64toValue]
    note t1 = value_at_pos_at [OF s0 [THEN conjunct2], where f = base64b8toValue]
    note t2 = value_at_pos_at [OF s1 [THEN conjunct2], where f = base64b16toValue]
    note r2 = suffix_at_Cons [OF s1 [THEN conjunct2]]
    note r3 = suffix_at_Cons [OF r2 [THEN conjunct2]]
    have "scanbase64b16 s q (length s - q) = Done None"
      using s0 s1 t2 size by (auto simp: scanbase64b16_def and_then_def split: option.split)
    moreover have "scanbase64b8 s q (length s - q) = Done (Some (4, [a]))"
      using s0 t1 r2 r3 size by (simp add: scanbase64b8_def plus_3)
    moreover have "suffix_at s (q + 4) [CHR 0x22]" using r3 by (simp add: eval_nat_numeral)
    ultimately show ?thesis using 2 assms(3) by (simp add: binary_rest_def store_def)
  next
    case (3 a b)
    then have s: "suffix_at s q (base64char (field1 a) # base64char (field2 a b) # base64b16 (last2 b) # CHR ''='' # [CHR 0x22])"
      using assms(1) by (simp add: base64_text_fields)
    have size: "length s - q = 5" using suffix_at_length [OF s] by simp
    note s0 = value_at_pos_at [OF s, where f = base64toValue]
    note s1 = value_at_pos_at [OF s0 [THEN conjunct2], where f = base64toValue]
    note t2 = value_at_pos_at [OF s1 [THEN conjunct2], where f = base64b16toValue]
    note r3 = suffix_at_Cons [OF t2 [THEN conjunct2]]
    have "scanbase64b16 s q (length s - q) = Done (Some (4, [a, b]))"
      using s0 s1 t2 r3 size by (simp add: scanbase64b16_def plus_3)
    moreover have "suffix_at s (q + 4) [CHR 0x22]" using r3 by (simp add: eval_nat_numeral)
    ultimately show ?thesis using 3 assms(3) by (simp add: binary_rest_def store_def)
  qed
qed

lemma parse_binary_text:
  assumes "memory_available os"
  shows "\<exists>e'. parse_binary os (binary_text bs) e = Done (Inr (edmBinary bs), e')"
proof (cases "bs = []")
  case True
  then show ?thesis by (simp add: parse_binary_def binary_text_def base64_text_fields)
next
  case False
  define s where "s = binary_text bs"
  define k where "k = (length bs + 2) div 3"
  have len: "length s = 4 * k + 2" by (simp add: s_def binary_text_def base64_length k_def)
  have "3 \<le> length bs + 2" using False by (cases bs) auto
  then have "0 < k" by (simp add: k_def div_greater_zero_iff)
  then have big: "2 < length s" using len by simp
  define cap where "cap = (length s - 2 + 4) div 4 * 3"
  have "cap = (k + 1) * 3" by (simp add: cap_def len)
  then have caps: "length [] + k * 3 \<le> cap" by simp
  have s0: "suffix_at s 0 (CHR 0x22 # base64_text bs @ [CHR 0x22])"
    using suffix_at_whole [of s] by (simp add: s_def binary_text_def)
  have s1: "suffix_at s 1 (base64_text bs @ [CHR 0x22])" using suffix_at_Cons [OF s0] by simp
  from binary_loop_at [OF s1 caps [unfolded k_def]] obtain q r d where
    d: "bs = d @ r" "length r < 3" "binary_loop s cap 1 [] = Done (q, [] @ d)" "suffix_at s q (base64_text r @ [CHR 0x22])"
    by blast
  have "length bs \<le> k * 3" unfolding k_def by presburger
  then have "length d + length r \<le> cap" using caps d(1) by simp
  from binary_rest_at [OF d(4,2) this] obtain p where
    p: "binary_rest s cap q d = Done (p, bs)" "suffix_at s p [CHR 0x22]" using d(1) by blast
  have "Suc p = length s" using p(2) by (auto simp: suffix_at_def dest: arg_cong [of _ _ length])
  have cap': "Suc (Suc (length s)) div 4 * 3 = cap" using big by (simp add: cap_def)
  obtain e1 where e1: "os_malloc os e = (True, e1)"
    by (metis (full_types) assms memory_availableD surj_pair)
  obtain e2 where e2: "os_malloc os e1 = (True, e2)"
    by (metis (full_types) assms memory_availableD surj_pair)
  show ?thesis
    using big s0 [THEN suffix_at_Cons] d(3) p(1) p(2) [THEN suffix_at_Cons] \<open>Suc p = length s\<close> e1 e2
    unfolding s_def [symmetric] by (simp add: parse_binary_def Let_def cap')
qed

section \<open>GUIDs read back\<close>

lemma hex_inverse: "d < 16 \<Longrightarrow> scanMandatory1CapitalHexDigit (hexDigitToChar d) = Some d"
  by (simp add: scanMandatory1CapitalHexDigit_def hexDigitToChar_def)

lemma hex_byte_at:
  assumes "suffix_at s p (hex_byte b @ t)"
  shows "scanMandatory2CapitalHexDigits s p = Done (Some b)" "suffix_at s (p + 2) t"
proof -
  note s0 = suffix_at_Cons [OF assms [unfolded hex_byte_def append.simps]]
  note s1 = suffix_at_Cons [OF s0 [THEN conjunct2]]
  have "unat b < 256" using unsigned_less [of b] by simp
  then have "unat b div 16 < 16" by (simp add: div_less_iff_less_mult)
  moreover have "of_nat (unat b div 16) * 16 + of_nat (unat b mod 16) = b"
  proof -
    have "of_nat (unat b div 16) * 16 + of_nat (unat b mod 16) = (of_nat (unat b div 16 * 16 + unat b mod 16) :: 8 word)"
      by (simp only: of_nat_add of_nat_mult of_nat_numeral)
    then show ?thesis by (simp only: div_mult_mod_eq) simp
  qed
  ultimately show "scanMandatory2CapitalHexDigits s p = Done (Some b)"
    using s0 s1 by (simp add: scanMandatory2CapitalHexDigits_def hex_inverse)
  show "suffix_at s (p + 2) t" using s1 by simp
qed

text \<open>A layout whose positions follow each other, against the text it describes.\<close>

fun layout_text :: "(nat \<times> char option) list \<Rightarrow> 8 word list \<Rightarrow> string" where
  "layout_text [] g = []"
| "layout_text ((p, Some c) # rest) g = c # layout_text rest g"
| "layout_text ((p, None) # rest) g = hex_byte (hd g) @ layout_text rest (tl g)"

fun layout_at :: "nat \<Rightarrow> (nat \<times> char option) list \<Rightarrow> bool" where
  "layout_at p [] = True"
| "layout_at p ((q, Some c) # rest) \<longleftrightarrow> q = p \<and> layout_at (p + 1) rest"
| "layout_at p ((q, None) # rest) \<longleftrightarrow> q = p \<and> layout_at (p + 2) rest"

lemma scan_layout_at:
  "suffix_at s p (layout_text l g) \<Longrightarrow> layout_at p l \<Longrightarrow> length (filter (\<lambda>(q, c). c = None) l) = length g
    \<Longrightarrow> scan_layout s l = Done (Some g)"
proof (induction l g arbitrary: p rule: layout_text.induct)
  case (2 q c rest g)
  then have "scan_layout s rest = Done (Some g)"
    using suffix_at_Cons [of s p c "layout_text rest g"] by (intro "2.IH" [of "Suc p"]) simp_all
  with 2 show ?case using expect_char_at [of s p c "layout_text rest g"] by simp
next
  case (3 q rest g)
  then obtain b bs where g: "g = b # bs" by (cases g) auto
  with 3 hex_byte_at [of s p b "layout_text rest bs"] show ?case by simp
qed simp

lemma parse_guid_text: "length g = 16 \<Longrightarrow> parse_guid (guid_text g) = Done (Inr (edmGuid g))"
proof -
  assume g: "length g = 16"
  then obtain b0 b1 b2 b3 b4 b5 b6 b7 b8 b9 b10 b11 b12 b13 b14 b15 where
    gs: "g = [b0, b1, b2, b3, b4, b5, b6, b7, b8, b9, b10, b11, b12, b13, b14, b15]"
    by (auto simp: length_Suc_conv numeral_eq_Suc)
  have "guid_text g = layout_text guid_layout g"
    by (simp add: guid_text_def guid_ranges guid_layout_def gs)
  moreover have "layout_at 0 guid_layout" by (simp add: guid_layout_def)
  moreover have "length (filter (\<lambda>(q, c). c = None) guid_layout) = length g" by (simp add: guid_layout_def gs)
  ultimately have "scan_layout (guid_text g) guid_layout = Done (Some g)"
    using scan_layout_at [of "guid_text g" 0 guid_layout g] suffix_at_whole by simp
  then show ?thesis by (simp add: parse_guid_def guid_bound GUID_STRING_LENGTH_def)
qed

end
