(* ===== verification/EdmReading.thy ===== *)
theory EdmReading
  imports EdmBytes
begin

text \<open>
  Reading any text as a value of any type (serializer/src/agenttypesystem.c): it stays inside the text
  and inside the buffer for the bytes, it ends, and what it answers is a well-formed value of the
  type that was asked for.
\<close>

section \<open>Staying inside the text\<close>

text \<open>A scan is done, and what it found satisfies a predicate.\<close>

definition scans :: "('a \<Rightarrow> bool) \<Rightarrow> 'a option run \<Rightarrow> bool" where
  "scans Q m = run_sat True (\<lambda>r. case r of None \<Rightarrow> True | Some y \<Rightarrow> Q y) m"

lemma scans_None [simp]: "scans Q (Done None)"
  and scans_Some [simp]: "scans Q (Done (Some y)) \<longleftrightarrow> Q y"
  by (simp_all add: scans_def)

lemma scans_and_then:
  "scans P m \<Longrightarrow> (\<And>y. P y \<Longrightarrow> scans Q (f y)) \<Longrightarrow> scans Q (and_then m f)"
  unfolding scans_def and_then_def by (erule run_sat_bindI) (auto split: option.splits)

lemma scans_run_bind:
  "run_sat True P m \<Longrightarrow> (\<And>y. P y \<Longrightarrow> scans Q (f y)) \<Longrightarrow> scans Q (run_bind m f)"
  unfolding scans_def by (rule run_sat_bindI)

lemma scans_mono: "scans P m \<Longrightarrow> (\<And>y. P y \<Longrightarrow> Q y) \<Longrightarrow> scans Q m"
  unfolding scans_def by (erule run_sat_mono) (auto split: option.splits)

lemma read_at_sat: "p \<le> length s \<Longrightarrow> run_sat True (\<lambda>c. c = NUL \<or> p < length s) (read_at s p)"
  by (simp add: read_at_def)

lemma expect_char_scans:
  "p \<le> length s \<Longrightarrow> c \<noteq> NUL \<Longrightarrow> scans (\<lambda>q. q = Suc p \<and> q \<le> length s \<and> s ! p = c) (expect_char s p c)"
  by (auto simp: scans_def expect_char_def read_at_def)

lemma digits_N_sat:
  "p \<le> length s \<Longrightarrow>
     run_sat True (\<lambda>(n, v, q). n \<le> N \<and> q = p + (N - n) \<and> q \<le> length s \<and> (0 \<le> v0 \<longrightarrow> 0 \<le> v)) (digits_N s p v0 N)"
proof (induction N arbitrary: p v0)
  case 0
  then show ?case by (simp add: read_at_def)
next
  case (Suc N)
  show ?case
  proof (cases "p < length s \<and> ISDIGIT (s ! p)")
    case True
    have "(0 :: int) \<le> of_char (s ! p) - 48" if "ISDIGIT (s ! p)"
      using that by (metis ISDIGIT_def diff_ge_0_iff_ge of_nat_le_iff of_nat_numeral of_nat_of_char)
    then have pos: "0 \<le> v0 \<Longrightarrow> 0 \<le> v0 * 10 + (of_char (s ! p) - 48)" using True by simp
    have "run_sat True (\<lambda>(n, v, q). n \<le> N \<and> q = Suc p + (N - n) \<and> q \<le> length s
        \<and> (0 \<le> v0 * 10 + (of_char (s ! p) - 48) \<longrightarrow> 0 \<le> v)) (digits_N s (Suc p) (v0 * 10 + (of_char (s ! p) - 48)) N)"
      by (rule Suc.IH) (use True in simp)
    then show ?thesis using True pos by (auto simp: read_at_def elim!: run_sat_mono)
  next
    case False
    with Suc.prems show ?thesis by (auto simp: read_at_def)
  qed
qed

lemma scanAndReadNDigitsInt_sat:
  "p \<le> length s \<Longrightarrow> run_sat True (\<lambda>(ok, v, q). (ok \<longrightarrow> q = p + N) \<and> q \<le> length s \<and> 0 \<le> v) (scanAndReadNDigitsInt s p N)"
  unfolding scanAndReadNDigitsInt_def
  by (rule run_sat_bindI [OF digits_N_sat [of p s "Suc N" 0]]) auto

lemma scan_number_N_scans:
  "p \<le> length s \<Longrightarrow> scans (\<lambda>(v, q). q = p + N \<and> q \<le> length s \<and> 0 \<le> v) (scan_number_N s p N)"
  unfolding scans_def scan_number_N_def
  by (rule run_sat_bindI [OF scanAndReadNDigitsInt_sat [of p s N]]) auto

lemma minus_sat:
  "2 \<le> length s \<Longrightarrow> run_sat True (\<lambda>(sign, p). p \<le> length s) (scanOptionalMinusSign s 2 1)"
  by (auto simp: scanOptionalMinusSign_def read_at_def)

lemmas scans_steps =
  scans_and_then [OF scan_number_N_scans] scans_and_then [OF expect_char_scans]
  scans_run_bind [OF minus_sat] scans_run_bind [OF scanAndReadNDigitsInt_sat] scans_run_bind [OF read_at_sat]

lemma scan_date_scans: "2 \<le> length s \<Longrightarrow> scans (\<lambda>(y, m, d, p). p \<le> length s) (scan_date s)"
  unfolding scan_date_def by (intro scans_steps | clarsimp)+

lemma scan_time_scans:
  assumes p: "p \<le> length s"
  shows "scans (\<lambda>(h, m). p + 6 \<le> length s \<and> s ! (p + 3) = CHR '':'') (scan_time s p)"
  unfolding scan_time_def
  apply (rule scans_steps(2) [OF p], simp)
  apply (elim conjE, hypsubst)
  apply (rule scans_steps(1), assumption)
  apply (clarsimp simp: plus_3)
  apply (rule scans_steps(2), assumption, simp)
  apply (elim conjE, hypsubst)
  apply (rule scans_steps(1), assumption)
  apply clarsimp
  done

lemma find_colon_le: 
  assumes i: "find_colon s = Some i" and q: "q < length s" "s ! q = CHR '':''"
  shows "i \<le> q"
proof (rule ccontr)
  assume "\<not> i \<le> q"
  then have "q < length (takeWhile (\<lambda>c. c \<noteq> CHR '':'') s)"
    using i by (auto simp: find_colon_def split: if_splits)
  then have "s ! q \<noteq> CHR '':''"
    using nth_mem [of q "takeWhile (\<lambda>c. c \<noteq> CHR '':'') s"] by (auto simp: takeWhile_nth dest: set_takeWhileD)
  with q show False by simp
qed

lemma sscanf2d_sat: "p \<le> length s \<Longrightarrow> run_sat True (\<lambda>r. r \<noteq> None \<longrightarrow> p + 3 \<le> length s) (sscanf2d s p)"
proof -
  assume p: "p \<le> length s"
  show ?thesis
  proof (cases "p < length s")
    case True
    then show ?thesis
      unfolding sscanf2d_def using scan_number_N_scans [of "Suc p" s 2]
      by (auto simp: read_at_def scans_def run_sat_total split: option.splits)
  next
    case False
    with p show ?thesis by (simp add: sscanf2d_def read_at_def)
  qed
qed

lemma scan_seconds_scans:
  assumes p: "p \<le> length s"
  shows "scans (\<lambda>(v, q). q \<le> length s) (scan_seconds s p)"
proof -
  have "scans (\<lambda>(v, q). q \<le> length s)
      (run_bind (sscanf2d s p) (\<lambda>r. Done (map_option (\<lambda>sec. (sec, p + 3)) r)))"
    by (rule scans_run_bind [OF sscanf2d_sat [OF p]]) (auto simp: scans_def split: option.split)
  then show ?thesis
    unfolding scan_seconds_def using p by (intro scans_run_bind [OF read_at_sat [OF p]]) auto
qed

lemma skip_digits_sat: "p \<le> length s \<Longrightarrow> run_sat True (\<lambda>q. q \<le> length s) (skip_digits s p)"
proof (induction s p rule: skip_digits.induct)
  case (1 s p)
  show ?case
  proof (cases "p < length s \<and> ISDIGIT (s ! p)")
    case True
    then have "run_sat True (\<lambda>q. q \<le> length s) (skip_digits s (Suc p))" 
      by (intro "1.IH" [of "s ! p"]) (auto simp: read_at_def)
    with True show ?thesis by (subst skip_digits.simps) (simp add: read_at_def)
  next
    case False
    with 1(2) show ?thesis by (subst skip_digits.simps) (auto simp: read_at_def ISDIGIT_def)
  qed
qed

lemma scan_fraction_scans:
  assumes p: "p \<le> length s"
  shows "scans (\<lambda>(has, f, q). q \<le> length s) (scan_fraction s p errno)"
proof (cases "p < length s \<and> s ! p = CHR ''.''")
  case True
  have "scans (\<lambda>(has, f, q). q \<le> length s)
      (run_bind (skip_digits s (Suc p)) (\<lambda>q. run_bind (read_at s q) (\<lambda>c.
         Done (if c = NUL then None else Some (True, x, q)))))" for x :: nat
    using True
    by (intro scans_run_bind [OF skip_digits_sat] scans_run_bind [OF read_at_sat]) auto
  with True show ?thesis
    by (auto simp: scan_fraction_def read_at_def text_at_def split: option.split)
next
  case False
  with p show ?thesis by (auto simp: scan_fraction_def read_at_def)
qed

lemma sscanf3d2d_sat: 
  assumes p: "p \<le> length s"
  shows "run_sat True (\<lambda>r. True) (sscanf3d2d s p)"
proof -
  have minutes: "run_sat True (\<lambda>r. True)
     (run_bind (expect_char s q CHR '':'') (\<lambda>r.
         case r of None \<Rightarrow> Done (False, hour, 0)
         | Some p \<Rightarrow> run_bind (scanAndReadNDigitsInt s p 2) (\<lambda>(ok, minOffset, p).
             Done (ok, hour, minOffset))))" if "q \<le> length s" for q and hour :: int
    using expect_char_scans [OF that, of "CHR '':''"] scanAndReadNDigitsInt_sat [of "Suc q" s 2]
    by (auto simp: scans_def run_sat_total ex_bool_eq split: option.splits)
  have hours: "run_sat True (\<lambda>r. True)
     (run_bind (scanAndReadNDigitsInt s q N) (\<lambda>(ok, hourOffset, p).
       let hour = (if neg then hourOffset * -1 else hourOffset) in
       if \<not> ok then Done (False, hour, 0)
       else run_bind (expect_char s p CHR '':'') (\<lambda>r.
         case r of None \<Rightarrow> Done (False, hour, 0)
         | Some p \<Rightarrow> run_bind (scanAndReadNDigitsInt s p 2) (\<lambda>(ok, minOffset, p).
             Done (ok, hour, minOffset)))))" if "q \<le> length s" for q neg N
    by (rule run_sat_bindI [OF scanAndReadNDigitsInt_sat [OF that]])
      (use minutes in \<open>simp add: Let_def split: prod.splits\<close>)
  show ?thesis
    unfolding sscanf3d2d_def Let_def [of "(_ :: char) = _"] Let_def [of "if _ then (_ :: nat) else _"]
    by (rule run_sat_bindI [OF read_at_sat [OF p]]) (rule hours, use p in auto)
qed

section \<open>What is read is well formed\<close>

text \<open>The tag of a value.\<close>

fun value_type :: "'st AGENT_DATA_TYPE \<Rightarrow> AGENT_DATA_TYPE_TYPE" where
  "value_type edmNoType = EDM_NO_TYPE"
| "value_type edmNull = EDM_NULL_TYPE"
| "value_type (edmBoolean b) = EDM_BOOLEAN_TYPE"
| "value_type (edmByte v) = EDM_BYTE_TYPE"
| "value_type (edmDate v) = EDM_DATE_TYPE"
| "value_type (edmDateTimeOffset v) = EDM_DATE_TIME_OFFSET_TYPE"
| "value_type (edmDecimal s) = EDM_DECIMAL_TYPE"
| "value_type (edmDouble v) = EDM_DOUBLE_TYPE"
| "value_type (edmGuid v) = EDM_GUID_TYPE"
| "value_type (edmBinary v) = EDM_BINARY_TYPE"
| "value_type (edmInt16 v) = EDM_INT16_TYPE"
| "value_type (edmInt32 v) = EDM_INT32_TYPE"
| "value_type (edmInt64 v) = EDM_INT64_TYPE"
| "value_type (edmSbyte v) = EDM_SBYTE_TYPE"
| "value_type (edmSingle v) = EDM_SINGLE_TYPE"
| "value_type (edmString s) = EDM_STRING_TYPE"
| "value_type (edmStringNoQuotes s) = EDM_STRING_NO_QUOTES_TYPE"
| "value_type (edmComplexType fs) = EDM_COMPLEX_TYPE_TYPE"
| "value_type (edmOther t) = t"

definition reads_as ::
  "('st, 'e, 'm) edm_api_scheme \<Rightarrow> AGENT_DATA_TYPE_TYPE \<Rightarrow> 'st created \<Rightarrow> bool" where
  "reads_as api type r \<longleftrightarrow> (\<forall>v. r = Inr v \<longrightarrow> value_type v = type \<and> edm_wf (view api v))"

lemma reads_as_Inl [simp]: "reads_as api type (Inl x)"
  and reads_as_Inr [simp]: "reads_as api type (Inr v) \<longleftrightarrow> value_type v = type \<and> edm_wf (view api v)"
  by (auto simp: reads_as_def)

subsection \<open>Numbers and strings\<close>

lemma parse_numbers_read:
  "reads_as api EDM_SBYTE_TYPE (parse_sbyte bits s errno)" "reads_as api EDM_BYTE_TYPE (parse_byte bits s errno)"
  "reads_as api EDM_INT16_TYPE (parse_int16 bits s errno)" "reads_as api EDM_INT32_TYPE (parse_int32 bits s errno)"
  "reads_as api EDM_INT64_TYPE (parse_int64 s errno)" "reads_as api EDM_DOUBLE_TYPE (parse_double api' s errno)"
  "reads_as api EDM_SINGLE_TYPE (parse_single api' s errno)"
  by (auto simp: parse_sbyte_def parse_byte_def parse_int16_def parse_int32_def parse_int64_def
      parse_double_def parse_single_def split: option.splits prod.splits)

lemma scanOptionalNDigits_take:
  "n \<le> length t \<Longrightarrow> scanOptionalNDigits (take n t) n p = scanOptionalNDigits t n p"
proof (induction "n - p" arbitrary: p)
  case 0
  then show ?case by (subst (1 2) scanOptionalNDigits.simps) simp
next
  case (Suc k)
  then have "scanOptionalNDigits (take n t) n (Suc p) = scanOptionalNDigits t n (Suc p)" by simp
  then show ?case by (subst (1 2) scanOptionalNDigits.simps) simp
qed

lemma ValidateDecimal_take:
  assumes "n \<le> length t"
  shows "ValidateDecimal t n \<longleftrightarrow> decimal_text (take n t)"
proof -
  have "ValidateDecimal t n = ValidateDecimal (take n t) n"
    unfolding ValidateDecimal_def scanOptionalSign_def scanMandatoryOneDigit_def scanOptionalDotAndDigits_def
    by (simp add: scanOptionalNDigits_take [OF assms] cong: if_cong conj_cong)
  also have "\<dots> = ValidateDecimal (take n t) (length (take n t))" using assms by (simp add: min_absorb2)
  finally show ?thesis by (simp only: ValidateDecimal_spec)
qed

lemma parse_decimal_reads:
  assumes "edm_string_laws api"
  shows "reads_as api EDM_DECIMAL_TYPE (fst (parse_decimal api s e))"
proof (cases "quoted s")
  case True
  then have "length s - 2 \<le> length (drop 1 s)" by simp
  moreover have "STRING_c_str api st = take (length s - 2) (drop 1 s)"
    if "STRING_construct_n api (drop 1 s) (length s - 2) e = (Some st, e')" for st e'
    using assms that unfolding edm_string_laws_def by blast
  ultimately show ?thesis
    using ValidateDecimal_take [of "length s - 2" "drop 1 s"]
    by (auto simp: parse_decimal_def split: prod.split option.split)
qed (simp add: parse_decimal_def)

lemma parse_strings_read:
  assumes "NUL \<notin> set s"
  shows "reads_as api EDM_STRING_TYPE (fst (parse_string os s e))"
    "reads_as api EDM_STRING_NO_QUOTES_TYPE (fst (parse_string_no_quotes os s e))"
  using assms
  by (auto simp: parse_string_def parse_string_no_quotes_def split: prod.split
      dest: in_set_takeD in_set_dropD)

subsection \<open>Dates\<close>

lemma parse_date_reads: "run_sat True (reads_as api EDM_DATE_TYPE) (parse_date s)"
proof (cases "quoted s")
  case True
  then have "scans (\<lambda>(y, m, d, p). p \<le> length s) (scan_date s)"
    by (intro scan_date_scans) (simp add: quoted_def)
  with True show ?thesis
    by (auto simp: parse_date_def scans_def run_sat_total Create_AGENT_DATA_TYPE_from_date_def
        ValidateDate_spec split: option.splits)
qed (simp add: parse_date_def)

lemma small_sint8: "-128 \<le> i \<Longrightarrow> i < 128 \<Longrightarrow> sint (word_of_int i :: 8 word) = i"
  by (subst sint_sbintrunc') (simp add: signed_take_bit_int_eq_self)

lemma make_date_time_reads:
  "reads_as api EDM_DATE_TIME_OFFSET_TYPE
     (make_date_time year month day hour minute sec hasFraction fraction hasZone hourOffset minOffset)"
proof (cases "ValidateDate year month day \<noteq> 0 \<or> hour < 0 \<or> 23 < hour \<or> minute < 0 \<or> 59 < minute
          \<or> sec < 0 \<or> 59 < sec \<or> 999999999999 < fraction \<or> hourOffset < -23 \<or> 23 < hourOffset
          \<or> minOffset < 0 \<or> 59 < minOffset")
  case False
  then have d: "calendar_date year month day" by (simp add: ValidateDate_spec)
  note b = calendar_bounds [OF d]
  have y: "word_of_int (year - 1900) + 1900 = (word_of_int year :: 32 word)"
    "word_of_int (month - 1) + 1 = (word_of_int month :: 32 word)"
    by (simp_all add: wi_hom_sub [symmetric])
  have f: "uint (of_nat fraction :: 64 word) \<le> 999999999999"
    using False by (simp add: uint_nat unat_of_nat)
  have m: "uint (word_of_int minOffset :: 8 word) \<le> 59"
    using False by (simp add: uint_word_of_int)
  show ?thesis
    using False d b f m
    by (simp add: make_date_time_def date_time_ok_def fill_tm_yday_and_tm_wday_def Let_def y
        sint_small small_sint8)
qed (simp add: make_date_time_def)

lemma parse_time_rest_reads:
  assumes "p \<le> length s"
  shows "run_sat True (reads_as api EDM_DATE_TIME_OFFSET_TYPE) (parse_time_rest s errno y m d hour minute p)"
  unfolding parse_time_rest_def
proof (rule run_sat_bindI)
  show "run_sat True (\<lambda>r. case r of None \<Rightarrow> True | Some (sec, has, f, q) \<Rightarrow> q \<le> length s)
      (and_then (scan_seconds s p) (\<lambda>(sec, pos2). and_then (scan_fraction s pos2 errno)
        (\<lambda>(hasFraction, fractionalSeconds, pos2). Done (Some (sec, hasFraction, fractionalSeconds, pos2)))))"
    unfolding scans_def [symmetric, of "\<lambda>(sec, has, f, q). q \<le> length s"]
    by (rule scans_and_then [OF scan_seconds_scans [OF assms]], clarsimp)
      (rule scans_and_then [OF scan_fraction_scans], simp, clarsimp)
next
  fix r :: "(int \<times> bool \<times> nat \<times> nat) option"
  assume r: "case r of None \<Rightarrow> True | Some (sec, has, f, q) \<Rightarrow> q \<le> length s"
  show "run_sat True (reads_as api EDM_DATE_TIME_OFFSET_TYPE)
     (case r of None \<Rightarrow> Done (Inl AGENT_DATA_TYPES_INVALID_ARG)
      | Some (sec, hasFraction, fractionalSeconds, pos2) \<Rightarrow>
          run_bind (sscanf3d2d s pos2) (\<lambda>(hasZone, hourOffset, minOffset).
          run_bind (text_at s pos2) (\<lambda>rest.
            Done (if rest = [CHR ''Z'', CHR 0x22] \<or> hasZone then
                    make_date_time y m d hour minute sec hasFraction fractionalSeconds
                      hasZone hourOffset minOffset
                  else Inl AGENT_DATA_TYPES_INVALID_ARG))))"
  proof (cases r)
    case (Some x)
    obtain sec has f q where x: "x = (sec, has, f, q)" by (cases x)
    with r Some have q: "q \<le> length s" by simp
    obtain z where "sscanf3d2d s q = Done z" using sscanf3d2d_sat [OF q] by (auto simp: run_sat_total)
    with Some x q show ?thesis by (cases z) (simp add: text_at_def make_date_time_reads)
  qed simp
qed

text \<open>
  The first colon is at or before the one behind the hour, so three characters further is still
  inside the text.
\<close>

lemma parse_date_time_reads:
  "run_sat True (reads_as api EDM_DATE_TIME_OFFSET_TYPE) (parse_date_time s errno)"
proof (cases "quoted s")
  case True
  then have two: "2 \<le> length s" by (simp add: quoted_def)
  have "scans (\<lambda>(y, m, d, h, mi). \<exists>p. p + 6 \<le> length s \<and> s ! (p + 3) = CHR '':'')
     (and_then (scan_date s) (\<lambda>(year, month, day, pos).
         and_then (scan_time s pos) (\<lambda>(hour, minute). Done (Some (year, month, day, hour, minute)))))"
    by (rule scans_and_then [OF scan_date_scans [OF two]], clarsimp)
      (rule scans_and_then [OF scan_time_scans], auto)
  moreover have "run_sat True (reads_as api EDM_DATE_TIME_OFFSET_TYPE)
     (case find_colon s of None \<Rightarrow> Done (Inl AGENT_DATA_TYPES_INVALID_ARG)
              | Some i \<Rightarrow> parse_time_rest s errno y m d hour minute (i + 3))"
    if "p + 6 \<le> length s" "s ! (p + 3) = CHR '':''" for y m d hour minute p
    using find_colon_le [of s _ "p + 3"] that
    by (auto split: option.split intro!: parse_time_rest_reads)
  ultimately show ?thesis
    using True by (auto simp: parse_date_time_def scans_def intro!: run_sat_bindI split: option.split)
qed (simp add: parse_date_time_def)

subsection \<open>GUIDs and bytes\<close>

lemma scan_layout_sat:
  "(\<And>p c. (p, c) \<in> set l \<Longrightarrow> Suc p < length s \<or> c \<noteq> None \<and> p < length s) \<Longrightarrow>
     scans (\<lambda>bs. length bs = length (filter (\<lambda>(p, c). c = None) l)) (scan_layout s l)"
proof (induction s l rule: scan_layout.induct)
  case (1 s)
  then show ?case by simp
next
  case (2 s p c rest)
  then have "p < length s" by fastforce
  moreover have "scans (\<lambda>bs. length bs = length (filter (\<lambda>(p, c). c = None) rest)) (scan_layout s rest)"
    using 2 by (metis list.set_intros(2))
  ultimately show ?case by (auto simp: and_then_def expect_char_def read_at_def)
next
  case (3 s p rest)
  then have "Suc p < length s" by fastforce
  moreover have "scans (\<lambda>bs. length bs = length (filter (\<lambda>(p, c). c = None) rest)) (scan_layout s rest)"
    using 3 by (metis list.set_intros(2))
  then obtain r where "scan_layout s rest = Done r"
    "\<And>bs. r = Some bs \<Longrightarrow> length bs = length (filter (\<lambda>(p, c). c = None) rest)"
    by (auto simp: scans_def run_sat_total split: option.splits)
  ultimately show ?case
    by (cases r) (auto simp: and_then_def scanMandatory2CapitalHexDigits_def read_at_def split: option.split)
qed

lemma parse_guid_reads: "run_sat True (reads_as api EDM_GUID_TYPE) (parse_guid s)"
proof (cases "length s = GUID_STRING_LENGTH")
  case True
  have "scans (\<lambda>bs. length bs = length (filter (\<lambda>(p, c). c = None) guid_layout)) (scan_layout s guid_layout)"
    by (rule scan_layout_sat) (use True in \<open>auto simp: guid_layout_def GUID_STRING_LENGTH_def\<close>)
  then show ?thesis
    using True by (auto simp: parse_guid_def scans_def guid_layout_def run_sat_total split: option.split)
qed (simp add: parse_guid_def)

lemma value_at_pos_inside: "p \<le> length s \<Longrightarrow> \<exists>r. value_at_pos f s p = Done r \<and> (p = length s \<longrightarrow> r = f NUL)"
  by (auto simp: value_at_pos_def read_at_def)

lemma scan4base64char_sat:
  "p \<le> length s \<Longrightarrow> scans (\<lambda>bs. length bs = 3 \<and> p + 4 \<le> length s) (scan4base64char s p (length s - p))"
  by (auto simp: scan4base64char_def and_then_def value_at_pos_def read_at_def three_bytes_def split: option.split)

lemma scanbase64b16_sat:
  "p \<le> length s \<Longrightarrow>
     scans (\<lambda>(n, bs). length bs = 2 \<and> p + 3 \<le> length s \<and> p + n \<le> length s) (scanbase64b16 s p (length s - p))"
  by (auto simp: scanbase64b16_def and_then_def value_at_pos_def read_at_def two_bytes_def split: option.split)

lemma scanbase64b8_sat:
  "p \<le> length s \<Longrightarrow>
     scans (\<lambda>(n, bs). length bs = 1 \<and> p + 2 \<le> length s \<and> p + n \<le> length s) (scanbase64b8 s p (length s - p))"
  by (auto simp: scanbase64b8_def and_then_def value_at_pos_def read_at_def one_byte_def split: option.split)

text \<open>
  The buffer is that of the next multiple of four characters: after k groups, 1 + 4 k characters are
  read and 3 k bytes written, and a group that is still inside the text has its place.
\<close>

definition after_groups :: "string \<Rightarrow> nat \<times> 8 word list \<Rightarrow> bool" where
  "after_groups s = (\<lambda>(p, out). p \<le> length s \<and> (\<exists>k. p = 1 + 4 * k \<and> length out = 3 * k))"

lemma group_fits:
  assumes "after_groups s (p, out)" "p + n \<le> length s" "m < n" "n \<le> 4"
  shows "length out + m \<le> (length s - 2 + 4) div 4 * 3"
proof -
  obtain k where k: "p = 1 + 4 * k" "length out = 3 * k" using assms(1) by (auto simp: after_groups_def)
  have "k + 1 = (4 * k + 4) div 4" by simp
  also have "\<dots> \<le> (length s - 2 + 4) div 4" using k assms(2-4) by (intro div_le_mono) linarith
  finally show ?thesis using k assms(3,4) by simp
qed

lemma binary_loop_sat:
  "after_groups s (p, out) \<Longrightarrow>
     run_sat True (after_groups s) (binary_loop s ((length s - 2 + 4) div 4 * 3) p out)"
proof (induction "length s - p" arbitrary: p out rule: less_induct)
  case less
  then have p: "p \<le> length s" by (simp add: after_groups_def)
  obtain r where r: "scan4base64char s p (length s - p) = Done r"
    "\<And>bs. r = Some bs \<Longrightarrow> length bs = 3 \<and> p + 4 \<le> length s"
    using scan4base64char_sat [OF p] by (auto simp: scans_def run_sat_total split: option.splits)
  show ?case
  proof (cases r)
    case None
    with r less show ?thesis by (subst binary_loop.simps) simp
  next
    case (Some bs)
    with r have bs: "length bs = 3" "p + 4 \<le> length s" by auto
    have "length out + 3 \<le> (length s - 2 + 4) div 4 * 3"
      by (rule group_fits [OF less(2) bs(2)]) simp_all
    moreover have "run_sat True (after_groups s) (binary_loop s ((length s - 2 + 4) div 4 * 3) (p + 4) (out @ bs))"
    proof (rule less(1))
      show "length s - (p + 4) < length s - p" using bs by simp
      obtain k where "p = 1 + 4 * k" "length out = 3 * k" using less(2) by (auto simp: after_groups_def)
      then show "after_groups s (p + 4, out @ bs)"
        using bs by (auto simp: after_groups_def intro!: exI [of _ "Suc k"])
    qed
    ultimately show ?thesis using r(1) Some bs(1) by (subst binary_loop.simps) (simp add: store_def)
  qed
qed

lemma binary_rest_sat:
  assumes "after_groups s (p, out)"
  shows "run_sat True (\<lambda>(q, out). q \<le> length s) (binary_rest s ((length s - 2 + 4) div 4 * 3) p out)"
proof -
  have p: "p \<le> length s" using assms by (simp add: after_groups_def)
  obtain r where r: "scanbase64b16 s p (length s - p) = Done r"
    "\<And>n bs. r = Some (n, bs) \<Longrightarrow> length bs = 2 \<and> p + 3 \<le> length s \<and> p + n \<le> length s"
    using scanbase64b16_sat [OF p] by (auto simp: scans_def run_sat_total split: option.splits)
  obtain r' where r': "scanbase64b8 s p (length s - p) = Done r'"
    "\<And>n bs. r' = Some (n, bs) \<Longrightarrow> length bs = 1 \<and> p + 2 \<le> length s \<and> p + n \<le> length s"
    using scanbase64b8_sat [OF p] by (auto simp: scans_def run_sat_total split: option.splits)
  have "length out + 2 \<le> (length s - 2 + 4) div 4 * 3" if "p + 3 \<le> length s"
    by (rule group_fits [OF assms that]) simp_all
  moreover have "length out + 1 \<le> (length s - 2 + 4) div 4 * 3" if "p + 2 \<le> length s"
    by (rule group_fits [OF assms that]) simp_all
  ultimately show ?thesis
    using r r' p by (auto simp: binary_rest_def store_def split: option.split)
qed

lemma parse_binary_reads: "run_sat True (\<lambda>(r, e'). reads_as api EDM_BINARY_TYPE r) (parse_binary os s e)"
proof (cases "2 \<le> length s")
  case True
  then have "after_groups s (1, [])" by (simp add: after_groups_def)
  then obtain p out where loop: "binary_loop s ((length s - 2 + 4) div 4 * 3) 1 [] = Done (p, out)"
    "after_groups s (p, out)"
    using binary_loop_sat [of s 1 "[]"] by (auto simp: run_sat_total)
  obtain q out' where rest: "binary_rest s ((length s - 2 + 4) div 4 * 3) p out = Done (q, out')" "q \<le> length s"
    using binary_rest_sat [OF loop(2)] by (auto simp: run_sat_total)
  show ?thesis
    using loop(1) rest by (auto simp: parse_binary_def Let_def read_at_def split: prod.split)
qed (simp add: parse_binary_def)

section \<open>CreateAgentDataType\_From\_String\<close>

lemma From_String_reads:
  assumes laws: "edm_string_laws api" and source: "NUL \<notin> set s"
  shows "run_sat True (\<lambda>(r, e'). reads_as api type r)
    (CreateAgentDataType_From_String api os errno (Some s) type agentData e)"
proof (cases agentData)
  case True
  note sats = parse_date_reads [of api s] parse_date_time_reads [of api s errno] parse_guid_reads [of api s]
    parse_binary_reads [of api os s e] parse_numbers_read parse_decimal_reads [OF laws]
    parse_strings_read [OF source]
  show ?thesis
    using True sats
    by (cases type) (auto simp: CreateAgentDataType_From_String_def run_sat_total case_prod_beta)
qed (simp add: CreateAgentDataType_From_String_def)

text \<open>
  C6: CreateAgentDataType\_From\_String ends on every text and for every type, without reading past
  the terminator of the text or writing past the buffer it allocates for the bytes, whatever the
  allocations answer and whatever errno was; and when it answers a value, the value has the type
  that was asked for and is well formed: dates and times in range, a decimal in the grammar, a GUID
  of 16 bytes.
\<close>

theorem reading_is_safe:
  assumes "edm_string_laws api" "NUL \<notin> set s"
  shows "\<exists>r e'. CreateAgentDataType_From_String api os errno (Some s) type agentData e = Done (r, e')
    \<and> (\<forall>v. r = Inr v \<longrightarrow> value_type v = type \<and> edm_wf (view api v))"
  using From_String_reads [OF assms, of type os errno agentData e]
  by (auto simp: run_sat_total reads_as_def)

text \<open>Strings as lists of characters, and a platform whose long has 64 bits, for examples.\<close>

definition list_edm_api :: "(string, unit) edm_api" where
  "list_edm_api = \<lparr>STRING_new = (\<lambda>e. (Some [], e)), STRING_construct = (\<lambda>x e. (Some x, e)),
     STRING_concat = (\<lambda>s x e. (Some (s @ x), e)),
     STRING_concat_with_STRING = (\<lambda>s x e. (Some (s @ x), e)), STRING_c_str = (\<lambda>s. s),
     STRING_construct_n = (\<lambda>x n e. (Some (take n x), e)), STRING_clone = (\<lambda>x e. (Some x, e)),
     LONG_BITS = 64, DECIMAL_DIG = 21, strtod = (\<lambda>s. (FNaN, False, False)),
     strtof = (\<lambda>s. (FNaN, False, False))\<rparr>"

lemma list_edm_laws:
  "string_laws list_edm_api" "edm_string_laws list_edm_api" "edm_strings_available list_edm_api"
  by (simp_all add: string_laws_def edm_string_laws_def edm_strings_available_def list_edm_api_def)

theorem reading_is_safe_witness:
  "\<exists>r e'. CreateAgentDataType_From_String list_edm_api happy_os False
      (Some [CHR 0x22, CHR ''A'', CHR ''Q'', CHR ''='', CHR ''='', CHR 0x22]) EDM_BINARY_TYPE True () = Done (r, e')
    \<and> (\<forall>v. r = Inr v \<longrightarrow> value_type v = EDM_BINARY_TYPE \<and> edm_wf (view list_edm_api v))"
  by (rule reading_is_safe [OF list_edm_laws(2)]) simp

end
