(* ===== verification/EdmValues.thy ===== *)
theory EdmValues
  imports EdmReading
begin

text \<open>
  What AgentDataTypes\_ToString prints (serializer/src/agenttypesystem.c): the text of every value is
  a function of the value, a complex value prints as the JSON object of its members by way of the
  multi tree and the JSON encoder; and what CreateAgentDataType\_From\_String makes of the printed
  text again.
\<close>

section \<open>The text of a value\<close>

definition single_text :: "nat \<Rightarrow> c_float \<Rightarrow> string option" where
  "single_text decimal_dig f =
     (case f of FNaN \<Rightarrow> Some ''NaN'' | FInf negative \<Rightarrow> Some (if negative then ''-INF'' else ''INF'')
      | FFinite negative m x \<Rightarrow>
          sprintf_s (MAX_FLOATING_POINT_STRING_LENGTH decimal_dig) (printf_f FLT_DIG negative m x))"

definition double_text :: "nat \<Rightarrow> c_float \<Rightarrow> string option" where
  "double_text decimal_dig f =
     (case f of FNaN \<Rightarrow> Some ''NaN'' | FInf negative \<Rightarrow> Some (if negative then ''-INF'' else ''INF'')
      | FFinite negative m x \<Rightarrow> sprintf_s (decimal_dig * 2) (printf_f DBL_DIG negative m x))"

text \<open>Members in order, each as its quoted name, a colon and its text.\<close>

fun members_text :: "bool \<Rightarrow> (string \<times> string) list \<Rightarrow> string" where
  "members_text first [] = []"
| "members_text first ((n, x) # ms) =
     (if first then [] else '', '') @ [CHR 0x22] @ n @ [CHR 0x22, CHR '':''] @ x @ members_text False ms"

definition object_text :: "(string \<times> string option) list \<Rightarrow> string option" where
  "object_text ms =
     (if distinct (map fst ms) \<and> [] \<notin> set (map fst ms) \<and> None \<notin> set (map snd ms)
      then Some (''{'' @ members_text True (map (apsnd the) ms) @ ''}'') else None)"

primrec value_text :: "nat \<Rightarrow> nat \<Rightarrow> string AGENT_DATA_TYPE \<Rightarrow> string option" where
  "value_text bits dig edmNoType = None"
| "value_text bits dig edmNull = Some ''null''"
| "value_text bits dig (edmBoolean b) = Some (case b of EDM_TRUE \<Rightarrow> ''true'' | EDM_FALSE \<Rightarrow> ''false'')"
| "value_text bits dig (edmByte v) = Some (byte_text v)"
| "value_text bits dig (edmDate v) = Some (date_text v)"
| "value_text bits dig (edmDateTimeOffset v) = date_time_text bits v"
| "value_text bits dig (edmDecimal s) = Some s"
| "value_text bits dig (edmDouble v) = double_text dig v"
| "value_text bits dig (edmGuid v) = Some (guid_text v)"
| "value_text bits dig (edmBinary v) = Some (binary_text v)"
| "value_text bits dig (edmInt16 v) = Some (int16_text v)"
| "value_text bits dig (edmInt32 v) = Some (int32_text v)"
| "value_text bits dig (edmInt64 v) = Some (int64_text v)"
| "value_text bits dig (edmSbyte v) = Some (sbyte_text v)"
| "value_text bits dig (edmSingle v) = single_text dig v"
| "value_text bits dig (edmString s) = (if has_unicode s then None else Some (string_text s))"
| "value_text bits dig (edmStringNoQuotes s) = Some s"
| "value_text bits dig (edmComplexType fs) = object_text (map (map_prod id (value_text bits dig)) fs)"
| "value_text bits dig (edmOther t) = None"

text \<open>The names of members that are not paths.\<close>

primrec plain_names :: "string AGENT_DATA_TYPE \<Rightarrow> bool" where
  "plain_names edmNoType = True"
| "plain_names edmNull = True"
| "plain_names (edmBoolean b) = True"
| "plain_names (edmByte v) = True"
| "plain_names (edmDate v) = True"
| "plain_names (edmDateTimeOffset v) = True"
| "plain_names (edmDecimal s) = True"
| "plain_names (edmDouble v) = True"
| "plain_names (edmGuid v) = True"
| "plain_names (edmBinary v) = True"
| "plain_names (edmInt16 v) = True"
| "plain_names (edmInt32 v) = True"
| "plain_names (edmInt64 v) = True"
| "plain_names (edmSbyte v) = True"
| "plain_names (edmSingle v) = True"
| "plain_names (edmString s) = True"
| "plain_names (edmStringNoQuotes s) = True"
| "plain_names (edmComplexType fs) =
     list_all (\<lambda>(n, ok). CHR ''/'' \<notin> set n \<and> ok) (map (map_prod id plain_names) fs)"
| "plain_names (edmOther t) = True"

section \<open>The tree of a complex value\<close>

definition leaves :: "(string \<times> 'v) list \<Rightarrow> 'v mtree" where
  "leaves fs = MTree None None (map (\<lambda>(n, v). MTree (Some n) (Some v) []) fs)"

lemma leaves_sel [simp]:
  "children (leaves fs) = map (\<lambda>(n, v). MTree (Some n) (Some v) []) fs"
  "set_children (leaves fs) cs = MTree None None cs"
  by (simp_all add: leaves_def set_children_def)

lemma find_child_leaves:
  "find_child n (map (\<lambda>(n, v). MTree (Some n) (Some v) []) fs) = None \<longleftrightarrow> n \<notin> set (map fst fs)"
  by (induction fs) auto

lemma clone_total_NoClone [simp]: "clone_total NoCloneFunction"
  by (simp add: clone_total_def NoCloneFunction_def)

lemma AddLeaf_plain_leaf:
  assumes "CHR ''/'' \<notin> set n" "n \<noteq> []"
  shows "MultiTree_AddLeaf os clone (Some t) (Some n) (Some v) e =
     (case createLeaf os clone t n (Some v) e of (r, t, e) \<Rightarrow> (leaf_result r, Some t, e))"
proof -
  have "leading_slash n = n" using assms by (cases n) (auto simp: leading_slash_def)
  then show ?thesis
    using assms by (simp add: MultiTree_AddLeaf_def AddLeaf_path_names segs_single split: prod.split)
qed

lemma AddLeaf_leaves:
  assumes plain: "CHR ''/'' \<notin> set n"
    and run: "MultiTree_AddLeaf os NoCloneFunction (Some (leaves gs)) (Some n) (Some v) e = (r, t, e')"
  shows "r = MULTITREE_OK \<Longrightarrow> t = Some (leaves (gs @ [(n, v)])) \<and> n \<noteq> [] \<and> n \<notin> set (map fst gs)"
    and "memory_available os \<Longrightarrow> n \<noteq> [] \<Longrightarrow> n \<notin> set (map fst gs) \<Longrightarrow> r = MULTITREE_OK"
proof -
  have empty: "n = [] \<Longrightarrow> r \<noteq> MULTITREE_OK"
    using run by (auto simp: MultiTree_AddLeaf_def AddLeaf_empty_path)
  obtain c t' e'' where c: "createLeaf os NoCloneFunction (leaves gs) n (Some v) e = (c, t', e'')"
    by (cases "createLeaf os NoCloneFunction (leaves gs) n (Some v) e")
  have r: "n \<noteq> [] \<Longrightarrow> r = leaf_result c \<and> t = Some t'"
    using run AddLeaf_plain_leaf [OF plain, of os NoCloneFunction "leaves gs" v e] c by auto
  show "t = Some (leaves (gs @ [(n, v)])) \<and> n \<noteq> [] \<and> n \<notin> set (map fst gs)" if ok: "r = MULTITREE_OK"
  proof -
    from ok empty have "n \<noteq> []" by blast
    with ok r have "t = Some t'" "leaf_result c = MULTITREE_OK" by simp_all
    with \<open>n \<noteq> []\<close> show ?thesis
      by (cases rule: createLeaf_cases [OF c])
        (auto simp: getChildByName_def find_child_leaves [unfolded set_map] clones_def NoCloneFunction_def
          leaves_def set_children_def)
  qed
  show "memory_available os \<Longrightarrow> n \<noteq> [] \<Longrightarrow> n \<notin> set (map fst gs) \<Longrightarrow> r = MULTITREE_OK"
    using r createLeaf_fail_reason [OF _ clone_total_NoClone c]
    by (auto simp: getChildByName_def find_child_leaves leaf_result_def)
qed

lemma add_fields_leaves:
  assumes "list_all (\<lambda>p. CHR ''/'' \<notin> set (fst p)) fs"
    and "add_fields os fs (leaves gs) e = (r, t, e')"
    and "distinct (map fst gs)" "[] \<notin> set (map fst gs)"
  shows "(r = AGENT_DATA_TYPES_OK \<longrightarrow>
        t = leaves (gs @ fs) \<and> distinct (map fst (gs @ fs)) \<and> [] \<notin> set (map fst (gs @ fs)))
    \<and> (memory_available os \<and> distinct (map fst (gs @ fs)) \<and> [] \<notin> set (map fst (gs @ fs)) \<longrightarrow>
        r = AGENT_DATA_TYPES_OK)"
  using assms
proof (induction fs arbitrary: gs e)
  case (Cons p fs)
  obtain n v where p: "p = (n, v)" by (cases p)
  obtain r1 t1 e1 where add:
    "MultiTree_AddLeaf os NoCloneFunction (Some (leaves gs)) (Some n) (Some v) e = (r1, t1, e1)"
    by (cases "MultiTree_AddLeaf os NoCloneFunction (Some (leaves gs)) (Some n) (Some v) e")
  have plain: "CHR ''/'' \<notin> set n" using Cons.prems(1) p by simp
  note leaf = AddLeaf_leaves [OF plain add]
  show ?case
  proof (cases "r1 = MULTITREE_OK")
    case True
    with leaf(1) have l: "t1 = Some (leaves (gs @ [(n, v)]))" "n \<noteq> []" "n \<notin> set (map fst gs)" by auto
    have "add_fields os fs (leaves (gs @ [(n, v)])) e1 = (r, t, e')"
      using Cons.prems(2) p add True l(1) by simp
    moreover have "list_all (\<lambda>p. CHR ''/'' \<notin> set (fst p)) fs" using Cons.prems(1) by simp
    moreover have "distinct (map fst (gs @ [(n, v)]))" "[] \<notin> set (map fst (gs @ [(n, v)]))"
      using Cons.prems(3,4) l by simp_all
    ultimately have "(r = AGENT_DATA_TYPES_OK \<longrightarrow> t = leaves ((gs @ [(n, v)]) @ fs)
        \<and> distinct (map fst ((gs @ [(n, v)]) @ fs)) \<and> [] \<notin> set (map fst ((gs @ [(n, v)]) @ fs)))
      \<and> (memory_available os \<and> distinct (map fst ((gs @ [(n, v)]) @ fs))
        \<and> [] \<notin> set (map fst ((gs @ [(n, v)]) @ fs)) \<longrightarrow> r = AGENT_DATA_TYPES_OK)"
      using Cons.IH by blast
    then show ?thesis unfolding p append_assoc append_Cons append_Nil .
  next
    case False
    then show ?thesis using Cons.prems(2) p add leaf(2) by auto
  qed
qed auto

section \<open>The encoder on a tree of leaves\<close>

text \<open>\<open>f\<close> prints a value or fails; what it prints is its text.\<close>

definition prints_text ::
  "('st, 'e, 'm) edm_api_scheme \<Rightarrow> ('st \<Rightarrow> 'e \<Rightarrow> ('st, 'e) print_result) \<Rightarrow> string option \<Rightarrow> bool" where
  "prints_text api f x \<longleftrightarrow>
     (\<forall>d e d' e'. f d e = (AGENT_DATA_TYPES_OK, d', e') \<longrightarrow>
        (\<exists>s. x = Some s \<and> STRING_c_str api d' = STRING_c_str api d @ s))"

definition prints_if ::
  "('st \<Rightarrow> 'e \<Rightarrow> ('st, 'e) print_result) \<Rightarrow> string option \<Rightarrow> bool" where
  "prints_if f x \<longleftrightarrow> (\<forall>d e. x \<noteq> None \<longrightarrow> fst (f d e) = AGENT_DATA_TYPES_OK)"

lemma cast_result_OK [simp]: "cast_result r = JSON_ENCODER_TOSTRING_OK \<longleftrightarrow> r = AGENT_DATA_TYPES_OK"
  by (cases r) (simp_all add: cast_result_def)

lemma EncodeLoop_leaves:
  assumes laws: "string_laws api"
    and "\<And>n f. (n, f) \<in> set fs \<Longrightarrow> prints_text api f (tx n)"
    and "i \<le> length fs"
    and "EncodeLoop api run_leaf (leaves fs) i dest e = (JSON_ENCODER_OK, dest', e')"
  shows "(\<forall>(n, f) \<in> set (drop i fs). tx n \<noteq> None) \<and> STRING_c_str api dest' = STRING_c_str api dest
     @ members_text (i = 0) (map (\<lambda>(n, f). (n, the (tx n))) (drop i fs))"
  using assms(3,4)
proof (induction "length fs - i" arbitrary: i dest e)
  case 0
  then show ?case by (simp add: EncodeLoop_end)
next
  case (Suc k)
  then have i: "i < length fs" by simp
  then have i': "i < length (children (leaves fs))" by simp
  obtain n f where nf: "fs ! i = (n, f)" by (cases "fs ! i")
  with i have "prints_text api f (tx n)" by (metis assms(2) nth_mem)
  obtain r c d1 e1 where n: "EncodeName api (leaves fs) i dest e = (r, c, d1, e1)"
    by (cases "EncodeName api (leaves fs) i dest e")
  with Suc.prems(2) have r: "r = JSON_ENCODER_OK" by (auto simp: EncodeLoop_step [OF i'] split: if_splits)
  obtain r2 d2 e2 where v: "EncodeValue api run_leaf (MTree (Some n) (Some f) []) d1 e1 = (r2, d2, e2)"
    by (cases "EncodeValue api run_leaf (MTree (Some n) (Some f) []) d1 e1")
  with Suc.prems(2) n r have r2: "r2 = JSON_ENCODER_OK"
    and rest: "EncodeLoop api run_leaf (leaves fs) (Suc i) d2 e2 = (JSON_ENCODER_OK, dest', e')"
    using nf i by (auto simp: EncodeLoop_step [OF i'] encode_child_def split: if_splits)
  have "\<exists>s. tx n = Some s \<and> STRING_c_str api d2 = STRING_c_str api d1 @ s"
    using v r2 \<open>prints_text api f (tx n)\<close>
    by (auto simp: EncodeValue_def MultiTree_GetValue_def run_leaf_def prints_text_def
        split: prod.splits option.splits if_splits
        dest!: concat_string_to_OK [OF laws] STRING_new_OK [OF laws]) fastforce+
  moreover have "(\<forall>(n, f) \<in> set (drop (Suc i) fs). tx n \<noteq> None) \<and> STRING_c_str api dest' = STRING_c_str api d2
     @ members_text False (map (\<lambda>(n, f). (n, the (tx n))) (drop (Suc i) fs))"
    using Suc.hyps(1) [OF _ _ rest] Suc.hyps(2) i by simp
  moreover have "drop i fs = (n, f) # drop (Suc i) fs" using i nf by (simp add: Cons_nth_drop_Suc [symmetric])
  ultimately show ?case
    using EncodeName_OK(4) [OF laws n [unfolded r]] i nf by auto
qed

text \<open>The strings of the platform, when none of their operations fails.\<close>

definition edm_strings_never_fail :: "('st, 'e, 'm) edm_api_scheme \<Rightarrow> bool" where
  "edm_strings_never_fail api \<longleftrightarrow> never_fails api (\<lambda>s (v :: unit) e. (JSON_ENCODER_TOSTRING_OK, s, e))"

lemma EncodeLoop_leaves_available:
  assumes nf: "edm_strings_never_fail api"
    and "\<And>n f. (n, f) \<in> set fs \<Longrightarrow> \<forall>d e. fst (f d e) = AGENT_DATA_TYPES_OK"
    and "i \<le> length fs"
  shows "fst (EncodeLoop api run_leaf (leaves fs) i dest e) = JSON_ENCODER_OK"
  using assms(3)
proof (induction "length fs - i" arbitrary: i dest e)
  case 0
  then show ?case by (simp add: EncodeLoop_end)
next
  case (Suc k)
  then have i: "i < length fs" by simp
  then have i': "i < length (children (leaves fs))" by simp
  note nf' = never_failsD [OF nf [unfolded edm_strings_never_fail_def]]
  obtain n f where f: "fs ! i = (n, f)" by (cases "fs ! i")
  with i have ok: "\<And>d e. fst (f d e) = AGENT_DATA_TYPES_OK" by (metis assms(2) nth_mem)
  obtain r c d1 e1 where n: "EncodeName api (leaves fs) i dest e = (r, c, d1, e1)"
    by (cases "EncodeName api (leaves fs) i dest e")
  have r: "r = JSON_ENCODER_OK"
    using EncodeName_never_fails [OF nf [unfolded edm_strings_never_fail_def] i', of dest e] n f i by simp
  obtain s e2 where 1: "STRING_new api e1 = (Some s, e2)" using nf'(1) by blast
  obtain s' e3 where 2: "f s e2 = (AGENT_DATA_TYPES_OK, s', e3)" using ok [of s e2] by (cases "f s e2") auto
  obtain d2 e4 where 3: "concat_string_to api d1 s' e3 = (True, d2, e4)" using nf'(3) by blast
  have "EncodeValue api run_leaf (MTree (Some n) (Some f) []) d1 e1 = (JSON_ENCODER_OK, d2, e4)"
    by (simp add: EncodeValue_def MultiTree_GetValue_def 1 2 3 run_leaf_def cast_result_def)
  moreover have "fst (EncodeLoop api run_leaf (leaves fs) (Suc i) d2 e4) = JSON_ENCODER_OK"
    using Suc.hyps(1) [of "Suc i"] Suc.hyps(2) i by simp
  ultimately show ?case
    using n r f i by (simp add: EncodeLoop_step [OF i'] encode_child_def)
qed

lemma print_complex_text:
  assumes laws: "string_laws api"
    and plain: "list_all (\<lambda>p. CHR ''/'' \<notin> set (fst p)) fs"
    and txs: "list_all2 (\<lambda>(n, f) (m, x). n = m \<and> prints_text api f x) fs ms"
  shows "prints_text api (print_complex api os fs) (object_text ms)"
  unfolding prints_text_def
proof (intro allI impI)
  fix d e d' e'
  assume run: "print_complex api os fs d e = (AGENT_DATA_TYPES_OK, d', e')"
  have names: "map fst fs = map fst ms" 
    using txs by (induction fs ms rule: list_all2_induct) auto
  obtain e1 where create: "os_malloc os e = (True, e1)"
    using run by (cases "os_malloc os e") (auto simp: print_complex_def MultiTree_Create_def Let_def split: if_splits)
  obtain r t' e2 where add: "add_fields os fs (leaves []) e1 = (r, t', e2)"
    by (cases "add_fields os fs (leaves []) e1")
  have r: "r = AGENT_DATA_TYPES_OK" using run create add
    by (auto simp: print_complex_def MultiTree_Create_def leaves_def Let_def split: if_splits)
  have t': "t' = leaves fs" and dist: "distinct (map fst fs)" "[] \<notin> set (map fst fs)"
    using add_fields_leaves [OF plain add] r by auto
  define tx where "tx n = the (map_of ms n)" for n
  have tx: "prints_text api f (tx n)" if "(n, f) \<in> set fs" for n f
  proof -
    from that obtain i where i: "i < length fs" "fs ! i = (n, f)" by (auto simp: in_set_conv_nth)
    then have m: "i < length ms" "fst (ms ! i) = n" "prints_text api f (snd (ms ! i))"
      using list_all2_nthD [OF txs, of i] list_all2_lengthD [OF txs] by (auto simp: case_prod_beta)
    then have "(n, snd (ms ! i)) \<in> set ms" by (metis nth_mem prod.collapse)
    then have "map_of ms n = Some (snd (ms ! i))" using dist(1) names by (simp add: map_of_is_SomeI)
    with m(3) show ?thesis by (simp add: tx_def)
  qed
  have enc: "EncodeNode api run_leaf (leaves fs) d e2 = (JSON_ENCODER_OK, d', e')"
    using run create add r t'
    by (auto simp: print_complex_def MultiTree_Create_def leaves_def Let_def JSONEncoder_EncodeTree_def
        split: prod.splits if_splits)
  obtain d1 e3 where 1: "concat_to api d ''{'' e2 = (True, d1, e3)" 
    using enc by (auto simp: EncodeNode_eq split: prod.splits if_splits)
  obtain d2 e4 where 2: "EncodeLoop api run_leaf (leaves fs) 0 d1 e3 = (JSON_ENCODER_OK, d2, e4)"
    using enc 1 by (auto simp: EncodeNode_eq split: prod.splits if_splits)
  have 3: "concat_to api d2 ''}'' e4 = (True, d', e')"
    using enc 1 2 by (auto simp: EncodeNode_eq split: prod.splits if_splits)
  have some: "\<forall>(n, f) \<in> set fs. tx n \<noteq> None" 
    and body: "STRING_c_str api d2 = STRING_c_str api d1 @ members_text True (map (\<lambda>(n, f). (n, the (tx n))) fs)"
    using EncodeLoop_leaves [OF laws tx _ 2] by simp_all
  have ms: "map (\<lambda>(n, f). (n, tx n)) fs = ms"
  proof (rule nth_equalityI)
    show "length (map (\<lambda>(n, f). (n, tx n)) fs) = length ms" using list_all2_lengthD [OF txs] by simp
    fix i assume i: "i < length (map (\<lambda>(n, f). (n, tx n)) fs)"
    obtain m x where mx: "ms ! i = (m, x)" by (cases "ms ! i")
    obtain n f where nf: "fs ! i = (n, f)" by (cases "fs ! i")
    have "n = m" "i < length ms" using list_all2_nthD [OF txs, of i] list_all2_lengthD [OF txs] i mx nf by auto
    moreover from this have "map_of ms n = Some x" using dist(1) names mx by (metis map_of_is_SomeI nth_mem)
    ultimately show "map (\<lambda>(n, f). (n, tx n)) fs ! i = ms ! i" using i mx nf by (simp add: tx_def)
  qed
  have "None \<notin> set (map snd ms)" using some unfolding ms [symmetric] by force
  moreover have "map (\<lambda>(n, f). (n, the (tx n))) fs = map (apsnd the) ms"
    unfolding ms [symmetric] by (simp add: case_prod_beta comp_def)
  ultimately show "\<exists>s. object_text ms = Some s \<and> STRING_c_str api d' = STRING_c_str api d @ s"
    using dist body concat_to_OK [OF laws 1] concat_to_OK [OF laws 3] unfolding names
    by (simp add: object_text_def)
qed

lemma print_complex_available:
  assumes nf: "edm_strings_never_fail api" and mem: "memory_available os"
    and plain: "list_all (\<lambda>p. CHR ''/'' \<notin> set (fst p)) fs"
    and txs: "list_all2 (\<lambda>(n, f) (m, x). n = m \<and> prints_if f x) fs ms"
  shows "prints_if (print_complex api os fs) (object_text ms)"
  unfolding prints_if_def
proof (intro allI impI)
  fix d e
  assume some: "object_text ms \<noteq> None"
  have names: "map fst fs = map fst ms"
    using txs by (induction fs ms rule: list_all2_induct) auto
  have ok: "\<forall>d e. fst (f d e) = AGENT_DATA_TYPES_OK" if "(n, f) \<in> set fs" for n f
  proof -
    from that obtain i where i: "i < length fs" "fs ! i = (n, f)" by (auto simp: in_set_conv_nth)
    then have "i < length ms" "prints_if f (snd (ms ! i))"
      using list_all2_nthD [OF txs, of i] list_all2_lengthD [OF txs] by (auto simp: case_prod_beta)
    moreover from this have "snd (ms ! i) \<in> set (map snd ms)" by (simp add: image_iff) (metis nth_mem)
    then have "snd (ms ! i) \<noteq> None" using some by (metis object_text_def)
    ultimately show ?thesis by (simp add: prints_if_def)
  qed
  obtain e1 where create: "os_malloc os e = (True, e1)"
    by (metis (full_types) mem memory_availableD surj_pair)
  obtain r t' e2 where add: "add_fields os fs (leaves []) e1 = (r, t', e2)"
    by (cases "add_fields os fs (leaves []) e1")
  have "distinct (map fst fs)" "[] \<notin> set (map fst fs)"
    using some unfolding names by (simp_all add: object_text_def split: if_splits)
  with add_fields_leaves [OF plain add] mem have r: "r = AGENT_DATA_TYPES_OK" "t' = leaves fs" by auto
  note nf' = never_failsD [OF nf [unfolded edm_strings_never_fail_def]]
  obtain d1 e3 where 1: "concat_to api d ''{'' e2 = (True, d1, e3)" using nf'(2) by blast
  obtain d2 e4 where 2: "EncodeLoop api run_leaf (leaves fs) 0 d1 e3 = (JSON_ENCODER_OK, d2, e4)"
    using EncodeLoop_leaves_available [OF nf, of fs 0 d1 e3] ok
    by (cases "EncodeLoop api run_leaf (leaves fs) 0 d1 e3") auto
  obtain d3 e5 where 3: "concat_to api d2 ''}'' e4 = (True, d3, e5)" using nf'(2) by blast
  have "EncodeNode api run_leaf (leaves fs) d e2 = (JSON_ENCODER_OK, d3, e5)"
    by (simp add: EncodeNode_eq 1 2 3)
  then show "fst (print_complex api os fs d e) = AGENT_DATA_TYPES_OK"
    using create add r
    by (simp add: print_complex_def MultiTree_Create_def leaves_def [symmetric, of "[]", simplified]
        Let_def JSONEncoder_EncodeTree_def)
qed

section \<open>AgentDataTypes\_ToString prints the text of the value\<close>

lemma append_text_prints:
  assumes "string_laws api"
  shows "prints_text api (append_text api x) (Some x)"
    "prints_text api (append_printed api os y) y"
    "prints_text api (print_decimal api st) (Some (STRING_c_str api st))"
  using concat_to_OK [OF assms] concat_string_to_OK [OF assms]
  by (auto simp: prints_text_def append_text_def append_printed_def print_decimal_def
      split: prod.splits option.splits if_splits)

lemma append_text_available:
  assumes "edm_strings_never_fail api" "memory_available os"
  shows "prints_if (append_text api x) (Some x)"
    "prints_if (append_printed api os y) y"
    "prints_if (print_decimal api st) (Some (STRING_c_str api st))"
proof -
  note nf = never_failsD [OF assms(1) [unfolded edm_strings_never_fail_def]]
  have 1: "\<exists>d' e'. append_text api x d e = (AGENT_DATA_TYPES_OK, d', e')" for x d e
    using nf(2) [of d x e] by (auto simp: append_text_def)
  then show "prints_if (append_text api x) (Some x)" unfolding prints_if_def by (metis fst_conv)
  have "\<exists>d' e'. append_printed api os (Some s) d e = (AGENT_DATA_TYPES_OK, d', e')" for s d e
    using 1 [of s d "snd (os_malloc os e)"]
    by (cases "os_malloc os e") (auto simp: append_printed_def dest: memory_availableD [OF assms(2)])
  then show "prints_if (append_printed api os y) y" unfolding prints_if_def by (metis fst_conv not_Some_eq)
  have "\<exists>d' e'. print_decimal api st d e = (AGENT_DATA_TYPES_OK, d', e')" for d e
    using nf(3) [of d st e] by (auto simp: print_decimal_def)
  then show "prints_if (print_decimal api st) (Some (STRING_c_str api st))" unfolding prints_if_def by (metis fst_conv)
qed

lemma value_text_complex [simp]:
  "value_text bits dig (edmComplexType fs) = object_text (map (apsnd (value_text bits dig)) fs)"
  "plain_names (edmComplexType fs) = list_all (\<lambda>(n, v). CHR ''/'' \<notin> set n \<and> plain_names v) fs"
  "value_to_string api os (edmComplexType gs) = print_complex api os (map (apsnd (value_to_string api os)) gs)"
  by (simp_all add: map_prod_id_apsnd list_all_iff case_prod_beta)

declare value_text.simps(18) [simp del] plain_names.simps(18) [simp del] value_to_string.simps(18) [simp del]

lemma members_list_all2:
  assumes "\<And>n v. (n, v) \<in> set fs \<Longrightarrow> P (g v) (h v)"
  shows "list_all2 (\<lambda>(n, f) (m, x). n = m \<and> P f x) (map (apsnd g) fs) (map (apsnd h) fs)"
  using assms by (auto simp: list_all2_map1 list_all2_map2 list.rel_refl_strong case_prod_beta intro: list.rel_refl_strong)

lemma print_string_eq:
  "print_string api os s = (if has_unicode s then (\<lambda>d e. (AGENT_DATA_TYPES_INVALID_ARG, d, e))
     else append_printed api os (Some (string_text s)))"
  by (simp add: fun_eq_iff print_string_def)

text \<open>The text of a value, for the widths and constants of a platform.\<close>

definition text_of ::
  "('st, 'e, 'm) edm_api_scheme \<Rightarrow> 'st AGENT_DATA_TYPE \<Rightarrow> string option" where
  "text_of api v = value_text (LONG_BITS api) (DECIMAL_DIG api) (view api v)"

lemma value_to_string_prints:
  assumes "string_laws api"
  shows "plain_names (view api v) \<Longrightarrow> prints_text api (value_to_string api os v) (text_of api v)"
proof (induction v)
  case (edmComplexType fs)
  have members: "plain_names (view api v) \<Longrightarrow> prints_text api (value_to_string api os v) (text_of api v)"
    if "(n, v) \<in> set fs" for n v
    using edmComplexType.IH that by (auto simp: snds.simps)
  have "prints_text api (print_complex api os (map (apsnd (value_to_string api os)) fs))
     (object_text (map (apsnd (text_of api)) fs))"
    by (rule print_complex_text [OF assms])
      (use edmComplexType.prems members in \<open>auto simp: list_all_iff intro!: members_list_all2\<close>)
  moreover have "map (apsnd (text_of api)) fs = map (apsnd (value_text (LONG_BITS api) (DECIMAL_DIG api)))
      (map (apsnd (view api)) fs)"
    by (auto simp: text_of_def)
  ultimately show ?case by (simp add: text_of_def)
qed (auto simp: text_of_def append_text_prints [OF assms] print_string_eq print_double_def print_single_def
      double_text_def single_text_def prints_text_def [of _ "\<lambda>d e. (_, d, e)"] split: c_float.split)

lemma value_to_string_available:
  assumes nf: "edm_strings_never_fail api" and mem: "memory_available os"
  shows "plain_names (view api v) \<Longrightarrow> prints_if (value_to_string api os v) (text_of api v)"
proof (induction v)
  case (edmComplexType fs)
  have members: "plain_names (view api v) \<Longrightarrow> prints_if (value_to_string api os v) (text_of api v)"
    if "(n, v) \<in> set fs" for n v
    using edmComplexType.IH that by (auto simp: snds.simps)
  have "prints_if (print_complex api os (map (apsnd (value_to_string api os)) fs))
     (object_text (map (apsnd (text_of api)) fs))"
    by (rule print_complex_available [OF assms])
      (use edmComplexType.prems members in \<open>auto simp: list_all_iff intro!: members_list_all2\<close>)
  moreover have "map (apsnd (text_of api)) fs = map (apsnd (value_text (LONG_BITS api) (DECIMAL_DIG api)))
      (map (apsnd (view api)) fs)"
    by (auto simp: text_of_def)
  ultimately show ?case by (simp add: text_of_def)
qed (auto simp: text_of_def append_text_available [OF assms] print_string_eq print_double_def print_single_def
      double_text_def single_text_def prints_if_def [of "\<lambda>d e. (_, d, e)"] split: c_float.split)

lemma ToString_appends_text:
  assumes "string_laws api" "plain_names (view api v)"
    and "AgentDataTypes_ToString api os (Some dest) (Some v) e = (r, dest', e')"
  shows "r = AGENT_DATA_TYPES_OK \<Longrightarrow>
    \<exists>x d. text_of api v = Some x \<and> dest' = Some d \<and> STRING_c_str api d = STRING_c_str api dest @ x"
proof -
  obtain d where run: "value_to_string api os v dest e = (r, d, e')" "dest' = Some d"
    using assms(3) by (auto simp: AgentDataTypes_ToString_def split: prod.splits)
  moreover assume "r = AGENT_DATA_TYPES_OK"
  ultimately show ?thesis
    using value_to_string_prints [OF assms(1,2), of os] unfolding prints_text_def by blast
qed

text \<open>
  C7: AgentDataTypes\_ToString is refined by the text of a value, for all the values whose member
  names hold no slash. When it answers OK it has appended exactly that text; when it fails for
  another reason than memory the value has no text: it is a string that is not ASCII, a number or
  a date too long for its buffer, a complex value with an empty name or two equal ones, or one that
  holds such a value. The text of a complex value is the JSON object of its members in order,
  although the code goes through the multi tree and the JSON encoder.
\<close>

theorem ToString_appends_the_text_of_the_value:
  assumes "string_laws api" "plain_names (view api v)"
    and "AgentDataTypes_ToString api os (Some dest) (Some v) e = (r, dest', e')"
  shows "(r = AGENT_DATA_TYPES_OK \<longrightarrow>
        (\<exists>x d. text_of api v = Some x \<and> dest' = Some d \<and> STRING_c_str api d = STRING_c_str api dest @ x))
    \<and> (edm_strings_never_fail api \<and> memory_available os \<longrightarrow>
        (r = AGENT_DATA_TYPES_OK \<longleftrightarrow> text_of api v \<noteq> None))"
proof -
  obtain d where run: "value_to_string api os v dest e = (r, d, e')" "dest' = Some d"
    using assms(3) by (auto simp: AgentDataTypes_ToString_def split: prod.splits)
  note ToString_appends_text [OF assms]
  moreover have "edm_strings_never_fail api \<Longrightarrow> memory_available os \<Longrightarrow> text_of api v \<noteq> None \<Longrightarrow> r = AGENT_DATA_TYPES_OK"
    using value_to_string_available [OF _ _ assms(2), of os] run(1) unfolding prints_if_def by (metis fst_conv)
  ultimately show ?thesis using run(2) by auto
qed

definition example_value :: "string AGENT_DATA_TYPE" where
  "example_value = edmComplexType [(''on'', edmBoolean EDM_TRUE),
     (''at'', edmComplexType [(''x'', edmNull), (''s'', edmStringNoQuotes ''[1]'')])]"

lemma list_edm_never_fail: "edm_strings_never_fail list_edm_api"
  by (simp add: edm_strings_never_fail_def never_fails_def list_edm_api_def)

lemma view_list_edm [simp]: "view list_edm_api v = v"
  by (simp add: view_def list_edm_api_def AGENT_DATA_TYPE.map_ident)

lemma example_text:
  "text_of list_edm_api example_value =
     Some (''{'' @ [CHR 0x22] @ ''on'' @ [CHR 0x22] @ '':true, '' @ [CHR 0x22] @ ''at'' @ [CHR 0x22] @ '':{''
       @ [CHR 0x22] @ ''x'' @ [CHR 0x22] @ '':null, '' @ [CHR 0x22] @ ''s'' @ [CHR 0x22] @ '':[1]}}'')"
  by (simp add: text_of_def example_value_def object_text_def)

theorem ToString_appends_the_text_of_the_value_witness:
  "\<exists>r d e'. AgentDataTypes_ToString list_edm_api happy_os (Some ''='') (Some example_value) () = (r, Some d, e')
    \<and> r = AGENT_DATA_TYPES_OK \<and> d = ''='' @ the (text_of list_edm_api example_value)"
proof -
  obtain r d' e' where run:
    "AgentDataTypes_ToString list_edm_api happy_os (Some ''='') (Some example_value) () = (r, d', e')"
    by (cases "AgentDataTypes_ToString list_edm_api happy_os (Some ''='') (Some example_value) ()")
  have "plain_names (view list_edm_api example_value)" by (simp add: example_value_def)
  from ToString_appends_the_text_of_the_value [OF list_edm_laws(1) this run]
    list_edm_never_fail memory_available_happy example_text run
  show ?thesis by (auto simp: list_edm_api_def)
qed

section \<open>Reading printed text\<close>

text \<open>
  The types whose text is read by the same type, and what is read: the value, but for the fields of a
  date and time that are computed or not printed, and for a string, whose escapes are not undone.
\<close>

definition readable :: "AGENT_DATA_TYPE_TYPE \<Rightarrow> bool" where
  "readable t \<longleftrightarrow> t \<in> {EDM_NULL_TYPE, EDM_BOOLEAN_TYPE, EDM_BYTE_TYPE, EDM_SBYTE_TYPE, EDM_INT16_TYPE,
     EDM_INT32_TYPE, EDM_INT64_TYPE, EDM_DATE_TYPE, EDM_DATE_TIME_OFFSET_TYPE, EDM_GUID_TYPE, EDM_BINARY_TYPE,
     EDM_STRING_TYPE, EDM_STRING_NO_QUOTES_TYPE}"

definition canonical :: "'st AGENT_DATA_TYPE \<Rightarrow> 'st AGENT_DATA_TYPE" where
  "canonical v =
     (case v of edmDateTimeOffset t \<Rightarrow> edmDateTimeOffset (canonical_date_time t)
      | edmString s \<Rightarrow> edmString (concat (map escape_char s))
      | _ \<Rightarrow> v)"

lemma parse_string_text:
  assumes "memory_available os"
  shows "\<exists>e'. parse_string os (string_text s) e = (Inr (edmString (concat (map escape_char s))), e')"
  using assms
  by (cases "os_malloc os e") (auto simp: parse_string_def string_text_def quoted_def nth_append dest: memory_availableD)

lemma parse_string_no_quotes_text:
  assumes "memory_available os"
  shows "\<exists>e'. parse_string_no_quotes os s e = (Inr (edmStringNoQuotes s), e')"
  using assms by (cases "os_malloc os e") (auto simp: parse_string_no_quotes_def dest: memory_availableD)

lemma From_String_text:
  assumes bits: "32 \<le> LONG_BITS api" and mem: "memory_available os"
    and wf: "edm_wf (view api v)" and readable: "readable (value_type v)" and x: "text_of api v = Some x"
  shows "\<exists>e'. CreateAgentDataType_From_String api os errno (Some x) (value_type v) True e
    = Done (Inr (canonical v), e')"
proof (cases v)
  case (edmBinary bs)
  with x parse_binary_text [OF mem, of bs e] show ?thesis
    by (auto simp: CreateAgentDataType_From_String_def text_of_def canonical_def)
next
  case (edmDateTimeOffset t)
  with x wf show ?thesis
    by (auto simp: CreateAgentDataType_From_String_def text_of_def canonical_def parse_date_time_text)
next
  case (edmString s)
  with x parse_string_text [OF mem, of s e] show ?thesis
    by (auto simp: CreateAgentDataType_From_String_def text_of_def canonical_def split: if_splits)
next
  case (edmStringNoQuotes s)
  with x parse_string_no_quotes_text [OF mem, of s e] show ?thesis
    by (auto simp: CreateAgentDataType_From_String_def text_of_def canonical_def split: if_splits)
qed (use x wf readable in \<open>auto simp: CreateAgentDataType_From_String_def text_of_def canonical_def readable_def
    parse_sbyte_text [OF bits] parse_byte_text [OF bits] parse_int16_text [OF bits] parse_int32_text [OF bits]
    parse_int64_text parse_date_text parse_guid_text split: EDM_BOOLEANS.splits\<close>)

text \<open>
  C5: A well-formed value of one of the thirteen readable types that AgentDataTypes\_ToString has
  printed into an empty string is read back from that string by CreateAgentDataType\_From\_String
  with the type of the value, whatever errno was: null, booleans, the integers at their width, dates,
  dates with times and offsets, GUIDs, bytes in base64, and strings, which come back in their
  escaped form.
\<close>

theorem printed_values_read_back:
  assumes "string_laws api" "32 \<le> LONG_BITS api" "memory_available os"
    and "edm_wf (view api v)" "readable (value_type v)" "STRING_c_str api dest = []"
    and "AgentDataTypes_ToString api os (Some dest) (Some v) e = (AGENT_DATA_TYPES_OK, Some d, e')"
  shows "\<exists>e3. CreateAgentDataType_From_String api os errno (Some (STRING_c_str api d)) (value_type v) True e2
    = Done (Inr (canonical v), e3)"
proof -
  have "plain_names (view api v)" using assms(5) by (cases v) (auto simp: readable_def)
  from ToString_appends_text [OF assms(1) this assms(7)] assms(6)
  have "text_of api v = Some (STRING_c_str api d)" by auto
  with From_String_text [OF assms(2-5)] show ?thesis by blast
qed

definition example_date :: "string AGENT_DATA_TYPE" where
  "example_date = edmDate \<lparr>date_year = 2024, date_month = 2, date_day = 29\<rparr>"

theorem printed_values_read_back_witness:
  "\<exists>d e3. CreateAgentDataType_From_String list_edm_api happy_os True (Some d) EDM_DATE_TYPE True ()
    = Done (Inr example_date, e3)"
proof -
  have wf: "edm_wf (view list_edm_api example_date)" and ty: "readable (value_type example_date)"
    by (simp_all add: example_date_def calendar_date_def days_in_month_def leap_year_def readable_def)
  obtain d e' where run: "AgentDataTypes_ToString list_edm_api happy_os (Some []) (Some example_date) ()
      = (AGENT_DATA_TYPES_OK, Some d, e')"
    by (simp add: AgentDataTypes_ToString_def example_date_def append_text_def concat_to_def list_edm_api_def)
  have "32 \<le> LONG_BITS list_edm_api" "STRING_c_str list_edm_api [] = []" by (simp_all add: list_edm_api_def)
  from printed_values_read_back [OF list_edm_laws(1) this(1) memory_available_happy wf ty this(2) run, of True "()"]
  show ?thesis by (auto simp: example_date_def canonical_def)
qed

text \<open>
  What does not read back: a decimal is printed without the quotes that reading it needs, and so
  is a float that is not finite.
\<close>

lemma decimal_text_not_quoted: "decimal_text s \<Longrightarrow> \<not> quoted s"
  by (cases s) (auto simp: decimal_text_def unsigned_text_split quoted_def ISDIGIT_def)

theorem decimals_do_not_read_back:
  assumes "edm_wf (view api (edmDecimal st))"
  shows "text_of api (edmDecimal st) = Some (STRING_c_str api st)
    \<and> CreateAgentDataType_From_String api os errno (Some (STRING_c_str api st)) EDM_DECIMAL_TYPE True e
        = Done (Inl AGENT_DATA_TYPES_INVALID_ARG, e)"
  using decimal_text_not_quoted assms
  by (simp add: text_of_def CreateAgentDataType_From_String_def parse_decimal_def)

end
