(* ===== verification/EdmMade.thy ===== *)
theory EdmMade
  imports EdmValues
begin

text \<open>
  The values a program can hold (serializer/src/agenttypesystem.c): everything that the Create
  functions, the parser, copies, complex types and their fields can produce, as one inductive
  predicate; each such value is well formed, copies equal their source, and a complex value
  holds its members in order.
\<close>

section \<open>Copies\<close>

lemma copy_from:
  "Create_AGENT_DATA_TYPE_from_AGENT_DATA_TYPE api os dest src e = (Inr v', e') \<longleftrightarrow>
     dest \<and> (\<exists>v. src = Some v \<and> copy_value api os v e = (Inr v', e'))"
  by (cases src; cases dest) (auto simp: Create_AGENT_DATA_TYPE_from_AGENT_DATA_TYPE_def)

text \<open>
  Create\_AGENT\_DATA\_TYPE\_from\_AGENT\_DATA\_TYPE is a deep copy: what it answers is equal to
  its source in every field at every depth, and it can only fail for lack of memory when the source
  is well formed.
\<close>

theorem copies_equal_their_source:
  assumes "edm_string_laws api"
  shows "(Create_AGENT_DATA_TYPE_from_AGENT_DATA_TYPE api os True (Some v) e = (Inr v', e')
        \<longrightarrow> view api v' = view api v)
    \<and> (memory_available os \<and> edm_strings_available api \<and> edm_wf (view api v) \<longrightarrow>
        (\<exists>w e2. Create_AGENT_DATA_TYPE_from_AGENT_DATA_TYPE api os True (Some v) e = (Inr w, e2)
           \<and> view api w = view api v))"
proof -
  have eq: "view api w = view api v"
    if "Create_AGENT_DATA_TYPE_from_AGENT_DATA_TYPE api os True (Some v) e = (Inr w, e2)" for w e2
    using that copy_value_view [OF assms] by (simp add: Create_AGENT_DATA_TYPE_from_AGENT_DATA_TYPE_def)
  moreover have "\<exists>w e2. Create_AGENT_DATA_TYPE_from_AGENT_DATA_TYPE api os True (Some v) e = (Inr w, e2)"
    if "memory_available os" "edm_strings_available api" "edm_wf (view api v)"
    using copy_value_available [OF that(1,2), of v e] edm_wf_copyable [OF that(3)]
    by (cases "copy_value api os v e" rule: prod.exhaust, cases "fst (copy_value api os v e)")
      (auto simp: Create_AGENT_DATA_TYPE_from_AGENT_DATA_TYPE_def)
  ultimately show ?thesis by blast
qed

theorem copies_equal_their_source_witness:
  "\<exists>w e2. Create_AGENT_DATA_TYPE_from_AGENT_DATA_TYPE list_edm_api happy_os True (Some example_value) () = (Inr w, e2)
     \<and> view list_edm_api w = example_value"
  using copies_equal_their_source [OF list_edm_laws(2), of happy_os example_value "()"]
    list_edm_laws(3) by (simp add: example_value_def)

section \<open>Complex values\<close>

lemma copy_fields_names:
  "copy_fields os fs e = (Some gs, e') \<Longrightarrow> map fst gs = map fst fs"
  by (induction os fs e arbitrary: gs rule: copy_fields.induct)
    (auto split: prod.splits if_splits sum.splits option.splits)

text \<open>What the checks of Create\_AGENT\_DATA\_TYPE\_from\_Members guarantee.\<close>

lemma from_Members_Some:
  assumes laws: "edm_string_laws api"
    and run: "Create_AGENT_DATA_TYPE_from_Members api os agentData typeName n memberNames memberValues e = (Inr v, e')"
  obtains fs names vals where "v = edmComplexType fs" "memberNames = Some names" "memberValues = Some vals"
    "n \<noteq> 0" "None \<notin> set (take n names)" "distinct (map the (take n names))"
    "map (apsnd (view api)) fs = zip (map the (take n names)) (map (view api) (take n vals))"
proof -
  obtain names vals e1 fs where
    1: "memberNames = Some names" "memberValues = Some vals" "n \<noteq> 0" "\<not> isOneNameNULL (take n names)"
      "\<not> areThereTwoSameNames (map the (take n names))" "v = edmComplexType fs"
    and 2: "copy_fields os (zip (map the (take n names)) (map (copy_value api os) (take n vals))) e1 = (Some fs, e')"
    using run by (auto simp: Create_AGENT_DATA_TYPE_from_Members_def split: if_splits option.splits prod.splits)
  have "zip (map the (take n names)) (map (copy_value api os) (take n vals))
      = map (apsnd (copy_value api os)) (zip (map the (take n names)) (take n vals))"
    by (simp add: zip_map2 apsnd_def map_prod_def)
  from copy_fields_Some [OF 2 [unfolded this], of "view api"] copy_value_view [OF laws]
  have "map (apsnd (view api)) fs = map (apsnd (view api)) (zip (map the (take n names)) (take n vals))"
    by blast
  then have "map (apsnd (view api)) fs = zip (map the (take n names)) (map (view api) (take n vals))"
    by (simp add: zip_map2 apsnd_def map_prod_def)
  with 1 show ?thesis by (intro that) (auto simp: isOneNameNULL_iff areThereTwoSameNames_iff)
qed

text \<open>
  A complex value that Create\_AGENT\_DATA\_TYPE\_from\_Members has made holds the named members in
  order: AgentDataType\_GetComplexTypeField answers, for each index, the name given there and a value
  equal to the one given there, and nothing for an index past the end; and the names are not NULL and
  pairwise different.
\<close>

theorem members_are_kept_in_order:
  assumes "edm_string_laws api" "memory_available os"
    and "length names = n" "length vals = n"
    and "Create_AGENT_DATA_TYPE_from_Members api os True (Some typeName) n (Some names) (Some vals) e = (Inr v, e1)"
  shows "None \<notin> set names \<and> distinct names \<and> 0 < n
    \<and> (\<forall>i e2. case AgentDataType_GetComplexTypeField os (Some v) i e2 of
         (None, e3) \<Rightarrow> n \<le> i
       | (Some (name, w), e3) \<Rightarrow> i < n \<and> names ! i = Some name \<and> view api w = view api (vals ! i))"
proof -
  obtain fs where fs: "v = edmComplexType fs" "n \<noteq> 0" "None \<notin> set names" "distinct (map the names)"
    "map (apsnd (view api)) fs = zip (map the names) (map (view api) vals)"
    by (rule from_Members_Some [OF assms(1,5)]) (use assms(3,4) in auto)
  then have len: "length fs = n" by (metis assms(3,4) length_map length_zip min.idem)
  have "fst (fs ! i) = the (names ! i) \<and> view api (snd (fs ! i)) = view api (vals ! i)" if "i < n" for i
    using arg_cong [OF fs(5), of "\<lambda>l. l ! i"] that len assms(3,4) by (cases "fs ! i") simp
  moreover have "names ! i \<noteq> None" if "i < n" for i using fs(3) that assms(3) by (metis nth_mem)
  ultimately have field: "names ! i = Some (fst (fs ! i)) \<and> view api (snd (fs ! i)) = view api (vals ! i)"
    if "i < n" for i using that by (metis option.collapse)
  have "case AgentDataType_GetComplexTypeField os (Some v) i e2 of
         (None, e3) \<Rightarrow> n \<le> i
       | (Some (name, w), e3) \<Rightarrow> i < n \<and> names ! i = Some name \<and> view api w = view api (vals ! i)" for i e2
  proof -
    obtain e3 where "os_malloc os e2 = (True, e3)"
      by (metis (full_types) assms(2) memory_availableD surj_pair)
    then show ?thesis
      using field [of i] fs(1) len by (auto simp: AgentDataType_GetComplexTypeField_def case_prod_beta)
  qed
  then show ?thesis using fs distinct_map [of the names] by auto
qed

theorem members_are_kept_in_order_witness:
  "\<exists>v e1. Create_AGENT_DATA_TYPE_from_Members list_edm_api happy_os True (Some ''T'') 2
      (Some [Some ''a'', Some ''b'']) (Some [edmNull, edmInt16 3]) () = (Inr v, e1)
    \<and> distinct [Some ''a'', Some ''b'']"
proof -
  obtain v e1 where run: "Create_AGENT_DATA_TYPE_from_Members list_edm_api happy_os True (Some ''T'') 2
      (Some [Some ''a'', Some ''b'']) (Some [edmNull, edmInt16 3]) () = (Inr v, e1)"
    by (simp add: Create_AGENT_DATA_TYPE_from_Members_def happy_os_def)
  from members_are_kept_in_order [OF list_edm_laws(2) memory_available_happy _ _ run] run
  show ?thesis by simp
qed

section \<open>Every value that can be made\<close>

text \<open>
  The arguments are what C can pass: character pointers are C strings, an EDM\_GUID has 16 bytes,
  the values are values that have been made.
\<close>

inductive made ::
  "('st, 'e, 'n) edm_api_scheme \<Rightarrow> ('e, 'm) os_scheme \<Rightarrow> 'st AGENT_DATA_TYPE \<Rightarrow> bool"
  for api :: "('st, 'e, 'n) edm_api_scheme" and os :: "('e, 'm) os_scheme" where
  made_boolean: "Create_EDM_BOOLEAN_from_int d i = Inr v \<Longrightarrow> made api os v"
| made_byte: "Create_AGENT_DATA_TYPE_from_UINT8 d b = Inr v \<Longrightarrow> made api os v"
| made_double: "Create_AGENT_DATA_TYPE_from_DOUBLE d f = Inr v \<Longrightarrow> made api os v"
| made_single: "Create_AGENT_DATA_TYPE_from_FLOAT d f = Inr v \<Longrightarrow> made api os v"
| made_int16: "Create_AGENT_DATA_TYPE_from_SINT16 d h = Inr v \<Longrightarrow> made api os v"
| made_int32: "Create_AGENT_DATA_TYPE_from_SINT32 d w = Inr v \<Longrightarrow> made api os v"
| made_int64: "Create_AGENT_DATA_TYPE_from_SINT64 d x = Inr v \<Longrightarrow> made api os v"
| made_sbyte: "Create_AGENT_DATA_TYPE_from_SINT8 d b = Inr v \<Longrightarrow> made api os v"
| made_null: "Create_NULL_AGENT_DATA_TYPE d = Inr v \<Longrightarrow> made api os v"
| made_guid: "length g = 16 \<Longrightarrow> Create_AGENT_DATA_TYPE_from_EDM_GUID d g = Inr v \<Longrightarrow> made api os v"
| made_binary: "Create_AGENT_DATA_TYPE_from_EDM_BINARY os d bs n e = (Inr v, e') \<Longrightarrow> made api os v"
| made_charz: "NUL \<notin> set s \<Longrightarrow> Create_AGENT_DATA_TYPE_from_charz os d (Some s) e = (Inr v, e') \<Longrightarrow> made api os v"
| made_charz_no_quotes: "NUL \<notin> set s \<Longrightarrow>
    Create_AGENT_DATA_TYPE_from_charz_no_quotes os d (Some s) e = (Inr v, e') \<Longrightarrow> made api os v"
| made_date: "Create_AGENT_DATA_TYPE_from_date d y m day = Inr v \<Longrightarrow> made api os v"
| made_date_time: "Create_AGENT_DATA_TYPE_from_EDM_DATE_TIME_OFFSET d t = Inr v \<Longrightarrow> made api os v"
| made_decimal: "Create_EDM_DECIMAL_from_charz api d s e = (Inr v, e') \<Longrightarrow> made api os v"
| made_read: "NUL \<notin> set s \<Longrightarrow>
    CreateAgentDataType_From_String api os errno (Some s) type d e = Done (Inr v, e') \<Longrightarrow> made api os v"
| made_copy: "made api os w \<Longrightarrow>
    Create_AGENT_DATA_TYPE_from_AGENT_DATA_TYPE api os d (Some w) e = (Inr v, e') \<Longrightarrow> made api os v"
| made_members: "(\<And>w. w \<in> set vals \<Longrightarrow> made api os w) \<Longrightarrow> length vals = n \<Longrightarrow> length names = n
    \<Longrightarrow> (\<And>x. Some x \<in> set names \<Longrightarrow> NUL \<notin> set x)
    \<Longrightarrow> Create_AGENT_DATA_TYPE_from_Members api os d tn n (Some names) (Some vals) e = (Inr v, e') \<Longrightarrow> made api os v"
| made_pointers: "(\<And>w. Some w \<in> set ps \<Longrightarrow> made api os w) \<Longrightarrow> length ps = n \<Longrightarrow> length names = n
    \<Longrightarrow> (\<And>x. Some x \<in> set names \<Longrightarrow> NUL \<notin> set x)
    \<Longrightarrow> Create_AGENT_DATA_TYPE_from_MemberPointers api os d tn n (Some names) (Some ps) e = (Inr v, e')
    \<Longrightarrow> made api os v"
| made_field: "made api os w \<Longrightarrow>
    AgentDataType_GetComplexTypeField os (Some w) i e = (Some (name, v), e') \<Longrightarrow> made api os v"

lemma members_wf:
  assumes "\<And>w. w \<in> set vals \<Longrightarrow> edm_wf (view api w)" "length vals = n" "length names = n"
    "\<And>x. Some x \<in> set names \<Longrightarrow> NUL \<notin> set x" "edm_string_laws api"
    "Create_AGENT_DATA_TYPE_from_Members api os d tn n (Some names) (Some vals) e = (Inr v, e')"
  shows "edm_wf (view api v)"
proof -
  obtain fs where fs: "v = edmComplexType fs" "n \<noteq> 0" "None \<notin> set names" "distinct (map the names)"
    "map (apsnd (view api)) fs = zip (map the names) (map (view api) vals)"
    by (rule from_Members_Some [OF assms(5,6)]) (use assms(2,3) in auto)
  have "map fst (map (apsnd (view api)) fs) = map the names"
    unfolding fs(5) by (simp add: assms(2,3))
  then have names: "map fst fs = map the names" by simp
  have "NUL \<notin> set x \<and> edm_wf y" if "(x, y) \<in> set (map (apsnd (view api)) fs)" for x y
  proof -
    from that have "x \<in> set (map the names)" "y \<in> set (map (view api) vals)"
      unfolding fs(5) by (auto dest: set_zip_leftD set_zip_rightD)
    then show ?thesis using assms(1,4) fs(3) by (auto simp: image_iff) (metis option.collapse)
  qed
  then have "NUL \<notin> set x \<and> edm_wf (view api y)" if "(x, y) \<in> set fs" for x y
    using that by (force simp: image_iff)
  moreover have "fs \<noteq> []" using names fs(2) assms(3) by auto
  ultimately show ?thesis
    using fs(1,4) names by (auto simp: map_prod_id_apsnd list_all_iff comp_def)
qed

lemma pointers_wf:
  assumes "\<And>w. Some w \<in> set ps \<Longrightarrow> edm_wf (view api w)" "edm_string_laws api"
    and "copy_pointers api os ps e = (Some vs, e')"
  shows "length vs = length ps \<and> (\<forall>w \<in> set vs. edm_wf (view api w))"
proof -
  have eq: "map (\<lambda>v. Some (view api v)) vs = map (map_option (view api)) ps"
    by (rule copy_pointers_Some [OF assms(2,3)])
  have "edm_wf (view api w)" if "w \<in> set vs" for w
  proof -
    from that have "Some (view api w) \<in> set (map (\<lambda>v. Some (view api v)) vs)" by simp
    with eq have "Some (view api w) \<in> map_option (view api) ` set ps" by simp
    then obtain p where p: "p \<in> set ps" "Some (view api w) = map_option (view api) p" by blast
    from p(2) obtain z where "p = Some z" "view api z = view api w" by (cases p) auto
    with assms(1) [of z] p(1) show ?thesis by simp
  qed
  with map_eq_imp_length_eq [OF eq] show ?thesis by blast
qed

text \<open>
  C8: Every value a program can make is well formed, in whatever way it was made: by the Create
  functions from C values, by reading text of any type, by copying, by building complex values from
  values or from pointers, or by taking a field out of one. Dates exist in the calendar and times are
  in range, decimals are in the grammar, GUIDs have 16 bytes, complex values have at least one member
  and pairwise different names.
\<close>

theorem every_value_made_is_well_formed:
  assumes "edm_string_laws api"
  shows "made api os v \<Longrightarrow> edm_wf (view api v)"
proof (induction v rule: made.induct)
  case (made_read s errno type d e v e')
  then show ?case using From_String_reads [OF assms made_read(1), of type os errno d e]
    by (simp add: reads_as_def)
next
  case (made_copy w d e v e')
  then show ?case using copy_value_view [OF assms, of os w] by (simp add: copy_from) metis
next
  case (made_members vals n names d tn e v e')
  show ?case
    by (rule members_wf [OF _ _ _ _ assms made_members.hyps(5)]) (use made_members in auto)
next
  case (made_pointers ps n names d tn e v e')
  obtain vals e1 e2 where copied: "copy_pointers api os ps e1 = (Some vals, e2)"
    "Create_AGENT_DATA_TYPE_from_Members api os d tn n (Some names) (Some vals) e2 = (Inr v, e')"
    using made_pointers.hyps(2,5)
    by (auto simp: Create_AGENT_DATA_TYPE_from_MemberPointers_def split: prod.splits if_splits option.splits)
  have "length vals = length ps \<and> (\<forall>w \<in> set vals. edm_wf (view api w))"
    by (rule pointers_wf [OF _ assms copied(1)]) (use made_pointers.IH in blast)
  then show ?case
    by (intro members_wf [OF _ _ _ _ assms copied(2)]) (use made_pointers.hyps in auto)
next
  case (made_field w i e name v e')
  then obtain fs where fs: "w = edmComplexType fs" "i < length fs" "fs ! i = (name, v)"
    by (cases w) (auto simp: AgentDataType_GetComplexTypeField_def split: if_splits prod.splits)
  then have "(name, v) \<in> set fs" by (metis nth_mem)
  with fs(1) made_field.IH show ?case by (auto simp: list_all_iff map_prod_id_apsnd)
next
  case (made_decimal d s e v e')
  have "STRING_construct api x e = (Some st, e') \<Longrightarrow> STRING_c_str api st = x" for x st
    using assms unfolding edm_string_laws_def by blast
  with made_decimal show ?case
    by (auto simp: Create_EDM_DECIMAL_from_charz_def ValidateDecimal_spec
        split: bool.splits option.splits if_splits prod.splits)
qed (auto simp: Create_EDM_BOOLEAN_from_int_def Create_AGENT_DATA_TYPE_from_UINT8_def
    Create_AGENT_DATA_TYPE_from_DOUBLE_def Create_AGENT_DATA_TYPE_from_FLOAT_def
    Create_AGENT_DATA_TYPE_from_SINT16_def Create_AGENT_DATA_TYPE_from_SINT32_def
    Create_AGENT_DATA_TYPE_from_SINT64_def Create_AGENT_DATA_TYPE_from_SINT8_def
    Create_NULL_AGENT_DATA_TYPE_def Create_AGENT_DATA_TYPE_from_EDM_GUID_def
    Create_AGENT_DATA_TYPE_from_EDM_BINARY_def Create_AGENT_DATA_TYPE_from_charz_def
    Create_AGENT_DATA_TYPE_from_charz_no_quotes_def Create_AGENT_DATA_TYPE_from_date_def
    Create_AGENT_DATA_TYPE_from_EDM_DATE_TIME_OFFSET_def ValidateDate_spec date_time_ok_def
    split: if_splits prod.splits option.splits bool.splits)

lemma made_example: "made list_edm_api happy_os
    (edmComplexType [(''a'', edmNull), (''b'', edmDate \<lparr>date_year = 2024, date_month = 2, date_day = 29\<rparr>)])"
proof (rule made_members)
  show "Create_AGENT_DATA_TYPE_from_Members list_edm_api happy_os True (Some ''T'') 2 (Some [Some ''a'', Some ''b''])
      (Some [edmNull, edmDate \<lparr>date_year = 2024, date_month = 2, date_day = 29\<rparr>]) () =
     (Inr (edmComplexType [(''a'', edmNull), (''b'', edmDate \<lparr>date_year = 2024, date_month = 2, date_day = 29\<rparr>)]), ())"
    by (simp add: Create_AGENT_DATA_TYPE_from_Members_def happy_os_def)
  have "Create_NULL_AGENT_DATA_TYPE True = Inr edmNull"
    "Create_AGENT_DATA_TYPE_from_date True 2024 2 29 = Inr (edmDate \<lparr>date_year = 2024, date_month = 2, date_day = 29\<rparr>)"
    by (simp_all add: Create_NULL_AGENT_DATA_TYPE_def Create_AGENT_DATA_TYPE_from_date_def ValidateDate_def smod_eq_0_iff)
  then show "made list_edm_api happy_os w" 
    if "w \<in> set [edmNull, edmDate \<lparr>date_year = 2024, date_month = 2, date_day = 29\<rparr>]" for w
    using that made_null made_date by auto
qed auto

theorem every_value_made_is_well_formed_witness:
  "edm_wf (view list_edm_api (edmComplexType [(''a'', edmNull),
     (''b'', edmDate \<lparr>date_year = 2024, date_month = 2, date_day = 29\<rparr>)]))"
  by (rule every_value_made_is_well_formed [OF list_edm_laws(2) made_example])

end
