(* ===== verification/HsmClient.thy ===== *)
theory HsmClient
  imports Sdk_Prelude
begin

text \<open>
  The interfaces of hardware security modules (provisioning\_client/adapters/hsm\_client\_data.h), the
  module that keeps a symmetric key (adapters/hsm\_client\_key.c), and the two factories that hold which
  kind of module the program chose and its symmetric key (prov\_security\_factory.c for
  provisioning, iothub\_security\_factory.c for the hub), which keep each other informed.
\<close>

section \<open>Function pointers\<close>

text \<open>A call through a function pointer; NULL leaves defined behaviour.\<close>

definition call_ptr :: "'f option \<Rightarrow> ('f \<Rightarrow> 'b run) \<Rightarrow> 'b run" where
  "call_ptr p k = (case p of None \<Rightarrow> Fault | Some f \<Rightarrow> k f)"

lemma call_ptr_Some [simp]: "call_ptr (Some f) k = k f"
  by (simp add: call_ptr_def)

section \<open>Interfaces\<close>

text \<open>
  A module is an object of type \<open>'h\<close> that its functions may change, in an environment \<open>'e\<close>. Keys and
  signatures are the bytes they hold; None is a failure (a result other than 0, or NULL), and a
  result that is only tested against 0 is whether it is 0.
\<close>

type_synonym ('h, 'e) HSM_CLIENT_CREATE = "'e \<Rightarrow> 'h option \<times> 'e"
type_synonym ('h, 'e) HSM_CLIENT_DESTROY = "'h \<Rightarrow> 'e \<Rightarrow> 'e"
type_synonym ('h, 'e) HSM_CLIENT_ACTIVATE_IDENTITY_KEY = "'h \<Rightarrow> char list \<Rightarrow> 'e \<Rightarrow> bool \<times> 'h \<times> 'e"
type_synonym ('h, 'e) HSM_CLIENT_GET = "'h \<Rightarrow> 'e \<Rightarrow> char list option \<times> 'h \<times> 'e"
type_synonym ('h, 'e) HSM_CLIENT_SIGN_WITH_IDENTITY = "'h \<Rightarrow> char list \<Rightarrow> 'e \<Rightarrow> char list option \<times> 'h \<times> 'e"
type_synonym ('h, 'e) HSM_CLIENT_SET_SYMMETRICAL_KEY_INFO =
  "'h \<Rightarrow> string option \<Rightarrow> string option \<Rightarrow> 'e \<Rightarrow> bool \<times> 'h \<times> 'e"

record ('h, 'e) HSM_CLIENT_TPM_INTERFACE =
  hsm_client_tpm_create :: "('h, 'e) HSM_CLIENT_CREATE option"
  hsm_client_tpm_destroy :: "('h, 'e) HSM_CLIENT_DESTROY option"
  hsm_client_activate_identity_key :: "('h, 'e) HSM_CLIENT_ACTIVATE_IDENTITY_KEY option"
  hsm_client_get_ek :: "('h, 'e) HSM_CLIENT_GET option"
  hsm_client_tpm_get_srk :: "('h, 'e) HSM_CLIENT_GET option"
  hsm_client_sign_with_identity :: "('h, 'e) HSM_CLIENT_SIGN_WITH_IDENTITY option"

record ('h, 'e) HSM_CLIENT_X509_INTERFACE =
  hsm_client_x509_create :: "('h, 'e) HSM_CLIENT_CREATE option"
  hsm_client_x509_destroy :: "('h, 'e) HSM_CLIENT_DESTROY option"
  hsm_client_x509_get_cert :: "('h, 'e) HSM_CLIENT_GET option"
  hsm_client_get_key :: "('h, 'e) HSM_CLIENT_GET option"
  hsm_client_x509_get_common_name :: "('h, 'e) HSM_CLIENT_GET option"

record ('h, 'e) HSM_CLIENT_HTTP_EDGE_INTERFACE =
  hsm_client_http_edge_create :: "('h, 'e) HSM_CLIENT_CREATE option"
  hsm_client_http_edge_destroy :: "('h, 'e) HSM_CLIENT_DESTROY option"
  hsm_client_edge_sign_with_identity :: "('h, 'e) HSM_CLIENT_SIGN_WITH_IDENTITY option"
  hsm_client_edge_get_trust_bundle :: "('h, 'e) HSM_CLIENT_GET option"

record ('h, 'e) HSM_CLIENT_KEY_INTERFACE =
  hsm_client_key_create_fn :: "('h, 'e) HSM_CLIENT_CREATE option"
  hsm_client_key_destroy_fn :: "('h, 'e) HSM_CLIENT_DESTROY option"
  hsm_client_key_get_symm_key :: "('h, 'e) HSM_CLIENT_GET option"
  hsm_client_key_get_registration_name :: "('h, 'e) HSM_CLIENT_GET option"
  hsm_client_key_set_symm_key_info :: "('h, 'e) HSM_CLIENT_SET_SYMMETRICAL_KEY_INFO option"

section \<open>The module of a symmetric key\<close>

record HSM_CLIENT_KEY_INFO =
  key_symm_key :: "string option"
  key_registration_name :: "string option"

definition hsm_client_key_create :: "('e, 'm) os_scheme \<Rightarrow> 'e \<Rightarrow> HSM_CLIENT_KEY_INFO option \<times> 'e" where
  "hsm_client_key_create os e = malloc_of os \<lparr>key_symm_key = None, key_registration_name = None\<rparr> e"

text \<open>It frees the object and its strings; they are not used afterwards.\<close>

definition hsm_client_key_destroy :: "HSM_CLIENT_KEY_INFO option \<Rightarrow> HSM_CLIENT_KEY_INFO option" where
  "hsm_client_key_destroy handle = None"

text \<open>mallocAndStrcpy\_s of a string that may be NULL, which it refuses.\<close>

definition strcpy_of :: "('e, 'm) os_scheme \<Rightarrow> string option \<Rightarrow> 'e \<Rightarrow> string option \<times> 'e" where
  "strcpy_of os src e = (case src of None \<Rightarrow> (None, e) | Some s \<Rightarrow> malloc_of os s e)"

definition hsm_client_get_symmetric_key ::
  "('e, 'm) os_scheme \<Rightarrow> HSM_CLIENT_KEY_INFO option \<Rightarrow> 'e \<Rightarrow> string option \<times> 'e" where
  "hsm_client_get_symmetric_key os handle e =
     (case handle of None \<Rightarrow> (None, e) | Some key_client \<Rightarrow> strcpy_of os (key_symm_key key_client) e)"

definition hsm_client_get_registration_name ::
  "('e, 'm) os_scheme \<Rightarrow> HSM_CLIENT_KEY_INFO option \<Rightarrow> 'e \<Rightarrow> string option \<times> 'e" where
  "hsm_client_get_registration_name os handle e =
     (case handle of None \<Rightarrow> (None, e) | Some key_client \<Rightarrow> strcpy_of os (key_registration_name key_client) e)"

definition hsm_client_set_key_info ::
  "('e, 'm) os_scheme \<Rightarrow> HSM_CLIENT_KEY_INFO option \<Rightarrow> string option \<Rightarrow> string option \<Rightarrow> 'e
     \<Rightarrow> bool \<times> HSM_CLIENT_KEY_INFO option \<times> 'e" where
  "hsm_client_set_key_info os handle reg_name symm_key e =
     (case (handle, reg_name, symm_key) of
        (Some key_client, Some r, Some k) \<Rightarrow>
          (case malloc_of os r e of
             (None, e) \<Rightarrow> (False, handle, e)
           | (Some temp_reg_name, e) \<Rightarrow>
               (case malloc_of os k e of
                  (None, e) \<Rightarrow> (False, handle, e)
                | (Some temp_key, e) \<Rightarrow>
                    (True, Some (key_client\<lparr>key_symm_key := Some temp_key,
                                            key_registration_name := Some temp_reg_name\<rparr>), e)))
      | _ \<Rightarrow> (False, handle, e))"

text \<open>The interface of the module: its functions on an object that exists.\<close>

definition hsm_client_key_interface ::
  "('e, 'm) os_scheme \<Rightarrow> (HSM_CLIENT_KEY_INFO, 'e) HSM_CLIENT_KEY_INTERFACE" where
  "hsm_client_key_interface os = \<lparr>
     hsm_client_key_create_fn = Some (hsm_client_key_create os),
     hsm_client_key_destroy_fn = Some (\<lambda>h e. e),
     hsm_client_key_get_symm_key =
       Some (\<lambda>h e. case hsm_client_get_symmetric_key os (Some h) e of (r, e) \<Rightarrow> (r, h, e)),
     hsm_client_key_get_registration_name =
       Some (\<lambda>h e. case hsm_client_get_registration_name os (Some h) e of (r, e) \<Rightarrow> (r, h, e)),
     hsm_client_key_set_symm_key_info =
       Some (\<lambda>h r k e. case hsm_client_set_key_info os (Some h) r k e of (ok, h', e) \<Rightarrow> (ok, the h', e)) \<rparr>"

section \<open>The factories\<close>

datatype SECURE_DEVICE_TYPE =
  SECURE_DEVICE_TYPE_UNKNOWN | SECURE_DEVICE_TYPE_TPM | SECURE_DEVICE_TYPE_X509 | SECURE_DEVICE_TYPE_HTTP_EDGE
| SECURE_DEVICE_TYPE_SYMMETRIC_KEY

datatype IOTHUB_SECURITY_TYPE =
  IOTHUB_SECURITY_TYPE_UNKNOWN | IOTHUB_SECURITY_TYPE_SAS | IOTHUB_SECURITY_TYPE_X509
| IOTHUB_SECURITY_TYPE_HTTP_EDGE | IOTHUB_SECURITY_TYPE_SYMMETRIC_KEY

text \<open>
  The modules the library was built with: HSM\_TYPE\_SAS\_TOKEN, HSM\_TYPE\_X509, HSM\_TYPE\_SYMM\_KEY (each also
  set by HSM\_AUTH\_TYPE\_CUSTOM) and HSM\_TYPE\_HTTP\_EDGE.
\<close>

record hsm_build =
  built_tpm :: bool
  built_x509 :: bool
  built_symm_key :: bool
  built_http_edge :: bool

text \<open>The initialization functions of the modules.\<close>

record 'e hsm_system =
  hsm_client_x509_init :: "'e \<Rightarrow> bool \<times> 'e"
  hsm_client_tpm_init :: "'e \<Rightarrow> bool \<times> 'e"
  hsm_client_http_edge_init :: "'e \<Rightarrow> bool \<times> 'e"
  hsm_client_http_edge_deinit :: "'e \<Rightarrow> 'e"
  hsm_client_x509_deinit :: "'e \<Rightarrow> 'e"
  hsm_client_tpm_deinit :: "'e \<Rightarrow> 'e"

text \<open>The static variables of the two factories, and the environment.\<close>

record 'e factories =
  g_device_hsm_type :: SECURE_DEVICE_TYPE
  prov_symm_key :: "string option"
  prov_symm_key_reg_name :: "string option"
  g_security_type :: IOTHUB_SECURITY_TYPE
  iothub_symm_key :: "string option"
  iothub_symm_key_reg_name :: "string option"
  f_env :: 'e

definition initialize_hsm_system :: "hsm_build \<Rightarrow> 'e hsm_system \<Rightarrow> 'e \<Rightarrow> bool \<times> 'e" where
  "initialize_hsm_system b sys e =
     (let init = (\<lambda>built f (ok, e). if built \<and> ok then f e else (ok, e)) in
      init (built_http_edge b) (hsm_client_http_edge_init sys)
        (init (built_tpm b) (hsm_client_tpm_init sys)
           (init (built_x509 b) (hsm_client_x509_init sys) (True, e))))"

definition deinitialize_hsm_system :: "hsm_build \<Rightarrow> 'e hsm_system \<Rightarrow> 'e \<Rightarrow> 'e" where
  "deinitialize_hsm_system b sys e =
     (let e = (if built_http_edge b then hsm_client_http_edge_deinit sys e else e);
          e = (if built_x509 b then hsm_client_x509_deinit sys e else e) in
      if built_tpm b then hsm_client_tpm_deinit sys e else e)"

definition on_f_env :: "('e \<Rightarrow> 'r \<times> 'e) \<Rightarrow> ('e, 'm) factories_scheme \<Rightarrow> 'r \<times> ('e, 'm) factories_scheme" where
  "on_f_env f g = (case f (f_env g) of (r, e) \<Rightarrow> (r, g\<lparr>f_env := e\<rparr>))"

fun get_iothub_security_type :: "hsm_build \<Rightarrow> SECURE_DEVICE_TYPE \<Rightarrow> IOTHUB_SECURITY_TYPE" where
  "get_iothub_security_type b SECURE_DEVICE_TYPE_TPM =
     (if built_tpm b then IOTHUB_SECURITY_TYPE_SAS else IOTHUB_SECURITY_TYPE_UNKNOWN)"
| "get_iothub_security_type b SECURE_DEVICE_TYPE_X509 =
     (if built_x509 b then IOTHUB_SECURITY_TYPE_X509 else IOTHUB_SECURITY_TYPE_UNKNOWN)"
| "get_iothub_security_type b SECURE_DEVICE_TYPE_SYMMETRIC_KEY =
     (if built_symm_key b then IOTHUB_SECURITY_TYPE_SYMMETRIC_KEY else IOTHUB_SECURITY_TYPE_UNKNOWN)"
| "get_iothub_security_type b SECURE_DEVICE_TYPE_HTTP_EDGE =
     (if built_http_edge b then IOTHUB_SECURITY_TYPE_HTTP_EDGE else IOTHUB_SECURITY_TYPE_UNKNOWN)"
| "get_iothub_security_type b SECURE_DEVICE_TYPE_UNKNOWN = IOTHUB_SECURITY_TYPE_UNKNOWN"

fun get_secure_device_type :: "hsm_build \<Rightarrow> IOTHUB_SECURITY_TYPE \<Rightarrow> SECURE_DEVICE_TYPE" where
  "get_secure_device_type b IOTHUB_SECURITY_TYPE_SAS =
     (if built_tpm b then SECURE_DEVICE_TYPE_TPM else SECURE_DEVICE_TYPE_UNKNOWN)"
| "get_secure_device_type b IOTHUB_SECURITY_TYPE_X509 =
     (if built_x509 b then SECURE_DEVICE_TYPE_X509 else SECURE_DEVICE_TYPE_UNKNOWN)"
| "get_secure_device_type b IOTHUB_SECURITY_TYPE_SYMMETRIC_KEY =
     (if built_symm_key b then SECURE_DEVICE_TYPE_SYMMETRIC_KEY else SECURE_DEVICE_TYPE_UNKNOWN)"
| "get_secure_device_type b IOTHUB_SECURITY_TYPE_HTTP_EDGE =
     (if built_http_edge b then SECURE_DEVICE_TYPE_HTTP_EDGE else SECURE_DEVICE_TYPE_UNKNOWN)"
| "get_secure_device_type b IOTHUB_SECURITY_TYPE_UNKNOWN = SECURE_DEVICE_TYPE_UNKNOWN"

lemma security_types_known:
  "get_iothub_security_type b t \<noteq> IOTHUB_SECURITY_TYPE_UNKNOWN \<Longrightarrow> t \<noteq> SECURE_DEVICE_TYPE_UNKNOWN"
  "get_secure_device_type b s \<noteq> SECURE_DEVICE_TYPE_UNKNOWN \<Longrightarrow> s \<noteq> IOTHUB_SECURITY_TYPE_UNKNOWN"
  by auto

lemma security_types_match:
  "get_iothub_security_type b t \<noteq> IOTHUB_SECURITY_TYPE_UNKNOWN \<Longrightarrow> get_secure_device_type b (get_iothub_security_type b t) = t"
  "get_secure_device_type b s \<noteq> SECURE_DEVICE_TYPE_UNKNOWN \<Longrightarrow> get_iothub_security_type b (get_secure_device_type b s) = s"
  by (cases t; auto split: if_splits) (cases s; auto split: if_splits)

text \<open>
  The two init functions call each other: the one the program calls sets its own type first, so
  the other finds it set and does not call back.
\<close>

function prov_dev_security_init ::
    "hsm_build \<Rightarrow> 'e hsm_system \<Rightarrow> SECURE_DEVICE_TYPE \<Rightarrow> ('e, 'm) factories_scheme \<Rightarrow> bool \<times> ('e, 'm) factories_scheme"
  and iothub_security_init ::
    "hsm_build \<Rightarrow> 'e hsm_system \<Rightarrow> IOTHUB_SECURITY_TYPE \<Rightarrow> ('e, 'm) factories_scheme \<Rightarrow> bool \<times> ('e, 'm) factories_scheme" where
  "prov_dev_security_init b sys hsm_type g =
     (let security_type_from_caller = get_iothub_security_type b hsm_type in
      if security_type_from_caller = IOTHUB_SECURITY_TYPE_UNKNOWN then (False, g)
      else
        let g = g\<lparr>g_device_hsm_type := hsm_type\<rparr> in
        case (if g_security_type g = IOTHUB_SECURITY_TYPE_UNKNOWN
              then iothub_security_init b sys security_type_from_caller g
              else (g_security_type g = security_type_from_caller, g)) of
          (ok, g) \<Rightarrow> (if ok then on_f_env (initialize_hsm_system b sys) g else (False, g)))"
| "iothub_security_init b sys sec_type g =
     (let secure_device_type_from_caller = get_secure_device_type b sec_type in
      if secure_device_type_from_caller = SECURE_DEVICE_TYPE_UNKNOWN then (False, g)
      else
        let g = g\<lparr>g_security_type := sec_type\<rparr> in
        case (if g_device_hsm_type g = SECURE_DEVICE_TYPE_UNKNOWN
              then prov_dev_security_init b sys secure_device_type_from_caller g
              else (secure_device_type_from_caller = g_device_hsm_type g, g)) of
          (ok, g) \<Rightarrow> (if ok then on_f_env (initialize_hsm_system b sys) g else (False, g)))"
  by pat_completeness auto

termination
  by (relation "measure (case_sum
        (\<lambda>(b, sys, t, g). if g_security_type g = IOTHUB_SECURITY_TYPE_UNKNOWN then 1 else 0)
        (\<lambda>(b, sys, s, g). if g_device_hsm_type g = SECURE_DEVICE_TYPE_UNKNOWN then 1 else 0))")
     (simp_all add: security_types_known)

declare prov_dev_security_init.simps [simp del] iothub_security_init.simps [simp del]

lemma on_f_env_frame:
  assumes "on_f_env f g = (r, g')"
  shows "g' = g\<lparr>f_env := f_env g'\<rparr>"
  using assms by (auto simp: on_f_env_def split: prod.splits)

lemma on_f_env_same:
  assumes "on_f_env f g = (r, g')"
  shows "prov_symm_key g' = prov_symm_key g" "prov_symm_key_reg_name g' = prov_symm_key_reg_name g"
    "iothub_symm_key g' = iothub_symm_key g" "iothub_symm_key_reg_name g' = iothub_symm_key_reg_name g"
    "g_device_hsm_type g' = g_device_hsm_type g" "g_security_type g' = g_security_type g"
  using assms by (auto simp: on_f_env_def split: prod.splits)

text \<open>Setting the key of one factory sets the other's when that has none.\<close>

definition store_names :: "('e, 'm) os_scheme \<Rightarrow> string option \<Rightarrow> string option \<Rightarrow> 'e \<Rightarrow> (string \<times> string) option \<times> 'e" where
  "store_names os registration_name symmetric_key e =
     (case (registration_name, symmetric_key) of
        (Some r, Some k) \<Rightarrow>
          or_null (malloc_of os r e) (\<lambda>temp_name e. or_null (malloc_of os k e) (\<lambda>temp_key e. (Some (temp_name, temp_key), e)))
      | _ \<Rightarrow> (None, e))"

function prov_dev_set_symmetric_key_info ::
    "('e, 'o) os_scheme \<Rightarrow> string option \<Rightarrow> string option \<Rightarrow> ('e, 'm) factories_scheme \<Rightarrow> bool \<times> ('e, 'm) factories_scheme"
  and iothub_security_set_symmetric_key_info ::
    "('e, 'o) os_scheme \<Rightarrow> string option \<Rightarrow> string option \<Rightarrow> ('e, 'm) factories_scheme \<Rightarrow> bool \<times> ('e, 'm) factories_scheme" where
  "prov_dev_set_symmetric_key_info os registration_name symmetric_key g =
     (case on_f_env (store_names os registration_name symmetric_key) g of
        (None, g) \<Rightarrow> (False, g)
      | (Some (temp_name, temp_key), g) \<Rightarrow>
          let g = g\<lparr>prov_symm_key_reg_name := Some temp_name, prov_symm_key := Some temp_key\<rparr> in
          if iothub_symm_key g = None \<or> iothub_symm_key_reg_name g = None
          then iothub_security_set_symmetric_key_info os (Some temp_name) (Some temp_key) g
          else (True, g))"
| "iothub_security_set_symmetric_key_info os registration_name symmetric_key g =
     (case on_f_env (store_names os registration_name symmetric_key) g of
        (None, g) \<Rightarrow> (False, g)
      | (Some (temp_name, temp_key), g) \<Rightarrow>
          let g = g\<lparr>iothub_symm_key_reg_name := Some temp_name, iothub_symm_key := Some temp_key\<rparr> in
          if prov_symm_key g = None \<or> prov_symm_key_reg_name g = None
          then prov_dev_set_symmetric_key_info os (Some temp_name) (Some temp_key) g
          else (True, g))"
  by pat_completeness auto

termination
  by (relation "measure (case_sum
        (\<lambda>(os, r, k, g). if iothub_symm_key g = None \<or> iothub_symm_key_reg_name g = None then 1 else 0)
        (\<lambda>(os, r, k, g). if prov_symm_key g = None \<or> prov_symm_key_reg_name g = None then 1 else 0))")
     (auto dest: on_f_env_same [OF sym])

declare prov_dev_set_symmetric_key_info.simps [simp del] iothub_security_set_symmetric_key_info.simps [simp del]

text \<open>
  Clearing one factory clears the other when that still has a key; the one that is cleared first no
  longer has one, so the calls end.
\<close>

function prov_dev_security_deinit :: "hsm_build \<Rightarrow> 'e hsm_system \<Rightarrow> ('e, 'm) factories_scheme \<Rightarrow> ('e, 'm) factories_scheme"
  and iothub_security_deinit :: "hsm_build \<Rightarrow> 'e hsm_system \<Rightarrow> ('e, 'm) factories_scheme \<Rightarrow> ('e, 'm) factories_scheme" where
  "prov_dev_security_deinit b sys g =
     (let g = g\<lparr>prov_symm_key := None, prov_symm_key_reg_name := None,
                f_env := deinitialize_hsm_system b sys (f_env g)\<rparr> in
      if iothub_symm_key g \<noteq> None \<or> iothub_symm_key_reg_name g \<noteq> None then iothub_security_deinit b sys g else g)"
| "iothub_security_deinit b sys g =
     (let g = g\<lparr>iothub_symm_key := None, iothub_symm_key_reg_name := None,
                f_env := deinitialize_hsm_system b sys (f_env g)\<rparr> in
      if prov_symm_key g \<noteq> None \<or> prov_symm_key_reg_name g \<noteq> None then prov_dev_security_deinit b sys g else g)"
  by pat_completeness auto

termination
  by (relation "measure (case_sum
        (\<lambda>(b, sys, g). if iothub_symm_key g \<noteq> None \<or> iothub_symm_key_reg_name g \<noteq> None then 1 else 0)
        (\<lambda>(b, sys, g). if prov_symm_key g \<noteq> None \<or> prov_symm_key_reg_name g \<noteq> None then 1 else 0))") auto

declare prov_dev_security_deinit.simps [simp del] iothub_security_deinit.simps [simp del]

definition prov_dev_security_get_type :: "('e, 'm) factories_scheme \<Rightarrow> SECURE_DEVICE_TYPE" where
  "prov_dev_security_get_type g = g_device_hsm_type g"

definition prov_dev_get_symmetric_key :: "('e, 'm) factories_scheme \<Rightarrow> string option" where
  "prov_dev_get_symmetric_key g = prov_symm_key g"

definition prov_dev_get_symm_registration_name :: "('e, 'm) factories_scheme \<Rightarrow> string option" where
  "prov_dev_get_symm_registration_name g = prov_symm_key_reg_name g"

definition iothub_security_type :: "('e, 'm) factories_scheme \<Rightarrow> IOTHUB_SECURITY_TYPE" where
  "iothub_security_type g = g_security_type g"

definition iothub_security_get_symmetric_key :: "('e, 'm) factories_scheme \<Rightarrow> string option" where
  "iothub_security_get_symmetric_key g = iothub_symm_key g"

definition iothub_security_get_symm_registration_name :: "('e, 'm) factories_scheme \<Rightarrow> string option" where
  "iothub_security_get_symm_registration_name g = iothub_symm_key_reg_name g"

section \<open>What the factories keep\<close>

lemma store_names_Some:
  "store_names os r k e = (Some (n, s), e') \<Longrightarrow> r = Some n \<and> k = Some s"
  by (auto simp: store_names_def or_null_Some malloc_of_Some split: option.splits)

lemma on_f_env_eq: "on_f_env f g = (r, g') \<longleftrightarrow> f (f_env g) = (r, f_env g') \<and> g' = g\<lparr>f_env := f_env g'\<rparr>"
  by (auto simp: on_f_env_def split: prod.splits)

lemma init_hsm_types:
  "on_f_env (initialize_hsm_system b sys) g = (ok, g') \<Longrightarrow>
     g_device_hsm_type g' = g_device_hsm_type g \<and> g_security_type g' = g_security_type g"
  using on_f_env_same(5,6) [of "initialize_hsm_system b sys" g ok g'] by simp

text \<open>The init function called from the other finds both types set and does not call back.\<close>

lemma iothub_init_called_back:
  assumes "get_secure_device_type b s = g_device_hsm_type g" "g_device_hsm_type g \<noteq> SECURE_DEVICE_TYPE_UNKNOWN"
  shows "iothub_security_init b sys s g = on_f_env (initialize_hsm_system b sys) (g\<lparr>g_security_type := s\<rparr>)"
  using assms by (simp add: iothub_security_init.simps Let_def)

lemma prov_init_called_back:
  assumes "get_iothub_security_type b t = g_security_type g" "g_security_type g \<noteq> IOTHUB_SECURITY_TYPE_UNKNOWN"
  shows "prov_dev_security_init b sys t g = on_f_env (initialize_hsm_system b sys) (g\<lparr>g_device_hsm_type := t\<rparr>)"
  using assms by (simp add: prov_dev_security_init.simps Let_def)

lemma init_hsm_types_snd [simp]:
  "g_device_hsm_type (snd (on_f_env (initialize_hsm_system b sys) g)) = g_device_hsm_type g"
  "g_security_type (snd (on_f_env (initialize_hsm_system b sys) g)) = g_security_type g"
  using init_hsm_types [of b sys g] by (metis prod.collapse)+

text \<open>Once the provisioning factory is initialized with a type, both factories agree: its own type is
  the one given, which is known, and the type of the hub factory is the one it maps to.
\<close>

theorem factories_agree_after_init:
  assumes "prov_dev_security_init b sys t g = (True, g')"
  shows "g_device_hsm_type g' = t \<and> t \<noteq> SECURE_DEVICE_TYPE_UNKNOWN
    \<and> g_security_type g' = get_iothub_security_type b t \<and> get_secure_device_type b (g_security_type g') = t"
proof -
  have known_type: "get_iothub_security_type b t \<noteq> IOTHUB_SECURITY_TYPE_UNKNOWN"
    using assms by (auto simp: prov_dev_security_init.simps Let_def)
  note there_and_back = security_types_match(1) [OF known_type] security_types_known(1) [OF known_type]
  define g1 where "g1 = g\<lparr>g_device_hsm_type := t\<rparr>"
  define s where "s = get_iothub_security_type b t"
  have nested: "iothub_security_init b sys s g1 = on_f_env (initialize_hsm_system b sys) (g1\<lparr>g_security_type := s\<rparr>)"
    by (rule iothub_init_called_back) (simp_all add: there_and_back g1_def s_def)
  have run: "(case (if g_security_type g1 = IOTHUB_SECURITY_TYPE_UNKNOWN
         then iothub_security_init b sys s g1 else (g_security_type g1 = s, g1)) of
      (ok, g2) \<Rightarrow> if ok then on_f_env (initialize_hsm_system b sys) g2 else (False, g2)) = (True, g')"
    using assms known_type unfolding g1_def s_def by (simp only: prov_dev_security_init.simps Let_def if_False)
  obtain ok g2 where m: "(if g_security_type g1 = IOTHUB_SECURITY_TYPE_UNKNOWN then iothub_security_init b sys s g1 else (g_security_type g1 = s, g1)) = (ok, g2)"
    by fastforce
  with run have ok: ok "on_f_env (initialize_hsm_system b sys) g2 = (True, g')" by (simp_all split: if_splits)
  have "g_device_hsm_type g2 = t \<and> g_security_type g2 = s"
    using m ok(1) by (auto simp: nested [unfolded g1_def] g1_def dest: init_hsm_types split: if_splits)
  with init_hsm_types [OF ok(2)] there_and_back show ?thesis by (simp add: s_def)
qed

definition example_hsm_system :: "unit hsm_system" where
  "example_hsm_system = \<lparr>hsm_client_x509_init = (\<lambda>e. (True, e)), hsm_client_tpm_init = (\<lambda>e. (True, e)),
     hsm_client_http_edge_init = (\<lambda>e. (True, e)), hsm_client_http_edge_deinit = (\<lambda>e. e),
     hsm_client_x509_deinit = (\<lambda>e. e), hsm_client_tpm_deinit = (\<lambda>e. e)\<rparr>"

definition fresh_factories :: "unit factories" where
  "fresh_factories = \<lparr>g_device_hsm_type = SECURE_DEVICE_TYPE_UNKNOWN, prov_symm_key = None, prov_symm_key_reg_name = None,
     g_security_type = IOTHUB_SECURITY_TYPE_UNKNOWN, iothub_symm_key = None, iothub_symm_key_reg_name = None, f_env = ()\<rparr>"

definition full_build :: hsm_build where
  "full_build = \<lparr>built_tpm = True, built_x509 = True, built_symm_key = True, built_http_edge = True\<rparr>"

theorem factories_agree_after_init_witness:
  "\<exists>g'. prov_dev_security_init full_build example_hsm_system SECURE_DEVICE_TYPE_TPM fresh_factories = (True, g')
     \<and> g_device_hsm_type g' = SECURE_DEVICE_TYPE_TPM \<and> g_security_type g' = IOTHUB_SECURITY_TYPE_SAS"
proof -
  obtain ok g' where r: "prov_dev_security_init full_build example_hsm_system SECURE_DEVICE_TYPE_TPM fresh_factories = (ok, g')" by fastforce
  moreover have "fst (prov_dev_security_init full_build example_hsm_system SECURE_DEVICE_TYPE_TPM fresh_factories)"
    by (simp add: prov_dev_security_init.simps iothub_security_init.simps on_f_env_def initialize_hsm_system_def Let_def
        full_build_def example_hsm_system_def fresh_factories_def)
  ultimately have r: "prov_dev_security_init full_build example_hsm_system SECURE_DEVICE_TYPE_TPM fresh_factories = (True, g')" by simp
  from factories_agree_after_init [OF r] r show ?thesis by (simp add: full_build_def)
qed

lemma factories_agree_after_hub_init:
  assumes "iothub_security_init b sys s g = (True, g')"
  shows "g_security_type g' = s \<and> s \<noteq> IOTHUB_SECURITY_TYPE_UNKNOWN
    \<and> g_device_hsm_type g' = get_secure_device_type b s \<and> get_iothub_security_type b (g_device_hsm_type g') = s"
proof -
  have known_type: "get_secure_device_type b s \<noteq> SECURE_DEVICE_TYPE_UNKNOWN"
    using assms by (auto simp: iothub_security_init.simps Let_def)
  note there_and_back = security_types_match(2) [OF known_type] security_types_known(2) [OF known_type]
  define g1 where "g1 = g\<lparr>g_security_type := s\<rparr>"
  define t where "t = get_secure_device_type b s"
  have nested: "prov_dev_security_init b sys t g1 = on_f_env (initialize_hsm_system b sys) (g1\<lparr>g_device_hsm_type := t\<rparr>)"
    by (rule prov_init_called_back) (simp_all add: there_and_back g1_def t_def)
  have run: "(case (if g_device_hsm_type g1 = SECURE_DEVICE_TYPE_UNKNOWN
         then prov_dev_security_init b sys t g1 else (t = g_device_hsm_type g1, g1)) of
      (ok, g2) \<Rightarrow> if ok then on_f_env (initialize_hsm_system b sys) g2 else (False, g2)) = (True, g')"
    using assms known_type unfolding g1_def t_def by (simp only: iothub_security_init.simps Let_def if_False)
  obtain ok g2 where m: "(if g_device_hsm_type g1 = SECURE_DEVICE_TYPE_UNKNOWN then prov_dev_security_init b sys t g1 else (t = g_device_hsm_type g1, g1)) = (ok, g2)"
    by fastforce
  with run have ok: ok "on_f_env (initialize_hsm_system b sys) g2 = (True, g')" by (simp_all split: if_splits)
  have "g_device_hsm_type g2 = t \<and> g_security_type g2 = s"
    using m ok(1) by (auto simp: nested [unfolded g1_def] g1_def dest: init_hsm_types split: if_splits)
  with init_hsm_types [OF ok(2)] there_and_back show ?thesis by (simp add: t_def)
qed

text \<open>
  The types are never cleared: after deinitialization an initialization with another type fails, and it
  leaves the two factories with types that do not match.
\<close>

lemma reinit_with_another_type_fails:
  assumes "get_iothub_security_type b t \<noteq> IOTHUB_SECURITY_TYPE_UNKNOWN"
    and "g_security_type g \<noteq> IOTHUB_SECURITY_TYPE_UNKNOWN" "g_security_type g \<noteq> get_iothub_security_type b t"
  shows "prov_dev_security_init b sys t (prov_dev_security_deinit b sys g)
      = (False, (prov_dev_security_deinit b sys g)\<lparr>g_device_hsm_type := t\<rparr>)"
proof -
  have "g_security_type (prov_dev_security_deinit b sys g) = g_security_type g"
    by (simp add: prov_dev_security_deinit.simps iothub_security_deinit.simps Let_def)
  with assms show ?thesis by (simp add: prov_dev_security_init.simps Let_def)
qed

text \<open>
  A key that was set for provisioning is also the key of the hub when the hub had none; a key the
  hub had stays. Deinitialization of either factory forgets all keys.
\<close>

lemma set_key_keeps_in_step:
  assumes "prov_dev_set_symmetric_key_info os (Some r) (Some k) g = (True, g')"
  shows "prov_symm_key_reg_name g' = Some r \<and> prov_symm_key g' = Some k
    \<and> iothub_symm_key_reg_name g' = (if iothub_symm_key g = None \<or> iothub_symm_key_reg_name g = None then Some r else iothub_symm_key_reg_name g)
    \<and> iothub_symm_key g' = (if iothub_symm_key g = None \<or> iothub_symm_key_reg_name g = None then Some k else iothub_symm_key g)"
proof -
  obtain res g1 where g1: "on_f_env (store_names os (Some r) (Some k)) g = (res, g1)" by fastforce
  note s1 = on_f_env_same [OF g1]
  show ?thesis
  proof (cases res)
    case None
    with assms g1 show ?thesis by (simp add: prov_dev_set_symmetric_key_info.simps)
  next
    case (Some p)
    obtain n s where p: "p = (n, s)" by fastforce
    have ns: "n = r" "s = k" using g1 Some p by (auto simp: on_f_env_eq dest!: store_names_Some)
    define g2 where "g2 = g1\<lparr>prov_symm_key_reg_name := Some r, prov_symm_key := Some k\<rparr>"
    have g2: "prov_symm_key g2 = Some k" "prov_symm_key_reg_name g2 = Some r"
      "iothub_symm_key g2 = iothub_symm_key g" "iothub_symm_key_reg_name g2 = iothub_symm_key_reg_name g"
      by (simp_all add: g2_def s1)
    obtain res' g3 where g3: "on_f_env (store_names os (Some r) (Some k)) g2 = (res', g3)" by fastforce
    note s3 = on_f_env_same [OF g3]
    have sync: "iothub_security_set_symmetric_key_info os (Some r) (Some k) g2 = (True, g') \<Longrightarrow>
        g' = g3\<lparr>iothub_symm_key_reg_name := Some r, iothub_symm_key := Some k\<rparr>"
    proof -
      assume call: "iothub_security_set_symmetric_key_info os (Some r) (Some k) g2 = (True, g')"
      then obtain n' s' where res': "res' = Some (n', s')"
        by (cases res') (auto simp: iothub_security_set_symmetric_key_info.simps g3)
      then have "n' = r" "s' = k" using g3 by (auto simp: on_f_env_eq dest!: store_names_Some)
      with call res' s3 g2 show ?thesis by (simp add: iothub_security_set_symmetric_key_info.simps g3 Let_def)
    qed
    have "(if iothub_symm_key g2 = None \<or> iothub_symm_key_reg_name g2 = None
           then iothub_security_set_symmetric_key_info os (Some r) (Some k) g2 else (True, g2)) = (True, g')"
      using assms unfolding prov_dev_set_symmetric_key_info.simps g1 Some p ns g2_def Let_def option.case prod.case .
    then have "g' = (if iothub_symm_key g = None \<or> iothub_symm_key_reg_name g = None
        then g3\<lparr>iothub_symm_key_reg_name := Some r, iothub_symm_key := Some k\<rparr> else g2)"
      using sync unfolding g2(3,4) by (metis prod.inject)
    then show ?thesis by (simp add: s3 g2)
  qed
qed

lemma deinit_forgets_keys:
  "prov_symm_key (prov_dev_security_deinit b sys g) = None" "prov_symm_key_reg_name (prov_dev_security_deinit b sys g) = None"
  "iothub_symm_key (prov_dev_security_deinit b sys g) = None" "iothub_symm_key_reg_name (prov_dev_security_deinit b sys g) = None"
  "prov_symm_key (iothub_security_deinit b sys g) = None" "prov_symm_key_reg_name (iothub_security_deinit b sys g) = None"
  "iothub_symm_key (iothub_security_deinit b sys g) = None" "iothub_symm_key_reg_name (iothub_security_deinit b sys g) = None"
  by (simp_all add: prov_dev_security_deinit.simps iothub_security_deinit.simps Let_def)

end
