(* ===== verification/ProvAuth.thy ===== *)
theory ProvAuth
  imports HsmClient
begin

text \<open>
  The device identity of the provisioning client (provisioning\_client/src/prov\_auth\_client.c): an
  object that holds the functions of one hardware security module, a TPM, an X.509 module or one
  with a symmetric key; it gives the registration id, the keys and certificates of the module, and
  the SAS tokens signed by it.
\<close>

section \<open>Data\<close>

datatype PROV_AUTH_TYPE = PROV_AUTH_TYPE_UNKNOWN | PROV_AUTH_TYPE_TPM | PROV_AUTH_TYPE_X509 | PROV_AUTH_TYPE_KEY

record ('h, 'e) PROV_AUTH_INFO =
  hsm_client_handle :: "'h option"
  sec_type :: PROV_AUTH_TYPE
  auth_registration_id :: "string option"
  hsm_client_create :: "('h, 'e) HSM_CLIENT_CREATE option"
  hsm_client_destroy :: "('h, 'e) HSM_CLIENT_DESTROY option"
  hsm_client_import_key :: "('h, 'e) HSM_CLIENT_ACTIVATE_IDENTITY_KEY option"
  hsm_client_get_endorsement_key :: "('h, 'e) HSM_CLIENT_GET option"
  hsm_client_get_srk :: "('h, 'e) HSM_CLIENT_GET option"
  hsm_client_sign_data :: "('h, 'e) HSM_CLIENT_SIGN_WITH_IDENTITY option"
  hsm_client_get_cert :: "('h, 'e) HSM_CLIENT_GET option"
  hsm_client_get_alias_key :: "('h, 'e) HSM_CLIENT_GET option"
  hsm_client_get_common_name :: "('h, 'e) HSM_CLIENT_GET option"
  hsm_client_get_symm_key :: "('h, 'e) HSM_CLIENT_GET option"
  hsm_client_set_symm_key_info :: "('h, 'e) HSM_CLIENT_SET_SYMMETRICAL_KEY_INFO option"

text \<open>The interfaces the modules of the build give; None is a NULL interface.\<close>

record ('h, 'e) hsm_modules =
  tpm_interface :: "('h, 'e) HSM_CLIENT_TPM_INTERFACE option"
  x509_interface :: "('h, 'e) HSM_CLIENT_X509_INTERFACE option"
  key_interface :: "('h, 'e) HSM_CLIENT_KEY_INTERFACE option"
  http_edge_interface :: "('h, 'e) HSM_CLIENT_HTTP_EDGE_INTERFACE option"

text \<open>
  Functions of azure\_c\_shared\_utility: Azure\_Base64\_Decode, Azure\_Base64\_Encode\_Bytes,
  Azure\_Base32\_Encode\_Bytes, HMACSHA256\_ComputeHash (key, then data), the three calls that compute a
  SHA-256 digest, URL\_Encode and URL\_EncodeString. None is a failure.
\<close>

record 'e crypto_api =
  base64_decode :: "string option \<Rightarrow> 'e \<Rightarrow> char list option \<times> 'e"
  base64_encode_bytes :: "char list \<Rightarrow> 'e \<Rightarrow> string option \<times> 'e"
  base32_encode_bytes :: "char list \<Rightarrow> 'e \<Rightarrow> string option \<times> 'e"
  hmac_sha256 :: "char list \<Rightarrow> char list \<Rightarrow> 'e \<Rightarrow> char list option \<times> 'e"
  sha256_digest :: "char list \<Rightarrow> 'e \<Rightarrow> char list option \<times> 'e"
  url_encode :: "string \<Rightarrow> 'e \<Rightarrow> string option \<times> 'e"
  url_encode_string :: "string \<Rightarrow> 'e \<Rightarrow> string option \<times> 'e"

text \<open>A call of a function of the module; a NULL pointer or a NULL module leaves defined behaviour.\<close>

definition hsm_call ::
  "('h \<Rightarrow> 'e \<Rightarrow> 'r \<times> 'h \<times> 'e) option \<Rightarrow> ('h, 'e, 'm) PROV_AUTH_INFO_scheme \<Rightarrow> 'e
     \<Rightarrow> ('r \<times> ('h, 'e, 'm) PROV_AUTH_INFO_scheme \<times> 'e) run" where
  "hsm_call p a e =
     (case hsm_client_handle a of
        None \<Rightarrow> Fault
      | Some h \<Rightarrow> call_ptr p (\<lambda>f. case f h e of (r, h, e) \<Rightarrow> Done (r, a\<lparr>hsm_client_handle := Some h\<rparr>, e)))"

section \<open>The registration id\<close>

text \<open>
  encode\_value walks back from the last character of the base32 text over the padding and cuts the
  text after the first other character it meets; it stops at the first character of the text
  without looking at it.
\<close>

fun cut_padding :: "nat \<Rightarrow> string \<Rightarrow> string" where
  "cut_padding 0 s = s"
| "cut_padding (Suc i) s = (if s ! Suc i \<noteq> CHR ''='' then take (Suc (Suc i)) s else cut_padding i s)"

definition encode_value :: "('e, 'm) os_scheme \<Rightarrow> ('e, 'n) crypto_api_scheme \<Rightarrow> char list \<Rightarrow> 'e \<Rightarrow> (string option \<times> 'e) run" where
  "encode_value os cr msg_digest e =
     (case base32_encode_bytes cr msg_digest e of
        (None, e) \<Rightarrow> Done (None, e)
      | (Some encoded_hash, e) \<Rightarrow>
          if encoded_hash = [] then Fault
          else Done (malloc_of os (cut_padding (length encoded_hash - 1) encoded_hash) e))"

definition load_registration_id ::
  "('e, 'm) os_scheme \<Rightarrow> ('e, 'n) crypto_api_scheme \<Rightarrow> ('h, 'e, 'p) PROV_AUTH_INFO_scheme \<Rightarrow> 'e
     \<Rightarrow> (bool \<times> ('h, 'e, 'p) PROV_AUTH_INFO_scheme \<times> 'e) run" where
  "load_registration_id os cr a e =
     (if sec_type a = PROV_AUTH_TYPE_TPM
      then run_bind (hsm_call (hsm_client_get_endorsement_key a) a e) (\<lambda>(ek, a, e).
        case ek of
          None \<Rightarrow> Done (False, a, e)
        | Some endorsement_key \<Rightarrow>
            (case sha256_digest cr endorsement_key e of
               (None, e) \<Rightarrow> Done (False, a, e)
             | (Some msg_digest, e) \<Rightarrow>
                 run_bind (encode_value os cr msg_digest e) (\<lambda>(r, e).
                   Done (r \<noteq> None, a\<lparr>auth_registration_id := r\<rparr>, e))))
      else run_bind (hsm_call (hsm_client_get_common_name a) a e) (\<lambda>(r, a, e).
        Done (r \<noteq> None, a\<lparr>auth_registration_id := r\<rparr>, e)))"

section \<open>SAS tokens\<close>

text \<open>The signature with a symmetric key: the HMAC of the data with the decoded key.\<close>

definition hmac_with_key ::
  "('e, 'm) os_scheme \<Rightarrow> ('e, 'n) crypto_api_scheme \<Rightarrow> string \<Rightarrow> char list \<Rightarrow> 'e \<Rightarrow> char list option \<times> 'e" where
  "hmac_with_key os cr symmetrical_key payload e =
     or_null (base64_decode cr (Some symmetrical_key) e) (\<lambda>decoded_key e.
     or_null (malloc_of os () e) (\<lambda>_ e.
     or_null (hmac_sha256 cr decoded_key payload e) (\<lambda>output_hash e. malloc_of os output_hash e)))"

definition sign_sas_data ::
  "('e, 'm) os_scheme \<Rightarrow> ('e, 'n) crypto_api_scheme \<Rightarrow> ('h, 'e, 'p) PROV_AUTH_INFO_scheme \<Rightarrow> string \<Rightarrow> 'e
     \<Rightarrow> (char list option \<times> ('h, 'e, 'p) PROV_AUTH_INFO_scheme \<times> 'e) run" where
  "sign_sas_data os cr a payload e =
     (if sec_type a = PROV_AUTH_TYPE_TPM
      then hsm_call (map_option (\<lambda>f h. f h payload) (hsm_client_sign_data a)) a e
      else run_bind (hsm_call (hsm_client_get_symm_key a) a e) (\<lambda>(k, a, e).
        case k of
          None \<Rightarrow> Done (None, a, e)
        | Some symmetrical_key \<Rightarrow>
            (case hmac_with_key os cr symmetrical_key payload e of (r, e) \<Rightarrow> Done (r, a, e))))"

text \<open>size\_tToString into a buffer of the given size, the NUL included.\<close>

definition size_tToString :: "nat \<Rightarrow> 64 word \<Rightarrow> string option" where
  "size_tToString destSize v = (if length (nat_str (unat v)) < destSize then Some (nat_str (unat v)) else None)"

text \<open>The data that is signed, and the token.\<close>

definition sas_payload :: "string \<Rightarrow> string \<Rightarrow> string" where
  "sas_payload token_scope expire_token = token_scope @ CHR 0x0A # expire_token"

definition prov_sas_token :: "string \<Rightarrow> string \<Rightarrow> string \<Rightarrow> string \<Rightarrow> string" where
  "prov_sas_token token_scope sig expire_token key_name =
     ''SharedAccessSignature sr='' @ token_scope @ ''&sig='' @ sig @ ''&se='' @ expire_token @ ''&skn='' @ key_name"

definition prov_auth_construct_sas_token ::
  "('e, 'm) os_scheme \<Rightarrow> ('e, 'n) crypto_api_scheme \<Rightarrow> ('h, 'e, 'p) PROV_AUTH_INFO_scheme option \<Rightarrow> string option
     \<Rightarrow> string option \<Rightarrow> 64 word \<Rightarrow> 'e \<Rightarrow> (string option \<times> ('h, 'e, 'p) PROV_AUTH_INFO_scheme option \<times> 'e) run" where
  "prov_auth_construct_sas_token os cr handle token_scope key_name expiry_time e =
     (case (handle, token_scope, key_name) of
        (Some a, Some scope, Some key) \<Rightarrow>
          if sec_type a = PROV_AUTH_TYPE_X509 then Done (None, handle, e)
          else (case size_tToString 64 expiry_time of
            None \<Rightarrow> Done (None, handle, e)
          | Some expire_token \<Rightarrow>
              (case malloc_of os (sas_payload scope expire_token) e of
                 (None, e) \<Rightarrow> Done (None, handle, e)
               | (Some payload, e) \<Rightarrow>
                   run_bind (sign_sas_data os cr a payload e) (\<lambda>(data_value, a, e).
                     case (case data_value of
                             None \<Rightarrow> (None, e)
                           | Some d \<Rightarrow>
                               or_null (base64_encode_bytes cr d e) (\<lambda>base64Signature e.
                               or_null (url_encode cr base64Signature e) (\<lambda>urlEncodedSignature e.
                               or_null (malloc_of os (prov_sas_token scope urlEncodedSignature expire_token key) e) (\<lambda>t e.
                                 malloc_of os t e)))) of
                       (r, e) \<Rightarrow> Done (r, Some a, e))))
      | _ \<Rightarrow> Done (None, handle, e))"

section \<open>Creation and destruction\<close>

definition no_functions :: "('h, 'e) PROV_AUTH_INFO" where
  "no_functions = \<lparr>hsm_client_handle = None, sec_type = PROV_AUTH_TYPE_UNKNOWN, auth_registration_id = None,
     hsm_client_create = None, hsm_client_destroy = None, hsm_client_import_key = None,
     hsm_client_get_endorsement_key = None, hsm_client_get_srk = None, hsm_client_sign_data = None,
     hsm_client_get_cert = None, hsm_client_get_alias_key = None, hsm_client_get_common_name = None,
     hsm_client_get_symm_key = None, hsm_client_set_symm_key_info = None\<rparr>"

text \<open>
  The functions of the module the program chose; None when one that the type needs is NULL. A type
  that was not built leaves every function NULL.
\<close>

definition select_functions ::
  "hsm_build \<Rightarrow> ('h, 'e) hsm_modules \<Rightarrow> SECURE_DEVICE_TYPE \<Rightarrow> ('h, 'e) PROV_AUTH_INFO option" where
  "select_functions b m t =
     (if built_tpm b \<and> t = SECURE_DEVICE_TYPE_TPM then
        (case tpm_interface m of
           None \<Rightarrow> None
         | Some i \<Rightarrow>
             if hsm_client_tpm_create i = None \<or> hsm_client_tpm_destroy i = None
                \<or> hsm_client_activate_identity_key i = None \<or> hsm_client_get_ek i = None
                \<or> hsm_client_tpm_get_srk i = None \<or> hsm_client_sign_with_identity i = None
             then None
             else Some (no_functions\<lparr>sec_type := PROV_AUTH_TYPE_TPM,
                hsm_client_create := hsm_client_tpm_create i, hsm_client_destroy := hsm_client_tpm_destroy i,
                hsm_client_import_key := hsm_client_activate_identity_key i,
                hsm_client_get_endorsement_key := hsm_client_get_ek i, hsm_client_get_srk := hsm_client_tpm_get_srk i,
                hsm_client_sign_data := hsm_client_sign_with_identity i\<rparr>))
      else if built_x509 b \<and> t = SECURE_DEVICE_TYPE_X509 then
        (case x509_interface m of
           None \<Rightarrow> None
         | Some i \<Rightarrow>
             if hsm_client_x509_create i = None \<or> hsm_client_x509_destroy i = None
                \<or> hsm_client_x509_get_cert i = None \<or> hsm_client_x509_get_common_name i = None
                \<or> hsm_client_get_key i = None
             then None
             else Some (no_functions\<lparr>sec_type := PROV_AUTH_TYPE_X509,
                hsm_client_create := hsm_client_x509_create i, hsm_client_destroy := hsm_client_x509_destroy i,
                hsm_client_get_cert := hsm_client_x509_get_cert i,
                hsm_client_get_common_name := hsm_client_x509_get_common_name i,
                hsm_client_get_alias_key := hsm_client_get_key i\<rparr>))
      else if built_symm_key b \<and> t = SECURE_DEVICE_TYPE_SYMMETRIC_KEY then
        (case key_interface m of
           None \<Rightarrow> None
         | Some i \<Rightarrow>
             if hsm_client_key_create_fn i = None \<or> hsm_client_key_destroy_fn i = None
                \<or> hsm_client_key_get_registration_name i = None \<or> hsm_client_key_get_symm_key i = None
                \<or> hsm_client_key_set_symm_key_info i = None
             then None
             else Some (no_functions\<lparr>sec_type := PROV_AUTH_TYPE_KEY,
                hsm_client_create := hsm_client_key_create_fn i, hsm_client_destroy := hsm_client_key_destroy_fn i,
                hsm_client_get_common_name := hsm_client_key_get_registration_name i,
                hsm_client_get_symm_key := hsm_client_key_get_symm_key i,
                hsm_client_set_symm_key_info := hsm_client_key_set_symm_key_info i\<rparr>))
      else Some no_functions)"

definition prov_auth_create ::
  "('e, 'm) os_scheme \<Rightarrow> hsm_build \<Rightarrow> ('h, 'e) hsm_modules \<Rightarrow> ('f, 'n) factories_scheme \<Rightarrow> 'e
     \<Rightarrow> (('h, 'e) PROV_AUTH_INFO option \<times> 'e) run" where
  "prov_auth_create os b m g e =
     (case malloc_of os () e of
        (None, e) \<Rightarrow> Done (None, e)
      | (Some _, e) \<Rightarrow>
          (case select_functions b m (prov_dev_security_get_type g) of
             None \<Rightarrow> Done (None, e)
           | Some a \<Rightarrow>
               (case hsm_client_create a of
                  None \<Rightarrow> Done (None, e)
                | Some create \<Rightarrow>
                    (case create e of
                       (None, e) \<Rightarrow> Done (None, e)
                     | (Some h, e) \<Rightarrow>
                         let a = a\<lparr>hsm_client_handle := Some h\<rparr> in
                         if sec_type a = PROV_AUTH_TYPE_KEY
                         then run_bind (hsm_call (map_option (\<lambda>f h. f h (prov_dev_get_symm_registration_name g)
                                  (prov_dev_get_symmetric_key g)) (hsm_client_set_symm_key_info a)) a e) (\<lambda>(ok, a, e).
                           if ok then Done (Some a, e)
                           else call_ptr (hsm_client_destroy a) (\<lambda>f. Done (None, f (the (hsm_client_handle a)) e)))
                         else Done (Some a, e)))))"

definition prov_auth_destroy :: "('h, 'e, 'p) PROV_AUTH_INFO_scheme option \<Rightarrow> 'e \<Rightarrow> 'e run" where
  "prov_auth_destroy handle e =
     (case handle of
        None \<Rightarrow> Done e
      | Some a \<Rightarrow>
          (case hsm_client_handle a of
             None \<Rightarrow> Fault
           | Some h \<Rightarrow> call_ptr (hsm_client_destroy a) (\<lambda>f. Done (f h e))))"

section \<open>What the module gives\<close>

definition prov_auth_get_type :: "('h, 'e, 'p) PROV_AUTH_INFO_scheme option \<Rightarrow> PROV_AUTH_TYPE" where
  "prov_auth_get_type handle = (case handle of None \<Rightarrow> PROV_AUTH_TYPE_UNKNOWN | Some a \<Rightarrow> sec_type a)"

definition prov_auth_get_registration_id ::
  "('e, 'm) os_scheme \<Rightarrow> ('e, 'n) crypto_api_scheme \<Rightarrow> ('h, 'e, 'p) PROV_AUTH_INFO_scheme option \<Rightarrow> 'e
     \<Rightarrow> (string option \<times> ('h, 'e, 'p) PROV_AUTH_INFO_scheme option \<times> 'e) run" where
  "prov_auth_get_registration_id os cr handle e =
     (case handle of
        None \<Rightarrow> Done (None, None, e)
      | Some a \<Rightarrow>
          run_bind (if auth_registration_id a = None
                    then run_bind (load_registration_id os cr a e) (\<lambda>(ok, a, e). Done (ok, ok, a, e))
                    else Done (True, False, a, e)) (\<lambda>(load_ok, reg_id_allocated, a, e).
            if \<not> load_ok then Done (None, Some a, e)
            else (case strcpy_of os (auth_registration_id a) e of
              (Some r, e) \<Rightarrow> Done (Some r, Some a, e)
            | (None, e) \<Rightarrow>
                Done (None, Some (if reg_id_allocated then a\<lparr>auth_registration_id := None\<rparr> else a), e))))"

definition prov_auth_set_registration_id ::
  "('e, 'm) os_scheme \<Rightarrow> ('h, 'e, 'p) PROV_AUTH_INFO_scheme option \<Rightarrow> string option \<Rightarrow> 'e
     \<Rightarrow> bool \<times> ('h, 'e, 'p) PROV_AUTH_INFO_scheme option \<times> 'e" where
  "prov_auth_set_registration_id os handle reg_id e =
     (case (handle, reg_id) of
        (Some a, Some r) \<Rightarrow>
          if auth_registration_id a \<noteq> None then (False, handle, e)
          else (case malloc_of os r e of
            (None, e) \<Rightarrow> (False, handle, e)
          | (Some r, e) \<Rightarrow> (True, Some (a\<lparr>auth_registration_id := Some r\<rparr>), e))
      | _ \<Rightarrow> (False, handle, e))"

text \<open>A buffer with the bytes the module gives.\<close>

definition buffer_from ::
  "('e, 'm) os_scheme \<Rightarrow> ('h, 'e) HSM_CLIENT_GET option \<Rightarrow> ('h, 'e, 'p) PROV_AUTH_INFO_scheme \<Rightarrow> 'e
     \<Rightarrow> (char list option \<times> ('h, 'e, 'p) PROV_AUTH_INFO_scheme option \<times> 'e) run" where
  "buffer_from os p a e =
     run_bind (hsm_call p a e) (\<lambda>(v, a, e). case strcpy_of os v e of (r, e) \<Rightarrow> Done (r, Some a, e))"

definition prov_auth_get_endorsement_key ::
  "('e, 'm) os_scheme \<Rightarrow> ('h, 'e, 'p) PROV_AUTH_INFO_scheme option \<Rightarrow> 'e
     \<Rightarrow> (char list option \<times> ('h, 'e, 'p) PROV_AUTH_INFO_scheme option \<times> 'e) run" where
  "prov_auth_get_endorsement_key os handle e =
     (case handle of
        None \<Rightarrow> Done (None, None, e)
      | Some a \<Rightarrow>
          if sec_type a \<noteq> PROV_AUTH_TYPE_TPM then Done (None, handle, e)
          else buffer_from os (hsm_client_get_endorsement_key a) a e)"

definition prov_auth_get_storage_key ::
  "('e, 'm) os_scheme \<Rightarrow> ('h, 'e, 'p) PROV_AUTH_INFO_scheme option \<Rightarrow> 'e
     \<Rightarrow> (char list option \<times> ('h, 'e, 'p) PROV_AUTH_INFO_scheme option \<times> 'e) run" where
  "prov_auth_get_storage_key os handle e =
     (case handle of
        None \<Rightarrow> Done (None, None, e)
      | Some a \<Rightarrow>
          if sec_type a \<noteq> PROV_AUTH_TYPE_TPM then Done (None, handle, e)
          else buffer_from os (hsm_client_get_srk a) a e)"

definition prov_auth_import_key ::
  "('h, 'e, 'p) PROV_AUTH_INFO_scheme option \<Rightarrow> char list option \<Rightarrow> 'e
     \<Rightarrow> (bool \<times> ('h, 'e, 'p) PROV_AUTH_INFO_scheme option \<times> 'e) run" where
  "prov_auth_import_key handle key_value e =
     (case (handle, key_value) of
        (Some a, Some key) \<Rightarrow>
          if key = [] then Done (False, handle, e)
          else if sec_type a \<noteq> PROV_AUTH_TYPE_TPM then Done (False, handle, e)
          else run_bind (hsm_call (map_option (\<lambda>f h. f h key) (hsm_client_import_key a)) a e)
                 (\<lambda>(ok, a, e). Done (ok, Some a, e))
      | _ \<Rightarrow> Done (False, handle, e))"

definition prov_auth_get_certificate ::
  "('h, 'e, 'p) PROV_AUTH_INFO_scheme option \<Rightarrow> 'e \<Rightarrow> (string option \<times> ('h, 'e, 'p) PROV_AUTH_INFO_scheme option \<times> 'e) run" where
  "prov_auth_get_certificate handle e =
     (case handle of
        None \<Rightarrow> Done (None, None, e)
      | Some a \<Rightarrow>
          if sec_type a \<noteq> PROV_AUTH_TYPE_X509 then Done (None, handle, e)
          else run_bind (hsm_call (hsm_client_get_cert a) a e) (\<lambda>(r, a, e). Done (r, Some a, e)))"

definition prov_auth_get_alias_key ::
  "('h, 'e, 'p) PROV_AUTH_INFO_scheme option \<Rightarrow> 'e \<Rightarrow> (string option \<times> ('h, 'e, 'p) PROV_AUTH_INFO_scheme option \<times> 'e) run" where
  "prov_auth_get_alias_key handle e =
     (case handle of
        None \<Rightarrow> Done (None, None, e)
      | Some a \<Rightarrow>
          if sec_type a \<noteq> PROV_AUTH_TYPE_X509 then Done (None, handle, e)
          else run_bind (hsm_call (hsm_client_get_alias_key a) a e) (\<lambda>(r, a, e). Done (r, Some a, e)))"

section \<open>Cutting the padding\<close>

lemma cut_padding_spec:
  "cut_padding i s = (if \<exists>j. 1 \<le> j \<and> j \<le> i \<and> s ! j \<noteq> CHR ''=''
     then take (Suc (GREATEST j. 1 \<le> j \<and> j \<le> i \<and> s ! j \<noteq> CHR ''='')) s else s)"
proof (induction i)
  case (Suc i)
  show ?case
  proof (cases "s ! Suc i \<noteq> CHR ''=''")
    case True
    then have "(GREATEST j. 1 \<le> j \<and> j \<le> Suc i \<and> s ! j \<noteq> CHR ''='') = Suc i"
      by (intro Greatest_equality) auto
    moreover have "\<exists>j. 1 \<le> j \<and> j \<le> Suc i \<and> s ! j \<noteq> CHR ''=''" using True by (intro exI [of _ "Suc i"]) simp
    ultimately show ?thesis using True by simp
  next
    case False
    then have "(1 \<le> j \<and> j \<le> Suc i \<and> s ! j \<noteq> CHR ''='') = (1 \<le> j \<and> j \<le> i \<and> s ! j \<noteq> CHR ''='')" for j
      by (cases "j = Suc i") auto
    then show ?thesis using Suc.IH False by (simp only: cut_padding.simps if_False)
  qed
qed simp

text \<open>
  A text with two characters in front of its padding loses exactly the padding; the code never
  looks at the first character, so a text of one character and padding keeps its padding.
\<close>

lemma cut_padding_removes:
  assumes "set pad \<subseteq> {CHR ''=''}" "c \<noteq> CHR ''=''"
  shows "cut_padding (length ((d # r) @ c # pad) - 1) ((d # r) @ c # pad) = (d # r) @ [c]"
proof -
  let ?s = "(d # r) @ c # pad" and ?n = "Suc (length r)"
  have nth: "?s ! j = (if j < ?n then (d # r) ! j else (c # pad) ! (j - ?n))" for j
    by (simp only: nth_append length_Cons)
  have "?s ! j = CHR ''=''" if j: "?n < j" "j \<le> length ?s - 1" for j
  proof -
    have "?s ! j = pad ! (j - ?n - 1)" using j(1) unfolding nth by (simp add: nth_Cons')
    moreover have "j - ?n - 1 < length pad" using j by auto
    ultimately show ?thesis using assms(1) nth_mem by fastforce
  qed
  moreover have "?s ! ?n = c" unfolding nth by simp
  ultimately have "(GREATEST j. 1 \<le> j \<and> j \<le> length ?s - 1 \<and> ?s ! j \<noteq> CHR ''='') = ?n"
    using assms(2) by (intro Greatest_equality) (auto simp: not_less [symmetric])
  moreover have "\<exists>j. 1 \<le> j \<and> j \<le> length ?s - 1 \<and> ?s ! j \<noteq> CHR ''=''"
    using assms(2) \<open>?s ! ?n = c\<close> by (intro exI [of _ ?n]) simp
  ultimately show ?thesis by (simp add: cut_padding_spec del: append_Cons)
qed

section \<open>Objects with the functions they need\<close>

text \<open>
  A created object has its module, and every function its type may call: the functions select\_functions
  checked and no other.
\<close>

definition auth_wf :: "('h, 'e, 'p) PROV_AUTH_INFO_scheme \<Rightarrow> bool" where
  "auth_wf a \<longleftrightarrow> hsm_client_handle a \<noteq> None \<and> hsm_client_destroy a \<noteq> None \<and>
     (case sec_type a of
        PROV_AUTH_TYPE_TPM \<Rightarrow> hsm_client_import_key a \<noteq> None \<and> hsm_client_get_endorsement_key a \<noteq> None
          \<and> hsm_client_get_srk a \<noteq> None \<and> hsm_client_sign_data a \<noteq> None
      | PROV_AUTH_TYPE_X509 \<Rightarrow> hsm_client_get_cert a \<noteq> None \<and> hsm_client_get_alias_key a \<noteq> None
          \<and> hsm_client_get_common_name a \<noteq> None
      | PROV_AUTH_TYPE_KEY \<Rightarrow> hsm_client_get_common_name a \<noteq> None \<and> hsm_client_get_symm_key a \<noteq> None
      | PROV_AUTH_TYPE_UNKNOWN \<Rightarrow> False)"

lemma auth_wf_update [simp]: "auth_wf (a\<lparr>auth_registration_id := r\<rparr>) = auth_wf a"
  by (simp add: auth_wf_def split: PROV_AUTH_TYPE.split)

text \<open>Calls change the module and the registration id only.\<close>

definition auth_ok :: "('h, 'e, 'p) PROV_AUTH_INFO_scheme \<Rightarrow> ('h, 'e, 'p) PROV_AUTH_INFO_scheme \<Rightarrow> bool" where
  "auth_ok a a' \<longleftrightarrow> auth_wf a' \<and> sec_type a' = sec_type a"

lemma auth_ok_refl [simp]: "auth_ok a a = auth_wf a"
  by (simp add: auth_ok_def)

lemma auth_ok_id [simp]: "auth_ok a (a'\<lparr>auth_registration_id := r\<rparr>) = auth_ok a a'"
  by (simp add: auth_ok_def)

lemma auth_ok_trans: "auth_ok a a' \<Longrightarrow> auth_ok a' a'' \<Longrightarrow> auth_ok a a''"
  by (simp add: auth_ok_def)

lemma hsm_call_sat:
  assumes "auth_wf a" "p \<noteq> None"
  shows "run_sat True (\<lambda>(r, a', e'). auth_ok a a' \<and> auth_registration_id a' = auth_registration_id a) (hsm_call p a e)"
proof -
  obtain h f where hf: "hsm_client_handle a = Some h" "p = Some f" using assms by (auto simp: auth_wf_def)
  moreover have "auth_wf (a\<lparr>hsm_client_handle := Some h'\<rparr>)" for h' using assms(1) by (simp add: auth_wf_def split: PROV_AUTH_TYPE.splits)
  ultimately show ?thesis by (simp add: hsm_call_def auth_ok_def split: prod.split)
qed

text \<open>Base32 never gives an empty text.\<close>

definition base32_laws :: "('e, 'n) crypto_api_scheme \<Rightarrow> bool" where
  "base32_laws cr \<longleftrightarrow> (\<forall>d e. fst (base32_encode_bytes cr d e) \<noteq> Some [])"

lemma encode_value_sat:
  assumes "base32_laws cr"
  shows "run_sat True (\<lambda>_. True) (encode_value os cr d e)"
proof (cases "base32_encode_bytes cr d e")
  case (Pair r e')
  then have "r \<noteq> Some []" using assms unfolding base32_laws_def by (metis fst_conv)
  with Pair show ?thesis by (cases r) (auto simp: encode_value_def)
qed

lemma load_registration_id_sat:
  assumes "auth_wf a" "base32_laws cr"
  shows "run_sat True (\<lambda>(ok, a', e'). auth_ok a a' \<and> (ok = (auth_registration_id a' \<noteq> None) \<or> \<not> ok))
    (load_registration_id os cr a e)"
proof (cases "sec_type a = PROV_AUTH_TYPE_TPM")
  case True
  then have "hsm_client_get_endorsement_key a \<noteq> None" using assms(1) by (simp add: auth_wf_def)
  with True show ?thesis
    by (auto simp: load_registration_id_def intro!: run_sat_bindI [OF hsm_call_sat [OF assms(1)]]
        run_sat_bindI [OF encode_value_sat [OF assms(2)]] split: option.split prod.splits)
next
  case False
  then have "hsm_client_get_common_name a \<noteq> None" using assms(1) by (cases "sec_type a") (simp_all add: auth_wf_def)
  with False show ?thesis
    by (auto simp: load_registration_id_def intro!: run_sat_bindI [OF hsm_call_sat [OF assms(1)]] split: prod.splits)
qed

lemma sign_sas_data_sat:
  assumes "auth_wf a" "sec_type a \<noteq> PROV_AUTH_TYPE_X509"
  shows "run_sat True (\<lambda>(r, a', e'). auth_ok a a' \<and> auth_registration_id a' = auth_registration_id a)
    (sign_sas_data os cr a payload e)"
proof (cases "sec_type a = PROV_AUTH_TYPE_TPM")
  case True
  then have "map_option (\<lambda>f h. f h payload) (hsm_client_sign_data a) \<noteq> None" using assms(1) by (simp add: auth_wf_def)
  with True show ?thesis by (simp add: sign_sas_data_def hsm_call_sat [OF assms(1)])
next
  case False
  then have "hsm_client_get_symm_key a \<noteq> None" using assms by (cases "sec_type a") (simp_all add: auth_wf_def)
  with False show ?thesis
    by (auto simp: sign_sas_data_def intro!: run_sat_bindI [OF hsm_call_sat [OF assms(1)]] split: option.split prod.splits)
qed

section \<open>The service the provisioning client uses\<close>

text \<open>
  What the client calls of its identity, and what it may rely on: on a usable handle every call
  returns and leaves a usable handle of the same type.
\<close>

record ('a, 'e) auth_api =
  auth_create :: "'e \<Rightarrow> ('a option \<times> 'e) run"
  auth_destroy :: "'a option \<Rightarrow> 'e \<Rightarrow> 'e run"
  auth_get_type :: "'a option \<Rightarrow> PROV_AUTH_TYPE"
  auth_get_registration_id :: "'a option \<Rightarrow> 'e \<Rightarrow> (string option \<times> 'a option \<times> 'e) run"
  auth_set_registration_id :: "'a option \<Rightarrow> string option \<Rightarrow> 'e \<Rightarrow> bool \<times> 'a option \<times> 'e"
  auth_get_endorsement_key :: "'a option \<Rightarrow> 'e \<Rightarrow> (char list option \<times> 'a option \<times> 'e) run"
  auth_get_storage_key :: "'a option \<Rightarrow> 'e \<Rightarrow> (char list option \<times> 'a option \<times> 'e) run"
  auth_import_key :: "'a option \<Rightarrow> char list option \<Rightarrow> 'e \<Rightarrow> (bool \<times> 'a option \<times> 'e) run"
  auth_construct_sas_token ::
    "'a option \<Rightarrow> string option \<Rightarrow> string option \<Rightarrow> 64 word \<Rightarrow> 'e \<Rightarrow> (string option \<times> 'a option \<times> 'e) run"
  auth_get_certificate :: "'a option \<Rightarrow> 'e \<Rightarrow> (string option \<times> 'a option \<times> 'e) run"
  auth_get_alias_key :: "'a option \<Rightarrow> 'e \<Rightarrow> (string option \<times> 'a option \<times> 'e) run"

definition auth_kept :: "('a, 'e) auth_api \<Rightarrow> ('a option \<Rightarrow> bool) \<Rightarrow> 'a option \<Rightarrow> ('r \<times> 'a option \<times> 'e) run \<Rightarrow> bool" where
  "auth_kept api usable h m \<longleftrightarrow>
     run_sat True (\<lambda>(r, h', e'). usable h' \<and> auth_get_type api h' = auth_get_type api h) m"

locale auth_contract =
  fixes api :: "('a, 'e) auth_api"
    and usable :: "'a option \<Rightarrow> bool"
    and lawful :: bool
  assumes created: "lawful \<Longrightarrow> run_sat True (\<lambda>(h, e'). h \<noteq> None \<longrightarrow> usable h) (auth_create api e)"
    and destroyed: "usable h \<or> h = None \<Longrightarrow> run_sat True (\<lambda>_. True) (auth_destroy api h e)"
    and kept_get_registration_id: "usable h \<Longrightarrow> auth_kept api usable h (auth_get_registration_id api h e)"
    and kept_set_registration_id: "usable h \<Longrightarrow> auth_kept api usable h (Done (auth_set_registration_id api h r e))"
    and kept_get_endorsement_key: "usable h \<Longrightarrow> auth_kept api usable h (auth_get_endorsement_key api h e)"
    and kept_get_storage_key: "usable h \<Longrightarrow> auth_kept api usable h (auth_get_storage_key api h e)"
    and kept_import_key: "usable h \<Longrightarrow> auth_kept api usable h (auth_import_key api h k e)"
    and kept_construct_sas_token: "usable h \<Longrightarrow> auth_kept api usable h (auth_construct_sas_token api h s n t e)"
    and kept_get_certificate: "usable h \<Longrightarrow> auth_kept api usable h (auth_get_certificate api h e)"
    and kept_get_alias_key: "usable h \<Longrightarrow> auth_kept api usable h (auth_get_alias_key api h e)"

definition prov_auth_services ::
  "('e, 'm) os_scheme \<Rightarrow> ('e, 'n) crypto_api_scheme \<Rightarrow> hsm_build \<Rightarrow> ('h, 'e) hsm_modules \<Rightarrow> ('f, 'p) factories_scheme
     \<Rightarrow> (('h, 'e) PROV_AUTH_INFO, 'e) auth_api" where
  "prov_auth_services os cr b m g = \<lparr>
     auth_create = prov_auth_create os b m g,
     auth_destroy = prov_auth_destroy,
     auth_get_type = prov_auth_get_type,
     auth_get_registration_id = prov_auth_get_registration_id os cr,
     auth_set_registration_id = prov_auth_set_registration_id os,
     auth_get_endorsement_key = prov_auth_get_endorsement_key os,
     auth_get_storage_key = prov_auth_get_storage_key os,
     auth_import_key = prov_auth_import_key,
     auth_construct_sas_token = prov_auth_construct_sas_token os cr,
     auth_get_certificate = prov_auth_get_certificate,
     auth_get_alias_key = prov_auth_get_alias_key \<rparr>"

lemma prov_auth_services_sel [simp]:
  "auth_create (prov_auth_services os cr b m g) = prov_auth_create os b m g"
  "auth_destroy (prov_auth_services os cr b m g) = prov_auth_destroy"
  "auth_get_type (prov_auth_services os cr b m g) = prov_auth_get_type"
  "auth_get_registration_id (prov_auth_services os cr b m g) = prov_auth_get_registration_id os cr"
  "auth_set_registration_id (prov_auth_services os cr b m g) = prov_auth_set_registration_id os"
  "auth_get_endorsement_key (prov_auth_services os cr b m g) = prov_auth_get_endorsement_key os"
  "auth_get_storage_key (prov_auth_services os cr b m g) = prov_auth_get_storage_key os"
  "auth_import_key (prov_auth_services os cr b m g) = prov_auth_import_key"
  "auth_construct_sas_token (prov_auth_services os cr b m g) = prov_auth_construct_sas_token os cr"
  "auth_get_certificate (prov_auth_services os cr b m g) = prov_auth_get_certificate"
  "auth_get_alias_key (prov_auth_services os cr b m g) = prov_auth_get_alias_key"
  by (simp_all add: prov_auth_services_def)

definition auth_usable :: "('h, 'e) PROV_AUTH_INFO option \<Rightarrow> bool" where
  "auth_usable h = (case h of None \<Rightarrow> False | Some a \<Rightarrow> auth_wf a)"

lemma auth_usable_simps [simp]: "auth_usable (Some a) = auth_wf a" "\<not> auth_usable None"
  by (simp_all add: auth_usable_def)

lemma auth_kept_Some:
  "auth_kept (prov_auth_services os cr b m g) auth_usable (Some a) n
     = run_sat True (\<lambda>(r, h', e'). \<exists>a'. h' = Some a' \<and> auth_ok a a') n"
  unfolding auth_kept_def auth_ok_def
  by (rule arg_cong [of _ _ "\<lambda>Q. run_sat True Q n"])
     (auto simp: fun_eq_iff prov_auth_get_type_def auth_usable_def split: option.split)

lemma select_functions_wf:
  assumes "select_functions b m t = Some a" "hsm_client_create a \<noteq> None"
  shows "auth_wf (a\<lparr>hsm_client_handle := Some h\<rparr>)
    \<and> (sec_type a = PROV_AUTH_TYPE_KEY \<longrightarrow> hsm_client_set_symm_key_info a \<noteq> None)"
  using assms by (auto simp: select_functions_def no_functions_def auth_wf_def split: if_splits option.splits)

lemma auth_create_sat:
  "run_sat True (\<lambda>(h, e'). h \<noteq> None \<longrightarrow> auth_usable h) (prov_auth_create os b m g e)"
proof -
  have set_key: "run_sat True (\<lambda>(h, e'). (\<exists>y. h = Some y) \<longrightarrow> auth_usable h)
      (run_bind (hsm_call (map_option (\<lambda>f h. f h n k) (hsm_client_set_symm_key_info a)) (a\<lparr>hsm_client_handle := Some h\<rparr>) e) (\<lambda>(ok, a, e).
         if ok then Done (Some a, e)
         else call_ptr (hsm_client_destroy a) (\<lambda>f. Done (None, f (the (hsm_client_handle a)) e))))"
    if a: "select_functions b m t = Some a" "hsm_client_create a \<noteq> None" "sec_type a = PROV_AUTH_TYPE_KEY" for a t h n k e
  proof -
    have wf: "auth_wf (a\<lparr>hsm_client_handle := Some h\<rparr>)" "map_option (\<lambda>f h. f h n k) (hsm_client_set_symm_key_info a) \<noteq> None"
      using select_functions_wf [OF a(1,2)] a(3) by simp_all
    show ?thesis
      by (auto simp: auth_ok_def auth_wf_def intro!: run_sat_bindI [OF hsm_call_sat [OF wf]])
  qed
  have set_none: "auth_wf (a\<lparr>hsm_client_handle := Some h\<rparr>)"
    if "select_functions b m t = Some a" "hsm_client_create a = Some c" for a t h c
    using select_functions_wf [OF that(1)] that(2) by simp
  show ?thesis
    by (auto simp: prov_auth_create_def Let_def intro!: set_key set_none split: option.split prod.split)
qed

lemma buffer_from_sat:
  assumes "auth_wf a" "p \<noteq> None"
  shows "run_sat True (\<lambda>(r, h', e'). \<exists>a'. h' = Some a' \<and> auth_ok a a') (buffer_from os p a e)"
  unfolding buffer_from_def
  by (auto intro!: run_sat_bindI [OF hsm_call_sat [OF assms]] split: prod.splits)

lemma get_registration_id_sat:
  assumes "auth_wf a" "base32_laws cr"
  shows "run_sat True (\<lambda>(r, h', e'). \<exists>a'. h' = Some a' \<and> auth_ok a a') (prov_auth_get_registration_id os cr (Some a) e)"
proof -
  have "run_sat True (\<lambda>(ok, n, a', e'). auth_ok a a')
      (if auth_registration_id a = None then run_bind (load_registration_id os cr a e) (\<lambda>(ok, a, e). Done (ok, ok, a, e))
       else Done (True, False, a, e))"
    using assms(1) by (auto intro!: run_sat_bindI [OF load_registration_id_sat [OF assms]])
  then show ?thesis unfolding prov_auth_get_registration_id_def
    by (auto elim!: run_sat_bindI split: option.split prod.split)
qed

lemma construct_sas_token_sat:
  assumes "auth_wf a"
  shows "run_sat True (\<lambda>(r, h', e'). \<exists>a'. h' = Some a' \<and> auth_ok a a') (prov_auth_construct_sas_token os cr (Some a) s n t e)"
proof (cases "sec_type a = PROV_AUTH_TYPE_X509")
  case True
  with assms show ?thesis by (auto simp: prov_auth_construct_sas_token_def split: option.split)
next
  case False
  with assms show ?thesis
    by (auto simp: prov_auth_construct_sas_token_def intro!: run_sat_bindI [OF sign_sas_data_sat [OF assms False]]
        split: option.split prod.split)
qed

lemma import_key_sat:
  assumes "auth_wf a"
  shows "run_sat True (\<lambda>(r, h', e'). \<exists>a'. h' = Some a' \<and> auth_ok a a') (prov_auth_import_key (Some a) k e)"
proof -
  have "map_option (\<lambda>f h. f h key) (hsm_client_import_key a) \<noteq> None" if "sec_type a = PROV_AUTH_TYPE_TPM" for key
    using assms that by (simp add: auth_wf_def)
  with assms show ?thesis
    by (auto simp: prov_auth_import_key_def intro!: run_sat_bindI [OF hsm_call_sat] split: option.split prod.split)
qed

lemma x509_get_sat:
  assumes "auth_wf a" "p \<noteq> None"
  shows "run_sat True (\<lambda>(r, h', e'). \<exists>a'. h' = Some a' \<and> auth_ok a a')
    (run_bind (hsm_call p a e) (\<lambda>(r, a, e). Done (r, Some a, e)))"
  by (auto intro!: run_sat_bindI [OF hsm_call_sat [OF assms]])

lemma auth_destroy_sat: "auth_usable h \<or> h = None \<Longrightarrow> run_sat True (\<lambda>_. True) (prov_auth_destroy h e)"
  by (auto simp: prov_auth_destroy_def auth_wf_def split: option.split)

lemma auth_functions:
  assumes "auth_wf a"
  shows "sec_type a = PROV_AUTH_TYPE_TPM \<Longrightarrow> hsm_client_get_endorsement_key a \<noteq> None"
    "sec_type a = PROV_AUTH_TYPE_TPM \<Longrightarrow> hsm_client_get_srk a \<noteq> None"
    "sec_type a = PROV_AUTH_TYPE_X509 \<Longrightarrow> hsm_client_get_cert a \<noteq> None"
    "sec_type a = PROV_AUTH_TYPE_X509 \<Longrightarrow> hsm_client_get_alias_key a \<noteq> None"
  using assms by (simp_all add: auth_wf_def)

text \<open>An identity can be used when it is well formed and base32 keeps its law.\<close>

definition lawful_identity :: "('e, 'n) crypto_api_scheme \<Rightarrow> ('h, 'e) PROV_AUTH_INFO option \<Rightarrow> bool" where
  "lawful_identity cr h \<longleftrightarrow> base32_laws cr \<and> auth_usable h"

lemma lawful_identity_usable: "base32_laws cr \<Longrightarrow> lawful_identity cr = auth_usable"
  by (simp add: lawful_identity_def fun_eq_iff)

lemma auth_contract_usable:
  assumes "base32_laws cr"
  shows "auth_contract (prov_auth_services os cr b m g :: (('h, 'e) PROV_AUTH_INFO, 'e) auth_api) auth_usable True"
proof
  fix h :: "('h, 'e) PROV_AUTH_INFO option" and e k r s n t
  assume u: "auth_usable h"
  then obtain a where h: "h = Some a" and wf: "auth_wf a" by (cases h) auto
  note kept = auth_kept_Some [of os cr b m g a]
  show "auth_kept (prov_auth_services os cr b m g) auth_usable h (auth_get_registration_id (prov_auth_services os cr b m g) h e)"
    using get_registration_id_sat [OF wf assms] by (simp add: h kept)
  show "auth_kept (prov_auth_services os cr b m g) auth_usable h (Done (auth_set_registration_id (prov_auth_services os cr b m g) h r e))"
    using wf by (auto simp: h kept prov_auth_set_registration_id_def split: option.split prod.split)
  show "auth_kept (prov_auth_services os cr b m g) auth_usable h (auth_get_endorsement_key (prov_auth_services os cr b m g) h e)"
    using wf by (simp add: h kept prov_auth_get_endorsement_key_def buffer_from_sat [OF wf auth_functions(1) [OF wf]])
  show "auth_kept (prov_auth_services os cr b m g) auth_usable h (auth_get_storage_key (prov_auth_services os cr b m g) h e)"
    using wf by (simp add: h kept prov_auth_get_storage_key_def buffer_from_sat [OF wf auth_functions(2) [OF wf]])
  show "auth_kept (prov_auth_services os cr b m g) auth_usable h (auth_import_key (prov_auth_services os cr b m g) h k e)"
    using import_key_sat [OF wf] by (simp add: h kept)
  show "auth_kept (prov_auth_services os cr b m g) auth_usable h (auth_construct_sas_token (prov_auth_services os cr b m g) h s n t e)"
    using construct_sas_token_sat [OF wf] by (simp add: h kept)
  show "auth_kept (prov_auth_services os cr b m g) auth_usable h (auth_get_certificate (prov_auth_services os cr b m g) h e)"
    using wf x509_get_sat [OF wf auth_functions(3) [OF wf]] by (simp add: h kept prov_auth_get_certificate_def)
  show "auth_kept (prov_auth_services os cr b m g) auth_usable h (auth_get_alias_key (prov_auth_services os cr b m g) h e)"
    using wf x509_get_sat [OF wf auth_functions(4) [OF wf]] by (simp add: h kept prov_auth_get_alias_key_def)
next
  show "run_sat True (\<lambda>(h, e'). h \<noteq> None \<longrightarrow> auth_usable h) (auth_create (prov_auth_services os cr b m g) e)" for e
    by (simp only: prov_auth_services_sel auth_create_sat)
qed (simp_all add: auth_destroy_sat)

interpretation prov_identity: auth_contract "prov_auth_services os cr b m g" "lawful_identity cr" "base32_laws cr"
  for os cr b m g
proof (cases "base32_laws cr")
  case True
  then show "auth_contract (prov_auth_services os cr b m g) (lawful_identity cr) (base32_laws cr)"
    using auth_contract_usable [OF True, of os b m g] by (simp add: lawful_identity_usable)
next
  case False
  then show "auth_contract (prov_auth_services os cr b m g) (lawful_identity cr) (base32_laws cr)"
    by unfold_locales (auto simp: lawful_identity_def prov_auth_destroy_def)
qed

section \<open>What the tokens are\<close>









text \<open>A text of 64 characters holds every expiry time, so a token never fails for its length.\<close>

lemma size_tToString_fits: "size_tToString 64 v = Some (nat_str (unat v))"
proof -
  have "unat v < 2 ^ LENGTH(64)" by (rule unsigned_less)
  then have "unat v < 10 ^ Suc 19" by simp
  from nat_str_length [OF this] show ?thesis by (simp add: size_tToString_def)
qed

end
