(* ===== verification/ProvData.thy ===== *)
theory ProvData
  imports ProvAuth
begin

text \<open>
  The provisioning device client (provisioning\_client/src/prov\_device\_ll\_client.c): its data, and what it
  stands between: the transport below (prov\_transport\_private.h), parson for JSON, the identity of ProvAuth,
  and the two callbacks of the user above. ProvReply holds its JSON, ProvClient its operations.
\<close>

section \<open>Results and states\<close>

datatype PROV_DEVICE_RESULT =
  PROV_DEVICE_RESULT_OK | PROV_DEVICE_RESULT_INVALID_ARG | PROV_DEVICE_RESULT_SUCCESS | PROV_DEVICE_RESULT_MEMORY
| PROV_DEVICE_RESULT_PARSING | PROV_DEVICE_RESULT_TRANSPORT | PROV_DEVICE_RESULT_INVALID_STATE
| PROV_DEVICE_RESULT_DEV_AUTH_ERROR | PROV_DEVICE_RESULT_TIMEOUT | PROV_DEVICE_RESULT_KEY_ERROR
| PROV_DEVICE_RESULT_ERROR | PROV_DEVICE_RESULT_HUB_NOT_SPECIFIED | PROV_DEVICE_RESULT_UNAUTHORIZED
| PROV_DEVICE_RESULT_DISABLED

datatype PROV_DEVICE_REG_STATUS =
  PROV_DEVICE_REG_STATUS_CONNECTED | PROV_DEVICE_REG_STATUS_REGISTERING | PROV_DEVICE_REG_STATUS_ASSIGNING
| PROV_DEVICE_REG_STATUS_ASSIGNED | PROV_DEVICE_REG_STATUS_ERROR | PROV_DEVICE_REG_HUB_NOT_SPECIFIED

datatype TRANSPORT_HSM_TYPE = TRANSPORT_HSM_TYPE_TPM | TRANSPORT_HSM_TYPE_X509 | TRANSPORT_HSM_TYPE_SYMM_KEY

datatype PROV_DEVICE_TRANSPORT_RESULT =
  PROV_DEVICE_TRANSPORT_RESULT_OK | PROV_DEVICE_TRANSPORT_RESULT_UNAUTHORIZED | PROV_DEVICE_TRANSPORT_RESULT_ERROR

datatype PROV_DEVICE_TRANSPORT_STATUS =
  PROV_DEVICE_TRANSPORT_STATUS_CONNECTED | PROV_DEVICE_TRANSPORT_STATUS_AUTHENTICATED
| PROV_DEVICE_TRANSPORT_STATUS_UNASSIGNED | PROV_DEVICE_TRANSPORT_STATUS_ASSIGNING | PROV_DEVICE_TRANSPORT_STATUS_ASSIGNED
| PROV_DEVICE_TRANSPORT_STATUS_BLACKLISTED | PROV_DEVICE_TRANSPORT_STATUS_TRANSIENT | PROV_DEVICE_TRANSPORT_STATUS_ERROR
| PROV_DEVICE_TRANSPORT_STATUS_DISABLED

datatype PROV_DEVICE_TRANSPORT_ERROR =
  PROV_DEVICE_ERROR_KEY_FAIL | PROV_DEVICE_ERROR_KEY_UNAUTHORIZED | PROV_DEVICE_ERROR_MEMORY

datatype CLIENT_STATE =
  CLIENT_STATE_READY | CLIENT_STATE_REGISTER_SEND | CLIENT_STATE_REGISTER_SENT | CLIENT_STATE_REGISTER_RECV
| CLIENT_STATE_STATUS_SEND | CLIENT_STATE_STATUS_SENT | CLIENT_STATE_STATUS_RECV | CLIENT_STATE_ERROR

definition PROV_GET_THROTTLE_TIME :: nat where
  "PROV_GET_THROTTLE_TIME = 1"

definition MAX_PROV_GET_THROTTLE_TIME :: nat where
  "MAX_PROV_GET_THROTTLE_TIME = 5 * 60"

definition PROV_API_VERSION :: string where
  "PROV_API_VERSION = ''2019-03-31''"

definition PROV_DEVICE_CLIENT_VERSION :: string where
  "PROV_DEVICE_CLIENT_VERSION = ''1.6.0''"

definition SAS_TOKEN_DEFAULT_LIFETIME :: "64 word" where
  "SAS_TOKEN_DEFAULT_LIFETIME = 2400"

section \<open>What the client holds\<close>

record PROV_JSON_INFO =
  prov_status :: PROV_DEVICE_TRANSPORT_STATUS
  operation_id :: "string option"
  authorization_key :: "char list option"
  info_key_name :: "string option"
  iothub_uri :: "string option"
  info_device_id :: "string option"

record IOTHUB_REQ_INFO =
  iothub_url :: "string option"
  iothub_key :: "string option"
  req_device_id :: "string option"

text \<open>The calls of the user's callbacks, in order. A callback is a number, a context too.\<close>

datatype prov_event =
  DeviceRegistered nat PROV_DEVICE_RESULT "string option" "string option" nat
| StatusReported nat PROV_DEVICE_REG_STATUS nat

text \<open>
  The client, with the state \<open>'t\<close> of its transport, its identity \<open>'a\<close>, the environment and the calls of
  the user's callbacks so far. Times are in milliseconds; size\_t has 64 bits. The provider of the
  transport and the tick counter are arguments of the operations.
\<close>

record ('a, 't, 'e) PROV_INSTANCE_INFO =
  register_callback :: "nat option"
  user_context :: nat
  register_status_cb :: "nat option"
  status_user_ctx :: nat
  error_reason :: PROV_DEVICE_RESULT
  transport_handle :: "'t option"
  transport_open :: bool
  last_send_time_ms :: "64 word"
  timeout_value :: "64 word"
  retry_after_ms :: "64 word"
  prov_timeout :: "8 word"
  registration_id :: "string option"
  user_supplied_reg_id :: bool
  prov_auth_handle :: "'a option"
  is_connected :: bool
  hsm_type :: PROV_AUTH_TYPE
  iothub_info :: IOTHUB_REQ_INFO
  prov_state :: CLIENT_STATE
  auth_attempts_made :: nat
  scope_id :: string
  custom_request_data :: "string option"
  custom_response_data :: "string option"
  prov_env :: 'e
  prov_calls :: "prov_event list"

section \<open>The transport\<close>

text \<open>
  What a transport calls back, and the answers: the data of a registration, a status with the seconds
  to wait, a challenge (a nonce and the name of a key), a reply to parse, a payload to create, an error.
\<close>

datatype prov_call =
  RegistrationData PROV_DEVICE_TRANSPORT_RESULT "char list option" "string option" "string option"
| TransportStatus PROV_DEVICE_TRANSPORT_STATUS "32 word"
| Challenge "char list option" "string option"
| ParseReply "string option"
| CreatePayload "string option" "string option"
| TransportError PROV_DEVICE_TRANSPORT_ERROR

datatype prov_answer =
  NoAnswer | Token "string option" | ParsedReply "PROV_JSON_INFO option" | CreatedPayload "string option"

text \<open>
  A run of a transport function: it returns, or it calls the client from some state of its own and
  goes on from the answer and the state the client left it in; the client may close the transport
  while it answers; or it leaves defined behaviour. What a transport calls while it is closed or
  destroyed are notices, which the client does not answer and during which it does not touch the
  transport.
\<close>

datatype ('r, 't, 'e) prov_work =
  Returns 'r 't 'e
| Calls prov_call 't 'e "prov_answer \<Rightarrow> 't \<Rightarrow> 'e \<Rightarrow> ('r, 't, 'e) prov_work"
| Breaks

text \<open>One run after another.\<close>

primrec work_bind ::
  "('r, 't, 'e) prov_work \<Rightarrow> ('r \<Rightarrow> 't \<Rightarrow> 'e \<Rightarrow> ('s, 't, 'e) prov_work) \<Rightarrow> ('s, 't, 'e) prov_work" where
  "work_bind (Returns r t e) f = f r t e"
| "work_bind (Calls c t e k) f = Calls c t e (\<lambda>a t' e'. work_bind (k a t' e') f)"
| "work_bind Breaks f = Breaks"

datatype prov_notice =
  ErrorNotice PROV_DEVICE_TRANSPORT_ERROR | StatusNotice PROV_DEVICE_TRANSPORT_STATUS "32 word"

record HTTP_PROXY_OPTIONS =
  host_address :: "string option"
  proxy_port :: int
  proxy_username :: "string option"
  proxy_password :: "string option"

text \<open>What a void pointer given to an option points to.\<close>

datatype prov_option_value =
  TextValue string | BoolValue bool | ByteValue "8 word" | ProxyValue HTTP_PROXY_OPTIONS | PointerValue nat

text \<open>The functions of a transport, where an integer result is whether it is 0.\<close>

record ('t, 'e) PROV_DEVICE_TRANSPORT_PROVIDER =
  prov_transport_create :: "string \<Rightarrow> TRANSPORT_HSM_TYPE \<Rightarrow> string \<Rightarrow> string \<Rightarrow> 'e \<Rightarrow> 't option \<times> 'e"
  prov_transport_destroy :: "'t option \<Rightarrow> 'e \<Rightarrow> prov_notice list \<times> 'e"
  prov_transport_open ::
    "string option \<Rightarrow> char list option \<Rightarrow> char list option \<Rightarrow> 't \<Rightarrow> 'e \<Rightarrow> (bool, 't, 'e) prov_work"
  prov_transport_close :: "'t \<Rightarrow> 'e \<Rightarrow> prov_notice list \<times> 't \<times> 'e"
  prov_transport_register :: "'t \<Rightarrow> 'e \<Rightarrow> (bool, 't, 'e) prov_work"
  prov_transport_get_op_status :: "'t \<Rightarrow> 'e \<Rightarrow> (bool, 't, 'e) prov_work"
  prov_transport_dowork :: "'t \<Rightarrow> 'e \<Rightarrow> (unit, 't, 'e) prov_work"
  prov_transport_set_trace :: "bool \<Rightarrow> 't \<Rightarrow> 'e \<Rightarrow> bool \<times> 't \<times> 'e"
  prov_transport_x509_cert :: "string \<Rightarrow> string \<Rightarrow> 't \<Rightarrow> 'e \<Rightarrow> bool \<times> 't \<times> 'e"
  prov_transport_trusted_cert :: "string option \<Rightarrow> 't \<Rightarrow> 'e \<Rightarrow> bool \<times> 't \<times> 'e"
  prov_transport_set_proxy :: "HTTP_PROXY_OPTIONS option \<Rightarrow> 't \<Rightarrow> 'e \<Rightarrow> bool \<times> 't \<times> 'e"
  prov_transport_set_option :: "string \<Rightarrow> prov_option_value option \<Rightarrow> 't \<Rightarrow> 'e \<Rightarrow> bool \<times> 't \<times> 'e"

section \<open>JSON\<close>

text \<open>
  Parson, on values of a type \<open>'j\<close>; an object is the value that holds it, and a function that changes it
  answers the changed value, None being a failure. \<open>json_int_of_number\<close> is json\_value\_get\_number
  converted to int, a conversion C defines where the number fits.
\<close>

record ('j, 'e) json_api =
  json_parse_string :: "string option \<Rightarrow> 'e \<Rightarrow> 'j option \<times> 'e"
  json_value_get_object :: "'j \<Rightarrow> 'j option"
  json_object_get_value :: "'j \<Rightarrow> string \<Rightarrow> 'j option"
  json_object_get_object :: "'j \<Rightarrow> string \<Rightarrow> 'j option"
  json_value_get_string :: "'j \<Rightarrow> string option"
  json_int_of_number :: "'j \<Rightarrow> int"
  json_serialize_to_string :: "'j \<Rightarrow> 'e \<Rightarrow> string option \<times> 'e"
  json_value_init_object :: "'e \<Rightarrow> 'j option \<times> 'e"
  json_object_set_string :: "'j \<Rightarrow> string \<Rightarrow> string option \<Rightarrow> 'e \<Rightarrow> 'j option \<times> 'e"
  json_object_set_value :: "'j \<Rightarrow> string \<Rightarrow> 'j \<Rightarrow> 'e \<Rightarrow> 'j option \<times> 'e"

text \<open>Everything the client calls, and the two names of options that the shared utility library declares.\<close>

record ('a, 't, 'j, 'e) prov_client_api =
  p_os :: "'e os"
  p_crypto :: "'e crypto_api"
  p_json :: "('j, 'e) json_api"
  p_auth :: "('a, 'e) auth_api"
  p_transport :: "('t, 'e) PROV_DEVICE_TRANSPORT_PROVIDER"
  p_tickcounter_create :: "'e \<Rightarrow> bool \<times> 'e"
  p_tickcounter_get_current_ms :: "'e \<Rightarrow> (64 word) option \<times> 'e"
  OPTION_TRUSTED_CERT :: string
  OPTION_HTTP_PROXY :: string

section \<open>Calls on the parts of the client\<close>

definition on_prov_env ::
  "('e \<Rightarrow> 'r \<times> 'e) \<Rightarrow> ('a, 't, 'e, 'm) PROV_INSTANCE_INFO_scheme \<Rightarrow> 'r \<times> ('a, 't, 'e, 'm) PROV_INSTANCE_INFO_scheme" where
  "on_prov_env f p = (case f (prov_env p) of (r, e) \<Rightarrow> (r, p\<lparr>prov_env := e\<rparr>))"

definition on_auth ::
  "('a option \<Rightarrow> 'e \<Rightarrow> ('r \<times> 'a option \<times> 'e) run) \<Rightarrow> ('a, 't, 'e, 'm) PROV_INSTANCE_INFO_scheme
     \<Rightarrow> ('r \<times> ('a, 't, 'e, 'm) PROV_INSTANCE_INFO_scheme) run" where
  "on_auth f p =
     run_bind (f (prov_auth_handle p) (prov_env p)) (\<lambda>(r, a, e). Done (r, p\<lparr>prov_auth_handle := a, prov_env := e\<rparr>))"

text \<open>A call of a transport function that does not call back; the transport exists.\<close>

definition on_prov_transport ::
  "('t \<Rightarrow> 'e \<Rightarrow> 'r \<times> 't \<times> 'e) \<Rightarrow> ('a, 't, 'e, 'm) PROV_INSTANCE_INFO_scheme
     \<Rightarrow> ('r \<times> ('a, 't, 'e, 'm) PROV_INSTANCE_INFO_scheme) run" where
  "on_prov_transport f p =
     (case transport_handle p of
        None \<Rightarrow> Fault
      | Some t \<Rightarrow> (case f t (prov_env p) of (r, t, e) \<Rightarrow> Done (r, p\<lparr>transport_handle := Some t, prov_env := e\<rparr>)))"

definition tell_prov :: "prov_event \<Rightarrow> ('a, 't, 'e, 'm) PROV_INSTANCE_INFO_scheme \<Rightarrow> ('a, 't, 'e, 'm) PROV_INSTANCE_INFO_scheme" where
  "tell_prov ev p = p\<lparr>prov_calls := prov_calls p @ [ev]\<rparr>"

text \<open>The call of the registration callback, which must not be NULL; a status callback may be NULL.\<close>

definition tell_registered ::
  "PROV_DEVICE_RESULT \<Rightarrow> string option \<Rightarrow> string option \<Rightarrow> ('a, 't, 'e, 'm) PROV_INSTANCE_INFO_scheme
     \<Rightarrow> ('a, 't, 'e, 'm) PROV_INSTANCE_INFO_scheme run" where
  "tell_registered result hub dev p =
     (case register_callback p of
        None \<Rightarrow> Fault
      | Some cb \<Rightarrow> Done (tell_prov (DeviceRegistered cb result hub dev (user_context p)) p))"

definition tell_status ::
  "PROV_DEVICE_REG_STATUS \<Rightarrow> ('a, 't, 'e, 'm) PROV_INSTANCE_INFO_scheme \<Rightarrow> ('a, 't, 'e, 'm) PROV_INSTANCE_INFO_scheme" where
  "tell_status s p =
     (case register_status_cb p of
        None \<Rightarrow> p
      | Some cb \<Rightarrow> tell_prov (StatusReported cb s (status_user_ctx p)) p)"

end
