(* ===== verification/ProvMqtt.thy ===== *)
theory ProvMqtt
  imports ProvData
begin

text \<open>
  The MQTT transport of the provisioning client (prov\_transport\_mqtt\_common.c, prov\_transport.h) and its
  two instances, over TLS and over a web socket (prov\_transport\_mqtt\_client.c,
  prov\_transport\_mqtt\_ws\_client.c). The MQTT client library and the io of azure\_c\_shared\_utility are
  arguments.
\<close>

section \<open>What the transport calls\<close>

text \<open>
  What the MQTT library reports: the CONNACK with its return code, the SUBACK with what each topic got
  (true is a failure), where None is a NULL packet; another acknowledgement; an error; a message, its
  topic and payload, where None is NULL.
\<close>

datatype mqtt_event =
  Connack "nat option" | Suback "bool list option" | OtherAck | MqttError | Published "string option" "char list option"

definition CONNECTION_ACCEPTED :: nat where
  "CONNECTION_ACCEPTED = 0"

record MQTT_CLIENT_OPTIONS =
  mqtt_client_id :: "string option"
  mqtt_username :: string
  mqtt_password :: "string option"
  mqtt_log_trace :: bool

record HTTP_PROXY_IO_CONFIG =
  io_hostname :: string
  io_port :: nat
  io_proxy_hostname :: "string option"
  io_proxy_port :: int
  io_username :: "string option"
  io_password :: "string option"

record TLSIO_CONFIG =
  tls_hostname :: string
  tls_port :: nat
  underlying_proxy :: "HTTP_PROXY_IO_CONFIG option"

record WSIO_CONFIG =
  ws_hostname :: string
  ws_port :: nat
  ws_resource_name :: string
  ws_protocol :: string
  ws_underlying_tls :: TLSIO_CONFIG

text \<open>
  The MQTT client library, on a client \<open>'q\<close>, and the io \<open>'io\<close> it runs over. A call of the client answers
  whether it succeeded and what it reported meanwhile. A platform may have no TLS io and no web socket io.
\<close>

type_synonym ('r, 'q, 'e) mqtt_fun = "'q \<Rightarrow> 'e \<Rightarrow> ('r \<times> mqtt_event list) \<times> 'q \<times> 'e"

record ('q, 'io, 'e) mqtt_api =
  mqtt_client_init :: "'e \<Rightarrow> 'q option \<times> 'e"
  mqtt_client_deinit :: "'q \<Rightarrow> 'e \<Rightarrow> 'e"
  mqtt_client_connect :: "'io option \<Rightarrow> MQTT_CLIENT_OPTIONS \<Rightarrow> (bool, 'q, 'e) mqtt_fun"
  mqtt_client_subscribe :: "16 word \<Rightarrow> string \<Rightarrow> (bool, 'q, 'e) mqtt_fun"
  mqtt_client_publish :: "16 word \<Rightarrow> string \<Rightarrow> string \<Rightarrow> (bool, 'q, 'e) mqtt_fun"
  mqtt_client_disconnect :: "(bool, 'q, 'e) mqtt_fun"
  mqtt_client_dowork :: "(unit, 'q, 'e) mqtt_fun"
  mqtt_client_set_trace :: "bool \<Rightarrow> 'q \<Rightarrow> 'q"
  mqttmessage_create_in_place :: "16 word \<Rightarrow> string \<Rightarrow> string \<Rightarrow> 'e \<Rightarrow> bool \<times> 'e"
  has_default_tlsio :: bool
  has_wsio :: bool
  xio_create_tls :: "TLSIO_CONFIG \<Rightarrow> 'e \<Rightarrow> 'io option \<times> 'e"
  xio_create_ws :: "WSIO_CONFIG \<Rightarrow> 'e \<Rightarrow> 'io option \<times> 'e"
  xio_setoption :: "string \<Rightarrow> prov_option_value option \<Rightarrow> 'io \<Rightarrow> 'e \<Rightarrow> bool \<times> 'io \<times> 'e"
  xio_destroy :: "'io option \<Rightarrow> 'e \<Rightarrow> 'e"
  XIO_TRUSTED_CERT :: string
  XIO_X509_ECC_CERT :: string
  XIO_X509_ECC_KEY :: string

section \<open>The state of the transport\<close>

datatype MQTT_TRANSPORT_STATE =
  MQTT_STATE_IDLE | MQTT_STATE_DISCONNECTED | MQTT_STATE_CONNECTING | MQTT_STATE_CONNECTED
| MQTT_STATE_SUBSCRIBING | MQTT_STATE_SUBSCRIBED | MQTT_STATE_ERROR

datatype PROV_TRANSPORT_STATE =
  TRANSPORT_CLIENT_STATE_IDLE | TRANSPORT_CLIENT_STATE_REG_SEND | TRANSPORT_CLIENT_STATE_REG_SENT
| TRANSPORT_CLIENT_STATE_REG_RECV | TRANSPORT_CLIENT_STATE_STATUS_SEND | TRANSPORT_CLIENT_STATE_STATUS_SENT
| TRANSPORT_CLIENT_STATE_STATUS_RECV | TRANSPORT_CLIENT_STATE_TRANSIENT | TRANSPORT_CLIENT_STATE_ERROR

text \<open>
  \<open>open_callbacks\<close> is whether the callbacks that open stores are set, \<open>json_callbacks\<close> whether those that
  register stores are. The error callback is set at creation. The transport never sets ek, srk and
  sas\_token, which are left out.
\<close>

record ('q, 'io, 'e) PROV_TRANSPORT_MQTT_INFO =
  open_callbacks :: bool
  json_callbacks :: bool
  mqtt_client :: 'q
  mqtt_hostname :: string
  proxy_option :: HTTP_PROXY_OPTIONS
  x509_cert :: "string option"
  private_key :: "string option"
  mqtt_certificate :: "string option"
  mqtt_registration_id :: "string option"
  mqtt_scope_id :: string
  mqtt_operation_id :: "string option"
  api_version :: string
  payload_data :: "char list option"
  log_trace :: bool
  packet_id :: "16 word"
  mqtt_hsm_type :: TRANSPORT_HSM_TYPE
  transport_io_cb :: "string \<Rightarrow> HTTP_PROXY_OPTIONS option \<Rightarrow> 'e \<Rightarrow> 'io option \<times> 'e"
  transport_state :: PROV_TRANSPORT_STATE
  mqtt_state :: MQTT_TRANSPORT_STATE
  transport_io :: "'io option"
  retry_after_value :: "32 word"

text \<open>Almost every failure ends here.\<close>

definition mqtt_failed :: "('q, 'io, 'e, 'm) PROV_TRANSPORT_MQTT_INFO_scheme \<Rightarrow> ('q, 'io, 'e, 'm) PROV_TRANSPORT_MQTT_INFO_scheme" where
  "mqtt_failed t = t\<lparr>transport_state := TRANSPORT_CLIENT_STATE_ERROR, mqtt_state := MQTT_STATE_ERROR\<rparr>"

section \<open>Topics\<close>

definition MQTT_SUBSCRIBE_TOPIC :: string where
  "MQTT_SUBSCRIBE_TOPIC = ''$dps/registrations/res/#''"

definition MQTT_TOPIC_STATUS_PREFIX :: string where
  "MQTT_TOPIC_STATUS_PREFIX = ''$dps/registrations/res/''"

definition RETRY_AFTER_KEY_VALUE :: string where
  "RETRY_AFTER_KEY_VALUE = ''retry-after''"

definition PROV_STATUS_CODE_TRANSIENT_ERROR :: int where
  "PROV_STATUS_CODE_TRANSIENT_ERROR = 429"

text \<open>The formats, whose lengths the buffers are made from.\<close>

definition MQTT_USERNAME_FMT :: string where
  "MQTT_USERNAME_FMT = ''%s/registrations/%s/api-version=%s&ClientVersion=%s''"

definition MQTT_REGISTER_MESSAGE_FMT :: string where
  "MQTT_REGISTER_MESSAGE_FMT = ''$dps/registrations/PUT/iotdps-register/?$rid=%d''"

definition MQTT_STATUS_MESSAGE_FMT :: string where
  "MQTT_STATUS_MESSAGE_FMT = ''$dps/registrations/GET/iotdps-get-operationstatus/?$rid=%d&operationId=%s''"

definition register_topic :: "16 word \<Rightarrow> string" where
  "register_topic n = ''$dps/registrations/PUT/iotdps-register/?$rid='' @ nat_str (unat n)"

definition status_topic :: "16 word \<Rightarrow> string \<Rightarrow> string" where
  "status_topic n op_id =
     ''$dps/registrations/GET/iotdps-get-operationstatus/?$rid='' @ nat_str (unat n) @ ''&operationId='' @ op_id"

definition mqtt_user :: "string \<Rightarrow> string \<Rightarrow> string \<Rightarrow> string" where
  "mqtt_user scope reg version =
     scope @ ''/registrations/'' @ reg @ ''/api-version='' @ version @ ''&ClientVersion='' @ PROV_DEVICE_CLIENT_VERSION"

definition get_next_packet_id ::
  "('q, 'io, 'e, 'm) PROV_TRANSPORT_MQTT_INFO_scheme \<Rightarrow> 16 word \<times> ('q, 'io, 'e, 'm) PROV_TRANSPORT_MQTT_INFO_scheme" where
  "get_next_packet_id t =
     (let n = (if unat (packet_id t) + 1 \<ge> 65535 then 1 else packet_id t + 1) in (n, t\<lparr>packet_id := n\<rparr>))"

text \<open>
  atol; outside the range of long, where ISO C leaves it open, it is taken to answer the bound, as strtol
  does.
\<close>

definition atol :: "string \<Rightarrow> int" where
  "atol s =
     (let s = dropWhile (\<lambda>c. c = CHR '' '' \<or> (9 \<le> (of_char c :: nat) \<and> of_char c \<le> (13 :: nat))) s;
          digits = (case s of c # cs \<Rightarrow> if c = CHR ''-'' \<or> c = CHR ''+'' then cs else s | [] \<Rightarrow> []);
          v = int (str_nat (takeWhile ISDIGIT digits))
      in max (- (2 ^ 63)) (min (2 ^ 63 - 1) (if take 1 s = ''-'' then - v else v)))"

definition parse_retry_after_value :: "string option \<Rightarrow> 32 word" where
  "parse_retry_after_value retry_after =
     (case retry_after of
        None \<Rightarrow> of_nat PROV_GET_THROTTLE_TIME
      | Some s \<Rightarrow>
          if s \<noteq> [] \<and> ISDIGIT (hd s) then
            (let r = of_int (atol s) in
             if r < of_nat PROV_GET_THROTTLE_TIME \<or> r > of_nat MAX_PROV_GET_THROTTLE_TIME then of_nat PROV_GET_THROTTLE_TIME else r)
          else of_nat PROV_GET_THROTTLE_TIME)"

text \<open>The text after the key and one more character; the key must not end the topic.\<close>

fun find_retry_after :: "string \<Rightarrow> string option" where
  "find_retry_after [] = None"
| "find_retry_after (c # cs) =
     (let retry_len = length RETRY_AFTER_KEY_VALUE in
      if length (c # cs) > retry_len
      then (if take retry_len (c # cs) = RETRY_AFTER_KEY_VALUE then Some (drop (retry_len + 1) (c # cs)) else find_retry_after cs)
      else None)"

definition get_retry_after_property ::
  "string \<Rightarrow> ('q, 'io, 'e, 'm) PROV_TRANSPORT_MQTT_INFO_scheme \<Rightarrow> ('q, 'io, 'e, 'm) PROV_TRANSPORT_MQTT_INFO_scheme" where
  "get_retry_after_property topic t =
     (case find_retry_after topic of
        None \<Rightarrow> t
      | Some v \<Rightarrow> t\<lparr>retry_after_value := parse_retry_after_value (Some v)\<rparr>)"

section \<open>What the library reports\<close>

text \<open>memcmp compares up to the first difference: a topic shorter than the prefix is different.\<close>

definition transient_reply :: "string \<Rightarrow> bool" where
  "transient_reply topic \<longleftrightarrow>
     take (length MQTT_TOPIC_STATUS_PREFIX) topic = MQTT_TOPIC_STATUS_PREFIX
     \<and> atol (drop (length MQTT_TOPIC_STATUS_PREFIX) topic) \<ge> PROV_STATUS_CODE_TRANSIENT_ERROR"

definition read_topic ::
  "string option \<Rightarrow> ('q, 'io, 'e, 'm) PROV_TRANSPORT_MQTT_INFO_scheme \<Rightarrow> ('q, 'io, 'e, 'm) PROV_TRANSPORT_MQTT_INFO_scheme" where
  "read_topic topic t =
     (case topic of
        None \<Rightarrow> mqtt_failed t
      | Some topic_resp \<Rightarrow>
          get_retry_after_property topic_resp
            (if transient_reply topic_resp then t\<lparr>transport_state := TRANSPORT_CLIENT_STATE_TRANSIENT\<rparr> else t))"

definition mqtt_notification_callback ::
  "('e, 'n) os_scheme \<Rightarrow> string option \<Rightarrow> char list option \<Rightarrow> ('q, 'io, 'e, 'm) PROV_TRANSPORT_MQTT_INFO_scheme \<Rightarrow> 'e
     \<Rightarrow> ('q, 'io, 'e, 'm) PROV_TRANSPORT_MQTT_INFO_scheme \<times> 'e" where
  "mqtt_notification_callback os topic payload t e =
     (let t = read_topic topic t in
      if (case topic of None \<Rightarrow> False | Some topic_resp \<Rightarrow> transient_reply topic_resp) then (t, e)
      else case payload of
        None \<Rightarrow> (mqtt_failed t, e)
      | Some message \<Rightarrow>
          (case malloc_of os message e of
             (None, e) \<Rightarrow> (mqtt_failed (t\<lparr>payload_data := None\<rparr>), e)
           | (Some data, e) \<Rightarrow>
               (t\<lparr>payload_data := Some data,
                  transport_state := (if transport_state t = TRANSPORT_CLIENT_STATE_REG_SENT
                                      then TRANSPORT_CLIENT_STATE_REG_RECV else TRANSPORT_CLIENT_STATE_STATUS_RECV)\<rparr>, e)))"

text \<open>One report of the library; the answer is the error the client is told, if any.\<close>

primrec mqtt_callback ::
  "('e, 'n) os_scheme \<Rightarrow> mqtt_event \<Rightarrow> ('q, 'io, 'e, 'm) PROV_TRANSPORT_MQTT_INFO_scheme \<Rightarrow> 'e
     \<Rightarrow> PROV_DEVICE_TRANSPORT_ERROR option \<times> ('q, 'io, 'e, 'm) PROV_TRANSPORT_MQTT_INFO_scheme \<times> 'e" where
  "mqtt_callback os (Connack code) t e =
     (case code of
        None \<Rightarrow> (None, mqtt_failed t, e)
      | Some c \<Rightarrow>
          if c = CONNECTION_ACCEPTED then (None, t\<lparr>mqtt_state := MQTT_STATE_CONNECTED\<rparr>, e)
          else (Some PROV_DEVICE_ERROR_KEY_UNAUTHORIZED, mqtt_failed t, e))"
| "mqtt_callback os (Suback qos) t e =
     (None, if (case qos of None \<Rightarrow> False | Some failures \<Rightarrow> True \<notin> set failures)
            then t\<lparr>mqtt_state := MQTT_STATE_SUBSCRIBED\<rparr> else mqtt_failed t, e)"
| "mqtt_callback os OtherAck t e = (None, t, e)"
| "mqtt_callback os MqttError t e = (None, mqtt_failed t, e)"
| "mqtt_callback os (Published topic payload) t e = (None, mqtt_notification_callback os topic payload t e)"

primrec mqtt_callbacks ::
  "('e, 'n) os_scheme \<Rightarrow> mqtt_event list \<Rightarrow> ('q, 'io, 'e, 'm) PROV_TRANSPORT_MQTT_INFO_scheme \<Rightarrow> 'e
     \<Rightarrow> (unit, ('q, 'io, 'e, 'm) PROV_TRANSPORT_MQTT_INFO_scheme, 'e) prov_work" where
  "mqtt_callbacks os [] t e = Returns () t e"
| "mqtt_callbacks os (ev # evs) t e =
     (case mqtt_callback os ev t e of
        (None, t, e) \<Rightarrow> mqtt_callbacks os evs t e
      | (Some err, t, e) \<Rightarrow> Calls (TransportError err) t e (\<lambda>_ t e. mqtt_callbacks os evs t e))"

text \<open>A call of the client, with what it reports.\<close>

definition on_mqtt ::
  "('e, 'n) os_scheme \<Rightarrow> ('r, 'q, 'e) mqtt_fun \<Rightarrow> ('q, 'io, 'e, 'm) PROV_TRANSPORT_MQTT_INFO_scheme \<Rightarrow> 'e
     \<Rightarrow> ('r, ('q, 'io, 'e, 'm) PROV_TRANSPORT_MQTT_INFO_scheme, 'e) prov_work" where
  "on_mqtt os f t e =
     (case f (mqtt_client t) e of
        ((r, evs), q, e) \<Rightarrow> work_bind (mqtt_callbacks os evs (t\<lparr>mqtt_client := q\<rparr>) e) (\<lambda>_ t e. Returns r t e))"

section \<open>Messages\<close>

text \<open>An answer of another kind than the callback gives does not occur.\<close>

definition send_mqtt_message ::
  "('e, 'n) os_scheme \<Rightarrow> ('q, 'io, 'e, 'x) mqtt_api_scheme \<Rightarrow> string \<Rightarrow> ('q, 'io, 'e, 'm) PROV_TRANSPORT_MQTT_INFO_scheme \<Rightarrow> 'e
     \<Rightarrow> (bool, ('q, 'io, 'e, 'm) PROV_TRANSPORT_MQTT_INFO_scheme, 'e) prov_work" where
  "send_mqtt_message os mq msg_topic t e =
     (if \<not> json_callbacks t then Breaks
      else Calls (CreatePayload None None) t e (\<lambda>a t e.
        case a of
          CreatedPayload (Some prov_payload) \<Rightarrow>
            (case get_next_packet_id t of (n, t) \<Rightarrow>
             (case mqttmessage_create_in_place mq n msg_topic prov_payload e of (created, e) \<Rightarrow>
                if \<not> created then Returns False t e
                else on_mqtt os (mqtt_client_publish mq n msg_topic prov_payload) t e))
        | _ \<Rightarrow> Returns False t e))"

definition send_register_message ::
  "('e, 'n) os_scheme \<Rightarrow> ('q, 'io, 'e, 'x) mqtt_api_scheme \<Rightarrow> ('q, 'io, 'e, 'm) PROV_TRANSPORT_MQTT_INFO_scheme \<Rightarrow> 'e
     \<Rightarrow> (bool, ('q, 'io, 'e, 'm) PROV_TRANSPORT_MQTT_INFO_scheme, 'e) prov_work" where
  "send_register_message os mq t e =
     (case malloc_of os (register_topic (packet_id t)) e of
        (None, e) \<Rightarrow> Returns False t e
      | (Some msg_topic, e) \<Rightarrow> send_mqtt_message os mq msg_topic t e)"

definition send_operation_status_message ::
  "('e, 'n) os_scheme \<Rightarrow> ('q, 'io, 'e, 'x) mqtt_api_scheme \<Rightarrow> ('q, 'io, 'e, 'm) PROV_TRANSPORT_MQTT_INFO_scheme \<Rightarrow> 'e
     \<Rightarrow> (bool, ('q, 'io, 'e, 'm) PROV_TRANSPORT_MQTT_INFO_scheme, 'e) prov_work" where
  "send_operation_status_message os mq t e =
     (case mqtt_operation_id t of
        None \<Rightarrow> Breaks
      | Some op_id \<Rightarrow>
          (case malloc_of os (status_topic (packet_id t) op_id) e of
             (None, e) \<Rightarrow> Returns False t e
           | (Some msg_topic, e) \<Rightarrow> send_mqtt_message os mq msg_topic t e))"

definition subscribe_to_topic ::
  "('e, 'n) os_scheme \<Rightarrow> ('q, 'io, 'e, 'x) mqtt_api_scheme \<Rightarrow> ('q, 'io, 'e, 'm) PROV_TRANSPORT_MQTT_INFO_scheme \<Rightarrow> 'e
     \<Rightarrow> (bool, ('q, 'io, 'e, 'm) PROV_TRANSPORT_MQTT_INFO_scheme, 'e) prov_work" where
  "subscribe_to_topic os mq t e =
     (case get_next_packet_id t of (n, t) \<Rightarrow> on_mqtt os (mqtt_client_subscribe mq n MQTT_SUBSCRIBE_TOPIC) t e)"

section \<open>The connection\<close>

definition construct_username ::
  "('e, 'n) os_scheme \<Rightarrow> ('q, 'io, 'e, 'm) PROV_TRANSPORT_MQTT_INFO_scheme \<Rightarrow> 'e \<Rightarrow> (string option \<times> 'e) run" where
  "construct_username os t e =
     (case mqtt_registration_id t of
        None \<Rightarrow> Fault
      | Some reg \<Rightarrow> Done (malloc_of os (mqtt_user (mqtt_scope_id t) reg (api_version t)) e))"

definition create_transport_io_object ::
  "('q, 'io, 'e, 'm) PROV_TRANSPORT_MQTT_INFO_scheme \<Rightarrow> 'e \<Rightarrow> bool \<times> ('q, 'io, 'e, 'm) PROV_TRANSPORT_MQTT_INFO_scheme \<times> 'e" where
  "create_transport_io_object t e =
     (if transport_io t \<noteq> None then (True, t, e)
      else
        let transport_proxy = (if host_address (proxy_option t) \<noteq> None then Some (proxy_option t) else None) in
        (case transport_io_cb t (mqtt_hostname t) transport_proxy e of
           (io, e) \<Rightarrow> (io \<noteq> None, t\<lparr>transport_io := io\<rparr>, e)))"

definition drop_transport_io ::
  "('q, 'io, 'e, 'x) mqtt_api_scheme \<Rightarrow> ('q, 'io, 'e, 'm) PROV_TRANSPORT_MQTT_INFO_scheme \<Rightarrow> 'e
     \<Rightarrow> ('q, 'io, 'e, 'm) PROV_TRANSPORT_MQTT_INFO_scheme \<times> 'e" where
  "drop_transport_io mq t e = (t\<lparr>transport_io := None\<rparr>, xio_destroy mq (transport_io t) e)"

text \<open>An option of the io, which exists.\<close>

definition set_io_option ::
  "('q, 'io, 'e, 'x) mqtt_api_scheme \<Rightarrow> string \<Rightarrow> prov_option_value option \<Rightarrow> ('q, 'io, 'e, 'm) PROV_TRANSPORT_MQTT_INFO_scheme \<Rightarrow> 'e
     \<Rightarrow> bool \<times> ('q, 'io, 'e, 'm) PROV_TRANSPORT_MQTT_INFO_scheme \<times> 'e" where
  "set_io_option mq option_name v t e =
     (case transport_io t of
        None \<Rightarrow> (False, t, e)
      | Some io \<Rightarrow> (case xio_setoption mq option_name v io e of (ok, io, e) \<Rightarrow> (ok, t\<lparr>transport_io := Some io\<rparr>, e)))"

text \<open>A failure that drops the io.\<close>

definition lose_io ::
  "('q, 'io, 'e, 'x) mqtt_api_scheme \<Rightarrow> ('q, 'io, 'e, 'm) PROV_TRANSPORT_MQTT_INFO_scheme \<Rightarrow> 'e
     \<Rightarrow> (bool, ('q, 'io, 'e, 'm) PROV_TRANSPORT_MQTT_INFO_scheme, 'e) prov_work" where
  "lose_io mq t e = (case drop_transport_io mq t e of (t, e) \<Rightarrow> Returns False t e)"

definition set_x509_identity ::
  "('q, 'io, 'e, 'x) mqtt_api_scheme \<Rightarrow> ('q, 'io, 'e, 'm) PROV_TRANSPORT_MQTT_INFO_scheme \<Rightarrow> 'e
     \<Rightarrow> (bool, ('q, 'io, 'e, 'm) PROV_TRANSPORT_MQTT_INFO_scheme, 'e) prov_work" where
  "set_x509_identity mq t e =
     (case (x509_cert t, private_key t) of
        (Some cert, Some key) \<Rightarrow>
          (case set_io_option mq (XIO_X509_ECC_CERT mq) (Some (TextValue cert)) t e of (ok, t, e) \<Rightarrow>
             if \<not> ok then lose_io mq t e
             else (case set_io_option mq (XIO_X509_ECC_KEY mq) (Some (TextValue key)) t e of (ok, t, e) \<Rightarrow>
               if \<not> ok then Calls (TransportError PROV_DEVICE_ERROR_KEY_FAIL) t e (\<lambda>_ t e. lose_io mq t e)
               else Returns True t e))
      | _ \<Rightarrow> lose_io mq t e)"

definition construct_transport ::
  "('q, 'io, 'e, 'x) mqtt_api_scheme \<Rightarrow> ('q, 'io, 'e, 'm) PROV_TRANSPORT_MQTT_INFO_scheme \<Rightarrow> 'e
     \<Rightarrow> (bool, ('q, 'io, 'e, 'm) PROV_TRANSPORT_MQTT_INFO_scheme, 'e) prov_work" where
  "construct_transport mq t e =
     (case create_transport_io_object t e of (created, t, e) \<Rightarrow>
        if \<not> created then Returns False t e
        else (case (case mqtt_certificate t of
                      None \<Rightarrow> (True, t, e)
                    | Some c \<Rightarrow> set_io_option mq (XIO_TRUSTED_CERT mq) (Some (TextValue c)) t e) of (trusted, t, e) \<Rightarrow>
          if \<not> trusted then lose_io mq t e
          else if mqtt_hsm_type t = TRANSPORT_HSM_TYPE_X509 then set_x509_identity mq t e
          else Returns True t e))"

definition connect_client ::
  "('e, 'n) os_scheme \<Rightarrow> ('q, 'io, 'e, 'x) mqtt_api_scheme \<Rightarrow> string \<Rightarrow> string option
     \<Rightarrow> ('q, 'io, 'e, 'm) PROV_TRANSPORT_MQTT_INFO_scheme \<Rightarrow> 'e
     \<Rightarrow> (bool, ('q, 'io, 'e, 'm) PROV_TRANSPORT_MQTT_INFO_scheme, 'e) prov_work" where
  "connect_client os mq username_info password t e =
     (let t = t\<lparr>mqtt_client := mqtt_client_set_trace mq (log_trace t) (mqtt_client t)\<rparr>;
          options = \<lparr>mqtt_client_id = mqtt_registration_id t, mqtt_username = username_info,
                     mqtt_password = password, mqtt_log_trace = log_trace t\<rparr> in
      work_bind (on_mqtt os (mqtt_client_connect mq (transport_io t) options) t e) (\<lambda>connected t e.
        if connected then Returns True t e else lose_io mq t e))"

definition create_connection ::
  "('e, 'n) os_scheme \<Rightarrow> ('q, 'io, 'e, 'x) mqtt_api_scheme \<Rightarrow> ('q, 'io, 'e, 'm) PROV_TRANSPORT_MQTT_INFO_scheme \<Rightarrow> 'e
     \<Rightarrow> (bool, ('q, 'io, 'e, 'm) PROV_TRANSPORT_MQTT_INFO_scheme, 'e) prov_work" where
  "create_connection os mq t e =
     (case construct_username os t e of
        Done (Some username_info, e) \<Rightarrow>
          work_bind (construct_transport mq t e) (\<lambda>constructed t e.
            if \<not> constructed then Returns False t e
            else if mqtt_hsm_type t = TRANSPORT_HSM_TYPE_SYMM_KEY then
              (if \<not> open_callbacks t then Breaks
               else Calls (Challenge None (Some ''registration'')) t e (\<lambda>a t e.
                 case a of
                   Token (Some password) \<Rightarrow> connect_client os mq username_info (Some password) t e
                 | _ \<Rightarrow> lose_io mq t e))
            else connect_client os mq username_info None t e)
      | Done (None, e) \<Rightarrow> Returns False t e
      | _ \<Rightarrow> Breaks)"

section \<open>Creation, destruction, opening and closing\<close>

definition no_proxy :: HTTP_PROXY_OPTIONS where
  "no_proxy = \<lparr>host_address = None, proxy_port = 0, proxy_username = None, proxy_password = None\<rparr>"

definition prov_transport_common_mqtt_create ::
  "('e, 'n) os_scheme \<Rightarrow> ('q, 'io, 'e, 'x) mqtt_api_scheme \<Rightarrow> string \<Rightarrow> TRANSPORT_HSM_TYPE \<Rightarrow> string \<Rightarrow> string
     \<Rightarrow> (string \<Rightarrow> HTTP_PROXY_OPTIONS option \<Rightarrow> 'e \<Rightarrow> 'io option \<times> 'e) \<Rightarrow> 'e
     \<Rightarrow> ('q, 'io, 'e) PROV_TRANSPORT_MQTT_INFO option \<times> 'e" where
  "prov_transport_common_mqtt_create os mq uri ty scope version tio e =
     (if ty = TRANSPORT_HSM_TYPE_TPM then (None, e)
      else or_null (malloc_of os () e) (\<lambda>_ e.
           or_null (malloc_of os uri e) (\<lambda>hostname e.
           or_null (malloc_of os version e) (\<lambda>version e.
           or_null (malloc_of os scope e) (\<lambda>scope e.
           or_null (mqtt_client_init mq e) (\<lambda>client e.
             (Some \<lparr>open_callbacks = False, json_callbacks = False, mqtt_client = client, mqtt_hostname = hostname,
                proxy_option = no_proxy, x509_cert = None, private_key = None, mqtt_certificate = None,
                mqtt_registration_id = None, mqtt_scope_id = scope, mqtt_operation_id = None, api_version = version,
                payload_data = None, log_trace = False, packet_id = 0, mqtt_hsm_type = ty, transport_io_cb = tio,
                transport_state = TRANSPORT_CLIENT_STATE_IDLE, mqtt_state = MQTT_STATE_IDLE, transport_io = None,
                retry_after_value = of_nat PROV_GET_THROTTLE_TIME\<rparr>, e)))))))"

definition prov_transport_common_mqtt_destroy ::
  "('q, 'io, 'e, 'x) mqtt_api_scheme \<Rightarrow> ('q, 'io, 'e, 'm) PROV_TRANSPORT_MQTT_INFO_scheme option \<Rightarrow> 'e \<Rightarrow> 'e" where
  "prov_transport_common_mqtt_destroy mq handle e =
     (case handle of
        None \<Rightarrow> e
      | Some t \<Rightarrow>
          let e = mqtt_client_deinit mq (mqtt_client t) e in
          if transport_io t \<noteq> None then xio_destroy mq (transport_io t) e else e)"

text \<open>The callbacks are those of the client, none of them NULL; no key of a TPM may come with them.\<close>

definition prov_transport_common_mqtt_open ::
  "('e, 'n) os_scheme \<Rightarrow> string option \<Rightarrow> char list option \<Rightarrow> char list option
     \<Rightarrow> ('q, 'io, 'e, 'm) PROV_TRANSPORT_MQTT_INFO_scheme \<Rightarrow> 'e
     \<Rightarrow> (bool, ('q, 'io, 'e, 'm) PROV_TRANSPORT_MQTT_INFO_scheme, 'e) prov_work" where
  "prov_transport_common_mqtt_open os reg ek srk t e =
     (case reg of
        None \<Rightarrow> Returns False t e
      | Some r \<Rightarrow>
          if ek \<noteq> None \<or> srk \<noteq> None then Returns False t e
          else (case malloc_of os r e of
            (None, e) \<Rightarrow> Returns False t e
          | (Some copied, e) \<Rightarrow>
              Returns True (t\<lparr>mqtt_registration_id := Some copied, open_callbacks := True, mqtt_state := MQTT_STATE_DISCONNECTED\<rparr>) e))"

text \<open>While it closes, the reports of the library go to the client as notices.\<close>

primrec closing_callbacks ::
  "('e, 'n) os_scheme \<Rightarrow> mqtt_event list \<Rightarrow> ('q, 'io, 'e, 'm) PROV_TRANSPORT_MQTT_INFO_scheme \<Rightarrow> 'e
     \<Rightarrow> prov_notice list \<times> ('q, 'io, 'e, 'm) PROV_TRANSPORT_MQTT_INFO_scheme \<times> 'e" where
  "closing_callbacks os [] t e = ([], t, e)"
| "closing_callbacks os (ev # evs) t e =
     (case mqtt_callback os ev t e of (err, t, e) \<Rightarrow>
      case closing_callbacks os evs t e of (notices, t, e) \<Rightarrow>
        ((case err of None \<Rightarrow> [] | Some x \<Rightarrow> [ErrorNotice x]) @ notices, t, e))"

definition closing_mqtt ::
  "('e, 'n) os_scheme \<Rightarrow> ('r, 'q, 'e) mqtt_fun \<Rightarrow> ('q, 'io, 'e, 'm) PROV_TRANSPORT_MQTT_INFO_scheme \<Rightarrow> 'e
     \<Rightarrow> 'r \<times> prov_notice list \<times> ('q, 'io, 'e, 'm) PROV_TRANSPORT_MQTT_INFO_scheme \<times> 'e" where
  "closing_mqtt os f t e =
     (case f (mqtt_client t) e of ((r, evs), q, e) \<Rightarrow> (r, closing_callbacks os evs (t\<lparr>mqtt_client := q\<rparr>) e))"

definition prov_transport_common_mqtt_close ::
  "('e, 'n) os_scheme \<Rightarrow> ('q, 'io, 'e, 'x) mqtt_api_scheme \<Rightarrow> ('q, 'io, 'e, 'm) PROV_TRANSPORT_MQTT_INFO_scheme \<Rightarrow> 'e
     \<Rightarrow> prov_notice list \<times> ('q, 'io, 'e, 'm) PROV_TRANSPORT_MQTT_INFO_scheme \<times> 'e" where
  "prov_transport_common_mqtt_close os mq t e =
     (case closing_mqtt os (mqtt_client_disconnect mq) (t\<lparr>mqtt_registration_id := None\<rparr>) e of (disconnected, notices, t, e) \<Rightarrow>
      case (if disconnected then closing_mqtt os (mqtt_client_dowork mq) t e else ((), [], t, e)) of (_, later, t, e) \<Rightarrow>
      case drop_transport_io mq t e of (t, e) \<Rightarrow>
        (notices @ later, t\<lparr>mqtt_state := MQTT_STATE_IDLE\<rparr>, e))"

section \<open>Registering and asking for the status\<close>

definition prov_transport_common_mqtt_register_device ::
  "('q, 'io, 'e, 'm) PROV_TRANSPORT_MQTT_INFO_scheme \<Rightarrow> 'e
     \<Rightarrow> (bool, ('q, 'io, 'e, 'm) PROV_TRANSPORT_MQTT_INFO_scheme, 'e) prov_work" where
  "prov_transport_common_mqtt_register_device t e =
     (if transport_state t = TRANSPORT_CLIENT_STATE_REG_SEND \<or> mqtt_operation_id t \<noteq> None then Returns False t e
      else if transport_state t = TRANSPORT_CLIENT_STATE_ERROR then Returns False t e
      else Returns True (t\<lparr>transport_state := TRANSPORT_CLIENT_STATE_REG_SEND, json_callbacks := True\<rparr>) e)"

definition prov_transport_common_mqtt_get_operation_status ::
  "('q, 'io, 'e, 'm) PROV_TRANSPORT_MQTT_INFO_scheme \<Rightarrow> 'e
     \<Rightarrow> (bool, ('q, 'io, 'e, 'm) PROV_TRANSPORT_MQTT_INFO_scheme, 'e) prov_work" where
  "prov_transport_common_mqtt_get_operation_status t e =
     (if mqtt_operation_id t = None then Returns False t e
      else if transport_state t = TRANSPORT_CLIENT_STATE_ERROR then Returns False t e
      else Returns True (t\<lparr>transport_state := TRANSPORT_CLIENT_STATE_STATUS_SEND\<rparr>) e)"

section \<open>The turn of the transport\<close>

definition sent_or_failed ::
  "PROV_TRANSPORT_STATE \<Rightarrow> bool \<Rightarrow> ('q, 'io, 'e, 'm) PROV_TRANSPORT_MQTT_INFO_scheme \<Rightarrow> 'e
     \<Rightarrow> (unit, ('q, 'io, 'e, 'm) PROV_TRANSPORT_MQTT_INFO_scheme, 'e) prov_work" where
  "sent_or_failed st sent t e = Returns () (if sent then t\<lparr>transport_state := st\<rparr> else mqtt_failed t) e"

definition mqtt_idle ::
  "prov_answer \<Rightarrow> ('q, 'io, 'e, 'm) PROV_TRANSPORT_MQTT_INFO_scheme \<Rightarrow> 'e
     \<Rightarrow> (unit, ('q, 'io, 'e, 'm) PROV_TRANSPORT_MQTT_INFO_scheme, 'e) prov_work" where
  "mqtt_idle a t e = Returns () (t\<lparr>transport_state := TRANSPORT_CLIENT_STATE_IDLE\<rparr>) e"

text \<open>A reply that was read; the operation id is kept from the first that has one.\<close>

definition handle_reply ::
  "('e, 'n) os_scheme \<Rightarrow> PROV_JSON_INFO \<Rightarrow> ('q, 'io, 'e, 'm) PROV_TRANSPORT_MQTT_INFO_scheme \<Rightarrow> 'e
     \<Rightarrow> (unit, ('q, 'io, 'e, 'm) PROV_TRANSPORT_MQTT_INFO_scheme, 'e) prov_work" where
  "handle_reply os info t e =
     (if prov_status info = PROV_DEVICE_TRANSPORT_STATUS_UNASSIGNED \<or> prov_status info = PROV_DEVICE_TRANSPORT_STATUS_ASSIGNING then
        (case operation_id info of
           None \<Rightarrow> Returns () (mqtt_failed t) e
         | Some op_id \<Rightarrow>
             (case (if mqtt_operation_id t = None then malloc_of os op_id e else (mqtt_operation_id t, e)) of
                (None, e) \<Rightarrow> Returns () (mqtt_failed t) e
              | (Some kept, e) \<Rightarrow>
                  let t = t\<lparr>mqtt_operation_id := Some kept\<rparr> in
                  if \<not> open_callbacks t then mqtt_idle NoAnswer t e
                  else Calls (TransportStatus (prov_status info) (retry_after_value t)) t e mqtt_idle))
      else if prov_status info = PROV_DEVICE_TRANSPORT_STATUS_ASSIGNED then
        if \<not> open_callbacks t then Breaks
        else Calls (RegistrationData PROV_DEVICE_TRANSPORT_RESULT_OK (authorization_key info) (iothub_uri info) (info_device_id info)) t e
          mqtt_idle
      else if prov_status info = PROV_DEVICE_TRANSPORT_STATUS_TRANSIENT then Returns () t e
      else Returns () (mqtt_failed t) e)"

text \<open>The parser reads the payload, a NULL-terminated copy, up to its first NUL.\<close>

definition read_reply ::
  "('e, 'n) os_scheme \<Rightarrow> ('q, 'io, 'e, 'm) PROV_TRANSPORT_MQTT_INFO_scheme \<Rightarrow> 'e
     \<Rightarrow> (unit, ('q, 'io, 'e, 'm) PROV_TRANSPORT_MQTT_INFO_scheme, 'e) prov_work" where
  "read_reply os t e =
     (if \<not> json_callbacks t then Breaks
      else Calls (ParseReply (map_option (takeWhile (\<lambda>c. c \<noteq> CHR 0x00)) (payload_data t))) t e (\<lambda>a t e.
        case a of
          ParsedReply (Some parse_info) \<Rightarrow> handle_reply os parse_info t e
        | _ \<Rightarrow> Returns () (mqtt_failed t) e))"

definition transport_turn ::
  "('e, 'n) os_scheme \<Rightarrow> ('q, 'io, 'e, 'x) mqtt_api_scheme \<Rightarrow> ('q, 'io, 'e, 'm) PROV_TRANSPORT_MQTT_INFO_scheme \<Rightarrow> 'e
     \<Rightarrow> (unit, ('q, 'io, 'e, 'm) PROV_TRANSPORT_MQTT_INFO_scheme, 'e) prov_work" where
  "transport_turn os mq t e =
     (case transport_state t of
        TRANSPORT_CLIENT_STATE_REG_SEND \<Rightarrow>
          work_bind (send_register_message os mq t e) (sent_or_failed TRANSPORT_CLIENT_STATE_REG_SENT)
      | TRANSPORT_CLIENT_STATE_STATUS_SEND \<Rightarrow>
          work_bind (send_operation_status_message os mq t e) (sent_or_failed TRANSPORT_CLIENT_STATE_STATUS_SENT)
      | TRANSPORT_CLIENT_STATE_REG_RECV \<Rightarrow> read_reply os t e
      | TRANSPORT_CLIENT_STATE_STATUS_RECV \<Rightarrow> read_reply os t e
      | TRANSPORT_CLIENT_STATE_TRANSIENT \<Rightarrow>
          if \<not> open_callbacks t then mqtt_idle NoAnswer t e
          else Calls (TransportStatus PROV_DEVICE_TRANSPORT_STATUS_TRANSIENT (retry_after_value t)) t e mqtt_idle
      | TRANSPORT_CLIENT_STATE_ERROR \<Rightarrow>
          if \<not> open_callbacks t then Breaks
          else Calls (RegistrationData PROV_DEVICE_TRANSPORT_RESULT_ERROR None None None) t e (\<lambda>_ t e.
            Returns () (t\<lparr>transport_state := TRANSPORT_CLIENT_STATE_IDLE, mqtt_state := MQTT_STATE_IDLE\<rparr>) e)
      | _ \<Rightarrow> Returns () t e)"

definition connected_turn ::
  "('e, 'n) os_scheme \<Rightarrow> ('q, 'io, 'e, 'x) mqtt_api_scheme \<Rightarrow> ('q, 'io, 'e, 'm) PROV_TRANSPORT_MQTT_INFO_scheme \<Rightarrow> 'e
     \<Rightarrow> (unit, ('q, 'io, 'e, 'm) PROV_TRANSPORT_MQTT_INFO_scheme, 'e) prov_work" where
  "connected_turn os mq t e =
     work_bind (on_mqtt os (mqtt_client_dowork mq) t e) (\<lambda>_ t e.
     work_bind (subscribe_to_topic os mq t e) (\<lambda>subscribed t e.
       if \<not> subscribed then Returns () (mqtt_failed t) e
       else if \<not> open_callbacks t then Breaks
       else Calls (TransportStatus PROV_DEVICE_TRANSPORT_STATUS_CONNECTED (retry_after_value t)) t e (\<lambda>_ t e.
         Returns () (t\<lparr>mqtt_state := MQTT_STATE_SUBSCRIBING\<rparr>) e)))"

definition prov_transport_common_mqtt_dowork ::
  "('e, 'n) os_scheme \<Rightarrow> ('q, 'io, 'e, 'x) mqtt_api_scheme \<Rightarrow> ('q, 'io, 'e, 'm) PROV_TRANSPORT_MQTT_INFO_scheme \<Rightarrow> 'e
     \<Rightarrow> (unit, ('q, 'io, 'e, 'm) PROV_TRANSPORT_MQTT_INFO_scheme, 'e) prov_work" where
  "prov_transport_common_mqtt_dowork os mq t e =
     (if mqtt_state t = MQTT_STATE_DISCONNECTED then
        work_bind (create_connection os mq t e) (\<lambda>created t e.
          Returns () (if created then t\<lparr>mqtt_state := MQTT_STATE_CONNECTING\<rparr> else mqtt_failed t) e)
      else if mqtt_state t = MQTT_STATE_CONNECTED then connected_turn os mq t e
      else if mqtt_state t \<noteq> MQTT_STATE_IDLE then
        work_bind (on_mqtt os (mqtt_client_dowork mq) t e) (\<lambda>_ t e.
          if mqtt_state t = MQTT_STATE_SUBSCRIBED \<or> mqtt_state t = MQTT_STATE_ERROR then transport_turn os mq t e
          else Returns () t e)
      else Returns () t e)"

section \<open>Options\<close>

definition prov_transport_common_mqtt_set_trace ::
  "('q, 'io, 'e, 'x) mqtt_api_scheme \<Rightarrow> bool \<Rightarrow> ('q, 'io, 'e, 'm) PROV_TRANSPORT_MQTT_INFO_scheme \<Rightarrow> 'e
     \<Rightarrow> bool \<times> ('q, 'io, 'e, 'm) PROV_TRANSPORT_MQTT_INFO_scheme \<times> 'e" where
  "prov_transport_common_mqtt_set_trace mq trace_on t e =
     (True, t\<lparr>log_trace := trace_on, mqtt_client := mqtt_client_set_trace mq trace_on (mqtt_client t)\<rparr>, e)"

definition prov_transport_common_mqtt_x509_cert ::
  "('e, 'n) os_scheme \<Rightarrow> string \<Rightarrow> string \<Rightarrow> ('q, 'io, 'e, 'm) PROV_TRANSPORT_MQTT_INFO_scheme \<Rightarrow> 'e
     \<Rightarrow> bool \<times> ('q, 'io, 'e, 'm) PROV_TRANSPORT_MQTT_INFO_scheme \<times> 'e" where
  "prov_transport_common_mqtt_x509_cert os cert key t e =
     (case malloc_of os cert e of
        (None, e) \<Rightarrow> (False, t\<lparr>x509_cert := None, private_key := None\<rparr>, e)
      | (Some c, e) \<Rightarrow>
          (case malloc_of os key e of
             (None, e) \<Rightarrow> (False, t\<lparr>x509_cert := None, private_key := None\<rparr>, e)
           | (Some k, e) \<Rightarrow> (True, t\<lparr>x509_cert := Some c, private_key := Some k\<rparr>, e)))"

definition prov_transport_common_mqtt_set_trusted_cert ::
  "('e, 'n) os_scheme \<Rightarrow> string option \<Rightarrow> ('q, 'io, 'e, 'm) PROV_TRANSPORT_MQTT_INFO_scheme \<Rightarrow> 'e
     \<Rightarrow> bool \<times> ('q, 'io, 'e, 'm) PROV_TRANSPORT_MQTT_INFO_scheme \<times> 'e" where
  "prov_transport_common_mqtt_set_trusted_cert os cert t e =
     (case cert of
        None \<Rightarrow> (False, t, e)
      | Some c \<Rightarrow> (case malloc_of os c e of (copied, e) \<Rightarrow> (copied \<noteq> None, t\<lparr>mqtt_certificate := copied\<rparr>, e)))"

text \<open>A copy of a text that may be NULL, which then stays NULL; the answer says whether it succeeded.\<close>

definition copy_if_given :: "('e, 'n) os_scheme \<Rightarrow> string option \<Rightarrow> 'e \<Rightarrow> (bool \<times> string option) \<times> 'e" where
  "copy_if_given os v e =
     (case v of None \<Rightarrow> ((True, None), e) | Some s \<Rightarrow> (case malloc_of os s e of (c, e) \<Rightarrow> ((c \<noteq> None, c), e)))"

definition prov_transport_common_mqtt_set_proxy ::
  "('e, 'n) os_scheme \<Rightarrow> HTTP_PROXY_OPTIONS option \<Rightarrow> ('q, 'io, 'e, 'm) PROV_TRANSPORT_MQTT_INFO_scheme \<Rightarrow> 'e
     \<Rightarrow> bool \<times> ('q, 'io, 'e, 'm) PROV_TRANSPORT_MQTT_INFO_scheme \<times> 'e" where
  "prov_transport_common_mqtt_set_proxy os proxy t e =
     (case proxy of
        None \<Rightarrow> (False, t, e)
      | Some x \<Rightarrow>
          (case host_address x of
             None \<Rightarrow> (False, t, e)
           | Some host \<Rightarrow>
               if (proxy_username x = None) \<noteq> (proxy_password x = None) then (False, t, e)
               else
                 let cleared = no_proxy\<lparr>proxy_port := proxy_port x\<rparr> in
                 (case malloc_of os host e of
                    (None, e) \<Rightarrow> (False, t\<lparr>proxy_option := cleared\<rparr>, e)
                  | (Some h, e) \<Rightarrow>
                      (case copy_if_given os (proxy_username x) e of ((user_ok, user), e) \<Rightarrow>
                         if \<not> user_ok then (False, t\<lparr>proxy_option := cleared\<rparr>, e)
                         else (case copy_if_given os (proxy_password x) e of ((password_ok, password), e) \<Rightarrow>
                           if \<not> password_ok then (False, t\<lparr>proxy_option := cleared\<rparr>, e)
                           else (True, t\<lparr>proxy_option := \<lparr>host_address = Some h, proxy_port = proxy_port x,
                                    proxy_username = user, proxy_password = password\<rparr>\<rparr>, e))))))"

definition prov_transport_common_mqtt_set_option ::
  "('q, 'io, 'e, 'x) mqtt_api_scheme \<Rightarrow> string \<Rightarrow> prov_option_value option \<Rightarrow> ('q, 'io, 'e, 'm) PROV_TRANSPORT_MQTT_INFO_scheme \<Rightarrow> 'e
     \<Rightarrow> bool \<times> ('q, 'io, 'e, 'm) PROV_TRANSPORT_MQTT_INFO_scheme \<times> 'e" where
  "prov_transport_common_mqtt_set_option mq option_name v t e =
     (case create_transport_io_object t e of (created, t, e) \<Rightarrow>
        if \<not> created then (False, t, e) else set_io_option mq option_name v t e)"

section \<open>The two instances\<close>

definition MQTT_PORT_NUM :: nat where
  "MQTT_PORT_NUM = 8883"

definition MQTT_WS_PORT_NUM :: nat where
  "MQTT_WS_PORT_NUM = 443"

definition io_proxy :: "string \<Rightarrow> nat \<Rightarrow> HTTP_PROXY_OPTIONS \<Rightarrow> HTTP_PROXY_IO_CONFIG" where
  "io_proxy fqdn p x = \<lparr>io_hostname = fqdn, io_port = p, io_proxy_hostname = host_address x, io_proxy_port = proxy_port x,
     io_username = proxy_username x, io_password = proxy_password x\<rparr>"

definition tls_to :: "string \<Rightarrow> nat \<Rightarrow> HTTP_PROXY_OPTIONS option \<Rightarrow> TLSIO_CONFIG" where
  "tls_to fqdn p proxy = \<lparr>tls_hostname = fqdn, tls_port = p, underlying_proxy = map_option (io_proxy fqdn p) proxy\<rparr>"

definition mqtt_transport_io ::
  "('q, 'io, 'e, 'x) mqtt_api_scheme \<Rightarrow> string \<Rightarrow> HTTP_PROXY_OPTIONS option \<Rightarrow> 'e \<Rightarrow> 'io option \<times> 'e" where
  "mqtt_transport_io mq fqdn proxy_info e =
     (if \<not> has_default_tlsio mq then (None, e) else xio_create_tls mq (tls_to fqdn MQTT_PORT_NUM proxy_info) e)"

definition mqtt_transport_ws_io ::
  "('q, 'io, 'e, 'x) mqtt_api_scheme \<Rightarrow> string \<Rightarrow> HTTP_PROXY_OPTIONS option \<Rightarrow> 'e \<Rightarrow> 'io option \<times> 'e" where
  "mqtt_transport_ws_io mq fqdn proxy_info e =
     (if \<not> has_wsio mq \<or> \<not> has_default_tlsio mq then (None, e)
      else xio_create_ws mq \<lparr>ws_hostname = fqdn, ws_port = MQTT_WS_PORT_NUM, ws_resource_name = ''/$iothub/websocket'',
             ws_protocol = ''MQTT'', ws_underlying_tls = tls_to fqdn MQTT_WS_PORT_NUM proxy_info\<rparr> e)"

text \<open>The tables of functions of the two clients differ in the io they create.\<close>

definition mqtt_provider ::
  "('e, 'n) os_scheme \<Rightarrow> ('q, 'io, 'e, 'x) mqtt_api_scheme \<Rightarrow> (string \<Rightarrow> HTTP_PROXY_OPTIONS option \<Rightarrow> 'e \<Rightarrow> 'io option \<times> 'e)
     \<Rightarrow> (('q, 'io, 'e) PROV_TRANSPORT_MQTT_INFO, 'e) PROV_DEVICE_TRANSPORT_PROVIDER" where
  "mqtt_provider os mq tio = \<lparr>
     prov_transport_create = (\<lambda>uri ty scope version. prov_transport_common_mqtt_create os mq uri ty scope version tio),
     prov_transport_destroy = (\<lambda>t e. ([], prov_transport_common_mqtt_destroy mq t e)),
     prov_transport_open = prov_transport_common_mqtt_open os,
     prov_transport_close = prov_transport_common_mqtt_close os mq,
     prov_transport_register = prov_transport_common_mqtt_register_device,
     prov_transport_get_op_status = prov_transport_common_mqtt_get_operation_status,
     prov_transport_dowork = prov_transport_common_mqtt_dowork os mq,
     prov_transport_set_trace = prov_transport_common_mqtt_set_trace mq,
     prov_transport_x509_cert = prov_transport_common_mqtt_x509_cert os,
     prov_transport_trusted_cert = prov_transport_common_mqtt_set_trusted_cert os,
     prov_transport_set_proxy = prov_transport_common_mqtt_set_proxy os,
     prov_transport_set_option = prov_transport_common_mqtt_set_option mq \<rparr>"

definition Prov_Device_MQTT_Protocol ::
  "('e, 'n) os_scheme \<Rightarrow> ('q, 'io, 'e, 'x) mqtt_api_scheme
     \<Rightarrow> (('q, 'io, 'e) PROV_TRANSPORT_MQTT_INFO, 'e) PROV_DEVICE_TRANSPORT_PROVIDER" where
  "Prov_Device_MQTT_Protocol os mq = mqtt_provider os mq (mqtt_transport_io mq)"

definition Prov_Device_MQTT_WS_Protocol ::
  "('e, 'n) os_scheme \<Rightarrow> ('q, 'io, 'e, 'x) mqtt_api_scheme
     \<Rightarrow> (('q, 'io, 'e) PROV_TRANSPORT_MQTT_INFO, 'e) PROV_DEVICE_TRANSPORT_PROVIDER" where
  "Prov_Device_MQTT_WS_Protocol os mq = mqtt_provider os mq (mqtt_transport_ws_io mq)"

end
