(* ===== verification/ProvReply.thy ===== *)
theory ProvReply
  imports ProvData
begin

text \<open>
  The JSON of the provisioning client (prov\_device\_ll\_client.c): what it reads in a reply of the
  service, and the payload of its requests. The context of these callbacks is the handle the client
  registered with them, which is not NULL.
\<close>

section \<open>Reading fields\<close>

definition retrieve_status_type :: "string \<Rightarrow> PROV_DEVICE_TRANSPORT_STATUS" where
  "retrieve_status_type s =
     (if s = ''unassigned'' then PROV_DEVICE_TRANSPORT_STATUS_UNASSIGNED
      else if s = ''assigning'' then PROV_DEVICE_TRANSPORT_STATUS_ASSIGNING
      else if s = ''assigned'' then PROV_DEVICE_TRANSPORT_STATUS_ASSIGNED
      else if s = ''failed'' then PROV_DEVICE_TRANSPORT_STATUS_ERROR
      else if s = ''blacklisted'' then PROV_DEVICE_TRANSPORT_STATUS_BLACKLISTED
      else if s = ''disabled'' then PROV_DEVICE_TRANSPORT_STATUS_DISABLED
      else PROV_DEVICE_TRANSPORT_STATUS_ERROR)"

definition retrieve_json_number :: "('j, 'e) json_api \<Rightarrow> 'j \<Rightarrow> string \<Rightarrow> int" where
  "retrieve_json_number js obj field =
     (case json_object_get_value js obj field of None \<Rightarrow> 0 | Some v \<Rightarrow> json_int_of_number js v)"

definition retrieve_json_payload ::
  "('j, 'e) json_api \<Rightarrow> 'j \<Rightarrow> ('a, 't, 'e, 'm) PROV_INSTANCE_INFO_scheme \<Rightarrow> ('a, 't, 'e, 'm) PROV_INSTANCE_INFO_scheme" where
  "retrieve_json_payload js obj p =
     (case json_object_get_value js obj ''payload'' of
        None \<Rightarrow> p
      | Some v \<Rightarrow>
          (case on_prov_env (json_serialize_to_string js v) p of (s, p) \<Rightarrow> p\<lparr>custom_response_data := s\<rparr>))"

definition retrieve_json_string ::
  "('e, 'n) os_scheme \<Rightarrow> ('j, 'e) json_api \<Rightarrow> 'j \<Rightarrow> string \<Rightarrow> 'e \<Rightarrow> string option \<times> 'e" where
  "retrieve_json_string os js obj field e =
     (case json_object_get_value js obj field of
        None \<Rightarrow> (None, e)
      | Some v \<Rightarrow> strcpy_of os (json_value_get_string js v) e)"

section \<open>Replies of the service\<close>

text \<open>A reply that is given up, with the reason.\<close>

definition refuse :: "PROV_DEVICE_RESULT \<Rightarrow> ('a, 't, 'e, 'm) PROV_INSTANCE_INFO_scheme
     \<Rightarrow> 'r option \<times> ('a, 't, 'e, 'm) PROV_INSTANCE_INFO_scheme" where
  "refuse reason p = (None, p\<lparr>error_reason := reason\<rparr>)"

definition empty_info :: "PROV_DEVICE_TRANSPORT_STATUS \<Rightarrow> PROV_JSON_INFO" where
  "empty_info st = \<lparr>prov_status = st, operation_id = None, authorization_key = None, info_key_name = None,
     iothub_uri = None, info_device_id = None\<rparr>"

text \<open>The status; without one a TPM is being challenged.\<close>

definition reply_status :: "('j, 'e) json_api \<Rightarrow> PROV_AUTH_TYPE \<Rightarrow> 'j \<Rightarrow> PROV_DEVICE_TRANSPORT_STATUS" where
  "reply_status js ty obj =
     (case json_object_get_value js obj ''status'' of
        None \<Rightarrow> (if ty = PROV_AUTH_TYPE_TPM then PROV_DEVICE_TRANSPORT_STATUS_UNASSIGNED
                 else PROV_DEVICE_TRANSPORT_STATUS_ERROR)
      | Some v \<Rightarrow> (case json_value_get_string js v of
                     None \<Rightarrow> PROV_DEVICE_TRANSPORT_STATUS_ERROR
                   | Some s \<Rightarrow> retrieve_status_type s))"

definition reply_unassigned ::
  "('a, 't, 'j, 'e, 'x) prov_client_api_scheme \<Rightarrow> 'j \<Rightarrow> ('a, 't, 'e, 'm) PROV_INSTANCE_INFO_scheme
     \<Rightarrow> PROV_JSON_INFO option \<times> ('a, 't, 'e, 'm) PROV_INSTANCE_INFO_scheme" where
  "reply_unassigned api obj p =
     (case json_object_get_value (p_json api) obj ''authenticationKey'' of
        None \<Rightarrow> refuse PROV_DEVICE_RESULT_PARSING p
      | Some auth_key \<Rightarrow>
          (case on_prov_env (base64_decode (p_crypto api) (json_value_get_string (p_json api) auth_key)) p of
             (None, p) \<Rightarrow> refuse PROV_DEVICE_RESULT_MEMORY p
           | (Some nonce, p) \<Rightarrow>
               (case on_prov_env (retrieve_json_string (p_os api) (p_json api) obj ''keyName'') p of
                  (None, p) \<Rightarrow> refuse PROV_DEVICE_RESULT_PARSING p
                | (Some n, p) \<Rightarrow>
                    (Some ((empty_info PROV_DEVICE_TRANSPORT_STATUS_UNASSIGNED)
                       \<lparr>authorization_key := Some nonce, info_key_name := Some n\<rparr>), p))))"

definition reply_assigning ::
  "('a, 't, 'j, 'e, 'x) prov_client_api_scheme \<Rightarrow> 'j \<Rightarrow> ('a, 't, 'e, 'm) PROV_INSTANCE_INFO_scheme
     \<Rightarrow> PROV_JSON_INFO option \<times> ('a, 't, 'e, 'm) PROV_INSTANCE_INFO_scheme" where
  "reply_assigning api obj p =
     (case on_prov_env (retrieve_json_string (p_os api) (p_json api) obj ''operationId'') p of
        (None, p) \<Rightarrow> refuse PROV_DEVICE_RESULT_PARSING p
      | (Some i, p) \<Rightarrow> (Some ((empty_info PROV_DEVICE_TRANSPORT_STATUS_ASSIGNING)\<lparr>operation_id := Some i\<rparr>), p))"

text \<open>The key for a TPM, in the node of the TPM in the registration state.\<close>

definition reply_tpm_key ::
  "('a, 't, 'j, 'e, 'x) prov_client_api_scheme \<Rightarrow> 'j \<Rightarrow> ('a, 't, 'e, 'm) PROV_INSTANCE_INFO_scheme
     \<Rightarrow> char list option option \<times> ('a, 't, 'e, 'm) PROV_INSTANCE_INFO_scheme" where
  "reply_tpm_key api reg p =
     (if hsm_type p \<noteq> PROV_AUTH_TYPE_TPM then (Some None, p)
      else case json_object_get_object (p_json api) reg ''tpm'' of
        None \<Rightarrow> refuse PROV_DEVICE_RESULT_PARSING p
      | Some tpm \<Rightarrow>
          (case json_object_get_value (p_json api) tpm ''authenticationKey'' of
             None \<Rightarrow> refuse PROV_DEVICE_RESULT_PARSING p
           | Some auth_key \<Rightarrow>
               (case json_value_get_string (p_json api) auth_key of
                  None \<Rightarrow> refuse PROV_DEVICE_RESULT_MEMORY p
                | Some nonce \<Rightarrow>
                    (case on_prov_env (base64_decode (p_crypto api) (Some nonce)) p of
                       (None, p) \<Rightarrow> refuse PROV_DEVICE_RESULT_MEMORY p
                     | (Some k, p) \<Rightarrow> (Some (Some k), p)))))"

definition reply_assigned ::
  "('a, 't, 'j, 'e, 'x) prov_client_api_scheme \<Rightarrow> 'j \<Rightarrow> ('a, 't, 'e, 'm) PROV_INSTANCE_INFO_scheme
     \<Rightarrow> PROV_JSON_INFO option \<times> ('a, 't, 'e, 'm) PROV_INSTANCE_INFO_scheme" where
  "reply_assigned api obj p =
     (case json_object_get_object (p_json api) obj ''registrationState'' of
        None \<Rightarrow> refuse PROV_DEVICE_RESULT_PARSING p
      | Some reg \<Rightarrow>
          (case reply_tpm_key api reg p of
             (None, p) \<Rightarrow> (None, p)
           | (Some key, p) \<Rightarrow>
               (case on_prov_env (retrieve_json_string (p_os api) (p_json api) reg ''assignedHub'') p of
                  (None, p) \<Rightarrow> refuse PROV_DEVICE_RESULT_PARSING p
                | (Some hub, p) \<Rightarrow>
                    (case on_prov_env (retrieve_json_string (p_os api) (p_json api) reg ''deviceId'') p of
                       (None, p) \<Rightarrow> refuse PROV_DEVICE_RESULT_PARSING p
                     | (Some dev, p) \<Rightarrow>
                         (Some ((empty_info PROV_DEVICE_TRANSPORT_STATUS_ASSIGNED)
                            \<lparr>authorization_key := key, iothub_uri := Some hub, info_device_id := Some dev\<rparr>),
                          retrieve_json_payload (p_json api) reg p)))))"

definition reply_error ::
  "('a, 't, 'j, 'e, 'x) prov_client_api_scheme \<Rightarrow> 'j \<Rightarrow> ('a, 't, 'e, 'm) PROV_INSTANCE_INFO_scheme
     \<Rightarrow> PROV_JSON_INFO option \<times> ('a, 't, 'e, 'm) PROV_INSTANCE_INFO_scheme" where
  "reply_error api obj p =
     (case json_object_get_object (p_json api) obj ''registrationState'' of
        None \<Rightarrow> refuse PROV_DEVICE_RESULT_DEV_AUTH_ERROR p
      | Some reg \<Rightarrow>
          (case on_prov_env (retrieve_json_string (p_os api) (p_json api) obj ''operationId'') p of
             (None, p) \<Rightarrow> refuse PROV_DEVICE_RESULT_DEV_AUTH_ERROR p
           | (Some _, p) \<Rightarrow>
               (let error_code = retrieve_json_number (p_json api) reg ''errorCode'' in
                if error_code = 400208 then refuse PROV_DEVICE_RESULT_HUB_NOT_SPECIFIED p
                else if error_code = 400209 then refuse PROV_DEVICE_RESULT_UNAUTHORIZED p
                else refuse PROV_DEVICE_RESULT_DEV_AUTH_ERROR p)))"

definition prov_transport_process_json_reply ::
  "('a, 't, 'j, 'e, 'x) prov_client_api_scheme \<Rightarrow> string option \<Rightarrow> ('a, 't, 'e, 'm) PROV_INSTANCE_INFO_scheme
     \<Rightarrow> PROV_JSON_INFO option \<times> ('a, 't, 'e, 'm) PROV_INSTANCE_INFO_scheme" where
  "prov_transport_process_json_reply api json_document p =
     (case on_prov_env (json_parse_string (p_json api) json_document) p of
        (None, p) \<Rightarrow> (None, p)
      | (Some root_value, p) \<Rightarrow>
          (case json_value_get_object (p_json api) root_value of
             None \<Rightarrow> (None, p)
           | Some obj \<Rightarrow>
               (case on_prov_env (malloc_of (p_os api) ()) p of
                  (None, p) \<Rightarrow> (None, p)
                | (Some _, p) \<Rightarrow>
                    (case reply_status (p_json api) (hsm_type p) obj of
                       PROV_DEVICE_TRANSPORT_STATUS_UNASSIGNED \<Rightarrow> reply_unassigned api obj p
                     | PROV_DEVICE_TRANSPORT_STATUS_ASSIGNING \<Rightarrow> reply_assigning api obj p
                     | PROV_DEVICE_TRANSPORT_STATUS_ASSIGNED \<Rightarrow> reply_assigned api obj p
                     | PROV_DEVICE_TRANSPORT_STATUS_BLACKLISTED \<Rightarrow> refuse PROV_DEVICE_RESULT_ERROR p
                     | PROV_DEVICE_TRANSPORT_STATUS_ERROR \<Rightarrow> reply_error api obj p
                     | PROV_DEVICE_TRANSPORT_STATUS_DISABLED \<Rightarrow> refuse PROV_DEVICE_RESULT_DISABLED p
                     | _ \<Rightarrow> (None, p)))))"

section \<open>The payload of a request\<close>

definition construct_security_type_json ::
  "('a, 't, 'j, 'e, 'x) prov_client_api_scheme \<Rightarrow> ('a, 't, 'e, 'm) PROV_INSTANCE_INFO_scheme \<Rightarrow> string option
     \<Rightarrow> string option \<Rightarrow> 'e \<Rightarrow> 'j option \<times> 'e" where
  "construct_security_type_json api p ek_value srk_value e =
     (let js = p_json api in
      or_null (json_value_init_object js e) (\<lambda>root e.
      or_null (json_value_get_object js root, e) (\<lambda>obj e.
      or_null (json_object_set_string js obj ''registrationId'' (registration_id p) e) (\<lambda>obj e.
        if hsm_type p = PROV_AUTH_TYPE_TPM then
          or_null (json_value_init_object js e) (\<lambda>tpm_node e.
          or_null (json_value_get_object js tpm_node, e) (\<lambda>tpm e.
          or_null (json_object_set_string js tpm ''endorsementKey'' ek_value e) (\<lambda>tpm e.
          or_null (json_object_set_string js tpm ''storageRootKey'' srk_value e) (\<lambda>tpm e.
            json_object_set_value js obj ''tpm'' tpm e))))
        else (Some obj, e)))))"

definition prov_transport_create_json_payload ::
  "('a, 't, 'j, 'e, 'x) prov_client_api_scheme \<Rightarrow> string option \<Rightarrow> string option
     \<Rightarrow> ('a, 't, 'e, 'm) PROV_INSTANCE_INFO_scheme \<Rightarrow> string option \<times> ('a, 't, 'e, 'm) PROV_INSTANCE_INFO_scheme" where
  "prov_transport_create_json_payload api ek_value srk_value p =
     on_prov_env (\<lambda>e.
       let js = p_json api in
       or_null (construct_security_type_json api p ek_value srk_value e) (\<lambda>json_root e.
       or_null (case custom_request_data p of
                  None \<Rightarrow> (Some json_root, e)
                | Some custom \<Rightarrow>
                    or_null (json_value_get_object js json_root, e) (\<lambda>obj e.
                    or_null (json_parse_string js (Some custom) e) (\<lambda>json_custom_data e.
                      json_object_set_value js obj ''payload'' json_custom_data e))) (\<lambda>json_root e.
       or_null (json_serialize_to_string js json_root e) (\<lambda>json_string e.
         malloc_of (p_os api) json_string e)))) p"

end
