(* ===== verification/ProvClient.thy ===== *)
theory ProvClient
  imports ProvReply
begin

text \<open>
  The operations of the provisioning device client (prov\_device\_ll\_client.c): what the transport calls
  back, creation and destruction, Prov\_Device\_LL\_Register\_Device, the turn of
  Prov\_Device\_LL\_DoWork, the options and the payload. The callbacks of the user do not call the
  client again.
\<close>

section \<open>What the transport calls back\<close>

text \<open>
  The challenge: a token for the registration, after the key in the nonce went into the TPM. A
  registration id that is NULL leaves defined behaviour.
\<close>

definition registration_scope :: "string \<Rightarrow> string \<Rightarrow> string" where
  "registration_scope scope reg = scope @ ''/registrations/'' @ reg"

definition prov_transport_challenge_callback ::
  "('a, 't, 'j, 'e, 'x) prov_client_api_scheme \<Rightarrow> char list option \<Rightarrow> string option
     \<Rightarrow> ('a, 't, 'e, 'm) PROV_INSTANCE_INFO_scheme \<Rightarrow> (string option \<times> ('a, 't, 'e, 'm) PROV_INSTANCE_INFO_scheme) run" where
  "prov_transport_challenge_callback api nonce key p =
     (if hsm_type p = PROV_AUTH_TYPE_TPM \<and> nonce = None then Done (None, p)
      else case on_prov_env (os_time (p_os api)) p of (sec_since_epoch, p) \<Rightarrow>
        let expiry_time = of_int sec_since_epoch + SAS_TOKEN_DEFAULT_LIFETIME in
        (case registration_id p of
           None \<Rightarrow> Fault
         | Some reg \<Rightarrow>
             (case on_prov_env (malloc_of (p_os api) (registration_scope (scope_id p) reg)) p of
                (None, p) \<Rightarrow> Done (None, p)
              | (Some token_scope, p) \<Rightarrow>
                  (case on_prov_env (url_encode_string (p_crypto api) token_scope) p of
                     (None, p) \<Rightarrow> Done (None, p)
                   | (Some encoded_token, p) \<Rightarrow>
                       run_bind (if hsm_type p = PROV_AUTH_TYPE_TPM
                                 then on_auth (\<lambda>a. auth_import_key (p_auth api) a nonce) p
                                 else Done (True, p)) (\<lambda>(imported, p).
                         if \<not> imported then Done (None, p)
                         else on_auth (\<lambda>a. auth_construct_sas_token (p_auth api) a (Some encoded_token) key expiry_time) p)))))"

fun on_transport_error ::
  "PROV_DEVICE_TRANSPORT_ERROR \<Rightarrow> ('a, 't, 'e, 'm) PROV_INSTANCE_INFO_scheme \<Rightarrow> ('a, 't, 'e, 'm) PROV_INSTANCE_INFO_scheme" where
  "on_transport_error PROV_DEVICE_ERROR_KEY_FAIL p = p\<lparr>error_reason := PROV_DEVICE_RESULT_KEY_ERROR\<rparr>"
| "on_transport_error PROV_DEVICE_ERROR_KEY_UNAUTHORIZED p = p\<lparr>error_reason := PROV_DEVICE_RESULT_DEV_AUTH_ERROR\<rparr>"
| "on_transport_error PROV_DEVICE_ERROR_MEMORY p = p\<lparr>error_reason := PROV_DEVICE_RESULT_MEMORY\<rparr>"

definition on_transport_status ::
  "PROV_DEVICE_TRANSPORT_STATUS \<Rightarrow> 32 word \<Rightarrow> ('a, 't, 'e, 'm) PROV_INSTANCE_INFO_scheme
     \<Rightarrow> ('a, 't, 'e, 'm) PROV_INSTANCE_INFO_scheme" where
  "on_transport_status transport_status retry_interval p =
     (let p = p\<lparr>retry_after_ms := ucast retry_interval * 1000\<rparr> in
      case transport_status of
        PROV_DEVICE_TRANSPORT_STATUS_CONNECTED \<Rightarrow> tell_status PROV_DEVICE_REG_STATUS_CONNECTED (p\<lparr>is_connected := True\<rparr>)
      | PROV_DEVICE_TRANSPORT_STATUS_AUTHENTICATED \<Rightarrow> p\<lparr>prov_state := CLIENT_STATE_STATUS_SEND\<rparr>
      | PROV_DEVICE_TRANSPORT_STATUS_ASSIGNING \<Rightarrow>
          tell_status PROV_DEVICE_REG_STATUS_ASSIGNING (p\<lparr>prov_state := CLIENT_STATE_STATUS_SEND\<rparr>)
      | PROV_DEVICE_TRANSPORT_STATUS_UNASSIGNED \<Rightarrow>
          tell_status PROV_DEVICE_REG_STATUS_REGISTERING (p\<lparr>prov_state := CLIENT_STATE_STATUS_SEND\<rparr>)
      | PROV_DEVICE_TRANSPORT_STATUS_TRANSIENT \<Rightarrow>
          (if prov_state p = CLIENT_STATE_REGISTER_SENT then p\<lparr>prov_state := CLIENT_STATE_REGISTER_SEND\<rparr>
           else if prov_state p = CLIENT_STATE_STATUS_SENT then p\<lparr>prov_state := CLIENT_STATE_STATUS_SEND\<rparr>
           else p)
      | _ \<Rightarrow> p)"

fun take_notice ::
  "prov_notice \<Rightarrow> ('a, 't, 'e, 'm) PROV_INSTANCE_INFO_scheme \<Rightarrow> ('a, 't, 'e, 'm) PROV_INSTANCE_INFO_scheme" where
  "take_notice (ErrorNotice err) p = on_transport_error err p"
| "take_notice (StatusNotice st interval) p = on_transport_status st interval p"

text \<open>The transport is closed when it is open, and what the client holds of the registration is freed.\<close>

definition cleanup_prov_info ::
  "('a, 't, 'j, 'e, 'x) prov_client_api_scheme \<Rightarrow> ('a, 't, 'e, 'm) PROV_INSTANCE_INFO_scheme
     \<Rightarrow> ('a, 't, 'e, 'm) PROV_INSTANCE_INFO_scheme run" where
  "cleanup_prov_info api p =
     run_bind (if transport_open p
               then run_bind (on_prov_transport (prov_transport_close (p_transport api)) p) (\<lambda>(notices, p).
                      Done ((fold take_notice notices p)\<lparr>transport_open := False, is_connected := False\<rparr>))
               else Done p) (\<lambda>p.
       Done (p\<lparr>registration_id := None, iothub_info := \<lparr>iothub_url = None, iothub_key = None, req_device_id = None\<rparr>,
               auth_attempts_made := 0\<rparr>))"

text \<open>A failure with its reason, and one that keeps the reason there is.\<close>

definition fail_with :: "PROV_DEVICE_RESULT \<Rightarrow> ('a, 't, 'e, 'm) PROV_INSTANCE_INFO_scheme \<Rightarrow> ('a, 't, 'e, 'm) PROV_INSTANCE_INFO_scheme" where
  "fail_with reason p = p\<lparr>error_reason := reason, prov_state := CLIENT_STATE_ERROR\<rparr>"

definition fail_unless_known :: "PROV_DEVICE_RESULT \<Rightarrow> ('a, 't, 'e, 'm) PROV_INSTANCE_INFO_scheme \<Rightarrow> ('a, 't, 'e, 'm) PROV_INSTANCE_INFO_scheme" where
  "fail_unless_known reason p = fail_with (if error_reason p = PROV_DEVICE_RESULT_OK then reason else error_reason p) p"

definition on_transport_registration_data ::
  "('a, 't, 'j, 'e, 'x) prov_client_api_scheme \<Rightarrow> PROV_DEVICE_TRANSPORT_RESULT \<Rightarrow> char list option \<Rightarrow> string option
     \<Rightarrow> string option \<Rightarrow> ('a, 't, 'e, 'm) PROV_INSTANCE_INFO_scheme \<Rightarrow> ('a, 't, 'e, 'm) PROV_INSTANCE_INFO_scheme run" where
  "on_transport_registration_data api transport_result key assigned_hub dev p =
     (case transport_result of
        PROV_DEVICE_TRANSPORT_RESULT_OK \<Rightarrow>
          run_bind (if hsm_type p = PROV_AUTH_TYPE_TPM
                    then (case key of
                       None \<Rightarrow> Done (fail_unless_known PROV_DEVICE_RESULT_KEY_ERROR p)
                     | Some k \<Rightarrow>
                         run_bind (on_auth (\<lambda>a. auth_import_key (p_auth api) a (Some k)) p) (\<lambda>(imported, p).
                           Done (if imported then p else fail_with PROV_DEVICE_RESULT_KEY_ERROR p)))
                    else Done p) (\<lambda>p.
            if prov_state p \<noteq> CLIENT_STATE_ERROR
            then run_bind (tell_registered PROV_DEVICE_RESULT_OK assigned_hub dev p) (\<lambda>p.
                   cleanup_prov_info api (p\<lparr>prov_state := CLIENT_STATE_READY\<rparr>))
            else Done p)
      | PROV_DEVICE_TRANSPORT_RESULT_UNAUTHORIZED \<Rightarrow>
          Done (fail_with PROV_DEVICE_RESULT_DEV_AUTH_ERROR p)
      | PROV_DEVICE_TRANSPORT_RESULT_ERROR \<Rightarrow> Done (fail_unless_known PROV_DEVICE_RESULT_TRANSPORT p))"

section \<open>Running the transport\<close>

primrec answer_call ::
  "('a, 't, 'j, 'e, 'x) prov_client_api_scheme \<Rightarrow> prov_call \<Rightarrow> ('a, 't, 'e, 'm) PROV_INSTANCE_INFO_scheme
     \<Rightarrow> (prov_answer \<times> ('a, 't, 'e, 'm) PROV_INSTANCE_INFO_scheme) run" where
  "answer_call api (RegistrationData r key hub dev) p =
     run_bind (on_transport_registration_data api r key hub dev p) (\<lambda>p. Done (NoAnswer, p))"
| "answer_call api (TransportStatus st interval) p = Done (NoAnswer, on_transport_status st interval p)"
| "answer_call api (Challenge nonce key) p =
     run_bind (prov_transport_challenge_callback api nonce key p) (\<lambda>(r, p). Done (Token r, p))"
| "answer_call api (ParseReply doc) p =
     (case prov_transport_process_json_reply api doc p of (r, p) \<Rightarrow> Done (ParsedReply r, p))"
| "answer_call api (CreatePayload ek srk) p =
     (case prov_transport_create_json_payload api ek srk p of (r, p) \<Rightarrow> Done (CreatedPayload r, p))"
| "answer_call api (TransportError err) p = Done (NoAnswer, on_transport_error err p)"

text \<open>No callback takes the transport away, so it is there when the transport function goes on.\<close>

primrec run_prov_work ::
  "('a, 't, 'j, 'e, 'x) prov_client_api_scheme \<Rightarrow> ('r, 't, 'e) prov_work \<Rightarrow> ('a, 't, 'e, 'm) PROV_INSTANCE_INFO_scheme
     \<Rightarrow> ('r \<times> ('a, 't, 'e, 'm) PROV_INSTANCE_INFO_scheme) run" where
  "run_prov_work api (Returns r t e) p = Done (r, p\<lparr>transport_handle := Some t, prov_env := e\<rparr>)"
| "run_prov_work api (Calls c t e k) p =
     run_bind (answer_call api c (p\<lparr>transport_handle := Some t, prov_env := e\<rparr>)) (\<lambda>(a, p).
       run_prov_work api (k a (the (transport_handle p)) (prov_env p)) p)"
| "run_prov_work api Breaks p = Fault"

definition run_transport ::
  "('a, 't, 'j, 'e, 'x) prov_client_api_scheme \<Rightarrow> ('t \<Rightarrow> 'e \<Rightarrow> ('r, 't, 'e) prov_work)
     \<Rightarrow> ('a, 't, 'e, 'm) PROV_INSTANCE_INFO_scheme \<Rightarrow> ('r \<times> ('a, 't, 'e, 'm) PROV_INSTANCE_INFO_scheme) run" where
  "run_transport api f p =
     (case transport_handle p of None \<Rightarrow> Fault | Some t \<Rightarrow> run_prov_work api (f t (prov_env p)) p)"

section \<open>Creation and destruction\<close>

definition destroy_instance ::
  "('a, 't, 'j, 'e, 'x) prov_client_api_scheme \<Rightarrow> ('a, 't, 'e, 'm) PROV_INSTANCE_INFO_scheme
     \<Rightarrow> ('a, 't, 'e, 'm) PROV_INSTANCE_INFO_scheme run" where
  "destroy_instance api p =
     run_bind (cleanup_prov_info api p) (\<lambda>p.
       case on_prov_env (prov_transport_destroy (p_transport api) (transport_handle p))
              (p\<lparr>custom_request_data := None, custom_response_data := None\<rparr>) of (notices, p) \<Rightarrow>
       let p = (fold take_notice notices p)\<lparr>transport_handle := None\<rparr> in
       run_bind (auth_destroy (p_auth api) (prov_auth_handle p) (prov_env p)) (\<lambda>e.
         Done (p\<lparr>prov_auth_handle := None, prov_env := e\<rparr>)))"

definition new_instance :: "string \<Rightarrow> 'e \<Rightarrow> ('a, 't, 'e) PROV_INSTANCE_INFO" where
  "new_instance id_scope e = \<lparr>register_callback = None, user_context = 0, register_status_cb = None, status_user_ctx = 0,
     error_reason = PROV_DEVICE_RESULT_OK, transport_handle = None, transport_open = False, last_send_time_ms = 0,
     timeout_value = 0, retry_after_ms = of_nat (PROV_GET_THROTTLE_TIME * 1000), prov_timeout = 0, registration_id = None,
     user_supplied_reg_id = False, prov_auth_handle = None, is_connected = False, hsm_type = PROV_AUTH_TYPE_UNKNOWN,
     iothub_info = \<lparr>iothub_url = None, iothub_key = None, req_device_id = None\<rparr>, prov_state = CLIENT_STATE_READY,
     auth_attempts_made = 0, scope_id = id_scope, custom_request_data = None, custom_response_data = None,
     prov_env = e, prov_calls = []\<rparr>"

text \<open>Creation that fails after the copy of the scope: the instance is destroyed.\<close>

definition give_up_instance ::
  "('a, 't, 'j, 'e, 'x) prov_client_api_scheme \<Rightarrow> ('a, 't, 'e) PROV_INSTANCE_INFO
     \<Rightarrow> (('a, 't, 'e) PROV_INSTANCE_INFO option \<times> 'e) run" where
  "give_up_instance api p = run_bind (destroy_instance api p) (\<lambda>p. Done (None, prov_env p))"

definition transport_hsm_type :: "PROV_AUTH_TYPE \<Rightarrow> TRANSPORT_HSM_TYPE" where
  "transport_hsm_type ty =
     (if ty = PROV_AUTH_TYPE_TPM then TRANSPORT_HSM_TYPE_TPM
      else if ty = PROV_AUTH_TYPE_KEY then TRANSPORT_HSM_TYPE_SYMM_KEY
      else TRANSPORT_HSM_TYPE_X509)"

text \<open>Creation from the identity on.\<close>

definition start_client ::
  "('a, 't, 'j, 'e, 'x) prov_client_api_scheme \<Rightarrow> string \<Rightarrow> string \<Rightarrow> 'a option \<Rightarrow> 'e
     \<Rightarrow> (('a, 't, 'e) PROV_INSTANCE_INFO option \<times> 'e) run" where
  "start_client api uri scope a e =
     (let p = (new_instance scope e)\<lparr>prov_auth_handle := a\<rparr> in
      if a = None then give_up_instance api p
      else (case on_prov_env (p_tickcounter_create api) p of (ticks, p) \<Rightarrow>
        if \<not> ticks then give_up_instance api p
        else
          let p = p\<lparr>hsm_type := auth_get_type (p_auth api) a\<rparr> in
          (case on_prov_env (prov_transport_create (p_transport api) uri (transport_hsm_type (hsm_type p))
                   (scope_id p) PROV_API_VERSION) p of
             (None, p) \<Rightarrow> give_up_instance api p
           | (Some t, p) \<Rightarrow>
               (case on_prov_env (p_tickcounter_get_current_ms api) (p\<lparr>transport_handle := Some t\<rparr>) of
                  (now, p) \<Rightarrow>
                    let start = (case now of None \<Rightarrow> last_send_time_ms p | Some n \<Rightarrow> n) in
                    let p = p\<lparr>last_send_time_ms := start + retry_after_ms p\<rparr> in
                    Done (Some p, prov_env p)))))"

text \<open>The last argument but one is whether the function that gives the provider is not NULL.\<close>

definition Prov_Device_LL_Create ::
  "('a, 't, 'j, 'e, 'x) prov_client_api_scheme \<Rightarrow> string option \<Rightarrow> string option \<Rightarrow> bool \<Rightarrow> 'e
     \<Rightarrow> (('a, 't, 'e) PROV_INSTANCE_INFO option \<times> 'e) run" where
  "Prov_Device_LL_Create api uri id_scope protocol e =
     (case (uri, id_scope) of
        (Some uri, Some id_scope) \<Rightarrow>
          if \<not> protocol then Done (None, e)
          else (case os_time (p_os api) e of (_, e) \<Rightarrow>
            (case malloc_of (p_os api) () e of
               (None, e) \<Rightarrow> Done (None, e)
             | (Some _, e) \<Rightarrow>
                 (case malloc_of (p_os api) id_scope e of
                    (None, e) \<Rightarrow> Done (None, e)
                  | (Some scope, e) \<Rightarrow>
                      run_bind (auth_create (p_auth api) e) (\<lambda>(a, e). start_client api uri scope a e))))
      | _ \<Rightarrow> Done (None, e))"

text \<open>The answer is the instance as it was when it was freed.\<close>

definition Prov_Device_LL_Destroy ::
  "('a, 't, 'j, 'e, 'x) prov_client_api_scheme \<Rightarrow> ('a, 't, 'e, 'm) PROV_INSTANCE_INFO_scheme option
     \<Rightarrow> ('a, 't, 'e, 'm) PROV_INSTANCE_INFO_scheme option run" where
  "Prov_Device_LL_Destroy api handle =
     (case handle of None \<Rightarrow> Done None | Some p \<Rightarrow> run_bind (destroy_instance api p) (\<lambda>p. Done (Some p)))"

section \<open>Registration\<close>

definition forget_registration_id :: "('a, 't, 'e, 'm) PROV_INSTANCE_INFO_scheme \<Rightarrow> ('a, 't, 'e, 'm) PROV_INSTANCE_INFO_scheme" where
  "forget_registration_id p = (if user_supplied_reg_id p then p else p\<lparr>registration_id := None\<rparr>)"

text \<open>The keys of a TPM; the certificate and key of an X.509 module, which go to the transport.\<close>

definition registration_keys ::
  "('a, 't, 'j, 'e, 'x) prov_client_api_scheme \<Rightarrow> ('a, 't, 'e, 'm) PROV_INSTANCE_INFO_scheme
     \<Rightarrow> ((char list option \<times> char list option) option \<times> ('a, 't, 'e, 'm) PROV_INSTANCE_INFO_scheme) run" where
  "registration_keys api p =
     (if prov_state p \<noteq> CLIENT_STATE_READY then Done (None, forget_registration_id p)
      else if hsm_type p = PROV_AUTH_TYPE_TPM then
        run_bind (on_auth (auth_get_endorsement_key (p_auth api)) p) (\<lambda>(ek_value, p).
          if ek_value = None then Done (None, forget_registration_id p)
          else run_bind (on_auth (auth_get_storage_key (p_auth api)) p) (\<lambda>(srk_value, p).
            if srk_value = None then Done (None, forget_registration_id p)
            else Done (Some (ek_value, srk_value), p)))
      else if hsm_type p = PROV_AUTH_TYPE_X509 then
        run_bind (on_auth (auth_get_certificate (p_auth api)) p) (\<lambda>(cert, p).
          case cert of
            None \<Rightarrow> Done (None, forget_registration_id p)
          | Some x509_certificate \<Rightarrow>
              run_bind (on_auth (auth_get_alias_key (p_auth api)) p) (\<lambda>(alias, p).
                case alias of
                  None \<Rightarrow> Done (None, forget_registration_id p)
                | Some x509_private_key \<Rightarrow>
                    run_bind (on_prov_transport (prov_transport_x509_cert (p_transport api) x509_certificate x509_private_key) p) (\<lambda>(ok, p).
                      if ok then Done (Some (None, None), p) else Done (None, forget_registration_id p))))
      else Done (Some (None, None), p))"

definition open_registration ::
  "('a, 't, 'j, 'e, 'x) prov_client_api_scheme \<Rightarrow> char list option \<Rightarrow> char list option
     \<Rightarrow> ('a, 't, 'e, 'm) PROV_INSTANCE_INFO_scheme \<Rightarrow> (PROV_DEVICE_RESULT \<times> ('a, 't, 'e, 'm) PROV_INSTANCE_INFO_scheme) run" where
  "open_registration api ek_value srk_value p =
     run_bind (run_transport api (prov_transport_open (p_transport api) (registration_id p) ek_value srk_value) p) (\<lambda>(opened, p).
       if \<not> opened
       then Done (PROV_DEVICE_RESULT_ERROR,
              (forget_registration_id p)\<lparr>register_callback := None, user_context := 0, register_status_cb := None,
                                         status_user_ctx := 0\<rparr>)
       else Done (PROV_DEVICE_RESULT_OK, p\<lparr>transport_open := True, prov_state := CLIENT_STATE_REGISTER_SEND\<rparr>))"

text \<open>The registration id: the one the client has, or the one the identity gives.\<close>

definition fetch_registration_id ::
  "('a, 't, 'j, 'e, 'x) prov_client_api_scheme \<Rightarrow> ('a, 't, 'e, 'm) PROV_INSTANCE_INFO_scheme
     \<Rightarrow> ('a, 't, 'e, 'm) PROV_INSTANCE_INFO_scheme run" where
  "fetch_registration_id api p =
     (if registration_id p \<noteq> None then Done p
      else run_bind (on_auth (auth_get_registration_id (p_auth api)) p) (\<lambda>(r, p). Done (p\<lparr>registration_id := r\<rparr>)))"

definition Prov_Device_LL_Register_Device ::
  "('a, 't, 'j, 'e, 'x) prov_client_api_scheme \<Rightarrow> nat option \<Rightarrow> nat \<Rightarrow> nat option \<Rightarrow> nat
     \<Rightarrow> ('a, 't, 'e, 'm) PROV_INSTANCE_INFO_scheme option
     \<Rightarrow> (PROV_DEVICE_RESULT \<times> ('a, 't, 'e, 'm) PROV_INSTANCE_INFO_scheme option) run" where
  "Prov_Device_LL_Register_Device api cb ctx reg_status_cb status_ctx handle =
     (case (handle, cb) of
        (Some p, Some _) \<Rightarrow>
          run_bind (fetch_registration_id api p) (\<lambda>p.
            if registration_id p = None then Done (PROV_DEVICE_RESULT_ERROR, Some p)
            else run_bind (registration_keys api p) (\<lambda>(keys, p).
              case keys of
                None \<Rightarrow> Done (PROV_DEVICE_RESULT_ERROR, Some p)
              | Some (ek_value, srk_value) \<Rightarrow>
                  run_bind (open_registration api ek_value srk_value
                      (p\<lparr>register_callback := cb, user_context := ctx, register_status_cb := reg_status_cb,
                         status_user_ctx := status_ctx, custom_response_data := None\<rparr>)) (\<lambda>(r, p). Done (r, Some p))))
      | _ \<Rightarrow> Done (PROV_DEVICE_RESULT_INVALID_ARG, handle))"

section \<open>The turn of the client\<close>

text \<open>The clock of the client; it may fail.\<close>

definition read_ticks ::
  "('a, 't, 'j, 'e, 'x) prov_client_api_scheme \<Rightarrow> ('a, 't, 'e, 'm) PROV_INSTANCE_INFO_scheme
     \<Rightarrow> (64 word) option \<times> ('a, 't, 'e, 'm) PROV_INSTANCE_INFO_scheme" where
  "read_ticks api p = on_prov_env (p_tickcounter_get_current_ms api) p"

definition may_send :: "64 word \<Rightarrow> ('a, 't, 'e, 'm) PROV_INSTANCE_INFO_scheme \<Rightarrow> bool" where
  "may_send current_time p \<longleftrightarrow> current_time - last_send_time_ms p > retry_after_ms p"

definition work_register_send ::
  "('a, 't, 'j, 'e, 'x) prov_client_api_scheme \<Rightarrow> ('a, 't, 'e, 'm) PROV_INSTANCE_INFO_scheme
     \<Rightarrow> ('a, 't, 'e, 'm) PROV_INSTANCE_INFO_scheme run" where
  "work_register_send api p =
     (case read_ticks api p of
        (None, p) \<Rightarrow> Done (fail_with PROV_DEVICE_RESULT_ERROR p)
      | (Some current_time, p) \<Rightarrow>
          if \<not> may_send current_time p then Done p
          else run_bind (run_transport api (prov_transport_register (p_transport api)) p) (\<lambda>(sent, p).
            let p = (if \<not> sent then fail_unless_known PROV_DEVICE_RESULT_TRANSPORT p
                     else case read_ticks api p of (now, p) \<Rightarrow>
                       p\<lparr>timeout_value := (case now of None \<Rightarrow> timeout_value p | Some n \<Rightarrow> n),
                         prov_state := CLIENT_STATE_REGISTER_SENT\<rparr>) in
            Done (p\<lparr>last_send_time_ms := current_time\<rparr>)))"

definition work_status_send ::
  "('a, 't, 'j, 'e, 'x) prov_client_api_scheme \<Rightarrow> ('a, 't, 'e, 'm) PROV_INSTANCE_INFO_scheme
     \<Rightarrow> ('a, 't, 'e, 'm) PROV_INSTANCE_INFO_scheme run" where
  "work_status_send api p =
     (case read_ticks api p of
        (None, p) \<Rightarrow> Done (fail_with PROV_DEVICE_RESULT_ERROR p)
      | (Some current_time, p) \<Rightarrow>
          if \<not> may_send current_time p then Done p
          else run_bind (run_transport api (prov_transport_get_op_status (p_transport api)) p) (\<lambda>(sent, p).
            let p = (if \<not> sent then fail_unless_known PROV_DEVICE_RESULT_TRANSPORT p
                     else case read_ticks api (p\<lparr>prov_state := CLIENT_STATE_STATUS_SENT\<rparr>) of
                       (None, p) \<Rightarrow> fail_with PROV_DEVICE_RESULT_ERROR p
                     | (Some n, p) \<Rightarrow> p\<lparr>timeout_value := n\<rparr>) in
            Done (p\<lparr>last_send_time_ms := current_time\<rparr>)))"

text \<open>A wait that has lasted too long; a clock that fails reads 0.\<close>

definition check_timeout ::
  "('a, 't, 'j, 'e, 'x) prov_client_api_scheme \<Rightarrow> ('a, 't, 'e, 'm) PROV_INSTANCE_INFO_scheme
     \<Rightarrow> ('a, 't, 'e, 'm) PROV_INSTANCE_INFO_scheme" where
  "check_timeout api p =
     (if prov_timeout p > 0
      then (case read_ticks api p of (now, p) \<Rightarrow>
        let current_time = (case now of None \<Rightarrow> 0 | Some n \<Rightarrow> n) in
        if (current_time - timeout_value p) div 1000 > ucast (prov_timeout p)
        then fail_with PROV_DEVICE_RESULT_TIMEOUT p else p)
      else p)"

definition report_error ::
  "('a, 't, 'j, 'e, 'x) prov_client_api_scheme \<Rightarrow> ('a, 't, 'e, 'm) PROV_INSTANCE_INFO_scheme
     \<Rightarrow> ('a, 't, 'e, 'm) PROV_INSTANCE_INFO_scheme run" where
  "report_error api p =
     run_bind (tell_registered (error_reason p) None None p) (\<lambda>p.
       cleanup_prov_info api (p\<lparr>prov_state := CLIENT_STATE_READY\<rparr>))"

definition work_by_state ::
  "('a, 't, 'j, 'e, 'x) prov_client_api_scheme \<Rightarrow> ('a, 't, 'e, 'm) PROV_INSTANCE_INFO_scheme
     \<Rightarrow> ('a, 't, 'e, 'm) PROV_INSTANCE_INFO_scheme run" where
  "work_by_state api p =
     (if is_connected p \<or> prov_state p = CLIENT_STATE_ERROR
      then (case prov_state p of
              CLIENT_STATE_REGISTER_SEND \<Rightarrow> work_register_send api p
            | CLIENT_STATE_STATUS_SEND \<Rightarrow> work_status_send api p
            | CLIENT_STATE_REGISTER_SENT \<Rightarrow> Done (check_timeout api p)
            | CLIENT_STATE_STATUS_SENT \<Rightarrow> Done (check_timeout api p)
            | CLIENT_STATE_READY \<Rightarrow> Done p
            | _ \<Rightarrow> report_error api p)
      else if prov_state p \<noteq> CLIENT_STATE_READY then Done (check_timeout api p)
      else Done p)"

definition Prov_Device_LL_DoWork ::
  "('a, 't, 'j, 'e, 'x) prov_client_api_scheme \<Rightarrow> ('a, 't, 'e, 'm) PROV_INSTANCE_INFO_scheme option
     \<Rightarrow> ('a, 't, 'e, 'm) PROV_INSTANCE_INFO_scheme option run" where
  "Prov_Device_LL_DoWork api handle =
     (case handle of
        None \<Rightarrow> Done None
      | Some p \<Rightarrow>
          run_bind (if prov_state p \<noteq> CLIENT_STATE_ERROR
                    then run_bind (run_transport api (prov_transport_dowork (p_transport api)) p) (\<lambda>(_, p). Done p)
                    else Done p) (\<lambda>p.
          run_bind (work_by_state api p) (\<lambda>p. Done (Some p))))"

section \<open>Options and payload\<close>

text \<open>A void pointer read as a string, or as a proxy; anything else behind it leaves defined behaviour.\<close>

fun as_text :: "prov_option_value option \<Rightarrow> string option run" where
  "as_text None = Done None"
| "as_text (Some (TextValue s)) = Done (Some s)"
| "as_text _ = Fault"

fun as_proxy :: "prov_option_value option \<Rightarrow> HTTP_PROXY_OPTIONS option run" where
  "as_proxy None = Done None"
| "as_proxy (Some (ProxyValue x)) = Done (Some x)"
| "as_proxy _ = Fault"

fun as_bool :: "prov_option_value option \<Rightarrow> bool run" where
  "as_bool (Some (BoolValue b)) = Done b"
| "as_bool _ = Fault"

fun as_byte :: "prov_option_value option \<Rightarrow> (8 word) run" where
  "as_byte (Some (ByteValue b)) = Done b"
| "as_byte _ = Fault"

definition ok_or_error :: "(bool \<times> 's) run \<Rightarrow> (PROV_DEVICE_RESULT \<times> 's) run" where
  "ok_or_error m = run_bind m (\<lambda>(ok, s). Done (if ok then PROV_DEVICE_RESULT_OK else PROV_DEVICE_RESULT_ERROR, s))"

definition set_registration_id ::
  "('a, 't, 'j, 'e, 'x) prov_client_api_scheme \<Rightarrow> string \<Rightarrow> ('a, 't, 'e, 'm) PROV_INSTANCE_INFO_scheme
     \<Rightarrow> (bool \<times> ('a, 't, 'e, 'm) PROV_INSTANCE_INFO_scheme) run" where
  "set_registration_id api reg p =
     (case on_prov_env (malloc_of (p_os api) reg) p of
        (None, p) \<Rightarrow> Done (False, p)
      | (Some temp_reg, p) \<Rightarrow>
          run_bind (on_auth (\<lambda>a e. Done (auth_set_registration_id (p_auth api) a (Some temp_reg) e)) p) (\<lambda>(ok, p).
            Done (ok, if ok then p\<lparr>registration_id := Some temp_reg, user_supplied_reg_id := True\<rparr> else p)))"

definition set_prov_option ::
  "('a, 't, 'j, 'e, 'x) prov_client_api_scheme \<Rightarrow> string \<Rightarrow> prov_option_value option
     \<Rightarrow> ('a, 't, 'e, 'm) PROV_INSTANCE_INFO_scheme \<Rightarrow> (bool \<times> ('a, 't, 'e, 'm) PROV_INSTANCE_INFO_scheme) run" where
  "set_prov_option api option_name v p =
     (let tr = p_transport api in
      if option_name = OPTION_TRUSTED_CERT api
      then run_bind (as_text v) (\<lambda>cert_info. on_prov_transport (prov_transport_trusted_cert tr cert_info) p)
      else if option_name = ''logtrace''
      then run_bind (as_bool v) (\<lambda>log_trace. on_prov_transport (prov_transport_set_trace tr log_trace) p)
      else if option_name = OPTION_HTTP_PROXY api
      then run_bind (as_proxy v) (\<lambda>proxy. on_prov_transport (prov_transport_set_proxy tr proxy) p)
      else if option_name = ''provisioning_timeout''
      then (if v = None then Done (False, p)
            else run_bind (as_byte v) (\<lambda>b. Done (True, p\<lparr>prov_timeout := b\<rparr>)))
      else if option_name = ''registration_id''
      then (if prov_state p \<noteq> CLIENT_STATE_READY then Done (False, p)
            else run_bind (as_text v) (\<lambda>reg. case reg of None \<Rightarrow> Done (False, p) | Some reg \<Rightarrow> set_registration_id api reg p))
      else on_prov_transport (prov_transport_set_option tr option_name v) p)"

definition Prov_Device_LL_SetOption ::
  "('a, 't, 'j, 'e, 'x) prov_client_api_scheme \<Rightarrow> string option \<Rightarrow> prov_option_value option
     \<Rightarrow> ('a, 't, 'e, 'm) PROV_INSTANCE_INFO_scheme option
     \<Rightarrow> (PROV_DEVICE_RESULT \<times> ('a, 't, 'e, 'm) PROV_INSTANCE_INFO_scheme option) run" where
  "Prov_Device_LL_SetOption api option_name v handle =
     (case (handle, option_name) of
        (Some p, Some n) \<Rightarrow> run_bind (ok_or_error (set_prov_option api n v p)) (\<lambda>(r, p). Done (r, Some p))
      | _ \<Rightarrow> Done (PROV_DEVICE_RESULT_INVALID_ARG, handle))"

definition Prov_Device_LL_GetVersionString :: string where
  "Prov_Device_LL_GetVersionString = PROV_DEVICE_CLIENT_VERSION"

definition Prov_Device_LL_Set_Provisioning_Payload ::
  "('a, 't, 'j, 'e, 'x) prov_client_api_scheme \<Rightarrow> string option \<Rightarrow> ('a, 't, 'e, 'm) PROV_INSTANCE_INFO_scheme option
     \<Rightarrow> PROV_DEVICE_RESULT \<times> ('a, 't, 'e, 'm) PROV_INSTANCE_INFO_scheme option" where
  "Prov_Device_LL_Set_Provisioning_Payload api json handle =
     (case handle of
        None \<Rightarrow> (PROV_DEVICE_RESULT_INVALID_ARG, None)
      | Some p \<Rightarrow>
          (case on_prov_env (strcpy_of (p_os api) json) p of
             (None, p) \<Rightarrow> (PROV_DEVICE_RESULT_ERROR, Some p)
           | (Some temp_data, p) \<Rightarrow> (PROV_DEVICE_RESULT_OK, Some (p\<lparr>custom_request_data := Some temp_data\<rparr>))))"

definition Prov_Device_LL_Get_Provisioning_Payload ::
  "('a, 't, 'e, 'm) PROV_INSTANCE_INFO_scheme option \<Rightarrow> string option" where
  "Prov_Device_LL_Get_Provisioning_Payload handle = (case handle of None \<Rightarrow> None | Some p \<Rightarrow> custom_response_data p)"

end
