(* ===== verification/ProvSteps.thy ===== *)
theory ProvSteps
  imports ProvClient Accounts
begin

text \<open>
  What the provisioning client keeps through every call: the laws of a transport, the invariant of the
  client, the account of the registrations it owes an answer, and the lemma of each operation.
\<close>

section \<open>The laws of a transport\<close>

text \<open>
  A transport is open or closed. It reports statuses, registrations and challenges only while it is
  open; only the answer to the data of a registration may find it closed. While it opens it only asks
  challenges and reports errors, and while it closes it reports nothing that restarts a registration.
\<close>

fun needs_open :: "prov_call \<Rightarrow> bool" where
  "needs_open (RegistrationData r key hub dev) = True"
| "needs_open (TransportStatus st interval) = True"
| "needs_open (Challenge nonce key) = True"
| "needs_open _ = False"

text \<open>A status asks for a wait of 1 to 300 seconds.\<close>

definition patient :: "32 word \<Rightarrow> bool" where
  "patient interval \<longleftrightarrow> 1 \<le> unat interval \<and> unat interval \<le> MAX_PROV_GET_THROTTLE_TIME"

fun patient_call :: "prov_call \<Rightarrow> bool" where
  "patient_call (TransportStatus st interval) = patient interval"
| "patient_call _ = True"

fun may_close :: "prov_call \<Rightarrow> bool" where
  "may_close (RegistrationData r key hub dev) = True"
| "may_close _ = False"

fun opening_call :: "prov_call \<Rightarrow> bool" where
  "opening_call (Challenge nonce key) = True"
| "opening_call (TransportError err) = True"
| "opening_call _ = False"

fun restarts :: "prov_notice \<Rightarrow> bool" where
  "restarts (StatusNotice st interval) = (st = PROV_DEVICE_TRANSPORT_STATUS_AUTHENTICATED
     \<or> st = PROV_DEVICE_TRANSPORT_STATUS_ASSIGNING \<or> st = PROV_DEVICE_TRANSPORT_STATUS_UNASSIGNED)"
| "restarts (ErrorNotice err) = False"

fun patient_notice :: "prov_notice \<Rightarrow> bool" where
  "patient_notice (StatusNotice st interval) = patient interval"
| "patient_notice (ErrorNotice err) = True"

text \<open>A run that behaves, from a transport that is open or closed as given.\<close>

primrec orderly :: "('t \<Rightarrow> bool) \<Rightarrow> ('t \<Rightarrow> bool) \<Rightarrow> bool \<Rightarrow> ('r, 't, 'e) prov_work \<Rightarrow> bool" where
  "orderly sound opn cur (Returns r t e) = (sound t \<and> opn t = cur)"
| "orderly sound opn cur (Calls c t e k) =
     (sound t \<and> opn t = cur \<and> (needs_open c \<longrightarrow> cur) \<and> patient_call c \<and> (\<forall>a e'. orderly sound opn cur (k a t e'))
      \<and> (may_close c \<longrightarrow> (\<forall>a t' e'. sound t' \<longrightarrow> \<not> opn t' \<longrightarrow> orderly sound opn False (k a t' e'))))"
| "orderly sound opn cur Breaks = False"

text \<open>A run that reports no data of a registration, so that the client does not close the transport.\<close>

primrec never_closes :: "('r, 't, 'e) prov_work \<Rightarrow> bool" where
  "never_closes (Returns r t e) = True"
| "never_closes (Calls c t e k) = (\<not> may_close c \<and> (\<forall>a t' e'. never_closes (k a t' e')))"
| "never_closes Breaks = True"

text \<open>A run that opens a transport: it is open afterwards exactly when it succeeds.\<close>

primrec orderly_opening :: "('t \<Rightarrow> bool) \<Rightarrow> ('t \<Rightarrow> bool) \<Rightarrow> (bool, 't, 'e) prov_work \<Rightarrow> bool" where
  "orderly_opening sound opn (Returns r t e) = (sound t \<and> opn t = r)"
| "orderly_opening sound opn (Calls c t e k) = (opening_call c \<and> (\<forall>a e'. orderly_opening sound opn (k a t e')))"
| "orderly_opening sound opn Breaks = False"

definition transport_kept :: "('t \<Rightarrow> bool) \<Rightarrow> ('t \<Rightarrow> bool) \<Rightarrow> 't \<Rightarrow> 'r \<times> 't \<times> 'e \<Rightarrow> bool" where
  "transport_kept sound opn t m = (sound (fst (snd m)) \<and> opn (fst (snd m)) = opn t)"

locale orderly_transport =
  fixes tr :: "('t, 'e) PROV_DEVICE_TRANSPORT_PROVIDER"
    and sound :: "'t \<Rightarrow> bool"
    and opn :: "'t \<Rightarrow> bool"
    and lawful :: bool
  assumes transport_created: "lawful \<Longrightarrow> prov_transport_create tr uri ty scope ver e = (Some t, e') \<Longrightarrow> sound t \<and> \<not> opn t"
    and transport_opened: "sound t \<Longrightarrow> \<not> opn t \<Longrightarrow> orderly_opening sound opn (prov_transport_open tr reg ek srk t e)"
    and transport_closed: "sound t \<Longrightarrow> prov_transport_close tr t e = (notices, t', e') \<Longrightarrow>
          sound t' \<and> \<not> opn t' \<and> \<not> list_ex restarts notices \<and> list_all patient_notice notices"
    and transport_registers: "sound t \<Longrightarrow> opn t \<Longrightarrow> orderly sound opn True (prov_transport_register tr t e)"
    and transport_register_waits: "sound t \<Longrightarrow> opn t \<Longrightarrow> never_closes (prov_transport_register tr t e)"
    and transport_asks_status: "sound t \<Longrightarrow> opn t \<Longrightarrow> orderly sound opn True (prov_transport_get_op_status tr t e)"
    and transport_status_waits: "sound t \<Longrightarrow> opn t \<Longrightarrow> never_closes (prov_transport_get_op_status tr t e)"
    and transport_works: "sound t \<Longrightarrow> orderly sound opn (opn t) (prov_transport_dowork tr t e)"
    and transport_keeps_trace: "sound t \<Longrightarrow> transport_kept sound opn t (prov_transport_set_trace tr b t e)"
    and transport_keeps_x509: "sound t \<Longrightarrow> transport_kept sound opn t (prov_transport_x509_cert tr c k t e)"
    and transport_keeps_cert: "sound t \<Longrightarrow> transport_kept sound opn t (prov_transport_trusted_cert tr v t e)"
    and transport_keeps_proxy: "sound t \<Longrightarrow> transport_kept sound opn t (prov_transport_set_proxy tr x t e)"
    and transport_keeps_option: "sound t \<Longrightarrow> transport_kept sound opn t (prov_transport_set_option tr n w t e)"

section \<open>The invariant of the client\<close>

text \<open>
  The client has a transport and an identity it can use, and its type is the type of the identity. The
  transport is open exactly while a registration runs, and then there are a callback to answer and a
  registration id. A client that failed has a reason. What it waits between two messages is a second to
  five minutes.
\<close>

definition paced :: "('a, 't, 'e, 'm) PROV_INSTANCE_INFO_scheme \<Rightarrow> bool" where
  "paced p \<longleftrightarrow> 1000 \<le> unat (retry_after_ms p) \<and> unat (retry_after_ms p) \<le> MAX_PROV_GET_THROTTLE_TIME * 1000"

lemma paced_cong: "retry_after_ms p' = retry_after_ms p \<Longrightarrow> paced p' = paced p"
  by (simp add: paced_def)

lemma paced_updates [simp]:
  "paced (p\<lparr>register_callback := cb\<rparr>) = paced p" "paced (p\<lparr>user_context := ctx\<rparr>) = paced p"
  "paced (p\<lparr>register_status_cb := cb\<rparr>) = paced p" "paced (p\<lparr>status_user_ctx := ctx\<rparr>) = paced p"
  "paced (p\<lparr>error_reason := r\<rparr>) = paced p" "paced (p\<lparr>transport_handle := t\<rparr>) = paced p"
  "paced (p\<lparr>transport_open := b\<rparr>) = paced p" "paced (p\<lparr>last_send_time_ms := v\<rparr>) = paced p"
  "paced (p\<lparr>timeout_value := v\<rparr>) = paced p" "paced (p\<lparr>prov_timeout := w\<rparr>) = paced p"
  "paced (p\<lparr>registration_id := reg\<rparr>) = paced p" "paced (p\<lparr>user_supplied_reg_id := b\<rparr>) = paced p"
  "paced (p\<lparr>prov_auth_handle := h\<rparr>) = paced p" "paced (p\<lparr>is_connected := b\<rparr>) = paced p"
  "paced (p\<lparr>iothub_info := i\<rparr>) = paced p" "paced (p\<lparr>prov_state := s\<rparr>) = paced p"
  "paced (p\<lparr>auth_attempts_made := n\<rparr>) = paced p" "paced (p\<lparr>custom_request_data := d\<rparr>) = paced p"
  "paced (p\<lparr>custom_response_data := d\<rparr>) = paced p" "paced (p\<lparr>prov_env := e\<rparr>) = paced p"
  "paced (p\<lparr>prov_calls := evs\<rparr>) = paced p"
  by (simp_all add: paced_def)

lemma paced_status:
  assumes "patient interval"
  shows "paced (p\<lparr>retry_after_ms := ucast interval * 1000\<rparr>)"
proof -
  have "unat (ucast interval :: 64 word) = unat interval" 
    using unsigned_less [of interval, where ?'a = nat] by (simp add: unsigned_ucast_eq take_bit_nat_eq_self_iff)
  moreover have "unat (ucast interval * 1000 :: 64 word) = unat (ucast interval :: 64 word) * unat (1000 :: 64 word)"
    using assms calculation by (subst unat_mult_lem [symmetric]) (simp add: patient_def MAX_PROV_GET_THROTTLE_TIME_def)
  ultimately show ?thesis using assms by (simp add: paced_def patient_def)
qed

definition prov_inv ::
  "('a, 'e) auth_api \<Rightarrow> ('a option \<Rightarrow> bool) \<Rightarrow> ('t \<Rightarrow> bool) \<Rightarrow> ('t \<Rightarrow> bool) \<Rightarrow> ('a, 't, 'e, 'm) PROV_INSTANCE_INFO_scheme \<Rightarrow> bool" where
  "prov_inv auth usable sound opn p \<longleftrightarrow>
     usable (prov_auth_handle p) \<and> hsm_type p = auth_get_type auth (prov_auth_handle p)
     \<and> (\<exists>t. transport_handle p = Some t \<and> sound t \<and> opn t = transport_open p)
     \<and> transport_open p = (prov_state p \<noteq> CLIENT_STATE_READY)
     \<and> (prov_state p \<noteq> CLIENT_STATE_READY \<longrightarrow> register_callback p \<noteq> None \<and> registration_id p \<noteq> None)
     \<and> (prov_state p = CLIENT_STATE_ERROR \<longrightarrow> error_reason p \<noteq> PROV_DEVICE_RESULT_OK)
     \<and> prov_state p \<noteq> CLIENT_STATE_REGISTER_RECV \<and> prov_state p \<noteq> CLIENT_STATE_STATUS_RECV
     \<and> paced p"

text \<open>The registration that waits for its answer, and those that were answered.\<close>

definition pending :: "('a, 't, 'e, 'm) PROV_INSTANCE_INFO_scheme \<Rightarrow> (nat \<times> nat) multiset" where
  "pending p = (if prov_state p = CLIENT_STATE_READY then {#} else {#(the (register_callback p), user_context p)#})"

fun answer_of :: "prov_event \<Rightarrow> (nat \<times> nat) multiset" where
  "answer_of (DeviceRegistered cb r hub dev ctx) = {#(cb, ctx)#}"
| "answer_of (StatusReported cb s ctx) = {#}"

definition answered :: "prov_event list \<Rightarrow> (nat \<times> nat) multiset" where
  "answered evs = sum_list (map answer_of evs)"

definition owed :: "('a, 't, 'e, 'm) PROV_INSTANCE_INFO_scheme \<Rightarrow> (nat \<times> nat) multiset" where
  "owed p = pending p + answered (prov_calls p)"

text \<open>What a registration adds to the account when the client accepts it.\<close>

definition due :: "PROV_DEVICE_RESULT \<Rightarrow> nat \<times> nat \<Rightarrow> (nat \<times> nat) multiset" where
  "due r item = (if r = PROV_DEVICE_RESULT_OK then {#item#} else {#})"

lemma due_simps [simp]: "due PROV_DEVICE_RESULT_OK item = {#item#}" "r \<noteq> PROV_DEVICE_RESULT_OK \<Longrightarrow> due r item = {#}"
  by (simp_all add: due_def)

lemma answered_append [simp]: "answered (xs @ ys) = answered xs + answered ys"
  by (simp add: answered_def)

lemma answered_simps [simp]:
  "answered [] = {#}" "answered [DeviceRegistered cb r hub dev ctx] = {#(cb, ctx)#}"
  "answered [StatusReported cb s ctx] = {#}"
  by (simp_all add: answered_def)

section \<open>What calls on the parts change\<close>

text \<open>A run that returns, and what holds of the client it leaves.\<close>

definition leaves :: "('p \<Rightarrow> bool) \<Rightarrow> ('r \<times> 'p) run \<Rightarrow> bool" where
  "leaves Q m \<longleftrightarrow> run_sat True (\<lambda>(r, p'). Q p') m"

lemma leaves_Done [simp]: "leaves Q (Done (r, p')) = Q p'"
  by (simp add: leaves_def)

lemma leaves_bindI: "leaves P m \<Longrightarrow> (\<And>r p'. P p' \<Longrightarrow> leaves Q (f (r, p'))) \<Longrightarrow> leaves Q (run_bind m f)"
  by (cases m) (auto simp: leaves_def)

lemma leaves_mono: "leaves P m \<Longrightarrow> (\<And>p'. P p' \<Longrightarrow> Q p') \<Longrightarrow> leaves Q m"
  by (cases m) (auto simp: leaves_def)

lemma leaves_Ex: "leaves Q m \<longleftrightarrow> (\<exists>r p'. m = Done (r, p') \<and> Q p')"
  by (cases m) (auto simp: leaves_def)

text \<open>
  Most fields stay while the client answers: all but the environment, the identity, the reason of a
  failure and the payload of the response.
\<close>

definition core_kept :: "('a, 't, 'e, 'm) PROV_INSTANCE_INFO_scheme \<Rightarrow> ('a, 't, 'e, 'm) PROV_INSTANCE_INFO_scheme \<Rightarrow> bool" where
  "core_kept p p' \<longleftrightarrow>
     register_callback p' = register_callback p \<and> user_context p' = user_context p
      \<and> register_status_cb p' = register_status_cb p \<and> status_user_ctx p' = status_user_ctx p
      \<and> transport_handle p' = transport_handle p \<and> transport_open p' = transport_open p
      \<and> last_send_time_ms p' = last_send_time_ms p \<and> timeout_value p' = timeout_value p
      \<and> retry_after_ms p' = retry_after_ms p \<and> prov_timeout p' = prov_timeout p
      \<and> registration_id p' = registration_id p \<and> user_supplied_reg_id p' = user_supplied_reg_id p
      \<and> is_connected p' = is_connected p
      \<and> hsm_type p' = hsm_type p \<and> iothub_info p' = iothub_info p
      \<and> prov_state p' = prov_state p \<and> auth_attempts_made p' = auth_attempts_made p
      \<and> scope_id p' = scope_id p \<and> custom_request_data p' = custom_request_data p
      \<and> prov_calls p' = prov_calls p"

lemma core_kept_refl [simp]: "core_kept p p"
  by (simp add: core_kept_def)

lemma core_kept_trans: "core_kept p p' \<Longrightarrow> core_kept p' p'' \<Longrightarrow> core_kept p p''"
  by (simp add: core_kept_def)

lemma core_kept_env: "on_prov_env f p = (r, p') \<Longrightarrow> core_kept p p' \<and> prov_auth_handle p' = prov_auth_handle p
    \<and> error_reason p' = error_reason p \<and> custom_response_data p' = custom_response_data p"
  by (auto simp: core_kept_def on_prov_env_def split: prod.splits)

text \<open>A reply changes the reason of a failure, never to OK, and the payload of the response.\<close>

definition reply_change :: "('a, 't, 'e, 'm) PROV_INSTANCE_INFO_scheme \<Rightarrow> ('a, 't, 'e, 'm) PROV_INSTANCE_INFO_scheme \<Rightarrow> bool" where
  "reply_change p p' \<longleftrightarrow> core_kept p p' \<and> prov_auth_handle p' = prov_auth_handle p
     \<and> (error_reason p' = error_reason p \<or> error_reason p' \<noteq> PROV_DEVICE_RESULT_OK)"

lemma reply_change_refl [simp]: "reply_change p p"
  by (simp add: reply_change_def)

lemma reply_change_trans: "reply_change p p' \<Longrightarrow> reply_change p' p'' \<Longrightarrow> reply_change p p''"
  unfolding reply_change_def by (auto intro: core_kept_trans)

lemma reply_change_env: "on_prov_env f p = (r, p') \<Longrightarrow> reply_change p p'"
  by (auto simp: reply_change_def dest: core_kept_env)

lemma reply_change_refuse: "refuse reason p = (r, p') \<Longrightarrow> reason \<noteq> PROV_DEVICE_RESULT_OK \<Longrightarrow> reply_change p p'"
  by (auto simp: reply_change_def core_kept_def refuse_def)

lemma reply_change_payload: "reply_change p (retrieve_json_payload js obj p)"
  by (auto simp: reply_change_def core_kept_def retrieve_json_payload_def on_prov_env_def split: option.split prod.split)

lemma reply_change_payloadI: "reply_change p q \<Longrightarrow> reply_change p (retrieve_json_payload js obj q)"
  by (rule reply_change_trans [OF _ reply_change_payload])

lemma reply_unassigned_change: "reply_unassigned api obj p = (r, p') \<Longrightarrow> reply_change p p'"
  unfolding reply_unassigned_def
  by (auto dest!: reply_change_env reply_change_refuse intro: reply_change_trans split: option.splits prod.splits)

lemma reply_assigning_change: "reply_assigning api obj p = (r, p') \<Longrightarrow> reply_change p p'"
  unfolding reply_assigning_def
  by (auto dest!: reply_change_env reply_change_refuse intro: reply_change_trans split: option.splits prod.splits)

lemma reply_tpm_key_change: "reply_tpm_key api reg p = (r, p') \<Longrightarrow> reply_change p p'"
  unfolding reply_tpm_key_def
  by (auto dest!: reply_change_env reply_change_refuse intro: reply_change_trans split: if_splits option.splits prod.splits)

lemma reply_assigned_change: "reply_assigned api obj p = (r, p') \<Longrightarrow> reply_change p p'"
  unfolding reply_assigned_def
  by (auto dest!: reply_change_env reply_change_refuse reply_tpm_key_change intro: reply_change_trans intro!: reply_change_payloadI
      split: option.splits prod.splits)

lemma reply_error_change: "reply_error api obj p = (r, p') \<Longrightarrow> reply_change p p'"
  unfolding reply_error_def Let_def
  by (auto dest!: reply_change_env reply_change_refuse intro: reply_change_trans split: if_splits option.splits prod.splits)

lemma process_json_reply_change: "prov_transport_process_json_reply api doc p = (r, p') \<Longrightarrow> reply_change p p'"
  unfolding prov_transport_process_json_reply_def
  by (auto dest!: reply_change_env reply_change_refuse reply_unassigned_change reply_assigning_change reply_assigned_change
      reply_error_change intro: reply_change_trans split: option.splits prod.splits PROV_DEVICE_TRANSPORT_STATUS.splits)

lemma create_json_payload_change: "prov_transport_create_json_payload api ek srk p = (r, p') \<Longrightarrow> reply_change p p'"
  unfolding prov_transport_create_json_payload_def by (rule reply_change_env)

lemma tell_status_simps [simp]:
  "answered (prov_calls (tell_status st p)) = answered (prov_calls p)"
  "prov_auth_handle (tell_status st p) = prov_auth_handle p" "hsm_type (tell_status st p) = hsm_type p"
  "transport_handle (tell_status st p) = transport_handle p" "transport_open (tell_status st p) = transport_open p"
  "prov_state (tell_status st p) = prov_state p" "register_callback (tell_status st p) = register_callback p"
  "registration_id (tell_status st p) = registration_id p" "error_reason (tell_status st p) = error_reason p"
  "user_context (tell_status st p) = user_context p" "prov_env (tell_status st p) = prov_env p"
  "paced (tell_status st p) = paced p"
  by (simp_all add: tell_status_def tell_prov_def split: option.split)

lemma on_transport_status_simps [simp]:
  "answered (prov_calls (on_transport_status st i p)) = answered (prov_calls p)"
  "prov_auth_handle (on_transport_status st i p) = prov_auth_handle p" "hsm_type (on_transport_status st i p) = hsm_type p"
  "transport_handle (on_transport_status st i p) = transport_handle p"
  "transport_open (on_transport_status st i p) = transport_open p"
  "register_callback (on_transport_status st i p) = register_callback p"
  "registration_id (on_transport_status st i p) = registration_id p" "error_reason (on_transport_status st i p) = error_reason p"
  "user_context (on_transport_status st i p) = user_context p" "prov_env (on_transport_status st i p) = prov_env p"
  by (cases st; simp add: on_transport_status_def Let_def)+

lemma on_transport_status_paced: "patient i \<Longrightarrow> paced (on_transport_status st i p)"
  using paced_status [of i p] by (cases st) (simp_all add: on_transport_status_def Let_def)

text \<open>A status leaves the state, or goes back to a state that sends.\<close>

lemma on_transport_status_state:
  "prov_state (on_transport_status st i p) \<in> {prov_state p, CLIENT_STATE_STATUS_SEND}
   \<or> prov_state p = CLIENT_STATE_REGISTER_SENT \<and> prov_state (on_transport_status st i p) = CLIENT_STATE_REGISTER_SEND"
  by (cases st) (simp_all add: on_transport_status_def Let_def)

lemma on_transport_error_simps [simp]:
  "error_reason (on_transport_error err p) \<noteq> PROV_DEVICE_RESULT_OK" "core_kept p (on_transport_error err p)"
  "prov_auth_handle (on_transport_error err p) = prov_auth_handle p" "prov_env (on_transport_error err p) = prov_env p"
  "answered (prov_calls (on_transport_error err p)) = answered (prov_calls p)"
  by (cases err; simp add: core_kept_def)+

lemma core_keptD:
  assumes "core_kept p p'"
  shows "hsm_type p' = hsm_type p" "transport_handle p' = transport_handle p" "transport_open p' = transport_open p"
    "prov_state p' = prov_state p" "register_callback p' = register_callback p" "registration_id p' = registration_id p"
    "user_context p' = user_context p" "prov_calls p' = prov_calls p" "user_supplied_reg_id p' = user_supplied_reg_id p"
    "paced p' = paced p"
  using assms by (simp_all add: core_kept_def paced_def)

text \<open>Notices taken while the client is ready leave it ready, and the account as it was.\<close>

definition notice_kept :: "('a, 't, 'e, 'm) PROV_INSTANCE_INFO_scheme \<Rightarrow> ('a, 't, 'e, 'm) PROV_INSTANCE_INFO_scheme \<Rightarrow> bool" where
  "notice_kept p p' \<longleftrightarrow> prov_auth_handle p' = prov_auth_handle p \<and> hsm_type p' = hsm_type p
     \<and> transport_handle p' = transport_handle p \<and> transport_open p' = transport_open p
     \<and> register_callback p' = register_callback p \<and> registration_id p' = registration_id p
     \<and> user_context p' = user_context p \<and> answered (prov_calls p') = answered (prov_calls p) \<and> prov_env p' = prov_env p"

lemma take_notice_kept: "notice_kept p (take_notice n p)"
  by (cases n) (simp_all add: notice_kept_def core_keptD [OF on_transport_error_simps(2)])

lemma take_notice_ready:
  "prov_state p = CLIENT_STATE_READY \<Longrightarrow> \<not> restarts n \<Longrightarrow> prov_state (take_notice n p) = CLIENT_STATE_READY"
  by (cases n) (auto simp: on_transport_status_def Let_def core_keptD [OF on_transport_error_simps(2)]
      split: PROV_DEVICE_TRANSPORT_STATUS.split)

lemma notices_kept: "notice_kept p (fold take_notice ns p)"
proof (induction ns arbitrary: p)
  case (Cons n ns)
  from Cons.IH [of "take_notice n p"] take_notice_kept [of p n] show ?case by (simp add: notice_kept_def)
qed (simp add: notice_kept_def)

lemma notices_ready:
  "prov_state p = CLIENT_STATE_READY \<Longrightarrow> \<not> list_ex restarts ns \<Longrightarrow> prov_state (fold take_notice ns p) = CLIENT_STATE_READY"
  by (induction ns arbitrary: p) (simp_all add: take_notice_ready)

lemma notices_paced: "list_all patient_notice ns \<Longrightarrow> paced p \<Longrightarrow> paced (fold take_notice ns p)"
proof (induction ns arbitrary: p)
  case (Cons n ns)
  have "paced (take_notice n p)"
    using Cons.prems by (cases n) (simp_all add: on_transport_status_paced core_keptD [OF on_transport_error_simps(2)])
  with Cons show ?case by simp
qed simp

section \<open>Answers of the client\<close>

locale provisioning = auth_contract "p_auth api" usable lawful + orderly_transport "p_transport api" sound opn lawful
  for api :: "('a, 't, 'j, 'e, 'x) prov_client_api_scheme" and usable and sound and opn and lawful
begin

text \<open>An identity that can be used, of the type the client was created with.\<close>

abbreviation auth_fit :: "('a, 't, 'e, 'm) PROV_INSTANCE_INFO_scheme \<Rightarrow> bool" where
  "auth_fit p \<equiv> usable (prov_auth_handle p) \<and> hsm_type p = auth_get_type (p_auth api) (prov_auth_handle p)"

abbreviation inv :: "('a, 't, 'e, 'm) PROV_INSTANCE_INFO_scheme \<Rightarrow> bool" where
  "inv p \<equiv> prov_inv (p_auth api) usable sound opn p"

text \<open>What a call of the identity, or of the environment, leaves.\<close>

abbreviation auth_moved :: "('a, 't, 'e, 'm) PROV_INSTANCE_INFO_scheme \<Rightarrow> ('a, 't, 'e, 'm) PROV_INSTANCE_INFO_scheme \<Rightarrow> bool" where
  "auth_moved p p' \<equiv> core_kept p p' \<and> auth_fit p' \<and> error_reason p' = error_reason p
     \<and> custom_response_data p' = custom_response_data p"

lemma auth_moved_env: "on_prov_env f p = (r, p') \<Longrightarrow> auth_fit p \<Longrightarrow> auth_moved p p'"
  using core_kept_env [of f p r p'] by (auto simp: core_kept_def)

lemma auth_moved_trans: "auth_moved p p' \<Longrightarrow> auth_moved p' p'' \<Longrightarrow> auth_moved p p''"
  by (auto intro: core_kept_trans)

lemma on_auth_leaves:
  assumes "auth_moved p q" and kept: "\<And>h e. usable h \<Longrightarrow> auth_kept (p_auth api) usable h (f h e)"
  shows "leaves (auth_moved p) (on_auth f q)"
proof -
  have "run_sat True (\<lambda>(r, h', e'). usable h' \<and> auth_get_type (p_auth api) h' = auth_get_type (p_auth api) (prov_auth_handle q))
      (f (prov_auth_handle q) (prov_env q))"
    using kept [of "prov_auth_handle q" "prov_env q"] assms(1) by (simp add: auth_kept_def)
  then show ?thesis unfolding on_auth_def leaves_def
    by (rule run_sat_bindI) (use assms(1) in \<open>auto simp: core_kept_def\<close>)
qed

lemma challenge_leaves:
  assumes "auth_fit p" "registration_id p \<noteq> None"
  shows "leaves (auth_moved p) (prov_transport_challenge_callback api nonce key p)"
proof -
  have both: "leaves (auth_moved p)
      (run_bind (if hsm_type q = PROV_AUTH_TYPE_TPM then on_auth (\<lambda>a. auth_import_key (p_auth api) a nonce) q else Done (True, q))
        (\<lambda>(imported, p). if \<not> imported then Done (None, p)
           else on_auth (\<lambda>a. auth_construct_sas_token (p_auth api) a s key t) p))"
    if q: "auth_moved p q" for q s t
  proof (rule leaves_bindI [of "auth_moved p"])
    show "leaves (auth_moved p) (if hsm_type q = PROV_AUTH_TYPE_TPM then on_auth (\<lambda>a. auth_import_key (p_auth api) a nonce) q
        else Done (True, q))"
      using q on_auth_leaves [OF q, of "\<lambda>a. auth_import_key (p_auth api) a nonce"] kept_import_key by simp
    fix r p' assume "auth_moved p p'"
    then show "leaves (auth_moved p) (case (r, p') of (imported, p) \<Rightarrow> if \<not> imported then Done (None, p)
        else on_auth (\<lambda>a. auth_construct_sas_token (p_auth api) a s key t) p)"
      using on_auth_leaves [of p p' "\<lambda>a. auth_construct_sas_token (p_auth api) a s key t"] kept_construct_sas_token by simp
  qed
  have id: "registration_id q = registration_id p" if "auth_moved p q" for q using that by (simp add: core_kept_def)
  show ?thesis
  proof (cases "hsm_type p = PROV_AUTH_TYPE_TPM \<and> nonce = None")
    case True
    with assms(1) show ?thesis by (simp add: prov_transport_challenge_callback_def)
  next
    case False
    obtain now p1 where p1: "on_prov_env (os_time (p_os api)) p = (now, p1)" by fastforce
    have m1: "auth_moved p p1" by (rule auth_moved_env [OF p1 assms(1)])
    obtain reg where reg: "registration_id p1 = Some reg" using assms(2) id [OF m1] by auto
    obtain s p2 where p2: "on_prov_env (malloc_of (p_os api) (registration_scope (scope_id p1) reg)) p1 = (s, p2)" by fastforce
    have m2: "auth_moved p p2" using auth_moved_trans [OF m1 auth_moved_env [OF p2]] m1 by blast
    obtain u p3 where p3: "on_prov_env (url_encode_string (p_crypto api) (the s)) p2 = (u, p3)" by fastforce
    have m3: "auth_moved p p3" using auth_moved_trans [OF m2 auth_moved_env [OF p3]] m2 by blast
    from False p1 reg p2 p3 m2 m3 both [OF m3] show ?thesis
      by (auto simp: prov_transport_challenge_callback_def Let_def split: option.split)
  qed
qed

text \<open>Changes outside what the invariant reads, and of the reason, keep it.\<close>

lemma inv_core:
  assumes "inv p" "core_kept p p'" "auth_fit p'" "error_reason p' = error_reason p \<or> error_reason p' \<noteq> PROV_DEVICE_RESULT_OK"
  shows "inv p' \<and> owed p' = owed p"
  using assms by (auto simp: prov_inv_def core_keptD owed_def pending_def)

lemma inv_fit: "inv p \<Longrightarrow> auth_fit p"
  by (simp add: prov_inv_def)

text \<open>Cleaning up leaves a ready client with a closed transport.\<close>

lemma cleanup_sat:
  assumes "auth_fit p" "transport_handle p = Some t" "sound t" "opn t = transport_open p" "prov_state p = CLIENT_STATE_READY"
    "paced p"
  shows "run_sat True (\<lambda>p'. inv p' \<and> \<not> transport_open p' \<and> prov_state p' = CLIENT_STATE_READY
    \<and> answered (prov_calls p') = answered (prov_calls p)) (cleanup_prov_info api p)"
proof (cases "transport_open p")
  case True
  obtain notices t' e' where close: "prov_transport_close (p_transport api) t (prov_env p) = (notices, t', e')"
    using prod_cases3 by blast
  define q where "q = fold take_notice notices (p\<lparr>transport_handle := Some t', prov_env := e'\<rparr>)"
  have quiet: "sound t' \<and> \<not> opn t' \<and> \<not> list_ex restarts notices \<and> list_all patient_notice notices"
    by (rule transport_closed [OF assms(3) close])
  have "paced q" using quiet assms(6) by (simp add: q_def notices_paced)
  moreover have "prov_state q = CLIENT_STATE_READY" using quiet assms(5) by (simp add: q_def notices_ready)
  moreover have "notice_kept (p\<lparr>transport_handle := Some t', prov_env := e'\<rparr>) q" by (simp add: q_def notices_kept)
  ultimately show ?thesis using True quiet assms(1,2)
    by (simp add: cleanup_prov_info_def on_prov_transport_def close prov_inv_def notice_kept_def flip: q_def)
next
  case False
  with assms show ?thesis by (simp add: cleanup_prov_info_def prov_inv_def)
qed

text \<open>What a callback of the transport leaves.\<close>

abbreviation answer_good :: "prov_call \<Rightarrow> ('a, 't, 'e, 'm) PROV_INSTANCE_INFO_scheme \<Rightarrow> ('a, 't, 'e, 'm) PROV_INSTANCE_INFO_scheme \<Rightarrow> bool" where
  "answer_good c p p' \<equiv> inv p' \<and> owed p' = owed p
     \<and> (transport_handle p' = transport_handle p \<and> transport_open p' = transport_open p \<or> may_close c \<and> \<not> transport_open p')"

lemma failed_good:
  assumes "inv p" "transport_open p" "reason \<noteq> PROV_DEVICE_RESULT_OK"
  shows "inv (fail_with reason p) \<and> owed (fail_with reason p) = owed p \<and> transport_open (fail_with reason p)
    \<and> transport_handle (fail_with reason p) = transport_handle p"
  using assms by (auto simp: prov_inv_def fail_with_def owed_def pending_def)

lemma failed_unless_good:
  assumes "inv p" "transport_open p" "reason \<noteq> PROV_DEVICE_RESULT_OK"
  shows "inv (fail_unless_known reason p) \<and> owed (fail_unless_known reason p) = owed p
    \<and> transport_open (fail_unless_known reason p) \<and> transport_handle (fail_unless_known reason p) = transport_handle p"
  using failed_good [OF assms(1,2)] assms(3) by (simp add: fail_unless_known_def)

lemma registration_data_good:
  assumes "inv p" "transport_open p"
  shows "run_sat True (answer_good (RegistrationData r key hub dev) p) (on_transport_registration_data api r key hub dev p)"
proof -
  have keep: "run_sat True (\<lambda>q. inv q \<and> owed q = owed p \<and> transport_open q \<and> transport_handle q = transport_handle p)
      (if hsm_type p = PROV_AUTH_TYPE_TPM
       then (case key of
          None \<Rightarrow> Done (fail_unless_known PROV_DEVICE_RESULT_KEY_ERROR p)
        | Some k \<Rightarrow>
            run_bind (on_auth (\<lambda>a. auth_import_key (p_auth api) a (Some k)) p) (\<lambda>(imported, p).
              Done (if imported then p else fail_with PROV_DEVICE_RESULT_KEY_ERROR p)))
       else Done p)"
  proof -
    have moved: "inv q \<and> owed q = owed p \<and> transport_open q \<and> transport_handle q = transport_handle p" if "auth_moved p q" for q
      using inv_core [OF assms(1), of q] that assms(2) core_keptD(2,3) [of p q] by simp
    have imported: "run_sat True (\<lambda>(r, q). auth_moved p q) (on_auth (\<lambda>a. auth_import_key (p_auth api) a (Some k)) p)" for k
      using on_auth_leaves [of p p, OF _ kept_import_key] inv_fit [OF assms(1)] by (simp add: leaves_def)
    have import: "run_sat True (\<lambda>q. inv q \<and> owed q = owed p \<and> transport_open q \<and> transport_handle q = transport_handle p)
        (run_bind (on_auth (\<lambda>a. auth_import_key (p_auth api) a (Some k)) p) (\<lambda>(imported, p).
           Done (if imported then p else fail_with PROV_DEVICE_RESULT_KEY_ERROR p)))" for k
    proof (rule run_sat_bindI [OF imported])
      fix x :: "bool \<times> _" assume "case x of (r, q) \<Rightarrow> auth_moved p q"
      then obtain r q where x: "x = (r, q)" and q: "auth_moved p q" by (cases x) auto
      show "run_sat True (\<lambda>q. inv q \<and> owed q = owed p \<and> transport_open q \<and> transport_handle q = transport_handle p)
        (case x of (imported, p) \<Rightarrow> Done (if imported then p else fail_with PROV_DEVICE_RESULT_KEY_ERROR p))"
        using moved [OF q] failed_good [of q PROV_DEVICE_RESULT_KEY_ERROR] by (simp add: x)
    qed
    show ?thesis
      using assms failed_unless_good [OF assms, of PROV_DEVICE_RESULT_KEY_ERROR] import by (auto split: option.split)
  qed
  have tell: "run_sat True (answer_good (RegistrationData r key hub dev) p)
      (if prov_state q \<noteq> CLIENT_STATE_ERROR
       then run_bind (tell_registered PROV_DEVICE_RESULT_OK hub dev q) (\<lambda>p.
              cleanup_prov_info api (p\<lparr>prov_state := CLIENT_STATE_READY\<rparr>))
       else Done q)"
    if q: "inv q \<and> owed q = owed p \<and> transport_open q \<and> transport_handle q = transport_handle p" for q
  proof (cases "prov_state q = CLIENT_STATE_ERROR")
    case True
    with q assms(2) show ?thesis by simp
  next
    case False
    from q obtain cb where cb: "register_callback q = Some cb" by (auto simp: prov_inv_def)
    from q obtain t where t: "transport_handle q = Some t" "sound t" "opn t" by (auto simp: prov_inv_def)
    define q1 where "q1 = (tell_prov (DeviceRegistered cb PROV_DEVICE_RESULT_OK hub dev (user_context q)) q)\<lparr>prov_state := CLIENT_STATE_READY\<rparr>"
    have "owed q = answered (prov_calls q1)"
      using q cb by (auto simp: owed_def pending_def q1_def tell_prov_def prov_inv_def)
    moreover have "run_sat True (\<lambda>p'. inv p' \<and> \<not> transport_open p' \<and> prov_state p' = CLIENT_STATE_READY
        \<and> answered (prov_calls p') = answered (prov_calls q1)) (cleanup_prov_info api q1)"
      using q t by (intro cleanup_sat [of q1 t]) (auto simp: q1_def tell_prov_def prov_inv_def)
    ultimately show ?thesis using False cb q
      by (auto simp: tell_registered_def owed_def pending_def elim!: run_sat_mono simp flip: q1_def)
  qed
  show ?thesis
  proof (cases r)
    case PROV_DEVICE_TRANSPORT_RESULT_OK
    have "on_transport_registration_data api r key hub dev p = run_bind (if hsm_type p = PROV_AUTH_TYPE_TPM
       then (case key of
          None \<Rightarrow> Done (fail_unless_known PROV_DEVICE_RESULT_KEY_ERROR p)
        | Some k \<Rightarrow>
            run_bind (on_auth (\<lambda>a. auth_import_key (p_auth api) a (Some k)) p) (\<lambda>(imported, p).
              Done (if imported then p else fail_with PROV_DEVICE_RESULT_KEY_ERROR p)))
       else Done p) (\<lambda>q. if prov_state q \<noteq> CLIENT_STATE_ERROR
       then run_bind (tell_registered PROV_DEVICE_RESULT_OK hub dev q) (\<lambda>p.
              cleanup_prov_info api (p\<lparr>prov_state := CLIENT_STATE_READY\<rparr>))
       else Done q)"
      unfolding PROV_DEVICE_TRANSPORT_RESULT_OK by (simp only: on_transport_registration_data_def PROV_DEVICE_TRANSPORT_RESULT.case)
    with run_sat_bindI [OF keep tell] show ?thesis by (simp only:)
  next
    case PROV_DEVICE_TRANSPORT_RESULT_UNAUTHORIZED
    then show ?thesis using failed_good [OF assms] assms(2) by (simp add: on_transport_registration_data_def)
  next
    case PROV_DEVICE_TRANSPORT_RESULT_ERROR
    then show ?thesis using failed_unless_good [OF assms] assms(2) by (simp add: on_transport_registration_data_def)
  qed
qed

lemma answer_leaves:
  assumes "inv p" "needs_open c \<longrightarrow> transport_open p" "patient_call c"
  shows "leaves (answer_good c p) (answer_call api c p)"
proof (cases c)
  case (RegistrationData r key hub dev)
  with assms have "run_sat True (answer_good c p) (on_transport_registration_data api r key hub dev p)"
    using registration_data_good [OF assms(1)] by simp
  then show ?thesis unfolding RegistrationData answer_call.simps leaves_def by (rule run_sat_bindI) simp
next
  case (TransportStatus st i)
  with assms(2,3) have "transport_open p" "paced (on_transport_status st i p)" by (simp_all add: on_transport_status_paced)
  with assms(1) on_transport_status_state [of st i p] show ?thesis
    by (auto simp: TransportStatus prov_inv_def owed_def pending_def)
next
  case (Challenge nonce k)
  with assms have reg: "registration_id p \<noteq> None" by (auto simp: prov_inv_def)
  have "leaves (auth_moved p) (answer_call api c p)"
    unfolding Challenge answer_call.simps by (rule leaves_bindI [OF challenge_leaves [OF inv_fit [OF assms(1)] reg]]) simp
  then show ?thesis
    by (rule leaves_mono) (use inv_core [OF assms(1)] in \<open>auto simp: core_kept_def\<close>)
next
  case (ParseReply doc)
  obtain r p' where p': "prov_transport_process_json_reply api doc p = (r, p')" by fastforce
  from process_json_reply_change [OF p'] inv_core [OF assms(1), of p'] inv_fit [OF assms(1)] show ?thesis
    by (auto simp: ParseReply p' reply_change_def core_kept_def)
next
  case (CreatePayload ek srk)
  obtain r p' where p': "prov_transport_create_json_payload api ek srk p = (r, p')" by fastforce
  from create_json_payload_change [OF p'] inv_core [OF assms(1), of p'] inv_fit [OF assms(1)] show ?thesis
    by (auto simp: CreatePayload p' reply_change_def core_kept_def)
next
  case (TransportError err)
  have "core_kept p (on_transport_error err p)" by simp
  with inv_core [OF assms(1), of "on_transport_error err p"] inv_fit [OF assms(1)] show ?thesis
    by (auto simp: TransportError core_kept_def)
qed

text \<open>A run of an orderly transport: the client keeps its invariant and its account.\<close>

lemma run_prov_work_leaves:
  assumes "orderly sound opn (transport_open p) w" "inv p"
  shows "leaves (\<lambda>p'. inv p' \<and> owed p' = owed p \<and> (never_closes w \<longrightarrow> transport_open p' = transport_open p))
    (run_prov_work api w p)"
  using assms
proof (induction w arbitrary: p)
  case (Returns r t e)
  then show ?case by (auto simp: prov_inv_def owed_def pending_def)
next
  case (Calls c t e k)
  define q where "q = p\<lparr>transport_handle := Some t, prov_env := e\<rparr>"
  have t: "sound t" "opn t = transport_open p" "needs_open c \<longrightarrow> transport_open p" "patient_call c" using Calls.prems(1) by simp_all
  have q: "inv q" "owed q = owed p" "transport_open q = transport_open p"
    using Calls.prems(2) t by (auto simp: q_def prov_inv_def owed_def pending_def)
  have "leaves (answer_good c q) (answer_call api c q)" by (rule answer_leaves) (use q t in simp_all)
  then obtain a p1 where ans: "answer_call api c q = Done (a, p1)" and good: "answer_good c q p1"
    by (auto simp: leaves_Ex)
  from good obtain t1 where t1: "transport_handle p1 = Some t1" "sound t1" "opn t1 = transport_open p1"
    by (auto simp: prov_inv_def)
  have "orderly sound opn (transport_open p1) (k a t1 (prov_env p1))"
  proof (cases "transport_handle p1 = transport_handle q \<and> transport_open p1 = transport_open q")
    case True
    then have "t1 = t" using t1 by (simp add: q_def)
    then show ?thesis using Calls.prems(1) True q(3) by simp
  next
    case False
    with good have "may_close c" "\<not> transport_open p1" by auto
    then show ?thesis using Calls.prems(1) t1 by auto
  qed
  from Calls.IH [OF rangeI rangeI rangeI this] good
  have "leaves (\<lambda>p'. inv p' \<and> owed p' = owed p1
      \<and> (never_closes (k a t1 (prov_env p1)) \<longrightarrow> transport_open p' = transport_open p1)) (run_prov_work api (k a t1 (prov_env p1)) p1)"
    by simp
  then have "leaves (\<lambda>p'. inv p' \<and> owed p' = owed p
      \<and> (never_closes (Calls c t e k) \<longrightarrow> transport_open p' = transport_open p)) (run_prov_work api (k a t1 (prov_env p1)) p1)"
    by (rule leaves_mono) (use good q in auto)
  then show ?case using t1(1) by (simp add: ans flip: q_def)
next
  case Breaks
  then show ?case by simp
qed

section \<open>Registering\<close>

text \<open>A client that is opening its transport.\<close>

abbreviation can_open :: "('a, 't, 'e, 'm) PROV_INSTANCE_INFO_scheme \<Rightarrow> bool" where
  "can_open p \<equiv> auth_fit p \<and> transport_handle p \<noteq> None \<and> \<not> transport_open p \<and> prov_state p = CLIENT_STATE_READY
     \<and> registration_id p \<noteq> None \<and> paced p"

lemma opening_answer:
  assumes "can_open p" "opening_call c"
  shows "leaves (\<lambda>p'. can_open p' \<and> core_kept p p') (answer_call api c p)"
proof (cases c)
  case (Challenge nonce k)
  have "leaves (auth_moved p) (answer_call api c p)"
    unfolding Challenge answer_call.simps
    by (rule leaves_bindI [OF challenge_leaves]) (use assms in simp_all)
  then show ?thesis by (rule leaves_mono) (use assms in \<open>auto simp: core_kept_def paced_def\<close>)
next
  case (TransportError err)
  have "core_kept p (on_transport_error err p)" by simp
  with assms(1) show ?thesis by (auto simp: TransportError core_kept_def paced_def)
qed (use assms in simp_all)

lemma run_opening:
  assumes "orderly_opening sound opn w" "can_open p"
  shows "run_sat True (\<lambda>(ok, p'). can_open p' \<and> (\<exists>t. transport_handle p' = Some t \<and> sound t \<and> opn t = ok)
    \<and> register_callback p' = register_callback p \<and> user_context p' = user_context p \<and> prov_calls p' = prov_calls p)
    (run_prov_work api w p)"
  using assms
proof (induction w arbitrary: p)
  case (Calls c t e k)
  define q where "q = p\<lparr>transport_handle := Some t, prov_env := e\<rparr>"
  have q: "can_open q" using Calls.prems(2) by (simp add: q_def)
  have "leaves (\<lambda>p'. can_open p' \<and> core_kept q p') (answer_call api c q)"
    using opening_answer [OF q] Calls.prems(1) by simp
  then obtain a p1 where ans: "answer_call api c q = Done (a, p1)" and good: "can_open p1" "core_kept q p1"
    by (auto simp: leaves_Ex)
  have "orderly_opening sound opn (k a (the (transport_handle p1)) (prov_env p1))"
    using Calls.prems(1) good(2) by (simp add: core_kept_def q_def)
  from Calls.IH [OF rangeI rangeI rangeI this good(1)] good(2) show ?case
    by (simp add: ans core_kept_def q_def [symmetric]) (simp add: q_def)
qed (auto simp: prov_inv_def)

lemma forget_good:
  assumes "inv p" "prov_state p = CLIENT_STATE_READY \<or> user_supplied_reg_id p"
  shows "inv (forget_registration_id p) \<and> owed (forget_registration_id p) = owed p"
  using assms by (auto simp: forget_registration_id_def prov_inv_def owed_def pending_def)

lemma on_auth_inv:
  assumes "inv p" "\<And>h e. usable h \<Longrightarrow> auth_kept (p_auth api) usable h (f h e)"
  shows "leaves (\<lambda>p'. inv p' \<and> owed p' = owed p \<and> core_kept p p') (on_auth f p)"
proof -
  have "auth_moved p p" using inv_fit [OF assms(1)] by simp
  from on_auth_leaves [OF this assms(2)] have "leaves (auth_moved p) (on_auth f p)" .
  then show ?thesis
  proof (rule leaves_mono)
    fix p' assume m: "auth_moved p p'"
    then have "inv p' \<and> owed p' = owed p" by (intro inv_core [OF assms(1)]) simp_all
    with m show "inv p' \<and> owed p' = owed p \<and> core_kept p p'" by simp
  qed
qed

lemma on_transport_inv:
  assumes "inv p" "\<And>t e. sound t \<Longrightarrow> transport_kept sound opn t (f t e)"
  shows "leaves (\<lambda>p'. inv p' \<and> owed p' = owed p \<and> registration_id p' = registration_id p \<and> prov_state p' = prov_state p
    \<and> user_supplied_reg_id p' = user_supplied_reg_id p) (on_prov_transport f p)"
proof -
  from assms(1) obtain t where t: "transport_handle p = Some t" "sound t" "opn t = transport_open p" by (auto simp: prov_inv_def)
  obtain r t' e' where f: "f t (prov_env p) = (r, t', e')" using prod_cases3 by blast
  have "sound t' \<and> opn t' = opn t" using assms(2) [OF t(2), of "prov_env p"] by (simp add: f transport_kept_def)
  with assms(1) t show ?thesis by (auto simp: on_prov_transport_def f prov_inv_def owed_def pending_def)
qed

lemma fetch_good:
  assumes "inv p"
  shows "run_sat True (\<lambda>p'. inv p' \<and> owed p' = owed p \<and> prov_state p' = prov_state p
    \<and> user_supplied_reg_id p' = user_supplied_reg_id p) (fetch_registration_id api p)"
proof (cases "registration_id p")
  case None
  then have ready: "prov_state p = CLIENT_STATE_READY" using assms by (auto simp: prov_inv_def)
  have "run_sat True (\<lambda>(r, p'). inv p' \<and> owed p' = owed p \<and> core_kept p p') (on_auth (auth_get_registration_id (p_auth api)) p)"
    using on_auth_inv [OF assms kept_get_registration_id] by (simp add: leaves_def)
  then show ?thesis using None ready unfolding fetch_registration_id_def
    by (auto simp: core_kept_def prov_inv_def owed_def pending_def elim!: run_sat_bindI)
qed (use assms in \<open>simp add: fetch_registration_id_def\<close>)

text \<open>The keys: what is left is a client that keeps its account and, on success, is ready to open.\<close>

abbreviation keys_good :: "('a, 't, 'e, 'm) PROV_INSTANCE_INFO_scheme \<Rightarrow> 'k option \<Rightarrow> ('a, 't, 'e, 'm) PROV_INSTANCE_INFO_scheme \<Rightarrow> bool" where
  "keys_good p keys p' \<equiv> inv p' \<and> owed p' = owed p
     \<and> (keys \<noteq> None \<longrightarrow> prov_state p' = CLIENT_STATE_READY \<and> registration_id p' = registration_id p)"

lemma keys_refused:
  assumes "inv q" "owed q = owed p" "prov_state q = CLIENT_STATE_READY"
  shows "run_sat True (\<lambda>(k, p'). keys_good p k p') (Done (None, forget_registration_id q))"
  using forget_good [OF assms(1)] assms(2,3) by simp

abbreviation same_ready :: "('a, 't, 'e, 'm) PROV_INSTANCE_INFO_scheme \<Rightarrow> ('a, 't, 'e, 'm) PROV_INSTANCE_INFO_scheme \<Rightarrow> bool" where
  "same_ready p q \<equiv> inv q \<and> owed q = owed p \<and> prov_state q = CLIENT_STATE_READY \<and> registration_id q = registration_id p"

lemma on_auth_ready:
  assumes "same_ready p q" "\<And>h e. usable h \<Longrightarrow> auth_kept (p_auth api) usable h (f h e)"
  shows "leaves (same_ready p) (on_auth f q)"
proof -
  have "leaves (\<lambda>p'. inv p' \<and> owed p' = owed q \<and> core_kept q p') (on_auth f q)"
    using assms by (intro on_auth_inv) auto
  then show ?thesis by (rule leaves_mono) (use assms(1) in \<open>auto simp: core_kept_def\<close>)
qed

lemma registration_keys_good:
  assumes "inv p" "prov_state p = CLIENT_STATE_READY \<or> user_supplied_reg_id p"
  shows "run_sat True (\<lambda>(k, p'). keys_good p k p') (registration_keys api p)"
proof (cases "prov_state p = CLIENT_STATE_READY")
  case False
  with forget_good [OF assms] show ?thesis by (simp add: registration_keys_def)
next
  case True
  define S where "S = same_ready p"
  define Q where "Q = (\<lambda>(k :: (char list option \<times> char list option) option, p'). keys_good p k p')"
  from True assms(1) have p: "S p" by (simp add: S_def)
  have refused: "Q (None, forget_registration_id q)" if "S q" for q
    using keys_refused [of q p] that by (simp add: Q_def S_def)
  have got: "Q (Some k, q)" if "S q" for k q
    using that by (simp add: Q_def S_def)
  have srk: "leaves S (on_auth (auth_get_storage_key (p_auth api)) q)" if "S q" for q
    using that unfolding S_def by (rule on_auth_ready) (rule kept_get_storage_key)
  have ek: "leaves S (on_auth (auth_get_endorsement_key (p_auth api)) q)" if "S q" for q
    using that unfolding S_def by (rule on_auth_ready) (rule kept_get_endorsement_key)
  have second: "leaves S (on_auth (auth_get_alias_key (p_auth api)) q)" if "S q" for q
    using that unfolding S_def by (rule on_auth_ready) (rule kept_get_alias_key)
  have cert: "leaves S (on_auth (auth_get_certificate (p_auth api)) q)" if "S q" for q
    using that unfolding S_def by (rule on_auth_ready) (rule kept_get_certificate)
  have sent: "leaves S (on_prov_transport (prov_transport_x509_cert (p_transport api) c k) q)" if "S q" for q c k
    unfolding S_def
    by (rule leaves_mono [OF on_transport_inv [OF _ transport_keeps_x509]]) (use that in \<open>auto simp: S_def\<close>)
  have step: "leaves S m \<Longrightarrow> (\<And>r q. S q \<Longrightarrow> run_sat True Q (f (r, q))) \<Longrightarrow> run_sat True Q (run_bind m f)" for m f
    unfolding leaves_def by (auto intro: run_sat_bindI)
  have "run_sat True Q (registration_keys api p)"
    unfolding registration_keys_def
    using True p
    by (auto intro!: step [OF ek] step [OF srk] step [OF cert] step [OF second] step [OF sent] refused got
        split: option.split)
  then show ?thesis by (simp add: Q_def)
qed

lemma open_registration_good:
  assumes "inv p" "prov_state p = CLIENT_STATE_READY" "registration_id p \<noteq> None" "register_callback p = Some cb"
  shows "run_sat True (\<lambda>(r, p'). inv p'
      \<and> owed p' = due r (cb, user_context p) + owed p)
    (open_registration api ek srk p)"
proof -
  from assms obtain t where t: "transport_handle p = Some t" "sound t" "\<not> opn t" by (auto simp: prov_inv_def)
  have "can_open p" using assms by (auto simp: prov_inv_def)
  from run_opening [OF transport_opened [OF t(2,3)] this]
  have "run_sat True (\<lambda>(ok, p'). can_open p' \<and> (\<exists>t. transport_handle p' = Some t \<and> sound t \<and> opn t = ok)
      \<and> register_callback p' = Some cb \<and> user_context p' = user_context p \<and> prov_calls p' = prov_calls p)
    (run_transport api (prov_transport_open (p_transport api) (registration_id p) ek srk) p)"
    by (simp add: run_transport_def t(1) assms(4))
  then show ?thesis unfolding open_registration_def
    by (rule run_sat_bindI) (use assms in \<open>auto simp: prov_inv_def owed_def pending_def forget_registration_id_def\<close>)
qed

lemma register_good:
  fixes p :: "('a, 't, 'e, 'm) PROV_INSTANCE_INFO_scheme"
  assumes "inv p" "prov_state p = CLIENT_STATE_READY \<or> user_supplied_reg_id p"
  shows "run_sat True (\<lambda>(r, h). \<exists>p'. h = Some p' \<and> inv p'
      \<and> owed p' = due r (the cb, ctx) + owed p)
    (Prov_Device_LL_Register_Device api cb ctx scb sctx (Some p))"
proof (cases cb)
  case (Some c)
  define given where "given = (\<lambda>q :: ('a, 't, 'e, 'm) PROV_INSTANCE_INFO_scheme. q\<lparr>register_callback := cb, user_context := ctx, register_status_cb := scb,
      status_user_ctx := sctx, custom_response_data := None\<rparr>)"
  have opened: "run_sat True (\<lambda>(r, p'). inv p' \<and> owed p' = due r (c, ctx) + owed p)
      (open_registration api ek srk (given q))"
    if "inv q" "owed q = owed p" "prov_state q = CLIENT_STATE_READY" "registration_id q \<noteq> None" 
    for q :: "('a, 't, 'e, 'm) PROV_INSTANCE_INFO_scheme" and ek srk
  proof -
    have "inv (given q)" "owed (given q) = owed p" "user_context (given q) = ctx"
      using that by (auto simp: given_def prov_inv_def owed_def pending_def)
    moreover have "prov_state (given q) = CLIENT_STATE_READY" "registration_id (given q) \<noteq> None" "register_callback (given q) = Some c"
      using that Some by (simp_all add: given_def)
    ultimately show ?thesis using open_registration_good [of "given q" c ek srk] by simp
  qed
  have keyed: "run_sat True (\<lambda>(r, h). \<exists>p'. h = Some p' \<and> inv p'
      \<and> owed p' = due r (c, ctx) + owed p)
      (run_bind (registration_keys api q) (\<lambda>(keys, p).
              case keys of
                None \<Rightarrow> Done (PROV_DEVICE_RESULT_ERROR, Some p)
              | Some (ek_value, srk_value) \<Rightarrow>
                  run_bind (open_registration api ek_value srk_value (given p)) (\<lambda>(r, p). Done (r, Some p))))"
    if q: "inv q" "owed q = owed p" "prov_state q = CLIENT_STATE_READY \<or> user_supplied_reg_id q" "registration_id q \<noteq> None"
    for q :: "('a, 't, 'e, 'm) PROV_INSTANCE_INFO_scheme"
  proof (rule run_sat_bindI [OF registration_keys_good [OF q(1,3)]])
    fix x :: "(char list option \<times> char list option) option \<times> _" assume x: "case x of (k, p') \<Rightarrow> keys_good q k p'"
    obtain k q' where xq: "x = (k, q')" by fastforce
    show "run_sat True (\<lambda>(r, h). \<exists>p'. h = Some p' \<and> inv p'
        \<and> owed p' = due r (c, ctx) + owed p)
      (case x of (keys, p) \<Rightarrow> case keys of
                None \<Rightarrow> Done (PROV_DEVICE_RESULT_ERROR, Some p)
              | Some (ek_value, srk_value) \<Rightarrow>
                  run_bind (open_registration api ek_value srk_value (given p)) (\<lambda>(r, p). Done (r, Some p)))"
    proof (cases k)
      case None
      with x q(2) show ?thesis by (simp add: xq)
    next
      case (Some ks)
      obtain ek srk where ks: "ks = (ek, srk)" by fastforce
      have "run_sat True (\<lambda>(r, p'). inv p' \<and> owed p' = due r (c, ctx) + owed p)
          (open_registration api ek srk (given q'))"
        using x q by (intro opened) (simp_all add: xq Some)
      then show ?thesis by (auto simp: xq Some ks elim!: run_sat_bindI)
    qed
  qed
  have "Prov_Device_LL_Register_Device api cb ctx scb sctx (Some p) =
      run_bind (fetch_registration_id api p) (\<lambda>p.
        if registration_id p = None then Done (PROV_DEVICE_RESULT_ERROR, Some p)
        else run_bind (registration_keys api p) (\<lambda>(keys, p).
              case keys of
                None \<Rightarrow> Done (PROV_DEVICE_RESULT_ERROR, Some p)
              | Some (ek_value, srk_value) \<Rightarrow>
                  run_bind (open_registration api ek_value srk_value (given p)) (\<lambda>(r, p). Done (r, Some p))))"
    unfolding Prov_Device_LL_Register_Device_def given_def Some by simp
  moreover have "run_sat True (\<lambda>(r, h). \<exists>p'. h = Some p' \<and> inv p'
      \<and> owed p' = due r (the cb, ctx) + owed p) \<dots>"
    by (rule run_sat_bindI [OF fetch_good [OF assms(1)]]) (use assms(2) in \<open>auto simp: Some intro!: keyed\<close>)
  ultimately show ?thesis by simp
qed (use assms in \<open>simp add: Prov_Device_LL_Register_Device_def\<close>)

section \<open>The turn\<close>

abbreviation steady :: "('a, 't, 'e, 'm) PROV_INSTANCE_INFO_scheme \<Rightarrow> ('a, 't, 'e, 'm) PROV_INSTANCE_INFO_scheme \<Rightarrow> bool" where
  "steady p p' \<equiv> inv p' \<and> owed p' = owed p"

lemma run_transport_good:
  assumes "inv p" "\<And>t e. sound t \<Longrightarrow> opn t = transport_open p \<Longrightarrow> orderly sound opn (transport_open p) (f t e)"
  shows "leaves (\<lambda>p'. steady p p' \<and> ((\<forall>t e. sound t \<longrightarrow> opn t = transport_open p \<longrightarrow> never_closes (f t e)) \<longrightarrow> transport_open p' = transport_open p))
    (run_transport api f p)"
proof -
  from assms(1) obtain t where t: "transport_handle p = Some t" "sound t" "opn t = transport_open p" by (auto simp: prov_inv_def)
  from run_prov_work_leaves [OF assms(2) [OF t(2,3)] assms(1)]
  have "leaves (\<lambda>p'. steady p p' \<and> (never_closes (f t (prov_env p)) \<longrightarrow> transport_open p' = transport_open p))
      (run_prov_work api (f t (prov_env p)) p)" by simp
  then show ?thesis unfolding run_transport_def t(1) option.case by (rule leaves_mono) (use t in auto)
qed

lemma read_ticks_good: "read_ticks api p = (now, p') \<Longrightarrow> inv p \<Longrightarrow> steady p p' \<and> core_kept p p'"
  using core_kept_env [of "p_tickcounter_get_current_ms api" p now p'] inv_core [of p p'] inv_fit [of p]
  by (auto simp: read_ticks_def core_kept_def)

text \<open>A running client may go to any state that runs.\<close>

lemma running_good:
  assumes "inv p" "transport_open p"
  shows "steady p (p\<lparr>timeout_value := v, prov_state := CLIENT_STATE_REGISTER_SENT\<rparr>)"
    "steady p (p\<lparr>prov_state := CLIENT_STATE_STATUS_SENT\<rparr>)" "steady p (p\<lparr>timeout_value := v\<rparr>)"
  using assms by (auto simp: prov_inv_def owed_def pending_def)

lemma stamped_good: "inv p \<Longrightarrow> steady p (p\<lparr>last_send_time_ms := v\<rparr>)"
  by (auto simp: prov_inv_def owed_def pending_def)

lemma ticking_good:
  assumes "inv p" "transport_open p" "read_ticks api p = (now, q)"
  shows "steady p q \<and> transport_open q \<and> prov_state q = prov_state p"
  using read_ticks_good [OF assms(3,1)] assms(2) by (simp add: core_kept_def)

lemma send_good:
  assumes "inv p" "transport_open p"
    and orderly: "\<And>t e. sound t \<Longrightarrow> opn t \<Longrightarrow> orderly sound opn True (f t e)"
    and waits: "\<And>t e. sound t \<Longrightarrow> opn t \<Longrightarrow> never_closes (f t e)"
  shows "leaves (\<lambda>q. steady p q \<and> transport_open q) (run_transport api f p)"
  by (rule leaves_mono [OF run_transport_good [OF assms(1)]]) (use assms in auto)

lemma sends_and_stamps:
  fixes m :: "('r \<times> ('a, 't, 'e, 'm) PROV_INSTANCE_INFO_scheme) run"
  assumes "leaves (\<lambda>q. steady p q \<and> transport_open q) m"
    and "\<And>r q. steady p q \<and> transport_open q \<Longrightarrow> steady p (A r q)"
  shows "run_sat True (steady p) (run_bind m (\<lambda>(r, q). Done ((A r q)\<lparr>last_send_time_ms := v\<rparr>)))"
  using assms(1) unfolding leaves_def
proof (rule run_sat_bindI)
  fix x :: "'r \<times> ('a, 't, 'e, 'm) PROV_INSTANCE_INFO_scheme"
  assume x: "case x of (r, q) \<Rightarrow> steady p q \<and> transport_open q"
  obtain r q where "x = (r, q)" by (cases x)
  with x assms(2) [of q r] stamped_good [of "A r q" v] show "run_sat True (steady p)
      (case x of (r, q) \<Rightarrow> Done ((A r q)\<lparr>last_send_time_ms := v\<rparr>))" by simp
qed

lemma work_register_send_good:
  fixes p :: "('a, 't, 'e, 'm) PROV_INSTANCE_INFO_scheme"
  assumes "inv p" "transport_open p"
  shows "run_sat True (steady p) (work_register_send api p)"
proof -
  obtain now q where q: "read_ticks api p = (now, q)" by fastforce
  note q_good = ticking_good [OF assms q]
  have sent: "leaves (\<lambda>q'. steady p q' \<and> transport_open q') (run_transport api (prov_transport_register (p_transport api)) q)"
    by (rule leaves_mono [OF send_good]) (use q_good transport_registers transport_register_waits in auto)
  define A where "A = (\<lambda>ok (q' :: ('a, 't, 'e, 'm) PROV_INSTANCE_INFO_scheme). if \<not> ok then fail_unless_known PROV_DEVICE_RESULT_TRANSPORT q'
      else case read_ticks api q' of (now, p) \<Rightarrow>
        p\<lparr>timeout_value := (case now of None \<Rightarrow> timeout_value p | Some n \<Rightarrow> n), prov_state := CLIENT_STATE_REGISTER_SENT\<rparr>)"
  have answer: "steady p (A ok q')" if q': "steady p q' \<and> transport_open q'" for ok q'
  proof (cases ok)
    case True
    obtain n q2 where q2: "read_ticks api q' = (n, q2)" by fastforce
    have "steady q' q2 \<and> transport_open q2" using ticking_good [OF _ _ q2] q' by simp
    with q' True running_good(1) [of q2] show ?thesis by (simp add: A_def q2)
  qed (use q' failed_unless_good [of q' PROV_DEVICE_RESULT_TRANSPORT] in \<open>simp add: A_def\<close>)
  show ?thesis
  proof (cases "now = None \<or> \<not> may_send (the now) q")
    case True
    with q_good failed_good [of q PROV_DEVICE_RESULT_ERROR] show ?thesis
      by (cases now) (auto simp: work_register_send_def q)
  next
    case False
    then have "work_register_send api p = run_bind (run_transport api (prov_transport_register (p_transport api)) q) (\<lambda>(sent, p).
        Done ((A sent p)\<lparr>last_send_time_ms := the now\<rparr>))"
      by (auto simp: work_register_send_def q Let_def A_def)
    with sends_and_stamps [OF sent answer] show ?thesis by simp
  qed
qed

lemma work_status_send_good:
  fixes p :: "('a, 't, 'e, 'm) PROV_INSTANCE_INFO_scheme"
  assumes "inv p" "transport_open p"
  shows "run_sat True (steady p) (work_status_send api p)"
proof -
  obtain now q where q: "read_ticks api p = (now, q)" by fastforce
  note q_good = ticking_good [OF assms q]
  have sent: "leaves (\<lambda>q'. steady p q' \<and> transport_open q') (run_transport api (prov_transport_get_op_status (p_transport api)) q)"
    by (rule leaves_mono [OF send_good]) (use q_good transport_asks_status transport_status_waits in auto)
  define A where "A = (\<lambda>ok (q' :: ('a, 't, 'e, 'm) PROV_INSTANCE_INFO_scheme). if \<not> ok then fail_unless_known PROV_DEVICE_RESULT_TRANSPORT q'
      else case read_ticks api (q'\<lparr>prov_state := CLIENT_STATE_STATUS_SENT\<rparr>) of
          (None, p) \<Rightarrow> fail_with PROV_DEVICE_RESULT_ERROR p
        | (Some n, p) \<Rightarrow> p\<lparr>timeout_value := n\<rparr>)"
  have answer: "steady p (A ok q')" if q': "steady p q' \<and> transport_open q'" for ok q'
  proof (cases ok)
    case True
    define q1 where "q1 = q'\<lparr>prov_state := CLIENT_STATE_STATUS_SENT\<rparr>"
    have q1: "steady q' q1 \<and> transport_open q1" using running_good(2) [of q'] q' by (simp add: q1_def)
    obtain n q2 where q2: "read_ticks api q1 = (n, q2)" by fastforce
    have "steady q1 q2 \<and> transport_open q2" using ticking_good [OF _ _ q2] q1 by simp
    with q' q1 True running_good(3) [of q2] failed_good [of q2 PROV_DEVICE_RESULT_ERROR] show ?thesis
      by (simp add: A_def q2 split: option.split flip: q1_def)
  qed (use q' failed_unless_good [of q' PROV_DEVICE_RESULT_TRANSPORT] in \<open>simp add: A_def\<close>)
  show ?thesis
  proof (cases "now = None \<or> \<not> may_send (the now) q")
    case True
    with q_good failed_good [of q PROV_DEVICE_RESULT_ERROR] show ?thesis
      by (cases now) (auto simp: work_status_send_def q)
  next
    case False
    then have "work_status_send api p = run_bind (run_transport api (prov_transport_get_op_status (p_transport api)) q) (\<lambda>(sent, p).
        Done ((A sent p)\<lparr>last_send_time_ms := the now\<rparr>))"
      by (auto simp: work_status_send_def q Let_def A_def)
    with sends_and_stamps [OF sent answer] show ?thesis by simp
  qed
qed

lemma check_timeout_good:
  assumes "inv p" "transport_open p"
  shows "steady p (check_timeout api p) \<and> transport_open (check_timeout api p)"
proof -
  obtain now q where q: "read_ticks api p = (now, q)" by fastforce
  from ticking_good [OF assms q] failed_good [of q PROV_DEVICE_RESULT_TIMEOUT] assms show ?thesis
    by (simp add: check_timeout_def q Let_def)
qed

lemma report_error_good:
  assumes "inv p" "prov_state p \<noteq> CLIENT_STATE_READY"
  shows "run_sat True (\<lambda>p'. steady p p' \<and> prov_state p' = CLIENT_STATE_READY) (report_error api p)"
proof -
  from assms obtain cb where cb: "register_callback p = Some cb" by (auto simp: prov_inv_def)
  from assms obtain t where t: "transport_handle p = Some t" "sound t" "opn t = transport_open p" by (auto simp: prov_inv_def)
  define q where "q = (tell_prov (DeviceRegistered cb (error_reason p) None None (user_context p)) p)\<lparr>prov_state := CLIENT_STATE_READY\<rparr>"
  have "run_sat True (\<lambda>p'. inv p' \<and> \<not> transport_open p' \<and> prov_state p' = CLIENT_STATE_READY
      \<and> answered (prov_calls p') = answered (prov_calls q)) (cleanup_prov_info api q)"
    using t assms inv_fit [OF assms(1)] by (intro cleanup_sat [of q t]) (auto simp: q_def tell_prov_def prov_inv_def)
  moreover have "owed p = answered (prov_calls q)"
    using assms(2) cb by (simp add: owed_def pending_def q_def tell_prov_def)
  ultimately show ?thesis
    by (auto simp: report_error_def tell_registered_def cb owed_def pending_def elim!: run_sat_mono simp flip: q_def)
qed

lemma work_by_state_good:
  assumes "inv p"
  shows "run_sat True (steady p) (work_by_state api p)"
proof (cases "prov_state p = CLIENT_STATE_READY")
  case False
  define S where "S = steady p"
  from False assms have opn: "transport_open p"
    and states: "prov_state p \<noteq> CLIENT_STATE_REGISTER_RECV" "prov_state p \<noteq> CLIENT_STATE_STATUS_RECV"
    by (simp_all add: prov_inv_def)
  have "run_sat True S (work_register_send api p)" "run_sat True S (work_status_send api p)" "S (check_timeout api p)"
      "run_sat True S (report_error api p)"
    using work_register_send_good [OF assms opn] work_status_send_good [OF assms opn] check_timeout_good [OF assms opn]
      run_sat_mono [OF report_error_good [OF assms False]] by (simp_all add: S_def)
  with False states have "run_sat True S (work_by_state api p)"
    by (simp add: work_by_state_def split: CLIENT_STATE.split)
  then show ?thesis by (simp add: S_def)
qed (use assms in \<open>simp add: work_by_state_def\<close>)

lemma DoWork_good:
  assumes "inv p"
  shows "run_sat True (\<lambda>h. \<exists>p'. h = Some p' \<and> steady p p') (Prov_Device_LL_DoWork api (Some p))"
proof -
  have "run_sat True (steady p) (if prov_state p \<noteq> CLIENT_STATE_ERROR
      then run_bind (run_transport api (prov_transport_dowork (p_transport api)) p) (\<lambda>(_, p). Done p) else Done p)"
  proof (cases "prov_state p = CLIENT_STATE_ERROR")
    case False
    have "leaves (steady p) (run_transport api (prov_transport_dowork (p_transport api)) p)"
    proof (rule leaves_mono [OF run_transport_good [OF assms]])
      show "orderly sound opn (transport_open p) (prov_transport_dowork (p_transport api) t e)"
        if "sound t" "opn t = transport_open p" for t e
        using transport_works [OF that(1), of e] that(2) by simp
    qed simp
    with False show ?thesis unfolding leaves_def by (auto elim!: run_sat_bindI)
  qed (use assms in simp)
  then show ?thesis unfolding Prov_Device_LL_DoWork_def option.case
  proof (rule run_sat_bindI)
    fix q assume q: "steady p q"
    have "run_sat True (steady q) (work_by_state api q)" using q by (intro work_by_state_good) simp
    then show "run_sat True (\<lambda>h. \<exists>p'. h = Some p' \<and> steady p p') (run_bind (work_by_state api q) (\<lambda>p. Done (Some p)))"
      by (rule run_sat_bindI) (use q in simp)
  qed
qed

end

end
