(* ===== verification/ProvMqttLaws.thy ===== *)
theory ProvMqttLaws
  imports ProvMqtt ProvSteps
begin

text \<open>
  The MQTT transport keeps the laws of a transport, as long as the broker sends nothing before it is asked;
  and its texts fit the buffers made for them.
\<close>

section \<open>Texts and buffers\<close>

lemma nat_str_word16: "length (nat_str (unat (n :: 16 word))) \<le> 5"
  using nat_str_length [of "unat n" 4] unsigned_less [of n, where ?'a = nat] by simp

lemma parse_retry_after_patient: "patient (parse_retry_after_value s)"
proof -
  have one: "patient (of_nat PROV_GET_THROTTLE_TIME)"
    by (simp add: patient_def PROV_GET_THROTTLE_TIME_def MAX_PROV_GET_THROTTLE_TIME_def)
  have "patient r" if "\<not> r < of_nat PROV_GET_THROTTLE_TIME" "\<not> r > of_nat MAX_PROV_GET_THROTTLE_TIME" for r :: "32 word"
    using that by (simp add: patient_def PROV_GET_THROTTLE_TIME_def MAX_PROV_GET_THROTTLE_TIME_def word_less_nat_alt)
  with one show ?thesis
    by (auto simp: parse_retry_after_value_def Let_def split: option.split)
qed

text \<open>The texts the MQTT transport prints fit the buffers it allocates for them from the lengths of the formats:
  the topic of a registration and of a question for its status, for every packet number of 16 bits and
  every operation id, and the user name of the connection.
\<close>

theorem topics_fit_their_buffers:
  "length (register_topic n) \<le> length MQTT_REGISTER_MESSAGE_FMT + 8
   \<and> length (status_topic n op_id) \<le> length MQTT_STATUS_MESSAGE_FMT + length op_id + 8
   \<and> length (mqtt_user scope reg version) \<le> length MQTT_USERNAME_FMT + length reg + length scope + length version
       + length PROV_DEVICE_CLIENT_VERSION"
  using nat_str_word16 [of n]
  by (simp add: register_topic_def status_topic_def mqtt_user_def MQTT_REGISTER_MESSAGE_FMT_def MQTT_STATUS_MESSAGE_FMT_def
      MQTT_USERNAME_FMT_def)

section \<open>The broker waits\<close>

text \<open>
  A client that was not asked to publish reports no message: the broker sends on the topic of the replies
  only what answers a request. \<open>waiting\<close> says that of the state of the MQTT client.
\<close>

fun message_event :: "mqtt_event \<Rightarrow> bool" where
  "message_event (Published topic payload) = True"
| "message_event _ = False"

definition keeps_waiting :: "('q \<Rightarrow> bool) \<Rightarrow> ('r, 'q, 'e) mqtt_fun \<Rightarrow> bool" where
  "keeps_waiting waiting f \<longleftrightarrow>
     (\<forall>q e. waiting q \<longrightarrow> waiting (fst (snd (f q e))) \<and> \<not> list_ex message_event (snd (fst (f q e))))"

definition broker_waits :: "('q, 'io, 'e, 'x) mqtt_api_scheme \<Rightarrow> ('q \<Rightarrow> bool) \<Rightarrow> bool" where
  "broker_waits mq waiting \<longleftrightarrow>
     (\<forall>e q. fst (mqtt_client_init mq e) = Some q \<longrightarrow> waiting q)
     \<and> (\<forall>io options. keeps_waiting waiting (mqtt_client_connect mq io options))
     \<and> (\<forall>n topic. keeps_waiting waiting (mqtt_client_subscribe mq n topic))
     \<and> keeps_waiting waiting (mqtt_client_disconnect mq) \<and> keeps_waiting waiting (mqtt_client_dowork mq)
     \<and> (\<forall>b q. waiting q \<longrightarrow> waiting (mqtt_client_set_trace mq b q))"

lemma broker_waitsD:
  assumes "broker_waits mq waiting"
  shows "mqtt_client_init mq e = (Some q, e') \<Longrightarrow> waiting q"
    "keeps_waiting waiting (mqtt_client_connect mq io options)" "keeps_waiting waiting (mqtt_client_subscribe mq n topic)"
    "keeps_waiting waiting (mqtt_client_disconnect mq)" "keeps_waiting waiting (mqtt_client_dowork mq)"
    "waiting q \<Longrightarrow> waiting (mqtt_client_set_trace mq b q)"
  using assms unfolding broker_waits_def by (metis fst_conv, auto)

section \<open>The invariant of the transport\<close>

text \<open>
  A state that calls a callback of register has it; a state that asks for a status has an operation id; a
  transport whose callbacks of register are not set has a client that waits.
\<close>

definition mqtt_core :: "('q \<Rightarrow> bool) \<Rightarrow> ('q, 'io, 'e, 'm) PROV_TRANSPORT_MQTT_INFO_scheme \<Rightarrow> bool" where
  "mqtt_core waiting t \<longleftrightarrow>
     (mqtt_registration_id t \<noteq> None \<longrightarrow> open_callbacks t)
     \<and> (transport_state t \<in> {TRANSPORT_CLIENT_STATE_REG_SEND, TRANSPORT_CLIENT_STATE_REG_RECV,
          TRANSPORT_CLIENT_STATE_STATUS_SEND, TRANSPORT_CLIENT_STATE_STATUS_RECV} \<longrightarrow> json_callbacks t)
     \<and> (transport_state t = TRANSPORT_CLIENT_STATE_STATUS_SEND \<longrightarrow> mqtt_operation_id t \<noteq> None)
     \<and> (mqtt_operation_id t \<noteq> None \<longrightarrow> json_callbacks t)
     \<and> (json_callbacks t \<or> waiting (mqtt_client t))
     \<and> patient (retry_after_value t)"

definition mqtt_open :: "('q, 'io, 'e, 'm) PROV_TRANSPORT_MQTT_INFO_scheme \<Rightarrow> bool" where
  "mqtt_open t \<longleftrightarrow> mqtt_registration_id t \<noteq> None"

definition mqtt_sound ::
  "('q, 'io, 'e, 'x) mqtt_api_scheme \<Rightarrow> ('q \<Rightarrow> bool) \<Rightarrow> ('q, 'io, 'e, 'm) PROV_TRANSPORT_MQTT_INFO_scheme \<Rightarrow> bool" where
  "mqtt_sound mq waiting t \<longleftrightarrow>
     broker_waits mq waiting \<and> mqtt_core waiting t \<and> (mqtt_state t \<noteq> MQTT_STATE_IDLE \<longrightarrow> mqtt_open t)"

text \<open>An open transport whose invariant holds.\<close>

definition mqtt_live :: "('q \<Rightarrow> bool) \<Rightarrow> ('q, 'io, 'e, 'm) PROV_TRANSPORT_MQTT_INFO_scheme \<Rightarrow> bool" where
  "mqtt_live waiting t \<longleftrightarrow> mqtt_core waiting t \<and> mqtt_open t"

lemma mqtt_live_sound: "broker_waits mq waiting \<Longrightarrow> mqtt_live waiting t \<Longrightarrow> mqtt_sound mq waiting t \<and> mqtt_open t"
  by (simp add: mqtt_live_def mqtt_sound_def)

lemma mqtt_live_callbacks: "mqtt_live waiting t \<Longrightarrow> open_callbacks t"
  by (simp add: mqtt_live_def mqtt_core_def mqtt_open_def)

section \<open>Runs that keep an invariant\<close>

primrec work_sat :: "('t \<Rightarrow> bool) \<Rightarrow> ('r \<Rightarrow> 't \<Rightarrow> bool) \<Rightarrow> ('r, 't, 'e) prov_work \<Rightarrow> bool" where
  "work_sat I Q (Returns r t e) = Q r t"
| "work_sat I Q (Calls c t e k) = (I t \<and> patient_call c \<and> \<not> may_close c \<and> (\<forall>a e'. work_sat I Q (k a t e')))"
| "work_sat I Q Breaks = False"

lemma prov_work_cases_induct [case_names Returns Calls Breaks]:
  assumes "\<And>r t e. P (Returns r t e)" "\<And>c t e k. (\<And>a t' e'. P (k a t' e')) \<Longrightarrow> P (Calls c t e k)" "P Breaks"
  shows "P w"
proof (induction w)
  case (Calls c t e k)
  have "P (k a t' e')" for a t' e' by (rule Calls [OF rangeI rangeI rangeI])
  then show ?case by (rule assms(2))
qed (rule assms)+

lemma work_sat_bindI:
  "work_sat I P m \<Longrightarrow> (\<And>r t e. P r t \<Longrightarrow> work_sat I Q (f r t e)) \<Longrightarrow> work_sat I Q (work_bind m f)"
  by (induction m rule: prov_work_cases_induct) auto

lemma work_sat_mono: "work_sat I Q w \<Longrightarrow> (\<And>r t. Q r t \<Longrightarrow> Q' r t) \<Longrightarrow> work_sat I Q' w"
  by (induction w rule: prov_work_cases_induct) auto

lemma orderly_bindI:
  assumes "work_sat I P m" "\<And>t. I t \<Longrightarrow> sound t \<and> opn t" "\<And>r t e. P r t \<Longrightarrow> orderly sound opn True (f r t e)"
  shows "orderly sound opn True (work_bind m f)"
  using assms(1) by (induction m rule: prov_work_cases_induct) (use assms(2,3) in auto)

lemma orderly_work_sat:
  assumes "work_sat I Q m" "\<And>t. I t \<Longrightarrow> sound t \<and> opn t" "\<And>r t. Q r t \<Longrightarrow> sound t \<and> opn t"
  shows "orderly sound opn True m"
  using assms(1) by (induction m rule: prov_work_cases_induct) (use assms(2,3) in auto)

section \<open>What the library reports\<close>

lemma read_topic_core:
  assumes "mqtt_core waiting t" "json_callbacks t"
  shows "mqtt_core waiting (read_topic topic t)" "json_callbacks (read_topic topic t)"
    "mqtt_registration_id (read_topic topic t) = mqtt_registration_id t" "mqtt_client (read_topic topic t) = mqtt_client t"
  using assms parse_retry_after_patient
  by (auto simp: read_topic_def get_retry_after_property_def mqtt_failed_def mqtt_core_def split: option.split)

lemma notification_core:
  assumes "mqtt_core waiting t" "json_callbacks t" "mqtt_notification_callback os topic payload t e = (t', e')"
  shows "mqtt_core waiting t' \<and> json_callbacks t' \<and> mqtt_registration_id t' = mqtt_registration_id t \<and> mqtt_client t' = mqtt_client t"
proof -
  have "mqtt_core waiting u" if "mqtt_core waiting v" "json_callbacks v" "transport_state u \<noteq> TRANSPORT_CLIENT_STATE_STATUS_SEND"
      "json_callbacks u" "mqtt_registration_id u = mqtt_registration_id v" "open_callbacks u = open_callbacks v"
      "retry_after_value u = retry_after_value v" for u v :: "('a, 'b, 'c, 'd) PROV_TRANSPORT_MQTT_INFO_scheme"
    using that by (simp add: mqtt_core_def)
  with read_topic_core [OF assms(1,2), of topic] assms(3) show ?thesis
    by (auto simp: mqtt_notification_callback_def Let_def mqtt_failed_def split: if_splits option.splits prod.splits)
qed

lemma core_failed:
  "mqtt_core waiting t \<Longrightarrow> mqtt_core waiting (mqtt_failed t) \<and> json_callbacks (mqtt_failed t) = json_callbacks t
     \<and> mqtt_registration_id (mqtt_failed t) = mqtt_registration_id t \<and> mqtt_client (mqtt_failed t) = mqtt_client t"
  by (simp add: mqtt_core_def mqtt_failed_def)

lemma core_mqtt_state [simp]: "mqtt_core waiting (t\<lparr>mqtt_state := s\<rparr>) = mqtt_core waiting t"
  by (simp add: mqtt_core_def)

lemma callback_core:
  assumes "mqtt_core waiting t" "message_event ev \<longrightarrow> json_callbacks t" "mqtt_callback os ev t e = (err, t', e')"
  shows "mqtt_core waiting t' \<and> json_callbacks t' = json_callbacks t \<and> mqtt_registration_id t' = mqtt_registration_id t
    \<and> mqtt_client t' = mqtt_client t"
proof (cases ev)
  case (Published topic payload)
  with assms(2) have "json_callbacks t" by simp
  moreover have "mqtt_notification_callback os topic payload t e = (t', e')" using assms(3) Published by simp
  ultimately show ?thesis using notification_core [OF assms(1), of os topic payload e t' e'] by simp
next
  case (Connack code)
  with assms(1,3) core_failed [OF assms(1)] show ?thesis by (auto split: option.splits if_splits)
next
  case (Suback qos)
  with assms(1,3) core_failed [OF assms(1)] show ?thesis by (auto split: option.splits if_splits)
next
  case OtherAck
  with assms(1,3) show ?thesis by simp
next
  case MqttError
  with assms(1,3) core_failed [OF assms(1)] show ?thesis by auto
qed

text \<open>The reports of an open transport.\<close>

lemma callbacks_live:
  assumes "mqtt_live waiting t" "list_ex message_event evs \<longrightarrow> json_callbacks t"
  shows "work_sat (mqtt_live waiting) (\<lambda>_ t'. mqtt_live waiting t' \<and> json_callbacks t' = json_callbacks t) (mqtt_callbacks os evs t e)"
  using assms
proof (induction evs arbitrary: t e)
  case (Cons ev evs)
  obtain err t1 e1 where ev: "mqtt_callback os ev t e = (err, t1, e1)" using prod_cases3 by blast
  have t1: "mqtt_live waiting t1" "json_callbacks t1 = json_callbacks t"
    using callback_core [OF _ _ ev, of waiting] Cons.prems by (auto simp: mqtt_live_def mqtt_open_def)
  with Cons.IH [OF t1(1)] Cons.prems show ?case by (auto simp: ev split: option.split)
qed simp

lemma on_mqtt_live:
  assumes "mqtt_live waiting t" "json_callbacks t \<or> keeps_waiting waiting f"
  shows "work_sat (mqtt_live waiting) (\<lambda>_ t'. mqtt_live waiting t' \<and> json_callbacks t' = json_callbacks t) (on_mqtt os f t e)"
proof -
  obtain r evs q e' where f: "f (mqtt_client t) e = ((r, evs), q, e')" by (metis prod.collapse)
  have "mqtt_live waiting (t\<lparr>mqtt_client := q\<rparr>) \<and> (list_ex message_event evs \<longrightarrow> json_callbacks t)"
  proof (cases "json_callbacks t")
    case False
    with assms have "keeps_waiting waiting f" "waiting (mqtt_client t)" by (auto simp: mqtt_live_def mqtt_core_def)
    then have "waiting q" "\<not> list_ex message_event evs"
      unfolding keeps_waiting_def by (metis f fst_conv snd_conv)+
    with assms(1) show ?thesis by (simp add: mqtt_live_def mqtt_core_def mqtt_open_def)
  qed (use assms(1) in \<open>simp add: mqtt_live_def mqtt_core_def mqtt_open_def\<close>)
  then show ?thesis unfolding on_mqtt_def f prod.case
    by (intro work_sat_bindI [OF callbacks_live]) auto
qed

section \<open>The turn\<close>

text \<open>Everything but the reports of a registration keeps an open transport open and its invariant.\<close>

abbreviation stays_live :: "('q \<Rightarrow> bool) \<Rightarrow> ('r, ('q, 'io, 'e, 'm) PROV_TRANSPORT_MQTT_INFO_scheme, 'e) prov_work \<Rightarrow> bool" where
  "stays_live waiting w \<equiv> work_sat (mqtt_live waiting) (\<lambda>_. mqtt_live waiting) w"

lemma on_mqtt_stays:
  assumes "mqtt_live waiting t" "json_callbacks t \<or> keeps_waiting waiting f"
  shows "stays_live waiting (on_mqtt os f t e)"
  by (rule work_sat_mono [OF on_mqtt_live [OF assms]]) simp

text \<open>Fields that the invariant does not read, and those that it lets change.\<close>

lemma live_packet_id [simp]: "mqtt_live waiting (t\<lparr>packet_id := n\<rparr>) = mqtt_live waiting t"
  by (simp add: mqtt_live_def mqtt_core_def mqtt_open_def)

lemma live_packet: "get_next_packet_id t = (n, t') \<Longrightarrow> mqtt_live waiting t' = mqtt_live waiting t \<and> json_callbacks t' = json_callbacks t"
  unfolding get_next_packet_id_def Let_def
  by (cases "unat (packet_id t) + 1 \<ge> 65535") (simp_all only: if_True if_False prod.inject, auto)

lemma live_failed: "mqtt_live waiting t \<Longrightarrow> mqtt_live waiting (mqtt_failed t)"
  by (simp add: mqtt_failed_def mqtt_live_def mqtt_core_def mqtt_open_def)

lemma live_updates [simp]:
  "mqtt_live waiting (t\<lparr>mqtt_state := s\<rparr>) = mqtt_live waiting t"
  "mqtt_live waiting (t\<lparr>transport_io := io\<rparr>) = mqtt_live waiting t"
  by (simp_all add: mqtt_live_def mqtt_core_def mqtt_open_def)

lemma live_quiet_state:
  "mqtt_live waiting t \<Longrightarrow> s \<in> {TRANSPORT_CLIENT_STATE_IDLE, TRANSPORT_CLIENT_STATE_REG_SENT, TRANSPORT_CLIENT_STATE_STATUS_SENT}
     \<Longrightarrow> mqtt_live waiting (t\<lparr>transport_state := s\<rparr>)"
  by (auto simp: mqtt_live_def mqtt_core_def mqtt_open_def)

lemma live_operation_id: "mqtt_live waiting t \<Longrightarrow> json_callbacks t \<Longrightarrow> mqtt_live waiting (t\<lparr>mqtt_operation_id := Some i\<rparr>)"
  by (simp add: mqtt_live_def mqtt_core_def mqtt_open_def)

lemma lose_io_live: "mqtt_live waiting t \<Longrightarrow> stays_live waiting (lose_io mq t e)"
  by (simp add: lose_io_def drop_transport_io_def)

lemma send_message_live:
  assumes "mqtt_live waiting t" "json_callbacks t"
  shows "stays_live waiting (send_mqtt_message os mq topic t e)"
proof -
  have "stays_live waiting (case get_next_packet_id t of (n, t) \<Rightarrow>
      (case mqttmessage_create_in_place mq n topic payload e of (created, e) \<Rightarrow>
         if \<not> created then Returns False t e else on_mqtt os (mqtt_client_publish mq n topic payload) t e))" for payload e
  proof -
    obtain n t' where n: "get_next_packet_id t = (n, t')" by fastforce
    with live_packet [OF n, of waiting] assms on_mqtt_stays [of waiting t'] show ?thesis by (auto split: prod.split)
  qed
  with assms show ?thesis
    by (auto simp: send_mqtt_message_def split: prov_answer.split option.split)
qed

lemma send_register_live:
  "mqtt_live waiting t \<Longrightarrow> json_callbacks t \<Longrightarrow> stays_live waiting (send_register_message os mq t e)"
  by (auto simp: send_register_message_def send_message_live split: prod.split option.split)

lemma send_status_live:
  "mqtt_live waiting t \<Longrightarrow> json_callbacks t \<Longrightarrow> mqtt_operation_id t \<noteq> None
     \<Longrightarrow> stays_live waiting (send_operation_status_message os mq t e)"
  by (auto simp: send_operation_status_message_def send_message_live split: prod.split option.split)

lemma subscribe_live:
  assumes "mqtt_live waiting t" "broker_waits mq waiting"
  shows "stays_live waiting (subscribe_to_topic os mq t e)"
proof -
  obtain n t' where n: "get_next_packet_id t = (n, t')" by fastforce
  have "stays_live waiting (on_mqtt os (mqtt_client_subscribe mq n MQTT_SUBSCRIBE_TOPIC) t' e)"
    by (rule on_mqtt_stays) (use live_packet [OF n, of waiting] assms broker_waitsD(3) in auto)
  then show ?thesis by (simp add: subscribe_to_topic_def n)
qed

lemma io_object_live:
  assumes "create_transport_io_object t e = (ok, t', e')"
  shows "mqtt_live waiting t' = mqtt_live waiting t"
  using assms by (auto simp: create_transport_io_object_def Let_def split: if_splits prod.splits)

lemma io_option_live:
  assumes "set_io_option mq n v t e = (ok, t', e')"
  shows "mqtt_live waiting t' = mqtt_live waiting t"
  using assms by (auto simp: set_io_option_def split: option.splits prod.splits)

lemma x509_identity_live: "mqtt_live waiting t \<Longrightarrow> stays_live waiting (set_x509_identity mq t e)"
  unfolding set_x509_identity_def
  by (auto split: option.split prod.split dest!: io_option_live [of mq _ _ _ _ _ _ _ waiting] intro!: lose_io_live)

lemma construct_transport_live: "mqtt_live waiting t \<Longrightarrow> stays_live waiting (construct_transport mq t e)"
  unfolding construct_transport_def
  by (auto split: option.split prod.split dest!: io_object_live [of _ _ _ _ _ waiting] io_option_live [of mq _ _ _ _ _ _ _ waiting]
      intro!: lose_io_live x509_identity_live)

lemma connect_client_live:
  assumes "mqtt_live waiting t" "broker_waits mq waiting"
  shows "stays_live waiting (connect_client os mq user password t e)"
proof -
  have "mqtt_live waiting (t\<lparr>mqtt_client := mqtt_client_set_trace mq (log_trace t) (mqtt_client t)\<rparr>)"
    using assms(1) broker_waitsD(6) [OF assms(2)] by (auto simp: mqtt_live_def mqtt_core_def mqtt_open_def)
  then show ?thesis unfolding connect_client_def Let_def
    by (intro work_sat_bindI [OF on_mqtt_stays]) (use broker_waitsD(2) [OF assms(2)] in \<open>auto intro!: lose_io_live\<close>)
qed

lemma create_connection_live:
  assumes "mqtt_live waiting t" "broker_waits mq waiting"
  shows "stays_live waiting (create_connection os mq t e)"
proof -
  obtain reg where reg: "mqtt_registration_id t = Some reg" using assms(1) by (auto simp: mqtt_live_def mqtt_open_def)
  obtain u e1 where u: "malloc_of os (mqtt_user (mqtt_scope_id t) reg (api_version t)) e = (u, e1)" by fastforce
  have "stays_live waiting (if \<not> constructed then Returns False t e
      else if mqtt_hsm_type t = TRANSPORT_HSM_TYPE_SYMM_KEY then
        (if \<not> open_callbacks t then Breaks
         else Calls (Challenge None (Some ''registration'')) t e (\<lambda>a t e.
           case a of Token (Some password) \<Rightarrow> connect_client os mq name (Some password) t e | _ \<Rightarrow> lose_io mq t e))
      else connect_client os mq name None t e)" if t: "mqtt_live waiting t" for t constructed e name
    using t mqtt_live_callbacks [OF t] connect_client_live [OF t assms(2)] lose_io_live [OF t]
    by (auto split: prov_answer.split option.split)
  then show ?thesis
    by (auto simp: create_connection_def construct_username_def reg u assms(1) split: option.split
        intro!: work_sat_bindI [OF construct_transport_live [OF assms(1)]])
qed

section \<open>The laws of a transport\<close>

lemma closed_quiet:
  assumes "mqtt_sound mq waiting t" "\<not> mqtt_open t"
  shows "mqtt_sound mq waiting (t\<lparr>transport_state := TRANSPORT_CLIENT_STATE_IDLE\<rparr>)
      \<and> \<not> mqtt_open (t\<lparr>transport_state := TRANSPORT_CLIENT_STATE_IDLE\<rparr>)"
    and "mqtt_sound mq waiting (t\<lparr>transport_state := TRANSPORT_CLIENT_STATE_IDLE, mqtt_state := MQTT_STATE_IDLE\<rparr>)
      \<and> \<not> mqtt_open (t\<lparr>transport_state := TRANSPORT_CLIENT_STATE_IDLE, mqtt_state := MQTT_STATE_IDLE\<rparr>)"
  using assms by (simp_all add: mqtt_sound_def mqtt_core_def mqtt_open_def)

lemma live_patient: "mqtt_live waiting t \<Longrightarrow> patient (retry_after_value t)"
  by (simp add: mqtt_live_def mqtt_core_def)

abbreviation orderly_open ::
  "('q, 'io, 'e, 'x) mqtt_api_scheme \<Rightarrow> ('q \<Rightarrow> bool) \<Rightarrow> ('r, ('q, 'io, 'e, 'm) PROV_TRANSPORT_MQTT_INFO_scheme, 'e) prov_work \<Rightarrow> bool" where
  "orderly_open mq waiting w \<equiv> orderly (mqtt_sound mq waiting) mqtt_open True w"

lemma stays_orderly: "broker_waits mq waiting \<Longrightarrow> stays_live waiting m \<Longrightarrow> orderly_open mq waiting m"
  by (rule orderly_work_sat [of "mqtt_live waiting" "\<lambda>_. mqtt_live waiting"]) (auto dest: mqtt_live_sound)

lemma bind_orderly:
  "broker_waits mq waiting \<Longrightarrow> stays_live waiting m \<Longrightarrow> (\<And>r t e. mqtt_live waiting t \<Longrightarrow> orderly_open mq waiting (f r t e)) \<Longrightarrow> orderly_open mq waiting (work_bind m f)"
  by (rule orderly_bindI [of "mqtt_live waiting" "\<lambda>_. mqtt_live waiting"]) (auto dest: mqtt_live_sound)

lemma idle_orderly: "broker_waits mq waiting \<Longrightarrow> mqtt_live waiting t \<Longrightarrow> orderly_open mq waiting (mqtt_idle a t e)"
  using mqtt_live_sound [OF _ live_quiet_state, of mq waiting t TRANSPORT_CLIENT_STATE_IDLE] by (simp add: mqtt_idle_def)

lemma failed_orderly: "broker_waits mq waiting \<Longrightarrow> mqtt_live waiting t \<Longrightarrow> orderly_open mq waiting (Returns r (mqtt_failed t) e)"
  using mqtt_live_sound [OF _ live_failed] by simp

lemma live_idle: "mqtt_live waiting t \<Longrightarrow> mqtt_live waiting (t\<lparr>transport_state := TRANSPORT_CLIENT_STATE_IDLE\<rparr>)"
  by (rule live_quiet_state) simp_all

lemma handle_reply_orderly:
  assumes waits: "broker_waits mq waiting" and t: "mqtt_live waiting t" and json: "json_callbacks t"
  shows "orderly_open mq waiting (handle_reply os info t e)"
proof -
  have told: "orderly_open mq waiting (if \<not> open_callbacks t' then mqtt_idle NoAnswer t' e
      else Calls (TransportStatus st (retry_after_value t')) t' e mqtt_idle)"
    if t': "mqtt_live waiting t'" for t' st e
    using idle_orderly [OF waits t'] live_patient [OF t'] mqtt_live_sound [OF waits t'] by simp
  have data: "orderly_open mq waiting (Calls (RegistrationData PROV_DEVICE_TRANSPORT_RESULT_OK key hub dev) t e mqtt_idle)" for key hub dev e
    using mqtt_live_sound [OF waits t] mqtt_live_sound [OF waits live_idle [OF t]]
    by (simp add: mqtt_idle_def closed_quiet(1))
  have failed: "orderly_open mq waiting (Returns r (mqtt_failed t) e)" for r :: unit and e
    by (rule failed_orderly [OF waits t])
  have kept: "orderly_open mq waiting (Returns () t e)" for e
    using mqtt_live_sound [OF waits t] by simp
  show ?thesis
    unfolding handle_reply_def Let_def
    using told [OF live_operation_id [OF t json]] data failed kept mqtt_live_callbacks [OF t]
    by (simp split: option.split prod.split)
qed

lemma read_reply_orderly:
  assumes waits: "broker_waits mq waiting" and t: "mqtt_live waiting t" and json: "json_callbacks t"
  shows "orderly_open mq waiting (read_reply os t e)"
proof -
  have "orderly_open mq waiting (case a of ParsedReply (Some parse_info) \<Rightarrow> handle_reply os parse_info t e
      | _ \<Rightarrow> Returns () (mqtt_failed t) e)" for a e
    using failed_orderly [OF waits t, of "()" e]
    by (simp add: handle_reply_orderly [OF waits t json] split: prov_answer.split option.split)
  then show ?thesis using json mqtt_live_sound [OF waits t] by (simp add: read_reply_def)
qed

lemma sent_orderly:
  assumes "broker_waits mq waiting" "mqtt_live waiting t"
    and "st \<in> {TRANSPORT_CLIENT_STATE_REG_SENT, TRANSPORT_CLIENT_STATE_STATUS_SENT}"
  shows "orderly_open mq waiting (sent_or_failed st sent t e)"
  using mqtt_live_sound [OF assms(1) live_quiet_state [OF assms(2), of st]] mqtt_live_sound [OF assms(1) live_failed [OF assms(2)]] assms(3)
  by (auto simp: sent_or_failed_def)

lemma transport_turn_orderly:
  assumes waits: "broker_waits mq waiting" and t: "mqtt_live waiting t"
  shows "orderly_open mq waiting (transport_turn os mq t e)"
proof -
  have json: "transport_state t \<in> {TRANSPORT_CLIENT_STATE_REG_SEND, TRANSPORT_CLIENT_STATE_REG_RECV,
      TRANSPORT_CLIENT_STATE_STATUS_SEND, TRANSPORT_CLIENT_STATE_STATUS_RECV} \<Longrightarrow> json_callbacks t"
    and op_id: "transport_state t = TRANSPORT_CLIENT_STATE_STATUS_SEND \<Longrightarrow> mqtt_operation_id t \<noteq> None"
    using t by (simp_all add: mqtt_live_def mqtt_core_def)
  have after: "mqtt_live waiting (t\<lparr>transport_state := TRANSPORT_CLIENT_STATE_IDLE, mqtt_state := MQTT_STATE_IDLE\<rparr>)"
    using live_idle [OF t] by simp
  have err: "orderly_open mq waiting (Calls (RegistrationData PROV_DEVICE_TRANSPORT_RESULT_ERROR None None None) t e (\<lambda>_ t e.
        Returns () (t\<lparr>transport_state := TRANSPORT_CLIENT_STATE_IDLE, mqtt_state := MQTT_STATE_IDLE\<rparr>) e))"
    using mqtt_live_sound [OF waits t] mqtt_live_sound [OF waits after] by (simp add: closed_quiet(2))
  show ?thesis
  proof (cases "transport_state t")
    case TRANSPORT_CLIENT_STATE_REG_SEND
    then show ?thesis using json
      by (simp add: transport_turn_def bind_orderly [OF waits send_register_live [OF t]] sent_orderly [OF waits])
  next
    case TRANSPORT_CLIENT_STATE_STATUS_SEND
    then show ?thesis using json op_id
      by (simp add: transport_turn_def bind_orderly [OF waits send_status_live [OF t]] sent_orderly [OF waits])
  next
    case TRANSPORT_CLIENT_STATE_TRANSIENT
    then show ?thesis using mqtt_live_callbacks [OF t] mqtt_live_sound [OF waits t] live_patient [OF t]
      by (simp add: transport_turn_def idle_orderly [OF waits t])
  qed (use mqtt_live_sound [OF waits t] json err mqtt_live_callbacks [OF t] in
      \<open>simp_all add: transport_turn_def read_reply_orderly [OF waits t]\<close>)
qed

lemma connected_turn_orderly:
  assumes waits: "broker_waits mq waiting" and t: "mqtt_live waiting t"
  shows "orderly_open mq waiting (connected_turn os mq t e)"
proof -
  have "orderly_open mq waiting (if \<not> subscribed then Returns () (mqtt_failed t) e
       else if \<not> open_callbacks t then Breaks
       else Calls (TransportStatus PROV_DEVICE_TRANSPORT_STATUS_CONNECTED (retry_after_value t)) t e (\<lambda>_ t e.
         Returns () (t\<lparr>mqtt_state := MQTT_STATE_SUBSCRIBING\<rparr>) e))" if t: "mqtt_live waiting t" for subscribed t e
    using mqtt_live_callbacks [OF t] mqtt_live_sound [OF waits t] live_patient [OF t] failed_orderly [OF waits t, of "()" e]
      mqtt_live_sound [OF waits, of "t\<lparr>mqtt_state := MQTT_STATE_SUBSCRIBING\<rparr>"] t by simp
  then have then_subscribes: "orderly_open mq waiting (work_bind (subscribe_to_topic os mq t e) (\<lambda>subscribed t e.
      if \<not> subscribed then Returns () (mqtt_failed t) e
      else if \<not> open_callbacks t then Breaks
      else Calls (TransportStatus PROV_DEVICE_TRANSPORT_STATUS_CONNECTED (retry_after_value t)) t e (\<lambda>_ t e.
        Returns () (t\<lparr>mqtt_state := MQTT_STATE_SUBSCRIBING\<rparr>) e)))" if "mqtt_live waiting t" for t e
    by (rule bind_orderly [OF waits subscribe_live [OF that waits]])
  have "stays_live waiting (on_mqtt os (mqtt_client_dowork mq) t e)"
    by (rule on_mqtt_stays [OF t]) (simp add: broker_waitsD(5) [OF waits])
  then show ?thesis unfolding connected_turn_def
    by (rule bind_orderly [OF waits]) (rule then_subscribes)
qed

lemma dowork_orderly:
  assumes waits: "broker_waits mq waiting" and t: "mqtt_sound mq waiting t"
  shows "orderly (mqtt_sound mq waiting) mqtt_open (mqtt_open t) (prov_transport_common_mqtt_dowork os mq t e)"
proof (cases "mqtt_state t = MQTT_STATE_IDLE")
  case True
  with t show ?thesis by (simp add: prov_transport_common_mqtt_dowork_def)
next
  case False
  with t have live: "mqtt_live waiting t" and open_t: "mqtt_open t" by (simp_all add: mqtt_sound_def mqtt_live_def)
  have turn: "orderly_open mq waiting (if mqtt_state t = MQTT_STATE_SUBSCRIBED \<or> mqtt_state t = MQTT_STATE_ERROR
      then transport_turn os mq t e else Returns () t e)" if "mqtt_live waiting t" for t e
    using mqtt_live_sound [OF waits that] by (simp add: transport_turn_orderly [OF waits that])
  have connecting: "orderly_open mq waiting (Returns () (if created then t\<lparr>mqtt_state := MQTT_STATE_CONNECTING\<rparr> else mqtt_failed t) e)"
    if "mqtt_live waiting t" for created t e
    using mqtt_live_sound [OF waits, of "t\<lparr>mqtt_state := MQTT_STATE_CONNECTING\<rparr>"] failed_orderly [OF waits that, of "()" e] that by simp
  have "stays_live waiting (on_mqtt os (mqtt_client_dowork mq) t e)"
    by (rule on_mqtt_stays [OF live]) (simp add: broker_waitsD(5) [OF waits])
  then have waited: "orderly_open mq waiting (work_bind (on_mqtt os (mqtt_client_dowork mq) t e) (\<lambda>_ t e.
      if mqtt_state t = MQTT_STATE_SUBSCRIBED \<or> mqtt_state t = MQTT_STATE_ERROR then transport_turn os mq t e else Returns () t e))"
    by (rule bind_orderly [OF waits]) (rule turn)
  have connects: "orderly_open mq waiting (work_bind (create_connection os mq t e) (\<lambda>created t e.
      Returns () (if created then t\<lparr>mqtt_state := MQTT_STATE_CONNECTING\<rparr> else mqtt_failed t) e))"
    by (rule bind_orderly [OF waits create_connection_live [OF live waits]]) (rule connecting)
  from waited connects False open_t show ?thesis
    by (simp add: prov_transport_common_mqtt_dowork_def connected_turn_orderly [OF waits live])
qed

text \<open>Closing: the callbacks of the library change nothing the client keeps.\<close>

lemma closing_callbacks_core:
  assumes "mqtt_core waiting t" "list_ex message_event evs \<longrightarrow> json_callbacks t"
    and "closing_callbacks os evs t e = (notices, t', e')"
  shows "mqtt_core waiting t' \<and> json_callbacks t' = json_callbacks t \<and> mqtt_registration_id t' = mqtt_registration_id t
    \<and> \<not> list_ex restarts notices \<and> list_all patient_notice notices"
  using assms
proof (induction evs arbitrary: t e notices t' e')
  case (Cons ev evs)
  obtain err t1 e1 where ev: "mqtt_callback os ev t e = (err, t1, e1)" using prod_cases3 by blast
  have t1: "mqtt_core waiting t1 \<and> json_callbacks t1 = json_callbacks t \<and> mqtt_registration_id t1 = mqtt_registration_id t"
    using callback_core [OF Cons.prems(1) _ ev] Cons.prems(2) by auto
  obtain ns t2 e2 where rest: "closing_callbacks os evs t1 e1 = (ns, t2, e2)" using prod_cases3 by blast
  from Cons.IH [OF _ _ rest] t1 Cons.prems(2,3) show ?case by (auto simp: ev rest split: option.splits)
qed simp

lemma closing_mqtt_core:
  assumes "mqtt_core waiting t" "keeps_waiting waiting f" "closing_mqtt os f t e = (r, notices, t', e')"
  shows "mqtt_core waiting t' \<and> mqtt_registration_id t' = mqtt_registration_id t
    \<and> \<not> list_ex restarts notices \<and> list_all patient_notice notices"
proof -
  obtain r1 evs q e1 where f: "f (mqtt_client t) e = ((r1, evs), q, e1)" by (metis prod.collapse)
  have "waiting (mqtt_client t) \<Longrightarrow> waiting q \<and> \<not> list_ex message_event evs"
    using assms(2) unfolding keeps_waiting_def by (metis f fst_conv snd_conv)
  with assms(1) have "mqtt_core waiting (t\<lparr>mqtt_client := q\<rparr>)" "list_ex message_event evs \<longrightarrow> json_callbacks t"
    by (auto simp: mqtt_core_def)
  from closing_callbacks_core [OF this(1), of evs os e1 notices t' e'] this(2) assms(3) show ?thesis
    by (simp add: closing_mqtt_def f)
qed

lemma close_closes:
  assumes t: "mqtt_sound mq waiting t" and close: "prov_transport_common_mqtt_close os mq t e = (notices, t', e')"
  shows "mqtt_sound mq waiting t' \<and> \<not> mqtt_open t' \<and> \<not> list_ex restarts notices \<and> list_all patient_notice notices"
proof -
  have waits: "broker_waits mq waiting" and core: "mqtt_core waiting (t\<lparr>mqtt_registration_id := None\<rparr>)"
    using t by (simp_all add: mqtt_sound_def mqtt_core_def)
  obtain d n1 t1 e1 where one: "closing_mqtt os (mqtt_client_disconnect mq) (t\<lparr>mqtt_registration_id := None\<rparr>) e = (d, n1, t1, e1)"
    by (metis prod_cases4)
  note one_good = closing_mqtt_core [OF core broker_waitsD(4) [OF waits] one]
  obtain u n2 t2 e2 where two: "(if d then closing_mqtt os (mqtt_client_dowork mq) t1 e1 else ((), [], t1, e1)) = (u, n2, t2, e2)"
    by (metis prod_cases4)
  have two_good: "mqtt_core waiting t2 \<and> mqtt_registration_id t2 = mqtt_registration_id t1
      \<and> \<not> list_ex restarts n2 \<and> list_all patient_notice n2"
  proof (cases d)
    case True
    with two have "closing_mqtt os (mqtt_client_dowork mq) t1 e1 = (u, n2, t2, e2)" by simp
    with closing_mqtt_core [OF _ broker_waitsD(5) [OF waits] this] one_good show ?thesis by simp
  qed (use two one_good in auto)
  from close have "notices = n1 @ n2" "t' = t2\<lparr>transport_io := None, mqtt_state := MQTT_STATE_IDLE\<rparr>"
    by (auto simp: prov_transport_common_mqtt_close_def one two drop_transport_io_def)
  with one_good two_good waits show ?thesis
    by (simp add: mqtt_sound_def mqtt_core_def mqtt_open_def)
qed

text \<open>Options change what the invariant does not read.\<close>

lemma kept_fields:
  "transport_kept (mqtt_sound mq waiting) mqtt_open t (r, t', e)"
  if "mqtt_sound mq waiting t" "mqtt_registration_id t' = mqtt_registration_id t" "open_callbacks t' = open_callbacks t"
    "json_callbacks t' = json_callbacks t" "mqtt_operation_id t' = mqtt_operation_id t" "transport_state t' = transport_state t"
    "mqtt_state t' = mqtt_state t" "retry_after_value t' = retry_after_value t"
    "waiting (mqtt_client t) \<Longrightarrow> waiting (mqtt_client t')"
  using that by (auto simp: transport_kept_def mqtt_sound_def mqtt_core_def mqtt_open_def)

interpretation mqtt_transport: orderly_transport "mqtt_provider os mq tio" "mqtt_sound mq waiting" mqtt_open "broker_waits mq waiting"
  for os :: "('e, 'n) os_scheme" and mq :: "('q, 'io, 'e, 'x) mqtt_api_scheme" and tio waiting
proof
  fix uri ty scope ver e t e'
  assume waits: "broker_waits mq waiting" and "prov_transport_create (mqtt_provider os mq tio) uri ty scope ver e = (Some t, e')"
  then show "mqtt_sound mq waiting t \<and> \<not> mqtt_open t"
    by (auto dest: broker_waitsD(1) [OF waits] simp: mqtt_provider_def prov_transport_common_mqtt_create_def or_null_def mqtt_sound_def mqtt_core_def mqtt_open_def
        patient_def PROV_GET_THROTTLE_TIME_def MAX_PROV_GET_THROTTLE_TIME_def split: if_splits option.splits prod.splits)
next
  fix t :: "('q, 'io, 'e) PROV_TRANSPORT_MQTT_INFO" and e reg ek srk notices t' e'
  assume t: "mqtt_sound mq waiting t"
  then have waits: "broker_waits mq waiting" by (simp add: mqtt_sound_def)
  show "orderly_opening (mqtt_sound mq waiting) mqtt_open (prov_transport_open (mqtt_provider os mq tio) reg ek srk t e)"
    if "\<not> mqtt_open t"
    using t that by (auto simp: mqtt_provider_def prov_transport_common_mqtt_open_def mqtt_sound_def mqtt_core_def mqtt_open_def
        split: option.split prod.split)
  show "mqtt_sound mq waiting t' \<and> \<not> mqtt_open t' \<and> \<not> list_ex restarts notices \<and> list_all patient_notice notices"
    if "prov_transport_close (mqtt_provider os mq tio) t e = (notices, t', e')"
    using close_closes [OF t] that by (simp add: mqtt_provider_def)
  show "orderly (mqtt_sound mq waiting) mqtt_open True (prov_transport_register (mqtt_provider os mq tio) t e)"
    and "never_closes (prov_transport_register (mqtt_provider os mq tio) t e)" if "mqtt_open t"
    using t that by (auto simp: mqtt_provider_def prov_transport_common_mqtt_register_device_def mqtt_sound_def mqtt_core_def mqtt_open_def)
  show "orderly (mqtt_sound mq waiting) mqtt_open True (prov_transport_get_op_status (mqtt_provider os mq tio) t e)"
    and "never_closes (prov_transport_get_op_status (mqtt_provider os mq tio) t e)" if "mqtt_open t"
    using t that by (auto simp: mqtt_provider_def prov_transport_common_mqtt_get_operation_status_def mqtt_sound_def mqtt_core_def mqtt_open_def)
  show "orderly (mqtt_sound mq waiting) mqtt_open (mqtt_open t) (prov_transport_dowork (mqtt_provider os mq tio) t e)"
    using dowork_orderly [OF waits t] by (simp add: mqtt_provider_def)
next
  fix t :: "('q, 'io, 'e) PROV_TRANSPORT_MQTT_INFO" and e b c k v x n w
  assume t: "mqtt_sound mq waiting t"
  then have waits: "broker_waits mq waiting" by (simp add: mqtt_sound_def)
  show "transport_kept (mqtt_sound mq waiting) mqtt_open t (prov_transport_set_trace (mqtt_provider os mq tio) b t e)"
    unfolding mqtt_provider_def prov_transport_common_mqtt_set_trace_def
    by (simp, rule kept_fields [OF t]) (simp_all add: broker_waitsD(6) [OF waits])
  show "transport_kept (mqtt_sound mq waiting) mqtt_open t (prov_transport_x509_cert (mqtt_provider os mq tio) c k t e)"
    by (simp add: mqtt_provider_def prov_transport_common_mqtt_x509_cert_def kept_fields [OF t] split: option.split prod.split)
  show "transport_kept (mqtt_sound mq waiting) mqtt_open t (prov_transport_trusted_cert (mqtt_provider os mq tio) v t e)"
    by (simp add: mqtt_provider_def prov_transport_common_mqtt_set_trusted_cert_def kept_fields [OF t] split: option.split prod.split)
  show "transport_kept (mqtt_sound mq waiting) mqtt_open t (prov_transport_set_proxy (mqtt_provider os mq tio) x t e)"
    by (simp add: mqtt_provider_def prov_transport_common_mqtt_set_proxy_def Let_def kept_fields [OF t] split: option.split prod.split)
  show "transport_kept (mqtt_sound mq waiting) mqtt_open t (prov_transport_set_option (mqtt_provider os mq tio) n w t e)"
    by (auto simp: mqtt_provider_def prov_transport_common_mqtt_set_option_def create_transport_io_object_def set_io_option_def Let_def
        kept_fields [OF t] split: option.split prod.split)
qed

section \<open>What goes wrong\<close>

text \<open>
  A message before the registration makes the transport call a parser it was not given: the law of the
  broker is needed.
\<close>

lemma unsolicited_reply_breaks:
  assumes "mqtt_state t = MQTT_STATE_SUBSCRIBED" "\<not> json_callbacks t" "os_malloc os e = (True, e')"
    and "mqtt_client_dowork mq (mqtt_client t) e = (((), [Published (Some topic) (Some data)]), q, e)" "\<not> transient_reply topic"
  shows "prov_transport_common_mqtt_dowork os mq t e = Breaks"
  using assms
  by (auto simp: prov_transport_common_mqtt_dowork_def on_mqtt_def mqtt_notification_callback_def read_topic_def
      get_retry_after_property_def transport_turn_def read_reply_def malloc_of_def Let_def split: option.split)

text \<open>
  The operation id of a registration is never cleared: after the transport was closed and opened again, a
  second registration is refused.
\<close>

lemma callback_keeps_operation_id: "mqtt_callback os ev t e = (err, t', e') \<Longrightarrow> mqtt_operation_id t' = mqtt_operation_id t"
  by (cases ev)
    (auto simp: mqtt_failed_def mqtt_notification_callback_def read_topic_def get_retry_after_property_def Let_def
      split: option.splits if_splits prod.splits)

lemma closing_keeps_operation_id: "closing_mqtt os f t e = (r, ns, t', e') \<Longrightarrow> mqtt_operation_id t' = mqtt_operation_id t"
proof -
  have "closing_callbacks os evs t e = (ns, t', e') \<Longrightarrow> mqtt_operation_id t' = mqtt_operation_id t" for evs t e ns t' e'
  proof (induction evs arbitrary: t e ns t' e')
    case (Cons ev evs)
    obtain err t1 e1 where ev: "mqtt_callback os ev t e = (err, t1, e1)" using prod_cases3 by blast
    obtain ns1 t2 e2 where rest: "closing_callbacks os evs t1 e1 = (ns1, t2, e2)" using prod_cases3 by blast
    from Cons.IH [OF rest] Cons.prems callback_keeps_operation_id [OF ev] show ?case by (simp add: ev rest)
  qed simp
  then show "closing_mqtt os f t e = (r, ns, t', e') \<Longrightarrow> mqtt_operation_id t' = mqtt_operation_id t"
    by (fastforce simp: closing_mqtt_def split: prod.splits)
qed

lemma second_registration_refused:
  assumes "mqtt_operation_id t \<noteq> None" "prov_transport_common_mqtt_close os mq t e = (ns, t1, e1)"
    and "prov_transport_common_mqtt_open os reg ek srk t1 e2 = Returns ok t2 e3"
  shows "prov_transport_common_mqtt_register_device t2 e4 = Returns False t2 e4"
proof -
  have "mqtt_operation_id t1 = mqtt_operation_id t"
    using assms(2) by (auto simp: prov_transport_common_mqtt_close_def drop_transport_io_def
        dest!: closing_keeps_operation_id split: prod.splits if_splits)
  moreover have "mqtt_operation_id t2 = mqtt_operation_id t1"
    using assms(3) by (auto simp: prov_transport_common_mqtt_open_def split: option.splits if_splits prod.splits)
  ultimately show ?thesis using assms(1) by (simp add: prov_transport_common_mqtt_register_device_def)
qed

end
