(* ===== verification/ProvRuns.thy ===== *)
theory ProvRuns
  imports ProvMqttLaws
begin

text \<open>
  The sequences of calls of a user of the provisioning client: the states they reach, the account of the
  registrations, and the properties of the client, on any lawful transport and on MQTT.
\<close>

section \<open>Calls of a user\<close>

datatype prov_op =
  RegisterOp "nat option" nat "nat option" nat
| WorkOp
| OptionOp "string option" "prov_option_value option"
| PayloadOp "string option"

primrec prov_do ::
  "('a, 't, 'j, 'e, 'x) prov_client_api_scheme \<Rightarrow> prov_op \<Rightarrow> ('a, 't, 'e, 'm) PROV_INSTANCE_INFO_scheme option
     \<Rightarrow> (PROV_DEVICE_RESULT \<times> ('a, 't, 'e, 'm) PROV_INSTANCE_INFO_scheme option) run" where
  "prov_do api (RegisterOp cb ctx scb sctx) h = Prov_Device_LL_Register_Device api cb ctx scb sctx h"
| "prov_do api WorkOp h = run_bind (Prov_Device_LL_DoWork api h) (\<lambda>h. Done (PROV_DEVICE_RESULT_OK, h))"
| "prov_do api (OptionOp n v) h = Prov_Device_LL_SetOption api n v h"
| "prov_do api (PayloadOp json) h = Done (Prov_Device_LL_Set_Provisioning_Payload api json h)"

text \<open>
  An option comes with a value of its type. A registration is not started over a running one unless the
  user chose the registration id: the client would free the id that the transport asks challenges for.
\<close>

definition option_typed :: "('a, 't, 'j, 'e, 'x) prov_client_api_scheme \<Rightarrow> string \<Rightarrow> prov_option_value option \<Rightarrow> bool" where
  "option_typed api n v \<longleftrightarrow>
     (if n = OPTION_TRUSTED_CERT api then (case v of None \<Rightarrow> True | Some (TextValue s) \<Rightarrow> True | _ \<Rightarrow> False)
      else if n = ''logtrace'' then (case v of Some (BoolValue b) \<Rightarrow> True | _ \<Rightarrow> False)
      else if n = OPTION_HTTP_PROXY api then (case v of None \<Rightarrow> True | Some (ProxyValue x) \<Rightarrow> True | _ \<Rightarrow> False)
      else if n = ''provisioning_timeout'' then (case v of None \<Rightarrow> True | Some (ByteValue b) \<Rightarrow> True | _ \<Rightarrow> False)
      else if n = ''registration_id'' then (case v of None \<Rightarrow> True | Some (TextValue s) \<Rightarrow> True | _ \<Rightarrow> False)
      else True)"

primrec careful :: "('a, 't, 'j, 'e, 'x) prov_client_api_scheme \<Rightarrow> prov_op \<Rightarrow> ('a, 't, 'e, 'm) PROV_INSTANCE_INFO_scheme \<Rightarrow> bool" where
  "careful api (RegisterOp cb ctx scb sctx) p = (prov_state p = CLIENT_STATE_READY \<or> user_supplied_reg_id p)"
| "careful api WorkOp p = True"
| "careful api (OptionOp n v) p = (case n of None \<Rightarrow> True | Some n \<Rightarrow> option_typed api n v)"
| "careful api (PayloadOp json) p = True"

text \<open>The registration a call takes on: its callback and context.\<close>

fun taken_on :: "prov_op \<Rightarrow> PROV_DEVICE_RESULT \<Rightarrow> (nat \<times> nat) multiset" where
  "taken_on (RegisterOp (Some cb) ctx scb sctx) r = due r (cb, ctx)"
| "taken_on op r = {#}"

text \<open>The clients a careful user reaches, with the registrations it asked for.\<close>

inductive prov_reaches ::
  "('a, 't, 'j, 'e, 'x) prov_client_api_scheme \<Rightarrow> (nat \<times> nat) multiset \<Rightarrow> ('a, 't, 'e) PROV_INSTANCE_INFO \<Rightarrow> bool" for api where
  prov_created: "Prov_Device_LL_Create api uri scope True e = Done (Some p, e') \<Longrightarrow> prov_reaches api {#} p"
| prov_does: "prov_reaches api asked p \<Longrightarrow> careful api op p \<Longrightarrow> prov_do api op (Some p) = Done (r, Some p')
     \<Longrightarrow> prov_reaches api (taken_on op r + asked) p'"

section \<open>Options, creation and destruction\<close>

context provisioning
begin

lemma set_registration_id_good:
  assumes "inv p" "prov_state p = CLIENT_STATE_READY"
  shows "run_sat True (\<lambda>(r, p'). steady p p') (set_registration_id api reg p)"
proof -
  obtain c q where q: "on_prov_env (malloc_of (p_os api) reg) p = (c, q)" by fastforce
  have kept: "core_kept p q" "steady p q"
    using core_kept_env [OF q] inv_core [OF assms(1), of q] inv_fit [OF assms(1)] by (auto simp: core_kept_def)
  have set_id: "leaves (\<lambda>p'. inv p' \<and> owed p' = owed q \<and> core_kept q p')
      (on_auth (\<lambda>a e. Done (auth_set_registration_id (p_auth api) a s e)) q)" for s
    by (rule on_auth_inv) (use kept kept_set_registration_id in simp_all)
  have chosen: "steady p (p'\<lparr>registration_id := Some s, user_supplied_reg_id := True\<rparr>)"
    if "inv p' \<and> owed p' = owed q \<and> core_kept q p'" for p' s
    using that kept assms(2) by (auto simp: prov_inv_def owed_def pending_def core_kept_def)
  show ?thesis
  proof (cases c)
    case (Some s)
    from set_id [of "Some s"] obtain ok p' where p': "on_auth (\<lambda>a e. Done (auth_set_registration_id (p_auth api) a (Some s) e)) q = Done (ok, p')"
        "inv p' \<and> owed p' = owed q \<and> core_kept q p'" by (auto simp: leaves_Ex)
    with chosen [OF p'(2)] kept show ?thesis by (simp add: set_registration_id_def q Some)
  qed (use kept in \<open>simp add: set_registration_id_def q\<close>)
qed

lemma transport_option_good:
  assumes "inv p" "\<And>t e. sound t \<Longrightarrow> transport_kept sound opn t (f t e)"
  shows "run_sat True (\<lambda>(r, p'). steady p p') (on_prov_transport f p)"
  using leaves_mono [OF on_transport_inv [OF assms]] by (auto simp: leaves_def elim: run_sat_mono)

lemma set_option_good:
  assumes "inv p" "option_typed api n v"
  shows "run_sat True (\<lambda>(r, p'). steady p p') (set_prov_option api n v p)"
proof -
  have timeout: "steady p (p\<lparr>prov_timeout := b\<rparr>)" for b
    using assms(1) by (auto simp: prov_inv_def owed_def pending_def)
  note good = transport_option_good [OF assms(1)] transport_keeps_cert transport_keeps_trace transport_keeps_proxy
    transport_keeps_option
  show ?thesis
    using assms timeout
    by (auto simp: set_prov_option_def option_typed_def Let_def good set_registration_id_good
        split: option.splits prov_option_value.splits if_splits)
qed

lemma SetOption_good:
  assumes "inv p" "case n of None \<Rightarrow> True | Some n \<Rightarrow> option_typed api n v"
  shows "run_sat True (\<lambda>(r, h). \<exists>p'. h = Some p' \<and> steady p p') (Prov_Device_LL_SetOption api n v (Some p))"
proof (cases n)
  case (Some k)
  have "run_sat True (\<lambda>(r, p'). steady p p') (set_prov_option api k v p)"
    by (rule set_option_good) (use assms Some in simp_all)
  then obtain ok p' where "set_prov_option api k v p = Done (ok, p')" "steady p p'" by (auto simp: run_sat_total)
  then show ?thesis by (simp add: Prov_Device_LL_SetOption_def Some ok_or_error_def)
qed (use assms in \<open>simp add: Prov_Device_LL_SetOption_def\<close>)

lemma payload_good:
  assumes "inv p" "Prov_Device_LL_Set_Provisioning_Payload api json (Some p) = (r, h)"
  shows "\<exists>p'. h = Some p' \<and> steady p p'"
proof -
  obtain c q where q: "on_prov_env (strcpy_of (p_os api) json) p = (c, q)" by fastforce
  have "steady p q" using core_kept_env [OF q] inv_core [OF assms(1), of q] inv_fit [OF assms(1)] by (auto simp: core_kept_def)
  moreover have "steady q (q\<lparr>custom_request_data := Some s\<rparr>)" for s
    using calculation by (auto simp: prov_inv_def owed_def pending_def)
  ultimately show ?thesis using assms(2)
    by (auto simp: Prov_Device_LL_Set_Provisioning_Payload_def q split: option.splits)
qed

lemma notices_keep_identity: "prov_auth_handle (fold take_notice ns q) = prov_auth_handle q"
  using notices_kept [of q ns] by (simp add: notice_kept_def)

text \<open>Destruction returns, whether the parts of the client exist or not.\<close>

lemma destroy_sat:
  fixes p :: "('a, 't, 'e, 'm) PROV_INSTANCE_INFO_scheme"
  assumes "\<not> transport_open p \<or> transport_handle p \<noteq> None" "usable (prov_auth_handle p) \<or> prov_auth_handle p = None"
  shows "run_sat True (\<lambda>_. True) (destroy_instance api p)"
proof -
  have "run_sat True (\<lambda>p'. usable (prov_auth_handle p') \<or> prov_auth_handle p' = None) (cleanup_prov_info api p)"
  proof (cases "transport_open p")
    case True
    with assms obtain t where t: "transport_handle p = Some t" by auto
    obtain ns t' e' where "prov_transport_close (p_transport api) t (prov_env p) = (ns, t', e')" using prod_cases3 by blast
    then show ?thesis using True t assms(2)
      by (simp add: cleanup_prov_info_def on_prov_transport_def notices_keep_identity)
  qed (use assms in \<open>simp add: cleanup_prov_info_def\<close>)
  then show ?thesis unfolding destroy_instance_def
  proof (rule run_sat_bindI)
    fix q :: "('a, 't, 'e, 'm) PROV_INSTANCE_INFO_scheme" assume q: "usable (prov_auth_handle q) \<or> prov_auth_handle q = None"
    obtain ns q1 where d: "on_prov_env (prov_transport_destroy (p_transport api) (transport_handle q))
        (q\<lparr>custom_request_data := None, custom_response_data := None\<rparr>) = (ns, q1)" by fastforce
    define q2 where "q2 = fold take_notice ns q1"
    have "prov_auth_handle q2 = prov_auth_handle q"
      using d by (auto simp: q2_def notices_keep_identity on_prov_env_def split: prod.splits)
    then have "run_sat True (\<lambda>_. True) (auth_destroy (p_auth api) (prov_auth_handle q2) (prov_env q2))"
      using q by (auto intro!: destroyed)
    then show "run_sat True (\<lambda>_. True) (case on_prov_env (prov_transport_destroy (p_transport api) (transport_handle q))
        (q\<lparr>custom_request_data := None, custom_response_data := None\<rparr>) of (notices, p) \<Rightarrow>
        let p = fold take_notice notices p\<lparr>transport_handle := None\<rparr> in
        run_bind (auth_destroy (p_auth api) (prov_auth_handle p) (prov_env p)) (\<lambda>e. Done (p\<lparr>prov_auth_handle := None, prov_env := e\<rparr>)))"
      by (auto simp: d Let_def simp flip: q2_def elim!: run_sat_bindI)
  qed
qed

lemma given_up:
  assumes "transport_handle p = None" "\<not> transport_open p" "usable (prov_auth_handle p) \<or> prov_auth_handle p = None"
  shows "run_sat True (\<lambda>(h, e). h = None) (give_up_instance api p)"
  unfolding give_up_instance_def by (rule run_sat_bindI [OF destroy_sat]) (use assms in simp_all)

lemma new_instance_paced: "paced (new_instance s e)"
  by (simp add: paced_def new_instance_def PROV_GET_THROTTLE_TIME_def MAX_PROV_GET_THROTTLE_TIME_def)

lemma start_good:
  assumes "p = (new_instance s e)\<lparr>prov_auth_handle := h, prov_env := e1, hsm_type := auth_get_type (p_auth api) h\<rparr>"
    and "usable h" "sound t" "\<not> opn t"
  shows "inv (p\<lparr>transport_handle := Some t, prov_env := e', last_send_time_ms := v\<rparr>)
    \<and> owed (p\<lparr>transport_handle := Some t, prov_env := e', last_send_time_ms := v\<rparr>) = {#}"
proof -
  have "paced p" using new_instance_paced [of s e] assms(1) by (simp add: paced_def)
  moreover have "prov_auth_handle p = h" "hsm_type p = auth_get_type (p_auth api) h" "\<not> transport_open p"
      "prov_state p = CLIENT_STATE_READY" "prov_calls p = []"
    by (simp_all add: assms(1) new_instance_def)
  ultimately show ?thesis using assms(2-4) by (simp add: prov_inv_def owed_def pending_def)
qed

text \<open>After the identity was created.\<close>

lemma new_instance_simps [simp]:
  "transport_handle (new_instance s e) = None" "\<not> transport_open (new_instance s e)" "prov_env (new_instance s e) = e"
  "scope_id (new_instance s e) = s"
  by (simp_all add: new_instance_def)

lemma Create_from_auth:
  assumes lawful and h: "h \<noteq> None \<longrightarrow> usable h"
  shows "run_sat True (\<lambda>(h, e). \<forall>p. h = Some p \<longrightarrow> inv p \<and> owed p = {#}) (start_client api uri s h e)"
proof -
  have refuse: "run_sat True (\<lambda>(h, e). \<forall>p. h = Some p \<longrightarrow> inv p \<and> owed p = {#}) (give_up_instance api q)"
    if "transport_handle q = None" "\<not> transport_open q" "prov_auth_handle q = h" for q
    by (rule run_sat_mono [OF given_up]) (use that h in auto)
  obtain b e1 where ticks: "p_tickcounter_create api e = (b, e1)" by fastforce
  obtain t e2 where t: "prov_transport_create (p_transport api) uri (transport_hsm_type (auth_get_type (p_auth api) h)) s
      PROV_API_VERSION e1 = (t, e2)" by fastforce
  obtain now e3 where now: "p_tickcounter_get_current_ms api e2 = (now, e3)" by fastforce
  show ?thesis
  proof (cases "h = None \<or> \<not> b \<or> t = None")
    case True
    then show ?thesis
      by (auto simp: start_client_def on_prov_env_def ticks t Let_def refuse)
  next
    case False
    then obtain tr where tr: "t = Some tr" by auto
    with transport_created [OF assms(1)] t have "sound tr" "\<not> opn tr" by auto
    moreover define p1 where "p1 = (new_instance s e :: ('a, 't, 'e) PROV_INSTANCE_INFO)\<lparr>prov_auth_handle := h, prov_env := e1, hsm_type := auth_get_type (p_auth api) h\<rparr>"
    ultimately have "inv (p1\<lparr>transport_handle := Some tr, prov_env := e3, last_send_time_ms := v\<rparr>)
        \<and> owed (p1\<lparr>transport_handle := Some tr, prov_env := e3, last_send_time_ms := v\<rparr>) = {#}" for v
      using start_good [OF p1_def] False h by simp
    then show ?thesis using False
      by (auto simp: start_client_def on_prov_env_def ticks t tr now Let_def p1_def)
  qed
qed

lemma Create_good:
  assumes lawful
  shows "run_sat True (\<lambda>(h, e). \<forall>p. h = Some p \<longrightarrow> inv p \<and> owed p = {#}) (Prov_Device_LL_Create api uri scope proto e)"
proof -
  have "run_sat True (\<lambda>(h, e). \<forall>p. h = Some p \<longrightarrow> inv p \<and> owed p = {#})
     (run_bind (auth_create (p_auth api) e) (\<lambda>(a, e). start_client api uri s a e))" for uri s e
  proof (rule run_sat_bindI [OF created [OF assms]])
    fix x :: "'a option \<times> 'e" assume x: "case x of (h, e') \<Rightarrow> h \<noteq> None \<longrightarrow> usable h"
    obtain h e' where he: "x = (h, e')" by fastforce
    have "h \<noteq> None \<longrightarrow> usable h" using x by (simp add: he)
    from Create_from_auth [OF assms this] show "run_sat True (\<lambda>(h, e). \<forall>p. h = Some p \<longrightarrow> inv p \<and> owed p = {#})
      (case x of (a, e) \<Rightarrow> start_client api uri s a e)" by (simp add: he)
  qed
  then show ?thesis
    by (simp add: Prov_Device_LL_Create_def split: option.split prod.split)
qed

section \<open>What the user reaches\<close>

lemma do_good:
  assumes "inv p" "careful api op p"
  shows "\<exists>r p'. prov_do api op (Some p) = Done (r, Some p') \<and> inv p' \<and> owed p' = taken_on op r + owed p"
proof (cases op)
  case (RegisterOp cb ctx scb sctx)
  with assms have "prov_state p = CLIENT_STATE_READY \<or> user_supplied_reg_id p" by simp
  from register_good [OF assms(1) this, of cb ctx scb sctx] show ?thesis
    by (cases cb) (auto simp: RegisterOp run_sat_total Prov_Device_LL_Register_Device_def)
next
  case WorkOp
  with DoWork_good [OF assms(1)] show ?thesis by (auto simp: run_sat_total)
next
  case (OptionOp n v)
  with assms(2) have "case n of None \<Rightarrow> True | Some n \<Rightarrow> option_typed api n v" by simp
  from SetOption_good [OF assms(1) this] show ?thesis by (auto simp: OptionOp run_sat_total)
next
  case (PayloadOp json)
  obtain r h where "Prov_Device_LL_Set_Provisioning_Payload api json (Some p) = (r, h)" by fastforce
  with payload_good [OF assms(1) this] show ?thesis by (auto simp: PayloadOp)
qed

lemma reaches_good:
  assumes lawful "prov_reaches api asked p"
  shows "inv p \<and> owed p = asked"
  using assms(2)
proof (induction rule: prov_reaches.induct)
  case (prov_created uri scope e p e')
  from Create_good [OF assms(1), of uri scope True e] prov_created show ?case by simp
next
  case (prov_does asked p op r p')
  with do_good [of p op] show ?case by auto
qed

end

section \<open>The client on MQTT\<close>

lemma auth_contract_weaken: "auth_contract api usable L \<Longrightarrow> (L' \<longrightarrow> L) \<Longrightarrow> auth_contract api usable L'"
  by (cases L'; cases L; simp add: auth_contract_def)

lemma orderly_transport_weaken: "orderly_transport tr sound opn L \<Longrightarrow> (L' \<longrightarrow> L) \<Longrightarrow> orderly_transport tr sound opn L'"
  by (cases L'; cases L; simp add: orderly_transport_def)

text \<open>
  The client with the identity of the build and the MQTT transport, over the io that \<open>tio\<close> creates:
  \<open>mqtt_transport_io mq\<close> or \<open>mqtt_transport_ws_io mq\<close>.
\<close>

definition mqtt_client_api ::
  "'e os \<Rightarrow> 'e crypto_api \<Rightarrow> ('j, 'e) json_api \<Rightarrow> hsm_build \<Rightarrow> ('h, 'e) hsm_modules \<Rightarrow> ('f, 'p) factories_scheme
     \<Rightarrow> ('q, 'io, 'e) mqtt_api \<Rightarrow> (string \<Rightarrow> HTTP_PROXY_OPTIONS option \<Rightarrow> 'e \<Rightarrow> 'io option \<times> 'e) \<Rightarrow> ('e \<Rightarrow> bool \<times> 'e)
     \<Rightarrow> ('e \<Rightarrow> (64 word) option \<times> 'e) \<Rightarrow> string \<Rightarrow> string
     \<Rightarrow> (('h, 'e) PROV_AUTH_INFO, ('q, 'io, 'e) PROV_TRANSPORT_MQTT_INFO, 'j, 'e) prov_client_api" where
  "mqtt_client_api os cr js b m g mq tio ticks now cert proxy = \<lparr>
     p_os = os, p_crypto = cr, p_json = js, p_auth = prov_auth_services os cr b m g, p_transport = mqtt_provider os mq tio,
     p_tickcounter_create = ticks, p_tickcounter_get_current_ms = now, OPTION_TRUSTED_CERT = cert, OPTION_HTTP_PROXY = proxy \<rparr>"

lemma mqtt_client_api_simps [simp]:
  "p_auth (mqtt_client_api os cr js b m g mq tio ticks now cert proxy) = prov_auth_services os cr b m g"
  "p_transport (mqtt_client_api os cr js b m g mq tio ticks now cert proxy) = mqtt_provider os mq tio"
  by (simp_all add: mqtt_client_api_def)

interpretation mqtt_provisioning: provisioning "mqtt_client_api os cr js b m g mq tio ticks now cert proxy" "lawful_identity cr"
  "mqtt_sound mq waiting" mqtt_open "base32_laws cr \<and> broker_waits mq waiting"
  for os cr js b m g mq tio ticks now cert proxy waiting
  unfolding provisioning_def mqtt_client_api_simps
  by (intro conjI auth_contract_weaken [OF prov_identity.auth_contract_axioms]
      orderly_transport_weaken [OF mqtt_transport.orderly_transport_axioms]) simp_all

end
