(* ===== verification/ProvProperties.thy ===== *)
theory ProvProperties
  imports ProvRuns
begin

text \<open>
  The properties of the provisioning client, and of the client on MQTT, with an example that runs a
  registration from its start to the hub that was assigned.
\<close>

section \<open>Sequences of calls\<close>

primrec careful_run ::
  "('a, 't, 'j, 'e, 'x) prov_client_api_scheme \<Rightarrow> prov_op list \<Rightarrow> ('a, 't, 'e) PROV_INSTANCE_INFO option \<Rightarrow> bool" where
  "careful_run api [] h = True"
| "careful_run api (op # ops) h =
     (case h of
        None \<Rightarrow> False
      | Some p \<Rightarrow> careful api op p \<and> (case prov_do api op h of Done (r, h) \<Rightarrow> careful_run api ops h | _ \<Rightarrow> False))"

lemma runs_reach:
  "prov_reaches api asked p \<Longrightarrow> careful_run api ops (Some p) \<Longrightarrow> run_ops (prov_do api) ops (Some p) = Done (rs, Some p')
     \<Longrightarrow> prov_reaches api (sum_list (map2 taken_on ops rs) + asked) p'"
proof (induction ops arbitrary: p asked rs)
  case (Cons op ops)
  from Cons.prems(2) obtain r h where step: "prov_do api op (Some p) = Done (r, h)" "careful_run api ops h" "careful api op p"
    by (auto split: run.splits)
  from Cons.prems(3) obtain rs' where rest: "run_ops (prov_do api) ops h = Done (rs', Some p')" "rs = r # rs'"
    by (auto simp: step(1) run_bind_Done_iff)
  show ?case
  proof (cases h)
    case None
    with rest(1) step(2) show ?thesis by (cases ops) simp_all
  next
    case (Some q)
    from Cons.IH [OF prov_does [OF Cons.prems(1) step(3)], of r q rs'] step rest Some show ?thesis
      by (simp add: ac_simps)
  qed
qed simp

section \<open>An example\<close>

text \<open>
  A build with an X.509 module, a broker that acknowledges and, if it answers, assigns at the first request, and a clock
  that moves with each reading. A JSON value is a name, and its members their names.
\<close>

definition example_os :: "int os" where
  "example_os = \<lparr>os_malloc = (\<lambda>e. (True, e)), os_time = (\<lambda>e. (0, e)), os_rand = (\<lambda>e. (0, e))\<rparr>"

definition example_crypto :: "int crypto_api" where
  "example_crypto = \<lparr>base64_decode = (\<lambda>s e. (s, e)), base64_encode_bytes = (\<lambda>s e. (Some s, e)),
     base32_encode_bytes = (\<lambda>s e. (Some (CHR ''a'' # s), e)), hmac_sha256 = (\<lambda>k d e. (Some (k @ d), e)),
     sha256_digest = (\<lambda>d e. (Some d, e)), url_encode = (\<lambda>s e. (Some s, e)), url_encode_string = (\<lambda>s e. (Some s, e))\<rparr>"

definition example_json :: "(string, int) json_api" where
  "example_json = \<lparr>json_parse_string = (\<lambda>s e. (s, e)), json_value_get_object = Some,
     json_object_get_value = (\<lambda>obj f. Some (if f = ''status'' then ''assigned'' else f)),
     json_object_get_object = (\<lambda>obj f. Some f), json_value_get_string = Some, json_int_of_number = (\<lambda>_. 0),
     json_serialize_to_string = (\<lambda>v e. (Some v, e)), json_value_init_object = (\<lambda>e. (Some [], e)),
     json_object_set_string = (\<lambda>obj f v e. (Some obj, e)), json_object_set_value = (\<lambda>obj f v e. (Some obj, e))\<rparr>"

definition example_build :: hsm_build where
  "example_build = \<lparr>built_tpm = False, built_x509 = True, built_symm_key = True, built_http_edge = False\<rparr>"

definition example_modules :: "(unit, int) hsm_modules" where
  "example_modules = \<lparr>tpm_interface = None,
     x509_interface = Some \<lparr>hsm_client_x509_create = Some (\<lambda>e. (Some (), e)), hsm_client_x509_destroy = Some (\<lambda>h e. e),
        hsm_client_x509_get_cert = Some (\<lambda>h e. (Some ''cert'', h, e)), hsm_client_get_key = Some (\<lambda>h e. (Some ''key'', h, e)),
        hsm_client_x509_get_common_name = Some (\<lambda>h e. (Some ''device'', h, e))\<rparr>,
     key_interface = None, http_edge_interface = None\<rparr>"

definition example_factories :: "int factories" where
  "example_factories = \<lparr>g_device_hsm_type = SECURE_DEVICE_TYPE_X509, prov_symm_key = None, prov_symm_key_reg_name = None,
     g_security_type = IOTHUB_SECURITY_TYPE_X509, iothub_symm_key = None, iothub_symm_key_reg_name = None, f_env = 0\<rparr>"

text \<open>The MQTT client is what it will report when it is next worked on.\<close>

definition example_mqtt :: "bool \<Rightarrow> (mqtt_event list, unit, int) mqtt_api" where
  "example_mqtt answers = \<lparr>mqtt_client_init = (\<lambda>e. (Some [], e)), mqtt_client_deinit = (\<lambda>q e. e),
     mqtt_client_connect = (\<lambda>io options q e. ((True, []), q @ [Connack (Some CONNECTION_ACCEPTED)], e)),
     mqtt_client_subscribe = (\<lambda>n topic q e. ((True, []), q @ [Suback (Some [False])], e)),
     mqtt_client_publish = (\<lambda>n topic payload q e. ((True, []), q @ (if answers then [Published (Some ''$dps/registrations/res/200/'') (Some [])] else []), e)),
     mqtt_client_disconnect = (\<lambda>q e. ((True, []), q, e)), mqtt_client_dowork = (\<lambda>q e. (((), q), [], e)),
     mqtt_client_set_trace = (\<lambda>b q. q), mqttmessage_create_in_place = (\<lambda>n topic payload e. (True, e)),
     has_default_tlsio = True, has_wsio = True, xio_create_tls = (\<lambda>c e. (Some (), e)), xio_create_ws = (\<lambda>c e. (Some (), e)),
     xio_setoption = (\<lambda>n v io e. (True, io, e)), xio_destroy = (\<lambda>io e. e),
     XIO_TRUSTED_CERT = ''TrustedCerts'', XIO_X509_ECC_CERT = ''x509EccCertificate'', XIO_X509_ECC_KEY = ''x509EccAliasKey''\<rparr>"

definition example_api ::
  "bool \<Rightarrow> int \<Rightarrow> ((unit, int) PROV_AUTH_INFO, (mqtt_event list, unit, int) PROV_TRANSPORT_MQTT_INFO, string, int) prov_client_api" where
  "example_api answers tick = mqtt_client_api example_os example_crypto example_json example_build example_modules example_factories
     (example_mqtt answers) (mqtt_transport_io (example_mqtt answers)) (\<lambda>e. (True, e)) (\<lambda>e. (Some (of_int e), e + tick)) ''TrustedCerts'' ''proxy_data''"

text \<open>A careful run of the example in which every call succeeds, and what holds of the client it ends in.\<close>

definition example_ends :: "bool \<Rightarrow> int \<Rightarrow> prov_op list
    \<Rightarrow> (((unit, int) PROV_AUTH_INFO, (mqtt_event list, unit, int) PROV_TRANSPORT_MQTT_INFO, int) PROV_INSTANCE_INFO \<Rightarrow> bool) \<Rightarrow> bool" where
  "example_ends answers tick ops Q =
     (case Prov_Device_LL_Create (example_api answers tick) (Some ''dps'') (Some ''scope'') True 0 of
        Done (h, e) \<Rightarrow>
          careful_run (example_api answers tick) ops h
          \<and> (case run_ops (prov_do (example_api answers tick)) ops h of
               Done (rs, Some p) \<Rightarrow> rs = map (\<lambda>_. PROV_DEVICE_RESULT_OK) ops \<and> Q p
             | _ \<Rightarrow> False)
      | _ \<Rightarrow> False)"

text \<open>What the simplifier unfolds to run it.\<close>

lemmas example_evals =
  hsm_call_def encode_value_def load_registration_id_def hmac_with_key_def sign_sas_data_def size_tToString_def
  sas_payload_def prov_sas_token_def prov_auth_construct_sas_token_def no_functions_def select_functions_def
  prov_auth_create_def prov_auth_destroy_def prov_auth_get_type_def prov_auth_get_registration_id_def
  prov_auth_set_registration_id_def buffer_from_def prov_auth_get_endorsement_key_def prov_auth_get_storage_key_def
  prov_auth_import_key_def prov_auth_get_certificate_def prov_auth_get_alias_key_def prov_auth_services_def
  PROV_GET_THROTTLE_TIME_def MAX_PROV_GET_THROTTLE_TIME_def PROV_API_VERSION_def PROV_DEVICE_CLIENT_VERSION_def
  SAS_TOKEN_DEFAULT_LIFETIME_def on_prov_env_def on_auth_def on_prov_transport_def tell_prov_def tell_registered_def
  tell_status_def retrieve_status_type_def retrieve_json_number_def retrieve_json_payload_def
  retrieve_json_string_def refuse_def empty_info_def reply_status_def reply_unassigned_def reply_assigning_def
  reply_tpm_key_def reply_assigned_def reply_error_def prov_transport_process_json_reply_def
  construct_security_type_json_def prov_transport_create_json_payload_def registration_scope_def
  prov_transport_challenge_callback_def on_transport_status_def cleanup_prov_info_def fail_with_def
  fail_unless_known_def on_transport_registration_data_def run_transport_def destroy_instance_def new_instance_def
  give_up_instance_def transport_hsm_type_def start_client_def Prov_Device_LL_Create_def Prov_Device_LL_Destroy_def
  forget_registration_id_def registration_keys_def open_registration_def fetch_registration_id_def
  Prov_Device_LL_Register_Device_def read_ticks_def may_send_def work_register_send_def work_status_send_def
  check_timeout_def report_error_def work_by_state_def Prov_Device_LL_DoWork_def ok_or_error_def
  set_registration_id_def set_prov_option_def Prov_Device_LL_SetOption_def Prov_Device_LL_GetVersionString_def
  Prov_Device_LL_Set_Provisioning_Payload_def Prov_Device_LL_Get_Provisioning_Payload_def CONNECTION_ACCEPTED_def
  mqtt_failed_def MQTT_SUBSCRIBE_TOPIC_def MQTT_TOPIC_STATUS_PREFIX_def RETRY_AFTER_KEY_VALUE_def
  PROV_STATUS_CODE_TRANSIENT_ERROR_def register_topic_def status_topic_def mqtt_user_def get_next_packet_id_def
  atol_def parse_retry_after_value_def get_retry_after_property_def transient_reply_def read_topic_def
  mqtt_notification_callback_def on_mqtt_def send_mqtt_message_def send_register_message_def
  send_operation_status_message_def subscribe_to_topic_def construct_username_def create_transport_io_object_def
  drop_transport_io_def set_io_option_def lose_io_def set_x509_identity_def construct_transport_def
  connect_client_def create_connection_def no_proxy_def prov_transport_common_mqtt_create_def
  prov_transport_common_mqtt_destroy_def prov_transport_common_mqtt_open_def closing_mqtt_def
  prov_transport_common_mqtt_close_def prov_transport_common_mqtt_register_device_def
  prov_transport_common_mqtt_get_operation_status_def sent_or_failed_def mqtt_idle_def handle_reply_def
  read_reply_def transport_turn_def connected_turn_def prov_transport_common_mqtt_dowork_def
  prov_transport_common_mqtt_set_trace_def prov_transport_common_mqtt_x509_cert_def
  prov_transport_common_mqtt_set_trusted_cert_def copy_if_given_def prov_transport_common_mqtt_set_proxy_def
  prov_transport_common_mqtt_set_option_def MQTT_PORT_NUM_def MQTT_WS_PORT_NUM_def io_proxy_def tls_to_def
  mqtt_transport_io_def mqtt_transport_ws_io_def mqtt_provider_def Prov_Device_MQTT_Protocol_def
  Prov_Device_MQTT_WS_Protocol_def option_typed_def mqtt_client_api_def call_ptr_def hsm_client_key_create_def
  hsm_client_key_destroy_def strcpy_of_def hsm_client_get_symmetric_key_def hsm_client_get_registration_name_def
  hsm_client_set_key_info_def hsm_client_key_interface_def initialize_hsm_system_def deinitialize_hsm_system_def
  on_f_env_def store_names_def prov_dev_security_get_type_def prov_dev_get_symmetric_key_def
  prov_dev_get_symm_registration_name_def iothub_security_type_def iothub_security_get_symmetric_key_def
  iothub_security_get_symm_registration_name_def example_os_def example_crypto_def example_json_def
  example_build_def example_modules_def example_factories_def example_mqtt_def example_api_def example_ends_def
  malloc_of_def or_null_def Let_def call_ptr_def ISDIGIT_def str_nat_def

lemma example_reaches:
  assumes "example_ends answers tick ops Q" "ops \<noteq> []"
  shows "\<exists>p. prov_reaches (example_api answers tick) (sum_list (map (\<lambda>op. taken_on op PROV_DEVICE_RESULT_OK) ops)) p \<and> Q p"
proof -
  from assms(1) obtain h e rs p where made: "Prov_Device_LL_Create (example_api answers tick) (Some ''dps'') (Some ''scope'') True 0 = Done (h, e)"
      and run: "careful_run (example_api answers tick) ops h" "run_ops (prov_do (example_api answers tick)) ops h = Done (rs, Some p)"
      and ends: "rs = map (\<lambda>_. PROV_DEVICE_RESULT_OK) ops" "Q p"
    by (auto simp: example_ends_def split: run.splits option.splits)
  from run(1) assms(2) obtain q where q: "h = Some q" by (cases h; cases ops) auto
  have "map2 taken_on ops rs = map (\<lambda>op. taken_on op PROV_DEVICE_RESULT_OK) ops"
    unfolding ends(1) by (induction ops) simp_all
  with runs_reach [OF prov_created [OF made [unfolded q]], of ops rs p] run ends(2) q show ?thesis by auto
qed

lemma example_laws: "base32_laws example_crypto" "broker_waits (example_mqtt answers) (\<lambda>q. \<not> list_ex message_event q)"
  by (auto simp: base32_laws_def example_crypto_def broker_waits_def keeps_waiting_def example_mqtt_def)

lemma example_laws_hold:
  "base32_laws example_crypto \<and> broker_waits (example_mqtt answers) (\<lambda>q. \<not> list_ex message_event q)"
  by (simp add: example_laws)

definition example_registration :: "prov_op list" where
  "example_registration = [RegisterOp (Some 7) 8 (Some 3) 0, WorkOp, WorkOp, WorkOp, WorkOp, WorkOp, WorkOp, WorkOp]"

lemma example_registered:
  "\<exists>p. prov_reaches (example_api True 2000) {#(7, 8)#} p \<and> prov_state p = CLIENT_STATE_READY
     \<and> prov_calls p = [StatusReported 3 PROV_DEVICE_REG_STATUS_CONNECTED 0,
         DeviceRegistered 7 PROV_DEVICE_RESULT_OK (Some ''assignedHub'') (Some ''deviceId'') 8]"
proof -
  have "example_ends True 2000 example_registration (\<lambda>p. prov_state p = CLIENT_STATE_READY
      \<and> prov_calls p = [StatusReported 3 PROV_DEVICE_REG_STATUS_CONNECTED 0,
          DeviceRegistered 7 PROV_DEVICE_RESULT_OK (Some ''assignedHub'') (Some ''deviceId'') 8])"
    by (simp add: example_evals example_registration_def)
  from example_reaches [OF this] show ?thesis by (simp add: example_registration_def)
qed

section \<open>Registrations are answered once\<close>

text \<open>C12: Whatever the user of a client on MQTT asks, as long as it starts no registration over one that runs under
  an id it did not choose: every registration the client accepted has been answered exactly once, or is
  the one that is running. A client that is ready runs none and its transport is closed; any other runs
  one and its transport is open.
\<close>

theorem registrations_are_answered_once:
  assumes "base32_laws cr \<and> broker_waits mq waiting"
    and "prov_reaches (mqtt_client_api os cr js b m g mq tio ticks now cert proxy) asked p"
  shows "asked = pending p + answered (prov_calls p)
    \<and> (prov_state p = CLIENT_STATE_READY \<longleftrightarrow> pending p = {#}) \<and> size (pending p) \<le> 1
    \<and> (\<exists>t. transport_handle p = Some t \<and> (mqtt_open t \<longleftrightarrow> prov_state p \<noteq> CLIENT_STATE_READY))"
proof -
  from mqtt_provisioning.reaches_good [OF assms]
  have "prov_inv (prov_auth_services os cr b m g) (lawful_identity cr) (mqtt_sound mq waiting) mqtt_open p" "owed p = asked" by simp_all
  then show ?thesis by (auto simp: owed_def pending_def prov_inv_def)
qed

theorem registrations_are_answered_once_witness:
  "\<exists>p. prov_reaches (example_api True 2000) {#(7, 8)#} p \<and> pending p = {#} \<and> answered (prov_calls p) = {#(7, 8)#}"
proof -
  from example_registered obtain p where p: "prov_reaches (example_api True 2000) {#(7, 8)#} p" "prov_state p = CLIENT_STATE_READY" by auto
  from registrations_are_answered_once [OF example_laws_hold p(1) [unfolded example_api_def]] p show ?thesis by auto
qed



section \<open>Failures and timeouts\<close>

text \<open>What the transport reports is told after what was told before.\<close>

lemma notices_tell_later: "\<exists>evs. prov_calls (fold take_notice ns p) = prov_calls p @ evs"
proof (induction ns arbitrary: p)
  case (Cons n ns)
  have "\<exists>evs. prov_calls (take_notice n p) = prov_calls p @ evs"
  proof (cases n)
    case (ErrorNotice err)
    then show ?thesis by (cases err) simp_all
  next
    case (StatusNotice st i)
    then show ?thesis
      by (cases st) (simp_all add: on_transport_status_def Let_def tell_status_def tell_prov_def split: option.split)
  qed
  with Cons.IH [of "take_notice n p"] show ?case by auto
qed simp

lemma cleanup_tells_later:
  assumes "cleanup_prov_info api p = Done p'"
  shows "\<exists>evs. prov_calls p' = prov_calls p @ evs"
proof (cases "transport_open p")
  case True
  with assms obtain t ns t' e where t: "transport_handle p = Some t" "prov_transport_close (p_transport api) t (prov_env p) = (ns, t', e)"
    by (auto simp: cleanup_prov_info_def on_prov_transport_def run_bind_Done_iff split: option.splits prod.splits)
  with True assms have "prov_calls p' = prov_calls (fold take_notice ns (p\<lparr>transport_handle := Some t', prov_env := e\<rparr>))"
    by (auto simp: cleanup_prov_info_def on_prov_transport_def)
  then show ?thesis using notices_tell_later [of ns "p\<lparr>transport_handle := Some t', prov_env := e\<rparr>"] by simp
qed (use assms in \<open>auto simp: cleanup_prov_info_def\<close>)

context provisioning
begin

lemma error_is_reported:
  assumes "inv p" "prov_state p = CLIENT_STATE_ERROR"
  shows "error_reason p \<noteq> PROV_DEVICE_RESULT_OK
    \<and> (\<exists>p' cb evs. Prov_Device_LL_DoWork api (Some p) = Done (Some p') \<and> prov_state p' = CLIENT_STATE_READY
         \<and> register_callback p = Some cb
         \<and> prov_calls p' = prov_calls p @ DeviceRegistered cb (error_reason p) None None (user_context p) # evs)"
proof -
  from assms obtain cb where cb: "register_callback p = Some cb" by (auto simp: prov_inv_def)
  define q where "q = (tell_prov (DeviceRegistered cb (error_reason p) None None (user_context p)) p)\<lparr>prov_state := CLIENT_STATE_READY\<rparr>"
  have report: "report_error api p = cleanup_prov_info api q"
    by (simp add: report_error_def tell_registered_def cb q_def)
  from report_error_good [OF assms(1)] assms(2) obtain p' where p': "report_error api p = Done p'" "prov_state p' = CLIENT_STATE_READY"
    by (auto simp: run_sat_total)
  from cleanup_tells_later [OF p'(1) [unfolded report]]
  have "\<exists>evs. prov_calls p' = prov_calls p @ DeviceRegistered cb (error_reason p) None None (user_context p) # evs"
    by (auto simp: q_def tell_prov_def)
  moreover have "Prov_Device_LL_DoWork api (Some p) = Done (Some p')"
    using assms(2) p'(1) by (simp add: Prov_Device_LL_DoWork_def work_by_state_def)
  moreover have "error_reason p \<noteq> PROV_DEVICE_RESULT_OK" using assms by (simp add: prov_inv_def)
  ultimately show ?thesis using p'(2) cb by blast
qed

lemma wait_times_out:
  assumes "inv p" "prov_state p \<noteq> CLIENT_STATE_ERROR"
    and turn: "run_transport api (prov_transport_dowork (p_transport api)) p = Done ((), q)"
    and waits: "prov_state q = CLIENT_STATE_REGISTER_SENT \<or> prov_state q = CLIENT_STATE_STATUS_SENT"
    and late: "prov_timeout q > 0" "fst (read_ticks api q) = Some n"
      "(n - timeout_value q) div 1000 > ucast (prov_timeout q)"
  shows "\<exists>p1. Prov_Device_LL_DoWork api (Some p) = Done (Some p1) \<and> inv p1 \<and> prov_state p1 = CLIENT_STATE_ERROR
    \<and> error_reason p1 = PROV_DEVICE_RESULT_TIMEOUT \<and> prov_calls p1 = prov_calls q \<and> user_context p1 = user_context q
    \<and> register_callback p1 = register_callback q"
proof -
  obtain q1 where q1: "read_ticks api q = (Some n, q1)" using late(2) by (cases "read_ticks api q") auto
  have kept: "core_kept q q1" using core_kept_env q1 by (fastforce simp: read_ticks_def)
  have out: "check_timeout api q = fail_with PROV_DEVICE_RESULT_TIMEOUT q1"
    using late q1 kept by (simp add: check_timeout_def Let_def core_kept_def)
  have "work_by_state api q = Done (check_timeout api q)"
    using waits by (auto simp: work_by_state_def)
  then have "Prov_Device_LL_DoWork api (Some p) = Done (Some (fail_with PROV_DEVICE_RESULT_TIMEOUT q1))"
    using assms(2) turn out by (simp add: Prov_Device_LL_DoWork_def)
  moreover from DoWork_good [OF assms(1)] this have "inv (fail_with PROV_DEVICE_RESULT_TIMEOUT q1)" by simp
  ultimately show ?thesis using kept by (simp add: fail_with_def core_kept_def)
qed

lemma early_sends_nothing:
  assumes "inv p" "is_connected p" "prov_state p = CLIENT_STATE_REGISTER_SEND \<or> prov_state p = CLIENT_STATE_STATUS_SEND"
    and "read_ticks api p = (Some n, q)" "unat (n - last_send_time_ms p) \<le> 1000"
  shows "work_by_state api p = Done q"
proof -
  have "core_kept p q" using core_kept_env assms(4) by (fastforce simp: read_ticks_def)
  then have "last_send_time_ms q = last_send_time_ms p" "retry_after_ms q = retry_after_ms p" by (simp_all add: core_kept_def)
  moreover have "1000 \<le> unat (retry_after_ms p)" using assms(1) by (simp add: prov_inv_def paced_def)
  ultimately have "\<not> may_send n q" using assms(5) by (simp add: may_send_def word_less_nat_alt)
  with assms(2-4) show ?thesis by (auto simp: work_by_state_def work_register_send_def work_status_send_def)
qed

end



text \<open>C15: A registration does not wait for ever. When a client on MQTT waits for an answer of the service after
  the turn of its transport, it has a timeout, and the clock says that it has lasted more seconds than
  the timeout, the turn makes it fail with TIMEOUT and the next one tells the callback so and leaves the
  client ready.
\<close>

theorem waits_end_in_a_timeout:
  assumes "base32_laws cr \<and> broker_waits mq waiting"
    and api: "api = mqtt_client_api os cr js b m g mq tio ticks now cert proxy"
    and "prov_reaches api asked p" "prov_state p \<noteq> CLIENT_STATE_ERROR"
    and "run_transport api (prov_transport_dowork (p_transport api)) p = Done ((), q)"
    and "prov_state q = CLIENT_STATE_REGISTER_SENT \<or> prov_state q = CLIENT_STATE_STATUS_SENT"
    and "prov_timeout q > 0" "fst (read_ticks api q) = Some n"
    and "(n - timeout_value q) div 1000 > ucast (prov_timeout q)"
  shows "\<exists>p1 p2 cb evs. Prov_Device_LL_DoWork api (Some p) = Done (Some p1) \<and> Prov_Device_LL_DoWork api (Some p1) = Done (Some p2)
    \<and> prov_state p2 = CLIENT_STATE_READY \<and> register_callback q = Some cb
    \<and> prov_calls p2 = prov_calls q @ DeviceRegistered cb PROV_DEVICE_RESULT_TIMEOUT None None (user_context q) # evs"
proof -
  from mqtt_provisioning.reaches_good [OF assms(1) assms(3) [unfolded api]]
  have inv: "prov_inv (p_auth (mqtt_client_api os cr js b m g mq tio ticks now cert proxy)) (lawful_identity cr)
      (mqtt_sound mq waiting) mqtt_open p" by simp
  from mqtt_provisioning.wait_times_out [OF inv assms(4) assms(5-9) [unfolded api]]
  obtain p1 where p1: "Prov_Device_LL_DoWork api (Some p) = Done (Some p1)"
      "prov_inv (p_auth (mqtt_client_api os cr js b m g mq tio ticks now cert proxy)) (lawful_identity cr)
        (mqtt_sound mq waiting) mqtt_open p1" "prov_state p1 = CLIENT_STATE_ERROR"
      "error_reason p1 = PROV_DEVICE_RESULT_TIMEOUT" "prov_calls p1 = prov_calls q" "user_context p1 = user_context q"
      "register_callback p1 = register_callback q"
    unfolding api by auto
  from mqtt_provisioning.error_is_reported [OF p1(2,3)] p1 show ?thesis
    unfolding api by auto
qed

theorem waits_end_in_a_timeout_witness:
  "\<exists>p p1 p2 evs. prov_reaches (example_api False 2000) {#(7, 8)#} p
     \<and> Prov_Device_LL_DoWork (example_api False 2000) (Some p) = Done (Some p1)
     \<and> Prov_Device_LL_DoWork (example_api False 2000) (Some p1) = Done (Some p2)
     \<and> prov_calls p2 = DeviceRegistered 7 PROV_DEVICE_RESULT_TIMEOUT None None 8 # evs"
proof -
  have "example_ends False 2000 [RegisterOp (Some 7) 8 None 0, WorkOp, WorkOp, WorkOp, WorkOp,
        OptionOp (Some ''provisioning_timeout'') (Some (ByteValue 1))]
      (\<lambda>p. prov_state p \<noteq> CLIENT_STATE_ERROR \<and>
        (case run_transport (example_api False 2000) (prov_transport_dowork (p_transport (example_api False 2000))) p of
           Done (r, q) \<Rightarrow> prov_state q = CLIENT_STATE_REGISTER_SENT \<and> prov_timeout q > 0
             \<and> fst (read_ticks (example_api False 2000) q) = Some 8000
             \<and> (8000 - timeout_value q) div 1000 > ucast (prov_timeout q)
             \<and> register_callback q = Some 7 \<and> user_context q = 8 \<and> prov_calls q = []
         | _ \<Rightarrow> False))"
    by (simp add: example_evals)
  from example_reaches [OF this] obtain p where p: "prov_reaches (example_api False 2000) {#(7, 8)#} p" "prov_state p \<noteq> CLIENT_STATE_ERROR"
      and after: "case run_transport (example_api False 2000) (prov_transport_dowork (p_transport (example_api False 2000))) p of
           Done (r, q) \<Rightarrow> prov_state q = CLIENT_STATE_REGISTER_SENT \<and> prov_timeout q > 0
             \<and> fst (read_ticks (example_api False 2000) q) = Some 8000
             \<and> (8000 - timeout_value q) div 1000 > ucast (prov_timeout q)
             \<and> register_callback q = Some 7 \<and> user_context q = 8 \<and> prov_calls q = []
         | _ \<Rightarrow> False" by auto
  from after obtain q where turn: "run_transport (example_api False 2000) (prov_transport_dowork (p_transport (example_api False 2000))) p = Done ((), q)"
    by (cases "run_transport (example_api False 2000) (prov_transport_dowork (p_transport (example_api False 2000))) p") auto
  from after have q: "prov_state q = CLIENT_STATE_REGISTER_SENT \<or> prov_state q = CLIENT_STATE_STATUS_SENT" "prov_timeout q > 0"
        "fst (read_ticks (example_api False 2000) q) = Some 8000" "(8000 - timeout_value q) div 1000 > ucast (prov_timeout q)"
        "register_callback q = Some 7" "user_context q = 8" "prov_calls q = []"
    by (simp_all add: turn)
  from waits_end_in_a_timeout [OF example_laws_hold example_api_def p turn q(1-4)] p(1) q(5-7) show ?thesis by auto
qed



section \<open>Replies\<close>




lemma refuse_Some [simp]: "refuse reason p \<noteq> (Some x, p')"
  by (simp add: refuse_def)






end
