(* ===== verification/Spec2Isabelle.thy ===== *)
theory Spec2Isabelle
  imports ClientRuns MultiTree JsonDecoder JsonEncoder Options MessageQueue RetryControl CbsAuth Message Diagnostic Blob
  Authorization CbsCredentials AmqpDevice EdmMade HubAuth ProvProperties
begin

text \<open>
  A model of core components of the Azure IoT SDK for C, with the theorems that make them correct.

  The program. An application calls the device client (iothub\_client), which queues its messages
  (iothub\_message.c, with diagnostic data from iothub\_client\_diagnostic.c) and hands them to a
  transport. The AMQP transport authenticates the device over a CBS link
  (iothubtransport\_amqp\_cbs\_auth.c) with tokens from the authorization module
  (iothub\_client\_authorization.c), keeps its messages in message queues (message\_queue.c) and asks
  the retry control (iothub\_client\_retry\_control.c) when to reconnect. Files are uploaded in blocks
  (blob.c). The serializer turns JSON text into a tree of names and values and back (jsondecoder.c,
  jsonencoder.c, multitree.c); its values are those of the type system (agenttypesystem.c).

  A device that does not know its hub asks the provisioning service for it (provisioning\_client).
  The application chooses a security module with the factories (prov\_security\_factory.c and
  iothub\_security\_factory.c); the identity (prov\_auth\_client.c) takes its keys and signs tokens with
  it; the client (prov\_device\_ll\_client.c) registers the device over a transport, here MQTT
  (prov\_transport\_mqtt\_common.c), whose turns call back the client for tokens, JSON and results.

  How the model corresponds to the code. A struct is a record with the fields of the struct, an enum
  a datatype with its constructors, a function a definition of the same name; a function whose
  name is taken (a static helper, a loop) has a name of its own, and the manifest gives its lines.
  A handle that may be NULL is an option. Code that reads memory or loops answers in the type
  \<open>run\<close> of Sdk\_Prelude, which tells a value (Done) from an access outside defined behaviour (Fault)
  and from spent fuel (NoFuel). The allocator, the clock and the random source are the record
  \<open>os\<close>; they have a state of any type and may fail at any call. Libraries that are not part of
  the repository (azure\_c\_shared\_utility, the CBS link of uAMQP, the MQTT client of uMQTT, parson,
  the security modules, the callbacks of the application) are records of functions that the definitions take as arguments;
  what a theorem needs of them is a named hypothesis or a locale, and examples instantiate them.

  The theories.

  Sdk\_Prelude: runs, the environment, C strings and decimal printing, steps that may answer NULL,
  and the locale \<open>stepper\<close>, the invariants of state machines, interpreted by each stateful component.

  MultiTree (multitree.c): the tree of names, a recursive record; the path functions
  \<open>MultiTree_AddLeaf\<close> and \<open>MultiTree_GetLeafValue\<close> walk its segments. The locale of name tables is
  interpreted on it. Adding a leaf refines an update of the map from paths to values, exactly
  when it succeeds is stated, names stay distinct and no operation breaks that.

  JsonDecoder (jsondecoder.c): the recursive descent parser on a buffer with a position, which
  overwrites the bytes behind the values it finds. It never touches memory outside its text, it
  ends on every text with fuel linear in its length, and a tree it returns has the shape of the text.

  JsonEncoder (jsonencoder.c): the text of a tree, appended to the destination, and exactly which
  trees are refused.

  EdmTypes, EdmPrint, EdmParse (agenttypesystem.c): the values of the type system, one constructor for
  each member of the union, the functions that create, copy, take apart and destroy them; what
  AgentDataTypes\_ToString prints of each, and what CreateAgentDataType\_From\_String reads, with a
  position in the source text that may not leave it and a buffer that may not overflow.
  The lemmas on them are by subject: EdmCopies (well-formed values, copies), EdmNumbers (decimal
  numerals at each width), EdmBuffers (every text fits its buffer), EdmDates (dates, times and the
  calendar), EdmBytes (base64 and GUIDs), EdmReading (reading any text is safe and gives a well-formed
  value of the type asked for), EdmValues (the text of every value, JSON objects for complex ones, and
  what reads back), EdmMade (every value a program can make is well formed).

  Options: the interface by which components save and restore their options, a locale with two
  providers, the message queue and the retry control (CBS authentication interprets it too).

  MessageQueue (message\_queue.c): pending and in-progress messages on a linked list (a locale with
  the documented laws of singlylinkedlist), timeouts, retries and completions. Through any calls a
  message is held once or was answered once; each operation is given its list function.

  RetryControl (iothub\_client\_retry\_control.c): the six policies; the wait between two retries is
  never shorter than the policy asks, the bounds of exponential back-off, and where
  32-bit arithmetic wraps.

  Authorization (iothub\_client\_authorization.c): the credentials and their type, and where each
  token comes from.

  CbsAuth (iothubtransport\_amqp\_cbs\_auth.c): the authentication state machine on any source of
  tokens; what it reports is a chain of states, at most one token is in flight.

  CbsCredentials: the two together, as the transport composes them. The locale \<open>token_source\<close> is
  what the state machine asks of its source, the authorization module is its interpretation.

  Message (iothub\_message.c): the message object, its system properties (one locale, interpreted
  for each of them), its user properties and its copies.

  Diagnostic (iothub\_client\_diagnostic.c): which messages are sampled, and the identifiers drawn.

  LinkedList: the list library as an argument with its documented laws, and an implementation of
  them; MessageQueue and the client core use it.

  AmqpDevice (iothubtransport\_amqp\_device.c): the state machine of a device on the AMQP transport,
  with CbsAuth embedded and the two messengers as arguments; what it reports of its state, when it
  gives up, and what it keeps through any calls.

  ClientHandle, ClientInputs, ClientQueues, ClientSettings, ClientCore
  (iothub\_client\_core\_ll.c): a client handle and its operations. A call of the transport is
  a program over the client, the type \<open>work\<close>: it takes events from the queue that waits, confirms
  some, reports states, delivers messages, and the client answers each step. Callbacks of the user
  answer and do not call the client again. ClientInputs holds the handlers of named inputs, on a heap
  of handler objects, where a handler can be left dangling; the list refines a map.

  ClientLedger, ClientSteps, ClientRuns: what is owed to the user and what was answered, as multisets.
  \<open>transport_laws\<close> is what a transport promises (it confirms what it took, once); the locale \<open>account\<close>
  is a balance that every step keeps, interpreted for events, for reported states and for the
  order of twin updates; ClientRuns states them for any sequence of operations up to destruction.

  Blob (blob.c): the blocks of an upload, the list that commits them, and what reaches the service.

  Accounts: runs of operations, and the locale \<open>account\<close> of balances that every step keeps, which the two
  clients share.

  HsmClient (hsm\_client\_data.c, hsm\_client\_key.c, the two factories): the interfaces of security modules,
  the module of a symmetric key, and the static variables of the factories, whose functions call each
  other. After an initialization both factories name the same module.

  ProvAuth (prov\_auth\_client.c): the identity. The locale \<open>auth_contract\<close> is what the client asks of one,
  interpreted on the functions of the identity; what is signed and what stands in a token is a theorem.

  HubAuth (iothub\_auth\_client.c): the same for the hub of the device. The locale \<open>credential_module\<close> is what
  the authorization module asks of it, interpreted on its functions: the tokens Authorization gives
  are signed by the module the factories hold.

  ProvData, ProvReply, ProvClient (prov\_device\_ll\_client.c): the client, its JSON and its operations. A
  transport function is a program over the client, the type \<open>prov_work\<close>: it returns, or it calls the
  client and goes on from the answer, or it leaves defined behaviour.

  ProvMqtt (prov\_transport\_mqtt\_common.c, prov\_transport.h, the clients over TLS and web sockets): the
  transport, with what the MQTT library reports as lists of events. The transport holds no pointers
  to callbacks of the client: a flag says whether they are set.

  ProvSteps: the laws \<open>orderly_transport\<close> that the client needs of a transport (it reports only while
  it is open, and while it closes nothing that restarts a registration), and the invariant of the client under every operation.
  ProvMqttLaws proves these laws for MQTT. ProvRuns has any sequence of calls of the user, the relation
  \<open>prov_reaches\<close>, and interprets \<open>account\<close> for the registrations. ProvProperties draws the conclusions.

  Bounds and fuel. The decoder has fuel, and a theorem that gives a bound under which it returns; the
  recursion of the encoder ends because the tree gets smaller. The walk over the input handlers has fuel \<open>handler_fuel\<close>, two more than
  the number of handlers ever created, which is more than the list can hold; the theorems on handlers show
  that it is enough. The loops of the other components are structural or have a measure. Sizes are
  unbounded naturals except where a width matters: the times and counters of the retry control and the
  expiry of tokens are words, and so are the integers of the type system.

  Conventions of the type system. A float is not a number, an infinity or a sign, a mantissa and an
  exponent; printf rounds it half to even, strtod and strtof are arguments. errno is a flag that says
  that it is not zero. The width of long and DECIMAL\_DIG are arguments. A Create function that fails
  answers its error alone. The code is built with floats (NO\_FLOATS is not defined).

  Conventions of the provisioning client. size\_t has 64 bits. A callback of the user does not call the
  client again. atol answers the bound of long outside its range. The client registers its own functions
  and handle with a transport, so those are never NULL. Two hypotheses state what libraries do:
  \<open>base32_laws\<close>, the base32 text of a digest is not empty, and \<open>broker_waits\<close>, the service publishes
  nothing to a device that has not sent its registration.

  Not modelled. The convenience layers are threads and locks around the lower layers; the HTTP and AMQP
  transports, the MQTT transport of the device client and the service clients are mostly calls of
  libraries that are not part of the repository, as are the TPM and DICE modules. The schema of the
  serializer and its commands are tables behind macros. IoTHubClient\_Auth\_Get\_TrustBundle reads a file.
\<close>

end
